(* ===== verification/Prelude.thy ===== *)
theory Prelude
  imports Complex_Main "HOL-Library.Sublist"
begin

text \<open>
  Shared vocabulary of the development: Python exceptions as values, results and
  effectful calls, rendering of integers and strings, and the generic lemmas the
  component theories use. An effectful call on a world \<open>'w\<close> (Redis, Postgres,
  the upstream process) is a function \<open>'w \<Rightarrow> (exn + 'a) \<times> 'w\<close>: it may raise,
  and the world it leaves is explicit in both cases.
\<close>

section \<open>Exceptions, results, effectful calls\<close>

datatype exn =
    ValueError string
  | SyntaxError string
  | AssertionError
  | TypeError
  | KeyError
  | AttributeError
  | LookupError string
  | RuntimeError string
  | OverflowError
  | StructError
  | OSError string
  | NoFuel
  | IndexError
  | WatchError
  | ServiceError
  | AuthRateLimited int
  | SessionLimitExceeded
  | InflightLimitExceeded
  | DuplicateRequestId
  | BodyRejected int string
  | AuthLimiterUnavailable
  | RateLimiterUnavailable
  | ActivationError
  | VerificationError string
  | HttpError int string
  | DockerError string
  | CliError string
  | DoctorError string
  | QuickstartError string
  | QuickstartUsageError string
  | KeyboardInterrupt

type_synonym 'a res = "exn + 'a"

type_synonym ('w, 'a) io = "'w \<Rightarrow> 'a res \<times> 'w"

text \<open>Simplification of calls whose outcome is known, and of their composition.\<close>

named_theorems io_simps

text \<open>Definitions of the model that evaluate by unfolding (used by the witnesses).\<close>

named_theorems model_defs

fun bind_res :: "'a res \<Rightarrow> ('a \<Rightarrow> 'b res) \<Rightarrow> 'b res" where
  "bind_res (Inl e) f = Inl e"
| "bind_res (Inr a) f = f a"

fun collect_res :: "'a res list \<Rightarrow> 'a list res" where
  "collect_res [] = Inr []"
| "collect_res (r # rs) = bind_res r (\<lambda>a. bind_res (collect_res rs) (\<lambda>as. Inr (a # as)))"

definition ret_io :: "'a \<Rightarrow> ('w, 'a) io" where
  "ret_io a w = (Inr a, w)"

definition raise_io :: "exn \<Rightarrow> ('w, 'a) io" where
  "raise_io e w = (Inl e, w)"

definition bind_io :: "('w, 'a) io \<Rightarrow> ('a \<Rightarrow> ('w, 'b) io) \<Rightarrow> ('w, 'b) io" where
  "bind_io m f w = (case m w of (Inl e, w') \<Rightarrow> (Inl e, w') | (Inr a, w') \<Rightarrow> f a w')"

text \<open>\<open>catch_io m h\<close> is \<open>try: m except Exception: h\<close>.\<close>

definition catch_io :: "('w, 'a) io \<Rightarrow> (exn \<Rightarrow> ('w, 'a) io) \<Rightarrow> ('w, 'a) io" where
  "catch_io m h w = (case m w of (Inl e, w') \<Rightarrow> h e w' | (Inr a, w') \<Rightarrow> (Inr a, w'))"

text \<open>\<open>try: m finally: f\<close>.\<close>

definition finally_io :: "('w, 'a) io \<Rightarrow> ('w, unit) io \<Rightarrow> ('w, 'a) io" where
  "finally_io m f w = (case m w of (r, w1) \<Rightarrow> (case f w1 of (Inl e, w2) \<Rightarrow> (Inl e, w2) | (Inr u, w2) \<Rightarrow> (r, w2)))"

definition of_res :: "'a res \<Rightarrow> ('w, 'a) io" where
  "of_res r w = (r, w)"

text \<open>A call on an outer world, run beside a local state (a database table, a counter).\<close>

definition outer :: "('w, 'a) io \<Rightarrow> ('s \<times> 'w, 'a) io" where
  "outer m p = (case m (snd p) of (r, w') \<Rightarrow> (r, (fst p, w')))"

definition put_own :: "'s \<Rightarrow> ('s \<times> 'w, unit) io" where
  "put_own s p = (Inr (), (s, snd p))"

lemma bind_res_Inr_iff: "bind_res r f = Inr b \<longleftrightarrow> (\<exists>a. r = Inr a \<and> f a = Inr b)"
  by (cases r) auto

lemma bind_res_Inl_iff:
  "bind_res r f = Inl e \<longleftrightarrow> r = Inl e \<or> (\<exists>a. r = Inr a \<and> f a = Inl e)"
  by (cases r) auto

lemma ret_io_app [simp, io_simps]: "ret_io a w = (Inr a, w)"
  by (simp add: ret_io_def)

lemma raise_io_app [simp, io_simps]: "raise_io e w = (Inl e, w)"
  by (simp add: raise_io_def)

lemma of_res_app [simp, io_simps]: "of_res r w = (r, w)"
  by (simp add: of_res_def)

lemma outer_app [simp, io_simps]:
  "outer m (s, w) = (case m w of (r, w') \<Rightarrow> (r, (s, w')))"
  by (simp add: outer_def)

lemma put_own_app [simp, io_simps]: "put_own s (s0, w) = (Inr (), (s, w))"
  by (simp add: put_own_def)

lemma bind_io_Inr [io_simps]: "m w = (Inr a, w') \<Longrightarrow> bind_io m f w = f a w'"
  by (simp add: bind_io_def)

lemma bind_io_Inl [io_simps]: "m w = (Inl e, w') \<Longrightarrow> bind_io m f w = (Inl e, w')"
  by (simp add: bind_io_def)

lemma catch_io_Inr [io_simps]: "m w = (Inr a, w') \<Longrightarrow> catch_io m h w = (Inr a, w')"
  by (simp add: catch_io_def)

lemma catch_io_Inl [io_simps]: "m w = (Inl e, w') \<Longrightarrow> catch_io m h w = h e w'"
  by (simp add: catch_io_def)

lemma bind_io_InrD:
  "bind_io m f w = (Inr b, w'') \<Longrightarrow> \<exists>a w'. m w = (Inr a, w') \<and> f a w' = (Inr b, w'')"
  by (auto simp: bind_io_def split: prod.splits sum.splits)

lemma bind_io_InrE:
  assumes "bind_io m f w = (Inr b, w'')"
  obtains a w' where "m w = (Inr a, w')" and "f a w' = (Inr b, w'')"
  using bind_io_InrD [OF assms] by blast

lemma catch_io_cases:
  assumes "catch_io m h w = (r, w'')"
  obtains (ok) a where "m w = (Inr a, w'')" and "r = Inr a"
  | (raised) e w' where "m w = (Inl e, w')" and "h e w' = (r, w'')"
  using assms by (auto simp: catch_io_def split: prod.splits sum.splits)

lemma collect_res_Inr_length: "collect_res rs = Inr as \<Longrightarrow> length as = length rs"
  by (induction rs arbitrary: as) (auto simp: bind_res_Inr_iff)

lemma collect_res_Inr_nth:
  "collect_res rs = Inr as \<Longrightarrow> i < length rs \<Longrightarrow> rs ! i = Inr (as ! i)"
  by (induction rs arbitrary: as i) (auto simp: bind_res_Inr_iff nth_Cons split: nat.splits)

lemma collect_res_Inr_mem:
  "collect_res rs = Inr as \<Longrightarrow> r \<in> set rs \<Longrightarrow> \<exists>a \<in> set as. r = Inr a"
  by (induction rs arbitrary: as) (auto simp: bind_res_Inr_iff)

lemma collect_res_Inr_ex:
  "collect_res rs = Inr as \<Longrightarrow> a \<in> set as \<Longrightarrow> Inr a \<in> set rs"
  by (induction rs arbitrary: as) (auto simp: bind_res_Inr_iff)

lemma collect_res_all_Inr: "collect_res (map (\<lambda>x. Inr (f x)) xs) = Inr (map f xs)"
  by (induction xs) auto

section \<open>Rendering of integers and strings\<close>

definition digit_char :: "nat \<Rightarrow> char" where
  "digit_char n = char_of (48 + n)"

lemma digit_chars [simp]:
  "digit_char 0 = CHR ''0''" "digit_char (Suc 0) = CHR ''1''" "digit_char 2 = CHR ''2''"
  "digit_char 3 = CHR ''3''" "digit_char 4 = CHR ''4''" "digit_char 5 = CHR ''5''"
  "digit_char 6 = CHR ''6''" "digit_char 7 = CHR ''7''" "digit_char 8 = CHR ''8''"
  "digit_char 9 = CHR ''9''"
  by code_simp+

function nat_str :: "nat \<Rightarrow> string" where
  "nat_str n =
     (if n < 10 then [digit_char n] else nat_str (n div 10) @ [digit_char (n mod 10)])"
  by pat_completeness auto
termination
  by (relation "measure id") auto

declare nat_str.simps [simp del]

definition int_str :: "int \<Rightarrow> string" where
  "int_str i = (if i < 0 then ''-'' @ nat_str (nat (- i)) else nat_str (nat i))"

text \<open>
  \<open>repr\<close> of a string of code points below 256: the quote is \<open>'\<close> unless the text has
  one and no double quote; backslash, the quote and unprintable characters are escaped.
\<close>

definition hex_digit :: "nat \<Rightarrow> char" where
  "hex_digit n = (if n < 10 then char_of (48 + n) else char_of (87 + n))"

definition printable :: "char \<Rightarrow> bool" where
  "printable c \<longleftrightarrow>
     (let n = (of_char c :: nat)
      in (32 \<le> n \<and> n < 127) \<or> (160 < n \<and> n \<noteq> 173))"

definition quote_char :: "string \<Rightarrow> char" where
  "quote_char s =
     (if CHR 0x27 \<in> set s \<and> CHR 0x22 \<notin> set s then CHR 0x22 else CHR 0x27)"

definition repr_char :: "char \<Rightarrow> char \<Rightarrow> string" where
  "repr_char q c =
     (if c = q \<or> c = CHR 0x5C then [CHR 0x5C, c]
      else if c = CHR 0x0A then [CHR 0x5C, CHR ''n'']
      else if c = CHR 0x0D then [CHR 0x5C, CHR ''r'']
      else if c = CHR 0x09 then [CHR 0x5C, CHR ''t'']
      else if printable c then [c]
      else (let n = (of_char c :: nat)
            in [CHR 0x5C, CHR ''x'', hex_digit (n div 16), hex_digit (n mod 16)]))"

definition py_repr :: "string \<Rightarrow> string" where
  "py_repr s =
     (let q = quote_char s in [q] @ concat (map (repr_char q) s) @ [q])"

text \<open>\<open>sep.join(parts)\<close>.\<close>

fun join_with :: "string \<Rightarrow> string list \<Rightarrow> string" where
  "join_with sep [] = []"
| "join_with sep [x] = x"
| "join_with sep (x # y # xs) = x @ sep @ join_with sep (y # xs)"

section \<open>Lists and maps\<close>

text \<open>Association lists with the update that keeps a key's position (a Python dict).\<close>

fun al_put :: "'k \<Rightarrow> 'v \<Rightarrow> ('k \<times> 'v) list \<Rightarrow> ('k \<times> 'v) list" where
  "al_put k v [] = [(k, v)]"
| "al_put k v ((k', v') # kvs) = (if k = k' then (k, v) # kvs else (k', v') # al_put k v kvs)"

text \<open>\<open>{k: v for (k, v) in pairs}\<close>: later entries win, at the first entry's position.\<close>

definition dict_of :: "('k \<times> 'v) list \<Rightarrow> ('k \<times> 'v) list" where
  "dict_of kvs = foldl (\<lambda>d (k, v). al_put k v d) [] kvs"

lemma map_of_al_put [simp]: "map_of (al_put k v d) = (map_of d)(k \<mapsto> v)"
  by (induction k v d rule: al_put.induct) (auto simp: fun_eq_iff)

lemma keys_al_put: "fst ` set (al_put k v d) = insert k (fst ` set d)"
  by (induction k v d rule: al_put.induct) auto

lemma distinct_al_put: "distinct (map fst d) \<Longrightarrow> distinct (map fst (al_put k v d))"
proof (induction k v d rule: al_put.induct)
  case (2 k v k' v' kvs)
  then show ?case
    using keys_al_put [of k v kvs] by (auto simp: image_iff)
qed simp

lemma set_al_put: "p \<in> set (al_put k v d) \<Longrightarrow> p = (k, v) \<or> p \<in> set d"
  by (induction k v d rule: al_put.induct) (auto split: if_splits)

lemma foldl_al_put_map_of:
  "map_of (foldl (\<lambda>d (k, v). al_put k v d) d kvs) = map_of (rev kvs @ d)"
proof (induction kvs arbitrary: d)
  case (Cons p kvs)
  obtain k v where p: "p = (k, v)" by fastforce
  show ?case
    unfolding p by (simp add: Cons.IH map_add_def fun_eq_iff split: option.splits)
qed simp

lemma map_of_dict_of: "map_of (dict_of kvs) = map_of (rev kvs)"
  by (simp add: dict_of_def foldl_al_put_map_of)

lemma distinct_foldl_al_put:
  "distinct (map fst d) \<Longrightarrow> distinct (map fst (foldl (\<lambda>d (k, v). al_put k v d) d kvs))"
  by (induction kvs arbitrary: d) (auto simp: distinct_al_put)

lemma distinct_dict_of [simp]: "distinct (map fst (dict_of kvs))"
  by (simp add: dict_of_def distinct_foldl_al_put)

lemma set_foldl_al_put:
  "p \<in> set (foldl (\<lambda>d (k, v). al_put k v d) d kvs) \<Longrightarrow> p \<in> set kvs \<or> p \<in> set d"
proof (induction kvs arbitrary: d)
  case (Cons q kvs)
  obtain k v where q: "q = (k, v)" by fastforce
  from Cons.prems q have "p \<in> set kvs \<or> p \<in> set (al_put k v d)"
    using Cons.IH by simp
  then show ?case using q by (auto dest: set_al_put)
qed simp

lemma set_dict_of: "p \<in> set (dict_of kvs) \<Longrightarrow> p \<in> set kvs"
  unfolding dict_of_def by (drule set_foldl_al_put) simp

lemma map_of_mem: "map_of kvs k = Some v \<Longrightarrow> (k, v) \<in> set kvs"
  by (rule map_of_SomeD)

lemma find_SomeD: "List.find P xs = Some x \<Longrightarrow> x \<in> set xs \<and> P x"
  by (induction xs) (auto split: if_splits)

lemma find_NoneD: "List.find P xs = None \<Longrightarrow> x \<in> set xs \<Longrightarrow> \<not> P x"
  by (induction xs) (auto split: if_splits)

lemma find_distinct:
  "distinct (map f xs) \<Longrightarrow> x \<in> set xs \<Longrightarrow> List.find (\<lambda>y. f y = f x) xs = Some x"
  by (induction xs) (auto simp: rev_image_eqI)

lemma sum_list_ge_0: "(\<And>x. x \<in> set xs \<Longrightarrow> 0 \<le> (f x :: int)) \<Longrightarrow> 0 \<le> sum_list (map f xs)"
  by (induction xs) auto

text \<open>\<open>d.pop(k, None)\<close>, and how many entries have a given image.\<close>

definition al_drop :: "'k \<Rightarrow> ('k \<times> 'v) list \<Rightarrow> ('k \<times> 'v) list" where
  "al_drop k d = filter (\<lambda>p. fst p \<noteq> k) d"

definition tally :: "('v \<Rightarrow> 'a) \<Rightarrow> ('k \<times> 'v) list \<Rightarrow> 'a \<Rightarrow> int" where
  "tally f d x = int (length (filter (\<lambda>p. f (snd p) = x) d))"

lemma map_of_al_drop [simp]: "map_of (al_drop k d) = (map_of d)(k := None)"
  unfolding al_drop_def by (induction d) (auto simp: fun_eq_iff)

lemma distinct_al_drop: "distinct (map fst d) \<Longrightarrow> distinct (map fst (al_drop k d))"
  unfolding al_drop_def by (induction d) auto

lemma tally_Nil [simp]: "tally f [] x = 0"
  by (simp add: tally_def)

lemma tally_nonneg: "0 \<le> tally f d x"
  by (simp add: tally_def)

lemma tally_Cons [simp]: "tally f (p # d) x = (if f (snd p) = x then 1 else 0) + tally f d x"
  by (simp add: tally_def)

lemma tally_put_new:
  "map_of d k = None \<Longrightarrow> tally f (al_put k v d) x = tally f d x + (if f v = x then 1 else 0)"
  by (induction k v d rule: al_put.induct) (auto split: if_splits)

lemma tally_put_same:
  "map_of d k = Some u \<Longrightarrow> f v = f u \<Longrightarrow> tally f (al_put k v d) x = tally f d x"
  by (induction k v d rule: al_put.induct) (auto split: if_splits)

lemma al_drop_fresh: "map_of d k = None \<Longrightarrow> al_drop k d = d"
  unfolding al_drop_def by (induction d) (auto split: if_splits)

lemma tally_drop:
  assumes "distinct (map fst d)" and "map_of d k = Some v"
  shows "tally f (al_drop k d) x = tally f d x - (if f v = x then 1 else 0)"
  using assms
proof (induction d)
  case (Cons p d)
  show ?case
  proof (cases "fst p = k")
    case True
    then have "al_drop k d = d" using Cons.prems(1) by (intro al_drop_fresh) (simp add: map_of_eq_None_iff)
    with True Cons.prems(2) show ?thesis by (cases p) (simp add: al_drop_def)
  next
    case False
    with Cons show ?thesis by (cases p) (simp add: al_drop_def)
  qed
qed simp

lemma tally_pos: "map_of d k = Some v \<Longrightarrow> 1 \<le> tally f d (f v)"
  by (induction d) (auto split: if_splits simp: add_increasing tally_nonneg)

end
