(* ===== verification/PyText.thy ===== *)
theory PyText
  imports Prelude
begin

text \<open>
  The parts of Python's \<open>re\<close> and \<open>fnmatch\<close> the gateway uses. A regular expression
  denotes, at a start position, the list of positions where a match can end; \<open>search\<close>
  asks for any start, \<open>fullmatch\<close> for a match of the whole text. Greediness does not
  matter to either. Text is a list of code points below 256.
\<close>

section \<open>Regular expressions\<close>

datatype regex =
    Cls "char \<Rightarrow> bool"
  | WordB
  | RSeq regex regex
  | RAlt regex regex
  | RRep nat "nat option" regex
  | REps

definition word_code :: "nat \<Rightarrow> bool" where
  "word_code n \<longleftrightarrow>
     (48 \<le> n \<and> n \<le> 57) \<or> (65 \<le> n \<and> n \<le> 90) \<or> n = 95 \<or> (97 \<le> n \<and> n \<le> 122)
     \<or> n \<in> {170, 178, 179, 181, 185, 186, 188, 189, 190}
     \<or> (192 \<le> n \<and> n \<le> 255 \<and> n \<noteq> 215 \<and> n \<noteq> 247)"

definition word_char :: "char \<Rightarrow> bool" where
  "word_char c \<longleftrightarrow> word_code (of_char c)"

definition word_at :: "string \<Rightarrow> nat \<Rightarrow> bool" where
  "word_at s i \<longleftrightarrow> i < length s \<and> word_char (s ! i)"

definition boundary_at :: "string \<Rightarrow> nat \<Rightarrow> bool" where
  "boundary_at s i \<longleftrightarrow> ((0 < i \<and> word_at s (i - 1)) \<noteq> word_at s i)"

fun iter_ends :: "(nat \<Rightarrow> nat list) \<Rightarrow> nat \<Rightarrow> nat list \<Rightarrow> nat list" where
  "iter_ends f 0 is = is"
| "iter_ends f (Suc n) is = iter_ends f n (remdups (concat (map f is)))"

fun ends :: "regex \<Rightarrow> string \<Rightarrow> nat \<Rightarrow> nat list" where
  "ends REps s i = [i]"
| "ends (Cls P) s i = (if i < length s \<and> P (s ! i) then [Suc i] else [])"
| "ends WordB s i = (if boundary_at s i then [i] else [])"
| "ends (RSeq r q) s i = concat (map (ends q s) (ends r s i))"
| "ends (RAlt r q) s i = ends r s i @ ends q s i"
| "ends (RRep m n r) s i =
     concat (map (\<lambda>k. iter_ends (ends r s) k [i])
       [m..<Suc (case n of Some u \<Rightarrow> u | None \<Rightarrow> m + length s)])"

definition re_search :: "regex \<Rightarrow> string \<Rightarrow> bool" where
  "re_search r s \<longleftrightarrow> list_ex (\<lambda>i. ends r s i \<noteq> []) [0..<Suc (length s)]"

definition re_fullmatch :: "regex \<Rightarrow> string \<Rightarrow> bool" where
  "re_fullmatch r s \<longleftrightarrow> length s \<in> set (ends r s 0)"

definition lit :: "char \<Rightarrow> regex" where
  "lit c = Cls (\<lambda>x. x = c)"

definition lits :: "string \<Rightarrow> regex" where
  "lits s = foldr (\<lambda>c r. RSeq (lit c) r) s REps"

text \<open>\<open>re.IGNORECASE\<close> on ASCII letters.\<close>

definition lower_char :: "char \<Rightarrow> char" where
  "lower_char c =
     (let n = (of_char c :: nat) in if 65 \<le> n \<and> n \<le> 90 then char_of (n + 32) else c)"

definition ilit :: "char \<Rightarrow> regex" where
  "ilit c = Cls (\<lambda>x. lower_char x = c)"

definition ilits :: "string \<Rightarrow> regex" where
  "ilits s = foldr (\<lambda>c r. RSeq (ilit c) r) s REps"

definition ralts :: "regex list \<Rightarrow> regex" where
  "ralts rs = (case rs of [] \<Rightarrow> Cls (\<lambda>_. False) | r # rs \<Rightarrow> foldl RAlt r rs)"

definition rseqs :: "regex list \<Rightarrow> regex" where
  "rseqs rs = foldr RSeq rs REps"

lemma ends_lit [simp]: "ends (lit c) s i = (if i < length s \<and> s ! i = c then [Suc i] else [])"
  by (simp add: lit_def)

lemma ends_lits:
  "ends (lits t) s i =
     (if i + length t \<le> length s \<and> take (length t) (drop i s) = t then [i + length t]
      else if t = [] then [i] else [])"
proof (induction t arbitrary: i)
  case Nil
  then show ?case by (simp add: lits_def)
next
  case (Cons c t)
  have eq: "lits (c # t) = RSeq (lit c) (lits t)" by (simp add: lits_def)
  show ?case
  proof (cases "i < length s \<and> s ! i = c")
    case True
    then have d: "drop i s = c # drop (Suc i) s" by (metis Cons_nth_drop_Suc)
    from True show ?thesis unfolding eq by (auto simp: Cons.IH d)
  next
    case False
    then show ?thesis
      unfolding eq by (cases "drop i s") (auto simp: Cons_nth_drop_Suc [symmetric] dest: sym)
  qed
qed

lemma sub_at_iff:
  "(\<exists>i \<le> length s. i + length t \<le> length s \<and> take (length t) (drop i s) = t) \<longleftrightarrow>
     (\<exists>p q. s = p @ t @ q)"
proof
  assume "\<exists>i \<le> length s. i + length t \<le> length s \<and> take (length t) (drop i s) = t"
  then obtain i where "take (length t) (drop i s) = t" by blast
  then have "s = take i s @ t @ drop (length t) (drop i s)"
    by (metis append_take_drop_id)
  then show "\<exists>p q. s = p @ t @ q" by blast
next
  assume "\<exists>p q. s = p @ t @ q"
  then obtain p q where "s = p @ t @ q" by blast
  then show "\<exists>i \<le> length s. i + length t \<le> length s \<and> take (length t) (drop i s) = t"
    by (intro exI [of _ "length p"]) auto
qed

lemma re_search_iff: "re_search r s \<longleftrightarrow> (\<exists>i \<le> length s. ends r s i \<noteq> [])"
  unfolding re_search_def list_ex_iff set_upt atLeast0LessThan Bex_def lessThan_iff less_Suc_eq_le ..

lemma re_search_RAlt: "re_search (RAlt r q) s \<longleftrightarrow> re_search r s \<or> re_search q s"
  by (auto simp: re_search_iff)

lemma re_search_lits: "re_search (lits t) s \<longleftrightarrow> (\<exists>p q. s = p @ t @ q)"
proof -
  have "ends (lits t) s i \<noteq> [] \<longleftrightarrow> i + length t \<le> length s \<and> take (length t) (drop i s) = t"
    if "i \<le> length s" for i
    using that by (auto simp: ends_lits)
  then show ?thesis
    unfolding re_search_iff sub_at_iff [symmetric] by blast
qed

lemma re_search_Cls: "re_search (Cls P) s \<longleftrightarrow> (\<exists>c \<in> set s. P c)"
proof -
  have "re_search (Cls P) s \<longleftrightarrow> (\<exists>i \<le> length s. i < length s \<and> P (s ! i))"
    by (auto simp: re_search_iff intro: less_imp_le)
  also have "\<dots> \<longleftrightarrow> (\<exists>c \<in> set s. P c)"
    by (metis in_set_conv_nth less_imp_le)
  finally show ?thesis .
qed

section \<open>Shell patterns\<close>

text \<open>
  \<open>fnmatch.fnmatch\<close> on POSIX: \<open>*\<close>, \<open>?\<close>, \<open>[seq]\<close>, \<open>[!seq]\<close>; an unclosed
  bracket is a literal. \<open>bracket_end\<close> gives the class body and the rest of the
  pattern: a \<open>]\<close> right after the bracket (or after \<open>!\<close>) does not close it.
\<close>

fun split_close :: "string \<Rightarrow> (string \<times> string) option" where
  "split_close [] = None"
| "split_close (c # cs) =
     (if c = CHR '']'' then Some ([], cs)
      else map_option (\<lambda>(b, r). (c # b, r)) (split_close cs))"

fun bracket_end :: "string \<Rightarrow> (string \<times> string) option" where
  "bracket_end [] = None"
| "bracket_end (c # cs) =
     (if c = CHR ''!'' then
        (case cs of [] \<Rightarrow> None
         | d # ds \<Rightarrow> map_option (\<lambda>(b, r). (c # d # b, r)) (split_close ds))
      else map_option (\<lambda>(b, r). (c # b, r)) (split_close cs))"

fun class_has :: "string \<Rightarrow> char \<Rightarrow> bool" where
  "class_has (x # d # y # r) c =
     (if d = CHR ''-'' then
        ((of_char x :: nat) \<le> of_char c \<and> (of_char c :: nat) \<le> of_char y) \<or> class_has r c
      else x = c \<or> class_has (d # y # r) c)"
| "class_has [x, y] c = (x = c \<or> y = c)"
| "class_has [x] c = (x = c)"
| "class_has [] c = False"

definition bracket_has :: "string \<Rightarrow> char \<Rightarrow> bool" where
  "bracket_has body c =
     (case body of [] \<Rightarrow> False
      | b # bs \<Rightarrow> if b = CHR ''!'' then \<not> class_has bs c else class_has body c)"

lemma split_close_length: "split_close cs = Some (b, r) \<Longrightarrow> length r < length cs"
  by (induction cs arbitrary: b r) (auto split: if_splits prod.splits dest: less_SucI)

lemma bracket_end_length: "bracket_end cs = Some (b, r) \<Longrightarrow> length r < length cs"
  by (cases cs) (auto split: if_splits list.splits dest!: split_close_length)

function fnmatch :: "string \<Rightarrow> string \<Rightarrow> bool" where
  "fnmatch s [] = (s = [])"
| "fnmatch s (p # ps) =
     (if p = CHR ''*'' then
        fnmatch s ps \<or> (case s of [] \<Rightarrow> False | _ # cs \<Rightarrow> fnmatch cs (p # ps))
      else if p = CHR ''?'' then (case s of [] \<Rightarrow> False | _ # cs \<Rightarrow> fnmatch cs ps)
      else if p = CHR ''['' then
        (case bracket_end ps of
           Some (body, rest) \<Rightarrow>
             (case s of [] \<Rightarrow> False | c # cs \<Rightarrow> bracket_has body c \<and> fnmatch cs rest)
         | None \<Rightarrow> (case s of [] \<Rightarrow> False | c # cs \<Rightarrow> c = p \<and> fnmatch cs ps))
      else (case s of [] \<Rightarrow> False | c # cs \<Rightarrow> c = p \<and> fnmatch cs ps))"
  by pat_completeness auto
termination
  by (relation "measures [\<lambda>(s, p). length p, \<lambda>(s, p). length s]")
    (auto dest: bracket_end_length less_SucI)

declare fnmatch.simps [simp del]

text \<open>A pattern without special characters matches exactly itself; \<open>*\<close> matches all.\<close>

definition plain_pattern :: "string \<Rightarrow> bool" where
  "plain_pattern p \<longleftrightarrow> list_all (\<lambda>c. c \<noteq> CHR ''*'' \<and> c \<noteq> CHR ''?'' \<and> c \<noteq> CHR ''['') p"

lemma fnmatch_plain: "plain_pattern p \<Longrightarrow> fnmatch s p \<longleftrightarrow> s = p"
  by (induction p arbitrary: s)
    (auto simp: plain_pattern_def fnmatch.simps split: list.splits)

lemma fnmatch_star: "fnmatch s ''*''"
  by (induction s) (auto simp: fnmatch.simps)

lemma fnmatch_plain_star:
  "plain_pattern p \<Longrightarrow> fnmatch s (p @ ''*'') \<longleftrightarrow> prefix p s"
proof (induction p arbitrary: s)
  case Nil
  then show ?case by (simp add: fnmatch_star)
next
  case (Cons c p)
  then show ?case
    by (cases s) (auto simp: plain_pattern_def fnmatch.simps)
qed

section \<open>Reading integers\<close>

definition py_space :: "char \<Rightarrow> bool" where
  "py_space c \<longleftrightarrow>
     (let n = (of_char c :: nat)
      in (9 \<le> n \<and> n \<le> 13) \<or> (28 \<le> n \<and> n \<le> 32) \<or> n = 133 \<or> n = 160)"

definition py_strip :: "string \<Rightarrow> string" where
  "py_strip s = rev (dropWhile py_space (rev (dropWhile py_space s)))"

definition py_lower :: "string \<Rightarrow> string" where
  "py_lower s = map lower_char s"

text \<open>
  The texts \<open>int(_, 16)\<close> and \<open>int(_)\<close> take: space around, a sign, single underscores
  between digits, for base 16 a \<open>0x\<close>; in base 10 no more than 4300 digits.
\<close>

definition hex_char :: "char \<Rightarrow> bool" where
  "hex_char c \<longleftrightarrow>
     (let n = (of_char c :: nat)
      in (48 \<le> n \<and> n \<le> 57) \<or> (65 \<le> n \<and> n \<le> 70) \<or> (97 \<le> n \<and> n \<le> 102))"

definition dec_char :: "char \<Rightarrow> bool" where
  "dec_char c \<longleftrightarrow> (let n = (of_char c :: nat) in 48 \<le> n \<and> n \<le> 57)"

fun digit_groups :: "(char \<Rightarrow> bool) \<Rightarrow> string \<Rightarrow> bool" where
  "digit_groups digit [] = False"
| "digit_groups digit [c] = digit c"
| "digit_groups digit (c # d # cs) =
     (digit c \<and> (if d = CHR ''_'' then digit_groups digit cs else digit_groups digit (d # cs)))"

definition drop_sign :: "string \<Rightarrow> string" where
  "drop_sign s =
     (case s of [] \<Rightarrow> []
      | c # cs \<Rightarrow> if c = CHR ''+'' \<or> c = CHR ''-'' then cs else s)"

definition drop_0x :: "string \<Rightarrow> string" where
  "drop_0x s =
     (if prefix ''0x'' s \<or> prefix ''0X'' s
      then (case drop 2 s of c # cs \<Rightarrow> if c = CHR ''_'' then cs else c # cs | [] \<Rightarrow> [])
      else s)"

definition int16_ok :: "string \<Rightarrow> bool" where
  "int16_ok s = digit_groups hex_char (drop_0x (drop_sign (py_strip s)))"

definition dec_value :: "string \<Rightarrow> int" where
  "dec_value s = foldl (\<lambda>n c. 10 * n + (of_char c - 48)) 0 s"

definition py_int :: "string \<Rightarrow> int option" where
  "py_int s =
     (let t = py_strip s; u = drop_sign t; digits = filter (\<lambda>c. c \<noteq> CHR ''_'') u
      in if \<not> digit_groups dec_char u \<or> 4300 < length digits then None
         else Some (if prefix ''-'' t then - dec_value digits else dec_value digits))"

end
