(* ===== verification/PyJson.thy ===== *)
theory PyJson
  imports Prelude
begin

text \<open>
  JSON values as Python holds them after \<open>json.loads\<close>: arbitrary integers, floats
  (exact rationals, the two infinities and NaN; rounding of float arithmetic is not
  modelled), strings of code points below 256, lists, and dicts as association lists
  in insertion order. \<open>==\<close> is Python's: \<open>True == 1 == 1.0\<close>, dicts compare without
  order, NaN differs from itself.
\<close>

section \<open>Values\<close>

datatype pyfloat = FinF rat | PosInf | NegInf | NaN

datatype json =
    JNull
  | JBool bool
  | JInt int
  | JFloat pyfloat
  | JStr string
  | JArr "json list"
  | JObj "(string \<times> json) list"

type_synonym jdict = "(string \<times> json) list"

fun num_val :: "json \<Rightarrow> pyfloat option" where
  "num_val (JBool b) = Some (FinF (if b then 1 else 0))"
| "num_val (JInt n) = Some (FinF (of_int n))"
| "num_val (JFloat f) = Some f"
| "num_val _ = None"

fun float_eq :: "pyfloat \<Rightarrow> pyfloat \<Rightarrow> bool" where
  "float_eq (FinF a) (FinF b) = (a = b)"
| "float_eq PosInf PosInf = True"
| "float_eq NegInf NegInf = True"
| "float_eq _ _ = False"

fun float_lt :: "pyfloat \<Rightarrow> pyfloat \<Rightarrow> bool" where
  "float_lt (FinF a) (FinF b) = (a < b)"
| "float_lt (FinF _) PosInf = True"
| "float_lt NegInf (FinF _) = True"
| "float_lt NegInf PosInf = True"
| "float_lt _ _ = False"

text \<open>\<open>bool(v)\<close>, and \<open>v or d\<close>.\<close>

fun truthy :: "json \<Rightarrow> bool" where
  "truthy JNull = False"
| "truthy (JBool b) = b"
| "truthy (JInt n) = (n \<noteq> 0)"
| "truthy (JFloat f) = (f \<noteq> FinF 0)"
| "truthy (JStr s) = (s \<noteq> [])"
| "truthy (JArr xs) = (xs \<noteq> [])"
| "truthy (JObj d) = (d \<noteq> [])"

definition py_or :: "json \<Rightarrow> json \<Rightarrow> json" where
  "py_or v d = (if truthy v then v else d)"

text \<open>\<open>d.get(k)\<close>: a missing key reads as \<open>None\<close>.\<close>

definition dget :: "jdict \<Rightarrow> string \<Rightarrow> json" where
  "dget d k = (case map_of d k of Some v \<Rightarrow> v | None \<Rightarrow> JNull)"

definition has_key :: "jdict \<Rightarrow> string \<Rightarrow> bool" where
  "has_key d k \<longleftrightarrow> map_of d k \<noteq> None"

text \<open>\<open>{k: v for k, v in d.items() if k not in ks}\<close>.\<close>

definition without_keys :: "string list \<Rightarrow> jdict \<Rightarrow> jdict" where
  "without_keys ks d = filter (\<lambda>p. fst p \<notin> set ks) d"

lemma size_snd_less [termination_simp]: "(k, v) \<in> set d \<Longrightarrow> size v < size (JObj d)"
proof (induction d)
  case (Cons p d)
  then show ?case by (cases p) fastforce
qed simp

lemma size_snd_less' [termination_simp]: "p \<in> set d \<Longrightarrow> size (snd p) < size (JObj d)"
  using size_snd_less [of "fst p" "snd p" d] by simp

lemma size_map_of_less: "map_of d k = Some v \<Longrightarrow> size v < size (JObj d)"
  by (rule size_snd_less) (rule map_of_SomeD)

lemma size_arr_less [termination_simp]: "v \<in> set xs \<Longrightarrow> size v < size (JArr xs)"
  by (induction xs) auto

text \<open>\<open>sub in s\<close>-style removal \<open>s.replace(sub, "")\<close> for a non-empty \<open>sub\<close>.\<close>

function remove_all :: "string \<Rightarrow> string \<Rightarrow> string" where
  "remove_all sub [] = []"
| "remove_all sub (c # cs) =
     (if prefix sub (c # cs) then remove_all sub (drop (length sub - 1) cs)
      else c # remove_all sub cs)"
  by pat_completeness auto
termination
  by (relation "measure (\<lambda>(sub, s). length s)") auto

text \<open>Every string value in a JSON value, in document order (dict keys are not values).\<close>

fun string_values :: "json \<Rightarrow> string list" where
  "string_values (JStr s) = [s]"
| "string_values (JArr xs) = concat (map string_values xs)"
| "string_values (JObj d) = concat (map (\<lambda>p. string_values (snd p)) d)"
| "string_values _ = []"

section \<open>Equality\<close>

function py_eq :: "json \<Rightarrow> json \<Rightarrow> bool" where
  "py_eq v w =
     (case (v, w) of
        (JNull, JNull) \<Rightarrow> True
      | (JStr s, JStr t) \<Rightarrow> s = t
      | (JArr xs, JArr ys) \<Rightarrow>
          length xs = length ys \<and> list_all (\<lambda>(x, y). x \<in> set xs \<longrightarrow> py_eq x y) (zip xs ys)
      | (JObj d, JObj e) \<Rightarrow>
          length d = length e \<and>
          list_all (\<lambda>p. case map_of e (fst p) of None \<Rightarrow> False | Some y \<Rightarrow> py_eq (snd p) y) d
      | _ \<Rightarrow> (case (num_val v, num_val w) of
                (Some a, Some b) \<Rightarrow> float_eq a b
              | _ \<Rightarrow> False))"
  by pat_completeness auto
termination
proof (relation "measure (\<lambda>(v, w). size v)", goal_cases)
  case 1 then show ?case by simp
next
  case (2 v w)
  then show ?case using size_arr_less by auto
next
  case (3 v w)
  then show ?case by (auto dest!: size_snd_less')
qed

declare py_eq.simps [simp del]

text \<open>Membership and duplicate-freeness under Python's \<open>==\<close> (sets of JSON scalars).\<close>

definition py_in :: "json \<Rightarrow> json list \<Rightarrow> bool" where
  "py_in v xs \<longleftrightarrow> list_ex (py_eq v) xs"

text \<open>\<open>hash(v)\<close> raises on lists and dicts.\<close>

fun hashable :: "json \<Rightarrow> bool" where
  "hashable (JArr _) = False"
| "hashable (JObj _) = False"
| "hashable _ = True"

text \<open>Values \<open>json.loads\<close> builds: distinct keys in every dict.\<close>

fun wf_json :: "json \<Rightarrow> bool" where
  "wf_json (JArr xs) = list_all wf_json xs"
| "wf_json (JObj d) = (distinct (map fst d) \<and> list_all (\<lambda>p. wf_json (snd p)) d)"
| "wf_json _ = True"

fun nan_free :: "json \<Rightarrow> bool" where
  "nan_free (JArr xs) = list_all nan_free xs"
| "nan_free (JObj d) = list_all (\<lambda>p. nan_free (snd p)) d"
| "nan_free (JFloat f) = (f \<noteq> NaN)"
| "nan_free _ = True"

lemma float_eq_refl: "f \<noteq> NaN \<Longrightarrow> float_eq f f"
  by (cases f) auto

lemma py_eq_JStr [simp]: "py_eq (JStr s) w \<longleftrightarrow> w = JStr s"
  by (cases w) (auto simp: py_eq.simps)

lemma py_eq_JStr' [simp]: "py_eq v (JStr s) \<longleftrightarrow> v = JStr s"
  by (cases v) (auto simp: py_eq.simps)

lemma py_eq_JNull [simp]: "py_eq JNull w \<longleftrightarrow> w = JNull"
  by (cases w) (auto simp: py_eq.simps)

lemma py_eq_JNull' [simp]: "py_eq v JNull \<longleftrightarrow> v = JNull"
  by (cases v) (auto simp: py_eq.simps)

lemma py_eq_JObj:
  "py_eq (JObj d) (JObj e) \<longleftrightarrow>
     length d = length e \<and>
     (\<forall>p \<in> set d. \<exists>y. map_of e (fst p) = Some y \<and> py_eq (snd p) y)"
  by (auto simp: py_eq.simps [of "JObj d" "JObj e"] list_all_iff split: option.splits)

lemma py_eq_JArr:
  "py_eq (JArr xs) (JArr ys) \<longleftrightarrow>
     length xs = length ys \<and> (\<forall>(x, y) \<in> set (zip xs ys). py_eq x y)"
  by (auto simp: py_eq.simps [of "JArr xs" "JArr ys"] list_all_iff dest: set_zip_leftD)

lemma py_eq_refl: "wf_json v \<Longrightarrow> nan_free v \<Longrightarrow> py_eq v v"
proof (induction v)
  case (JArr xs)
  then have "\<forall>x \<in> set xs. py_eq x x" by (auto simp: list_all_iff)
  then show ?case by (auto simp: py_eq_JArr set_zip)
next
  case (JObj d)
  have "\<exists>y. map_of d (fst p) = Some y \<and> py_eq (snd p) y" if p: "p \<in> set d" for p
  proof -
    from JObj.prems(1) p have "map_of d (fst p) = Some (snd p)" by simp
    moreover have "py_eq (snd p) (snd p)"
      using JObj.IH [of p "snd p"] JObj.prems p by (cases p) (force simp: list_all_iff)
    ultimately show ?thesis by blast
  qed
  then show ?case by (simp add: py_eq_JObj)
next
  case (JFloat f)
  then show ?case by (auto simp: py_eq.simps float_eq_refl)
qed (auto simp: py_eq.simps)

lemma dget_Nil [simp]: "dget [] k = JNull"
  by (simp add: dget_def)

lemma dget_Cons [simp]: "dget ((k', v) # d) k = (if k = k' then v else dget d k)"
  by (simp add: dget_def)

lemma has_key_Nil [simp]: "\<not> has_key [] k"
  by (simp add: has_key_def)

lemma has_key_Cons [simp]: "has_key ((k', v) # d) k \<longleftrightarrow> k = k' \<or> has_key d k"
  by (auto simp: has_key_def)

lemma has_key_iff: "has_key d k \<longleftrightarrow> k \<in> fst ` set d"
  unfolding has_key_def by (simp add: map_of_eq_None_iff)

lemma dget_cong: "map_of d = map_of e \<Longrightarrow> dget d k = dget e k"
  by (simp add: dget_def)

end
