(* ===== verification/ParamValidator.thy ===== *)
theory ParamValidator
  imports PyText PyJson "HOL-Library.Char_ord" "HOL-Library.List_Lexorder"
begin

text \<open>
  \<open>services/gateway/param_validator.py\<close>: strict argument validation. \<open>jsonschema\<close>
  is a parameter with its three documented outcomes (and any other exception). The
  injection search returns the dotted path of the first offending string; the walk
  tests that path for truth, as the code does, so an empty path counts as no hit.
\<close>

definition control_char :: "char \<Rightarrow> bool" where
  "control_char c \<longleftrightarrow>
     (let n = (of_char c :: nat)
      in n \<le> 8 \<or> n = 11 \<or> n = 12 \<or> (14 \<le> n \<and> n \<le> 31) \<or> n = 127)"

definition injection_re :: regex where
  "injection_re =
     RAlt (RAlt (lits ''../'') (lits [CHR ''.'', CHR ''.'', CHR 0x5C])) (Cls control_char)"

definition has_injection :: "string \<Rightarrow> bool" where
  "has_injection s \<longleftrightarrow> re_search injection_re s"

text \<open>\<open>if hit := e: return hit\<close>: the next candidate runs unless the hit is truthy.\<close>

definition or_hit :: "string option \<Rightarrow> string option \<Rightarrow> string option" where
  "or_hit hit rest = (case hit of Some p \<Rightarrow> if p \<noteq> [] then Some p else rest | None \<Rightarrow> rest)"

definition sub_path :: "string \<Rightarrow> string \<Rightarrow> string" where
  "sub_path path k = (if path \<noteq> [] then path @ ''.'' @ k else k)"

definition item_path :: "string \<Rightarrow> nat \<Rightarrow> string" where
  "item_path path i = path @ ''['' @ nat_str i @ '']''"

fun find_injection :: "json \<Rightarrow> string \<Rightarrow> string option"
  and find_injection_items :: "(string \<times> json) list \<Rightarrow> string \<Rightarrow> string option"
  and find_injection_list :: "json list \<Rightarrow> nat \<Rightarrow> string \<Rightarrow> string option" where
  "find_injection (JStr s) path = (if has_injection s then Some path else None)"
| "find_injection (JObj d) path = find_injection_items d path"
| "find_injection (JArr xs) path = find_injection_list xs 0 path"
| "find_injection _ path = None"
| "find_injection_items [] path = None"
| "find_injection_items ((k, v) # d) path =
     or_hit (find_injection v (sub_path path k)) (find_injection_items d path)"
| "find_injection_list [] i path = None"
| "find_injection_list (v # vs) i path =
     or_hit (find_injection v (item_path path i)) (find_injection_list vs (Suc i) path)"

datatype schema_result =
    SchemaOk
  | SchemaInvalid string
  | SchemaBroken string
  | SchemaRaised exn

fun first_argument_hit :: "jdict \<Rightarrow> string option" where
  "first_argument_hit [] = None"
| "first_argument_hit ((k, v) # d) = or_hit (find_injection v k) (first_argument_hit d)"

definition unknown_fields :: "jdict \<Rightarrow> jdict \<Rightarrow> string list" where
  "unknown_fields arguments properties =
     sort (remdups (filter (\<lambda>k. \<not> has_key properties k) (map fst arguments)))"

definition list_repr :: "string list \<Rightarrow> string" where
  "list_repr xs = ''['' @ join_with '', '' (map py_repr xs) @ '']''"

definition check_arguments :: "(jdict \<Rightarrow> jdict \<Rightarrow> schema_result) \<Rightarrow> jdict \<Rightarrow> jdict \<Rightarrow> string option res"
  where
  "check_arguments js arguments schema =
     (case js arguments schema of
        SchemaInvalid m \<Rightarrow> Inr (Some (''schema validation failed: '' @ m))
      | SchemaBroken m \<Rightarrow> Inr (Some (''tool schema itself is invalid: '' @ m))
      | SchemaRaised e \<Rightarrow> Inl e
      | SchemaOk \<Rightarrow>
          (case first_argument_hit arguments of
             Some hit \<Rightarrow> Inr (Some (''path traversal or control character in argument '' @ py_repr hit))
           | None \<Rightarrow> Inr None))"

definition validate_arguments ::
  "(jdict \<Rightarrow> jdict \<Rightarrow> schema_result) \<Rightarrow> jdict \<Rightarrow> json \<Rightarrow> string option res" where
  "validate_arguments js arguments input_schema =
     (case input_schema of
        JObj schema \<Rightarrow>
          (case dget schema ''properties'' of
             JObj properties \<Rightarrow>
               (let unknown = unknown_fields arguments properties
                in if unknown \<noteq> []
                   then Inr (Some (''unknown argument field(s): '' @ list_repr unknown))
                   else check_arguments js arguments schema)
           | _ \<Rightarrow> check_arguments js arguments schema)
      | _ \<Rightarrow> Inl AttributeError)"

section \<open>What the search finds\<close>

text \<open>The pattern, spelled out.\<close>

lemma has_injection_iff:
  "has_injection s \<longleftrightarrow>
     (\<exists>p q. s = p @ ''../'' @ q) \<or>
     (\<exists>p q. s = p @ [CHR ''.'', CHR ''.'', CHR 0x5C] @ q) \<or>
     (\<exists>c \<in> set s. control_char c)"
  unfolding has_injection_def injection_re_def re_search_RAlt re_search_lits re_search_Cls
  by blast

definition clean :: "json \<Rightarrow> bool" where
  "clean v \<longleftrightarrow> (\<forall>s \<in> set (string_values v). \<not> has_injection s)"

lemma clean_simps [simp]:
  "clean (JStr s) \<longleftrightarrow> \<not> has_injection s"
  "clean (JArr xs) \<longleftrightarrow> (\<forall>v \<in> set xs. clean v)"
  "clean (JObj d) \<longleftrightarrow> (\<forall>p \<in> set d. clean (snd p))"
  "clean JNull" "clean (JBool b)" "clean (JInt n)" "clean (JFloat f)"
  by (auto simp: clean_def)

lemma or_hit_None: "or_hit h r = None \<longleftrightarrow> (h = None \<or> h = Some []) \<and> r = None"
  by (auto simp: or_hit_def split: option.splits)

lemma or_hit_not_empty: "r \<noteq> Some [] \<Longrightarrow> or_hit h r \<noteq> Some []"
  by (auto simp: or_hit_def split: option.splits)

lemma sub_path_not_empty: "path \<noteq> [] \<Longrightarrow> sub_path path k \<noteq> []"
  by (simp add: sub_path_def)

lemma item_path_not_empty: "item_path path i \<noteq> []"
  by (simp add: item_path_def)

text \<open>From a non-empty path, the search misses nothing and its hit is never empty.\<close>

lemma find_injection_iff:
  "path \<noteq> [] \<Longrightarrow> find_injection v path \<noteq> Some [] \<and> (find_injection v path = None \<longleftrightarrow> clean v)"
  "path \<noteq> [] \<Longrightarrow> find_injection_items d path \<noteq> Some [] \<and>
     (find_injection_items d path = None \<longleftrightarrow> clean (JObj d))"
  "find_injection_list vs i path \<noteq> Some [] \<and>
     (find_injection_list vs i path = None \<longleftrightarrow> clean (JArr vs))"
proof (induction v path and d path and vs i path
    rule: find_injection_find_injection_items_find_injection_list.induct)
qed (auto simp: or_hit_None sub_path_not_empty item_path_not_empty or_hit_not_empty)

lemma first_argument_hit_None:
  "first_argument_hit arguments = None \<Longrightarrow> (k, v) \<in> set arguments \<Longrightarrow> k \<noteq> [] \<Longrightarrow> clean v"
  by (induction arguments rule: first_argument_hit.induct)
    (auto simp: or_hit_None find_injection_iff(1))

lemma unknown_fields_Nil:
  "unknown_fields arguments properties = [] \<longleftrightarrow> (\<forall>k \<in> fst ` set arguments. has_key properties k)"
proof -
  have "unknown_fields arguments properties = [] \<longleftrightarrow>
      set (unknown_fields arguments properties) = {}" by simp
  then show ?thesis by (auto simp: unknown_fields_def filter_empty_conv)
qed

lemma check_arguments_accepts:
  "check_arguments js arguments schema = Inr None \<Longrightarrow>
     js arguments schema = SchemaOk \<and> first_argument_hit arguments = None"
  by (auto simp: check_arguments_def split: schema_result.splits option.splits)

lemma validate_arguments_accepts:
  assumes "validate_arguments js arguments input_schema = Inr None"
  obtains schema where "input_schema = JObj schema" and "js arguments schema = SchemaOk"
    and "first_argument_hit arguments = None"
    and "\<And>properties. dget schema ''properties'' = JObj properties \<Longrightarrow>
           unknown_fields arguments properties = []"
  using assms
  by (auto simp: validate_arguments_def Let_def split: json.splits if_splits
      dest: check_arguments_accepts)

section \<open>Properties\<close>

text \<open>
  Arguments that pass \<open>validate\<close> have passed the JSON Schema, carry no field the
  schema's properties leave out, and hold no string with \<open>../\<close>, its backslash form or a
  control character anywhere under a non-empty top-level key, at any nesting depth.
\<close>

theorem accepted_arguments_are_clean:
  assumes "validate_arguments js arguments (JObj schema) = Inr None"
  shows "js arguments schema = SchemaOk \<and>
    (\<forall>properties. dget schema ''properties'' = JObj properties \<longrightarrow>
       (\<forall>k \<in> fst ` set arguments. has_key properties k)) \<and>
    (\<forall>(k, v) \<in> set arguments. k \<noteq> [] \<longrightarrow> (\<forall>s \<in> set (string_values v). \<not> has_injection s))"
  using assms
proof (rule validate_arguments_accepts)
  fix sch
  assume "JObj schema = JObj sch" "js arguments sch = SchemaOk" "first_argument_hit arguments = None"
    and "\<And>properties. dget sch ''properties'' = JObj properties \<Longrightarrow>
           unknown_fields arguments properties = []"
  then show ?thesis
    using first_argument_hit_None [of arguments] by (auto simp: unknown_fields_Nil clean_def)
qed

theorem accepted_arguments_are_clean_witness:
  "\<not> has_injection ''a/b''"
proof -
  let ?args = "[(''path'', JArr [JStr ''a/b'', JInt 3])]"
  let ?schema = "[(''properties'', JObj [(''path'', JObj [])])]"
  have "validate_arguments (\<lambda>_ _. SchemaOk) ?args (JObj ?schema) = Inr None"
    by code_simp
  from accepted_arguments_are_clean [OF this] show ?thesis by simp
qed

text \<open>
  A traversal under the empty-string argument name is not reported: the path of the
  hit is the empty string, which the caller's truthiness test reads as no hit. Under any
  other name the same value is rejected.
\<close>

theorem empty_argument_name_hides_traversal:
  "validate_arguments (\<lambda>_ _. SchemaOk) [([], JStr ''../../etc/passwd'')] (JObj []) = Inr None \<and>
   validate_arguments (\<lambda>_ _. SchemaOk) [(''p'', JStr ''../../etc/passwd'')] (JObj []) \<noteq> Inr None"
  by code_simp

end
