(* ===== verification/Redis.thy ===== *)
theory Redis
  imports Prelude
begin

text \<open>
  The Redis interface the gateway calls. The service is a parameter \<open>exec\<close> of every
  definition that uses it: one command in, a reply or an exception out. What the code
  relies on is the documented effect of each command on a store of keys with expiry
  times, \<open>redis_spec\<close>; the locale \<open>redis_service\<close> says a service refines it. A
  command that raises may or may not have taken effect.
\<close>

section \<open>Commands and replies\<close>

datatype rval = RInt int | RStr string

datatype redis_cmd =
    Get string
  | SetEx string rval int
  | SetNxEx string rval int
  | Incr string
  | IncrBy string int
  | Expire string int
  | Ttl string
  | GetDel string
  | Del string
  | Exists string
  | FailureScript string int
  | WatchKey string
  | PipeGet string
  | ExecSet string rval

datatype reply = NilR | ValR rval | OkR | IntR int | PairR int int | ErrR

type_synonym 'r redis = "redis_cmd \<Rightarrow> ('r, reply) io"

section \<open>The documented effect of a command\<close>

record redis_state =
  rd_clock :: rat
  rd_data :: "string \<Rightarrow> (rval \<times> rat option) option"

text \<open>A key is gone once the clock has passed its expiry time.\<close>

definition alive :: "redis_state \<Rightarrow> string \<Rightarrow> (rval \<times> rat option) option" where
  "alive s k =
     (case rd_data s k of
        None \<Rightarrow> None
      | Some (v, None) \<Rightarrow> Some (v, None)
      | Some (v, Some t) \<Rightarrow> if t < rd_clock s then None else Some (v, Some t))"

definition live :: "redis_state \<Rightarrow> string \<Rightarrow> rval option" where
  "live s k = map_option fst (alive s k)"

definition put_key :: "redis_state \<Rightarrow> string \<Rightarrow> rval \<Rightarrow> rat option \<Rightarrow> redis_state" where
  "put_key s k v t = s\<lparr>rd_data := (rd_data s)(k \<mapsto> (v, t))\<rparr>"

definition drop_key :: "redis_state \<Rightarrow> string \<Rightarrow> redis_state" where
  "drop_key s k = s\<lparr>rd_data := (rd_data s)(k := None)\<rparr>"

lemma put_key_clock [simp]: "rd_clock (put_key s k v t) = rd_clock s"
  by (simp add: put_key_def)

lemma drop_key_clock [simp]: "rd_clock (drop_key s k) = rd_clock s"
  by (simp add: drop_key_def)

fun reply_of :: "rval option \<Rightarrow> reply" where
  "reply_of None = NilR"
| "reply_of (Some v) = ValR v"

text \<open>
  INCRBY keeps a live key's expiry; a missing key starts at 0 without one; a string that
  is no integer is an error reply, which the client library raises.
\<close>

definition incr_by :: "string \<Rightarrow> int \<Rightarrow> redis_state \<Rightarrow> int option \<times> redis_state" where
  "incr_by k n s =
     (case alive s k of
        Some (RInt m, t) \<Rightarrow> (Some (m + n), put_key s k (RInt (m + n)) t)
      | Some (RStr _, t) \<Rightarrow> (None, s)
      | None \<Rightarrow> (Some n, put_key s k (RInt n) None))"

fun int_reply :: "int option \<Rightarrow> reply" where
  "int_reply None = ErrR"
| "int_reply (Some n) = IntR n"

definition expire_key :: "string \<Rightarrow> int \<Rightarrow> redis_state \<Rightarrow> redis_state" where
  "expire_key k ttl s =
     (case alive s k of
        None \<Rightarrow> s
      | Some (v, _) \<Rightarrow> put_key s k v (Some (rd_clock s + of_int ttl)))"

definition ttl_of :: "string \<Rightarrow> redis_state \<Rightarrow> int" where
  "ttl_of k s =
     (case alive s k of
        None \<Rightarrow> -2
      | Some (_, None) \<Rightarrow> -1
      | Some (_, Some t) \<Rightarrow> \<lfloor>t - rd_clock s + 1 / 2\<rfloor>)"

fun redis_spec :: "redis_cmd \<Rightarrow> redis_state \<Rightarrow> reply \<times> redis_state" where
  "redis_spec (Get k) s = (reply_of (live s k), s)"
| "redis_spec (SetEx k v ttl) s = (OkR, put_key s k v (Some (rd_clock s + of_int ttl)))"
| "redis_spec (SetNxEx k v ttl) s =
     (if live s k = None then (OkR, put_key s k v (Some (rd_clock s + of_int ttl))) else (NilR, s))"
| "redis_spec (Incr k) s = (let (n, s') = incr_by k 1 s in (int_reply n, s'))"
| "redis_spec (IncrBy k m) s = (let (n, s') = incr_by k m s in (int_reply n, s'))"
| "redis_spec (Expire k ttl) s = (IntR (if live s k = None then 0 else 1), expire_key k ttl s)"
| "redis_spec (Ttl k) s = (IntR (ttl_of k s), s)"
| "redis_spec (GetDel k) s = (reply_of (live s k), drop_key s k)"
| "redis_spec (Del k) s = (IntR (if live s k = None then 0 else 1), drop_key s k)"
| "redis_spec (Exists k) s = (IntR (if live s k = None then 0 else 1), s)"
| "redis_spec (FailureScript k ttl) s =
     (case incr_by k 1 s of
        (None, s') \<Rightarrow> (ErrR, s')
      | (Some n, s') \<Rightarrow>
          (let s'' = (if n = 1 then expire_key k ttl s' else s')
           in (PairR n (ttl_of k s''), s'')))"
| "redis_spec (WatchKey k) s = (OkR, s)"
| "redis_spec (PipeGet k) s = (reply_of (live s k), s)"
| "redis_spec (ExecSet k v) s = (OkR, put_key s k v None)"

section \<open>The interface\<close>

locale redis_service =
  fixes exec :: "'r redis" and abs :: "'r \<Rightarrow> redis_state"
  assumes exec_ok: "exec c r = (Inr y, r') \<Longrightarrow> (y, abs r') = redis_spec c (abs r)"
    and exec_no_error: "exec c r = (Inr y, r') \<Longrightarrow> y \<noteq> ErrR"
    and exec_raised: "exec c r = (Inl e, r') \<Longrightarrow> abs r' \<in> {abs r, snd (redis_spec c (abs r))}"
begin

lemma exec_abs: "exec c r = (x, r') \<Longrightarrow> abs r' \<in> {abs r, snd (redis_spec c (abs r))}"
  by (cases x) (auto dest: exec_raised exec_ok [symmetric])

lemma exec_set_nx:
  "exec (SetNxEx k v ttl) r = (Inr OkR, r') \<Longrightarrow>
     live (abs r) k = None \<and>
     rd_data (abs r') k = Some (v, Some (rd_clock (abs r) + of_int ttl)) \<and>
     rd_clock (abs r') = rd_clock (abs r)"
  by (drule exec_ok) (auto simp: put_key_def split: if_splits)

lemma exec_set_nx_live:
  "live (abs r) k \<noteq> None \<Longrightarrow> exec (SetNxEx k v ttl) r = (Inr y, r') \<Longrightarrow> y = NilR"
  by (drule exec_ok) auto

lemma exec_get_del:
  "exec (GetDel k) r = (Inr y, r') \<Longrightarrow>
     y = reply_of (live (abs r) k) \<and> rd_data (abs r') k = None"
  by (drule exec_ok) (auto simp: drop_key_def)

lemma exec_get: "exec (Get k) r = (Inr y, r') \<Longrightarrow> y = reply_of (live (abs r) k) \<and> abs r' = abs r"
  by (drule exec_ok) auto

end

section \<open>Other clients and passing time\<close>

fun cmd_key :: "redis_cmd \<Rightarrow> string" where
  "cmd_key (Get k) = k"
| "cmd_key (SetEx k _ _) = k"
| "cmd_key (SetNxEx k _ _) = k"
| "cmd_key (Incr k) = k"
| "cmd_key (IncrBy k _) = k"
| "cmd_key (Expire k _) = k"
| "cmd_key (Ttl k) = k"
| "cmd_key (GetDel k) = k"
| "cmd_key (Del k) = k"
| "cmd_key (Exists k) = k"
| "cmd_key (FailureScript k _) = k"
| "cmd_key (WatchKey k) = k"
| "cmd_key (PipeGet k) = k"
| "cmd_key (ExecSet k _) = k"

text \<open>
  \<open>undisturbed k s t\<close>: from \<open>s\<close> to \<open>t\<close> time passes and commands run, but the only
  commands on \<open>k\<close> itself are \<open>SET NX\<close> ones and reads.
\<close>

fun keeps_key :: "string \<Rightarrow> redis_cmd \<Rightarrow> bool" where
  "keeps_key k (SetNxEx _ _ _) = True"
| "keeps_key k (Get _) = True"
| "keeps_key k (Exists _) = True"
| "keeps_key k (Ttl _) = True"
| "keeps_key k c = (cmd_key c \<noteq> k)"

inductive undisturbed :: "string \<Rightarrow> redis_state \<Rightarrow> redis_state \<Rightarrow> bool" for k where
  same: "undisturbed k s s"
| tick: "undisturbed k s t \<Longrightarrow> rd_clock t \<le> c \<Longrightarrow> undisturbed k s (t\<lparr>rd_clock := c\<rparr>)"
| command: "undisturbed k s t \<Longrightarrow> keeps_key k c \<Longrightarrow> undisturbed k s (snd (redis_spec c t))"

lemma other_key:
  "cmd_key c \<noteq> k \<Longrightarrow> rd_data (snd (redis_spec c s)) k = rd_data s k"
  by (cases c)
    (auto simp: put_key_def drop_key_def incr_by_def expire_key_def Let_def
      split: option.splits prod.splits rval.splits)

lemma spec_clock [simp]: "rd_clock (snd (redis_spec c s)) = rd_clock s"
  by (cases c)
    (auto simp: put_key_def drop_key_def incr_by_def expire_key_def Let_def
      split: option.splits prod.splits rval.splits)

lemma keeps_key_data:
  assumes "keeps_key k c" and "rd_data s k = Some (v, Some t)" and "rd_clock s \<le> t"
  shows "rd_data (snd (redis_spec c s)) k = Some (v, Some t)"
proof (cases "cmd_key c = k")
  case True
  with assms(1) show ?thesis
    using assms(2,3) by (cases c) (auto simp: live_def alive_def)
next
  case False
  with assms(2) show ?thesis by (simp add: other_key)
qed

lemma undisturbed_clock: "undisturbed k s t \<Longrightarrow> rd_clock s \<le> rd_clock t"
  by (induction rule: undisturbed.induct) auto

text \<open>A key set with an expiry is still there as long as that time has not passed.\<close>

lemma undisturbed_data:
  "undisturbed k s u \<Longrightarrow> rd_data s k = Some (v, Some t) \<Longrightarrow> rd_clock u \<le> t \<Longrightarrow>
     rd_data u k = Some (v, Some t)"
proof (induction rule: undisturbed.induct)
  case (command s u c)
  then show ?case by (auto intro: keeps_key_data)
qed auto

lemma undisturbed_live:
  "undisturbed k s u \<Longrightarrow> rd_data s k = Some (v, Some t) \<Longrightarrow> rd_clock u \<le> t \<Longrightarrow> live u k = Some v"
  by (drule (2) undisturbed_data) (simp add: live_def alive_def)

text \<open>\<open>unwritten k s t\<close>: time passes and commands run, none of which stores under \<open>k\<close>.\<close>

fun stores_key :: "redis_cmd \<Rightarrow> bool" where
  "stores_key (SetEx _ _ _) = True"
| "stores_key (SetNxEx _ _ _) = True"
| "stores_key (Incr _) = True"
| "stores_key (IncrBy _ _) = True"
| "stores_key (FailureScript _ _) = True"
| "stores_key (ExecSet _ _) = True"
| "stores_key _ = False"

inductive unwritten :: "string \<Rightarrow> redis_state \<Rightarrow> redis_state \<Rightarrow> bool" for k where
  same: "unwritten k s s"
| tick: "unwritten k s t \<Longrightarrow> rd_clock t \<le> c \<Longrightarrow> unwritten k s (t\<lparr>rd_clock := c\<rparr>)"
| command: "unwritten k s t \<Longrightarrow> cmd_key c \<noteq> k \<or> \<not> stores_key c \<Longrightarrow>
    unwritten k s (snd (redis_spec c t))"

text \<open>\<open>elsewhere k s t\<close>: time passes and commands run on other keys.\<close>

inductive elsewhere :: "string \<Rightarrow> redis_state \<Rightarrow> redis_state \<Rightarrow> bool" for k where
  same: "elsewhere k s s"
| tick: "elsewhere k s t \<Longrightarrow> rd_clock t \<le> c \<Longrightarrow> elsewhere k s (t\<lparr>rd_clock := c\<rparr>)"
| command: "elsewhere k s t \<Longrightarrow> cmd_key c \<noteq> k \<Longrightarrow> elsewhere k s (snd (redis_spec c t))"

lemma elsewhere_data:
  "elsewhere k s t \<Longrightarrow> rd_data t k = rd_data s k \<and> rd_clock s \<le> rd_clock t"
  by (induction rule: elsewhere.induct) (auto simp: other_key)

lemma no_store_keeps_absent:
  "\<not> stores_key c \<Longrightarrow> rd_data s k = None \<Longrightarrow> rd_data (snd (redis_spec c s)) k = None"
  by (cases c) (auto simp: drop_key_def expire_key_def put_key_def alive_def split: option.splits prod.splits)

lemma unwritten_absent: "unwritten k s t \<Longrightarrow> rd_data s k = None \<Longrightarrow> rd_data t k = None"
  by (induction rule: unwritten.induct) (auto simp: other_key no_store_keeps_absent)

lemma absent_live: "rd_data s k = None \<Longrightarrow> live s k = None"
  by (simp add: live_def alive_def)

text \<open>The text a string value reads back as.\<close>

fun rval_text :: "rval \<Rightarrow> string" where
  "rval_text (RInt n) = int_str n"
| "rval_text (RStr s) = s"

section \<open>Reference services\<close>

text \<open>
  A service that never fails, and one that fails as a stream of flags says: on a set
  flag the command raises, having taken effect or not.
\<close>

definition reply_res :: "reply \<Rightarrow> reply res" where
  "reply_res y = (if y = ErrR then Inl ServiceError else Inr y)"

definition exec_ref :: "redis_state redis" where
  "exec_ref c s = (case redis_spec c s of (y, s') \<Rightarrow> (reply_res y, s'))"

datatype fault = Healthy | FailsBefore | FailsAfter

definition exec_faulty :: "(fault list \<times> redis_state) redis" where
  "exec_faulty c p =
     (case p of
        ([], s) \<Rightarrow> (reply_res (fst (redis_spec c s)), ([], snd (redis_spec c s)))
      | (Healthy # fs, s) \<Rightarrow> (reply_res (fst (redis_spec c s)), (fs, snd (redis_spec c s)))
      | (FailsBefore # fs, s) \<Rightarrow> (Inl ServiceError, (fs, s))
      | (FailsAfter # fs, s) \<Rightarrow> (Inl ServiceError, (fs, snd (redis_spec c s))))"

interpretation ref_redis: redis_service exec_ref id
  by unfold_locales (auto simp: exec_ref_def reply_res_def split: prod.splits if_splits)

interpretation faulty_redis: redis_service exec_faulty snd
  by unfold_locales
    (auto simp: exec_faulty_def reply_res_def split: prod.splits list.splits fault.splits if_splits)

definition empty_redis :: redis_state where
  "empty_redis = \<lparr>rd_clock = 0, rd_data = Map.empty\<rparr>"

text \<open>\<open>int(raw or 0)\<close> on a reply: counters are only ever written by INCR and INCRBY.\<close>

fun counter_of :: "reply \<Rightarrow> int res" where
  "counter_of NilR = Inr 0"
| "counter_of (ValR (RInt n)) = Inr n"
| "counter_of _ = Inl (ValueError ''invalid literal for int()'')"

end
