(* ===== verification/Abac.thy ===== *)
theory Abac
  imports PyJson "HOL-Library.Char_ord" "HOL-Library.List_Lexorder"
begin

text \<open>
  \<open>services/gateway/abac.py\<close>: compilation and evaluation of attribute conditions.
  Conditions are Python expressions; \<open>ast.parse\<close> is a parameter, its result the
  datatype \<open>expr\<close> (the nodes the module inspects by name, any other node as
  \<open>OtherExpr\<close> with its type name). The lemmas show that a compiled condition
  evaluates without touching an unbound path, that a missing path makes the whole
  condition unsatisfied before any combinator runs, and that evaluation depends on
  the referenced paths only.
\<close>

section \<open>Syntax\<close>

datatype boolop = PyAnd | PyOr

datatype unop = PyNot | PyUSub | PyUAdd | PyInvert

datatype cmpop = CEq | CNotEq | CLt | CGt | CLtE | CGtE | CIs | CIsNot | CIn | CNotIn

datatype pyconst = KStr string | KInt int | KFloat pyfloat | KBool bool | KNone | KOther string

datatype expr =
    BoolOp boolop "expr list"
  | UnaryOp unop expr
  | Compare expr "cmpop list" "expr list"
  | Attribute expr string
  | Name string
  | Constant pyconst
  | OtherExpr string

definition attribute_roots :: "string list" where
  "attribute_roots = [''identity'', ''tool'', ''context'', ''risk'']"

definition max_condition_length :: nat where
  "max_condition_length = 500"

fun allowed_cmp :: "cmpop \<Rightarrow> bool" where
  "allowed_cmp CEq = True"
| "allowed_cmp CNotEq = True"
| "allowed_cmp CLt = True"
| "allowed_cmp CGt = True"
| "allowed_cmp CLtE = True"
| "allowed_cmp CGtE = True"
| "allowed_cmp _ = False"

datatype aval = AStr string | AInt int | AFloat pyfloat | ABool bool

type_synonym attrs = "(string \<times> aval) list"

record condition =
  c_source :: string
  c_tree :: expr
  c_paths :: "string list"

definition references_risk :: "condition \<Rightarrow> bool" where
  "references_risk c \<longleftrightarrow> list_ex (\<lambda>p. prefix ''risk.'' p) (c_paths c)"

section \<open>Compilation\<close>

fun validate_operand :: "expr \<Rightarrow> string list res" where
  "validate_operand (Attribute (Name r) a) =
     (if r \<notin> set attribute_roots then Inl (ValueError ''unknown attribute root'')
      else Inr [r @ ''.'' @ a])"
| "validate_operand (Attribute _ a) =
     Inl (ValueError ''attribute paths must be exactly root.attribute'')"
| "validate_operand (Constant (KStr s)) = Inr []"
| "validate_operand (Constant (KInt n)) = Inr []"
| "validate_operand (Constant (KFloat f)) = Inr []"
| "validate_operand (Constant (KBool b)) = Inr []"
| "validate_operand (Constant _) = Inl (ValueError ''literal is not allowed'')"
| "validate_operand _ = Inl (ValueError ''operand is not allowed'')"

fun validate_expr :: "expr \<Rightarrow> string list res" where
  "validate_expr (BoolOp _ vs) =
     bind_res (collect_res (map validate_expr vs)) (\<lambda>pss. Inr (concat pss))"
| "validate_expr (UnaryOp PyNot e) = validate_expr e"
| "validate_expr (Compare l ops cs) =
     (if \<not> list_all allowed_cmp ops then Inl (ValueError ''comparison operator is not allowed'')
      else bind_res (collect_res (map validate_operand (l # cs))) (\<lambda>pss. Inr (concat pss)))"
| "validate_expr _ = Inl (ValueError ''conditions are comparisons combined with and/or/not'')"

definition compile_condition :: "(string \<Rightarrow> expr res) \<Rightarrow> string \<Rightarrow> condition res" where
  "compile_condition parse src =
     (if length src > max_condition_length then Inl (ValueError ''condition exceeds 500 characters'')
      else (case parse src of
              Inl (SyntaxError m) \<Rightarrow> Inl (ValueError (''invalid condition syntax: '' @ m))
            | Inl e \<Rightarrow> Inl e
            | Inr tree \<Rightarrow>
                bind_res (validate_expr tree)
                  (\<lambda>ps. Inr \<lparr>c_source = src, c_tree = tree, c_paths = remdups ps\<rparr>)))"

section \<open>Evaluation\<close>

fun aval_num :: "aval \<Rightarrow> pyfloat option" where
  "aval_num (AInt n) = Some (FinF (of_int n))"
| "aval_num (AFloat f) = Some f"
| "aval_num (ABool b) = Some (FinF (if b then 1 else 0))"
| "aval_num (AStr _) = None"

definition aval_eq :: "aval \<Rightarrow> aval \<Rightarrow> bool" where
  "aval_eq a b =
     (case (a, b) of
        (AStr s, AStr t) \<Rightarrow> s = t
      | _ \<Rightarrow> (case (aval_num a, aval_num b) of
                (Some x, Some y) \<Rightarrow> float_eq x y
              | _ \<Rightarrow> False))"

text \<open>\<open>a < b\<close>: numbers compare as numbers, strings by code point, a mix raises.\<close>

definition aval_lt :: "aval \<Rightarrow> aval \<Rightarrow> bool res" where
  "aval_lt a b =
     (case (a, b) of
        (AStr s, AStr t) \<Rightarrow> Inr (s < t)
      | _ \<Rightarrow> (case (aval_num a, aval_num b) of
                (Some x, Some y) \<Rightarrow> Inr (float_lt x y)
              | _ \<Rightarrow> Inl TypeError))"

definition aval_le :: "aval \<Rightarrow> aval \<Rightarrow> bool res" where
  "aval_le a b = bind_res (aval_lt a b) (\<lambda>l. Inr (l \<or> aval_eq a b))"

fun compare_vals :: "cmpop \<Rightarrow> aval \<Rightarrow> aval \<Rightarrow> bool res" where
  "compare_vals CEq a b = Inr (aval_eq a b)"
| "compare_vals CNotEq a b = Inr (\<not> aval_eq a b)"
| "compare_vals CLt a b = aval_lt a b"
| "compare_vals CGt a b = aval_lt b a"
| "compare_vals CLtE a b = aval_le a b"
| "compare_vals _ a b = aval_le b a"

fun const_aval :: "pyconst \<Rightarrow> aval res" where
  "const_aval (KStr s) = Inr (AStr s)"
| "const_aval (KInt n) = Inr (AInt n)"
| "const_aval (KFloat f) = Inr (AFloat f)"
| "const_aval (KBool b) = Inr (ABool b)"
| "const_aval _ = Inl AssertionError"

fun operand_val :: "expr \<Rightarrow> attrs \<Rightarrow> aval res" where
  "operand_val (Attribute (Name r) a) av =
     (case map_of av (r @ ''.'' @ a) of None \<Rightarrow> Inl KeyError | Some v \<Rightarrow> Inr v)"
| "operand_val (Constant k) av = const_aval k"
| "operand_val _ av = Inl AssertionError"

fun eval_chain :: "aval \<Rightarrow> cmpop list \<Rightarrow> expr list \<Rightarrow> attrs \<Rightarrow> bool res" where
  "eval_chain l [] [] av = Inr True"
| "eval_chain l (op # ops) (c # cs) av =
     bind_res (operand_val c av) (\<lambda>r.
       bind_res (compare_vals op l r) (\<lambda>ok. if ok then eval_chain r ops cs av else Inr False))"
| "eval_chain l _ _ av = Inl (ValueError ''zip() arguments differ in length'')"

fun eval_expr :: "expr \<Rightarrow> attrs \<Rightarrow> bool res"
  and eval_all :: "expr list \<Rightarrow> attrs \<Rightarrow> bool res"
  and eval_any :: "expr list \<Rightarrow> attrs \<Rightarrow> bool res" where
  "eval_expr (BoolOp PyAnd vs) av = eval_all vs av"
| "eval_expr (BoolOp PyOr vs) av = eval_any vs av"
| "eval_expr (UnaryOp _ e) av = bind_res (eval_expr e av) (\<lambda>b. Inr (\<not> b))"
| "eval_expr (Compare l ops cs) av =
     bind_res (operand_val l av) (\<lambda>v. eval_chain v ops cs av)"
| "eval_expr _ av = Inl AssertionError"
| "eval_all [] av = Inr True"
| "eval_all (v # vs) av =
     bind_res (eval_expr v av) (\<lambda>b. if b then eval_all vs av else Inr False)"
| "eval_any [] av = Inr False"
| "eval_any (v # vs) av =
     bind_res (eval_expr v av) (\<lambda>b. if b then Inr True else eval_any vs av)"

definition missing_paths :: "condition \<Rightarrow> attrs \<Rightarrow> string list" where
  "missing_paths c av = sort (filter (\<lambda>p. map_of av p = None) (c_paths c))"

definition evaluate :: "condition \<Rightarrow> attrs \<Rightarrow> (bool \<times> string list) res" where
  "evaluate c av =
     (let missing = missing_paths c av
      in if missing \<noteq> [] then Inr (False, missing)
         else bind_res (eval_expr (c_tree c) av) (\<lambda>b. Inr (b, [])))"

section \<open>Properties\<close>

text \<open>The well-formedness the compiler establishes: paths cover every operand.\<close>

definition bound_in :: "string list \<Rightarrow> attrs \<Rightarrow> bool" where
  "bound_in ps av \<longleftrightarrow> (\<forall>p \<in> set ps. map_of av p \<noteq> None)"

definition compiled_ok :: "condition \<Rightarrow> bool" where
  "compiled_ok c \<longleftrightarrow> (\<exists>ps. validate_expr (c_tree c) = Inr ps \<and> set ps = set (c_paths c))"

lemma compile_condition_ok: "compile_condition parse src = Inr c \<Longrightarrow> compiled_ok c"
  by (auto simp: compile_condition_def compiled_ok_def bind_res_Inr_iff
      split: if_splits sum.splits exn.splits)

lemma compile_condition_length:
  "compile_condition parse src = Inr c \<Longrightarrow> c_source c = src \<and> length src \<le> 500"
  by (auto simp: compile_condition_def max_condition_length_def bind_res_Inr_iff
      split: if_splits sum.splits exn.splits)

lemma missing_paths_set: "set (missing_paths c av) = {p \<in> set (c_paths c). map_of av p = None}"
  by (simp add: missing_paths_def)

lemma missing_paths_Nil_iff: "missing_paths c av = [] \<longleftrightarrow> bound_in (c_paths c) av"
proof -
  have "missing_paths c av = [] \<longleftrightarrow> set (missing_paths c av) = {}" by simp
  also have "\<dots> \<longleftrightarrow> bound_in (c_paths c) av"
    unfolding missing_paths_set by (auto simp: bound_in_def)
  finally show ?thesis .
qed

lemma operand_val_ok:
  assumes "validate_operand e = Inr ps" and "bound_in ps av"
  shows "\<exists>v. operand_val e av = Inr v"
  using assms
  by (cases e rule: validate_operand.cases) (auto simp: bound_in_def split: if_splits)

lemma compare_vals_raises: "compare_vals op a b = Inl e \<Longrightarrow> e = TypeError"
  by (cases op)
    (auto simp: aval_le_def aval_lt_def bind_res_Inl_iff split: aval.splits option.splits)

lemma bound_in_append [simp]: "bound_in (ps @ qs) av \<longleftrightarrow> bound_in ps av \<and> bound_in qs av"
  by (auto simp: bound_in_def)

lemma bound_in_concat [simp]: "bound_in (concat pss) av \<longleftrightarrow> (\<forall>ps \<in> set pss. bound_in ps av)"
  by (auto simp: bound_in_def)

lemma eval_chain_raises:
  assumes "length ops = length cs" and "collect_res (map validate_operand cs) = Inr pss"
    and "\<forall>ps \<in> set pss. bound_in ps av" and "eval_chain v ops cs av = Inl e"
  shows "e = TypeError"
  using assms
proof (induction v ops cs av arbitrary: pss rule: eval_chain.induct)
  case (2 l op ops c cs av)
  from "2.prems"(2) obtain ps pss' where c: "validate_operand c = Inr ps"
    and cs: "collect_res (map validate_operand cs) = Inr pss'" and pss: "pss = ps # pss'"
    by (auto simp: bind_res_Inr_iff)
  from "2.prems"(3) pss obtain r where r: "operand_val c av = Inr r"
    using operand_val_ok [OF c] by auto
  with "2.prems" have "compare_vals op l r = Inl e \<or>
      (compare_vals op l r = Inr True \<and> eval_chain r ops cs av = Inl e)"
    by (auto simp: bind_res_Inl_iff split: if_splits)
  then show ?case
  proof
    assume "compare_vals op l r = Inl e"
    then show ?thesis by (rule compare_vals_raises)
  next
    assume "compare_vals op l r = Inr True \<and> eval_chain r ops cs av = Inl e"
    then show ?thesis
      using "2.IH" [OF TrueI, of pss' r] "2.prems" cs pss by auto
  qed
qed auto

text \<open>\<open>ast.parse\<close> yields one operator per comparator.\<close>

fun well_shaped :: "expr \<Rightarrow> bool" where
  "well_shaped (BoolOp _ vs) = list_all well_shaped vs"
| "well_shaped (UnaryOp _ e) = well_shaped e"
| "well_shaped (Compare l ops cs) = (length ops = length cs)"
| "well_shaped _ = True"

lemma eval_raises:
  "validate_expr t = Inr ps \<Longrightarrow> bound_in ps av \<Longrightarrow> well_shaped t \<Longrightarrow>
     eval_expr t av = Inl e \<Longrightarrow> e = TypeError"
  "collect_res (map validate_expr ts) = Inr pss \<Longrightarrow> (\<forall>ps \<in> set pss. bound_in ps av) \<Longrightarrow>
     list_all well_shaped ts \<Longrightarrow> eval_all ts av = Inl e \<Longrightarrow> e = TypeError"
  "collect_res (map validate_expr ts) = Inr pss \<Longrightarrow> (\<forall>ps \<in> set pss. bound_in ps av) \<Longrightarrow>
     list_all well_shaped ts \<Longrightarrow> eval_any ts av = Inl e \<Longrightarrow> e = TypeError"
proof (induction t av and ts av and ts av arbitrary: ps and pss and pss
    rule: eval_expr_eval_all_eval_any.induct)
  case (3 u t av)
  then show ?case by (cases u) (auto simp: bind_res_Inl_iff)
next
  case (4 l ops cs av)
  then obtain pl pcs where l: "validate_operand l = Inr pl"
    and cs: "collect_res (map validate_operand cs) = Inr pcs" and ps: "ps = pl @ concat pcs"
    by (auto simp: bind_res_Inr_iff split: if_splits)
  from "4.prems"(2) ps obtain v where v: "operand_val l av = Inr v"
    using operand_val_ok [OF l] by auto
  with "4.prems" cs ps show ?case
    using eval_chain_raises [of ops cs pcs av v e] by auto
qed (auto simp: bind_res_Inr_iff bind_res_Inl_iff split: if_splits)

lemma evaluate_raises:
  assumes "compiled_ok c" and "well_shaped (c_tree c)" and "evaluate c av = Inl e"
  shows "e = TypeError"
proof -
  from assms(3) have m: "missing_paths c av = []" and ev: "eval_expr (c_tree c) av = Inl e"
    by (auto simp: evaluate_def Let_def bind_res_Inl_iff split: if_splits)
  from assms(1) obtain ps where ps: "validate_expr (c_tree c) = Inr ps"
    and "set ps = set (c_paths c)" by (auto simp: compiled_ok_def)
  with m have "bound_in ps av" by (simp add: missing_paths_Nil_iff bound_in_def)
  with ps show ?thesis using eval_raises(1) assms(2) ev by blast
qed

lemma evaluate_missing:
  assumes "p \<in> set (c_paths c)" and "map_of av p = None"
  shows "\<exists>ms. evaluate c av = Inr (False, ms) \<and> p \<in> set ms"
proof -
  from assms have "p \<in> set (missing_paths c av)" by (simp add: missing_paths_set)
  then show ?thesis by (auto simp: evaluate_def Let_def)
qed

lemma evaluate_True:
  "evaluate c av = Inr (True, ms) \<Longrightarrow>
     ms = [] \<and> bound_in (c_paths c) av \<and> eval_expr (c_tree c) av = Inr True"
  by (auto simp: evaluate_def Let_def bind_res_Inr_iff missing_paths_Nil_iff split: if_splits)

text \<open>Evaluation reads the referenced paths only.\<close>

definition agree_on :: "string list \<Rightarrow> attrs \<Rightarrow> attrs \<Rightarrow> bool" where
  "agree_on ps av bv \<longleftrightarrow> (\<forall>p \<in> set ps. map_of av p = map_of bv p)"

lemma agree_on_append [simp]: "agree_on (ps @ qs) a b \<longleftrightarrow> agree_on ps a b \<and> agree_on qs a b"
  by (auto simp: agree_on_def)

lemma agree_on_concat [simp]: "agree_on (concat pss) a b \<longleftrightarrow> (\<forall>ps \<in> set pss. agree_on ps a b)"
  by (auto simp: agree_on_def)

lemma operand_val_agree:
  "validate_operand e = Inr ps \<Longrightarrow> agree_on ps av bv \<Longrightarrow> operand_val e av = operand_val e bv"
  by (cases e rule: validate_operand.cases) (auto simp: agree_on_def split: if_splits)

lemma eval_chain_agree:
  "collect_res (map validate_operand cs) = Inr pss \<Longrightarrow> \<forall>ps \<in> set pss. agree_on ps av bv \<Longrightarrow>
     eval_chain v ops cs av = eval_chain v ops cs bv"
proof (induction v ops cs av arbitrary: pss rule: eval_chain.induct)
  case (2 l op ops c cs av)
  from "2.prems"(1) obtain ps pss' where c: "validate_operand c = Inr ps"
    and cs: "collect_res (map validate_operand cs) = Inr pss'" and pss: "pss = ps # pss'"
    by (auto simp: bind_res_Inr_iff)
  have eq: "operand_val c av = operand_val c bv"
    using operand_val_agree [OF c] "2.prems"(2) pss by auto
  show ?case
  proof (cases "operand_val c av")
    case (Inr r)
    have "eval_chain r ops cs av = eval_chain r ops cs bv"
      using "2.IH" [OF TrueI cs] "2.prems"(2) pss by simp
    then show ?thesis
      using Inr eq by (cases "compare_vals op l r") auto
  qed (use eq in simp)
qed auto

lemma eval_agree:
  "validate_expr t = Inr ps \<Longrightarrow> agree_on ps av bv \<Longrightarrow> eval_expr t av = eval_expr t bv"
  "collect_res (map validate_expr ts) = Inr pss \<Longrightarrow> (\<forall>ps \<in> set pss. agree_on ps av bv) \<Longrightarrow>
     eval_all ts av = eval_all ts bv"
  "collect_res (map validate_expr ts) = Inr pss \<Longrightarrow> (\<forall>ps \<in> set pss. agree_on ps av bv) \<Longrightarrow>
     eval_any ts av = eval_any ts bv"
proof (induction t av and ts av and ts av arbitrary: ps and pss and pss
    rule: eval_expr_eval_all_eval_any.induct)
  case (3 u t av)
  then show ?case by (cases u) auto
next
  case (4 l ops cs av)
  then obtain pl pcs where l: "validate_operand l = Inr pl"
    and cs: "collect_res (map validate_operand cs) = Inr pcs" and ps: "ps = pl @ concat pcs"
    by (auto simp: bind_res_Inr_iff split: if_splits)
  from "4.prems" ps have "operand_val l av = operand_val l bv"
    using operand_val_agree [OF l] by simp
  moreover have "eval_chain v ops cs av = eval_chain v ops cs bv" for v
    using eval_chain_agree [OF cs] "4.prems"(2) ps by simp
  ultimately show ?case by (cases "operand_val l av") auto
next
  case (7 v vs av)
  from "7.prems" obtain ps pss' where v: "validate_expr v = Inr ps"
    and vs: "collect_res (map validate_expr vs) = Inr pss'" and pss: "pss = ps # pss'"
    by (auto simp: bind_res_Inr_iff)
  have "eval_expr v av = eval_expr v bv" and "eval_all vs av = eval_all vs bv"
    using "7.IH"(1) [OF v] "7.IH"(2) [OF TrueI vs] "7.prems"(2) pss by auto
  then show ?case by (cases "eval_expr v bv") simp_all
next
  case (9 v vs av)
  from "9.prems" obtain ps pss' where v: "validate_expr v = Inr ps"
    and vs: "collect_res (map validate_expr vs) = Inr pss'" and pss: "pss = ps # pss'"
    by (auto simp: bind_res_Inr_iff)
  have "eval_expr v av = eval_expr v bv" and "eval_any vs av = eval_any vs bv"
    using "9.IH"(1) [OF v] "9.IH"(2) [OF _ vs] "9.prems"(2) pss by auto
  then show ?case by (cases "eval_expr v bv") simp_all
qed (auto simp: bind_res_Inr_iff)

lemma evaluate_agree:
  assumes "compiled_ok c" and "agree_on (c_paths c) av bv"
  shows "evaluate c av = evaluate c bv"
proof -
  have "filter (\<lambda>p. map_of av p = None) (c_paths c) = filter (\<lambda>p. map_of bv p = None) (c_paths c)"
    using assms(2) by (intro filter_cong) (auto simp: agree_on_def)
  then have "missing_paths c av = missing_paths c bv" by (simp add: missing_paths_def)
  moreover have "eval_expr (c_tree c) av = eval_expr (c_tree c) bv"
    using assms eval_agree(1) by (auto simp: compiled_ok_def agree_on_def)
  ultimately show ?thesis by (simp add: evaluate_def Let_def)
qed

section \<open>Properties\<close>

text \<open>
  C39: A condition that compiled is evaluated without surprises: the only exception is
  the \<open>TypeError\<close> of an ordering between incomparable values, it is satisfied only when
  every path it mentions is bound (a missing attribute never satisfies it and is
  reported), and attributes it does not mention cannot change the outcome.
\<close>

theorem compiled_condition_outcome:
  assumes "compile_condition parse src = Inr c" and "well_shaped (c_tree c)"
    and "agree_on (c_paths c) av bv"
  shows "evaluate c bv = evaluate c av \<and>
    (evaluate c av = Inl TypeError \<or>
      (\<exists>b ms. evaluate c av = Inr (b, ms) \<and>
         set ms = {p \<in> set (c_paths c). map_of av p = None} \<and> (b \<longrightarrow> ms = [])))"
proof
  have ok: "compiled_ok c" using assms(1) by (rule compile_condition_ok)
  show "evaluate c bv = evaluate c av" using evaluate_agree [OF ok assms(3)] by simp
  have "ms = missing_paths c av \<and> (b \<longrightarrow> ms = [])" if "evaluate c av = Inr (b, ms)" for b ms
    using that by (auto simp: evaluate_def Let_def bind_res_Inr_iff split: if_splits)
  then show "evaluate c av = Inl TypeError \<or>
      (\<exists>b ms. evaluate c av = Inr (b, ms) \<and>
         set ms = {p \<in> set (c_paths c). map_of av p = None} \<and> (b \<longrightarrow> ms = []))"
    using evaluate_raises [OF ok assms(2)] missing_paths_set [of c av]
    by (cases "evaluate c av") auto
qed

definition sample_tree :: expr where
  "sample_tree =
     Compare (Attribute (Name ''identity'') ''team'') [CEq] [Constant (KStr ''core'')]"

definition sample_condition :: condition where
  "sample_condition =
     \<lparr>c_source = ''identity.team'', c_tree = sample_tree, c_paths = [''identity.team'']\<rparr>"

theorem compiled_condition_outcome_witness:
  "evaluate sample_condition [(''identity.team'', AStr ''core''), (''tool.name'', AStr ''x'')] =
     evaluate sample_condition [(''identity.team'', AStr ''core'')]"
proof -
  have "compile_condition (\<lambda>_. Inr sample_tree) ''identity.team'' = Inr sample_condition"
    by (simp add: compile_condition_def sample_condition_def sample_tree_def
      max_condition_length_def attribute_roots_def)
  then show ?thesis
    by (rule compiled_condition_outcome [THEN conjunct1])
      (simp_all add: sample_condition_def sample_tree_def agree_on_def)
qed

end
