(* ===== verification/Decision.thy ===== *)
theory Decision
  imports PyJson
begin

text \<open>
  \<open>services/gateway/decision.py\<close>: the event types, outcomes and modes of a decision,
  the canonical Decision object, and the JSON the audit payload stores of it.
\<close>

section \<open>Enumerations\<close>

datatype event_type =
    EV_SESSION_START | EV_TOOLS_LIST | EV_ALLOW
  | EV_DENY_RBAC | EV_DENY_ABAC | EV_DENY_REPLAY | EV_DENY_DRIFT | EV_DENY_RISK
  | EV_DENY_VALIDATION | EV_DENY_APPROVAL_MISMATCH | EV_DENY_STEP_UP
  | EV_CHALLENGE | EV_HUMAN_APPROVAL_REQUIRED | EV_APPROVED | EV_EXPIRED
  | EV_DRIFT_LOW | EV_DRIFT_MEDIUM | EV_DRIFT_HIGH | EV_DRIFT_CRITICAL
  | EV_BASELINE_FLAGGED | EV_AUDIT_KEY_ROTATED | EV_POLICY_ACTIVATED | EV_POLICY_ERROR

fun event_value :: "event_type \<Rightarrow> string" where
  "event_value EV_SESSION_START = ''SESSION_START''"
| "event_value EV_TOOLS_LIST = ''TOOLS_LIST''"
| "event_value EV_ALLOW = ''ALLOW''"
| "event_value EV_DENY_RBAC = ''DENY_RBAC''"
| "event_value EV_DENY_ABAC = ''DENY_ABAC''"
| "event_value EV_DENY_REPLAY = ''DENY_REPLAY''"
| "event_value EV_DENY_DRIFT = ''DENY_DRIFT''"
| "event_value EV_DENY_RISK = ''DENY_RISK''"
| "event_value EV_DENY_VALIDATION = ''DENY_VALIDATION''"
| "event_value EV_DENY_APPROVAL_MISMATCH = ''DENY_APPROVAL_MISMATCH''"
| "event_value EV_DENY_STEP_UP = ''DENY_STEP_UP''"
| "event_value EV_CHALLENGE = ''CHALLENGE''"
| "event_value EV_HUMAN_APPROVAL_REQUIRED = ''HUMAN_APPROVAL_REQUIRED''"
| "event_value EV_APPROVED = ''APPROVED''"
| "event_value EV_EXPIRED = ''EXPIRED''"
| "event_value EV_DRIFT_LOW = ''DRIFT_LOW''"
| "event_value EV_DRIFT_MEDIUM = ''DRIFT_MEDIUM''"
| "event_value EV_DRIFT_HIGH = ''DRIFT_HIGH''"
| "event_value EV_DRIFT_CRITICAL = ''DRIFT_CRITICAL''"
| "event_value EV_BASELINE_FLAGGED = ''BASELINE_FLAGGED''"
| "event_value EV_AUDIT_KEY_ROTATED = ''AUDIT_KEY_ROTATED''"
| "event_value EV_POLICY_ACTIVATED = ''POLICY_ACTIVATED''"
| "event_value EV_POLICY_ERROR = ''POLICY_ERROR''"

definition all_events :: "event_type list" where
  "all_events =
     [EV_SESSION_START, EV_TOOLS_LIST, EV_ALLOW, EV_DENY_RBAC, EV_DENY_ABAC,
      EV_DENY_REPLAY, EV_DENY_DRIFT, EV_DENY_RISK, EV_DENY_VALIDATION,
      EV_DENY_APPROVAL_MISMATCH, EV_DENY_STEP_UP, EV_CHALLENGE,
      EV_HUMAN_APPROVAL_REQUIRED, EV_APPROVED, EV_EXPIRED, EV_DRIFT_LOW,
      EV_DRIFT_MEDIUM, EV_DRIFT_HIGH, EV_DRIFT_CRITICAL, EV_BASELINE_FLAGGED,
      EV_AUDIT_KEY_ROTATED, EV_POLICY_ACTIVATED, EV_POLICY_ERROR]"

text \<open>\<open>EventType(value)\<close>; an unknown value raises.\<close>

definition event_of_value :: "string \<Rightarrow> event_type option" where
  "event_of_value s = List.find (\<lambda>e. event_value e = s) all_events"

datatype decision_outcome = O_ALLOW | O_DENY | O_CHALLENGE | O_HUMAN_APPROVAL_REQUIRED

fun outcome_value :: "decision_outcome \<Rightarrow> string" where
  "outcome_value O_ALLOW = ''allow''"
| "outcome_value O_DENY = ''deny''"
| "outcome_value O_CHALLENGE = ''challenge''"
| "outcome_value O_HUMAN_APPROVAL_REQUIRED = ''human_approval_required''"

datatype decision_mode = ENFORCE | OBSERVE

fun mode_value :: "decision_mode \<Rightarrow> string" where
  "mode_value ENFORCE = ''enforce''"
| "mode_value OBSERVE = ''observe''"

fun mode_of_value :: "string \<Rightarrow> decision_mode res" where
  "mode_of_value s =
     (if s = ''enforce'' then Inr ENFORCE
      else if s = ''observe'' then Inr OBSERVE
      else Inl (ValueError s))"

section \<open>Risk factors and decisions\<close>

record risk_factor =
  rf_factor :: string
  rf_contribution :: int
  rf_reason :: "string option"

record decision =
  d_decision :: decision_outcome
  d_event_type :: event_type
  d_mode :: decision_mode
  d_reason :: string
  d_matched_rules :: "string list"
  d_risk_score :: "int option"
  d_risk_factors :: "risk_factor list option"
  d_policy_version :: int
  d_audit_id :: "string option"
  d_approval_id :: "string option"
  d_challenge_id :: "string option"
  d_alternative :: "decision_outcome option"

definition factor_json :: "risk_factor \<Rightarrow> json" where
  "factor_json f =
     JObj [(''factor'', JStr (rf_factor f)), (''contribution'', JInt (rf_contribution f)),
           (''reason'', (case rf_reason f of None \<Rightarrow> JNull | Some r \<Rightarrow> JStr r))]"

text \<open>Values and events correspond one to one.\<close>

lemma all_events_complete: "e \<in> set all_events"
  by (cases e) (simp_all add: all_events_def)

lemma event_values_distinct: "distinct (map event_value all_events)"
  by (simp add: all_events_def)

lemma event_of_value_value: "event_of_value (event_value e) = Some e"
  unfolding event_of_value_def
  by (rule find_distinct [where f = event_value, OF event_values_distinct all_events_complete])

lemma event_value_inj: "event_value a = event_value b \<Longrightarrow> a = b"
  by (metis event_of_value_value option.inject)

lemma event_of_value_Some: "event_of_value s = Some e \<Longrightarrow> event_value e = s"
  unfolding event_of_value_def by (drule find_SomeD) simp

lemma mode_roundtrip: "mode_of_value (mode_value m) = Inr m"
  by (cases m) auto

end
