(* ===== verification/Config.thy ===== *)
theory Config
  imports Decision
begin

text \<open>
  \<open>services/gateway/config.py\<close>: the settings the modelled components read, their
  defaults, and the bounds pydantic checks at load. URLs, file paths and listener
  addresses are not kept. \<open>tier\<close> is the literal type \<open>low | medium | high | critical\<close>
  that the settings and the risk policy share.
\<close>

datatype tier = TLow | TMedium | THigh | TCritical

fun tier_value :: "tier \<Rightarrow> string" where
  "tier_value TLow = ''low''"
| "tier_value TMedium = ''medium''"
| "tier_value THigh = ''high''"
| "tier_value TCritical = ''critical''"

record settings =
  enforcement_mode :: decision_mode
  schema_cache_ttl :: int
  session_idle_ttl :: int
  max_mcp_body_bytes :: int
  max_json_depth :: int
  max_sessions_per_identity :: int
  max_inflight_calls_per_identity :: int
  tool_call_rate_limit :: int
  tool_call_rate_window_seconds :: int
  auth_failure_rate_limit :: int
  auth_failure_rate_window_seconds :: int
  replay_window_seconds :: int
  business_hours_start_utc :: int
  business_hours_end_utc :: int
  risk_freq_window_seconds :: int
  risk_freq_threshold :: int
  risk_decay_step :: int
  risk_decay_max :: int
  risk_decay_ttl_seconds :: int
  risk_denial_window_seconds :: int
  risk_denial_threshold :: int
  risk_drift_history_window_seconds :: int
  risk_drift_history_threshold :: int
  drift_description_severity :: tier
  approval_ttl_seconds :: int
  step_up_ttl_seconds :: int

definition default_settings :: settings where
  "default_settings =
     \<lparr>enforcement_mode = ENFORCE,
      schema_cache_ttl = 600,
      session_idle_ttl = 300,
      max_mcp_body_bytes = 1048576,
      max_json_depth = 32,
      max_sessions_per_identity = 3,
      max_inflight_calls_per_identity = 5,
      tool_call_rate_limit = 60,
      tool_call_rate_window_seconds = 60,
      auth_failure_rate_limit = 5,
      auth_failure_rate_window_seconds = 300,
      replay_window_seconds = 30,
      business_hours_start_utc = 9,
      business_hours_end_utc = 18,
      risk_freq_window_seconds = 60,
      risk_freq_threshold = 10,
      risk_decay_step = 5,
      risk_decay_max = 10,
      risk_decay_ttl_seconds = 2592000,
      risk_denial_window_seconds = 600,
      risk_denial_threshold = 3,
      risk_drift_history_window_seconds = 604800,
      risk_drift_history_threshold = 2,
      drift_description_severity = THigh,
      approval_ttl_seconds = 900,
      step_up_ttl_seconds = 300\<rparr>"

text \<open>The fields declared \<open>Field(gt=0)\<close>.\<close>

definition settings_valid :: "settings \<Rightarrow> bool" where
  "settings_valid S \<longleftrightarrow>
     0 < max_mcp_body_bytes S \<and> 0 < max_json_depth S \<and>
     0 < max_sessions_per_identity S \<and> 0 < max_inflight_calls_per_identity S \<and>
     0 < tool_call_rate_limit S \<and> 0 < tool_call_rate_window_seconds S \<and>
     0 < auth_failure_rate_limit S \<and> 0 < auth_failure_rate_window_seconds S"

lemma default_settings_valid: "settings_valid default_settings"
  by (simp add: settings_valid_def default_settings_def)

end
