(* ===== verification/PolicyEngine.thy ===== *)
theory PolicyEngine
  imports Abac Config PyText
begin

text \<open>
  \<open>services/gateway/policy_engine.py\<close>: the policy file's models with their validators,
  the engine's identity indexes, RBAC resolution, and the store that hot-swaps engines.
  pydantic's field typing (and YAML) is below the model: a policy starts as a record of
  its declared fields. The process environment, \<open>ast.parse\<close>, base32 decoding and
  SHA-256 are parameters.
\<close>

section \<open>Upstream servers\<close>

record resources =
  memory_mb :: int
  cpus :: rat
  pids :: int

definition default_resources :: resources where
  "default_resources = \<lparr>memory_mb = 256, cpus = 1 / 2, pids = 64\<rparr>"

definition check_resources :: "resources \<Rightarrow> resources res" where
  "check_resources r =
     (if 0 < memory_mb r \<and> 0 < cpus r \<and> 0 < pids r then Inr r
      else Inl (ValueError ''Input should be greater than 0''))"

record mount =
  m_source :: string
  m_target :: string

text \<open>\<open>PurePosixPath\<close>: root (exactly two leading slashes are a root of their own) and parts.\<close>

fun split_on :: "char \<Rightarrow> string \<Rightarrow> string list" where
  "split_on d [] = [[]]"
| "split_on d (c # cs) =
     (if c = d then [] # split_on d cs
      else (case split_on d cs of [] \<Rightarrow> [[c]] | w # ws \<Rightarrow> (c # w) # ws))"

lemma split_on_joined:
  "c \<notin> set xs \<Longrightarrow> split_on c (xs @ c # ys) = xs # split_on c ys"
  by (induction xs) (auto simp: Let_def)

lemma split_on_whole: "c \<notin> set xs \<Longrightarrow> split_on c xs = [xs]"
  by (induction xs) (auto simp: Let_def)

record posix_path =
  pp_root :: string
  pp_parts :: "string list"

definition posix_root :: "string \<Rightarrow> string" where
  "posix_root s =
     (if prefix ''//'' s \<and> \<not> prefix ''///'' s then ''//''
      else if prefix ''/'' s then ''/'' else [])"

definition posix_path :: "string \<Rightarrow> posix_path" where
  "posix_path s =
     \<lparr>pp_root = posix_root s,
      pp_parts = filter (\<lambda>w. w \<noteq> [] \<and> w \<noteq> ''.'') (split_on (CHR ''/'') s)\<rparr>"

definition path_parents :: "posix_path \<Rightarrow> posix_path list" where
  "path_parents p = map (\<lambda>n. p\<lparr>pp_parts := take n (pp_parts p)\<rparr>) (rev [0..<length (pp_parts p)])"

definition volume_prefix :: string where
  "volume_prefix = ''portunusmcp-upstream-''"

definition reserved_mount_targets :: "posix_path list" where
  "reserved_mount_targets = [posix_path ''/app/secrets'', posix_path ''/var/run/docker.sock'']"

definition check_mount :: "mount \<Rightarrow> mount res" where
  "check_mount m =
     (if \<not> prefix volume_prefix (m_source m) \<or> CHR '','' \<in> set (m_source m)
      then Inl (ValueError ''volume names must start with the upstream prefix'')
      else
        (let target = posix_path (m_target m)
         in if pp_root target = [] \<or> CHR '','' \<in> set (m_target m)
            then Inl (ValueError ''upstream mount target must be an absolute path without commas'')
            else if ''..'' \<in> set (pp_parts target)
            then Inl (ValueError ''upstream mount target must not contain ..'')
            else if list_ex (\<lambda>r. target = r \<or> r \<in> set (path_parents target)) reserved_mount_targets
            then Inl (ValueError ''upstream mount target is reserved'')
            else Inr m))"

datatype network = NetNone | NetBridge

record upstream_server =
  us_image :: string
  us_command :: "string list"
  us_env :: "(string \<times> string) list"
  us_volumes :: "mount list"
  us_network :: network
  us_resources :: resources
  us_resolved_environment :: "(string \<times> string) list"

definition check_image :: "string \<Rightarrow> string res" where
  "check_image v =
     (if v = [] then Inl (ValueError ''String should have at least 1 character'')
      else if CHR 0x00 \<in> set v \<or> py_strip v \<noteq> v
      then Inl (ValueError ''upstream image must not contain NUL or surrounding whitespace'')
      else Inr v)"

definition check_command :: "string list \<Rightarrow> string list res" where
  "check_command v =
     (if v = [] then Inl (ValueError ''List should have at least 1 item'')
      else if list_ex (\<lambda>part. part = [] \<or> CHR 0x00 \<in> set part) v
      then Inl (ValueError ''upstream command argv entries must be non-empty and NUL-free'')
      else Inr v)"

definition alpha_us :: "char \<Rightarrow> bool" where
  "alpha_us c \<longleftrightarrow>
     (let n = (of_char c :: nat)
      in (65 \<le> n \<and> n \<le> 90) \<or> (97 \<le> n \<and> n \<le> 122) \<or> n = 95)"

definition digit_char_p :: "char \<Rightarrow> bool" where
  "digit_char_p c \<longleftrightarrow> (let n = (of_char c :: nat) in 48 \<le> n \<and> n \<le> 57)"

definition env_name_re :: regex where
  "env_name_re = RSeq (Cls alpha_us) (RRep 0 None (Cls (\<lambda>c. alpha_us c \<or> digit_char_p c)))"

definition upstream_env_prefix :: string where
  "upstream_env_prefix = ''PORTUNUSMCP_UPSTREAM_''"

fun resolve_environment ::
  "(string \<Rightarrow> string option) \<Rightarrow> (string \<times> string) list \<Rightarrow> (string \<times> string) list res" where
  "resolve_environment environ [] = Inr []"
| "resolve_environment environ ((dest, source) # rest) =
     (if \<not> re_fullmatch env_name_re dest then Inl (ValueError ''invalid upstream environment name'')
      else if \<not> prefix upstream_env_prefix source
      then Inl (ValueError ''upstream environment source must start with the prefix'')
      else (case environ source of
              None \<Rightarrow> Inl (ValueError ''upstream environment source is unset'')
            | Some v \<Rightarrow>
                if CHR 0x00 \<in> set v then Inl (ValueError ''upstream environment source contains NUL'')
                else bind_res (resolve_environment environ rest) (\<lambda>r. Inr ((dest, v) # r))))"

definition check_server :: "(string \<Rightarrow> string option) \<Rightarrow> upstream_server \<Rightarrow> upstream_server res" where
  "check_server environ s =
     bind_res (check_image (us_image s)) (\<lambda>_.
     bind_res (check_command (us_command s)) (\<lambda>_.
     bind_res (collect_res (map check_mount (us_volumes s))) (\<lambda>_.
     bind_res (check_resources (us_resources s)) (\<lambda>_.
     bind_res (resolve_environment environ (us_env s)) (\<lambda>r.
       Inr (s\<lparr>us_resolved_environment := r\<rparr>))))))"

section \<open>Grants and identities\<close>

record server_grant =
  g_server_id :: string
  g_allowed_tools :: "string list"
  g_denied_tools :: "string list"
  g_conditions :: "string list"
  g_compiled :: "condition list"

definition compile_conditions :: "(string \<Rightarrow> expr res) \<Rightarrow> server_grant \<Rightarrow> server_grant res" where
  "compile_conditions parse g =
     bind_res (collect_res (map (compile_condition parse) (g_conditions g)))
       (\<lambda>cs. Inr (g\<lparr>g_compiled := cs\<rparr>))"

datatype auth_mode = Bearer | Signed

record ident =
  i_id :: string
  i_auth_mode :: auth_mode
  i_api_key_hash :: "string option"
  i_key_id :: "string option"
  i_signing_secret_env :: "string option"
  i_totp_secret_env :: "string option"
  i_admin :: bool
  i_allowed_servers :: "server_grant list"
  i_attributes :: "(string \<times> aval) list"
  i_signing_secret :: string
  i_totp_secret :: string

text \<open>Python truthiness of an optional string: absent and empty are both false.\<close>

definition given :: "string option \<Rightarrow> bool" where
  "given s \<longleftrightarrow> (case s of None \<Rightarrow> False | Some t \<Rightarrow> t \<noteq> [])"

lemma given_iff: "given s \<longleftrightarrow> (\<exists>t. s = Some t \<and> t \<noteq> [])"
  by (cases s) (auto simp: given_def)

definition getenv :: "(string \<Rightarrow> string option) \<Rightarrow> string option \<Rightarrow> string option" where
  "getenv environ name = (case name of None \<Rightarrow> None | Some n \<Rightarrow> environ n)"

definition check_signing :: "(string \<Rightarrow> string option) \<Rightarrow> ident \<Rightarrow> ident res" where
  "check_signing environ i =
     (case i_auth_mode i of
        Bearer \<Rightarrow>
          if \<not> given (i_api_key_hash i) then Inl (ValueError ''bearer auth_mode requires api_key_hash'')
          else if given (i_key_id i) \<or> given (i_signing_secret_env i)
          then Inl (ValueError ''key_id/signing_secret_env are signed-mode fields'')
          else Inr i
      | Signed \<Rightarrow>
          if \<not> given (i_key_id i) \<or> \<not> given (i_signing_secret_env i)
          then Inl (ValueError ''signed auth_mode requires key_id and signing_secret_env'')
          else if given (i_api_key_hash i)
          then Inl (ValueError ''signed auth_mode forbids api_key_hash'')
          else if i_admin i then Inl (ValueError ''admin requires bearer auth_mode'')
          else if \<not> given (getenv environ (i_signing_secret_env i))
          then Inl (ValueError ''signed identities fail closed without their secret'')
          else Inr (i\<lparr>i_signing_secret := the (getenv environ (i_signing_secret_env i))\<rparr>))"

definition check_totp ::
  "(string \<Rightarrow> string option) \<Rightarrow> (string \<Rightarrow> string res) \<Rightarrow> ident \<Rightarrow> ident res" where
  "check_totp environ decode_totp i =
     (if \<not> given (i_totp_secret_env i) then Inr i
      else if \<not> given (getenv environ (i_totp_secret_env i))
      then Inl (ValueError ''a step-up factor fails closed without its secret'')
      else (let secret = the (getenv environ (i_totp_secret_env i))
            in case decode_totp secret of
                 Inl _ \<Rightarrow> Inl (ValueError ''not a valid base32 TOTP secret'')
               | Inr _ \<Rightarrow> Inr (i\<lparr>i_totp_secret := secret\<rparr>)))"

definition check_auth_fields ::
  "(string \<Rightarrow> string option) \<Rightarrow> (string \<Rightarrow> string res) \<Rightarrow> ident \<Rightarrow> ident res" where
  "check_auth_fields environ decode_totp i =
     bind_res (check_signing environ i) (check_totp environ decode_totp)"

text \<open>An identity's fields are validated first: its grants compile their conditions.\<close>

definition check_identity ::
  "(string \<Rightarrow> string option) \<Rightarrow> (string \<Rightarrow> expr res) \<Rightarrow> (string \<Rightarrow> string res) \<Rightarrow> ident \<Rightarrow> ident res" where
  "check_identity environ parse decode_totp i =
     bind_res (collect_res (map (compile_conditions parse) (i_allowed_servers i)))
       (\<lambda>gs. check_auth_fields environ decode_totp (i\<lparr>i_allowed_servers := gs\<rparr>))"

section \<open>The policy file\<close>

record risk_policy =
  tool_sensitivity :: "(string \<times> tier) list"
  protected_repos :: "string list"

record policy_file =
  p_version :: int
  p_servers :: "(string \<times> upstream_server) list"
  p_identities :: "ident list"
  p_risk :: risk_policy

text \<open>The loop of \<open>_check_identity_indexes\<close>: the keys seen so far, in three dicts.\<close>

fun check_indexes :: "string list \<Rightarrow> string list \<Rightarrow> string list \<Rightarrow> ident list \<Rightarrow> unit res" where
  "check_indexes ids hashes keys [] = Inr ()"
| "check_indexes ids hashes keys (i # is) =
     (if i_id i \<in> set ids then Inl (ValueError ''duplicate identity id'')
      else if given (i_api_key_hash i) \<and> the (i_api_key_hash i) \<in> set hashes
      then Inl (ValueError ''duplicate api_key_hash'')
      else if given (i_key_id i) \<and> the (i_key_id i) \<in> set keys
      then Inl (ValueError ''duplicate key_id'')
      else check_indexes (i_id i # ids)
             (if given (i_api_key_hash i) then the (i_api_key_hash i) # hashes else hashes)
             (if given (i_key_id i) then the (i_key_id i) # keys else keys) is)"

definition check_servers :: "policy_file \<Rightarrow> unit res" where
  "check_servers p =
     (if ''*'' \<in> fst ` set (p_servers p)
      then Inl (ValueError ''* is a grant wildcard, not a registrable server_id'')
      else if list_ex (\<lambda>i. list_ex (\<lambda>g. g_server_id g \<noteq> ''*'' \<and>
                g_server_id g \<notin> fst ` set (p_servers p)) (i_allowed_servers i)) (p_identities p)
      then Inl (ValueError ''grant references unregistered server'')
      else Inr ())"

definition validate_policy ::
  "(string \<Rightarrow> string option) \<Rightarrow> (string \<Rightarrow> expr res) \<Rightarrow> (string \<Rightarrow> string res) \<Rightarrow>
     policy_file \<Rightarrow> policy_file res" where
  "validate_policy environ parse decode_totp p =
     bind_res (collect_res (map (\<lambda>(n, s). bind_res (check_server environ s) (\<lambda>s'. Inr (n, s')))
                 (p_servers p))) (\<lambda>ss.
     bind_res (collect_res (map (check_identity environ parse decode_totp) (p_identities p))) (\<lambda>is.
       (let q = p\<lparr>p_servers := ss, p_identities := is\<rparr>
        in bind_res (check_indexes [] [] [] is) (\<lambda>_.
           bind_res (check_servers q) (\<lambda>_. Inr q)))))"

section \<open>The engine\<close>

record policy_engine =
  e_policy :: policy_file
  e_content_hash :: string
  e_raw :: string

definition engine_version :: "policy_engine \<Rightarrow> int" where
  "engine_version e = p_version (e_policy e)"

definition identities_index :: "policy_engine \<Rightarrow> (string \<times> ident) list" where
  "identities_index e = dict_of (map (\<lambda>i. (i_id i, i)) (p_identities (e_policy e)))"

definition key_hash_index :: "policy_engine \<Rightarrow> (string \<times> string) list" where
  "key_hash_index e =
     dict_of (map (\<lambda>i. (the (i_api_key_hash i), i_id i))
       (filter (\<lambda>i. given (i_api_key_hash i)) (p_identities (e_policy e))))"

definition key_id_index :: "policy_engine \<Rightarrow> (string \<times> string) list" where
  "key_id_index e =
     dict_of (map (\<lambda>i. (the (i_key_id i), i_id i))
       (filter (\<lambda>i. given (i_key_id i)) (p_identities (e_policy e))))"

definition identity_for_key_hash :: "policy_engine \<Rightarrow> string \<Rightarrow> string option" where
  "identity_for_key_hash e h = map_of (key_hash_index e) h"

definition identity_for_key_id :: "policy_engine \<Rightarrow> string \<Rightarrow> string option" where
  "identity_for_key_id e k = map_of (key_id_index e) k"

definition engine_identity :: "policy_engine \<Rightarrow> string \<Rightarrow> ident option" where
  "engine_identity e n = map_of (identities_index e) n"

definition is_admin :: "policy_engine \<Rightarrow> string \<Rightarrow> bool" where
  "is_admin e n = (case engine_identity e n of None \<Rightarrow> False | Some i \<Rightarrow> i_admin i)"

definition server_config :: "policy_engine \<Rightarrow> string \<Rightarrow> upstream_server option" where
  "server_config e n = map_of (p_servers (e_policy e)) n"

fun scan_grants :: "string \<Rightarrow> string \<Rightarrow> server_grant list \<Rightarrow> server_grant option" where
  "scan_grants server tool [] = None"
| "scan_grants server tool (g # gs) =
     (if g_server_id g \<noteq> server \<and> g_server_id g \<noteq> ''*'' then scan_grants server tool gs
      else if tool \<in> set (g_denied_tools g) then None
      else if ''*'' \<in> set (g_allowed_tools g) \<or> tool \<in> set (g_allowed_tools g) then Some g
      else scan_grants server tool gs)"

definition matching_grant ::
  "policy_engine \<Rightarrow> string option \<Rightarrow> string \<Rightarrow> string \<Rightarrow> server_grant option" where
  "matching_grant e ident_id server tool =
     (case ident_id of
        None \<Rightarrow> None
      | Some n \<Rightarrow>
          (case engine_identity e n of
             None \<Rightarrow> None
           | Some i \<Rightarrow> scan_grants server tool (i_allowed_servers i)))"

definition is_allowed :: "policy_engine \<Rightarrow> string option \<Rightarrow> string \<Rightarrow> string \<Rightarrow> bool" where
  "is_allowed e ident_id server tool \<longleftrightarrow> matching_grant e ident_id server tool \<noteq> None"

text \<open>\<open>load_bytes\<close>: YAML parsing into the declared fields is a parameter, as is SHA-256.\<close>

definition load_bytes ::
  "(string \<Rightarrow> policy_file res) \<Rightarrow> (policy_file \<Rightarrow> policy_file res) \<Rightarrow> (string \<Rightarrow> string) \<Rightarrow>
     string \<Rightarrow> policy_engine res" where
  "load_bytes safe_load validate sha256 raw =
     bind_res (safe_load raw) (\<lambda>data.
     bind_res (validate data) (\<lambda>p.
       Inr \<lparr>e_policy = p, e_content_hash = sha256 raw, e_raw = raw\<rparr>))"

section \<open>The store\<close>

record policy_store =
  st_engine :: policy_engine

definition load_candidate :: "(string \<Rightarrow> policy_engine res) \<Rightarrow> string res \<Rightarrow> policy_engine option" where
  "load_candidate load file_bytes =
     (case bind_res file_bytes load of Inl _ \<Rightarrow> None | Inr e \<Rightarrow> Some e)"

definition swap :: "policy_store \<Rightarrow> policy_engine \<Rightarrow> policy_store" where
  "swap st e = st\<lparr>st_engine := e\<rparr>"

definition reload ::
  "(string \<Rightarrow> policy_engine res) \<Rightarrow> string res \<Rightarrow> policy_store \<Rightarrow> bool \<times> policy_store" where
  "reload load file_bytes st =
     (case load_candidate load file_bytes of
        None \<Rightarrow> (False, st)
      | Some e \<Rightarrow> (True, swap st e))"

section \<open>Lemmas\<close>

subsection \<open>RBAC resolution\<close>

definition grant_matches :: "string \<Rightarrow> server_grant \<Rightarrow> bool" where
  "grant_matches server g \<longleftrightarrow> g_server_id g = server \<or> g_server_id g = ''*''"

definition grant_denies :: "string \<Rightarrow> server_grant \<Rightarrow> bool" where
  "grant_denies tool g \<longleftrightarrow> tool \<in> set (g_denied_tools g)"

definition grant_allows :: "string \<Rightarrow> server_grant \<Rightarrow> bool" where
  "grant_allows tool g \<longleftrightarrow> ''*'' \<in> set (g_allowed_tools g) \<or> tool \<in> set (g_allowed_tools g)"

text \<open>
  The reference reading of a grant list: the first grant that matches the server and
  mentions the tool decides, and a denial in it wins over its own allowance.
\<close>

definition decides :: "string \<Rightarrow> string \<Rightarrow> server_grant \<Rightarrow> bool" where
  "decides server tool g \<longleftrightarrow> grant_matches server g \<and> (grant_denies tool g \<or> grant_allows tool g)"

definition first_decider :: "string \<Rightarrow> string \<Rightarrow> server_grant list \<Rightarrow> server_grant option" where
  "first_decider server tool gs = List.find (decides server tool) gs"

lemma scan_grants_first_decider:
  "scan_grants server tool gs =
     (case first_decider server tool gs of
        None \<Rightarrow> None
      | Some g \<Rightarrow> if grant_denies tool g then None else Some g)"
  unfolding first_decider_def
  by (induction gs)
    (auto simp: decides_def grant_matches_def grant_denies_def grant_allows_def)

lemma scan_grants_Some:
  "scan_grants server tool gs = Some g \<Longrightarrow>
     g \<in> set gs \<and> grant_matches server g \<and> \<not> grant_denies tool g \<and> grant_allows tool g"
  by (induction gs)
    (auto simp: grant_matches_def grant_denies_def grant_allows_def split: if_splits)

lemma matching_grant_Some:
  "matching_grant e (Some n) server tool = Some g \<Longrightarrow>
     \<exists>i. engine_identity e n = Some i \<and> g \<in> set (i_allowed_servers i) \<and>
         grant_matches server g \<and> \<not> grant_denies tool g \<and> grant_allows tool g"
  by (auto simp: matching_grant_def dest: scan_grants_Some split: option.splits)

lemma matching_grant_None_id [simp]: "matching_grant e None server tool = None"
  by (simp add: matching_grant_def)

subsection \<open>Validated policies\<close>

lemma check_indexes_distinct:
  "check_indexes ids hashes keys is = Inr () \<Longrightarrow>
     distinct (map i_id is) \<and> set ids \<inter> i_id ` set is = {} \<and>
     distinct (map (the \<circ> i_api_key_hash) (filter (\<lambda>i. given (i_api_key_hash i)) is)) \<and>
     set hashes \<inter> (the \<circ> i_api_key_hash) ` {i \<in> set is. given (i_api_key_hash i)} = {} \<and>
     distinct (map (the \<circ> i_key_id) (filter (\<lambda>i. given (i_key_id i)) is)) \<and>
     set keys \<inter> (the \<circ> i_key_id) ` {i \<in> set is. given (i_key_id i)} = {}"
  by (induction ids hashes keys "is" rule: check_indexes.induct)
    (auto split: if_splits)

definition engine_valid :: "policy_engine \<Rightarrow> bool" where
  "engine_valid e \<longleftrightarrow>
     check_indexes [] [] [] (p_identities (e_policy e)) = Inr () \<and>
     check_servers (e_policy e) = Inr () \<and>
     (\<forall>i \<in> set (p_identities (e_policy e)).
        (\<forall>g \<in> set (i_allowed_servers i). \<forall>c \<in> set (g_compiled g). compiled_ok c) \<and>
        (i_auth_mode i = Signed \<longrightarrow>
           i_signing_secret i \<noteq> [] \<and> given (i_key_id i) \<and>
           \<not> given (i_api_key_hash i) \<and> \<not> i_admin i) \<and>
        (i_auth_mode i = Bearer \<longrightarrow> given (i_api_key_hash i) \<and> \<not> given (i_key_id i)))"

lemma map_of_dict_of_distinct:
  assumes "distinct (map fst kvs)"
  shows "map_of (dict_of kvs) k = Some v \<longleftrightarrow> (k, v) \<in> set kvs"
proof -
  have "distinct (map fst (rev kvs))" using assms by (metis distinct_rev rev_map)
  then have "map_of (rev kvs) k = Some v \<longleftrightarrow> (k, v) \<in> set (rev kvs)"
    by (rule map_of_eq_Some_iff)
  then show ?thesis by (simp add: map_of_dict_of)
qed

lemma engine_identity_iff:
  assumes "engine_valid e"
  shows "engine_identity e n = Some i \<longleftrightarrow> i \<in> set (p_identities (e_policy e)) \<and> i_id i = n"
proof -
  from assms have "distinct (map fst (map (\<lambda>i. (i_id i, i)) (p_identities (e_policy e))))"
    by (auto simp: engine_valid_def comp_def dest!: check_indexes_distinct)
  from map_of_dict_of_distinct [OF this] show ?thesis
    by (auto simp: engine_identity_def identities_index_def)
qed

lemma identity_for_key_hash_iff:
  assumes "engine_valid e" and "h \<noteq> []"
  shows "identity_for_key_hash e h = Some n \<longleftrightarrow>
    (\<exists>i \<in> set (p_identities (e_policy e)). i_api_key_hash i = Some h \<and> i_id i = n)"
proof -
  from assms have "distinct (map fst (map (\<lambda>i. (the (i_api_key_hash i), i_id i))
      (filter (\<lambda>i. given (i_api_key_hash i)) (p_identities (e_policy e)))))"
    by (auto simp: engine_valid_def comp_def dest!: check_indexes_distinct)
  from map_of_dict_of_distinct [OF this]
  have "identity_for_key_hash e h = Some n \<longleftrightarrow>
      (h, n) \<in> (\<lambda>i. (the (i_api_key_hash i), i_id i)) `
        {i \<in> set (p_identities (e_policy e)). given (i_api_key_hash i)}"
    by (simp add: identity_for_key_hash_def key_hash_index_def)
  also have "\<dots> \<longleftrightarrow>
      (\<exists>i \<in> set (p_identities (e_policy e)). i_api_key_hash i = Some h \<and> i_id i = n)"
    using assms(2) unfolding given_iff image_iff by auto
  finally show ?thesis .
qed

lemma identity_for_key_id_iff:
  assumes "engine_valid e" and "k \<noteq> []"
  shows "identity_for_key_id e k = Some n \<longleftrightarrow>
    (\<exists>i \<in> set (p_identities (e_policy e)). i_key_id i = Some k \<and> i_id i = n)"
proof -
  from assms have "distinct (map fst (map (\<lambda>i. (the (i_key_id i), i_id i))
      (filter (\<lambda>i. given (i_key_id i)) (p_identities (e_policy e)))))"
    by (auto simp: engine_valid_def comp_def dest!: check_indexes_distinct)
  from map_of_dict_of_distinct [OF this]
  have "identity_for_key_id e k = Some n \<longleftrightarrow>
      (k, n) \<in> (\<lambda>i. (the (i_key_id i), i_id i)) `
        {i \<in> set (p_identities (e_policy e)). given (i_key_id i)}"
    by (simp add: identity_for_key_id_def key_id_index_def)
  also have "\<dots> \<longleftrightarrow>
      (\<exists>i \<in> set (p_identities (e_policy e)). i_key_id i = Some k \<and> i_id i = n)"
    using assms(2) unfolding given_iff image_iff by auto
  finally show ?thesis .
qed

lemma check_auth_fields_grants:
  "check_auth_fields environ dec i = Inr j \<Longrightarrow> i_allowed_servers j = i_allowed_servers i"
  by (auto simp: check_auth_fields_def check_signing_def check_totp_def bind_res_Inr_iff Let_def
      split: auth_mode.splits if_splits sum.splits)

lemma check_auth_fields_modes:
  "check_auth_fields environ dec i = Inr j \<Longrightarrow>
     (i_auth_mode j = Signed \<longrightarrow> i_signing_secret j \<noteq> [] \<and> given (i_key_id j) \<and>
        \<not> given (i_api_key_hash j) \<and> \<not> i_admin j) \<and>
     (i_auth_mode j = Bearer \<longrightarrow> given (i_api_key_hash j) \<and> \<not> given (i_key_id j))"
  by (auto simp: check_auth_fields_def check_signing_def check_totp_def bind_res_Inr_iff Let_def
      given_def split: auth_mode.splits if_splits sum.splits option.splits)

lemma compile_conditions_ok:
  assumes "compile_conditions parse g = Inr h" and "c \<in> set (g_compiled h)"
  shows "compiled_ok c"
proof -
  from assms(1) obtain cs where cs: "collect_res (map (compile_condition parse) (g_conditions g)) = Inr cs"
    and h: "h = g\<lparr>g_compiled := cs\<rparr>" by (auto simp: compile_conditions_def bind_res_Inr_iff)
  from h assms(2) obtain k where "k < length cs" and "c = cs ! k" by (auto simp: in_set_conv_nth)
  with collect_res_Inr_nth [OF cs, of k] collect_res_Inr_length [OF cs]
  have "compile_condition parse (g_conditions g ! k) = Inr c" by simp
  then show ?thesis by (rule compile_condition_ok)
qed

lemma check_identity_ok:
  assumes "check_identity environ parse dec i = Inr j"
  shows "(\<forall>g \<in> set (i_allowed_servers j). \<forall>c \<in> set (g_compiled g). compiled_ok c)"
proof -
  from assms obtain gs where gs: "collect_res (map (compile_conditions parse) (i_allowed_servers i)) = Inr gs"
    and j: "check_auth_fields environ dec (i\<lparr>i_allowed_servers := gs\<rparr>) = Inr j"
    by (auto simp: check_identity_def bind_res_Inr_iff)
  have eq: "i_allowed_servers j = gs" using check_auth_fields_grants [OF j] by simp
  have "\<exists>g0. compile_conditions parse g0 = Inr g" if "g \<in> set gs" for g
    using collect_res_Inr_ex [OF gs that] by auto
  then show ?thesis
    unfolding eq using compile_conditions_ok by blast
qed

lemma validate_policy_valid:
  assumes "validate_policy environ parse dec p = Inr q"
  shows "engine_valid \<lparr>e_policy = q, e_content_hash = h, e_raw = r\<rparr>"
proof -
  from assms obtain ss "is" where
    "is": "collect_res (map (check_identity environ parse dec) (p_identities p)) = Inr is"
    and q: "q = p\<lparr>p_servers := ss, p_identities := is\<rparr>"
    and ix: "check_indexes [] [] [] is = Inr ()" and sv: "check_servers q = Inr ()"
    by (auto simp: validate_policy_def bind_res_Inr_iff Let_def)
  have checked: "\<exists>i0. check_identity environ parse dec i0 = Inr i" if "i \<in> set is" for i
    using collect_res_Inr_ex [OF "is" that] by auto
  have modes: "\<exists>i0. check_auth_fields environ dec i0 = Inr i" if "i \<in> set is" for i
    using checked [OF that] by (auto simp: check_identity_def bind_res_Inr_iff)
  show ?thesis
    using ix sv checked modes check_identity_ok check_auth_fields_modes q
    unfolding engine_valid_def by simp meson
qed

lemma load_bytes_valid:
  "load_bytes safe_load (validate_policy environ parse dec) sha256 raw = Inr e \<Longrightarrow>
     engine_valid e \<and> e_raw e = raw \<and> e_content_hash e = sha256 raw"
  by (auto simp: load_bytes_def bind_res_Inr_iff intro: validate_policy_valid)

lemma matching_grant_compiled:
  assumes "engine_valid e" and "matching_grant e n server tool = Some g" and "c \<in> set (g_compiled g)"
  shows "compiled_ok c"
proof -
  from assms(2) obtain m where n: "n = Some m" by (cases n) auto
  with matching_grant_Some assms(2) obtain i where i: "engine_identity e m = Some i"
    and g: "g \<in> set (i_allowed_servers i)" by blast
  from i engine_identity_iff [OF assms(1)] have "i \<in> set (p_identities (e_policy e))" by blast
  with assms(1,3) g show ?thesis unfolding engine_valid_def by blast
qed

section \<open>Properties\<close>

text \<open>
  RBAC resolution equals its reference reading: the identity's grants are read in
  order, the first one that matches the server and mentions the tool decides, its
  denials win over its own allowances, and no identity, an unknown identity or no
  deciding grant means no access.
\<close>

theorem matching_grant_is_first_decider:
  "matching_grant e ident_id server tool =
     (case Option.bind ident_id (engine_identity e) of
        None \<Rightarrow> None
      | Some i \<Rightarrow>
          (case first_decider server tool (i_allowed_servers i) of
             None \<Rightarrow> None
           | Some g \<Rightarrow> if grant_denies tool g then None else Some g))"
  by (cases ident_id) (auto simp: matching_grant_def scan_grants_first_decider split: option.splits)

text \<open>
  In an engine that loaded, a key hash resolves to an identity exactly when a bearer
  identity of the policy declares it: the identity is unique, and no signed identity is
  reachable through it.
\<close>

theorem loaded_key_hash_lookup:
  assumes "load_bytes safe_load (validate_policy environ parse dec) sha256 raw = Inr e"
    and "h \<noteq> []"
  shows "identity_for_key_hash e h = Some n \<longleftrightarrow>
    (\<exists>i. engine_identity e n = Some i \<and> i_api_key_hash i = Some h \<and> i_auth_mode i = Bearer)"
proof -
  have valid: "engine_valid e" using load_bytes_valid [OF assms(1)] by blast
  have bearer: "i_auth_mode i = Bearer"
    if "i \<in> set (p_identities (e_policy e))" "i_api_key_hash i = Some h" for i
    using valid that assms(2) by (cases "i_auth_mode i") (auto simp: engine_valid_def given_def)
  show ?thesis
    unfolding identity_for_key_hash_iff [OF valid assms(2)] engine_identity_iff [OF valid]
    using bearer by blast
qed

definition sample_identity :: ident where
  "sample_identity =
     \<lparr>i_id = ''alice'', i_auth_mode = Bearer, i_api_key_hash = Some ''h1'', i_key_id = None,
      i_signing_secret_env = None, i_totp_secret_env = None, i_admin = False,
      i_allowed_servers = [], i_attributes = [], i_signing_secret = [], i_totp_secret = []\<rparr>"

definition sample_policy :: policy_file where
  "sample_policy =
     \<lparr>p_version = 1, p_servers = [], p_identities = [sample_identity],
      p_risk = \<lparr>tool_sensitivity = [], protected_repos = []\<rparr>\<rparr>"

definition sample_engine :: policy_engine where
  "sample_engine = \<lparr>e_policy = sample_policy, e_content_hash = ''raw'', e_raw = ''raw''\<rparr>"

lemma sample_loads:
  "load_bytes (\<lambda>_. Inr sample_policy) (validate_policy (\<lambda>_. None) (\<lambda>_. Inl TypeError) Inr) id
     ''raw'' = Inr sample_engine"
  by (simp add: load_bytes_def validate_policy_def check_identity_def check_auth_fields_def
      check_signing_def check_totp_def check_servers_def sample_policy_def sample_identity_def
      sample_engine_def given_def)

theorem loaded_key_hash_lookup_witness:
  "identity_for_key_hash sample_engine ''h1'' = Some ''alice''"
  by (subst loaded_key_hash_lookup [OF sample_loads])
    (simp_all add: engine_identity_def identities_index_def sample_engine_def sample_policy_def
      sample_identity_def dict_of_def)

text \<open>
  A reload never leaves the gateway with an engine that did not validate: whatever
  the file's bytes are, the store keeps a valid engine, a failed reload keeps the very
  same one, and a successful one installs the engine of exactly those bytes.
\<close>

theorem reload_keeps_valid_engine:
  assumes "engine_valid (st_engine st)"
    and "reload (load_bytes safe_load (validate_policy environ parse dec) sha256) file_bytes st
      = (ok, st')"
  shows "engine_valid (st_engine st') \<and> (\<not> ok \<longrightarrow> st' = st) \<and>
    (ok \<longrightarrow> file_bytes = Inr (e_raw (st_engine st')) \<and>
       e_content_hash (st_engine st') = sha256 (e_raw (st_engine st')))"
proof (cases file_bytes)
  case (Inl e)
  with assms show ?thesis by (auto simp: reload_def load_candidate_def)
next
  case (Inr raw)
  with assms show ?thesis
    by (cases "load_bytes safe_load (validate_policy environ parse dec) sha256 raw")
      (auto simp: reload_def load_candidate_def swap_def dest: load_bytes_valid)
qed

theorem reload_keeps_valid_engine_witness:
  "engine_valid (st_engine (snd (reload
     (load_bytes (\<lambda>_. Inl (ValueError [])) (validate_policy (\<lambda>_. None) (\<lambda>_. Inl TypeError) Inr) id)
     (Inr ''bad'') \<lparr>st_engine = sample_engine\<rparr>)))"
proof -
  have "engine_valid (st_engine \<lparr>st_engine = sample_engine\<rparr>)"
    using load_bytes_valid [OF sample_loads] by simp
  from reload_keeps_valid_engine [OF this prod.collapse [symmetric]] show ?thesis by blast
qed

text \<open>
  The reserved mount targets are compared as pure POSIX paths, which keep a leading
  double slash apart from a single one: \<open>//app/secrets\<close> passes the check although the
  kernel resolves it to the reserved directory, and \<open>/app/secrets\<close> is refused.
\<close>

theorem double_slash_mount_target_accepted:
  "check_mount \<lparr>m_source = ''portunusmcp-upstream-x'', m_target = ''//app/secrets''\<rparr> =
     Inr \<lparr>m_source = ''portunusmcp-upstream-x'', m_target = ''//app/secrets''\<rparr> \<and>
   (\<exists>e. check_mount \<lparr>m_source = ''portunusmcp-upstream-x'', m_target = ''/app/secrets''\<rparr> = Inl e)"
  by (simp add: check_mount_def volume_prefix_def posix_path_def posix_root_def path_parents_def
      reserved_mount_targets_def Let_def upt_rec)

end
