(* ===== verification/ReplayGuard.thy ===== *)
theory ReplayGuard
  imports Redis PyJson PolicyEngine
begin

text \<open>
  \<open>services/gateway/replay_guard.py\<close>: the nonce and timestamp check. \<open>uuid.UUID\<close>
  accepts what its constructor's text handling accepts; the clock reading is an
  argument. The lemmas: what an accepted call satisfies, and that a nonce accepted
  once is refused while twice the window has not passed on Redis's clock.
\<close>

definition nonce_meta_key :: string where
  "nonce_meta_key = ''portunusmcp/nonce''"

definition timestamp_meta_key :: string where
  "timestamp_meta_key = ''portunusmcp/timestamp''"

definition nonce_key :: "string \<Rightarrow> string" where
  "nonce_key nonce = ''replay:'' @ nonce"

text \<open>
  \<open>uuid.UUID(text)\<close>: drop \<open>urn:\<close>, \<open>uuid:\<close>, surrounding braces and hyphens; 32
  characters must be left, readable by \<open>int(_, 16)\<close> (space around, a sign, a \<open>0x\<close>
  and single underscores between digits included).
\<close>

definition strip_braces :: "string \<Rightarrow> string" where
  "strip_braces s =
     (let b = (\<lambda>c. c = CHR ''{'' \<or> c = CHR ''}'')
      in rev (dropWhile b (rev (dropWhile b s))))"

definition uuid_ok :: "string \<Rightarrow> bool" where
  "uuid_ok s =
     (let h = filter (\<lambda>c. c \<noteq> CHR ''-'') (strip_braces (remove_all ''uuid:'' (remove_all ''urn:'' s)))
      in length h = 32 \<and> int16_ok h)"

text \<open>\<open>abs(time.time() - timestamp) > window\<close>; an integer too large for a float raises.\<close>

definition float_limit :: int where
  "float_limit = 2 ^ 1024 - 2 ^ 970"

fun outside_window :: "int \<Rightarrow> rat \<Rightarrow> json \<Rightarrow> bool res" where
  "outside_window W now (JInt n) =
     (if \<bar>n\<bar> \<ge> float_limit then Inl OverflowError else Inr (\<bar>now - of_int n\<bar> > of_int W))"
| "outside_window W now (JFloat (FinF q)) = Inr (\<bar>now - q\<bar> > of_int W)"
| "outside_window W now (JFloat NaN) = Inr False"
| "outside_window W now (JFloat _) = Inr True"
| "outside_window W now _ = Inl TypeError"

definition window_reason :: "int \<Rightarrow> string" where
  "window_reason W =
     ''timestamp outside the '' @ [CHR 0xB1] @ int_str W @ ''s window''"

fun is_number :: "json \<Rightarrow> bool" where
  "is_number (JInt _) = True"
| "is_number (JFloat _) = True"
| "is_number _ = False"

definition replay_check ::
  "'r redis \<Rightarrow> int \<Rightarrow> rat \<Rightarrow> json \<Rightarrow> json \<Rightarrow> ('r, string option) io" where
  "replay_check exec W now nonce timestamp =
     (case nonce of
        JStr s \<Rightarrow>
          if \<not> uuid_ok s then ret_io (Some ''missing or invalid nonce'')
          else if \<not> is_number timestamp then ret_io (Some ''missing or invalid timestamp'')
          else bind_io (of_res (outside_window W now timestamp)) (\<lambda>stale.
            if stale then ret_io (Some (window_reason W))
            else bind_io (exec (SetNxEx (nonce_key s) (RInt 1) (2 * W))) (\<lambda>fresh.
              if fresh = NilR
              then ret_io (Some ''nonce already seen within the timestamp window'')
              else ret_io None))
      | _ \<Rightarrow> ret_io (Some ''missing or invalid nonce''))"

text \<open>An accepted check stored the nonce under a well-formed, in-window pair.\<close>

lemma replay_check_accepts:
  assumes "replay_check exec W now nonce ts r = (Inr None, r')"
  obtains s y where "nonce = JStr s" and "uuid_ok s" and "is_number ts"
    and "outside_window W now ts = Inr False"
    and "exec (SetNxEx (nonce_key s) (RInt 1) (2 * W)) r = (Inr y, r')" and "y \<noteq> NilR"
proof (cases nonce)
  case (JStr s)
  with assms have ok: "uuid_ok s" "is_number ts"
    by (auto simp: replay_check_def split: if_splits)
  with assms JStr show ?thesis
    by (auto simp: replay_check_def bind_io_def split: sum.splits if_splits prod.splits
        intro: that)
qed (use assms in \<open>auto simp: replay_check_def\<close>)

text \<open>A malformed or stale pair never reaches Redis.\<close>

lemma replay_check_rejects_early:
  assumes "\<And>s. nonce = JStr s \<Longrightarrow> \<not> uuid_ok s \<or> \<not> is_number ts \<or>
    outside_window W now ts \<noteq> Inr False"
  shows "snd (replay_check exec W now nonce ts r) = r \<and>
    fst (replay_check exec W now nonce ts r) \<noteq> Inr None"
  using assms
  by (cases nonce) (auto simp: replay_check_def bind_io_def split: sum.splits)

context redis_service
begin

lemma check_stores_nonce:
  assumes "replay_check exec W now (JStr s) ts r = (Inr None, r')"
  shows "rd_data (abs r') (nonce_key s) =
    Some (RInt 1, Some (rd_clock (abs r) + of_int (2 * W))) \<and> rd_clock (abs r') = rd_clock (abs r)"
proof -
  from assms obtain y where ex: "exec (SetNxEx (nonce_key s) (RInt 1) (2 * W)) r = (Inr y, r')"
    and "y \<noteq> NilR" by (auto elim: replay_check_accepts)
  then have "y = OkR" using exec_ok [OF ex] by (auto split: if_splits)
  with exec_set_nx ex show ?thesis by blast
qed

lemma check_refuses_seen:
  assumes "live (abs r) (nonce_key s) \<noteq> None"
  shows "fst (replay_check exec W now (JStr s) ts r) \<noteq> Inr None"
proof
  assume "fst (replay_check exec W now (JStr s) ts r) = Inr None"
  then obtain r' where "replay_check exec W now (JStr s) ts r = (Inr None, r')"
    by (metis prod.collapse)
  then obtain y where "exec (SetNxEx (nonce_key s) (RInt 1) (2 * W)) r = (Inr y, r')"
    and "y \<noteq> NilR" by (auto elim: replay_check_accepts)
  with exec_set_nx_live assms show False by blast
qed

lemma no_second_acceptance:
  assumes "replay_check exec W now (JStr s) ts r = (Inr None, r')"
    and "undisturbed (nonce_key s) (abs r') (abs u)"
    and "rd_clock (abs u) - rd_clock (abs r) \<le> of_int (2 * W)"
  shows "fst (replay_check exec W now' (JStr s) ts' u) \<noteq> Inr None"
proof -
  have "live (abs u) (nonce_key s) = Some (RInt 1)"
    using check_stores_nonce [OF assms(1)] assms(2,3) by (auto intro: undisturbed_live)
  then show ?thesis by (intro check_refuses_seen) simp
qed

end

text \<open>The same timestamp stays acceptable for at most twice the window.\<close>

lemma in_window_span:
  assumes "outside_window W now ts = Inr False" and "outside_window W now' ts = Inr False"
    and "ts \<noteq> JFloat NaN"
  shows "now' - now \<le> of_int (2 * W)"
  using assms
  by (cases "(W, now, ts)" rule: outside_window.cases) (auto split: if_splits)

section \<open>Properties\<close>

text \<open>
  C2: A signed pair of nonce and finite timestamp is accepted at most once. After an
  acceptance the same pair is refused at every later check, whatever other commands
  run (no command but \<open>SET NX\<close> and reads on the nonce's key) and however often Redis
  fails, as long as Redis's clock does not run faster than the gateway's: either the
  timestamp has left the window or the nonce is still stored.
\<close>

theorem replay_pair_accepted_once:
  assumes "redis_service exec view" and "ts \<noteq> JFloat NaN"
    and first: "replay_check exec W now (JStr s) ts r = (Inr None, r')"
    and "undisturbed (nonce_key s) (view r') (view u)"
    and clocks: "rd_clock (view u) - rd_clock (view r) \<le> now' - now"
  shows "fst (replay_check exec W now' (JStr s) ts u) \<noteq> Inr None"
proof
  assume again: "fst (replay_check exec W now' (JStr s) ts u) = Inr None"
  then have "outside_window W now' ts = Inr False"
    by (metis prod.collapse replay_check_accepts)
  moreover have "outside_window W now ts = Inr False"
    using first by (auto elim: replay_check_accepts)
  ultimately have "now' - now \<le> of_int (2 * W)"
    using in_window_span assms(2) by blast
  with clocks have "rd_clock (view u) - rd_clock (view r) \<le> of_int (2 * W)" by linarith
  with redis_service.no_second_acceptance [OF assms(1) first assms(4)] again
  show False by blast
qed

definition sample_nonce :: string where
  "sample_nonce = ''0123456789abcdef0123456789abcdef''"

definition after_first :: redis_state where
  "after_first = snd (exec_ref (SetNxEx (nonce_key sample_nonce) (RInt 1) 60) empty_redis)"

lemma sample_nonce_ok: "uuid_ok sample_nonce"
  by code_simp

lemma sample_accepted:
  "outside_window 30 t ts = Inr False \<Longrightarrow> is_number ts \<Longrightarrow>
     replay_check exec_ref 30 t (JStr sample_nonce) ts empty_redis = (Inr None, after_first)"
  using sample_nonce_ok
  by (simp add: replay_check_def bind_io_def exec_ref_def reply_res_def after_first_def
      empty_redis_def live_def alive_def)

lemma after_first_data:
  "rd_data after_first (nonce_key sample_nonce) = Some (RInt 1, Some 60)" "rd_clock after_first = 0"
  by (simp_all add: after_first_def exec_ref_def empty_redis_def live_def alive_def put_key_def)

theorem replay_pair_accepted_once_witness:
  "fst (replay_check exec_ref 30 45 (JStr sample_nonce) (JInt 20) (after_first\<lparr>rd_clock := 40\<rparr>))
     \<noteq> Inr None"
  by (rule replay_pair_accepted_once [OF ref_redis.redis_service_axioms,
        where now = 5 and r = empty_redis and r' = after_first])
    (auto simp: sample_accepted float_limit_def after_first_data
      intro: undisturbed.intros, simp add: empty_redis_def)

text \<open>
  A NaN timestamp (which \<open>json.loads\<close> accepts) defeats the window: the comparison
  with the window is false at every time, so the same pair is accepted again as soon
  as Redis has let the nonce expire, at any later clock reading.
\<close>

theorem nan_timestamp_accepted_again:
  "fst (replay_check exec_ref 30 t (JStr sample_nonce) (JFloat NaN) empty_redis) = Inr None \<and>
   fst (replay_check exec_ref 30 t' (JStr sample_nonce) (JFloat NaN)
     (after_first\<lparr>rd_clock := 61\<rparr>)) = Inr None"
proof -
  have "live (after_first\<lparr>rd_clock := 61\<rparr>) (nonce_key sample_nonce) = None"
    using after_first_data by (simp add: live_def alive_def)
  then show ?thesis
    using sample_nonce_ok
    by (simp add: sample_accepted) (simp add: replay_check_def bind_io_def exec_ref_def reply_res_def)
qed

end
