(* ===== verification/StepUp.thy ===== *)
theory StepUp
  imports ReplayGuard Config "HOL-Library.Word"
begin

text \<open>
  \<open>services/gateway/step_up.py\<close>: TOTP codes and the one-time challenges they answer.
  HMAC-SHA1, canonical JSON and its parser are parameters; clock readings and the fresh
  challenge id are arguments. The lemmas: codes have six digits and belong to one time
  step, a challenge is redeemed once, a code is redeemed once per identity.
\<close>

unbundle bit_operations_syntax

type_synonym bytes = "8 word list"

section \<open>Base32 secrets\<close>

text \<open>
  \<open>str.upper\<close>: sharp s becomes two letters, every other letter outside ASCII stays
  outside it, which is all that the decoder looks at.
\<close>

definition upper_char :: "char \<Rightarrow> string" where
  "upper_char c =
     (let n = (of_char c :: nat)
      in if 97 \<le> n \<and> n \<le> 122 then [char_of (n - 32)]
         else if n = 223 then ''SS'' else [c])"

definition py_upper :: "string \<Rightarrow> string" where
  "py_upper s = concat (map upper_char s)"

definition ascii :: "char \<Rightarrow> bool" where
  "ascii c \<longleftrightarrow> (of_char c :: nat) < 128"

definition b32_digit :: "char \<Rightarrow> nat option" where
  "b32_digit c =
     (let n = (of_char c :: nat)
      in if 65 \<le> n \<and> n \<le> 90 then Some (n - 65)
         else if 50 \<le> n \<and> n \<le> 55 then Some (n - 24) else None)"

fun b32_acc :: "nat \<Rightarrow> string \<Rightarrow> nat res" where
  "b32_acc acc [] = Inr acc"
| "b32_acc acc (c # cs) =
     (case b32_digit c of
        None \<Rightarrow> Inl (ValueError ''Non-base32 digit found'')
      | Some d \<Rightarrow> b32_acc (acc * 32 + d) cs)"

text \<open>\<open>acc.to_bytes(5)\<close>, big-endian.\<close>

definition bytes5 :: "nat \<Rightarrow> bytes" where
  "bytes5 n = map (\<lambda>i. word_of_nat (n div 256 ^ i)) [4, 3, 2, 1, 0]"

function b32_quanta :: "string \<Rightarrow> nat \<Rightarrow> (nat \<times> bytes) res" where
  "b32_quanta s acc =
     (if s = [] then Inr (acc, [])
      else bind_res (b32_acc 0 (take 8 s)) (\<lambda>a.
           bind_res (b32_quanta (drop 8 s) a) (\<lambda>(last, bs). Inr (last, bytes5 a @ bs))))"
  by pat_completeness auto
termination
  by (relation "measure (\<lambda>(s, acc). length s)") auto

declare b32_quanta.simps [simp del]

definition b32decode :: "string \<Rightarrow> bytes res" where
  "b32decode s =
     (if \<not> list_all ascii s then Inl (ValueError ''string argument should contain only ASCII characters'')
      else if length s mod 8 \<noteq> 0 then Inl (ValueError ''Incorrect padding'')
      else
        (let t = rev (dropWhile (\<lambda>c. c = CHR ''='') (rev s));
             pad = length s - length t
         in bind_res (b32_quanta t 0) (\<lambda>(acc, bs).
              if pad \<notin> {0, 1, 3, 4, 6} then Inl (ValueError ''Incorrect padding'')
              else if pad \<noteq> 0 \<and> bs \<noteq> []
              then Inr (take (length bs - 5) bs @
                     take ((43 - 5 * pad) div 8) (bytes5 (acc * 32 ^ pad)))
              else Inr bs)))"

definition decode_totp_secret :: "string \<Rightarrow> bytes res" where
  "decode_totp_secret secret_b32 = b32decode (py_upper (py_strip secret_b32))"

section \<open>Codes\<close>

definition totp_step_seconds :: int where
  "totp_step_seconds = 30"

definition totp_digits :: nat where
  "totp_digits = 6"

definition totp_skew_steps :: int where
  "totp_skew_steps = 1"

definition code_dedup_ttl_seconds :: int where
  "code_dedup_ttl_seconds = 90"

text \<open>\<open>struct.pack(">Q", counter)\<close>.\<close>

definition pack_q :: "int \<Rightarrow> bytes res" where
  "pack_q counter =
     (if 0 \<le> counter \<and> counter < 2 ^ 64
      then Inr (map (\<lambda>i. word_of_int (counter div 256 ^ i)) [7, 6, 5, 4, 3, 2, 1, 0])
      else Inl StructError)"

text \<open>\<open>struct.unpack(">I", b)\<close>: exactly four bytes.\<close>

definition be32 :: "8 word \<Rightarrow> 8 word \<Rightarrow> 8 word \<Rightarrow> 8 word \<Rightarrow> 32 word" where
  "be32 a b c d =
     push_bit 24 (ucast a) OR push_bit 16 (ucast b) OR push_bit 8 (ucast c) OR ucast d"

fun unpack_i :: "bytes \<Rightarrow> 32 word res" where
  "unpack_i [a, b, c, d] = Inr (be32 a b c d)"
| "unpack_i _ = Inl StructError"

definition pad_digits :: "nat \<Rightarrow> nat \<Rightarrow> string" where
  "pad_digits w n = replicate (w - length (nat_str n)) (CHR ''0'') @ nat_str n"

definition hotp :: "(bytes \<Rightarrow> bytes \<Rightarrow> bytes) \<Rightarrow> bytes \<Rightarrow> int \<Rightarrow> string res" where
  "hotp hmac secret counter =
     bind_res (pack_q counter) (\<lambda>msg.
       (let digest = hmac secret msg
        in if digest = [] then Inl IndexError
           else (let offset = unat (last digest AND 0x0F)
                 in bind_res (unpack_i (take 4 (drop offset digest))) (\<lambda>w.
                      Inr (pad_digits totp_digits (unat (w AND 0x7FFFFFFF) mod 10 ^ totp_digits))))))"

definition totp_counter :: "rat \<Rightarrow> int" where
  "totp_counter t = \<lfloor>t / of_int totp_step_seconds\<rfloor>"

definition totp_code :: "(bytes \<Rightarrow> bytes \<Rightarrow> bytes) \<Rightarrow> string \<Rightarrow> rat \<Rightarrow> string res" where
  "totp_code hmac secret_b32 t =
     bind_res (decode_totp_secret secret_b32) (\<lambda>secret. hotp hmac secret (totp_counter t))"

text \<open>\<open>hmac.compare_digest\<close> on two strings: both must be ASCII.\<close>

definition compare_digest :: "string \<Rightarrow> string \<Rightarrow> bool res" where
  "compare_digest a b =
     (if list_all ascii a \<and> list_all ascii b then Inr (a = b) else Inl TypeError)"

fun any_code :: "(int \<Rightarrow> string res) \<Rightarrow> string \<Rightarrow> int list \<Rightarrow> bool res" where
  "any_code code_at code [] = Inr False"
| "any_code code_at code (k # ks) =
     bind_res (code_at k) (\<lambda>c.
     bind_res (compare_digest c code) (\<lambda>eq. if eq then Inr True else any_code code_at code ks))"

definition verify_totp :: "(bytes \<Rightarrow> bytes \<Rightarrow> bytes) \<Rightarrow> string \<Rightarrow> string \<Rightarrow> rat \<Rightarrow> bool res" where
  "verify_totp hmac secret_b32 code t =
     (case decode_totp_secret secret_b32 of
        Inl _ \<Rightarrow> Inr False
      | Inr secret \<Rightarrow>
          any_code (hotp hmac secret) code
            (map (\<lambda>skew. totp_counter t + skew) [- totp_skew_steps .. totp_skew_steps]))"

section \<open>Challenges\<close>

definition challenge_id_meta_key :: string where
  "challenge_id_meta_key = ''portunusmcp/challenge_id''"

definition challenge_proof_meta_key :: string where
  "challenge_proof_meta_key = ''portunusmcp/challenge_proof''"

definition challenge_key :: "string \<Rightarrow> string" where
  "challenge_key challenge_id = ''challenge:'' @ challenge_id"

definition code_dedup_key :: "string \<Rightarrow> string \<Rightarrow> string" where
  "code_dedup_key identity_id code = ''challenge:code:'' @ identity_id @ '':'' @ code"

definition challenge_record ::
  "string \<Rightarrow> string \<Rightarrow> string \<Rightarrow> string \<Rightarrow> int \<Rightarrow> json" where
  "challenge_record identity_id server_id tool_name args_hash audit_id =
     JObj [(''identity_id'', JStr identity_id), (''server_id'', JStr server_id),
           (''tool_name'', JStr tool_name), (''arguments_hash'', JStr args_hash),
           (''audit_id'', JInt audit_id)]"

definition challenge_create ::
  "'r redis \<Rightarrow> (json \<Rightarrow> string res) \<Rightarrow> int \<Rightarrow> string \<Rightarrow>
     string \<Rightarrow> string \<Rightarrow> string \<Rightarrow> string \<Rightarrow> int \<Rightarrow> ('r, string) io" where
  "challenge_create exec canon ttl challenge_id identity_id server_id tool_name args_hash audit_id =
     bind_io (of_res (canon (challenge_record identity_id server_id tool_name args_hash audit_id)))
       (\<lambda>rcd.
     bind_io (exec (SetEx (challenge_key challenge_id) (RStr rcd) ttl)) (\<lambda>_.
       ret_io challenge_id))"

text \<open>\<open>record[k]\<close>.\<close>

fun subscript :: "json \<Rightarrow> string \<Rightarrow> json res" where
  "subscript (JObj d) k = (case map_of d k of None \<Rightarrow> Inl KeyError | Some v \<Rightarrow> Inr v)"
| "subscript _ k = Inl TypeError"

text \<open>\<open>record[k] != v\<close> for the first differing key, evaluated left to right.\<close>

fun any_differs :: "json \<Rightarrow> (string \<times> string) list \<Rightarrow> bool res" where
  "any_differs rcd [] = Inr False"
| "any_differs rcd ((k, v) # kvs) =
     bind_res (subscript rcd k) (\<lambda>w.
       if \<not> py_eq w (JStr v) then Inr True else any_differs rcd kvs)"

fun stored_text :: "reply \<Rightarrow> string" where
  "stored_text (ValR v) = rval_text v"
| "stored_text _ = []"

definition check_proof ::
  "(bytes \<Rightarrow> bytes \<Rightarrow> bytes) \<Rightarrow> rat \<Rightarrow> json \<Rightarrow> string \<Rightarrow> bool res" where
  "check_proof hmac now proof secret_b32 =
     (case proof of JStr code \<Rightarrow> verify_totp hmac secret_b32 code now | _ \<Rightarrow> Inr False)"

definition use_code :: "'r redis \<Rightarrow> string \<Rightarrow> json \<Rightarrow> ('r, string option) io" where
  "use_code exec identity_id proof =
     (case proof of
        JStr code \<Rightarrow>
          bind_io (exec (SetNxEx (code_dedup_key identity_id code) (RInt 1) code_dedup_ttl_seconds))
            (\<lambda>fresh. if fresh = NilR then ret_io (Some ''TOTP code has already been used'')
                     else ret_io None)
      | _ \<Rightarrow> raise_io TypeError)"

definition redeem_record ::
  "'r redis \<Rightarrow> (bytes \<Rightarrow> bytes \<Rightarrow> bytes) \<Rightarrow> rat \<Rightarrow> json \<Rightarrow>
     string \<Rightarrow> string \<Rightarrow> string \<Rightarrow> string \<Rightarrow> json \<Rightarrow> string \<Rightarrow> ('r, string option) io" where
  "redeem_record exec hmac now rcd identity_id server_id tool_name args_hash proof secret_b32 =
     bind_io (of_res (any_differs rcd
         [(''identity_id'', identity_id), (''server_id'', server_id), (''tool_name'', tool_name)]))
       (\<lambda>other. if other
         then ret_io (Some ''challenge was issued to a different identity, server, or tool'') else
     bind_io (of_res (any_differs rcd [(''arguments_hash'', args_hash)]))
       (\<lambda>changed. if changed
         then ret_io (Some ''arguments differ from the ones that were challenged'') else
     if secret_b32 = [] then ret_io (Some ''identity has no step-up factor configured'') else
     bind_io (of_res (check_proof hmac now proof secret_b32))
       (\<lambda>proved. if \<not> proved then ret_io (Some ''TOTP proof is invalid'')
         else use_code exec identity_id proof)))"

definition redeem ::
  "'r redis \<Rightarrow> (bytes \<Rightarrow> bytes \<Rightarrow> bytes) \<Rightarrow> (string \<Rightarrow> json res) \<Rightarrow> rat \<Rightarrow>
     string \<Rightarrow> string \<Rightarrow> string \<Rightarrow> string \<Rightarrow> string \<Rightarrow> json \<Rightarrow> string \<Rightarrow> ('r, string option) io"
  where
  "redeem exec hmac loads now challenge_id identity_id server_id tool_name args_hash proof secret_b32 =
     bind_io (exec (GetDel (challenge_key challenge_id))) (\<lambda>raw.
       if raw = NilR then ret_io (Some ''challenge is unknown, expired, or already used'')
       else bind_io (of_res (loads (stored_text raw))) (\<lambda>rcd.
         redeem_record exec hmac now rcd identity_id server_id tool_name args_hash proof secret_b32))"

section \<open>Lemmas\<close>

subsection \<open>Codes\<close>

lemma nat_str_length: "n < 10 ^ Suc k \<Longrightarrow> length (nat_str n) \<le> Suc k"
proof (induction k arbitrary: n)
  case 0
  then show ?case by (subst nat_str.simps) simp
next
  case (Suc k)
  then have "n div 10 < 10 ^ Suc k" by (simp add: less_mult_imp_div_less)
  from Suc.IH [OF this] show ?case by (subst nat_str.simps) simp
qed

definition decimal :: "char \<Rightarrow> bool" where
  "decimal c \<longleftrightarrow> c \<in> set ''0123456789''"

lemma digit_char_decimal:
  assumes "n < 10"
  shows "decimal (digit_char n)"
proof -
  have "list_all (\<lambda>n. decimal (digit_char n)) [0..<10]" by code_simp
  with assms show ?thesis by (simp add: list_all_iff)
qed

lemma nat_str_decimal: "c \<in> set (nat_str n) \<Longrightarrow> decimal c"
proof (induction n rule: nat_str.induct)
  case (1 n)
  then show ?case
    using nat_str.simps [of n] by (auto split: if_splits intro: digit_char_decimal)
qed

lemma decimal_ascii: "decimal c \<Longrightarrow> ascii c"
  by (auto simp: decimal_def ascii_def)

lemma hotp_digits:
  "hotp hmac secret k = Inr code \<Longrightarrow> length code = 6 \<and> list_all decimal code"
proof -
  assume "hotp hmac secret k = Inr code"
  then obtain n where code: "code = pad_digits 6 (n mod 10 ^ 6)"
    by (auto simp: hotp_def Let_def totp_digits_def bind_res_Inr_iff split: if_splits)
  have "length (nat_str (n mod 10 ^ 6)) \<le> Suc 5" by (rule nat_str_length) simp
  then show ?thesis
    unfolding code by (auto simp: pad_digits_def list_all_iff decimal_def [of "CHR ''0''"]
        dest: nat_str_decimal)
qed

lemma drop_take4:
  assumes "length ds = 20" and "i < 16"
  shows "\<exists>a b c d. take 4 (drop i ds) = [a, b, c, d]"
proof -
  from assms have "length (take 4 (drop i ds)) = Suc (Suc (Suc (Suc 0)))" by simp
  then show ?thesis unfolding length_Suc_conv by auto
qed

lemma hotp_total:
  assumes "\<And>k m. length (hmac k m) = 20" and "0 \<le> k" and "k < 2 ^ 64"
  shows "\<exists>code. hotp hmac secret k = Inr code"
proof -
  from assms obtain msg where msg: "pack_q k = Inr msg" by (auto simp: pack_q_def)
  let ?d = "hmac secret msg"
  have "last ?d AND 0x0F \<le> 0x0F" by (rule word_and_le1)
  then have "unat (last ?d AND 0x0F) < 16" by (simp add: word_le_nat_alt)
  from drop_take4 [OF assms(1) [of secret msg] this]
  obtain a b c d where "take 4 (drop (unat (last ?d AND 0x0F)) ?d) = [a, b, c, d]" by blast
  moreover have "?d \<noteq> []" using assms(1) [of secret msg] by auto
  ultimately show ?thesis using msg by (simp add: hotp_def)
qed

lemma any_code_True: "any_code h code ks = Inr True \<Longrightarrow> \<exists>k \<in> set ks. h k = Inr code"
  by (induction ks)
    (auto simp: bind_res_Inr_iff compare_digest_def split: if_splits)

lemma verify_totp_step:
  assumes "verify_totp hmac s code t = Inr True"
  obtains secret k where "decode_totp_secret s = Inr secret" and "hotp hmac secret k = Inr code"
    and "30 * of_int (k - 1) \<le> t" and "t < 30 * of_int (k + 2)"
proof -
  from assms obtain secret where s: "decode_totp_secret s = Inr secret"
    and "any_code (hotp hmac secret) code (map (\<lambda>d. totp_counter t + d) [- 1 .. 1]) = Inr True"
    by (auto simp: verify_totp_def totp_skew_steps_def split: sum.splits)
  from any_code_True [OF this(2)] obtain d where d: "d \<in> {- 1 .. 1}"
    and h: "hotp hmac secret (totp_counter t + d) = Inr code" unfolding set_map set_upto by blast
  let ?k = "totp_counter t + d"
  have "of_int (totp_counter t) \<le> t / 30" and "t / 30 < of_int (totp_counter t) + 1"
    unfolding totp_counter_def totp_step_seconds_def by linarith+
  with d have "30 * of_int (?k - 1) \<le> t" and "t < 30 * of_int (?k + 2)"
    by (auto simp: field_simps)
  with s h show ?thesis by (rule that)
qed

subsection \<open>Challenges\<close>

lemma any_differs_False:
  "any_differs rcd kvs = Inr False \<Longrightarrow> (k, v) \<in> set kvs \<Longrightarrow> subscript rcd k = Inr (JStr v)"
  by (induction kvs) (auto simp: bind_res_Inr_iff split: if_splits)

lemma subscript_Inr: "subscript rcd k = Inr w \<Longrightarrow> \<exists>d. rcd = JObj d \<and> map_of d k = Some w"
  by (cases rcd) (auto split: option.splits)

lemma redeem_record_accepts:
  assumes "redeem_record exec hmac now rcd i s t h proof0 secret r = (Inr None, r')"
  obtains code y where "proof0 = JStr code" and "verify_totp hmac secret code now = Inr True"
    and "subscript rcd ''identity_id'' = Inr (JStr i)"
    and "subscript rcd ''server_id'' = Inr (JStr s)"
    and "subscript rcd ''tool_name'' = Inr (JStr t)"
    and "subscript rcd ''arguments_hash'' = Inr (JStr h)"
    and "exec (SetNxEx (code_dedup_key i code) (RInt 1) 90) r = (Inr y, r')" and "y \<noteq> NilR"
proof -
  from assms have same: "any_differs rcd
      [(''identity_id'', i), (''server_id'', s), (''tool_name'', t)] = Inr False"
    and hash: "any_differs rcd [(''arguments_hash'', h)] = Inr False"
    and ok: "check_proof hmac now proof0 secret = Inr True"
    and uc: "use_code exec i proof0 r = (Inr None, r')"
    by (auto simp: redeem_record_def bind_io_def split: sum.splits if_splits)
  from ok obtain code where code: "proof0 = JStr code" "verify_totp hmac secret code now = Inr True"
    by (cases proof0) (auto simp: check_proof_def)
  with uc obtain y where "exec (SetNxEx (code_dedup_key i code) (RInt 1) 90) r = (Inr y, r')"
    and "y \<noteq> NilR"
    by (auto simp: use_code_def code_dedup_ttl_seconds_def bind_io_def
        split: sum.splits if_splits prod.splits)
  with code show ?thesis
    using any_differs_False [OF same] any_differs_False [OF hash] by (auto intro: that)
qed

lemma redeem_record_fields:
  assumes "redeem_record exec hmac now rcd i s t h p secret r = (Inr None, r')"
  shows "\<exists>d code. rcd = JObj d \<and>
    map_of d ''identity_id'' = Some (JStr i) \<and> map_of d ''server_id'' = Some (JStr s) \<and>
    map_of d ''tool_name'' = Some (JStr t) \<and> map_of d ''arguments_hash'' = Some (JStr h) \<and>
    p = JStr code \<and> verify_totp hmac secret code now = Inr True"
  using assms
proof (rule redeem_record_accepts)
  fix code y
  assume "p = JStr code" "verify_totp hmac secret code now = Inr True"
    "subscript rcd ''identity_id'' = Inr (JStr i)" "subscript rcd ''server_id'' = Inr (JStr s)"
    "subscript rcd ''tool_name'' = Inr (JStr t)" "subscript rcd ''arguments_hash'' = Inr (JStr h)"
  then show ?thesis by (cases rcd) (auto split: option.splits)
qed

lemma redeem_accepts:
  assumes "redeem exec hmac loads now c i s t h proof0 secret r = (Inr None, r')"
  obtains v rcd r1 where "exec (GetDel (challenge_key c)) r = (Inr v, r1)" and "v \<noteq> NilR"
    and "loads (stored_text v) = Inr rcd"
    and "redeem_record exec hmac now rcd i s t h proof0 secret r1 = (Inr None, r')"
  using assms by (auto simp: redeem_def bind_io_def split: sum.splits if_splits prod.splits)

context redis_service
begin

text \<open>A redemption that finds nothing under the challenge's key refuses.\<close>

lemma redeem_absent:
  assumes "live (abs r) (challenge_key c) = None"
  shows "fst (redeem exec hmac loads now c i s t h p secret r) \<noteq> Inr None"
proof
  assume "fst (redeem exec hmac loads now c i s t h p secret r) = Inr None"
  then obtain r' where "redeem exec hmac loads now c i s t h p secret r = (Inr None, r')"
    by (metis prod.collapse)
  then obtain v r1 where "exec (GetDel (challenge_key c)) r = (Inr v, r1)" and "v \<noteq> NilR"
    by (auto elim: redeem_accepts)
  with assms show False using exec_get_del by fastforce
qed

text \<open>Whatever a redemption returns, the challenge is gone when it returns.\<close>

lemma exec_keeps_absent:
  assumes "exec cmd r = (x, r')" and "rd_data (abs r) k = None"
    and "cmd_key cmd \<noteq> k \<or> \<not> stores_key cmd"
  shows "rd_data (abs r') k = None"
  using exec_abs [OF assms(1)] assms(2,3) other_key [of cmd k] no_store_keeps_absent [of cmd]
  by auto

lemma use_code_absent:
  assumes "use_code exec i p r = (x, r')" and "rd_data (abs r) (challenge_key c) = None"
    and "\<And>code. p = JStr code \<Longrightarrow> code_dedup_key i code \<noteq> challenge_key c"
  shows "rd_data (abs r') (challenge_key c) = None"
proof (cases p)
  case (JStr code)
  obtain y r1 where ex: "exec (SetNxEx (code_dedup_key i code) (RInt 1) code_dedup_ttl_seconds) r = (y, r1)"
    by fastforce
  with assms(1) JStr have "r1 = r'"
    by (cases y) (auto simp: use_code_def bind_io_def split: if_splits)
  with exec_keeps_absent [OF ex assms(2)] assms(3) JStr show ?thesis by simp
qed (use assms(1,2) in \<open>auto simp: use_code_def\<close>)

lemma redeem_record_absent:
  assumes "redeem_record exec hmac now rcd i s t h p secret r = (x, r')"
    and "rd_data (abs r) (challenge_key c) = None"
    and "\<And>code. p = JStr code \<Longrightarrow> code_dedup_key i code \<noteq> challenge_key c"
  shows "rd_data (abs r') (challenge_key c) = None"
proof -
  from assms(1) have "r' = r \<or> use_code exec i p r = (x, r')"
    by (auto simp: redeem_record_def bind_io_def split: sum.splits if_splits)
  then show ?thesis using assms(2,3) use_code_absent by blast
qed

lemma redeem_consumes:
  assumes "redeem exec hmac loads now c i s t h p secret r = (Inr x, r')"
    and "\<And>code. p = JStr code \<Longrightarrow> code_dedup_key i code \<noteq> challenge_key c"
  shows "rd_data (abs r') (challenge_key c) = None"
proof -
  from assms(1) obtain v r1 where ex: "exec (GetDel (challenge_key c)) r = (Inr v, r1)"
    and rest: "r' = r1 \<or>
      (\<exists>rcd. redeem_record exec hmac now rcd i s t h p secret r1 = (Inr x, r'))"
    by (auto simp: redeem_def bind_io_def split: sum.splits if_splits prod.splits)
  have "rd_data (abs r1) (challenge_key c) = None" using exec_get_del [OF ex] by blast
  with rest assms(2) show ?thesis using redeem_record_absent by blast
qed

lemma redeem_stores_code:
  assumes "redeem exec hmac loads now c i s t h (JStr code) secret r = (Inr None, r')"
  shows "\<exists>r1. abs r1 = snd (redis_spec (GetDel (challenge_key c)) (abs r)) \<and>
    rd_data (abs r') (code_dedup_key i code) =
      Some (RInt 1, Some (rd_clock (abs r) + 90)) \<and>
    rd_clock (abs r') = rd_clock (abs r) \<and> verify_totp hmac secret code now = Inr True"
proof -
  from assms obtain v rcd r1 where ex: "exec (GetDel (challenge_key c)) r = (Inr v, r1)"
    and rr: "redeem_record exec hmac now rcd i s t h (JStr code) secret r1 = (Inr None, r')"
    by (rule redeem_accepts)
  from rr obtain y where y: "exec (SetNxEx (code_dedup_key i code) (RInt 1) 90) r1 = (Inr y, r')"
    "y \<noteq> NilR" and v: "verify_totp hmac secret code now = Inr True"
    by (auto elim: redeem_record_accepts)
  from y have "y = OkR" using exec_ok [OF y(1)] by (auto split: if_splits)
  moreover have r1: "abs r1 = snd (redis_spec (GetDel (challenge_key c)) (abs r))"
    using exec_ok [OF ex] by (metis snd_conv)
  then have "rd_clock (abs r1) = rd_clock (abs r)" by (simp only: spec_clock)
  ultimately show ?thesis using exec_set_nx y v r1 by fastforce
qed

lemma code_used_refused:
  assumes "live (abs r) (code_dedup_key i code) \<noteq> None" and "code_dedup_key i code \<noteq> challenge_key c"
  shows "fst (redeem exec hmac loads now c i s t h (JStr code) secret r) \<noteq> Inr None"
proof
  assume "fst (redeem exec hmac loads now c i s t h (JStr code) secret r) = Inr None"
  then obtain r' where "redeem exec hmac loads now c i s t h (JStr code) secret r = (Inr None, r')"
    by (metis prod.collapse)
  then obtain v rcd r1 where ex: "exec (GetDel (challenge_key c)) r = (Inr v, r1)"
    and rr: "redeem_record exec hmac now rcd i s t h (JStr code) secret r1 = (Inr None, r')"
    by (rule redeem_accepts)
  have r1: "abs r1 = snd (redis_spec (GetDel (challenge_key c)) (abs r))"
    using exec_ok [OF ex] by (metis snd_conv)
  have "rd_data (abs r1) (code_dedup_key i code) = rd_data (abs r) (code_dedup_key i code)"
    unfolding r1 using assms(2) by (intro other_key) auto
  then have "live (abs r1) (code_dedup_key i code) = live (abs r) (code_dedup_key i code)"
    unfolding live_def alive_def r1 spec_clock by simp
  with assms(1) have "live (abs r1) (code_dedup_key i code) \<noteq> None" by simp
  moreover obtain y where "exec (SetNxEx (code_dedup_key i code) (RInt 1) 90) r1 = (Inr y, r')"
    and "y \<noteq> NilR" using rr by (auto elim: redeem_record_accepts)
  ultimately show False using exec_set_nx_live by blast
qed

end

text \<open>A fresh challenge id is 32 hexadecimal characters: its key is never a code's key.\<close>

lemma hex_challenge_key:
  assumes "list_all hex_char c"
  shows "code_dedup_key i code \<noteq> challenge_key c"
proof
  assume "code_dedup_key i code = challenge_key c"
  then have "c = ''code:'' @ i @ '':'' @ code" by (simp add: code_dedup_key_def challenge_key_def)
  with assms show False by (simp add: hex_char_def)
qed

section \<open>Properties\<close>

text \<open>
  With a 20-byte MAC, every counter of 64 bits has a code, and the code is six
  decimal digits: dynamic truncation never leaves the digest and never misses a byte.
\<close>

theorem hotp_six_digits:
  assumes "\<And>key msg. length (hmac key msg) = 20" and "0 \<le> k" and "k < 2 ^ 64"
  shows "\<exists>code. hotp hmac secret k = Inr code \<and> length code = 6 \<and> list_all decimal code"
  using hotp_total [of hmac k secret, OF assms] hotp_digits [of hmac secret k] by blast

definition zero_hmac :: "bytes \<Rightarrow> bytes \<Rightarrow> bytes" where
  "zero_hmac key msg = replicate 20 0"

theorem hotp_six_digits_witness: "\<exists>code. hotp zero_hmac [1] 10 = Inr code \<and> length code = 6"
  using hotp_six_digits [of zero_hmac 10 "[1]"] by (auto simp: zero_hmac_def)

text \<open>
  C17: A redemption succeeds only for the identity, server, tool and argument hash the
  stored challenge names, with a code of the identity's own factor that is valid now;
  and once a redemption has returned, successful or not, no later redemption of the
  same challenge succeeds, as long as nothing stores under its key again.
\<close>

theorem challenge_redeemed_once:
  assumes "redis_service exec view" and "list_all hex_char c"
    and "redeem exec hmac loads now c i s t h p secret r = (Inr x, r')"
    and "unwritten (challenge_key c) (view r') (view u)"
  shows "fst (redeem exec hmac loads now' c i' s' t' h' p' secret' u) \<noteq> Inr None \<and>
    (x = None \<longrightarrow> secret \<noteq> [] \<and>
      (\<exists>v d code. live (view r) (challenge_key c) = Some v \<and> loads (rval_text v) = Inr (JObj d) \<and>
         map_of d ''identity_id'' = Some (JStr i) \<and> map_of d ''server_id'' = Some (JStr s) \<and>
         map_of d ''tool_name'' = Some (JStr t) \<and> map_of d ''arguments_hash'' = Some (JStr h) \<and>
         p = JStr code \<and> verify_totp hmac secret code now = Inr True))"
proof
  have "rd_data (view r') (challenge_key c) = None"
    using redis_service.redeem_consumes [OF assms(1,3)] hex_challenge_key [OF assms(2)] by blast
  then have "live (view u) (challenge_key c) = None"
    using unwritten_absent [OF assms(4)] absent_live by blast
  then show "fst (redeem exec hmac loads now' c i' s' t' h' p' secret' u) \<noteq> Inr None"
    by (rule redis_service.redeem_absent [OF assms(1)])
  show "x = None \<longrightarrow> secret \<noteq> [] \<and>
      (\<exists>v d code. live (view r) (challenge_key c) = Some v \<and> loads (rval_text v) = Inr (JObj d) \<and>
         map_of d ''identity_id'' = Some (JStr i) \<and> map_of d ''server_id'' = Some (JStr s) \<and>
         map_of d ''tool_name'' = Some (JStr t) \<and> map_of d ''arguments_hash'' = Some (JStr h) \<and>
         p = JStr code \<and> verify_totp hmac secret code now = Inr True)"
  proof
    assume "x = None"
    with assms(3) have "redeem exec hmac loads now c i s t h p secret r = (Inr None, r')" by simp
    then obtain v rcd r1 where v: "exec (GetDel (challenge_key c)) r = (Inr v, r1)" "v \<noteq> NilR"
      and rcd: "loads (stored_text v) = Inr rcd"
      and rr: "redeem_record exec hmac now rcd i s t h p secret r1 = (Inr None, r')"
      by (rule redeem_accepts)
    from v obtain w where "live (view r) (challenge_key c) = Some w" and "v = ValR w"
      using redis_service.exec_get_del [OF assms(1) v(1)]
      by (cases "live (view r) (challenge_key c)") auto
    moreover have "secret \<noteq> []" using rr
      by (auto simp: redeem_record_def bind_io_def split: sum.splits if_splits)
    ultimately show "secret \<noteq> [] \<and>
      (\<exists>v d code. live (view r) (challenge_key c) = Some v \<and> loads (rval_text v) = Inr (JObj d) \<and>
         map_of d ''identity_id'' = Some (JStr i) \<and> map_of d ''server_id'' = Some (JStr s) \<and>
         map_of d ''tool_name'' = Some (JStr t) \<and> map_of d ''arguments_hash'' = Some (JStr h) \<and>
         p = JStr code \<and> verify_totp hmac secret code now = Inr True)"
      using rcd redeem_record_fields [OF rr] by auto
  qed
qed

text \<open>
  A code answers one challenge. If the same identity redeems two challenges with the
  same digits, the two redemptions matched two different time steps whose codes happen
  to coincide: a captured code is refused for the whole 90 seconds (three steps) during
  which it is valid, provided Redis's clock does not run faster than the gateway's.
\<close>

theorem code_answers_one_challenge:
  assumes "redis_service exec view" and "list_all hex_char c'"
    and first: "redeem exec hmac loads now c i s t h (JStr code) secret r = (Inr None, r')"
    and later: "undisturbed (code_dedup_key i code) (view r') (view u)"
    and clocks: "rd_clock (view u) - rd_clock (view r) \<le> now' - now"
    and again: "redeem exec hmac loads now' c' i s' t' h' (JStr code) secret u = (Inr None, u')"
  shows "\<exists>key k k'. decode_totp_secret secret = Inr key \<and> k \<noteq> k' \<and>
    hotp hmac key k = Inr code \<and> hotp hmac key k' = Inr code"
proof -
  note stored = redis_service.redeem_stores_code [OF assms(1) first]
  note stored' = redis_service.redeem_stores_code [OF assms(1) again]
  from stored obtain key k where k: "decode_totp_secret secret = Inr key" "hotp hmac key k = Inr code"
    "30 * of_int (k - 1) \<le> now" by (auto elim: verify_totp_step)
  from stored' obtain k' where k': "hotp hmac key k' = Inr code" "now' < 30 * of_int (k' + 2)"
    using k(1) by (auto elim: verify_totp_step)
  have "k \<noteq> k'"
  proof
    assume "k = k'"
    with k(3) k'(2) clocks have "rd_clock (view u) \<le> rd_clock (view r) + 90" by simp
    then have "live (view u) (code_dedup_key i code) = Some (RInt 1)"
      using stored undisturbed_live [OF later] by blast
    then show False
      using redis_service.code_used_refused [OF assms(1)] hex_challenge_key [OF assms(2)] again
      by (metis fst_conv option.distinct(1))
  qed
  with k k' show ?thesis by blast
qed

definition sample_challenge :: json where
  "sample_challenge = challenge_record ''alice'' ''files'' ''read'' ''h'' 7"

definition challenged :: redis_state where
  "challenged = put_key (put_key empty_redis (challenge_key ''c1'') (RStr ''rec'') (Some 300))
     (challenge_key ''c2'') (RStr ''rec'') (Some 300)"

definition redeemed :: redis_state where
  "redeemed = put_key (drop_key challenged (challenge_key ''c1''))
     (code_dedup_key ''alice'' ''000000'') (RInt 1) (Some 90)"

lemma sample_key: "decode_totp_secret ''AAAAAAAA'' = Inr [0, 0, 0, 0, 0]"
proof -
  have "py_upper (py_strip ''AAAAAAAA'') = ''AAAAAAAA''"
    by (simp add: py_strip_def py_space_def py_upper_def upper_char_def)
  moreover have "b32_quanta ''AAAAAAAA'' 0 = Inr (0, [0, 0, 0, 0, 0])"
    by (simp add: b32_quanta.simps b32_digit_def bytes5_def)
  ultimately show ?thesis by (simp add: decode_totp_secret_def b32decode_def ascii_def)
qed

lemma zero_hotp:
  assumes "0 \<le> k" and "k < 2 ^ 64"
  shows "hotp zero_hmac key k = Inr ''000000''"
proof -
  have "digit_char 0 = CHR ''0''" by code_simp
  then have pad: "pad_digits 6 0 = ''000000''"
    by (simp add: pad_digits_def nat_str.simps numeral_eq_Suc)
  have "unpack_i (take 4 (drop 0 (replicate 20 0))) = Inr 0" by (simp add: numeral_eq_Suc be32_def)
  with pad show ?thesis using assms by (simp add: hotp_def zero_hmac_def pack_q_def totp_digits_def)
qed

lemma zero_code:
  assumes "30 \<le> t" and "t < 1000000"
  shows "verify_totp zero_hmac ''AAAAAAAA'' ''000000'' t = Inr True"
proof -
  have "1 \<le> totp_counter t" and "totp_counter t < 1000000"
    using assms unfolding totp_counter_def totp_step_seconds_def by (simp_all add: le_floor_iff floor_less_iff)
  then have "hotp zero_hmac key (totp_counter t - 1) = Inr ''000000''" for key
    by (intro zero_hotp) auto
  then show ?thesis
    by (simp add: verify_totp_def sample_key totp_skew_steps_def upto.simps compare_digest_def ascii_def)
qed

lemma sample_redeems:
  "redeem exec_ref zero_hmac (\<lambda>_. Inr sample_challenge) 300 ''c1'' ''alice'' ''files'' ''read'' ''h''
     (JStr ''000000'') ''AAAAAAAA'' challenged = (Inr None, redeemed)"
  "redeem exec_ref zero_hmac (\<lambda>_. Inr sample_challenge) 420 ''c2'' ''alice'' ''files'' ''read'' ''h''
     (JStr ''000000'') ''AAAAAAAA'' (redeemed\<lparr>rd_clock := 120\<rparr>) =
     (Inr None, snd (redeem exec_ref zero_hmac (\<lambda>_. Inr sample_challenge) 420 ''c2'' ''alice''
       ''files'' ''read'' ''h'' (JStr ''000000'') ''AAAAAAAA'' (redeemed\<lparr>rd_clock := 120\<rparr>)))"
  by (simp_all add: redeem_def redeem_record_def check_proof_def use_code_def bind_io_def
      zero_code sample_challenge_def challenge_record_def exec_ref_def reply_res_def
      challenged_def redeemed_def live_def alive_def empty_redis_def put_key_def drop_key_def
      challenge_key_def code_dedup_key_def code_dedup_ttl_seconds_def fun_upd_twist)

lemma challenge_clocks: "rd_clock challenged = 0" "rd_clock redeemed = 0"
  by (simp_all add: redeemed_def challenged_def empty_redis_def)

theorem challenge_redeemed_once_witness:
  "fst (redeem exec_ref zero_hmac (\<lambda>_. Inr sample_challenge) 330 ''c1'' ''alice'' ''files'' ''read''
     ''h'' (JStr ''111111'') ''AAAAAAAA'' redeemed) \<noteq> Inr None"
  using challenge_redeemed_once [OF ref_redis.redis_service_axioms _ sample_redeems(1)]
  by (simp add: hex_char_def unwritten.same)

theorem code_answers_one_challenge_witness:
  "\<exists>key k k'. decode_totp_secret ''AAAAAAAA'' = Inr key \<and> k \<noteq> k' \<and>
     hotp zero_hmac key k = Inr ''000000'' \<and> hotp zero_hmac key k' = Inr ''000000''"
  by (rule code_answers_one_challenge
      [OF ref_redis.redis_service_axioms _ sample_redeems(1) _ _ sample_redeems(2)])
    (auto simp: hex_char_def challenge_clocks intro: undisturbed.intros)

end
