(* ===== verification/SchemaTools.thy ===== *)
theory SchemaTools
  imports Redis PyJson PolicyEngine
begin

text \<open>
  \<open>services/gateway/schema_cache.py\<close> and \<open>schema_pruner.py\<close>: the per-server cache of tool
  lists and the removal of tools an identity may not call. Also Python's \<open>str\<close> of a JSON
  value, which the pruner and the interceptor apply to tool names; only the digits of a
  float are a parameter.
\<close>

section \<open>str and repr of JSON values\<close>

fun json_repr :: "(pyfloat \<Rightarrow> string) \<Rightarrow> json \<Rightarrow> string" where
  "json_repr fl JNull = ''None''"
| "json_repr fl (JBool b) = (if b then ''True'' else ''False'')"
| "json_repr fl (JInt n) = int_str n"
| "json_repr fl (JFloat x) = fl x"
| "json_repr fl (JStr s) = py_repr s"
| "json_repr fl (JArr xs) = ''['' @ join_with '', '' (map (json_repr fl) xs) @ '']''"
| "json_repr fl (JObj d) =
     ''{'' @ join_with '', '' (map (\<lambda>p. py_repr (fst p) @ '': '' @ json_repr fl (snd p)) d) @ ''}''"

fun json_str :: "(pyfloat \<Rightarrow> string) \<Rightarrow> json \<Rightarrow> string" where
  "json_str fl (JStr s) = s"
| "json_str fl v = json_repr fl v"

section \<open>The schema cache\<close>

definition schema_key :: "string \<Rightarrow> string" where
  "schema_key server_id = ''schema:'' @ server_id"

definition schema_hash :: "(json \<Rightarrow> string res) \<Rightarrow> (string \<Rightarrow> string) \<Rightarrow> json \<Rightarrow> string res" where
  "schema_hash canon sha256 tools = bind_res (canon tools) (\<lambda>b. Inr (sha256 b))"

text \<open>What \<open>get\<close> returns is what \<open>json.loads\<close> makes of the stored text.\<close>

definition cache_get :: "'r redis \<Rightarrow> (string \<Rightarrow> json res) \<Rightarrow> string \<Rightarrow> ('r, json option) io" where
  "cache_get exec loads server_id =
     bind_io (exec (Get (schema_key server_id))) (\<lambda>raw.
       case raw of
         ValR v \<Rightarrow> bind_io (of_res (loads (rval_text v))) (\<lambda>tools. ret_io (Some tools))
       | _ \<Rightarrow> ret_io None)"

definition cache_put ::
  "'r redis \<Rightarrow> (json \<Rightarrow> string res) \<Rightarrow> (string \<Rightarrow> string) \<Rightarrow> int \<Rightarrow> string \<Rightarrow> json \<Rightarrow>
     ('r, string) io" where
  "cache_put exec canon sha256 ttl server_id tools =
     bind_io (of_res (canon tools)) (\<lambda>encoded.
     bind_io (exec (SetEx (schema_key server_id) (RStr encoded) ttl)) (\<lambda>_.
       ret_io (sha256 encoded)))"

definition cache_invalidate :: "'r redis \<Rightarrow> string \<Rightarrow> ('r, unit) io" where
  "cache_invalidate exec server_id =
     bind_io (exec (Del (schema_key server_id))) (\<lambda>_. ret_io ())"

section \<open>The pruner\<close>

text \<open>\<open>tool.get("name")\<close>: an item that is no dict raises.\<close>

fun item_get :: "json \<Rightarrow> string \<Rightarrow> json res" where
  "item_get (JObj d) k = Inr (dget d k)"
| "item_get _ k = Inl AttributeError"

fun prune :: "(pyfloat \<Rightarrow> string) \<Rightarrow> json list \<Rightarrow> string option \<Rightarrow> string \<Rightarrow> policy_engine \<Rightarrow> json list res"
  where
  "prune fl [] identity_id server_id engine = Inr []"
| "prune fl (tool # tools) identity_id server_id engine =
     bind_res (item_get tool ''name'') (\<lambda>name.
     bind_res (prune fl tools identity_id server_id engine) (\<lambda>rest.
       Inr (if is_allowed engine identity_id server_id (json_str fl name)
            then tool # rest else rest)))"

section \<open>Lemmas\<close>

definition tool_name :: "(pyfloat \<Rightarrow> string) \<Rightarrow> json \<Rightarrow> string" where
  "tool_name fl tool = (case tool of JObj d \<Rightarrow> json_str fl (dget d ''name'') | _ \<Rightarrow> [])"

lemma prune_filter:
  "prune fl tools i s e = Inr kept \<Longrightarrow>
     kept = filter (\<lambda>t. is_allowed e i s (tool_name fl t)) tools \<and>
     (\<forall>t \<in> set tools. \<exists>d. t = JObj d)"
proof (induction tools arbitrary: kept)
  case (Cons t tools)
  then show ?case by (cases t) (auto simp: bind_res_Inr_iff tool_name_def)
qed simp

lemma prune_raises: "prune fl tools i s e = Inl x \<Longrightarrow> x = AttributeError"
proof (induction tools)
  case (Cons t tools)
  then show ?case by (cases t) (auto simp: bind_res_Inl_iff)
qed simp

context redis_service
begin

lemma cache_get_live:
  assumes "cache_get exec loads s u = (Inr x, u')"
  shows "case live (abs u) (schema_key s) of
      None \<Rightarrow> x = None
    | Some v \<Rightarrow> \<exists>y. loads (rval_text v) = Inr y \<and> x = Some y"
proof -
  from assms obtain raw u1 where "exec (Get (schema_key s)) u = (Inr raw, u1)"
    by (auto simp: cache_get_def elim: bind_io_InrE)
  with exec_get assms show ?thesis
    by (cases "live (abs u) (schema_key s)")
      (fastforce simp: cache_get_def bind_io_def split: sum.splits)+
qed

lemma cache_put_get:
  assumes "cache_put exec canon sha256 ttl s tools r = (Inr h, r')"
    and "undisturbed (schema_key s) (abs r') (abs u)"
    and "rd_clock (abs u) \<le> rd_clock (abs r) + of_int ttl"
    and "cache_get exec loads s u = (Inr x, u')"
  shows "\<exists>b y. canon tools = Inr b \<and> loads b = Inr y \<and> x = Some y \<and> h = sha256 b"
proof -
  from assms(1) obtain b y where b: "canon tools = Inr b" "h = sha256 b"
    and ex: "exec (SetEx (schema_key s) (RStr b) ttl) r = (Inr y, r')"
    by (auto simp: cache_put_def bind_io_def split: sum.splits prod.splits)
  from exec_ok [OF ex] have "rd_data (abs r') (schema_key s) =
      Some (RStr b, Some (rd_clock (abs r) + of_int ttl))"
    by (simp add: put_key_def)
  then have "live (abs u) (schema_key s) = Some (RStr b)"
    using undisturbed_live [OF assms(2)] assms(3) by blast
  then show ?thesis using cache_get_live [OF assms(4)] b by simp
qed

lemma cache_invalidated:
  assumes "cache_invalidate exec s r = (Inr v, r')"
    and "unwritten (schema_key s) (abs r') (abs u)"
    and "cache_get exec loads s u = (Inr x, u')"
  shows "x = None"
proof -
  from assms(1) obtain y where ex: "exec (Del (schema_key s)) r = (Inr y, r')"
    by (auto simp: cache_invalidate_def bind_io_def split: sum.splits prod.splits)
  from exec_ok [OF ex] have "rd_data (abs r') (schema_key s) = None"
    by (simp add: drop_key_def)
  then have "live (abs u) (schema_key s) = None"
    using unwritten_absent [OF assms(2)] absent_live by blast
  then show ?thesis using cache_get_live [OF assms(3)] by simp
qed

end

section \<open>Properties\<close>

text \<open>
  The pruned tool list is the original one without the tools RBAC denies: order and
  definitions are kept, every tool left is callable by the identity, every callable tool
  is left, and no identity sees a tool without a grant.
\<close>

theorem pruned_list_is_authorized:
  assumes "prune fl tools identity_id server_id engine = Inr kept"
  shows "kept = filter (\<lambda>t. is_allowed engine identity_id server_id (tool_name fl t)) tools \<and>
    (identity_id = None \<longrightarrow> kept = [])"
  using prune_filter [OF assms] by (simp add: is_allowed_def)

theorem pruned_list_is_authorized_witness:
  "prune (\<lambda>_. []) [JObj [(''name'', JStr ''read'')]] (Some ''alice'') ''files'' sample_engine = Inr [] \<and>
   [] = filter (\<lambda>t. is_allowed sample_engine (Some ''alice'') ''files'' (tool_name (\<lambda>_. []) t))
     [JObj [(''name'', JStr ''read'')]]"
proof -
  have "prune (\<lambda>_. []) [JObj [(''name'', JStr ''read'')]] (Some ''alice'') ''files'' sample_engine = Inr []"
    by (simp add: is_allowed_def matching_grant_def engine_identity_def identities_index_def
        sample_engine_def sample_policy_def sample_identity_def dict_of_def)
  with pruned_list_is_authorized [OF this] show ?thesis by blast
qed

end
