(* ===== verification/Auth.thy ===== *)
theory Auth
  imports StepUp SchemaTools
begin

text \<open>
  \<open>services/gateway/auth.py\<close>: bearer and signed authentication and the failure limiter
  per source. SHA-256, HMAC-SHA256 and canonical JSON are parameters; a failing limiter
  raises \<open>AuthLimiterUnavailable\<close>. The lemmas: what a resolved identity proves, and how
  many failures a source gets per window.
\<close>

definition key_id_meta_key :: string where
  "key_id_meta_key = ''portunusmcp/key-id''"

definition signature_meta_key :: string where
  "signature_meta_key = ''portunusmcp/signature''"

section \<open>The limiter\<close>

fun client_source :: "json \<Rightarrow> string option" where
  "client_source (JArr (JStr s # _)) = (if s = [] then None else Some s)"
| "client_source _ = None"

definition failure_key :: "(string \<Rightarrow> string) \<Rightarrow> string \<Rightarrow> string" where
  "failure_key sha256 source = ''rate:auth_failure:'' @ sha256 source"

fun int_of_reply :: "reply \<Rightarrow> int res" where
  "int_of_reply (IntR n) = Inr n"
| "int_of_reply _ = Inl TypeError"

text \<open>\<open>try ... except Exception as exc: raise AuthLimiterUnavailable from exc\<close>.\<close>

definition or_unavailable :: "('w, 'a) io \<Rightarrow> ('w, 'a) io" where
  "or_unavailable m = catch_io m (\<lambda>_. raise_io AuthLimiterUnavailable)"

definition blocked_ttl :: "'r redis \<Rightarrow> settings \<Rightarrow> string \<Rightarrow> ('r, int option) io" where
  "blocked_ttl exec S key =
     or_unavailable
       (bind_io (exec (Get key)) (\<lambda>raw.
        bind_io (of_res (counter_of raw)) (\<lambda>n.
          if n \<le> auth_failure_rate_limit S then ret_io None
          else bind_io (exec (Ttl key)) (\<lambda>t.
               bind_io (of_res (int_of_reply t)) (\<lambda>ttl.
                 ret_io (if ttl > 0 then Some (max ttl 1) else None))))))"

definition throttled :: "int \<Rightarrow> ('w, 'a) io" where
  "throttled retry_after = raise_io (AuthRateLimited retry_after)"

definition check_source :: "'r redis \<Rightarrow> settings \<Rightarrow> string \<Rightarrow> ('r, unit) io" where
  "check_source exec S key =
     bind_io (blocked_ttl exec S key) (\<lambda>retry_after.
       case retry_after of Some t \<Rightarrow> throttled t | None \<Rightarrow> ret_io ())"

fun pair_of_reply :: "reply \<Rightarrow> (int \<times> int) res" where
  "pair_of_reply (PairR count ttl) = Inr (count, max ttl 1)"
| "pair_of_reply _ = Inl TypeError"

definition record_failure :: "'r redis \<Rightarrow> settings \<Rightarrow> string \<Rightarrow> ('r, unit) io" where
  "record_failure exec S key =
     bind_io
       (or_unavailable
         (bind_io (exec (FailureScript key (auth_failure_rate_window_seconds S)))
           (\<lambda>y. of_res (pair_of_reply y))))
       (\<lambda>(count, ttl).
         if count > auth_failure_rate_limit S then throttled ttl else ret_io ())"

section \<open>Bearer keys\<close>

definition resolve_identity :: "(string \<Rightarrow> string) \<Rightarrow> string option \<Rightarrow> policy_engine \<Rightarrow> string option" where
  "resolve_identity sha256 api_key engine =
     (if \<not> given api_key then None
      else identity_for_key_hash engine (''sha256:'' @ sha256 (the api_key)))"

text \<open>The shared shape of the two tracked resolvers: check, verify, record a failure.\<close>

definition tracked ::
  "'r redis \<Rightarrow> (string \<Rightarrow> string) \<Rightarrow> settings \<Rightarrow> string option \<Rightarrow> string option res \<Rightarrow>
     ('r, string option) io" where
  "tracked exec sha256 S source outcome =
     (case source of
        None \<Rightarrow> raise_io AuthLimiterUnavailable
      | Some src \<Rightarrow>
          bind_io (check_source exec S (failure_key sha256 src)) (\<lambda>_.
          bind_io (of_res outcome) (\<lambda>identity_id.
            case identity_id of
              None \<Rightarrow> bind_io (record_failure exec S (failure_key sha256 src)) (\<lambda>_. ret_io None)
            | Some i \<Rightarrow> ret_io (Some i))))"

definition resolve_identity_tracked ::
  "'r redis \<Rightarrow> (string \<Rightarrow> string) \<Rightarrow> settings \<Rightarrow> string option \<Rightarrow> policy_engine \<Rightarrow> string option \<Rightarrow>
     ('r, string option) io" where
  "resolve_identity_tracked exec sha256 S api_key engine source =
     (if \<not> given api_key then ret_io None
      else tracked exec sha256 S source (Inr (resolve_identity sha256 api_key engine)))"

section \<open>Signed requests\<close>

definition signed_tuple :: "json \<Rightarrow> json \<Rightarrow> string \<Rightarrow> json \<Rightarrow> json \<Rightarrow> json" where
  "signed_tuple nonce timestamp meth tool arguments =
     JObj [(''nonce'', nonce), (''timestamp'', timestamp), (''method'', JStr meth),
           (''tool'', tool), (''arguments'', arguments)]"

definition signature_payload ::
  "(json \<Rightarrow> string res) \<Rightarrow> json \<Rightarrow> json \<Rightarrow> string \<Rightarrow> json \<Rightarrow> json \<Rightarrow> string res" where
  "signature_payload canon nonce timestamp meth tool arguments =
     canon (signed_tuple nonce timestamp meth tool arguments)"

definition sign_request ::
  "(json \<Rightarrow> string res) \<Rightarrow> (string \<Rightarrow> string \<Rightarrow> string) \<Rightarrow> string \<Rightarrow> json \<Rightarrow> json \<Rightarrow> string \<Rightarrow> json \<Rightarrow> json \<Rightarrow>
     string res" where
  "sign_request canon hmac256 secret nonce timestamp meth tool arguments =
     bind_res (signature_payload canon nonce timestamp meth tool arguments)
       (\<lambda>payload. Inr (hmac256 secret payload))"

definition verify_fields ::
  "(json \<Rightarrow> string res) \<Rightarrow> (string \<Rightarrow> string \<Rightarrow> string) \<Rightarrow> policy_engine \<Rightarrow> jdict \<Rightarrow>
     string \<Rightarrow> string \<Rightarrow> string \<Rightarrow> json \<Rightarrow> json \<Rightarrow> string option res" where
  "verify_fields canon hmac256 engine params meth key_id signature nonce timestamp =
     (case identity_for_key_id engine key_id of
        None \<Rightarrow> Inr None
      | Some identity_id \<Rightarrow>
          (case engine_identity engine identity_id of
             None \<Rightarrow> Inr None
           | Some i \<Rightarrow>
               if i_auth_mode i \<noteq> Signed then Inr None
               else
                 (let (tool, arguments) =
                        (if meth = ''tools/call'' then (dget params ''name'', dget params ''arguments'')
                         else (JNull, JNull))
                  in bind_res (sign_request canon hmac256 (i_signing_secret i) nonce timestamp
                         meth tool arguments) (\<lambda>expected.
                     bind_res (compare_digest expected signature) (\<lambda>same.
                       Inr (if same then Some identity_id else None))))))"

definition verify_signed_request ::
  "(json \<Rightarrow> string res) \<Rightarrow> (string \<Rightarrow> string \<Rightarrow> string) \<Rightarrow> jdict \<Rightarrow> policy_engine \<Rightarrow> string option res" where
  "verify_signed_request canon hmac256 message engine =
     (case py_or (dget message ''params'') (JObj []) of
        JObj params \<Rightarrow>
          (case py_or (dget params ''_meta'') (JObj []) of
             JObj meta \<Rightarrow>
               (case (dget message ''method'', dget meta key_id_meta_key, dget meta signature_meta_key) of
                  (JStr meth, JStr key_id, JStr signature) \<Rightarrow>
                    (let nonce = dget meta nonce_meta_key; timestamp = dget meta timestamp_meta_key
                     in if nonce = JNull \<or> timestamp = JNull then Inr None
                        else verify_fields canon hmac256 engine params meth key_id signature
                               nonce timestamp)
                | _ \<Rightarrow> Inr None)
           | _ \<Rightarrow> Inr None)
      | _ \<Rightarrow> Inr None)"

definition signed_presented :: "jdict \<Rightarrow> bool" where
  "signed_presented message \<longleftrightarrow>
     (case dget message ''params'' of
        JObj params \<Rightarrow>
          (case dget params ''_meta'' of
             JObj meta \<Rightarrow> dget meta key_id_meta_key \<noteq> JNull \<or> dget meta signature_meta_key \<noteq> JNull
           | _ \<Rightarrow> False)
      | _ \<Rightarrow> False)"

definition verify_signed_request_tracked ::
  "'r redis \<Rightarrow> (string \<Rightarrow> string) \<Rightarrow> (json \<Rightarrow> string res) \<Rightarrow> (string \<Rightarrow> string \<Rightarrow> string) \<Rightarrow> settings \<Rightarrow>
     jdict \<Rightarrow> policy_engine \<Rightarrow> string option \<Rightarrow> ('r, string option) io" where
  "verify_signed_request_tracked exec sha256 canon hmac256 S message engine source =
     (if \<not> signed_presented message
      then of_res (verify_signed_request canon hmac256 message engine)
      else tracked exec sha256 S source (verify_signed_request canon hmac256 message engine))"

section \<open>Lemmas\<close>

subsection \<open>Signatures\<close>

definition request_tool_args :: "jdict \<Rightarrow> string \<Rightarrow> json \<times> json" where
  "request_tool_args params meth =
     (if meth = ''tools/call'' then (dget params ''name'', dget params ''arguments'') else (JNull, JNull))"

lemma verify_fields_Some:
  assumes "verify_fields canon hmac256 engine params meth key_id signature nonce ts = Inr (Some n)"
  shows "identity_for_key_id engine key_id = Some n \<and>
    (\<exists>i payload. engine_identity engine n = Some i \<and> i_auth_mode i = Signed \<and>
       canon (signed_tuple nonce ts meth (fst (request_tool_args params meth))
         (snd (request_tool_args params meth))) = Inr payload \<and>
       signature = hmac256 (i_signing_secret i) payload)"
  using assms
  by (auto simp: verify_fields_def sign_request_def signature_payload_def compare_digest_def
      request_tool_args_def bind_res_Inr_iff Let_def split: option.splits if_splits)

lemma verify_signed_request_Some:
  assumes "verify_signed_request canon hmac256 message engine = Inr (Some n)"
  obtains params meta meth key_id signature where
    "py_or (dget message ''params'') (JObj []) = JObj params"
    and "py_or (dget params ''_meta'') (JObj []) = JObj meta"
    and "dget message ''method'' = JStr meth" and "dget meta key_id_meta_key = JStr key_id"
    and "dget meta signature_meta_key = JStr signature"
    and "dget meta nonce_meta_key \<noteq> JNull" and "dget meta timestamp_meta_key \<noteq> JNull"
    and "verify_fields canon hmac256 engine params meth key_id signature
           (dget meta nonce_meta_key) (dget meta timestamp_meta_key) = Inr (Some n)"
  using assms
  unfolding verify_signed_request_def Let_def
  by (auto split: json.splits if_splits)

subsection \<open>The limiter\<close>

lemma tracked_None:
  assumes "tracked exec sha256 S source outcome r = (Inr None, r')"
  obtains src r1 where "source = Some src" and "outcome = Inr None"
    and "check_source exec S (failure_key sha256 src) r = (Inr (), r1)"
    and "record_failure exec S (failure_key sha256 src) r1 = (Inr (), r')"
  using assms
  by (auto simp: tracked_def elim!: bind_io_InrE split: option.splits)

lemma record_failure_ok:
  assumes "record_failure exec S key r = (Inr (), r')"
  obtains n ttl where
    "exec (FailureScript key (auth_failure_rate_window_seconds S)) r = (Inr (PairR n ttl), r')"
    and "n \<le> auth_failure_rate_limit S"
proof -
  from assms obtain y r1 where ex: "exec (FailureScript key (auth_failure_rate_window_seconds S)) r = (y, r1)"
    by fastforce
  with assms show ?thesis
    by (cases y; cases "projr y")
      (auto simp: record_failure_def or_unavailable_def catch_io_def bind_io_def throttled_def
        split: if_splits intro: that)
qed

text \<open>The failures a source has had in a window, as Redis holds them.\<close>

definition counted :: "string \<Rightarrow> rat \<Rightarrow> nat \<Rightarrow> redis_state \<Rightarrow> bool" where
  "counted key T n s \<longleftrightarrow>
     (rd_data s key = None \<and> n = 0) \<or>
     (\<exists>m t. rd_data s key = Some (RInt m, Some t) \<and> int n \<le> m \<and> T \<le> t)"

lemma counted_failure:
  assumes "counted key T n s" and "rd_clock s \<le> T" and "T \<le> rd_clock s + of_int W"
    and "redis_spec (FailureScript key W) s = (y, s')"
  shows "\<exists>c ttl. y = PairR c ttl \<and> int n < c \<and> counted key T (nat c) s'"
  using assms(1) [unfolded counted_def]
proof (elim disjE exE conjE)
  assume "rd_data s key = None" "n = 0"
  then show ?thesis
    using assms(3,4) by (auto simp: incr_by_def alive_def put_key_def expire_key_def Let_def counted_def)
next
  fix m t
  assume "rd_data s key = Some (RInt m, Some t)" "int n \<le> m" "T \<le> t"
  with assms(2) have "alive s key = Some (RInt m, Some t)" and "int n \<le> m" and "T \<le> t"
    by (auto simp: alive_def)
  with assms(3,4) show ?thesis
    by (auto simp: incr_by_def put_key_def expire_key_def alive_def Let_def counted_def
        split: if_splits)
qed

lemma counted_less: "counted key T n s \<Longrightarrow> m \<le> n \<Longrightarrow> counted key T m s"
  by (auto simp: counted_def)

context redis_service
begin

lemma blocked_ttl_abs: "blocked_ttl exec S key r = (x, r') \<Longrightarrow> abs r' = abs r"
  by (auto simp: blocked_ttl_def or_unavailable_def catch_io_def bind_io_def
      split: sum.splits prod.splits if_splits dest!: exec_abs)

lemma check_source_abs: "check_source exec S key r = (x, r') \<Longrightarrow> abs r' = abs r"
  by (auto simp: check_source_def bind_io_def throttled_def
      split: sum.splits prod.splits option.splits dest: blocked_ttl_abs)

lemma record_failure_abs:
  assumes "record_failure exec S key r = (x, r')"
  shows "abs r' \<in> {abs r, snd (redis_spec (FailureScript key (auth_failure_rate_window_seconds S)) (abs r))}"
proof -
  obtain y r1 where ex: "exec (FailureScript key (auth_failure_rate_window_seconds S)) r = (y, r1)"
    by fastforce
  with assms have "r' = r1"
    by (cases y)
      (auto simp: record_failure_def or_unavailable_def catch_io_def bind_io_def throttled_def
        split: sum.splits prod.splits if_splits)
  with exec_abs [OF ex] show ?thesis by simp
qed

lemma tracked_abs:
  assumes "tracked exec sha256 S (Some src) outcome r = (x, r')"
  shows "abs r' \<in> {abs r, snd (redis_spec
    (FailureScript (failure_key sha256 src) (auth_failure_rate_window_seconds S)) (abs r))}"
proof -
  obtain y r1 where ch: "check_source exec S (failure_key sha256 src) r = (y, r1)" by fastforce
  have "r' = r1 \<or> (\<exists>z. record_failure exec S (failure_key sha256 src) r1 = (z, r'))"
    using assms ch
    by (auto simp: tracked_def bind_io_def split: sum.splits prod.splits option.splits)
  with check_source_abs [OF ch] show ?thesis using record_failure_abs by fastforce
qed

lemma tracked_clock:
  "tracked exec sha256 S (Some src) outcome r = (x, r') \<Longrightarrow> rd_clock (abs r') = rd_clock (abs r)"
  by (drule tracked_abs) (metis insertE singletonD spec_clock)

lemma tracked_counted:
  assumes "tracked exec sha256 S (Some src) outcome r = (x, r')"
    and "counted (failure_key sha256 src) T n (abs r)" and "rd_clock (abs r) \<le> T"
    and "T \<le> rd_clock (abs r) + of_int (auth_failure_rate_window_seconds S)"
  shows "counted (failure_key sha256 src) T n (abs r')"
    and "x = Inr None \<Longrightarrow> counted (failure_key sha256 src) T (Suc n) (abs r') \<and>
      int (Suc n) \<le> auth_failure_rate_limit S"
proof -
  let ?k = "failure_key sha256 src" and ?W = "auth_failure_rate_window_seconds S"
  note step = counted_failure [OF assms(2-4) prod.collapse [symmetric]]
  from step have "counted ?k T n (snd (redis_spec (FailureScript ?k ?W) (abs r)))"
    using counted_less by (metis less_le nat_int nat_mono)
  then show "counted ?k T n (abs r')" using tracked_abs [OF assms(1)] assms(2) by auto
  assume "x = Inr None"
  with assms(1) obtain r1 where ch: "check_source exec S ?k r = (Inr (), r1)"
    and rec: "record_failure exec S ?k r1 = (Inr (), r')" by (auto elim: tracked_None)
  from rec obtain c ttl where ex: "exec (FailureScript ?k ?W) r1 = (Inr (PairR c ttl), r')"
    and c: "c \<le> auth_failure_rate_limit S" by (rule record_failure_ok)
  from exec_ok [OF ex] check_source_abs [OF ch]
  have "redis_spec (FailureScript ?k ?W) (abs r) = (PairR c ttl, abs r')" by simp
  from counted_failure [OF assms(2-4) this] c counted_less [of ?k T "nat c" "abs r'" "Suc n"]
  show "counted ?k T (Suc n) (abs r') \<and> int (Suc n) \<le> auth_failure_rate_limit S" by auto
qed

end

text \<open>
  Authentication attempts of one source, in order, with the outcomes they returned; other
  commands and passing time may come between them.
\<close>

inductive attempts ::
  "'r redis \<Rightarrow> ('r \<Rightarrow> redis_state) \<Rightarrow> (string \<Rightarrow> string) \<Rightarrow> settings \<Rightarrow> string \<Rightarrow>
     'r \<Rightarrow> string option res list \<Rightarrow> 'r \<Rightarrow> bool"
  for exec :: "'r redis" and view sha256 S src r0 where
  start: "attempts exec view sha256 S src r0 [] r0"
| attempt: "attempts exec view sha256 S src r0 xs r \<Longrightarrow>
    tracked exec sha256 S (Some src) outcome r = (x, r') \<Longrightarrow>
    attempts exec view sha256 S src r0 (xs @ [x]) r'"
| between: "attempts exec view sha256 S src r0 xs r \<Longrightarrow>
    elsewhere (failure_key sha256 src) (view r) (view r') \<Longrightarrow>
    attempts exec view sha256 S src r0 xs r'"

lemma attempts_clock:
  assumes "redis_service exec view" and "attempts exec view sha256 S src r0 xs r"
  shows "rd_clock (view r0) \<le> rd_clock (view r)"
  using assms(2)
proof (induction rule: attempts.induct)
  case (attempt xs r outcome x r')
  then show ?case using redis_service.tracked_clock [OF assms(1) attempt(2)] by simp
next
  case (between xs r r')
  then show ?case using elsewhere_data by fastforce
qed simp

lemma attempts_counted:
  assumes "redis_service exec view" and "0 \<le> auth_failure_rate_limit S"
    and "attempts exec view sha256 S src r0 xs r"
    and "rd_data (view r0) (failure_key sha256 src) = None"
    and "rd_clock (view r) \<le> T"
    and "T = rd_clock (view r0) + of_int (auth_failure_rate_window_seconds S)"
  shows "counted (failure_key sha256 src) T (length (filter (\<lambda>x. x = Inr None) xs)) (view r) \<and>
    int (length (filter (\<lambda>x. x = Inr None) xs)) \<le> auth_failure_rate_limit S"
  using assms(3,5)
proof (induction rule: attempts.induct)
  case start
  then show ?case using assms(2,4) by (simp add: counted_def)
next
  case (attempt xs r outcome x r')
  have clock: "rd_clock (view r') = rd_clock (view r)"
    by (rule redis_service.tracked_clock [OF assms(1) attempt(2)])
  have "rd_clock (view r0) \<le> rd_clock (view r)" using assms(1) attempt(1) by (rule attempts_clock)
  with attempt clock assms(6)
  have old: "counted (failure_key sha256 src) T (length (filter (\<lambda>x. x = Inr None) xs)) (view r)"
    and le: "int (length (filter (\<lambda>x. x = Inr None) xs)) \<le> auth_failure_rate_limit S"
    and t: "rd_clock (view r) \<le> T"
      "T \<le> rd_clock (view r) + of_int (auth_failure_rate_window_seconds S)" by auto
  from redis_service.tracked_counted [OF assms(1) attempt(2) old t] le show ?case
    by (cases "x = Inr None") auto
next
  case (between xs r r')
  then show ?case using elsewhere_data [OF between(2)] by (auto simp: counted_def)
qed

section \<open>Properties\<close>

text \<open>
  A source gets at most the configured number of failed authentications per window:
  from a state without failures, over any sequence of attempts with any outcomes, with
  other traffic, passing time and Redis failures between and inside them, at most
  \<open>auth_failure_rate_limit\<close> attempts are answered as plain failures before the window
  ends. Every further one is throttled or refused as unavailable.
\<close>

theorem failures_bounded_per_window:
  assumes "redis_service exec view" and "settings_valid S"
    and "attempts exec view sha256 S src r0 xs r"
    and "rd_data (view r0) (failure_key sha256 src) = None"
    and "rd_clock (view r) \<le> rd_clock (view r0) + of_int (auth_failure_rate_window_seconds S)"
  shows "int (length (filter (\<lambda>x. x = Inr None) xs)) \<le> auth_failure_rate_limit S"
  using attempts_counted [OF assms(1) _ assms(3-5)] assms(2) by (simp add: settings_valid_def)

theorem failures_bounded_per_window_witness:
  "int (length (filter (\<lambda>x. x = Inr None)
     [fst (tracked exec_ref id default_settings (Some ''src'') (Inr None) empty_redis)])) \<le> 5"
proof -
  have "attempts exec_ref id id default_settings ''src'' empty_redis
      ([] @ [fst (tracked exec_ref id default_settings (Some ''src'') (Inr None) empty_redis)])
      (snd (tracked exec_ref id default_settings (Some ''src'') (Inr None) empty_redis))"
    by (rule attempts.attempt [OF attempts.start prod.collapse [symmetric]])
  from failures_bounded_per_window
    [OF ref_redis.redis_service_axioms default_settings_valid this]
  show ?thesis
    using redis_service.tracked_clock [OF ref_redis.redis_service_axioms prod.collapse [symmetric],
        of id default_settings "''src''" "Inr None" empty_redis]
    by (simp add: empty_redis_def default_settings_def)
qed

text \<open>
  C16: A signed request that verifies is authentic: its key id names an identity of the
  validated policy that is in signed mode, and the signature it carries is the MAC under
  that identity's non-empty secret of the canonical tuple of its own nonce, timestamp,
  method, tool name and arguments; nonce and timestamp are present.
\<close>

theorem signed_request_authentic:
  assumes "load_bytes safe_load (validate_policy environ parse dec) hash raw = Inr engine"
    and "verify_signed_request canon hmac256 message engine = Inr (Some n)"
  shows "\<exists>i params meta meth signature payload.
    engine_identity engine n = Some i \<and> i_auth_mode i = Signed \<and> i_signing_secret i \<noteq> [] \<and>
    dget message ''params'' = JObj params \<and> dget params ''_meta'' = JObj meta \<and>
    dget message ''method'' = JStr meth \<and> dget meta signature_meta_key = JStr signature \<and>
    dget meta nonce_meta_key \<noteq> JNull \<and> dget meta timestamp_meta_key \<noteq> JNull \<and>
    canon (signed_tuple (dget meta nonce_meta_key) (dget meta timestamp_meta_key) meth
      (fst (request_tool_args params meth)) (snd (request_tool_args params meth))) = Inr payload \<and>
    signature = hmac256 (i_signing_secret i) payload"
proof -
  have valid: "engine_valid engine" using load_bytes_valid [OF assms(1)] by blast
  from assms(2) obtain params meta meth key_id signature where
    p: "py_or (dget message ''params'') (JObj []) = JObj params"
    and m: "py_or (dget params ''_meta'') (JObj []) = JObj meta"
    and f: "dget message ''method'' = JStr meth" "dget meta signature_meta_key = JStr signature"
      "dget meta nonce_meta_key \<noteq> JNull" "dget meta timestamp_meta_key \<noteq> JNull"
    and v: "verify_fields canon hmac256 engine params meth key_id signature
      (dget meta nonce_meta_key) (dget meta timestamp_meta_key) = Inr (Some n)"
    by (rule verify_signed_request_Some)
  have "meta \<noteq> []" using f(3) by auto
  with m have m': "dget params ''_meta'' = JObj meta" by (auto simp: py_or_def split: if_splits)
  then have "params \<noteq> []" by auto
  with p have p': "dget message ''params'' = JObj params" by (auto simp: py_or_def split: if_splits)
  from verify_fields_Some [OF v] obtain i payload where i: "engine_identity engine n = Some i"
    "i_auth_mode i = Signed" and s: "canon (signed_tuple (dget meta nonce_meta_key)
      (dget meta timestamp_meta_key) meth (fst (request_tool_args params meth))
      (snd (request_tool_args params meth))) = Inr payload" "signature = hmac256 (i_signing_secret i) payload"
    by blast
  have "i_signing_secret i \<noteq> []"
    using valid i engine_identity_iff [OF valid] by (auto simp: engine_valid_def)
  with i s f m' p' show ?thesis by blast
qed

definition signed_identity :: ident where
  "signed_identity =
     sample_identity\<lparr>i_id := ''bot'', i_auth_mode := Signed, i_api_key_hash := None,
       i_key_id := Some ''k1'', i_signing_secret_env := Some ''SECRET'', i_signing_secret := ''s''\<rparr>"

definition signed_policy :: policy_file where
  "signed_policy = sample_policy\<lparr>p_identities := [signed_identity]\<rparr>"

definition signed_engine :: policy_engine where
  "signed_engine = \<lparr>e_policy = signed_policy, e_content_hash = ''raw'', e_raw = ''raw''\<rparr>"

lemma signed_loads:
  "load_bytes (\<lambda>_. Inr signed_policy) (validate_policy (\<lambda>_. Some ''s'') (\<lambda>_. Inl TypeError) Inr) id
     ''raw'' = Inr signed_engine"
  by (simp add: load_bytes_def validate_policy_def check_identity_def check_auth_fields_def
      check_signing_def check_totp_def check_servers_def signed_policy_def signed_identity_def
      signed_engine_def sample_policy_def sample_identity_def given_def getenv_def)

definition signed_message :: jdict where
  "signed_message =
     [(''method'', JStr ''tools/list''),
      (''params'', JObj [(''_meta'', JObj [(key_id_meta_key, JStr ''k1''),
         (signature_meta_key, JStr ''sp''), (nonce_meta_key, JStr ''n''), (timestamp_meta_key, JInt 5)])])]"

lemma signed_message_verifies:
  "verify_signed_request (\<lambda>_. Inr ''p'') (\<lambda>s p. s @ p) signed_message signed_engine = Inr (Some ''bot'')"
  by (simp add: verify_signed_request_def signed_message_def py_or_def key_id_meta_key_def
      signature_meta_key_def nonce_meta_key_def timestamp_meta_key_def verify_fields_def
      identity_for_key_id_def key_id_index_def engine_identity_def identities_index_def
      signed_engine_def signed_policy_def signed_identity_def sample_policy_def sample_identity_def
      dict_of_def given_def sign_request_def signature_payload_def compare_digest_def ascii_def)

theorem signed_request_authentic_witness:
  "\<exists>i. engine_identity signed_engine ''bot'' = Some i \<and> i_auth_mode i = Signed"
  using signed_request_authentic [OF signed_loads signed_message_verifies] by blast

text \<open>
  A bad signature is not always a plain refusal: one that is not ASCII makes the
  digest comparison raise, for every signed identity and every request that reaches the
  comparison, so nothing is counted against the source.
\<close>

theorem non_ascii_signature_raises:
  "fst (verify_signed_request_tracked exec_ref id (\<lambda>_. Inr ''p'') (\<lambda>s p. s @ p) default_settings
     [(''method'', JStr ''tools/list''),
      (''params'', JObj [(''_meta'', JObj [(key_id_meta_key, JStr ''k1''),
         (signature_meta_key, JStr [CHR 0xE9]), (nonce_meta_key, JStr ''n''),
         (timestamp_meta_key, JInt 5)])])]
     signed_engine (Some ''src'') empty_redis) = Inl TypeError \<and>
   snd (verify_signed_request_tracked exec_ref id (\<lambda>_. Inr ''p'') (\<lambda>s p. s @ p) default_settings
     [(''method'', JStr ''tools/list''),
      (''params'', JObj [(''_meta'', JObj [(key_id_meta_key, JStr ''k1''),
         (signature_meta_key, JStr [CHR 0xE9]), (nonce_meta_key, JStr ''n''),
         (timestamp_meta_key, JInt 5)])])]
     signed_engine (Some ''src'') empty_redis) = empty_redis"
  by (simp add: verify_signed_request_tracked_def signed_presented_def tracked_def check_source_def
      blocked_ttl_def or_unavailable_def catch_io_def bind_io_def exec_ref_def reply_res_def
      live_def alive_def empty_redis_def default_settings_def
      verify_signed_request_def py_or_def key_id_meta_key_def
      signature_meta_key_def nonce_meta_key_def timestamp_meta_key_def verify_fields_def
      identity_for_key_id_def key_id_index_def engine_identity_def identities_index_def
      signed_engine_def signed_policy_def signed_identity_def sample_policy_def sample_identity_def
      dict_of_def given_def sign_request_def signature_payload_def compare_digest_def ascii_def)

end
