(* ===== verification/AuditLog.thy ===== *)
theory AuditLog
  imports Redis PyJson Decision
begin

text \<open>
  \<open>services/gateway/audit_log.py\<close> and the \<open>AuditLog\<close> table of \<open>db.py\<close>: the hash-chain
  writer. The log and the writer's own fields are explicit state, the rest of the world
  (Redis, Postgres availability) a parameter: \<open>commit\<close> says how the insert's commit ends,
  \<open>reading\<close> whether a query succeeds. SHA-256, canonical JSON and ECDSA signing are
  parameters; keys are their PEM texts. The retry loop on \<open>WatchError\<close> takes fuel.
\<close>

section \<open>Rows and the writer's state\<close>

record audit_row =
  a_seq :: int
  a_prev_hash :: string
  a_curr_hash :: string
  a_signature :: string
  a_key_id :: "string option"
  a_timestamp :: rat
  a_identity_id :: string
  a_server_id :: "string option"
  a_tool_name :: "string option"
  a_policy_version :: int
  a_event_type :: string
  a_risk_score :: "int option"
  a_payload :: jdict
  a_latency_ms :: "int option"

record audit_writer =
  aw_rows :: "audit_row list"
  aw_next_seq :: int
  aw_signing_key :: string
  aw_key_id :: string
  aw_available :: bool
  aw_pointer_dirty :: bool

text \<open>
  A commit returns, fails before the row is durable, or fails (a lost connection) after
  the row became durable.
\<close>

datatype commit_outcome = Committed | CommitFailed exn | CommitInDoubt exn

type_synonym 'w committer = "'w \<Rightarrow> commit_outcome \<times> 'w"

definition genesis_hash :: string where
  "genesis_hash = replicate 64 (CHR ''0'')"

definition pointer_key :: string where
  "pointer_key = ''latest_audit_hash''"

section \<open>Hash and payload\<close>

definition compute_hash :: "(string \<Rightarrow> string) \<Rightarrow> (json \<Rightarrow> string res) \<Rightarrow> string \<Rightarrow> jdict \<Rightarrow> string res"
  where
  "compute_hash sha256 canon prev_hash payload =
     bind_res (canon (JObj payload)) (\<lambda>b. Inr (sha256 (prev_hash @ b)))"

definition escape_nul :: "string \<Rightarrow> string" where
  "escape_nul s = concat (map (\<lambda>c. if c = CHR 0x00 then CHR 0x5C # ''u0000'' else [c]) s)"

fun jsonb_safe :: "json \<Rightarrow> json" where
  "jsonb_safe (JStr s) = JStr (escape_nul s)"
| "jsonb_safe (JObj d) = JObj (dict_of (map (\<lambda>p. (escape_nul (fst p), jsonb_safe (snd p))) d))"
| "jsonb_safe (JArr xs) = JArr (map jsonb_safe xs)"
| "jsonb_safe v = v"

fun opt_str :: "string option \<Rightarrow> json" where
  "opt_str None = JNull"
| "opt_str (Some s) = JStr s"

text \<open>\<open>{...fixed fields..., **extra}\<close>.\<close>

definition payload_fields ::
  "event_type \<Rightarrow> string \<Rightarrow> string option \<Rightarrow> string option \<Rightarrow> int \<Rightarrow> string \<Rightarrow> jdict" where
  "payload_fields event identity_id server_id tool_name version key_id =
     [(''event_type'', JStr (event_value event)), (''identity_id'', JStr identity_id),
      (''server_id'', opt_str server_id), (''tool_name'', opt_str tool_name),
      (''policy_version'', JInt version), (''key_id'', JStr key_id)]"

definition merged :: "jdict \<Rightarrow> jdict \<Rightarrow> jdict" where
  "merged d e = foldl (\<lambda>d (k, v). al_put k v d) d e"

definition safe_dict :: "jdict \<Rightarrow> jdict" where
  "safe_dict d = dict_of (map (\<lambda>p. (escape_nul (fst p), jsonb_safe (snd p))) d)"

definition audit_payload ::
  "event_type \<Rightarrow> string \<Rightarrow> string option \<Rightarrow> string option \<Rightarrow> int \<Rightarrow> string \<Rightarrow> jdict \<Rightarrow> jdict" where
  "audit_payload event identity_id server_id tool_name version key_id extra =
     safe_dict (merged (payload_fields event identity_id server_id tool_name version key_id) extra)"

section \<open>The write\<close>

record audit_entry =
  w_event :: event_type
  w_identity :: string
  w_server :: "string option"
  w_tool :: "string option"
  w_extra :: jdict
  w_risk :: "int option"

definition entry_payload :: "audit_writer \<Rightarrow> int \<Rightarrow> audit_entry \<Rightarrow> jdict" where
  "entry_payload A version w =
     audit_payload (w_event w) (w_identity w) (w_server w) (w_tool w) version (aw_key_id A) (w_extra w)"

definition last_hash :: "audit_row list \<Rightarrow> string" where
  "last_hash rows = (if rows = [] then genesis_hash else a_curr_hash (last rows))"

definition prev_hash ::
  "'w redis \<Rightarrow> ('w, unit) io \<Rightarrow> (audit_writer \<times> 'w, string) io" where
  "prev_hash exec reading p =
     (let from_log = bind_io (outer reading) (\<lambda>_ q. (Inr (last_hash (aw_rows (fst q))), q))
      in if aw_pointer_dirty (fst p) then from_log p
         else bind_io (outer (exec (PipeGet pointer_key))) (\<lambda>cached.
                case cached of ValR v \<Rightarrow> ret_io (rval_text v) | _ \<Rightarrow> from_log) p)"

text \<open>A Postgres text column cannot hold the NUL character.\<close>

definition no_nul :: "string option \<Rightarrow> bool" where
  "no_nul s = (case s of None \<Rightarrow> True | Some t \<Rightarrow> CHR 0x00 \<notin> set t)"

definition storable :: "audit_row \<Rightarrow> bool" where
  "storable row \<longleftrightarrow>
     no_nul (Some (a_identity_id row)) \<and> no_nul (a_server_id row) \<and> no_nul (a_tool_name row)"

text \<open>
  The row as the log gives it back. Its payload is the one that was hashed: what the JSONB
  column does to it (Postgres prints the numbers anew) is left out here; a payload that it
  changes is the subject of \<open>rewritten_payload_is_rejected\<close> in \<open>AuditChain\<close>.
\<close>

definition new_row ::
  "(string \<Rightarrow> string \<Rightarrow> string) \<Rightarrow> rat \<Rightarrow> audit_writer \<Rightarrow> int \<Rightarrow> audit_entry \<Rightarrow> string \<Rightarrow> string \<Rightarrow> audit_row"
  where
  "new_row sign now A version w prev hash =
     \<lparr>a_seq = aw_next_seq A, a_prev_hash = prev, a_curr_hash = hash,
      a_signature = sign (aw_signing_key A) hash, a_key_id = Some (aw_key_id A),
      a_timestamp = now, a_identity_id = w_identity w, a_server_id = w_server w,
      a_tool_name = w_tool w, a_policy_version = version,
      a_event_type = event_value (w_event w), a_risk_score = w_risk w,
      a_payload = entry_payload A version w, a_latency_ms = None\<rparr>"

definition add_row :: "audit_row \<Rightarrow> audit_writer \<Rightarrow> audit_writer" where
  "add_row row A = A\<lparr>aw_rows := aw_rows A @ [row], aw_next_seq := aw_next_seq A + 1\<rparr>"

text \<open>A sequence value is used up whether or not the insert commits.\<close>

definition insert_row ::
  "'w committer \<Rightarrow> audit_row \<Rightarrow> (audit_writer \<times> 'w, int) io" where
  "insert_row commit row p =
     (let burnt = (fst p)\<lparr>aw_next_seq := aw_next_seq (fst p) + 1\<rparr>
      in if \<not> storable row then (Inl ServiceError, p)
         else case commit (snd p) of
                (Committed, w') \<Rightarrow> (Inr (a_seq row), (add_row row (fst p), w'))
              | (CommitFailed e, w') \<Rightarrow> (Inl e, (burnt, w'))
              | (CommitInDoubt e, w') \<Rightarrow> (Inl e, (add_row row (fst p), w')))"

definition set_dirty :: "bool \<Rightarrow> (audit_writer \<times> 'w, unit) io" where
  "set_dirty b p = (Inr (), ((fst p)\<lparr>aw_pointer_dirty := b\<rparr>, snd p))"

text \<open>The inner handler: a lost pointer write makes the pointer untrusted, then re-raises.\<close>

definition set_pointer :: "'w redis \<Rightarrow> string \<Rightarrow> (audit_writer \<times> 'w, unit) io" where
  "set_pointer exec hash =
     catch_io (bind_io (outer (exec (ExecSet pointer_key (RStr hash)))) (\<lambda>_. ret_io ()))
       (\<lambda>e. if e = WatchError then raise_io e
            else bind_io (set_dirty True) (\<lambda>_.
                 bind_io (catch_io (bind_io (outer (exec (Del pointer_key))) (\<lambda>_. ret_io ()))
                            (\<lambda>_. ret_io ())) (\<lambda>_.
                 raise_io e)))"

text \<open>The insert, then the pointer, then the flag.\<close>

definition append_row ::
  "'w redis \<Rightarrow> 'w committer \<Rightarrow> audit_row \<Rightarrow> (audit_writer \<times> 'w, int) io" where
  "append_row exec commit row =
     bind_io (insert_row commit row) (\<lambda>seq.
     bind_io (set_pointer exec (a_curr_hash row)) (\<lambda>_.
     bind_io (set_dirty False) (\<lambda>_. ret_io seq)))"

definition hash_and_append ::
  "'w redis \<Rightarrow> 'w committer \<Rightarrow> (string \<Rightarrow> string) \<Rightarrow> (json \<Rightarrow> string res) \<Rightarrow>
     (string \<Rightarrow> string \<Rightarrow> string) \<Rightarrow> rat \<Rightarrow> int \<Rightarrow> audit_entry \<Rightarrow> string \<Rightarrow> (audit_writer \<times> 'w, int) io"
  where
  "hash_and_append exec commit sha256 canon sign now version w prev p =
     (case compute_hash sha256 canon prev (entry_payload (fst p) version w) of
        Inl e \<Rightarrow> (Inl e, p)
      | Inr h \<Rightarrow> append_row exec commit (new_row sign now (fst p) version w prev h) p)"

definition write_once ::
  "'w redis \<Rightarrow> 'w committer \<Rightarrow> ('w, unit) io \<Rightarrow> (string \<Rightarrow> string) \<Rightarrow> (json \<Rightarrow> string res) \<Rightarrow>
     (string \<Rightarrow> string \<Rightarrow> string) \<Rightarrow> rat \<Rightarrow> int \<Rightarrow> audit_entry \<Rightarrow> (audit_writer \<times> 'w, int) io" where
  "write_once exec commit reading sha256 canon sign now version w =
     bind_io (outer (exec (WatchKey pointer_key))) (\<lambda>_.
     bind_io (prev_hash exec reading) (\<lambda>prev.
       hash_and_append exec commit sha256 canon sign now version w prev))"

fun write_locked ::
  "nat \<Rightarrow> 'w redis \<Rightarrow> 'w committer \<Rightarrow> ('w, unit) io \<Rightarrow> (string \<Rightarrow> string) \<Rightarrow>
     (json \<Rightarrow> string res) \<Rightarrow> (string \<Rightarrow> string \<Rightarrow> string) \<Rightarrow> rat \<Rightarrow> int \<Rightarrow> audit_entry \<Rightarrow>
     (audit_writer \<times> 'w, int) io" where
  "write_locked 0 exec commit reading sha256 canon sign now version w = raise_io NoFuel"
| "write_locked (Suc n) exec commit reading sha256 canon sign now version w =
     catch_io (write_once exec commit reading sha256 canon sign now version w)
       (\<lambda>e. if e = WatchError
            then write_locked n exec commit reading sha256 canon sign now version w
            else raise_io e)"

definition audit_write ::
  "nat \<Rightarrow> 'w redis \<Rightarrow> 'w committer \<Rightarrow> ('w, unit) io \<Rightarrow> (string \<Rightarrow> string) \<Rightarrow>
     (json \<Rightarrow> string res) \<Rightarrow> (string \<Rightarrow> string \<Rightarrow> string) \<Rightarrow> rat \<Rightarrow> int \<Rightarrow> audit_entry \<Rightarrow>
     (audit_writer \<times> 'w, int) io" where
  "audit_write fuel exec commit reading sha256 canon sign now version w p =
     (if \<not> aw_available (fst p)
      then (Inl (RuntimeError ''audit signing-key recovery is pending''), p)
      else write_locked fuel exec commit reading sha256 canon sign now version w p)"

section \<open>Fields of a stored payload\<close>

lemma escape_nul_id: "CHR 0x00 \<notin> set s \<Longrightarrow> escape_nul s = s"
  by (induction s) (auto simp: escape_nul_def)

lemma escape_nul_Nil: "escape_nul s = [] \<longleftrightarrow> s = []"
  by (cases s) (auto simp: escape_nul_def)

lemma escape_nul_backslash: "CHR 0x5C \<notin> set (escape_nul s) \<Longrightarrow> CHR 0x00 \<notin> set s"
  by (induction s) (auto simp: escape_nul_def split: if_splits)

definition plain_key :: "string \<Rightarrow> bool" where
  "plain_key k \<longleftrightarrow> CHR 0x00 \<notin> set k \<and> CHR 0x5C \<notin> set k"

lemma escape_nul_plain: "plain_key k \<Longrightarrow> escape_nul s = k \<longleftrightarrow> s = k"
  by (metis escape_nul_backslash escape_nul_id plain_key_def)

lemma map_of_escaped:
  "plain_key k \<Longrightarrow>
     map_of (map (\<lambda>p. (escape_nul (fst p), jsonb_safe (snd p))) d) k = map_option jsonb_safe (map_of d k)"
proof (induction d)
  case (Cons p d)
  obtain a b where p: "p = (a, b)" by fastforce
  from escape_nul_plain [OF Cons.prems] Cons show ?case
    unfolding p by (simp add: eq_commute [of k])
qed simp

lemma map_of_rev_distinct: "distinct (map fst d) \<Longrightarrow> map_of (rev d) = map_of d"
  by (rule map_of_eqI) (auto simp: rev_map [symmetric] map_of_eq_Some_iff)

lemma safe_dict_field:
  assumes "plain_key k" and "distinct (map fst d)"
  shows "map_of (safe_dict d) k = map_option jsonb_safe (map_of d k)"
  using map_of_escaped [OF assms(1), of "rev d"] map_of_rev_distinct [OF assms(2)]
  by (simp add: safe_dict_def map_of_dict_of rev_map)

end
