(* ===== verification/AuditVerification.thy ===== *)
theory AuditVerification
  imports AuditLog PolicyEngine "HOL-Library.Multiset"
begin

text \<open>
  \<open>services/gateway/audit_verification.py\<close> and \<open>audit_verifier.py\<close>: the check of one row,
  the incremental pass with its checkpoint, and the backfill of rows written before key
  ids existed. Reading a key file, the fingerprint and ECDSA verification are parameters.
\<close>

section \<open>One row\<close>

record verifier_env =
  v_sha256 :: "string \<Rightarrow> string"
  v_canon :: "json \<Rightarrow> string res"
  v_key_id :: "string \<Rightarrow> string"
  v_sig_ok :: "string \<Rightarrow> string \<Rightarrow> string \<Rightarrow> bool"

definition seq_text :: "string \<Rightarrow> audit_row \<Rightarrow> string \<Rightarrow> exn" where
  "seq_text what r rest = VerificationError (what @ '' at seq='' @ int_str (a_seq r) @ rest)"

definition protected_fields :: "audit_row \<Rightarrow> (string \<times> json) list" where
  "protected_fields r =
     [(''event_type'', JStr (a_event_type r)), (''identity_id'', JStr (a_identity_id r)),
      (''server_id'', opt_str (a_server_id r)), (''tool_name'', opt_str (a_tool_name r)),
      (''policy_version'', JInt (a_policy_version r))]"

fun check_projections :: "audit_row \<Rightarrow> (string \<times> json) list \<Rightarrow> unit res" where
  "check_projections r [] = Inr ()"
| "check_projections r ((field, projected) # fs) =
     (if \<not> py_eq (dget (a_payload r) field) projected
      then Inl (seq_text ''TAMPERED PROJECTION'' r ('': '' @ field @ '' differs from payload''))
      else check_projections r fs)"

definition check_key_projection :: "audit_row \<Rightarrow> string \<Rightarrow> unit res" where
  "check_key_projection r key_id =
     (let payload_key_id = dget (a_payload r) ''key_id''
      in if payload_key_id \<noteq> JNull \<and> \<not> py_eq payload_key_id (JStr key_id)
         then Inl (seq_text ''TAMPERED PROJECTION'' r '': key_id differs from payload'')
         else Inr ())"

definition verify_record ::
  "verifier_env \<Rightarrow> (string \<Rightarrow> string res) \<Rightarrow> string option \<Rightarrow> audit_row \<Rightarrow> string \<Rightarrow> string res"
  where
  "verify_record E load_public_key legacy r expected_prev =
     (case (if given (a_key_id r) then a_key_id r else legacy) of
        None \<Rightarrow> Inl (seq_text ''MISSING KEY ID'' r [])
      | Some key_id \<Rightarrow>
          if a_prev_hash r \<noteq> expected_prev
          then Inl (seq_text ''BROKEN LINK'' r '': prev_hash does not continue the chain'')
          else
            bind_res (compute_hash (v_sha256 E) (v_canon E) expected_prev (a_payload r)) (\<lambda>h.
            if h \<noteq> a_curr_hash r
            then Inl (seq_text ''TAMPERED ROW'' r '': payload does not match curr_hash'')
            else
              bind_res (load_public_key key_id) (\<lambda>public_key.
              if v_key_id E public_key \<noteq> key_id
              then Inl (seq_text ''KEY FINGERPRINT MISMATCH'' r ('': '' @ key_id))
              else if \<not> v_sig_ok E public_key (a_signature r) (a_curr_hash r)
              then Inl (seq_text ''BAD SIGNATURE'' r ('': curr_hash was not signed by '' @ key_id))
              else
                bind_res (check_projections r (protected_fields r)) (\<lambda>_.
                bind_res (check_key_projection r key_id) (\<lambda>_.
                  Inr (a_curr_hash r))))))"

section \<open>The tables the verifier reads\<close>

record audit_table =
  t_rows :: "audit_row list"
  t_checkpoint :: "int option"

datatype key_source = KeyStore "string \<Rightarrow> string res" | SingleKey string

fun legacy_id :: "verifier_env \<Rightarrow> key_source \<Rightarrow> string option" where
  "legacy_id E (KeyStore load) = None"
| "legacy_id E (SingleKey pub) = Some (v_key_id E pub)"

fun load_key :: "verifier_env \<Rightarrow> key_source \<Rightarrow> string \<Rightarrow> string res" where
  "load_key E (KeyStore load) key_id = load key_id"
| "load_key E (SingleKey pub) key_id =
     (if key_id \<noteq> v_key_id E pub then Inl (ValueError (''missing public key '' @ key_id)) else Inr pub)"

text \<open>\<open>ORDER BY seq\<close>.\<close>

definition rows_after :: "int \<Rightarrow> audit_table \<Rightarrow> audit_row list" where
  "rows_after n T = sort_key a_seq (filter (\<lambda>r. n < a_seq r) (t_rows T))"

definition row_at :: "audit_table \<Rightarrow> int \<Rightarrow> audit_row option" where
  "row_at T n = List.find (\<lambda>r. a_seq r = n) (t_rows T)"

section \<open>The incremental pass\<close>

text \<open>\<open>except (OSError, ValueError) as exc\<close> and \<open>str(exc)\<close>.\<close>

fun failure_text :: "exn \<Rightarrow> string option" where
  "failure_text (ValueError s) = Some s"
| "failure_text (VerificationError s) = Some s"
| "failure_text (OSError s) = Some s"
| "failure_text _ = None"

fun verify_loop ::
  "(audit_row \<Rightarrow> string \<Rightarrow> string res) \<Rightarrow> audit_row list \<Rightarrow> string \<Rightarrow> int \<Rightarrow> nat \<Rightarrow>
     (int \<times> nat \<times> string option) res" where
  "verify_loop verify [] prev last_seq n = Inr (last_seq, n, None)"
| "verify_loop verify (r # rs) prev last_seq n =
     (case verify r prev of
        Inr h \<Rightarrow> verify_loop verify rs h (a_seq r) (Suc n)
      | Inl e \<Rightarrow>
          (case failure_text e of
             Some t \<Rightarrow> Inr (last_seq, n, Some t)
           | None \<Rightarrow> Inl e))"

definition write_table :: "'w committer \<Rightarrow> audit_table \<Rightarrow> (audit_table \<times> 'w, unit) io" where
  "write_table commit T p =
     (case commit (snd p) of
        (Committed, w') \<Rightarrow> (Inr (), (T, w'))
      | (CommitFailed e, w') \<Rightarrow> (Inl e, (fst p, w'))
      | (CommitInDoubt e, w') \<Rightarrow> (Inl e, (T, w')))"

definition checkpoint_seq :: "audit_table \<Rightarrow> int" where
  "checkpoint_seq T = (case t_checkpoint T of None \<Rightarrow> 0 | Some n \<Rightarrow> n)"

definition anchor_hash :: "audit_table \<Rightarrow> string option" where
  "anchor_hash T =
     (if checkpoint_seq T = 0 then Some genesis_hash
      else map_option a_curr_hash (row_at T (checkpoint_seq T)))"

definition verify_increment ::
  "('w, unit) io \<Rightarrow> 'w committer \<Rightarrow> verifier_env \<Rightarrow> key_source \<Rightarrow>
     (audit_table \<times> 'w, nat \<times> string option) io" where
  "verify_increment reading commit E keys =
     bind_io (outer reading) (\<lambda>_ p.
       (let T = fst p; last_verified = checkpoint_seq T
        in case anchor_hash T of
             None \<Rightarrow>
               (Inr (0, Some (''checkpoint row seq='' @ int_str last_verified @
                  '' is missing from audit_log'')), p)
           | Some prev \<Rightarrow>
               bind_io
                 (of_res (verify_loop (verify_record E (load_key E keys) (legacy_id E keys))
                    (rows_after last_verified T) prev last_verified 0))
                 (\<lambda>(last_seq, n, failure).
                    if n > 0
                    then bind_io (write_table commit (T\<lparr>t_checkpoint := Some last_seq\<rparr>))
                           (\<lambda>_. ret_io (n, failure))
                    else ret_io (n, failure)) p))"

section \<open>The backfill\<close>

fun verify_all :: "(audit_row \<Rightarrow> string \<Rightarrow> string res) \<Rightarrow> string \<Rightarrow> audit_row list \<Rightarrow> string res" where
  "verify_all verify prev [] = Inr prev"
| "verify_all verify prev (r # rs) = bind_res (verify r prev) (\<lambda>h. verify_all verify h rs)"

definition bind_legacy :: "string \<Rightarrow> audit_row \<Rightarrow> audit_row" where
  "bind_legacy active r = (if a_key_id r = None then r\<lparr>a_key_id := Some active\<rparr> else r)"

definition backfill_legacy_key_ids ::
  "('w, unit) io \<Rightarrow> 'w committer \<Rightarrow> verifier_env \<Rightarrow> (string \<Rightarrow> string res) \<Rightarrow> string \<Rightarrow>
     (audit_table \<times> 'w, nat) io" where
  "backfill_legacy_key_ids reading commit E load_public active =
     bind_io (outer reading) (\<lambda>_ p.
       (let T = fst p
        in if list_all (\<lambda>r. a_key_id r \<noteq> None) (t_rows T) then (Inr 0, p)
           else
             bind_io
               (of_res (verify_all (verify_record E load_public (Some active)) genesis_hash
                  (sort_key a_seq (t_rows T))))
               (\<lambda>_. bind_io (write_table commit (T\<lparr>t_rows := map (bind_legacy active) (t_rows T)\<rparr>))
                 (\<lambda>_. ret_io (length (filter (\<lambda>r. a_key_id r = None) (t_rows T))))) p))"

section \<open>Lemmas\<close>

subsection \<open>What a verified row guarantees\<close>

lemma check_projections_Inr:
  "check_projections r fs = Inr () \<longleftrightarrow> (\<forall>(k, v) \<in> set fs. py_eq (dget (a_payload r) k) v)"
  by (induction fs) (auto split: if_splits)

lemma py_eq_opt_str [simp]: "py_eq v (opt_str s) \<longleftrightarrow> v = opt_str s"
  by (cases s) auto

lemma verify_record_Inr:
  assumes "verify_record E load legacy r prev = Inr h"
  shows "a_prev_hash r = prev \<and> a_curr_hash r = h \<and>
    compute_hash (v_sha256 E) (v_canon E) prev (a_payload r) = Inr h \<and>
    dget (a_payload r) ''event_type'' = JStr (a_event_type r) \<and>
    dget (a_payload r) ''identity_id'' = JStr (a_identity_id r) \<and>
    dget (a_payload r) ''server_id'' = opt_str (a_server_id r) \<and>
    dget (a_payload r) ''tool_name'' = opt_str (a_tool_name r) \<and>
    py_eq (dget (a_payload r) ''policy_version'') (JInt (a_policy_version r)) \<and>
    (\<exists>key_id pub. (if given (a_key_id r) then a_key_id r else legacy) = Some key_id \<and>
       load key_id = Inr pub \<and> v_key_id E pub = key_id \<and> v_sig_ok E pub (a_signature r) h)"
  using assms
  by (auto simp: verify_record_def check_projections_Inr protected_fields_def bind_res_Inr_iff
      split: option.splits if_splits)

lemma verify_all_append:
  "verify_all verify prev (xs @ ys) = bind_res (verify_all verify prev xs) (\<lambda>h. verify_all verify h ys)"
proof (induction xs arbitrary: prev)
  case (Cons r xs)
  then show ?case by (cases "verify r prev") simp_all
qed simp


subsection \<open>The incremental pass against a full rescan\<close>

lemma verify_loop_prefix:
  assumes "verify_loop verify rs prev c n = Inr (c', n', failure)"
  shows "\<exists>good bad. rs = good @ bad \<and> n' = n + length good \<and>
    c' = (if good = [] then c else a_seq (last good)) \<and>
    (\<exists>h. verify_all verify prev good = Inr h \<and>
       (case bad of
          [] \<Rightarrow> failure = None
        | b # _ \<Rightarrow> \<exists>e t. verify b h = Inl e \<and> failure_text e = Some t \<and> failure = Some t))"
  using assms
proof (induction rs arbitrary: prev c n)
  case (Cons r rs)
  show ?case
  proof (cases "verify r prev")
    case (Inl e)
    with Cons.prems obtain t where "failure_text e = Some t" "c' = c" "n' = n" "failure = Some t"
      by (cases "failure_text e") auto
    with Inl show ?thesis by (intro exI [where x = "[]"] exI [where x = "r # rs"]) simp
  next
    case (Inr h)
    with Cons.prems have "verify_loop verify rs h (a_seq r) (Suc n) = Inr (c', n', failure)" by simp
    from Cons.IH [OF this] obtain good bad where g: "rs = good @ bad" "n' = Suc n + length good"
      "c' = (if good = [] then a_seq r else a_seq (last good))"
      and rest: "\<exists>h'. verify_all verify h good = Inr h' \<and>
       (case bad of
          [] \<Rightarrow> failure = None
        | b # _ \<Rightarrow> \<exists>e t. verify b h' = Inl e \<and> failure_text e = Some t \<and> failure = Some t)"
      by blast
    have "verify_all verify prev (r # good) = verify_all verify h good" using Inr by simp
    with g rest show ?thesis
      by (intro exI [where x = "r # good"] exI [where x = bad]) simp
  qed
qed auto

lemma verify_all_last:
  assumes "\<And>r prev h. verify r prev = Inr h \<Longrightarrow> h = a_curr_hash r"
    and "verify_all verify prev rs = Inr h" and "rs \<noteq> []"
  shows "h = a_curr_hash (last rs)"
  using assms(2,3)
proof (induction rs arbitrary: prev)
  case (Cons r rs)
  then show ?case by (cases "rs = []") (auto simp: bind_res_Inr_iff dest: assms(1))
qed simp

text \<open>The checkpoint is the sequence number of a row up to which the chain has verified.\<close>

definition rows_upto :: "int \<Rightarrow> audit_table \<Rightarrow> audit_row list" where
  "rows_upto n T = sort_key a_seq (filter (\<lambda>r. a_seq r \<le> n) (t_rows T))"

definition checkpoint_ok :: "verifier_env \<Rightarrow> key_source \<Rightarrow> audit_table \<Rightarrow> bool" where
  "checkpoint_ok E keys T \<longleftrightarrow>
     distinct (map a_seq (t_rows T)) \<and> (\<forall>r \<in> set (t_rows T). 0 < a_seq r) \<and>
     (checkpoint_seq T = 0 \<or> (\<exists>r \<in> set (t_rows T). a_seq r = checkpoint_seq T)) \<and>
     (\<exists>h. verify_all (verify_record E (load_key E keys) (legacy_id E keys)) genesis_hash
        (rows_upto (checkpoint_seq T) T) = Inr h)"

lemma sort_key_split:
  fixes f :: "'a \<Rightarrow> int"
  shows "sort_key f xs = sort_key f (filter (\<lambda>x. f x \<le> n) xs) @ sort_key f (filter (\<lambda>x. n < f x) xs)"
proof (rule properties_for_sort_key)
  have "mset xs = mset (filter (\<lambda>x. f x \<le> n) xs) + mset (filter (\<lambda>x. n < f x) xs)"
    by (induction xs) auto
  then show "mset (sort_key f (filter (\<lambda>x. f x \<le> n) xs) @ sort_key f (filter (\<lambda>x. n < f x) xs)) = mset xs"
    by simp
  show "filter (\<lambda>x. f k = f x)
      (sort_key f (filter (\<lambda>x. f x \<le> n) xs) @ sort_key f (filter (\<lambda>x. n < f x) xs)) =
    filter (\<lambda>x. f k = f x) xs" for k
    by (simp add: eq_commute [of "f k"] sort_key_stable) (induction xs, auto)
qed (auto simp: sorted_append)

abbreviation row_check :: "verifier_env \<Rightarrow> key_source \<Rightarrow> audit_row \<Rightarrow> string \<Rightarrow> string res" where
  "row_check E keys \<equiv> verify_record E (load_key E keys) (legacy_id E keys)"

lemma rows_split: "sort_key a_seq (t_rows T) = rows_upto n T @ rows_after n T"
  unfolding rows_upto_def rows_after_def by (rule sort_key_split)

lemma rows_upto_filter: "rows_upto n T = filter (\<lambda>r. a_seq r \<le> n) (sort_key a_seq (t_rows T))"
  by (simp add: rows_upto_def filter_sort)

lemma strictly_sorted:
  assumes "distinct (map a_seq (t_rows T))"
  shows "sorted_wrt (<) (map a_seq (sort_key a_seq (t_rows T)))"
proof -
  have "mset (map a_seq (sort_key a_seq (t_rows T))) = mset (map a_seq (t_rows T))" by simp
  with assms have "distinct (map a_seq (sort_key a_seq (t_rows T)))" by (metis mset_eq_imp_distinct_iff)
  then show ?thesis by (simp add: strict_sorted_iff)
qed

lemma rows_upto_extend:
  assumes "distinct (map a_seq (t_rows T))" and "rows_after c T = good @ bad" and "good \<noteq> []"
  shows "rows_upto (a_seq (last good)) T = rows_upto c T @ good"
proof -
  have s: "sorted_wrt (<) (map a_seq (rows_upto c T @ good @ bad))"
    using strictly_sorted [OF assms(1)] rows_split [of T c] assms(2) by simp
  obtain g x where good: "good = g @ [x]" using assms(3) by (metis append_butlast_last_id)
  from s good have "\<forall>r \<in> set (rows_upto c T). a_seq r \<le> a_seq x" and "\<forall>r \<in> set g. a_seq r \<le> a_seq x"
    and "\<forall>r \<in> set bad. \<not> a_seq r \<le> a_seq x"
    by (fastforce simp: sorted_wrt_append)+
  then show ?thesis
    unfolding rows_upto_filter [of "a_seq (last good)"] rows_split [of T c] assms(2)
    by (simp add: good filter_True filter_False)
qed

lemma anchor_hash_verified:
  assumes "checkpoint_ok E keys T"
    and "verify_all (row_check E keys) genesis_hash (rows_upto (checkpoint_seq T) T) = Inr h"
  shows "anchor_hash T = Some h"
proof (cases "checkpoint_seq T = 0")
  case True
  with assms(1) have "filter (\<lambda>r. a_seq r \<le> checkpoint_seq T) (t_rows T) = []"
    by (auto simp: checkpoint_ok_def filter_empty_conv)
  with assms(2) True show ?thesis by (simp add: anchor_hash_def rows_upto_def)
next
  case False
  let ?c = "checkpoint_seq T"
  from assms(1) have d: "distinct (map a_seq (t_rows T))" by (simp add: checkpoint_ok_def)
  from assms(1) False obtain r where r: "r \<in> set (t_rows T)" "a_seq r = ?c"
    by (auto simp: checkpoint_ok_def)
  have at: "row_at T ?c = Some r"
    unfolding row_at_def r(2) [symmetric] using d r(1) by (rule find_distinct)
  have mem: "r \<in> set (rows_upto ?c T)" using r by (simp add: rows_upto_def)
  have "sorted_wrt (<) (map a_seq (rows_upto ?c T))"
    using strictly_sorted [OF d] rows_split [of T ?c] by (simp add: sorted_wrt_append)
  moreover obtain g x where g: "rows_upto ?c T = g @ [x]"
    using mem by (metis append_butlast_last_id empty_iff empty_set)
  moreover have "x \<in> set (rows_upto ?c T)" using g by simp
  then have "a_seq x \<le> ?c" by (simp add: rows_upto_def)
  ultimately have "x = r" using mem r(2) by (auto simp: sorted_wrt_append)
  moreover have "h = a_curr_hash (last (rows_upto ?c T))"
    by (rule verify_all_last [OF _ assms(2)]) (use g in \<open>auto dest: verify_record_Inr\<close>)
  ultimately show ?thesis using False at g by (simp add: anchor_hash_def)
qed

lemma verify_all_stuck:
  assumes "verify_all verify prev good = Inr h" and "verify b h = Inl e"
  shows "verify_all verify prev (good @ b # bad) = Inl e"
  using assms by (simp add: verify_all_append)

lemma increment_rescan:
  assumes "checkpoint_ok E keys T"
    and "verify_increment reading commit E keys (T, w) = (Inr (n, failure), (T', w'))"
  shows "t_rows T' = t_rows T \<and> checkpoint_seq T \<le> checkpoint_seq T' \<and> checkpoint_ok E keys T' \<and>
    (case failure of
       None \<Rightarrow> (\<exists>h. verify_all (verify_record E (load_key E keys) (legacy_id E keys)) genesis_hash
                (sort_key a_seq (t_rows T)) = Inr h)
     | Some t \<Rightarrow> (\<exists>e. failure_text e = Some t \<and>
                verify_all (verify_record E (load_key E keys) (legacy_id E keys)) genesis_hash
                  (sort_key a_seq (t_rows T)) = Inl e))"
proof -
  let ?V = "row_check E keys" and ?c = "checkpoint_seq T"
  from assms(1) obtain h where h: "verify_all ?V genesis_hash (rows_upto ?c T) = Inr h"
    and d: "distinct (map a_seq (t_rows T))" by (auto simp: checkpoint_ok_def)
  note anchor = anchor_hash_verified [OF assms(1) h]
  from assms(2) obtain c' where loop: "verify_loop ?V (rows_after ?c T) h ?c 0 = Inr (c', n, failure)"
    and T': "T' = (if n > 0 then T\<lparr>t_checkpoint := Some c'\<rparr> else T)"
    by (auto simp: verify_increment_def Let_def anchor write_table_def outer_def
        elim!: bind_io_InrE split: prod.splits if_splits commit_outcome.splits)
  from verify_loop_prefix [OF loop] obtain good bad h' where
    g: "rows_after ?c T = good @ bad" "n = length good"
      "c' = (if good = [] then ?c else a_seq (last good))" "verify_all ?V h good = Inr h'"
    and b: "case bad of [] \<Rightarrow> failure = None
        | b # _ \<Rightarrow> \<exists>e t. ?V b h' = Inl e \<and> failure_text e = Some t \<and> failure = Some t"
    by auto
  have all: "sort_key a_seq (t_rows T) = (rows_upto ?c T @ good) @ bad"
    using rows_split [of T ?c] g(1) by simp
  have upto: "verify_all ?V genesis_hash (rows_upto ?c T @ good) = Inr h'"
    using h g(4) by (simp add: verify_all_append)
  have outcome: "case failure of
       None \<Rightarrow> (\<exists>h. verify_all ?V genesis_hash (sort_key a_seq (t_rows T)) = Inr h)
     | Some t \<Rightarrow> (\<exists>e. failure_text e = Some t \<and>
         verify_all ?V genesis_hash (sort_key a_seq (t_rows T)) = Inl e)"
    using b upto verify_all_stuck [OF upto] unfolding all by (auto split: list.splits)
  have "t_rows T' = t_rows T \<and> ?c \<le> checkpoint_seq T' \<and> checkpoint_ok E keys T'"
  proof (cases "good = []")
    case True
    with T' g assms(1) show ?thesis by simp
  next
    case False
    then have T'': "T' = T\<lparr>t_checkpoint := Some (a_seq (last good))\<rparr>" using T' g by simp
    have mem: "last good \<in> set (rows_after ?c T)" using False g(1) by simp
    then have "last good \<in> set (t_rows T)" "?c < a_seq (last good)" by (auto simp: rows_after_def)
    moreover have "rows_upto (a_seq (last good)) T' = rows_upto ?c T @ good"
      using rows_upto_extend [OF d g(1) False] by (simp add: T'' rows_upto_def)
    ultimately show ?thesis
      using upto assms(1) unfolding checkpoint_ok_def T'' by (auto simp: checkpoint_seq_def)
  qed
  with outcome show ?thesis by blast
qed

section \<open>Properties\<close>

text \<open>
  C20: An incremental pass is as good as a rescan of the whole chain. From a checkpoint up
  to which the chain verifies, a pass that returns leaves the rows alone, moves the
  checkpoint only forward and only through rows that verify, so that it stays valid; it
  reports no failure exactly when the complete chain verifies from the genesis hash, and
  a reported failure is the one a full rescan stops at.
\<close>

theorem incremental_pass_equals_rescan:
  assumes "checkpoint_ok E keys T"
    and "verify_increment reading commit E keys (T, w) = (Inr (n, failure), (T', w'))"
  shows "t_rows T' = t_rows T \<and> checkpoint_seq T \<le> checkpoint_seq T' \<and> checkpoint_ok E keys T' \<and>
    (case failure of
       None \<Rightarrow> (\<exists>h. verify_all (verify_record E (load_key E keys) (legacy_id E keys)) genesis_hash
                (sort_key a_seq (t_rows T)) = Inr h)
     | Some t \<Rightarrow> (\<exists>e. failure_text e = Some t \<and>
                verify_all (verify_record E (load_key E keys) (legacy_id E keys)) genesis_hash
                  (sort_key a_seq (t_rows T)) = Inl e))"
  by (rule increment_rescan [OF assms])

definition sample_env :: verifier_env where
  "sample_env =
     \<lparr>v_sha256 = (\<lambda>_. ''h''), v_canon = (\<lambda>_. Inr ''c''), v_key_id = (\<lambda>_. ''k''),
      v_sig_ok = (\<lambda>_ sig _. sig = ''s'')\<rparr>"

definition sample_row :: audit_row where
  "sample_row =
     \<lparr>a_seq = 1, a_prev_hash = genesis_hash, a_curr_hash = ''h'', a_signature = ''s'',
      a_key_id = Some ''k'', a_timestamp = 0, a_identity_id = ''alice'', a_server_id = None,
      a_tool_name = None, a_policy_version = 1, a_event_type = ''ALLOW'', a_risk_score = None,
      a_payload = payload_fields EV_ALLOW ''alice'' None None 1 ''k'' , a_latency_ms = None\<rparr>"

definition sample_table :: audit_table where
  "sample_table = \<lparr>t_rows = [sample_row\<lparr>a_seq := 2, a_prev_hash := ''h'', a_signature := ''forged''\<rparr>, sample_row],
     t_checkpoint = None\<rparr>"

lemma py_eq_JInt_refl [simp]: "py_eq (JInt n) (JInt n)"
  by (simp add: py_eq.simps)

lemma sample_row_ok: "verify_record sample_env (\<lambda>_. Inr ''pub'') None sample_row genesis_hash = Inr ''h''"
  by (simp add: verify_record_def sample_row_def sample_env_def compute_hash_def given_def
      protected_fields_def payload_fields_def check_key_projection_def)

theorem incremental_pass_equals_rescan_witness:
  "\<exists>e. verify_all (row_check sample_env (SingleKey ''pub'')) genesis_hash
     (sort_key a_seq (t_rows sample_table)) = Inl e"
proof -
  have ok: "checkpoint_ok sample_env (SingleKey ''pub'') sample_table"
    by (simp add: checkpoint_ok_def sample_table_def sample_row_def checkpoint_seq_def rows_upto_def)
  have "verify_increment (ret_io ()) (Pair Committed) sample_env (SingleKey ''pub'') (sample_table, ()) =
      (Inr (1, Some ''BAD SIGNATURE at seq=2: curr_hash was not signed by k''),
        (sample_table\<lparr>t_checkpoint := Some 1\<rparr>, ()))"
    by (simp add: verify_increment_def bind_io_def outer_def anchor_hash_def checkpoint_seq_def
        sample_table_def rows_after_def verify_record_def sample_row_def sample_env_def
        compute_hash_def given_def protected_fields_def payload_fields_def check_key_projection_def
        write_table_def seq_text_def int_str_def nat_str.simps)
  from incremental_pass_equals_rescan [OF ok this] show ?thesis by auto
qed

lemma verified_hash_length:
  assumes "\<And>x. length (v_sha256 E x) = 64"
    and "verify_all (verify_record E load legacy) genesis_hash rows = Inr h"
  shows "length h = 64"
proof (cases rows rule: rev_cases)
  case Nil
  with assms(2) have "h = genesis_hash" by simp
  then show ?thesis by (simp add: genesis_hash_def)
next
  case (snoc ys r)
  with assms(2) obtain p where "verify_record E load legacy r p = Inr h"
    by (auto simp: verify_all_append bind_res_Inr_iff)
  then obtain b where "v_sha256 E (p @ b) = h"
    by (auto dest!: verify_record_Inr simp: compute_hash_def bind_res_Inr_iff)
  then show ?thesis using assms(1) by blast
qed

text \<open>
  Tampering is evident: two row sequences that both verify from the genesis hash and
  end in the same hash hold the same canonical payloads in the same order, or they
  exhibit a collision of the hash function, or a preimage of the genesis hash.
\<close>

theorem equal_heads_equal_logs:
  assumes "\<And>x. length (v_sha256 E x) = 64"
    and "verify_all (verify_record E load legacy) genesis_hash rows = Inr h"
    and "verify_all (verify_record E load' legacy') genesis_hash rows' = Inr h"
  shows "(\<exists>x y. x \<noteq> y \<and> v_sha256 E x = v_sha256 E y) \<or> (\<exists>x. v_sha256 E x = genesis_hash) \<or>
    map (\<lambda>r. v_canon E (JObj (a_payload r))) rows = map (\<lambda>r. v_canon E (JObj (a_payload r))) rows'"
  using assms(2,3)
proof (induction rows arbitrary: rows' h rule: rev_induct)
  case Nil
  show ?case
  proof (cases rows' rule: rev_cases)
    case (snoc ys r)
    with Nil obtain h' where "verify_record E load' legacy' r h' = Inr genesis_hash"
      by (auto simp: verify_all_append bind_res_Inr_iff)
    then show ?thesis by (auto dest!: verify_record_Inr simp: compute_hash_def bind_res_Inr_iff)
  qed simp
next
  case (snoc r rows)
  note IH = snoc.IH
  from snoc.prems(1) obtain p where p: "verify_all (verify_record E load legacy) genesis_hash rows = Inr p"
    and "verify_record E load legacy r p = Inr h" by (auto simp: verify_all_append bind_res_Inr_iff)
  then obtain b where b: "v_canon E (JObj (a_payload r)) = Inr b" and hb: "v_sha256 E (p @ b) = h"
    by (auto dest!: verify_record_Inr simp: compute_hash_def bind_res_Inr_iff)
  show ?case
  proof (cases rows' rule: rev_cases)
    case Nil
    with snoc.prems(2) hb show ?thesis by auto
  next
    case ys: (snoc ys s)
    with snoc.prems(2) obtain q where q: "verify_all (verify_record E load' legacy') genesis_hash ys = Inr q"
      and "verify_record E load' legacy' s q = Inr h" by (auto simp: verify_all_append bind_res_Inr_iff)
    then obtain c where c: "v_canon E (JObj (a_payload s)) = Inr c" and hc: "v_sha256 E (q @ c) = h"
      by (auto dest!: verify_record_Inr simp: compute_hash_def bind_res_Inr_iff)
    have "length p = 64" and "length q = 64"
      using p q assms(1) verified_hash_length by blast+
    then have split: "p = q \<and> b = c" if "p @ b = q @ c" using that by simp
    show ?thesis
    proof (cases "p @ b = q @ c")
      case True
      with split q have "verify_all (verify_record E load' legacy') genesis_hash ys = Inr p" by simp
      from IH [OF p this] show ?thesis using split True b c ys by auto
    next
      case False
      with hb hc show ?thesis by metis
    qed
  qed
qed

definition long_env :: verifier_env where
  "long_env = sample_env\<lparr>v_sha256 := \<lambda>_. replicate 64 (CHR ''a'')\<rparr>"

theorem equal_heads_equal_logs_witness:
  "(\<exists>x y. x \<noteq> y \<and> v_sha256 long_env x = v_sha256 long_env y) \<or>
   (\<exists>x. v_sha256 long_env x = genesis_hash) \<or>
   map (\<lambda>r. v_canon long_env (JObj (a_payload r))) [sample_row\<lparr>a_curr_hash := replicate 64 (CHR ''a'')\<rparr>] =
   map (\<lambda>r. v_canon long_env (JObj (a_payload r)))
     [sample_row\<lparr>a_curr_hash := replicate 64 (CHR ''a''), a_timestamp := 5\<rparr>]"
proof -
  have ok: "verify_all (verify_record long_env (\<lambda>_. Inr ''pub'') None) genesis_hash
      [sample_row\<lparr>a_curr_hash := replicate 64 (CHR ''a''), a_timestamp := t\<rparr>] =
      Inr (replicate 64 (CHR ''a''))" for t
    by (simp add: verify_record_def sample_row_def long_env_def sample_env_def compute_hash_def given_def
      protected_fields_def payload_fields_def check_key_projection_def)
  from ok [of 0] have "verify_all (verify_record long_env (\<lambda>_. Inr ''pub'') None) genesis_hash
      [sample_row\<lparr>a_curr_hash := replicate 64 (CHR ''a'')\<rparr>] = Inr (replicate 64 (CHR ''a''))"
    by (simp add: sample_row_def)
  from equal_heads_equal_logs [OF _ this ok [of 5]] show ?thesis by (simp add: long_env_def)
qed

text \<open>
  Three columns are outside the protection: changing a row's risk score, timestamp or
  latency changes nothing in the outcome of its verification, although the payload of a
  decision holds a risk score of its own.
\<close>

theorem unprotected_columns:
  "verify_record E load legacy (r\<lparr>a_risk_score := score, a_timestamp := t, a_latency_ms := l\<rparr>) prev =
   verify_record E load legacy r prev"
proof -
  have "check_projections (r\<lparr>a_risk_score := score, a_timestamp := t, a_latency_ms := l\<rparr>) fs =
      check_projections r fs" for fs
    by (induction fs) (auto simp: seq_text_def)
  then show ?thesis
    by (simp add: verify_record_def protected_fields_def check_key_projection_def seq_text_def Let_def
        cong del: if_weak_cong option.case_cong_weak)
qed

end
