(* ===== verification/AuditChain.thy ===== *)
theory AuditChain
  imports AuditVerification
begin

text \<open>
  The contract between the audit writer, its services and the verifier: what the writer
  relies on in Redis and Postgres (\<open>audit_store\<close>), the invariant of its state, and the
  theorem that everything it writes verifies, through any failures of the services.
\<close>

section \<open>Payload fields\<close>







section \<open>A new row verifies\<close>



section \<open>The writer's invariant\<close>





section \<open>The services\<close>




section \<open>Histories\<close>

text \<open>
  The states a gateway's audit state reaches: writes of any entries that leave the
  protected fields alone, whatever they return; other traffic and passing time in Redis;
  a lost pointer key; and restarts, which forget the in-process flags.
\<close>

definition fresh_writer :: "audit_row list \<Rightarrow> int \<Rightarrow> string \<Rightarrow> string \<Rightarrow> audit_writer" where
  "fresh_writer rows n key key_id =
     \<lparr>aw_rows = rows, aw_next_seq = n, aw_signing_key = key, aw_key_id = key_id,
      aw_available = True, aw_pointer_dirty = True\<rparr>"





section \<open>Scripted services\<close>

text \<open>Redis failing by one script, commits ending as another says.\<close>

type_synonym audit_world = "commit_outcome list \<times> fault list \<times> redis_state"

definition world_exec :: "audit_world redis" where
  "world_exec c w = (case exec_faulty c (snd w) of (x, p) \<Rightarrow> (x, (fst w, p)))"


definition world_commit :: "audit_world committer" where
  "world_commit w = (case fst w of [] \<Rightarrow> (Committed, w) | c # cs \<Rightarrow> (c, (cs, snd w)))"







section \<open>Properties\<close>


definition plain_env :: verifier_env where
  "plain_env =
     \<lparr>v_sha256 = id, v_canon = (\<lambda>_. Inr ''p''), v_key_id = (\<lambda>_. ''k''), v_sig_ok = (\<lambda>_ _ _. True)\<rparr>"

definition first_writer :: audit_writer where
  "first_writer = fresh_writer [] 1 ''key'' ''k''"

definition allow_entry :: audit_entry where
  "allow_entry =
     \<lparr>w_event = EV_ALLOW, w_identity = ''alice'', w_server = Some ''files'', w_tool = Some ''read'',
      w_extra = [], w_risk = None\<rparr>"



definition write_step :: "audit_writer \<times> audit_world \<Rightarrow> audit_writer \<times> audit_world" where
  "write_step p =
     snd (audit_write (Suc 0) world_exec world_commit (ret_io ()) id (\<lambda>_. Inr ''p'')
        (\<lambda>_ _. ''s'') 0 1 allow_entry p)"

text \<open>
  The hash covers the payload as it was before the JSONB column stored it. When the column
  gives back a payload of another hash (Postgres prints a float such as 1e16, which
  JSON of the caller's arguments may hold, as an integer), the row no longer verifies.
\<close>

definition stored_row :: "(jdict \<Rightarrow> jdict) \<Rightarrow> audit_row \<Rightarrow> audit_row" where
  "stored_row jsonb r = r\<lparr>a_payload := jsonb (a_payload r)\<rparr>"

theorem rewritten_payload_is_rejected:
  assumes "verify_record E load legacy r prev = Inr h"
    and "compute_hash (v_sha256 E) (v_canon E) prev (jsonb (a_payload r)) \<noteq>
      compute_hash (v_sha256 E) (v_canon E) prev (a_payload r)"
  shows "\<exists>e. verify_record E load legacy (stored_row jsonb r) prev = Inl e"
proof (rule ccontr)
  assume "\<nexists>e. verify_record E load legacy (stored_row jsonb r) prev = Inl e"
  then obtain h' where "verify_record E load legacy (stored_row jsonb r) prev = Inr h'"
    by (cases "verify_record E load legacy (stored_row jsonb r) prev") auto
  from verify_record_Inr [OF this] verify_record_Inr [OF assms(1)] assms(2) show False
    by (auto simp: stored_row_def)
qed

text \<open>
  A commit in doubt forks the chain. When the connection is lost after an insert became
  durable, the writer raises but goes on trusting the cached pointer, so the next row
  links to the same predecessor as the durable one: the log no longer verifies, and no
  later pass of the verifier gets beyond that row.
\<close>

theorem in_doubt_commit_forks_chain:
  "let A = fst (write_step (write_step (write_step
         (first_writer, ([Committed, CommitInDoubt ServiceError], [], empty_redis)))));
       h = genesis_hash @ ''p''
   in map a_prev_hash (aw_rows A) = [genesis_hash, h, h] \<and>
      verify_all (verify_record plain_env (\<lambda>_. Inr ''pub'') None) genesis_hash (aw_rows A) =
        Inl (VerificationError ''BROKEN LINK at seq=3: prev_hash does not continue the chain'')"
  by (simp add: write_step_def audit_write_def first_writer_def fresh_writer_def write_once_def
        catch_io_def bind_io_def world_exec_def exec_faulty_def reply_res_def prev_hash_def
        hash_and_append_def compute_hash_def append_row_def insert_row_def storable_def new_row_def
        no_nul_def allow_entry_def world_commit_def add_row_def set_pointer_def last_hash_def
        set_dirty_def empty_redis_def live_def alive_def put_key_def
        entry_payload_def audit_payload_def merged_def payload_fields_def safe_dict_def dict_of_def
        escape_nul_def verify_record_def plain_env_def given_def protected_fields_def
        check_key_projection_def seq_text_def int_str_def nat_str.simps)

end
