(* ===== verification/Approvals.thy ===== *)
theory Approvals
  imports AuditChain Config
begin

text \<open>
  \<open>services/gateway/approvals.py\<close> and the \<open>Approval\<close> table of \<open>db.py\<close>: the lifecycle of
  a human approval. The table is explicit state; the audit writer is a parameter
  (\<open>awrite\<close>), as is how a commit ends. Rows are locked while an operation runs, so
  operations are steps. The lemmas: an approval is redeemed at most once, only after it
  was granted, unexpired, and for the call it was granted for.
\<close>

datatype approval_status = Pending | Approved | Expired

fun status_value :: "approval_status \<Rightarrow> string" where
  "status_value Pending = ''pending''"
| "status_value Approved = ''approved''"
| "status_value Expired = ''expired''"

record approval =
  ap_id :: string
  ap_audit_id :: int
  ap_identity :: string
  ap_server :: string
  ap_tool :: string
  ap_args_hash :: string
  ap_expires :: rat
  ap_status :: approval_status
  ap_approved_by :: "string option"
  ap_consumed :: bool

type_synonym approvals = "(string \<times> approval) list"

definition approval_meta_key :: string where
  "approval_meta_key = ''portunusmcp/approval_id''"

definition arguments_hash :: "(json \<Rightarrow> string res) \<Rightarrow> (string \<Rightarrow> string) \<Rightarrow> json \<Rightarrow> string res" where
  "arguments_hash canon sha256 arguments = bind_res (canon arguments) (\<lambda>b. Inr (sha256 b))"

definition expired_at :: "rat \<Rightarrow> approval \<Rightarrow> bool" where
  "expired_at now a \<longleftrightarrow> ap_expires a < now"

section \<open>Transactions\<close>

text \<open>\<open>await session.commit()\<close>: the pending changes become the table, or not.\<close>

definition commit_table :: "'w committer \<Rightarrow> approvals \<Rightarrow> (approvals \<times> 'w, unit) io" where
  "commit_table commit T p =
     (case commit (snd p) of
        (Committed, w') \<Rightarrow> (Inr (), (T, w'))
      | (CommitFailed e, w') \<Rightarrow> (Inl e, (fst p, w'))
      | (CommitInDoubt e, w') \<Rightarrow> (Inl e, (T, w')))"

definition with_approval ::
  "('w, unit) io \<Rightarrow> string \<Rightarrow> (approval option \<Rightarrow> (approvals \<times> 'w, 'a) io) \<Rightarrow> (approvals \<times> 'w, 'a) io" where
  "with_approval reading approval_id f =
     bind_io (outer reading) (\<lambda>_ p. f (map_of (fst p) approval_id) p)"

definition save :: "'w committer \<Rightarrow> approval \<Rightarrow> (approvals \<times> 'w, unit) io" where
  "save commit a p = commit_table commit (al_put (ap_id a) a (fst p)) p"

section \<open>Operations\<close>

text \<open>The primary key refuses an id that is already taken.\<close>

definition new_approval ::
  "int \<Rightarrow> rat \<Rightarrow> string \<Rightarrow> string \<Rightarrow> string \<Rightarrow> string \<Rightarrow> string \<Rightarrow> int \<Rightarrow> approval" where
  "new_approval ttl now approval_id identity_id server_id tool_name args_hash audit_id =
     \<lparr>ap_id = approval_id, ap_audit_id = audit_id, ap_identity = identity_id,
      ap_server = server_id, ap_tool = tool_name, ap_args_hash = args_hash,
      ap_expires = now + of_int ttl, ap_status = Pending, ap_approved_by = None,
      ap_consumed = False\<rparr>"

definition approval_create ::
  "'w committer \<Rightarrow> int \<Rightarrow> rat \<Rightarrow> string \<Rightarrow> string \<Rightarrow> string \<Rightarrow> string \<Rightarrow> string \<Rightarrow> int \<Rightarrow>
     (approvals \<times> 'w, string) io" where
  "approval_create commit ttl now approval_id identity_id server_id tool_name args_hash audit_id p =
     (if map_of (fst p) approval_id \<noteq> None then (Inl ServiceError, p)
      else bind_io
             (save commit (new_approval ttl now approval_id identity_id server_id tool_name args_hash audit_id))
             (\<lambda>_. ret_io approval_id) p)"

definition approval_id_extra :: "string \<Rightarrow> jdict" where
  "approval_id_extra approval_id = [(''approval_id'', JStr approval_id)]"

definition lifecycle_entry :: "event_type \<Rightarrow> string \<Rightarrow> approval \<Rightarrow> jdict \<Rightarrow> audit_entry" where
  "lifecycle_entry event who a extra =
     \<lparr>w_event = event, w_identity = who, w_server = Some (ap_server a), w_tool = Some (ap_tool a),
      w_extra = extra, w_risk = None\<rparr>"

definition expired_entry :: "approval \<Rightarrow> audit_entry" where
  "expired_entry a = lifecycle_entry EV_EXPIRED (ap_identity a) a (approval_id_extra (ap_id a))"

definition approved_entry :: "string \<Rightarrow> approval \<Rightarrow> audit_entry" where
  "approved_entry approved_by a =
     lifecycle_entry EV_APPROVED approved_by a
       (approval_id_extra (ap_id a) @ [(''identity_id'', JStr (ap_identity a))])"

definition approval_approve ::
  "('w, unit) io \<Rightarrow> 'w committer \<Rightarrow> (audit_entry \<Rightarrow> ('w, int) io) \<Rightarrow> rat \<Rightarrow> string \<Rightarrow> string \<Rightarrow>
     (approvals \<times> 'w, int \<times> string \<times> string \<times> string) io" where
  "approval_approve reading commit awrite now approval_id approved_by =
     with_approval reading approval_id (\<lambda>row.
       case row of
         None \<Rightarrow> raise_io (LookupError ''unknown approval id'')
       | Some a \<Rightarrow>
           if ap_status a = Pending \<and> expired_at now a
           then bind_io (outer (awrite (expired_entry a))) (\<lambda>_.
                bind_io (save commit (a\<lparr>ap_status := Expired\<rparr>)) (\<lambda>_.
                  raise_io (LookupError ''approval has expired'')))
           else if ap_status a \<noteq> Pending
           then raise_io (LookupError (''approval is '' @ status_value (ap_status a) @ '', not pending''))
           else bind_io (outer (awrite (approved_entry approved_by a))) (\<lambda>seq.
                bind_io (save commit (a\<lparr>ap_status := Approved, ap_approved_by := Some approved_by\<rparr>)) (\<lambda>_.
                  ret_io (seq, ap_identity a, ap_server a, ap_tool a))))"

definition redeem_denial ::
  "approval \<Rightarrow> string \<Rightarrow> string \<Rightarrow> string \<Rightarrow> string \<Rightarrow> (event_type \<times> string) option" where
  "redeem_denial a identity_id server_id tool_name args_hash =
     (if ap_status a \<noteq> Approved then Some (EV_DENY_APPROVAL_MISMATCH, ''approval has not been granted'')
      else if ap_identity a \<noteq> identity_id \<or> ap_server a \<noteq> server_id \<or> ap_tool a \<noteq> tool_name
      then Some (EV_DENY_APPROVAL_MISMATCH,
        ''approval was granted to a different identity, server, or tool'')
      else if ap_args_hash a \<noteq> args_hash
      then Some (EV_DENY_APPROVAL_MISMATCH, ''arguments differ from the ones that were approved'')
      else None)"

definition approval_redeem ::
  "('w, unit) io \<Rightarrow> 'w committer \<Rightarrow> rat \<Rightarrow> string \<Rightarrow> string \<Rightarrow> string \<Rightarrow> string \<Rightarrow> string \<Rightarrow>
     (approvals \<times> 'w, (event_type \<times> string) option) io" where
  "approval_redeem reading commit now approval_id identity_id server_id tool_name args_hash =
     with_approval reading approval_id (\<lambda>row.
       case row of
         None \<Rightarrow> ret_io (Some (EV_DENY_APPROVAL_MISMATCH, ''unknown approval id''))
       | Some a \<Rightarrow>
           if ap_consumed a then ret_io (Some (EV_DENY_REPLAY, ''approval has already been used''))
           else if expired_at now a
           then bind_io (if ap_status a = Pending then save commit (a\<lparr>ap_status := Expired\<rparr>) else ret_io ())
                  (\<lambda>_. ret_io (Some (EV_EXPIRED, ''approval has expired'')))
           else (case redeem_denial a identity_id server_id tool_name args_hash of
                   Some d \<Rightarrow> ret_io (Some d)
                 | None \<Rightarrow>
                     bind_io (save commit (a\<lparr>ap_consumed := True\<rparr>)) (\<lambda>_. ret_io None)))"

fun expire_rows ::
  "(audit_entry \<Rightarrow> ('w, int) io) \<Rightarrow> rat \<Rightarrow> approvals \<Rightarrow> ('w, approvals) io" where
  "expire_rows awrite now [] = ret_io []"
| "expire_rows awrite now ((k, a) # T) =
     (if ap_status a = Pending \<and> expired_at now a
      then bind_io (awrite (expired_entry a)) (\<lambda>_.
           bind_io (expire_rows awrite now T) (\<lambda>T'. ret_io ((k, a\<lparr>ap_status := Expired\<rparr>) # T')))
      else bind_io (expire_rows awrite now T) (\<lambda>T'. ret_io ((k, a) # T')))"

definition expire_stale ::
  "('w, unit) io \<Rightarrow> 'w committer \<Rightarrow> (audit_entry \<Rightarrow> ('w, int) io) \<Rightarrow> rat \<Rightarrow> (approvals \<times> 'w, unit) io"
  where
  "expire_stale reading commit awrite now =
     bind_io (outer reading) (\<lambda>_ p.
       bind_io (outer (expire_rows awrite now (fst p))) (\<lambda>T. commit_table commit T) p)"

section \<open>The lifecycle\<close>

text \<open>
  What may happen to one approval: its fields never change, a decision is never taken
  back, and it is consumed only once granted.
\<close>

definition lifecycle_le :: "approval \<Rightarrow> approval \<Rightarrow> bool" where
  "lifecycle_le a b \<longleftrightarrow>
     ap_id b = ap_id a \<and> ap_identity b = ap_identity a \<and> ap_server b = ap_server a \<and>
     ap_tool b = ap_tool a \<and> ap_args_hash b = ap_args_hash a \<and> ap_expires b = ap_expires a \<and>
     (ap_status b = ap_status a \<or> ap_status a = Pending) \<and>
     (ap_consumed a \<longrightarrow> ap_consumed b) \<and> (ap_consumed b \<longrightarrow> ap_consumed a \<or> ap_status b = Approved)"

lemma lifecycle_refl [simp]: "lifecycle_le a a"
  by (simp add: lifecycle_le_def)

lemma lifecycle_trans: "lifecycle_le a b \<Longrightarrow> lifecycle_le b c \<Longrightarrow> lifecycle_le a c"
  by (auto simp: lifecycle_le_def)

definition table_le :: "approvals \<Rightarrow> approvals \<Rightarrow> bool" where
  "table_le T U \<longleftrightarrow> (\<forall>k a. map_of T k = Some a \<longrightarrow> (\<exists>b. map_of U k = Some b \<and> lifecycle_le a b))"

definition keyed :: "approvals \<Rightarrow> bool" where
  "keyed T \<longleftrightarrow> (\<forall>k a. map_of T k = Some a \<longrightarrow> ap_id a = k)"

lemma table_le_refl [simp]: "table_le T T"
  by (auto simp: table_le_def)

lemma table_le_trans: "table_le T U \<Longrightarrow> table_le U V \<Longrightarrow> table_le T V"
  unfolding table_le_def by (meson lifecycle_trans)

lemma table_le_put:
  "map_of T (ap_id b) = None \<or> (\<exists>a. map_of T (ap_id b) = Some a \<and> lifecycle_le a b) \<Longrightarrow>
     table_le T (al_put (ap_id b) b T)"
  by (auto simp: table_le_def)

lemma keyed_put: "keyed T \<Longrightarrow> keyed (al_put (ap_id b) b T)"
  by (auto simp: keyed_def)

lemma commit_table_cases:
  "commit_table commit U (T, w) = (x, (T', w')) \<Longrightarrow> T' \<in> {T, U} \<and> (x = Inr () \<longrightarrow> T' = U)"
  by (auto simp: commit_table_def split: prod.splits commit_outcome.splits)

lemma save_cases:
  "save commit a (T, w) = (x, (T', w')) \<Longrightarrow>
     T' \<in> {T, al_put (ap_id a) a T} \<and> (x = Inr () \<longrightarrow> T' = al_put (ap_id a) a T)"
  unfolding save_def by (drule commit_table_cases) simp

lemma with_approval_cases:
  assumes "with_approval reading k f (T, w) = (x, (T', w'))"
  shows "(T' = T \<and> (\<exists>e. x = Inl e)) \<or> (\<exists>w1. f (map_of T k) (T, w1) = (x, (T', w')))"
  using assms by (auto simp: with_approval_def bind_io_def split: prod.splits sum.splits)

lemma redeem_cases:
  assumes "approval_redeem reading commit now k i s t h (T, w) = (x, (T', w'))"
  shows "(T' = T \<and> x \<noteq> Inr None) \<or>
    (\<exists>a. map_of T k = Some a \<and> ap_status a = Pending \<and> x \<noteq> Inr None \<and>
       T' = al_put (ap_id a) (a\<lparr>ap_status := Expired\<rparr>) T) \<or>
    (\<exists>a. map_of T k = Some a \<and> \<not> ap_consumed a \<and> \<not> expired_at now a \<and> ap_status a = Approved \<and>
       redeem_denial a i s t h = None \<and>
       (T' = T \<and> x \<noteq> Inr None \<or> T' = al_put (ap_id a) (a\<lparr>ap_consumed := True\<rparr>) T))"
proof -
  have save: "bind_io (save commit b) (\<lambda>_. ret_io y) (T, w1) = (x, (T', w')) \<Longrightarrow>
      (T' = T \<and> (\<exists>e. x = Inl e)) \<or> (T' = al_put (ap_id b) b T \<and> ((\<exists>e. x = Inl e) \<or> x = Inr y))" for b y w1
    by (auto simp: bind_io_def split: prod.splits sum.splits dest: save_cases)
  from with_approval_cases [OF assms [unfolded approval_redeem_def]]
  consider "T' = T" "\<exists>e. x = Inl e"
    | w1 where "map_of T k = None" "T' = T" "x \<noteq> Inr None"
    | a w1 where "map_of T k = Some a"
        "(if ap_consumed a then ret_io (Some (EV_DENY_REPLAY, ''approval has already been used''))
           else if expired_at now a
           then bind_io (if ap_status a = Pending then save commit (a\<lparr>ap_status := Expired\<rparr>) else ret_io ())
                  (\<lambda>_. ret_io (Some (EV_EXPIRED, ''approval has expired'')))
           else (case redeem_denial a i s t h of
                   Some d \<Rightarrow> ret_io (Some d)
                 | None \<Rightarrow>
                     bind_io (save commit (a\<lparr>ap_consumed := True\<rparr>)) (\<lambda>_. ret_io None))) (T, w1) =
          (x, (T', w'))"
    by (cases "map_of T k") auto
  then show ?thesis
  proof cases
    case 3
    then show ?thesis
      by (auto split: if_splits option.splits dest!: save simp: redeem_denial_def bind_io_def [of "ret_io ()"])
  qed auto
qed

lemma logged_save_cases:
  assumes "bind_io (outer (awrite e)) (\<lambda>y. bind_io (save commit b) (\<lambda>_. of_res (f y))) (T, w) = (x, (T', w'))"
  shows "T' \<in> {T, al_put (ap_id b) b T}"
  using assms by (auto simp: bind_io_def split: prod.splits sum.splits dest!: save_cases)

text \<open>The table with one approval moved along its lifecycle.\<close>

definition moved :: "approvals \<Rightarrow> string \<Rightarrow> approvals \<Rightarrow> bool" where
  "moved T k U \<longleftrightarrow> (\<exists>a b. map_of T k = Some a \<and> lifecycle_le a b \<and> U = al_put (ap_id b) b T)"

lemma movedI: "map_of T k = Some a \<Longrightarrow> lifecycle_le a b \<Longrightarrow> ap_id b = n \<Longrightarrow> moved T k (al_put n b T)"
  by (auto simp: moved_def)

lemma moved_table: "keyed T \<Longrightarrow> moved T k U \<Longrightarrow> table_le T U \<and> keyed U"
  unfolding moved_def
proof (elim exE conjE)
  fix a b
  assume k: "keyed T" "map_of T k = Some a" "lifecycle_le a b" and U: "U = al_put (ap_id b) b T"
  then have "ap_id b = k" by (simp add: keyed_def lifecycle_le_def)
  with k show ?thesis unfolding U by (intro conjI table_le_put keyed_put) auto
qed

lemma approve_cases:
  assumes "approval_approve reading commit awrite now k by_whom (T, w) = (x, (T', w'))"
  shows "T' = T \<or> moved T k T'"
proof -
  have raise: "raise_io e = of_res (Inl e)" and ret: "ret_io y = of_res (Inr y)"
    for e and y :: "int \<times> string \<times> string \<times> string"
    by (auto simp: fun_eq_iff)
  from with_approval_cases [OF assms [unfolded approval_approve_def]] show ?thesis
  proof
    assume "\<exists>w1. (case map_of T k of
         None \<Rightarrow> raise_io (LookupError ''unknown approval id'')
       | Some a \<Rightarrow>
           if ap_status a = Pending \<and> expired_at now a
           then bind_io (outer (awrite (expired_entry a))) (\<lambda>_.
                bind_io (save commit (a\<lparr>ap_status := Expired\<rparr>)) (\<lambda>_.
                  raise_io (LookupError ''approval has expired'')))
           else if ap_status a \<noteq> Pending
           then raise_io (LookupError (''approval is '' @ status_value (ap_status a) @ '', not pending''))
           else bind_io (outer (awrite (approved_entry by_whom a))) (\<lambda>seq.
                bind_io (save commit (a\<lparr>ap_status := Approved, ap_approved_by := Some by_whom\<rparr>)) (\<lambda>_.
                  ret_io (seq, ap_identity a, ap_server a, ap_tool a)))) (T, w1) = (x, (T', w'))"
    then show ?thesis
      unfolding raise ret
      by (auto simp: lifecycle_le_def split: option.splits if_splits dest!: logged_save_cases
          intro: movedI)
  qed blast
qed

lemma create_cases:
  assumes "approval_create commit ttl now k i s t h n (T, w) = (x, (T', w'))"
  shows "T' = T \<or> (map_of T k = None \<and> T' = al_put k (new_approval ttl now k i s t h n) T)"
proof -
  have "ap_id (new_approval ttl now k i s t h n) = k" by (simp add: new_approval_def)
  then show ?thesis
    using assms by (auto simp: approval_create_def bind_io_def split: prod.splits sum.splits if_splits
        dest!: save_cases)
qed

text \<open>The rows of the stale-approval sweep, each as it was or expired.\<close>

lemma expire_rows_map:
  assumes "expire_rows awrite now T w = (Inr U, w')"
  shows "U = map (\<lambda>(k, a). (k, if ap_status a = Pending \<and> expired_at now a
    then a\<lparr>ap_status := Expired\<rparr> else a)) T"
  using assms
  by (induction T arbitrary: w U w')
    (auto elim!: bind_io_InrE split: if_splits)

lemma expire_map_table:
  "map_of (map (\<lambda>(k, a). (k, f a)) T) k = map_option f (map_of T k)"
  by (induction T) auto

lemma expire_stale_cases:
  assumes "expire_stale reading commit awrite now (T, w) = (x, (T', w'))"
  shows "table_le T T' \<and> (keyed T \<longrightarrow> keyed T')"
proof -
  let ?f = "\<lambda>a. if ap_status a = Pending \<and> expired_at now a then a\<lparr>ap_status := Expired\<rparr> else a"
  have le: "table_le T (map (\<lambda>(k, a). (k, ?f a)) T)"
    by (auto simp: table_le_def expire_map_table lifecycle_le_def)
  have key: "keyed T \<Longrightarrow> keyed (map (\<lambda>(k, a). (k, ?f a)) T)"
    by (auto simp: keyed_def expire_map_table)
  from assms have "T' = T \<or> T' = map (\<lambda>(k, a). (k, ?f a)) T"
    by (auto simp: expire_stale_def bind_io_def split: prod.splits sum.splits
        dest!: commit_table_cases expire_rows_map)
  then show ?thesis using le key by auto
qed

section \<open>Runs of operations\<close>

inductive approval_run ::
  "('w, unit) io \<Rightarrow> 'w committer \<Rightarrow> (audit_entry \<Rightarrow> ('w, int) io) \<Rightarrow>
     approvals \<times> 'w \<Rightarrow> approvals \<times> 'w \<Rightarrow> bool"
  for reading commit awrite p where
  stop: "approval_run reading commit awrite p p"
| creates: "approval_run reading commit awrite p q \<Longrightarrow>
    approval_create commit ttl now k i s t h n q = (x1, q') \<Longrightarrow> approval_run reading commit awrite p q'"
| approves: "approval_run reading commit awrite p q \<Longrightarrow>
    approval_approve reading commit awrite now k admin q = (x2, q') \<Longrightarrow> approval_run reading commit awrite p q'"
| redeems: "approval_run reading commit awrite p q \<Longrightarrow>
    approval_redeem reading commit now k i s t h q = (x3, q') \<Longrightarrow> approval_run reading commit awrite p q'"
| sweeps: "approval_run reading commit awrite p q \<Longrightarrow>
    expire_stale reading commit awrite now q = (x4, q') \<Longrightarrow> approval_run reading commit awrite p q'"
| others: "approval_run reading commit awrite p q \<Longrightarrow> fst q' = fst q \<Longrightarrow> approval_run reading commit awrite p q'"

lemma redeem_table:
  assumes "approval_redeem reading commit now k i s t h (T, w) = (x, (T', w'))" and "keyed T"
  shows "table_le T T' \<and> keyed T'"
proof -
  from redeem_cases [OF assms(1)]
  have "T' = T \<or> moved T k T'" by (auto simp: lifecycle_le_def intro!: movedI)
  then show ?thesis using assms(2) moved_table by auto
qed

lemma run_table:
  assumes "approval_run reading commit awrite p q" and "keyed (fst p)"
  shows "table_le (fst p) (fst q) \<and> keyed (fst q)"
  using assms
proof (induction rule: approval_run.induct)
  case (creates q ttl now k i s t h n x q')
  then show ?case
    using create_cases [of commit ttl now k i s t h n "fst q" "snd q" x "fst q'" "snd q'"]
      table_le_put [of "fst q" "new_approval ttl now k i s t h n"]
      keyed_put [of "fst q" "new_approval ttl now k i s t h n"]
    by (auto simp: new_approval_def intro: table_le_trans)
next
  case (approves q now k admin x q')
  then show ?case
    using approve_cases [of reading commit awrite now k admin "fst q" "snd q" x "fst q'" "snd q'"]
    by (auto intro: table_le_trans dest: moved_table)
next
  case (redeems q now k i s t h x q')
  then show ?case
    using redeem_table [of reading commit now k i s t h "fst q" "snd q" x "fst q'" "snd q'"]
    by (auto intro: table_le_trans)
next
  case (sweeps q now x q')
  then show ?case
    using expire_stale_cases [of reading commit awrite now "fst q" "snd q" x "fst q'" "snd q'"]
    by (auto intro: table_le_trans)
qed auto

section \<open>Properties\<close>

text \<open>
  C4: An approval is redeemed at most once, and only by the call it was granted for. A
  successful redemption finds it granted, unexpired and unconsumed, with the same
  identity, server, tool and argument hash; afterwards no redemption of the same id
  succeeds, whatever operations run in between and however their commits and audit
  writes end.
\<close>

theorem approval_redeemed_once:
  assumes "keyed T"
    and "approval_redeem reading commit now k i s t h (T, w) = (Inr None, (T1, w1))"
    and "approval_run reading commit awrite (T1, w1) (T2, w2)"
  shows "fst (approval_redeem reading commit now' k i' s' t' h' (T2, w2)) \<noteq> Inr None \<and>
    (\<exists>a. map_of T k = Some a \<and> ap_status a = Approved \<and> \<not> ap_consumed a \<and> now \<le> ap_expires a \<and>
       ap_identity a = i \<and> ap_server a = s \<and> ap_tool a = t \<and> ap_args_hash a = h)"
proof -
  from redeem_cases [OF assms(2)] obtain a where a: "map_of T k = Some a" "\<not> ap_consumed a"
    "\<not> expired_at now a" "ap_status a = Approved" "redeem_denial a i s t h = None"
    and T1: "T1 = al_put (ap_id a) (a\<lparr>ap_consumed := True\<rparr>) T" by auto
  from assms(1) a(1) have id: "ap_id a = k" by (simp add: keyed_def)
  have keyed1: "keyed T1"
    unfolding T1 using keyed_put [OF assms(1), of "a\<lparr>ap_consumed := True\<rparr>"] by simp
  from run_table [OF assms(3)] keyed1 have le: "table_le T1 T2" by simp
  have "map_of T1 k = Some (a\<lparr>ap_consumed := True\<rparr>)" by (simp add: T1 id)
  with le obtain b where "map_of T2 k = Some b" and "ap_consumed b"
    by (fastforce simp: table_le_def lifecycle_le_def)
  then have "fst (approval_redeem reading commit now' k i' s' t' h' (T2, w2)) \<noteq> Inr None"
    using redeem_cases [of reading commit now' k i' s' t' h' T2 w2] by (cases "approval_redeem reading commit now' k i' s' t' h' (T2, w2)") fastforce
  with a show ?thesis
    by (auto simp: redeem_denial_def expired_at_def split: if_splits)
qed

definition granted :: approval where
  "granted = (new_approval 900 0 ''a1'' ''alice'' ''files'' ''rm'' ''h'' 7)\<lparr>ap_status := Approved,
     ap_approved_by := Some ''bob''\<rparr>"

theorem approval_redeemed_once_witness:
  "fst (approval_redeem (ret_io ()) (Pair Committed) 20 ''a1'' ''alice'' ''files'' ''rm'' ''h''
     ([(''a1'', granted\<lparr>ap_consumed := True\<rparr>)], ())) \<noteq> Inr None"
proof -
  have k: "keyed [(''a1'', granted)]" by (simp add: keyed_def granted_def new_approval_def)
  have r: "approval_redeem (ret_io ()) (Pair Committed) 10 ''a1'' ''alice'' ''files'' ''rm'' ''h''
      ([(''a1'', granted)], ()) = (Inr None, ([(''a1'', granted\<lparr>ap_consumed := True\<rparr>)], ()))"
    by (simp add: approval_redeem_def with_approval_def bind_io_def granted_def new_approval_def
        expired_at_def redeem_denial_def save_def commit_table_def)
  show ?thesis
    by (rule approval_redeemed_once [OF k r approval_run.stop, THEN conjunct1])
qed

text \<open>
  C40: The record of a human approval does not verify. The payload of an APPROVED row
  carries the requester under the name of a protected field, while the row's identity
  column holds the approver; whenever the two differ, the verifier rejects the row the
  writer stored, under any keys, and stops there.
\<close>

theorem human_approval_row_rejected:
  assumes "ap_identity a \<noteq> admin" and "CHR 0x00 \<notin> set (ap_identity a)"
  shows "verify_record E load legacy (new_row sign now A version (approved_entry admin a) prev h) prev
    \<noteq> Inr h'"
proof
  let ?w = "approved_entry admin a"
  assume "verify_record E load legacy (new_row sign now A version ?w prev h) prev = Inr h'"
  then have "dget (entry_payload A version ?w) ''identity_id'' = JStr admin"
    by (auto dest!: verify_record_Inr simp: new_row_def approved_entry_def lifecycle_entry_def)
  moreover have "dget (entry_payload A version ?w) ''identity_id'' = JStr (ap_identity a)"
    using assms(2) safe_dict_field [of "''identity_id''" "merged (payload_fields EV_APPROVED admin
        (Some (ap_server a)) (Some (ap_tool a)) version (aw_key_id A)) (w_extra ?w)"]
    by (simp add: entry_payload_def audit_payload_def dget_def plain_key_def approved_entry_def
        lifecycle_entry_def approval_id_extra_def merged_def payload_fields_def escape_nul_id)
  ultimately show False using assms(1) by simp
qed

theorem human_approval_row_rejected_witness:
  "verify_record plain_env (\<lambda>_. Inr ''pub'') None
     (new_row (\<lambda>_ _. ''s'') 0 first_writer 1 (approved_entry ''bob'' granted) genesis_hash ''x'') genesis_hash
     \<noteq> Inr ''x''"
  by (rule human_approval_row_rejected) (simp_all add: granted_def new_approval_def)

end
