(* ===== verification/DriftDetector.thy ===== *)
theory DriftDetector
  imports Approvals SchemaTools PyText
begin

text \<open>
  \<open>services/gateway/drift_detector.py\<close> and the \<open>ToolBaseline\<close> table of \<open>db.py\<close>: the
  severity of a schema change, the description heuristics, and the check of an observed
  tool list against the approved baselines. The table is explicit state; the audit
  writer, commits and queries are parameters.
\<close>

section \<open>Severities\<close>

datatype severity = SevLow | SevMedium | SevHigh | SevCritical

fun severity_rank :: "severity \<Rightarrow> nat" where
  "severity_rank SevLow = 1"
| "severity_rank SevMedium = 2"
| "severity_rank SevHigh = 3"
| "severity_rank SevCritical = 4"

lemma severity_rank_inj: "severity_rank a = severity_rank b \<longleftrightarrow> a = b"
  by (cases a; cases b) simp_all

instantiation severity :: linorder
begin

definition less_eq_severity :: "severity \<Rightarrow> severity \<Rightarrow> bool" where
  "a \<le> b \<longleftrightarrow> severity_rank a \<le> severity_rank b"

definition less_severity :: "severity \<Rightarrow> severity \<Rightarrow> bool" where
  "(a :: severity) < b \<longleftrightarrow> severity_rank a < severity_rank b"

instance
  by standard (auto simp: less_eq_severity_def less_severity_def severity_rank_inj)

end

fun severity_event :: "severity \<Rightarrow> event_type" where
  "severity_event SevLow = EV_DRIFT_LOW"
| "severity_event SevMedium = EV_DRIFT_MEDIUM"
| "severity_event SevHigh = EV_DRIFT_HIGH"
| "severity_event SevCritical = EV_DRIFT_CRITICAL"

fun severity_name :: "severity \<Rightarrow> string" where
  "severity_name SevLow = ''low''"
| "severity_name SevMedium = ''medium''"
| "severity_name SevHigh = ''high''"
| "severity_name SevCritical = ''critical''"

definition blocks :: "severity \<Rightarrow> bool" where
  "blocks s \<longleftrightarrow> s \<ge> SevHigh"

fun tier_severity :: "tier \<Rightarrow> severity" where
  "tier_severity TLow = SevLow"
| "tier_severity TMedium = SevMedium"
| "tier_severity THigh = SevHigh"
| "tier_severity TCritical = SevCritical"

text \<open>\<open>max(severities) if severities else None\<close>.\<close>

definition max_severity :: "severity list \<Rightarrow> severity option" where
  "max_severity ss = (case ss of [] \<Rightarrow> None | s # ss \<Rightarrow> Some (foldl max s ss))"

section \<open>Hashes\<close>

definition tool_hash :: "(json \<Rightarrow> string res) \<Rightarrow> (string \<Rightarrow> string) \<Rightarrow> jdict \<Rightarrow> string res" where
  "tool_hash canon sha256 tool = bind_res (canon (JObj tool)) (\<lambda>b. Inr (sha256 b))"

function strip_titles :: "json \<Rightarrow> json" where
  "strip_titles (JObj d) =
     JObj (map (\<lambda>p. (fst p, strip_titles (snd p))) (filter (\<lambda>p. fst p \<noteq> ''title'') d))"
| "strip_titles (JArr xs) = JArr (map strip_titles xs)"
| "strip_titles JNull = JNull"
| "strip_titles (JBool b) = JBool b"
| "strip_titles (JInt n) = JInt n"
| "strip_titles (JFloat x) = JFloat x"
| "strip_titles (JStr s) = JStr s"
  by pat_completeness auto
termination
  by (relation "measure size") (auto dest: size_snd_less' size_arr_less)

definition shape_hash :: "(json \<Rightarrow> string res) \<Rightarrow> (string \<Rightarrow> string) \<Rightarrow> jdict \<Rightarrow> string res" where
  "shape_hash canon sha256 tool =
     tool_hash canon sha256
       (map (\<lambda>p. (fst p, strip_titles (snd p))) (filter (\<lambda>p. fst p \<noteq> ''name'') tool))"

section \<open>Classification\<close>

text \<open>\<open>set(values)\<close>: a list or dict among the values raises.\<close>

definition hash_all :: "json list \<Rightarrow> json list res" where
  "hash_all vs = (if list_all hashable vs then Inr vs else Inl TypeError)"

text \<open>The \<open>required\<close> entries of both sides, and the severity of an odd value.\<close>

definition required_sets :: "jdict \<Rightarrow> jdict \<Rightarrow> (json list \<times> json list \<times> severity list) res" where
  "required_sets old new =
     (let o_req = py_or (dget old ''required'') (JArr []); n_req = py_or (dget new ''required'') (JArr [])
      in case (o_req, n_req) of
           (JArr os, JArr ns) \<Rightarrow>
             bind_res (hash_all os) (\<lambda>os. bind_res (hash_all ns) (\<lambda>ns. Inr (os, ns, [])))
         | _ \<Rightarrow> Inr ([], [], if \<not> py_eq o_req n_req then [SevHigh] else []))"

text \<open>\<open>old_required ^ new_required\<close>.\<close>

definition sym_diff :: "json list \<Rightarrow> json list \<Rightarrow> json list" where
  "sym_diff os ns = filter (\<lambda>v. \<not> py_in v ns) os @ filter (\<lambda>v. \<not> py_in v os) ns"

definition property_severities :: "jdict \<Rightarrow> jdict \<Rightarrow> json list \<Rightarrow> json list \<Rightarrow> severity list" where
  "property_severities ops nps o_req n_req =
     (let added = filter (\<lambda>k. \<not> has_key ops k) (map fst nps);
          removed = filter (\<lambda>k. \<not> has_key nps k) (map fst ops);
          shared = filter (has_key nps) (map fst ops);
          changed = sym_diff o_req n_req
      in map (\<lambda>k. if py_in (JStr k) n_req then SevCritical else SevMedium) added @
         (if removed \<noteq> [] then [SevHigh] else []) @
         (if list_ex (\<lambda>k. py_in (JStr k) changed) shared then [SevCritical] else []) @
         (if list_ex (\<lambda>v. \<not> py_in v (map JStr (added @ removed @ shared))) changed
          then [SevHigh] else []))"

definition node_severities :: "jdict \<Rightarrow> jdict \<Rightarrow> severity list" where
  "node_severities old new =
     (if \<not> py_eq (dget old ''type'') (dget new ''type'') then [SevCritical] else []) @
     (if \<not> py_eq (dget old ''description'') (dget new ''description'') then [SevLow] else [])"

definition other_fields_differ :: "string list \<Rightarrow> jdict \<Rightarrow> jdict \<Rightarrow> bool" where
  "other_fields_differ handled old new \<longleftrightarrow>
     \<not> py_eq (JObj (without_keys handled old)) (JObj (without_keys handled new))"

definition schema_fields :: "string list" where
  "schema_fields = [''type'', ''description'', ''properties'', ''required'', ''items'']"

fun somes :: "'a option list \<Rightarrow> 'a list" where
  "somes [] = []"
| "somes (None # xs) = somes xs"
| "somes (Some x # xs) = x # somes xs"

text \<open>\<open>v or {}\<close> as a dict, where it is one.\<close>

definition dict_or_empty :: "json \<Rightarrow> jdict option" where
  "dict_or_empty v = (case py_or v (JObj []) of JObj d \<Rightarrow> Some d | _ \<Rightarrow> None)"

lemma dget_size: "dget d k = v \<Longrightarrow> v \<noteq> JNull \<Longrightarrow> size v < size (JObj d)"
  by (auto simp: dget_def dest: size_map_of_less split: option.splits)

lemma dict_or_empty_size:
  "dict_or_empty (dget d k) = Some e \<Longrightarrow> p \<in> set e \<Longrightarrow> size (snd p) < size (JObj d)"
  by (auto simp: dict_or_empty_def py_or_def split: json.splits if_splits dest!: size_snd_less' dget_size)

definition worst_severity :: "jdict \<Rightarrow> jdict \<Rightarrow> severity list \<Rightarrow> severity list \<Rightarrow> severity list \<Rightarrow> severity option"
  where
  "worst_severity old new odd_required props items =
     max_severity
       (node_severities old new @ odd_required @ props @ items @
        (if other_fields_differ schema_fields old new then [SevHigh] else []))"

lemma nested_size:
  "Some e = dict_or_empty (dget d k) \<Longrightarrow> p \<in> set e \<Longrightarrow>
     size (snd p) < Suc (size_list (size_prod (\<lambda>x. 0) size) d)"
  using dict_or_empty_size [of d k e p] by simp

lemma dget_dict_size:
  "JObj v = dget d k \<Longrightarrow> size (dget d k) < Suc (size_list (size_prod (\<lambda>x. 0) size) d)"
  using dget_size [of d k "JObj v"] by (cases "dget d k") auto

function classify_schema :: "json \<Rightarrow> json \<Rightarrow> severity option res" where
  "classify_schema old new =
     (if py_eq old new then Inr None
      else case (old, new) of
        (JObj o_d, JObj n_d) \<Rightarrow>
          bind_res (required_sets o_d n_d) (\<lambda>(o_req, n_req, odd_required).
          bind_res
            (case (dict_or_empty (dget o_d ''properties''), dict_or_empty (dget n_d ''properties'')) of
               (Some ops, Some nps) \<Rightarrow>
                 bind_res
                   (collect_res (map (\<lambda>p. case map_of nps (fst p) of
                                            None \<Rightarrow> Inr None
                                          | Some w \<Rightarrow> classify_schema (snd p) w) ops))
                   (\<lambda>nested. Inr (property_severities ops nps o_req n_req @ somes nested))
             | _ \<Rightarrow>
                 Inr (if \<not> py_eq (py_or (dget o_d ''properties'') (JObj []))
                          (py_or (dget n_d ''properties'') (JObj [])) then [SevHigh] else []))
            (\<lambda>props.
          bind_res
            (case (dget o_d ''items'', dget n_d ''items'') of
               (JObj oi, JObj ni) \<Rightarrow>
                 bind_res (classify_schema (JObj oi) (JObj ni)) (\<lambda>s. Inr (somes [s]))
             | (oi, ni) \<Rightarrow> Inr (if \<not> py_eq oi ni then [SevHigh] else []))
            (\<lambda>items.
               Inr (worst_severity o_d n_d odd_required props items))))
      | _ \<Rightarrow> Inr (Some SevHigh))"
  by pat_completeness auto
termination
proof (relation "measure (\<lambda>(old, new). size old)", goal_cases)
  case 1
  then show ?case by simp
next
  case (2 old new)
  then show ?case by (auto intro: nested_size)
next
  case (3 old new)
  then show ?case by (auto intro: dget_dict_size)
qed

declare classify_schema.simps [simp del]

definition tool_fields :: "string list" where
  "tool_fields = [''description'', ''inputSchema'']"

definition classify ::
  "settings \<Rightarrow> (json \<Rightarrow> string res) \<Rightarrow> (string \<Rightarrow> string) \<Rightarrow> jdict \<Rightarrow> jdict \<Rightarrow> severity option res" where
  "classify S canon sha256 old new =
     bind_res
       (classify_schema (py_or (dget old ''inputSchema'') (JObj [])) (py_or (dget new ''inputSchema'') (JObj [])))
       (\<lambda>schema.
          (let severities =
             (if \<not> py_eq (dget old ''description'') (dget new ''description'')
              then [tier_severity (drift_description_severity S)] else []) @
             somes [schema] @
             (if other_fields_differ tool_fields old new then [SevHigh] else [])
           in if severities \<noteq> [] then Inr (max_severity severities)
              else bind_res (tool_hash canon sha256 old) (\<lambda>a.
                   bind_res (tool_hash canon sha256 new) (\<lambda>b.
                     Inr (if a \<noteq> b then Some SevHigh else None)))))"

section \<open>Description heuristics\<close>

definition any_char :: regex where
  "any_char = Cls (\<lambda>_. True)"

definition iword :: "string \<Rightarrow> regex" where
  "iword s = rseqs [WordB, ilits s, WordB]"

definition override_re :: regex where
  "override_re =
     rseqs [WordB, ralts [ilits ''ignore'', ilits ''disregard'', ilits ''forget''], WordB,
            RRep 0 (Some 40) any_char,
            WordB, ralts [ilits ''previous'', ilits ''prior'', ilits ''above'', ilits ''all''], WordB,
            RRep 0 (Some 40) any_char, iword ''instructions'']"

definition imperative_re :: regex where
  "imperative_re =
     ralts [iword ''you are now'', iword ''system prompt'',
            rseqs [WordB, ilits ''do not '', ralts [ilits ''tell'', ilits ''reveal'', ilits ''mention''], WordB]]"

text \<open>The characters of this class all lie above code point 255.\<close>

definition hidden_re :: regex where
  "hidden_re = Cls (\<lambda>_. False)"

definition base64_char :: "char \<Rightarrow> bool" where
  "base64_char c \<longleftrightarrow>
     (let n = (of_char c :: nat)
      in (65 \<le> n \<and> n \<le> 90) \<or> (97 \<le> n \<and> n \<le> 122) \<or> (48 \<le> n \<and> n \<le> 57) \<or> n = 43 \<or> n = 47)"

definition blob_re :: regex where
  "blob_re =
     rseqs [WordB, RRep 80 None (Cls base64_char), RRep 0 (Some 2) (lit CHR ''=''), WordB]"

definition suspicious_patterns :: "(regex \<times> string) list" where
  "suspicious_patterns =
     [(override_re, ''instruction-override phrasing''),
      (imperative_re, ''imperative text aimed at a model''),
      (hidden_re, ''hidden/zero-width or bidi-control unicode''),
      (blob_re, ''long base64-looking blob (possible encoded payload)'')]"

text \<open>The descriptions inside a schema, with their paths, in the order of the walk.\<close>

fun own_description :: "jdict \<Rightarrow> string \<Rightarrow> (string \<times> string) list" where
  "own_description d path =
     (case dget d ''description'' of JStr t \<Rightarrow> [(path, t)] | _ \<Rightarrow> [])"

fun texts :: "json \<Rightarrow> string \<Rightarrow> (string \<times> string) list"
  and texts_items :: "(string \<times> json) list \<Rightarrow> string \<Rightarrow> (string \<times> string) list"
  and texts_list :: "json list \<Rightarrow> nat \<Rightarrow> string \<Rightarrow> (string \<times> string) list" where
  "texts (JObj d) path = own_description d (path @ ''.description'') @ texts_items d path"
| "texts (JArr xs) path = texts_list xs 0 path"
| "texts _ path = []"
| "texts_items [] path = []"
| "texts_items ((k, v) # d) path =
     (if k \<noteq> ''description'' then texts v (path @ ''.'' @ k) else []) @ texts_items d path"
| "texts_list [] i path = []"
| "texts_list (v # vs) i path =
     texts v (path @ ''['' @ nat_str i @ '']'') @ texts_list vs (Suc i) path"

definition description_texts :: "jdict \<Rightarrow> (string \<times> string) list" where
  "description_texts tool =
     own_description tool ''description'' @ texts (dget tool ''inputSchema'') ''inputSchema''"

definition scan_descriptions :: "jdict \<Rightarrow> string list" where
  "scan_descriptions tool =
     concat (map (\<lambda>(path, text).
       map (\<lambda>(pattern, label). label @ '' in '' @ path)
         (filter (\<lambda>(pattern, label). re_search pattern text) suspicious_patterns))
       (description_texts tool))"

section \<open>The baseline table\<close>

definition removed_sentinel :: string where
  "removed_sentinel = replicate 64 (CHR ''-'')"

record baseline =
  bl_server :: string
  bl_tool :: string
  bl_approved_schema :: jdict
  bl_approved_hash :: string
  bl_blocked :: bool
  bl_observed_schema :: "jdict option"
  bl_observed_hash :: "string option"
  bl_suspicious :: bool
  bl_flagged_at :: "rat option"

type_synonym baselines = "((string \<times> string) \<times> baseline) list"

record drift_env =
  de_settings :: settings
  de_canon :: "json \<Rightarrow> string res"
  de_sha256 :: "string \<Rightarrow> string"
  de_float_str :: "pyfloat \<Rightarrow> string"
  de_now :: rat

abbreviation thash :: "drift_env \<Rightarrow> jdict \<Rightarrow> string res" where
  "thash D \<equiv> tool_hash (de_canon D) (de_sha256 D)"

abbreviation shash :: "drift_env \<Rightarrow> jdict \<Rightarrow> string res" where
  "shash D \<equiv> shape_hash (de_canon D) (de_sha256 D)"

text \<open>\<open>{str(tool.get("name")): tool for tool in tools}\<close>.\<close>

definition live_tools :: "(pyfloat \<Rightarrow> string) \<Rightarrow> json list \<Rightarrow> (string \<times> jdict) list res" where
  "live_tools fl tools =
     bind_res
       (collect_res (map (\<lambda>t. case t of JObj d \<Rightarrow> Inr (json_str fl (dget d ''name''), d)
                                       | _ \<Rightarrow> Inl AttributeError) tools))
       (\<lambda>kvs. Inr (dict_of kvs))"

definition server_baselines :: "string \<Rightarrow> baselines \<Rightarrow> (string \<times> baseline) list" where
  "server_baselines server_id T =
     map (\<lambda>p. (snd (fst p), snd p)) (filter (\<lambda>p. fst (fst p) = server_id) T)"

definition baseline_at :: "string \<Rightarrow> string \<Rightarrow> baselines \<Rightarrow> baseline option" where
  "baseline_at server_id tool T = map_of T (server_id, tool)"

section \<open>The check\<close>

text \<open>The session's pending changes: updated rows, new rows, rename sources.\<close>

record drift_work =
  dw_rows :: "(string \<times> baseline) list"
  dw_new :: "(string \<times> baseline) list"
  dw_renamed :: "string list"

definition put_row :: "baseline \<Rightarrow> drift_work \<Rightarrow> drift_work" where
  "put_row b W = W\<lparr>dw_rows := al_put (bl_tool b) b (dw_rows W)\<rparr>"

definition drift_entry :: "event_type \<Rightarrow> string \<Rightarrow> string \<Rightarrow> string \<Rightarrow> jdict \<Rightarrow> audit_entry" where
  "drift_entry event who server tool extra =
     \<lparr>w_event = event, w_identity = who, w_server = Some server, w_tool = Some tool,
      w_extra = extra, w_risk = None\<rparr>"

definition findings_extra :: "string list \<Rightarrow> jdict" where
  "findings_extra fs = [(''findings'', JArr (map JStr fs))]"

definition first_flagged :: "rat \<Rightarrow> baseline \<Rightarrow> rat option" where
  "first_flagged now b = (case bl_flagged_at b of None \<Rightarrow> Some now | Some t \<Rightarrow> Some t)"

text \<open>The first baselined tool, gone from the live list, with the same shape.\<close>

fun find_source ::
  "drift_env \<Rightarrow> (string \<times> jdict) list \<Rightarrow> jdict \<Rightarrow> (string \<times> baseline) list \<Rightarrow> baseline option res" where
  "find_source D seen tool [] = Inr None"
| "find_source D seen tool ((_, row) # rows) =
     (if map_of seen (bl_tool row) \<noteq> None then find_source D seen tool rows
      else bind_res (shash D (bl_approved_schema row)) (\<lambda>a.
           bind_res (shash D tool) (\<lambda>b.
             if a = b then Inr (Some row) else find_source D seen tool rows)))"

definition new_baseline :: "string \<Rightarrow> string \<Rightarrow> jdict \<Rightarrow> string \<Rightarrow> bool \<Rightarrow> rat \<Rightarrow> baseline" where
  "new_baseline server name tool live_hash flagged now =
     \<lparr>bl_server = server, bl_tool = name, bl_approved_schema = tool, bl_approved_hash = live_hash,
      bl_blocked = False, bl_observed_schema = None, bl_observed_hash = None,
      bl_suspicious = flagged, bl_flagged_at = (if flagged then Some now else None)\<rparr>"

definition renamed_baseline :: "string \<Rightarrow> string \<Rightarrow> jdict \<Rightarrow> string \<Rightarrow> bool \<Rightarrow> rat \<Rightarrow> baseline" where
  "renamed_baseline server name tool live_hash flagged now =
     \<lparr>bl_server = server, bl_tool = name, bl_approved_schema = tool, bl_approved_hash = live_hash,
      bl_blocked = True, bl_observed_schema = Some tool, bl_observed_hash = Some live_hash,
      bl_suspicious = flagged, bl_flagged_at = Some now\<rparr>"

definition add_new :: "string \<Rightarrow> baseline \<Rightarrow> drift_work \<Rightarrow> drift_work" where
  "add_new name b W = W\<lparr>dw_new := dw_new W @ [(name, b)]\<rparr>"

definition flag_findings ::
  "(audit_entry \<Rightarrow> ('w, int) io) \<Rightarrow> string \<Rightarrow> string \<Rightarrow> string \<Rightarrow> string list \<Rightarrow> ('w, unit) io" where
  "flag_findings awrite who server name findings =
     (if findings \<noteq> []
      then bind_io (awrite (drift_entry EV_BASELINE_FLAGGED who server name (findings_extra findings)))
             (\<lambda>_. ret_io ())
      else ret_io ())"

definition first_sighting ::
  "(audit_entry \<Rightarrow> ('w, int) io) \<Rightarrow> drift_env \<Rightarrow> string \<Rightarrow> string \<Rightarrow> jdict \<Rightarrow>
     (string \<times> jdict) list \<Rightarrow> string \<Rightarrow> drift_work \<Rightarrow> ('w, drift_work) io" where
  "first_sighting awrite D server name tool seen who W =
     bind_io (of_res (thash D tool)) (\<lambda>live_hash.
       (let findings = scan_descriptions tool
        in bind_io (flag_findings awrite who server name findings) (\<lambda>_.
           bind_io (of_res (find_source D seen tool (dw_rows W))) (\<lambda>source.
             case source of
               None \<Rightarrow>
                 ret_io (add_new name
                   (new_baseline server name tool live_hash (findings \<noteq> []) (de_now D)) W)
             | Some src \<Rightarrow>
                 bind_io
                   (awrite (drift_entry EV_DRIFT_CRITICAL who server name
                      [(''severity'', JStr ''critical''), (''renamed_from'', JStr (bl_tool src)),
                       (''observed_hash'', JStr live_hash), (''blocked'', JBool True)]))
                   (\<lambda>_. ret_io (add_new name
                      (renamed_baseline server name tool live_hash (findings \<noteq> []) (de_now D))
                      (W\<lparr>dw_renamed := bl_tool src # dw_renamed W\<rparr>)))))))"

text \<open>A tool seen with its approved hash again is taken back out of review.\<close>

definition reverted :: "baseline \<Rightarrow> baseline" where
  "reverted b =
     (if bl_observed_hash b \<noteq> None
      then b\<lparr>bl_observed_hash := None, bl_observed_schema := None, bl_blocked := False,
             bl_flagged_at := (if bl_suspicious b then bl_flagged_at b else None)\<rparr>
      else b)"

definition observed :: "rat \<Rightarrow> jdict \<Rightarrow> string \<Rightarrow> severity \<Rightarrow> baseline \<Rightarrow> baseline" where
  "observed now tool live_hash s b =
     b\<lparr>bl_observed_schema := Some tool, bl_observed_hash := Some live_hash,
       bl_flagged_at := first_flagged now b, bl_blocked := bl_blocked b \<or> blocks s\<rparr>"

definition drift_extra :: "severity \<Rightarrow> baseline \<Rightarrow> string \<Rightarrow> jdict" where
  "drift_extra s b live_hash =
     [(''severity'', JStr (severity_name s)), (''approved_hash'', JStr (bl_approved_hash b)),
      (''observed_hash'', JStr live_hash), (''blocked'', JBool (blocks s))]"

definition known_tool ::
  "(audit_entry \<Rightarrow> ('w, int) io) \<Rightarrow> drift_env \<Rightarrow> string \<Rightarrow> string \<Rightarrow> jdict \<Rightarrow> string \<Rightarrow> baseline \<Rightarrow>
     ('w, baseline) io" where
  "known_tool awrite D server name tool who b =
     bind_io (of_res (thash D tool)) (\<lambda>live_hash.
       if live_hash = bl_approved_hash b then ret_io (reverted b)
       else
         bind_io (of_res (classify (de_settings D) (de_canon D) (de_sha256 D) (bl_approved_schema b) tool))
           (\<lambda>sev.
             (let s = (case sev of None \<Rightarrow> SevHigh | Some s \<Rightarrow> s)
              in if Some live_hash = bl_observed_hash b \<and> (bl_blocked b \<or> \<not> blocks s) then ret_io b
                 else bind_io (awrite (drift_entry (severity_event s) who server name
                                 (drift_extra s b live_hash)))
                        (\<lambda>_. ret_io (observed (de_now D) tool live_hash s b)))))"

definition check_tool ::
  "(audit_entry \<Rightarrow> ('w, int) io) \<Rightarrow> drift_env \<Rightarrow> string \<Rightarrow> (string \<times> jdict) list \<Rightarrow> string \<Rightarrow>
     string \<Rightarrow> jdict \<Rightarrow> drift_work \<Rightarrow> ('w, drift_work) io" where
  "check_tool awrite D server seen who name tool W =
     (case map_of (dw_rows W) name of
        None \<Rightarrow> first_sighting awrite D server name tool seen who W
      | Some b \<Rightarrow>
          bind_io (known_tool awrite D server name tool who b) (\<lambda>b'.
            ret_io (W\<lparr>dw_rows := al_put name b' (dw_rows W)\<rparr>)))"

fun check_live ::
  "(audit_entry \<Rightarrow> ('w, int) io) \<Rightarrow> drift_env \<Rightarrow> string \<Rightarrow> (string \<times> jdict) list \<Rightarrow> string \<Rightarrow>
     (string \<times> jdict) list \<Rightarrow> drift_work \<Rightarrow> ('w, drift_work) io" where
  "check_live awrite D server seen who [] W = ret_io W"
| "check_live awrite D server seen who ((name, tool) # rest) W =
     bind_io (check_tool awrite D server seen who name tool W)
       (check_live awrite D server seen who rest)"

definition marked_removed :: "rat \<Rightarrow> baseline \<Rightarrow> baseline" where
  "marked_removed now b =
     b\<lparr>bl_observed_hash := Some removed_sentinel, bl_observed_schema := None,
       bl_flagged_at := first_flagged now b\<rparr>"

fun check_removed ::
  "(audit_entry \<Rightarrow> ('w, int) io) \<Rightarrow> rat \<Rightarrow> string \<Rightarrow> (string \<times> jdict) list \<Rightarrow> string list \<Rightarrow> string \<Rightarrow>
     (string \<times> baseline) list \<Rightarrow> ('w, (string \<times> baseline) list) io" where
  "check_removed awrite now server seen renamed who [] = ret_io []"
| "check_removed awrite now server seen renamed who ((name, b) # rows) =
     (if map_of seen name \<noteq> None \<or> name \<in> set renamed \<or> bl_observed_hash b = Some removed_sentinel
      then bind_io (check_removed awrite now server seen renamed who rows)
             (\<lambda>rows'. ret_io ((name, b) # rows'))
      else bind_io (awrite (drift_entry EV_DRIFT_MEDIUM who server name
                      [(''severity'', JStr ''medium''), (''removed'', JBool True)])) (\<lambda>_.
           bind_io (check_removed awrite now server seen renamed who rows)
             (\<lambda>rows'. ret_io ((name, marked_removed now b) # rows'))))"

text \<open>The table the commit writes: this server's rows updated, the new ones appended.\<close>

definition store_rows :: "string \<Rightarrow> (string \<times> baseline) list \<Rightarrow> (string \<times> baseline) list \<Rightarrow> baselines \<Rightarrow> baselines"
  where
  "store_rows server rows news T =
     foldl (\<lambda>T (name, b). al_put (server, name) b T) T (rows @ news)"

definition commit_baselines :: "'w committer \<Rightarrow> baselines \<Rightarrow> (baselines \<times> 'w, unit) io" where
  "commit_baselines commit T p =
     (case commit (snd p) of
        (Committed, w') \<Rightarrow> (Inr (), (T, w'))
      | (CommitFailed e, w') \<Rightarrow> (Inl e, (fst p, w'))
      | (CommitInDoubt e, w') \<Rightarrow> (Inl e, (T, w')))"

definition drift_check ::
  "('w, unit) io \<Rightarrow> 'w committer \<Rightarrow> (audit_entry \<Rightarrow> ('w, int) io) \<Rightarrow> drift_env \<Rightarrow>
     string \<Rightarrow> json list \<Rightarrow> string \<Rightarrow> (baselines \<times> 'w, unit) io" where
  "drift_check reading commit awrite D server_id tools who =
     bind_io (of_res (live_tools (de_float_str D) tools)) (\<lambda>seen.
     bind_io (outer reading) (\<lambda>_ p.
       bind_io (outer (check_live awrite D server_id seen who seen
                  \<lparr>dw_rows = server_baselines server_id (fst p), dw_new = [], dw_renamed = []\<rparr>)) (\<lambda>W.
       bind_io (outer (check_removed awrite (de_now D) server_id seen (dw_renamed W) who (dw_rows W)))
         (\<lambda>rows. commit_baselines commit (store_rows server_id rows (dw_new W) (fst p)))) p))"

section \<open>Queries and approval\<close>

definition has_pending_drift :: "('w, unit) io \<Rightarrow> string \<Rightarrow> string \<Rightarrow> (baselines \<times> 'w, bool) io" where
  "has_pending_drift reading server tool =
     bind_io (outer reading) (\<lambda>_ p.
       (Inr (case baseline_at server tool (fst p) of None \<Rightarrow> False | Some b \<Rightarrow> bl_observed_hash b \<noteq> None), p))"

definition is_blocked :: "('w, unit) io \<Rightarrow> string \<Rightarrow> string \<Rightarrow> (baselines \<times> 'w, bool) io" where
  "is_blocked reading server tool =
     bind_io (outer reading) (\<lambda>_ p.
       (Inr (case baseline_at server tool (fst p) of None \<Rightarrow> False | Some b \<Rightarrow> bl_blocked b), p))"

definition is_suspicious :: "('w, unit) io \<Rightarrow> string \<Rightarrow> string \<Rightarrow> (baselines \<times> 'w, bool) io" where
  "is_suspicious reading server tool =
     bind_io (outer reading) (\<lambda>_ p.
       (Inr (case baseline_at server tool (fst p) of None \<Rightarrow> False | Some b \<Rightarrow> bl_suspicious b), p))"

definition drift_rows :: "audit_row list \<Rightarrow> string \<Rightarrow> string \<Rightarrow> rat \<Rightarrow> audit_row list" where
  "drift_rows rows server tool since =
     filter (\<lambda>r. a_event_type r \<in> set (map (\<lambda>s. event_value (severity_event s))
                    [SevLow, SevMedium, SevHigh, SevCritical]) \<and>
                 a_server_id r = Some server \<and> a_tool_name r = Some tool \<and> a_timestamp r > since) rows"

definition recent_drift_count ::
  "('w, unit) io \<Rightarrow> rat \<Rightarrow> string \<Rightarrow> string \<Rightarrow> int \<Rightarrow> (audit_row list \<times> 'w, int) io" where
  "recent_drift_count reading now server tool window_seconds =
     bind_io (outer reading) (\<lambda>_ p.
       (Inr (int (length (drift_rows (fst p) server tool (now - of_int window_seconds)))), p))"

definition promoted :: "string \<Rightarrow> jdict \<Rightarrow> bool \<Rightarrow> baseline \<Rightarrow> baseline" where
  "promoted hash schema flagged b =
     b\<lparr>bl_approved_schema := schema, bl_approved_hash := hash, bl_observed_schema := None,
       bl_observed_hash := None, bl_blocked := False, bl_suspicious := flagged,
       bl_flagged_at := (if flagged then bl_flagged_at b else None)\<rparr>"

definition drift_approve ::
  "('w, unit) io \<Rightarrow> 'w committer \<Rightarrow> (audit_entry \<Rightarrow> ('w, int) io) \<Rightarrow> drift_env \<Rightarrow>
     string \<Rightarrow> string \<Rightarrow> string \<Rightarrow> (baselines \<times> 'w, int) io" where
  "drift_approve reading commit awrite D server tool approved_by =
     bind_io (outer reading) (\<lambda>_ p.
       (case Option.bind (baseline_at server tool (fst p))
               (\<lambda>b. map_option (\<lambda>schema. (b, schema)) (bl_observed_schema b)) of
          None \<Rightarrow> (Inl (LookupError ''no pending drift for this tool''), p)
        | Some (b, schema) \<Rightarrow>
            bind_io
              (of_res (if given (bl_observed_hash b) then Inr (the (bl_observed_hash b)) else thash D schema))
              (\<lambda>new_hash.
                (let findings = scan_descriptions schema
                 in bind_io (outer (flag_findings awrite approved_by server tool
                       (if bl_suspicious b then [] else findings))) (\<lambda>_.
                    bind_io (outer (awrite (drift_entry EV_APPROVED approved_by server tool
                       [(''old_hash'', JStr (bl_approved_hash b)), (''new_hash'', JStr new_hash)]))) (\<lambda>seq.
                    bind_io (commit_baselines commit
                       (al_put (server, tool) (promoted new_hash schema (findings \<noteq> []) b) (fst p)))
                      (\<lambda>_. ret_io seq))))) p))"

section \<open>Lemmas\<close>

subsection \<open>Severities\<close>

lemma bind_res_InrE:
  assumes "bind_res r f = Inr b"
  obtains a where "r = Inr a" and "f a = Inr b"
  using assms by (auto simp: bind_res_Inr_iff)

lemma foldl_max_ge:
  fixes m :: severity
  shows "m \<le> foldl max m ss \<and> (s \<in> set ss \<longrightarrow> s \<le> foldl max m ss)"
proof (induction ss arbitrary: m)
  case (Cons a ss)
  from Cons [of "max m a"] show ?case by (auto simp: max.bounded_iff)
qed simp

lemma max_severity_ge:
  assumes "s \<in> set ss"
  obtains m where "max_severity ss = Some m" and "s \<le> m"
  using assms foldl_max_ge by (cases ss) (auto simp: max_severity_def)

lemma max_severity_None: "max_severity ss = None \<longleftrightarrow> ss = []"
  by (cases ss) (auto simp: max_severity_def)

lemma critical_top: "s \<le> SevCritical"
  by (cases s) (simp_all add: less_eq_severity_def)

lemma max_severity_critical: "SevCritical \<in> set ss \<Longrightarrow> max_severity ss = Some SevCritical"
  by (metis critical_top max_severity_ge order_antisym)

lemma blocks_mono: "blocks s \<Longrightarrow> s \<le> t \<Longrightarrow> blocks t"
  unfolding blocks_def by (rule order_trans)

lemma classify_Inr:
  assumes "classify S canon sha256 old new = Inr r"
  shows "(\<not> py_eq (dget old ''description'') (dget new ''description'') \<longrightarrow>
      (\<exists>m. r = Some m \<and> tier_severity (drift_description_severity S) \<le> m)) \<and>
    (other_fields_differ tool_fields old new \<longrightarrow> (\<exists>m. r = Some m \<and> SevHigh \<le> m)) \<and>
    (\<forall>s. classify_schema (py_or (dget old ''inputSchema'') (JObj []))
           (py_or (dget new ''inputSchema'') (JObj [])) = Inr (Some s) \<longrightarrow> (\<exists>m. r = Some m \<and> s \<le> m)) \<and>
    (r = None \<longrightarrow> (\<exists>h. tool_hash canon sha256 old = Inr h \<and> tool_hash canon sha256 new = Inr h))"
proof -
  from assms obtain schema where
    sc: "classify_schema (py_or (dget old ''inputSchema'') (JObj []))
       (py_or (dget new ''inputSchema'') (JObj [])) = Inr schema"
    by (auto simp: classify_def bind_res_Inr_iff)
  let ?ss = "(if \<not> py_eq (dget old ''description'') (dget new ''description'')
              then [tier_severity (drift_description_severity S)] else []) @
             somes [schema] @ (if other_fields_differ tool_fields old new then [SevHigh] else [])"
  have r: "if ?ss \<noteq> [] then r = max_severity ?ss
      else \<exists>a b. tool_hash canon sha256 old = Inr a \<and> tool_hash canon sha256 new = Inr b \<and>
        r = (if a \<noteq> b then Some SevHigh else None)"
    using assms sc by (simp add: classify_def Let_def) (auto simp: bind_res_Inr_iff)
  have ge: "s \<in> set ?ss \<Longrightarrow> \<exists>m. r = Some m \<and> s \<le> m" for s
    using r max_severity_ge [of s ?ss] by (metis empty_iff empty_set)
  show ?thesis
  proof (intro conjI impI allI)
    assume "\<not> py_eq (dget old ''description'') (dget new ''description'')"
    then show "\<exists>m. r = Some m \<and> tier_severity (drift_description_severity S) \<le> m" by (intro ge) simp
  next
    assume "other_fields_differ tool_fields old new"
    then show "\<exists>m. r = Some m \<and> SevHigh \<le> m" by (intro ge) simp
  next
    fix s
    assume "classify_schema (py_or (dget old ''inputSchema'') (JObj []))
           (py_or (dget new ''inputSchema'') (JObj [])) = Inr (Some s)"
    with sc have "schema = Some s" by simp
    then show "\<exists>m. r = Some m \<and> s \<le> m" by (intro ge) simp
  next
    assume "r = None"
    with r have "?ss = []" by (metis max_severity_None)
    with r \<open>r = None\<close> show "\<exists>h. tool_hash canon sha256 old = Inr h \<and> tool_hash canon sha256 new = Inr h"
      by (auto split: if_splits)
  qed
qed

text \<open>A parameter that is new and required makes the change critical.\<close>

lemma classify_schema_required:
  assumes "\<not> py_eq (JObj o_d) (JObj n_d)"
    and "classify_schema (JObj o_d) (JObj n_d) = Inr r"
    and "dict_or_empty (dget o_d ''properties'') = Some ops"
    and "dict_or_empty (dget n_d ''properties'') = Some nps"
    and "py_or (dget o_d ''required'') (JArr []) = JArr os"
    and "py_or (dget n_d ''required'') (JArr []) = JArr ns"
    and "k \<in> fst ` set nps" and "\<not> has_key ops k" and "py_in (JStr k) ns"
  shows "r = Some SevCritical"
proof -
  have added: "SevCritical \<in> set (property_severities ops nps os ns)"
    using assms(7-9) by (force simp: property_severities_def Let_def)
  have worst: "worst_severity o_d n_d odd (property_severities ops nps os ns @ ss) items = Some SevCritical"
    for odd ss items
    using added by (auto simp: worst_severity_def intro: max_severity_critical)
  note eq = classify_schema.simps [of "JObj o_d" "JObj n_d"] required_sets_def hash_all_def
  show ?thesis
  proof (cases "list_all hashable os \<and> list_all hashable ns")
    case True
    with assms(2) show ?thesis
      using assms(1,3-6) by (simp add: eq) (elim bind_res_InrE, clarsimp simp: worst)
  next
    case False
    with assms(2) show ?thesis using assms(1,3-6) by (cases "list_all hashable os") (auto simp: eq)
  qed
qed

subsection \<open>The check\<close>

lemma known_tool_result:
  assumes "known_tool awrite D server name tool who b w = (Inr b', w')"
  shows "\<exists>h. thash D tool = Inr h \<and>
    (if h = bl_approved_hash b then b' = reverted b
     else \<exists>sev s. classify (de_settings D) (de_canon D) (de_sha256 D) (bl_approved_schema b) tool = Inr sev \<and>
       s = (case sev of None \<Rightarrow> SevHigh | Some s \<Rightarrow> s) \<and>
       (b' = b \<and> Some h = bl_observed_hash b \<and> (bl_blocked b \<or> \<not> blocks s) \<or>
        b' = observed (de_now D) tool h s b))"
proof (cases "thash D tool")
  case (Inl e)
  with assms show ?thesis by (simp add: known_tool_def bind_io_def)
next
  case h: (Inr h)
  show ?thesis
  proof (cases "h = bl_approved_hash b")
    case True
    with h assms show ?thesis by (simp add: known_tool_def bind_io_def)
  next
    case False
    with h assms obtain sev where
      sev: "classify (de_settings D) (de_canon D) (de_sha256 D) (bl_approved_schema b) tool = Inr sev"
      by (cases "classify (de_settings D) (de_canon D) (de_sha256 D) (bl_approved_schema b) tool")
        (simp_all add: known_tool_def bind_io_def)
    let ?s = "case sev of None \<Rightarrow> SevHigh | Some s \<Rightarrow> s"
    have "b' = b \<and> Some h = bl_observed_hash b \<and> (bl_blocked b \<or> \<not> blocks ?s) \<or>
        b' = observed (de_now D) tool h ?s b"
    proof (cases "Some h = bl_observed_hash b \<and> (bl_blocked b \<or> \<not> blocks ?s)")
      case True
      with h sev False assms show ?thesis by (simp add: known_tool_def bind_io_def Let_def)
    next
      case no: False
      have "bind_io (awrite (drift_entry (severity_event ?s) who server name (drift_extra ?s b h)))
          (\<lambda>_. ret_io (observed (de_now D) tool h ?s b)) w = (Inr b', w')"
        using assms h sev False no by (simp add: known_tool_def bind_io_def [of "of_res _"] Let_def)
      then show ?thesis by (auto elim!: bind_io_InrE)
    qed
    with h sev False show ?thesis by auto
  qed
qed

lemma check_tool_rows:
  assumes "check_tool awrite D server seen who name tool W w = (Inr W', w')"
  shows "map fst (dw_rows W') = map fst (dw_rows W) \<and>
    (\<forall>n. n \<noteq> name \<longrightarrow> map_of (dw_rows W') n = map_of (dw_rows W) n) \<and>
    (\<forall>b. map_of (dw_rows W) name = Some b \<longrightarrow>
       (\<exists>b' w1 w2. map_of (dw_rows W') name = Some b' \<and>
          known_tool awrite D server name tool who b w1 = (Inr b', w2)) \<and> dw_new W' = dw_new W) \<and>
    (map_of (dw_rows W) name = None \<longrightarrow> (\<exists>b. dw_new W' = dw_new W @ [(name, b)]))"
proof (cases "map_of (dw_rows W) name")
  case None
  with assms show ?thesis
    by (auto simp: check_tool_def first_sighting_def Let_def add_new_def elim!: bind_io_InrE
        split: option.splits)
next
  case (Some b)
  have keys: "map fst (al_put name c rows) = map fst rows" if "map_of rows name = Some b" for c rows
    using that by (induction name c rows rule: al_put.induct) (auto split: if_splits)
  from assms Some obtain b' w1 where "known_tool awrite D server name tool who b w = (Inr b', w1)"
    and "W' = W\<lparr>dw_rows := al_put name b' (dw_rows W)\<rparr>"
    by (auto simp: check_tool_def elim!: bind_io_InrE)
  with Some keys [OF Some] show ?thesis by (simp; blast)
qed

text \<open>What a pass over the live tools did to one row.\<close>

definition row_after ::
  "(audit_entry \<Rightarrow> ('w, int) io) \<Rightarrow> drift_env \<Rightarrow> string \<Rightarrow> string \<Rightarrow> (string \<times> jdict) list \<Rightarrow>
     string \<Rightarrow> baseline \<Rightarrow> (string \<times> baseline) list \<Rightarrow> bool" where
  "row_after awrite D server who tools n b rows' \<longleftrightarrow>
     (case map_of tools n of
        None \<Rightarrow> map_of rows' n = Some b
      | Some tool \<Rightarrow> \<exists>b' w1 w2. map_of rows' n = Some b' \<and>
          known_tool awrite D server n tool who b w1 = (Inr b', w2))"

lemma row_after_skip:
  "row_after awrite D server who tools n b rows' \<Longrightarrow> n \<noteq> name \<Longrightarrow>
     row_after awrite D server who ((name, tool) # tools) n b rows'"
  by (simp add: row_after_def)

lemma check_live_rows:
  assumes "check_live awrite D server seen who tools W w = (Inr W', w')" and "distinct (map fst tools)"
  shows "map fst (dw_rows W') = map fst (dw_rows W)"
    and "map_of (dw_rows W) n = Some b \<Longrightarrow> row_after awrite D server who tools n b (dw_rows W')"
    and "\<exists>news. dw_new W' = dw_new W @ news \<and> (\<forall>m \<in> fst ` set news. map_of (dw_rows W) m = None)"
  using assms
proof (induction tools arbitrary: W w b)
  case Nil
  {
    case 1
    then show ?case by simp
  next
    case 2
    then show ?case by (simp add: row_after_def)
  next
    case 3
    then show ?case by simp
  }
next
  case (Cons p tools)
  obtain name tool where p: "p = (name, tool)" by fastforce
  have split: "\<exists>W1 w1. check_tool awrite D server seen who name tool W w = (Inr W1, w1) \<and>
      check_live awrite D server seen who tools W1 w1 = (Inr W', w')"
    if "check_live awrite D server seen who (p # tools) W w = (Inr W', w')" for W w
    using that unfolding p by (auto elim!: bind_io_InrE)
  {
    case 1
    then have d: "distinct (map fst tools)" by simp
    from split [OF 1(1)] obtain W1 w1 where s1: "check_tool awrite D server seen who name tool W w = (Inr W1, w1)"
      and s2: "check_live awrite D server seen who tools W1 w1 = (Inr W', w')" by blast
    from Cons.IH(1) [OF s2 d] check_tool_rows [OF s1] show ?case by simp
  next
    case 2
    then have d: "distinct (map fst tools)" and nn: "map_of tools name = None"
      by (auto simp: p map_of_eq_None_iff)
    from split [OF 2(2)] obtain W1 w1 where s1: "check_tool awrite D server seen who name tool W w = (Inr W1, w1)"
      and s2: "check_live awrite D server seen who tools W1 w1 = (Inr W', w')" by blast
    show ?case
    proof (cases "n = name")
      case True
      with check_tool_rows [OF s1] 2(1) obtain b' w2 w3 where b': "map_of (dw_rows W1) n = Some b'"
        and k: "known_tool awrite D server name tool who b w2 = (Inr b', w3)" by blast
      from Cons.IH(2) [OF b' s2 d] nn True k show ?thesis by (auto simp: row_after_def p)
    next
      case False
      with check_tool_rows [OF s1] 2(1) have "map_of (dw_rows W1) n = Some b" by simp
      from Cons.IH(2) [OF this s2 d] False show ?thesis unfolding p by (rule row_after_skip)
    qed
  next
    case 3
    then have d: "distinct (map fst tools)" by simp
    from split [OF 3(1)] obtain W1 w1 where s1: "check_tool awrite D server seen who name tool W w = (Inr W1, w1)"
      and s2: "check_live awrite D server seen who tools W1 w1 = (Inr W', w')" by blast
    note c1 = check_tool_rows [OF s1]
    have keys: "map_of (dw_rows W1) m = None \<longleftrightarrow> map_of (dw_rows W) m = None" for m
      using c1 by (metis list.set_map map_of_eq_None_iff)
    from Cons.IH(3) [OF s2 d] obtain news where news: "dw_new W' = dw_new W1 @ news"
      and none: "\<forall>m \<in> fst ` set news. map_of (dw_rows W) m = None" by (auto simp: keys)
    show ?case
    proof (cases "map_of (dw_rows W) name")
      case None
      with c1 obtain b where "dw_new W1 = dw_new W @ [(name, b)]" by blast
      with news none None show ?thesis by (intro exI [where x = "(name, b) # news"]) simp
    next
      case (Some b)
      with c1 have "dw_new W1 = dw_new W" by blast
      with news none show ?thesis by auto
    qed
  }
qed

lemma check_removed_rows:
  assumes "check_removed awrite now server seen renamed who rows w = (Inr rows', w')"
  shows "map fst rows' = map fst rows \<and>
    (\<forall>n b. map_of rows n = Some b \<longrightarrow> map_of rows' n = Some b \<or>
       (map_of seen n = None \<and> map_of rows' n = Some (marked_removed now b)))"
  using assms
proof (induction rows arbitrary: w rows')
  case (Cons p rows)
  then show ?case
    by (cases p) (fastforce elim!: bind_io_InrE split: if_splits)
qed auto

lemma server_baselines_lookup: "map_of (server_baselines server T) n = map_of T (server, n)"
  by (induction T) (auto simp: server_baselines_def)

lemma server_baselines_distinct:
  "distinct (map fst T) \<Longrightarrow> distinct (map fst (server_baselines server T))"
  by (induction T) (force simp: server_baselines_def)+

lemma map_of_tagged: "map_of (map (\<lambda>(n, b). ((server, n), b)) rows) (server, n) = map_of rows n"
  by (induction rows) auto

lemma store_rows_lookup:
  assumes "distinct (map fst rows)" and "map_of rows n = Some b" and "n \<notin> fst ` set news"
  shows "map_of (store_rows server rows news T) (server, n) = Some b"
proof -
  have "store_rows server rows news T =
      foldl (\<lambda>d (k, v). al_put k v d) T (map (\<lambda>(n, b). ((server, n), b)) (rows @ news))"
    unfolding store_rows_def by (induction "rows @ news" arbitrary: T rows news) (auto simp: foldl_map split_def)
  then have "map_of (store_rows server rows news T) (server, n) =
      map_of (rev (map (\<lambda>(n, b). ((server, n), b)) (rows @ news)) @ T) (server, n)"
    by (simp add: foldl_al_put_map_of)
  also have "\<dots> = Some b"
  proof -
    have "map_of (rev news) n = None" using assms(3) by (simp add: map_of_eq_None_iff)
    moreover have "map_of (rev rows) n = Some b" using assms(1,2) map_of_rev_distinct by metis
    ultimately show ?thesis by (simp add: rev_map map_add_def map_of_tagged)
  qed
  finally show ?thesis .
qed

lemma drift_check_result:
  assumes "drift_check reading commit awrite D server tools who (T, w) = (Inr (), (T', w'))"
    and "distinct (map fst T)" and "baseline_at server n T = Some b"
  obtains seen b' where "live_tools (de_float_str D) tools = Inr seen" and "baseline_at server n T' = Some b'"
    and "map_of seen n = None \<Longrightarrow> b' = b \<or> b' = marked_removed (de_now D) b"
    and "\<And>tool. map_of seen n = Some tool \<Longrightarrow>
      \<exists>w1 w2. known_tool awrite D server n tool who b w1 = (Inr b', w2)"
proof -
  let ?W = "\<lparr>dw_rows = server_baselines server T, dw_new = [], dw_renamed = []\<rparr>"
  from assms(1) obtain seen W rows w1 w2 w3 w4 where
    live: "live_tools (de_float_str D) tools = Inr seen"
    and s1: "check_live awrite D server seen who seen ?W w1 = (Inr W, w2)"
    and s2: "check_removed awrite (de_now D) server seen (dw_renamed W) who (dw_rows W) w2 = (Inr rows, w3)"
    and s3: "commit_baselines commit (store_rows server rows (dw_new W) T) (T, w3) = (Inr (), (T', w'))"
    by (auto simp: drift_check_def bind_io_def split: prod.splits sum.splits)
  have dist: "distinct (map fst seen)" using live by (auto simp: live_tools_def bind_res_Inr_iff)
  have b: "map_of (dw_rows ?W) n = Some b"
    using assms(3) by (simp add: baseline_at_def server_baselines_lookup)
  note keys = check_live_rows(1) [OF s1 dist] and after = check_live_rows(2) [OF s1 dist b]
  from check_live_rows(3) [OF s1 dist] have new: "n \<notin> fst ` set (dw_new W)" using b by auto
  from s3 have T': "T' = store_rows server rows (dw_new W) T"
    by (auto simp: commit_baselines_def split: prod.splits commit_outcome.splits)
  from after obtain b1 where b1: "map_of (dw_rows W) n = Some b1"
    by (auto simp: row_after_def split: option.splits)
  from check_removed_rows [OF s2] b1 obtain b' where b': "map_of rows n = Some b'"
    and "b' = b1 \<or> map_of seen n = None \<and> b' = marked_removed (de_now D) b1" by auto
  have "distinct (map fst rows)"
    using check_removed_rows [OF s2] keys server_baselines_distinct [OF assms(2)] by simp
  then have at: "baseline_at server n T' = Some b'"
    unfolding T' baseline_at_def using b' new by (rule store_rows_lookup)
  show ?thesis
  proof (rule that [OF live at])
    assume "map_of seen n = None"
    with after b1 \<open>b' = b1 \<or> _\<close> show "b' = b \<or> b' = marked_removed (de_now D) b"
      by (auto simp: row_after_def)
  next
    fix tool
    assume "map_of seen n = Some tool"
    with after b1 \<open>b' = b1 \<or> _\<close> show "\<exists>w1 w2. known_tool awrite D server n tool who b w1 = (Inr b', w2)"
      by (auto simp: row_after_def)
  qed
qed

section \<open>Properties\<close>

text \<open>
  Classification never understates a dangerous change. A changed description gets at
  least the configured severity, a change in any other top-level field at least High, a
  schema change at least its own severity, a parameter that is new and required makes
  the schema change Critical, and "no drift" is answered only for equal tool hashes.
\<close>

theorem classification_floor:
  assumes "classify S canon sha256 old new = Inr r"
  shows "(\<not> py_eq (dget old ''description'') (dget new ''description'') \<longrightarrow>
      (\<exists>m. r = Some m \<and> tier_severity (drift_description_severity S) \<le> m)) \<and>
    (other_fields_differ tool_fields old new \<longrightarrow> (\<exists>m. r = Some m \<and> SevHigh \<le> m)) \<and>
    (\<forall>o_d n_d ops nps os ns k.
       dget old ''inputSchema'' = JObj o_d \<and> o_d \<noteq> [] \<and> dget new ''inputSchema'' = JObj n_d \<and> n_d \<noteq> [] \<and>
       \<not> py_eq (JObj o_d) (JObj n_d) \<and>
       dict_or_empty (dget o_d ''properties'') = Some ops \<and>
       dict_or_empty (dget n_d ''properties'') = Some nps \<and>
       py_or (dget o_d ''required'') (JArr []) = JArr os \<and>
       py_or (dget n_d ''required'') (JArr []) = JArr ns \<and>
       k \<in> fst ` set nps \<and> \<not> has_key ops k \<and> py_in (JStr k) ns \<longrightarrow> r = Some SevCritical) \<and>
    (r = None \<longrightarrow> (\<exists>h. tool_hash canon sha256 old = Inr h \<and> tool_hash canon sha256 new = Inr h))"
proof -
  note c = classify_Inr [OF assms]
  have "r = Some SevCritical"
    if prem: "dget old ''inputSchema'' = JObj o_d" "o_d \<noteq> []" "dget new ''inputSchema'' = JObj n_d" "n_d \<noteq> []"
      "\<not> py_eq (JObj o_d) (JObj n_d)"
      "dict_or_empty (dget o_d ''properties'') = Some ops" "dict_or_empty (dget n_d ''properties'') = Some nps"
      "py_or (dget o_d ''required'') (JArr []) = JArr os" "py_or (dget n_d ''required'') (JArr []) = JArr ns"
      "k \<in> fst ` set nps" "\<not> has_key ops k" "py_in (JStr k) ns"
    for o_d n_d ops nps os ns k
  proof -
    from assms prem obtain q where "classify_schema (JObj o_d) (JObj n_d) = Inr q"
      by (auto simp: classify_def py_or_def bind_res_Inr_iff)
    moreover from classify_schema_required [OF prem(5) this prem(6-12)] have "q = Some SevCritical" .
    ultimately obtain m where "r = Some m" "SevCritical \<le> m"
      using c prem(1-4) by (auto simp: py_or_def)
    then show ?thesis using critical_top by (metis order_antisym)
  qed
  with c show ?thesis by blast
qed

definition tool_v1 :: jdict where
  "tool_v1 = [(''name'', JStr ''read''), (''description'', JStr ''Reads a file'')]"

definition tool_v2 :: jdict where
  "tool_v2 = [(''name'', JStr ''read''), (''description'', JStr ''Reads any file'')]"

text \<open>An encoder for the witnesses: it writes only the description and the name.\<close>

fun tiny_canon :: "json \<Rightarrow> string res" where
  "tiny_canon (JObj d) =
     (case (dget d ''name'', dget d ''description'') of
        (JStr n, JStr t) \<Rightarrow> Inr (n @ ''|'' @ t)
      | (_, JStr t) \<Rightarrow> Inr (''|'' @ t)
      | _ \<Rightarrow> Inr [])"
| "tiny_canon _ = Inr []"

lemma classify_versions: "classify default_settings tiny_canon id tool_v1 tool_v2 = Inr (Some SevHigh)"
proof -
  have "\<not> other_fields_differ tool_fields tool_v1 tool_v2"
    by (simp add: other_fields_differ_def without_keys_def tool_fields_def tool_v1_def tool_v2_def py_eq_JObj)
  moreover have "classify_schema (JObj []) (JObj []) = Inr None"
    by (simp add: classify_schema.simps py_eq_JObj)
  ultimately show ?thesis
    by (simp add: classify_def py_or_def tool_v1_def [symmetric] tool_v2_def [symmetric])
      (simp add: tool_v1_def tool_v2_def py_or_def default_settings_def max_severity_def
        classify_schema.simps py_eq_JObj)
qed

theorem classification_floor_witness:
  "tier_severity (drift_description_severity default_settings) \<le> SevHigh"
  using classification_floor [OF classify_versions]
  by (simp add: tool_v1_def tool_v2_def)

text \<open>
  C15: A check of a tool list enforces the baselines and never moves them. For every tool
  with a baseline the approved schema, its hash and the suspicious flag survive the
  check; a live definition with another hash is classified, and if that blocks (or is
  unclassifiable) the tool is blocked afterwards; a block stays, unless the definition listed
  under the name has the approved hash again (which is so for every tool blocked because it
  was renamed: \<open>renamed_tool_unblocks_itself\<close>).
\<close>

theorem drift_check_enforces_baselines:
  assumes "drift_check reading commit awrite D server tools who (T, w) = (Inr (), (T', w'))"
    and "distinct (map fst T)" and "baseline_at server n T = Some b"
  shows "\<exists>seen b'. live_tools (de_float_str D) tools = Inr seen \<and> baseline_at server n T' = Some b' \<and>
    bl_approved_schema b' = bl_approved_schema b \<and> bl_approved_hash b' = bl_approved_hash b \<and>
    bl_suspicious b' = bl_suspicious b \<and>
    (bl_blocked b \<longrightarrow> bl_blocked b' \<or>
       (\<exists>tool. map_of seen n = Some tool \<and> thash D tool = Inr (bl_approved_hash b))) \<and>
    (\<forall>tool h. map_of seen n = Some tool \<and> thash D tool = Inr h \<and> h \<noteq> bl_approved_hash b \<longrightarrow>
       (\<exists>sev. classify (de_settings D) (de_canon D) (de_sha256 D) (bl_approved_schema b) tool = Inr sev \<and>
          (blocks (case sev of None \<Rightarrow> SevHigh | Some s \<Rightarrow> s) \<longrightarrow> bl_blocked b')))"
  using assms
proof (rule drift_check_result)
  fix seen b'
  assume live: "live_tools (de_float_str D) tools = Inr seen" and at: "baseline_at server n T' = Some b'"
    and gone: "map_of seen n = None \<Longrightarrow> b' = b \<or> b' = marked_removed (de_now D) b"
    and known: "\<And>tool. map_of seen n = Some tool \<Longrightarrow>
      \<exists>w1 w2. known_tool awrite D server n tool who b w1 = (Inr b', w2)"
  have "bl_approved_schema b' = bl_approved_schema b \<and> bl_approved_hash b' = bl_approved_hash b \<and>
    bl_suspicious b' = bl_suspicious b \<and>
    (bl_blocked b \<longrightarrow> bl_blocked b' \<or>
       (\<exists>tool. map_of seen n = Some tool \<and> thash D tool = Inr (bl_approved_hash b))) \<and>
    (\<forall>tool h. map_of seen n = Some tool \<and> thash D tool = Inr h \<and> h \<noteq> bl_approved_hash b \<longrightarrow>
       (\<exists>sev. classify (de_settings D) (de_canon D) (de_sha256 D) (bl_approved_schema b) tool = Inr sev \<and>
          (blocks (case sev of None \<Rightarrow> SevHigh | Some s \<Rightarrow> s) \<longrightarrow> bl_blocked b')))"
  proof (cases "map_of seen n")
    case None
    with gone show ?thesis by (auto simp: marked_removed_def)
  next
    case (Some tool)
    with known obtain w1 w2 where "known_tool awrite D server n tool who b w1 = (Inr b', w2)" by blast
    from known_tool_result [OF this] obtain h where h: "thash D tool = Inr h"
      and out: "if h = bl_approved_hash b then b' = reverted b
       else \<exists>sev s. classify (de_settings D) (de_canon D) (de_sha256 D) (bl_approved_schema b) tool = Inr sev \<and>
         s = (case sev of None \<Rightarrow> SevHigh | Some s \<Rightarrow> s) \<and>
         (b' = b \<and> Some h = bl_observed_hash b \<and> (bl_blocked b \<or> \<not> blocks s) \<or>
          b' = observed (de_now D) tool h s b)" by blast
    show ?thesis
    proof (cases "h = bl_approved_hash b")
      case True
      with out have "b' = reverted b" by simp
      with True h Some show ?thesis by (simp add: reverted_def)
    next
      case False
      with out obtain sev where sev:
        "classify (de_settings D) (de_canon D) (de_sha256 D) (bl_approved_schema b) tool = Inr sev"
        and "b' = b \<and> (bl_blocked b \<or> \<not> blocks (case sev of None \<Rightarrow> SevHigh | Some s \<Rightarrow> s)) \<or>
          b' = observed (de_now D) tool h (case sev of None \<Rightarrow> SevHigh | Some s \<Rightarrow> s) b" by auto
      then show ?thesis using False h Some by (auto simp: observed_def)
    qed
  qed
  with live at show ?thesis by blast
qed

definition read_baseline :: baseline where
  "read_baseline = new_baseline ''files'' ''read'' tool_v1 ''read|Reads a file'' False 0"

definition sample_drift_env :: drift_env where
  "sample_drift_env =
     \<lparr>de_settings = default_settings, de_canon = tiny_canon, de_sha256 = id,
      de_float_str = (\<lambda>_. []), de_now = 5\<rparr>"

text \<open>An audit writer that collects the entries.\<close>

definition collect_entry :: "audit_entry \<Rightarrow> (audit_entry list, int) io" where
  "collect_entry e es = (Inr (int (length es)), es @ [e])"

lemmas drift_eval =
  drift_check_def bind_io_def live_tools_def dict_of_def server_baselines_def check_tool_def
  first_sighting_def known_tool_def flag_findings_def add_new_def new_baseline_def
  renamed_baseline_def reverted_def observed_def first_flagged_def drift_extra_def drift_entry_def
  commit_baselines_def store_rows_def baseline_at_def collect_entry_def tool_hash_def
  sample_drift_env_def scan_descriptions_def description_texts_def Let_def

lemma changed_description_run:
  "drift_check (ret_io ()) (Pair Committed) collect_entry sample_drift_env ''files'' [JObj tool_v2] ''alice''
     ([((''files'', ''read''), read_baseline)], []) =
   (Inr (), ([((''files'', ''read''), observed 5 tool_v2 ''read|Reads any file'' SevHigh read_baseline)],
      [drift_entry EV_DRIFT_HIGH ''alice'' ''files'' ''read''
        (drift_extra SevHigh read_baseline ''read|Reads any file'')]))"
  using classify_versions
  by (simp add: drift_eval read_baseline_def) (simp add: tool_v1_def tool_v2_def drift_eval blocks_def)

theorem drift_check_enforces_baselines_witness:
  "bl_approved_hash (observed 5 tool_v2 ''read|Reads any file'' SevHigh read_baseline) =
     bl_approved_hash read_baseline"
proof -
  have "baseline_at ''files'' ''read'' [((''files'', ''read''), read_baseline)] = Some read_baseline"
    by (simp add: baseline_at_def)
  from drift_check_enforces_baselines [OF changed_description_run _ this] show ?thesis
    by (auto simp: baseline_at_def)
qed

text \<open>
  The block of a renamed tool lifts itself. A tool that takes over the shape of a
  vanished baseline is baselined as blocked until approval, but its approved hash is its
  own, so the next check of the very same list reads it as reverted to the approved
  shape and unblocks it, with no approval and without an audit row.
\<close>

theorem renamed_tool_unblocks_itself:
  "let tools = [JObj [(''name'', JStr ''send''), (''x'', JStr ''y'')]];
       T0 = [((''files'', ''read''), new_baseline ''files'' ''read'' [(''name'', JStr ''read''), (''x'', JStr ''y'')]
               ''h'' False 0)];
       run = drift_check (ret_io ()) (Pair Committed) collect_entry sample_drift_env ''files'' tools ''alice'';
       p1 = snd (run (T0, [])); p2 = snd (run p1)
   in fst (is_blocked (ret_io ()) ''files'' ''send'' p1) = Inr True \<and>
      fst (is_blocked (ret_io ()) ''files'' ''send'' p2) = Inr False \<and>
      filter (\<lambda>e. w_tool e = Some ''send'') (snd p2) = filter (\<lambda>e. w_tool e = Some ''send'') (snd p1)"
  by (simp add: drift_eval is_blocked_def shape_hash_def marked_removed_def removed_sentinel_def)

text \<open>
  Only the last of two tools with one name is checked. A list that repeats an approved
  tool's name passes the check when its last definition is the approved one: the other
  definition leaves no trace in the baselines or the audit log.
\<close>

theorem duplicate_name_escapes_check:
  "drift_check (ret_io ()) (Pair Committed) collect_entry sample_drift_env ''files''
     [JObj tool_v2, JObj tool_v1] ''alice'' ([((''files'', ''read''), read_baseline)], []) =
   (Inr (), ([((''files'', ''read''), read_baseline)], []))"
  by (simp add: drift_eval read_baseline_def tool_v1_def tool_v2_def)

end
