(* ===== verification/RiskEngine.thy ===== *)
theory RiskEngine
  imports Redis PyJson PyText PolicyEngine Config
begin

text \<open>
  \<open>services/gateway/risk_engine.py\<close>: the factor functions over a gathered context, the
  combination with decay, the threshold bands, and the counters in Redis. The drift
  detector's three queries are parameters; the clock is UTC seconds since 1970.
\<close>

section \<open>Weights\<close>

fun tier_contribution :: "tier \<Rightarrow> int" where
  "tier_contribution TLow = 10"
| "tier_contribution TMedium = 20"
| "tier_contribution THigh = 30"
| "tier_contribution TCritical = 45"

definition protected_contribution :: int where "protected_contribution = 30"
definition off_hours_contribution :: int where "off_hours_contribution = 25"
definition frequency_contribution :: int where "frequency_contribution = 20"
definition drift_in_review_contribution :: int where "drift_in_review_contribution = 15"
definition prior_denial_contribution :: int where "prior_denial_contribution = 25"
definition drift_history_contribution :: int where "drift_history_contribution = 15"
definition suspicious_baseline_contribution :: int where "suspicious_baseline_contribution = 20"

lemmas contribution_defs =
  protected_contribution_def off_hours_contribution_def frequency_contribution_def
  drift_in_review_contribution_def prior_denial_contribution_def drift_history_contribution_def
  suspicious_baseline_contribution_def

definition behavioral_factors :: "string list" where
  "behavioral_factors = [''call_frequency'', ''prior_denial_rate'', ''drift_in_review'']"

section \<open>The context and the factors\<close>

record risk_context =
  rc_identity :: string
  rc_tool :: string
  rc_arguments :: json
  rc_policy :: risk_policy
  rc_now :: rat
  rc_call_count :: int
  rc_drift_in_review :: bool
  rc_denial_count :: int
  rc_drift_events :: int
  rc_suspicious :: bool

definition mk_factor :: "string \<Rightarrow> int \<Rightarrow> string \<Rightarrow> risk_factor" where
  "mk_factor name n why = \<lparr>rf_factor = name, rf_contribution = n, rf_reason = Some why\<rparr>"

definition tool_sensitivity_factor :: "risk_context \<Rightarrow> risk_factor option" where
  "tool_sensitivity_factor c =
     (case map_of (tool_sensitivity (rc_policy c)) (rc_tool c) of
        None \<Rightarrow> None
      | Some t \<Rightarrow> Some (mk_factor ''tool_sensitivity'' (tier_contribution t)
          (py_repr (rc_tool c) @ '' is policy-tiered '' @ tier_value t)))"

text \<open>The first argument value, and for it the first pattern, that match.\<close>

definition first_match :: "string list \<Rightarrow> string list \<Rightarrow> (string \<times> string) option" where
  "first_match values patterns =
     List.find (\<lambda>(v, p). fnmatch v p) (concat (map (\<lambda>v. map (\<lambda>p. (v, p)) patterns) values))"

definition blast_radius :: "risk_context \<Rightarrow> risk_factor option" where
  "blast_radius c =
     (case first_match (string_values (rc_arguments c)) (protected_repos (rc_policy c)) of
        None \<Rightarrow> None
      | Some (v, p) \<Rightarrow> Some (mk_factor ''protected_repository'' protected_contribution
          (''argument '' @ py_repr v @ '' matches protected pattern '' @ py_repr p)))"

definition utc_weekday :: "rat \<Rightarrow> int" where
  "utc_weekday t = (\<lfloor>t / 86400\<rfloor> + 3) mod 7"

definition utc_hour :: "rat \<Rightarrow> int" where
  "utc_hour t = \<lfloor>t / 3600\<rfloor> mod 24"

definition utc_minute :: "rat \<Rightarrow> int" where
  "utc_minute t = \<lfloor>t / 60\<rfloor> mod 60"

definition two_digits :: "int \<Rightarrow> string" where
  "two_digits n = (if n < 10 then ''0'' else []) @ int_str n"

definition weekday_name :: "int \<Rightarrow> string" where
  "weekday_name d = [''Mon'', ''Tue'', ''Wed'', ''Thu'', ''Fri'', ''Sat'', ''Sun''] ! nat d"

definition clock_text :: "rat \<Rightarrow> string" where
  "clock_text t =
     weekday_name (utc_weekday t) @ '' '' @ two_digits (utc_hour t) @ '':'' @ two_digits (utc_minute t)"

definition off_hours :: "settings \<Rightarrow> rat \<Rightarrow> bool" where
  "off_hours S t \<longleftrightarrow>
     utc_weekday t \<ge> 5 \<or>
     \<not> (business_hours_start_utc S \<le> utc_hour t \<and> utc_hour t < business_hours_end_utc S)"

definition business_hours :: "settings \<Rightarrow> risk_context \<Rightarrow> risk_factor option" where
  "business_hours S c =
     (if \<not> off_hours S (rc_now c) then None
      else Some (mk_factor ''business_hours'' off_hours_contribution
        (''call at '' @ clock_text (rc_now c) @ '' UTC is outside business hours'')))"

definition call_frequency :: "settings \<Rightarrow> risk_context \<Rightarrow> risk_factor option" where
  "call_frequency S c =
     (if rc_call_count c \<le> risk_freq_threshold S then None
      else Some (mk_factor ''call_frequency'' frequency_contribution
        (int_str (rc_call_count c) @ '' calls to '' @ py_repr (rc_tool c) @ '' in the last '' @
         int_str (risk_freq_window_seconds S) @ ''s exceeds '' @ int_str (risk_freq_threshold S))))"

definition drift_in_review :: "risk_context \<Rightarrow> risk_factor option" where
  "drift_in_review c =
     (if \<not> rc_drift_in_review c then None
      else Some (mk_factor ''drift_in_review'' drift_in_review_contribution
        (py_repr (rc_tool c) @ '' has unresolved schema drift pending review'')))"

definition prior_denial_rate :: "settings \<Rightarrow> risk_context \<Rightarrow> risk_factor option" where
  "prior_denial_rate S c =
     (if rc_denial_count c \<le> risk_denial_threshold S then None
      else Some (mk_factor ''prior_denial_rate'' prior_denial_contribution
        (int_str (rc_denial_count c) @ '' denials for '' @ py_repr (rc_identity c) @ '' in the last '' @
         int_str (risk_denial_window_seconds S) @ ''s exceeds '' @ int_str (risk_denial_threshold S))))"

definition drift_history :: "settings \<Rightarrow> risk_context \<Rightarrow> risk_factor option" where
  "drift_history S c =
     (if rc_drift_events c < risk_drift_history_threshold S then None
      else Some (mk_factor ''drift_history'' drift_history_contribution
        (py_repr (rc_tool c) @ '' drifted '' @ int_str (rc_drift_events c) @ '' times in the last '' @
         int_str (risk_drift_history_window_seconds S) @ ''s, even if since re-approved'')))"

definition suspicious_baseline :: "risk_context \<Rightarrow> risk_factor option" where
  "suspicious_baseline c =
     (if \<not> rc_suspicious c then None
      else Some (mk_factor ''suspicious_baseline'' suspicious_baseline_contribution
        (py_repr (rc_tool c) @ [CHR 0x27] @
         ''s approved description matched instruction-injection heuristics when it was baselined'')))"

definition risk_factor_functions :: "settings \<Rightarrow> (risk_context \<Rightarrow> risk_factor option) list" where
  "risk_factor_functions S =
     [tool_sensitivity_factor, blast_radius, business_hours S, call_frequency S, drift_in_review,
      prior_denial_rate S, drift_history S, suspicious_baseline]"

definition risk_factors :: "settings \<Rightarrow> risk_context \<Rightarrow> risk_factor list" where
  "risk_factors S c = List.map_filter (\<lambda>f. f c) (risk_factor_functions S)"

section \<open>Bands and combination\<close>

definition risk_challenge_min :: int where "risk_challenge_min = 40"
definition risk_approval_min :: int where "risk_approval_min = 70"
definition risk_deny_above :: int where "risk_deny_above = 90"

definition threshold_outcome :: "int \<Rightarrow> decision_outcome" where
  "threshold_outcome score =
     (if score > risk_deny_above then O_DENY
      else if score \<ge> risk_approval_min then O_HUMAN_APPROVAL_REQUIRED
      else if score \<ge> risk_challenge_min then O_CHALLENGE
      else O_ALLOW)"

definition behavioral_sum :: "risk_factor list \<Rightarrow> int" where
  "behavioral_sum fs =
     sum_list (map rf_contribution (filter (\<lambda>f. rf_factor f \<in> set behavioral_factors) fs))"

definition static_sum :: "risk_factor list \<Rightarrow> int" where
  "static_sum fs =
     sum_list (map rf_contribution (filter (\<lambda>f. rf_factor f \<notin> set behavioral_factors) fs))"

definition combine :: "risk_factor list \<Rightarrow> int \<Rightarrow> int" where
  "combine fs decay_offset = min (static_sum fs + max 0 (behavioral_sum fs - decay_offset)) 100"

section \<open>The engine\<close>

definition freq_key :: "string \<Rightarrow> string \<Rightarrow> string \<Rightarrow> string" where
  "freq_key i s t = ''risk:freq:'' @ i @ '':'' @ s @ '':'' @ t"

definition decay_key :: "string \<Rightarrow> string \<Rightarrow> string \<Rightarrow> string" where
  "decay_key i s t = ''risk:decay:'' @ i @ '':'' @ s @ '':'' @ t"

definition denial_key :: "string \<Rightarrow> string" where
  "denial_key i = ''risk:denials:'' @ i"

fun int_reply_of :: "reply \<Rightarrow> int res" where
  "int_reply_of (IntR n) = Inr n"
| "int_reply_of _ = Inl TypeError"

definition redis_counter :: "'r redis \<Rightarrow> string \<Rightarrow> ('r, int) io" where
  "redis_counter exec key = bind_io (exec (Get key)) (\<lambda>raw. of_res (counter_of raw))"

text \<open>INCR, then EXPIRE when the count is one: two commands.\<close>

definition bump_counter :: "'r redis \<Rightarrow> string \<Rightarrow> int \<Rightarrow> ('r, int) io" where
  "bump_counter exec key window =
     bind_io (exec (Incr key)) (\<lambda>y.
     bind_io (of_res (int_reply_of y)) (\<lambda>n.
       if n = 1 then bind_io (exec (Expire key window)) (\<lambda>_. ret_io n) else ret_io n))"

definition bump_frequency :: "'r redis \<Rightarrow> settings \<Rightarrow> string \<Rightarrow> string \<Rightarrow> string \<Rightarrow> ('r, int) io" where
  "bump_frequency exec S i s t = bump_counter exec (freq_key i s t) (risk_freq_window_seconds S)"

definition record_denial :: "'r redis \<Rightarrow> settings \<Rightarrow> string \<Rightarrow> ('r, unit) io" where
  "record_denial exec S i =
     bind_io (bump_counter exec (denial_key i) (risk_denial_window_seconds S)) (\<lambda>_. ret_io ())"

definition apply_decay :: "'r redis \<Rightarrow> settings \<Rightarrow> string \<Rightarrow> string \<Rightarrow> string \<Rightarrow> ('r, unit) io" where
  "apply_decay exec S i s t =
     bind_io (exec (IncrBy (decay_key i s t) (risk_decay_step S))) (\<lambda>_.
     bind_io (exec (Expire (decay_key i s t) (risk_decay_ttl_seconds S))) (\<lambda>_. ret_io ()))"

record 'w drift_queries =
  dq_pending :: "string \<Rightarrow> string \<Rightarrow> ('w, bool) io"
  dq_recent :: "string \<Rightarrow> string \<Rightarrow> int \<Rightarrow> ('w, int) io"
  dq_suspicious :: "string \<Rightarrow> string \<Rightarrow> ('w, bool) io"

definition gather_context ::
  "'w redis \<Rightarrow> 'w drift_queries \<Rightarrow> settings \<Rightarrow> rat \<Rightarrow> string \<Rightarrow> string \<Rightarrow> string \<Rightarrow> json \<Rightarrow>
     risk_policy \<Rightarrow> int \<Rightarrow> ('w, risk_context) io" where
  "gather_context exec Q S now i s t arguments policy call_count =
     bind_io (dq_pending Q s t) (\<lambda>pending.
     bind_io (redis_counter exec (denial_key i)) (\<lambda>denials.
     bind_io (dq_recent Q s t (risk_drift_history_window_seconds S)) (\<lambda>events.
     bind_io (dq_suspicious Q s t) (\<lambda>suspicious.
       ret_io \<lparr>rc_identity = i, rc_tool = t, rc_arguments = arguments, rc_policy = policy,
         rc_now = now, rc_call_count = call_count, rc_drift_in_review = pending,
         rc_denial_count = denials, rc_drift_events = events, rc_suspicious = suspicious\<rparr>))))"

definition score_context ::
  "'w redis \<Rightarrow> settings \<Rightarrow> string \<Rightarrow> string \<Rightarrow> string \<Rightarrow> risk_context \<Rightarrow>
     ('w, int \<times> risk_factor list) io" where
  "score_context exec S i s t c =
     (let factors = risk_factors S c
      in bind_io (redis_counter exec (decay_key i s t)) (\<lambda>decay_raw.
           ret_io (combine factors (min decay_raw (risk_decay_max S)), factors)))"

definition risk_score ::
  "'w redis \<Rightarrow> 'w drift_queries \<Rightarrow> settings \<Rightarrow> rat \<Rightarrow> string \<Rightarrow> string \<Rightarrow> string \<Rightarrow> json \<Rightarrow>
     risk_policy \<Rightarrow> bool \<Rightarrow> ('w, int \<times> risk_factor list) io" where
  "risk_score exec Q S now i s t arguments policy dry_run =
     bind_io
       (if dry_run then bind_io (redis_counter exec (freq_key i s t)) (\<lambda>n. ret_io (n + 1))
        else bump_frequency exec S i s t) (\<lambda>call_count.
     bind_io (gather_context exec Q S now i s t arguments policy call_count)
       (score_context exec S i s t))"

section \<open>Lemmas\<close>

lemma tier_contribution_pos: "0 < tier_contribution t"
  by (cases t) simp_all

lemma risk_factors_cases:
  "f \<in> set (risk_factors S c) \<Longrightarrow> \<exists>g \<in> set (risk_factor_functions S). g c = Some f"
  unfolding risk_factors_def by (auto simp: List.map_filter_def)

lemma factor_positive:
  assumes "g \<in> set (risk_factor_functions S)" and "g c = Some f"
  shows "0 < rf_contribution f"
proof -
  have "tool_sensitivity_factor c = Some f \<Longrightarrow> 0 < rf_contribution f"
    by (auto simp: tool_sensitivity_factor_def mk_factor_def tier_contribution_pos split: option.splits)
  moreover have "blast_radius c = Some f \<Longrightarrow> 0 < rf_contribution f"
    by (auto simp: blast_radius_def mk_factor_def contribution_defs split: option.splits)
  moreover have "business_hours S c = Some f \<Longrightarrow> 0 < rf_contribution f"
    "call_frequency S c = Some f \<Longrightarrow> 0 < rf_contribution f"
    "drift_in_review c = Some f \<Longrightarrow> 0 < rf_contribution f"
    by (auto simp: business_hours_def call_frequency_def drift_in_review_def mk_factor_def
        contribution_defs split: if_splits)
  moreover have "prior_denial_rate S c = Some f \<Longrightarrow> 0 < rf_contribution f"
    "drift_history S c = Some f \<Longrightarrow> 0 < rf_contribution f"
    "suspicious_baseline c = Some f \<Longrightarrow> 0 < rf_contribution f"
    by (auto simp: prior_denial_rate_def drift_history_def suspicious_baseline_def mk_factor_def
        contribution_defs split: if_splits)
  ultimately show ?thesis
    using assms by (auto simp: risk_factor_functions_def)
qed

lemma risk_factors_positive: "f \<in> set (risk_factors S c) \<Longrightarrow> 0 < rf_contribution f"
  by (blast dest: risk_factors_cases factor_positive)

lemma sum_filter_nonneg:
  "(\<And>f. f \<in> set fs \<Longrightarrow> 0 < rf_contribution f) \<Longrightarrow> 0 \<le> sum_list (map rf_contribution (filter P fs))"
  by (induction fs) (auto simp: less_imp_le)

lemma sums_split: "static_sum fs + behavioral_sum fs = sum_list (map rf_contribution fs)"
  by (induction fs) (auto simp: static_sum_def behavioral_sum_def)

lemma combine_bounds:
  assumes "\<And>f. f \<in> set fs \<Longrightarrow> 0 < rf_contribution f" and "d \<le> m" and "0 \<le> m"
  shows "0 \<le> combine fs d \<and> combine fs d \<le> 100 \<and> min (static_sum fs) 100 \<le> combine fs d \<and>
    min (sum_list (map rf_contribution fs) - m) 100 \<le> combine fs d"
proof -
  have "0 \<le> static_sum fs" and "0 \<le> behavioral_sum fs"
    using assms(1) sum_filter_nonneg unfolding static_sum_def behavioral_sum_def by blast+
  then show ?thesis
    using assms(2,3) sums_split [of fs] unfolding combine_def by auto
qed

lemma risk_score_result:
  assumes "risk_score exec Q S now i s t arguments policy dry w = (Inr (n, fs), w')"
  obtains c d where "fs = risk_factors S c" and "n = combine fs (min d (risk_decay_max S))"
    and "rc_tool c = t" and "rc_policy c = policy" and "rc_arguments c = arguments"
    and "rc_identity c = i" and "rc_now c = now"
  using assms
  by (auto simp: risk_score_def gather_context_def score_context_def Let_def elim!: bind_io_InrE)

lemma sum_list_member_le:
  "(\<And>f. f \<in> set fs \<Longrightarrow> 0 < rf_contribution f) \<Longrightarrow> g \<in> set fs \<Longrightarrow> P g \<Longrightarrow>
     rf_contribution g \<le> sum_list (map rf_contribution (filter P fs))"
proof (induction fs)
  case (Cons f fs)
  have "0 \<le> sum_list (map rf_contribution (filter P fs))"
    by (rule sum_filter_nonneg) (simp add: Cons.prems(1))
  moreover have "0 < rf_contribution f" by (simp add: Cons.prems(1))
  moreover have "rf_contribution g \<le> sum_list (map rf_contribution (filter P fs))" if "g \<in> set fs"
    using Cons.IH Cons.prems that by simp
  ultimately show ?case using Cons.prems(2,3) by (cases "P f") auto
qed simp

lemma map_filter_member: "g c = Some f \<Longrightarrow> g \<in> set gs \<Longrightarrow> f \<in> set (List.map_filter (\<lambda>g. g c) gs)"
  by (force simp: List.map_filter_def)

lemma tiered_static_sum:
  assumes "map_of (tool_sensitivity (rc_policy c)) (rc_tool c) = Some t"
  shows "tier_contribution t \<le> static_sum (risk_factors S c)"
proof -
  obtain f where f: "tool_sensitivity_factor c = Some f" and "rf_contribution f = tier_contribution t"
    and "rf_factor f \<notin> set behavioral_factors"
    using assms by (simp add: tool_sensitivity_factor_def mk_factor_def behavioral_factors_def)
  moreover have "f \<in> set (risk_factors S c)"
    unfolding risk_factors_def
    by (rule map_filter_member [where g = tool_sensitivity_factor, OF f])
      (simp add: risk_factor_functions_def)
  ultimately show ?thesis
      using sum_list_member_le [of "risk_factors S c" f "\<lambda>f. rf_factor f \<notin> set behavioral_factors"]
      risk_factors_positive
    by (simp add: static_sum_def)
qed

text \<open>
  A score lies between 0 and 100. Calibration lowers it only so far: not below the
  factors that are not behavioural, and by no more than the configured maximum. So a
  tool the policy tiers as critical is never allowed on its score alone, however often
  its calls were approved.
\<close>

theorem risk_score_bounds:
  assumes "risk_score exec Q S now i s t arguments policy dry w = (Inr (n, fs), w')"
    and "0 \<le> risk_decay_max S"
  shows "0 \<le> n \<and> n \<le> 100 \<and> min (static_sum fs) 100 \<le> n \<and>
    min (sum_list (map rf_contribution fs) - risk_decay_max S) 100 \<le> n \<and>
    (map_of (tool_sensitivity policy) t = Some TCritical \<longrightarrow> threshold_outcome n \<noteq> O_ALLOW)"
proof -
  obtain c d where fs: "fs = risk_factors S c" and n: "n = combine fs (min d (risk_decay_max S))"
    and c: "rc_tool c = t" "rc_policy c = policy"
    using risk_score_result [OF assms(1)] by blast
  have b: "0 \<le> n \<and> n \<le> 100 \<and> min (static_sum fs) 100 \<le> n \<and>
      min (sum_list (map rf_contribution fs) - risk_decay_max S) 100 \<le> n"
    unfolding n using assms(2) risk_factors_positive
    by (intro combine_bounds) (auto simp: fs)
  moreover have "45 \<le> static_sum fs" if "map_of (tool_sensitivity policy) t = Some TCritical"
    using tiered_static_sum [of c TCritical S] that by (simp add: c fs)
  ultimately show ?thesis
    by (auto simp: threshold_outcome_def risk_deny_above_def risk_approval_min_def
        risk_challenge_min_def)
qed

definition quiet_queries :: "'w drift_queries" where
  "quiet_queries =
     \<lparr>dq_pending = \<lambda>_ _. ret_io False, dq_recent = \<lambda>_ _ _. ret_io 0, dq_suspicious = \<lambda>_ _. ret_io False\<rparr>"

definition critical_policy :: risk_policy where
  "critical_policy = \<lparr>tool_sensitivity = [(''wipe'', TCritical)], protected_repos = []\<rparr>"

lemma critical_score:
  "fst (risk_score exec_ref quiet_queries default_settings 36000 ''ann'' ''fs'' ''wipe'' (JObj [])
      critical_policy True empty_redis) =
     Inr (45, [mk_factor ''tool_sensitivity'' 45 (py_repr ''wipe'' @ '' is policy-tiered critical'')])"
  by (simp add: risk_score_def redis_counter_def exec_ref_def reply_res_def empty_redis_def live_def
      alive_def bind_io_def gather_context_def quiet_queries_def score_context_def Let_def
      risk_factors_def risk_factor_functions_def List.map_filter_def tool_sensitivity_factor_def
      blast_radius_def first_match_def business_hours_def off_hours_def utc_weekday_def utc_hour_def
      call_frequency_def drift_in_review_def prior_denial_rate_def drift_history_def
      suspicious_baseline_def critical_policy_def default_settings_def combine_def static_sum_def
      behavioral_sum_def behavioral_factors_def mk_factor_def)

theorem risk_score_bounds_witness:
  "threshold_outcome 45 \<noteq> O_ALLOW"
proof -
  obtain w' where "risk_score exec_ref quiet_queries default_settings 36000 ''ann'' ''fs'' ''wipe'' (JObj [])
      critical_policy True empty_redis =
    (Inr (45, [mk_factor ''tool_sensitivity'' 45 (py_repr ''wipe'' @ '' is policy-tiered critical'')]), w')"
    using critical_score by (metis prod.collapse)
  from risk_score_bounds [OF this] show ?thesis
    by (simp add: critical_policy_def default_settings_def)
qed

text \<open>The bump of a counter, on a service that answers.\<close>

lemma live_after_bump:
  assumes "bump_counter exec_ref k window r = (x, r')" and "k' \<noteq> k"
  shows "live r' k' = live r k'"
  using assms
  by (auto simp: bump_counter_def bind_io_def exec_ref_def reply_res_def Let_def incr_by_def
      expire_key_def put_key_def live_def alive_def
      split: prod.splits option.splits rval.splits sum.splits if_splits)

lemma counter_read:
  "(\<And>x. live r k \<noteq> Some (RStr x)) \<Longrightarrow>
     \<exists>n. redis_counter exec_ref k r = (Inr n, r) \<and> fst (bump_counter exec_ref k window r) = Inr (n + 1)"
  by (cases "alive r k")
    (auto simp: redis_counter_def bump_counter_def bind_io_def exec_ref_def reply_res_def Let_def
      incr_by_def live_def split: rval.splits)

lemma counter_cong:
  "live r k = live r' k \<Longrightarrow> fst (redis_counter exec_ref k r) = fst (redis_counter exec_ref k r')"
  by (auto simp: redis_counter_def bind_io_def exec_ref_def reply_res_def
      split: option.splits sum.splits)

lemma counter_state: "redis_counter exec_ref k r = (x, r') \<Longrightarrow> r' = r"
  by (auto simp: redis_counter_def bind_io_def exec_ref_def reply_res_def
      split: option.splits sum.splits)

text \<open>The drift history as it stands, whatever Redis holds.\<close>

definition fixed_queries ::
  "(string \<Rightarrow> string \<Rightarrow> bool res) \<Rightarrow> (string \<Rightarrow> string \<Rightarrow> int \<Rightarrow> int res) \<Rightarrow>
     (string \<Rightarrow> string \<Rightarrow> bool res) \<Rightarrow> 'w drift_queries" where
  "fixed_queries pend recent susp =
     \<lparr>dq_pending = \<lambda>s t. of_res (pend s t), dq_recent = \<lambda>s t n. of_res (recent s t n),
       dq_suspicious = \<lambda>s t. of_res (susp s t)\<rparr>"

lemma gather_pure:
  assumes "live r (denial_key i) = live r' (denial_key i)"
  shows "fst (gather_context exec_ref (fixed_queries p d q) S now i s t a pol n r) =
      fst (gather_context exec_ref (fixed_queries p d q) S now i s t a pol n r')"
  using counter_cong [OF assms]
  by (auto simp: gather_context_def fixed_queries_def bind_io_def split: prod.splits sum.splits)

lemma gather_state:
  "gather_context exec_ref (fixed_queries p d q) S now i s t a pol n r = (x, r') \<Longrightarrow> r' = r"
  by (auto simp: gather_context_def fixed_queries_def bind_io_def
      split: prod.splits sum.splits dest!: counter_state)

lemma score_pure:
  assumes "live r (decay_key i s t) = live r' (decay_key i s t)"
  shows "fst (score_context exec_ref S i s t c r) = fst (score_context exec_ref S i s t c r')"
  using counter_cong [OF assms]
  by (auto simp: score_context_def Let_def bind_io_def split: prod.splits sum.splits)

lemma score_state: "snd (score_context exec_ref S i s t c r) = r"
  by (auto simp: score_context_def Let_def bind_io_def
      split: prod.splits sum.splits dest!: counter_state)

lemma bind_pure:
  assumes "fst (m r) = fst (m r')" and "\<And>r x r'. m r = (x, r') \<Longrightarrow> r' = r"
    and "\<And>c. fst (f c r) = fst (f c r')"
  shows "fst (bind_io m f r) = fst (bind_io m f r')"
  using assms(1,3) assms(2) [of r] assms(2) [of r']
  by (cases "m r"; cases "m r'") (auto simp: bind_io_def split: sum.splits)

text \<open>
  A dry run (the explain endpoint's) predicts the score and the factors a live call
  made at that moment gets, and leaves Redis as it found it.
\<close>

theorem dry_run_predicts_live_score:
  assumes "\<And>x. live r (freq_key i s t) \<noteq> Some (RStr x)"
  shows "fst (risk_score exec_ref (fixed_queries p d q) S now i s t a pol False r) =
      fst (risk_score exec_ref (fixed_queries p d q) S now i s t a pol True r) \<and>
    snd (risk_score exec_ref (fixed_queries p d q) S now i s t a pol True r) = r"
proof -
  let ?after = "\<lambda>n. bind_io (gather_context exec_ref (fixed_queries p d q) S now i s t a pol n)
    (score_context exec_ref S i s t)"
  obtain n where n: "redis_counter exec_ref (freq_key i s t) r = (Inr n, r)"
    and up: "fst (bump_frequency exec_ref S i s t r) = Inr (n + 1)"
    using counter_read [OF assms] unfolding bump_frequency_def by blast
  define r' where "r' = snd (bump_frequency exec_ref S i s t r)"
  have b: "bump_frequency exec_ref S i s t r = (Inr (n + 1), r')"
    using up by (simp add: r'_def prod_eq_iff)
  have "live r' (denial_key i) = live r (denial_key i)"
    "live r' (decay_key i s t) = live r (decay_key i s t)"
    using live_after_bump [OF b [unfolded bump_frequency_def]]
    by (auto simp: denial_key_def decay_key_def freq_key_def)
  then have "fst (?after (n + 1) r') = fst (?after (n + 1) r)"
    by (intro bind_pure gather_pure score_pure) (auto dest: gather_state)
  moreover have "snd (?after (n + 1) r) = r"
    by (auto simp: bind_io_def score_state split: prod.splits sum.splits dest!: gather_state)
  ultimately show ?thesis
    using b n bind_io_Inr [of "bump_frequency exec_ref S i s t" r "n + 1" r' ?after] bind_io_Inr [of "bind_io (redis_counter exec_ref (freq_key i s t))
        (\<lambda>n. ret_io (n + 1))" r "n + 1" r ?after]
      bind_io_Inr [of "redis_counter exec_ref (freq_key i s t)" r n r "\<lambda>n. ret_io (n + 1)"]
    by (simp add: risk_score_def)
qed

theorem dry_run_predicts_live_score_witness:
  "snd (risk_score exec_ref (fixed_queries (\<lambda>_ _. Inr True) (\<lambda>_ _ _. Inr 2) (\<lambda>_ _. Inr False))
      default_settings 0 ''ann'' ''fs'' ''wipe'' (JObj []) critical_policy True empty_redis) = empty_redis"
  by (rule dry_run_predicts_live_score [THEN conjunct2])
    (simp add: live_def alive_def empty_redis_def)

end
