(* ===== verification/Interceptor.thy ===== *)
theory Interceptor
  imports ParamValidator ReplayGuard StepUp SchemaTools Auth Approvals DriftDetector RiskEngine
begin

text \<open>
  \<open>services/gateway/jsonrpc_interceptor.py\<close>: one session's interceptor. The
  components it calls are operations on a world \<open>'w\<close>, fields of the interceptor as in the
  code; its own state (the pending request ids and the gateway's internal requests) is
  beside the world. Logging
  and the two latency histograms are left out; the tool-call counter is kept.
\<close>

section \<open>Messages\<close>

datatype request_id = IdStr string | IdInt int

datatype rpc_message =
    Request request_id string "jdict option"
  | Notification string "jdict option"
  | Response request_id jdict
  | ErrorResponse request_id int string json

datatype routed = Forward rpc_message | Respond rpc_message

definition policy_denied_code :: int where "policy_denied_code = -32003"
definition audit_unavailable_code :: int where "audit_unavailable_code = -32004"
definition tool_call_deadline_code :: int where "tool_call_deadline_code = -32005"

definition gateway_meta_keys :: "string list" where
  "gateway_meta_keys =
     [nonce_meta_key, timestamp_meta_key, approval_meta_key, challenge_id_meta_key,
      challenge_proof_meta_key, key_id_meta_key, signature_meta_key]"

text \<open>\<open>_strip_gateway_meta\<close>, on the params object the message carries.\<close>

definition strip_gateway_meta :: "jdict option \<Rightarrow> jdict option" where
  "strip_gateway_meta params =
     (case params of
        None \<Rightarrow> None
      | Some d \<Rightarrow>
          (case dget d ''_meta'' of
             JObj m \<Rightarrow>
               (let m' = without_keys gateway_meta_keys m
                in Some (if m' = [] then without_keys [''_meta''] d else al_put ''_meta'' (JObj m') d))
           | _ \<Rightarrow> Some d))"

definition error_reply :: "request_id \<Rightarrow> int \<Rightarrow> string \<Rightarrow> json \<Rightarrow> rpc_message" where
  "error_reply rid code message data = ErrorResponse rid code message data"

section \<open>The interceptor's fields and its services\<close>

text \<open>An internal future: not done, a result, or an exception.\<close>

record pump =
  pm_pending :: "(request_id \<times> string) list"
  pm_internal :: "(string \<times> jdict res option) list"

record 'w interceptor =
  sv_identity :: string
  sv_server :: string
  sv_mode :: decision_mode
  sv_engine :: "'w \<Rightarrow> policy_engine"
  sv_now :: "'w \<Rightarrow> rat"
  sv_write :: "audit_entry \<Rightarrow> ('w, int) io"
  sv_cache_get :: "string \<Rightarrow> ('w, json option) io"
  sv_cache_put :: "string \<Rightarrow> json \<Rightarrow> ('w, string) io"
  sv_cache_invalidate :: "string \<Rightarrow> ('w, unit) io"
  sv_drift_check :: "string \<Rightarrow> json \<Rightarrow> string \<Rightarrow> ('w, unit) io"
  sv_is_blocked :: "string \<Rightarrow> string \<Rightarrow> ('w, bool) io"
  sv_replay :: "json \<Rightarrow> json \<Rightarrow> ('w, string option) io"
  sv_score :: "string \<Rightarrow> string \<Rightarrow> string \<Rightarrow> json \<Rightarrow> risk_policy \<Rightarrow> ('w, int \<times> risk_factor list) io"
  sv_record_denial :: "string \<Rightarrow> ('w, unit) io"
  sv_redeem_approval :: "string \<Rightarrow> string \<Rightarrow> string \<Rightarrow> string \<Rightarrow> string \<Rightarrow>
    ('w, (event_type \<times> string) option) io"
  sv_create_approval :: "string \<Rightarrow> string \<Rightarrow> string \<Rightarrow> string \<Rightarrow> int \<Rightarrow> ('w, string) io"
  sv_redeem_challenge :: "string \<Rightarrow> string \<Rightarrow> string \<Rightarrow> string \<Rightarrow> string \<Rightarrow> json \<Rightarrow> string \<Rightarrow>
    ('w, string option) io"
  sv_create_challenge :: "string \<Rightarrow> string \<Rightarrow> string \<Rightarrow> string \<Rightarrow> int \<Rightarrow> ('w, string) io"
  sv_uuid :: "'w \<Rightarrow> string \<times> 'w"
  sv_send :: "rpc_message \<Rightarrow> ('w, unit) io"
  sv_await :: "string \<Rightarrow> (pump \<times> 'w, jdict) io"
  sv_count_call :: "string \<Rightarrow> string \<Rightarrow> string \<Rightarrow> event_type \<Rightarrow> decision_mode \<Rightarrow> 'w \<Rightarrow> 'w"
  sv_count_replay :: "'w \<Rightarrow> 'w"
  sv_args_hash :: "json \<Rightarrow> string res"
  sv_validate :: "json \<Rightarrow> json \<Rightarrow> string option res"
  sv_float_str :: "pyfloat \<Rightarrow> string"

type_synonym ('w, 'a) ic_io = "(pump \<times> 'w, 'a) io"

definition the_engine :: "'w interceptor \<Rightarrow> ('w, policy_engine) ic_io" where
  "the_engine S p = (Inr (sv_engine S (snd p)), p)"

definition own :: "('w, pump) ic_io" where
  "own p = (Inr (fst p), p)"

definition set_pending :: "request_id \<Rightarrow> string \<Rightarrow> ('w, unit) ic_io" where
  "set_pending rid m p =
     (Inr (), ((fst p)\<lparr>pm_pending := al_put rid m (pm_pending (fst p))\<rparr>, snd p))"

definition drop_pending :: "request_id \<Rightarrow> ('w, unit) ic_io" where
  "drop_pending rid p =
     (Inr (), ((fst p)\<lparr>pm_pending := filter (\<lambda>q. fst q \<noteq> rid) (pm_pending (fst p))\<rparr>, snd p))"

definition set_internal :: "string \<Rightarrow> jdict res option \<Rightarrow> ('w, unit) ic_io" where
  "set_internal rid v p =
     (Inr (), ((fst p)\<lparr>pm_internal := al_put rid v (pm_internal (fst p))\<rparr>, snd p))"

definition drop_internal :: "string \<Rightarrow> ('w, unit) ic_io" where
  "drop_internal rid p =
     (Inr (), ((fst p)\<lparr>pm_internal := filter (\<lambda>q. fst q \<noteq> rid) (pm_internal (fst p))\<rparr>, snd p))"

section \<open>Python on values of unknown shape\<close>

text \<open>\<open>for x in v\<close>.\<close>

fun items_of :: "json \<Rightarrow> json list res" where
  "items_of (JArr xs) = Inr xs"
| "items_of (JObj d) = Inr (map (\<lambda>p. JStr (fst p)) d)"
| "items_of (JStr s) = Inr (map (\<lambda>c. JStr [c]) s)"
| "items_of _ = Inl TypeError"

text \<open>\<open>k in v\<close> for a string \<open>k\<close>.\<close>

fun contains_key :: "json \<Rightarrow> string \<Rightarrow> bool res" where
  "contains_key (JObj d) k = Inr (has_key d k)"
| "contains_key (JArr xs) k = Inr (py_in (JStr k) xs)"
| "contains_key (JStr s) k = Inr (sublist k s)"
| "contains_key _ k = Inl TypeError"

text \<open>\<open>d.get(k, default)\<close>.\<close>

definition dget_or :: "jdict \<Rightarrow> string \<Rightarrow> json \<Rightarrow> json" where
  "dget_or d k v = (case map_of d k of Some x \<Rightarrow> x | None \<Rightarrow> v)"

fun first_named :: "json list \<Rightarrow> string \<Rightarrow> json option res" where
  "first_named [] n = Inr None"
| "first_named (t # ts) n =
     bind_res (item_get t ''name'') (\<lambda>name.
       if py_eq name (JStr n) then Inr (Some t) else first_named ts n)"

section \<open>One call\<close>

record tool_call =
  tc_id :: request_id
  tc_params :: "jdict option"
  tc_tool :: string
  tc_args :: json
  tc_meta :: json

definition call_of :: "(pyfloat \<Rightarrow> string) \<Rightarrow> request_id \<Rightarrow> jdict option \<Rightarrow> tool_call" where
  "call_of fl rid params =
     (let d = (case params of None \<Rightarrow> [] | Some d \<Rightarrow> d)
      in \<lparr>tc_id = rid, tc_params = params,
          tc_tool = json_str fl (dget_or d ''name'' (JStr [])),
          tc_args = py_or (dget_or d ''arguments'' (JObj [])) (JObj []),
          tc_meta = py_or (dget d ''_meta'') (JObj [])\<rparr>)"

definition forwarded :: "tool_call \<Rightarrow> rpc_message" where
  "forwarded c = Request (tc_id c) ''tools/call'' (strip_gateway_meta (tc_params c))"

text \<open>\<open>_decision\<close>.\<close>

definition make_decision ::
  "'w interceptor \<Rightarrow> decision_outcome \<Rightarrow> event_type \<Rightarrow> string \<Rightarrow> (policy_engine \<Rightarrow> string list) \<Rightarrow>
     int option \<Rightarrow> risk_factor list option \<Rightarrow> ('w, decision) ic_io" where
  "make_decision S outcome event why rules score factors p =
     (Inr \<lparr>d_decision = outcome, d_event_type = event, d_mode = sv_mode S, d_reason = why,
           d_matched_rules = rules (sv_engine S (snd p)), d_risk_score = score,
           d_risk_factors = factors, d_policy_version = engine_version (sv_engine S (snd p)),
           d_audit_id = None, d_approval_id = None, d_challenge_id = None, d_alternative = None\<rparr>, p)"

definition opt_json :: "('a \<Rightarrow> json) \<Rightarrow> 'a option \<Rightarrow> json" where
  "opt_json f x = (case x of None \<Rightarrow> JNull | Some a \<Rightarrow> f a)"

text \<open>\<open>decision.model_dump(mode="json")\<close>.\<close>

definition decision_json :: "decision \<Rightarrow> json" where
  "decision_json d =
     JObj [(''decision'', JStr (outcome_value (d_decision d))),
           (''event_type'', JStr (event_value (d_event_type d))),
           (''mode'', JStr (mode_value (d_mode d))),
           (''reason'', JStr (d_reason d)),
           (''matched_rules'', JArr (map JStr (d_matched_rules d))),
           (''risk_score'', opt_json JInt (d_risk_score d)),
           (''risk_factors'', opt_json (\<lambda>fs. JArr (map factor_json fs)) (d_risk_factors d)),
           (''policy_version'', JInt (d_policy_version d)),
           (''audit_id'', opt_json JStr (d_audit_id d)),
           (''approval_id'', opt_json JStr (d_approval_id d)),
           (''challenge_id'', opt_json JStr (d_challenge_id d)),
           (''alternative'', opt_json (JStr \<circ> outcome_value) (d_alternative d))]"

section \<open>Emitting a decision\<close>

definition totp_capable :: "policy_engine \<Rightarrow> string \<Rightarrow> bool" where
  "totp_capable e n = (case engine_identity e n of None \<Rightarrow> False | Some i \<Rightarrow> i_totp_secret i \<noteq> [])"

definition decision_extra ::
  "decision_mode \<Rightarrow> decision \<Rightarrow> json \<Rightarrow> string option \<Rightarrow> string option \<Rightarrow> jdict" where
  "decision_extra mode d arguments approval_id challenge_id =
     [(''mode'', JStr (mode_value (d_mode d))), (''reason'', JStr (d_reason d)),
      (''matched_rules'', JArr (map JStr (d_matched_rules d))), (''arguments'', arguments)] @
     (case d_risk_factors d of None \<Rightarrow> [] | Some fs \<Rightarrow> [(''risk_factors'', JArr (map factor_json fs))]) @
     (case approval_id of Some a \<Rightarrow> if mode = ENFORCE then [(''approval_id'', JStr a)] else [] | None \<Rightarrow> []) @
     (case challenge_id of Some a \<Rightarrow> if mode = ENFORCE then [(''challenge_id'', JStr a)] else [] | None \<Rightarrow> [])"

definition decision_entry ::
  "'w interceptor \<Rightarrow> tool_call \<Rightarrow> decision \<Rightarrow> string option \<Rightarrow> string option \<Rightarrow> audit_entry" where
  "decision_entry S c d approval_id challenge_id =
     \<lparr>w_event = d_event_type d, w_identity = sv_identity S, w_server = Some (sv_server S),
      w_tool = Some (tc_tool c),
      w_extra = decision_extra (sv_mode S) d (tc_args c) approval_id challenge_id,
      w_risk = d_risk_score d\<rparr>"

text \<open>
  The \<open>try\<close> block: the row, then the approval or the challenge the decision offers. Its
  value is the decision with the ids filled in.
\<close>

definition offer_approval :: "'w interceptor \<Rightarrow> tool_call \<Rightarrow> decision \<Rightarrow> int \<Rightarrow> ('w, decision) ic_io" where
  "offer_approval S c d seq =
     bind_io (of_res (sv_args_hash S (tc_args c))) (\<lambda>h.
     bind_io (outer (sv_create_approval S (sv_identity S) (sv_server S) (tc_tool c) h seq)) (\<lambda>a.
       ret_io (d\<lparr>d_approval_id := Some a\<rparr>)))"

definition offer_challenge :: "'w interceptor \<Rightarrow> tool_call \<Rightarrow> decision \<Rightarrow> int \<Rightarrow> ('w, decision) ic_io" where
  "offer_challenge S c d seq =
     bind_io (of_res (sv_args_hash S (tc_args c))) (\<lambda>h.
     bind_io (outer (sv_create_challenge S (sv_identity S) (sv_server S) (tc_tool c) h seq)) (\<lambda>a.
       ret_io (d\<lparr>d_challenge_id := Some a\<rparr>)))"

definition record_decision ::
  "'w interceptor \<Rightarrow> tool_call \<Rightarrow> bool \<Rightarrow> decision \<Rightarrow> string option \<Rightarrow> string option \<Rightarrow> ('w, decision) ic_io"
  where
  "record_decision S c capable d approval_id challenge_id =
     bind_io (outer (sv_write S (decision_entry S c d approval_id challenge_id))) (\<lambda>seq.
       (let d' = d\<lparr>d_audit_id := Some (int_str seq)\<rparr>
        in if sv_mode S = ENFORCE \<and> d_decision d = O_HUMAN_APPROVAL_REQUIRED
           then offer_approval S c d' seq
           else if sv_mode S = ENFORCE \<and> d_decision d = O_CHALLENGE \<and> capable
           then offer_challenge S c d' seq
           else ret_io d'))"

definition named_in_cache :: "json option \<Rightarrow> string \<Rightarrow> bool res" where
  "named_in_cache tools n =
     (case tools of
        None \<Rightarrow> Inr False
      | Some v \<Rightarrow> bind_res (items_of v) (\<lambda>ts. bind_res (first_named ts n) (\<lambda>t. Inr (t \<noteq> None))))"

text \<open>\<open>_record_tool_call\<close>: a name the server does not list is counted as \<open>other\<close>.\<close>

definition call_label :: "'w interceptor \<Rightarrow> string \<Rightarrow> ('w, string) ic_io" where
  "call_label S n =
     catch_io
       (bind_io (outer (sv_cache_get S (sv_server S))) (\<lambda>tools.
        bind_io (of_res (named_in_cache tools n)) (\<lambda>known.
          ret_io (if known then n else ''other''))))
       (\<lambda>_. ret_io ''other'')"

definition tick :: "('w \<Rightarrow> 'w) \<Rightarrow> ('w, unit) ic_io" where
  "tick f p = (Inr (), (fst p, f (snd p)))"

definition record_tool_call :: "'w interceptor \<Rightarrow> string \<Rightarrow> event_type \<Rightarrow> ('w, unit) ic_io" where
  "record_tool_call S n event =
     bind_io (call_label S n) (\<lambda>label.
       tick (sv_count_call S (sv_identity S) (sv_server S) label event (sv_mode S)))"

definition count_denial :: "'w interceptor \<Rightarrow> decision \<Rightarrow> ('w, unit) ic_io" where
  "count_denial S d =
     (if d_decision d = O_DENY
      then catch_io (outer (sv_record_denial S (sv_identity S))) (\<lambda>_. ret_io ())
      else ret_io ())"

text \<open>The end of \<open>_emit_decision\<close>: count the call, answer or forward it.\<close>

definition answer_decision :: "'w interceptor \<Rightarrow> tool_call \<Rightarrow> decision \<Rightarrow> ('w, routed) ic_io" where
  "answer_decision S c d =
     bind_io (record_tool_call S (tc_tool c) (d_event_type d)) (\<lambda>_.
     bind_io (if sv_mode S = ENFORCE \<and> d_event_type d = EV_DENY_REPLAY
              then tick (sv_count_replay S) else ret_io ()) (\<lambda>_.
       if sv_mode S = ENFORCE \<and> d_decision d \<noteq> O_ALLOW
       then bind_io (drop_pending (tc_id c)) (\<lambda>_.
            ret_io (Respond (error_reply (tc_id c) policy_denied_code (d_reason d) (decision_json d))))
       else ret_io (Forward (forwarded c))))"

definition audit_unavailable :: "request_id \<Rightarrow> string \<Rightarrow> rpc_message" where
  "audit_unavailable rid message = error_reply rid audit_unavailable_code message JNull"

definition emit_decision ::
  "'w interceptor \<Rightarrow> tool_call \<Rightarrow> decision \<Rightarrow> string option \<Rightarrow> string option \<Rightarrow> ('w, routed) ic_io" where
  "emit_decision S c d approval_id challenge_id =
     bind_io (count_denial S d) (\<lambda>_.
     bind_io (the_engine S) (\<lambda>e.
     bind_io
       (catch_io
         (bind_io (record_decision S c (totp_capable e (sv_identity S)) d approval_id challenge_id)
           (\<lambda>d'. ret_io (Some d')))
         (\<lambda>_. ret_io (if sv_mode S = ENFORCE \<and> d_decision d = O_DENY then Some d else None)))
       (\<lambda>recorded.
         case recorded of
           None \<Rightarrow>
             bind_io (drop_pending (tc_id c)) (\<lambda>_.
               ret_io (Respond (audit_unavailable (tc_id c) ''audit log unavailable; call denied'')))
         | Some d' \<Rightarrow> answer_decision S c d')))"

section \<open>The stages\<close>

text \<open>A stage stops the call with an answer, or goes on.\<close>

datatype 'a flow = Stop routed | Go 'a

definition bind_flow ::
  "('w, 'a flow) io \<Rightarrow> ('a \<Rightarrow> ('w, 'b flow) io) \<Rightarrow> ('w, 'b flow) io" where
  "bind_flow m f = bind_io m (\<lambda>x. case x of Stop r \<Rightarrow> ret_io (Stop r) | Go a \<Rightarrow> f a)"

text \<open>
  \<open>retain\<close>: the first candidate is the terminal decision; enforcing answers with it,
  observing keeps it and goes on. The assertion that enforcing never forwards is kept.
\<close>

definition retain ::
  "'w interceptor \<Rightarrow> tool_call \<Rightarrow> decision option \<Rightarrow> decision \<Rightarrow> ('w, decision option flow) ic_io" where
  "retain S c terminal candidate =
     (let t = (case terminal of None \<Rightarrow> candidate | Some d \<Rightarrow> d)
      in if sv_mode S = ENFORCE
         then bind_io (emit_decision S c t None None) (\<lambda>r.
                case r of Respond m \<Rightarrow> ret_io (Stop r) | Forward m \<Rightarrow> raise_io AssertionError)
         else ret_io (Go (Some t)))"

definition meta_field :: "tool_call \<Rightarrow> string \<Rightarrow> json res" where
  "meta_field c k = item_get (tc_meta c) k"

definition replay_required :: "ident option \<Rightarrow> tool_call \<Rightarrow> bool res" where
  "replay_required i c =
     (if (case i of None \<Rightarrow> False | Some x \<Rightarrow> i_auth_mode x = Signed) then Inr True
      else bind_res (contains_key (tc_meta c) nonce_meta_key) (\<lambda>a.
             if a then Inr True else contains_key (tc_meta c) timestamp_meta_key))"

definition replay_verdict :: "'w interceptor \<Rightarrow> tool_call \<Rightarrow> ('w, string option) ic_io" where
  "replay_verdict S c =
     catch_io
       (bind_io (of_res (meta_field c nonce_meta_key)) (\<lambda>nonce.
        bind_io (of_res (meta_field c timestamp_meta_key)) (\<lambda>timestamp.
          outer (sv_replay S nonce timestamp))))
       (\<lambda>_. ret_io (Some ''replay guard unavailable''))"

definition deny_replay ::
  "'w interceptor \<Rightarrow> tool_call \<Rightarrow> decision option \<Rightarrow> string \<Rightarrow> ('w, decision option flow) ic_io" where
  "deny_replay S c terminal why =
     bind_io (make_decision S O_DENY EV_DENY_REPLAY (''Replay detected: '' @ why)
                (\<lambda>_. [''replay_guard'']) None None)
       (retain S c terminal)"

definition replay_stage ::
  "'w interceptor \<Rightarrow> tool_call \<Rightarrow> ident option \<Rightarrow> decision option \<Rightarrow> ('w, decision option flow) ic_io"
  where
  "replay_stage S c i terminal =
     bind_io (of_res (replay_required i c)) (\<lambda>needed.
       if \<not> needed then ret_io (Go terminal)
       else bind_io (replay_verdict S c) (\<lambda>verdict.
         case verdict of
           None \<Rightarrow> ret_io (Go terminal)
         | Some why \<Rightarrow> deny_replay S c terminal why))"

definition versioned_rule :: "string \<Rightarrow> policy_engine \<Rightarrow> string list" where
  "versioned_rule rule e = [''policy-v'' @ int_str (engine_version e) @ '':'' @ rule]"

definition grant_stage ::
  "'w interceptor \<Rightarrow> tool_call \<Rightarrow> decision option \<Rightarrow> ('w, (decision option \<times> condition list) flow) ic_io"
  where
  "grant_stage S c terminal =
     bind_io (the_engine S) (\<lambda>e.
       case matching_grant e (Some (sv_identity S)) (sv_server S) (tc_tool c) of
         Some g \<Rightarrow> ret_io (Go (terminal, g_compiled g))
       | None \<Rightarrow>
           bind_io (make_decision S O_DENY EV_DENY_RBAC
                      (''identity '' @ py_repr (sv_identity S) @ '' is not authorized to call '' @
                       py_repr (tc_tool c))
                      (versioned_rule ''rbac'') None None) (\<lambda>d.
           bind_flow (retain S c terminal d) (\<lambda>t. ret_io (Go (t, [])))))"

text \<open>
  \<open>datetime.fromtimestamp(t, UTC).hour\<close>: microseconds, half to even; years 1 to 9999.
\<close>

definition round_half_even :: "rat \<Rightarrow> int" where
  "round_half_even q =
     (let f = \<lfloor>q\<rfloor>; r = q - of_int f
      in if r < 1 / 2 \<or> r = 1 / 2 \<and> even f then f else f + 1)"

definition min_timestamp :: int where "min_timestamp = -62135596800"
definition max_timestamp :: int where "max_timestamp = 253402300800"

definition hour_of :: "rat \<Rightarrow> int res" where
  "hour_of t =
     (let us = round_half_even (t * 1000000)
      in if min_timestamp * 1000000 \<le> us \<and> us < max_timestamp * 1000000
         then Inr (us div 3600000000 mod 24)
         else Inl (ValueError ''year is out of range''))"

fun timestamp_hour :: "json \<Rightarrow> int res option" where
  "timestamp_hour (JInt n) = Some (hour_of (of_int n))"
| "timestamp_hour (JFloat (FinF q)) = Some (hour_of q)"
| "timestamp_hour (JFloat NaN) = Some (Inl (ValueError ''cannot convert float NaN to integer''))"
| "timestamp_hour (JFloat _) = Some (Inl OverflowError)"
| "timestamp_hour _ = None"

text \<open>\<open>_abac_attributes\<close>: later keys overwrite earlier ones.\<close>

definition abac_attributes :: "policy_engine \<Rightarrow> rat \<Rightarrow> 'w interceptor \<Rightarrow> tool_call \<Rightarrow> attrs res" where
  "abac_attributes e now S c =
     bind_res (meta_field c timestamp_meta_key) (\<lambda>timestamp.
     bind_res (case timestamp_hour timestamp of Some h \<Rightarrow> h | None \<Rightarrow> hour_of now) (\<lambda>hour.
       Inr (al_put ''context.hour'' (AInt hour)
         (fold (\<lambda>(k, v). al_put (''identity.'' @ k) v)
           (case engine_identity e (sv_identity S) of None \<Rightarrow> [] | Some i \<Rightarrow> i_attributes i)
           [(''identity.id'', AStr (sv_identity S)), (''tool.name'', AStr (tc_tool c)),
            (''tool.server_id'', AStr (sv_server S))]))))"

definition call_attributes ::
  "'w interceptor \<Rightarrow> tool_call \<Rightarrow> condition list \<Rightarrow> ('w, attrs) ic_io" where
  "call_attributes S c conditions p =
     (if conditions = [] then (Inr [], p)
      else (abac_attributes (sv_engine S (snd p)) (sv_now S (snd p)) S c, p))"

text \<open>One condition: whether it holds, and the problem when it could not be evaluated.\<close>

definition condition_verdict :: "condition \<Rightarrow> attrs \<Rightarrow> bool \<times> string option" where
  "condition_verdict c av =
     (case evaluate c av of
        Inl e \<Rightarrow> (False, Some ''condition evaluation raised'')
      | Inr (b, missing) \<Rightarrow>
          (b, if missing = [] then None
              else Some (''unresolvable attributes: '' @ join_with '', '' missing)))"

definition policy_error_entry :: "'w interceptor \<Rightarrow> tool_call \<Rightarrow> condition \<Rightarrow> string \<Rightarrow> audit_entry" where
  "policy_error_entry S c cond problem =
     \<lparr>w_event = EV_POLICY_ERROR, w_identity = sv_identity S, w_server = Some (sv_server S),
      w_tool = Some (tc_tool c),
      w_extra = [(''condition'', JStr (c_source cond)), (''reason'', JStr problem)], w_risk = None\<rparr>"

definition report_problem :: "'w interceptor \<Rightarrow> tool_call \<Rightarrow> condition \<Rightarrow> string option \<Rightarrow> ('w, unit) ic_io" where
  "report_problem S c cond problem =
     (case problem of
        None \<Rightarrow> ret_io ()
      | Some why \<Rightarrow>
          catch_io
            (bind_io (outer (sv_write S (policy_error_entry S c cond why))) (\<lambda>_. ret_io ()))
            (\<lambda>_. ret_io ()))"

fun failed_condition ::
  "'w interceptor \<Rightarrow> tool_call \<Rightarrow> condition list \<Rightarrow> attrs \<Rightarrow> int option \<Rightarrow> risk_factor list option \<Rightarrow>
     ('w, decision option) ic_io" where
  "failed_condition S c [] av score factors = ret_io None"
| "failed_condition S c (cond # conds) av score factors =
     (case condition_verdict cond av of (satisfied, problem) \<Rightarrow>
        bind_io (report_problem S c cond problem) (\<lambda>_.
          if satisfied then failed_condition S c conds av score factors
          else bind_io
            (make_decision S O_DENY EV_DENY_ABAC
               (''condition '' @ py_repr (c_source cond) @ '' not satisfied'' @
                (case problem of None \<Rightarrow> [] | Some why \<Rightarrow> '' ('' @ why @ '')''))
               (versioned_rule (''abac:'' @ c_source cond)) score factors)
            (\<lambda>d. ret_io (Some d))))"

definition abac_stage ::
  "'w interceptor \<Rightarrow> tool_call \<Rightarrow> condition list \<Rightarrow> attrs \<Rightarrow> int option \<Rightarrow> risk_factor list option \<Rightarrow>
     decision option \<Rightarrow> ('w, decision option flow) ic_io" where
  "abac_stage S c conditions av score factors terminal =
     bind_io (failed_condition S c conditions av score factors) (\<lambda>denied.
       case denied of None \<Rightarrow> ret_io (Go terminal) | Some d \<Rightarrow> retain S c terminal d)"

definition drift_stage :: "'w interceptor \<Rightarrow> tool_call \<Rightarrow> decision option \<Rightarrow> ('w, decision option flow) ic_io"
  where
  "drift_stage S c terminal =
     bind_io (catch_io (outer (sv_is_blocked S (sv_server S) (tc_tool c))) (\<lambda>_. ret_io True)) (\<lambda>blocked.
       if blocked
       then bind_io (make_decision S O_DENY EV_DENY_DRIFT
              (py_repr (tc_tool c) @ '' is blocked: schema drifted from its approved baseline'' @
               '' and is pending re-approval'') (\<lambda>_. [''drift_detector'']) None None)
              (retain S c terminal)
       else ret_io (Go terminal))"

text \<open>An enforced redemption that fails is final.\<close>

definition deny_redemption ::
  "'w interceptor \<Rightarrow> tool_call \<Rightarrow> decision option \<Rightarrow> event_type \<Rightarrow> string \<Rightarrow> string \<Rightarrow> ('w, 'a flow) ic_io" where
  "deny_redemption S c terminal event why rule =
     bind_io (make_decision S O_DENY event why (\<lambda>_. [rule]) None None) (\<lambda>d.
     bind_io (retain S c terminal d) (\<lambda>x.
       case x of Stop r \<Rightarrow> ret_io (Stop r) | Go t \<Rightarrow> raise_io AssertionError))"

definition redeem_step_up ::
  "'w interceptor \<Rightarrow> tool_call \<Rightarrow> json \<Rightarrow> ident option \<Rightarrow> ('w, string option) ic_io" where
  "redeem_step_up S c challenge_id i =
     catch_io
       (bind_io (of_res (sv_args_hash S (tc_args c))) (\<lambda>h.
        bind_io (of_res (meta_field c challenge_proof_meta_key)) (\<lambda>proof_text.
          outer (sv_redeem_challenge S (json_str (sv_float_str S) challenge_id) (sv_identity S)
            (sv_server S) (tc_tool c) h proof_text (case i of None \<Rightarrow> [] | Some x \<Rightarrow> i_totp_secret x)))))
       (\<lambda>_. ret_io (Some ''challenge store unavailable''))"

definition step_up_stage ::
  "'w interceptor \<Rightarrow> tool_call \<Rightarrow> ident option \<Rightarrow> decision option \<Rightarrow>
     ('w, (decision option \<times> bool) flow) ic_io" where
  "step_up_stage S c i terminal =
     bind_io (of_res (meta_field c challenge_id_meta_key)) (\<lambda>challenge_id.
       if sv_mode S = ENFORCE \<and> challenge_id \<noteq> JNull
       then bind_io (redeem_step_up S c challenge_id i) (\<lambda>failure.
              case failure of
                None \<Rightarrow> ret_io (Go (terminal, True))
              | Some why \<Rightarrow> deny_redemption S c terminal EV_DENY_STEP_UP
                  (''step-up verification failed: '' @ why) ''step_up'')
       else ret_io (Go (terminal, False)))"

definition redeem_grant ::
  "'w interceptor \<Rightarrow> tool_call \<Rightarrow> json \<Rightarrow> ('w, (event_type \<times> string) option) ic_io" where
  "redeem_grant S c approval_id =
     catch_io
       (bind_io (of_res (sv_args_hash S (tc_args c))) (\<lambda>h.
          outer (sv_redeem_approval S (json_str (sv_float_str S) approval_id) (sv_identity S)
            (sv_server S) (tc_tool c) h)))
       (\<lambda>_. ret_io (Some (EV_DENY_APPROVAL_MISMATCH, ''approval store unavailable'')))"

definition unavailable_factor :: risk_factor where
  "unavailable_factor =
     mk_factor ''risk_engine_unavailable'' 100 ''risk scoring failed; treated as maximum risk''"

definition fresh_score :: "'w interceptor \<Rightarrow> tool_call \<Rightarrow> ('w, int \<times> risk_factor list) ic_io" where
  "fresh_score S c =
     bind_io (the_engine S) (\<lambda>e.
       catch_io
         (outer (sv_score S (sv_identity S) (sv_server S) (tc_tool c) (tc_args c)
            (p_risk (e_policy e))))
         (\<lambda>_. ret_io (100, [unavailable_factor])))"

definition risk_reason ::
  "decision_mode \<Rightarrow> string \<Rightarrow> decision_outcome \<Rightarrow> int \<Rightarrow> bool \<Rightarrow> string" where
  "risk_reason mode tool outcome score capable =
     (let head = ''risk score '' @ int_str score @ '' for '' @ py_repr tool
      in if outcome = O_DENY
         then head @ '' exceeds the deny threshold ('' @ int_str risk_deny_above @ '')''
         else if outcome = O_HUMAN_APPROVAL_REQUIRED
         then (if mode = OBSERVE then head @ '' would require human approval''
               else head @ '' requires human approval; retry with the approval id once granted'')
         else head @ (if mode = OBSERVE then '' would require'' else '' requires'') @ '' confirmation'' @
              (if capable \<and> mode = ENFORCE
               then ''; retry with the challenge id and a fresh TOTP code'' else []))"

definition risk_event :: "decision_outcome \<Rightarrow> event_type" where
  "risk_event outcome =
     (if outcome = O_DENY then EV_DENY_RISK
      else if outcome = O_HUMAN_APPROVAL_REQUIRED then EV_HUMAN_APPROVAL_REQUIRED
      else EV_CHALLENGE)"

definition risk_decision ::
  "'w interceptor \<Rightarrow> tool_call \<Rightarrow> decision_outcome \<Rightarrow> int \<Rightarrow> risk_factor list \<Rightarrow> ('w, decision) ic_io" where
  "risk_decision S c outcome score factors =
     bind_io (the_engine S) (\<lambda>e.
       make_decision S outcome (risk_event outcome)
         (risk_reason (sv_mode S) (tc_tool c) outcome score (totp_capable e (sv_identity S)))
         (\<lambda>_. [''risk_engine'']) (Some score) (Some factors))"

definition with_score :: "int \<Rightarrow> risk_factor list \<Rightarrow> decision option \<Rightarrow> decision option" where
  "with_score score factors =
     map_option (\<lambda>d. d\<lparr>d_risk_score := Some score, d_risk_factors := Some factors\<rparr>)"

text \<open>The bands; a verified step-up clears the challenge band and no other.\<close>

definition threshold_stage ::
  "'w interceptor \<Rightarrow> tool_call \<Rightarrow> bool \<Rightarrow> int \<Rightarrow> risk_factor list \<Rightarrow> decision option \<Rightarrow>
     ('w, decision option flow) ic_io" where
  "threshold_stage S c verified score factors terminal =
     (let outcome = threshold_outcome score
      in if outcome = O_CHALLENGE \<and> verified \<or> outcome = O_ALLOW then ret_io (Go terminal)
         else bind_io (risk_decision S c outcome score factors) (retain S c terminal))"

definition score_stage ::
  "'w interceptor \<Rightarrow> tool_call \<Rightarrow> condition list \<Rightarrow> attrs \<Rightarrow> bool \<Rightarrow> decision option \<Rightarrow>
     ('w, (decision option \<times> int option \<times> risk_factor list option) flow) ic_io" where
  "score_stage S c conditions av verified terminal =
     bind_io (fresh_score S c) (\<lambda>(score, factors).
     bind_flow (abac_stage S c (filter references_risk conditions)
                  (al_put ''risk.score'' (AInt score) av) (Some score) (Some factors)
                  (with_score score factors terminal)) (\<lambda>t.
     bind_flow (threshold_stage S c verified score factors t) (\<lambda>t.
       ret_io (Go (t, Some score, Some factors)))))"

definition risk_stage ::
  "'w interceptor \<Rightarrow> tool_call \<Rightarrow> condition list \<Rightarrow> attrs \<Rightarrow> bool \<Rightarrow> decision option \<Rightarrow>
     ('w, (decision option \<times> int option \<times> risk_factor list option) flow) ic_io" where
  "risk_stage S c conditions av verified terminal =
     bind_io (of_res (meta_field c approval_meta_key)) (\<lambda>approval_id.
       if sv_mode S = ENFORCE \<and> approval_id \<noteq> JNull
       then bind_io (redeem_grant S c approval_id) (\<lambda>denial.
              case denial of
                None \<Rightarrow> ret_io (Go (terminal, None, None))
              | Some (event, why) \<Rightarrow> deny_redemption S c terminal event why ''approval_lifecycle'')
       else score_stage S c conditions av verified terminal)"

text \<open>
  \<open>_refetch_tools\<close>: the request id is remembered while the reply is awaited, and
  forgotten whatever happens.
\<close>

definition internal_prefix :: string where "internal_prefix = ''portunusmcp:''"

definition new_internal_id :: "'w interceptor \<Rightarrow> ('w, string) ic_io" where
  "new_internal_id S p =
     (case sv_uuid S (snd p) of (u, w) \<Rightarrow> (Inr (internal_prefix @ u), (fst p, w)))"

definition checked_tools :: "'w interceptor \<Rightarrow> string \<Rightarrow> ('w, json) ic_io" where
  "checked_tools S rid =
     bind_io (outer (sv_send S (Request (IdStr rid) ''tools/list'' None))) (\<lambda>_.
     bind_io (sv_await S rid) (\<lambda>result.
       (let tools = dget_or result ''tools'' (JArr [])
        in bind_io (outer (sv_drift_check S (sv_server S) tools (sv_identity S))) (\<lambda>_.
           bind_io (outer (sv_cache_put S (sv_server S) tools)) (\<lambda>_. ret_io tools)))))"

definition null_none :: "json \<Rightarrow> json option" where
  "null_none v = (if v = JNull then None else Some v)"

definition refetch_tools :: "'w interceptor \<Rightarrow> ('w, json option) ic_io" where
  "refetch_tools S =
     bind_io (new_internal_id S) (\<lambda>rid.
     bind_io (set_internal rid None) (\<lambda>_.
     bind_io (catch_io (bind_io (checked_tools S rid) (\<lambda>tools. ret_io (null_none tools)))
                (\<lambda>_. ret_io None)) (\<lambda>tools.
     bind_io (drop_internal rid) (\<lambda>_. ret_io tools))))"

definition named_schema :: "json \<Rightarrow> string \<Rightarrow> json option res" where
  "named_schema tools n =
     bind_res (items_of tools) (\<lambda>ts.
     bind_res (first_named ts n) (\<lambda>t.
       case t of Some (JObj d) \<Rightarrow> Inr (null_none (dget_or d ''inputSchema'' (JObj []))) | _ \<Rightarrow> Inr None))"

definition input_schema_for :: "'w interceptor \<Rightarrow> string \<Rightarrow> ('w, json option) ic_io" where
  "input_schema_for S n =
     bind_io (catch_io (outer (sv_cache_get S (sv_server S))) (\<lambda>_. ret_io None)) (\<lambda>cached.
     bind_io (case null_none (case cached of None \<Rightarrow> JNull | Some v \<Rightarrow> v) of
                None \<Rightarrow> refetch_tools S | Some v \<Rightarrow> ret_io (Some v)) (\<lambda>tools.
       case tools of None \<Rightarrow> ret_io None | Some v \<Rightarrow> of_res (named_schema v n)))"

definition invalid_arguments ::
  "'w interceptor \<Rightarrow> tool_call \<Rightarrow> int option \<Rightarrow> risk_factor list option \<Rightarrow> decision option \<Rightarrow> string \<Rightarrow>
     ('w, decision option flow) ic_io" where
  "invalid_arguments S c score factors terminal why =
     bind_io (make_decision S O_DENY EV_DENY_VALIDATION
                (''invalid arguments for '' @ py_repr (tc_tool c) @ '': '' @ why)
                (\<lambda>_. [''param_validator'']) score factors)
       (retain S c terminal)"

definition validation_stage ::
  "'w interceptor \<Rightarrow> tool_call \<Rightarrow> int option \<Rightarrow> risk_factor list option \<Rightarrow> decision option \<Rightarrow>
     ('w, decision option flow) ic_io" where
  "validation_stage S c score factors terminal =
     bind_io (input_schema_for S (tc_tool c)) (\<lambda>schema.
       case schema of
         None \<Rightarrow> invalid_arguments S c score factors terminal ''tool schema unavailable from upstream''
       | Some v \<Rightarrow>
           bind_io (of_res (sv_validate S (tc_args c) v)) (\<lambda>error.
             case error of
               None \<Rightarrow> ret_io (Go terminal)
             | Some why \<Rightarrow> invalid_arguments S c score factors terminal why))"

text \<open>The decision the pipeline ends with: the retained one, or ALLOW.\<close>

definition final_decision ::
  "'w interceptor \<Rightarrow> tool_call \<Rightarrow> int option \<Rightarrow> risk_factor list option \<Rightarrow> decision option \<Rightarrow>
     ('w, decision) ic_io" where
  "final_decision S c score factors terminal =
     (case terminal of
        Some d \<Rightarrow> ret_io d
      | None \<Rightarrow>
          make_decision S O_ALLOW EV_ALLOW (''call to '' @ py_repr (tc_tool c) @ '' allowed'')
            (versioned_rule ''rbac'') score factors)"

definition shown_id :: "'w interceptor \<Rightarrow> json \<Rightarrow> string option" where
  "shown_id S v = (if v = JNull then None else Some (json_str (sv_float_str S) v))"

definition conclude ::
  "'w interceptor \<Rightarrow> tool_call \<Rightarrow> bool \<Rightarrow> decision option \<times> int option \<times> risk_factor list option \<Rightarrow>
     ('w, routed flow) ic_io" where
  "conclude S c verified = (\<lambda>(terminal, score, factors).
     bind_flow (validation_stage S c score factors terminal) (\<lambda>t.
     bind_io (final_decision S c score factors t) (\<lambda>d.
     bind_io (of_res (meta_field c approval_meta_key)) (\<lambda>approval_id.
     bind_io (of_res (meta_field c challenge_id_meta_key)) (\<lambda>challenge_id.
     bind_io (emit_decision S c d (shown_id S approval_id)
                (if verified then shown_id S challenge_id else None))
       (\<lambda>r. ret_io (Go r)))))))"

text \<open>The stages after RBAC, from the conditions of the grant on.\<close>

definition decide_call ::
  "'w interceptor \<Rightarrow> tool_call \<Rightarrow> ident option \<Rightarrow> decision option \<times> condition list \<Rightarrow> ('w, routed flow) ic_io"
  where
  "decide_call S c i = (\<lambda>(terminal, conditions).
     bind_io (call_attributes S c conditions) (\<lambda>av.
     bind_flow (abac_stage S c (filter (\<lambda>x. \<not> references_risk x) conditions) av None None terminal) (\<lambda>t.
     bind_flow (drift_stage S c t) (\<lambda>t.
     bind_flow (step_up_stage S c i t) (\<lambda>(t, verified).
     bind_flow (risk_stage S c conditions av verified t) (conclude S c verified))))))"

definition flow_result :: "routed flow \<Rightarrow> routed" where
  "flow_result x = (case x of Stop r \<Rightarrow> r | Go r \<Rightarrow> r)"

definition authorize_call :: "'w interceptor \<Rightarrow> request_id \<Rightarrow> jdict option \<Rightarrow> ('w, routed) ic_io" where
  "authorize_call S rid params =
     (let c = call_of (sv_float_str S) rid params
      in bind_io (the_engine S) (\<lambda>e.
           (let i = engine_identity e (sv_identity S)
            in bind_io
                 (bind_flow (replay_stage S c i None) (\<lambda>t.
                  bind_flow (grant_stage S c t) (decide_call S c i)))
                 (\<lambda>x. ret_io (flow_result x)))))"

section \<open>The two directions\<close>

text \<open>Only requests are routed; notifications and responses pass as they are.\<close>

definition on_client_message :: "'w interceptor \<Rightarrow> rpc_message \<Rightarrow> ('w, routed) ic_io" where
  "on_client_message S message =
     (case message of
        Request rid m params \<Rightarrow>
          bind_io (set_pending rid m) (\<lambda>_.
            if m = ''tools/call'' then authorize_call S rid params
            else bind_io (if m = ''initialize'' then outer (sv_cache_invalidate S (sv_server S))
                          else ret_io ()) (\<lambda>_.
                   ret_io (Forward (Request rid m (strip_gateway_meta params)))))
      | _ \<Rightarrow> ret_io (Forward message))"

definition names_of :: "'w interceptor \<Rightarrow> json list \<Rightarrow> string list res" where
  "names_of S ts =
     collect_res (map (\<lambda>t. bind_res (item_get t ''name'') (\<lambda>n. Inr (json_str (sv_float_str S) n))) ts)"

definition list_entry ::
  "'w interceptor \<Rightarrow> string list \<Rightarrow> string list \<Rightarrow> audit_entry" where
  "list_entry S served would_prune =
     \<lparr>w_event = EV_TOOLS_LIST, w_identity = sv_identity S, w_server = Some (sv_server S), w_tool = None,
      w_extra =
        [(''mode'', JStr (mode_value (sv_mode S))),
         (''served_tools'', JArr (map JStr served)),
         (''pruned_tools'', JArr (map JStr (if sv_mode S = ENFORCE then would_prune else []))),
         (''would_prune_tools'', JArr (map JStr would_prune))],
      w_risk = None\<rparr>"

text \<open>The list as served: the tools and the ETag replace what the response carried.\<close>

definition served_result :: "jdict \<Rightarrow> json \<Rightarrow> string \<Rightarrow> jdict" where
  "served_result result served etag =
     al_put ''_meta'' (JObj [(''etag'', JStr etag)]) (al_put ''tools'' served result)"

definition serve_list ::
  "'w interceptor \<Rightarrow> request_id \<Rightarrow> jdict \<Rightarrow> json \<Rightarrow> string \<Rightarrow> ('w, rpc_message) ic_io" where
  "serve_list S rid result full hash =
     bind_io (the_engine S) (\<lambda>e.
     bind_io (of_res (items_of full)) (\<lambda>tools.
     bind_io (of_res (prune (sv_float_str S) tools (Some (sv_identity S)) (sv_server S) e)) (\<lambda>allowed.
     (let served = (if sv_mode S = OBSERVE then tools else allowed);
          etag = int_str (engine_version e) @ ''-'' @ hash
      in bind_io (of_res (names_of S served)) (\<lambda>served_names.
         bind_io (of_res (names_of S (filter (\<lambda>t. \<not> py_in t allowed) tools))) (\<lambda>would_prune.
         bind_io
           (catch_io
             (bind_io (outer (sv_write S (list_entry S served_names would_prune))) (\<lambda>_. ret_io True))
             (\<lambda>_. ret_io False))
           (\<lambda>recorded. ret_io
              (if recorded
               then Response rid
                 (served_result result (if sv_mode S = OBSERVE then full else JArr allowed) etag)
               else audit_unavailable rid ''audit log unavailable; tools/list denied''))))))))"

definition prune_tools_list :: "'w interceptor \<Rightarrow> request_id \<Rightarrow> jdict \<Rightarrow> ('w, rpc_message) ic_io" where
  "prune_tools_list S rid result =
     (let full = dget_or result ''tools'' (JArr [])
      in bind_io
           (catch_io
             (bind_io (outer (sv_drift_check S (sv_server S) full (sv_identity S))) (\<lambda>_. ret_io True))
             (\<lambda>_. ret_io False))
           (\<lambda>checked.
             if \<not> checked
             then ret_io (audit_unavailable rid ''drift check unavailable; tools/list denied'')
             else bind_io (outer (sv_cache_put S (sv_server S) full)) (serve_list S rid result full)))"

text \<open>A reply to an internal request settles its future, once, and is swallowed.\<close>

definition settle_internal :: "string \<Rightarrow> jdict res \<Rightarrow> pump \<Rightarrow> pump option" where
  "settle_internal rid v pm =
     (case map_of (pm_internal pm) rid of
        None \<Rightarrow> None
      | Some None \<Rightarrow> Some (pm\<lparr>pm_internal := al_put rid (Some v) (pm_internal pm)\<rparr>)
      | Some (Some _) \<Rightarrow> Some pm)"

definition on_response :: "'w interceptor \<Rightarrow> request_id \<Rightarrow> jdict \<Rightarrow> ('w, rpc_message option) ic_io" where
  "on_response S rid result =
     bind_io own (\<lambda>pm.
       (let listing = map_of (pm_pending pm) rid = Some ''tools/list''
        in bind_io (drop_pending rid) (\<lambda>_.
           if listing then bind_io (prune_tools_list S rid result) (\<lambda>m. ret_io (Some m))
           else ret_io (Some (Response rid result)))))"

definition internal_reply :: "rpc_message \<Rightarrow> (string \<times> jdict res) option" where
  "internal_reply message =
     (case message of
        Response (IdStr s) result \<Rightarrow> Some (s, Inr result)
      | ErrorResponse (IdStr s) code why data \<Rightarrow> Some (s, Inl (RuntimeError why))
      | _ \<Rightarrow> None)"

definition on_upstream_message :: "'w interceptor \<Rightarrow> rpc_message \<Rightarrow> ('w, rpc_message option) ic_io" where
  "on_upstream_message S message =
     bind_io own (\<lambda>pm.
       case Option.bind (internal_reply message) (\<lambda>(s, v). settle_internal s v pm) of
         Some pm' \<Rightarrow> (\<lambda>p. (Inr None, (pm', snd p)))
       | None \<Rightarrow>
           (case message of
              Response rid result \<Rightarrow> on_response S rid result
            | ErrorResponse rid code why data \<Rightarrow>
                bind_io (drop_pending rid) (\<lambda>_. ret_io (Some message))
            | _ \<Rightarrow> ret_io (Some message)))"

end
