(* ===== verification/Mediation.thy ===== *)
theory Mediation
  imports Interceptor
begin

text \<open>
  What the interceptor's pipeline guarantees: the stages inverted one by one, the
  conditions under which an enforced call is forwarded, what observing does and does not
  do, and the treatment of \<open>_meta\<close> and of tool lists.
\<close>

section \<open>Inversion of the stages\<close>

lemma bind_flow_GoE:
  assumes "bind_flow m f p = (Inr (Go b), q)"
  obtains a p' where "m p = (Inr (Go a), p')" and "f a p' = (Inr (Go b), q)"
  using assms unfolding bind_flow_def by (auto elim!: bind_io_InrE split: flow.splits)

lemma bind_flow_StopE:
  assumes "bind_flow m f p = (Inr (Stop r), q)"
  obtains (first) "m p = (Inr (Stop r), q)"
  | (second) a p' where "m p = (Inr (Go a), p')" and "f a p' = (Inr (Stop r), q)"
  using assms unfolding bind_flow_def by (auto elim!: bind_io_InrE split: flow.splits)

lemma outer_InrD: "outer m p = (Inr x, q) \<Longrightarrow> m (snd p) = (Inr x, snd q) \<and> fst q = fst p"
  by (cases p) (auto split: prod.splits)

lemma of_res_InrD: "of_res r p = (Inr x, q) \<Longrightarrow> r = Inr x \<and> q = p"
  by auto

lemma the_engine_app [simp]: "the_engine S p = (Inr (sv_engine S (snd p)), p)"
  by (simp add: the_engine_def)

lemma bind_the_engine [simp]: "bind_io (the_engine S) f p = f (sv_engine S (snd p)) p"
  by (simp add: bind_io_def)

lemma bind_ret_io [simp]: "bind_io (ret_io a) f p = f a p"
  by (simp add: bind_io_def)

lemma bind_of_res_Inr [simp]: "bind_io (of_res (Inr a)) f p = f a p"
  by (simp add: bind_io_def)

lemma make_decisionD:
  "make_decision S out ev why rules score fs p = (Inr d, q) \<Longrightarrow>
     q = p \<and> d_decision d = out \<and> d_event_type d = ev \<and> d_mode d = sv_mode S \<and> d_risk_score d = score"
  by (auto simp: make_decision_def)

lemma bind_make_decision:
  "bind_io (make_decision S out ev why rules score fs) f p = (Inr x, q) \<Longrightarrow>
     \<exists>d. make_decision S out ev why rules score fs p = (Inr d, p) \<and> f d p = (Inr x, q)"
  by (auto simp: make_decision_def bind_io_def)

text \<open>Enforcing, a candidate always stops the call, and with an answer.\<close>

lemma retain_enforce:
  assumes "sv_mode S = ENFORCE" and "retain S c t d p = (Inr x, q)"
  obtains m where "x = Stop (Respond m)"
  using assms by (auto simp: retain_def Let_def elim!: bind_io_InrE split: routed.splits)

lemma retain_no_Go: "sv_mode S = ENFORCE \<Longrightarrow> retain S c t d p \<noteq> (Inr (Go x), q)"
  by (auto elim: retain_enforce)

lemma retain_observe: "sv_mode S = OBSERVE \<Longrightarrow> retain S c t d p = (Inr (Go (Some (case t of None \<Rightarrow> d | Some d \<Rightarrow> d))), p)"
  by (simp add: retain_def)

lemma decided_no_Go: "sv_mode S = ENFORCE \<Longrightarrow> bind_io m (retain S c t) p \<noteq> (Inr (Go x), q)"
  by (auto elim!: bind_io_InrE simp: retain_no_Go)

text \<open>A stage that stops a call, stops it with an answer to the client.\<close>

definition answers :: "('w, 'a flow) ic_io \<Rightarrow> bool" where
  "answers m \<longleftrightarrow> (\<forall>p r q. m p = (Inr (Stop r), q) \<longrightarrow> (\<exists>x. r = Respond x))"

named_theorems answer_intros

lemma answersD: "answers m \<Longrightarrow> m p = (Inr (Stop r), q) \<Longrightarrow> \<exists>x. r = Respond x"
  unfolding answers_def by blast

lemma answers_Go [answer_intros]: "answers (ret_io (Go a))"
  by (simp add: answers_def)

lemma answers_raise [answer_intros]: "answers (raise_io e)"
  by (simp add: answers_def)

lemma answers_bind [answer_intros]: "(\<And>a. answers (f a)) \<Longrightarrow> answers (bind_io m f)"
  unfolding answers_def by (blast elim: bind_io_InrE)

lemma answers_flow [answer_intros]:
  "answers m \<Longrightarrow> (\<And>a. answers (f a)) \<Longrightarrow> answers (bind_flow m f)"
  unfolding answers_def by (blast elim: bind_flow_StopE)

lemma answers_retain [answer_intros]: "answers (retain S c t d)"
  unfolding answers_def retain_def Let_def
  by (auto elim!: bind_io_InrE split: routed.splits if_splits)

lemma answers_decide [answer_intros]: "answers (bind_io m (retain S c t))"
  by (intro answer_intros)

lemma answers_if [answer_intros]: "(b \<Longrightarrow> answers m) \<Longrightarrow> (\<not> b \<Longrightarrow> answers n) \<Longrightarrow> answers (if b then m else n)"
  by simp

lemma answers_option [answer_intros]:
  "answers m \<Longrightarrow> (\<And>a. answers (f a)) \<Longrightarrow> answers (case x of None \<Rightarrow> m | Some a \<Rightarrow> f a)"
  by (cases x) auto

lemma answers_prod [answer_intros]: "(\<And>a b. answers (f a b)) \<Longrightarrow> answers (case x of (a, b) \<Rightarrow> f a b)"
  by (cases x) auto

lemma replay_stage_answers: "answers (replay_stage S c i t)"
  unfolding replay_stage_def deny_replay_def by (intro answer_intros)

lemma grant_stage_answers: "answers (grant_stage S c t)"
  unfolding grant_stage_def by (intro answer_intros)

lemma abac_stage_answers: "answers (abac_stage S c cs av n fs t)"
  unfolding abac_stage_def by (intro answer_intros)

lemma drift_stage_answers: "answers (drift_stage S c t)"
  unfolding drift_stage_def by (intro answer_intros)

lemma deny_redemption_answers: "answers (deny_redemption S c t ev why rule)"
  unfolding deny_redemption_def answers_def
  by (auto elim!: bind_io_InrE split: flow.splits dest: answersD [OF answers_retain])

lemma step_up_stage_answers: "answers (step_up_stage S c i t)"
  unfolding step_up_stage_def by (intro answer_intros deny_redemption_answers)

lemma risk_stage_answers: "answers (risk_stage S c cs av v t)"
  unfolding risk_stage_def score_stage_def threshold_stage_def Let_def
  by (intro answer_intros deny_redemption_answers abac_stage_answers)

lemma validation_stage_answers: "answers (validation_stage S c n fs t)"
  unfolding validation_stage_def invalid_arguments_def by (intro answer_intros)

section \<open>What enforcing lets pass\<close>

definition replay_cleared :: "'w interceptor \<Rightarrow> tool_call \<Rightarrow> ident option \<Rightarrow> 'w \<Rightarrow> 'w \<Rightarrow> bool" where
  "replay_cleared S c i w w' \<longleftrightarrow>
     replay_required i c = Inr False \<and> w' = w \<or>
     replay_required i c = Inr True \<and>
     (\<exists>nonce ts. meta_field c nonce_meta_key = Inr nonce \<and> meta_field c timestamp_meta_key = Inr ts \<and>
        sv_replay S nonce ts w = (Inr None, w'))"

lemma replay_verdict_None:
  "replay_verdict S c p = (Inr None, q) \<Longrightarrow>
     fst q = fst p \<and>
     (\<exists>nonce ts. meta_field c nonce_meta_key = Inr nonce \<and> meta_field c timestamp_meta_key = Inr ts \<and>
        sv_replay S nonce ts (snd p) = (Inr None, snd q))"
  unfolding replay_verdict_def by (auto elim!: catch_io_cases bind_io_InrE dest!: outer_InrD)

lemma deny_replay_no_Go: "sv_mode S = ENFORCE \<Longrightarrow> deny_replay S c t why p \<noteq> (Inr (Go x), q)"
  unfolding deny_replay_def by (rule decided_no_Go)

lemma replay_stage_Go:
  assumes "sv_mode S = ENFORCE" and "replay_stage S c i t p = (Inr (Go t'), q)"
  shows "t' = t \<and> fst q = fst p \<and> replay_cleared S c i (snd p) (snd q)"
  using assms unfolding replay_stage_def replay_cleared_def
  by (auto elim!: bind_io_InrE split: if_splits option.splits simp: deny_replay_no_Go
      dest!: replay_verdict_None)

lemma grant_stage_Go:
  assumes "sv_mode S = ENFORCE" and "grant_stage S c t p = (Inr (Go x), q)"
  obtains g where "matching_grant (sv_engine S (snd p)) (Some (sv_identity S)) (sv_server S) (tc_tool c) = Some g"
    and "x = (t, g_compiled g)" and "q = p"
  using assms unfolding grant_stage_def
  by (auto split: option.splits dest!: bind_make_decision elim!: bind_flow_GoE simp: retain_no_Go)

definition conditions_hold :: "condition list \<Rightarrow> attrs \<Rightarrow> bool" where
  "conditions_hold cs av \<longleftrightarrow> (\<forall>c \<in> set cs. evaluate c av = Inr (True, []))"

lemma condition_verdict_True:
  "condition_verdict cond av = (True, problem) \<Longrightarrow> evaluate cond av = Inr (True, []) \<and> problem = None"
  using evaluate_True [of cond av]
  by (fastforce simp: condition_verdict_def split: sum.splits prod.splits if_splits)

lemma failed_condition_None:
  assumes "failed_condition S c cs av n fs p = (Inr None, q)"
  shows "conditions_hold cs av \<and> q = p"
  using assms
proof (induction cs)
  case Nil
  then show ?case by (simp add: conditions_hold_def)
next
  case (Cons cond cs)
  obtain b problem where v: "condition_verdict cond av = (b, problem)" by fastforce
  show ?case
  proof (cases b)
    case True
    with v Cons show ?thesis
      using condition_verdict_True [of cond av problem]
      by (auto simp: conditions_hold_def report_problem_def)
  next
    case False
    with v Cons.prems show ?thesis by (auto elim!: bind_io_InrE)
  qed
qed

lemma failed_condition_Some:
  assumes "failed_condition S c cs av n fs p = (Inr (Some d), q)"
  shows "d_decision d = O_DENY \<and> d_event_type d = EV_DENY_ABAC \<and> d_mode d = sv_mode S \<and> d_risk_score d = n"
  using assms
proof (induction cs arbitrary: p)
  case (Cons cond cs)
  obtain b problem where v: "condition_verdict cond av = (b, problem)" by fastforce
  with Cons show ?case
    by (cases b) (auto elim!: bind_io_InrE dest!: make_decisionD)
qed simp

lemma abac_stage_Go:
  assumes "sv_mode S = ENFORCE" and "abac_stage S c cs av n fs t p = (Inr (Go t'), q)"
  shows "t' = t \<and> q = p \<and> conditions_hold cs av"
  using assms unfolding abac_stage_def
  by (auto elim!: bind_io_InrE split: option.splits simp: retain_no_Go dest!: failed_condition_None)

lemma drift_stage_Go:
  assumes "sv_mode S = ENFORCE" and "drift_stage S c t p = (Inr (Go t'), q)"
  shows "t' = t \<and> fst q = fst p \<and>
    sv_is_blocked S (sv_server S) (tc_tool c) (snd p) = (Inr False, snd q)"
  using assms unfolding drift_stage_def
  by (auto elim!: bind_io_InrE catch_io_cases split: if_splits simp: decided_no_Go dest!: outer_InrD)

lemma deny_redemption_no_Go:
  "sv_mode S = ENFORCE \<Longrightarrow> deny_redemption S c t ev why rule p \<noteq> (Inr (Go x), q)"
  unfolding deny_redemption_def
  by (auto dest!: bind_make_decision elim!: bind_io_InrE elim: retain_enforce split: flow.splits)

definition step_up_cleared ::
  "'w interceptor \<Rightarrow> tool_call \<Rightarrow> ident option \<Rightarrow> bool \<Rightarrow> 'w \<Rightarrow> 'w \<Rightarrow> bool" where
  "step_up_cleared S c i verified w w' \<longleftrightarrow>
     (\<exists>challenge_id. meta_field c challenge_id_meta_key = Inr challenge_id \<and>
       (verified = (challenge_id \<noteq> JNull)) \<and> (\<not> verified \<longrightarrow> w' = w) \<and>
       (verified \<longrightarrow> (\<exists>h attempt. sv_args_hash S (tc_args c) = Inr h \<and>
          meta_field c challenge_proof_meta_key = Inr attempt \<and>
          sv_redeem_challenge S (json_str (sv_float_str S) challenge_id) (sv_identity S) (sv_server S)
            (tc_tool c) h attempt (case i of None \<Rightarrow> [] | Some x \<Rightarrow> i_totp_secret x) w = (Inr None, w'))))"

lemma redeem_step_up_None:
  "redeem_step_up S c challenge_id i p = (Inr None, q) \<Longrightarrow>
     fst q = fst p \<and> (\<exists>h attempt. sv_args_hash S (tc_args c) = Inr h \<and>
       meta_field c challenge_proof_meta_key = Inr attempt \<and>
       sv_redeem_challenge S (json_str (sv_float_str S) challenge_id) (sv_identity S) (sv_server S)
         (tc_tool c) h attempt (case i of None \<Rightarrow> [] | Some x \<Rightarrow> i_totp_secret x) (snd p) = (Inr None, snd q))"
  unfolding redeem_step_up_def by (auto elim!: catch_io_cases bind_io_InrE dest!: outer_InrD)

lemma step_up_stage_Go:
  assumes "sv_mode S = ENFORCE" and "step_up_stage S c i t p = (Inr (Go (t', v)), q)"
  shows "t' = t \<and> fst q = fst p \<and> step_up_cleared S c i v (snd p) (snd q)"
  using assms unfolding step_up_stage_def step_up_cleared_def
  by (auto elim!: bind_io_InrE split: if_splits option.splits simp: deny_redemption_no_Go
      dest!: redeem_step_up_None)

lemma threshold_stage_Go:
  assumes "sv_mode S = ENFORCE" and "threshold_stage S c v score fs t p = (Inr (Go t'), q)"
  shows "t' = t \<and> q = p \<and> (threshold_outcome score = O_ALLOW \<or> threshold_outcome score = O_CHALLENGE \<and> v)"
  using assms unfolding threshold_stage_def Let_def risk_decision_def
  by (auto split: if_splits simp: decided_no_Go)

lemma unavailable_score: "threshold_outcome 100 = O_DENY"
  by (simp add: threshold_outcome_def risk_deny_above_def)

lemma fresh_score_cases:
  assumes "fresh_score S c p = (Inr (score, fs), q)"
  shows "fst q = fst p \<and>
    (sv_score S (sv_identity S) (sv_server S) (tc_tool c) (tc_args c) (p_risk (e_policy (sv_engine S (snd p))))
       (snd p) = (Inr (score, fs), snd q) \<or> score = 100)"
  using assms unfolding fresh_score_def
  by (cases p) (auto elim!: catch_io_cases dest!: outer_InrD split: prod.splits)

text \<open>A fresh score within the bands, or an approval redeemed for this very call.\<close>

definition score_cleared ::
  "'w interceptor \<Rightarrow> tool_call \<Rightarrow> condition list \<Rightarrow> attrs \<Rightarrow> bool \<Rightarrow> 'w \<Rightarrow> 'w \<Rightarrow> bool" where
  "score_cleared S c conditions av verified w w' \<longleftrightarrow>
     (\<exists>score fs. sv_score S (sv_identity S) (sv_server S) (tc_tool c) (tc_args c)
           (p_risk (e_policy (sv_engine S w))) w = (Inr (score, fs), w') \<and>
        conditions_hold (filter references_risk conditions) (al_put ''risk.score'' (AInt score) av) \<and>
        (threshold_outcome score = O_ALLOW \<or> threshold_outcome score = O_CHALLENGE \<and> verified))"

definition approval_cleared :: "'w interceptor \<Rightarrow> tool_call \<Rightarrow> json \<Rightarrow> 'w \<Rightarrow> 'w \<Rightarrow> bool" where
  "approval_cleared S c approval_id w w' \<longleftrightarrow>
     (\<exists>h. sv_args_hash S (tc_args c) = Inr h \<and>
        sv_redeem_approval S (json_str (sv_float_str S) approval_id) (sv_identity S) (sv_server S)
          (tc_tool c) h w = (Inr None, w'))"

definition risk_cleared ::
  "'w interceptor \<Rightarrow> tool_call \<Rightarrow> condition list \<Rightarrow> attrs \<Rightarrow> bool \<Rightarrow> 'w \<Rightarrow> 'w \<Rightarrow> bool" where
  "risk_cleared S c conditions av verified w w' \<longleftrightarrow>
     (\<exists>approval_id. meta_field c approval_meta_key = Inr approval_id \<and>
        (if approval_id = JNull then score_cleared S c conditions av verified w w'
         else approval_cleared S c approval_id w w'))"

lemma score_stage_Go:
  assumes "sv_mode S = ENFORCE" and "score_stage S c conds av v t p = (Inr (Go x), q)"
  shows "fst q = fst p \<and> fst x = with_score (the (fst (snd x))) (the (snd (snd x))) t \<and>
    score_cleared S c conds av v (snd p) (snd q)"
proof -
  obtain score fs p1 t1 p2 where f: "fresh_score S c p = (Inr (score, fs), p1)"
    and a: "abac_stage S c (filter references_risk conds) (al_put ''risk.score'' (AInt score) av)
      (Some score) (Some fs) (with_score score fs t) p1 = (Inr (Go t1), p2)"
    and x: "bind_flow (threshold_stage S c v score fs t1) (\<lambda>t. ret_io (Go (t, Some score, Some fs))) p2 =
      (Inr (Go x), q)"
    using assms(2) unfolding score_stage_def
    by (elim bind_io_InrE) (simp only: split_paired_all prod.case, erule bind_flow_GoE, rule that)
  from x obtain t2 where th: "threshold_stage S c v score fs t1 p2 = (Inr (Go t2), q)"
    and x: "x = (t2, Some score, Some fs)" by (auto elim!: bind_flow_GoE)
  from abac_stage_Go [OF assms(1) a] threshold_stage_Go [OF assms(1) th] fresh_score_cases [OF f]
  show ?thesis
    by (auto simp: x score_cleared_def unavailable_score)
qed

lemma redeem_grant_None:
  "redeem_grant S c a p = (Inr None, q) \<Longrightarrow> fst q = fst p \<and> approval_cleared S c a (snd p) (snd q)"
  unfolding redeem_grant_def approval_cleared_def
  by (auto elim!: catch_io_cases bind_io_InrE dest!: outer_InrD)

lemma risk_stage_Go:
  assumes "sv_mode S = ENFORCE" and "risk_stage S c conds av v None p = (Inr (Go x), q)"
  shows "fst q = fst p \<and> fst x = None \<and> risk_cleared S c conds av v (snd p) (snd q)"
proof -
  obtain a where a: "meta_field c approval_meta_key = Inr a"
    using assms(2) unfolding risk_stage_def by (auto elim!: bind_io_InrE)
  show ?thesis
  proof (cases "a = JNull")
    case True
    with a assms have "score_stage S c conds av v None p = (Inr (Go x), q)"
      by (simp add: risk_stage_def)
    from score_stage_Go [OF assms(1) this] show ?thesis
      using a True by (auto simp: risk_cleared_def with_score_def)
  next
    case False
    with a assms show ?thesis
      unfolding risk_stage_def risk_cleared_def
      by (auto elim!: bind_io_InrE split: option.splits simp: deny_redemption_no_Go
          dest!: redeem_grant_None)
  qed
qed

lemma validation_stage_Go:
  assumes "sv_mode S = ENFORCE" and "validation_stage S c n fs t p = (Inr (Go t'), q)"
  obtains v where "input_schema_for S (tc_tool c) p = (Inr (Some v), q)"
    and "sv_validate S (tc_args c) v = Inr None" and "t' = t"
  using assms unfolding validation_stage_def invalid_arguments_def
  by (auto elim!: bind_io_InrE split: option.splits simp: decided_no_Go)

text \<open>Emitting: a forwarded call has its row, whatever the mode.\<close>

lemma record_decision_writes:
  assumes "record_decision S c b d aid cid p = (Inr d', q)"
  obtains seq w where "sv_write S (decision_entry S c d aid cid) (snd p) = (Inr seq, w)"
    and "d_decision d' = d_decision d" and "d_event_type d' = d_event_type d"
    and "d_audit_id d' = Some (int_str seq)"
    and "sv_mode S = ENFORCE \<longrightarrow> d_decision d = O_ALLOW \<or> d_decision d = O_DENY \<Longrightarrow> snd q = w"
  using assms unfolding record_decision_def Let_def offer_approval_def offer_challenge_def
  by (fastforce elim!: bind_io_InrE dest!: outer_InrD split: if_splits)

lemma answer_decision_Forward:
  "answer_decision S c d p = (Inr (Forward m), q) \<Longrightarrow>
     m = forwarded c \<and> (sv_mode S = ENFORCE \<longrightarrow> d_decision d = O_ALLOW)"
  unfolding answer_decision_def by (auto elim!: bind_io_InrE split: if_splits)

lemma emit_decision_Forward:
  assumes "emit_decision S c d aid cid p = (Inr (Forward m), q)"
  obtains seq w w' where "sv_write S (decision_entry S c d aid cid) w = (Inr seq, w')"
    and "m = forwarded c" and "sv_mode S = ENFORCE \<Longrightarrow> d_decision d = O_ALLOW"
    and "d_decision d \<noteq> O_DENY \<Longrightarrow> w = snd p"
proof -
  obtain p1 e p2 r where cd: "count_denial S d p = (Inr (), p1)"
    and rc: "catch_io (bind_io (record_decision S c e d aid cid) (\<lambda>d'. ret_io (Some d')))
         (\<lambda>_. ret_io (if sv_mode S = ENFORCE \<and> d_decision d = O_DENY then Some d else None)) p1 = (Inr r, p2)"
    and k: "(case r of
           None \<Rightarrow>
             bind_io (drop_pending (tc_id c)) (\<lambda>_.
               ret_io (Respond (audit_unavailable (tc_id c) ''audit log unavailable; call denied'')))
         | Some d' \<Rightarrow> answer_decision S c d') p2 = (Inr (Forward m), q)"
    using assms unfolding emit_decision_def by (auto elim!: bind_io_InrE)
  from k obtain d' where r: "r = Some d'" and "answer_decision S c d' p2 = (Inr (Forward m), q)"
    by (auto elim!: bind_io_InrE split: option.splits)
  then have m: "m = forwarded c" "sv_mode S = ENFORCE \<longrightarrow> d_decision d' = O_ALLOW"
    using answer_decision_Forward by blast+
  have w: "d_decision d \<noteq> O_DENY \<Longrightarrow> snd p1 = snd p"
    using cd by (simp add: count_denial_def)
  from rc show thesis
  proof (cases rule: catch_io_cases)
    case (ok a)
    with r have "record_decision S c e d aid cid p1 = (Inr d', p2)"
      by (auto elim!: bind_io_InrE)
    then obtain seq w' where "sv_write S (decision_entry S c d aid cid) (snd p1) = (Inr seq, w')"
      and "d_decision d' = d_decision d" by (elim record_decision_writes) blast
    then show ?thesis using m w that [of "snd p1" seq w'] by simp
  next
    case (raised e w')
    with r m show ?thesis by (auto split: if_splits)
  qed
qed

lemma conclude_Go:
  assumes "sv_mode S = ENFORCE" and "conclude S c v (None, n, fs) p = (Inr (Go (Forward m)), q)"
  obtains schema p' d aid cid seq w' where "input_schema_for S (tc_tool c) p = (Inr (Some schema), p')"
    and "sv_validate S (tc_args c) schema = Inr None" and "d_decision d = O_ALLOW" and "d_event_type d = EV_ALLOW"
    and "d_risk_score d = n"
    and "sv_write S (decision_entry S c d aid cid) (snd p') = (Inr seq, w')" and "m = forwarded c"
proof -
  obtain t p1 d p2 where v: "validation_stage S c n fs None p = (Inr (Go t), p1)"
    and d: "final_decision S c n fs t p1 = (Inr d, p2)"
    and e: "\<exists>aid cid. emit_decision S c d aid cid p2 = (Inr (Forward m), q)"
    using assms(2) unfolding conclude_def by (fastforce elim!: bind_flow_GoE bind_io_InrE)
  from v obtain schema where schema: "input_schema_for S (tc_tool c) p = (Inr (Some schema), p1)"
      "sv_validate S (tc_args c) schema = Inr None" and t: "t = None"
    by (rule validation_stage_Go [OF assms(1)])
  from d t have d: "p2 = p1" "d_decision d = O_ALLOW" "d_event_type d = EV_ALLOW" "d_risk_score d = n"
    unfolding final_decision_def by (auto dest!: make_decisionD)
  from e obtain aid cid where "emit_decision S c d aid cid p2 = (Inr (Forward m), q)" by blast
  then obtain seq w w' where "sv_write S (decision_entry S c d aid cid) w = (Inr seq, w')"
    and "m = forwarded c" and "d_decision d \<noteq> O_DENY \<Longrightarrow> w = snd p2"
    by (rule emit_decision_Forward) blast
  with schema d show thesis by (intro that) auto
qed

lemma conclude_answers:
  assumes "conclude S c v x p = (Inr (Stop r), q)" shows "\<exists>m. r = Respond m"
  using assms answersD [OF validation_stage_answers] unfolding conclude_def
  by (cases x) (fastforce elim!: bind_flow_StopE bind_io_InrE)

text \<open>
  What an enforced call went through, stage by stage, with the worlds in between: \<open>w\<close>
  before the replay check, \<open>w'\<close> after the risk stage.
\<close>

definition attributes_bound ::
  "'w interceptor \<Rightarrow> tool_call \<Rightarrow> condition list \<Rightarrow> 'w \<Rightarrow> attrs \<Rightarrow> bool" where
  "attributes_bound S c conditions w av \<longleftrightarrow>
     (if conditions = [] then av = []
      else abac_attributes (sv_engine S w) (sv_now S w) S c = Inr av)"

definition permitted :: "'w interceptor \<Rightarrow> tool_call \<Rightarrow> 'w \<Rightarrow> 'w \<Rightarrow> bool" where
  "permitted S c w w' \<longleftrightarrow>
     (\<exists>i g av verified w1 w2 w3.
        i = engine_identity (sv_engine S w) (sv_identity S) \<and>
        replay_cleared S c i w w1 \<and>
        matching_grant (sv_engine S w1) (Some (sv_identity S)) (sv_server S) (tc_tool c) = Some g \<and>
        attributes_bound S c (g_compiled g) w1 av \<and>
        conditions_hold (filter (\<lambda>x. \<not> references_risk x) (g_compiled g)) av \<and>
        sv_is_blocked S (sv_server S) (tc_tool c) w1 = (Inr False, w2) \<and>
        step_up_cleared S c i verified w2 w3 \<and>
        risk_cleared S c (g_compiled g) av verified w3 w')"

lemma decide_call_Go:
  assumes "sv_mode S = ENFORCE" and "decide_call S c i (None, conds) p = (Inr (Go (Forward m)), q)"
  obtains av v w2 w3 p3 n fs where "attributes_bound S c conds (snd p) av"
    and "conditions_hold (filter (\<lambda>x. \<not> references_risk x) conds) av"
    and "sv_is_blocked S (sv_server S) (tc_tool c) (snd p) = (Inr False, w2)"
    and "step_up_cleared S c i v w2 w3" and "risk_cleared S c conds av v w3 (snd p3)"
    and "conclude S c v (None, n, fs) p3 = (Inr (Go (Forward m)), q)"
proof -
  obtain av p0 t1 p1 t2 p2 t3 v p3' x p3 where av: "call_attributes S c conds p = (Inr av, p0)"
    and ab: "abac_stage S c (filter (\<lambda>x. \<not> references_risk x) conds) av None None None p0 = (Inr (Go t1), p1)"
    and dr: "drift_stage S c t1 p1 = (Inr (Go t2), p2)"
    and su: "step_up_stage S c i t2 p2 = (Inr (Go (t3, v)), p3')"
    and rk: "risk_stage S c conds av v t3 p3' = (Inr (Go x), p3)"
    and co: "conclude S c v x p3 = (Inr (Go (Forward m)), q)"
    using assms(2) unfolding decide_call_def by (auto elim!: bind_flow_GoE bind_io_InrE)
  from av have a: "attributes_bound S c conds (snd p) av" "p0 = p"
    by (auto simp: call_attributes_def attributes_bound_def split: if_splits)
  note ab = abac_stage_Go [OF assms(1) ab] and dr = drift_stage_Go [OF assms(1) dr]
    and su = step_up_stage_Go [OF assms(1) su]
  from ab dr su have "t3 = None" by simp
  with rk have rk: "fst x = None" "risk_cleared S c conds av v (snd p3') (snd p3)"
    using risk_stage_Go [OF assms(1)] by blast+
  show thesis
    using that [OF a(1), of "snd p2" v "snd p3'" p3 "fst (snd x)" "snd (snd x)"] ab dr su rk co a(2)
    by (cases x) auto
qed

lemma decide_call_answers:
  assumes "decide_call S c i x p = (Inr (Stop r), q)" shows "\<exists>m. r = Respond m"
proof -
  have "answers (abac_stage S c cs av None None t)" "answers (drift_stage S c t)"
    "answers (step_up_stage S c i t)" "answers (risk_stage S c cs av v t)" for cs av t v
    by (rule abac_stage_answers drift_stage_answers step_up_stage_answers risk_stage_answers)+
  then show ?thesis
    using assms unfolding decide_call_def
    by (cases x) (fastforce elim!: bind_io_InrE bind_flow_StopE dest: answersD conclude_answers)
qed

lemma call_of_id [simp]: "tc_id (call_of fl rid params) = rid" "tc_params (call_of fl rid params) = params"
  by (simp_all add: call_of_def Let_def)

lemma authorize_call_Forward:
  assumes "authorize_call S rid params p = (Inr (Forward m), q)"
  obtains c i t p1 x p2 y where "c = call_of (sv_float_str S) rid params"
    and "i = engine_identity (sv_engine S (snd p)) (sv_identity S)"
    and "replay_stage S c i None p = (Inr (Go t), p1)"
    and "grant_stage S c t p1 = (Inr (Go x), p2)"
    and "decide_call S c i x p2 = (Inr (Go (Forward m)), q)"
proof -
  let ?c = "call_of (sv_float_str S) rid params"
  let ?i = "engine_identity (sv_engine S (snd p)) (sv_identity S)"
  obtain y where y: "bind_flow (replay_stage S ?c ?i None) (\<lambda>t.
      bind_flow (grant_stage S ?c t) (decide_call S ?c ?i)) p = (Inr y, q)" and "flow_result y = Forward m"
    using assms unfolding authorize_call_def Let_def by (auto elim!: bind_io_InrE)
  have "y \<noteq> Stop r" for r
  proof
    assume "y = Stop r"
    then have "\<exists>m. r = Respond m"
      using y by (auto elim!: bind_flow_StopE dest: answersD [OF replay_stage_answers]
          answersD [OF grant_stage_answers] decide_call_answers)
    then show False using \<open>flow_result y = Forward m\<close> \<open>y = Stop r\<close> by (auto simp: flow_result_def)
  qed
  then have "y = Go (Forward m)"
    using \<open>flow_result y = Forward m\<close> by (cases y) (auto simp: flow_result_def)
  with y show thesis by (auto elim!: bind_flow_GoE intro: that)
qed

lemma tools_call_message:
  assumes "on_client_message S (Request rid ''tools/call'' params) (pm, w) = (Inr r, q)"
  obtains pm' where "authorize_call S rid params (pm', w) = (Inr r, q)"
  using assms by (auto simp: on_client_message_def set_pending_def bind_io_def)

section \<open>Properties\<close>

text \<open>
  C1: Enforcing, a tool call reaches the server only through every stage, in order: a
  required or volunteered nonce was accepted, a grant matched, its conditions held on the
  attributes of this call, the tool was not blocked, a presented challenge was redeemed,
  the score allowed the call (or a challenge it verified cleared it, or an approval for
  these arguments was redeemed), the arguments validated against the server's schema, and
  the row of the ALLOW decision was written. What is sent is the call without the
  gateway's own metadata.
\<close>

theorem forwarded_call_was_permitted:
  assumes "on_client_message S (Request rid ''tools/call'' params) (pm, w) = (Inr (Forward m), q)"
    and "sv_mode S = ENFORCE" and "c = call_of (sv_float_str S) rid params"
  shows "m = forwarded c \<and>
    (\<exists>w1 pm1 schema pm2 w2 d aid cid seq w3. permitted S c w w1 \<and>
       input_schema_for S (tc_tool c) (pm1, w1) = (Inr (Some schema), (pm2, w2)) \<and>
       sv_validate S (tc_args c) schema = Inr None \<and>
       d_decision d = O_ALLOW \<and> d_event_type d = EV_ALLOW \<and>
       sv_write S (decision_entry S c d aid cid) w2 = (Inr seq, w3))"
proof -
  obtain pm' where "authorize_call S rid params (pm', w) = (Inr (Forward m), q)"
    using assms(1) by (rule tools_call_message)
  then obtain i t p1 x p2 where i: "i = engine_identity (sv_engine S w) (sv_identity S)"
    and re: "replay_stage S c i None (pm', w) = (Inr (Go t), p1)"
    and gr: "grant_stage S c t p1 = (Inr (Go x), p2)"
    and de: "decide_call S c i x p2 = (Inr (Go (Forward m)), q)"
    using assms(3) by (elim authorize_call_Forward) simp
  from re have t: "t = None" and r: "replay_cleared S c i w (snd p1)"
    using replay_stage_Go [OF assms(2)] by fastforce+
  obtain g where g: "matching_grant (sv_engine S (snd p1)) (Some (sv_identity S)) (sv_server S) (tc_tool c) = Some g"
    and "x = (None, g_compiled g)" "p2 = p1"
    using grant_stage_Go [OF assms(2) gr] t by metis
  with de have "decide_call S c i (None, g_compiled g) p1 = (Inr (Go (Forward m)), q)" by simp
  then obtain av v w2 w3 p3 n fs where pass: "attributes_bound S c (g_compiled g) (snd p1) av"
      "conditions_hold (filter (\<lambda>x. \<not> references_risk x) (g_compiled g)) av"
      "sv_is_blocked S (sv_server S) (tc_tool c) (snd p1) = (Inr False, w2)"
      "step_up_cleared S c i v w2 w3" "risk_cleared S c (g_compiled g) av v w3 (snd p3)"
    and co: "conclude S c v (None, n, fs) p3 = (Inr (Go (Forward m)), q)"
    by (rule decide_call_Go [OF assms(2)])
  have "permitted S c w (snd p3)"
    unfolding permitted_def using i r g pass by blast
  moreover obtain schema p4 d aid cid seq w4 where "input_schema_for S (tc_tool c) p3 = (Inr (Some schema), p4)"
      "sv_validate S (tc_args c) schema = Inr None" "d_decision d = O_ALLOW" "d_event_type d = EV_ALLOW"
      "sv_write S (decision_entry S c d aid cid) (snd p4) = (Inr seq, w4)" "m = forwarded c"
    using co by (rule conclude_Go [OF assms(2)])
  ultimately show ?thesis
    by (cases p3; cases p4) (simp, blast)
qed

text \<open>A session of \<open>ann\<close> on \<open>fs\<close>, where every component answers and the log is the world.\<close>

definition reader :: ident where
  "reader =
     \<lparr>i_id = ''ann'', i_auth_mode = Bearer, i_api_key_hash = Some ''h'', i_key_id = None,
      i_signing_secret_env = None, i_totp_secret_env = None, i_admin = False,
      i_allowed_servers =
        [\<lparr>g_server_id = ''fs'', g_allowed_tools = [''read''], g_denied_tools = [], g_conditions = [],
          g_compiled = []\<rparr>],
      i_attributes = [], i_signing_secret = [], i_totp_secret = []\<rparr>"

definition reader_engine :: policy_engine where
  "reader_engine =
     \<lparr>e_policy = \<lparr>p_version = 1, p_servers = [], p_identities = [reader],
        p_risk = \<lparr>tool_sensitivity = [], protected_repos = []\<rparr>\<rparr>,
      e_content_hash = [], e_raw = []\<rparr>"

definition read_tool :: json where
  "read_tool = JObj [(''name'', JStr ''read''), (''inputSchema'', JObj [])]"

definition quiet_session :: "decision_mode \<Rightarrow> audit_entry list interceptor" where
  "quiet_session mode =
     \<lparr>sv_identity = ''ann'', sv_server = ''fs'', sv_mode = mode,
      sv_engine = \<lambda>_. reader_engine, sv_now = \<lambda>_. 0,
      sv_write = \<lambda>e w. (Inr (int (length w) + 1), w @ [e]),
      sv_cache_get = \<lambda>_. ret_io (Some (JArr [read_tool])), sv_cache_put = \<lambda>_ _. ret_io ''hash'',
      sv_cache_invalidate = \<lambda>_. ret_io (), sv_drift_check = \<lambda>_ _ _. ret_io (),
      sv_is_blocked = \<lambda>_ _. ret_io False, sv_replay = \<lambda>_ _. ret_io None,
      sv_score = \<lambda>_ _ _ _ _. ret_io (10, []), sv_record_denial = \<lambda>_. ret_io (),
      sv_redeem_approval = \<lambda>_ _ _ _ _. ret_io None, sv_create_approval = \<lambda>_ _ _ _ _. ret_io ''a'',
      sv_redeem_challenge = \<lambda>_ _ _ _ _ _ _. ret_io None, sv_create_challenge = \<lambda>_ _ _ _ _. ret_io ''c'',
      sv_uuid = \<lambda>w. (''u'', w), sv_send = \<lambda>_. ret_io (), sv_await = \<lambda>_. raise_io (RuntimeError ''timeout''),
      sv_count_call = \<lambda>_ _ _ _ _ w. w, sv_count_replay = \<lambda>w. w, sv_args_hash = \<lambda>_. Inr ''h'',
      sv_validate = \<lambda>_ _. Inr None, sv_float_str = \<lambda>_. []\<rparr>"

definition idle_pump :: pump where
  "idle_pump = \<lparr>pm_pending = [], pm_internal = []\<rparr>"

definition read_params :: jdict where
  "read_params =
     [(''name'', JStr ''read''), (''arguments'', JObj []),
      (''_meta'', JObj [(approval_meta_key, JNull), (''trace'', JInt 1)])]"

lemmas session_eval =
  quiet_session_def reader_engine_def reader_def read_tool_def idle_pump_def read_params_def
  on_client_message_def authorize_call_def replay_stage_def replay_required_def grant_stage_def
  decide_call_def call_attributes_def abac_stage_def drift_stage_def step_up_stage_def risk_stage_def
  score_stage_def fresh_score_def threshold_stage_def threshold_outcome_def risk_challenge_min_def
  risk_approval_min_def risk_deny_above_def conclude_def validation_stage_def input_schema_for_def
  named_schema_def null_none_def final_decision_def make_decision_def shown_id_def emit_decision_def
  count_denial_def record_decision_def answer_decision_def record_tool_call_def call_label_def
  named_in_cache_def tick_def bind_flow_def bind_io_def catch_io_def call_of_def dget_or_def
  py_or_def meta_field_def set_pending_def flow_result_def Let_def engine_identity_def
  identities_index_def dict_of_def matching_grant_def with_score_def has_key_def

lemma read_call_forwarded:
  "\<exists>q. on_client_message (quiet_session ENFORCE) (Request (IdInt 1) ''tools/call'' (Some read_params))
     (idle_pump, []) =
   (Inr (Forward (Request (IdInt 1) ''tools/call''
      (Some [(''name'', JStr ''read''), (''arguments'', JObj []), (''_meta'', JObj [(''trace'', JInt 1)])]))), q)"
  by (simp add: session_eval forwarded_def strip_gateway_meta_def gateway_meta_keys_def without_keys_def
      nonce_meta_key_def timestamp_meta_key_def approval_meta_key_def challenge_id_meta_key_def
      challenge_proof_meta_key_def key_id_meta_key_def signature_meta_key_def)

theorem forwarded_call_was_permitted_witness:
  "\<exists>w1. permitted (quiet_session ENFORCE)
     (call_of (\<lambda>_. []) (IdInt 1) (Some read_params)) [] w1"
proof -
  obtain q where "on_client_message (quiet_session ENFORCE) (Request (IdInt 1) ''tools/call'' (Some read_params))
     (idle_pump, []) =
   (Inr (Forward (Request (IdInt 1) ''tools/call''
      (Some [(''name'', JStr ''read''), (''arguments'', JObj []), (''_meta'', JObj [(''trace'', JInt 1)])]))), q)"
    using read_call_forwarded by blast
  from forwarded_call_was_permitted [OF this _ refl] show ?thesis
    by (auto simp: quiet_session_def)
qed

section \<open>Metadata\<close>

lemma conclude_forwards:
  assumes "conclude S c v x p = (Inr (Go (Forward m)), q)" shows "m = forwarded c"
  using assms unfolding conclude_def
  by (cases x) (auto elim!: bind_flow_GoE bind_io_InrE elim: emit_decision_Forward)

lemma decide_call_forwards: "decide_call S c i x p = (Inr (Go (Forward m)), q) \<Longrightarrow> m = forwarded c"
  unfolding decide_call_def
  by (cases x) (auto elim!: bind_io_InrE bind_flow_GoE dest: conclude_forwards)

lemma map_of_filter_keys: "map_of (filter (\<lambda>p. P (fst p)) d) k = (if P k then map_of d k else None)"
  by (induction d) auto

lemma map_of_without_keys: "map_of (without_keys ks d) k = (if k \<in> set ks then None else map_of d k)"
  unfolding without_keys_def using map_of_filter_keys [of "\<lambda>k. k \<notin> set ks" d k] by simp

text \<open>No gateway key under \<open>_meta\<close>, everything else untouched.\<close>

definition stripped :: "jdict option \<Rightarrow> jdict option \<Rightarrow> bool" where
  "stripped before after \<longleftrightarrow>
     (before = None \<longleftrightarrow> after = None) \<and>
     (\<forall>d d'. before = Some d \<longrightarrow> after = Some d' \<longrightarrow>
        (\<forall>k. k \<noteq> ''_meta'' \<longrightarrow> map_of d' k = map_of d k) \<and>
        (\<forall>m m'. map_of d ''_meta'' = Some (JObj m) \<longrightarrow> map_of d' ''_meta'' = Some (JObj m') \<longrightarrow>
           (\<forall>k. map_of m' k = (if k \<in> set gateway_meta_keys then None else map_of m k))) \<and>
        (\<forall>m. map_of d' ''_meta'' = Some (JObj m) \<longrightarrow> (\<forall>k \<in> set gateway_meta_keys. map_of m k = None)))"

lemma strip_strips: "stripped params (strip_gateway_meta params)"
proof (cases params)
  case (Some d)
  show ?thesis
  proof (cases "map_of d ''_meta''")
    case (Some v)
    then show ?thesis
      using \<open>params = Some d\<close>
      by (cases v) (auto simp: stripped_def strip_gateway_meta_def dget_def Let_def map_of_without_keys)
  qed (use Some in \<open>auto simp: stripped_def strip_gateway_meta_def dget_def\<close>)
qed (simp add: stripped_def strip_gateway_meta_def)

text \<open>
  No request leaves the gateway with its own metadata: whatever the method, the mode
  and the outcome of the pipeline, a request that is forwarded keeps its id, its method
  and every other parameter, and its \<open>_meta\<close> holds none of the nonce, timestamp,
  approval, challenge, proof, key-id and signature keys. Only requests are covered: the
  second part is a notification whose signature goes upstream as it came.
\<close>

theorem forwarded_requests_are_stripped:
  "(on_client_message S (Request rid meth params) p = (Inr (Forward m), q) \<longrightarrow>
     (\<exists>params'. m = Request rid meth params' \<and> stripped params params')) \<and>
   on_client_message S
     (Notification ''notifications/progress'' (Some [(''_meta'', JObj [(signature_meta_key, JStr ''ab'')])])) p =
   (Inr (Forward
     (Notification ''notifications/progress'' (Some [(''_meta'', JObj [(signature_meta_key, JStr ''ab'')])]))), p)"
proof
  show "on_client_message S (Request rid meth params) p = (Inr (Forward m), q) \<longrightarrow>
     (\<exists>params'. m = Request rid meth params' \<and> stripped params params')"
  proof
    assume m: "on_client_message S (Request rid meth params) p = (Inr (Forward m), q)"
    show "\<exists>params'. m = Request rid meth params' \<and> stripped params params'"
    proof (cases "meth = ''tools/call''")
      case True
      with m obtain pm where "authorize_call S rid params (pm, snd p) = (Inr (Forward m), q)"
        by (cases p) (auto elim: tools_call_message)
      then obtain c i x p2 where c: "c = call_of (sv_float_str S) rid params"
        and d: "decide_call S c i x p2 = (Inr (Go (Forward m)), q)"
        by (elim authorize_call_Forward) blast
      from d have "m = forwarded c" by (rule decide_call_forwards)
      then show ?thesis
        using strip_strips True c by (auto simp: forwarded_def)
    next
      case False
      with m show ?thesis
        using strip_strips by (auto simp: on_client_message_def elim!: bind_io_InrE)
    qed
  qed
qed (simp add: on_client_message_def)

theorem forwarded_requests_are_stripped_witness:
  "stripped (Some [(''_meta'', JObj [(nonce_meta_key, JStr ''n'')])]) (Some [])"
proof -
  have "on_client_message (quiet_session ENFORCE)
      (Request (IdInt 1) ''ping'' (Some [(''_meta'', JObj [(nonce_meta_key, JStr ''n'')])])) (idle_pump, []) =
    (Inr (Forward (Request (IdInt 1) ''ping'' (Some []))),
     (\<lparr>pm_pending = [(IdInt 1, ''ping'')], pm_internal = []\<rparr>, []))"
    by (simp add: on_client_message_def set_pending_def bind_io_def idle_pump_def strip_gateway_meta_def
        without_keys_def gateway_meta_keys_def Let_def)
  with forwarded_requests_are_stripped show ?thesis by blast
qed

section \<open>Observing\<close>

definition goes_on :: "('w, 'a flow) ic_io \<Rightarrow> bool" where
  "goes_on m \<longleftrightarrow> (\<forall>p r q. m p \<noteq> (Inr (Stop r), q))"

named_theorems goes_on_intros

lemma goes_on_Go [goes_on_intros]: "goes_on (ret_io (Go a))"
  by (simp add: goes_on_def)

lemma goes_on_bind [goes_on_intros]: "(\<And>a. goes_on (f a)) \<Longrightarrow> goes_on (bind_io m f)"
  unfolding goes_on_def by (blast elim: bind_io_InrE)

lemma goes_on_flow [goes_on_intros]: "goes_on m \<Longrightarrow> (\<And>a. goes_on (f a)) \<Longrightarrow> goes_on (bind_flow m f)"
  unfolding goes_on_def by (blast elim: bind_flow_StopE)

lemma goes_on_if [goes_on_intros]: "(b \<Longrightarrow> goes_on m) \<Longrightarrow> (\<not> b \<Longrightarrow> goes_on n) \<Longrightarrow> goes_on (if b then m else n)"
  by simp

lemma goes_on_option [goes_on_intros]:
  "goes_on m \<Longrightarrow> (\<And>a. goes_on (f a)) \<Longrightarrow> goes_on (case x of None \<Rightarrow> m | Some a \<Rightarrow> f a)"
  by (cases x) auto

lemma goes_on_prod [goes_on_intros]: "(\<And>a b. goes_on (f a b)) \<Longrightarrow> goes_on (case x of (a, b) \<Rightarrow> f a b)"
  by (cases x) auto

lemma goes_on_retain: "sv_mode S = OBSERVE \<Longrightarrow> goes_on (retain S c t d)"
  by (simp add: goes_on_def retain_observe)

lemma observed_call_goes_on:
  assumes "sv_mode S = OBSERVE"
  shows "goes_on (replay_stage S c i t)" "goes_on (grant_stage S c t)" "goes_on (decide_call S c i x)"
proof -
  note retain = goes_on_retain [OF assms]
  show "goes_on (replay_stage S c i t)" "goes_on (grant_stage S c t)"
    unfolding replay_stage_def deny_replay_def grant_stage_def
    by (intro goes_on_intros retain)+
  have stages: "goes_on (abac_stage S c cs av n fs t)" "goes_on (drift_stage S c t)"
    "goes_on (threshold_stage S c v n' fs' t)" "goes_on (validation_stage S c n fs t)" for cs av n fs t v n' fs'
    unfolding abac_stage_def drift_stage_def threshold_stage_def Let_def validation_stage_def invalid_arguments_def
    by (intro goes_on_intros retain)+
  have "goes_on (step_up_stage S c i t)" "goes_on (risk_stage S c cs av v t)" "goes_on (conclude S c v y)"
    for cs av v t y
    unfolding step_up_stage_def risk_stage_def score_stage_def conclude_def
    by (intro goes_on_intros stages; simp add: assms)+
  then show "goes_on (decide_call S c i x)"
    unfolding decide_call_def by (intro goes_on_intros stages)
qed

text \<open>
  The end of an observed call: its row is written or not, from the world \<open>w\<close> to \<open>w'\<close>. Once
  written, only the metrics come after it; when the write fails, nothing does.
\<close>

definition observed_end ::
  "'w interceptor \<Rightarrow> tool_call \<Rightarrow> routed \<Rightarrow> pump \<times> 'w \<Rightarrow> bool" where
  "observed_end S c r q \<longleftrightarrow>
     (\<exists>d aid cid w x w' pm. sv_write S (decision_entry S c d aid cid) w = (x, w') \<and>
        (case x of
           Inr seq \<Rightarrow> r = Forward (forwarded c) \<and> record_tool_call S (tc_tool c) (d_event_type d) (pm, w') = (Inr (), q)
         | Inl e \<Rightarrow> r = Respond (audit_unavailable (tc_id c) ''audit log unavailable; call denied'') \<and> snd q = w'))"

lemma emit_decision_observed:
  assumes "sv_mode S = OBSERVE" and "emit_decision S c d aid cid p = (Inr r, q)"
  shows "observed_end S c r q"
proof -
  obtain p1 where cd: "count_denial S d p = (Inr (), p1)"
    using assms(2) unfolding emit_decision_def by (auto elim!: bind_io_InrE)
  obtain x w' where wr: "sv_write S (decision_entry S c d aid cid) (snd p1) = (x, w')" by (metis surj_pair)
  show ?thesis
  proof (cases x)
    case (Inl e)
    with assms cd wr have "r = Respond (audit_unavailable (tc_id c) ''audit log unavailable; call denied'') \<and> snd q = w'"
      by (auto simp: emit_decision_def bind_io_def record_decision_def catch_io_def outer_def drop_pending_def)
    with wr Inl show ?thesis unfolding observed_end_def by fastforce
  next
    case (Inr seq)
    from assms(2) cd wr Inr have "answer_decision S c (d\<lparr>d_audit_id := Some (int_str seq)\<rparr>) (fst p1, w') = (Inr r, q)"
      by (simp add: emit_decision_def bind_io_def record_decision_def catch_io_def outer_def Let_def assms(1))
    then have "r = Forward (forwarded c) \<and> record_tool_call S (tc_tool c) (d_event_type d) (fst p1, w') = (Inr (), q)"
      using assms(1) unfolding answer_decision_def by (auto elim!: bind_io_InrE)
    with wr Inr show ?thesis unfolding observed_end_def by fastforce
  qed
qed

lemma conclude_observed:
  assumes "sv_mode S = OBSERVE" and "conclude S c v x p = (Inr (Go r), q)"
  shows "observed_end S c r q"
proof -
  obtain d aid cid p' where "emit_decision S c d aid cid p' = (Inr r, q)"
    using assms(2) unfolding conclude_def by (cases x) (auto elim!: bind_flow_GoE bind_io_InrE)
  with assms(1) show ?thesis by (rule emit_decision_observed)
qed

lemma authorize_call_Go:
  assumes "authorize_call S rid params p = (Inr r, q)" and "sv_mode S = OBSERVE"
  obtains c i x p' where "c = call_of (sv_float_str S) rid params" and "decide_call S c i x p' = (Inr (Go r), q)"
proof -
  let ?c = "call_of (sv_float_str S) rid params"
  let ?i = "engine_identity (sv_engine S (snd p)) (sv_identity S)"
  obtain y where y: "bind_flow (replay_stage S ?c ?i None) (\<lambda>t.
      bind_flow (grant_stage S ?c t) (decide_call S ?c ?i)) p = (Inr y, q)" and r: "flow_result y = r"
    using assms(1) unfolding authorize_call_def Let_def by (auto elim!: bind_io_InrE)
  have "goes_on (bind_flow (replay_stage S ?c ?i None) (\<lambda>t. bind_flow (grant_stage S ?c t) (decide_call S ?c ?i)))"
    by (intro goes_on_intros observed_call_goes_on assms(2))
  then have "y \<noteq> Stop r'" for r'
    using y unfolding goes_on_def by blast
  with r have "y = Go r" by (cases y) (auto simp: flow_result_def)
  with y show thesis by (auto elim!: bind_flow_GoE intro: that)
qed

text \<open>An interceptor with other approval and challenge stores.\<close>

definition other_stores ::
  "'w interceptor \<Rightarrow> 'w interceptor \<Rightarrow> 'w interceptor" where
  "other_stores T S =
     S\<lparr>sv_redeem_approval := sv_redeem_approval T, sv_create_approval := sv_create_approval T,
       sv_redeem_challenge := sv_redeem_challenge T, sv_create_challenge := sv_create_challenge T\<rparr>"

lemma other_stores_fields [simp]:
  "sv_identity (other_stores T S) = sv_identity S" "sv_server (other_stores T S) = sv_server S"
  "sv_mode (other_stores T S) = sv_mode S" "sv_engine (other_stores T S) = sv_engine S"
  "sv_now (other_stores T S) = sv_now S" "sv_write (other_stores T S) = sv_write S"
  "sv_cache_get (other_stores T S) = sv_cache_get S" "sv_cache_put (other_stores T S) = sv_cache_put S"
  "sv_cache_invalidate (other_stores T S) = sv_cache_invalidate S"
  "sv_drift_check (other_stores T S) = sv_drift_check S" "sv_is_blocked (other_stores T S) = sv_is_blocked S"
  "sv_replay (other_stores T S) = sv_replay S" "sv_score (other_stores T S) = sv_score S"
  "sv_record_denial (other_stores T S) = sv_record_denial S" "sv_uuid (other_stores T S) = sv_uuid S"
  "sv_send (other_stores T S) = sv_send S" "sv_await (other_stores T S) = sv_await S"
  "sv_count_call (other_stores T S) = sv_count_call S" "sv_count_replay (other_stores T S) = sv_count_replay S"
  "sv_args_hash (other_stores T S) = sv_args_hash S" "sv_validate (other_stores T S) = sv_validate S"
  "sv_float_str (other_stores T S) = sv_float_str S"
  by (simp_all add: other_stores_def)

named_theorems store_free

lemma store_free_basics [store_free]:
  "the_engine (other_stores T S) = the_engine S"
  "make_decision (other_stores T S) = make_decision S"
  "decision_entry (other_stores T S) = decision_entry S"
  "policy_error_entry (other_stores T S) = policy_error_entry S"
  "abac_attributes e now (other_stores T S) = abac_attributes e now S"
  "call_label (other_stores T S) = call_label S"
  "shown_id (other_stores T S) = shown_id S"
  "new_internal_id (other_stores T S) = new_internal_id S"
  "fresh_score (other_stores T S) = fresh_score S"
  "replay_verdict (other_stores T S) = replay_verdict S"
  by (simp_all add: fun_eq_iff the_engine_def make_decision_def decision_entry_def policy_error_entry_def
      abac_attributes_def call_label_def shown_id_def new_internal_id_def fresh_score_def replay_verdict_def)

lemmas under_lambda = if_cong option.case_cong prod.case_cong

lemma store_free_parts [store_free]:
  "call_attributes (other_stores T S) = call_attributes S"
  "record_tool_call (other_stores T S) = record_tool_call S"
  "count_denial (other_stores T S) = count_denial S"
  "report_problem (other_stores T S) = report_problem S"
  "risk_decision (other_stores T S) = risk_decision S"
  "final_decision (other_stores T S) = final_decision S"
  "checked_tools (other_stores T S) = checked_tools S"
  by (intro ext; simp add: store_free call_attributes_def record_tool_call_def count_denial_def
      report_problem_def risk_decision_def final_decision_def checked_tools_def cong: under_lambda)+

lemma store_free_condition [store_free]:
  "failed_condition (other_stores T S) c cs av n fs = failed_condition S c cs av n fs"
  by (induction cs) (simp_all add: store_free cong: under_lambda)

lemma store_free_calls [store_free]:
  "answer_decision (other_stores T S) = answer_decision S"
  "refetch_tools (other_stores T S) = refetch_tools S"
  by (intro ext; simp add: store_free answer_decision_def refetch_tools_def cong: under_lambda)+

lemma store_free_schema [store_free]: "input_schema_for (other_stores T S) = input_schema_for S"
  by (intro ext) (simp add: store_free input_schema_for_def cong: under_lambda)

lemma store_free_observed:
  assumes "sv_mode S = OBSERVE"
  shows "record_decision (other_stores T S) = record_decision S"
    and "retain (other_stores T S) = retain S"
  using assms by (intro ext; simp add: record_decision_def retain_def store_free)+

lemma store_free_emit:
  "sv_mode S = OBSERVE \<Longrightarrow> emit_decision (other_stores T S) = emit_decision S"
  by (intro ext) (simp add: store_free store_free_observed emit_decision_def cong: under_lambda)

lemma store_free_stages:
  assumes "sv_mode S = OBSERVE"
  shows "replay_stage (other_stores T S) = replay_stage S"
    and "grant_stage (other_stores T S) = grant_stage S"
    and "abac_stage (other_stores T S) = abac_stage S"
    and "drift_stage (other_stores T S) = drift_stage S"
    and "threshold_stage (other_stores T S) = threshold_stage S"
    and "validation_stage (other_stores T S) = validation_stage S"
  using store_free_observed(2) [OF assms, of T]
  by (intro ext; simp add: store_free replay_stage_def deny_replay_def grant_stage_def
      abac_stage_def drift_stage_def threshold_stage_def validation_stage_def invalid_arguments_def
      cong: under_lambda)+

lemma store_free_pipeline:
  assumes "sv_mode S = OBSERVE"
  shows "step_up_stage (other_stores T S) = step_up_stage S"
    and "risk_stage (other_stores T S) = risk_stage S"
    and "conclude (other_stores T S) = conclude S"
  using store_free_stages [OF assms, of T] store_free_emit [OF assms, of T]
  by (intro ext; simp add: store_free assms step_up_stage_def risk_stage_def score_stage_def conclude_def
      cong: under_lambda)+

lemma store_free_authorize:
  "sv_mode S = OBSERVE \<Longrightarrow> authorize_call (other_stores T S) = authorize_call S"
  using store_free_stages [of S T] store_free_pipeline [of S T]
  by (intro ext) (simp add: store_free authorize_call_def decide_call_def Let_def cong: under_lambda)

text \<open>
  C6: Observing decides but does not stop. The last thing a run for a tool call does, but for
  counting it, is to write a row with its would-be decision: when the write returns, the call
  is forwarded; when it fails, the answer is that the audit log is unavailable; there is no
  other outcome. And observing offers and spends nothing: the run is the same whatever the
  approval and the challenge stores do.
\<close>

theorem observing_records_and_forwards:
  assumes "sv_mode S = OBSERVE"
    and "on_client_message S (Request rid ''tools/call'' params) p = (Inr r, q)"
    and "c = call_of (sv_float_str S) rid params"
  shows "(\<exists>d aid cid w x w' pm. sv_write S (decision_entry S c d aid cid) w = (x, w') \<and>
        (case x of
           Inr seq \<Rightarrow> r = Forward (forwarded c) \<and> record_tool_call S (tc_tool c) (d_event_type d) (pm, w') = (Inr (), q)
         | Inl e \<Rightarrow> r = Respond (audit_unavailable rid ''audit log unavailable; call denied'') \<and> snd q = w')) \<and>
    on_client_message (other_stores T S) (Request rid ''tools/call'' params) p = (Inr r, q)"
proof
  obtain pm where "authorize_call S rid params (pm, snd p) = (Inr r, q)"
    using assms(2) by (cases p) (auto elim: tools_call_message)
  then obtain i x p' where "decide_call S c i x p' = (Inr (Go r), q)"
    using assms(1,3) by (elim authorize_call_Go) auto
  then obtain v y p'' where "conclude S c v y p'' = (Inr (Go r), q)"
    unfolding decide_call_def by (cases x) (auto elim!: bind_io_InrE bind_flow_GoE)
  then have ended: "observed_end S c r q" by (rule conclude_observed [OF assms(1)])
  have rid: "rid = tc_id c" by (simp add: assms(3) call_of_def Let_def)
  show "\<exists>d aid cid w x w' pm. sv_write S (decision_entry S c d aid cid) w = (x, w') \<and>
        (case x of
           Inr seq \<Rightarrow> r = Forward (forwarded c) \<and> record_tool_call S (tc_tool c) (d_event_type d) (pm, w') = (Inr (), q)
         | Inl e \<Rightarrow> r = Respond (audit_unavailable rid ''audit log unavailable; call denied'') \<and> snd q = w')"
    using ended unfolding observed_end_def rid .
  show "on_client_message (other_stores T S) (Request rid ''tools/call'' params) p = (Inr r, q)"
    using assms(2) store_free_authorize [OF assms(1), of T]
    by (simp add: on_client_message_def cong: under_lambda)
qed

theorem observing_records_and_forwards_witness:
  "\<exists>r q. on_client_message (quiet_session OBSERVE) (Request (IdInt 1) ''tools/call'' None) (idle_pump, []) =
     (Inr r, q) \<and> r \<noteq> Respond (audit_unavailable (IdInt 1) ''audit log unavailable; call denied'') \<and>
     r = Forward (Request (IdInt 1) ''tools/call'' None)"
proof -
  have "\<exists>q. on_client_message (quiet_session OBSERVE) (Request (IdInt 1) ''tools/call'' None) (idle_pump, []) =
     (Inr (Forward (Request (IdInt 1) ''tools/call'' None)), q)"
    by (simp add: session_eval retain_def versioned_rule_def invalid_arguments_def forwarded_def strip_gateway_meta_def)
  then obtain q where "on_client_message (quiet_session OBSERVE) (Request (IdInt 1) ''tools/call'' None)
     (idle_pump, []) = (Inr (Forward (Request (IdInt 1) ''tools/call'' None)), q)" by blast
  with observing_records_and_forwards [OF _ this refl, of "quiet_session ENFORCE"] show ?thesis
    by (auto simp: quiet_session_def)
qed

section \<open>Tool lists\<close>

lemma serve_list_result:
  assumes "serve_list S rid result full hash p = (Inr m, q)" and "sv_mode S = ENFORCE"
    and "m \<noteq> audit_unavailable rid ''audit log unavailable; tools/list denied''"
  obtains tools kept served would_prune seq where "items_of full = Inr tools"
    and "prune (sv_float_str S) tools (Some (sv_identity S)) (sv_server S) (sv_engine S (snd p)) = Inr kept"
    and "sv_write S (list_entry S served would_prune) (snd p) = (Inr seq, snd q)"
    and "names_of S kept = Inr served"
    and "m = Response rid (served_result result (JArr kept)
      (int_str (engine_version (sv_engine S (snd p))) @ ''-'' @ hash))"
  using assms unfolding serve_list_def Let_def
  by (auto elim!: bind_io_InrE catch_io_cases split: if_splits dest!: outer_InrD)

lemma prune_tools_list_result:
  assumes "prune_tools_list S rid result p = (Inr m, q)"
  obtains "m = audit_unavailable rid ''drift check unavailable; tools/list denied''"
  | w1 p2 hash where "sv_drift_check S (sv_server S) (dget_or result ''tools'' (JArr [])) (sv_identity S) (snd p) =
        (Inr (), w1)"
    and "sv_cache_put S (sv_server S) (dget_or result ''tools'' (JArr [])) w1 = (Inr hash, snd p2)"
    and "serve_list S rid result (dget_or result ''tools'' (JArr [])) hash p2 = (Inr m, q)"
  using assms unfolding prune_tools_list_def Let_def
  by (fastforce elim!: bind_io_InrE catch_io_cases split: if_splits dest!: outer_InrD)

definition awaited :: "pump \<Rightarrow> request_id \<Rightarrow> bool" where
  "awaited pm rid \<longleftrightarrow> (case rid of IdStr s \<Rightarrow> map_of (pm_internal pm) s \<noteq> None | IdInt _ \<Rightarrow> False)"

lemma upstream_response:
  assumes "on_upstream_message S (Response rid result) (pm, w) = (Inr x, q)" and "\<not> awaited pm rid"
  shows "on_response S rid result (pm, w) = (Inr x, q)"
  using assms
  by (cases rid)
    (auto simp: on_upstream_message_def own_def bind_io_def internal_reply_def settle_internal_def awaited_def)

text \<open>
  C5: Enforcing, the reply to an id that is recorded as a tools/list request (and is not one
  the gateway awaits itself) reaches the client only after the drift check accepted the full
  list and the TOOLS_LIST row was written, and then with exactly the tools the identity may
  call, in the server's order; anything else is an error reply. A request that reuses the id
  before the reply replaces the record (\<open>reused_id_passes_full_list\<close>).
\<close>

theorem listed_tools_are_checked_and_allowed:
  assumes "on_upstream_message S (Response rid result) (pm, w) = (Inr (Some m), q)"
    and "map_of (pm_pending pm) rid = Some ''tools/list''" and "\<not> awaited pm rid"
    and "sv_mode S = ENFORCE"
  shows "(\<exists>why. m = audit_unavailable rid why) \<or>
    (\<exists>tools w1 w2 e seq w3 hash served would_prune.
       items_of (dget_or result ''tools'' (JArr [])) = Inr tools \<and>
       sv_drift_check S (sv_server S) (dget_or result ''tools'' (JArr [])) (sv_identity S) w = (Inr (), w1) \<and>
       sv_cache_put S (sv_server S) (dget_or result ''tools'' (JArr [])) w1 = (Inr hash, w2) \<and>
       e = sv_engine S w2 \<and>
       sv_write S (list_entry S served would_prune) w2 = (Inr seq, w3) \<and>
       m = Response rid (served_result result
         (JArr (filter (\<lambda>t. is_allowed e (Some (sv_identity S)) (sv_server S) (tool_name (sv_float_str S) t)) tools))
         (int_str (engine_version e) @ ''-'' @ hash)))"
proof -
  from assms(1,3) have "on_response S rid result (pm, w) = (Inr (Some m), q)" by (rule upstream_response)
  with assms(2) obtain p1 where "prune_tools_list S rid result p1 = (Inr m, q)" and "snd p1 = w"
    by (auto simp: on_response_def own_def drop_pending_def bind_io_def Let_def
        split: prod.splits sum.splits)
  then consider "m = audit_unavailable rid ''drift check unavailable; tools/list denied''"
    | w1 p3 hash where "sv_drift_check S (sv_server S) (dget_or result ''tools'' (JArr [])) (sv_identity S) w =
        (Inr (), w1)"
      "sv_cache_put S (sv_server S) (dget_or result ''tools'' (JArr [])) w1 = (Inr hash, snd p3)"
      "serve_list S rid result (dget_or result ''tools'' (JArr [])) hash p3 = (Inr m, q)"
    by (elim prune_tools_list_result) auto
  then show ?thesis
  proof cases
    case (2 w1 p3 hash)
    show ?thesis
    proof (cases "m = audit_unavailable rid ''audit log unavailable; tools/list denied''")
      case False
      with 2(3) assms(4) show ?thesis
        using 2(1,2) \<open>snd p1 = w\<close>
        by (elim serve_list_result) (auto dest!: prune_filter)
    qed blast
  qed blast
qed

lemmas list_eval =
  on_upstream_message_def own_def internal_reply_def settle_internal_def on_response_def drop_pending_def
  prune_tools_list_def serve_list_def served_result_def names_of_def is_allowed_def engine_version_def

lemma int_str_1: "int_str 1 = ''1''"
  by code_simp

lemma list_reply:
  "\<exists>q. on_upstream_message (quiet_session ENFORCE)
      (Response (IdInt 1) [(''tools'', JArr [JObj [(''name'', JStr ''drop'')], read_tool])])
      (\<lparr>pm_pending = [(IdInt 1, ''tools/list'')], pm_internal = []\<rparr>, []) =
    (Inr (Some (Response (IdInt 1)
          [(''tools'', JArr [read_tool]), (''_meta'', JObj [(''etag'', JStr ''1-hash'')])])), q)"
  by (simp add: session_eval list_eval int_str_1)

theorem listed_tools_are_checked_and_allowed_witness:
  "filter (\<lambda>t. is_allowed reader_engine (Some ''ann'') ''fs'' (tool_name (\<lambda>_. []) t))
     [JObj [(''name'', JStr ''drop'')], read_tool] = [read_tool]"
proof -
  obtain q where r: "on_upstream_message (quiet_session ENFORCE)
      (Response (IdInt 1) [(''tools'', JArr [JObj [(''name'', JStr ''drop'')], read_tool])])
      (\<lparr>pm_pending = [(IdInt 1, ''tools/list'')], pm_internal = []\<rparr>, []) =
    (Inr (Some (Response (IdInt 1)
          [(''tools'', JArr [read_tool]), (''_meta'', JObj [(''etag'', JStr ''1-hash'')])])), q)"
    using list_reply by blast
  from listed_tools_are_checked_and_allowed [OF r] show ?thesis
    by (auto simp: awaited_def quiet_session_def served_result_def audit_unavailable_def error_reply_def
        dget_or_def)
qed

text \<open>
  A client defeats the pruning by reusing the id of its tools/list request: the
  second request overwrites the pending entry, so the list passes as the server sent it,
  unchecked and unrecorded. Without the second request the tool without a grant is gone.
\<close>

theorem reused_id_passes_full_list:
  "let full = JArr [JObj [(''name'', JStr ''drop'')], read_tool];
       S = quiet_session ENFORCE;
       listed = snd (on_client_message S (Request (IdInt 1) ''tools/list'' None) (idle_pump, []));
       pinged = snd (on_client_message S (Request (IdInt 1) ''ping'' None) listed)
   in fst (on_upstream_message S (Response (IdInt 1) [(''tools'', full)]) pinged) =
        Inr (Some (Response (IdInt 1) [(''tools'', full)])) \<and>
      snd (snd (on_upstream_message S (Response (IdInt 1) [(''tools'', full)]) pinged)) = [] \<and>
      fst (on_upstream_message S (Response (IdInt 1) [(''tools'', full)]) listed) =
        Inr (Some (Response (IdInt 1)
          [(''tools'', JArr [read_tool]), (''_meta'', JObj [(''etag'', JStr ''1-hash'')])]))"
  by (simp add: session_eval list_eval int_str_1)

end
