(* ===== verification/Explainer.thy ===== *)
theory Explainer
  imports Mediation
begin

text \<open>
  \<open>services/gateway/decision_explainer.py\<close>: the decision a past audit row recorded, and
  the dry run of the pipeline for a hypothetical call. The services are fields of a
  record, as for the interceptor; the validation of a stored risk factor is a parameter.
\<close>

section \<open>Outcomes and alternatives\<close>

fun event_outcome :: "event_type \<Rightarrow> decision_outcome option" where
  "event_outcome EV_ALLOW = Some O_ALLOW"
| "event_outcome EV_APPROVED = Some O_ALLOW"
| "event_outcome EV_DENY_RBAC = Some O_DENY"
| "event_outcome EV_DENY_ABAC = Some O_DENY"
| "event_outcome EV_DENY_REPLAY = Some O_DENY"
| "event_outcome EV_DENY_DRIFT = Some O_DENY"
| "event_outcome EV_DENY_RISK = Some O_DENY"
| "event_outcome EV_DENY_VALIDATION = Some O_DENY"
| "event_outcome EV_DENY_APPROVAL_MISMATCH = Some O_DENY"
| "event_outcome EV_DENY_STEP_UP = Some O_DENY"
| "event_outcome EV_EXPIRED = Some O_DENY"
| "event_outcome EV_CHALLENGE = Some O_CHALLENGE"
| "event_outcome EV_HUMAN_APPROVAL_REQUIRED = Some O_HUMAN_APPROVAL_REQUIRED"
| "event_outcome _ = None"

fun fallback_rules :: "event_type \<Rightarrow> string list option" where
  "fallback_rules EV_DENY_REPLAY = Some [''replay_guard'']"
| "fallback_rules EV_DENY_DRIFT = Some [''drift_detector'']"
| "fallback_rules EV_DENY_RISK = Some [''risk_engine'']"
| "fallback_rules EV_CHALLENGE = Some [''risk_engine'']"
| "fallback_rules EV_HUMAN_APPROVAL_REQUIRED = Some [''risk_engine'']"
| "fallback_rules EV_DENY_VALIDATION = Some [''param_validator'']"
| "fallback_rules EV_DENY_APPROVAL_MISMATCH = Some [''approval_lifecycle'']"
| "fallback_rules EV_EXPIRED = Some [''approval_lifecycle'']"
| "fallback_rules EV_APPROVED = Some [''admin_approval'']"
| "fallback_rules _ = None"

definition alternative :: "decision_outcome \<Rightarrow> int option \<Rightarrow> decision_outcome option" where
  "alternative outcome score =
     (case score of
        None \<Rightarrow> None
      | Some n \<Rightarrow> (let mapped = threshold_outcome n in if mapped \<noteq> outcome then Some mapped else None))"

section \<open>A past row\<close>

text \<open>What pydantic takes for a list of strings, a string, a list of risk factors.\<close>

fun str_item :: "json \<Rightarrow> string res" where
  "str_item (JStr s) = Inr s"
| "str_item v = Inl (ValueError ''validation error for Decision'')"

definition not_a_decision :: "audit_row \<Rightarrow> exn" where
  "not_a_decision r = LookupError (''audit row '' @ int_str (a_seq r) @ '' is not a decision'')"

definition legacy_rules :: "audit_row \<Rightarrow> event_type \<Rightarrow> string list res" where
  "legacy_rules r event =
     (let versioned = (\<lambda>rule. Inr [''policy-v'' @ int_str (a_policy_version r) @ '':'' @ rule])
      in if event = EV_DENY_RBAC then versioned ''rbac''
         else if event = EV_DENY_ABAC then versioned ''abac''
         else if event = EV_ALLOW then versioned ''rbac''
         else case fallback_rules event of Some rules \<Rightarrow> Inr rules | None \<Rightarrow> Inl KeyError)"

definition row_rules :: "audit_row \<Rightarrow> event_type \<Rightarrow> string list res" where
  "row_rules r event =
     (if dget (a_payload r) ''matched_rules'' = JNull then legacy_rules r event
      else bind_res (items_of (dget (a_payload r) ''matched_rules'')) (\<lambda>rules.
             collect_res (map str_item rules)))"

definition row_reason :: "(pyfloat \<Rightarrow> string) \<Rightarrow> audit_row \<Rightarrow> event_type \<Rightarrow> string res" where
  "row_reason fl r event =
     str_item (py_or (dget (a_payload r) ''reason'')
       (JStr (event_value event @ '' recorded for '' @
         (case a_tool_name r of None \<Rightarrow> ''None'' | Some t \<Rightarrow> py_repr t))))"

definition row_factors ::
  "(json \<Rightarrow> risk_factor res) \<Rightarrow> audit_row \<Rightarrow> risk_factor list option res" where
  "row_factors factor_of r =
     (if dget (a_payload r) ''risk_factors'' = JNull then Inr None
      else bind_res (items_of (dget (a_payload r) ''risk_factors'')) (\<lambda>fs.
           bind_res (collect_res (map factor_of fs)) (\<lambda>fs. Inr (Some fs))))"

definition row_mode :: "audit_row \<Rightarrow> decision_mode res" where
  "row_mode r =
     (case map_of (a_payload r) ''mode'' of
        None \<Rightarrow> Inr ENFORCE
      | Some (JStr s) \<Rightarrow> mode_of_value s
      | Some _ \<Rightarrow> Inl (ValueError ''not a valid DecisionMode''))"

definition from_audit_row ::
  "(pyfloat \<Rightarrow> string) \<Rightarrow> (json \<Rightarrow> risk_factor res) \<Rightarrow> audit_row \<Rightarrow> decision res" where
  "from_audit_row fl factor_of r =
     (case event_of_value (a_event_type r) of
        None \<Rightarrow> Inl (not_a_decision r)
      | Some event \<Rightarrow>
          (case event_outcome event of
             None \<Rightarrow> Inl (not_a_decision r)
           | Some outcome \<Rightarrow>
               bind_res (row_rules r event) (\<lambda>rules.
               bind_res (row_factors factor_of r) (\<lambda>factors.
               bind_res (row_mode r) (\<lambda>mode.
               bind_res (row_reason fl r event) (\<lambda>why.
                 Inr \<lparr>d_decision = outcome, d_event_type = event, d_mode = mode, d_reason = why,
                      d_matched_rules = rules, d_risk_score = a_risk_score r, d_risk_factors = factors,
                      d_policy_version = a_policy_version r, d_audit_id = Some (int_str (a_seq r)),
                      d_approval_id = None, d_challenge_id = None,
                      d_alternative = alternative outcome (a_risk_score r)\<rparr>))))))"

section \<open>A hypothetical call\<close>

record 'w explainer =
  xp_engine :: policy_engine
  xp_mode :: decision_mode
  xp_validate_params :: bool
  xp_now :: rat
  xp_is_blocked :: "string \<Rightarrow> string \<Rightarrow> ('w, bool) io"
  xp_dry_score :: "string \<Rightarrow> string \<Rightarrow> string \<Rightarrow> json \<Rightarrow> risk_policy \<Rightarrow> ('w, int \<times> risk_factor list) io"
  xp_cache_get :: "string \<Rightarrow> ('w, json option) io"
  xp_validate :: "json \<Rightarrow> json \<Rightarrow> string option res"

record hypothetical =
  hy_identity :: string
  hy_tool :: string
  hy_server :: string
  hy_arguments :: jdict
  hy_context :: jdict

text \<open>\<open>_context_hour\<close>: an integer hour, else a numeric timestamp, else now.\<close>

definition context_hour :: "rat \<Rightarrow> jdict \<Rightarrow> int res" where
  "context_hour now context =
     (case dget context ''hour'' of
        JInt n \<Rightarrow> Inr n
      | _ \<Rightarrow> (case timestamp_hour (dget context ''timestamp'') of Some h \<Rightarrow> h | None \<Rightarrow> hour_of now))"

definition decide ::
  "'w explainer \<Rightarrow> decision_outcome \<Rightarrow> event_type \<Rightarrow> string \<Rightarrow> string list \<Rightarrow> int option \<Rightarrow>
     risk_factor list option \<Rightarrow> decision" where
  "decide X outcome event why rules score factors =
     \<lparr>d_decision = outcome, d_event_type = event, d_mode = xp_mode X, d_reason = why,
      d_matched_rules = rules, d_risk_score = score, d_risk_factors = factors,
      d_policy_version = engine_version (xp_engine X), d_audit_id = None, d_approval_id = None,
      d_challenge_id = None, d_alternative = alternative outcome score\<rparr>"

text \<open>A stage returns its decision, or goes on with the retained one.\<close>

datatype 'a verdict = Return decision | Continue 'a

definition bind_verdict ::
  "('w, 'a verdict) io \<Rightarrow> ('a \<Rightarrow> ('w, 'b verdict) io) \<Rightarrow> ('w, 'b verdict) io" where
  "bind_verdict m f =
     bind_io m (\<lambda>v. case v of Return d \<Rightarrow> ret_io (Return d) | Continue a \<Rightarrow> f a)"

definition keep :: "'w explainer \<Rightarrow> decision option \<Rightarrow> decision \<Rightarrow> decision option verdict" where
  "keep X terminal candidate =
     (let t = (case terminal of None \<Rightarrow> candidate | Some d \<Rightarrow> d)
      in if xp_mode X = ENFORCE then Return t else Continue (Some t))"

definition deny_abac ::
  "'w explainer \<Rightarrow> condition \<Rightarrow> string option \<Rightarrow> int option \<Rightarrow> risk_factor list option \<Rightarrow> decision" where
  "deny_abac X cond problem score factors =
     decide X O_DENY EV_DENY_ABAC
       (''condition '' @ py_repr (c_source cond) @ '' not satisfied'' @
        (case problem of None \<Rightarrow> [] | Some why \<Rightarrow> '' ('' @ why @ '')''))
       (versioned_rule (''abac:'' @ c_source cond) (xp_engine X)) score factors"

fun check_conditions :: "condition list \<Rightarrow> attrs \<Rightarrow> (condition \<times> string option) option" where
  "check_conditions [] av = None"
| "check_conditions (cond # conds) av =
     (case condition_verdict cond av of (satisfied, problem) \<Rightarrow>
        if \<not> satisfied then Some (cond, problem) else check_conditions conds av)"

definition conditions_stage ::
  "'w explainer \<Rightarrow> condition list \<Rightarrow> attrs \<Rightarrow> int option \<Rightarrow> risk_factor list option \<Rightarrow> decision option \<Rightarrow>
     decision option verdict" where
  "conditions_stage X conds av score factors terminal =
     (case check_conditions conds av of
        None \<Rightarrow> Continue terminal
      | Some (cond, problem) \<Rightarrow> keep X terminal (deny_abac X cond problem score factors))"

definition explain_rbac :: "'w explainer \<Rightarrow> hypothetical \<Rightarrow> (decision option \<times> condition list) verdict" where
  "explain_rbac X h =
     (case matching_grant (xp_engine X) (Some (hy_identity h)) (hy_server h) (hy_tool h) of
        Some g \<Rightarrow> Continue (None, g_compiled g)
      | None \<Rightarrow>
          (case keep X None
             (decide X O_DENY EV_DENY_RBAC
                (''identity '' @ py_repr (hy_identity h) @ '' is not authorized to call '' @ py_repr (hy_tool h))
                (versioned_rule ''rbac'' (xp_engine X)) None None) of
             Return d \<Rightarrow> Return d | Continue t \<Rightarrow> Continue (t, [])))"

definition explain_attributes :: "'w explainer \<Rightarrow> hypothetical \<Rightarrow> attrs res" where
  "explain_attributes X h =
     bind_res (context_hour (xp_now X) (hy_context h)) (\<lambda>hour.
       Inr (fold (\<lambda>(k, v). al_put (''identity.'' @ k) v)
         (case engine_identity (xp_engine X) (hy_identity h) of None \<Rightarrow> [] | Some i \<Rightarrow> i_attributes i)
         [(''identity.id'', AStr (hy_identity h)), (''tool.name'', AStr (hy_tool h)),
          (''tool.server_id'', AStr (hy_server h)), (''context.hour'', AInt hour)]))"

definition explain_drift ::
  "'w explainer \<Rightarrow> hypothetical \<Rightarrow> decision option \<Rightarrow> ('w, decision option verdict) io" where
  "explain_drift X h terminal =
     bind_io (catch_io (xp_is_blocked X (hy_server h) (hy_tool h)) (\<lambda>_. ret_io True)) (\<lambda>blocked.
       if blocked
       then ret_io (keep X terminal (decide X O_DENY EV_DENY_DRIFT
              (py_repr (hy_tool h) @ '' is blocked: schema drifted from its approved baseline'' @
               '' and is pending re-approval'') [''drift_detector''] None None))
       else ret_io (Continue terminal))"

definition dry_score :: "'w explainer \<Rightarrow> hypothetical \<Rightarrow> ('w, int \<times> risk_factor list) io" where
  "dry_score X h =
     catch_io
       (xp_dry_score X (hy_identity h) (hy_server h) (hy_tool h) (JObj (hy_arguments h))
          (p_risk (e_policy (xp_engine X))))
       (\<lambda>_. ret_io (100, [unavailable_factor]))"

definition qualifier :: "decision_mode \<Rightarrow> string" where
  "qualifier mode = (if mode = OBSERVE then ''would require'' else ''requires'')"

definition explain_threshold ::
  "'w explainer \<Rightarrow> hypothetical \<Rightarrow> int \<Rightarrow> risk_factor list \<Rightarrow> decision option \<Rightarrow> decision option verdict" where
  "explain_threshold X h score factors terminal =
     (let head = ''risk score '' @ int_str score @ '' for '' @ py_repr (hy_tool h);
          decided = (\<lambda>outcome event why. keep X terminal
            (decide X outcome event why [''risk_engine''] (Some score) (Some factors)))
      in case threshold_outcome score of
           O_DENY \<Rightarrow> decided O_DENY EV_DENY_RISK (head @ '' exceeds the deny threshold (90)'')
         | O_HUMAN_APPROVAL_REQUIRED \<Rightarrow>
             decided O_HUMAN_APPROVAL_REQUIRED EV_HUMAN_APPROVAL_REQUIRED
               (head @ '' '' @ qualifier (xp_mode X) @ '' human approval'')
         | O_CHALLENGE \<Rightarrow>
             decided O_CHALLENGE EV_CHALLENGE (head @ '' '' @ qualifier (xp_mode X) @ '' confirmation'')
         | O_ALLOW \<Rightarrow> Continue terminal)"

definition explain_allow :: "'w explainer \<Rightarrow> hypothetical \<Rightarrow> int \<Rightarrow> risk_factor list \<Rightarrow> decision option \<Rightarrow> decision"
  where
  "explain_allow X h score factors terminal =
     (case terminal of
        Some d \<Rightarrow> d
      | None \<Rightarrow> decide X O_ALLOW EV_ALLOW (''call to '' @ py_repr (hy_tool h) @ '' would be allowed'')
          (versioned_rule ''rbac'' (xp_engine X)) (Some score) (Some factors))"

definition deny_validation ::
  "'w explainer \<Rightarrow> hypothetical \<Rightarrow> int \<Rightarrow> risk_factor list \<Rightarrow> decision option \<Rightarrow> string \<Rightarrow>
     decision option verdict" where
  "deny_validation X h score factors terminal detail =
     keep X terminal (decide X O_DENY EV_DENY_VALIDATION
       (''invalid arguments for '' @ py_repr (hy_tool h) @ '': '' @ detail) [''param_validator'']
       (Some score) (Some factors))"

text \<open>\<open>t.get("inputSchema", {}) for t in tools if t.get("name") == tool_name\<close>, the first.\<close>

fun first_schema :: "json list \<Rightarrow> string \<Rightarrow> json option res" where
  "first_schema [] n = Inr None"
| "first_schema (JObj d # ts) n =
     (if py_eq (dget d ''name'') (JStr n) then Inr (Some (dget_or d ''inputSchema'' (JObj [])))
      else first_schema ts n)"
| "first_schema (_ # ts) n = Inl AttributeError"

definition cached_schema :: "json option \<Rightarrow> string \<Rightarrow> json option res" where
  "cached_schema tools n =
     (case tools of
        None \<Rightarrow> Inr None
      | Some v \<Rightarrow> bind_res (items_of v) (\<lambda>ts. bind_res (first_schema ts n) (\<lambda>s.
          Inr (case s of None \<Rightarrow> None | Some v \<Rightarrow> null_none v))))"

definition uncached_detail :: string where
  "uncached_detail =
     ''tool schema not cached; explain fails closed'' @
     '' (a live call would re-fetch it from the upstream)''"

definition explain_cached ::
  "'w explainer \<Rightarrow> hypothetical \<Rightarrow> ('w, json option) io" where
  "explain_cached X h =
     bind_io (catch_io (xp_cache_get X (hy_server h)) (\<lambda>_. ret_io None)) (\<lambda>tools.
       ret_io (case tools of None \<Rightarrow> None | Some v \<Rightarrow> null_none v))"

text \<open>Three checks, each of which an observing run only retains.\<close>

definition explain_validation ::
  "'w explainer \<Rightarrow> hypothetical \<Rightarrow> int \<Rightarrow> risk_factor list \<Rightarrow> decision option \<Rightarrow>
     ('w, decision option verdict) io" where
  "explain_validation X h score factors terminal =
     bind_io (explain_cached X h) (\<lambda>tools.
     bind_verdict (ret_io (if tools = None then deny_validation X h score factors terminal uncached_detail
                           else Continue terminal)) (\<lambda>t.
     bind_io (of_res (cached_schema tools (hy_tool h))) (\<lambda>schema.
     bind_verdict (ret_io (if schema = None
                           then deny_validation X h score factors t ''tool schema unavailable from upstream''
                           else Continue t)) (\<lambda>t.
     bind_io (of_res (case schema of None \<Rightarrow> Inr None | Some v \<Rightarrow> xp_validate X (JObj (hy_arguments h)) v))
       (\<lambda>error. ret_io (case error of None \<Rightarrow> Continue t | Some why \<Rightarrow> deny_validation X h score factors t why))))))"

definition explain_scored ::
  "'w explainer \<Rightarrow> hypothetical \<Rightarrow> condition list \<Rightarrow> attrs \<Rightarrow> decision option \<Rightarrow> ('w, decision option verdict) io" where
  "explain_scored X h conds av terminal =
     bind_io (dry_score X h) (\<lambda>(score, factors).
     bind_verdict (ret_io (conditions_stage X (filter references_risk conds)
        (al_put ''risk.score'' (AInt score) av) (Some score) (Some factors)
        (with_score score factors terminal))) (\<lambda>t.
     bind_verdict (ret_io (explain_threshold X h score factors t)) (\<lambda>t.
     bind_verdict (if xp_validate_params X then explain_validation X h score factors t else ret_io (Continue t)) (\<lambda>t.
       ret_io (Return (explain_allow X h score factors t))))))"

definition verdict_decision :: "'a verdict \<Rightarrow> decision res" where
  "verdict_decision v = (case v of Return d \<Rightarrow> Inr d | Continue _ \<Rightarrow> Inl AssertionError)"

definition explain_call :: "'w explainer \<Rightarrow> hypothetical \<Rightarrow> ('w, decision) io" where
  "explain_call X h =
     bind_io
       (bind_verdict (ret_io (explain_rbac X h)) (\<lambda>(terminal, conds).
        bind_io (of_res (explain_attributes X h)) (\<lambda>av.
        bind_verdict (ret_io (conditions_stage X (filter (\<lambda>x. \<not> references_risk x) conds) av None None terminal))
          (\<lambda>t.
        bind_verdict (explain_drift X h t) (\<lambda>t. explain_scored X h conds av t)))))
       (\<lambda>v. of_res (verdict_decision v))"

section \<open>What a recorded decision explains as\<close>

lemma decision_payload:
  assumes "plain_key k"
  shows "map_of (entry_payload A version (decision_entry S c d aid cid)) k =
     map_option jsonb_safe (map_of (rev (decision_extra (sv_mode S) d (tc_args c) aid cid) @
       payload_fields (d_event_type d) (sv_identity S) (Some (sv_server S)) (Some (tc_tool c)) version (aw_key_id A)) k)"
proof -
  have "distinct (map fst (merged (payload_fields (d_event_type d) (sv_identity S) (Some (sv_server S))
      (Some (tc_tool c)) version (aw_key_id A)) (decision_extra (sv_mode S) d (tc_args c) aid cid)))"
    unfolding merged_def by (rule distinct_foldl_al_put) (simp add: payload_fields_def)
  from safe_dict_field [OF assms this] show ?thesis
    by (simp add: entry_payload_def audit_payload_def decision_entry_def merged_def foldl_al_put_map_of)
qed

lemma decision_keys: "plain_key ''mode''" "plain_key ''reason''" "plain_key ''matched_rules''" "plain_key ''risk_factors''"
  by (simp_all add: plain_key_def)

lemma decision_fields:
  fixes d S c A version aid cid
  defines "p \<equiv> entry_payload A version (decision_entry S c d aid cid)"
  shows "map_of p ''mode'' = Some (JStr (mode_value (d_mode d)))"
    and "map_of p ''reason'' = Some (JStr (escape_nul (d_reason d)))"
    and "map_of p ''matched_rules'' = Some (JArr (map (JStr \<circ> escape_nul) (d_matched_rules d)))"
    and "map_of p ''risk_factors'' =
      map_option (\<lambda>fs. JArr (map (jsonb_safe \<circ> factor_json) fs)) (d_risk_factors d)"
proof -
  show "map_of p ''mode'' = Some (JStr (mode_value (d_mode d)))"
    unfolding p_def decision_payload [OF decision_keys(1)]
    by (cases "d_mode d") (auto simp: decision_extra_def payload_fields_def escape_nul_id split: option.splits)
  show "map_of p ''reason'' = Some (JStr (escape_nul (d_reason d)))"
    unfolding p_def decision_payload [OF decision_keys(2)] by (simp add: decision_extra_def payload_fields_def split: option.splits)
  show "map_of p ''matched_rules'' = Some (JArr (map (JStr \<circ> escape_nul) (d_matched_rules d)))"
    unfolding p_def decision_payload [OF decision_keys(3)]
    by (simp add: decision_extra_def payload_fields_def comp_def split: option.splits)
  show "map_of p ''risk_factors'' = map_option (\<lambda>fs. JArr (map (jsonb_safe \<circ> factor_json) fs)) (d_risk_factors d)"
    unfolding p_def decision_payload [OF decision_keys(4)]
    by (simp add: decision_extra_def payload_fields_def comp_def split: option.splits)
qed

text \<open>
  C19: Explaining the row of a decision gives the decision back: outcome, event, mode, reason,
  rules (with NUL escaped, as the column stores them), score and factors as decided, the
  version and the sequence number of the row, and the alternative its score stands for.
\<close>

theorem recorded_decision_explained:
  assumes "event_outcome (d_event_type d) = Some (d_decision d)" and "d_reason d \<noteq> []"
    and "\<And>fs f. d_risk_factors d = Some fs \<Longrightarrow> f \<in> set fs \<Longrightarrow> factor_of (jsonb_safe (factor_json f)) = Inr f"
  shows "from_audit_row fl factor_of (new_row sign now A version (decision_entry S c d aid cid) prev hash) =
    Inr (d\<lparr>d_reason := escape_nul (d_reason d), d_matched_rules := map escape_nul (d_matched_rules d),
      d_policy_version := version, d_audit_id := Some (int_str (aw_next_seq A)), d_approval_id := None,
      d_challenge_id := None, d_alternative := alternative (d_decision d) (d_risk_score d)\<rparr>)"
proof -
  let ?r = "new_row sign now A version (decision_entry S c d aid cid) prev hash"
  have p: "a_payload ?r = entry_payload A version (decision_entry S c d aid cid)" by (simp add: new_row_def)
  have ev: "event_of_value (a_event_type ?r) = Some (d_event_type d)"
    by (simp add: new_row_def decision_entry_def event_of_value_value)
  have rules: "row_rules ?r e = Inr (map escape_nul (d_matched_rules d))" for e
    by (simp add: row_rules_def p dget_def decision_fields comp_def collect_res_all_Inr)
  have mode: "row_mode ?r = Inr (d_mode d)"
    by (cases "d_mode d") (simp_all add: row_mode_def p decision_fields)
  have "escape_nul (d_reason d) \<noteq> []" using assms(2) by (simp add: escape_nul_Nil)
  then have why: "row_reason fl ?r e = Inr (escape_nul (d_reason d))" for e
    by (simp add: row_reason_def p dget_def decision_fields py_or_def)
  have factors: "row_factors factor_of ?r = Inr (d_risk_factors d)"
  proof (cases "d_risk_factors d")
    case (Some fs)
    then have "map factor_of (map (jsonb_safe \<circ> factor_json) fs) = map (\<lambda>f. Inr (id f)) fs"
      using assms(3) by simp
    then have "collect_res (map factor_of (map (jsonb_safe \<circ> factor_json) fs)) = Inr fs"
      by (simp only: collect_res_all_Inr) simp
    with Some show ?thesis by (simp add: row_factors_def p dget_def decision_fields)
  qed (simp add: row_factors_def p dget_def decision_fields)
  show ?thesis
    unfolding from_audit_row_def ev
    by (simp add: assms(1) rules factors mode why) (simp add: new_row_def decision_entry_def)
qed

definition read_factor :: "json \<Rightarrow> risk_factor res" where
  "read_factor v =
     (case v of
        JObj d \<Rightarrow>
          (case (dget d ''factor'', dget d ''contribution'', dget d ''reason'') of
             (JStr f, JInt n, JStr r) \<Rightarrow> Inr \<lparr>rf_factor = f, rf_contribution = n, rf_reason = Some r\<rparr>
           | _ \<Rightarrow> Inl (ValueError ''validation error for RiskFactor''))
      | _ \<Rightarrow> Inl (ValueError ''validation error for RiskFactor''))"

definition burst_denial :: decision where
  "burst_denial =
     \<lparr>d_decision = O_DENY, d_event_type = EV_DENY_RISK, d_mode = ENFORCE, d_reason = ''too risky'',
      d_matched_rules = [''risk_engine''], d_risk_score = Some 95,
      d_risk_factors = Some [mk_factor ''frequency'' 95 ''burst''], d_policy_version = 1, d_audit_id = None,
      d_approval_id = None, d_challenge_id = None, d_alternative = None\<rparr>"

definition fresh_writer :: audit_writer where
  "fresh_writer =
     \<lparr>aw_rows = [], aw_next_seq = 1, aw_signing_key = ''k'', aw_key_id = ''sha256:k'', aw_available = True,
      aw_pointer_dirty = False\<rparr>"

theorem recorded_decision_explained_witness:
  "from_audit_row (\<lambda>_. []) read_factor
     (new_row (\<lambda>_ _. []) 0 fresh_writer 1
       (decision_entry (quiet_session ENFORCE) (call_of (\<lambda>_. []) (IdInt 1) (Some read_params)) burst_denial None None)
       genesis_hash ''h'') =
   Inr (burst_denial\<lparr>d_audit_id := Some ''1''\<rparr>)"
proof -
  have factors: "read_factor (jsonb_safe (factor_json f)) = Inr f"
    if "d_risk_factors burst_denial = Some fs" "f \<in> set fs" for fs f
    using that by (auto simp: burst_denial_def mk_factor_def factor_json_def read_factor_def dget_def map_of_dict_of
        escape_nul_def)
  have "event_outcome (d_event_type burst_denial) = Some (d_decision burst_denial)" "d_reason burst_denial \<noteq> []"
    by (simp_all add: burst_denial_def)
  from recorded_decision_explained [OF this factors, where fl = "\<lambda>_. []" and sign = "\<lambda>_ _. []" and now = 0
      and A = fresh_writer and version = 1 and S = "quiet_session ENFORCE" and aid = None and cid = None
      and c = "call_of (\<lambda>_. []) (IdInt 1) (Some read_params)" and prev = genesis_hash and hash = "''h''"]
  show ?thesis
    by (simp add: burst_denial_def fresh_writer_def escape_nul_def alternative_def threshold_outcome_def
        risk_deny_above_def int_str_1)
qed

end
