(* ===== verification/DryRun.thy ===== *)
theory DryRun
  imports Explainer
begin

text \<open>
  The dry run of \<open>decision_explainer.py\<close> against the pipeline of
  \<open>jsonrpc_interceptor.py\<close>: with components that answer both alike, a plain enforced
  call is explained as ALLOW exactly when it is forwarded.
\<close>

section \<open>Attributes as maps\<close>

lemma operand_val_cong: "map_of av = map_of bv \<Longrightarrow> operand_val e av = operand_val e bv"
  by (induction e av rule: operand_val.induct) auto

lemma eval_chain_cong: "map_of av = map_of bv \<Longrightarrow> eval_chain l ops cs av = eval_chain l ops cs bv"
proof (induction l ops cs av rule: eval_chain.induct)
  case (2 l op ops c cs av)
  then show ?case
    using operand_val_cong [OF 2(2)] by (cases "operand_val c bv"; cases "compare_vals op l (projr (operand_val c bv))") auto
qed auto

lemma eval_expr_cong:
  "map_of av = map_of bv \<Longrightarrow> eval_expr e av = eval_expr e bv"
  "map_of av = map_of bv \<Longrightarrow> eval_all es av = eval_all es bv"
  "map_of av = map_of bv \<Longrightarrow> eval_any es av = eval_any es bv"
proof (induction e av and es av and es av rule: eval_expr_eval_all_eval_any.induct)
  case (4 l ops cs av)
  then show ?case using operand_val_cong [OF 4] eval_chain_cong [OF 4] by simp
next
  case (7 v vs av)
  then show ?case by (cases "eval_expr v bv") auto
next
  case (9 v vs av)
  then show ?case by (cases "eval_expr v bv") auto
qed auto

lemma evaluate_cong:
  assumes "map_of av = map_of bv"
  shows "evaluate c av = evaluate c bv"
proof -
  have "missing_paths c av = missing_paths c bv" using assms by (simp add: missing_paths_def)
  with eval_expr_cong(1) [OF assms, of "c_tree c"] show ?thesis by (simp add: evaluate_def cong: if_cong)
qed

lemma conditions_hold_cong:
  assumes "map_of av = map_of bv"
  shows "conditions_hold cs av \<longleftrightarrow> conditions_hold cs bv"
  unfolding conditions_hold_def by (simp add: evaluate_cong [OF assms])

lemma conditions_hold_Nil [simp]: "conditions_hold [] av"
  by (simp add: conditions_hold_def)

definition put_all :: "(string \<Rightarrow> 'k) \<Rightarrow> (string \<times> 'v) list \<Rightarrow> ('k \<times> 'v) list \<Rightarrow> ('k \<times> 'v) list" where
  "put_all f kvs d = fold (\<lambda>(k, v). al_put (f k) v) kvs d"

lemma put_all_simps [simp]:
  "put_all f [] d = d" "put_all f ((k, v) # kvs) d = put_all f kvs (al_put (f k) v d)"
  by (simp_all add: put_all_def)

lemma map_of_put_all: "map_of (put_all f kvs d) = map_of d ++ map_of (rev (map (\<lambda>(k, v). (f k, v)) kvs))"
proof (induction kvs arbitrary: d)
  case (Cons kv kvs)
  then show ?case by (cases kv) (simp add: map_add_def fun_eq_iff split: option.splits)
qed simp

lemma put_all_other:
  assumes "\<And>k. f k \<noteq> z"
  shows "map_of (put_all f kvs (al_put z x d)) = map_of (al_put z x (put_all f kvs d))"
proof -
  have "z \<notin> range f" using assms by (metis rangeE)
  then have "map_of (rev (map (\<lambda>(k, v). (f k, v)) kvs)) z = None"
    by (induction kvs) auto
  then show ?thesis by (auto simp: map_of_put_all map_add_def fun_eq_iff split: option.splits)
qed

section \<open>Explained as ALLOW\<close>

definition allows :: "('w, 'a verdict) io \<Rightarrow> 'w \<Rightarrow> bool" where
  "allows m u \<longleftrightarrow> (\<exists>d v. m u = (Inr (Return d), v) \<and> d_decision d = O_ALLOW)"

lemma bind_verdict_ret [simp]:
  "bind_verdict (ret_io (Continue a)) f = f a" "bind_verdict (ret_io (Return d)) f = ret_io (Return d)"
  by (auto simp: bind_verdict_def fun_eq_iff bind_io_def)

lemma bind_verdict_pair [simp]: "bind_verdict (Pair (Inr v)) f = bind_verdict (ret_io v) f"
  by (auto simp: bind_verdict_def fun_eq_iff bind_io_def)

lemma allows_simps [simp]:
  "allows (ret_io (Return d)) u \<longleftrightarrow> d_decision d = O_ALLOW"
  "allows (bind_io (of_res (Inl e)) f) u = False"
  "allows (bind_io (of_res (Inr a)) f) u = allows (f a) u"
  by (auto simp: allows_def bind_io_def)

lemma allows_bind_Inr: "m u = (Inr a, v) \<Longrightarrow> allows (bind_io m f) u = allows (f a) v"
  by (simp add: allows_def bind_io_def)

lemma decide_decision [simp]: "d_decision (decide X outcome event why rules score factors) = outcome"
  by (simp add: decide_def)

lemma check_conditions_None: "check_conditions cs av = None \<longleftrightarrow> conditions_hold cs av"
proof (induction cs)
  case Nil
  then show ?case by (simp add: conditions_hold_def)
next
  case (Cons c cs)
  obtain b problem where v: "condition_verdict c av = (b, problem)" by force
  show ?case
  proof (cases b)
    case True
    then show ?thesis using v Cons condition_verdict_True [of c av problem] by (simp add: conditions_hold_def)
  next
    case False
    then have "evaluate c av \<noteq> Inr (True, [])" using v by (auto simp: condition_verdict_def)
    then show ?thesis using v False by (simp add: conditions_hold_def)
  qed
qed

lemma conditions_stage_enforce:
  assumes "xp_mode X = ENFORCE"
  shows "allows (bind_verdict (ret_io (conditions_stage X cs av n fs None)) f) u \<longleftrightarrow>
    conditions_hold cs av \<and> allows (f None) u"
  using assms check_conditions_None [of cs av]
  by (cases "check_conditions cs av") (auto simp: conditions_stage_def keep_def deny_abac_def)

lemma threshold_enforce:
  assumes "xp_mode X = ENFORCE"
  shows "allows (bind_verdict (ret_io (explain_threshold X h score fs None)) f) u \<longleftrightarrow>
    threshold_outcome score = O_ALLOW \<and> allows (f None) u"
  using assms by (cases "threshold_outcome score") (auto simp: explain_threshold_def Let_def keep_def)

section \<open>Components that answer alike\<close>

definition answer_is :: "('w, 'a) io \<Rightarrow> 'a res \<Rightarrow> bool" where
  "answer_is m r \<longleftrightarrow> (\<forall>u. fst (m u) = r)"

lemma answer_is_ret: "answer_is (ret_io a) (Inr a)"
  by (simp add: answer_is_def)

lemma answer_is_result: "answer_is m r \<Longrightarrow> m u = (r', v) \<Longrightarrow> r' = r"
  unfolding answer_is_def by (metis fst_conv)

lemma answer_is_catch:
  assumes "answer_is m r"
  shows "answer_is (catch_io m (\<lambda>_. ret_io b)) (Inr (case r of Inl _ \<Rightarrow> b | Inr a \<Rightarrow> a))"
  unfolding answer_is_def
proof
  fix u
  obtain v where "m u = (r, v)" using assms by (metis answer_is_def surjective_pairing)
  then show "fst (catch_io m (\<lambda>_. ret_io b) u) = Inr (case r of Inl _ \<Rightarrow> b | Inr a \<Rightarrow> a)"
    by (cases r) (simp_all add: catch_io_def)
qed

lemma answer_is_bind_ret:
  assumes "answer_is m (Inr a)"
  shows "answer_is (bind_io m (\<lambda>x. ret_io (f x))) (Inr (f a))"
  unfolding answer_is_def
proof
  fix u
  obtain v where "m u = (Inr a, v)" using assms by (metis answer_is_def surjective_pairing)
  then show "fst (bind_io m (\<lambda>x. ret_io (f x)) u) = Inr (f a)" by (simp add: bind_io_def)
qed

lemma answer_is_outer: "answer_is m r \<Longrightarrow> answer_is (outer m) r"
  by (auto simp: answer_is_def outer_def split: prod.splits) (metis fst_conv)

text \<open>What lets a plain call pass, given the answers of the components.\<close>

definition cleared ::
  "'w explainer \<Rightarrow> hypothetical \<Rightarrow> bool res \<Rightarrow> (int \<times> risk_factor list) res \<Rightarrow> json \<Rightarrow> bool" where
  "cleared X h blocked score tools \<longleftrightarrow>
     (\<exists>g av n fs schema.
        matching_grant (xp_engine X) (Some (hy_identity h)) (hy_server h) (hy_tool h) = Some g \<and>
        explain_attributes X h = Inr av \<and>
        conditions_hold (filter (\<lambda>x. \<not> references_risk x) (g_compiled g)) av \<and>
        blocked = Inr False \<and> score = Inr (n, fs) \<and>
        conditions_hold (filter references_risk (g_compiled g)) (al_put ''risk.score'' (AInt n) av) \<and>
        threshold_outcome n = O_ALLOW \<and>
        cached_schema (Some tools) (hy_tool h) = Inr (Some schema) \<and>
        xp_validate X (JObj (hy_arguments h)) schema = Inr None)"

definition dry_answers ::
  "'w explainer \<Rightarrow> hypothetical \<Rightarrow> bool res \<Rightarrow> (int \<times> risk_factor list) res \<Rightarrow> json \<Rightarrow> bool" where
  "dry_answers X h blocked score tools \<longleftrightarrow>
     xp_mode X = ENFORCE \<and> xp_validate_params X \<and> tools \<noteq> JNull \<and>
     answer_is (xp_is_blocked X (hy_server h) (hy_tool h)) blocked \<and>
     answer_is (xp_dry_score X (hy_identity h) (hy_server h) (hy_tool h) (JObj (hy_arguments h))
       (p_risk (e_policy (xp_engine X)))) score \<and>
     answer_is (xp_cache_get X (hy_server h)) (Inr (Some tools))"

lemma allows_answered:
  assumes "answer_is m (Inr a)" and "\<And>v. allows (f a) v = P"
  shows "allows (bind_io m f) u = P"
proof -
  obtain v where "m u = (Inr a, v)" using assms(1) by (metis answer_is_def surjective_pairing)
  then show ?thesis using assms(2) by (simp add: allows_bind_Inr)
qed

lemma bind_verdict_bind_io: "bind_verdict (bind_io m f) k = bind_io m (\<lambda>x. bind_verdict (f x) k)"
  by (auto simp: bind_verdict_def bind_io_def fun_eq_iff split: prod.splits sum.splits)

lemma bind_verdict_assoc: "bind_verdict (bind_verdict m f) g = bind_verdict m (\<lambda>x. bind_verdict (f x) g)"
  by (auto simp: bind_verdict_def bind_io_def fun_eq_iff split: prod.splits sum.splits verdict.splits)

lemma explain_drift_allows:
  assumes "dry_answers X h blocked score tools" and "\<And>v. allows (f None) v = P"
  shows "allows (bind_verdict (explain_drift X h None) f) u \<longleftrightarrow> blocked = Inr False \<and> P"
proof -
  have m: "xp_mode X = ENFORCE" using assms(1) by (simp add: dry_answers_def)
  have "answer_is (catch_io (xp_is_blocked X (hy_server h) (hy_tool h)) (\<lambda>_. ret_io True))
      (Inr (case blocked of Inl _ \<Rightarrow> True | Inr a \<Rightarrow> a))"
    using assms(1) by (intro answer_is_catch) (simp add: dry_answers_def)
  then show ?thesis
    unfolding explain_drift_def bind_verdict_bind_io
    by (rule allows_answered) (use m assms(2) in \<open>auto simp: keep_def split: sum.splits\<close>)
qed

lemma explain_validation_allows:
  assumes "dry_answers X h blocked score tools"
    and "\<And>v. allows (f None) v"
  shows "allows (bind_verdict (explain_validation X h n fs None) f) u \<longleftrightarrow>
    (\<exists>schema. cached_schema (Some tools) (hy_tool h) = Inr (Some schema) \<and>
       xp_validate X (JObj (hy_arguments h)) schema = Inr None)"
proof -
  have m: "xp_mode X = ENFORCE" "tools \<noteq> JNull" using assms(1) by (simp_all add: dry_answers_def)
  have "answer_is (catch_io (xp_cache_get X (hy_server h)) (\<lambda>_. ret_io None)) (Inr (Some tools))"
    using assms(1) answer_is_catch [of "xp_cache_get X (hy_server h)" "Inr (Some tools)" None]
    by (simp add: dry_answers_def)
  then have "answer_is (explain_cached X h) (Inr (null_none tools))"
    unfolding explain_cached_def
    using answer_is_bind_ret [of "catch_io (xp_cache_get X (hy_server h)) (\<lambda>_. ret_io None)" "Some tools"
        "case_option None null_none"] by simp
  then have c: "answer_is (explain_cached X h) (Inr (Some tools))"
    using m(2) by (simp add: null_none_def)
  have stopped: "\<not> allows (bind_verdict (ret_io (deny_validation X h n fs None why)) k) v"
    for why v and k :: "decision option \<Rightarrow> ('a, 'z verdict) io"
    by (simp add: deny_validation_def keep_def m)
  show ?thesis
    unfolding explain_validation_def bind_verdict_bind_io
  proof (rule allows_answered [OF c])
    fix v
    show "allows (bind_verdict (bind_verdict (ret_io (if Some tools = None
        then deny_validation X h n fs None uncached_detail else Continue None)) (\<lambda>t.
        bind_io (of_res (cached_schema (Some tools) (hy_tool h))) (\<lambda>schema.
        bind_verdict (ret_io (if schema = None
          then deny_validation X h n fs t ''tool schema unavailable from upstream'' else Continue t)) (\<lambda>t.
        bind_io (of_res (case schema of None \<Rightarrow> Inr None | Some v \<Rightarrow> xp_validate X (JObj (hy_arguments h)) v))
          (\<lambda>error. ret_io (case error of None \<Rightarrow> Continue t | Some why \<Rightarrow> deny_validation X h n fs t why)))))) f) v =
      (\<exists>schema. cached_schema (Some tools) (hy_tool h) = Inr (Some schema) \<and>
       xp_validate X (JObj (hy_arguments h)) schema = Inr None)"
    proof (cases "cached_schema (Some tools) (hy_tool h)")
      case (Inr schema)
      then show ?thesis
      proof (cases schema)
        case (Some v)
        with Inr show ?thesis
          using stopped assms(2)
          by (cases "xp_validate X (JObj (hy_arguments h)) v") (auto simp: bind_verdict_bind_io split: option.splits)
      qed (simp add: bind_verdict_bind_io bind_verdict_assoc stopped)
    qed (simp add: bind_verdict_bind_io)
  qed
qed

lemma explain_scored_allows:
  assumes "dry_answers X h blocked score tools"
  shows "allows (explain_scored X h conds av None) u \<longleftrightarrow>
    (\<exists>n fs schema. score = Inr (n, fs) \<and>
       conditions_hold (filter references_risk conds) (al_put ''risk.score'' (AInt n) av) \<and>
       threshold_outcome n = O_ALLOW \<and>
       cached_schema (Some tools) (hy_tool h) = Inr (Some schema) \<and>
       xp_validate X (JObj (hy_arguments h)) schema = Inr None)"
proof -
  have m: "xp_mode X = ENFORCE" "xp_validate_params X" using assms by (simp_all add: dry_answers_def)
  let ?r = "case score of Inl _ \<Rightarrow> (100, [unavailable_factor]) | Inr a \<Rightarrow> a"
  have c: "answer_is (dry_score X h) (Inr ?r)"
    unfolding dry_score_def using assms by (intro answer_is_catch) (simp add: dry_answers_def)
  obtain n fs where r: "?r = (n, fs)" by fastforce
  have "allows (explain_scored X h conds av None) u \<longleftrightarrow>
      conditions_hold (filter references_risk conds) (al_put ''risk.score'' (AInt n) av) \<and>
      threshold_outcome n = O_ALLOW \<and>
      (\<exists>schema. cached_schema (Some tools) (hy_tool h) = Inr (Some schema) \<and>
         xp_validate X (JObj (hy_arguments h)) schema = Inr None)"
    unfolding explain_scored_def
    by (rule allows_answered [OF c])
      (simp add: r m with_score_def conditions_stage_enforce threshold_enforce
        explain_validation_allows [OF assms] explain_allow_def)
  with r show ?thesis
    by (cases score) (auto simp: unavailable_score)
qed

lemma returned_allows:
  "(\<exists>d v. bind_io m (\<lambda>x. of_res (verdict_decision x)) u = (Inr d, v) \<and> d_decision d = O_ALLOW) \<longleftrightarrow> allows m u"
proof -
  obtain r v where r: "m u = (r, v)" by force
  show ?thesis
  proof (cases r)
    case (Inr x)
    with r show ?thesis by (cases x) (auto simp: allows_def bind_io_def verdict_decision_def of_res_def)
  qed (use r in \<open>auto simp: allows_def bind_io_def\<close>)
qed

lemma explain_call_allows:
  assumes "dry_answers X h blocked score tools"
  shows "(\<exists>d v. explain_call X h u = (Inr d, v) \<and> d_decision d = O_ALLOW) \<longleftrightarrow> cleared X h blocked score tools"
proof -
  have m: "xp_mode X = ENFORCE" using assms by (simp add: dry_answers_def)
  have pipeline: "allows (bind_verdict (ret_io (conditions_stage X (filter (\<lambda>x. \<not> references_risk x) conds) av None None None))
      (\<lambda>t. bind_verdict (explain_drift X h t) (\<lambda>t. explain_scored X h conds av t))) v \<longleftrightarrow>
    conditions_hold (filter (\<lambda>x. \<not> references_risk x) conds) av \<and> blocked = Inr False \<and>
    (\<exists>n fs schema. score = Inr (n, fs) \<and>
       conditions_hold (filter references_risk conds) (al_put ''risk.score'' (AInt n) av) \<and>
       threshold_outcome n = O_ALLOW \<and>
       cached_schema (Some tools) (hy_tool h) = Inr (Some schema) \<and>
       xp_validate X (JObj (hy_arguments h)) schema = Inr None)" for conds av v
    by (simp add: conditions_stage_enforce [OF m]
        explain_drift_allows [OF assms, where f = "explain_scored X h conds av", OF explain_scored_allows [OF assms]])
  show ?thesis
  proof (cases "matching_grant (xp_engine X) (Some (hy_identity h)) (hy_server h) (hy_tool h)")
    case None
    then show ?thesis
      using m unfolding explain_call_def returned_allows
      by (simp add: explain_rbac_def keep_def cleared_def)
  next
    case (Some g)
    then show ?thesis
      unfolding explain_call_def returned_allows
      by (cases "explain_attributes X h") (auto simp: explain_rbac_def pipeline cleared_def)
  qed
qed

section \<open>The live call\<close>

definition live_answers ::
  "'w interceptor \<Rightarrow> tool_call \<Rightarrow> policy_engine \<Rightarrow> bool res \<Rightarrow> (int \<times> risk_factor list) res \<Rightarrow> json \<Rightarrow> bool"
  where
  "live_answers S c e blocked score tools \<longleftrightarrow>
     sv_mode S = ENFORCE \<and> tools \<noteq> JNull \<and> sv_engine S = (\<lambda>_. e) \<and>
     answer_is (sv_is_blocked S (sv_server S) (tc_tool c)) blocked \<and>
     answer_is (sv_score S (sv_identity S) (sv_server S) (tc_tool c) (tc_args c) (p_risk (e_policy e))) score \<and>
     answer_is (sv_cache_get S (sv_server S)) (Inr (Some tools)) \<and>
     (\<forall>entry w. \<exists>seq. fst (sv_write S entry w) = Inr seq)"

text \<open>No nonce, no challenge, no approval: what a hypothetical call has.\<close>

definition plain_call :: "tool_call \<Rightarrow> ident option \<Rightarrow> bool" where
  "plain_call c i \<longleftrightarrow>
     replay_required i c = Inr False \<and> meta_field c timestamp_meta_key = Inr JNull \<and>
     meta_field c challenge_id_meta_key = Inr JNull \<and> meta_field c approval_meta_key = Inr JNull"

definition describes :: "hypothetical \<Rightarrow> 'w interceptor \<Rightarrow> tool_call \<Rightarrow> bool" where
  "describes h S c \<longleftrightarrow>
     hy_identity h = sv_identity S \<and> hy_tool h = tc_tool c \<and> hy_server h = sv_server S \<and>
     JObj (hy_arguments h) = tc_args c \<and> hy_context h = []"

definition same_setting :: "'w interceptor \<Rightarrow> 'u explainer \<Rightarrow> bool" where
  "same_setting S X \<longleftrightarrow>
     sv_engine S = (\<lambda>_. xp_engine X) \<and> sv_now S = (\<lambda>_. xp_now X) \<and> sv_validate S = xp_validate X \<and>
     (\<exists>hour. hour_of (xp_now X) = Inr hour)"

lemma same_attributes:
  assumes "plain_call c i" and "describes h S c" and "same_setting S X"
  obtains av bv where "explain_attributes X h = Inr av"
    and "abac_attributes (xp_engine X) (xp_now X) S c = Inr bv" and "map_of av = map_of bv"
proof -
  from assms(3) obtain hour where hour: "hour_of (xp_now X) = Inr hour" by (auto simp: same_setting_def)
  let ?kvs = "case engine_identity (xp_engine X) (sv_identity S) of None \<Rightarrow> [] | Some i \<Rightarrow> i_attributes i"
  let ?base = "[(''identity.id'', AStr (sv_identity S)), (''tool.name'', AStr (tc_tool c)),
    (''tool.server_id'', AStr (sv_server S))]"
  let ?av = "put_all (\<lambda>k. ''identity.'' @ k) ?kvs (al_put ''context.hour'' (AInt hour) ?base)"
  let ?bv = "al_put ''context.hour'' (AInt hour) (put_all (\<lambda>k. ''identity.'' @ k) ?kvs ?base)"
  have "explain_attributes X h = Inr ?av"
    using assms(2) hour
    by (simp add: explain_attributes_def describes_def context_hour_def dget_def put_all_def)
  moreover have "abac_attributes (xp_engine X) (xp_now X) S c = Inr ?bv"
    using assms(1) hour by (simp add: abac_attributes_def plain_call_def put_all_def)
  moreover have "map_of ?av = map_of ?bv"
    by (rule put_all_other) simp
  ultimately show thesis by (rule that)
qed

lemma same_schema: "cached_schema (Some tools) n = named_schema tools n"
proof -
  have "bind_res (first_schema ts n) (\<lambda>s. Inr (case s of None \<Rightarrow> None | Some v \<Rightarrow> null_none v)) =
      bind_res (first_named ts n) (\<lambda>t.
        case t of Some (JObj d) \<Rightarrow> Inr (null_none (dget_or d ''inputSchema'' (JObj []))) | _ \<Rightarrow> Inr None)" for ts
    by (induction ts n rule: first_schema.induct) auto
  then show ?thesis by (simp add: cached_schema_def named_schema_def)
qed

lemma conditions_split: "conditions_hold cs av \<longleftrightarrow> failed_condition S c cs av n fs p = (Inr None, p)"
proof
  assume "conditions_hold cs av"
  then show "failed_condition S c cs av n fs p = (Inr None, p)"
    by (induction cs) (simp_all add: conditions_hold_def condition_verdict_def report_problem_def)
qed (use failed_condition_None in blast)

lemma abac_stage_holds:
  "conditions_hold cs av \<Longrightarrow> abac_stage S c cs av n fs t p = (Inr (Go t), p)"
  using conditions_split [of cs av S c n fs p] by (simp add: abac_stage_def bind_io_def)

lemma answered:
  assumes "answer_is m (Inr a)"
  shows "\<exists>w. outer m p = (Inr a, (fst p, w))"
proof -
  obtain w where "m (snd p) = (Inr a, w)" using assms by (metis answer_is_def surjective_pairing)
  then show ?thesis by (simp add: outer_def)
qed

lemma drift_stage_unblocked:
  assumes "live_answers S c e (Inr False) score tools"
  obtains q where "drift_stage S c t p = (Inr (Go t), q)"
proof -
  have "answer_is (sv_is_blocked S (sv_server S) (tc_tool c)) (Inr False)"
    using assms by (simp add: live_answers_def)
  from answered [OF this, of p] obtain w where "outer (sv_is_blocked S (sv_server S) (tc_tool c)) p = (Inr False, (fst p, w))" ..
  then show thesis using that by (simp add: drift_stage_def bind_io_def catch_io_def)
qed

lemma risk_stage_passes:
  assumes "live_answers S c e blocked (Inr (n, fs)) tools" and "meta_field c approval_meta_key = Inr JNull"
    and "conditions_hold (filter references_risk conds) (al_put ''risk.score'' (AInt n) av)"
    and "threshold_outcome n = O_ALLOW"
  obtains q where "risk_stage S c conds av verified None p = (Inr (Go (None, Some n, Some fs)), q)"
proof -
  have e: "sv_engine S = (\<lambda>_. e)" using assms(1) by (simp add: live_answers_def)
  have "answer_is (sv_score S (sv_identity S) (sv_server S) (tc_tool c) (tc_args c) (p_risk (e_policy e))) (Inr (n, fs))"
    using assms(1) by (simp add: live_answers_def)
  from answered [OF this, of p] obtain w where "outer (sv_score S (sv_identity S) (sv_server S) (tc_tool c) (tc_args c) (p_risk (e_policy e))) p =
      (Inr (n, fs), (fst p, w))" ..
  then have "fresh_score S c p = (Inr (n, fs), (fst p, w))" by (simp add: fresh_score_def catch_io_def e)
  then show thesis
    using that assms(2,4) abac_stage_holds [OF assms(3), where S = S]
    by (simp add: risk_stage_def score_stage_def with_score_def bind_io_def bind_flow_def threshold_stage_def)
qed

lemma input_schema_cached:
  assumes "live_answers S c e blocked score tools" and "named_schema tools n = Inr (Some schema)"
  obtains q where "input_schema_for S n p = (Inr (Some schema), q)"
proof -
  have "answer_is (sv_cache_get S (sv_server S)) (Inr (Some tools))"
    using assms(1) by (simp add: live_answers_def)
  from answered [OF this, of p] obtain w where "outer (sv_cache_get S (sv_server S)) p = (Inr (Some tools), (fst p, w))" ..
  moreover have "tools \<noteq> JNull" using assms(1) by (simp add: live_answers_def)
  ultimately show thesis
    using that assms(2) by (simp add: input_schema_for_def bind_io_def catch_io_def null_none_def)
qed

lemma record_tool_call_returns: "\<exists>q. record_tool_call S n ev p = (Inr (), q)"
proof -
  obtain r q where l: "bind_io (outer (sv_cache_get S (sv_server S))) (\<lambda>tools.
      bind_io (of_res (named_in_cache tools n)) (\<lambda>known. ret_io (if known then n else ''other''))) p = (r, q)"
    by (rule prod.exhaust)
  have "\<exists>label. call_label S n p = (Inr label, q)"
    by (cases r) (simp_all add: call_label_def catch_io_def l)
  then show ?thesis by (auto simp: record_tool_call_def bind_io_def tick_def)
qed

lemma allow_emitted:
  assumes "live_answers S c e blocked score tools" and "d_decision d = O_ALLOW" and "d_event_type d = EV_ALLOW"
  obtains q where "emit_decision S c d aid cid p = (Inr (Forward (forwarded c)), q)"
proof -
  have m: "sv_mode S = ENFORCE" using assms(1) by (simp add: live_answers_def)
  obtain seq where "fst (sv_write S (decision_entry S c d aid cid) (snd p)) = Inr seq"
    using assms(1) by (auto simp: live_answers_def)
  then obtain w where "outer (sv_write S (decision_entry S c d aid cid)) p = (Inr seq, (fst p, w))"
    by (cases "sv_write S (decision_entry S c d aid cid) (snd p)") (simp add: outer_def)
  then have r: "record_decision S c b d aid cid p = (Inr (d\<lparr>d_audit_id := Some (int_str seq)\<rparr>), (fst p, w))" for b
    using m assms(2) by (simp add: record_decision_def bind_io_def Let_def)
  obtain q where "record_tool_call S (tc_tool c) EV_ALLOW (fst p, w) = (Inr (), q)"
    using record_tool_call_returns by blast
  then have "answer_decision S c (d\<lparr>d_audit_id := Some (int_str seq)\<rparr>) (fst p, w) = (Inr (Forward (forwarded c)), q)"
    using assms(2,3) by (simp add: answer_decision_def bind_io_def)
  with r show thesis
    using that assms(2) by (simp add: emit_decision_def count_denial_def bind_io_def catch_io_def)
qed

lemma conclude_passes:
  assumes "live_answers S c e blocked score tools" and "plain_call c i"
    and "named_schema tools (tc_tool c) = Inr (Some schema)" and "sv_validate S (tc_args c) schema = Inr None"
  obtains q where "conclude S c verified (None, n, fs) p = (Inr (Go (Forward (forwarded c))), q)"
proof -
  obtain p1 where "input_schema_for S (tc_tool c) p = (Inr (Some schema), p1)"
    using input_schema_cached [OF assms(1,3)] by blast
  then have v: "validation_stage S c n fs None p = (Inr (Go None), p1)"
    using assms(4) by (simp add: validation_stage_def bind_io_def)
  obtain d where d: "final_decision S c n fs None p1 = (Inr d, p1)" "d_decision d = O_ALLOW" "d_event_type d = EV_ALLOW"
    by (simp add: final_decision_def make_decision_def)
  obtain q where "emit_decision S c d (shown_id S JNull) (if verified then shown_id S JNull else None) p1 =
      (Inr (Forward (forwarded c)), q)"
    using allow_emitted [OF assms(1) d(2,3)] by blast
  with v d(1) assms(2) show thesis
    using that by (simp add: conclude_def plain_call_def bind_flow_def bind_io_def)
qed

lemma live_cleared:
  assumes "live_answers S c (xp_engine X) blocked score tools" and "plain_call c i" and "describes h S c"
    and "same_setting S X" and "cleared X h blocked score tools"
  obtains q where "decide_call S c i (None, g_compiled (the (matching_grant (xp_engine X) (Some (hy_identity h))
      (hy_server h) (hy_tool h)))) p = (Inr (Go (Forward (forwarded c))), q)"
proof -
  obtain g av n fs schema where g: "matching_grant (xp_engine X) (Some (hy_identity h)) (hy_server h) (hy_tool h) = Some g"
    and av: "explain_attributes X h = Inr av"
    and ab: "conditions_hold (filter (\<lambda>x. \<not> references_risk x) (g_compiled g)) av"
    and r: "blocked = Inr False" "score = Inr (n, fs)"
    and rk: "conditions_hold (filter references_risk (g_compiled g)) (al_put ''risk.score'' (AInt n) av)"
    and th: "threshold_outcome n = O_ALLOW"
    and sc: "cached_schema (Some tools) (hy_tool h) = Inr (Some schema)"
    and va: "xp_validate X (JObj (hy_arguments h)) schema = Inr None"
    using assms(5) unfolding cleared_def by blast
  obtain bv where bv: "abac_attributes (xp_engine X) (xp_now X) S c = Inr bv" "map_of av = map_of bv"
    using same_attributes [OF assms(2-4)] av by (metis sum.inject(2))
  define cv where "cv = (if g_compiled g = [] then [] else bv)"
  have at: "call_attributes S c (g_compiled g) p = (Inr cv, p)" for p
    using assms(4) bv(1) by (cases p) (simp add: call_attributes_def cv_def same_setting_def)
  have "conditions_hold (filter (\<lambda>x. \<not> references_risk x) (g_compiled g)) cv"
    using ab conditions_hold_cong [OF bv(2)] by (simp add: cv_def)
  note ab = abac_stage_holds [OF this, of S c None None None]
  have "map_of (al_put ''risk.score'' (AInt n) av) = map_of (al_put ''risk.score'' (AInt n) bv)"
    using bv(2) by simp
  from conditions_hold_cong [OF this] rk
  have rk: "conditions_hold (filter references_risk (g_compiled g)) (al_put ''risk.score'' (AInt n) cv)"
    by (simp add: cv_def)
  obtain p1 where dr: "drift_stage S c None p = (Inr (Go None), p1)"
    using drift_stage_unblocked assms(1) r(1) by blast
  have su: "step_up_stage S c i None p1 = (Inr (Go (None, False)), p1)"
    using assms(2) by (simp add: step_up_stage_def plain_call_def)
  obtain p2 where ri: "risk_stage S c (g_compiled g) cv False None p1 = (Inr (Go (None, Some n, Some fs)), p2)"
    using risk_stage_passes [OF _ _ rk th] assms(1,2) r(2) by (metis plain_call_def)
  have "named_schema tools (tc_tool c) = Inr (Some schema)" "sv_validate S (tc_args c) schema = Inr None"
    using sc va assms(3,4) by (simp_all add: same_schema describes_def same_setting_def)
  then obtain q where "conclude S c False (None, Some n, Some fs) p2 = (Inr (Go (Forward (forwarded c))), q)"
    using conclude_passes [OF assms(1,2)] by blast
  with at ab dr su ri g show thesis
    using that by (simp add: decide_call_def bind_flow_def bind_io_def)
qed

lemma live_forwards:
  assumes "live_answers S c (xp_engine X) blocked score tools" and "plain_call c (engine_identity (xp_engine X) (sv_identity S))"
    and "describes h S c" and "same_setting S X" and "cleared X h blocked score tools"
    and "c = call_of (sv_float_str S) rid params"
  shows "\<exists>m q. on_client_message S (Request rid ''tools/call'' params) p = (Inr (Forward m), q)"
proof -
  let ?i = "engine_identity (xp_engine X) (sv_identity S)"
  obtain g where g: "matching_grant (xp_engine X) (Some (hy_identity h)) (hy_server h) (hy_tool h) = Some g"
    using assms(5) unfolding cleared_def by blast
  have e: "sv_engine S = (\<lambda>_. xp_engine X)" using assms(4) by (simp add: same_setting_def)
  have gr: "grant_stage S c None p' = (Inr (Go (None, g_compiled g)), p')" for p'
    using g assms(3) by (simp add: grant_stage_def e describes_def)
  have re: "replay_stage S c ?i None p' = (Inr (Go None), p')" for p'
    using assms(2) by (simp add: replay_stage_def plain_call_def)
  obtain p' where "set_pending rid ''tools/call'' p = (Inr (), p')" by (simp add: set_pending_def)
  moreover obtain q where "decide_call S c ?i (None, g_compiled g) p' = (Inr (Go (Forward (forwarded c))), q)"
    using live_cleared [OF assms(1-5)] g by (metis option.sel)
  ultimately have "on_client_message S (Request rid ''tools/call'' params) p = (Inr (Forward (forwarded c)), q)"
    using re gr unfolding assms(6)
    by (simp add: on_client_message_def authorize_call_def bind_io_def bind_flow_def e flow_result_def Let_def)
  then show ?thesis by blast
qed

lemma forwarded_cleared:
  assumes "on_client_message S (Request rid ''tools/call'' params) p = (Inr (Forward m), q)"
    and "live_answers S c (xp_engine X) blocked score tools" and "plain_call c (engine_identity (xp_engine X) (sv_identity S))"
    and "describes h S c" and "same_setting S X" and "c = call_of (sv_float_str S) rid params"
  shows "cleared X h blocked score tools"
proof -
  let ?i = "engine_identity (xp_engine X) (sv_identity S)"
  have s: "sv_mode S = ENFORCE" "sv_engine S = (\<lambda>_. xp_engine X)" "sv_now S = (\<lambda>_. xp_now X)"
      "sv_validate S = xp_validate X" "tools \<noteq> JNull"
      "answer_is (sv_is_blocked S (sv_server S) (tc_tool c)) blocked"
      "answer_is (sv_score S (sv_identity S) (sv_server S) (tc_tool c) (tc_args c) (p_risk (e_policy (xp_engine X)))) score"
      "answer_is (sv_cache_get S (sv_server S)) (Inr (Some tools))"
    using assms(2,5) by (simp_all add: live_answers_def same_setting_def)
  have h: "hy_identity h = sv_identity S" "hy_tool h = tc_tool c" "hy_server h = sv_server S"
      "JObj (hy_arguments h) = tc_args c"
    using assms(4) by (simp_all add: describes_def)
  obtain pm' where "authorize_call S rid params (pm', snd p) = (Inr (Forward m), q)"
    using assms(1) by (cases p) (auto elim: tools_call_message)
  then obtain t p1 x p2 where re: "replay_stage S c ?i None (pm', snd p) = (Inr (Go t), p1)"
    and gr: "grant_stage S c t p1 = (Inr (Go x), p2)"
    and de: "decide_call S c ?i x p2 = (Inr (Go (Forward m)), q)"
    using assms(6) s(2) by (elim authorize_call_Forward) simp
  from re have t: "t = None" using replay_stage_Go [OF s(1)] by fastforce
  obtain g where g: "matching_grant (xp_engine X) (Some (sv_identity S)) (sv_server S) (tc_tool c) = Some g"
    and "x = (None, g_compiled g)"
    using grant_stage_Go [OF s(1) gr] t s(2) by metis
  with de have "decide_call S c ?i (None, g_compiled g) p2 = (Inr (Go (Forward m)), q)" by simp
  then obtain cv v w2 w3 p3 n fs where cv: "attributes_bound S c (g_compiled g) (snd p2) cv"
    and ab: "conditions_hold (filter (\<lambda>x. \<not> references_risk x) (g_compiled g)) cv"
    and bl: "sv_is_blocked S (sv_server S) (tc_tool c) (snd p2) = (Inr False, w2)"
    and su: "step_up_cleared S c ?i v w2 w3" and rk: "risk_cleared S c (g_compiled g) cv v w3 (snd p3)"
    and co: "conclude S c v (None, n, fs) p3 = (Inr (Go (Forward m)), q)"
    by (rule decide_call_Go [OF s(1)])
  obtain av bv where av: "explain_attributes X h = Inr av"
    and bv: "abac_attributes (xp_engine X) (xp_now X) S c = Inr bv" "map_of av = map_of bv"
    using same_attributes [OF assms(3-5)] by blast
  have cv: "g_compiled g \<noteq> [] \<Longrightarrow> cv = bv"
    using cv bv(1) s(2,3) by (simp add: attributes_bound_def)
  have holds: "conditions_hold (filter P (g_compiled g)) (f av)"
    if "conditions_hold (filter P (g_compiled g)) (f cv)" "map_of (f av) = map_of (f bv)" for P f
    using that(1) cv conditions_hold_cong [OF that(2)] by (cases "g_compiled g = []") simp_all
  have v: "\<not> v" using su assms(3) by (auto simp: step_up_cleared_def plain_call_def)
  obtain k ks where "sv_score S (sv_identity S) (sv_server S) (tc_tool c) (tc_args c)
      (p_risk (e_policy (xp_engine X))) w3 = (Inr (k, ks), snd p3)"
    and rk: "conditions_hold (filter references_risk (g_compiled g)) (al_put ''risk.score'' (AInt k) cv)"
    and th: "threshold_outcome k = O_ALLOW"
    using rk v assms(3) s(2) by (auto simp: risk_cleared_def plain_call_def score_cleared_def)
  with answer_is_result [OF s(7)] have score: "score = Inr (k, ks)" by metis
  have blocked: "blocked = Inr False" using answer_is_result [OF s(6) bl] by simp
  obtain schema p4 where schema: "input_schema_for S (tc_tool c) p3 = (Inr (Some schema), p4)"
    and va: "sv_validate S (tc_args c) schema = Inr None"
    using conclude_Go [OF s(1) co] by metis
  obtain w where "outer (sv_cache_get S (sv_server S)) p3 = (Inr (Some tools), (fst p3, w))"
    using answered [OF s(8), of p3] by blast
  with schema s(5) have "named_schema tools (tc_tool c) = Inr (Some schema)"
    by (auto simp: input_schema_for_def bind_io_def catch_io_def null_none_def of_res_def)
  then show ?thesis
    unfolding cleared_def h
    using g av blocked score th va s(4) bv(2)
      holds [where f = id and P = "\<lambda>x. \<not> references_risk x"] ab
      holds [where f = "al_put ''risk.score'' (AInt k)", OF rk]
    by (auto simp: same_schema)
qed

section \<open>Properties\<close>

text \<open>
  C18: The dry run predicts the pipeline. For a call without nonce, challenge or approval,
  described as it is and explained in enforce mode, when both ask components that answer
  alike (errors included), the schema cache is warm, the clock is in range and the audit log
  can be written: the explanation is ALLOW exactly when the live call is forwarded.
\<close>

theorem explained_allow_is_forwarded:
  assumes "c = call_of (sv_float_str S) rid params"
    and "plain_call c (engine_identity (xp_engine X) (sv_identity S))"
    and "describes h S c" and "same_setting S X"
    and "live_answers S c (xp_engine X) blocked score tools" and "dry_answers X h blocked score tools"
  shows "(\<exists>d v. explain_call X h u = (Inr d, v) \<and> d_decision d = O_ALLOW) \<longleftrightarrow>
    (\<exists>m q. on_client_message S (Request rid ''tools/call'' params) p = (Inr (Forward m), q))"
  using explain_call_allows [OF assms(6)] live_forwards [OF assms(5,2-4) _ assms(1)]
    forwarded_cleared [OF _ assms(5,2-4,1)] by blast

definition quiet_explainer :: "unit explainer" where
  "quiet_explainer =
     \<lparr>xp_engine = reader_engine, xp_mode = ENFORCE, xp_validate_params = True, xp_now = 0,
      xp_is_blocked = \<lambda>_ _. ret_io False, xp_dry_score = \<lambda>_ _ _ _ _. ret_io (10, []),
      xp_cache_get = \<lambda>_. ret_io (Some (JArr [read_tool])), xp_validate = \<lambda>_ _. Inr None\<rparr>"

definition read_question :: hypothetical where
  "read_question =
     \<lparr>hy_identity = ''ann'', hy_tool = ''read'', hy_server = ''fs'', hy_arguments = [], hy_context = []\<rparr>"

theorem explained_allow_is_forwarded_witness:
  "\<exists>d v. explain_call quiet_explainer read_question () = (Inr d, v) \<and> d_decision d = O_ALLOW"
proof -
  let ?S = "quiet_session ENFORCE" and ?c = "call_of (\<lambda>_. []) (IdInt 1) (Some read_params)"
  have c: "?c = call_of (sv_float_str ?S) (IdInt 1) (Some read_params)" by (simp add: quiet_session_def)
  have "plain_call ?c (engine_identity (xp_engine quiet_explainer) (sv_identity ?S))"
    by (simp add: plain_call_def quiet_explainer_def session_eval nonce_meta_key_def timestamp_meta_key_def
        approval_meta_key_def challenge_id_meta_key_def dget_def)
  moreover have "describes read_question ?S ?c"
    by (simp add: describes_def read_question_def session_eval dget_def)
  moreover have "same_setting ?S quiet_explainer"
    by (simp add: same_setting_def quiet_explainer_def quiet_session_def hour_of_def round_half_even_def
        min_timestamp_def max_timestamp_def)
  moreover have "live_answers ?S ?c (xp_engine quiet_explainer) (Inr False) (Inr (10, [])) (JArr [read_tool])"
    by (simp add: live_answers_def answer_is_def quiet_explainer_def quiet_session_def)
  moreover have "dry_answers quiet_explainer read_question (Inr False) (Inr (10, [])) (JArr [read_tool])"
    by (simp add: dry_answers_def answer_is_def quiet_explainer_def)
  ultimately show ?thesis
    using explained_allow_is_forwarded [OF c, of quiet_explainer read_question "Inr False" "Inr (10, [])"
        "JArr [read_tool]" "()" "(idle_pump, [])"] read_call_forwarded by blast
qed

end
