(* ===== verification/JsonScan.thy ===== *)
theory JsonScan
  imports Interceptor PyJson
begin

text \<open>
  The body of an MCP request in \<open>services/gateway/main.py\<close>: \<open>_buffer_body\<close> and the
  depth scan of \<open>_parse_mcp_body\<close>. Decoding, \<open>json.loads\<close> and the validation of the
  message are parameters. The scan is compared with the nesting of the value a JSON text
  denotes, by a relation between values and their texts.
\<close>

section \<open>Buffering\<close>

text \<open>\<open>BodyEvent chunk again\<close> is an \<open>http.request\<close> event, \<open>OtherEvent\<close> anything else.\<close>

datatype http_event = BodyEvent string bool | OtherEvent string

text \<open>
  The events received so far may end before the body does: the coroutine then waits.
\<close>

datatype buffering = Buffered string "http_event list" | Refused exn | Waiting

fun buffer_events :: "int \<Rightarrow> string \<Rightarrow> http_event list \<Rightarrow> buffering" where
  "buffer_events limit body [] = Waiting"
| "buffer_events limit body (OtherEvent kind # events) = Refused (BodyRejected 400 ''invalid request body'')"
| "buffer_events limit body (BodyEvent chunk again # events) =
     (if int (length (body @ chunk)) > limit then Refused (BodyRejected 413 ''request body too large'')
      else if again then buffer_events limit (body @ chunk) events
      else Buffered (body @ chunk) events)"

definition buffer_body :: "int \<Rightarrow> http_event list \<Rightarrow> buffering" where
  "buffer_body limit events = buffer_events limit [] events"

section \<open>The depth scan\<close>

datatype scan = Scan int bool bool

text \<open>One character; \<open>None\<close> is the rejection.\<close>

fun scan_char :: "int \<Rightarrow> char \<Rightarrow> scan \<Rightarrow> scan option" where
  "scan_char limit c (Scan depth in_string escaped) =
     (if in_string then
        (if escaped then Some (Scan depth True False)
         else if c = CHR 0x5C then Some (Scan depth True True)
         else if c = CHR 0x22 then Some (Scan depth False escaped)
         else Some (Scan depth True escaped))
      else if c = CHR 0x22 then Some (Scan depth True escaped)
      else if c = CHR ''['' \<or> c = CHR ''{'' then
        (if depth + 1 > limit then None else Some (Scan (depth + 1) False escaped))
      else if c = CHR '']'' \<or> c = CHR ''}'' then Some (Scan (depth - 1) False escaped)
      else Some (Scan depth False escaped))"

fun scan_text :: "int \<Rightarrow> string \<Rightarrow> scan \<Rightarrow> scan option" where
  "scan_text limit [] s = Some s"
| "scan_text limit (c # cs) s = (case scan_char limit c s of None \<Rightarrow> None | Some s' \<Rightarrow> scan_text limit cs s')"

definition depth_ok :: "int \<Rightarrow> string \<Rightarrow> bool" where
  "depth_ok limit source \<longleftrightarrow> scan_text limit source (Scan 0 False False) \<noteq> None"

text \<open>What follows the scan: \<open>json.loads\<close>, and the JSON-RPC message of a JSON object.\<close>

definition parse_mcp_body ::
  "int \<Rightarrow> (string \<Rightarrow> string option) \<Rightarrow> (string \<Rightarrow> json option) \<Rightarrow> (jdict \<Rightarrow> rpc_message option) \<Rightarrow> string \<Rightarrow>
     (jdict \<times> rpc_message) res" where
  "parse_mcp_body limit decode loads message body =
     (case decode body of
        None \<Rightarrow> Inl (BodyRejected 400 ''invalid JSON-RPC'')
      | Some source \<Rightarrow>
          if \<not> depth_ok limit source then Inl (BodyRejected 400 ''JSON depth exceeded'')
          else case loads source of
                 Some (JObj parsed) \<Rightarrow>
                   (case message parsed of
                      None \<Rightarrow> Inl (BodyRejected 400 ''invalid JSON-RPC'')
                    | Some m \<Rightarrow> Inr (parsed, m))
               | _ \<Rightarrow> Inl (BodyRejected 400 ''invalid JSON-RPC''))"

section \<open>Buffered bodies\<close>

text \<open>The bytes of the first body, if the events complete one.\<close>

fun sent_body :: "http_event list \<Rightarrow> (string \<times> http_event list) option" where
  "sent_body (BodyEvent chunk again # events) =
     (if again then map_option (\<lambda>(b, rest). (chunk @ b, rest)) (sent_body events) else Some (chunk, events))"
| "sent_body _ = None"

lemma buffer_events_Buffered:
  "buffer_events limit body events = Buffered b rest \<longleftrightarrow>
     (\<exists>t. sent_body events = Some (t, rest) \<and> b = body @ t \<and> int (length b) \<le> limit)"
proof (induction limit body events rule: buffer_events.induct)
  case (3 limit body chunk again events)
  show ?case
  proof (cases again)
    case True
    then show ?thesis
      using 3 by (cases "sent_body events") (auto split: prod.splits)
  qed auto
qed auto

text \<open>
  C0: Buffering keeps bodies within the limit whole. A body comes out exactly when the client
  completed one of at most \<open>limit\<close> bytes, and then it is all of it, with the events after it
  left for the replay.
\<close>

theorem buffered_body_is_sent_body:
  "buffer_body limit events = Buffered body rest \<longleftrightarrow>
     sent_body events = Some (body, rest) \<and> int (length body) \<le> limit"
  by (simp add: buffer_body_def buffer_events_Buffered)

section \<open>Texts of a value\<close>

definition blank :: "string \<Rightarrow> bool" where
  "blank s \<longleftrightarrow> set s \<subseteq> {CHR '' '', CHR 0x09, CHR 0x0A, CHR 0x0D}"

text \<open>The inside of a string literal: plain characters, and escapes of a backslash and a character.\<close>

inductive string_body :: "string \<Rightarrow> bool" where
  "string_body []"
| "c \<noteq> CHR 0x22 \<Longrightarrow> c \<noteq> CHR 0x5C \<Longrightarrow> string_body s \<Longrightarrow> string_body (c # s)"
| "string_body s \<Longrightarrow> string_body (CHR 0x5C # c # s)"

definition literal :: "string \<Rightarrow> bool" where
  "literal s \<longleftrightarrow> (\<exists>b. s = [CHR 0x22] @ b @ [CHR 0x22] \<and> string_body b)"

text \<open>Numbers and the three names hold no quote, bracket or brace.\<close>

definition scalar_text :: "string \<Rightarrow> bool" where
  "scalar_text s \<longleftrightarrow> set s \<inter> {CHR 0x22, CHR ''['', CHR '']'', CHR ''{'', CHR ''}''} = {}"

inductive json_text :: "json \<Rightarrow> string \<Rightarrow> bool"
  and items_text :: "json list \<Rightarrow> string \<Rightarrow> bool"
  and fields_text :: "(string \<times> json) list \<Rightarrow> string \<Rightarrow> bool" where
  scalar: "(case v of JObj _ \<Rightarrow> False | JArr _ \<Rightarrow> False | JStr _ \<Rightarrow> False | _ \<Rightarrow> True) \<Longrightarrow> scalar_text s \<Longrightarrow>
     json_text v s"
| str: "literal s \<Longrightarrow> json_text (JStr t) s"
| arr: "items_text vs s \<Longrightarrow> json_text (JArr vs) (''['' @ s @ '']'')"
| obj: "fields_text kvs s \<Longrightarrow> json_text (JObj kvs) (''{'' @ s @ ''}'')"
| no_items: "blank s \<Longrightarrow> items_text [] s"
| item: "json_text v t \<Longrightarrow> blank a \<Longrightarrow> blank b \<Longrightarrow> items_text [v] (a @ t @ b)"
| items: "json_text v t \<Longrightarrow> blank a \<Longrightarrow> blank b \<Longrightarrow> items_text vs s \<Longrightarrow> items_text (v # vs) (a @ t @ b @ '','' @ s)"
| no_fields: "blank s \<Longrightarrow> fields_text [] s"
| field: "literal k \<Longrightarrow> json_text v t \<Longrightarrow> blank a \<Longrightarrow> blank b \<Longrightarrow> blank c \<Longrightarrow> blank d \<Longrightarrow>
     fields_text [(n, v)] (a @ k @ b @ '':'' @ c @ t @ d)"
| fields: "literal k \<Longrightarrow> json_text v t \<Longrightarrow> blank a \<Longrightarrow> blank b \<Longrightarrow> blank c \<Longrightarrow> blank d \<Longrightarrow> fields_text kvs s \<Longrightarrow>
     fields_text ((n, v) # kvs) (a @ k @ b @ '':'' @ c @ t @ d @ '','' @ s)"

fun nesting :: "json \<Rightarrow> int" and nesting_items :: "json list \<Rightarrow> int" and nesting_fields :: "(string \<times> json) list \<Rightarrow> int"
  where
  "nesting (JArr vs) = 1 + nesting_items vs"
| "nesting (JObj kvs) = 1 + nesting_fields kvs"
| "nesting _ = 0"
| "nesting_items [] = 0"
| "nesting_items (v # vs) = max (nesting v) (nesting_items vs)"
| "nesting_fields [] = 0"
| "nesting_fields ((k, v) # kvs) = max (nesting v) (nesting_fields kvs)"

section \<open>The scan and the nesting\<close>

lemma scan_append:
  "scan_text limit (s @ t) st = (case scan_text limit s st of None \<Rightarrow> None | Some st' \<Rightarrow> scan_text limit t st')"
  by (induction s arbitrary: st) (auto split: option.splits)

lemma scan_string_body: "string_body b \<Longrightarrow> scan_text limit b (Scan d True False) = Some (Scan d True False)"
  by (induction b rule: string_body.induct) auto

lemma scan_literal: "literal s \<Longrightarrow> scan_text limit s (Scan d False False) = Some (Scan d False False)"
  unfolding literal_def by (auto simp: scan_append scan_string_body)

lemma scan_scalar: "scalar_text s \<Longrightarrow> scan_text limit s (Scan d False False) = Some (Scan d False False)"
  by (induction s) (auto simp: scalar_text_def)

lemma scan_blank: "blank s \<Longrightarrow> scan_text limit s (Scan d False False) = Some (Scan d False False)"
  by (rule scan_scalar) (auto simp: blank_def scalar_text_def)

lemmas scan_parts = scan_append scan_literal scan_blank

definition scanned :: "int \<Rightarrow> int \<Rightarrow> int \<Rightarrow> scan option" where
  "scanned limit d n = (if d + n \<le> limit then Some (Scan d False False) else None)"

lemma nesting_nonneg:
  "0 \<le> nesting v" "0 \<le> nesting_items vs" "0 \<le> nesting_fields kvs"
  by (induction v and vs and kvs rule: nesting_nesting_items_nesting_fields.induct) auto

lemma scan_json:
  "json_text v s \<Longrightarrow> d \<le> limit \<Longrightarrow> scan_text limit s (Scan d False False) = scanned limit d (nesting v)"
  "items_text vs s \<Longrightarrow> d \<le> limit \<Longrightarrow> scan_text limit s (Scan d False False) = scanned limit d (nesting_items vs)"
  "fields_text kvs s \<Longrightarrow> d \<le> limit \<Longrightarrow> scan_text limit s (Scan d False False) = scanned limit d (nesting_fields kvs)"
proof (induction arbitrary: d and d and d rule: json_text_items_text_fields_text.inducts)
  case (scalar v s)
  then show ?case by (cases v) (auto simp: scan_scalar scanned_def)
next
  case (str s t)
  then show ?case by (simp add: scan_literal scanned_def)
next
  case (arr vs s)
  then show ?case
    using arr.IH [of "d + 1"] nesting_nonneg(2) [of vs] by (auto simp: scan_append scanned_def)
next
  case (obj kvs s)
  then show ?case
    using obj.IH [of "d + 1"] nesting_nonneg(3) [of kvs] by (auto simp: scan_append scanned_def)
next
  case (no_items s)
  then show ?case by (simp add: scan_blank scanned_def)
next
  case (item v t a b)
  then show ?case using nesting_nonneg(1) [of v] by (auto simp: scan_parts scanned_def)
next
  case (items v t a b vs s)
  then show ?case by (auto simp: scan_parts scanned_def)
next
  case (no_fields s)
  then show ?case by (simp add: scan_blank scanned_def)
next
  case (field k v t a b c e n)
  then show ?case using nesting_nonneg(1) [of v] by (auto simp: scan_parts scanned_def)
next
  case (fields k v t a b c e kvs s n)
  then show ?case by (auto simp: scan_parts scanned_def)
qed

text \<open>
  The depth scan measures nesting. On any text of a JSON value, with any white space and
  any string contents, the scan accepts exactly the values nested no deeper than the limit,
  so \<open>json.loads\<close> never sees a deeper one.
\<close>

theorem depth_scan_measures_nesting:
  assumes "json_text v s" and "blank a" and "blank b" and "0 \<le> limit"
  shows "depth_ok limit (a @ s @ b) \<longleftrightarrow> nesting v \<le> limit"
  using assms scan_json(1) [OF assms(1), of 0 limit]
  by (simp add: depth_ok_def scan_parts scanned_def)

theorem depth_scan_measures_nesting_witness:
  "\<not> depth_ok 1 ''[\"{[\",[]]'' \<and> nesting (JArr [JStr ''{['', JArr []]) = 2"
proof -
  have s: "json_text (JStr ''{['') ''\"{[\"''"
    by (rule str) (auto simp: literal_def intro!: exI [of _ "''{[''"] string_body.intros)
  have e: "json_text (JArr []) (''['' @ [] @ '']'')"
    by (rule arr, rule no_items) (simp add: blank_def)
  have nil: "blank []" by (simp add: blank_def)
  have "items_text [JStr ''{['', JArr []] ([] @ ''\"{[\"'' @ [] @ '','' @ [] @ (''['' @ [] @ '']'') @ [])"
    by (rule items [OF s nil nil], rule item [OF e nil nil])
  from arr [OF this] have "json_text (JArr [JStr ''{['', JArr []]) ''[\"{[\",[]]''" by simp
  from depth_scan_measures_nesting [OF this nil nil, of 1] show ?thesis by simp
qed

end
