(* ===== verification/RateLimit.thy ===== *)
theory RateLimit
  imports RiskEngine
begin

text \<open>
  \<open>services/gateway/session_manager.py\<close>, \<open>check_rate_limit\<close>: the fixed window of tool
  calls per identity, on Redis counters shared with other clients.
\<close>

definition rate_key :: "string \<Rightarrow> string" where
  "rate_key identity_id = ''rate:tools_call:'' @ identity_id"

definition count_call :: "'r redis \<Rightarrow> settings \<Rightarrow> string \<Rightarrow> ('r, int option) io" where
  "count_call exec S i =
     bind_io (bump_counter exec (rate_key i) (tool_call_rate_window_seconds S)) (\<lambda>count.
       if count \<le> tool_call_rate_limit S then ret_io None
       else bind_io (exec (Ttl (rate_key i))) (\<lambda>y.
            bind_io (of_res (int_reply_of y)) (\<lambda>ttl. ret_io (Some (max ttl 1)))))"

definition check_rate_limit :: "'r redis \<Rightarrow> settings \<Rightarrow> string \<Rightarrow> ('r, int option) io" where
  "check_rate_limit exec S i = catch_io (count_call exec S i) (\<lambda>_. raise_io RateLimiterUnavailable)"

text \<open>The calls an identity has made in a window that lasts at least until \<open>T\<close>.\<close>

definition rated :: "string \<Rightarrow> rat \<Rightarrow> nat \<Rightarrow> redis_state \<Rightarrow> bool" where
  "rated k T n s \<longleftrightarrow>
     (rd_data s k = None \<and> n = 0) \<or>
     (\<exists>m e. rd_data s k = Some (RInt m, e) \<and> 1 \<le> m \<and> int n \<le> m \<and> (\<forall>t. e = Some t \<longrightarrow> T \<le> t))"

lemma rated_less: "rated k T n s \<Longrightarrow> m \<le> n \<Longrightarrow> rated k T m s"
  by (auto simp: rated_def)

lemma rated_incr:
  assumes "rated k T n s" and "rd_clock s \<le> T" and "redis_spec (Incr k) s = (y, s')"
  shows "\<exists>m. y = IntR m \<and> int n < m \<and>
    ((\<exists>e. rd_data s' k = Some (RInt m, e) \<and> (\<forall>t. e = Some t \<longrightarrow> T \<le> t)) \<and>
     (m = 1 \<longrightarrow> rd_data s k = None \<and> n = 0))"
  using assms(1) [unfolded rated_def]
proof (elim disjE exE conjE)
  assume "rd_data s k = None" "n = 0"
  then show ?thesis
    using assms(3) by (auto simp: incr_by_def alive_def put_key_def Let_def)
next
  fix m e
  assume d: "rd_data s k = Some (RInt m, e)" "1 \<le> m" "int n \<le> m" "\<forall>t. e = Some t \<longrightarrow> T \<le> t"
  with assms(2) have "alive s k = Some (RInt m, e)"
    by (cases e) (auto simp: alive_def)
  with d assms(3) show ?thesis
    by (auto simp: incr_by_def put_key_def Let_def)
qed

lemma rated_expire:
  assumes "rd_data s k = Some (RInt m, e)" and "1 \<le> m" and "\<forall>t. e = Some t \<longrightarrow> T \<le> t"
    and "rd_clock s \<le> T" and "T \<le> rd_clock s + of_int W"
  shows "rated k T (nat m) (snd (redis_spec (Expire k W) s))"
proof -
  have "alive s k = Some (RInt m, e)"
    using assms(1,3,4) by (cases e) (auto simp: alive_def)
  then show ?thesis
    using assms(1,2,5) by (auto simp: expire_key_def put_key_def rated_def)
qed

lemma expire_clock [simp]: "rd_clock (expire_key k W s) = rd_clock s"
  using spec_clock [of "Expire k W" s] by simp

context redis_service
begin

text \<open>Whatever fails, no count is lost; an admitted call was counted, within the limit.\<close>

lemma check_clock:
  assumes "check_rate_limit exec S i r = (x, r')" shows "rd_clock (abs r') = rd_clock (abs r)"
proof -
  have e: "rd_clock (abs r2) = rd_clock (abs r1)" if "exec c r1 = (y, r2)" for c y r1 r2
    using exec_abs [OF that] by auto
  show ?thesis
    using assms
    by (auto simp: check_rate_limit_def count_call_def bump_counter_def bind_io_def catch_io_def
        split: sum.splits prod.splits if_splits dest!: e)
qed

lemma check_rated:
  assumes "check_rate_limit exec S i r = (x, r')"
    and "rated (rate_key i) T n (abs r)" and "rd_clock (abs r) \<le> T"
    and "rd_data (abs r) (rate_key i) = None \<Longrightarrow>
      T \<le> rd_clock (abs r) + of_int (tool_call_rate_window_seconds S)"
  shows "rd_clock (abs r') = rd_clock (abs r) \<and> rated (rate_key i) T n (abs r') \<and>
    (x = Inr None \<longrightarrow> rated (rate_key i) T (Suc n) (abs r') \<and> int (Suc n) \<le> tool_call_rate_limit S)"
proof -
  let ?k = "rate_key i" and ?W = "tool_call_rate_window_seconds S"
  obtain y r1 where inc: "exec (Incr ?k) r = (y, r1)" by fastforce
  obtain m s1 where spec: "redis_spec (Incr ?k) (abs r) = (IntR m, s1)" and m: "int n < m"
    and d: "\<exists>e. rd_data s1 ?k = Some (RInt m, e) \<and> (\<forall>t. e = Some t \<longrightarrow> T \<le> t)"
    and one: "m = 1 \<longrightarrow> rd_data (abs r) ?k = None \<and> n = 0"
    using rated_incr [OF assms(2,3)] by (metis prod.collapse)
  have c1: "rd_clock s1 = rd_clock (abs r)" using spec spec_clock by (metis snd_conv)
  have r1: "rated ?k T (Suc n) s1" using d m by (auto simp: rated_def)
  show ?thesis
  proof (cases y)
    case (Inl e)
    with inc assms(1) have "x = Inl RateLimiterUnavailable" "r' = r1"
      by (auto simp: check_rate_limit_def count_call_def bump_counter_def bind_io_def catch_io_def)
    moreover have "abs r1 \<in> {abs r, s1}" using exec_abs [OF inc] spec by simp
    ultimately show ?thesis using assms(2) r1 c1 rated_less [OF r1] by auto
  next
    case (Inr a)
    with inc exec_ok spec have a: "a = IntR m" "abs r1 = s1" by fastforce+
    obtain z r2 where rest: "(if m = 1 then exec (Expire ?k ?W) r1 else (Inr OkR, r1)) = (z, r2)" by fastforce
    have r2: "rd_clock (abs r2) = rd_clock (abs r) \<and> rated ?k T (Suc n) (abs r2)"
    proof (cases "m = 1")
      case True
      with rest have "abs r2 \<in> {s1, snd (redis_spec (Expire ?k ?W) s1)}"
        using exec_abs a by (metis (no_types, lifting))
      moreover have "rated ?k T (nat m) (snd (redis_spec (Expire ?k ?W) s1))"
        using d m one True assms(3,4) c1 by (elim exE conjE, intro rated_expire) auto
      ultimately show ?thesis
        using r1 c1 m rated_less [of ?k T "nat m" _ "Suc n"] by auto
    next
      case False
      with rest a r1 c1 show ?thesis by simp
    qed
    have "x = Inr None \<longrightarrow> m \<le> tool_call_rate_limit S"
      and "r' = r2 \<or> (\<exists>u. exec (Ttl ?k) r2 = (u, r'))"
      using assms(1) inc Inr a rest
      by (auto simp: check_rate_limit_def count_call_def bump_counter_def bind_io_def catch_io_def
          split: sum.splits prod.splits if_splits)
    moreover from this(2) have "abs r' = abs r2" using exec_abs by fastforce
    ultimately show ?thesis using r2 m rated_less by auto
  qed
qed

end

text \<open>Checks of one identity's calls, with time and other keys' traffic between them.\<close>

inductive rate_checks ::
  "'r redis \<Rightarrow> ('r \<Rightarrow> redis_state) \<Rightarrow> settings \<Rightarrow> string \<Rightarrow> 'r \<Rightarrow> int option res list \<Rightarrow> 'r \<Rightarrow> bool"
  for exec :: "'r redis" and view S i r0 where
  start: "rate_checks exec view S i r0 [] r0"
| check: "rate_checks exec view S i r0 xs r \<Longrightarrow> check_rate_limit exec S i r = (x, r') \<Longrightarrow>
    rate_checks exec view S i r0 (xs @ [x]) r'"
| between: "rate_checks exec view S i r0 xs r \<Longrightarrow> elsewhere (rate_key i) (view r) (view r') \<Longrightarrow>
    rate_checks exec view S i r0 xs r'"

definition admitted :: "int option res list \<Rightarrow> nat" where
  "admitted xs = length (filter (\<lambda>x. x = Inr None) xs)"

lemma rate_checks_counted:
  assumes "redis_service exec view" and "rate_checks exec view S i r0 xs r"
    and "rated (rate_key i) T n (view r0)" and "rd_clock (view r) \<le> T"
    and "int n \<le> tool_call_rate_limit S"
    and "n = 0 \<Longrightarrow> T \<le> rd_clock (view r0) + of_int (tool_call_rate_window_seconds S)"
  shows "rd_clock (view r0) \<le> rd_clock (view r) \<and> rated (rate_key i) T (n + admitted xs) (view r) \<and>
    int (n + admitted xs) \<le> tool_call_rate_limit S"
  using assms(2,4)
proof (induction rule: rate_checks.induct)
  case start
  then show ?case using assms(3,5) by (simp add: admitted_def)
next
  case (check xs r x r')
  have "rd_clock (view r') = rd_clock (view r)"
    by (rule redis_service.check_clock [OF assms(1) check.hyps(2)])
  with check have IH: "rd_clock (view r0) \<le> rd_clock (view r)"
    "rated (rate_key i) T (n + admitted xs) (view r)" "int (n + admitted xs) \<le> tool_call_rate_limit S"
    and t: "rd_clock (view r) \<le> T" by auto
  have "T \<le> rd_clock (view r) + of_int (tool_call_rate_window_seconds S)"
    if "rd_data (view r) (rate_key i) = None"
    using that IH(1,2) assms(6) by (fastforce simp: rated_def)
  from redis_service.check_rated [OF assms(1) check.hyps(2) IH(2) t this] IH show ?case
    by (auto simp: admitted_def)
next
  case (between xs r r')
  then show ?case using elsewhere_data [OF between.hyps(2)] by (auto simp: rated_def)
qed

section \<open>Properties\<close>

text \<open>
  C14: The fixed window holds: from a state where the identity's key is absent, over any
  sequence of checks, with other traffic and Redis failures between and inside them, at
  most \<open>tool_call_rate_limit\<close> calls are admitted before the window has passed.
\<close>

theorem admitted_calls_bounded:
  assumes "redis_service exec view" and "settings_valid S"
    and "rate_checks exec view S i r0 xs r" and "rd_data (view r0) (rate_key i) = None"
    and "rd_clock (view r) \<le> rd_clock (view r0) + of_int (tool_call_rate_window_seconds S)"
  shows "int (admitted xs) \<le> tool_call_rate_limit S"
  using rate_checks_counted [OF assms(1,3) _ assms(5), of 0] assms(2,4)
  by (simp add: rated_def settings_valid_def)

theorem admitted_calls_bounded_witness:
  "int (admitted ([] @ [fst (check_rate_limit exec_ref default_settings ''ann'' empty_redis)])) \<le> 60"
proof -
  have "rate_checks exec_ref id default_settings ''ann'' empty_redis
      ([] @ [fst (check_rate_limit exec_ref default_settings ''ann'' empty_redis)])
      (snd (check_rate_limit exec_ref default_settings ''ann'' empty_redis))"
    by (rule rate_checks.check [OF rate_checks.start prod.collapse [symmetric]])
  from admitted_calls_bounded [OF ref_redis.redis_service_axioms default_settings_valid this] show ?thesis
    using redis_service.check_clock [OF ref_redis.redis_service_axioms prod.collapse [symmetric],
        of default_settings "''ann''" empty_redis]
    by (simp add: empty_redis_def default_settings_def)
qed

text \<open>
  One lost EXPIRE locks an identity out for good. When the command fails after the
  INCR of a fresh key, the key has no expiry: from then on, however much time passes and
  although Redis answers every command, fewer than \<open>tool_call_rate_limit\<close> calls are ever
  admitted again.
\<close>

theorem lost_expiry_locks_out:
  assumes "check_rate_limit exec_faulty S i ([Healthy, FailsBefore], empty_redis) = (x, (fs, s))"
    and "rate_checks exec_ref id S i s xs r" and "1 \<le> tool_call_rate_limit S"
  shows "x = Inl RateLimiterUnavailable \<and> int (admitted xs) < tool_call_rate_limit S"
proof -
  have x: "x = Inl RateLimiterUnavailable" and d: "rd_data s (rate_key i) = Some (RInt 1, None)"
    using assms(1)
    by (auto simp: check_rate_limit_def count_call_def bump_counter_def bind_io_def catch_io_def
        exec_faulty_def reply_res_def incr_by_def alive_def empty_redis_def put_key_def Let_def)
  have "rated (rate_key i) (rd_clock (id r)) 1 (id s)" using d by (simp add: rated_def)
  from rate_checks_counted [OF ref_redis.redis_service_axioms assms(2) this] assms(3) x show ?thesis
    by simp
qed

theorem lost_expiry_locks_out_witness:
  "\<exists>fs s. check_rate_limit exec_faulty default_settings ''ann'' ([Healthy, FailsBefore], empty_redis) =
     (Inl RateLimiterUnavailable, (fs, s)) \<and> int (admitted []) < tool_call_rate_limit default_settings"
proof -
  obtain x fs s where "check_rate_limit exec_faulty default_settings ''ann''
      ([Healthy, FailsBefore], empty_redis) = (x, (fs, s))" by (metis prod.collapse)
  moreover from lost_expiry_locks_out [OF this rate_checks.start]
  have "x = Inl RateLimiterUnavailable" "int (admitted []) < tool_call_rate_limit default_settings"
    by (simp_all add: default_settings_def)
  ultimately show ?thesis by blast
qed

end
