(* ===== verification/SessionManager.thy ===== *)
theory SessionManager
  imports Interceptor
begin

text \<open>
  \<open>services/gateway/session_manager.py\<close>: the registry of sessions and the table of calls
  in flight. Every section of the code without an await in it, under the lock or not, is
  one function; a step relation interleaves them, with the locals of the suspended
  coroutines (creations under way, sessions being cleaned up) as a second record. Task
  cancellation, container start and stop, and message transport are the steps' choices.
\<close>

section \<open>State\<close>

record session =
  se_identity :: string
  se_server :: string
  se_fingerprint :: string
  se_outstanding :: "request_id list"
  se_heartbeat :: bool

record open_call =
  oc_identity :: string
  oc_timed_out :: bool
  oc_response_ready :: bool
  oc_disconnected :: bool
  oc_delivered :: bool

record manager =
  sm_sessions :: "(string \<times> session) list"
  sm_session_counts :: "(string \<times> int) list"
  sm_inflight_counts :: "(string \<times> int) list"
  sm_outstanding :: "((string \<times> request_id) \<times> open_call) list"

definition new_manager :: manager where
  "new_manager =
     \<lparr>sm_sessions = [], sm_session_counts = [], sm_inflight_counts = [], sm_outstanding = []\<rparr>"

text \<open>\<open>counts.get(identity, 0)\<close>, and the decrement that drops an entry at zero.\<close>

definition count_of :: "(string \<times> int) list \<Rightarrow> string \<Rightarrow> int" where
  "count_of counts i = (case map_of counts i of None \<Rightarrow> 0 | Some n \<Rightarrow> n)"

definition count_up :: "string \<Rightarrow> (string \<times> int) list \<Rightarrow> (string \<times> int) list" where
  "count_up i counts = al_put i (count_of counts i + 1) counts"

definition count_down :: "string \<Rightarrow> (string \<times> int) list \<Rightarrow> (string \<times> int) list" where
  "count_down i counts =
     (if count_of counts i \<le> 1 then al_drop i counts else al_put i (count_of counts i - 1) counts)"

section \<open>Sessions\<close>

text \<open>\<open>create\<close>, in its sections: the reservation, the registration, the failure path.\<close>

definition reserve_session :: "settings \<Rightarrow> string \<Rightarrow> manager \<Rightarrow> manager res" where
  "reserve_session S i m =
     (if count_of (sm_session_counts m) i \<ge> max_sessions_per_identity S then Inl SessionLimitExceeded
      else Inr (m\<lparr>sm_session_counts := count_up i (sm_session_counts m)\<rparr>))"

definition register_session :: "string \<Rightarrow> string \<Rightarrow> string \<Rightarrow> string \<Rightarrow> manager \<Rightarrow> manager" where
  "register_session sid i server fingerprint m =
     m\<lparr>sm_sessions := al_put sid
         \<lparr>se_identity = i, se_server = server, se_fingerprint = fingerprint, se_outstanding = [],
          se_heartbeat = False\<rparr> (sm_sessions m)\<rparr>"

definition release_session :: "string \<Rightarrow> manager \<Rightarrow> manager" where
  "release_session i m = m\<lparr>sm_session_counts := count_down i (sm_session_counts m)\<rparr>"

definition pop_session :: "string \<Rightarrow> manager \<Rightarrow> manager" where
  "pop_session sid m = m\<lparr>sm_sessions := al_drop sid (sm_sessions m)\<rparr>"

definition get_session :: "string \<Rightarrow> manager \<Rightarrow> session option" where
  "get_session sid m = map_of (sm_sessions m) sid"

section \<open>Calls\<close>

definition new_call :: "string \<Rightarrow> open_call" where
  "new_call i =
     \<lparr>oc_identity = i, oc_timed_out = False, oc_response_ready = False, oc_disconnected = False,
      oc_delivered = False\<rparr>"

definition admit_call :: "settings \<Rightarrow> string \<Rightarrow> string \<Rightarrow> request_id \<Rightarrow> manager \<Rightarrow> manager res" where
  "admit_call S sid i rid m =
     (case get_session sid m of
        None \<Rightarrow> Inl (LookupError [])
      | Some s \<Rightarrow>
          if map_of (sm_outstanding m) (sid, rid) \<noteq> None then Inl DuplicateRequestId
          else if count_of (sm_inflight_counts m) i \<ge> max_inflight_calls_per_identity S
          then Inl InflightLimitExceeded
          else Inr (m\<lparr>sm_outstanding := al_put (sid, rid) (new_call i) (sm_outstanding m),
                      sm_inflight_counts := count_up i (sm_inflight_counts m),
                      sm_sessions := al_put sid
                        (s\<lparr>se_outstanding := List.insert rid (se_outstanding s), se_heartbeat := True\<rparr>)
                        (sm_sessions m)\<rparr>))"

text \<open>\<open>_remove_call\<close>: cancelling the deadline task has no effect on this state.\<close>

definition forget_request :: "request_id \<Rightarrow> session \<Rightarrow> session" where
  "forget_request rid s =
     (let left = removeAll rid (se_outstanding s)
      in s\<lparr>se_outstanding := left, se_heartbeat := (if left = [] then False else se_heartbeat s)\<rparr>)"

definition remove_call :: "string \<Rightarrow> request_id \<Rightarrow> open_call \<Rightarrow> manager \<Rightarrow> manager" where
  "remove_call sid rid c m =
     (let m' = m\<lparr>sm_outstanding := al_drop (sid, rid) (sm_outstanding m),
                 sm_inflight_counts := count_down (oc_identity c) (sm_inflight_counts m)\<rparr>
      in case get_session sid m of
           None \<Rightarrow> m'
         | Some s \<Rightarrow> m'\<lparr>sm_sessions := al_put sid (forget_request rid s) (sm_sessions m)\<rparr>)"

definition update_call :: "string \<Rightarrow> request_id \<Rightarrow> open_call \<Rightarrow> manager \<Rightarrow> manager" where
  "update_call sid rid c m = m\<lparr>sm_outstanding := al_put (sid, rid) c (sm_outstanding m)\<rparr>"

text \<open>\<open>finish_call\<close>: whether the caller goes on to wait for the termination.\<close>

definition finish_call :: "string \<Rightarrow> request_id \<Rightarrow> manager \<Rightarrow> manager \<times> bool" where
  "finish_call sid rid m =
     (case map_of (sm_outstanding m) (sid, rid) of
        None \<Rightarrow> (m, False)
      | Some c \<Rightarrow>
          if oc_timed_out c then (update_call sid rid (c\<lparr>oc_delivered := True\<rparr>) m, True)
          else (remove_call sid rid c m, False))"

definition disconnect_call :: "string \<Rightarrow> request_id \<Rightarrow> manager \<Rightarrow> manager" where
  "disconnect_call sid rid m =
     (case map_of (sm_outstanding m) (sid, rid) of
        None \<Rightarrow> m
      | Some c \<Rightarrow>
          if oc_timed_out c then m
          else if oc_response_ready c then remove_call sid rid (c\<lparr>oc_disconnected := True\<rparr>) m
          else update_call sid rid (c\<lparr>oc_disconnected := True\<rparr>) m)"

definition response_ready :: "string \<Rightarrow> request_id \<Rightarrow> manager \<Rightarrow> manager" where
  "response_ready sid rid m =
     (case map_of (sm_outstanding m) (sid, rid) of
        None \<Rightarrow> m
      | Some c \<Rightarrow>
          if oc_timed_out c then m
          else if oc_disconnected c then remove_call sid rid (c\<lparr>oc_response_ready := True\<rparr>) m
          else update_call sid rid (c\<lparr>oc_response_ready := True\<rparr>) m)"

text \<open>Only responses and errors answer a call.\<close>

definition answered :: "string \<Rightarrow> rpc_message \<Rightarrow> manager \<Rightarrow> manager" where
  "answered sid message m =
     (case message of
        Response rid result \<Rightarrow> response_ready sid rid m
      | ErrorResponse rid code why data \<Rightarrow> response_ready sid rid m
      | _ \<Rightarrow> m)"

text \<open>The deadline's first section, and the message it sends.\<close>

definition deadline_fires :: "string \<Rightarrow> request_id \<Rightarrow> manager \<Rightarrow> (manager \<times> session option) option" where
  "deadline_fires sid rid m =
     (case map_of (sm_outstanding m) (sid, rid) of
        None \<Rightarrow> None
      | Some c \<Rightarrow>
          Some (pop_session sid (update_call sid rid (c\<lparr>oc_timed_out := True\<rparr>) m), get_session sid m))"

definition deadline_reply :: "request_id \<Rightarrow> rpc_message" where
  "deadline_reply rid =
     error_reply rid tool_call_deadline_code
       ''tool call exceeded execution deadline; session terminated'' JNull"

text \<open>The locked section of \<open>_cleanup_session\<close>, on the session it was handed.\<close>

fun cleanup_calls :: "string \<Rightarrow> request_id list \<Rightarrow> manager \<Rightarrow> manager" where
  "cleanup_calls sid [] m = m"
| "cleanup_calls sid (rid # rids) m =
     cleanup_calls sid rids
       (case map_of (sm_outstanding m) (sid, rid) of
          None \<Rightarrow> m
        | Some c \<Rightarrow> remove_call sid rid c m)"

definition cleanup_session :: "string \<Rightarrow> session \<Rightarrow> manager \<Rightarrow> manager" where
  "cleanup_session sid s m = cleanup_calls sid (se_outstanding s) m"

text \<open>\<open>sweep_once\<close> and \<open>evict_outdated\<close>: the sessions they tear down.\<close>

definition last_seen_key :: "string \<Rightarrow> string" where
  "last_seen_key sid = ''session:'' @ sid @ '':last_seen''"

definition idle_sessions :: "redis_state \<Rightarrow> manager \<Rightarrow> string list" where
  "idle_sessions r m = filter (\<lambda>sid. live r (last_seen_key sid) = None) (map fst (sm_sessions m))"

definition outdated_sessions :: "(string \<Rightarrow> string option) \<Rightarrow> manager \<Rightarrow> string list" where
  "outdated_sessions fingerprint m =
     map fst (filter (\<lambda>(sid, s). fingerprint (se_server s) \<noteq> Some (se_fingerprint s)) (sm_sessions m))"

section \<open>The steps\<close>

text \<open>
  Coroutines suspended between two sections: creations before and after the registration,
  failed creations that still stop their container, and sessions popped from the registry, with whether their calls were removed.
\<close>

record tasks =
  tk_creating :: "(string \<times> string) list"
  tk_starting :: "(string \<times> string) list"
  tk_failing :: "(string \<times> string) list"
  tk_closing :: "(string \<times> (session \<times> bool)) list"

definition no_tasks :: tasks where
  "no_tasks = \<lparr>tk_creating = [], tk_starting = [], tk_failing = [], tk_closing = []\<rparr>"

definition closing_of :: "string \<Rightarrow> manager \<Rightarrow> tasks \<Rightarrow> tasks" where
  "closing_of sid m t =
     (case get_session sid m of
        None \<Rightarrow> t
      | Some s \<Rightarrow> t\<lparr>tk_closing := al_put sid (s, False) (tk_closing t)\<rparr>)"

definition fresh_id :: "string \<Rightarrow> manager \<Rightarrow> tasks \<Rightarrow> bool" where
  "fresh_id sid m t \<longleftrightarrow>
     map_of (tk_creating t) sid = None \<and> map_of (tk_starting t) sid = None \<and>
     map_of (tk_failing t) sid = None \<and> map_of (tk_closing t) sid = None \<and> get_session sid m = None \<and>
     (\<forall>rid. map_of (sm_outstanding m) (sid, rid) = None)"

text \<open>
  The flag allows one more race: a creation that fails (its request is cancelled) after
  its session was torn down already. Calls come to a session only once its creation has
  returned: its id is not known to a client before.
\<close>

inductive sm_step :: "bool \<Rightarrow> settings \<Rightarrow> manager \<times> tasks \<Rightarrow> manager \<times> tasks \<Rightarrow> bool" for late S where
  reserve: "reserve_session S i m = Inr m' \<Longrightarrow> fresh_id sid m t \<Longrightarrow>
    sm_step late S (m, t) (m', t\<lparr>tk_creating := al_put sid i (tk_creating t)\<rparr>)"
| creation_failed: "map_of (tk_creating t) sid = Some i \<Longrightarrow>
    sm_step late S (m, t) (release_session i m, t\<lparr>tk_creating := al_drop sid (tk_creating t)\<rparr>)"
| register: "map_of (tk_creating t) sid = Some i \<Longrightarrow>
    sm_step late S (m, t)
      (register_session sid i server fingerprint m,
       t\<lparr>tk_creating := al_drop sid (tk_creating t), tk_starting := al_put sid i (tk_starting t)\<rparr>)"
| created: "map_of (tk_starting t) sid = Some i \<Longrightarrow>
    sm_step late S (m, t) (m, t\<lparr>tk_starting := al_drop sid (tk_starting t)\<rparr>)"
| start_failed: "map_of (tk_starting t) sid = Some i \<Longrightarrow> get_session sid m \<noteq> None \<or> late \<Longrightarrow>
    sm_step late S (m, t)
      (pop_session sid m,
       t\<lparr>tk_starting := al_drop sid (tk_starting t), tk_failing := al_put sid i (tk_failing t)\<rparr>)"
| failed: "map_of (tk_failing t) sid = Some i \<Longrightarrow>
    sm_step late S (m, t) (release_session i m, t\<lparr>tk_failing := al_drop sid (tk_failing t)\<rparr>)"
| teardown: "get_session sid m = Some s \<Longrightarrow>
    sm_step late S (m, t) (pop_session sid m, closing_of sid m t)"
| cleanup: "map_of (tk_closing t) sid = Some (s, False) \<Longrightarrow>
    sm_step late S (m, t)
      (cleanup_session sid s m, t\<lparr>tk_closing := al_put sid (s, True) (tk_closing t)\<rparr>)"
| closed: "map_of (tk_closing t) sid = Some (s, True) \<Longrightarrow>
    sm_step late S (m, t)
      (release_session (se_identity s) m, t\<lparr>tk_closing := al_drop sid (tk_closing t)\<rparr>)"
| admit: "admit_call S sid i rid m = Inr m' \<Longrightarrow> map_of (tk_starting t) sid = None \<Longrightarrow>
    sm_step late S (m, t) (m', t)"
| finish: "finish_call sid rid m = (m', waits) \<Longrightarrow> sm_step late S (m, t) (m', t)"
| disconnect: "sm_step late S (m, t) (disconnect_call sid rid m, t)"
| answer: "sm_step late S (m, t) (answered sid message m, t)"
| deadline: "deadline_fires sid rid m = Some (m', popped) \<Longrightarrow>
    sm_step late S (m, t) (m', closing_of sid m t)"

inductive sm_reachable :: "bool \<Rightarrow> settings \<Rightarrow> manager \<times> tasks \<Rightarrow> bool" for late S where
  init: "sm_reachable late S (new_manager, no_tasks)"
| step: "sm_reachable late S x \<Longrightarrow> sm_step late S x y \<Longrightarrow> sm_reachable late S y"

section \<open>Calls in flight\<close>

lemma count_of_up [simp]: "count_of (count_up j c) i = count_of c i + (if i = j then 1 else 0)"
  by (simp add: count_up_def count_of_def)

lemma count_of_down:
  "1 \<le> count_of c j \<Longrightarrow> count_of (count_down j c) i = count_of c i - (if i = j then 1 else 0)"
  by (auto simp: count_down_def count_of_def)

definition tallied :: "manager \<Rightarrow> bool" where
  "tallied m \<longleftrightarrow>
     distinct (map fst (sm_outstanding m)) \<and>
     (\<forall>i. count_of (sm_inflight_counts m) i = tally oc_identity (sm_outstanding m) i)"

lemma tallied_cong:
  "sm_outstanding m' = sm_outstanding m \<Longrightarrow> sm_inflight_counts m' = sm_inflight_counts m \<Longrightarrow>
     tallied m' = tallied m"
  by (simp add: tallied_def)

lemma remove_call_fields [simp]:
  "sm_outstanding (remove_call sid rid c m) = al_drop (sid, rid) (sm_outstanding m)"
  "sm_inflight_counts (remove_call sid rid c m) = count_down (oc_identity c) (sm_inflight_counts m)"
  "sm_session_counts (remove_call sid rid c m) = sm_session_counts m"
  "sm_sessions (remove_call sid rid c m) =
     (case get_session sid m of None \<Rightarrow> sm_sessions m
      | Some s \<Rightarrow> al_put sid (forget_request rid s) (sm_sessions m))"
  by (simp_all add: remove_call_def Let_def split: option.splits)

lemma update_call_fields [simp]:
  "sm_outstanding (update_call sid rid c m) = al_put (sid, rid) c (sm_outstanding m)"
  "sm_inflight_counts (update_call sid rid c m) = sm_inflight_counts m"
  "sm_session_counts (update_call sid rid c m) = sm_session_counts m"
  "sm_sessions (update_call sid rid c m) = sm_sessions m"
  by (simp_all add: update_call_def)

lemma tallied_remove:
  assumes "tallied m" and "map_of (sm_outstanding m) (sid, rid) = Some c" and "oc_identity c' = oc_identity c"
  shows "tallied (remove_call sid rid c' m)"
    and "count_of (sm_inflight_counts (remove_call sid rid c' m)) i \<le> count_of (sm_inflight_counts m) i"
proof -
  have one: "1 \<le> count_of (sm_inflight_counts m) (oc_identity c')"
    using assms tally_pos [of "sm_outstanding m" "(sid, rid)" c oc_identity] by (simp add: tallied_def)
  then show "tallied (remove_call sid rid c' m)"
    using assms by (simp add: tallied_def count_of_down tally_drop distinct_al_drop)
  show "count_of (sm_inflight_counts (remove_call sid rid c' m)) i \<le> count_of (sm_inflight_counts m) i"
    using count_of_down [OF one] by simp
qed

lemma tallied_update:
  assumes "tallied m" and "map_of (sm_outstanding m) (sid, rid) = Some c" and "oc_identity c' = oc_identity c"
  shows "tallied (update_call sid rid c' m)"
  using assms by (simp add: tallied_def tally_put_same distinct_al_put)

text \<open>The well-formedness of the table, in every state.\<close>

fun calls_of :: "session option \<Rightarrow> (session \<times> bool) option \<Rightarrow> request_id set" where
  "calls_of (Some s) closing = set (se_outstanding s)"
| "calls_of None (Some (s, False)) = set (se_outstanding s)"
| "calls_of None closing = {}"

lemma in_calls_of:
  "rid \<in> calls_of g closing \<longleftrightarrow> (\<exists>s. g = Some s \<and> rid \<in> set (se_outstanding s)) \<or>
     (g = None \<and> (\<exists>s. closing = Some (s, False) \<and> rid \<in> set (se_outstanding s)))"
  by (cases "(g, closing)" rule: calls_of.cases) auto

definition holder :: "manager \<Rightarrow> tasks \<Rightarrow> string \<Rightarrow> request_id set" where
  "holder m t sid = calls_of (get_session sid m) (map_of (tk_closing t) sid)"

definition held :: "manager \<Rightarrow> tasks \<Rightarrow> bool" where
  "held m t \<longleftrightarrow>
     (\<forall>sid rid. map_of (sm_outstanding m) (sid, rid) \<noteq> None \<longrightarrow> rid \<in> holder m t sid) \<and>
     (\<forall>sid. get_session sid m \<noteq> None \<longrightarrow> map_of (tk_closing t) sid = None \<and> map_of (tk_creating t) sid = None) \<and>
     (\<forall>sid. map_of (tk_closing t) sid \<noteq> None \<longrightarrow> map_of (tk_creating t) sid = None) \<and>
     (\<forall>sid. map_of (tk_starting t) sid \<noteq> None \<longrightarrow>
        map_of (tk_creating t) sid = None \<and> holder m t sid = {})"

definition calls_ok :: "settings \<Rightarrow> manager \<times> tasks \<Rightarrow> bool" where
  "calls_ok S x \<longleftrightarrow> tallied (fst x) \<and> held (fst x) (snd x) \<and>
     (\<forall>i. count_of (sm_inflight_counts (fst x)) i \<le> max_inflight_calls_per_identity S)"

text \<open>Removing a call that is there, or noting something about it.\<close>

lemma calls_ok_remove:
  assumes "calls_ok S (m, t)" and "map_of (sm_outstanding m) (sid, rid) = Some c"
    and "oc_identity c' = oc_identity c"
  shows "calls_ok S (remove_call sid rid c' m, t)"
proof -
  have bound: "count_of (sm_inflight_counts (remove_call sid rid c' m)) i \<le> max_inflight_calls_per_identity S" for i
    using order_trans [OF tallied_remove(2)] assms by (simp add: calls_ok_def)
  have "holder (remove_call sid rid c' m) t x =
      (if x = sid \<and> get_session sid m \<noteq> None then holder m t x - {rid} else holder m t x)" for x
    by (auto simp: holder_def get_session_def forget_request_def Let_def split: option.splits)
  moreover have "get_session x (remove_call sid rid c' m) \<noteq> None \<longleftrightarrow> get_session x m \<noteq> None" for x
    by (auto simp: get_session_def split: option.splits)
  ultimately have "held (remove_call sid rid c' m) t"
    using assms(1) by (auto simp: calls_ok_def held_def)
  moreover note bound
  ultimately show ?thesis
    using assms tallied_remove(1) by (simp add: calls_ok_def)
qed

lemma calls_ok_update:
  assumes "calls_ok S (m, t)" and "map_of (sm_outstanding m) (sid, rid) = Some c"
    and "oc_identity c' = oc_identity c"
  shows "calls_ok S (update_call sid rid c' m, t)"
  using assms tallied_update [of m sid rid c c']
  by (auto simp: calls_ok_def held_def holder_def get_session_def)

lemma calls_ok_cleanup:
  "calls_ok S (m, t) \<Longrightarrow> calls_ok S (cleanup_calls sid rids m, t)"
  by (induction sid rids m rule: cleanup_calls.induct) (auto split: option.splits dest: calls_ok_remove)

lemma cleanup_calls_outstanding:
  "map_of (sm_outstanding (cleanup_calls sid rids m)) k =
     (if fst k = sid \<and> snd k \<in> set rids then None else map_of (sm_outstanding m) k)"
  by (induction sid rids m rule: cleanup_calls.induct) (cases k, auto split: option.splits)+

lemma cleanup_calls_sessions:
  "get_session sid m = None \<Longrightarrow> sm_sessions (cleanup_calls sid rids m) = sm_sessions m \<and>
     sm_session_counts (cleanup_calls sid rids m) = sm_session_counts m"
  by (induction sid rids m rule: cleanup_calls.induct) (auto split: option.splits simp: get_session_def)

text \<open>A session leaves the registry for its cleanup.\<close>

lemma holder_pop:
  "held m t \<Longrightarrow> holder (pop_session sid m) (closing_of sid m t) x = holder m t x"
  by (cases "get_session sid m"; cases "x = sid")
    (auto simp: holder_def pop_session_def closing_of_def get_session_def held_def)

lemma calls_ok_pop:
  assumes "calls_ok S (m, t)"
  shows "calls_ok S (pop_session sid m, closing_of sid m t)"
proof -
  have ok: "tallied m" "held m t" using assms by (simp_all add: calls_ok_def)
  have sessions: "get_session x (pop_session sid m) = (if x = sid then None else get_session x m)" for x
    by (simp add: get_session_def pop_session_def)
  have closing: "map_of (tk_closing (closing_of sid m t)) x \<noteq> None \<longleftrightarrow>
      map_of (tk_closing t) x \<noteq> None \<or> x = sid \<and> get_session sid m \<noteq> None" for x
    by (auto simp: closing_of_def split: option.splits)
  have "tk_creating (closing_of sid m t) = tk_creating t" "tk_starting (closing_of sid m t) = tk_starting t"
    by (simp_all add: closing_of_def split: option.splits)
  moreover have "sm_outstanding (pop_session sid m) = sm_outstanding m" by (simp add: pop_session_def)
  ultimately have "held (pop_session sid m) (closing_of sid m t)"
    using ok(2) closing unfolding held_def holder_pop [OF ok(2)] sessions by (metis (no_types))
  moreover have "tallied (pop_session sid m)" using ok by (simp add: pop_session_def tallied_def)
  ultimately show ?thesis using assms by (simp add: calls_ok_def pop_session_def)
qed

text \<open>Steps that leave the calls alone.\<close>

lemma calls_ok_cong:
  "calls_ok S (m, t) \<Longrightarrow> sm_outstanding m' = sm_outstanding m \<Longrightarrow>
     sm_inflight_counts m' = sm_inflight_counts m \<Longrightarrow> held m' t' \<Longrightarrow> calls_ok S (m', t')"
  using tallied_cong [of m' m] by (simp add: calls_ok_def)

lemma calls_okD:
  assumes "calls_ok S (m, t)"
  shows "map_of (sm_outstanding m) (sid, rid) = Some c \<Longrightarrow> rid \<in> holder m t sid"
    and "get_session sid m = Some s \<Longrightarrow> map_of (tk_closing t) sid = None"
    and "get_session sid m = Some s \<Longrightarrow> map_of (tk_creating t) sid = None"
    and "map_of (tk_closing t) sid = Some z \<Longrightarrow> get_session sid m = None"
    and "map_of (tk_closing t) sid = Some z \<Longrightarrow> map_of (tk_creating t) sid = None"
    and "map_of (tk_creating t) sid = Some i \<Longrightarrow> get_session sid m = None"
    and "map_of (tk_creating t) sid = Some i \<Longrightarrow> map_of (tk_closing t) sid = None"
    and "map_of (tk_creating t) sid = Some i \<Longrightarrow> map_of (sm_outstanding m) (sid, rid) = None"
    and "map_of (tk_starting t) sid = Some i \<Longrightarrow> holder m t sid = {}"
    and "map_of (tk_starting t) sid = Some i \<Longrightarrow> map_of (sm_outstanding m) (sid, rid) = None"
proof -
  have held: "held m t" using assms by (simp add: calls_ok_def)
  have call: "map_of (sm_outstanding m) (sid, rid) \<noteq> None \<Longrightarrow> rid \<in> holder m t sid"
    and opened: "get_session sid m \<noteq> None \<Longrightarrow>
      map_of (tk_closing t) sid = None \<and> map_of (tk_creating t) sid = None"
    and shut: "map_of (tk_closing t) sid \<noteq> None \<Longrightarrow> map_of (tk_creating t) sid = None"
    and start: "map_of (tk_starting t) sid \<noteq> None \<Longrightarrow> holder m t sid = {}"
    using held unfolding held_def by blast+
  show "map_of (sm_outstanding m) (sid, rid) = Some c \<Longrightarrow> rid \<in> holder m t sid"
    using call by simp
  show "get_session sid m = Some s \<Longrightarrow> map_of (tk_closing t) sid = None"
    "get_session sid m = Some s \<Longrightarrow> map_of (tk_creating t) sid = None"
    using opened by simp_all
  show "map_of (tk_closing t) sid = Some z \<Longrightarrow> get_session sid m = None"
    "map_of (tk_closing t) sid = Some z \<Longrightarrow> map_of (tk_creating t) sid = None"
    using opened shut by (cases "get_session sid m"; simp)+
  show free: "map_of (tk_creating t) sid = Some i \<Longrightarrow> get_session sid m = None"
    "map_of (tk_creating t) sid = Some i \<Longrightarrow> map_of (tk_closing t) sid = None"
    using opened shut by (cases "get_session sid m"; cases "map_of (tk_closing t) sid"; simp)+
  show "map_of (tk_creating t) sid = Some i \<Longrightarrow> map_of (sm_outstanding m) (sid, rid) = None"
    using call free by (cases "map_of (sm_outstanding m) (sid, rid)") (simp_all add: holder_def)
  show "map_of (tk_starting t) sid = Some i \<Longrightarrow> holder m t sid = {}"
    using start by simp
  show "map_of (tk_starting t) sid = Some i \<Longrightarrow> map_of (sm_outstanding m) (sid, rid) = None"
    using call start by (cases "map_of (sm_outstanding m) (sid, rid)") simp_all
qed

lemma calls_ok_step:
  assumes "sm_step late S x y" and "calls_ok S x"
  shows "calls_ok S y"
  using assms
proof (induction rule: sm_step.induct)
  case (admit sid i rid m m' t)
  then obtain s where s: "get_session sid m = Some s" and new: "map_of (sm_outstanding m) (sid, rid) = None"
    and room: "count_of (sm_inflight_counts m) i < max_inflight_calls_per_identity S"
    and m': "m' = m\<lparr>sm_outstanding := al_put (sid, rid) (new_call i) (sm_outstanding m),
      sm_inflight_counts := count_up i (sm_inflight_counts m),
      sm_sessions := al_put sid (s\<lparr>se_outstanding := List.insert rid (se_outstanding s), se_heartbeat := True\<rparr>)
        (sm_sessions m)\<rparr>"
    by (auto simp: admit_call_def split: option.splits if_splits)
  have tallied: "tallied m'"
    using admit(3) new by (simp add: calls_ok_def tallied_def m' tally_put_new distinct_al_put new_call_def)
  have "holder m' t x = (if x = sid then insert rid (holder m t sid) else holder m t x)" for x
    using s by (simp add: holder_def get_session_def m')
  moreover have "get_session x m' \<noteq> None \<longleftrightarrow> get_session x m \<noteq> None" for x
    using s by (simp add: get_session_def m')
  ultimately have "held m' t"
    using admit(2,3) s by (auto simp: calls_ok_def held_def m' split: if_splits)
  moreover have "count_of (sm_inflight_counts m') j \<le> max_inflight_calls_per_identity S" for j
    using admit(3) room by (auto simp: calls_ok_def m')
  ultimately show ?case using tallied by (simp add: calls_ok_def)
next
  case (finish sid rid m m' waits t)
  then show ?case
    by (auto simp: finish_call_def split: option.splits if_splits
        intro: calls_ok_update calls_ok_remove)
next
  case (disconnect m t sid rid)
  then show ?case
    by (auto simp: disconnect_call_def split: option.splits intro: calls_ok_update calls_ok_remove)
next
  case (answer m t sid message)
  then show ?case
    by (auto simp: answered_def response_ready_def split: option.splits rpc_message.splits
        intro: calls_ok_update calls_ok_remove)
next
  case (cleanup t sid s m)
  let ?m = "cleanup_session sid s m"
  have ok: "calls_ok S (?m, t)" and none: "get_session sid m = None"
    using calls_ok_cleanup [OF cleanup(2)] cleanup by (auto simp: cleanup_session_def calls_ok_def held_def)
  have kept: "get_session sid' ?m = get_session sid' m" for sid'
    using cleanup_calls_sessions [OF none] by (simp add: cleanup_session_def get_session_def)
  have here: "rid \<in> set (se_outstanding s)" if "map_of (sm_outstanding m) (sid, rid) = Some c" for rid c
    using cleanup that none by (fastforce simp: calls_ok_def held_def holder_def)
  have gone: "map_of (sm_outstanding ?m) (sid, rid) = None" for rid
    using here by (cases "map_of (sm_outstanding m) (sid, rid)")
      (auto simp: cleanup_session_def cleanup_calls_outstanding)
  have "map_of (tk_creating t) sid = None"
    using cleanup unfolding calls_ok_def held_def by (metis fst_conv snd_conv option.distinct(1))
  then have "held ?m (t\<lparr>tk_closing := al_put sid (s, True) (tk_closing t)\<rparr>)"
    using ok gone cleanup(1) none kept
    by (auto simp: calls_ok_def held_def holder_def split: option.splits if_splits)
  then show ?case using ok by (simp add: calls_ok_def)
next
  case (deadline sid rid m m' popped t)
  then obtain c where c: "map_of (sm_outstanding m) (sid, rid) = Some c"
    and m': "m' = pop_session sid (update_call sid rid (c\<lparr>oc_timed_out := True\<rparr>) m)"
    by (auto simp: deadline_fires_def split: option.splits)
  let ?u = "update_call sid rid (c\<lparr>oc_timed_out := True\<rparr>) m"
  have "calls_ok S (?u, t)" using deadline(2) c by (rule calls_ok_update) simp
  moreover have "closing_of sid m t = closing_of sid ?u t" by (simp add: closing_of_def get_session_def)
  ultimately show ?case using m' calls_ok_pop by simp
next
  case (teardown sid m s t)
  then show ?case using calls_ok_pop by simp
next
  case (reserve i m m' sid t)
  then show ?case
    by (intro calls_ok_cong [OF reserve(3)])
      (auto simp: reserve_session_def calls_ok_def held_def holder_def fresh_id_def get_session_def
        split: if_splits)
next
  case (creation_failed t sid i m)
  then show ?case
    by (intro calls_ok_cong [OF creation_failed(2)])
      (auto simp: release_session_def calls_ok_def held_def holder_def get_session_def)
next
  case (register t sid i m server fingerprint)
  then show ?case
    using calls_okD(6,7,8) [OF register(2,1)] by (intro calls_ok_cong [OF register(2)])
      (auto simp: register_session_def calls_ok_def held_def holder_def get_session_def
        split: option.splits if_splits)
next
  case (created t sid i m)
  then show ?case
    by (intro calls_ok_cong [OF created(2)]) (auto simp: calls_ok_def held_def holder_def)
next
  case (start_failed t sid i m)
  then show ?case
    using calls_okD(9,10) [OF start_failed(3,1)] calls_okD(2) [OF start_failed(3)]
    by (intro calls_ok_cong [OF start_failed(3)]; cases "get_session sid m")
      (auto simp: pop_session_def calls_ok_def held_def holder_def get_session_def
        split: option.splits if_splits)
next
  case (failed t sid i m)
  then show ?case
    by (intro calls_ok_cong [OF failed(2)])
      (auto simp: release_session_def calls_ok_def held_def holder_def get_session_def)
next
  case (closed t sid s m)
  have "map_of (sm_outstanding m) (sid, rid) = None" for rid
    using calls_okD(1) [OF closed(2), of sid rid] calls_okD(4) [OF closed(2,1)] closed(1)
    by (cases "map_of (sm_outstanding m) (sid, rid)") (simp_all add: holder_def)
  moreover have "get_session sid m = None" using calls_okD(4) [OF closed(2,1)] .
  ultimately show ?case using closed
    by (intro calls_ok_cong [OF closed(2)])
      (auto simp: release_session_def calls_ok_def held_def holder_def get_session_def
        split: option.splits if_splits)
qed

lemma reachable_calls_ok:
  "sm_reachable late S x \<Longrightarrow> 0 \<le> max_inflight_calls_per_identity S \<Longrightarrow> calls_ok S x"
proof (induction rule: sm_reachable.induct)
  case init
  then show ?case
    by (simp add: calls_ok_def tallied_def held_def new_manager_def no_tasks_def count_of_def get_session_def)
next
  case (step x y)
  then show ?case by (blast intro: calls_ok_step)
qed

text \<open>
  C12: In whatever order the sections of the session manager's coroutines run, an identity's
  in-flight count is exactly the number of its outstanding calls, never above the
  configured limit, and every outstanding call belongs to a session that is open or being
  cleaned up: none is left behind by a teardown, a deadline or a failed creation.
\<close>

theorem inflight_counts_exact:
  assumes "sm_reachable late S (m, t)" and "0 \<le> max_inflight_calls_per_identity S"
  shows "count_of (sm_inflight_counts m) i = tally oc_identity (sm_outstanding m) i \<and>
    tally oc_identity (sm_outstanding m) i \<le> max_inflight_calls_per_identity S \<and>
    (map_of (sm_outstanding m) (sid, rid) = None \<or> get_session sid m \<noteq> None \<or>
     (\<exists>s. map_of (tk_closing t) sid = Some (s, False) \<and> rid \<in> set (se_outstanding s)))"
proof -
  have ok: "calls_ok S (m, t)" using assms by (rule reachable_calls_ok)
  have "map_of (sm_outstanding m) (sid, rid) = None \<or> rid \<in> holder m t sid"
    using calls_okD(1) [OF ok] by (cases "map_of (sm_outstanding m) (sid, rid)") auto
  moreover have "count_of (sm_inflight_counts m) i = tally oc_identity (sm_outstanding m) i"
    and "count_of (sm_inflight_counts m) i \<le> max_inflight_calls_per_identity S"
    using ok by (auto simp: calls_ok_def tallied_def simp del: not_None_eq)
  ultimately show ?thesis
    by (auto simp: holder_def in_calls_of)
qed

section \<open>Session slots\<close>

text \<open>The slots that are taken: by creations, by open sessions, by sessions being closed.\<close>

definition slots :: "manager \<times> tasks \<Rightarrow> string \<Rightarrow> int" where
  "slots x i = tally id (tk_creating (snd x)) i + tally id (tk_failing (snd x)) i
     + tally se_identity (sm_sessions (fst x)) i + tally (se_identity \<circ> fst) (tk_closing (snd x)) i"

definition slots_ok :: "settings \<Rightarrow> manager \<times> tasks \<Rightarrow> bool" where
  "slots_ok S x \<longleftrightarrow> calls_ok S x \<and>
     distinct (map fst (tk_creating (snd x))) \<and> distinct (map fst (sm_sessions (fst x))) \<and>
     distinct (map fst (tk_closing (snd x))) \<and> distinct (map fst (tk_failing (snd x))) \<and>
     (\<forall>sid. map_of (tk_creating (snd x)) sid \<noteq> None \<or> map_of (tk_starting (snd x)) sid \<noteq> None \<longrightarrow>
        map_of (tk_failing (snd x)) sid = None) \<and>
     (\<forall>i. count_of (sm_session_counts (fst x)) i = slots x i \<and> slots x i \<le> max_sessions_per_identity S) \<and>
     (\<forall>sid i s. map_of (tk_starting (snd x)) sid = Some i \<longrightarrow> get_session sid (fst x) = Some s \<longrightarrow>
        se_identity s = i)"

text \<open>What happens to calls changes no session's identity, and no slot.\<close>

definition same_slots :: "manager \<Rightarrow> manager \<Rightarrow> bool" where
  "same_slots m m' \<longleftrightarrow> sm_session_counts m' = sm_session_counts m \<and>
     (distinct (map fst (sm_sessions m)) \<longrightarrow> distinct (map fst (sm_sessions m'))) \<and>
     tally se_identity (sm_sessions m') = tally se_identity (sm_sessions m) \<and>
     (\<forall>sid. map_option se_identity (get_session sid m') = map_option se_identity (get_session sid m))"

lemma same_slots_refl [simp]: "same_slots m m"
  by (simp add: same_slots_def)

lemma same_slots_trans: "same_slots m m' \<Longrightarrow> same_slots m' m'' \<Longrightarrow> same_slots m m''"
  by (simp add: same_slots_def)

lemma same_slots_put:
  assumes "get_session sid m = Some s" and "se_identity s' = se_identity s"
    and "sm_sessions m' = al_put sid s' (sm_sessions m)" and "sm_session_counts m' = sm_session_counts m"
  shows "same_slots m m'"
  using assms by (auto simp: same_slots_def get_session_def distinct_al_put tally_put_same)

lemma same_slots_remove: "same_slots m (remove_call sid rid c m)"
proof (cases "get_session sid m")
  case None
  then show ?thesis by (simp add: same_slots_def get_session_def)
next
  case (Some s)
  moreover from this have "sm_sessions (remove_call sid rid c m) = al_put sid (forget_request rid s) (sm_sessions m)"
    by simp
  ultimately show ?thesis by (intro same_slots_put) (simp_all add: forget_request_def Let_def)
qed

lemma same_slots_update: "same_slots m (update_call sid rid c m)"
  by (simp add: same_slots_def get_session_def)

lemma same_slots_cleanup: "same_slots m (cleanup_calls sid rids m)"
  by (induction sid rids m rule: cleanup_calls.induct)
    (auto split: option.splits intro: same_slots_trans same_slots_remove)

lemma same_slots_admit: "admit_call S sid i rid m = Inr m' \<Longrightarrow> same_slots m m'"
  by (auto simp: admit_call_def split: option.splits if_splits
      intro: same_slots_put [where s' = "s\<lparr>se_outstanding := rids, se_heartbeat := True\<rparr>" for s rids])

lemma slots_ok_same:
  assumes "slots_ok S (m, t)" and "calls_ok S (m', t)" and "same_slots m m'"
  shows "slots_ok S (m', t)"
proof -
  have session: "\<exists>z. get_session sid m = Some z \<and> se_identity z = se_identity s" if "get_session sid m' = Some s" for sid s
    using assms(3) that unfolding same_slots_def by (metis map_option_eq_Some)
  have slots: "slots (m', t) i = slots (m, t) i" and counts: "sm_session_counts m' = sm_session_counts m"
    and keys: "distinct (map fst (sm_sessions m'))" for i
    using assms(1,3) by (simp_all add: slots_def same_slots_def slots_ok_def)
  have starting: "\<forall>sid i s. map_of (tk_starting t) sid = Some i \<longrightarrow> get_session sid m' = Some s \<longrightarrow> se_identity s = i"
    using assms(1) session unfolding slots_ok_def fst_conv snd_conv by metis
  show ?thesis
    using assms(1,2) starting keys unfolding slots_ok_def fst_conv snd_conv slots counts by blast
qed

text \<open>Popping a session moves its slot from the registry to the closing ones.\<close>

lemma tally_pop:
  assumes "slots_ok S (m, t)"
  shows "slots (pop_session sid m, closing_of sid m t) i = slots (m, t) i"
proof (cases "get_session sid m")
  case None
  then show ?thesis
    using al_drop_fresh [of "sm_sessions m" sid] by (simp add: closing_of_def pop_session_def slots_def get_session_def)
next
  case (Some s)
  then have "map_of (tk_closing t) sid = None"
    using assms calls_okD(2) by (auto simp: slots_ok_def)
  then show ?thesis
    using Some assms tally_drop [of "sm_sessions m" sid s se_identity i]
      tally_put_new [of "tk_closing t" sid "se_identity \<circ> fst" "(s, False)" i]
    by (simp add: closing_of_def pop_session_def slots_def get_session_def slots_ok_def)
qed

lemma slots_ok_pop:
  assumes "slots_ok S (m, t)"
  shows "slots_ok S (pop_session sid m, closing_of sid m t)"
  using assms tally_pop [OF assms] calls_ok_pop [of S m t sid]
  by (auto simp: slots_ok_def pop_session_def closing_of_def get_session_def distinct_al_put distinct_al_drop
      split: option.splits if_splits)

lemma slots_down:
  assumes "slots_ok S (m, t)" and "1 \<le> slots (m, t) i"
  shows "count_of (sm_session_counts (release_session i m)) j = slots (m, t) j - (if j = i then 1 else 0)"
  using assms by (simp add: slots_ok_def release_session_def count_of_down)

lemma slots_le: "slots_ok S (m, t) \<Longrightarrow> slots (m, t) i - 1 \<le> max_sessions_per_identity S"
  by (auto simp: slots_ok_def) (smt (verit))

lemma slots_ok_step:
  assumes "sm_step False S x y" and "slots_ok S x" and "calls_ok S y"
  shows "slots_ok S y"
  using assms
proof (induction rule: sm_step.induct)
  case (reserve i m m' sid t)
  then have "m' = m\<lparr>sm_session_counts := count_up i (sm_session_counts m)\<rparr>"
    and "count_of (sm_session_counts m) i < max_sessions_per_identity S"
    by (auto simp: reserve_session_def split: if_splits)
  then show ?case
    using reserve by (auto simp: slots_ok_def slots_def tally_put_new fresh_id_def distinct_al_put get_session_def)
next
  case (creation_failed t sid i m)
  have "1 \<le> slots (m, t) i"
    using creation_failed(1) tally_pos [of "tk_creating t" sid i id] 
      tally_nonneg [of id "tk_failing t" i]
      tally_nonneg [of se_identity "sm_sessions m" i] tally_nonneg [of "se_identity \<circ> fst" "tk_closing t" i]
    by (simp add: slots_def)
  from slots_down [OF creation_failed(2) this] show ?case
    using slots_le [OF creation_failed(2), of i] creation_failed tally_drop [of "tk_creating t" sid i id]
    by (auto simp: slots_ok_def slots_def release_session_def distinct_al_drop get_session_def)
next
  case (register t sid i m server fingerprint)
  let ?m = "register_session sid i server fingerprint m"
    and ?t = "t\<lparr>tk_creating := al_drop sid (tk_creating t), tk_starting := al_put sid i (tk_starting t)\<rparr>"
  have "map_of (sm_sessions m) sid = None"
    using register calls_okD(6) [of S m t sid i] by (simp add: slots_ok_def get_session_def)
  then have "slots (?m, ?t) j = slots (m, t) j" and "distinct (map fst (sm_sessions ?m))"
    and "\<And>x. get_session x ?m = (if x = sid then Some \<lparr>se_identity = i, se_server = server, se_fingerprint = fingerprint,
          se_outstanding = [], se_heartbeat = False\<rparr> else get_session x m)" for j
    using register tally_drop [of "tk_creating t" sid i id j]
    by (simp_all add: slots_def register_session_def tally_put_new slots_ok_def distinct_al_put get_session_def)
  moreover have "sm_session_counts ?m = sm_session_counts m" by (simp add: register_session_def)
  ultimately show ?case
    using register by (auto simp: slots_ok_def distinct_al_drop)
next
  case (created t sid i m)
  then show ?case by (auto simp: slots_ok_def slots_def)
next
  case (start_failed t sid i m)
  then obtain s where s: "get_session sid m = Some s" "se_identity s = i"
    by (auto simp: slots_ok_def)
  have "map_of (tk_failing t) sid = None"
    using start_failed by (simp add: slots_ok_def)
  then have "slots (pop_session sid m, t\<lparr>tk_starting := al_drop sid (tk_starting t),
      tk_failing := al_put sid i (tk_failing t)\<rparr>) j = slots (m, t) j" for j
    using s start_failed(3) tally_drop [of "sm_sessions m" sid s se_identity j]
    by (simp add: slots_def pop_session_def tally_put_new slots_ok_def get_session_def)
  then show ?case
    using start_failed calls_okD(9) [of S m t sid i]
    by (auto simp: slots_ok_def pop_session_def distinct_al_drop distinct_al_put get_session_def held_def calls_ok_def)
next
  case (failed t sid i m)
  have "1 \<le> slots (m, t) i"
    using failed(1) tally_pos [of "tk_failing t" sid i id] tally_nonneg [of id "tk_creating t" i]
      tally_nonneg [of se_identity "sm_sessions m" i] tally_nonneg [of "se_identity \<circ> fst" "tk_closing t" i]
    by (simp add: slots_def)
  from slots_down [OF failed(2) this] show ?case
    using slots_le [OF failed(2), of i] failed tally_drop [of "tk_failing t" sid i id]
    by (auto simp: slots_ok_def slots_def release_session_def distinct_al_drop get_session_def)
next
  case (teardown sid m s t)
  then show ?case using slots_ok_pop by blast
next
  case (cleanup t sid s m)
  have "slots_ok S (cleanup_session sid s m, t)"
    using cleanup(2) slots_ok_same calls_ok_cleanup same_slots_cleanup
    unfolding cleanup_session_def by (metis slots_ok_def)
  then show ?case
    using cleanup(1,3) tally_put_same [of "tk_closing t" sid "(s, False)" "se_identity \<circ> fst" "(s, True)"]
    by (simp add: slots_ok_def slots_def distinct_al_put)
next
  case (closed t sid s m)
  have "1 \<le> slots (m, t) (se_identity s)"
    using closed(1) tally_pos [of "tk_closing t" sid "(s, True)" "se_identity \<circ> fst"] 
      tally_nonneg [of se_identity "sm_sessions m" "se_identity s"] tally_nonneg [of id "tk_creating t" "se_identity s"]
      tally_nonneg [of id "tk_failing t" "se_identity s"]
    by (simp add: slots_def)
  from slots_down [OF closed(2) this] show ?case
    using slots_le [OF closed(2), of "se_identity s"] closed tally_drop [of "tk_closing t" sid "(s, True)" "se_identity \<circ> fst"]
    by (auto simp: slots_ok_def slots_def release_session_def distinct_al_drop get_session_def)
next
  case (admit sid i rid m m' t)
  then show ?case using same_slots_admit slots_ok_same by blast
next
  case (finish sid rid m m' waits t)
  then show ?case
    by (intro slots_ok_same [OF finish(2)])
      (auto simp: finish_call_def same_slots_remove same_slots_update split: option.splits if_splits)
next
  case (disconnect m t sid rid)
  then show ?case
    by (intro slots_ok_same [OF disconnect(1)])
      (auto simp: disconnect_call_def same_slots_remove same_slots_update split: option.splits)
next
  case (answer m t sid message)
  then show ?case
    by (intro slots_ok_same [OF answer(1)])
      (auto simp: answered_def response_ready_def same_slots_remove same_slots_update
        split: option.splits rpc_message.splits)
next
  case (deadline sid rid m m' popped t)
  then obtain c where c: "map_of (sm_outstanding m) (sid, rid) = Some c"
    and m': "m' = pop_session sid (update_call sid rid (c\<lparr>oc_timed_out := True\<rparr>) m)"
    by (auto simp: deadline_fires_def split: option.splits)
  let ?u = "update_call sid rid (c\<lparr>oc_timed_out := True\<rparr>) m"
  have "calls_ok S (?u, t)"
    using deadline(2) c by (intro calls_ok_update [of S m t sid rid c]) (simp_all add: slots_ok_def)
  with deadline(2) have "slots_ok S (?u, t)" using same_slots_update by (rule slots_ok_same)
  moreover have "closing_of sid m t = closing_of sid ?u t" by (simp add: closing_of_def get_session_def)
  ultimately show ?case using m' slots_ok_pop by simp
qed

lemma reachable_slots_ok:
  assumes "sm_reachable False S x" and "0 \<le> max_sessions_per_identity S"
    and "0 \<le> max_inflight_calls_per_identity S"
  shows "slots_ok S x"
  using assms(1)
proof (induction rule: sm_reachable.induct)
  case init
  show ?case
    using assms reachable_calls_ok [OF sm_reachable.init [of False S] assms(3)]
    by (simp add: slots_ok_def slots_def new_manager_def no_tasks_def count_of_def)
next
  case (step x y)
  then have "calls_ok S y" using assms(3) reachable_calls_ok sm_reachable.step by blast
  then show ?case using step slots_ok_step by blast
qed

text \<open>
  C13: As long as no creation fails after its session was torn down (the steps with
  \<open>False\<close>; \<open>late_failure_exceeds_limit\<close> shows what such a failure does), an identity's session
  count is exactly its creations under way (or failing), its open sessions and its sessions
  being closed, and together these never exceed the configured limit.
\<close>

theorem session_counts_exact:
  assumes "sm_reachable False S (m, t)" and "0 \<le> max_sessions_per_identity S"
    and "0 \<le> max_inflight_calls_per_identity S"
  shows "count_of (sm_session_counts m) i =
      tally id (tk_creating t) i + tally id (tk_failing t) i + tally se_identity (sm_sessions m) i +
      tally (se_identity \<circ> fst) (tk_closing t) i \<and>
    count_of (sm_session_counts m) i \<le> max_sessions_per_identity S"
proof -
  have "slots_ok S (m, t)" using assms by (rule reachable_slots_ok)
  then have "count_of (sm_session_counts m) i = slots (m, t) i" "slots (m, t) i \<le> max_sessions_per_identity S"
    by (simp_all add: slots_ok_def)
  then show ?thesis by (simp add: slots_def)
qed

text \<open>Runs as lists of events, for computing with concrete ones.\<close>

datatype sm_event =
  Reserve string string
| Register string string string
| Created string
| StartFailed string
| CreationFailed string
| Teardown string
| Cleanup string
| Closed string
| Admit string string request_id
| Finish string request_id
| DeadlineFires string request_id

definition unused_id :: "string \<Rightarrow> manager \<Rightarrow> tasks \<Rightarrow> bool" where
  "unused_id sid m t \<longleftrightarrow>
     sid \<notin> set (map fst (tk_creating t) @ map fst (tk_starting t) @ map fst (tk_failing t) @ map fst (tk_closing t) @
       map fst (sm_sessions m) @ map (fst \<circ> fst) (sm_outstanding m))"

lemma unused_id_fresh: "unused_id sid m t \<Longrightarrow> fresh_id sid m t"
  by (auto simp: unused_id_def fresh_id_def get_session_def map_of_eq_None_iff image_iff)

fun event_step :: "settings \<Rightarrow> sm_event \<Rightarrow> manager \<times> tasks \<Rightarrow> (manager \<times> tasks) option" where
  "event_step S (Reserve sid i) (m, t) =
     (case reserve_session S i m of
        Inr m' \<Rightarrow>
          if unused_id sid m t then Some (m', t\<lparr>tk_creating := al_put sid i (tk_creating t)\<rparr>) else None
      | Inl e \<Rightarrow> None)"
| "event_step S (Register sid server fingerprint) (m, t) =
     (case map_of (tk_creating t) sid of
        Some i \<Rightarrow> Some (register_session sid i server fingerprint m,
          t\<lparr>tk_creating := al_drop sid (tk_creating t), tk_starting := al_put sid i (tk_starting t)\<rparr>)
      | None \<Rightarrow> None)"
| "event_step S (Created sid) (m, t) =
     (if map_of (tk_starting t) sid = None then None
      else Some (m, t\<lparr>tk_starting := al_drop sid (tk_starting t)\<rparr>))"
| "event_step S (StartFailed sid) (m, t) =
     (case map_of (tk_starting t) sid of
        Some i \<Rightarrow> Some (pop_session sid m,
          t\<lparr>tk_starting := al_drop sid (tk_starting t), tk_failing := al_put sid i (tk_failing t)\<rparr>)
      | None \<Rightarrow> None)"
| "event_step S (CreationFailed sid) (m, t) =
     (case map_of (tk_failing t) sid of
        Some i \<Rightarrow> Some (release_session i m, t\<lparr>tk_failing := al_drop sid (tk_failing t)\<rparr>)
      | None \<Rightarrow> None)"
| "event_step S (Teardown sid) (m, t) =
     (if get_session sid m = None then None else Some (pop_session sid m, closing_of sid m t))"
| "event_step S (Cleanup sid) (m, t) =
     (case map_of (tk_closing t) sid of
        Some (s, False) \<Rightarrow>
          Some (cleanup_session sid s m, t\<lparr>tk_closing := al_put sid (s, True) (tk_closing t)\<rparr>)
      | _ \<Rightarrow> None)"
| "event_step S (Closed sid) (m, t) =
     (case map_of (tk_closing t) sid of
        Some (s, True) \<Rightarrow>
          Some (release_session (se_identity s) m, t\<lparr>tk_closing := al_drop sid (tk_closing t)\<rparr>)
      | _ \<Rightarrow> None)"
| "event_step S (Admit sid i rid) (m, t) =
     (case admit_call S sid i rid m of
        Inr m' \<Rightarrow> if map_of (tk_starting t) sid = None then Some (m', t) else None
      | Inl e \<Rightarrow> None)"
| "event_step S (Finish sid rid) (m, t) = Some (fst (finish_call sid rid m), t)"
| "event_step S (DeadlineFires sid rid) (m, t) =
     (case deadline_fires sid rid m of
        Some (m', popped) \<Rightarrow> Some (m', closing_of sid m t)
      | None \<Rightarrow> None)"

fun run_events :: "settings \<Rightarrow> sm_event list \<Rightarrow> manager \<times> tasks \<Rightarrow> (manager \<times> tasks) option" where
  "run_events S [] x = Some x"
| "run_events S (e # es) x = (case event_step S e x of None \<Rightarrow> None | Some y \<Rightarrow> run_events S es y)"

lemma event_step_sm_step: "event_step S e x = Some y \<Longrightarrow> sm_step True S x y"
  by (induction S e x rule: event_step.induct)
    (auto intro: sm_step.intros sm_step.finish [OF surjective_pairing] unused_id_fresh split: if_splits option.splits sum.splits bool.splits prod.splits)

text \<open>Without the late failures, the other events are steps of the smaller relation.\<close>

fun on_time :: "sm_event \<Rightarrow> bool" where
  "on_time (StartFailed sid) = False"
| "on_time e = True"

lemma on_time_sm_step: "event_step S e x = Some y \<Longrightarrow> on_time e \<Longrightarrow> sm_step False S x y"
  by (induction S e x rule: event_step.induct)
    (auto intro: sm_step.intros sm_step.finish [OF surjective_pairing] unused_id_fresh split: if_splits option.splits sum.splits bool.splits prod.splits)

lemma run_events_reachable:
  "run_events S es x = Some y \<Longrightarrow> sm_reachable True S x \<Longrightarrow> sm_reachable True S y"
  by (induction S es x rule: run_events.induct)
    (auto split: option.splits dest: event_step_sm_step intro: sm_reachable.step)

lemma run_on_time_reachable:
  "run_events S es x = Some y \<Longrightarrow> list_all on_time es \<Longrightarrow> sm_reachable False S x \<Longrightarrow> sm_reachable False S y"
  by (induction S es x rule: run_events.induct)
    (auto split: option.splits dest: on_time_sm_step intro: sm_reachable.step)

definition two_calls :: "sm_event list" where
  "two_calls = [Reserve ''s'' ''u'', Register ''s'' ''x'' ''f'', Created ''s'',
     Admit ''s'' ''u'' (IdInt 1), Admit ''s'' ''u'' (IdInt 2), Finish ''s'' (IdInt 1)]"

lemma two_calls_reachable:
  "\<exists>m t. run_events default_settings two_calls (new_manager, no_tasks) = Some (m, t) \<and>
     sm_reachable False default_settings (m, t) \<and>
     count_of (sm_inflight_counts m) ''u'' = 1 \<and> count_of (sm_session_counts m) ''u'' = 1"
proof -
  have "case run_events default_settings two_calls (new_manager, no_tasks) of None \<Rightarrow> False
    | Some (m, t) \<Rightarrow> count_of (sm_inflight_counts m) ''u'' = 1 \<and> count_of (sm_session_counts m) ''u'' = 1"
    by code_simp
  moreover have "list_all on_time two_calls" by code_simp
  ultimately show ?thesis
    using run_on_time_reachable [OF _ _ sm_reachable.init]
    by (auto split: option.splits)
qed

lemma inflight_counts_exact_witness:
  "\<exists>m t. sm_reachable False default_settings (m, t) \<and> count_of (sm_inflight_counts m) ''u'' = 1 \<and>
     tally oc_identity (sm_outstanding m) ''u'' = 1"
proof -
  obtain m t where r: "sm_reachable False default_settings (m, t)" "count_of (sm_inflight_counts m) ''u'' = 1"
    using two_calls_reachable by blast
  with inflight_counts_exact [OF r(1), of "''u''" "''s''" "IdInt 2"] show ?thesis
    by (auto simp: default_settings_def)
qed

lemma session_counts_exact_witness:
  "\<exists>m t. sm_reachable False default_settings (m, t) \<and> count_of (sm_session_counts m) ''u'' = 1 \<and>
     tally id (tk_creating t) ''u'' + tally id (tk_failing t) ''u'' + tally se_identity (sm_sessions m) ''u'' +
       tally (se_identity \<circ> fst) (tk_closing t) ''u'' = 1"
proof -
  obtain m t where r: "sm_reachable False default_settings (m, t)" "count_of (sm_session_counts m) ''u'' = 1"
    using two_calls_reachable by blast
  with session_counts_exact [OF r(1), of "''u''"] show ?thesis
    by (auto simp: default_settings_def)
qed

definition double_release :: "sm_event list" where
  "double_release =
     [Reserve ''1'' ''u'', Register ''1'' ''x'' ''f'', Created ''1'',
      Reserve ''2'' ''u'', Register ''2'' ''x'' ''f'', Created ''2'',
      Reserve ''3'' ''u'', Register ''3'' ''x'' ''f'', Teardown ''3'', Cleanup ''3'', Closed ''3'', StartFailed ''3'', CreationFailed ''3'',
      Reserve ''4'' ''u'', Register ''4'' ''x'' ''f'', Created ''4'',
      Reserve ''5'' ''u'', Register ''5'' ''x'' ''f'', Created ''5'']"

text \<open>
  A creation that fails after its session was torn down releases the slot a second time:
  the identity then opens a session more than its limit (four, with the default of three).
\<close>

theorem late_failure_exceeds_limit:
  "max_sessions_per_identity default_settings = 3 \<and>
   (\<exists>m t. run_events default_settings double_release (new_manager, no_tasks) = Some (m, t) \<and>
      sm_reachable True default_settings (m, t) \<and> tally se_identity (sm_sessions m) ''u'' = 4)"
proof -
  have "case run_events default_settings double_release (new_manager, no_tasks) of None \<Rightarrow> False
    | Some (m, t) \<Rightarrow> tally se_identity (sm_sessions m) ''u'' = 4"
    by code_simp
  then show ?thesis
    using run_events_reachable [OF _ sm_reachable.init]
    by (auto simp: default_settings_def split: option.splits)
qed

end
