(* ===== verification/Endpoint.thy ===== *)
theory Endpoint
  imports JsonScan Auth RateLimit SessionManager
begin

text \<open>
  \<open>mcp_endpoint\<close> of \<open>services/gateway/main.py\<close>: from the HTTP request to the session's
  transport. Authentication, the rate limiter and the table of calls are the ones of the
  theories Auth, RateLimit and SessionManager; the security middleware and the transport of
  the MCP package, JSON decoding, and the sections of \<open>SessionManager.create\<close> and
  \<open>teardown\<close> with their awaits are fields of a record.
\<close>

section \<open>Requests and replies\<close>

record http_request =
  rq_method :: string
  rq_path :: string
  rq_root_path :: string
  rq_headers :: "(string \<times> string) list"
  rq_client :: json
  rq_events :: "http_event list"

text \<open>\<open>Unanswered\<close>: the body has not arrived yet. \<open>Served\<close>: the transport of that session answered.\<close>

datatype http_reply = Reply int string "(string \<times> string) list" | Served string | Unanswered

text \<open>How the transport ends: with the body's disconnect flag, cancelled, or raising.\<close>

datatype transport_end = Done bool | Cancelled | Failed exn

record 'w edge =
  ed_settings :: settings
  ed_redis :: "'w redis"
  ed_sha256 :: "string \<Rightarrow> string"
  ed_canon :: "json \<Rightarrow> string res"
  ed_hmac :: "string \<Rightarrow> string \<Rightarrow> string"
  ed_security :: "http_request \<Rightarrow> (int \<times> string) option"
  ed_decode :: "string \<Rightarrow> string option"
  ed_loads :: "string \<Rightarrow> json option"
  ed_message :: "jdict \<Rightarrow> rpc_message option"
  ed_blocked :: "'w \<Rightarrow> bool"
  ed_available :: "'w \<Rightarrow> bool"
  ed_engine :: "'w \<Rightarrow> policy_engine"
  ed_create :: "string \<Rightarrow> string \<Rightarrow> (manager \<times> 'w, string) io"
  ed_transport :: "string \<Rightarrow> http_request \<Rightarrow> manager \<times> 'w \<Rightarrow> transport_end \<times> (manager \<times> 'w)"
  ed_teardown :: "string \<Rightarrow> (manager \<times> 'w, unit) io"

text \<open>A check answers the request, or goes on.\<close>

datatype 'a step = Answer http_reply | Next 'a

definition bind_step :: "('w, 'a step) io \<Rightarrow> ('a \<Rightarrow> ('w, 'b step) io) \<Rightarrow> ('w, 'b step) io" where
  "bind_step m f = bind_io m (\<lambda>x. case x of Answer r \<Rightarrow> ret_io (Answer r) | Next a \<Rightarrow> f a)"

definition refuse :: "int \<Rightarrow> string \<Rightarrow> 'a step" where
  "refuse status text = Answer (Reply status text [])"

definition retry_later :: "string \<Rightarrow> int \<Rightarrow> 'a step" where
  "retry_later text seconds = Answer (Reply 429 text [(''Retry-After'', int_str seconds)])"

definition key_header :: string where "key_header = ''x-portunusmcp-key''"
definition session_header :: string where "session_header = ''mcp-session-id''"

definition headers_of :: "http_request \<Rightarrow> (string \<times> string) list" where
  "headers_of rq = dict_of (map (\<lambda>(k, v). (py_lower k, v)) (rq_headers rq))"

definition header :: "http_request \<Rightarrow> string \<Rightarrow> string option" where
  "header rq name = map_of (headers_of rq) name"

definition is_post :: "http_request \<Rightarrow> bool" where
  "is_post rq \<longleftrightarrow> rq_method rq = ''POST''"

text \<open>\<open>path.removeprefix(root_path).strip("/")\<close>.\<close>

definition remove_prefix :: "string \<Rightarrow> string \<Rightarrow> string" where
  "remove_prefix p s = (if take (length p) s = p then drop (length p) s else s)"

definition strip_slashes :: "string \<Rightarrow> string" where
  "strip_slashes s =
     (let slash = (\<lambda>c. c = CHR ''/'') in rev (dropWhile slash (rev (dropWhile slash s))))"

definition requested_server :: "http_request \<Rightarrow> string" where
  "requested_server rq = strip_slashes (remove_prefix (rq_root_path rq) (rq_path rq))"

section \<open>The body\<close>

fun rejection :: "exn \<Rightarrow> 'a step" where
  "rejection (BodyRejected status text) = refuse status text"
| "rejection _ = refuse 400 ''invalid request body''"

definition read_message :: "'w edge \<Rightarrow> http_request \<Rightarrow> (jdict \<times> rpc_message) step" where
  "read_message E rq =
     (case buffer_body (max_mcp_body_bytes (ed_settings E)) (rq_events rq) of
        Waiting \<Rightarrow> Answer Unanswered
      | Refused e \<Rightarrow> rejection e
      | Buffered body rest \<Rightarrow>
          (case parse_mcp_body (max_json_depth (ed_settings E)) (ed_decode E) (ed_loads E) (ed_message E) body of
             Inl e \<Rightarrow> rejection e
           | Inr x \<Rightarrow> Next x))"

definition read_body :: "'w edge \<Rightarrow> http_request \<Rightarrow> (jdict \<times> rpc_message) option step" where
  "read_body E rq =
     (if \<not> is_post rq then Next None
      else (let checked = (case read_message E rq of Answer r \<Rightarrow> Answer r | Next x \<Rightarrow> Next (Some x))
            in case header rq ''content-length'' of
                 None \<Rightarrow> checked
               | Some t \<Rightarrow>
                   (case py_int t of
                      None \<Rightarrow> refuse 400 ''invalid request body''
                    | Some n \<Rightarrow>
                        if n > max_mcp_body_bytes (ed_settings E) then refuse 413 ''request body too large''
                        else if n < 0 then refuse 400 ''invalid request body''
                        else checked)))"

section \<open>Authentication\<close>

text \<open>
  A GET or DELETE without a key is bound to the session it names, when that session belongs
  to a signing identity.
\<close>

definition bound_identity :: "policy_engine \<Rightarrow> manager \<Rightarrow> string option \<Rightarrow> string option" where
  "bound_identity e m sid =
     (case sid of
        None \<Rightarrow> None
      | Some s \<Rightarrow>
          (case get_session s m of
             None \<Rightarrow> None
           | Some se \<Rightarrow>
               (case engine_identity e (se_identity se) of
                  None \<Rightarrow> None
                | Some i \<Rightarrow> if i_auth_mode i = Signed then Some (se_identity se) else None)))"

definition authenticate ::
  "'w edge \<Rightarrow> http_request \<Rightarrow> policy_engine \<Rightarrow> jdict option \<Rightarrow> (manager \<times> 'w, string option) io" where
  "authenticate E rq e parsed =
     (case header rq key_header of
        Some key \<Rightarrow>
          outer (resolve_identity_tracked (ed_redis E) (ed_sha256 E) (ed_settings E) (Some key) e
            (client_source (rq_client rq)))
      | None \<Rightarrow>
          if is_post rq
          then (case parsed of
                  None \<Rightarrow> ret_io None
                | Some d \<Rightarrow>
                    outer (verify_signed_request_tracked (ed_redis E) (ed_sha256 E) (ed_canon E) (ed_hmac E)
                      (ed_settings E) d e (client_source (rq_client rq))))
          else (\<lambda>p. (Inr (bound_identity e (fst p) (header rq session_header)), p)))"

fun limiter_answer :: "exn \<Rightarrow> ('w, 'a step) io" where
  "limiter_answer (AuthRateLimited n) = ret_io (retry_later ''authentication rate limit exceeded'' n)"
| "limiter_answer AuthLimiterUnavailable = ret_io (refuse 503 ''authentication limiter unavailable'')"
| "limiter_answer e = raise_io e"

definition identify ::
  "'w edge \<Rightarrow> http_request \<Rightarrow> policy_engine \<Rightarrow> jdict option \<Rightarrow> (manager \<times> 'w, string step) io" where
  "identify E rq e parsed =
     catch_io
       (bind_io (authenticate E rq e parsed) (\<lambda>i. ret_io
          (case i of
             None \<Rightarrow> refuse 401 ''invalid or missing API key or signature''
           | Some i \<Rightarrow> Next i)))
       limiter_answer"

section \<open>Tool calls, sessions, admission\<close>

definition is_tool_call :: "rpc_message option \<Rightarrow> bool" where
  "is_tool_call msg =
     (case msg of
        Some (Request rid m params) \<Rightarrow> m = ''tools/call''
      | Some (Notification m params) \<Rightarrow> m = ''tools/call''
      | _ \<Rightarrow> False)"

definition is_notification :: "rpc_message option \<Rightarrow> bool" where
  "is_notification msg = (case msg of Some (Notification m params) \<Rightarrow> True | _ \<Rightarrow> False)"

definition is_initialize :: "rpc_message option \<Rightarrow> bool" where
  "is_initialize msg = (case msg of Some (Request rid m params) \<Rightarrow> m = ''initialize'' | _ \<Rightarrow> False)"

fun rate_answer :: "exn \<Rightarrow> ('w, 'a step) io" where
  "rate_answer RateLimiterUnavailable = ret_io (refuse 503 ''rate limiter unavailable'')"
| "rate_answer e = raise_io e"

definition count_rate :: "'w edge \<Rightarrow> string \<Rightarrow> rpc_message option \<Rightarrow> (manager \<times> 'w, unit step) io" where
  "count_rate E i msg =
     bind_io (outer (check_rate_limit (ed_redis E) (ed_settings E) i)) (\<lambda>retry_after. ret_io
       (case retry_after of
          Some n \<Rightarrow> retry_later ''rate limit exceeded'' n
        | None \<Rightarrow>
            if is_notification msg then refuse 400 ''tools/call notifications are not supported''
            else Next ()))"

definition gate_rate :: "'w edge \<Rightarrow> string \<Rightarrow> rpc_message option \<Rightarrow> (manager \<times> 'w, unit step) io" where
  "gate_rate E i msg =
     (if is_tool_call msg then catch_io (count_rate E i msg) rate_answer else ret_io (Next ()))"

fun creation_answer :: "exn \<Rightarrow> ('w, 'a step) io" where
  "creation_answer SessionLimitExceeded = ret_io (refuse 429 ''session limit exceeded'')"
| "creation_answer e = ret_io (refuse 503 ''session could not be created'')"

definition existing_session :: "string \<Rightarrow> string \<Rightarrow> string \<Rightarrow> manager \<Rightarrow> string step" where
  "existing_session sid i server m =
     (case get_session sid m of
        None \<Rightarrow> refuse 404 ''session not found''
      | Some se \<Rightarrow>
          if se_identity se \<noteq> i then refuse 401 ''key does not match session identity''
          else if se_server se \<noteq> server then refuse 404 ''session not found''
          else Next sid)"

definition find_session :: "'w edge \<Rightarrow> http_request \<Rightarrow> string \<Rightarrow> (manager \<times> 'w, string step) io" where
  "find_session E rq i =
     (case header rq session_header of
        Some sid \<Rightarrow> (\<lambda>p. (Inr (existing_session sid i (requested_server rq) (fst p)), p))
      | None \<Rightarrow>
          if is_post rq
          then catch_io (bind_io (ed_create E i (requested_server rq)) (\<lambda>sid. ret_io (Next sid))) creation_answer
          else ret_io (refuse 400 ''missing mcp-session-id header''))"

fun admission_answer :: "exn \<Rightarrow> 'a step res" where
  "admission_answer DuplicateRequestId = Inr (refuse 400 ''duplicate active request id'')"
| "admission_answer InflightLimitExceeded = Inr (refuse 429 ''in-flight call limit exceeded'')"
| "admission_answer (LookupError t) = Inr (refuse 404 ''session not found'')"
| "admission_answer e = Inl e"

definition admit ::
  "'w edge \<Rightarrow> string \<Rightarrow> string \<Rightarrow> rpc_message option \<Rightarrow> (manager \<times> 'w, request_id option step) io" where
  "admit E sid i msg p =
     (case msg of
        Some (Request rid m params) \<Rightarrow>
          if m \<noteq> ''tools/call'' then (Inr (Next None), p)
          else (case admit_call (ed_settings E) sid i rid (fst p) of
                  Inl e \<Rightarrow> (admission_answer e, p)
                | Inr m' \<Rightarrow> (Inr (Next (Some rid)), (m', snd p)))
      | _ \<Rightarrow> (Inr (Next None), p))"

text \<open>
  The checks, in the order of the code. The engine is the one of the start of the request,
  whatever is activated meanwhile.
\<close>

definition check_session ::
  "'w edge \<Rightarrow> http_request \<Rightarrow> policy_engine \<Rightarrow> string \<Rightarrow> rpc_message option \<Rightarrow>
     (manager \<times> 'w, (string \<times> request_id option) step) io" where
  "check_session E rq e i msg =
     (if is_post rq \<and> header rq session_header = None \<and> \<not> is_initialize msg
      then ret_io (refuse 400 ''initialize request required'')
      else if server_config e (requested_server rq) = None
      then ret_io (refuse 404 ''unknown server'')
      else bind_step (find_session E rq i) (\<lambda>sid.
           bind_step (admit E sid i msg) (\<lambda>call. ret_io (Next (sid, call)))))"

definition check_request ::
  "'w edge \<Rightarrow> http_request \<Rightarrow> (manager \<times> 'w, (string \<times> request_id option) step) io" where
  "check_request E rq p =
     (if ed_blocked E (snd p) then (Inr (refuse 503 ''policy activation recovery pending''), p)
      else if \<not> ed_available E (snd p) then (Inr (refuse 503 ''audit key rotation recovery pending''), p)
      else case ed_security E rq of
             Some (status, text) \<Rightarrow> (Inr (refuse status text), p)
           | None \<Rightarrow>
               (let e = ed_engine E (snd p)
                in case read_body E rq of
                     Answer r \<Rightarrow> (Inr (Answer r), p)
                   | Next body \<Rightarrow>
                       bind_step (identify E rq e (map_option fst body)) (\<lambda>i.
                       bind_step (gate_rate E i (map_option snd body)) (\<lambda>_.
                         check_session E rq e i (map_option snd body))) p))"

text \<open>Whatever the transport does, an admitted call is finished or marked disconnected.\<close>

definition release_call :: "string \<Rightarrow> request_id option \<Rightarrow> bool \<Rightarrow> manager \<Rightarrow> manager" where
  "release_call sid call gone m =
     (case call of
        None \<Rightarrow> m
      | Some rid \<Rightarrow> if gone then disconnect_call sid rid m else fst (finish_call sid rid m))"

definition serve ::
  "'w edge \<Rightarrow> http_request \<Rightarrow> string \<Rightarrow> request_id option \<Rightarrow> (manager \<times> 'w, http_reply) io" where
  "serve E rq sid call p =
     (case ed_transport E sid rq p of
        (Cancelled, (m, w)) \<Rightarrow> (Inl (RuntimeError ''CancelledError''), (release_call sid call True m, w))
      | (Failed e, (m, w)) \<Rightarrow> (Inl e, (release_call sid call False m, w))
      | (Done gone, (m, w)) \<Rightarrow>
          bind_io (if rq_method rq = ''DELETE'' then ed_teardown E sid else ret_io ())
            (\<lambda>_. ret_io (Served sid)) (release_call sid call gone m, w))"

definition mcp_endpoint :: "'w edge \<Rightarrow> http_request \<Rightarrow> (manager \<times> 'w, http_reply) io" where
  "mcp_endpoint E rq =
     bind_io (check_request E rq) (\<lambda>x. case x of
       Answer r \<Rightarrow> ret_io r
     | Next (sid, call) \<Rightarrow> serve E rq sid call)"

section \<open>What a served request has shown\<close>

lemma bind_step_NextE:
  assumes "bind_step m f p = (Inr (Next x), q)"
  obtains a p' where "m p = (Inr (Next a), p')" and "f a p' = (Inr (Next x), q)"
  using assms unfolding bind_step_def by (auto elim!: bind_io_InrE split: step.splits)

lemma catch_answerE:
  assumes "catch_io m h p = (Inr (Next x), q)" and "\<And>e p'. h e p' \<noteq> (Inr (Next x), q)"
  shows "m p = (Inr (Next x), q)"
  using assms by (auto elim: catch_io_cases)

lemma answers_only:
  "limiter_answer e p \<noteq> (Inr (Next x), q)" "rate_answer e p \<noteq> (Inr (Next x), q)"
  "creation_answer e p \<noteq> (Inr (Next x), q)"
  by (cases e; simp add: refuse_def retry_later_def)+

lemma tracked_Some: "tracked exec sha256 S source outcome r = (Inr (Some i), r') \<Longrightarrow> outcome = Inr (Some i)"
  by (auto simp: tracked_def elim!: bind_io_InrE split: option.splits)

lemma bearer_resolved:
  "resolve_identity_tracked exec sha256 S key e source w = (Inr (Some i), w') \<Longrightarrow>
     resolve_identity sha256 key e = Some i"
  by (auto simp: resolve_identity_tracked_def split: if_splits dest: tracked_Some)

lemma signature_verified:
  "verify_signed_request_tracked exec sha256 canon hmac S d e source w = (Inr (Some i), w') \<Longrightarrow>
     verify_signed_request canon hmac d e = Inr (Some i)"
  by (auto simp: verify_signed_request_tracked_def split: if_splits dest: tracked_Some)

text \<open>The three ways to be somebody.\<close>

definition proves_identity ::
  "'w edge \<Rightarrow> http_request \<Rightarrow> policy_engine \<Rightarrow> manager \<Rightarrow> jdict option \<Rightarrow> string \<Rightarrow> bool" where
  "proves_identity E rq e m parsed i \<longleftrightarrow>
     (case header rq key_header of
        Some key \<Rightarrow> resolve_identity (ed_sha256 E) (Some key) e = Some i
      | None \<Rightarrow>
          if is_post rq
          then (\<exists>d. parsed = Some d \<and> verify_signed_request (ed_canon E) (ed_hmac E) d e = Inr (Some i))
          else (\<exists>sid se. header rq session_header = Some sid \<and> get_session sid m = Some se \<and>
                  se_identity se = i \<and> (\<exists>x. engine_identity e i = Some x \<and> i_auth_mode x = Signed)))"

lemma bound_identity_Some:
  "bound_identity e m sid = Some i \<Longrightarrow>
     (\<exists>s se. sid = Some s \<and> get_session s m = Some se \<and> se_identity se = i \<and>
        (\<exists>x. engine_identity e i = Some x \<and> i_auth_mode x = Signed))"
  by (auto simp: bound_identity_def split: option.splits if_splits)

lemma authenticate_Some:
  assumes "authenticate E rq e parsed p = (Inr (Some i), q)"
  shows "proves_identity E rq e (fst p) parsed i \<and> fst q = fst p"
proof (cases "header rq key_header")
  case None
  show ?thesis
  proof (cases "is_post rq")
    case True
    with None assms show ?thesis
      by (cases p) (auto simp: authenticate_def proves_identity_def split: option.splits prod.splits
          dest: signature_verified)
  next
    case False
    with None assms bound_identity_Some show ?thesis
      by (fastforce simp: authenticate_def proves_identity_def)
  qed
next
  case (Some key)
  with assms show ?thesis
    by (cases p) (auto simp: authenticate_def proves_identity_def split: prod.splits dest: bearer_resolved)
qed

lemma identify_Next:
  assumes "identify E rq e parsed p = (Inr (Next i), q)"
  shows "proves_identity E rq e (fst p) parsed i \<and> fst q = fst p"
proof -
  have "bind_io (authenticate E rq e parsed) (\<lambda>i. ret_io
      (case i of None \<Rightarrow> refuse 401 ''invalid or missing API key or signature'' | Some i \<Rightarrow> Next i)) p = (Inr (Next i), q)"
    using assms unfolding identify_def by (rule catch_answerE) (rule answers_only)
  then have "authenticate E rq e parsed p = (Inr (Some i), q)"
    by (auto simp: refuse_def elim!: bind_io_InrE split: option.splits)
  then show ?thesis by (rule authenticate_Some)
qed

lemma gate_rate_Next:
  assumes "gate_rate E i msg p = (Inr (Next ()), q)"
  shows "fst q = fst p \<and> (is_tool_call msg \<longrightarrow> \<not> is_notification msg \<and>
    check_rate_limit (ed_redis E) (ed_settings E) i (snd p) = (Inr None, snd q))"
proof (cases "is_tool_call msg")
  case True
  with assms have "catch_io (count_rate E i msg) rate_answer p = (Inr (Next ()), q)"
    by (simp add: gate_rate_def)
  then have "count_rate E i msg p = (Inr (Next ()), q)" by (rule catch_answerE) (rule answers_only)
  then show ?thesis
    by (cases p) (auto simp: count_rate_def refuse_def retry_later_def elim!: bind_io_InrE
        split: option.splits if_splits prod.splits)
qed (use assms in \<open>simp add: gate_rate_def\<close>)

lemma existing_session_Next:
  "existing_session sid i server m = Next s \<Longrightarrow>
     s = sid \<and> (\<exists>se. get_session sid m = Some se \<and> se_identity se = i \<and> se_server se = server)"
  by (auto simp: existing_session_def refuse_def split: option.splits if_splits)

text \<open>The session: the one named, of this identity and server, or a new one for them.\<close>

definition session_for ::
  "'w edge \<Rightarrow> http_request \<Rightarrow> string \<Rightarrow> string \<Rightarrow> manager \<times> 'w \<Rightarrow> manager \<times> 'w \<Rightarrow> bool" where
  "session_for E rq i sid p q \<longleftrightarrow>
     (case header rq session_header of
        Some s \<Rightarrow> sid = s \<and> q = p \<and>
          (\<exists>se. get_session s (fst p) = Some se \<and> se_identity se = i \<and> se_server se = requested_server rq)
      | None \<Rightarrow> is_post rq \<and> ed_create E i (requested_server rq) p = (Inr sid, q))"

lemma find_session_Next:
  assumes "find_session E rq i p = (Inr (Next sid), q)"
  shows "session_for E rq i sid p q"
proof (cases "header rq session_header")
  case None
  then have post: "is_post rq" using assms by (auto simp: find_session_def refuse_def split: if_splits)
  with None assms have "bind_io (ed_create E i (requested_server rq)) (\<lambda>sid. ret_io (Next sid)) p = (Inr (Next sid), q)"
    by (auto simp: find_session_def intro: catch_answerE simp: answers_only)
  with None post show ?thesis by (auto simp: session_for_def elim: bind_io_InrE)
next
  case (Some s)
  with assms existing_session_Next show ?thesis by (fastforce simp: find_session_def session_for_def)
qed

lemma admit_Next:
  assumes "admit E sid i msg p = (Inr (Next call), q)"
  shows "(\<exists>rid params. msg = Some (Request rid ''tools/call'' params) \<and> call = Some rid \<and>
      admit_call (ed_settings E) sid i rid (fst p) = Inr (fst q) \<and> snd q = snd p) \<or>
    (\<not> (\<exists>rid params. msg = Some (Request rid ''tools/call'' params)) \<and> call = None \<and> q = p)"
proof -
  have no: "admission_answer e \<noteq> Inr (Next x)" for e and x :: "request_id option"
    by (cases e) (simp_all add: refuse_def)
  show ?thesis
    using assms no unfolding admit_def
    by (auto split: option.splits rpc_message.splits if_splits sum.splits)
qed

section \<open>Properties\<close>

lemma check_request_steps:
  assumes "check_request E rq (m, w) = (Inr (Next (sid, call)), q)"
  obtains body i p1 p2 where "\<not> ed_blocked E w" and "ed_available E w" and "ed_security E rq = None"
    and "read_body E rq = Next body"
    and "identify E rq (ed_engine E w) (map_option fst body) (m, w) = (Inr (Next i), p1)"
    and "gate_rate E i (map_option snd body) p1 = (Inr (Next ()), p2)"
    and "check_session E rq (ed_engine E w) i (map_option snd body) p2 = (Inr (Next (sid, call)), q)"
proof -
  have ok: "\<not> ed_blocked E w" "ed_available E w" "ed_security E rq = None"
    using assms by (auto simp: check_request_def refuse_def split: if_splits option.splits)
  then obtain body where body: "read_body E rq = Next body"
    using assms by (cases "read_body E rq") (auto simp: check_request_def Let_def)
  with ok assms have "bind_step (identify E rq (ed_engine E w) (map_option fst body)) (\<lambda>i.
      bind_step (gate_rate E i (map_option snd body)) (\<lambda>_.
        check_session E rq (ed_engine E w) i (map_option snd body))) (m, w) = (Inr (Next (sid, call)), q)"
    by (simp add: check_request_def Let_def)
  then show thesis
    using that [OF ok body] by (auto elim!: bind_step_NextE)
qed

lemma check_session_steps:
  assumes "check_session E rq e i msg p = (Inr (Next (sid, call)), q)"
  obtains p1 where "header rq session_header = None \<and> is_post rq \<longrightarrow> is_initialize msg"
    and "server_config e (requested_server rq) \<noteq> None"
    and "find_session E rq i p = (Inr (Next sid), p1)" and "admit E sid i msg p1 = (Inr (Next call), q)"
  using assms unfolding check_session_def
  by (auto simp: refuse_def split: if_splits elim!: bind_step_NextE)

text \<open>
  C9: A request reaches a session's transport only when the gateway is not waiting for a
  recovery, the security check passed, the caller proved to be an identity of the active
  policy (its key, its signature over this very message, or a session of a signing identity
  for requests without a body), the server is registered, the session is the named one of
  this identity and this server or was created for them by an initialize request, and a
  tool call passed the rate limit and was admitted among the calls in flight.
\<close>

theorem served_request_is_authorized:
  assumes "check_request E rq (m, w) = (Inr (Next (sid, call)), q)"
  shows "\<not> ed_blocked E w \<and> ed_available E w \<and> ed_security E rq = None \<and>
    (\<exists>body i p1 p2. read_body E rq = Next body \<and>
       proves_identity E rq (ed_engine E w) m (map_option fst body) i \<and>
       server_config (ed_engine E w) (requested_server rq) \<noteq> None \<and>
       fst p1 = m \<and> session_for E rq i sid p1 p2 \<and>
       (header rq session_header = None \<longrightarrow> is_initialize (map_option snd body)) \<and>
       (is_tool_call (map_option snd body) \<longrightarrow>
          (\<exists>w0. check_rate_limit (ed_redis E) (ed_settings E) i w0 = (Inr None, snd p1)) \<and>
          (\<exists>rid params. map_option snd body = Some (Request rid ''tools/call'' params) \<and> call = Some rid \<and>
             admit_call (ed_settings E) sid i rid (fst p2) = Inr (fst q))))"
proof -
  obtain body i p1 p2 where pass: "\<not> ed_blocked E w" "ed_available E w" "ed_security E rq = None"
    and body: "read_body E rq = Next body"
    and id: "identify E rq (ed_engine E w) (map_option fst body) (m, w) = (Inr (Next i), p1)"
    and rate: "gate_rate E i (map_option snd body) p1 = (Inr (Next ()), p2)"
    and sess: "check_session E rq (ed_engine E w) i (map_option snd body) p2 = (Inr (Next (sid, call)), q)"
    using assms by (rule check_request_steps)
  obtain p3 where init: "header rq session_header = None \<and> is_post rq \<longrightarrow> is_initialize (map_option snd body)"
    and srv: "server_config (ed_engine E w) (requested_server rq) \<noteq> None"
    and found: "find_session E rq i p2 = (Inr (Next sid), p3)" and adm: "admit E sid i (map_option snd body) p3 = (Inr (Next call), q)"
    using sess by (rule check_session_steps)
  note id = identify_Next [OF id] and rate = gate_rate_Next [OF rate] and found = find_session_Next [OF found]
  have "is_post rq" if "header rq session_header = None" using found that by (simp add: session_for_def)
  moreover have "(\<exists>rid params. map_option snd body = Some (Request rid ''tools/call'' params) \<and> call = Some rid \<and>
      admit_call (ed_settings E) sid i rid (fst p3) = Inr (fst q))" if "is_tool_call (map_option snd body)"
    using admit_Next [OF adm] rate that
    by (auto simp: is_tool_call_def is_notification_def split: option.splits rpc_message.splits)
  moreover have "\<exists>w0. check_rate_limit (ed_redis E) (ed_settings E) i w0 = (Inr None, snd p2)"
    if "is_tool_call (map_option snd body)" using rate that by blast
  moreover have "fst p2 = m" using id rate by simp
  moreover have "proves_identity E rq (ed_engine E w) m (map_option fst body) i" using id by simp
  ultimately show ?thesis
    using pass body srv found init by (intro conjI exI [of _ body] exI [of _ i] exI [of _ p2] exI [of _ p3]) simp_all
qed

text \<open>A session of \<open>ann\<close> on \<open>fs\<close>, and her tool call with her key.\<close>

definition caller :: ident where
  "caller =
     \<lparr>i_id = ''ann'', i_auth_mode = Bearer, i_api_key_hash = Some ''sha256:k'', i_key_id = None,
      i_signing_secret_env = None, i_totp_secret_env = None, i_admin = False, i_allowed_servers = [],
      i_attributes = [], i_signing_secret = [], i_totp_secret = []\<rparr>"

definition file_server :: upstream_server where
  "file_server =
     \<lparr>us_image = ''fs'', us_command = [''fs''], us_env = [], us_volumes = [], us_network = NetNone,
      us_resources = default_resources, us_resolved_environment = []\<rparr>"

definition caller_engine :: policy_engine where
  "caller_engine =
     \<lparr>e_policy = \<lparr>p_version = 1, p_servers = [(''fs'', file_server)], p_identities = [caller],
        p_risk = \<lparr>tool_sensitivity = [], protected_repos = []\<rparr>\<rparr>,
      e_content_hash = [], e_raw = []\<rparr>"

definition plain_edge :: "unit edge" where
  "plain_edge =
     \<lparr>ed_settings = default_settings,
      ed_redis = \<lambda>c. ret_io (case c of Incr _ \<Rightarrow> IntR 1 | Get _ \<Rightarrow> NilR
        | FailureScript _ _ \<Rightarrow> PairR 1 60 | _ \<Rightarrow> OkR),
      ed_sha256 = \<lambda>s. s, ed_canon = \<lambda>_. Inr [], ed_hmac = \<lambda>_ _. [], ed_security = \<lambda>_. None,
      ed_decode = Some, ed_loads = \<lambda>_. Some (JObj []),
      ed_message = \<lambda>_. Some (Request (IdInt 1) ''tools/call'' None),
      ed_blocked = \<lambda>_. False, ed_available = \<lambda>_. True, ed_engine = \<lambda>_. caller_engine,
      ed_create = \<lambda>i server. raise_io SessionLimitExceeded,
      ed_transport = \<lambda>_ _ p. (Done False, p), ed_teardown = \<lambda>_. ret_io ()\<rparr>"

definition one_session :: manager where
  "one_session = register_session ''s1'' ''ann'' ''fs'' ''fp'' new_manager"

definition call_with_key :: "string \<Rightarrow> http_request" where
  "call_with_key key =
     \<lparr>rq_method = ''POST'', rq_path = ''/mcp/fs'', rq_root_path = ''/mcp'',
      rq_headers = [(''X-PortunusMCP-Key'', key), (''Mcp-Session-Id'', ''s1'')],
      rq_client = JArr [JStr ''10.0.0.1''], rq_events = [BodyEvent ''{}'' False]\<rparr>"

lemma call_checked:
  "fst (check_request plain_edge (call_with_key ''k'') (one_session, ())) = Inr (Next (''s1'', Some (IdInt 1)))"
  by code_simp

theorem served_request_is_authorized_witness:
  "\<exists>i. resolve_identity (\<lambda>s. s) (Some ''k'') caller_engine = Some i"
proof -
  obtain q where "check_request plain_edge (call_with_key ''k'') (one_session, ()) =
      (Inr (Next (''s1'', Some (IdInt 1))), q)"
    using call_checked by (metis prod.collapse)
  from served_request_is_authorized [OF this] obtain parsed i where
    "proves_identity plain_edge (call_with_key ''k'') caller_engine one_session parsed i"
    by (auto simp: plain_edge_def)
  moreover have "header (call_with_key ''k'') key_header = Some ''k''" by code_simp
  ultimately show ?thesis by (auto simp: proves_identity_def plain_edge_def)
qed

lemma read_body_path [simp]: "read_body E (rq\<lparr>rq_path := path\<rparr>) = read_body E rq"
  by (simp add: read_body_def read_message_def is_post_def header_def headers_of_def)

lemma request_parts [simp]:
  "header (rq\<lparr>rq_path := path\<rparr>) = header rq" "is_post (rq\<lparr>rq_path := path\<rparr>) = is_post rq"
  by (simp_all add: header_def headers_of_def is_post_def fun_eq_iff)

lemma identify_path [simp]: "identify E (rq\<lparr>rq_path := path\<rparr>) = identify E rq"
  by (simp add: identify_def authenticate_def fun_eq_iff cong: option.case_cong if_cong)

lemma bind_step_stops:
  assumes "\<And>i q. m p \<noteq> (Inr (Next i), q)"
  shows "bind_step m f p = bind_step m g p"
proof -
  obtain r p' where m: "m p = (r, p')" by (cases "m p")
  with assms show ?thesis
    by (cases r; cases "projr r") (auto simp: bind_step_def bind_io_def)
qed

lemma check_request_path:
  assumes "ed_security E (rq\<lparr>rq_path := path\<rparr>) = ed_security E rq"
    and "\<And>body i q. read_body E rq = Next body \<Longrightarrow>
      identify E rq (ed_engine E w) (map_option fst body) (m, w) \<noteq> (Inr (Next i), q)"
  shows "check_request E (rq\<lparr>rq_path := path\<rparr>) (m, w) = check_request E rq (m, w)"
proof (cases "read_body E rq")
  case (Next body)
  have "bind_step (identify E rq (ed_engine E w) (map_option fst body)) f (m, w) =
      bind_step (identify E rq (ed_engine E w) (map_option fst body)) g (m, w)"
    for f g :: "string \<Rightarrow> (manager \<times> 'a, (string \<times> request_id option) step) io"
    by (rule bind_step_stops) (rule assms(2) [OF Next])
  then show ?thesis
    using assms(1) by (auto simp: check_request_def Next Let_def split: option.splits)
qed (simp add: check_request_def assms(1) Let_def split: option.splits)

text \<open>
  C11: A caller who is nobody learns nothing of the servers. While authentication does not
  resolve to an identity (a limiter's refusal and an exception included), the whole outcome,
  reply and state, is the same for every path asked for: an unregistered server cannot be
  told from a registered one. The security middleware does not look at the path.
\<close>

theorem unknown_caller_learns_no_server:
  assumes "ed_security E (rq\<lparr>rq_path := path\<rparr>) = ed_security E rq"
    and "\<And>body i q. read_body E rq = Next body \<Longrightarrow>
      identify E rq (ed_engine E w) (map_option fst body) (m, w) \<noteq> (Inr (Next i), q)"
  shows "mcp_endpoint E (rq\<lparr>rq_path := path\<rparr>) (m, w) = mcp_endpoint E rq (m, w)"
proof -
  have c: "check_request E (rq\<lparr>rq_path := path\<rparr>) (m, w) = check_request E rq (m, w)"
    using assms by (rule check_request_path)
  have no: "check_request E rq (m, w) \<noteq> (Inr (Next x), q)" for x q
  proof
    assume "check_request E rq (m, w) = (Inr (Next x), q)"
    then show False using assms(2) by (cases x) (auto elim: check_request_steps)
  qed
  obtain r q where r: "check_request E rq (m, w) = (r, q)" by (cases "check_request E rq (m, w)")
  show ?thesis
  proof (cases r)
    case (Inr y)
    with r no c show ?thesis by (cases y) (auto simp: mcp_endpoint_def bind_io_def)
  qed (use r c in \<open>simp add: mcp_endpoint_def bind_io_def\<close>)
qed

lemma wrong_key_unresolved:
  "fst (identify plain_edge (call_with_key ''x'') caller_engine (Some []) (one_session, ())) =
     Inr (refuse 401 ''invalid or missing API key or signature'')"
  "read_body plain_edge (call_with_key ''x'') = Next (Some ([], Request (IdInt 1) ''tools/call'' None))"
  by code_simp+

theorem unknown_caller_learns_no_server_witness:
  "mcp_endpoint plain_edge ((call_with_key ''x'')\<lparr>rq_path := ''/mcp/secret''\<rparr>) (one_session, ()) =
     mcp_endpoint plain_edge (call_with_key ''x'') (one_session, ())"
proof (rule unknown_caller_learns_no_server)
  show "ed_security plain_edge ((call_with_key ''x'')\<lparr>rq_path := ''/mcp/secret''\<rparr>) =
      ed_security plain_edge (call_with_key ''x'')" by (simp add: plain_edge_def)
  fix body i q
  assume "read_body plain_edge (call_with_key ''x'') = Next body"
  then have "body = Some ([], Request (IdInt 1) ''tools/call'' None)"
    using wrong_key_unresolved(2) by (metis step.inject(2))
  then have "map_option fst body = Some []" by simp
  then show "identify plain_edge (call_with_key ''x'') (ed_engine plain_edge ()) (map_option fst body) (one_session, ()) \<noteq>
      (Inr (Next i), q)"
    using wrong_key_unresolved(1) by (auto simp: refuse_def plain_edge_def dest!: arg_cong [of _ _ fst])
qed

definition accounted :: "string \<Rightarrow> request_id \<Rightarrow> manager \<Rightarrow> bool" where
  "accounted sid rid m \<longleftrightarrow>
     (case map_of (sm_outstanding m) (sid, rid) of
        None \<Rightarrow> True
      | Some c \<Rightarrow> oc_timed_out c \<or> oc_disconnected c)"

lemma remove_call_gone: "map_of (sm_outstanding (remove_call sid rid c m)) (sid, rid) = None"
  by (simp add: remove_call_def Let_def split: option.splits)

lemma release_accounted: "accounted sid rid (release_call sid (Some rid) gone m)"
proof (cases "map_of (sm_outstanding m) (sid, rid)")
  case (Some c)
  then show ?thesis
    by (auto simp: release_call_def accounted_def finish_call_def disconnect_call_def remove_call_gone update_call_def)
qed (simp add: release_call_def accounted_def finish_call_def disconnect_call_def)

lemma call_is_post:
  assumes "check_request E rq (m, w) = (Inr (Next (sid, Some rid)), q)"
  shows "is_post rq"
proof -
  obtain body i p1 p2 where "read_body E rq = Next body"
    and "check_session E rq (ed_engine E w) i (map_option snd body) p2 = (Inr (Next (sid, Some rid)), q)"
    using assms by (rule check_request_steps)
  moreover from this(2) obtain p3 where "admit E sid i (map_option snd body) p3 = (Inr (Next (Some rid)), q)"
    by (rule check_session_steps)
  ultimately show ?thesis
    using admit_Next by (fastforce simp: read_body_def split: if_splits)
qed

text \<open>
  C10: No admitted call leaks. However the transport ends (answered, disconnected, cancelled,
  raising) and whatever it and its pumps did to the table meanwhile, when the request is over
  its call is out of the table, or marked disconnected or timed out, the two states in which
  the answer of the server or the cleanup of the session removes it.
\<close>

theorem admitted_call_is_released:
  assumes "check_request E rq (m, w) = (Inr (Next (sid, Some rid)), q)"
    and "mcp_endpoint E rq (m, w) = (r, (m', w'))"
  shows "accounted sid rid m'"
proof -
  have "rq_method rq \<noteq> ''DELETE''" using call_is_post [OF assms(1)] by (simp add: is_post_def)
  then show ?thesis
    using assms release_accounted
    by (auto simp: mcp_endpoint_def bind_io_def serve_def split: prod.splits transport_end.splits)
qed

theorem admitted_call_is_released_witness:
  "accounted ''s1'' (IdInt 1) (fst (snd (mcp_endpoint plain_edge (call_with_key ''k'') (one_session, ()))))"
proof -
  obtain q where "check_request plain_edge (call_with_key ''k'') (one_session, ()) =
      (Inr (Next (''s1'', Some (IdInt 1))), q)"
    using call_checked by (metis prod.collapse)
  then show ?thesis by (rule admitted_call_is_released) (simp add: prod_eq_iff)
qed

end
