(* ===== verification/AuditExport.thy ===== *)
theory AuditExport
  imports AuditVerification "HOL-Library.List_Lexorder" "HOL-Library.Char_ord"
begin

text \<open>
  \<open>services/gateway/audit_export.py\<close>: the verified export of a span of the audit log as
  lines of JSON, and the offline check of such a file. Parameters: the JSON text codec, ISO
  timestamps, base64 and PEM (fields of a record), the key store, and the clock. A line is
  what \<open>json.dumps(_, sort_keys=True)\<close> prints, so a value comes back with its keys sorted.
\<close>

section \<open>The export\<close>

fun sort_json :: "json \<Rightarrow> json" where
  "sort_json (JObj d) = JObj (sort_key fst (map (\<lambda>p. (fst p, sort_json (snd p))) d))"
| "sort_json (JArr xs) = JArr (map sort_json xs)"
| "sort_json v = v"

record codec =
  cd_dumps :: "json \<Rightarrow> string"
  cd_loads :: "string \<Rightarrow> json option"
  cd_iso :: "rat \<Rightarrow> string"
  cd_from_iso :: "string \<Rightarrow> rat option"
  cd_b64 :: "string \<Rightarrow> string"
  cd_unb64 :: "string \<Rightarrow> string option"
  cd_load_pem :: "string \<Rightarrow> string option res"

fun opt_int :: "int option \<Rightarrow> json" where
  "opt_int None = JNull"
| "opt_int (Some n) = JInt n"

definition export_format :: string where
  "export_format = ''portunusmcp-audit-export''"

definition manifest ::
  "int option \<Rightarrow> int option \<Rightarrow> int \<Rightarrow> bool \<Rightarrow> string \<Rightarrow> (string \<times> string) list \<Rightarrow> jdict" where
  "manifest from_seq to_seq row_count genesis_anchored now keys =
     [(''type'', JStr ''manifest''), (''format'', JStr export_format), (''version'', JInt 1),
      (''bounds'', JObj [(''from_seq'', opt_int from_seq), (''to_seq'', opt_int to_seq)]),
      (''genesis_anchored'', JBool genesis_anchored), (''prefix_attested'', JBool genesis_anchored),
      (''row_count'', JInt row_count), (''export_timestamp'', JStr now),
      (''public_keys'', JObj (map (\<lambda>(k, pem). (k, JStr pem)) keys))]"

text \<open>\<open>WHERE seq BETWEEN start AND end ORDER BY seq\<close>.\<close>

definition rows_between :: "int \<Rightarrow> int \<Rightarrow> audit_row list \<Rightarrow> audit_row list" where
  "rows_between a b rows = sort_key a_seq (filter (\<lambda>r. a \<le> a_seq r \<and> a_seq r \<le> b) rows)"

text \<open>The loop over the rows: the previous hash, the next sequence number, the keys used.\<close>

fun export_rows ::
  "(audit_row \<Rightarrow> string \<Rightarrow> string res) \<Rightarrow> audit_row list \<Rightarrow> string option \<Rightarrow> int \<Rightarrow> string list \<Rightarrow> int \<Rightarrow>
     (string list \<times> int) res" where
  "export_rows verify [] prev expected used n = Inr (used, n)"
| "export_rows verify (r # rs) prev expected used n =
     (if a_seq r \<noteq> expected
      then Inl (ValueError (''audit export range has a gap before seq '' @ int_str (a_seq r)))
      else bind_res (verify r (case prev of None \<Rightarrow> a_prev_hash r | Some h \<Rightarrow> h)) (\<lambda>h.
        case a_key_id r of
          None \<Rightarrow> Inl (ValueError (''audit row '' @ int_str (a_seq r) @ '' has no key id''))
        | Some k \<Rightarrow> export_rows verify rs (Some h) (expected + 1) (List.insert k used) (n + 1)))"

definition chain_start :: "int \<Rightarrow> string option" where
  "chain_start start = (if start = 1 then Some genesis_hash else None)"

fun read_keys :: "(string \<Rightarrow> string res) \<Rightarrow> string list \<Rightarrow> (string \<times> string) list res" where
  "read_keys read_pem [] = Inr []"
| "read_keys read_pem (k # ks) =
     bind_res (read_pem k) (\<lambda>pem. bind_res (read_keys read_pem ks) (\<lambda>rest. Inr ((k, pem) # rest)))"

definition not_positive :: "int option \<Rightarrow> bool" where
  "not_positive b \<longleftrightarrow> (case b of None \<Rightarrow> False | Some n \<Rightarrow> n \<le> 0)"

definition export_prepare ::
  "verifier_env \<Rightarrow> (string \<Rightarrow> string res) \<Rightarrow> (string \<Rightarrow> string res) \<Rightarrow> string \<Rightarrow> audit_row list \<Rightarrow>
     int option \<Rightarrow> int option \<Rightarrow> (jdict \<times> (int \<times> int) option) res" where
  "export_prepare E load read_pem now rows from_seq to_seq =
     (if not_positive from_seq \<or> not_positive to_seq
      then Inl (ValueError ''audit sequence bounds must be positive integers'')
      else if rows = [] then Inr (manifest None None 0 True now [], None)
      else
        (let start = (case from_seq of Some n \<Rightarrow> n | None \<Rightarrow> Min (set (map a_seq rows)));
             stop = (case to_seq of Some n \<Rightarrow> n | None \<Rightarrow> Max (set (map a_seq rows)))
         in if start > stop then Inl (ValueError ''from_seq must not exceed to_seq'')
            else bind_res
              (export_rows (verify_record E load None) (rows_between start stop rows) (chain_start start) start [] 0)
              (\<lambda>(used, n).
                if n \<noteq> stop - start + 1 then Inl (ValueError ''audit export range does not exist in full'')
                else bind_res (read_keys read_pem (sort used)) (\<lambda>keys.
                  Inr (manifest (Some start) (Some stop) n (start = 1) now keys, Some (start, stop))))))"

definition row_dict :: "codec \<Rightarrow> audit_row \<Rightarrow> jdict" where
  "row_dict C r =
     [(''type'', JStr ''audit_row''), (''seq'', JInt (a_seq r)), (''prev_hash'', JStr (a_prev_hash r)),
      (''curr_hash'', JStr (a_curr_hash r)), (''signature'', JStr (cd_b64 C (a_signature r))),
      (''timestamp'', JStr (cd_iso C (a_timestamp r))), (''identity_id'', JStr (a_identity_id r)),
      (''server_id'', opt_str (a_server_id r)), (''tool_name'', opt_str (a_tool_name r)),
      (''policy_version'', JInt (a_policy_version r)), (''event_type'', JStr (a_event_type r)),
      (''risk_score'', opt_int (a_risk_score r)), (''payload'', JObj (a_payload r)),
      (''latency_ms'', opt_int (a_latency_ms r)), (''key_id'', opt_str (a_key_id r))]"

definition export_stream :: "codec \<Rightarrow> jdict \<Rightarrow> (int \<times> int) option \<Rightarrow> audit_row list \<Rightarrow> string list" where
  "export_stream C m bounds rows =
     cd_dumps C (JObj m) #
     (case bounds of
        None \<Rightarrow> []
      | Some (start, stop) \<Rightarrow> map (\<lambda>r. cd_dumps C (JObj (row_dict C r))) (rows_between start stop rows))"

section \<open>The offline check\<close>

text \<open>
  A line of the file as a row. A hash or name that is no string makes the row invalid here;
  the code builds the record and leaves it to the comparisons of \<open>verify_record\<close>, so it also
  takes a row that is not of the writer's types when its payload repeats the same values.
  A whole float is the integer it equals. Nothing reads \<open>risk_score\<close> and \<open>latency_ms\<close>, so any
  value will do.
\<close>

fun str_field :: "json \<Rightarrow> string option" where
  "str_field (JStr s) = Some s"
| "str_field _ = None"

fun int_field :: "json \<Rightarrow> int option" where
  "int_field (JInt n) = Some n"
| "int_field (JBool b) = Some (if b then 1 else 0)"
| "int_field _ = None"

fun whole_field :: "json \<Rightarrow> int option" where
  "whole_field (JFloat (FinF q)) = (if of_int \<lfloor>q\<rfloor> = q then Some \<lfloor>q\<rfloor> else None)"
| "whole_field v = int_field v"

fun opt_field :: "(json \<Rightarrow> 'a option) \<Rightarrow> json \<Rightarrow> 'a option option" where
  "opt_field f JNull = Some None"
| "opt_field f v = map_option Some (f v)"

fun dict_field :: "json \<Rightarrow> jdict option" where
  "dict_field (JObj d) = Some d"
| "dict_field _ = None"

definition required :: "(json \<Rightarrow> 'a option) \<Rightarrow> jdict \<Rightarrow> string \<Rightarrow> 'a option" where
  "required f d k = Option.bind (map_of d k) f"

definition decode_row :: "codec \<Rightarrow> jdict \<Rightarrow> audit_row option" where
  "decode_row C d =
     Option.bind (required whole_field d ''seq'') (\<lambda>seq.
     Option.bind (required str_field d ''prev_hash'') (\<lambda>prev.
     Option.bind (required str_field d ''curr_hash'') (\<lambda>curr.
     Option.bind (required (\<lambda>v. Option.bind (str_field v) (cd_unb64 C)) d ''signature'') (\<lambda>sig.
     Option.bind (required (opt_field str_field) d ''key_id'') (\<lambda>key_id.
     Option.bind (required (\<lambda>v. Option.bind (str_field v) (cd_from_iso C)) d ''timestamp'') (\<lambda>ts.
     Option.bind (required str_field d ''identity_id'') (\<lambda>i.
     Option.bind (required (opt_field str_field) d ''server_id'') (\<lambda>server.
     Option.bind (required (opt_field str_field) d ''tool_name'') (\<lambda>tool.
     Option.bind (required whole_field d ''policy_version'') (\<lambda>version.
     Option.bind (required str_field d ''event_type'') (\<lambda>event.
     Option.bind (required (\<lambda>v. Some (int_field v)) d ''risk_score'') (\<lambda>risk.
     Option.bind (required dict_field d ''payload'') (\<lambda>payload.
     Option.bind (required (\<lambda>v. Some (int_field v)) d ''latency_ms'') (\<lambda>latency.
       Some \<lparr>a_seq = seq, a_prev_hash = prev, a_curr_hash = curr, a_signature = sig, a_key_id = key_id,
         a_timestamp = ts, a_identity_id = i, a_server_id = server, a_tool_name = tool,
         a_policy_version = version, a_event_type = event, a_risk_score = risk, a_payload = payload,
         a_latency_ms = latency\<rparr>))))))))))))))"

definition read_row :: "codec \<Rightarrow> string \<Rightarrow> audit_row option" where
  "read_row C line = Option.bind (cd_loads C line) (\<lambda>v. Option.bind (dict_field v) (decode_row C))"


text \<open>The key bundle of the manifest.\<close>

fun load_bundle :: "codec \<Rightarrow> jdict \<Rightarrow> (string \<times> string) list res" where
  "load_bundle C [] = Inr []"
| "load_bundle C ((k, v) # kvs) =
     (case v of
        JStr pem \<Rightarrow>
          bind_res (cd_load_pem C pem) (\<lambda>key.
            case key of
              None \<Rightarrow> Inl (ValueError (''audit key '' @ k @ '' is not EC''))
            | Some pub \<Rightarrow> bind_res (load_bundle C kvs) (\<lambda>rest. Inr ((k, pub) # rest)))
      | _ \<Rightarrow> Inl AttributeError)"

definition bundled_key :: "(string \<times> string) list \<Rightarrow> string \<Rightarrow> string res" where
  "bundled_key keys k =
     (case map_of keys k of Some pub \<Rightarrow> Inr pub | None \<Rightarrow> Inl (ValueError (''missing public key '' @ k)))"

fun get_of :: "json \<Rightarrow> jdict res" where
  "get_of (JObj d) = Inr d"
| "get_of _ = Inl AttributeError"

fun verify_lines ::
  "(audit_row \<Rightarrow> string \<Rightarrow> string res) \<Rightarrow> codec \<Rightarrow> string list \<Rightarrow> string option \<Rightarrow> json \<Rightarrow>
     string list \<Rightarrow> int \<Rightarrow> (json \<times> string list \<times> int) res" where
  "verify_lines verify C [] prev expected used n = Inr (expected, used, n)"
| "verify_lines verify C (line # lines) prev expected used n =
     (case read_row C line of
        None \<Rightarrow> Inl (ValueError (''invalid audit export row after '' @ int_str n @ '' rows''))
      | Some r \<Rightarrow>
          if \<not> py_eq (JInt (a_seq r)) expected
          then Inl (ValueError (''audit export sequence mismatch at seq '' @ int_str (a_seq r)))
          else bind_res (verify r (case prev of None \<Rightarrow> a_prev_hash r | Some h \<Rightarrow> h)) (\<lambda>h.
            case a_key_id r of
              None \<Rightarrow> Inl AssertionError
            | Some k \<Rightarrow>
                verify_lines verify C lines (Some h) (JInt (a_seq r + 1)) (List.insert k used) (n + 1)))"

definition manifest_supported :: "jdict \<Rightarrow> bool" where
  "manifest_supported m \<longleftrightarrow>
     py_eq (dget m ''type'') (JStr ''manifest'') \<and> py_eq (dget m ''format'') (JStr export_format) \<and>
     py_eq (dget m ''version'') (JInt 1)"

fun check_totals :: "jdict \<Rightarrow> jdict \<Rightarrow> (string \<times> string) list \<Rightarrow> json \<times> string list \<times> int \<Rightarrow> (int \<times> bool) res" where
  "check_totals m bnd keys (expected, used, n) =
     (if \<not> py_eq (JInt n) (dget m ''row_count'')
      then Inl (ValueError ''audit export row count does not match manifest'')
      else if n \<noteq> 0 \<and>
        (case int_field (dget bnd ''to_seq'') of
           None \<Rightarrow> True | Some stop \<Rightarrow> \<not> py_eq expected (JInt (stop + 1)))
      then Inl (ValueError ''audit export bounds do not match rows'')
      else if set used \<noteq> fst ` set keys
      then Inl (ValueError ''audit export key bundle is not exact'')
      else Inr (n, truthy (dget m ''genesis_anchored'')))"

definition read_manifest :: "codec \<Rightarrow> string list \<Rightarrow> jdict res" where
  "read_manifest C ls =
     (case Option.bind (case ls of [] \<Rightarrow> None | line # _ \<Rightarrow> Some line) (cd_loads C) of
        None \<Rightarrow> Inl (ValueError ''audit export has no valid manifest'')
      | Some v \<Rightarrow>
          bind_res (get_of v) (\<lambda>m.
            if manifest_supported m then Inr m else Inl (ValueError ''unsupported audit export format'')))"

definition verify_file :: "verifier_env \<Rightarrow> codec \<Rightarrow> string list \<Rightarrow> (int \<times> bool) res" where
  "verify_file E C ls =
     bind_res (read_manifest C ls) (\<lambda>m.
     bind_res (get_of (case map_of m ''public_keys'' of None \<Rightarrow> JObj [] | Some b \<Rightarrow> b)) (\<lambda>b.
     bind_res (load_bundle C b) (\<lambda>keys.
     bind_res (get_of (py_or (dget m ''bounds'') (JObj []))) (\<lambda>bnd.
     bind_res
       (verify_lines (verify_record E (bundled_key keys) None) C (tl ls)
          (if py_eq (dget bnd ''from_seq'') (JInt 1) then Some genesis_hash else None)
          (dget bnd ''from_seq'') [] 0)
       (check_totals m bnd keys)))))"

section \<open>Lemmas\<close>

definition sorted_fields :: "jdict \<Rightarrow> jdict" where
  "sorted_fields d = sort_key fst (map (\<lambda>p. (fst p, sort_json (snd p))) d)"

lemma sort_json_JObj: "sort_json (JObj d) = JObj (sorted_fields d)"
  by (simp add: sorted_fields_def)

lemma map_of_sort_key:
  assumes "distinct (map fst d)"
  shows "map_of (sort_key fst d) = map_of d"
proof -
  have "mset (map fst (sort_key fst d)) = mset (map fst d)" by simp
  then have "distinct (map fst (sort_key fst d))" using assms by (metis mset_eq_imp_distinct_iff)
  then show ?thesis using assms by (simp add: map_of_inject_set)
qed

lemma map_of_sorted_fields:
  assumes "distinct (map fst d)"
  shows "map_of (sorted_fields d) k = map_option sort_json (map_of d k)"
proof -
  let ?d = "map (\<lambda>(k, v). (k, sort_json v)) d"
  have "map_of (sort_key fst ?d) = map_of ?d"
    by (rule map_of_sort_key) (use assms in \<open>simp add: split_def comp_def\<close>)
  then have "map_of (sorted_fields d) = map_of ?d" by (simp add: sorted_fields_def split_def)
  then show ?thesis by (simp add: map_of_map)
qed

lemma sort_json_scalars [simp]:
  "sort_json (opt_str s) = opt_str s" "sort_json (opt_int i) = opt_int i"
  subgoal by (cases s) simp_all
  subgoal by (cases i) simp_all
  done

lemma py_eq_sort_json [simp]:
  "sort_json v = JStr s \<longleftrightarrow> v = JStr s" "sort_json v = JNull \<longleftrightarrow> v = JNull"
  "sort_json v = opt_str t \<longleftrightarrow> v = opt_str t"
  by (cases v; cases t; auto)+

lemma num_val_sort_json [simp]: "num_val (sort_json v) = num_val v"
  by (cases v) auto

lemma py_eq_JInt_num: "py_eq v (JInt n) \<longleftrightarrow> (case num_val v of Some a \<Rightarrow> float_eq a (FinF (of_int n)) | None \<Rightarrow> False)"
  by (cases v) (auto simp: py_eq.simps)

lemma py_eq_JInts [simp]: "py_eq (JInt a) (JInt b) \<longleftrightarrow> a = b"
  by (simp add: py_eq_JInt_num)

lemma py_eq_one: "py_eq (JInt 1) v \<longleftrightarrow> py_eq v (JInt 1)"
proof (cases "num_val v")
  case (Some f)
  then show ?thesis by (cases v; cases f) (auto simp: py_eq.simps)
next
  case None
  then show ?thesis by (cases v) (auto simp: py_eq.simps)
qed

lemma dget_sorted_fields: "distinct (map fst d) \<Longrightarrow> dget (sorted_fields d) k = sort_json (dget d k)"
  by (simp add: dget_def map_of_sorted_fields split: option.split)

definition sorted_payload :: "audit_row \<Rightarrow> audit_row" where
  "sorted_payload r = r\<lparr>a_payload := sorted_fields (a_payload r)\<rparr>"

lemma sorted_payload_fields [simp]:
  "a_seq (sorted_payload r) = a_seq r" "a_key_id (sorted_payload r) = a_key_id r"
  "a_prev_hash (sorted_payload r) = a_prev_hash r" "a_curr_hash (sorted_payload r) = a_curr_hash r"
  "a_signature (sorted_payload r) = a_signature r" "a_event_type (sorted_payload r) = a_event_type r"
  "a_identity_id (sorted_payload r) = a_identity_id r" "a_server_id (sorted_payload r) = a_server_id r"
  "a_tool_name (sorted_payload r) = a_tool_name r" "a_policy_version (sorted_payload r) = a_policy_version r"
  "a_payload (sorted_payload r) = sorted_fields (a_payload r)"
  by (simp_all add: sorted_payload_def)

text \<open>Sorting the keys of a payload does not change what \<open>verify_record\<close> sees of it.\<close>

lemma verify_record_sorted:
  assumes "distinct (map fst (a_payload r))"
    and "v_canon E (JObj (sorted_fields (a_payload r))) = v_canon E (JObj (a_payload r))"
  shows "verify_record E load legacy (sorted_payload r) prev = verify_record E load legacy r prev"
proof -
  have msg: "seq_text a (sorted_payload r) b = seq_text a r b" for a b by (simp add: seq_text_def)
  have hash: "compute_hash (v_sha256 E) (v_canon E) prev (sorted_fields (a_payload r)) =
      compute_hash (v_sha256 E) (v_canon E) prev (a_payload r)"
    using assms(2) by (simp add: compute_hash_def)
  have proj: "check_projections (sorted_payload r) (protected_fields (sorted_payload r)) =
      check_projections r (protected_fields r)"
    using assms(1) by (simp add: protected_fields_def msg dget_sorted_fields py_eq_JInt_num)
  have key: "check_key_projection (sorted_payload r) k = check_key_projection r k" for k
    using assms(1) by (simp add: check_key_projection_def msg dget_sorted_fields Let_def)
  show ?thesis unfolding verify_record_def msg hash proj key sorted_payload_fields ..
qed

lemma read_row_written:
  assumes "cd_loads C (cd_dumps C (JObj (row_dict C r))) = Some (sort_json (JObj (row_dict C r)))"
    and "cd_unb64 C (cd_b64 C (a_signature r)) = Some (a_signature r)"
    and "cd_from_iso C (cd_iso C (a_timestamp r)) = Some (a_timestamp r)"
  shows "read_row C (cd_dumps C (JObj (row_dict C r))) = Some (sorted_payload r)"
proof -
  have keys: "distinct (map fst (row_dict C r))" by (simp add: row_dict_def)
  have opts: "opt_field str_field (opt_str s) = Some s" "int_field (opt_int i) = i" for s i
    by (cases s; simp) (cases i; simp)
  have "decode_row C (sorted_fields (row_dict C r)) = Some (sorted_payload r)"
    using assms(2,3)
    by (simp add: decode_row_def required_def map_of_sorted_fields [OF keys])
      (simp add: row_dict_def opts sorted_payload_def sort_json_JObj del: sort_json.simps(1))
  then show ?thesis
    unfolding read_row_def assms(1) sort_json_JObj by simp
qed

text \<open>A run of the export loop: consecutive rows, each verified from the one before.\<close>

definition row_keys :: "audit_row list \<Rightarrow> string set" where
  "row_keys rs = {k. \<exists>r \<in> set rs. a_key_id r = Some k}"

lemma row_keys_simps [simp]:
  "row_keys [] = {}"
  "row_keys (r # rs) = (case a_key_id r of None \<Rightarrow> row_keys rs | Some k \<Rightarrow> insert k (row_keys rs))"
  by (auto simp: row_keys_def split: option.splits)

definition start_hash :: "string option \<Rightarrow> audit_row list \<Rightarrow> string" where
  "start_hash prev rs =
     (case prev of Some h \<Rightarrow> h | None \<Rightarrow> (case rs of [] \<Rightarrow> [] | r # _ \<Rightarrow> a_prev_hash r))"

lemma export_rows_Inr:
  "export_rows verify rs prev expected used n = Inr (used', n') \<longleftrightarrow>
     map a_seq rs = map (\<lambda>i. expected + int i) [0..<length rs] \<and>
     (\<forall>r \<in> set rs. a_key_id r \<noteq> None) \<and>
     (\<exists>h. verify_all verify (start_hash prev rs) rs = Inr h) \<and>
     used' = fold List.insert (map (the \<circ> a_key_id) rs) used \<and> n' = n + int (length rs)"
proof (induction rs arbitrary: prev expected used n)
  case (Cons r rs)
  have shift: "map (\<lambda>i. expected + int i) [0..<length (r # rs)] =
      expected # map (\<lambda>i. (expected + 1) + int i) [0..<length rs]"
    by (subst upt_conv_Cons; simp add: map_Suc_upt [symmetric] del: upt_Suc)
  have start: "start_hash prev (r # rs) = (case prev of None \<Rightarrow> a_prev_hash r | Some h \<Rightarrow> h)"
    "start_hash (Some h) rs = h" for h
    by (auto simp: start_hash_def split: option.split)
  show ?case
    unfolding shift
    by (cases "verify r (start_hash prev (r # rs))"; cases "a_key_id r")
      (auto simp: Cons.IH start)
qed (auto simp: start_hash_def)

lemma set_fold_insert: "set (fold List.insert xs used) = set xs \<union> set used"
  by (induction xs arbitrary: used) auto

lemma distinct_fold_insert: "distinct used \<Longrightarrow> distinct (fold List.insert xs used)"
  by (induction xs arbitrary: used) auto

lemma verify_lines_sound:
  assumes "verify_lines verify C ls prev e used n = Inr (e', used', n')"
  shows "\<exists>rs s. map (read_row C) ls = map Some rs \<and>
    export_rows verify rs prev s used n = Inr (used', n') \<and>
    (if rs = [] then e' = e else py_eq (JInt s) e \<and> e' = JInt (s + int (length rs)))"
  using assms
proof (induction ls arbitrary: prev e used n)
  case (Cons l ls)
  then obtain r where r: "read_row C l = Some r" "py_eq (JInt (a_seq r)) e"
    by (auto split: option.splits if_splits)
  with Cons.prems obtain h k where h: "verify r (case prev of None \<Rightarrow> a_prev_hash r | Some h \<Rightarrow> h) = Inr h"
    and k: "a_key_id r = Some k"
    and rest: "verify_lines verify C ls (Some h) (JInt (a_seq r + 1)) (List.insert k used) (n + 1) = Inr (e', used', n')"
    by (auto simp: bind_res_Inr_iff split: option.splits)
  from Cons.IH [OF rest] obtain rs s where rs: "map (read_row C) ls = map Some rs"
    and ex: "export_rows verify rs (Some h) s (List.insert k used) (n + 1) = Inr (used', n')"
    and e': "if rs = [] then e' = JInt (a_seq r + 1)
      else py_eq (JInt s) (JInt (a_seq r + 1)) \<and> e' = JInt (s + int (length rs))" by blast
  from e' have "rs \<noteq> [] \<Longrightarrow> s = a_seq r + 1" by (simp add: py_eq_JInt_num)
  with ex have "export_rows verify rs (Some h) (a_seq r + 1) (List.insert k used) (n + 1) = Inr (used', n')"
    by (cases rs) auto
  with h k have "export_rows verify (r # rs) prev (a_seq r) used n = Inr (used', n')" by simp
  with r rs e' \<open>rs \<noteq> [] \<Longrightarrow> s = a_seq r + 1\<close> show ?case
    by (intro exI [of _ "r # rs"] exI [of _ "a_seq r"]) (auto split: if_splits)
qed simp

lemma verify_lines_complete:
  assumes "map (read_row C) ls = map Some rs" and "py_eq (JInt s) e"
    and "export_rows verify rs prev s used n = Inr (used', n')"
  shows "verify_lines verify C ls prev e used n =
    Inr (if rs = [] then e else JInt (s + int (length rs)), used', n')"
  using assms
proof (induction rs arbitrary: ls prev s e used n)
  case (Cons r rs)
  from Cons.prems(1) obtain l ls' where ls: "ls = l # ls'" "read_row C l = Some r"
    "map (read_row C) ls' = map Some rs" by auto
  from Cons.prems(3) obtain h k where s: "a_seq r = s" and k: "a_key_id r = Some k"
    and h: "verify r (case prev of None \<Rightarrow> a_prev_hash r | Some h \<Rightarrow> h) = Inr h"
    and ex: "export_rows verify rs (Some h) (s + 1) (List.insert k used) (n + 1) = Inr (used', n')"
    by (auto simp: bind_res_Inr_iff split: option.splits if_splits)
  have "py_eq (JInt (s + 1)) (JInt (s + 1))" by (simp add: py_eq_JInt_num)
  from Cons.IH [OF ls(3) this ex] s k h ls Cons.prems(2) show ?case by simp
qed simp

lemma verify_all_mono:
  assumes "\<And>r prev h. r \<in> set rs \<Longrightarrow> verify r prev = Inr h \<Longrightarrow> verify' (g r) prev = Inr h"
    and "verify_all verify prev rs = Inr h"
  shows "verify_all verify' prev (map g rs) = Inr h"
  using assms by (induction rs arbitrary: prev) (auto simp: bind_res_Inr_iff)

text \<open>The key bundle that \<open>prepare\<close> writes loads to the keys the rows were checked with.\<close>

lemma read_keys_Inr:
  "read_keys read_pem ks = Inr keys \<Longrightarrow>
     map fst keys = ks \<and> (\<forall>(k, pem) \<in> set keys. read_pem k = Inr pem)"
  by (induction ks arbitrary: keys) (auto simp: bind_res_Inr_iff)

lemma load_bundle_Inr:
  assumes "\<forall>(k, pem) \<in> set keys. \<exists>pub. load k = Inr pub \<and> cd_load_pem C pem = Inr (Some pub)"
  shows "\<exists>pubs. load_bundle C (map (\<lambda>(k, pem). (k, JStr pem)) keys) = Inr pubs \<and>
    map fst pubs = map fst keys \<and> (\<forall>(k, pub) \<in> set pubs. load k = Inr pub)"
  using assms by (induction keys) (fastforce simp: bind_res_Inr_iff)+

lemma bundled_key_load:
  assumes "\<forall>(k, pub) \<in> set pubs. load k = Inr pub" and "k \<in> fst ` set pubs"
  shows "bundled_key pubs k = load k"
proof -
  from assms(2) obtain pub where pub: "map_of pubs k = Some pub"
    by (cases "map_of pubs k") (auto simp: map_of_eq_None_iff)
  then have "(k, pub) \<in> set pubs" by (rule map_of_SomeD)
  with assms(1) pub show ?thesis by (auto simp: bundled_key_def)
qed

definition row_lossless :: "verifier_env \<Rightarrow> codec \<Rightarrow> audit_row \<Rightarrow> bool" where
  "row_lossless E C r \<longleftrightarrow>
     cd_loads C (cd_dumps C (JObj (row_dict C r))) = Some (sort_json (JObj (row_dict C r))) \<and>
     cd_unb64 C (cd_b64 C (a_signature r)) = Some (a_signature r) \<and>
     cd_from_iso C (cd_iso C (a_timestamp r)) = Some (a_timestamp r) \<and>
     distinct (map fst (a_payload r)) \<and>
     v_canon E (sort_json (JObj (a_payload r))) = v_canon E (JObj (a_payload r))"

lemma verify_record_key:
  assumes "a_key_id r = Some k" and "load k = load' k"
  shows "verify_record E load None r p = verify_record E load' None r p"
  using assms
  by (cases "compute_hash (v_sha256 E) (v_canon E) p (a_payload r)") (simp_all add: verify_record_def)

lemma export_rows_rechecked:
  assumes ex: "export_rows (verify_record E load None) rs prev start [] 0 = Inr (used, n)"
    and ok: "\<forall>r \<in> set rs. row_lossless E C r"
    and keys: "\<forall>k \<in> set used. bundled_key pubs k = load k"
  shows "export_rows (verify_record E (bundled_key pubs) None) (map sorted_payload rs) prev start [] 0 = Inr (used, n)"
proof -
  from ex have f: "map a_seq rs = map (\<lambda>i. start + int i) [0..<length rs]"
    "\<forall>r \<in> set rs. a_key_id r \<noteq> None" "used = fold List.insert (map (the \<circ> a_key_id) rs) []" "n = int (length rs)"
    and "\<exists>h. verify_all (verify_record E load None) (start_hash prev rs) rs = Inr h"
    unfolding export_rows_Inr by simp_all
  then obtain h where h: "verify_all (verify_record E load None) (start_hash prev rs) rs = Inr h" by blast
  have step: "verify_record E (bundled_key pubs) None (sorted_payload r) p = Inr h'"
    if r: "r \<in> set rs" and v: "verify_record E load None r p = Inr h'" for r p h'
  proof -
    from f(2) r obtain k where k: "a_key_id r = Some k" by auto
    have "(the \<circ> a_key_id) r \<in> set used" unfolding f(3) set_fold_insert using r by simp
    with k have "k \<in> set used" by simp
    with keys have "bundled_key pubs k = load k" by blast
    with v have "verify_record E (bundled_key pubs) None r p = Inr h'"
      using verify_record_key [OF k, of "bundled_key pubs" load E p] by simp
    moreover from ok r have "distinct (map fst (a_payload r))"
      "v_canon E (JObj (sorted_fields (a_payload r))) = v_canon E (JObj (a_payload r))"
      by (simp_all add: row_lossless_def sort_json_JObj del: sort_json.simps(1))
    ultimately show ?thesis by (simp only: verify_record_sorted)
  qed
  have "verify_all (verify_record E (bundled_key pubs) None) (start_hash prev rs) (map sorted_payload rs) = Inr h"
    by (rule verify_all_mono [where g = sorted_payload, OF _ h]) (rule step)
  moreover have "start_hash prev (map sorted_payload rs) = start_hash prev rs"
    by (cases rs) (simp_all add: start_hash_def split: option.split)
  moreover have "map a_seq (map sorted_payload rs) = map (\<lambda>i. start + int i) [0..<length (map sorted_payload rs)]"
    using f(1) by (simp add: comp_def)
  moreover have "\<forall>r \<in> set (map sorted_payload rs). a_key_id r \<noteq> None" using f(2) by simp
  moreover have "used = fold List.insert (map (the \<circ> a_key_id) (map sorted_payload rs)) []"
    using f(3) by (simp add: comp_def)
  moreover have "n = 0 + int (length (map sorted_payload rs))" using f(4) by simp
  ultimately show ?thesis unfolding export_rows_Inr by metis
qed

lemma manifest_keys: "distinct (map fst (manifest a b n g now keys))"
  by (simp add: manifest_def)

lemma sorted_bundle:
  assumes "sorted (map fst keys)"
  shows "sorted_fields (map (\<lambda>(k, pem). (k, JStr pem)) keys) = map (\<lambda>(k, pem). (k, JStr pem)) keys"
proof -
  have "map (\<lambda>p. (fst p, sort_json (snd p))) (map (\<lambda>(k, pem). (k, JStr pem)) keys) =
      map (\<lambda>(k, pem). (k, JStr pem)) keys" by auto
  then show ?thesis
    unfolding sorted_fields_def using assms by (simp add: sort_key_id_if_sorted split_def comp_def)
qed

lemma prepare_span:
  assumes "export_prepare E load read_pem now rows from_seq to_seq = Inr (m, Some (start, stop))"
  obtains used n keys where
    "export_rows (verify_record E load None) (rows_between start stop rows) (chain_start start) start [] 0 = Inr (used, n)"
    "n = stop - start + 1" "start \<le> stop" "read_keys read_pem (sort used) = Inr keys"
    "m = manifest (Some start) (Some stop) n (start = 1) now keys"
  using assms by (auto simp: export_prepare_def bind_res_Inr_iff Let_def split: if_splits)

lemma prepare_nothing:
  assumes "export_prepare E load read_pem now rows from_seq to_seq = Inr (m, None)"
  shows "m = manifest None None 0 True now []"
  using assms by (auto simp: export_prepare_def bind_res_Inr_iff Let_def split: if_splits)

lemma verify_all_mem:
  "verify_all verify prev rs = Inr h \<Longrightarrow> r \<in> set rs \<Longrightarrow> \<exists>p h'. verify r p = Inr h'"
  by (induction rs arbitrary: prev) (auto simp: bind_res_Inr_iff)

lemma prepared_bundle:
  assumes ex: "export_rows (verify_record E load None) rs prev start [] 0 = Inr (used, n)"
    and keys: "read_keys read_pem (sort used) = Inr keys"
    and pem: "\<forall>k pem pub. read_pem k = Inr pem \<longrightarrow> load k = Inr pub \<longrightarrow> cd_load_pem C pem = Inr (Some pub)"
  shows "\<exists>pubs. load_bundle C (map (\<lambda>(k, pem). (k, JStr pem)) keys) = Inr pubs \<and>
    map fst pubs = map fst keys \<and> (\<forall>(k, pub) \<in> set pubs. load k = Inr pub) \<and>
    set used = fst ` set keys \<and> sorted (map fst keys)"
proof -
  from ex have used: "used = fold List.insert (map (the \<circ> a_key_id) rs) []"
    and h: "\<exists>h. verify_all (verify_record E load None) (start_hash prev rs) rs = Inr h"
    and ids: "\<forall>r \<in> set rs. a_key_id r \<noteq> None"
    unfolding export_rows_Inr by auto
  note kr = read_keys_Inr [OF keys]
  have used': "set used = fst ` set keys" using kr by (metis list.set_map set_sort)
  have loaded: "\<exists>pub. load k = Inr pub" if "k \<in> set used" for k
  proof -
    from that obtain r where r: "r \<in> set rs" "a_key_id r = Some k"
      using ids unfolding used set_fold_insert by fastforce
    from h verify_all_mem r(1) obtain p h' where "verify_record E load None r p = Inr h'" by metis
    then show ?thesis using r(2) verify_record_Inr by (fastforce split: if_splits)
  qed
  have "\<forall>(k, pem) \<in> set keys. \<exists>pub. load k = Inr pub \<and> cd_load_pem C pem = Inr (Some pub)"
    using loaded used' kr pem by fastforce
  from load_bundle_Inr [OF this] kr used' show ?thesis by auto
qed

lemma verify_file_manifest:
  assumes m: "m = manifest a b n g now keys" and lossless: "cd_loads C (cd_dumps C (JObj m)) = Some (sort_json (JObj m))"
    and s: "sorted (map fst keys)"
    and pubs: "load_bundle C (map (\<lambda>(k, pem). (k, JStr pem)) keys) = Inr pubs" "map fst pubs = map fst keys"
    and ls: "verify_lines (verify_record E (bundled_key pubs) None) C ls
      (if a = Some 1 then Some genesis_hash else None) (opt_int a) [] 0 = Inr (expected, used, n)"
    and stop: "n \<noteq> 0 \<Longrightarrow> \<exists>stop. b = Some stop \<and> expected = JInt (stop + 1)"
    and used: "set used = fst ` set keys"
  shows "verify_file E C (cd_dumps C (JObj m) # ls) = Inr (n, g)"
proof -
  note field = dget_sorted_fields [OF manifest_keys] map_of_sorted_fields [OF manifest_keys]
  have bun: "map_of (sorted_fields m) ''public_keys'' = Some (JObj (map (\<lambda>(k, pem). (k, JStr pem)) keys))"
    unfolding m field by (simp add: manifest_def sort_json_JObj sorted_bundle [OF s] del: sort_json.simps(1))
  have bnd: "dget (sorted_fields m) ''bounds'' = JObj [(''from_seq'', opt_int a), (''to_seq'', opt_int b)]"
    unfolding m field by (simp add: manifest_def dget_def)
  have hdr: "dget (sorted_fields m) ''type'' = JStr ''manifest''" "dget (sorted_fields m) ''format'' = JStr export_format"
    "dget (sorted_fields m) ''version'' = JInt 1" "dget (sorted_fields m) ''row_count'' = JInt n"
    "dget (sorted_fields m) ''genesis_anchored'' = JBool g"
    unfolding m field by (simp_all add: manifest_def dget_def)
  have ends: "dget [(''from_seq'', opt_int a), (''to_seq'', opt_int b)] ''from_seq'' = opt_int a"
    "dget [(''from_seq'', opt_int a), (''to_seq'', opt_int b)] ''to_seq'' = opt_int b" by (simp_all add: dget_def)
  have isone: "py_eq (opt_int a) (JInt 1) \<longleftrightarrow> a = Some 1" by (cases a) (simp_all add: py_eq_JInt_num)
  have "fst ` set pubs = fst ` set keys" using pubs(2) by (metis list.set_map)
  moreover have "\<not> (n \<noteq> 0 \<and> (case int_field (opt_int b) of None \<Rightarrow> True | Some stop \<Rightarrow> \<not> py_eq expected (JInt (stop + 1))))"
    using stop by (auto simp: py_eq_JInt_num)
  ultimately show ?thesis
    unfolding verify_file_def read_manifest_def manifest_supported_def lossless sort_json_JObj
    using pubs(1) ls used
    by (simp add: lossless sort_json_JObj hdr bun bnd ends isone py_or_def del: sort_json.simps(1))
qed

text \<open>What the checks of an accepted file have found.\<close>

definition file_checked ::
  "verifier_env \<Rightarrow> codec \<Rightarrow> string \<Rightarrow> jdict \<Rightarrow> jdict \<Rightarrow> (string \<times> string) list \<Rightarrow> bool" where
  "file_checked E C line m bnd keys \<longleftrightarrow>
     cd_loads C line = Some (JObj m) \<and> manifest_supported m \<and>
     get_of (py_or (dget m ''bounds'') (JObj [])) = Inr bnd \<and>
     (\<exists>bundle. get_of (case map_of m ''public_keys'' of None \<Rightarrow> JObj [] | Some b \<Rightarrow> b) = Inr bundle \<and>
        load_bundle C bundle = Inr keys)"

lemma get_of_Inr [simp]: "get_of v = Inr d \<longleftrightarrow> v = JObj d"
  by (cases v) auto

lemma read_manifest_Inr:
  "read_manifest C (line # ls) = Inr m \<Longrightarrow> cd_loads C line = Some (JObj m) \<and> manifest_supported m"
  by (auto simp: read_manifest_def bind_res_Inr_iff split: option.splits if_splits)

lemma verify_file_InrE:
  assumes "verify_file E C (line # ls) = Inr (n, anchored)"
  obtains m bnd keys expected used where "file_checked E C line m bnd keys"
    and "verify_lines (verify_record E (bundled_key keys) None) C ls
      (if py_eq (dget bnd ''from_seq'') (JInt 1) then Some genesis_hash else None)
      (dget bnd ''from_seq'') [] 0 = Inr (expected, used, n)"
    and "check_totals m bnd keys (expected, used, n) = Inr (n, anchored)"
proof -
  from assms obtain m given keys bnd t where m: "read_manifest C (line # ls) = Inr m"
    and b: "get_of (case map_of m ''public_keys'' of None \<Rightarrow> JObj [] | Some b \<Rightarrow> b) = Inr given" "load_bundle C given = Inr keys"
    "get_of (py_or (dget m ''bounds'') (JObj [])) = Inr bnd"
    and t: "verify_lines (verify_record E (bundled_key keys) None) C ls
      (if py_eq (dget bnd ''from_seq'') (JInt 1) then Some genesis_hash else None)
      (dget bnd ''from_seq'') [] 0 = Inr t"
    and rest: "check_totals m bnd keys t = Inr (n, anchored)"
    unfolding verify_file_def bind_res_Inr_iff list.sel by blast
  have "file_checked E C line m bnd keys" using read_manifest_Inr [OF m] b unfolding file_checked_def by blast
  moreover obtain expected used k where p: "t = (expected, used, k)" by (cases t)
  moreover have "k = n" using rest unfolding p by (simp split: if_split_asm)
  ultimately show thesis using t rest by (intro that) simp_all
qed

lemma bundled_signature:
  assumes "verify_all (verify_record E (bundled_key keys) None) h0 rs = Inr h" and "r \<in> set rs" and "a_key_id r \<noteq> None"
  shows "\<exists>k pub. a_key_id r = Some k \<and> map_of keys k = Some pub \<and>
    v_key_id E pub = k \<and> v_sig_ok E pub (a_signature r) (a_curr_hash r)"
proof -
  from verify_all_mem [OF assms(1,2)] obtain p h' where "verify_record E (bundled_key keys) None r p = Inr h'" by blast
  from verify_record_Inr [OF this] assms(3) show ?thesis
    by (auto simp: bundled_key_def given_iff split: if_splits option.splits)
qed

lemma totals_end:
  assumes "check_totals m bnd keys (expected, used, n) = Inr (n', anchored)"
  shows "py_eq (JInt n) (dget m ''row_count'') \<and> anchored = truthy (dget m ''genesis_anchored'') \<and>
    set used = fst ` set keys \<and>
    (n \<noteq> 0 \<longrightarrow> (\<exists>stop. int_field (dget bnd ''to_seq'') = Some stop \<and> py_eq expected (JInt (stop + 1))))"
  using assms by (auto split: if_split_asm option.splits)

section \<open>Properties\<close>

text \<open>
  C21: An export verifies. When \<open>prepare\<close> accepts a span of the log and the lines keep the
  values (JSON up to the order of keys, base64, timestamps, PEM), \<open>verify_file\<close> accepts the
  streamed file, counts its rows, and reports it anchored exactly when the manifest says so.
\<close>

theorem exported_file_verifies:
  assumes "export_prepare E load read_pem now rows from_seq to_seq = Inr (m, bounds)"
    and "cd_loads C (cd_dumps C (JObj m)) = Some (sort_json (JObj m))"
    and "\<forall>r \<in> set rows. row_lossless E C r"
    and "\<forall>k pem pub. read_pem k = Inr pem \<longrightarrow> load k = Inr pub \<longrightarrow> cd_load_pem C pem = Inr (Some pub)"
  shows "\<exists>n. dget m ''row_count'' = JInt n \<and> length (export_stream C m bounds rows) = Suc (nat n) \<and>
    verify_file E C (export_stream C m bounds rows) = Inr (n, dget m ''genesis_anchored'' = JBool True)"
proof (cases bounds)
  case None
  have m: "m = manifest None None 0 True now []" by (rule prepare_nothing) (use assms(1) None in simp)
  have "verify_file E C [cd_dumps C (JObj m)] = Inr (0, True)"
    by (rule verify_file_manifest [OF m assms(2)]) simp_all
  with None show ?thesis by (simp add: export_stream_def m manifest_def dget_def)
next
  case (Some p)
  obtain start stop where p: "p = (start, stop)" by (cases p)
  from prepare_span [OF assms(1) [unfolded Some p]] obtain used n keys where
    ex: "export_rows (verify_record E load None) (rows_between start stop rows) (chain_start start) start [] 0 = Inr (used, n)"
    and n: "n = stop - start + 1" "start \<le> stop" and keys: "read_keys read_pem (sort used) = Inr keys"
    and m: "m = manifest (Some start) (Some stop) n (start = 1) now keys" by blast
  let ?rs = "rows_between start stop rows"
  have rs: "set ?rs \<subseteq> set rows" by (auto simp: rows_between_def)
  from ex have len: "n = int (length ?rs)" unfolding export_rows_Inr by auto
  from prepared_bundle [OF ex keys assms(4)] obtain pubs where
    pubs: "load_bundle C (map (\<lambda>(k, pem). (k, JStr pem)) keys) = Inr pubs" "map fst pubs = map fst keys"
      "\<forall>(k, pub) \<in> set pubs. load k = Inr pub" and used': "set used = fst ` set keys"
    and kr: "sorted (map fst keys)" by blast
  from used' have "\<forall>k \<in> set used. bundled_key pubs k = load k"
    using bundled_key_load [OF pubs(3)] pubs(2) by (metis list.set_map)
  from export_rows_rechecked [OF ex _ this] assms(3) rs
  have ex': "export_rows (verify_record E (bundled_key pubs) None) (map sorted_payload ?rs) (chain_start start) start [] 0 = Inr (used, n)"
    by blast
  let ?ls = "map (\<lambda>r. cd_dumps C (JObj (row_dict C r))) ?rs"
  have "map (read_row C) ?ls = map Some (map sorted_payload ?rs)"
    using assms(3) rs by (auto simp: row_lossless_def intro!: read_row_written)
  from verify_lines_complete [OF this _ ex', where e = "JInt start"]
  have ls: "verify_lines (verify_record E (bundled_key pubs) None) C ?ls (chain_start start) (JInt start) [] 0 =
      Inr (JInt (stop + 1), used, n)"
    using len n by (auto simp: py_eq_JInt_num)
  have "verify_file E C (cd_dumps C (JObj m) # ?ls) = Inr (n, start = 1)"
    by (rule verify_file_manifest [OF m assms(2) _ pubs(1,2) _ _ used'])
      (use kr ls in \<open>simp_all add: chain_start_def\<close>)
  then show ?thesis using len by (simp add: Some p export_stream_def m manifest_def dget_def)
qed

definition sample_codec :: "json \<Rightarrow> json \<Rightarrow> codec" where
  "sample_codec m r =
     \<lparr>cd_dumps = (\<lambda>v. if v = m then ''m'' else ''r''),
      cd_loads = (\<lambda>s. if s = ''m'' then Some (sort_json m) else Some (sort_json r)),
      cd_iso = (\<lambda>_. ''t''), cd_from_iso = (\<lambda>_. Some 0), cd_b64 = (\<lambda>s. s), cd_unb64 = Some,
      cd_load_pem = (\<lambda>pem. Inr (Some pem))\<rparr>"

definition sample_line :: "audit_row \<Rightarrow> json" where
  "sample_line r = JObj (row_dict (sample_codec JNull JNull) r)"

definition sample_manifest :: jdict where
  "sample_manifest = manifest (Some 1) (Some 1) 1 True ''now'' [(''k'', ''pub'')]"

theorem exported_file_verifies_witness:
  "verify_file sample_env (sample_codec (JObj sample_manifest) (sample_line sample_row))
     (export_stream (sample_codec (JObj sample_manifest) (sample_line sample_row)) sample_manifest (Some (1, 1)) [sample_row])
   = Inr (1, True)"
proof -
  let ?C = "sample_codec (JObj sample_manifest) (sample_line sample_row)"
  have m: "fst (the (Some (sample_manifest, Some (1 :: int, 1 :: int)))) = sample_manifest" by simp
  have prep: "export_prepare sample_env (\<lambda>_. Inr ''pub'') (\<lambda>_. Inr ''pub'') ''now'' [sample_row] None None =
      Inr (sample_manifest, Some (1, 1))" by code_simp
  have loads: "cd_loads ?C (cd_dumps ?C (JObj sample_manifest)) = Some (sort_json (JObj sample_manifest))" by code_simp
  have rows: "row_lossless sample_env ?C sample_row" by code_simp
  have one: "dget sample_manifest ''row_count'' = JInt 1" "dget sample_manifest ''genesis_anchored'' = JBool True"
    by code_simp+
  show ?thesis
    using exported_file_verifies [OF prep loads] rows one by (auto simp: sample_codec_def)
qed

text \<open>
  C22: What an accepted file shows. Its first line is a supported manifest; its rows, as many
  as the manifest says, are numbered one after the other from the manifest's first to its
  last number; each hash continues the one before (from the genesis hash when the first row
  is row 1), each row is signed by the key that the manifest's bundle holds under the row's
  key id, which is that key's fingerprint, and the bundle holds no other key. The verdict on
  the anchor is the manifest's own.
\<close>

theorem accepted_file_is_a_verified_chain:
  assumes "verify_file E C (line # ls) = Inr (n, anchored)"
  shows "\<exists>m bnd keys rs h0 h bundle. cd_loads C line = Some (JObj m) \<and> manifest_supported m \<and>
    (case map_of m ''public_keys'' of None \<Rightarrow> JObj [] | Some b \<Rightarrow> b) = JObj bundle \<and> load_bundle C bundle = Inr keys \<and>
    py_or (dget m ''bounds'') (JObj []) = JObj bnd \<and>
    map (read_row C) ls = map Some rs \<and> n = int (length rs) \<and> py_eq (JInt n) (dget m ''row_count'') \<and>
    anchored = truthy (dget m ''genesis_anchored'') \<and>
    map a_seq rs = map (\<lambda>i. a_seq (hd rs) + int i) [0..<length rs] \<and>
    (rs \<noteq> [] \<longrightarrow> py_eq (JInt (a_seq (hd rs))) (dget bnd ''from_seq'') \<and>
       int_field (dget bnd ''to_seq'') = Some (a_seq (last rs)) \<and> (a_seq (hd rs) = 1 \<longrightarrow> h0 = genesis_hash)) \<and>
    verify_all (verify_record E (bundled_key keys) None) h0 rs = Inr h \<and>
    (\<forall>r \<in> set rs. \<exists>k pub. a_key_id r = Some k \<and> map_of keys k = Some pub \<and>
       v_key_id E pub = k \<and> v_sig_ok E pub (a_signature r) (a_curr_hash r)) \<and>
    fst ` set keys = row_keys rs"
proof -
  from assms obtain m bnd keys expected used where supported: "file_checked E C line m bnd keys"
    and ls: "verify_lines (verify_record E (bundled_key keys) None) C ls
      (if py_eq (dget bnd ''from_seq'') (JInt 1) then Some genesis_hash else None)
      (dget bnd ''from_seq'') [] 0 = Inr (expected, used, n)"
    and totals: "check_totals m bnd keys (expected, used, n) = Inr (n, anchored)"
    by (rule verify_file_InrE)
  note totals = totals_end [OF totals]
  from supported obtain given where given: "cd_loads C line = Some (JObj m)" "manifest_supported m"
    "(case map_of m ''public_keys'' of None \<Rightarrow> JObj [] | Some b \<Rightarrow> b) = JObj given" "load_bundle C given = Inr keys"
    "py_or (dget m ''bounds'') (JObj []) = JObj bnd"
    unfolding file_checked_def get_of_Inr by blast
  from totals have anchor: "py_eq (JInt n) (dget m ''row_count'')" "anchored = truthy (dget m ''genesis_anchored'')" by blast+
  let ?V = "verify_record E (bundled_key keys) None"
  let ?p = "if py_eq (dget bnd ''from_seq'') (JInt 1) then Some genesis_hash else None"
  from verify_lines_sound [OF ls] obtain rs s where rs: "map (read_row C) ls = map Some rs"
    and ex: "export_rows ?V rs ?p s [] 0 = Inr (used, n)"
    and ends: "if rs = [] then expected = dget bnd ''from_seq''
      else py_eq (JInt s) (dget bnd ''from_seq'') \<and> expected = JInt (s + int (length rs))" by blast
  from ex obtain h where seqs: "map a_seq rs = map (\<lambda>i. s + int i) [0..<length rs]" and n: "n = int (length rs)"
    and ids: "\<forall>r \<in> set rs. a_key_id r \<noteq> None" and used: "used = fold List.insert (map (the \<circ> a_key_id) rs) []"
    and h: "verify_all ?V (start_hash ?p rs) rs = Inr h"
    unfolding export_rows_Inr by (elim conjE exE) simp
  have "fst ` set keys = set used" using totals by blast
  also have "set used = row_keys rs"
    using ids unfolding used set_fold_insert row_keys_def by (force simp: image_iff)
  finally have keys: "fst ` set keys = row_keys rs" .
  have numbers: "a_seq (hd rs) = s \<and> a_seq (last rs) = s + int (length rs) - 1" if "rs \<noteq> []"
  proof -
    have num: "a_seq (rs ! i) = s + int i" if "i < length rs" for i
      using arg_cong [OF seqs, of "\<lambda>xs. xs ! i"] that by simp
    show ?thesis using num [of 0] num [of "length rs - 1"] that
      by (cases "length rs") (simp_all add: hd_conv_nth last_conv_nth)
  qed
  have span: "py_eq (JInt (a_seq (hd rs))) (dget bnd ''from_seq'')" "int_field (dget bnd ''to_seq'') = Some (a_seq (last rs))"
    "a_seq (hd rs) = 1 \<Longrightarrow> start_hash ?p rs = genesis_hash" if "rs \<noteq> []"
  proof -
    note s = conjunct1 [OF numbers [OF that]] and last = conjunct2 [OF numbers [OF that]]
    from that ends have first: "py_eq (JInt s) (dget bnd ''from_seq'')" and e: "expected = JInt (s + int (length rs))" by simp_all
    show "py_eq (JInt (a_seq (hd rs))) (dget bnd ''from_seq'')" using first s by simp
    have "n \<noteq> 0" using that n by simp
    then show "int_field (dget bnd ''to_seq'') = Some (a_seq (last rs))"
      using totals unfolding e last by (auto simp: py_eq_JInt_num)
    show "start_hash ?p rs = genesis_hash" if "a_seq (hd rs) = 1"
      using first that s by (simp add: start_hash_def py_eq_one)
  qed
  have signed: "\<forall>r \<in> set rs. \<exists>k pub. a_key_id r = Some k \<and> map_of keys k = Some pub \<and>
       v_key_id E pub = k \<and> v_sig_ok E pub (a_signature r) (a_curr_hash r)"
    using bundled_signature [OF h] ids by blast
  have first: "map a_seq rs = map (\<lambda>i. a_seq (hd rs) + int i) [0..<length rs]" using seqs numbers by (cases "rs = []") simp_all
  show ?thesis
    by (intro exI [of _ m] exI [of _ bnd] exI [of _ keys] exI [of _ rs] exI [of _ "start_hash ?p rs"] exI [of _ h]
        exI [of _ given] conjI impI given rs n first h signed keys span anchor)
qed

lemma sample_file_accepted:
  "verify_file sample_env (sample_codec (JObj sample_manifest) (sample_line sample_row)) [''m'', ''r''] = Inr (1, True)"
  by code_simp

theorem accepted_file_is_a_verified_chain_witness:
  "\<exists>rs. map (read_row (sample_codec (JObj sample_manifest) (sample_line sample_row))) [''r''] = map Some rs \<and>
     (1 :: int) = int (length rs)"
  using accepted_file_is_a_verified_chain [OF sample_file_accepted] by blast

text \<open>
  The offline check repeats the manifest's claim of being anchored at the genesis row
  without looking at the first row: a one-row file whose manifest says it starts at row 2,
  with the flag set, is accepted and reported as anchored.
\<close>

theorem anchored_flag_not_checked:
  "verify_file sample_env
     (sample_codec (JObj (manifest (Some 2) (Some 2) 1 True ''now'' [(''k'', ''pub'')]))
        (sample_line (sample_row\<lparr>a_seq := 2, a_prev_hash := ''x''\<rparr>)))
     [''m'', ''r''] = Inr (1, True)"
  by code_simp

end
