(* ===== verification/PyDate.thy ===== *)
theory PyDate
  imports PyText
begin

text \<open>
  What the sources use of \<open>datetime\<close>: dates of the proleptic Gregorian calendar, their
  ordinals (as CPython counts them), and \<open>strptime(_, "%Y-%m-%d")\<close> on a ten-character text.
  An aware datetime is its number of seconds since the epoch.
\<close>

section \<open>Dates\<close>

record date =
  dt_year :: int
  dt_month :: int
  dt_day :: int

definition leap_year :: "int \<Rightarrow> bool" where
  "leap_year y \<longleftrightarrow> y mod 4 = 0 \<and> (y mod 100 \<noteq> 0 \<or> y mod 400 = 0)"

definition month_days :: "int list" where
  "month_days = [31, 28, 31, 30, 31, 30, 31, 31, 30, 31, 30, 31]"

definition days_in_month :: "int \<Rightarrow> int \<Rightarrow> int" where
  "days_in_month y m = (if m = 2 \<and> leap_year y then 29 else month_days ! nat (m - 1))"

definition valid_date :: "date \<Rightarrow> bool" where
  "valid_date d \<longleftrightarrow>
     1 \<le> dt_year d \<and> dt_year d \<le> 9999 \<and> 1 \<le> dt_month d \<and> dt_month d \<le> 12 \<and>
     1 \<le> dt_day d \<and> dt_day d \<le> days_in_month (dt_year d) (dt_month d)"

definition days_before_year :: "int \<Rightarrow> int" where
  "days_before_year y = (let p = y - 1 in p * 365 + p div 4 - p div 100 + p div 400)"

definition days_before_month :: "int \<Rightarrow> int \<Rightarrow> int" where
  "days_before_month y m =
     sum_list (take (nat (m - 1)) month_days) + (if 2 < m \<and> leap_year y then 1 else 0)"

definition ordinal :: "date \<Rightarrow> int" where
  "ordinal d = days_before_year (dt_year d) + days_before_month (dt_year d) (dt_month d) + dt_day d"

definition max_ordinal :: int where
  "max_ordinal = 3652059"

definition epoch_ordinal :: int where
  "epoch_ordinal = 719163"

text \<open>\<open>datetime(y, m, d, tzinfo=UTC).timestamp()\<close>, and adding a day.\<close>

definition midnight :: "int \<Rightarrow> int" where
  "midnight n = (n - epoch_ordinal) * 86400"

definition next_day :: "int \<Rightarrow> int res" where
  "next_day n = (if n + 1 > max_ordinal then Inl OverflowError else Inr (n + 1))"

text \<open>Datetimes compare field by field.\<close>

definition date_less :: "date \<Rightarrow> date \<Rightarrow> bool" where
  "date_less a b \<longleftrightarrow>
     dt_year a < dt_year b \<or> dt_year a = dt_year b \<and>
       (dt_month a < dt_month b \<or> dt_month a = dt_month b \<and> dt_day a < dt_day b)"

text \<open>
  \<open>strptime(s, "%Y-%m-%d")\<close> where \<open>len(s) == 10\<close>: month and day then take two characters
  each; the pattern of \<open>%d\<close> lets a space stand before a single digit.
\<close>

definition date_text_ok :: "string \<Rightarrow> bool" where
  "date_text_ok s \<longleftrightarrow>
     length s = 10 \<and> list_all dec_char (take 4 s) \<and> s ! 4 = CHR ''-'' \<and>
     list_all dec_char (take 2 (drop 5 s)) \<and> s ! 7 = CHR ''-'' \<and>
     (dec_char (s ! 8) \<or> s ! 8 = CHR '' '') \<and> dec_char (s ! 9)"

definition day_value :: "string \<Rightarrow> int" where
  "day_value s = dec_value (filter dec_char s)"

definition strptime_date :: "string \<Rightarrow> date option" where
  "strptime_date s =
     (let d = \<lparr>dt_year = dec_value (take 4 s), dt_month = dec_value (take 2 (drop 5 s)),
               dt_day = day_value (drop 8 s)\<rparr>
      in if date_text_ok s \<and> valid_date d then Some d else None)"

section \<open>Lemmas\<close>

text \<open>\<open>"%04d-%02d-%02d"\<close>.\<close>

definition digit :: "int \<Rightarrow> char" where
  "digit n = char_of (48 + n)"

definition date_text :: "date \<Rightarrow> string" where
  "date_text d =
     (let y = dt_year d; m = dt_month d; n = dt_day d
      in [digit (y div 1000), digit (y div 100 mod 10), digit (y div 10 mod 10), digit (y mod 10), CHR ''-'',
          digit (m div 10), digit (m mod 10), CHR ''-'', digit (n div 10), digit (n mod 10)])"

lemma digit_code: "0 \<le> n \<Longrightarrow> n \<le> 9 \<Longrightarrow> (of_char (digit n) :: int) = 48 + n"
  by (simp add: digit_def)

lemma dec_char_code: "dec_char c \<longleftrightarrow> 48 \<le> (of_char c :: int) \<and> of_char c \<le> (57 :: int)"
proof -
  have "int (of_char c) = of_char c" by (rule of_nat_of_char)
  then show ?thesis unfolding dec_char_def Let_def by linarith
qed

lemma dec_char_digit [simp]: "0 \<le> n \<Longrightarrow> n \<le> 9 \<Longrightarrow> dec_char (digit n)"
  by (simp add: dec_char_code digit_code)

lemma days_in_month_bounds: "28 \<le> days_in_month y m \<and> days_in_month y m \<le> 31" if "1 \<le> m" "m \<le> 12"
proof -
  from that have "m \<in> {1, 2, 3, 4, 5, 6, 7, 8, 9, 10, 11, 12}"
    unfolding insert_iff empty_iff by presburger
  then show ?thesis by (auto simp: days_in_month_def month_days_def)
qed

lemma mod_10_digit: "0 \<le> x mod 10" "x mod 10 \<le> 9" for x :: int
  by auto

lemma decimal_2: "10 * (x div 10) + x mod 10 = x" for x :: int
  by simp

lemma decimal_4: "1000 * (x div 1000) + 100 * (x div 100 mod 10) + 10 * (x div 10 mod 10) + x mod 10 = x" for x :: int
proof -
  define a b c where "a = x div 10" and "b = a div 10" and "c = b div 10"
  have eqs: "x div 10 = a" "x div 100 = b" "x div 1000 = c"
    unfolding a_def b_def c_def by (simp_all add: zdiv_zmult2_eq [symmetric])
  have steps: "x = 10 * a + x mod 10" "a = 10 * b + a mod 10" "b = 10 * c + b mod 10"
    unfolding a_def b_def c_def by (simp_all only: mult_div_mod_eq)
  show ?thesis unfolding eqs using steps by linarith
qed

lemma dec_value_2:
  assumes "0 \<le> a" "a \<le> 9" "0 \<le> b" "b \<le> 9"
  shows "dec_value [digit a, digit b] = 10 * a + b"
  using assms by (simp add: dec_value_def digit_code)

lemma dec_value_4:
  assumes "0 \<le> a" "a \<le> 9" "0 \<le> b" "b \<le> 9" "0 \<le> c" "c \<le> 9" "0 \<le> d" "d \<le> 9"
  shows "dec_value [digit a, digit b, digit c, digit d] = 1000 * a + 100 * b + 10 * c + d"
  using assms by (simp add: dec_value_def digit_code)

lemma strptime_date_text: "valid_date d \<Longrightarrow> strptime_date (date_text d) = Some d"
proof -
  assume v: "valid_date d"
  let ?y = "dt_year d" and ?m = "dt_month d" and ?n = "dt_day d"
  from v days_in_month_bounds [of ?m ?y] have b: "1 \<le> ?y" "?y \<le> 9999" "1 \<le> ?m" "?m \<le> 12" "1 \<le> ?n" "?n \<le> 31"
    by (simp_all add: valid_date_def)
  then have d: "0 \<le> ?y div 1000" "?y div 1000 \<le> 9" "0 \<le> ?m div 10" "?m div 10 \<le> 9" "0 \<le> ?n div 10" "?n div 10 \<le> 9"
    by linarith+
  have year: "dec_value (take 4 (date_text d)) = ?y"
    by (simp add: date_text_def Let_def dec_value_4 d mod_10_digit decimal_4 del: mod_mod_trivial)
  have month: "dec_value (take 2 (drop 5 (date_text d))) = ?m"
    by (simp add: date_text_def Let_def dec_value_2 d mod_10_digit)
  have "filter dec_char [digit (?n div 10), digit (?n mod 10)] = [digit (?n div 10), digit (?n mod 10)]"
    by (simp add: d mod_10_digit)
  then have day: "day_value (drop 8 (date_text d)) = ?n"
    by (simp add: date_text_def Let_def day_value_def dec_value_2 d mod_10_digit del: filter.simps)
  have "date_text_ok (date_text d)"
    by (simp add: date_text_ok_def date_text_def Let_def mod_10_digit d)
  moreover have "\<lparr>dt_year = ?y, dt_month = ?m, dt_day = ?n\<rparr> = d" by (cases d) simp
  ultimately show ?thesis using v by (simp only: strptime_date_def Let_def year month day simp_thms if_True)
qed

text \<open>Ordinals are strictly increasing in the order of dates.\<close>

lemma days_before_month_step:
  assumes "1 \<le> m" and "m < 12"
  shows "days_before_month y (m + 1) = days_before_month y m + days_in_month y m"
proof -
  from assms have "m \<in> {1, 2, 3, 4, 5, 6, 7, 8, 9, 10, 11}"
    unfolding insert_iff empty_iff by presburger
  then show ?thesis by (auto simp: days_before_month_def days_in_month_def month_days_def)
qed

lemma days_before_month_mono:
  assumes "1 \<le> m" and "m < k" and "k \<le> 12"
  shows "days_before_month y m + days_in_month y m \<le> days_before_month y k"
  using assms(2,3)
proof (induction k rule: int_gr_induct)
  case base
  then show ?case using assms(1) by (simp add: days_before_month_step)
next
  case (step k)
  then show ?case
    using assms(1) days_before_month_step [of k y] days_in_month_bounds [of k y] by simp
qed

lemma days_in_year:
  "days_before_year (y + 1) = days_before_year y + days_before_month y 12 + days_in_month y 12"
proof -
  have "(y - 1) div n = (if y mod n = 0 then y div n - 1 else y div n)" if "0 < n" for n :: int
  proof (cases "y mod n = 0")
    case True
    have "y - 1 = n * (y div n - 1) + (n - 1)"
      using mult_div_mod_eq [of n y] True by (simp add: algebra_simps)
    from int_div_pos_eq [OF this] that True show ?thesis by simp
  next
    case False
    have "y - 1 = n * (y div n) + (y mod n - 1)" using mult_div_mod_eq [of n y] by linarith
    moreover have "0 \<le> y mod n - 1" "y mod n - 1 < n"
      using pos_mod_bound [OF that, of y] pos_mod_sign [OF that, of y] False by linarith+
    ultimately have "(y - 1) div n = y div n" by (rule int_div_pos_eq)
    with False show ?thesis by simp
  qed
  moreover have "y mod 100 = 0 \<Longrightarrow> y mod 4 = 0" "y mod 400 = 0 \<Longrightarrow> y mod 100 = 0" by presburger+
  ultimately show ?thesis
    by (auto simp: days_before_year_def Let_def days_before_month_def days_in_month_def month_days_def leap_year_def)
qed

lemma days_before_year_mono: "y < z \<Longrightarrow> days_before_year (y + 1) \<le> days_before_year z"
proof (induction z rule: int_gr_induct)
  case (step z)
  have "0 \<le> days_before_month z 12" "0 \<le> days_in_month z 12"
    by (auto simp: days_before_month_def days_in_month_def month_days_def)
  with step show ?case using days_in_year [of z] by linarith
qed simp

lemma day_of_year:
  assumes "valid_date d"
  shows "0 < days_before_month (dt_year d) (dt_month d) + dt_day d \<and>
    days_before_year (dt_year d) + (days_before_month (dt_year d) (dt_month d) + dt_day d)
      \<le> days_before_year (dt_year d + 1)"
proof -
  from assms have v: "1 \<le> dt_month d" "dt_month d \<le> 12" "1 \<le> dt_day d"
    "dt_day d \<le> days_in_month (dt_year d) (dt_month d)" by (simp_all add: valid_date_def)
  have "0 \<le> days_before_month (dt_year d) (dt_month d)"
    by (auto simp: days_before_month_def month_days_def intro!: add_nonneg_nonneg sum_list_nonneg dest!: in_set_takeD)
  moreover have "days_before_month (dt_year d) (dt_month d) + days_in_month (dt_year d) (dt_month d)
      \<le> days_before_month (dt_year d) 12 + days_in_month (dt_year d) 12"
    using v(1,2) days_before_month_mono [of "dt_month d" 12 "dt_year d"] days_in_month_bounds [of 12 "dt_year d"]
    by (cases "dt_month d = 12") auto
  ultimately show ?thesis using v days_in_year [of "dt_year d"] by linarith
qed

lemma ordinal_less:
  assumes a: "valid_date a" and b: "valid_date b" and "date_less a b"
  shows "ordinal a < ordinal b"
proof -
  from assms(3) consider "dt_year a < dt_year b" | "dt_year a = dt_year b" "dt_month a < dt_month b"
    | "dt_year a = dt_year b" "dt_month a = dt_month b" "dt_day a < dt_day b"
    by (auto simp: date_less_def)
  then show ?thesis
  proof cases
    case 1
    then show ?thesis
      using days_before_year_mono [OF 1] day_of_year [OF a] day_of_year [OF b] by (simp add: ordinal_def)
  next
    case 2
    from a b 2 have "days_before_month (dt_year a) (dt_month a) + days_in_month (dt_year a) (dt_month a)
        \<le> days_before_month (dt_year a) (dt_month b)"
      by (intro days_before_month_mono) (auto simp: valid_date_def)
    with a b 2 show ?thesis by (auto simp: ordinal_def valid_date_def)
  qed (simp add: ordinal_def)
qed

lemma date_less_linear: "date_less a b \<or> a = b \<or> date_less b a"
  by (auto simp: date_less_def intro: date.equality)

lemma ordinal_order:
  assumes "valid_date a" and "valid_date b"
  shows "ordinal a < ordinal b \<longleftrightarrow> date_less a b"
  using ordinal_less [OF assms] ordinal_less [OF assms(2,1)] date_less_linear [of a b] by auto

lemma ordinal_inj: "valid_date a \<Longrightarrow> valid_date b \<Longrightarrow> ordinal a = ordinal b \<Longrightarrow> a = b"
  using ordinal_less date_less_linear by (metis less_irrefl)

lemma last_ordinal: "ordinal \<lparr>dt_year = 9999, dt_month = 12, dt_day = 31\<rparr> = max_ordinal"
  by (simp add: ordinal_def days_before_year_def days_before_month_def month_days_def max_ordinal_def Let_def leap_year_def)

lemma ordinal_max:
  assumes "valid_date d"
  shows "ordinal d \<le> max_ordinal"
proof -
  let ?l = "\<lparr>dt_year = 9999, dt_month = 12, dt_day = 31\<rparr> :: date"
  have l: "valid_date ?l" by (simp add: valid_date_def days_in_month_def month_days_def)
  have "\<not> date_less ?l d"
    using assms days_in_month_bounds [of 12 9999]
    by (auto simp: date_less_def valid_date_def days_in_month_def month_days_def)
  then show ?thesis using ordinal_order [OF l assms] last_ordinal by simp
qed

lemma epoch_date: "midnight (ordinal \<lparr>dt_year = 1970, dt_month = 1, dt_day = 1\<rparr>) = 0"
  by (simp add: midnight_def ordinal_def days_before_year_def days_before_month_def month_days_def
      epoch_ordinal_def Let_def leap_year_def)

lemma strptime_dateD: "strptime_date s = Some d \<Longrightarrow> valid_date d"
  by (auto simp: strptime_date_def Let_def split: if_splits)

end
