(* ===== verification/Crash.thy ===== *)
theory Crash
  imports Redis
begin

text \<open>
  Durable state and crashes. A machine is a disk (files and committed tables), the disks
  it passed through, and what goes wrong with the effects to come. An effect happens,
  fails without having happened, or fails after it happened; a crash can leave any disk
  the machine passed through. What holds throughout a run holds of all of these.
\<close>

record 'd machine =
  mc_disk :: 'd
  mc_trace :: "'d list"
  mc_faults :: "fault list"

definition effect :: "('d \<Rightarrow> 'd) \<Rightarrow> ('d machine, unit) io" where
  "effect f M =
     (let happened = (\<lambda>fs. \<lparr>mc_disk = f (mc_disk M), mc_trace = mc_disk M # mc_trace M, mc_faults = fs\<rparr>)
      in case mc_faults M of
           [] \<Rightarrow> (Inr (), happened [])
         | Healthy # fs \<Rightarrow> (Inr (), happened fs)
         | FailsBefore # fs \<Rightarrow> (Inl (OSError []), M\<lparr>mc_faults := fs\<rparr>)
         | FailsAfter # fs \<Rightarrow> (Inl (OSError []), happened fs))"

definition look :: "('d \<Rightarrow> 'a) \<Rightarrow> ('d machine, 'a) io" where
  "look g M = (Inr (g (mc_disk M)), M)"

definition disks :: "'d machine \<Rightarrow> 'd set" where
  "disks M = insert (mc_disk M) (set (mc_trace M))"

definition throughout :: "('d \<Rightarrow> bool) \<Rightarrow> 'd machine \<Rightarrow> bool" where
  "throughout P M \<longleftrightarrow> (\<forall>d \<in> disks M. P d)"

definition power_on :: "'d \<Rightarrow> fault list \<Rightarrow> 'd machine" where
  "power_on d fs = \<lparr>mc_disk = d, mc_trace = [], mc_faults = fs\<rparr>"

lemma look_app [simp, io_simps]: "look g M = (Inr (g (mc_disk M)), M)"
  by (simp add: look_def)

lemma power_on_simps [simp]:
  "mc_disk (power_on d fs) = d" "mc_trace (power_on d fs) = []" "mc_faults (power_on d fs) = fs"
  by (simp_all add: power_on_def)

lemma throughout_power_on [simp]: "throughout P (power_on d fs) = P d"
  by (simp add: throughout_def disks_def)

lemma throughoutD: "throughout P M \<Longrightarrow> P (mc_disk M)"
  by (simp add: throughout_def disks_def)

text \<open>An effect: it happened (whatever it answers), or it raised and nothing changed.\<close>

lemma effect_cases:
  assumes "effect f M = (r, M')"
  obtains (happened) "mc_disk M' = f (mc_disk M)" and "mc_trace M' = mc_disk M # mc_trace M"
  | (failed) e where "r = Inl e" and "mc_disk M' = mc_disk M" and "mc_trace M' = mc_trace M"
  using assms by (auto simp: effect_def Let_def split: list.splits fault.splits)

lemma effect_Inr:
  "effect f M = (Inr u, M') \<Longrightarrow>
     mc_disk M' = f (mc_disk M) \<and> mc_trace M' = mc_disk M # mc_trace M"
  by (auto simp: effect_def Let_def split: list.splits fault.splits)

lemma effect_throughout:
  "throughout P M \<Longrightarrow> P (f (mc_disk M)) \<Longrightarrow> effect f M = (r, M') \<Longrightarrow> throughout P M'"
  by (erule effect_cases) (auto simp: throughout_def disks_def)

text \<open>
  A pass of a program: every disk it goes through, from the first it makes to the last,
  satisfies \<open>P\<close>, and if it returns, the last one satisfies \<open>Q\<close>.
\<close>

definition passed :: "'d machine \<Rightarrow> 'd machine \<Rightarrow> ('d \<Rightarrow> bool) \<Rightarrow> bool" where
  "passed M M' P \<longleftrightarrow>
     (\<exists>ds. mc_trace M' = ds @ mc_trace M \<and>
       (\<forall>d \<in> insert (mc_disk M') (set ds). P d \<or> d = mc_disk M))"

definition passes :: "('d \<Rightarrow> bool) \<Rightarrow> ('d machine, 'a) io \<Rightarrow> ('d \<Rightarrow> bool) \<Rightarrow> ('a \<Rightarrow> 'd \<Rightarrow> bool) \<Rightarrow> bool" where
  "passes P m I Q \<longleftrightarrow>
     (\<forall>M. I (mc_disk M) \<longrightarrow>
        passed M (snd (m M)) P \<and> (\<forall>a. fst (m M) = Inr a \<longrightarrow> Q a (mc_disk (snd (m M)))))"

lemma passed_refl [simp]: "passed M M P"
  by (simp add: passed_def)

lemma passed_trans: "passed M M' P \<Longrightarrow> passed M' M'' P \<Longrightarrow> passed M M'' P"
  by (auto simp: passed_def)

lemma passed_throughout: "throughout P M \<Longrightarrow> passed M M' P \<Longrightarrow> throughout P M'"
  by (auto simp: throughout_def disks_def passed_def)

lemma passed_mono: "passed M M' P \<Longrightarrow> (\<And>d. P d \<Longrightarrow> P' d) \<Longrightarrow> passed M M' P'"
  unfolding passed_def by blast

lemma passesD:
  assumes "passes P m I Q" and "I (mc_disk M)" and "m M = (r, M')"
  shows "passed M M' P" and "r = Inr a \<Longrightarrow> Q a (mc_disk M')"
  using assms by (auto simp: passes_def)

lemma passes_sub: "passes P m I Q \<Longrightarrow> (\<And>d. P d \<Longrightarrow> P' d) \<Longrightarrow> passes P' m I Q"
  unfolding passes_def using passed_mono by blast

lemma passes_effect:
  assumes "\<And>d. I d \<Longrightarrow> P (f d)"
  shows "passes P (effect f) I (\<lambda>_ d'. \<exists>d. I d \<and> d' = f d)"
  unfolding passes_def
proof (intro allI impI)
  fix M :: "'a machine"
  assume I: "I (mc_disk M)"
  obtain r M' where m: "effect f M = (r, M')" by force
  from m assms [OF I] have "passed M M' P"
    by (auto elim!: effect_cases simp: passed_def)
  moreover have "\<exists>d. I d \<and> mc_disk M' = f d" if "r = Inr a" for a
    using effect_Inr [of f M a M'] m that I by auto
  ultimately show "passed M (snd (effect f M)) P \<and>
      (\<forall>a. fst (effect f M) = Inr a \<longrightarrow> (\<exists>d. I d \<and> mc_disk (snd (effect f M)) = f d))"
    using m by simp
qed

lemma passes_weaken:
  "passes P m I Q \<Longrightarrow> (\<And>d. I' d \<Longrightarrow> I d) \<Longrightarrow> passes P m I' Q"
  by (auto simp: passes_def)

lemma passes_never: "(\<And>d. \<not> I d) \<Longrightarrow> passes P m I Q"
  by (simp add: passes_def)

lemma passes_look: "passes P (look g) I (\<lambda>a d. I d \<and> a = g d)"
  by (simp add: passes_def)

lemma passes_of_res: "passes P (of_res r) I (\<lambda>a d. I d \<and> r = Inr a)"
  by (simp add: passes_def)

lemma passes_ret: "passes P (ret_io a) I (\<lambda>b d. I d \<and> b = a)"
  by (simp add: passes_def)

lemma passes_retI: "(\<And>d. I d \<Longrightarrow> Q a d) \<Longrightarrow> passes P (ret_io a) I Q"
  by (simp add: passes_def)

lemma passes_if:
  "passes P m (\<lambda>d. I d \<and> c) Q \<Longrightarrow> passes P m' (\<lambda>d. I d \<and> \<not> c) Q \<Longrightarrow>
     passes P (if c then m else m') I Q"
  by (cases c) simp_all

lemma passes_raise: "passes P (raise_io e) I Q"
  by (simp add: passes_def)

lemma passes_bind:
  assumes "passes P m I Q" and "\<And>a. passes P (f a) (Q a) R"
  shows "passes P (bind_io m f) I R"
  unfolding passes_def
proof (intro allI impI)
  fix M :: "'a machine"
  assume M: "I (mc_disk M)"
  obtain r M' where m: "m M = (r, M')" by force
  note one = passesD [OF assms(1) M m]
  show "passed M (snd (bind_io m f M)) P \<and>
      (\<forall>a. fst (bind_io m f M) = Inr a \<longrightarrow> R a (mc_disk (snd (bind_io m f M))))"
  proof (cases r)
    case (Inl e)
    with m one show ?thesis by (simp add: bind_io_def)
  next
    case (Inr a)
    with one have "Q a (mc_disk M')" by simp
    moreover obtain r' M'' where "f a M' = (r', M'')" by force
    ultimately show ?thesis
      using passesD [OF assms(2) [of a], of M' r' M''] one m Inr
      by (auto simp: bind_io_def intro: passed_trans)
  qed
qed

lemma passes_of_res_bind:
  "(\<And>a. r = Inr a \<Longrightarrow> passes P (f a) I Q) \<Longrightarrow> passes P (bind_io (of_res r) f) I Q"
  by (cases r) (auto simp: passes_def bind_io_def)

lemma passes_look_bind:
  "(\<And>a. passes P (f a) (\<lambda>d. I d \<and> g d = a) Q) \<Longrightarrow> passes P (bind_io (look g) f) I Q"
  by (rule passes_bind [OF passes_look]) (auto simp: eq_commute)

lemma passes_mono:
  "passes P m I Q \<Longrightarrow> (\<And>d. I' d \<Longrightarrow> I d) \<Longrightarrow> (\<And>a d. Q a d \<Longrightarrow> Q' a d) \<Longrightarrow> passes P m I' Q'"
  by (auto simp: passes_def)

lemma passes_pre: "(I' \<Longrightarrow> passes P m I Q) \<Longrightarrow> passes P m (\<lambda>d. I' \<and> I d) Q"
  by (auto simp: passes_def)

lemma passes_finally:
  assumes "passes P m I Q" and "\<And>d. I d \<Longrightarrow> P d" and "passes P f P (\<lambda>_ _. True)"
    and "\<And>a. passes P f (Q a) (\<lambda>_. Z a)"
  shows "passes P (finally_io m f) I Z"
  unfolding passes_def
proof (intro allI impI)
  fix M :: "'a machine"
  assume I: "I (mc_disk M)"
  obtain r M1 where m: "m M = (r, M1)" by force
  obtain u M2 where f: "f M1 = (u, M2)" by force
  note one = passesD [OF assms(1) I m]
  have "P (mc_disk M1)" using one(1) assms(2) [OF I] by (auto simp: passed_def)
  then have two: "passed M1 M2 P" using passesD(1) [OF assms(3) _ f] by blast
  have "passed M M2 P" using one(1) two by (rule passed_trans)
  moreover have "Z a (mc_disk M2)" if "fst (finally_io m f M) = Inr a" for a
  proof -
    from that m f have r: "r = Inr a" and u: "u = Inr ()"
      by (auto simp: finally_io_def split: sum.splits)
    show ?thesis using passesD(2) [OF assms(4) one(2) [OF r] f u] .
  qed
  moreover have "snd (finally_io m f M) = M2" using m f by (simp add: finally_io_def split: sum.splits)
  ultimately show "passed M (snd (finally_io m f M)) P \<and>
      (\<forall>a. fst (finally_io m f M) = Inr a \<longrightarrow> Z a (mc_disk (snd (finally_io m f M))))" by simp
qed

lemma passes_effect_to:
  assumes "\<And>d. I d \<Longrightarrow> P (f d) \<and> J (f d)"
  shows "passes P (effect f) I (\<lambda>_. J)"
proof (rule passes_mono)
  show "passes P (effect f) I (\<lambda>_ d'. \<exists>d. I d \<and> d' = f d)" using assms by (intro passes_effect) blast
qed (use assms in blast)+

lemma passes_same:
  assumes "\<And>d. I d \<Longrightarrow> P d"
  shows "passes P (effect id) I (\<lambda>_. I)"
  by (rule passes_effect_to) (use assms in auto)

section \<open>Recovery\<close>

text \<open>
  What a recovery promises of the disks it is made for: it can be cut short anywhere and
  started again, and once it returns the disk is settled one way or the other, as the
  record says.
\<close>

locale crash_restart =
  fixes recovery :: "('d machine, 'r) io"
    and safe :: "'d \<Rightarrow> bool"
    and recorded :: "'d \<Rightarrow> bool"
    and settled :: "'d \<Rightarrow> bool"
    and done_new :: "'d \<Rightarrow> bool"
    and still_old :: "'d \<Rightarrow> bool"
  assumes restartable:
      "passes (\<lambda>d. safe d \<and> recorded d = b) recovery (\<lambda>d. safe d \<and> recorded d = b)
         (\<lambda>_ d. safe d \<and> recorded d = b \<and> settled d)"
    and verdict: "safe d \<Longrightarrow> settled d \<Longrightarrow> if recorded d then done_new d else still_old d"

text \<open>A recovery that also returns when nothing fails.\<close>

locale crash_recovery = crash_restart +
  assumes returns: "safe d \<Longrightarrow> \<exists>r M. recovery (power_on d []) = (Inr r, M)"

text \<open>Disks left by recoveries that were cut short, any number of times.\<close>

inductive cut_short :: "('d machine, 'r) io \<Rightarrow> 'd \<Rightarrow> 'd \<Rightarrow> bool" for recovery where
  never: "cut_short recovery d d"
| again: "cut_short recovery d x \<Longrightarrow> y \<in> disks (snd (recovery (power_on x fs))) \<Longrightarrow> cut_short recovery d y"

context crash_restart
begin

lemma cut_short_safe:
  "cut_short recovery d x \<Longrightarrow> safe d \<Longrightarrow> safe x \<and> recorded x = recorded d"
proof (induction rule: cut_short.induct)
  case (again d x y fs)
  obtain r M where m: "recovery (power_on x fs) = (r, M)" by force
  have "passed (power_on x fs) M (\<lambda>z. safe z \<and> recorded z = recorded d)"
    by (rule passesD(1) [OF restartable [of "recorded d"] _ m]) (use again in \<open>simp\<close>)
  moreover have "throughout (\<lambda>z. safe z \<and> recorded z = recorded d) (power_on x fs)"
    using again by simp
  ultimately have "throughout (\<lambda>z. safe z \<and> recorded z = recorded d) M"
    by (rule passed_throughout [rotated])
  then show ?case using again.hyps m by (simp add: throughout_def)
qed simp

lemma settles:
  assumes "safe d" and "cut_short recovery d x" and "recovery (power_on x fs) = (Inr r, M)"
  shows "settled (mc_disk M) \<and> (if recorded d then done_new (mc_disk M) else still_old (mc_disk M))"
proof -
  have x: "safe x" "recorded x = recorded d" using cut_short_safe assms by auto
  have "safe (mc_disk M) \<and> recorded (mc_disk M) = recorded d \<and> settled (mc_disk M)"
    using restartable [of "recorded d", unfolded passes_def, rule_format, of "power_on x fs"] x assms(3) by simp
  with verdict [of "mc_disk M"] show ?thesis by auto
qed

end

context crash_recovery
begin

lemma recovers:
  assumes "safe d" and "cut_short recovery d x"
  shows "\<exists>r M. recovery (power_on x []) = (Inr r, M) \<and> settled (mc_disk M) \<and>
    (if recorded d then done_new (mc_disk M) else still_old (mc_disk M))"
proof -
  have "safe x" using cut_short_safe assms by auto
  then obtain r M where "recovery (power_on x []) = (Inr r, M)" using returns by blast
  with settles [OF assms this] show ?thesis by blast
qed

end

end
