(* ===== verification/Journal.thy ===== *)
theory Journal
  imports Crash AuditLog
begin

text \<open>
  What \<open>services/gateway/policy_operations.py\<close> and \<open>services/gateway/audit_keys.py\<close>
  share: a file that is replaced through a pending file and an operation journal, with a
  row of the audit log as the point of no return. The disk is a record the two components
  extend; \<open>'j\<close> is the type of the journal's entry.
\<close>

section \<open>The disk and its operations\<close>

record 'j journaled =
  jd_active :: "string option"
  jd_pending :: "string option"
  jd_journal :: "'j option"
  jd_log :: "(int \<times> audit_entry) list"
  jd_next_seq :: int

text \<open>\<open>_atomic_write\<close> replaces a file in one step: it is one effect.\<close>

definition write_pending :: "string \<Rightarrow> (('j, 'z) journaled_scheme machine, unit) io" where
  "write_pending raw = effect (\<lambda>d. d\<lparr>jd_pending := Some raw\<rparr>)"

definition write_journal :: "'j \<Rightarrow> (('j, 'z) journaled_scheme machine, unit) io" where
  "write_journal j = effect (\<lambda>d. d\<lparr>jd_journal := Some j\<rparr>)"

definition read_journal :: "(('j, 'z) journaled_scheme machine, 'j option) io" where
  "read_journal = look jd_journal"

definition unlink_pending :: "(('j, 'z) journaled_scheme machine, unit) io" where
  "unlink_pending = effect (\<lambda>d. d\<lparr>jd_pending := None\<rparr>)"

definition unlink_journal :: "(('j, 'z) journaled_scheme machine, unit) io" where
  "unlink_journal = effect (\<lambda>d. d\<lparr>jd_journal := None\<rparr>)"

definition finish :: "(('j, 'z) journaled_scheme machine, unit) io" where
  "finish = bind_io unlink_pending (\<lambda>_. unlink_journal)"

text \<open>The pending file takes the active one's place, once it was checked.\<close>

definition promote_pending ::
  "(string \<Rightarrow> unit res) \<Rightarrow> 'j \<Rightarrow> (('j, 'z) journaled_scheme machine, unit) io" where
  "promote_pending check j =
     bind_io (look jd_pending) (\<lambda>pending. case pending of
       None \<Rightarrow> raise_io (OSError ''FileNotFoundError'')
     | Some raw \<Rightarrow>
         bind_io (of_res (check raw)) (\<lambda>_.
         bind_io (effect (\<lambda>d. d\<lparr>jd_active := jd_pending d, jd_pending := None\<rparr>)) (\<lambda>_.
           write_journal j)))"

definition write_row :: "audit_entry \<Rightarrow> (('j, 'z) journaled_scheme machine, int) io" where
  "write_row w =
     bind_io (look jd_next_seq) (\<lambda>seq.
     bind_io (effect (\<lambda>d. d\<lparr>jd_log := jd_log d @ [(seq, w)], jd_next_seq := seq + 1\<rparr>)) (\<lambda>_. ret_io seq))"

text \<open>
  The rows of an operation, by the operation id in their payload; \<open>scalar_one_or_none\<close>
  refuses more than one.
\<close>

definition rows_of :: "event_type \<Rightarrow> string \<Rightarrow> ('j, 'z) journaled_scheme \<Rightarrow> int list" where
  "rows_of ev i d =
     map fst (filter (\<lambda>(seq, w). w_event w = ev \<and> map_of (w_extra w) ''operation_id'' = Some (JStr i))
       (jd_log d))"

definition promote_recorded ::
  "(string option \<Rightarrow> bool res) \<Rightarrow> (('j, 'z) journaled_scheme machine, unit) io \<Rightarrow> string \<Rightarrow>
     (('j, 'z) journaled_scheme machine, unit) io" where
  "promote_recorded there promote missing =
     bind_io (look jd_active) (\<lambda>active.
     bind_io (of_res (there active)) (\<lambda>t.
       if t then ret_io ()
       else bind_io (look jd_pending) (\<lambda>pending.
         if pending = None then raise_io (RuntimeError missing) else promote)))"

definition settle ::
  "(string option \<Rightarrow> bool res) \<Rightarrow> (int \<Rightarrow> (('j, 'z) journaled_scheme machine, unit) io) \<Rightarrow> string \<Rightarrow>
     int list \<Rightarrow> (('j, 'z) journaled_scheme machine, unit) io" where
  "settle there promote missing rows =
     (case rows of
        [] \<Rightarrow> finish
      | [seq] \<Rightarrow> bind_io (promote_recorded there (promote seq) missing) (\<lambda>_. finish)
      | _ \<Rightarrow> raise_io (RuntimeError ''MultipleResultsFound''))"

section \<open>Disks on the way\<close>

text \<open>
  The disks an operation can leave, for the file that is \<open>new\<close> and the file that was
  active before: without a row the old file is still there; with one, the new file is
  there already or waits for the journal's promotion.
\<close>

definition holds :: "(string \<Rightarrow> bool) \<Rightarrow> string option \<Rightarrow> bool" where
  "holds new file \<longleftrightarrow> (case file of None \<Rightarrow> False | Some raw \<Rightarrow> new raw)"

definition promotable ::
  "event_type \<Rightarrow> string \<Rightarrow> ('j \<Rightarrow> bool) \<Rightarrow> (string \<Rightarrow> bool) \<Rightarrow> string option \<Rightarrow>
     ('j, 'z) journaled_scheme \<Rightarrow> bool" where
  "promotable ev i mine new old d \<longleftrightarrow>
     (\<forall>j. jd_journal d = Some j \<longrightarrow> mine j) \<and>
     length (rows_of ev i d) \<le> 1 \<and>
     (rows_of ev i d = [] \<longrightarrow> jd_active d = old) \<and>
     (rows_of ev i d \<noteq> [] \<longrightarrow>
        holds new (jd_active d) \<or>
        jd_journal d \<noteq> None \<and> holds new (jd_pending d) \<and> jd_active d = old)"

definition on_track ::
  "event_type \<Rightarrow> string \<Rightarrow> ('j \<Rightarrow> bool) \<Rightarrow> (string \<Rightarrow> bool) \<Rightarrow> string option \<Rightarrow> bool \<Rightarrow>
     ('j, 'z) journaled_scheme \<Rightarrow> bool" where
  "on_track ev i mine new old b d \<longleftrightarrow> promotable ev i mine new old d \<and> (rows_of ev i d \<noteq> []) = b"

definition in_force ::
  "event_type \<Rightarrow> string \<Rightarrow> ('j \<Rightarrow> bool) \<Rightarrow> (string \<Rightarrow> bool) \<Rightarrow> string option \<Rightarrow> bool \<Rightarrow>
     ('j, 'z) journaled_scheme \<Rightarrow> bool" where
  "in_force ev i mine new old b d \<longleftrightarrow> on_track ev i mine new old b d \<and> (b \<longrightarrow> holds new (jd_active d))"

lemma rows_simps [simp]:
  "rows_of ev i (d\<lparr>jd_journal := j\<rparr>) = rows_of ev i d"
  "rows_of ev i (d\<lparr>jd_pending := p\<rparr>) = rows_of ev i d"
  "rows_of ev i (d\<lparr>jd_active := a\<rparr>) = rows_of ev i d"
  by (simp_all add: rows_of_def)

lemma effect_healthy:
  "mc_faults M = [] \<Longrightarrow>
     effect f M = (Inr (), \<lparr>mc_disk = f (mc_disk M), mc_trace = mc_disk M # mc_trace M, mc_faults = []\<rparr>)"
  by (simp add: effect_def Let_def)

lemma keeps_effect: "(\<And>d. I d \<Longrightarrow> P (f d) \<and> Q (f d)) \<Longrightarrow> passes P (effect f) I (\<lambda>_. Q)"
  by (rule passes_mono [OF passes_effect [of I]]) auto

lemma finish_passes:
  assumes "\<And>d. I d \<Longrightarrow> P (d\<lparr>jd_pending := None\<rparr>) \<and> P (d\<lparr>jd_pending := None, jd_journal := None\<rparr>)"
  shows "passes P finish I (\<lambda>_ d'. \<exists>d. I d \<and> d' = d\<lparr>jd_pending := None, jd_journal := None\<rparr>)"
  unfolding finish_def unlink_pending_def unlink_journal_def
  by (rule passes_bind [where Q = "\<lambda>_ d'. \<exists>d. I d \<and> d' = d\<lparr>jd_pending := None\<rparr>"])
    (use assms in \<open>auto intro!: keeps_effect\<close>)

lemma in_force_unlinked:
  "in_force ev i mine new old b d \<Longrightarrow>
     in_force ev i mine new old b (d\<lparr>jd_pending := None\<rparr>) \<and>
     in_force ev i mine new old b (d\<lparr>jd_pending := None, jd_journal := None\<rparr>)"
  by (auto simp: in_force_def on_track_def promotable_def)

lemma finish_in_force:
  "passes (on_track ev i mine new old b) finish (in_force ev i mine new old b)
     (\<lambda>_ d. in_force ev i mine new old b d \<and> jd_journal d = None)"
proof (rule passes_mono [OF finish_passes [where I = "in_force ev i mine new old b"]])
  fix d
  assume "in_force ev i mine new old b d"
  from in_force_unlinked [OF this]
  show "on_track ev i mine new old b (d\<lparr>jd_pending := None\<rparr>) \<and>
      on_track ev i mine new old b (d\<lparr>jd_pending := None, jd_journal := None\<rparr>)"
    by (simp add: in_force_def)
next
  fix a d
  assume "\<exists>d0. in_force ev i mine new old b d0 \<and> d = d0\<lparr>jd_pending := None, jd_journal := None\<rparr>"
  then obtain d0 where "in_force ev i mine new old b d0"
    and "d = d0\<lparr>jd_pending := None, jd_journal := None\<rparr>" by blast
  with in_force_unlinked [OF this(1)] show "in_force ev i mine new old b d \<and> jd_journal d = None" by simp
qed

text \<open>The handler before the handoff, on a disk with and without the row.\<close>

lemma abort_passed:
  assumes "finish M = (r, M')" and "promotable ev i mine new old (mc_disk M)"
  shows "if rows_of ev i (mc_disk M) = [] then passed M M' (promotable ev i mine new old)
    else rows_of ev i (mc_disk M') \<noteq> []"
proof (cases "rows_of ev i (mc_disk M) = []")
  case True
  then have "in_force ev i mine new old False (mc_disk M)"
    using assms(2) by (simp add: in_force_def on_track_def)
  from passesD(1) [OF finish_in_force this assms(1)] show ?thesis
    using True by (auto simp: on_track_def elim: passed_mono)
next
  case False
  have "passes (\<lambda>d. rows_of ev i d \<noteq> []) finish (\<lambda>d. rows_of ev i d \<noteq> [])
      (\<lambda>_ d'. \<exists>d. rows_of ev i d \<noteq> [] \<and> d' = d\<lparr>jd_pending := None, jd_journal := None\<rparr>)"
    by (rule finish_passes) simp
  from passesD(1) [OF this False assms(1)] show ?thesis
    using False by (auto simp: passed_def)
qed

lemma promote_on_track:
  assumes "mine j" and "\<And>raw. check raw = Inr () \<Longrightarrow> new raw" and "b"
  shows "passes (on_track ev i mine new old b) (promote_pending check j) (on_track ev i mine new old b)
    (\<lambda>_. in_force ev i mine new old b)"
proof -
  let ?T = "on_track ev i mine new old b" and ?F = "in_force ev i mine new old b"
  let ?sw = "\<lambda>d. d\<lparr>jd_active := jd_pending d, jd_pending := None\<rparr>"
  have swapped: "?T (?sw d) \<and> ?F (?sw d)" if "?T d" "new raw" "jd_pending d = Some raw" for d raw
    using that assms(3) by (auto simp: in_force_def on_track_def promotable_def holds_def)
  have noted: "?T (d\<lparr>jd_journal := Some j\<rparr>) \<and> ?F (d\<lparr>jd_journal := Some j\<rparr>)" if "?F d" for d
    using that assms(1) by (auto simp: in_force_def on_track_def promotable_def)
  have swap: "passes ?T (effect ?sw) (\<lambda>d. (?T d \<and> jd_pending d = Some raw) \<and> new raw) (\<lambda>_. ?F)" for raw
    by (rule keeps_effect) (use swapped in \<open>blast\<close>)
  have note_it: "passes ?T (write_journal j) ?F (\<lambda>_. ?F)"
    unfolding write_journal_def by (rule keeps_effect) (use noted in \<open>blast\<close>)
  show ?thesis
    unfolding promote_pending_def
    apply (rule passes_look_bind)
    subgoal for pending
      apply (cases pending)
       apply (simp add: passes_raise)
      apply simp
      apply (rule passes_of_res_bind)
      apply (rule passes_weaken [OF passes_bind [OF swap note_it]])
      using assms(2) apply auto
      done
    done
qed

lemma promote_recorded_on_track:
  assumes "passes (on_track ev i mine new old b) promote (on_track ev i mine new old b)
      (\<lambda>_. in_force ev i mine new old b)"
    and "\<And>file. there file = Inr True \<Longrightarrow> holds new file"
  shows "passes (on_track ev i mine new old b) (promote_recorded there promote missing)
    (on_track ev i mine new old b) (\<lambda>_. in_force ev i mine new old b)"
proof -
  let ?T = "on_track ev i mine new old b" and ?F = "in_force ev i mine new old b"
  have there: "?F d" if "?T d" "there (jd_active d) = Inr True" for d
    using that assms(2) by (simp add: in_force_def)
  show ?thesis
    unfolding promote_recorded_def
    apply (rule passes_look_bind)
    subgoal for active
      apply (rule passes_of_res_bind)
      apply (rule passes_if)
       apply (rule passes_retI)
       apply (rule there; simp)
      apply (rule passes_weaken [where I = ?T])
       apply (rule passes_look_bind)
       apply (rule passes_if)
        apply (rule passes_raise)
       apply (rule passes_weaken [OF assms(1)])
       apply simp_all
      done
    done
qed

lemma settle_on_track:
  assumes "\<And>seq. b \<Longrightarrow> passes (on_track ev i mine new old b) (promote seq) (on_track ev i mine new old b)
      (\<lambda>_. in_force ev i mine new old b)"
    and "\<And>file. there file = Inr True \<Longrightarrow> holds new file"
  shows "passes (on_track ev i mine new old b) (settle there promote missing rows)
    (\<lambda>d. on_track ev i mine new old b d \<and> rows_of ev i d = rows)
    (\<lambda>_ d. in_force ev i mine new old b d \<and> jd_journal d = None)"
proof (cases rows)
  case Nil
  have "in_force ev i mine new old b d" if "on_track ev i mine new old b d \<and> rows_of ev i d = []" for d
    using that by (auto simp: in_force_def on_track_def)
  then show ?thesis
    unfolding settle_def Nil list.case by (rule passes_weaken [OF finish_in_force])
next
  case (Cons seq ss)
  show ?thesis
  proof (cases "b \<and> ss = []")
    case True
    then show ?thesis
      using passes_bind [OF promote_recorded_on_track [OF assms(1) assms(2)] finish_in_force]
      unfolding settle_def Cons by (auto intro: passes_weaken)
  next
    case False
    then show ?thesis
      unfolding settle_def Cons
      by (cases ss) (auto intro!: passes_raise passes_never simp: on_track_def)
  qed
qed

text \<open>A recovery: read the journal, look for the rows of its operation, settle.\<close>

definition recovery ::
  "event_type \<Rightarrow> ('j \<Rightarrow> string) \<Rightarrow> ('j \<Rightarrow> int list \<Rightarrow> (('j, 'z) journaled_scheme machine, unit) io) \<Rightarrow>
     (('j, 'z) journaled_scheme machine, unit) io" where
  "recovery ev id_of settling =
     bind_io read_journal (\<lambda>j. case j of
       None \<Rightarrow> ret_io ()
     | Some op \<Rightarrow> bind_io (look (rows_of ev (id_of op))) (settling op))"

lemma recovery_on_track:
  assumes "\<And>j. mine j \<Longrightarrow> id_of j = i"
    and "\<And>j rows. mine j \<Longrightarrow> passes (on_track ev i mine new old b) (settling j rows)
      (\<lambda>d. on_track ev i mine new old b d \<and> rows_of ev i d = rows)
      (\<lambda>_ d. in_force ev i mine new old b d \<and> jd_journal d = None)"
  shows "passes (on_track ev i mine new old b) (recovery ev id_of settling) (on_track ev i mine new old b)
    (\<lambda>_ d. in_force ev i mine new old b d \<and> jd_journal d = None)"
  unfolding recovery_def read_journal_def
proof (rule passes_look_bind)
  fix j
  show "passes (on_track ev i mine new old b)
      (case j of None \<Rightarrow> ret_io () | Some op \<Rightarrow> bind_io (look (rows_of ev (id_of op))) (settling op))
      (\<lambda>d. on_track ev i mine new old b d \<and> jd_journal d = j)
      (\<lambda>_ d. in_force ev i mine new old b d \<and> jd_journal d = None)"
  proof (cases j)
    case None
    then show ?thesis
      by (auto intro!: passes_retI simp: in_force_def on_track_def promotable_def)
  next
    case (Some op)
    show ?thesis
    proof (cases "mine op")
      case True
      then show ?thesis
        unfolding Some option.case assms(1) [OF True]
        by (intro passes_look_bind) (auto intro: passes_weaken [OF assms(2)])
    next
      case False
      then show ?thesis using Some by (auto intro!: passes_never simp: on_track_def promotable_def)
    qed
  qed
qed

lemmas settle_simps = recovery_def settle_def promote_recorded_def promote_pending_def finish_def
  unlink_pending_def unlink_journal_def write_journal_def read_journal_def bind_io_def effect_healthy

text \<open>The phases before the row and between the row and the promotion.\<close>

definition idle :: "event_type \<Rightarrow> string \<Rightarrow> string option \<Rightarrow> ('j, 'z) journaled_scheme \<Rightarrow> bool" where
  "idle ev i old d \<longleftrightarrow> jd_journal d = None \<and> rows_of ev i d = [] \<and> jd_active d = old"

definition prepared ::
  "event_type \<Rightarrow> string \<Rightarrow> ('j \<Rightarrow> bool) \<Rightarrow> (string \<Rightarrow> bool) \<Rightarrow> string option \<Rightarrow>
     ('j, 'z) journaled_scheme \<Rightarrow> bool" where
  "prepared ev i mine new old d \<longleftrightarrow>
     (\<exists>j. mine j \<and> jd_journal d = Some j) \<and> holds new (jd_pending d) \<and> rows_of ev i d = [] \<and>
     jd_active d = old"

definition recorded ::
  "event_type \<Rightarrow> string \<Rightarrow> ('j \<Rightarrow> bool) \<Rightarrow> (string \<Rightarrow> bool) \<Rightarrow> string option \<Rightarrow> int \<Rightarrow>
     ('j, 'z) journaled_scheme \<Rightarrow> bool" where
  "recorded ev i mine new old seq d \<longleftrightarrow>
     (\<exists>j. mine j \<and> jd_journal d = Some j) \<and> holds new (jd_pending d) \<and> rows_of ev i d = [seq] \<and>
     jd_active d = old"

lemma idle_promotable: "idle ev i old d \<Longrightarrow> promotable ev i mine new old d"
  by (simp add: idle_def promotable_def)

lemma prepared_promotable: "prepared ev i mine new old d \<Longrightarrow> promotable ev i mine new old d"
  by (auto simp: prepared_def promotable_def)

lemma recorded_on_track: "recorded ev i mine new old seq d \<Longrightarrow> on_track ev i mine new old True d"
  by (auto simp: recorded_def on_track_def promotable_def)

lemma recorded_promotable: "recorded ev i mine new old seq d \<Longrightarrow> promotable ev i mine new old d"
  by (auto simp: recorded_def promotable_def)

lemma write_row_records:
  assumes "w_event w = ev" and "map_of (w_extra w) ''operation_id'' = Some (JStr i)"
  shows "passes (promotable ev i mine new old) (write_row w) (prepared ev i mine new old)
    (\<lambda>seq. recorded ev i mine new old seq)"
  unfolding write_row_def
  apply (rule passes_look_bind)
  subgoal for seq
    apply (rule passes_bind [where Q = "\<lambda>_. recorded ev i mine new old seq"])
     apply (rule keeps_effect)
    using assms apply (auto simp: prepared_def recorded_def promotable_def rows_of_def) [1]
    apply (rule passes_retI)
    apply simp
    done
  done

lemma write_journal_recorded:
  assumes "mine j"
  shows "passes (promotable ev i mine new old) (write_journal j) (recorded ev i mine new old seq)
    (\<lambda>_. recorded ev i mine new old seq)"
  unfolding write_journal_def
  by (rule keeps_effect) (use assms in \<open>auto simp: recorded_def promotable_def\<close>)

end
