(* ===== verification/PolicyActivation.thy ===== *)
theory PolicyActivation
  imports Journal PolicyEngine
begin

text \<open>
  \<open>services/gateway/policy_operations.py\<close>, \<open>services/gateway/policy_versions.py\<close> and
  \<open>_activate_policy\<close> of \<open>services/gateway/main.py\<close>: the journalled promotion of a policy
  file, the record of activated versions, and recovery at startup. Files and committed
  rows are the disk of a machine (theories Crash and Journal); SHA-256 and the loader are
  parameters.
\<close>

section \<open>The disk\<close>

record policy_operation =
  po_id :: string
  po_kind :: string
  po_activated_by :: string
  po_old_version :: int
  po_new_version :: int
  po_content_hash :: string
  po_phase :: string
  po_audit_seq :: "int option"

record version_row =
  pv_content_hash :: string
  pv_activated_by :: string

record policy_disk = "policy_operation journaled" +
  pd_candidate :: "string option"
  pd_snapshots :: "(int \<times> string) list"
  pd_versions :: "(int \<times> version_row) list"

definition journal_name :: string where
  "journal_name = ''.policy-operation.json''"

definition pending_name :: string where
  "pending_name = ''.policy-operation.pending.yaml''"

section \<open>The operation journal\<close>

definition new_operation ::
  "(string \<Rightarrow> string) \<Rightarrow> string \<Rightarrow> string \<Rightarrow> string \<Rightarrow> string \<Rightarrow> int \<Rightarrow> int \<Rightarrow> policy_operation" where
  "new_operation sha256 op_id raw kind who old_version new_version =
     \<lparr>po_id = op_id, po_kind = kind, po_activated_by = who, po_old_version = old_version,
      po_new_version = new_version, po_content_hash = sha256 raw, po_phase = ''prepared'',
      po_audit_seq = None\<rparr>"

definition prepare ::
  "(string \<Rightarrow> string) \<Rightarrow> string \<Rightarrow> string \<Rightarrow> string \<Rightarrow> string \<Rightarrow> int \<Rightarrow> int \<Rightarrow>
     (policy_disk machine, policy_operation) io" where
  "prepare sha256 op_id raw kind who old_version new_version =
     bind_io read_journal (\<lambda>j.
       if j \<noteq> None then raise_io (RuntimeError ''policy operation recovery is pending'')
       else bind_io (write_pending raw) (\<lambda>_.
         let op = new_operation sha256 op_id raw kind who old_version new_version
         in bind_io (write_journal op) (\<lambda>_. ret_io op)))"

definition handed_off :: "policy_operation \<Rightarrow> int \<Rightarrow> policy_operation" where
  "handed_off op seq = op\<lparr>po_phase := ''handoff'', po_audit_seq := Some seq\<rparr>"

definition mark_handoff :: "policy_operation \<Rightarrow> int \<Rightarrow> (policy_disk machine, policy_operation) io" where
  "mark_handoff op seq = bind_io (write_journal (handed_off op seq)) (\<lambda>_. ret_io (handed_off op seq))"

definition check_pending :: "(string \<Rightarrow> string) \<Rightarrow> policy_operation \<Rightarrow> string \<Rightarrow> unit res" where
  "check_pending sha256 op raw =
     (if sha256 raw \<noteq> po_content_hash op
      then Inl (ValueError ''pending policy does not match operation journal'') else Inr ())"

definition promote :: "(string \<Rightarrow> string) \<Rightarrow> policy_operation \<Rightarrow> (policy_disk machine, unit) io" where
  "promote sha256 op = promote_pending (check_pending sha256 op) (op\<lparr>po_phase := ''promoted''\<rparr>)"

definition abort_before_handoff :: "(policy_disk machine, unit) io" where
  "abort_before_handoff = bind_io unlink_pending (\<lambda>_. unlink_journal)"

definition already_active :: "(string \<Rightarrow> string) \<Rightarrow> policy_operation \<Rightarrow> string option \<Rightarrow> bool res" where
  "already_active sha256 op active = Inr (map_option sha256 active = Some (po_content_hash op))"

definition settle_operation ::
  "(string \<Rightarrow> string) \<Rightarrow> policy_operation \<Rightarrow> int list \<Rightarrow> (policy_disk machine, unit) io" where
  "settle_operation sha256 op =
     settle (already_active sha256 op) (\<lambda>seq. promote sha256 (handed_off op seq))
       ''audited policy activation has no pending policy file''"

definition recover_operation :: "(string \<Rightarrow> string) \<Rightarrow> (policy_disk machine, unit) io" where
  "recover_operation sha256 = recovery EV_POLICY_ACTIVATED po_id (settle_operation sha256)"

text \<open>
  \<open>initialize\<close> makes the directory and sets its mode and that of the active file, which has to
  exist: \<open>chmod\<close> of a missing file raises. The directory and the modes are not part of this
  disk, so that check is what is left of it. \<open>recover\<close> ends with it on every path.
\<close>

definition initialize_policies :: "(policy_disk machine, unit) io" where
  "initialize_policies =
     bind_io (look jd_active) (\<lambda>file.
       if file = None then raise_io (OSError ''FileNotFoundError'') else ret_io ())"

definition recover :: "(string \<Rightarrow> string) \<Rightarrow> (policy_disk machine, unit) io" where
  "recover sha256 = bind_io (recover_operation sha256) (\<lambda>_. initialize_policies)"

section \<open>Version records\<close>

definition max_version :: "policy_disk \<Rightarrow> int option" where
  "max_version d =
     (if pd_versions d = [] then None else Some (Max (set (map fst (pd_versions d)))))"

definition not_greater :: "policy_engine \<Rightarrow> policy_disk \<Rightarrow> bool" where
  "not_greater e d \<longleftrightarrow> (case max_version d of None \<Rightarrow> False | Some n \<Rightarrow> engine_version e \<le> n)"

definition snapshot_conflict :: "policy_engine \<Rightarrow> policy_disk \<Rightarrow> bool" where
  "snapshot_conflict e d \<longleftrightarrow>
     (case map_of (pd_snapshots d) (engine_version e) of None \<Rightarrow> False | Some raw \<Rightarrow> raw \<noteq> e_raw e)"

definition activation_status :: "policy_engine \<Rightarrow> (policy_disk machine, int option) io" where
  "activation_status e =
     bind_io (look (\<lambda>d. map_of (pd_versions d) (engine_version e))) (\<lambda>existing.
     if existing \<noteq> None then raise_io ActivationError
     else bind_io (look (not_greater e)) (\<lambda>late.
       if late then raise_io ActivationError
       else bind_io (look (snapshot_conflict e)) (\<lambda>conflict.
         if conflict then raise_io ActivationError else look max_version)))"

text \<open>\<open>write_bytes\<close> truncates the file, then fills it: two effects.\<close>

definition write_snapshot :: "policy_engine \<Rightarrow> (policy_disk machine, unit) io" where
  "write_snapshot e =
     bind_io (look (\<lambda>d. map_of (pd_snapshots d) (engine_version e))) (\<lambda>existing. case existing of
       Some raw \<Rightarrow> if raw \<noteq> e_raw e then raise_io ActivationError else ret_io ()
     | None \<Rightarrow>
         bind_io (effect (\<lambda>d. d\<lparr>pd_snapshots := al_put (engine_version e) [] (pd_snapshots d)\<rparr>)) (\<lambda>_.
           effect (\<lambda>d. d\<lparr>pd_snapshots := al_put (engine_version e) (e_raw e) (pd_snapshots d)\<rparr>)))"

definition put_version :: "policy_engine \<Rightarrow> string \<Rightarrow> (policy_disk machine, unit) io" where
  "put_version e who =
     effect (\<lambda>d. d\<lparr>pd_versions := al_put (engine_version e)
       \<lparr>pv_content_hash = e_content_hash e, pv_activated_by = who\<rparr> (pd_versions d)\<rparr>)"

definition record_activation :: "policy_engine \<Rightarrow> string \<Rightarrow> (policy_disk machine, bool) io" where
  "record_activation e who =
     bind_io (look (\<lambda>d. map_of (pd_versions d) (engine_version e))) (\<lambda>existing. case existing of
       Some row \<Rightarrow>
         if pv_content_hash row = e_content_hash e then ret_io False else raise_io ActivationError
     | None \<Rightarrow>
         bind_io (look (not_greater e)) (\<lambda>late.
           if late then raise_io ActivationError
           else bind_io (write_snapshot e) (\<lambda>_. bind_io (put_version e who) (\<lambda>_. ret_io True))))"

definition record_rollback :: "policy_engine \<Rightarrow> string \<Rightarrow> (policy_disk machine, unit) io" where
  "record_rollback e who =
     bind_io (look (\<lambda>d. map_of (pd_versions d) (engine_version e))) (\<lambda>existing. case existing of
       None \<Rightarrow> raise_io (LookupError ''policy version was never recorded'')
     | Some row \<Rightarrow>
         if pv_content_hash row \<noteq> e_content_hash e then raise_io ActivationError else put_version e who)"

section \<open>Activation\<close>

text \<open>What the process keeps in memory; \<open>'m\<close> is the session manager's state.\<close>

record 'm gateway =
  gw_engine :: policy_engine
  gw_blocked :: bool
  gw_locked :: bool
  gw_manager :: 'm

definition activated_entry :: "policy_engine \<Rightarrow> string \<Rightarrow> string \<Rightarrow> bool \<Rightarrow> int \<Rightarrow> string \<Rightarrow> audit_entry" where
  "activated_entry e who kind rollback old_version op_id =
     \<lparr>w_event = EV_POLICY_ACTIVATED, w_identity = who, w_server = None, w_tool = None,
      w_extra =
        [(''old_version'', JInt old_version), (''new_version'', JInt (engine_version e)),
         (''content_hash'', JStr (e_content_hash e)), (''rollback'', JBool rollback),
         (''operation_id'', JStr op_id), (''source'', JStr kind), (''durable'', JBool True)],
      w_risk = None\<rparr>"

text \<open>Up to the journal of the operation; up to the handoff; and after it.\<close>

definition start_activation ::
  "(string \<Rightarrow> string) \<Rightarrow> (policy_engine \<Rightarrow> unit res) \<Rightarrow> string \<Rightarrow> policy_engine \<Rightarrow> string \<Rightarrow> string \<Rightarrow> bool \<Rightarrow>
     bool \<Rightarrow> int \<Rightarrow> (policy_disk machine, policy_operation) io" where
  "start_activation sha256 preflight op_id e who kind rollback blocked old_version =
     bind_io read_journal (\<lambda>j.
     if blocked \<or> j \<noteq> None then raise_io (RuntimeError ''policy activation recovery is pending'')
     else bind_io (of_res (preflight e)) (\<lambda>_.
       bind_io (if rollback then ret_io () else bind_io (activation_status e) (\<lambda>_. ret_io ())) (\<lambda>_.
         prepare sha256 op_id (e_raw e) kind who old_version (engine_version e))))"

definition record_and_audit ::
  "policy_engine \<Rightarrow> string \<Rightarrow> string \<Rightarrow> bool \<Rightarrow> int \<Rightarrow> policy_operation \<Rightarrow>
     (policy_disk machine, policy_operation \<times> int) io" where
  "record_and_audit e who kind rollback old_version op =
     bind_io (if rollback then record_rollback e who
              else bind_io (record_activation e who) (\<lambda>_. ret_io ())) (\<lambda>_.
     bind_io (write_row (activated_entry e who kind rollback old_version (po_id op))) (\<lambda>seq.
     bind_io (mark_handoff op seq) (\<lambda>op'. ret_io (op', seq))))"

definition set_blocked :: "('m gateway \<times> policy_disk machine, unit) io" where
  "set_blocked p = (Inr (), ((fst p)\<lparr>gw_blocked := True\<rparr>, snd p))"

definition put_in_force ::
  "('m, unit) io \<Rightarrow> policy_engine \<Rightarrow> ('m gateway \<times> policy_disk machine, unit) io" where
  "put_in_force evict e p =
     (let g = (fst p)\<lparr>gw_engine := e\<rparr>
      in case evict (gw_manager g) of (r, m) \<Rightarrow> (r, (g\<lparr>gw_manager := m\<rparr>, snd p)))"

definition complete ::
  "(string \<Rightarrow> string) \<Rightarrow> ('m, unit) io \<Rightarrow> policy_engine \<Rightarrow> policy_operation \<Rightarrow>
     ('m gateway \<times> policy_disk machine, unit) io" where
  "complete sha256 evict e op =
     bind_io (outer (promote sha256 op)) (\<lambda>_.
     bind_io (put_in_force evict e) (\<lambda>_.
     bind_io (outer finish) (\<lambda>_ p. (Inr (), ((fst p)\<lparr>gw_blocked := False\<rparr>, snd p)))))"

definition activation_body ::
  "(string \<Rightarrow> string) \<Rightarrow> (policy_engine \<Rightarrow> unit res) \<Rightarrow> ('m, unit) io \<Rightarrow> string \<Rightarrow> policy_engine \<Rightarrow> string \<Rightarrow>
     string \<Rightarrow> bool \<Rightarrow> ('m gateway \<times> policy_disk machine, int \<times> int) io" where
  "activation_body sha256 preflight evict op_id e who kind rollback p =
     (let old_version = engine_version (gw_engine (fst p))
      in bind_io
           (outer (start_activation sha256 preflight op_id e who kind rollback (gw_blocked (fst p)) old_version))
           (\<lambda>op. bind_io
             (outer (catch_io (record_and_audit e who kind rollback old_version op)
                (\<lambda>x. bind_io abort_before_handoff (\<lambda>_. raise_io x))))
             (\<lambda>(op', seq). bind_io
               (catch_io (complete sha256 evict e op') (\<lambda>x. bind_io set_blocked (\<lambda>_. raise_io x)))
               (\<lambda>_. ret_io (seq, old_version)))) p)"

definition activate_policy ::
  "(string \<Rightarrow> string) \<Rightarrow> (policy_engine \<Rightarrow> unit res) \<Rightarrow> ('m, unit) io \<Rightarrow> string \<Rightarrow> policy_engine \<Rightarrow> string \<Rightarrow>
     string \<Rightarrow> bool \<Rightarrow> ('m gateway \<times> policy_disk machine, int \<times> int) io" where
  "activate_policy sha256 preflight evict op_id e who kind rollback p =
     (if gw_locked (fst p)
      then (Inl (RuntimeError ''another policy mutation is already in progress''), p)
      else case activation_body sha256 preflight evict op_id e who kind rollback
                  ((fst p)\<lparr>gw_locked := True\<rparr>, snd p) of
             (r, (g, M)) \<Rightarrow> (r, (g\<lparr>gw_locked := False\<rparr>, M)))"

text \<open>\<open>_reload_policy\<close>, on SIGHUP: every failure keeps the active policy.\<close>

definition reload_policy ::
  "(string \<Rightarrow> string) \<Rightarrow> (string \<Rightarrow> policy_engine res) \<Rightarrow> (policy_engine \<Rightarrow> unit res) \<Rightarrow> ('m, unit) io \<Rightarrow>
     string \<Rightarrow> ('m gateway \<times> policy_disk machine, unit) io" where
  "reload_policy sha256 load preflight evict op_id =
     bind_io (outer (look pd_candidate)) (\<lambda>file. case file of
       None \<Rightarrow> ret_io ()
     | Some raw \<Rightarrow>
         catch_io
           (bind_io (of_res (load raw)) (\<lambda>e.
             if \<not> list_ex i_admin (p_identities (e_policy e))
             then raise_io (ValueError ''candidate policy must contain at least one admin identity'')
             else bind_io (activate_policy sha256 preflight evict op_id e ''operator'' ''sighup'' False) (\<lambda>_.
               outer (effect (\<lambda>d. d\<lparr>pd_candidate := None\<rparr>)))))
           (\<lambda>_. ret_io ()))"

text \<open>
  The policy part of startup: recovery, the store on the recovered file, the boot-time
  record and its row.
\<close>

definition startup_entry :: "policy_engine \<Rightarrow> audit_entry" where
  "startup_entry e =
     \<lparr>w_event = EV_POLICY_ACTIVATED, w_identity = ''startup'', w_server = None, w_tool = None,
      w_extra = [(''old_version'', JNull), (''new_version'', JInt (engine_version e)),
        (''content_hash'', JStr (e_content_hash e))], w_risk = None\<rparr>"

definition start_policy ::
  "(string \<Rightarrow> string) \<Rightarrow> (string \<Rightarrow> policy_engine res) \<Rightarrow> (policy_disk machine, policy_engine) io" where
  "start_policy sha256 load =
     bind_io (recover sha256) (\<lambda>_.
     bind_io (look jd_active) (\<lambda>active. case active of
       None \<Rightarrow> raise_io (OSError ''FileNotFoundError'')
     | Some raw \<Rightarrow>
         bind_io (of_res (load raw)) (\<lambda>e.
         bind_io (record_activation e ''startup'') (\<lambda>_.
         bind_io (write_row (startup_entry e)) (\<lambda>_. ret_io e)))))"

section \<open>Atomicity\<close>

text \<open>An operation's own journal entries, and the files with its content.\<close>

definition mine :: "string \<Rightarrow> string \<Rightarrow> policy_operation \<Rightarrow> bool" where
  "mine op_id h op \<longleftrightarrow> po_id op = op_id \<and> po_content_hash op = h"

definition hashes_to :: "(string \<Rightarrow> string) \<Rightarrow> string \<Rightarrow> string \<Rightarrow> bool" where
  "hashes_to sha256 h raw \<longleftrightarrow> sha256 raw = h"

abbreviation activation_rows :: "string \<Rightarrow> policy_disk \<Rightarrow> int list" where
  "activation_rows \<equiv> rows_of EV_POLICY_ACTIVATED"

abbreviation policy_promotable ::
  "(string \<Rightarrow> string) \<Rightarrow> string \<Rightarrow> string \<Rightarrow> string option \<Rightarrow> policy_disk \<Rightarrow> bool" where
  "policy_promotable sha256 op_id h \<equiv>
     promotable EV_POLICY_ACTIVATED op_id (mine op_id h) (hashes_to sha256 h)"

lemma holds_hash: "holds (hashes_to sha256 h) file \<longleftrightarrow> map_option sha256 file = Some h"
  by (auto simp: holds_def hashes_to_def split: option.splits)

lemma mine_updates [simp]:
  "mine op_id h (handed_off op seq) = mine op_id h op"
  "mine op_id h (op\<lparr>po_phase := p\<rparr>) = mine op_id h op"
  by (simp_all add: mine_def handed_off_def)

lemma promote_passes:
  assumes "mine op_id h op" and "b"
  shows "passes (on_track EV_POLICY_ACTIVATED op_id (mine op_id h) (hashes_to sha256 h) old b)
    (promote sha256 op) (on_track EV_POLICY_ACTIVATED op_id (mine op_id h) (hashes_to sha256 h) old b)
    (\<lambda>_. in_force EV_POLICY_ACTIVATED op_id (mine op_id h) (hashes_to sha256 h) old b)"
  unfolding promote_def using assms
  by (intro promote_on_track) (auto simp: check_pending_def hashes_to_def mine_def split: if_splits)

lemma settle_passes:
  assumes "mine op_id h op"
  shows "passes (on_track EV_POLICY_ACTIVATED op_id (mine op_id h) (hashes_to sha256 h) old b)
    (settle_operation sha256 op rows)
    (\<lambda>d. on_track EV_POLICY_ACTIVATED op_id (mine op_id h) (hashes_to sha256 h) old b d \<and> activation_rows op_id d = rows)
    (\<lambda>_ d. in_force EV_POLICY_ACTIVATED op_id (mine op_id h) (hashes_to sha256 h) old b d \<and> jd_journal d = None)"
  unfolding settle_operation_def using assms
  by (intro settle_on_track promote_passes) (simp_all add: already_active_def holds_hash mine_def [of _ _ op])

lemma operation_passes:
  "passes (on_track EV_POLICY_ACTIVATED op_id (mine op_id h) (hashes_to sha256 h) old b) (recover_operation sha256)
    (on_track EV_POLICY_ACTIVATED op_id (mine op_id h) (hashes_to sha256 h) old b)
    (\<lambda>_ d. in_force EV_POLICY_ACTIVATED op_id (mine op_id h) (hashes_to sha256 h) old b d \<and> jd_journal d = None)"
  unfolding recover_operation_def by (intro recovery_on_track settle_passes) (auto simp: mine_def)

lemma initialize_policies_app:
  "initialize_policies M = (if jd_active (mc_disk M) = None then Inl (OSError ''FileNotFoundError'') else Inr (), M)"
  by (simp add: initialize_policies_def bind_io_def)

lemma recover_passes:
  "passes (on_track EV_POLICY_ACTIVATED op_id (mine op_id h) (hashes_to sha256 h) old b) (recover sha256)
    (on_track EV_POLICY_ACTIVATED op_id (mine op_id h) (hashes_to sha256 h) old b)
    (\<lambda>_ d. in_force EV_POLICY_ACTIVATED op_id (mine op_id h) (hashes_to sha256 h) old b d \<and> jd_journal d = None)"
  using operation_passes [of op_id h sha256 old b]
  by (fastforce simp: passes_def recover_def bind_io_def initialize_policies_app split: prod.splits sum.splits)

lemma operation_returns:
  assumes "policy_promotable sha256 op_id h old d"
  shows "\<exists>r M. recover_operation sha256 (power_on d []) = (Inr r, M)"
proof (cases "jd_journal d")
  case None
  then show ?thesis by (simp add: recover_operation_def settle_simps)
next
  case (Some op)
  with assms have op: "mine op_id h op" "length (activation_rows op_id d) \<le> 1"
    by (simp_all add: promotable_def)
  show ?thesis
  proof (cases "activation_rows op_id d")
    case Nil
    with Some op show ?thesis by (simp add: recover_operation_def settle_operation_def settle_simps mine_def)
  next
    case (Cons seq ss)
    with op have "ss = []" by simp
    then show ?thesis
      using assms Some op Cons
      by (cases "jd_pending d")
        (auto simp: recover_operation_def settle_operation_def settle_simps promote_def already_active_def check_pending_def
          promotable_def holds_hash mine_def handed_off_def)
  qed
qed

lemma recover_returns:
  assumes "policy_promotable sha256 op_id h (Some raw) d"
  shows "\<exists>r M. recover sha256 (power_on d []) = (Inr r, M)"
proof -
  from operation_returns [OF assms] obtain r M where run: "recover_operation sha256 (power_on d []) = (Inr r, M)" by blast
  have "on_track EV_POLICY_ACTIVATED op_id (mine op_id h) (hashes_to sha256 h) (Some raw) (activation_rows op_id d \<noteq> [])
      (mc_disk (power_on d []))"
    using assms by (simp add: on_track_def)
  from passesD(2) [OF operation_passes this run] have "in_force EV_POLICY_ACTIVATED op_id (mine op_id h) (hashes_to sha256 h)
      (Some raw) (activation_rows op_id d \<noteq> []) (mc_disk M)" by blast
  then have "jd_active (mc_disk M) \<noteq> None"
    by (auto simp: in_force_def on_track_def promotable_def holds_def split: option.splits if_splits)
  with run show ?thesis by (auto simp: recover_def bind_io_def initialize_policies_app)
qed

interpretation policy_recovery: crash_recovery "recover sha256" "policy_promotable sha256 op_id h (Some raw)"
  "\<lambda>d. activation_rows op_id d \<noteq> []" "\<lambda>d. jd_journal d = None"
  "\<lambda>d. holds (hashes_to sha256 h) (jd_active d)" "\<lambda>d. jd_active d = Some raw"
  for sha256 op_id h raw
proof unfold_locales
  fix b
  show "passes (\<lambda>d. policy_promotable sha256 op_id h (Some raw) d \<and> (activation_rows op_id d \<noteq> []) = b) (recover sha256)
    (\<lambda>d. policy_promotable sha256 op_id h (Some raw) d \<and> (activation_rows op_id d \<noteq> []) = b)
    (\<lambda>_ d. policy_promotable sha256 op_id h (Some raw) d \<and> (activation_rows op_id d \<noteq> []) = b \<and> jd_journal d = None)"
    using recover_passes [of op_id h sha256 "Some raw" b]
    unfolding on_track_def in_force_def by (rule passes_mono) auto
next
  fix d
  assume d: "policy_promotable sha256 op_id h (Some raw) d"
  show "\<exists>r M. recover sha256 (power_on d []) = (Inr r, M)" using d by (rule recover_returns)
  assume "jd_journal d = None"
  with d show "if activation_rows op_id d \<noteq> [] then holds (hashes_to sha256 h) (jd_active d) else jd_active d = Some raw"
    by (auto simp: promotable_def)
qed

text \<open>The phases of an activation, on a disk without a journal.\<close>

lemma prepare_passes:
  "passes (policy_promotable sha256 op_id (sha256 raw) old) (prepare sha256 op_id raw kind who n n')
     (idle EV_POLICY_ACTIVATED op_id old)
     (\<lambda>op d. mine op_id (sha256 raw) op \<and>
        prepared EV_POLICY_ACTIVATED op_id (mine op_id (sha256 raw)) (hashes_to sha256 (sha256 raw)) old d)"
  unfolding prepare_def read_journal_def write_journal_def write_pending_def
  apply (rule passes_look_bind)
  apply (rule passes_if)
   apply (rule passes_raise)
  apply (rule passes_weaken [where I = "idle EV_POLICY_ACTIVATED op_id old"])
   apply (rule passes_bind [where Q = "\<lambda>_ d. idle EV_POLICY_ACTIVATED op_id old d \<and> jd_pending d = Some raw"])
    apply (rule keeps_effect)
    apply (simp add: idle_def promotable_def)
   apply (simp only: Let_def)
   apply (rule passes_bind)
    apply (rule keeps_effect [where Q =
        "prepared EV_POLICY_ACTIVATED op_id (mine op_id (sha256 raw)) (hashes_to sha256 (sha256 raw)) old"])
    apply (simp add: idle_def promotable_def prepared_def new_operation_def mine_def holds_def hashes_to_def)
   apply (rule passes_retI)
   apply (simp_all add: new_operation_def mine_def)
  done

lemma abort_is_finish: "abort_before_handoff = finish"
  by (simp add: abort_before_handoff_def finish_def)

lemma start_activation_passes:
  assumes "sha256 (e_raw e) = h"
  shows "passes (policy_promotable sha256 op_id h old)
    (start_activation sha256 preflight op_id e who kind rollback blocked n)
    (idle EV_POLICY_ACTIVATED op_id old)
    (\<lambda>op d. mine op_id h op \<and> prepared EV_POLICY_ACTIVATED op_id (mine op_id h) (hashes_to sha256 h) old d)"
proof -
  have prep: "passes (policy_promotable sha256 op_id h old) (prepare sha256 op_id (e_raw e) kind who n n')
      (idle EV_POLICY_ACTIVATED op_id old)
      (\<lambda>op d. mine op_id h op \<and> prepared EV_POLICY_ACTIVATED op_id (mine op_id h) (hashes_to sha256 h) old d)" for n'
    using prepare_passes [of op_id sha256 "e_raw e" old kind who n n'] assms by simp
  have status: "passes P (activation_status e) I (\<lambda>_. I)" for P I
    unfolding activation_status_def
    apply (rule passes_look_bind)
    apply (rule passes_if, rule passes_raise)
    apply (rule passes_look_bind)
    apply (rule passes_if, rule passes_raise)
    apply (rule passes_look_bind)
    apply (rule passes_if, rule passes_raise)
    apply (rule passes_mono [OF passes_look])
     apply simp_all
    done
  have checked: "passes P (if rollback then ret_io () else bind_io (activation_status e) (\<lambda>_. ret_io ())) I (\<lambda>_. I)"
    for P I
    by (auto intro: passes_retI passes_bind [OF status])
  show ?thesis
    unfolding start_activation_def read_journal_def
    apply (rule passes_look_bind)
    apply (rule passes_if, rule passes_raise)
    apply (rule passes_weaken [where I = "idle EV_POLICY_ACTIVATED op_id old"])
     apply (rule passes_of_res_bind)
     apply (rule passes_bind [OF checked])
     apply (rule prep)
    apply simp
    done
qed

text \<open>The version records are of no concern to the journal.\<close>

lemma recording_passes:
  assumes "\<And>d s. I d \<Longrightarrow> I (d\<lparr>pd_snapshots := s\<rparr>)" and "\<And>d v. I d \<Longrightarrow> I (d\<lparr>pd_versions := v\<rparr>)"
    and "\<And>d. I d \<Longrightarrow> P d"
  shows "passes P (if rollback then record_rollback e who else bind_io (record_activation e who) (\<lambda>_. ret_io ()))
    I (\<lambda>_. I)"
proof -
  have put: "passes P (put_version e who) I (\<lambda>_. I)"
    unfolding put_version_def by (rule keeps_effect) (use assms in \<open>blast\<close>)
  have snap: "passes P (write_snapshot e) I (\<lambda>_. I)"
    unfolding write_snapshot_def
    apply (rule passes_look_bind)
    subgoal for existing
      apply (cases existing)
       apply simp
       apply (rule passes_weaken [where I = I])
        apply (rule passes_bind [where Q = "\<lambda>_. I"])
         apply (rule keeps_effect, use assms in \<open>blast\<close>)+
       apply simp
      apply (auto intro: passes_raise passes_retI)
      done
    done
  have rolled: "passes P (record_rollback e who) I (\<lambda>_. I)"
    unfolding record_rollback_def
    by (rule passes_look_bind) (auto split: option.splits intro: passes_raise passes_weaken [OF put])
  have forth: "passes P (record_activation e who) I (\<lambda>_. I)"
    unfolding record_activation_def
    apply (rule passes_look_bind)
    subgoal for existing
      apply (cases existing)
       apply simp
       apply (rule passes_look_bind)
       apply (rule passes_if, rule passes_raise)
       apply (rule passes_weaken [where I = I])
        apply (rule passes_bind [OF snap])
        apply (rule passes_bind [OF put])
        apply (rule passes_retI)
        apply simp_all
      apply (auto intro: passes_raise passes_retI)
      done
    done
  show ?thesis
    by (auto intro: rolled passes_bind [OF forth] passes_retI)
qed

lemma record_and_audit_passes:
  assumes "mine op_id h op"
  shows "passes (policy_promotable sha256 op_id h old) (record_and_audit e who kind rollback n op)
     (prepared EV_POLICY_ACTIVATED op_id (mine op_id h) (hashes_to sha256 h) old)
     (\<lambda>x d. mine op_id h (fst x) \<and> recorded EV_POLICY_ACTIVATED op_id (mine op_id h) (hashes_to sha256 h) old (snd x) d)"
proof -
  let ?P = "policy_promotable sha256 op_id h old"
  let ?prep = "prepared EV_POLICY_ACTIVATED op_id (mine op_id h) (hashes_to sha256 h) old"
  let ?rec = "recorded EV_POLICY_ACTIVATED op_id (mine op_id h) (hashes_to sha256 h) old"
  have row: "passes ?P (write_row (activated_entry e who kind rollback n (po_id op))) ?prep ?rec"
    using assms by (intro write_row_records) (simp_all add: activated_entry_def mine_def)
  have handoff: "passes ?P (mark_handoff op seq) (?rec seq) (\<lambda>op' d. mine op_id h op' \<and> ?rec seq d)" for seq
    unfolding mark_handoff_def
    by (rule passes_bind [OF write_journal_recorded]) (use assms in \<open>auto intro: passes_retI\<close>)
  have rec: "passes ?P
      (if rollback then record_rollback e who else bind_io (record_activation e who) (\<lambda>_. ret_io ()))
      ?prep (\<lambda>_. ?prep)"
    by (rule recording_passes) (auto simp: prepared_def promotable_def rows_of_def)
  show ?thesis
    unfolding record_and_audit_def
    apply (rule passes_bind [OF rec])
    apply (rule passes_bind [OF row])
    apply (rule passes_bind [OF handoff])
    apply (rule passes_retI)
    apply simp
    done
qed

lemma complete_passes:
  assumes "complete sha256 evict e op (g, M) = (r, (g', M'))"
    and "mine op_id h op"
    and "recorded EV_POLICY_ACTIVATED op_id (mine op_id h) (hashes_to sha256 h) old seq (mc_disk M)"
  shows "passed M M' (on_track EV_POLICY_ACTIVATED op_id (mine op_id h) (hashes_to sha256 h) old True)"
    and "r = Inr u \<Longrightarrow> gw_engine g' = e \<and> \<not> gw_blocked g' \<and> jd_journal (mc_disk M') = None \<and>
      in_force EV_POLICY_ACTIVATED op_id (mine op_id h) (hashes_to sha256 h) old True (mc_disk M')"
proof -
  let ?T = "on_track EV_POLICY_ACTIVATED op_id (mine op_id h) (hashes_to sha256 h) old True"
  let ?F = "in_force EV_POLICY_ACTIVATED op_id (mine op_id h) (hashes_to sha256 h) old True"
  have T: "?T (mc_disk M)" using assms(3) by (rule recorded_on_track)
  obtain r1 M1 where m1: "promote sha256 op M = (r1, M1)" by force
  note one = passesD [OF promote_passes [OF assms(2) TrueI] T m1]
  obtain r2 M2 where m2: "finish M1 = (r2, M2)" by force
  note two = passesD [OF finish_in_force [of EV_POLICY_ACTIVATED op_id "mine op_id h" "hashes_to sha256 h" old True] _ m2]
  consider (first) e1 where "r1 = Inl e1" "M' = M1" "r = Inl e1"
    | (evicting) x e2 where "r1 = Inr x" "M' = M1" "r = Inl e2"
    | (both) x where "r1 = Inr x" "M' = M2" "r = map_sum id (\<lambda>_. ()) r2"
      "r2 = Inr () \<longrightarrow> gw_engine g' = e \<and> \<not> gw_blocked g'"
    using assms(1) m1 m2 unfolding complete_def
    by (cases r1; cases r2)
      (auto simp: bind_io_def outer_def put_in_force_def Let_def split: prod.splits sum.splits)
  then have "passed M M' ?T \<and> (r = Inr u \<longrightarrow> gw_engine g' = e \<and> \<not> gw_blocked g' \<and>
      jd_journal (mc_disk M') = None \<and> ?F (mc_disk M'))"
  proof cases
    case (both x)
    have "?F (mc_disk M1)" using one(2) both(1) by simp
    note two = two [OF this]
    have "passed M M' ?T" using passed_trans [OF one(1) two(1)] both(2) by simp
    then show ?thesis using two(2) both by (cases r2) auto
  qed (use one in \<open>simp_all\<close>)
  then show "passed M M' ?T" and "r = Inr u \<Longrightarrow> gw_engine g' = e \<and> \<not> gw_blocked g' \<and>
      jd_journal (mc_disk M') = None \<and> ?F (mc_disk M')"
    by blast+
qed

text \<open>The whole activation: what it passed through, and what its outcome says.\<close>

lemma activation_body_cases:
  assumes run: "activation_body sha256 preflight evict op_id e who kind rollback (g, M) = (r, (g', M'))"
    and idle: "idle EV_POLICY_ACTIVATED op_id old (mc_disk M)" and h: "sha256 (e_raw e) = h"
  shows "(passed M M' (policy_promotable sha256 op_id h old) \<or>
      (\<exists>x. r = Inl x) \<and> gw_blocked g' = gw_blocked g \<and> activation_rows op_id (mc_disk M') \<noteq> []) \<and>
    (\<forall>z. r = Inr z \<longrightarrow> gw_engine g' = e \<and> \<not> gw_blocked g' \<and> jd_journal (mc_disk M') = None \<and>
      in_force EV_POLICY_ACTIVATED op_id (mine op_id h) (hashes_to sha256 h) old True (mc_disk M'))"
    (is "(passed M M' ?P \<or> ?lost) \<and> ?ok")
proof -
  let ?n = "engine_version (gw_engine g)"
  obtain r1 M1 where m1: "start_activation sha256 preflight op_id e who kind rollback (gw_blocked g) ?n M = (r1, M1)"
    by force
  note one = passesD [OF start_activation_passes [of sha256 e h, OF h] idle m1]
  show ?thesis
  proof (cases r1)
    case (Inl x)
    then show ?thesis using run m1 one by (auto simp: activation_body_def Let_def bind_io_def outer_def)
  next
    case (Inr op)
    have mine: "mine op_id h op"
      and prep: "prepared EV_POLICY_ACTIVATED op_id (mine op_id h) (hashes_to sha256 h) old (mc_disk M1)"
      using one(2) [OF Inr] by simp_all
    obtain r2 M2 where m2: "record_and_audit e who kind rollback ?n op M1 = (r2, M2)" by force
    note two = passesD [OF record_and_audit_passes [OF mine] prep m2]
    have so_far: "passed M M2 ?P" by (rule passed_trans [OF one(1) two(1)])
    show ?thesis
    proof (cases r2)
      case Inl2: (Inl x)
      obtain ra Ma where ma: "finish M2 = (ra, Ma)" by force
      have "?P (mc_disk M2)"
        using two(1) prepared_promotable [OF prep] by (auto simp: passed_def)
      note aborted = abort_passed [OF ma this]
      have "\<exists>y. r = Inl y" "g' = g" "M' = Ma"
        using run m1 Inr m2 Inl2 ma
        by (auto simp: activation_body_def Let_def bind_io_def outer_def catch_io_def abort_is_finish
            split: sum.splits prod.splits)
      then show ?thesis using aborted so_far by (auto split: if_splits intro: passed_trans)
    next
      case Inr2: (Inr x)
      obtain op' seq where x: "x = (op', seq)" by force
      obtain r3 g3 M3 where m3: "complete sha256 evict e op' (g, M2) = (r3, (g3, M3))" by (metis prod.collapse)
      have "mine op_id h op'"
        and "recorded EV_POLICY_ACTIVATED op_id (mine op_id h) (hashes_to sha256 h) old seq (mc_disk M2)"
        using two(2) Inr2 x by simp_all
      note three = complete_passes [OF m3 this]
      have M': "M' = M3" and ok: "r = Inr z \<Longrightarrow> r3 = Inr () \<and> g' = g3" for z
        using run m1 Inr m2 Inr2 x m3
        by (auto simp: activation_body_def Let_def bind_io_def outer_def catch_io_def set_blocked_def
            split: sum.splits prod.splits)
      have "passed M M' ?P"
        unfolding M' by (rule passed_trans [OF so_far passed_mono [OF three(1)]]) (simp add: on_track_def)
      then show ?thesis using three(2) ok M' by auto
    qed
  qed
qed

text \<open>
  C7: An activation is atomic under crashes. Whatever its file and database effects do and
  wherever the process dies, and however often the recovery itself is cut short, a
  recovery that runs to its end leaves no journal and the policy file the audit log speaks
  for: the candidate's if the log has the row of this activation, the file that was active
  before if not. The one other outcome is a lost activation: it raised, without blocking the
  gateway, after its row was written (\<open>lost_activation\<close> is such a run).
\<close>

theorem activation_is_atomic:
  assumes "jd_journal d = None" and "activation_rows op_id d = []" and "jd_active d = Some raw"
    and "e_content_hash e = sha256 (e_raw e)"
    and "activate_policy sha256 preflight evict op_id e who kind rollback (g, power_on d fs) = (r, (g', M))"
    and "x \<in> disks M" and "cut_short (recover sha256) x y"
  shows "(\<exists>M'. recover sha256 (power_on y []) = (Inr (), M') \<and> jd_journal (mc_disk M') = None \<and>
      (if activation_rows op_id x = [] then jd_active (mc_disk M') = Some raw
       else map_option sha256 (jd_active (mc_disk M')) = Some (e_content_hash e))) \<or>
    (\<exists>z. r = Inl z) \<and> \<not> gw_blocked g' \<and> activation_rows op_id (mc_disk M) \<noteq> []"
proof (cases "(\<exists>z. r = Inr z) \<or> gw_blocked g' \<or> activation_rows op_id (mc_disk M) = []")
  case False
  then show ?thesis by (cases r) auto
next
  case settled: True
  show ?thesis
proof -
    let ?P = "policy_promotable sha256 op_id (sha256 (e_raw e)) (Some raw)"
    have idle: "idle EV_POLICY_ACTIVATED op_id (Some raw) (mc_disk (power_on d fs))" using assms(1,2,3) by (simp add: idle_def)
    then have first: "?P d" by (simp add: idle_promotable)
    have "passed (power_on d fs) M ?P"
    proof (cases "gw_locked g")
      case True
      then show ?thesis using assms(5) by (simp add: activate_policy_def)
    next
      case False
      then obtain g1 where body: "activation_body sha256 preflight evict op_id e who kind rollback
          (g\<lparr>gw_locked := True\<rparr>, power_on d fs) = (r, (g1, M))" and "gw_blocked g1 = gw_blocked g'"
        using assms(5) by (auto simp: activate_policy_def split: prod.splits)
      moreover have "passed (power_on d fs) M ?P" if "gw_blocked g"
        using body that
        by (auto simp: activation_body_def start_activation_def read_journal_def Let_def bind_io_def outer_def)
      ultimately show ?thesis
        using activation_body_cases [OF body idle refl] settled by auto
    qed
    then have "?P x"
      using first assms(6) passed_throughout [of ?P "power_on d fs" M] by (auto simp: throughout_def disks_def)
    from policy_recovery.recovers [OF this assms(7)] show ?thesis
      using assms(4) by (auto simp: holds_hash)
  qed
qed

text \<open>What an activation that returned means, besides.\<close>

lemma activation_status_Inr:
  assumes "activation_status e M = (Inr z, M')"
  shows "M' = M" and "v \<in> set (map fst (pd_versions (mc_disk M))) \<Longrightarrow> v < engine_version e"
proof -
  have late: "\<not> not_greater e (mc_disk M)" and "M' = M"
    using assms by (auto simp: activation_status_def bind_io_def split: if_splits)
  then show "M' = M" by simp
  assume "v \<in> set (map fst (pd_versions (mc_disk M)))"
  then have "v \<le> Max (set (map fst (pd_versions (mc_disk M))))" and "pd_versions (mc_disk M) \<noteq> []"
    by (auto intro: Max_ge)
  with late show "v < engine_version e" by (simp add: not_greater_def max_version_def)
qed

lemma prepare_versions:
  "prepare sha256 op_id raw kind who n n' M = (Inr op, M') \<Longrightarrow>
     pd_versions (mc_disk M') = pd_versions (mc_disk M)"
  by (auto simp: prepare_def read_journal_def write_journal_def Let_def split: if_splits
      elim!: bind_io_InrE dest!: effect_Inr simp: write_pending_def)

lemma record_and_audit_rollback:
  assumes "record_and_audit e who kind True n op M = (Inr x, M')"
  shows "\<exists>row. map_of (pd_versions (mc_disk M)) (engine_version e) = Some row \<and>
    pv_content_hash row = e_content_hash e"
  using assms
  by (auto simp: record_and_audit_def record_rollback_def split: option.splits if_splits elim!: bind_io_InrE)

text \<open>
  An activation that returns put the candidate in force: its engine is the gateway's,
  the active file has its hash, no journal is left and the gateway is not blocked. A
  forward activation is newer than every version recorded before; a rollback is to a
  version that was recorded with the same content hash.
\<close>

theorem activation_puts_in_force:
  assumes "activate_policy sha256 preflight evict op_id e who kind rollback (g, power_on d fs) = (Inr z, (g', M))"
    and "activation_rows op_id d = []" and "e_content_hash e = sha256 (e_raw e)"
  shows "gw_engine g' = e \<and> \<not> gw_blocked g' \<and> jd_journal (mc_disk M) = None \<and>
    map_option sha256 (jd_active (mc_disk M)) = Some (e_content_hash e) \<and>
    length (activation_rows op_id (mc_disk M)) = 1 \<and>
    (if rollback
     then map_option pv_content_hash (map_of (pd_versions d) (engine_version e)) = Some (e_content_hash e)
     else \<forall>v \<in> fst ` set (pd_versions d). v < engine_version e)"
proof -
  obtain g1 where body: "activation_body sha256 preflight evict op_id e who kind rollback
      (g\<lparr>gw_locked := True\<rparr>, power_on d fs) = (Inr z, (g1, M))"
    and g1: "gw_engine g' = gw_engine g1" "gw_blocked g' = gw_blocked g1"
    using assms(1) by (auto simp: activate_policy_def split: prod.splits if_splits)
  let ?n = "engine_version (gw_engine g)"
  obtain op M1 x M2 where start: "start_activation sha256 preflight op_id e who kind rollback (gw_blocked g) ?n
      (power_on d fs) = (Inr op, M1)"
    and recorded: "record_and_audit e who kind rollback ?n op M1 = (Inr x, M2)"
    using body
    by (auto simp: activation_body_def Let_def outer_def catch_io_def bind_io_def
        split: sum.splits prod.splits)
  obtain M0 where journal: "jd_journal d = None"
    and checked: "rollback \<and> M0 = power_on d fs \<or>
      \<not> rollback \<and> (\<exists>a. activation_status e (power_on d fs) = (Inr a, M0))"
    and prep: "prepare sha256 op_id (e_raw e) kind who ?n (engine_version e) M0 = (Inr op, M1)"
    using start by (auto simp: start_activation_def read_journal_def split: if_splits elim!: bind_io_InrE)
  have M0: "M0 = power_on d fs"
    using checked activation_status_Inr(1) by blast
  then have versions: "pd_versions (mc_disk M1) = pd_versions d" using prepare_versions [OF prep] by simp
  have "idle EV_POLICY_ACTIVATED op_id (jd_active d) (mc_disk (power_on d fs))"
    using journal assms(2) by (simp add: idle_def)
  from activation_body_cases [OF body this refl] have force:
    "gw_engine g1 = e" "\<not> gw_blocked g1" "jd_journal (mc_disk M) = None"
    "in_force EV_POLICY_ACTIVATED op_id (mine op_id (sha256 (e_raw e))) (hashes_to sha256 (sha256 (e_raw e))) (jd_active d) True (mc_disk M)"
    by auto
  moreover have "length (activation_rows op_id (mc_disk M)) = 1"
    using force(4) by (cases "activation_rows op_id (mc_disk M)") (auto simp: in_force_def on_track_def promotable_def)
  moreover have "map_option pv_content_hash (map_of (pd_versions d) (engine_version e)) = Some (e_content_hash e)"
    if "rollback"
    using record_and_audit_rollback [of e who kind ?n op M1 x M2] recorded that versions by auto
  moreover have "\<forall>v \<in> fst ` set (pd_versions d). v < engine_version e" if "\<not> rollback"
    using checked that activation_status_Inr(2) [of e "power_on d fs"] by auto
  ultimately show ?thesis using g1 assms(3) by (simp add: in_force_def holds_hash)
qed

section \<open>Runs\<close>

definition first_disk :: "string \<Rightarrow> policy_disk" where
  "first_disk raw =
     \<lparr>jd_active = Some raw, jd_pending = None, jd_journal = None, jd_log = [], jd_next_seq = 1,
      pd_candidate = None, pd_snapshots = [], pd_versions = []\<rparr>"

definition new_engine :: policy_engine where
  "new_engine = sample_engine\<lparr>e_content_hash := ''new'', e_raw := ''new''\<rparr>"

definition quiet_gateway :: "unit gateway" where
  "quiet_gateway =
     \<lparr>gw_engine = sample_engine, gw_blocked = False, gw_locked = False, gw_manager = ()\<rparr>"

abbreviation try_activation :: "fault list \<Rightarrow> (int \<times> int) res \<times> (unit gateway \<times> policy_disk machine)" where
  "try_activation fs \<equiv>
     activate_policy id (\<lambda>_. Inr ()) (ret_io ()) ''op'' new_engine ''ann'' ''api'' False
       (quiet_gateway, power_on (first_disk ''old'') fs)"

lemmas activation_eval = activate_policy_def activation_body_def start_activation_def
  activation_status_def record_and_audit_def record_activation_def write_snapshot_def put_version_def
  write_row_def write_pending_def mark_handoff_def complete_def put_in_force_def set_blocked_def prepare_def
  new_operation_def not_greater_def max_version_def snapshot_conflict_def
  recover_def recover_operation_def initialize_policies_def settle_operation_def promote_def check_pending_def already_active_def
  settle_simps abort_before_handoff_def catch_io_def outer_def Let_def effect_def first_disk_def quiet_gateway_def
  new_engine_def power_on_def rows_of_def activated_entry_def handed_off_def

lemma healthy_activation:
  "\<exists>M. try_activation [] = (Inr (1, 1), (quiet_gateway\<lparr>gw_engine := new_engine\<rparr>, M)) \<and>
     activation_rows ''op'' (mc_disk M) = [1]"
  by (simp add: activation_eval sample_engine_def sample_policy_def engine_version_def)

lemma activation_is_atomic_witness:
  "\<exists>M M'. try_activation [] = (Inr (1, 1), (quiet_gateway\<lparr>gw_engine := new_engine\<rparr>, M)) \<and>
     recover id (power_on (mc_disk M) []) = (Inr (), M') \<and> jd_active (mc_disk M') = Some ''new''"
proof -
  obtain M where run: "try_activation [] = (Inr (1, 1), (quiet_gateway\<lparr>gw_engine := new_engine\<rparr>, M))"
    and rows: "activation_rows ''op'' (mc_disk M) = [1]"
    using healthy_activation by blast
  have start: "jd_journal (first_disk ''old'') = None" "activation_rows ''op'' (first_disk ''old'') = []"
    "jd_active (first_disk ''old'') = Some ''old''" "e_content_hash new_engine = id (e_raw new_engine)"
    by (simp_all add: first_disk_def rows_of_def new_engine_def)
  have here: "mc_disk M \<in> disks M" by (simp add: disks_def)
  from activation_is_atomic [OF start run here cut_short.never] rows run show ?thesis
    by (auto simp: new_engine_def)
qed

lemma activation_puts_in_force_witness:
  "\<exists>M. try_activation [] = (Inr (1, 1), (quiet_gateway\<lparr>gw_engine := new_engine\<rparr>, M)) \<and>
     jd_active (mc_disk M) = Some ''new'' \<and> jd_journal (mc_disk M) = None"
proof -
  obtain M where run: "try_activation [] = (Inr (1, 1), (quiet_gateway\<lparr>gw_engine := new_engine\<rparr>, M))"
    using healthy_activation by blast
  have "activation_rows ''op'' (first_disk ''old'') = []" "e_content_hash new_engine = id (e_raw new_engine)"
    by (simp_all add: first_disk_def rows_of_def new_engine_def)
  from activation_puts_in_force [OF run this] run show ?thesis by (auto simp: new_engine_def)
qed

text \<open>
  An activation can be lost. When the journal's handoff cannot be written after the row
  of the activation was, the handler takes the operation for one that was not recorded:
  it deletes the pending file and the journal. The log then says that the new version is
  active, the old one is, the gateway is not blocked, and no recovery changes it.
\<close>

theorem lost_activation:
  "\<exists>M. try_activation (replicate 6 Healthy @ [FailsBefore]) = (Inl (OSError []), (quiet_gateway, M)) \<and>
     activation_rows ''op'' (mc_disk M) = [1] \<and> jd_active (mc_disk M) = Some ''old'' \<and>
     recover id (power_on (mc_disk M) []) = (Inr (), power_on (mc_disk M) [])"
  by (simp add: activation_eval sample_engine_def sample_policy_def engine_version_def numeral_eq_Suc)

text \<open>
  A revision snapshot is not written atomically: a crash between the truncation and
  the content leaves an empty file that no later activation of this version, forward or
  at startup, gets past, and that a rollback cannot use because nothing was recorded.
\<close>

theorem torn_snapshot_blocks_version:
  assumes "x \<in> disks (snd (write_snapshot e (power_on d [])))" and "map_of (pd_snapshots d) (engine_version e) = None"
    and "map_of (pd_versions d) (engine_version e) = None" and "e_raw e \<noteq> []"
    and "map_of (pd_snapshots x) (engine_version e) = Some []"
  shows "fst (activation_status e (power_on x fs)) = Inl ActivationError \<and>
    fst (record_activation e who (power_on x fs)) = Inl ActivationError \<and>
    (\<exists>why. fst (record_rollback e who (power_on x fs)) = Inl (LookupError why))"
proof -
  have "pd_versions x = pd_versions d"
    using assms(1,2) by (auto simp: write_snapshot_def bind_io_def effect_def Let_def power_on_def disks_def)
  then show ?thesis
    using assms
    by (simp add: activation_status_def record_activation_def record_rollback_def write_snapshot_def bind_io_def
        snapshot_conflict_def)
qed

lemma torn_snapshot_blocks_version_witness:
  "(let x = (first_disk ''old'')\<lparr>pd_snapshots := [(1, [])]\<rparr>
    in fst (activation_status new_engine (power_on x [])) = Inl ActivationError)"
proof -
  let ?x = "(first_disk ''old'')\<lparr>pd_snapshots := [(1, [])]\<rparr>"
  have "?x \<in> disks (snd (write_snapshot new_engine (power_on (first_disk ''old'') [])))"
    by (simp add: write_snapshot_def bind_io_def effect_def disks_def power_on_def first_disk_def new_engine_def
        sample_engine_def sample_policy_def engine_version_def)
  from torn_snapshot_blocks_version [OF this, of "[]"] show ?thesis
    by (simp add: first_disk_def new_engine_def sample_engine_def sample_policy_def engine_version_def)
qed

end
