(* ===== verification/PolicySimulator.thy ===== *)
theory PolicySimulator
  imports PyDate PolicyActivation Explainer
begin

text \<open>
  \<open>services/gateway/policy_simulator.py\<close>: the replay of recorded decisions against candidate
  policies. The recorded revisions are the disk of PolicyActivation, the dry run is
  \<open>explain_call\<close>. The character that marks a shortened reason (U+2026) is an argument, for
  the strings of the model have code points below 256.
\<close>

section \<open>The replay window\<close>

definition row_cap :: nat where
  "row_cap = 10000"

definition sample_cap :: nat where
  "sample_cap = 10"

definition reason_snippet_len :: nat where
  "reason_snippet_len = 160"

text \<open>\<open>s.split("..")\<close>.\<close>

fun split_dots :: "string \<Rightarrow> string list" where
  "split_dots [] = [[]]"
| "split_dots [c] = [[c]]"
| "split_dots (c # d # cs) =
     (if c = CHR ''.'' \<and> d = CHR ''.'' then [] # split_dots cs
      else case split_dots (d # cs) of part # parts \<Rightarrow> (c # part) # parts | [] \<Rightarrow> [])"

definition window_dates :: "string \<Rightarrow> (date \<times> date) option" where
  "window_dates window =
     (case split_dots window of
        [start_s, end_s] \<Rightarrow>
          (if length start_s \<noteq> 10 \<or> length end_s \<noteq> 10 then None
           else case strptime_date start_s of
                  None \<Rightarrow> None
                | Some a \<Rightarrow> (case strptime_date end_s of None \<Rightarrow> None | Some b \<Rightarrow> Some (a, b)))
      | _ \<Rightarrow> None)"

text \<open>The start and the exclusive end, in seconds since the epoch.\<close>

definition parse_window :: "string \<Rightarrow> string \<Rightarrow> (int \<times> int) res" where
  "parse_window label window =
     (case window_dates window of
        None \<Rightarrow>
          Inl (ValueError (label @ '' must be '' @ [CHR 0x27] @ ''YYYY-MM-DD..YYYY-MM-DD'' @ [CHR 0x27] @
            '', got '' @ py_repr window))
      | Some (a, b) \<Rightarrow>
          if date_less b a
          then Inl (ValueError (label @ '' start '' @ take 10 window @ '' is after its end '' @ drop 12 window))
          else bind_res (next_day (ordinal b)) (\<lambda>n. Inr (midnight (ordinal a), midnight n)))"

section \<open>Recorded revisions and rows\<close>

definition load_version :: "(string \<Rightarrow> policy_engine res) \<Rightarrow> policy_disk \<Rightarrow> int \<Rightarrow> policy_engine res" where
  "load_version load d version =
     (case map_of (pd_versions d) version of
        None \<Rightarrow> Inl (LookupError (''policy version '' @ int_str version @ '' was never recorded''))
      | Some row \<Rightarrow>
          (case map_of (pd_snapshots d) version of
             None \<Rightarrow> Inl (LookupError (''no revision snapshot for policy version '' @ int_str version))
           | Some raw \<Rightarrow>
               bind_res (load raw) (\<lambda>e.
                 if e_content_hash e \<noteq> pv_content_hash row then Inl ActivationError else Inr e)))"

definition replayable :: "event_type \<Rightarrow> bool" where
  "replayable e \<longleftrightarrow> event_outcome e \<noteq> None \<and> e \<noteq> EV_APPROVED"

definition replayable_events :: "event_type list" where
  "replayable_events = filter replayable all_events"

definition row_arguments :: "audit_row \<Rightarrow> jdict option" where
  "row_arguments r = (case dget (a_payload r) ''arguments'' of JObj d \<Rightarrow> Some d | _ \<Rightarrow> None)"

definition in_window :: "int \<Rightarrow> int \<Rightarrow> audit_row \<Rightarrow> bool" where
  "in_window start stop r \<longleftrightarrow>
     a_event_type r \<in> set (map event_value replayable_events) \<and> a_tool_name r \<noteq> None \<and>
     of_int start \<le> a_timestamp r \<and> a_timestamp r < of_int stop"

definition replay_rows :: "int \<Rightarrow> int \<Rightarrow> audit_row list \<Rightarrow> audit_row list" where
  "replay_rows start stop rows =
     filter (\<lambda>r. row_arguments r \<noteq> None)
       (take row_cap (sort_key a_seq (filter (in_window start stop) rows)))"

definition historical_bucket :: "audit_row \<Rightarrow> decision_outcome res" where
  "historical_bucket r =
     (case event_of_value (a_event_type r) of
        None \<Rightarrow> Inl (ValueError (a_event_type r))
      | Some e \<Rightarrow> (case event_outcome e of None \<Rightarrow> Inl KeyError | Some b \<Rightarrow> Inr b))"

section \<open>Summaries\<close>

record sample_diff =
  sd_audit_seq :: int
  sd_identity :: string
  sd_tool :: string
  sd_before :: string
  sd_after :: string
  sd_reason :: string

record historical_simulation =
  hs_total :: nat
  hs_would_deny :: nat
  hs_would_require_approval :: nat
  hs_newly_allowed :: nat
  hs_unchanged :: nat
  hs_diffs :: "sample_diff list"

record compare_simulation =
  cs_total :: nat
  cs_versions :: "int list"
  cs_new_denials :: nat
  cs_new_approvals :: nat
  cs_changed_scores :: nat
  cs_changed_explanations :: nat
  cs_diffs :: "sample_diff list"

definition snippet :: "string \<Rightarrow> string \<Rightarrow> string" where
  "snippet ellipsis why =
     (if length why \<le> reason_snippet_len then why else take (reason_snippet_len - 1) why @ ellipsis)"

definition decision_label :: "decision \<Rightarrow> string" where
  "decision_label d =
     (case d_risk_score d of
        None \<Rightarrow> outcome_value (d_decision d)
      | Some n \<Rightarrow> outcome_value (d_decision d) @ '' (risk '' @ int_str n @ '')'')"

definition or_empty :: "string option \<Rightarrow> string" where
  "or_empty s = (case s of None \<Rightarrow> [] | Some t \<Rightarrow> t)"

definition add_sample :: "sample_diff \<Rightarrow> sample_diff list \<Rightarrow> sample_diff list" where
  "add_sample d ds = (if length ds < sample_cap then ds @ [d] else ds)"

definition historical_step ::
  "string \<Rightarrow> audit_row \<Rightarrow> decision \<Rightarrow> decision_outcome \<Rightarrow> historical_simulation \<Rightarrow> historical_simulation" where
  "historical_step ellipsis r after before s =
     (let bucket = d_decision after
      in if before = bucket then s\<lparr>hs_unchanged := hs_unchanged s + 1\<rparr>
         else s\<lparr>hs_would_deny := hs_would_deny s + (if before = O_ALLOW \<and> bucket = O_DENY then 1 else 0),
                hs_would_require_approval :=
                  hs_would_require_approval s + (if bucket = O_HUMAN_APPROVAL_REQUIRED then 1 else 0),
                hs_newly_allowed :=
                  hs_newly_allowed s +
                    (if (before = O_DENY \<or> before = O_CHALLENGE) \<and> bucket = O_ALLOW then 1 else 0),
                hs_diffs := add_sample
                  \<lparr>sd_audit_seq = a_seq r, sd_identity = a_identity_id r, sd_tool = or_empty (a_tool_name r),
                   sd_before = outcome_value before, sd_after = outcome_value bucket,
                   sd_reason = snippet ellipsis (d_reason after)\<rparr> (hs_diffs s)\<rparr>)"

fun historical_loop ::
  "string \<Rightarrow> (audit_row \<times> decision) list \<Rightarrow> historical_simulation \<Rightarrow> historical_simulation res" where
  "historical_loop ellipsis [] s = Inr s"
| "historical_loop ellipsis ((r, after) # pairs) s =
     bind_res (historical_bucket r) (\<lambda>before.
       historical_loop ellipsis pairs (historical_step ellipsis r after before s))"

definition summarize_historical :: "string \<Rightarrow> (audit_row \<times> decision) list \<Rightarrow> historical_simulation res" where
  "summarize_historical ellipsis pairs =
     historical_loop ellipsis pairs
       \<lparr>hs_total = length pairs, hs_would_deny = 0, hs_would_require_approval = 0, hs_newly_allowed = 0,
        hs_unchanged = 0, hs_diffs = []\<rparr>"

definition same_explanation :: "decision \<Rightarrow> decision \<Rightarrow> bool" where
  "same_explanation old new \<longleftrightarrow> d_decision old = d_decision new \<and> d_reason old = d_reason new"

definition compare_step ::
  "string \<Rightarrow> audit_row \<times> decision \<times> decision \<Rightarrow> compare_simulation \<Rightarrow> compare_simulation" where
  "compare_step ellipsis t s =
     (case t of (r, old, new) \<Rightarrow>
       let s = s\<lparr>cs_new_denials := cs_new_denials s +
                   (if (d_decision old = O_ALLOW \<or> d_decision old = O_CHALLENGE) \<and> d_decision new = O_DENY
                    then 1 else 0),
                 cs_new_approvals := cs_new_approvals s +
                   (if d_decision new = O_HUMAN_APPROVAL_REQUIRED \<and> d_decision old \<noteq> O_HUMAN_APPROVAL_REQUIRED
                    then 1 else 0),
                 cs_changed_scores := cs_changed_scores s + (if d_risk_score old \<noteq> d_risk_score new then 1 else 0)\<rparr>
       in if same_explanation old new then s
          else s\<lparr>cs_changed_explanations := cs_changed_explanations s + 1,
                 cs_diffs := add_sample
                   \<lparr>sd_audit_seq = a_seq r, sd_identity = a_identity_id r, sd_tool = or_empty (a_tool_name r),
                    sd_before = decision_label old, sd_after = decision_label new,
                    sd_reason = snippet ellipsis (d_reason new)\<rparr> (cs_diffs s)\<rparr>)"

definition summarize_compare ::
  "string \<Rightarrow> (audit_row \<times> decision \<times> decision) list \<Rightarrow> int list \<Rightarrow> compare_simulation" where
  "summarize_compare ellipsis triples versions =
     fold (compare_step ellipsis) triples
       \<lparr>cs_total = length triples, cs_versions = versions, cs_new_denials = 0, cs_new_approvals = 0,
        cs_changed_scores = 0, cs_changed_explanations = 0, cs_diffs = []\<rparr>"

section \<open>Simulations\<close>

definition replaying :: "'w explainer \<Rightarrow> policy_engine \<Rightarrow> 'w explainer" where
  "replaying X e = X\<lparr>xp_engine := e, xp_mode := ENFORCE, xp_validate_params := False\<rparr>"

definition simulate_row :: "'w explainer \<Rightarrow> policy_engine \<Rightarrow> audit_row \<Rightarrow> ('w, decision) io" where
  "simulate_row X e r =
     (case row_arguments r of
        None \<Rightarrow> raise_io KeyError
      | Some arguments \<Rightarrow>
          explain_call (replaying X e)
            \<lparr>hy_identity = a_identity_id r, hy_tool = or_empty (a_tool_name r),
             hy_server = or_empty (a_server_id r), hy_arguments = arguments,
             hy_context = [(''timestamp'', JFloat (FinF (a_timestamp r)))]\<rparr>)"

fun map_io :: "('a \<Rightarrow> ('w, 'b) io) \<Rightarrow> 'a list \<Rightarrow> ('w, 'b list) io" where
  "map_io f [] = ret_io []"
| "map_io f (x # xs) = bind_io (f x) (\<lambda>y. bind_io (map_io f xs) (\<lambda>ys. ret_io (y # ys)))"

definition item_at :: "'a list \<Rightarrow> nat \<Rightarrow> 'a res" where
  "item_at xs n = (if n < length xs then Inr (xs ! n) else Inl IndexError)"

definition replay_window :: string where
  "replay_window = ''replay_window''"

definition simulate_candidate ::
  "string \<Rightarrow> 'w explainer \<Rightarrow> audit_row list \<Rightarrow> policy_engine \<Rightarrow> string \<Rightarrow> ('w, historical_simulation) io" where
  "simulate_candidate ellipsis X rows e window =
     bind_io (of_res (parse_window replay_window window)) (\<lambda>(start, stop).
     bind_io (map_io (\<lambda>r. bind_io (simulate_row X e r) (\<lambda>d. ret_io (r, d))) (replay_rows start stop rows))
       (\<lambda>pairs. of_res (summarize_historical ellipsis pairs)))"

definition simulate_historical ::
  "(string \<Rightarrow> policy_engine res) \<Rightarrow> policy_disk \<Rightarrow> string \<Rightarrow> 'w explainer \<Rightarrow> audit_row list \<Rightarrow> int \<Rightarrow>
     string \<Rightarrow> ('w, historical_simulation) io" where
  "simulate_historical load d ellipsis X rows version window =
     bind_io (of_res (parse_window replay_window window)) (\<lambda>(start, stop).
     bind_io (of_res (load_version load d version)) (\<lambda>e.
     bind_io (map_io (\<lambda>r. bind_io (simulate_row X e r) (\<lambda>d. ret_io (r, d))) (replay_rows start stop rows))
       (\<lambda>pairs. of_res (summarize_historical ellipsis pairs))))"

definition simulate_compare ::
  "(string \<Rightarrow> policy_engine res) \<Rightarrow> policy_disk \<Rightarrow> string \<Rightarrow> 'w explainer \<Rightarrow> audit_row list \<Rightarrow> int list \<Rightarrow>
     string \<Rightarrow> ('w, compare_simulation) io" where
  "simulate_compare load d ellipsis X rows versions window =
     bind_io (of_res (parse_window replay_window window)) (\<lambda>(start, stop).
     bind_io (of_res (bind_res (item_at versions 0) (load_version load d))) (\<lambda>old_engine.
     bind_io (of_res (bind_res (item_at versions 1) (load_version load d))) (\<lambda>new_engine.
     bind_io
       (map_io (\<lambda>r.
          bind_io (simulate_row X old_engine r) (\<lambda>old.
          bind_io (simulate_row X new_engine r) (\<lambda>new. ret_io (r, old, new))))
          (replay_rows start stop rows))
       (\<lambda>triples. ret_io (summarize_compare ellipsis triples versions)))))"

section \<open>Lemmas\<close>

lemma split_dots_plain:
  assumes "CHR ''.'' \<notin> set s" and "CHR ''.'' \<notin> set t" and "t \<noteq> []"
  shows "split_dots (s @ ''..'' @ t) = [s, t]"
proof -
  have t: "u \<noteq> [] \<Longrightarrow> CHR ''.'' \<notin> set u \<Longrightarrow> split_dots u = [u]" for u
  proof (induction u)
    case (Cons c u)
    then show ?case by (cases u) auto
  qed simp
  show ?thesis using assms(1)
  proof (induction s)
    case Nil
    then show ?case using t assms(2,3) by simp
  next
    case (Cons c s)
    then show ?case by (cases s) auto
  qed
qed

lemma digit_not_dot: "0 \<le> n \<Longrightarrow> n \<le> 9 \<Longrightarrow> digit n \<noteq> CHR ''.''"
  using digit_code [of n] by auto

text \<open>The rows whose bucket changed, and the summary they give.\<close>

definition changed_bucket :: "decision_outcome \<times> audit_row \<times> decision \<Rightarrow> bool" where
  "changed_bucket t \<longleftrightarrow> (case t of (before, r, after) \<Rightarrow> before \<noteq> d_decision after)"

definition diff_of :: "string \<Rightarrow> decision_outcome \<times> audit_row \<times> decision \<Rightarrow> sample_diff" where
  "diff_of ellipsis t =
     (case t of (before, r, after) \<Rightarrow>
       \<lparr>sd_audit_seq = a_seq r, sd_identity = a_identity_id r, sd_tool = or_empty (a_tool_name r),
        sd_before = outcome_value before, sd_after = outcome_value (d_decision after),
        sd_reason = snippet ellipsis (d_reason after)\<rparr>)"

definition moved :: "decision_outcome set \<Rightarrow> decision_outcome \<Rightarrow> (decision_outcome \<times> audit_row \<times> decision) list \<Rightarrow> nat" where
  "moved from to ts = length (filter (\<lambda>(before, r, after). before \<in> from \<and> d_decision after = to) ts)"

lemma take_add_sample: "add_sample x (take sample_cap xs) = take sample_cap (xs @ [x])"
  by (auto simp: add_sample_def sample_cap_def)

lemma historical_loop_Inr:
  assumes "historical_loop ellipsis pairs s = Inr s'"
    and "hs_diffs s = take sample_cap ds"
  shows "\<exists>bs. map (historical_bucket \<circ> fst) pairs = map Inr bs \<and>
    (let ts = zip bs pairs
     in hs_total s' = hs_total s \<and>
        hs_unchanged s' = hs_unchanged s + length (filter (\<lambda>t. \<not> changed_bucket t) ts) \<and>
        hs_would_deny s' = hs_would_deny s + moved {O_ALLOW} O_DENY ts \<and>
        hs_would_require_approval s' = hs_would_require_approval s +
          moved (- {O_HUMAN_APPROVAL_REQUIRED}) O_HUMAN_APPROVAL_REQUIRED ts \<and>
        hs_newly_allowed s' = hs_newly_allowed s + moved {O_DENY, O_CHALLENGE} O_ALLOW ts \<and>
        hs_diffs s' = take sample_cap (ds @ map (diff_of ellipsis) (filter changed_bucket ts)))"
  using assms
proof (induction ellipsis pairs s arbitrary: ds rule: historical_loop.induct)
  case (1 ellipsis s)
  then show ?case by (simp add: moved_def)
next
  case (2 ellipsis r after pairs s)
  then obtain b where b: "historical_bucket r = Inr b"
    and rest: "historical_loop ellipsis pairs (historical_step ellipsis r after b s) = Inr s'"
    by (auto simp: bind_res_Inr_iff)
  let ?s = "historical_step ellipsis r after b s"
  let ?ds = "ds @ (if b = d_decision after then [] else [diff_of ellipsis (b, r, after)])"
  have ds: "hs_diffs ?s = take sample_cap ?ds"
    using 2(3) by (auto simp: historical_step_def Let_def take_add_sample diff_of_def)
  from 2(1) [OF rest ds] obtain bs where
    bs: "map (historical_bucket \<circ> fst) pairs = map Inr bs" and f:
      "hs_total s' = hs_total ?s"
      "hs_unchanged s' = hs_unchanged ?s + length (filter (\<lambda>t. \<not> changed_bucket t) (zip bs pairs))"
      "hs_would_deny s' = hs_would_deny ?s + moved {O_ALLOW} O_DENY (zip bs pairs)"
      "hs_would_require_approval s' = hs_would_require_approval ?s +
          moved (- {O_HUMAN_APPROVAL_REQUIRED}) O_HUMAN_APPROVAL_REQUIRED (zip bs pairs)"
      "hs_newly_allowed s' = hs_newly_allowed ?s + moved {O_DENY, O_CHALLENGE} O_ALLOW (zip bs pairs)"
      "hs_diffs s' = take sample_cap (?ds @ map (diff_of ellipsis) (filter changed_bucket (zip bs pairs)))"
    unfolding Let_def by blast
  show ?case
  proof (intro exI [of _ "b # bs"], unfold Let_def, intro conjI)
    show "map (historical_bucket \<circ> fst) ((r, after) # pairs) = map Inr (b # bs)" using b bs by simp
  qed (cases b; cases "d_decision after";
      simp add: f historical_step_def Let_def moved_def changed_bucket_def)+
qed

lemma map_io_reading:
  assumes "\<forall>x \<in> set xs. \<exists>y. f x w = (Inr y, w) \<and> P y"
  shows "\<exists>ys. map_io f xs w = (Inr ys, w) \<and> length ys = length xs \<and> (\<forall>y \<in> set ys. P y)"
  using assms
proof (induction xs)
  case (Cons x xs)
  then obtain y ys where "f x w = (Inr y, w)" "P y" "map_io f xs w = (Inr ys, w)" "length ys = length xs"
    "\<forall>y \<in> set ys. P y" by auto
  then show ?case by (intro exI [of _ "y # ys"]) (simp add: bind_io_def)
qed simp

lemma map_io_rows:
  "map_io (\<lambda>r. bind_io (f r) (\<lambda>d. ret_io (r, d))) rs w = (Inr pairs, w') \<Longrightarrow> map fst pairs = rs"
  by (induction rs arbitrary: pairs w) (auto elim!: bind_io_InrE)

section \<open>Properties\<close>

text \<open>
  A window is exactly its days. For dates in order, the text of the window is read as
  the interval from the first midnight to the midnight after the last day (when the
  calendar has one), and a day starts inside the interval just when it is one of them.
\<close>

theorem window_covers_its_days:
  assumes "valid_date a" and "valid_date b" and "\<not> date_less b a" and "ordinal b < max_ordinal"
  shows "parse_window label (date_text a @ ''..'' @ date_text b) =
      Inr (midnight (ordinal a), midnight (ordinal b + 1)) \<and>
    (\<forall>d. valid_date d \<longrightarrow>
       (midnight (ordinal a) \<le> midnight (ordinal d) \<and> midnight (ordinal d) < midnight (ordinal b + 1)) =
       (\<not> date_less d a \<and> \<not> date_less b d))"
proof -
  have dots: "CHR ''.'' \<notin> set (date_text d)" if "valid_date d" for d
  proof -
    let ?y = "dt_year d" and ?m = "dt_month d" and ?n = "dt_day d"
    from that days_in_month_bounds [of ?m ?y] have "1 \<le> ?y" "?y \<le> 9999" "1 \<le> ?m" "?m \<le> 12" "1 \<le> ?n" "?n \<le> 31"
      by (simp_all add: valid_date_def)
    then have "0 \<le> ?y div 1000" "?y div 1000 \<le> 9" "0 \<le> ?m div 10" "?m div 10 \<le> 9" "0 \<le> ?n div 10" "?n div 10 \<le> 9"
      by linarith+
    then show ?thesis
      by (simp add: date_text_def Let_def digit_not_dot digit_not_dot [symmetric] mod_10_digit)
  qed
  have len: "length (date_text d) = 10" for d by (simp add: date_text_def Let_def)
  have "split_dots (date_text a @ ''..'' @ date_text b) = [date_text a, date_text b]"
    by (rule split_dots_plain) (use dots assms(1,2) len [of b] in auto)
  then have "window_dates (date_text a @ ''..'' @ date_text b) = Some (a, b)"
    by (simp add: window_dates_def len strptime_date_text assms(1,2))
  then have "parse_window label (date_text a @ ''..'' @ date_text b) =
      Inr (midnight (ordinal a), midnight (ordinal b + 1))"
    using assms(3,4) by (simp add: parse_window_def next_day_def)
  moreover have "(midnight (ordinal a) \<le> midnight (ordinal d) \<and> midnight (ordinal d) < midnight (ordinal b + 1)) =
       (\<not> date_less d a \<and> \<not> date_less b d)" if "valid_date d" for d
    using ordinal_order [OF that assms(1)] ordinal_order [OF assms(2) that] by (auto simp: midnight_def)
  ultimately show ?thesis by blast
qed

theorem window_covers_its_days_witness:
  "parse_window replay_window ''2024-02-28..2024-03-01'' = Inr (1709078400, 1709337600)"
proof -
  let ?a = "\<lparr>dt_year = 2024, dt_month = 2, dt_day = 28\<rparr> :: date"
  let ?b = "\<lparr>dt_year = 2024, dt_month = 3, dt_day = 1\<rparr> :: date"
  have t: "date_text ?a @ ''..'' @ date_text ?b = ''2024-02-28..2024-03-01''" by code_simp
  have v: "valid_date ?a" "valid_date ?b" "\<not> date_less ?b ?a" "ordinal ?b < max_ordinal" by code_simp+
  have m: "midnight (ordinal ?a) = 1709078400" "midnight (ordinal ?b + 1) = 1709337600" by code_simp+
  show ?thesis using window_covers_its_days [OF v, of replay_window] unfolding t m by blast
qed

text \<open>
  The last day of the calendar cannot end a window: adding a day raises \<open>OverflowError\<close>,
  where the function promises \<open>ValueError\<close>.
\<close>

theorem last_day_overflows: "parse_window label ''2024-01-01..9999-12-31'' = Inl OverflowError"
  by code_simp

text \<open>
  A historical simulation accounts for every replayed row. When one returns, its
  candidate is the recorded revision whose hash the log has, it replayed the rows of the
  window in order (at most 10,000), each against the bucket its row recorded, every row
  is either unchanged or changed, the counters are the numbers of the moves they name,
  and the samples are the first ten changes.
\<close>

theorem simulation_accounts_for_every_row:
  assumes "simulate_historical load d ellipsis X rows version window w = (Inr s, w')"
  shows "\<exists>start stop e bs ds.
    parse_window replay_window window = Inr (start, stop) \<and> load_version load d version = Inr e \<and>
    (let rs = replay_rows start stop rows; ts = zip bs (zip rs ds)
     in map historical_bucket rs = map Inr bs \<and> length ds = length rs \<and> length rs \<le> 10000 \<and>
        hs_total s = length rs \<and> hs_total s = hs_unchanged s + length (filter changed_bucket ts) \<and>
        hs_would_deny s = moved {O_ALLOW} O_DENY ts \<and>
        hs_would_require_approval s = moved (- {O_HUMAN_APPROVAL_REQUIRED}) O_HUMAN_APPROVAL_REQUIRED ts \<and>
        hs_newly_allowed s = moved {O_DENY, O_CHALLENGE} O_ALLOW ts \<and>
        hs_diffs s = take 10 (map (diff_of ellipsis) (filter changed_bucket ts)))"
proof -
  from assms obtain start stop e pairs where
    win: "parse_window replay_window window = Inr (start, stop)" and e: "load_version load d version = Inr e"
    and run: "map_io (\<lambda>r. bind_io (simulate_row X e r) (\<lambda>d. ret_io (r, d))) (replay_rows start stop rows) w = (Inr pairs, w')"
    and s: "summarize_historical ellipsis pairs = Inr s"
    by (auto simp: simulate_historical_def elim!: bind_io_InrE split: prod.splits)
  let ?rs = "replay_rows start stop rows" and ?ds = "map snd pairs"
  have rs: "map fst pairs = ?rs" by (rule map_io_rows [OF run])
  then have pairs: "zip ?rs ?ds = pairs" by (metis zip_map_fst_snd)
  have cap: "length ?rs \<le> 10000"
    by (auto simp: replay_rows_def row_cap_def intro: le_trans [OF length_filter_le])
  from historical_loop_Inr [OF s [unfolded summarize_historical_def], of "[]"] obtain bs where
    bs: "map (historical_bucket \<circ> fst) pairs = map Inr bs" and f: "hs_total s = length pairs"
      "hs_unchanged s = length (filter (\<lambda>t. \<not> changed_bucket t) (zip bs pairs))"
      "hs_would_deny s = moved {O_ALLOW} O_DENY (zip bs pairs)"
      "hs_would_require_approval s = moved (- {O_HUMAN_APPROVAL_REQUIRED}) O_HUMAN_APPROVAL_REQUIRED (zip bs pairs)"
      "hs_newly_allowed s = moved {O_DENY, O_CHALLENGE} O_ALLOW (zip bs pairs)"
      "hs_diffs s = take sample_cap (map (diff_of ellipsis) (filter changed_bucket (zip bs pairs)))"
    by (auto simp: Let_def)
  have len: "length bs = length pairs" using bs by (metis length_map)
  have "length pairs = length ?rs" using rs by (metis length_map)
  moreover have "length pairs = hs_unchanged s + length (filter changed_bucket (zip bs pairs))"
    using sum_length_filter_compl [of changed_bucket "zip bs pairs"] len f(2) by simp
  moreover have "map historical_bucket ?rs = map Inr bs" using bs rs by (metis map_map)
  ultimately show ?thesis
    using win e cap f pairs unfolding Let_def sample_cap_def
    by (intro exI [of _ start] exI [of _ stop] exI [of _ e] exI [of _ bs] exI [of _ ?ds]) simp
qed

definition idle_explainer :: "policy_engine \<Rightarrow> unit explainer" where
  "idle_explainer e =
     \<lparr>xp_engine = e, xp_mode = ENFORCE, xp_validate_params = True, xp_now = 0,
      xp_is_blocked = (\<lambda>_ _. ret_io False), xp_dry_score = (\<lambda>_ _ _ _ _. ret_io (10, [])),
      xp_cache_get = (\<lambda>_. ret_io None), xp_validate = (\<lambda>_ _. Inr None)\<rparr>"

definition recorded_disk :: policy_disk where
  "recorded_disk =
     \<lparr>jd_active = Some ''raw'', jd_pending = None, jd_journal = None, jd_log = [], jd_next_seq = 1,
      pd_candidate = None, pd_snapshots = [(1, ''raw'')],
      pd_versions = [(1, \<lparr>pv_content_hash = ''raw'', pv_activated_by = ''ann''\<rparr>)]\<rparr>"

definition allowed_row :: audit_row where
  "allowed_row = sample_row\<lparr>a_timestamp := 60, a_server_id := Some ''srv'', a_tool_name := Some ''read'',
     a_payload := [(''arguments'', JObj [])]\<rparr>"

definition sample_run :: "historical_simulation res \<times> unit" where
  "sample_run =
     simulate_historical (\<lambda>_. Inr sample_engine) recorded_disk [] (idle_explainer sample_engine) [allowed_row] 1
       ''1970-01-01..1970-01-01'' ()"

text \<open>Once alice lost her grant, the call she made becomes a denial.\<close>

definition lost_grant :: historical_simulation where
  "lost_grant =
     \<lparr>hs_total = 1, hs_would_deny = 1, hs_would_require_approval = 0, hs_newly_allowed = 0, hs_unchanged = 0,
      hs_diffs = [\<lparr>sd_audit_seq = 1, sd_identity = ''alice'', sd_tool = ''read'', sd_before = ''allow'',
        sd_after = ''deny'', sd_reason = ''identity '' @ py_repr ''alice'' @ '' is not authorized to call '' @ py_repr ''read''\<rparr>]\<rparr>"

lemma sample_run_value: "sample_run = (Inr lost_grant, ())"
  by code_simp

theorem simulation_accounts_for_every_row_witness:
  "hs_total lost_grant = hs_unchanged lost_grant + 1 \<and> sample_run = (Inr lost_grant, ())"
proof -
  from simulation_accounts_for_every_row [OF sample_run_value [unfolded sample_run_def]]
  obtain bs rs ds where "hs_total lost_grant = hs_unchanged lost_grant + length (filter changed_bucket (zip bs (zip rs ds)))"
    unfolding Let_def by blast
  then show ?thesis using sample_run_value by (simp add: lost_grant_def)
qed

text \<open>
  A revision compared with itself shows no change. When the replay of each row only
  reads (it answers, and leaves the services as they were), comparing a recorded version
  with itself counts the rows of the window and no denial, approval, score or explanation.
\<close>

theorem self_comparison_shows_no_change:
  assumes "parse_window replay_window window = Inr (start, stop)" and "load_version load d v = Inr e"
    and "\<forall>r \<in> set (replay_rows start stop rows). \<exists>x. simulate_row X e r w = (Inr x, w)"
  shows "simulate_compare load d ellipsis X rows [v, v] window w =
    (Inr \<lparr>cs_total = length (replay_rows start stop rows), cs_versions = [v, v], cs_new_denials = 0,
          cs_new_approvals = 0, cs_changed_scores = 0, cs_changed_explanations = 0, cs_diffs = []\<rparr>, w)"
proof -
  let ?f = "\<lambda>r. bind_io (simulate_row X e r) (\<lambda>old. bind_io (simulate_row X e r) (\<lambda>new. ret_io (r, old, new)))"
  have "\<forall>r \<in> set (replay_rows start stop rows). \<exists>t. ?f r w = (Inr t, w) \<and> fst (snd t) = snd (snd t)"
    using assms(3) by (fastforce simp: bind_io_def)
  from map_io_reading [where f = ?f and w = w and P = "\<lambda>t. fst (snd t) = snd (snd t)", OF this] obtain ts where
    ts: "map_io ?f (replay_rows start stop rows) w = (Inr ts, w)" "length ts = length (replay_rows start stop rows)"
      "\<forall>t \<in> set ts. fst (snd t) = snd (snd t)" by blast
  have same: "fold (compare_step ellipsis) ts s = s" if "\<forall>t \<in> set ts. fst (snd t) = snd (snd t)" for ts s
    using that
    by (induction ts arbitrary: s) (auto simp: compare_step_def same_explanation_def Let_def)
  show ?thesis
    using assms(1,2) ts same [OF ts(3)]
    by (simp add: simulate_compare_def bind_io_def of_res_def ret_io_def item_at_def summarize_compare_def)
qed

theorem self_comparison_shows_no_change_witness:
  "fst (simulate_compare (\<lambda>_. Inr sample_engine) recorded_disk [] (idle_explainer sample_engine) [allowed_row] [1, 1]
     ''1970-01-01..1970-01-01'' ()) =
   Inr \<lparr>cs_total = 1, cs_versions = [1, 1], cs_new_denials = 0, cs_new_approvals = 0, cs_changed_scores = 0,
        cs_changed_explanations = 0, cs_diffs = []\<rparr>"
proof -
  have win: "parse_window replay_window ''1970-01-01..1970-01-01'' = Inr (0, 86400)" by code_simp
  have e: "load_version (\<lambda>_. Inr sample_engine) recorded_disk 1 = Inr sample_engine" by code_simp
  have rs: "replay_rows 0 86400 [allowed_row] = [allowed_row]" by code_simp
  have "\<exists>x. simulate_row (idle_explainer sample_engine) sample_engine allowed_row () = (Inr x, ())"
    by (simp add: simulate_row_def row_arguments_def allowed_row_def dget_def explain_call_def explain_rbac_def
        replaying_def idle_explainer_def matching_grant_def keep_def bind_verdict_def bind_io_def ret_io_def
        of_res_def verdict_decision_def or_empty_def sample_row_def sample_engine_def sample_policy_def
        sample_identity_def engine_identity_def identities_index_def dict_of_def)
  then have "\<forall>r \<in> set (replay_rows 0 86400 [allowed_row]).
      \<exists>x. simulate_row (idle_explainer sample_engine) sample_engine r () = (Inr x, ())" by (simp add: rs)
  from self_comparison_shows_no_change [OF win e this, of "[]"] show ?thesis by (simp add: rs)
qed

end
