(* ===== verification/PolicyScaffold.thy ===== *)
theory PolicyScaffold
  imports AuditExport PolicySimulator
begin

text \<open>
  \<open>services/gateway/policy_scaffold.py\<close>: a candidate policy generated from the verified rows
  of an observe run. YAML (reading the source, printing the candidate), the loader and the
  key store are parameters; the generated text is a byte string.
\<close>

section \<open>Errors and constants\<close>

datatype scaffold_error = Conflict string | TooLarge string | Raised exn

type_synonym 'a scaffolded = "scaffold_error + 'a"

fun bind_sc :: "'a scaffolded \<Rightarrow> ('a \<Rightarrow> 'b scaffolded) \<Rightarrow> 'b scaffolded" where
  "bind_sc (Inl e) f = Inl e"
| "bind_sc (Inr a) f = f a"

fun lift_res :: "'a res \<Rightarrow> 'a scaffolded" where
  "lift_res (Inl e) = Inl (Raised e)"
| "lift_res (Inr a) = Inr a"

definition max_policy_bytes :: int where
  "max_policy_bytes = 1024 * 1024"

definition terminal_event :: "event_type \<Rightarrow> bool" where
  "terminal_event e \<longleftrightarrow>
     e = EV_ALLOW \<or> e = EV_CHALLENGE \<or> e = EV_HUMAN_APPROVAL_REQUIRED \<or> prefix ''DENY_'' (event_value e)"

definition terminals :: "string list" where
  "terminals = map event_value (filter terminal_event all_events)"

definition sensitivity_todo :: string where
  "sensitivity_todo =
     ''TODO(human): review observed-tool sensitivity; {} adds no static sensitivity '' @
     ''risk contribution.''"

definition abac_todo :: string where
  "abac_todo =
     ''TODO(human): review contextual restrictions; [] applies no ABAC restriction '' @ ''to this grant.''"

section \<open>What was observed\<close>

definition scaffold_window :: "rat \<Rightarrow> string \<Rightarrow> (int \<times> int) res" where
  "scaffold_window now value =
     bind_res (parse_window ''window'' value) (\<lambda>(start, stop).
       if stop - 86400 > \<lfloor>now\<rfloor> div 86400 * 86400
       then Inl (ValueError ''window end must not be in the future'')
       else Inr (start, stop))"

definition grant_of :: "audit_row \<Rightarrow> (string \<times> string \<times> string) option scaffolded" where
  "grant_of r =
     (if a_event_type r \<notin> set terminals \<or> \<not> py_eq (dget (a_payload r) ''mode'') (JStr ''observe'') then Inr None
      else if a_identity_id r = [] \<or> \<not> given (a_server_id r) \<or> \<not> given (a_tool_name r)
      then Inl (Conflict (''observe terminal at audit seq '' @ int_str (a_seq r) @
             '' is missing identity, server, or tool''))
      else if a_tool_name r = Some ''*''
      then Inl (Conflict (''observe terminal at audit seq '' @ int_str (a_seq r) @ '' uses wildcard tool''))
      else Inr (Some (a_identity_id r, the (a_server_id r), the (a_tool_name r))))"

type_synonym observed = "(string \<times> (string \<times> string list) list) list"

definition or_nil :: "'a list option \<Rightarrow> 'a list" where
  "or_nil x = (case x of None \<Rightarrow> [] | Some xs \<Rightarrow> xs)"

definition observed_tools :: "observed \<Rightarrow> string \<Rightarrow> string \<Rightarrow> string list" where
  "observed_tools ob i s = or_nil (map_of (or_nil (map_of ob i)) s)"

text \<open>\<open>observed.setdefault(identity, {}).setdefault(server, set()).add(tool)\<close>.\<close>

definition observe :: "string \<times> string \<times> string \<Rightarrow> observed \<Rightarrow> observed" where
  "observe g ob =
     (case g of (i, s, t) \<Rightarrow>
       al_put i (al_put s (List.insert t (observed_tools ob i s)) (or_nil (map_of ob i))) ob)"

definition integrity_failed :: scaffold_error where
  "integrity_failed = Conflict ''audit integrity verification failed''"

text \<open>\<open>except (OSError, TypeError, ValueError, AttributeError)\<close>.\<close>

fun integrity_error :: "exn \<Rightarrow> scaffold_error" where
  "integrity_error TypeError = integrity_failed"
| "integrity_error AttributeError = integrity_failed"
| "integrity_error e = (if failure_text e \<noteq> None then integrity_failed else Raised e)"

record scan_state =
  sc_previous :: "string option"
  sc_expected :: int
  sc_observed :: observed
  sc_qualifying :: nat
  sc_verified :: nat

fun scan_span ::
  "(audit_row \<Rightarrow> string \<Rightarrow> string res) \<Rightarrow> audit_row list \<Rightarrow> scan_state \<Rightarrow> scan_state scaffolded" where
  "scan_span verify [] st = Inr st"
| "scan_span verify (r # rs) st =
     (if a_seq r \<noteq> sc_expected st then Inl integrity_failed
      else case verify r (case sc_previous st of None \<Rightarrow> a_prev_hash r | Some h \<Rightarrow> h) of
             Inl e \<Rightarrow> Inl (integrity_error e)
           | Inr h \<Rightarrow>
               bind_sc (grant_of r) (\<lambda>g.
                 scan_span verify rs
                   \<lparr>sc_previous = Some h, sc_expected = sc_expected st + 1,
                    sc_observed = (case g of None \<Rightarrow> sc_observed st | Some g \<Rightarrow> observe g (sc_observed st)),
                    sc_qualifying = (case g of None \<Rightarrow> sc_qualifying st | Some _ \<Rightarrow> sc_qualifying st + 1),
                    sc_verified = sc_verified st + 1\<rparr>))"

section \<open>The candidate\<close>

definition grant_json :: "string \<Rightarrow> string list \<Rightarrow> json" where
  "grant_json s tools =
     JObj [(''server_id'', JStr s), (''allowed_tools'', JArr (map JStr tools)), (''conditions'', JArr [])]"

definition identity_grants :: "jdict \<Rightarrow> observed \<Rightarrow> string \<Rightarrow> (string \<times> string list) list" where
  "identity_grants servers ob i =
     map (\<lambda>s. (s, sort (observed_tools ob i s))) (filter (\<lambda>s. observed_tools ob i s \<noteq> []) (map fst servers))"

definition with_grants :: "jdict \<Rightarrow> json \<Rightarrow> jdict" where
  "with_grants d grants =
     (let g = map (\<lambda>(k, v). (k, if k = ''allowed_servers'' then grants else v)) d
      in if has_key g ''allowed_servers'' then g else g @ [(''allowed_servers'', grants)])"

definition inconsistent :: scaffold_error where
  "inconsistent = Conflict ''active policy identity source is inconsistent''"

fun candidate_identities ::
  "policy_engine \<Rightarrow> jdict \<Rightarrow> observed \<Rightarrow> json list \<Rightarrow> (json list \<times> nat \<times> nat) scaffolded" where
  "candidate_identities base servers ob [] = Inr ([], 0, 0)"
| "candidate_identities base servers ob (v # vs) =
     (case v of
        JObj d \<Rightarrow>
          (case dget d ''id'' of
             JStr i \<Rightarrow>
               (case engine_identity base i of
                  None \<Rightarrow> Inl inconsistent
                | Some ident \<Rightarrow>
                    if \<not> i_admin ident \<and> map_of ob i = None then candidate_identities base servers ob vs
                    else
                      (let gs = identity_grants servers ob i;
                           grants = JArr (map (\<lambda>(s, tools). grant_json s tools) gs)
                       in bind_sc (candidate_identities base servers ob vs) (\<lambda>(is, n, m).
                            Inr (JObj (with_grants d grants) # is, n + length gs,
                                 m + sum_list (map (length \<circ> snd) gs)))))
           | _ \<Rightarrow> Inl inconsistent)
      | _ \<Rightarrow> Inl inconsistent)"

definition missing_identities :: "policy_engine \<Rightarrow> observed \<Rightarrow> string list" where
  "missing_identities base ob = filter (\<lambda>i. engine_identity base i = None) (map fst ob)"

definition missing_servers :: "policy_engine \<Rightarrow> observed \<Rightarrow> string list" where
  "missing_servers base ob =
     filter (\<lambda>s. map_of (p_servers (e_policy base)) s = None) (concat (map (map fst \<circ> snd) ob))"

definition protected_source :: "jdict \<Rightarrow> json res" where
  "protected_source raw =
     bind_res (get_of (py_or (dget raw ''risk'') (JObj []))) (\<lambda>d. Inr (dget_or d ''protected_repos'' (JArr [])))"

definition candidate_data ::
  "(string \<Rightarrow> json res) \<Rightarrow> policy_engine \<Rightarrow> int \<Rightarrow> observed \<Rightarrow> (jdict \<times> nat \<times> nat) scaffolded" where
  "candidate_data yaml_load base highest ob =
     bind_sc (lift_res (yaml_load (e_raw base))) (\<lambda>v.
       case v of
         JObj raw \<Rightarrow>
           (case (dget raw ''servers'', dget raw ''identities'') of
              (JObj servers, JArr identities) \<Rightarrow>
                if missing_identities base ob \<noteq> []
                then Inl (Conflict (''observed identity is absent from the active policy: '' @
                       py_repr (Min (set (missing_identities base ob)))))
                else if missing_servers base ob \<noteq> []
                then Inl (Conflict (''observed server is absent from the active policy: '' @
                       py_repr (Min (set (missing_servers base ob)))))
                else
                  bind_sc (candidate_identities base servers ob identities) (\<lambda>(is, n, m).
                  bind_sc (lift_res (protected_source raw)) (\<lambda>repos.
                    Inr ([(''version'', JInt (highest + 1)), (''servers'', JObj servers),
                          (''identities'', JArr is),
                          (''risk'', JObj [(''tool_sensitivity'', JObj []), (''protected_repos'', repos)])], n, m)))
            | _ \<Rightarrow> Inl (Conflict ''active policy source is missing servers or identities''))
       | _ \<Rightarrow> Inl (Conflict ''active policy source is not a mapping''))"

section \<open>The text\<close>

text \<open>\<open>str.splitlines()\<close>, on the line boundaries among code points below 256.\<close>

definition line_end :: "char \<Rightarrow> bool" where
  "line_end c \<longleftrightarrow>
     (let n = (of_char c :: nat) in (10 \<le> n \<and> n \<le> 13) \<or> (28 \<le> n \<and> n \<le> 30) \<or> n = 133)"

function splitlines :: "string \<Rightarrow> string list" where
  "splitlines s =
     (if s = [] then []
      else (let line = takeWhile (\<lambda>c. \<not> line_end c) s; rest = dropWhile (\<lambda>c. \<not> line_end c) s
            in line #
               (case rest of
                  [] \<Rightarrow> []
                | c # cs \<Rightarrow>
                    splitlines (if c = CHR 0x0D \<and> cs \<noteq> [] \<and> hd cs = CHR 0x0A then tl cs else cs))))"
  by pat_completeness auto
termination
proof (relation "measure length", goal_cases)
  case (2 s line rest c cs)
  then have "length (c # cs) \<le> length s" by (metis length_dropWhile_le)
  then show ?case by (auto split: if_splits)
qed simp

declare splitlines.simps [simp del]

definition annotate :: "string \<Rightarrow> string list" where
  "annotate line =
     (let indent = take (length line - length (dropWhile py_space line)) line
      in if py_strip line = ''tool_sensitivity: {}'' then [indent @ ''# '' @ sensitivity_todo, line]
         else if py_strip line = ''conditions: []'' then [indent @ ''# '' @ abac_todo, line]
         else [line])"

definition render ::
  "(jdict \<Rightarrow> string) \<Rightarrow> jdict \<Rightarrow> policy_engine \<Rightarrow> string \<Rightarrow> int \<Rightarrow> int \<Rightarrow> bool \<Rightarrow> string" where
  "render yaml_dump data base window start_seq end_seq genesis_anchored =
     (let attested = (if genesis_anchored then ''true'' else ''false'')
      in join_with [CHR 0x0A]
           ([''# GENERATED SCAFFOLD '' @ [CHR 0xE2, CHR 0x80, CHR 0x94] @ '' NOT FULLY VALIDATED OR APPLIED'',
             ''# Base policy: version '' @ int_str (engine_version base) @ '', sha256 '' @ e_content_hash base,
             ''# UTC window: '' @ window,
             ''# Verified audit bounds: '' @ int_str start_seq @ ''..'' @ int_str end_seq @ ''; '' @
               ''genesis_anchored='' @ attested @ ''; prefix_attested='' @ attested,
             ''# Review every TODO before rollout.''] @
            concat (map annotate (splitlines (yaml_dump data)))) @ [CHR 0x0A])"

section \<open>The scaffold\<close>

record scaffold_env =
  se_verifier :: verifier_env
  se_load_public :: "string \<Rightarrow> string res"
  se_yaml_load :: "string \<Rightarrow> json res"
  se_yaml_dump :: "jdict \<Rightarrow> string"
  se_load_policy :: "string \<Rightarrow> policy_engine res"
  se_now :: rat

text \<open>What the service reads: the engine and the ledger, before and after the work.\<close>

record scaffold_input =
  si_engine :: policy_engine
  si_versions :: "int list"
  si_rows :: "audit_row list"
  si_engine_replaced :: bool
  si_later_versions :: "int list"

record scaffold_result =
  sr_policy :: string
  sr_from_seq :: int
  sr_to_seq :: int
  sr_verified :: nat
  sr_qualifying :: nat
  sr_anchored :: bool
  sr_candidate :: policy_engine
  sr_grants :: nat
  sr_server_tools :: nat

definition highest_version :: "int list \<Rightarrow> int option" where
  "highest_version vs = (if vs = [] then None else Some (Max (set vs)))"

definition window_seqs :: "int \<Rightarrow> int \<Rightarrow> audit_row list \<Rightarrow> int list" where
  "window_seqs start stop rows =
     map a_seq (filter (\<lambda>r. of_int start \<le> a_timestamp r \<and> a_timestamp r < of_int stop) rows)"

definition read_span ::
  "scaffold_env \<Rightarrow> audit_row list \<Rightarrow> int \<Rightarrow> int \<Rightarrow> scan_state scaffolded" where
  "read_span V rows start_seq end_seq =
     bind_sc
       (scan_span (verify_record (se_verifier V) (se_load_public V) None) (rows_between start_seq end_seq rows)
          \<lparr>sc_previous = chain_start start_seq, sc_expected = start_seq, sc_observed = [], sc_qualifying = 0,
           sc_verified = 0\<rparr>)
       (\<lambda>st. if sc_expected st \<noteq> end_seq + 1 then Inl integrity_failed else Inr st)"

definition load_candidate_text :: "scaffold_env \<Rightarrow> string \<Rightarrow> policy_engine scaffolded" where
  "load_candidate_text V raw =
     (if int (length raw) > max_policy_bytes then Inl (TooLarge ''generated policy exceeds the 1 MiB policy limit'')
      else case se_load_policy V raw of
             Inl _ \<Rightarrow> Inl (Conflict ''generated policy failed structural validation'')
           | Inr c \<Rightarrow> Inr c)"

definition scaffold_span ::
  "scaffold_env \<Rightarrow> scaffold_input \<Rightarrow> string \<Rightarrow> int \<Rightarrow> int \<Rightarrow> int \<Rightarrow> scaffold_result scaffolded" where
  "scaffold_span V I window highest start_seq end_seq =
     bind_sc (read_span V (si_rows I) start_seq end_seq) (\<lambda>st.
       if sc_qualifying st = 0 then Inl (Conflict ''audit window has no qualifying observe-mode tool calls'')
       else
         bind_sc (candidate_data (se_yaml_load V) (si_engine I) highest (sc_observed st)) (\<lambda>(data, n, m).
           let raw = render (se_yaml_dump V) data (si_engine I) window start_seq end_seq (start_seq = 1)
           in bind_sc (load_candidate_text V raw) (\<lambda>c.
                if si_engine_replaced I \<or> highest_version (si_later_versions I) \<noteq> Some highest
                then Inl (Conflict ''active policy changed while the scaffold was generated'')
                else Inr \<lparr>sr_policy = raw, sr_from_seq = start_seq, sr_to_seq = end_seq,
                          sr_verified = sc_verified st, sr_qualifying = sc_qualifying st,
                          sr_anchored = (start_seq = 1), sr_candidate = c, sr_grants = n,
                          sr_server_tools = m\<rparr>)))"

definition scaffold :: "scaffold_env \<Rightarrow> scaffold_input \<Rightarrow> string \<Rightarrow> string \<Rightarrow> scaffold_result scaffolded" where
  "scaffold V I source window =
     (if source \<noteq> ''audit''
      then Inl (Raised (ValueError (''source must be '' @ [CHR 0x27] @ ''audit'' @ [CHR 0x27])))
      else
        bind_sc (lift_res (scaffold_window (se_now V) window)) (\<lambda>(start, stop).
          case highest_version (si_versions I) of
            None \<Rightarrow> Inl (Conflict ''policy revision ledger is empty'')
          | Some highest \<Rightarrow>
              (let seqs = window_seqs start stop (si_rows I)
               in if seqs = [] then Inl (Conflict ''audit window is empty'')
                  else scaffold_span V I window highest (Min (set seqs)) (Max (set seqs)))))"

section \<open>Lemmas\<close>

lemma bind_sc_Inr_iff: "bind_sc m f = Inr b \<longleftrightarrow> (\<exists>a. m = Inr a \<and> f a = Inr b)"
  by (cases m) auto

lemma lift_res_Inr [simp]: "lift_res r = Inr a \<longleftrightarrow> r = Inr a"
  by (cases r) auto

subsection \<open>What the span shows\<close>

lemma observed_tools_observe:
  "observed_tools (observe (i, s, t) ob) i' s' =
     (if i' = i \<and> s' = s then List.insert t (observed_tools ob i s) else observed_tools ob i' s')"
  by (auto simp: observed_tools_def observe_def or_nil_def split: option.splits)

text \<open>The dictionary holds no identity and no server without a tool.\<close>

definition no_empty :: "observed \<Rightarrow> bool" where
  "no_empty ob \<longleftrightarrow>
     (\<forall>(i, ss) \<in> set ob. ss \<noteq> [] \<and> (\<forall>(s, ts) \<in> set ss. ts \<noteq> [])) \<and>
     distinct (map fst ob) \<and> (\<forall>(i, ss) \<in> set ob. distinct (map fst ss))"

lemma al_put_Nil [simp]: "al_put k v d \<noteq> []"
  by (induction k v d rule: al_put.induct) auto

lemma no_empty_observe: "no_empty ob \<Longrightarrow> no_empty (observe g ob)"
proof -
  assume ob: "no_empty ob"
  obtain i s t where g: "g = (i, s, t)" by (cases g)
  let ?ss = "or_nil (map_of ob i)"
  have ss: "(\<forall>(s, ts) \<in> set ?ss. ts \<noteq> []) \<and> distinct (map fst ?ss)"
    using ob by (auto simp: no_empty_def or_nil_def split: option.splits dest: map_of_SomeD)
  let ?new = "al_put s (List.insert t (observed_tools ob i s)) ?ss"
  have ins: "List.insert t xs \<noteq> []" for xs :: "string list" by (simp add: List.insert_def) auto
  have new: "\<forall>q \<in> set ?new. snd q \<noteq> []"
  proof
    fix q assume "q \<in> set ?new"
    from set_al_put [OF this] show "snd q \<noteq> []" using ss ins by auto
  qed
  have dist: "distinct (map fst ?new)" "distinct (map fst (observe g ob))"
    using ss ob by (simp_all add: distinct_al_put no_empty_def observe_def g)
  have mem: "p = (i, ?new) \<or> p \<in> set ob" if "p \<in> set (observe g ob)" for p
    using that unfolding observe_def g prod.case by (rule set_al_put)
  have "snd p \<noteq> [] \<and> (\<forall>q \<in> set (snd p). snd q \<noteq> []) \<and> distinct (map fst (snd p))" if "p \<in> set (observe g ob)" for p
    using mem [OF that]
  proof
    assume "p = (i, ?new)"
    then show ?thesis using new dist(1) by simp
  next
    assume "p \<in> set ob"
    then show ?thesis using ob by (simp add: no_empty_def split_def)
  qed
  then show ?thesis using dist(2) unfolding no_empty_def split_def by blast
qed

lemma observed_key:
  assumes "no_empty ob"
  shows "map_of ob i \<noteq> None \<longleftrightarrow> (\<exists>s. observed_tools ob i s \<noteq> [])"
proof
  assume "map_of ob i \<noteq> None"
  then obtain ss where ss: "map_of ob i = Some ss" by auto
  then have "(i, ss) \<in> set ob" by (rule map_of_SomeD)
  with assms have "ss \<noteq> []" and ne: "\<forall>(s, ts) \<in> set ss. ts \<noteq> []" and "distinct (map fst ss)"
    by (auto simp: no_empty_def)
  then obtain s ts where "map_of ss s = Some ts" by (metis map_of_eq_Some_iff list.set_intros(1) neq_Nil_conv prod.collapse)
  then have "ts \<noteq> []" using ne by (auto dest: map_of_SomeD)
  with ss \<open>map_of ss s = Some ts\<close> show "\<exists>s. observed_tools ob i s \<noteq> []"
    by (intro exI [of _ s]) (simp add: observed_tools_def or_nil_def)
qed (auto simp: observed_tools_def or_nil_def split: option.splits)

lemma scan_span_Inr:
  assumes "scan_span verify rs st = Inr st'" and "no_empty (sc_observed st)"
  shows "map a_seq rs = map (\<lambda>k. sc_expected st + int k) [0..<length rs] \<and>
    sc_expected st' = sc_expected st + int (length rs) \<and> sc_verified st' = sc_verified st + length rs \<and>
    (\<exists>h. verify_all verify (start_hash (sc_previous st) rs) rs = Inr h) \<and>
    no_empty (sc_observed st') \<and>
    (\<forall>i s t. t \<in> set (observed_tools (sc_observed st') i s) \<longleftrightarrow>
       t \<in> set (observed_tools (sc_observed st) i s) \<or> (\<exists>r \<in> set rs. grant_of r = Inr (Some (i, s, t)))) \<and>
    sc_qualifying st' = sc_qualifying st + length (filter (\<lambda>r. \<exists>g. grant_of r = Inr (Some g)) rs)"
  using assms
proof (induction verify rs st rule: scan_span.induct)
  case (1 verify st)
  then show ?case by simp
next
  case (2 verify r rs st)
  let ?p = "case sc_previous st of None \<Rightarrow> a_prev_hash r | Some h \<Rightarrow> h"
  from 2(2) obtain h g where seq: "a_seq r = sc_expected st" and h: "verify r ?p = Inr h"
    and g: "grant_of r = Inr g"
    by (auto simp: bind_sc_Inr_iff split: if_splits sum.splits)
  let ?st = "\<lparr>sc_previous = Some h, sc_expected = sc_expected st + 1,
      sc_observed = (case g of None \<Rightarrow> sc_observed st | Some g \<Rightarrow> observe g (sc_observed st)),
      sc_qualifying = (case g of None \<Rightarrow> sc_qualifying st | Some _ \<Rightarrow> sc_qualifying st + 1),
      sc_verified = sc_verified st + 1\<rparr>"
  from 2(2) seq h g have run: "scan_span verify rs ?st = Inr st'" by simp
  have "no_empty (sc_observed ?st)" using 2(3) no_empty_observe by (auto split: option.split)
  from 2(1) [OF _ h run this] seq have IH: "map a_seq rs = map (\<lambda>k. sc_expected st + 1 + int k) [0..<length rs]"
    "sc_expected st' = sc_expected st + 1 + int (length rs)" "sc_verified st' = sc_verified st + 1 + length rs"
    "\<exists>h'. verify_all verify (start_hash (Some h) rs) rs = Inr h'" "no_empty (sc_observed st')"
    "\<And>i s t. t \<in> set (observed_tools (sc_observed st') i s) \<longleftrightarrow>
       t \<in> set (observed_tools (sc_observed ?st) i s) \<or> (\<exists>r \<in> set rs. grant_of r = Inr (Some (i, s, t)))"
    "sc_qualifying st' = sc_qualifying ?st + length (filter (\<lambda>r. \<exists>g. grant_of r = Inr (Some g)) rs)"
    by simp_all
  have shift: "map (\<lambda>k. sc_expected st + int k) [0..<length (r # rs)] =
      sc_expected st # map (\<lambda>k. sc_expected st + 1 + int k) [0..<length rs]"
    by (subst upt_conv_Cons; simp add: map_Suc_upt [symmetric] del: upt_Suc)
  have start: "start_hash (sc_previous st) (r # rs) = ?p" "start_hash (Some h) rs = h"
    by (auto simp: start_hash_def split: option.split)
  have obs: "t \<in> set (observed_tools (sc_observed ?st) i s) \<longleftrightarrow>
      t \<in> set (observed_tools (sc_observed st) i s) \<or> grant_of r = Inr (Some (i, s, t))" for i s t
    by (cases g) (auto simp: g observed_tools_observe split: if_split_asm)
  have tools: "t \<in> set (observed_tools (sc_observed st') i s) \<longleftrightarrow>
       t \<in> set (observed_tools (sc_observed st) i s) \<or> (\<exists>r \<in> set (r # rs). grant_of r = Inr (Some (i, s, t)))"
    for i s t
    unfolding IH(6) obs by auto
  show ?case
    unfolding shift
  proof (intro conjI allI)
    show "\<exists>h. verify_all verify (start_hash (sc_previous st) (r # rs)) (r # rs) = Inr h"
      using IH(4) h by (simp add: start)
  qed (use IH(1,2,3,5,7) seq g tools in \<open>simp_all split: option.splits\<close>)
qed

subsection \<open>What the candidate grants\<close>

definition kept :: "policy_engine \<Rightarrow> observed \<Rightarrow> string \<Rightarrow> bool" where
  "kept base ob i \<longleftrightarrow> is_admin base i \<or> map_of ob i \<noteq> None"

definition source_id :: "json \<Rightarrow> string option" where
  "source_id v = (case v of JObj d \<Rightarrow> (case dget d ''id'' of JStr i \<Rightarrow> Some i | _ \<Rightarrow> None) | _ \<Rightarrow> None)"

definition grants_json :: "(string \<times> string list) list \<Rightarrow> json" where
  "grants_json gs = JArr (map (\<lambda>(s, tools). grant_json s tools) gs)"

lemma with_grants_fields:
  "dget (with_grants d grants) ''allowed_servers'' = grants"
  "k \<noteq> ''allowed_servers'' \<Longrightarrow> dget (with_grants d grants) k = dget d k"
proof -
  let ?g = "map (\<lambda>(k, v). (k, if k = ''allowed_servers'' then grants else v)) d"
  have g: "map_of ?g k = (if k = ''allowed_servers'' then map_option (\<lambda>_. grants) (map_of d k) else map_of d k)" for k
    by (induction d) auto
  show "dget (with_grants d grants) ''allowed_servers'' = grants"
    by (auto simp: with_grants_def Let_def dget_def has_key_def g map_add_def split: option.splits)
  show "dget (with_grants d grants) k = dget d k" if "k \<noteq> ''allowed_servers''"
    using that by (auto simp: with_grants_def Let_def dget_def has_key_def g map_add_def split: option.splits)
qed

lemma candidate_identities_Inr:
  assumes "candidate_identities base servers ob vs = Inr (is, n, m)"
  shows "(\<forall>v \<in> set vs. source_id v \<noteq> None) \<and>
    (\<forall>w \<in> set is. \<exists>d i. w = JObj d \<and> dget d ''id'' = JStr i \<and> kept base ob i \<and>
       dget d ''allowed_servers'' = grants_json (identity_grants servers ob i)) \<and>
    (\<forall>v \<in> set vs. \<forall>i. source_id v = Some i \<longrightarrow> kept base ob i \<longrightarrow>
       (\<exists>w \<in> set is. source_id w = Some i))"
  using assms
proof (induction vs arbitrary: "is" n m)
  case (Cons v vs)
  then obtain d i ident where v: "v = JObj d" "dget d ''id'' = JStr i" "engine_identity base i = Some ident"
    by (cases v) (auto split: json.splits option.splits)
  then have id: "source_id v = Some i" by (simp add: source_id_def)
  have keep: "kept base ob i \<longleftrightarrow> \<not> (\<not> i_admin ident \<and> map_of ob i = None)"
    using v(3) by (simp add: kept_def is_admin_def)
  show ?case
  proof (cases "kept base ob i")
    case False
    then have "candidate_identities base servers ob vs = Inr (is, n, m)"
      using Cons.prems v keep by (simp split: if_splits)
    from Cons.IH [OF this] id False show ?thesis by auto
  next
    case True
    let ?w = "JObj (with_grants d (grants_json (identity_grants servers ob i)))"
    from True Cons.prems v keep obtain is' n' m' where
      rest: "candidate_identities base servers ob vs = Inr (is', n', m')" and "is": "is = ?w # is'"
      by (auto simp: bind_sc_Inr_iff Let_def grants_json_def split: if_splits)
    have w: "source_id ?w = Some i" using v(2) by (simp add: source_id_def with_grants_fields)
    from Cons.IH [OF rest] have IH: "\<forall>v \<in> set vs. source_id v \<noteq> None"
      "\<forall>w \<in> set is'. \<exists>d i. w = JObj d \<and> dget d ''id'' = JStr i \<and> kept base ob i \<and>
         dget d ''allowed_servers'' = grants_json (identity_grants servers ob i)"
      "\<forall>v \<in> set vs. \<forall>i. source_id v = Some i \<longrightarrow> kept base ob i \<longrightarrow> (\<exists>w \<in> set is'. source_id w = Some i)"
      by blast+
    have "\<exists>d' j. ?w = JObj d' \<and> dget d' ''id'' = JStr j \<and> kept base ob j \<and>
         dget d' ''allowed_servers'' = grants_json (identity_grants servers ob j)"
      using v(2) True by (simp add: with_grants_fields)
    with IH w id show ?thesis unfolding "is" by auto
  qed
qed simp

text \<open>The documented reading of YAML: a policy has the ids, servers and grants its source has.\<close>

definition source_matches :: "policy_engine \<Rightarrow> jdict \<Rightarrow> bool" where
  "source_matches e raw \<longleftrightarrow>
     (\<exists>servers vs. dget raw ''servers'' = JObj servers \<and> dget raw ''identities'' = JArr vs \<and>
        map fst servers = map fst (p_servers (e_policy e)) \<and>
        map source_id vs = map (Some \<circ> i_id) (p_identities (e_policy e)))"

definition source_grants :: "ident \<Rightarrow> json \<Rightarrow> bool" where
  "source_grants i v \<longleftrightarrow>
     (\<exists>d. v = JObj d \<and> dget d ''id'' = JStr (i_id i) \<and>
        dget d ''allowed_servers'' =
          grants_json (map (\<lambda>g. (g_server_id g, g_allowed_tools g)) (i_allowed_servers i)) \<and>
        (\<forall>g \<in> set (i_allowed_servers i). g_denied_tools g = []))"

definition reads_as :: "policy_engine \<Rightarrow> jdict \<Rightarrow> bool" where
  "reads_as e data \<longleftrightarrow>
     dget data ''version'' = JInt (engine_version e) \<and>
     (\<exists>vs. dget data ''identities'' = JArr vs \<and> list_all2 source_grants (p_identities (e_policy e)) vs)"

lemma grants_json_inj: "grants_json gs = grants_json hs \<longleftrightarrow> gs = hs"
proof -
  have "inj (\<lambda>(s, tools). grant_json s tools)"
    by (auto simp: inj_def grant_json_def dest: map_injective [OF _ injI])
  then show ?thesis by (simp add: grants_json_def inj_map_eq_map)
qed

lemma scan_grants_plain:
  assumes "\<forall>g \<in> set gs. g_denied_tools g = []"
  shows "scan_grants server tool gs \<noteq> None \<longleftrightarrow> (\<exists>g \<in> set gs. grant_matches server g \<and> grant_allows tool g)"
  using assms by (induction gs) (auto simp: grant_matches_def grant_allows_def)

lemma observed_server_mem:
  assumes "observed_tools ob i s \<noteq> []"
  shows "i \<in> fst ` set ob" and "s \<in> set (concat (map (map fst \<circ> snd) ob))"
proof -
  from assms obtain ss where ss: "map_of ob i = Some ss" and s: "or_nil (map_of ss s) \<noteq> []"
    by (auto simp: observed_tools_def or_nil_def split: option.splits)
  then have mem: "(i, ss) \<in> set ob" by (simp add: map_of_SomeD)
  from s obtain ts where "map_of ss s = Some ts" by (cases "map_of ss s") (auto simp: or_nil_def)
  then have "(s, ts) \<in> set ss" by (rule map_of_SomeD)
  with mem show "i \<in> fst ` set ob" "s \<in> set (concat (map (map fst \<circ> snd) ob))" by force+
qed

lemma candidate_data_Inr:
  assumes "candidate_data yaml_load base highest ob = Inr (data, n, m)"
    and "yaml_load (e_raw base) = Inr (JObj raw)"
    and "dget raw ''servers'' = JObj servers" and "dget raw ''identities'' = JArr vs"
  obtains "is" where "candidate_identities base servers ob vs = Inr (is, n, m)"
    and "dget data ''identities'' = JArr is" and "dget data ''version'' = JInt (highest + 1)"
    and "missing_identities base ob = []" and "missing_servers base ob = []"
  using assms
  by (auto simp: candidate_data_def bind_sc_Inr_iff dget_def split: if_splits)

lemma engine_servers_no_star: "engine_valid e \<Longrightarrow> ''*'' \<notin> fst ` set (p_servers (e_policy e))"
  by (auto simp: engine_valid_def check_servers_def split: if_splits)

lemma identity_grant_mem:
  "(s, tools) \<in> set (identity_grants servers ob i) \<longleftrightarrow>
     s \<in> fst ` set servers \<and> observed_tools ob i s \<noteq> [] \<and> tools = sort (observed_tools ob i s)"
  by (auto simp: identity_grants_def)

lemma list_all2_left: "list_all2 P xs ys \<Longrightarrow> x \<in> set xs \<Longrightarrow> \<exists>y \<in> set ys. P x y"
  by (induction rule: list_all2_induct) auto

lemma list_all2_right: "list_all2 P xs ys \<Longrightarrow> y \<in> set ys \<Longrightarrow> \<exists>x \<in> set xs. P x y"
  by (induction rule: list_all2_induct) auto

lemma identity_grants_allow:
  assumes gs: "map (\<lambda>g. (g_server_id g, g_allowed_tools g)) gs = identity_grants servers ob i"
    and plain: "\<forall>g \<in> set gs. g_denied_tools g = []"
    and star: "''*'' \<notin> fst ` set servers" "\<And>s. ''*'' \<notin> set (observed_tools ob i s)"
    and known: "\<And>s. observed_tools ob i s \<noteq> [] \<Longrightarrow> s \<in> fst ` set servers"
  shows "scan_grants s t gs \<noteq> None \<longleftrightarrow> t \<in> set (observed_tools ob i s)"
proof -
  have "scan_grants s t gs \<noteq> None \<longleftrightarrow>
      (\<exists>(s', tools) \<in> set (identity_grants servers ob i). (s' = s \<or> s' = ''*'') \<and> (''*'' \<in> set tools \<or> t \<in> set tools))"
    unfolding scan_grants_plain [OF plain] gs [symmetric] by (auto simp: grant_matches_def grant_allows_def)
  also have "\<dots> \<longleftrightarrow> t \<in> set (observed_tools ob i s)"
  proof
    assume t: "t \<in> set (observed_tools ob i s)"
    then have "observed_tools ob i s \<noteq> []" by auto
    with known have "(s, sort (observed_tools ob i s)) \<in> set (identity_grants servers ob i)"
      unfolding identity_grant_mem by blast
    moreover have "t \<in> set (sort (observed_tools ob i s))" using t by simp
    ultimately show "\<exists>(s', tools) \<in> set (identity_grants servers ob i).
        (s' = s \<or> s' = ''*'') \<and> (''*'' \<in> set tools \<or> t \<in> set tools)" by blast
  next
    assume "\<exists>(s', tools) \<in> set (identity_grants servers ob i).
        (s' = s \<or> s' = ''*'') \<and> (''*'' \<in> set tools \<or> t \<in> set tools)"
    then obtain s' tools where mem: "(s', tools) \<in> set (identity_grants servers ob i)"
      and or: "s' = s \<or> s' = ''*''" "''*'' \<in> set tools \<or> t \<in> set tools" by blast
    from mem have f: "s' \<in> fst ` set servers" "set tools = set (observed_tools ob i s')"
      unfolding identity_grant_mem by simp_all
    with star(1) or(1) have "s' = s" by metis
    with f(2) star(2) or(2) show "t \<in> set (observed_tools ob i s)" by metis
  qed
  finally show ?thesis .
qed

lemma candidate_grants_exactly:
  assumes cd: "candidate_data yaml_load base highest ob = Inr (data, n, m)"
    and raw: "yaml_load (e_raw base) = Inr (JObj raw)" and src: "source_matches base raw"
    and valid: "engine_valid base" "engine_valid c" and reads: "reads_as c data"
    and ob: "no_empty ob" and star: "\<forall>i s. ''*'' \<notin> set (observed_tools ob i s)"
  shows "engine_version c = highest + 1 \<and> (is_allowed c (Some i) s t \<longleftrightarrow> t \<in> set (observed_tools ob i s))"
proof -
  from src obtain servers vs where sv: "dget raw ''servers'' = JObj servers" "dget raw ''identities'' = JArr vs"
    and names: "map fst servers = map fst (p_servers (e_policy base))"
    and ids: "map source_id vs = map (Some \<circ> i_id) (p_identities (e_policy base))"
    by (auto simp: source_matches_def)
  from candidate_data_Inr [OF cd raw sv] obtain "is" where
    "is": "candidate_identities base servers ob vs = Inr (is, n, m)" "dget data ''identities'' = JArr is"
      "dget data ''version'' = JInt (highest + 1)"
    and known: "missing_identities base ob = []" "missing_servers base ob = []" by blast
  note ci = candidate_identities_Inr [OF "is"(1)]
  from reads "is"(2,3) have version: "engine_version c = highest + 1"
    and sg: "list_all2 source_grants (p_identities (e_policy c)) is" by (auto simp: reads_as_def)
  have server_names: "fst ` set servers = fst ` set (p_servers (e_policy base))"
    using names by (metis list.set_map)
  have per_identity: "scan_grants s t (i_allowed_servers ident) \<noteq> None \<longleftrightarrow> t \<in> set (observed_tools ob (i_id ident) s)"
    if w: "w \<in> set is" "source_grants ident w" for ident w
  proof -
    from ci w obtain d j where "w = JObj d" "dget d ''id'' = JStr j"
      "dget d ''allowed_servers'' = grants_json (identity_grants servers ob j)" by blast
    with w(2) have gs: "map (\<lambda>g. (g_server_id g, g_allowed_tools g)) (i_allowed_servers ident) =
        identity_grants servers ob (i_id ident)" and plain: "\<forall>g \<in> set (i_allowed_servers ident). g_denied_tools g = []"
      by (auto simp: source_grants_def grants_json_inj)
    have "s' \<in> fst ` set servers" if "observed_tools ob (i_id ident) s' \<noteq> []" for s'
    proof -
      have "s' \<notin> set (missing_servers base ob)" using known(2) by simp
      with observed_server_mem(2) [OF that] show ?thesis
        by (auto simp: missing_servers_def server_names map_of_eq_None_iff)
    qed
    then show ?thesis
      using identity_grants_allow [OF gs plain] engine_servers_no_star [OF valid(1)] star
      by (simp add: server_names)
  qed
  have "is_allowed c (Some i) s t \<longleftrightarrow> t \<in> set (observed_tools ob i s)"
  proof
    assume "is_allowed c (Some i) s t"
    then obtain ident where ident: "engine_identity c i = Some ident" "scan_grants s t (i_allowed_servers ident) \<noteq> None"
      by (auto simp: is_allowed_def matching_grant_def split: option.splits)
    then have mem: "ident \<in> set (p_identities (e_policy c))" "i_id ident = i"
      using engine_identity_iff [OF valid(2)] by auto
    from list_all2_left [OF sg] mem(1) obtain w where "w \<in> set is" "source_grants ident w" by blast
    from per_identity [OF this] ident mem show "t \<in> set (observed_tools ob i s)" by simp
  next
    assume t: "t \<in> set (observed_tools ob i s)"
    then have ne: "observed_tools ob i s \<noteq> []" by auto
    have "map_of ob i \<noteq> None" using observed_server_mem(1) [OF ne] by (simp add: map_of_eq_None_iff)
    then have kept: "kept base ob i" by (simp add: kept_def)
    from observed_server_mem(1) [OF ne] known(1) obtain b where "engine_identity base i = Some b"
      by (auto simp: missing_identities_def filter_empty_conv)
    then have "b \<in> set (p_identities (e_policy base))" "i_id b = i" using engine_identity_iff [OF valid(1)] by auto
    then have "Some i \<in> set (map (Some \<circ> i_id) (p_identities (e_policy base)))" by force
    then obtain v where "v \<in> set vs" "source_id v = Some i" using ids by (metis imageE list.set_map)
    with ci kept obtain w where w: "w \<in> set is" "source_id w = Some i" by blast
    from list_all2_right [OF sg] w(1) obtain ident where ident: "ident \<in> set (p_identities (e_policy c))" "source_grants ident w"
      by blast
    with w(2) have id: "i_id ident = i" by (auto simp: source_grants_def source_id_def)
    then have "engine_identity c i = Some ident" using engine_identity_iff [OF valid(2)] ident(1) by simp
    with per_identity [OF w(1) ident(2)] t id show "is_allowed c (Some i) s t"
      by (simp add: is_allowed_def matching_grant_def)
  qed
  with version show ?thesis by simp
qed

section \<open>Properties\<close>

lemma scaffold_span_InrE:
  assumes "scaffold_span V I window highest a b = Inr R"
  obtains st data n m where
    "sr_from_seq R = a" "sr_to_seq R = b" "read_span V (si_rows I) a b = Inr st"
    "candidate_data (se_yaml_load V) (si_engine I) highest (sc_observed st) = Inr (data, n, m)"
    "sr_policy R = render (se_yaml_dump V) data (si_engine I) window a b (a = 1)"
    "se_load_policy V (sr_policy R) = Inr (sr_candidate R)" "sr_verified R = sc_verified st"
  using assms
  by (auto simp: scaffold_span_def Let_def bind_sc_Inr_iff load_candidate_text_def
      split: if_split_asm sum.split_asm)

lemma scaffold_InrE:
  assumes "scaffold V I source window = Inr R"
  obtains highest a b where "highest_version (si_versions I) = Some highest"
    "scaffold_span V I window highest a b = Inr R"
  using assms
  by (auto simp: scaffold_def Let_def bind_sc_Inr_iff split: if_split_asm option.split_asm)

lemma grant_of_Some:
  "grant_of r = Inr (Some (i, s, t)) \<Longrightarrow>
     a_event_type r \<in> set terminals \<and> dget (a_payload r) ''mode'' = JStr ''observe'' \<and>
     a_identity_id r = i \<and> a_server_id r = Some s \<and> a_tool_name r = Some t \<and> t \<noteq> ''*''"
  by (auto simp: grant_of_def given_iff split: if_splits)

text \<open>
  C23: A scaffold allows exactly what was observed. When one is returned (and YAML reads
  back what it prints), its rows are all those of its span, without a gap and verified;
  the candidate lets an identity call a tool of a server just when one of these rows
  records that call with an observed outcome; it is newer than every recorded revision.
\<close>

theorem scaffold_allows_exactly_the_observed:
  assumes "scaffold V I source window = Inr R"
    and "se_yaml_load V (e_raw (si_engine I)) = Inr (JObj raw)" and "source_matches (si_engine I) raw"
    and "engine_valid (si_engine I)" and "engine_valid (sr_candidate R)"
    and "\<forall>data. se_load_policy V (render (se_yaml_dump V) data (si_engine I) window (sr_from_seq R) (sr_to_seq R)
           (sr_from_seq R = 1)) = Inr (sr_candidate R) \<longrightarrow> reads_as (sr_candidate R) data"
  shows "(\<forall>v \<in> set (si_versions I). v < engine_version (sr_candidate R)) \<and>
    (let rs = rows_between (sr_from_seq R) (sr_to_seq R) (si_rows I)
     in map a_seq rs = map (\<lambda>k. sr_from_seq R + int k) [0..<length rs] \<and>
        sr_to_seq R = sr_from_seq R + int (length rs) - 1 \<and> sr_verified R = length rs \<and>
        (\<exists>h0 h. (sr_from_seq R = 1 \<longrightarrow> rs \<noteq> [] \<longrightarrow> h0 = genesis_hash) \<and>
           verify_all (verify_record (se_verifier V) (se_load_public V) None) h0 rs = Inr h) \<and>
        (\<forall>i s t. is_allowed (sr_candidate R) (Some i) s t \<longleftrightarrow>
           (\<exists>r \<in> set rs. grant_of r = Inr (Some (i, s, t)))))"
proof -
  from scaffold_InrE [OF assms(1)] obtain highest a b where
    high: "highest_version (si_versions I) = Some highest" and run: "scaffold_span V I window highest a b = Inr R" .
  from scaffold_span_InrE [OF run] obtain st data n m where
    span: "read_span V (si_rows I) (sr_from_seq R) (sr_to_seq R) = Inr st"
    and cd: "candidate_data (se_yaml_load V) (si_engine I) highest (sc_observed st) = Inr (data, n, m)"
    and policy: "sr_policy R = render (se_yaml_dump V) data (si_engine I) window (sr_from_seq R) (sr_to_seq R) (sr_from_seq R = 1)"
      "se_load_policy V (sr_policy R) = Inr (sr_candidate R)"
    and ver: "sr_verified R = sc_verified st" by metis
  let ?rs = "rows_between (sr_from_seq R) (sr_to_seq R) (si_rows I)"
  let ?V = "verify_record (se_verifier V) (se_load_public V) None"
  let ?st = "\<lparr>sc_previous = chain_start (sr_from_seq R), sc_expected = sr_from_seq R, sc_observed = [],
      sc_qualifying = 0, sc_verified = 0\<rparr>"
  from span have run: "scan_span ?V ?rs ?st = Inr st" and fin: "sc_expected st = sr_to_seq R + 1"
    by (auto simp: read_span_def bind_sc_Inr_iff split: if_splits)
  have "no_empty (sc_observed ?st)" by (simp add: no_empty_def)
  note f = scan_span_Inr [OF run this, simplified]
  have seen: "t \<in> set (observed_tools (sc_observed st) i s) \<longleftrightarrow> (\<exists>r \<in> set ?rs. grant_of r = Inr (Some (i, s, t)))"
    for i s t using f by (simp add: observed_tools_def or_nil_def)
  have star: "\<forall>i s. ''*'' \<notin> set (observed_tools (sc_observed st) i s)"
    unfolding seen by (auto dest: grant_of_Some)
  have "reads_as (sr_candidate R) data" using assms(6) policy by simp
  from candidate_grants_exactly [OF cd assms(2-5) this _ star] f
  have c: "engine_version (sr_candidate R) = highest + 1"
    "\<And>i s t. is_allowed (sr_candidate R) (Some i) s t \<longleftrightarrow> t \<in> set (observed_tools (sc_observed st) i s)"
    by blast+
  have "\<forall>v \<in> set (si_versions I). v \<le> highest"
    using high by (auto simp: highest_version_def split: if_splits)
  then have "\<forall>v \<in> set (si_versions I). v < engine_version (sr_candidate R)" using c(1) by fastforce
  moreover have "\<exists>h0 h. (sr_from_seq R = 1 \<longrightarrow> ?rs \<noteq> [] \<longrightarrow> h0 = genesis_hash) \<and> verify_all ?V h0 ?rs = Inr h"
  proof -
    obtain h where "verify_all ?V (start_hash (chain_start (sr_from_seq R)) ?rs) ?rs = Inr h" using f by blast
    moreover have "sr_from_seq R = 1 \<longrightarrow> start_hash (chain_start (sr_from_seq R)) ?rs = genesis_hash"
      by (simp add: chain_start_def start_hash_def)
    ultimately show ?thesis by blast
  qed
  moreover have "sr_to_seq R = sr_from_seq R + int (length ?rs) - 1" "sr_verified R = length ?rs"
    using f fin ver by simp_all
  ultimately show ?thesis using f unfolding Let_def c(2) seen by blast
qed

definition sample_server :: upstream_server where
  "sample_server =
     \<lparr>us_image = ''img'', us_command = [], us_env = [], us_volumes = [], us_network = NetNone,
      us_resources = default_resources, us_resolved_environment = []\<rparr>"

definition scaffold_base :: policy_engine where
  "scaffold_base =
     sample_engine\<lparr>e_policy := sample_policy\<lparr>p_servers := [(''srv'', sample_server)]\<rparr>\<rparr>"

definition scaffold_source :: jdict where
  "scaffold_source =
     [(''servers'', JObj [(''srv'', JObj [])]), (''identities'', JArr [JObj [(''id'', JStr ''alice'')]])]"

definition read_grant :: server_grant where
  "read_grant = \<lparr>g_server_id = ''srv'', g_allowed_tools = [''read''], g_denied_tools = [], g_conditions = [],
     g_compiled = []\<rparr>"

definition scaffold_candidate :: policy_engine where
  "scaffold_candidate =
     scaffold_base\<lparr>e_policy := (e_policy scaffold_base)\<lparr>p_version := 2,
       p_identities := [sample_identity\<lparr>i_allowed_servers := [read_grant]\<rparr>]\<rparr>\<rparr>"

definition scaffold_data :: jdict where
  "scaffold_data =
     [(''version'', JInt 2), (''servers'', JObj [(''srv'', JObj [])]),
      (''identities'', JArr [JObj [(''id'', JStr ''alice''), (''allowed_servers'', JArr [grant_json ''srv'' [''read'']])]]),
      (''risk'', JObj [(''tool_sensitivity'', JObj []), (''protected_repos'', JArr [])])]"

abbreviation first_day :: string where
  "first_day \<equiv> ''1970-01-01..1970-01-01''"

definition scaffold_text :: "string \<Rightarrow> string" where
  "scaffold_text dumped = render (\<lambda>_. dumped) [] scaffold_base first_day 1 1 True"

definition scaffold_services :: scaffold_env where
  "scaffold_services =
     \<lparr>se_verifier = sample_env, se_load_public = (\<lambda>_. Inr ''pub''), se_yaml_load = (\<lambda>_. Inr (JObj scaffold_source)),
      se_yaml_dump = (\<lambda>d. if d = scaffold_data then ''x'' else ''y''),
      se_load_policy = (\<lambda>raw. if raw = scaffold_text ''x'' then Inr scaffold_candidate else Inl TypeError),
      se_now = 90000\<rparr>"

definition observed_row :: audit_row where
  "observed_row = sample_row\<lparr>a_timestamp := 60, a_server_id := Some ''srv'', a_tool_name := Some ''read'',
     a_payload := payload_fields EV_ALLOW ''alice'' (Some ''srv'') (Some ''read'') 1 ''k'' @ [(''mode'', JStr ''observe'')]\<rparr>"

definition scaffold_state :: scaffold_input where
  "scaffold_state =
     \<lparr>si_engine = scaffold_base, si_versions = [1], si_rows = [observed_row], si_engine_replaced = False,
      si_later_versions = [1]\<rparr>"

definition sample_scaffold :: scaffold_result where
  "sample_scaffold =
     \<lparr>sr_policy = scaffold_text ''x'', sr_from_seq = 1, sr_to_seq = 1, sr_verified = 1, sr_qualifying = 1,
      sr_anchored = True, sr_candidate = scaffold_candidate, sr_grants = 1, sr_server_tools = 1\<rparr>"

lemma sample_scaffold_run: "scaffold scaffold_services scaffold_state ''audit'' first_day = Inr sample_scaffold"
  by code_simp

lemma render_text:
  "render dump data scaffold_base first_day 1 1 True = scaffold_text (dump data)"
  unfolding render_def scaffold_text_def ..

lemma texts_differ: "scaffold_text ''y'' \<noteq> scaffold_text ''x''"
  by code_simp

lemma sample_source: "source_matches scaffold_base scaffold_source"
  by (simp add: source_matches_def scaffold_base_def scaffold_source_def dget_def
      sample_engine_def sample_policy_def sample_identity_def source_id_def)

lemma sample_valid: "engine_valid scaffold_base" "engine_valid scaffold_candidate"
  by (simp_all add: engine_valid_def scaffold_base_def scaffold_candidate_def
      sample_engine_def sample_policy_def sample_identity_def check_servers_def given_def read_grant_def)

lemma sample_reads_as: "reads_as scaffold_candidate scaffold_data"
  by (simp add: reads_as_def source_grants_def scaffold_candidate_def scaffold_base_def scaffold_data_def dget_def
      sample_engine_def sample_policy_def sample_identity_def read_grant_def engine_version_def grants_json_def)

lemma sample_reads_back:
  "se_load_policy scaffold_services (render (se_yaml_dump scaffold_services) data scaffold_base first_day 1 1 True) =
     Inr c \<Longrightarrow> reads_as c data"
  unfolding render_text scaffold_services_def
  using texts_differ sample_reads_as by (simp split: if_splits)

theorem scaffold_allows_exactly_the_observed_witness:
  "is_allowed scaffold_candidate (Some ''alice'') ''srv'' ''read'' \<and>
   \<not> is_allowed scaffold_candidate (Some ''alice'') ''srv'' ''write'' \<and> 1 < engine_version scaffold_candidate"
proof -
  have fields: "si_engine scaffold_state = scaffold_base" "sr_candidate sample_scaffold = scaffold_candidate"
    "sr_from_seq sample_scaffold = 1" "sr_to_seq sample_scaffold = 1" "si_versions scaffold_state = [1]"
    "si_rows scaffold_state = [observed_row]" "se_yaml_load scaffold_services raw = Inr (JObj scaffold_source)" for raw
    by (simp_all add: scaffold_state_def sample_scaffold_def scaffold_services_def)
  have rows: "rows_between 1 1 [observed_row] = [observed_row]" by code_simp
  have grant: "grant_of observed_row = Inr (Some (''alice'', ''srv'', ''read''))" by code_simp
  note run = scaffold_allows_exactly_the_observed [OF sample_scaffold_run, unfolded fields, OF refl sample_source sample_valid]
  have "\<forall>data. se_load_policy scaffold_services (render (se_yaml_dump scaffold_services) data scaffold_base first_day 1 1 (1 = (1 :: int))) =
      Inr scaffold_candidate \<longrightarrow> reads_as scaffold_candidate data"
    using sample_reads_back by simp
  from run [OF this] have "\<forall>v \<in> set [1]. v < engine_version scaffold_candidate"
    and "\<forall>i s t. is_allowed scaffold_candidate (Some i) s t \<longleftrightarrow> (\<exists>r \<in> set [observed_row]. grant_of r = Inr (Some (i, s, t)))"
    unfolding Let_def rows by blast+
  then show ?thesis by (simp add: grant)
qed

end
