(* ===== verification/AuditKeys.thy ===== *)
theory AuditKeys
  imports Journal PolicyEngine
begin

text \<open>
  \<open>services/gateway/audit_keys.py\<close> and the rotation of \<open>services/gateway/audit_log.py\<close>:
  the store of audit signing keys, the journalled rotation and its recovery. Keys are PEM
  texts; what the cryptography package makes of them is a parameter.
\<close>

section \<open>The disk\<close>

record rotation =
  rt_id :: string
  rt_old_key_id :: string
  rt_new_key_id :: string
  rt_approved_by :: string
  rt_phase :: string
  rt_audit_seq :: "int option"

record key_disk = "rotation journaled" +
  kd_public :: "(string \<times> string) list"

text \<open>
  The key id of a private and of a public PEM (or why it does not load), the public PEM of
  a private one.
\<close>

record key_env =
  ke_private_id :: "string \<Rightarrow> string res"
  ke_public_id :: "string \<Rightarrow> string res"
  ke_public_pem :: "string \<Rightarrow> string"

section \<open>The key store\<close>

definition partition_colon :: "string \<Rightarrow> string \<times> string \<times> string" where
  "partition_colon s =
     (let a = takeWhile (\<lambda>c. c \<noteq> CHR '':'') s
      in if CHR '':'' \<in> set s then (a, '':'', drop (length a + 1) s) else (a, [], []))"

definition public_path :: "string \<Rightarrow> string res" where
  "public_path key_id =
     (case partition_colon key_id of
        (algorithm, separator, digest) \<Rightarrow>
          if algorithm \<noteq> ''sha256'' \<or> separator \<noteq> '':'' \<or> length digest \<noteq> 64
          then Inl (ValueError (''invalid audit key id '' @ py_repr key_id))
          else if \<not> int16_ok digest then Inl (ValueError ''invalid literal for int() with base 16'')
          else Inr (digest @ ''.pub.pem''))"

definition public_mismatch :: "string \<Rightarrow> string \<Rightarrow> string" where
  "public_mismatch path key_id = ''public key file '' @ path @ '' does not match '' @ key_id"

text \<open>A public key file is created, then filled: two effects.\<close>

definition put_public :: "string \<Rightarrow> string \<Rightarrow> (key_disk machine, unit) io" where
  "put_public path content = effect (\<lambda>d. d\<lparr>kd_public := al_put path content (kd_public d)\<rparr>)"

definition ensure_public :: "key_env \<Rightarrow> string \<Rightarrow> (key_disk machine, string) io" where
  "ensure_public K private =
     bind_io (of_res (ke_private_id K private)) (\<lambda>key_id.
     bind_io (of_res (public_path key_id)) (\<lambda>path.
     bind_io (look (\<lambda>d. map_of (kd_public d) path)) (\<lambda>file. case file of
       Some content \<Rightarrow>
         if content \<noteq> ke_public_pem K private then raise_io (ValueError (public_mismatch path key_id))
         else ret_io path
     | None \<Rightarrow>
         bind_io (put_public path []) (\<lambda>_.
         bind_io (put_public path (ke_public_pem K private)) (\<lambda>_. ret_io path)))))"

definition load_private :: "key_env \<Rightarrow> string option \<Rightarrow> string res" where
  "load_private K file =
     (case file of None \<Rightarrow> Inl (OSError ''FileNotFoundError'') | Some pem \<Rightarrow> ke_private_id K pem)"

definition load_public :: "key_env \<Rightarrow> key_disk \<Rightarrow> string \<Rightarrow> string res" where
  "load_public K d key_id =
     bind_res (public_path key_id) (\<lambda>path.
       case map_of (kd_public d) path of
         None \<Rightarrow> Inl (OSError ''FileNotFoundError'')
       | Some pem \<Rightarrow>
           bind_res (ke_public_id K pem) (\<lambda>i.
             if i \<noteq> key_id then Inl (ValueError (''public key fingerprint mismatch for '' @ key_id))
             else Inr pem))"

definition public_count :: "key_disk \<Rightarrow> nat" where
  "public_count d = length (filter (suffix ''.pub.pem'') (map fst (kd_public d)))"

definition initialize :: "key_env \<Rightarrow> (key_disk machine, string \<times> string) io" where
  "initialize K =
     bind_io (look jd_active) (\<lambda>file.
     bind_io (of_res (load_private K file)) (\<lambda>key_id.
     case file of
       None \<Rightarrow> raise_io (OSError ''FileNotFoundError'')
     | Some pem \<Rightarrow> bind_io (ensure_public K pem) (\<lambda>_. ret_io (pem, key_id))))"

section \<open>Rotation\<close>

definition new_rotation :: "string \<Rightarrow> string \<Rightarrow> string \<Rightarrow> string \<Rightarrow> rotation" where
  "new_rotation op_id old_id new_id who =
     \<lparr>rt_id = op_id, rt_old_key_id = old_id, rt_new_key_id = new_id, rt_approved_by = who,
      rt_phase = ''prepared'', rt_audit_seq = None\<rparr>"

definition prepare_rotation ::
  "key_env \<Rightarrow> string \<Rightarrow> string \<Rightarrow> string \<Rightarrow> (key_disk machine, rotation) io" where
  "prepare_rotation K op_id fresh who =
     bind_io read_journal (\<lambda>j.
     if j \<noteq> None then raise_io (RuntimeError ''audit key rotation recovery is pending'')
     else bind_io (look jd_active) (\<lambda>file.
       bind_io (of_res (load_private K file)) (\<lambda>old_id.
       bind_io (of_res (ke_private_id K fresh)) (\<lambda>new_id.
       bind_io (ensure_public K fresh) (\<lambda>_.
       bind_io (write_pending fresh) (\<lambda>_.
         let rot = new_rotation op_id old_id new_id who
         in bind_io (write_journal rot) (\<lambda>_. ret_io rot)))))))"

definition rotation_handed_off :: "rotation \<Rightarrow> int \<Rightarrow> rotation" where
  "rotation_handed_off rot seq = rot\<lparr>rt_phase := ''handoff'', rt_audit_seq := Some seq\<rparr>"

definition mark_rotation :: "rotation \<Rightarrow> int \<Rightarrow> (key_disk machine, rotation) io" where
  "mark_rotation rot seq =
     bind_io (write_journal (rotation_handed_off rot seq)) (\<lambda>_. ret_io (rotation_handed_off rot seq))"

definition check_key :: "key_env \<Rightarrow> rotation \<Rightarrow> string \<Rightarrow> unit res" where
  "check_key K rot pem =
     bind_res (ke_private_id K pem) (\<lambda>i.
       if i \<noteq> rt_new_key_id rot
       then Inl (ValueError ''pending audit private key does not match rotation journal'') else Inr ())"

definition promote_key :: "key_env \<Rightarrow> rotation \<Rightarrow> (key_disk machine, unit) io" where
  "promote_key K rot = promote_pending (check_key K rot) (rot\<lparr>rt_phase := ''promoted''\<rparr>)"

definition key_already_active :: "key_env \<Rightarrow> rotation \<Rightarrow> string option \<Rightarrow> bool res" where
  "key_already_active K rot file = bind_res (load_private K file) (\<lambda>i. Inr (i = rt_new_key_id rot))"

definition settle_rotation :: "key_env \<Rightarrow> rotation \<Rightarrow> int list \<Rightarrow> (key_disk machine, unit) io" where
  "settle_rotation K rot =
     settle (key_already_active K rot) (\<lambda>seq. promote_key K (rotation_handed_off rot seq))
       ''audited key rotation has no pending private key''"

definition recover_journal :: "key_env \<Rightarrow> (key_disk machine, unit) io" where
  "recover_journal K = recovery EV_AUDIT_KEY_ROTATED rt_id (settle_rotation K)"

definition recover_keys :: "key_env \<Rightarrow> (key_disk machine, string \<times> string) io" where
  "recover_keys K = bind_io (recover_journal K) (\<lambda>_. initialize K)"

text \<open>\<open>AuditWriter.rotate\<close>, on the writer's key fields.\<close>

record key_writer =
  kw_signing_key :: string
  kw_key_id :: string
  kw_available :: bool

definition rotated_entry :: "rotation \<Rightarrow> audit_entry" where
  "rotated_entry rot =
     \<lparr>w_event = EV_AUDIT_KEY_ROTATED, w_identity = rt_approved_by rot, w_server = None, w_tool = None,
      w_extra = [(''operation_id'', JStr (rt_id rot)), (''old_key_id'', JStr (rt_old_key_id rot)),
        (''new_key_id'', JStr (rt_new_key_id rot))], w_risk = None\<rparr>"

definition start_rotation ::
  "key_env \<Rightarrow> string \<Rightarrow> string \<Rightarrow> string \<Rightarrow> (key_disk machine, rotation \<times> int) io" where
  "start_rotation K op_id fresh who =
     bind_io (prepare_rotation K op_id fresh who) (\<lambda>rot.
     bind_io (write_row (rotated_entry rot)) (\<lambda>seq. ret_io (rot, seq)))"

definition complete_rotation ::
  "key_env \<Rightarrow> string \<Rightarrow> rotation \<Rightarrow> int \<Rightarrow> (key_writer \<times> key_disk machine, int \<times> string \<times> string) io" where
  "complete_rotation K fresh rot seq =
     bind_io (outer (mark_rotation rot seq)) (\<lambda>rot'.
     bind_io (outer (promote_key K rot')) (\<lambda>_.
     bind_io (\<lambda>p. (Inr (), ((fst p)\<lparr>kw_signing_key := fresh, kw_key_id := rt_new_key_id rot'\<rparr>, snd p))) (\<lambda>_.
     bind_io (outer finish) (\<lambda>_. ret_io (seq, rt_old_key_id rot', rt_new_key_id rot')))))"

definition set_unavailable :: "(key_writer \<times> key_disk machine, unit) io" where
  "set_unavailable p = (Inr (), ((fst p)\<lparr>kw_available := False\<rparr>, snd p))"

definition rotate_key ::
  "key_env \<Rightarrow> string \<Rightarrow> string \<Rightarrow> string \<Rightarrow> (key_writer \<times> key_disk machine, int \<times> string \<times> string) io" where
  "rotate_key K op_id fresh who p =
     (if \<not> kw_available (fst p) then (Inl (RuntimeError ''audit signing-key recovery is pending''), p)
      else bind_io
        (outer (catch_io (start_rotation K op_id fresh who) (\<lambda>x. bind_io finish (\<lambda>_. raise_io x))))
        (\<lambda>(rot, seq). catch_io (complete_rotation K fresh rot seq)
           (\<lambda>x. bind_io set_unavailable (\<lambda>_. raise_io x))) p)"

section \<open>Atomicity\<close>

abbreviation rotation_rows :: "string \<Rightarrow> key_disk \<Rightarrow> int list" where
  "rotation_rows \<equiv> rows_of EV_AUDIT_KEY_ROTATED"

definition rotates_to :: "string \<Rightarrow> string \<Rightarrow> rotation \<Rightarrow> bool" where
  "rotates_to op_id k rot \<longleftrightarrow> rt_id rot = op_id \<and> rt_new_key_id rot = k"

definition is_key :: "key_env \<Rightarrow> string \<Rightarrow> string \<Rightarrow> bool" where
  "is_key K k pem \<longleftrightarrow> ke_private_id K pem = Inr k"

abbreviation key_promotable :: "key_env \<Rightarrow> string \<Rightarrow> string \<Rightarrow> string option \<Rightarrow> key_disk \<Rightarrow> bool" where
  "key_promotable K op_id k \<equiv> promotable EV_AUDIT_KEY_ROTATED op_id (rotates_to op_id k) (is_key K k)"

abbreviation key_on_track :: "key_env \<Rightarrow> string \<Rightarrow> string \<Rightarrow> string option \<Rightarrow> bool \<Rightarrow> key_disk \<Rightarrow> bool" where
  "key_on_track K op_id k \<equiv> on_track EV_AUDIT_KEY_ROTATED op_id (rotates_to op_id k) (is_key K k)"

abbreviation key_in_force :: "key_env \<Rightarrow> string \<Rightarrow> string \<Rightarrow> string option \<Rightarrow> bool \<Rightarrow> key_disk \<Rightarrow> bool" where
  "key_in_force K op_id k \<equiv> in_force EV_AUDIT_KEY_ROTATED op_id (rotates_to op_id k) (is_key K k)"

lemma holds_key: "holds (is_key K k) file \<longleftrightarrow> load_private K file = Inr k"
  by (cases "file") (auto simp: holds_def is_key_def load_private_def)

lemma rotates_to_updates [simp]:
  "rotates_to op_id k (rotation_handed_off rot seq) = rotates_to op_id k rot"
  "rotates_to op_id k (rot\<lparr>rt_phase := p\<rparr>) = rotates_to op_id k rot"
  by (simp_all add: rotates_to_def rotation_handed_off_def)

lemma promote_key_passes:
  "rotates_to op_id k rot \<Longrightarrow> b \<Longrightarrow>
     passes (key_on_track K op_id k old b) (promote_key K rot) (key_on_track K op_id k old b)
       (\<lambda>_. key_in_force K op_id k old b)"
  unfolding promote_key_def
  by (intro promote_on_track)
    (auto simp: check_key_def is_key_def rotates_to_def bind_res_Inr_iff split: if_splits)

lemma settle_rotation_passes:
  assumes "rotates_to op_id k rot"
  shows "passes (key_on_track K op_id k old b) (settle_rotation K rot rows)
    (\<lambda>d. key_on_track K op_id k old b d \<and> rotation_rows op_id d = rows)
    (\<lambda>_ d. key_in_force K op_id k old b d \<and> jd_journal d = None)"
  unfolding settle_rotation_def using assms
  by (intro settle_on_track promote_key_passes)
    (auto simp: key_already_active_def holds_key rotates_to_def [of _ _ rot] bind_res_Inr_iff)

lemma recover_journal_passes:
  "passes (key_on_track K op_id k old b) (recover_journal K) (key_on_track K op_id k old b)
    (\<lambda>_ d. key_in_force K op_id k old b d \<and> jd_journal d = None)"
  unfolding recover_journal_def by (intro recovery_on_track settle_rotation_passes) (auto simp: rotates_to_def)

lemma recover_journal_returns:
  assumes "key_promotable K op_id k old d" and "load_private K old = Inr k0"
  shows "\<exists>r M. recover_journal K (power_on d []) = (Inr r, M)"
proof (cases "jd_journal d")
  case None
  then show ?thesis by (simp add: recover_journal_def settle_simps)
next
  case (Some rot)
  with assms(1) have rot: "rotates_to op_id k rot" "length (rotation_rows op_id d) \<le> 1"
    by (simp_all add: promotable_def)
  show ?thesis
  proof (cases "rotation_rows op_id d")
    case Nil
    with Some rot show ?thesis by (simp add: recover_journal_def settle_rotation_def settle_simps rotates_to_def)
  next
    case (Cons seq ss)
    with rot have "ss = []" by simp
    then show ?thesis
      using assms Some rot Cons
      by (cases "jd_pending d")
        (auto simp: recover_journal_def settle_rotation_def settle_simps promote_key_def key_already_active_def
          check_key_def promotable_def holds_key load_private_def rotates_to_def rotation_handed_off_def)
  qed
qed

interpretation key_recovery: crash_recovery "recover_journal K"
  "\<lambda>d. key_promotable K op_id k old d \<and> load_private K old = Inr k0"
  "\<lambda>d. rotation_rows op_id d \<noteq> []" "\<lambda>d. jd_journal d = None"
  "\<lambda>d. load_private K (jd_active d) = Inr k" "\<lambda>d. jd_active d = old"
  for K op_id k old k0
proof unfold_locales
  fix b
  show "passes (\<lambda>d. (key_promotable K op_id k old d \<and> load_private K old = Inr k0) \<and> (rotation_rows op_id d \<noteq> []) = b)
    (recover_journal K)
    (\<lambda>d. (key_promotable K op_id k old d \<and> load_private K old = Inr k0) \<and> (rotation_rows op_id d \<noteq> []) = b)
    (\<lambda>_ d. (key_promotable K op_id k old d \<and> load_private K old = Inr k0) \<and>
       (rotation_rows op_id d \<noteq> []) = b \<and> jd_journal d = None)"
  proof (cases "load_private K old = Inr k0")
    case True
    then show ?thesis
      using recover_journal_passes [of op_id k K old b]
      unfolding on_track_def in_force_def by (auto elim: passes_mono)
  qed (auto intro: passes_never)
next
  fix d
  assume d: "key_promotable K op_id k old d \<and> load_private K old = Inr k0"
  then show "\<exists>r M. recover_journal K (power_on d []) = (Inr r, M)" using recover_journal_returns by blast
  assume "jd_journal d = None"
  with d show "if rotation_rows op_id d \<noteq> [] then load_private K (jd_active d) = Inr k else jd_active d = old"
    by (auto simp: promotable_def holds_key)
qed

text \<open>The phases of a rotation.\<close>

lemma ensure_public_passes:
  assumes "\<And>d s. I d \<Longrightarrow> I (d\<lparr>kd_public := s\<rparr>)" and "\<And>d. I d \<Longrightarrow> P d"
  shows "passes P (ensure_public K pem) I (\<lambda>_. I)"
proof -
  have put: "passes P (put_public path c) I (\<lambda>_. I)" for path c
    unfolding put_public_def by (rule keeps_effect) (use assms in \<open>blast\<close>)
  have filled: "passes P (bind_io (put_public path c) (\<lambda>_. bind_io (put_public path c') (\<lambda>_. ret_io path)))
      I (\<lambda>_. I)" for path c c'
    by (intro passes_bind [OF put] passes_retI)
  show ?thesis
    unfolding ensure_public_def
    by (intro passes_of_res_bind passes_look_bind)
      (auto split: option.splits intro: passes_raise passes_retI passes_weaken [OF filled])
qed

lemma recover_keys_passes:
  "passes (key_on_track K op_id k old b) (recover_keys K) (key_on_track K op_id k old b)
    (\<lambda>_ d. key_in_force K op_id k old b d \<and> jd_journal d = None)"
proof -
  have "passes (key_on_track K op_id k old b) (initialize K) (\<lambda>d. key_in_force K op_id k old b d \<and> jd_journal d = None)
      (\<lambda>_ d. key_in_force K op_id k old b d \<and> jd_journal d = None)"
    unfolding initialize_def
    by (intro passes_look_bind passes_of_res_bind)
      (auto split: option.splits simp: in_force_def on_track_def promotable_def rows_of_def
        intro!: passes_raise passes_bind [OF ensure_public_passes passes_retI])
  then show ?thesis
    unfolding recover_keys_def by (intro passes_bind [OF recover_journal_passes])
qed

interpretation keys_restart: crash_restart "recover_keys K"
  "\<lambda>d. key_promotable K op_id k old d \<and> load_private K old = Inr k0"
  "\<lambda>d. rotation_rows op_id d \<noteq> []" "\<lambda>d. jd_journal d = None"
  "\<lambda>d. load_private K (jd_active d) = Inr k" "\<lambda>d. jd_active d = old"
  for K op_id k old k0
proof unfold_locales
  fix b
  show "passes (\<lambda>d. (key_promotable K op_id k old d \<and> load_private K old = Inr k0) \<and> (rotation_rows op_id d \<noteq> []) = b)
    (recover_keys K)
    (\<lambda>d. (key_promotable K op_id k old d \<and> load_private K old = Inr k0) \<and> (rotation_rows op_id d \<noteq> []) = b)
    (\<lambda>_ d. (key_promotable K op_id k old d \<and> load_private K old = Inr k0) \<and>
       (rotation_rows op_id d \<noteq> []) = b \<and> jd_journal d = None)"
  proof (cases "load_private K old = Inr k0")
    case True
    then show ?thesis
      using recover_keys_passes [of op_id k K old b]
      unfolding on_track_def in_force_def by (auto elim: passes_mono)
  qed (auto intro: passes_never)
next
  fix d
  assume "key_promotable K op_id k old d \<and> load_private K old = Inr k0" and "jd_journal d = None"
  then show "if rotation_rows op_id d \<noteq> [] then load_private K (jd_active d) = Inr k else jd_active d = old"
    by (auto simp: promotable_def holds_key)
qed

lemma prepare_rotation_passes:
  assumes "ke_private_id K fresh = Inr k"
  shows "passes (key_promotable K op_id k old) (prepare_rotation K op_id fresh who)
    (idle EV_AUDIT_KEY_ROTATED op_id old)
    (\<lambda>rot d. rotates_to op_id k rot \<and>
       prepared EV_AUDIT_KEY_ROTATED op_id (rotates_to op_id k) (is_key K k) old d)"
proof -
  let ?P = "key_promotable K op_id k old" and ?I = "idle EV_AUDIT_KEY_ROTATED op_id old"
  let ?prep = "prepared EV_AUDIT_KEY_ROTATED op_id (rotates_to op_id k) (is_key K k) old"
  have public: "passes ?P (ensure_public K fresh) ?I (\<lambda>_. ?I)"
    by (rule ensure_public_passes) (auto simp: idle_def promotable_def rows_of_def)
  have pending: "passes ?P (write_pending fresh) ?I (\<lambda>_ d. ?I d \<and> jd_pending d = Some fresh)"
    unfolding write_pending_def by (rule keeps_effect) (auto simp: idle_def promotable_def)
  have journal: "passes ?P (write_journal (new_rotation op_id i k who))
      (\<lambda>d. ?I d \<and> jd_pending d = Some fresh) (\<lambda>_. ?prep)" for i
    unfolding write_journal_def
    by (rule keeps_effect)
      (use assms in \<open>auto simp: idle_def promotable_def prepared_def new_rotation_def rotates_to_def holds_def is_key_def\<close>)
  have noted: "passes ?P
      (bind_io (write_journal (new_rotation op_id i n who)) (\<lambda>_. ret_io (new_rotation op_id i n who)))
      (\<lambda>d. ?I d \<and> jd_pending d = Some fresh) (\<lambda>rot d. rotates_to op_id k rot \<and> ?prep d)"
    if "n = k" for i n
    unfolding that
    by (rule passes_bind [OF journal], rule passes_retI) (simp add: new_rotation_def rotates_to_def)
  show ?thesis
    unfolding prepare_rotation_def read_journal_def
    apply (rule passes_look_bind)
    apply (rule passes_if, rule passes_raise)
    apply (rule passes_weaken [where I = ?I])
     apply (rule passes_look_bind)
     apply (rule passes_of_res_bind)
     apply (rule passes_of_res_bind)
     apply (rule passes_weaken [where I = ?I])
      apply (rule passes_bind [OF public])
      apply (rule passes_bind [OF pending])
      apply (simp only: Let_def)
      apply (rule noted)
    using assms apply simp_all
    done
qed

lemma start_rotation_passes:
  assumes "ke_private_id K fresh = Inr k"
  shows "passes (key_promotable K op_id k old) (start_rotation K op_id fresh who)
    (idle EV_AUDIT_KEY_ROTATED op_id old)
    (\<lambda>x d. rotates_to op_id k (fst x) \<and>
       recorded EV_AUDIT_KEY_ROTATED op_id (rotates_to op_id k) (is_key K k) old (snd x) d)"
proof -
  let ?prep = "prepared EV_AUDIT_KEY_ROTATED op_id (rotates_to op_id k) (is_key K k) old"
  have row: "passes (key_promotable K op_id k old) (write_row (rotated_entry rot)) ?prep
      (\<lambda>seq. recorded EV_AUDIT_KEY_ROTATED op_id (rotates_to op_id k) (is_key K k) old seq)"
    if "rotates_to op_id k rot" for rot
    using that by (intro write_row_records) (simp_all add: rotated_entry_def rotates_to_def)
  have row_ret: "passes (key_promotable K op_id k old)
      (bind_io (write_row (rotated_entry rot)) (\<lambda>seq. ret_io (rot, seq)))
      (\<lambda>d. rotates_to op_id k rot \<and> ?prep d)
      (\<lambda>x d. rotates_to op_id k (fst x) \<and>
        recorded EV_AUDIT_KEY_ROTATED op_id (rotates_to op_id k) (is_key K k) old (snd x) d)" for rot
    by (rule passes_pre, rule passes_bind [OF row], assumption, rule passes_retI, simp)
  show ?thesis
    unfolding start_rotation_def by (rule passes_bind [OF prepare_rotation_passes [OF assms] row_ret])
qed

lemma complete_rotation_passes:
  assumes "complete_rotation K fresh rot seq (w, M) = (r, (w', M'))"
    and "rotates_to op_id k rot"
    and "recorded EV_AUDIT_KEY_ROTATED op_id (rotates_to op_id k) (is_key K k) old seq (mc_disk M)"
  shows "passed M M' (key_on_track K op_id k old True) \<and>
    (\<forall>z. r = Inr z \<longrightarrow> kw_signing_key w' = fresh \<and> kw_key_id w' = k \<and> kw_available w' = kw_available w \<and>
       jd_journal (mc_disk M') = None \<and> key_in_force K op_id k old True (mc_disk M'))"
proof -
  let ?T = "key_on_track K op_id k old True" and ?F = "key_in_force K op_id k old True"
  let ?R = "recorded EV_AUDIT_KEY_ROTATED op_id (rotates_to op_id k) (is_key K k) old seq"
  have marks: "passes ?T (mark_rotation rot seq) ?R (\<lambda>rot' d. rotates_to op_id k rot' \<and> ?T d)"
    unfolding mark_rotation_def write_journal_def
    by (rule passes_bind [OF keeps_effect [where Q = ?R]])
      (use assms(2) recorded_on_track in \<open>auto simp: recorded_def on_track_def promotable_def intro!: passes_retI\<close>)
  obtain r0 M0 where m0: "mark_rotation rot seq M = (r0, M0)" by force
  note zero = passesD [OF marks assms(3) m0]
  show ?thesis
  proof (cases r0)
    case (Inl x)
    then show ?thesis using zero assms(1) m0 by (auto simp: complete_rotation_def bind_io_def outer_def)
  next
    case (Inr rot')
    obtain r1 M1 where m1: "promote_key K rot' M0 = (r1, M1)" by force
    have mine: "rotates_to op_id k rot'" and T: "?T (mc_disk M0)" using zero(2) Inr by simp_all
    then have new: "rt_new_key_id rot' = k" by (simp add: rotates_to_def)
    note one = passesD [OF promote_key_passes [OF mine TrueI] T m1]
    have so_far: "passed M M1 ?T" by (rule passed_trans [OF zero(1) one(1)])
    show ?thesis
    proof (cases r1)
      case Inl1: (Inl x)
      then show ?thesis using so_far assms(1) m0 Inr m1 by (auto simp: complete_rotation_def bind_io_def outer_def)
    next
      case Inr1: (Inr u)
      obtain r2 M2 where m2: "finish M1 = (r2, M2)" by force
      have "?F (mc_disk M1)" using one(2) Inr1 by simp
      note two = passesD [OF finish_in_force this m2]
      have "passed M M2 ?T" by (rule passed_trans [OF so_far two(1)])
      then show ?thesis
        using two(2) assms(1) m0 Inr m1 Inr1 m2 new
        by (cases r2) (auto simp: complete_rotation_def bind_io_def outer_def)
    qed
  qed
qed

lemma rotation_passed:
  assumes "jd_journal d = None" and "rotation_rows op_id d = []"
    and "load_private K (jd_active d) = Inr k0" and "ke_private_id K fresh = Inr k"
    and "rotate_key K op_id fresh who (w, power_on d fs) = (r, (w', M))"
    and "(\<exists>z. r = Inr z) \<or> \<not> kw_available w' \<or> rotation_rows op_id (mc_disk M) = []"
  shows "(\<forall>z. r = Inr z \<longrightarrow> kw_signing_key w' = fresh \<and> kw_key_id w' = k \<and> kw_available w' \<and>
      load_private K (jd_active (mc_disk M)) = Inr k) \<and>
    (\<forall>x \<in> disks M. key_promotable K op_id k (jd_active d) x)"
proof -
  let ?P = "key_promotable K op_id k (jd_active d)"
  let ?F = "key_in_force K op_id k (jd_active d) True"
  have idle: "idle EV_AUDIT_KEY_ROTATED op_id (jd_active d) (mc_disk (power_on d fs))"
    using assms(1,2) by (simp add: idle_def)
  then have first: "?P d" by (simp add: idle_promotable)
  obtain r1 M1 where m1: "start_rotation K op_id fresh who (power_on d fs) = (r1, M1)" by force
  note one = passesD [OF start_rotation_passes [OF assms(4)] idle m1]
  have run: "passed (power_on d fs) M ?P \<and> (\<forall>z. r = Inr z \<longrightarrow> kw_signing_key w' = fresh \<and> kw_key_id w' = k \<and>
      kw_available w' \<and> ?F (mc_disk M))"
  proof (cases "kw_available w")
    case False
    then show ?thesis using assms(5) by (auto simp: rotate_key_def)
  next
    case True
    show ?thesis
    proof (cases r1)
      case (Inl x)
      obtain ra Ma where ma: "finish M1 = (ra, Ma)" by force
      have "?P (mc_disk M1)" using one(1) first by (auto simp: passed_def)
      note aborted = abort_passed [OF ma this]
      have "\<exists>y. r = Inl y" "w' = w" "M = Ma"
        using assms(5) True m1 Inl ma
        by (auto simp: rotate_key_def bind_io_def outer_def catch_io_def split: sum.splits prod.splits)
      then show ?thesis
        using aborted one(1) assms(6) True by (auto split: if_splits intro: passed_trans)
    next
      case (Inr z)
      obtain rot seq where z: "z = (rot, seq)" by force
      obtain r2 w2 M2 where m2: "complete_rotation K fresh rot seq (w, M1) = (r2, (w2, M2))"
        by (metis prod.collapse)
      have "rotates_to op_id k rot"
        and "recorded EV_AUDIT_KEY_ROTATED op_id (rotates_to op_id k) (is_key K k) (jd_active d) seq (mc_disk M1)"
        using one(2) Inr z by simp_all
      note two = complete_rotation_passes [OF m2 this]
      have "passed M1 M2 ?P" using two by (blast intro: passed_mono on_track_def [THEN iffD1, THEN conjunct1])
      then have "passed (power_on d fs) M2 ?P" by (rule passed_trans [OF one(1)])
      moreover have "M = M2" "\<forall>z. r = Inr z \<longrightarrow> r2 = Inr z \<and> w' = w2"
        using assms(5) True m1 Inr z m2
        by (auto simp: rotate_key_def bind_io_def outer_def catch_io_def set_unavailable_def
            split: sum.splits prod.splits)
      ultimately show ?thesis using two True by auto
    qed
  qed
  have "?P x" if "x \<in> disks M" for x
    using conjunct1 [OF run] first that passed_throughout [of ?P "power_on d fs" M] by (auto simp: throughout_def disks_def)
  with run show ?thesis by (auto simp: in_force_def holds_key)
qed

text \<open>
  The recovery at startup also archives the public key of the key in force; that writes no
  other file, and without faults fails only when the archive holds something else under
  this key's name (such as a torn file, see below).
\<close>

definition archive_conflict :: "key_env \<Rightarrow> key_disk \<Rightarrow> string \<Rightarrow> string \<Rightarrow> bool" where
  "archive_conflict K d pem i \<longleftrightarrow>
     (\<exists>z. public_path i = Inl z) \<or>
     (\<exists>path c. public_path i = Inr path \<and> map_of (kd_public d) path = Some c \<and> c \<noteq> ke_public_pem K pem)"

lemma initialize_keeps:
  "initialize K M = (r, M') \<Longrightarrow> jd_active (mc_disk M') = jd_active (mc_disk M) \<and> jd_journal (mc_disk M') = jd_journal (mc_disk M)"
  by (auto simp: initialize_def bind_io_def ensure_public_def put_public_def effect_def Let_def
      split: option.splits sum.splits prod.splits if_splits fault.splits list.splits)

lemma initialize_result:
  assumes "mc_faults M = []" and "jd_active (mc_disk M) = Some pem" and "ke_private_id K pem = Inr i"
  shows "fst (initialize K M) = Inr (pem, i) \<or> (\<exists>z. fst (initialize K M) = Inl z) \<and> archive_conflict K (mc_disk M) pem i"
  using assms
  by (cases "public_path i")
    (auto simp: initialize_def load_private_def bind_io_def ensure_public_def put_public_def effect_healthy archive_conflict_def
      split: option.splits)

lemma recover_journal_quiet: "mc_faults M = [] \<Longrightarrow> mc_faults (snd (recover_journal K M)) = []"
  by (simp add: recover_journal_def settle_rotation_def settle_simps promote_key_def split: option.splits list.splits sum.splits)

lemma initialize_conflict:
  assumes "initialize K M = (r, M')" and "jd_active (mc_disk M) = Some pem" and "ke_private_id K pem = Inr i"
    and "archive_conflict K (mc_disk M) pem i"
  shows "M' = M"
  using assms by (auto simp: initialize_def load_private_def bind_io_def ensure_public_def archive_conflict_def)

text \<open>
  C8: A rotation of the audit key is atomic under crashes: wherever the process dies and
  however often the recovery is cut short, a further recovery leaves no journal and the
  private key the audit log speaks for, the new one if the log has the row of the rotation
  and the old one if not; it returns this key, or raises because the archive of public keys
  holds another file under its name. A rotation that returned signs with the new key. The
  one other outcome is a lost rotation: it raised, and left the writer available, after its
  row became durable (\<open>lost_rotation\<close> is such a run).
\<close>

theorem rotation_is_atomic:
  assumes "jd_journal d = None" and "rotation_rows op_id d = []"
    and "load_private K (jd_active d) = Inr k0" and "ke_private_id K fresh = Inr k"
    and "rotate_key K op_id fresh who (w, power_on d fs) = (r, (w', M))"
    and "x \<in> disks M" and "cut_short (recover_keys K) x y"
  shows "(\<exists>r' M' pem i. recover_keys K (power_on y []) = (r', M') \<and> jd_journal (mc_disk M') = None \<and>
      jd_active (mc_disk M') = Some pem \<and> ke_private_id K pem = Inr i \<and>
      (if rotation_rows op_id x = [] then Some pem = jd_active d else i = k) \<and>
      (r' = Inr (pem, i) \<or> (\<exists>z. r' = Inl z) \<and> archive_conflict K (mc_disk M') pem i) \<and>
      (\<forall>z. r = Inr z \<longrightarrow> kw_signing_key w' = fresh \<and> kw_key_id w' = k \<and> kw_available w' \<and>
         load_private K (jd_active (mc_disk M)) = Inr k)) \<or>
    (\<exists>z. r = Inl z) \<and> kw_available w' \<and> rotation_rows op_id (mc_disk M) \<noteq> []"
proof (cases "(\<exists>z. r = Inr z) \<or> \<not> kw_available w' \<or> rotation_rows op_id (mc_disk M) = []")
  case False
  then show ?thesis by (cases r) auto
next
  case settled: True
  from rotation_passed [OF assms(1-5) settled] have run: "\<forall>z. r = Inr z \<longrightarrow> kw_signing_key w' = fresh \<and> kw_key_id w' = k \<and>
      kw_available w' \<and> load_private K (jd_active (mc_disk M)) = Inr k"
    and safe: "key_promotable K op_id k (jd_active d) x" using assms(6) by blast+
  from keys_restart.cut_short_safe [OF assms(7)] safe assms(3)
  have y: "key_promotable K op_id k (jd_active d) y" "(rotation_rows op_id y \<noteq> []) = (rotation_rows op_id x \<noteq> [])" by auto
  obtain M1 where one: "recover_journal K (power_on y []) = (Inr (), M1)" and journal: "jd_journal (mc_disk M1) = None"
    and verdict: "if rotation_rows op_id y \<noteq> [] then load_private K (jd_active (mc_disk M1)) = Inr k
      else jd_active (mc_disk M1) = jd_active d"
    using key_recovery.recovers [OF conjI [OF y(1) assms(3)] cut_short.never] by auto
  have "mc_faults M1 = []" using recover_journal_quiet [of "power_on y []" K] one by simp
  obtain pem i where key: "jd_active (mc_disk M1) = Some pem" "ke_private_id K pem = Inr i"
    "if rotation_rows op_id x = [] then Some pem = jd_active d else i = k"
    using verdict y(2) assms(3) by (auto simp: load_private_def split: if_splits option.splits)
  obtain r' M' where two: "initialize K M1 = (r', M')" by (metis surj_pair)
  from initialize_result [OF \<open>mc_faults M1 = []\<close> key(1,2)] two
  have r': "r' = Inr (pem, i) \<or> (\<exists>z. r' = Inl z) \<and> archive_conflict K (mc_disk M1) pem i" by simp
  have "recover_keys K (power_on y []) = (r', M')" using one two by (simp add: recover_keys_def bind_io_def)
  moreover have "archive_conflict K (mc_disk M') pem i" if "archive_conflict K (mc_disk M1) pem i"
    using initialize_conflict [OF two key(1,2) that] that by simp
  ultimately show ?thesis using initialize_keeps [OF two] journal key r' run by metis
qed

section \<open>Runs\<close>

text \<open>Keys named by a letter, with key ids of the right shape.\<close>

definition id_of :: "string \<Rightarrow> string" where
  "id_of pem = ''sha256:'' @ replicate (64 - length pem) (CHR ''0'') @ pem"

definition toy_keys :: key_env where
  "toy_keys = \<lparr>ke_private_id = (\<lambda>p. Inr (id_of p)), ke_public_id = (\<lambda>p. Inr (id_of p)), ke_public_pem = id\<rparr>"

definition key_dir :: key_disk where
  "key_dir = \<lparr>jd_active = Some ''a'', jd_pending = None, jd_journal = None, jd_log = [], jd_next_seq = 7,
     kd_public = []\<rparr>"

definition key_in_use :: key_writer where
  "key_in_use = \<lparr>kw_signing_key = ''a'', kw_key_id = id_of ''a'', kw_available = True\<rparr>"

lemma public_paths:
  "public_path (id_of ''a'') = Inr (replicate 63 (CHR ''0'') @ ''a.pub.pem'')"
  "public_path (id_of ''b'') = Inr (replicate 63 (CHR ''0'') @ ''b.pub.pem'')"
  by code_simp+

lemmas rotation_eval = rotate_key_def start_rotation_def complete_rotation_def set_unavailable_def
  prepare_rotation_def new_rotation_def rotated_entry_def mark_rotation_def rotation_handed_off_def
  promote_key_def check_key_def ensure_public_def put_public_def load_private_def write_row_def
  write_pending_def settle_simps recover_journal_def settle_rotation_def key_already_active_def
  catch_io_def outer_def Let_def effect_def power_on_def rows_of_def toy_keys_def key_dir_def key_in_use_def

lemma ids_differ: "id_of ''a'' \<noteq> id_of ''b''" "id_of ''b'' \<noteq> id_of ''a''"
  by code_simp+

lemma healthy_rotation:
  "\<exists>M. rotate_key toy_keys ''op'' ''b'' ''ann'' (key_in_use, power_on key_dir []) =
     (Inr (7, id_of ''a'', id_of ''b''), (\<lparr>kw_signing_key = ''b'', kw_key_id = id_of ''b'', kw_available = True\<rparr>, M)) \<and>
     rotation_rows ''op'' (mc_disk M) = [7]"
  by (simp add: rotation_eval public_paths ids_differ)

lemma rotation_is_atomic_witness:
  "\<exists>M M' r'. rotate_key toy_keys ''op'' ''b'' ''ann'' (key_in_use, power_on key_dir []) =
     (Inr (7, id_of ''a'', id_of ''b''), (\<lparr>kw_signing_key = ''b'', kw_key_id = id_of ''b'', kw_available = True\<rparr>, M)) \<and>
     recover_keys toy_keys (power_on (mc_disk M) []) = (r', M') \<and>
     load_private toy_keys (jd_active (mc_disk M')) = Inr (id_of ''b'')"
proof -
  obtain M where run: "rotate_key toy_keys ''op'' ''b'' ''ann'' (key_in_use, power_on key_dir []) =
     (Inr (7, id_of ''a'', id_of ''b''), (\<lparr>kw_signing_key = ''b'', kw_key_id = id_of ''b'', kw_available = True\<rparr>, M))"
    and rows: "rotation_rows ''op'' (mc_disk M) = [7]"
    using healthy_rotation by blast
  have start: "jd_journal key_dir = None" "rotation_rows ''op'' key_dir = []"
    "load_private toy_keys (jd_active key_dir) = Inr (id_of ''a'')" "ke_private_id toy_keys ''b'' = Inr (id_of ''b'')"
    by (simp_all add: key_dir_def rows_of_def load_private_def toy_keys_def)
  have here: "mc_disk M \<in> disks M" by (simp add: disks_def)
  from rotation_is_atomic [OF start run here cut_short.never] rows run show ?thesis
    by (auto simp: load_private_def)
qed

text \<open>
  A rotation can be lost. When the write of its row raises although the row became
  durable (the Redis pointer could not be set), the handler deletes the new private key
  and the journal: the log says the new key took over, the writer goes on signing with the
  old one, and no recovery changes it.
\<close>

theorem lost_rotation:
  "\<exists>M. rotate_key toy_keys ''op'' ''b'' ''ann''
       (key_in_use, power_on key_dir (replicate 4 Healthy @ [FailsAfter])) = (Inl (OSError []), (key_in_use, M)) \<and>
     rotation_rows ''op'' (mc_disk M) = [7] \<and> jd_active (mc_disk M) = Some ''a'' \<and> jd_pending (mc_disk M) = None \<and>
     recover_journal toy_keys (power_on (mc_disk M) []) = (Inr (), power_on (mc_disk M) [])"
  by (simp add: rotation_eval public_paths ids_differ numeral_eq_Suc)

text \<open>
  A rotation that is refused because one is pending destroys the pending one: its
  handler deletes the journal and the pending private key, so that a rotation whose row is
  in the log can no longer be completed by a recovery.
\<close>

theorem refused_rotation_destroys_pending:
  assumes "jd_journal d = Some rot" and "kw_available w"
    and "rotate_key K op_id fresh who (w, power_on d []) = (r, (w', M))"
  shows "r = Inl (RuntimeError ''audit key rotation recovery is pending'') \<and> w' = w \<and>
    mc_disk M = d\<lparr>jd_pending := None, jd_journal := None\<rparr> \<and>
    recover_journal K (power_on (mc_disk M) []) = (Inr (), power_on (mc_disk M) [])"
  using assms
  by (auto simp: rotate_key_def start_rotation_def prepare_rotation_def settle_simps recover_journal_def
      catch_io_def outer_def power_on_def)

lemma refused_rotation_destroys_pending_witness:
  "fst (rotate_key toy_keys ''op'' ''b'' ''ann'' (key_in_use, power_on (key_dir\<lparr>jd_journal :=
     Some (new_rotation ''o'' (id_of ''a'') (id_of ''c'') ''ann'')\<rparr>) [])) =
   Inl (RuntimeError ''audit key rotation recovery is pending'')"
proof -
  let ?d = "key_dir\<lparr>jd_journal := Some (new_rotation ''o'' (id_of ''a'') (id_of ''c'') ''ann'')\<rparr>"
  obtain r w' M where "rotate_key toy_keys ''op'' ''b'' ''ann'' (key_in_use, power_on ?d []) = (r, (w', M))"
    by (metis prod.collapse)
  from refused_rotation_destroys_pending [OF _ _ this] this show ?thesis by (simp add: key_in_use_def)
qed

text \<open>
  A public key file is not written atomically: a crash between its creation and its
  content leaves an empty file, and every later startup with this key refuses it.
\<close>

theorem torn_public_file_blocks_startup:
  assumes "jd_active d = Some pem" and "ke_private_id K pem = Inr k" and "public_path k = Inr path"
    and "map_of (kd_public d) path = None" and "ke_public_pem K pem \<noteq> []"
  shows "\<exists>x \<in> disks (snd (initialize K (power_on d []))).
    \<forall>fs. initialize K (power_on x fs) = (Inl (ValueError (public_mismatch path k)), power_on x fs)"
  using assms
  by (auto simp: initialize_def ensure_public_def put_public_def bind_io_def load_private_def effect_def Let_def
      disks_def power_on_def)

lemma torn_public_file_blocks_startup_witness:
  "\<exists>x \<in> disks (snd (initialize toy_keys (power_on key_dir []))).
     fst (initialize toy_keys (power_on x [])) =
       Inl (ValueError (public_mismatch (replicate 63 (CHR ''0'') @ ''a.pub.pem'') (id_of ''a'')))"
proof -
  have "jd_active key_dir = Some ''a''" "ke_private_id toy_keys ''a'' = Inr (id_of ''a'')"
    "map_of (kd_public key_dir) (replicate 63 (CHR ''0'') @ ''a.pub.pem'') = None" "ke_public_pem toy_keys ''a'' \<noteq> []"
    by (simp_all add: key_dir_def toy_keys_def)
  from torn_public_file_blocks_startup [OF this(1,2) public_paths(1) this(3,4)] show ?thesis
    by (auto intro!: bexI)
qed

end
