(* ===== verification/Admin.thy ===== *)
theory Admin
  imports Endpoint PolicyScaffold AuditKeys
begin

text \<open>
  The \<open>/admin\<close> endpoints, \<open>/ready\<close> and the body limit of \<open>services/gateway/main.py\<close>. The
  stores an endpoint calls are fields of a record, on one world, as in the other handlers.
  An \<open>HTTPException\<close> is the error \<open>HttpError\<close> (its \<open>Retry-After\<close> header is left out); any other
  error becomes FastAPI's 500.
\<close>

section \<open>The services and the request\<close>

record approval_times =
  at_created :: rat
  at_approved :: "rat option"

record 'w admin =
  ad_settings :: settings
  ad_redis :: "'w redis"
  ad_sha256 :: "string \<Rightarrow> string"
  ad_canon :: "json \<Rightarrow> string res"
  ad_iso :: "rat \<Rightarrow> string"
  ad_float_str :: "pyfloat \<Rightarrow> string"
  ad_factor_of :: "json \<Rightarrow> risk_factor res"
  ad_utf8 :: "string \<Rightarrow> bool"
  ad_load :: "string \<Rightarrow> policy_engine res"
  ad_engine :: "'w \<Rightarrow> policy_engine"
  ad_blocked :: "'w \<Rightarrow> bool"
  ad_locked :: "'w \<Rightarrow> bool"
  ad_disk :: "'w \<Rightarrow> policy_disk"
  ad_rows :: "'w \<Rightarrow> audit_row list"
  ad_approvals :: "'w \<Rightarrow> (approval \<times> approval_times) list"
  ad_baselines :: "'w \<Rightarrow> (baseline \<times> rat) list"
  ad_writer :: "'w \<Rightarrow> key_writer"
  ad_keys :: "'w \<Rightarrow> key_disk"
  ad_rotating :: "'w \<Rightarrow> bool"
  ad_approve_tool :: "string \<Rightarrow> string \<Rightarrow> string \<Rightarrow> ('w, int) io"
  ad_approve_call :: "string \<Rightarrow> string \<Rightarrow> ('w, int \<times> string \<times> string \<times> string) io"
  ad_apply_decay :: "string \<Rightarrow> string \<Rightarrow> string \<Rightarrow> ('w, unit) io"
  ad_expire_stale :: "('w, unit) io"
  ad_activate :: "policy_engine \<Rightarrow> string \<Rightarrow> string \<Rightarrow> bool \<Rightarrow> ('w, int \<times> int) io"
  ad_status :: "policy_engine \<Rightarrow> ('w, int option) io"
  ad_preflight :: "policy_engine \<Rightarrow> ('w, unit) io"
  ad_rotate :: "string \<Rightarrow> ('w, int \<times> string \<times> string) io"
  ad_explainer :: "policy_engine \<Rightarrow> decision_mode \<Rightarrow> 'w explainer"
  ad_ellipsis :: string
  ad_scaffold :: "string \<Rightarrow> string \<Rightarrow> ('w, scaffold_result scaffolded) io"
  ad_prepare :: "int option \<Rightarrow> int option \<Rightarrow> ('w, jdict \<times> (int \<times> int) option) io"

record admin_request =
  ar_key :: "string option"
  ar_client :: json
  ar_content_type :: "string option"
  ar_body :: string

type_synonym ('w, 'a) guarded = "'w admin \<Rightarrow> admin_request \<Rightarrow> ('w, 'a) io"

text \<open>\<open>str(exc)\<close>, where the model keeps the text; and the classes the handlers catch.\<close>

fun exn_text :: "exn \<Rightarrow> string" where
  "exn_text (ValueError t) = t"
| "exn_text (LookupError t) = t"
| "exn_text (RuntimeError t) = t"
| "exn_text (DockerError t) = t"
| "exn_text (VerificationError t) = t"
| "exn_text (OSError t) = t"
| "exn_text _ = []"

fun value_error :: "exn \<Rightarrow> bool" where
  "value_error (ValueError _) = True"
| "value_error (VerificationError _) = True"
| "value_error _ = False"

fun lookup_error :: "exn \<Rightarrow> bool" where
  "lookup_error (LookupError _) = True"
| "lookup_error KeyError = True"
| "lookup_error IndexError = True"
| "lookup_error _ = False"

fun policy_error :: "exn \<Rightarrow> bool" where
  "policy_error ActivationError = True"
| "policy_error (RuntimeError _) = True"
| "policy_error (DockerError _) = True"
| "policy_error _ = False"

fun validation_error :: "exn \<Rightarrow> bool" where
  "validation_error ActivationError = True"
| "validation_error (DockerError _) = True"
| "validation_error _ = False"

text \<open>\<open>except C as exc: raise HTTPException(status, detail=str(exc))\<close>.\<close>

definition answering :: "(exn \<Rightarrow> bool) \<Rightarrow> int \<Rightarrow> ('w, 'a) io \<Rightarrow> ('w, 'a) io" where
  "answering caught status m = catch_io m (\<lambda>e. raise_io (if caught e then HttpError status (exn_text e) else e))"

definition peek :: "('w \<Rightarrow> 'a) \<Rightarrow> ('w, 'a) io" where
  "peek f w = (Inr (f w), w)"

section \<open>Who may call\<close>

fun limiter_error :: "exn \<Rightarrow> exn" where
  "limiter_error (AuthRateLimited n) = HttpError 429 ''authentication rate limit exceeded''"
| "limiter_error AuthLimiterUnavailable = HttpError 503 ''authentication limiter unavailable''"
| "limiter_error e = e"

definition require_admin :: "('w, string) guarded" where
  "require_admin A rq =
     bind_io (peek (ad_engine A)) (\<lambda>engine.
     bind_io
       (catch_io
          (resolve_identity_tracked (ad_redis A) (ad_sha256 A) (ad_settings A) (ar_key rq) engine
             (client_source (ar_client rq)))
          (\<lambda>e. raise_io (limiter_error e)))
       (\<lambda>who. case who of
          None \<Rightarrow> raise_io (HttpError 401 ''invalid or missing API key'')
        | Some i \<Rightarrow>
            bind_io (peek (\<lambda>w. is_admin (ad_engine A w) i)) (\<lambda>admin.
              if admin then ret_io i else raise_io (HttpError 403 ''admin identity required''))))"

section \<open>Approvals and baselines\<close>

definition admin_decision :: "event_type \<Rightarrow> string \<Rightarrow> string \<Rightarrow> int \<Rightarrow> int \<Rightarrow> string option \<Rightarrow> decision" where
  "admin_decision event why rule version seq approval_id =
     \<lparr>d_decision = O_ALLOW, d_event_type = event, d_mode = ENFORCE, d_reason = why, d_matched_rules = [rule],
      d_risk_score = None, d_risk_factors = None, d_policy_version = version,
      d_audit_id = Some (int_str seq), d_approval_id = approval_id, d_challenge_id = None, d_alternative = None\<rparr>"

definition approve_tool :: "string \<Rightarrow> string \<Rightarrow> ('w, json) guarded" where
  "approve_tool server tool A rq =
     bind_io (require_admin A rq) (\<lambda>i.
     bind_io (answering lookup_error 404 (ad_approve_tool A server tool i)) (\<lambda>seq.
     bind_io (peek (ad_engine A)) (\<lambda>e.
       ret_io (decision_json (admin_decision EV_APPROVED
         (''schema for '' @ py_repr tool @ '' on '' @ py_repr server @ '' re-approved by '' @ py_repr i)
         ''admin_approval'' (engine_version e) seq None)))))"

definition approve_call :: "string \<Rightarrow> ('w, json) guarded" where
  "approve_call approval_id A rq =
     bind_io (require_admin A rq) (\<lambda>i.
     bind_io (answering lookup_error 404 (ad_approve_call A approval_id i)) (\<lambda>(seq, requester, server, tool).
     bind_io (ad_apply_decay A requester server tool) (\<lambda>_.
     bind_io (peek (ad_engine A)) (\<lambda>e.
       ret_io (decision_json (admin_decision EV_APPROVED
         (''call to '' @ py_repr tool @ '' approved by '' @ py_repr i)
         ''admin_approval'' (engine_version e) seq (Some approval_id)))))))"

definition approval_view :: "'w admin \<Rightarrow> audit_row list \<Rightarrow> approval \<times> approval_times \<Rightarrow> json res" where
  "approval_view A rows p =
     (case p of (a, ts) \<Rightarrow>
        case List.find (\<lambda>r. a_seq r = ap_audit_id a) rows of
          None \<Rightarrow> Inl (LookupError [])
        | Some r \<Rightarrow>
            bind_res (from_audit_row (ad_float_str A) (ad_factor_of A) r) (\<lambda>d. Inr (JObj
              [(''approval_id'', JStr (ap_id a)), (''status'', JStr (status_value (ap_status a))),
               (''consumed'', JBool (ap_consumed a)), (''created_at'', JStr (ad_iso A (at_created ts))),
               (''expires_at'', JStr (ad_iso A (ap_expires a))),
               (''approved_at'', opt_json (JStr \<circ> ad_iso A) (at_approved ts)),
               (''approved_by'', opt_str (ap_approved_by a)), (''identity'', JStr (ap_identity a)),
               (''server'', JStr (ap_server a)), (''tool'', JStr (ap_tool a)),
               (''arguments_hash'', JStr (ap_args_hash a)),
               (''arguments'', dget_or (a_payload r) ''arguments'' (JObj [])),
               (''decision'', decision_json d)])))"

text \<open>The inner join on the audit row, and the queue: at most 100 items are shown.\<close>

definition joined :: "audit_row list \<Rightarrow> (approval \<times> approval_times) list \<Rightarrow> (approval \<times> approval_times) list" where
  "joined rows as = filter (\<lambda>p. ap_audit_id (fst p) \<in> a_seq ` set rows) as"

definition page :: "json list \<Rightarrow> bool \<Rightarrow> json" where
  "page items truncated = JObj [(''items'', JArr items), (''truncated'', JBool truncated)]"

definition shown_rows :: "'a list \<Rightarrow> 'a list" where
  "shown_rows rows = take 100 (take 101 rows)"

definition truncated :: "'a list \<Rightarrow> bool" where
  "truncated rows \<longleftrightarrow> length (take 101 rows) > 100"

definition pending_approvals :: "audit_row list \<Rightarrow> (approval \<times> approval_times) list \<Rightarrow> (approval \<times> approval_times) list"
  where
  "pending_approvals rows as =
     sort_key (\<lambda>p. ap_expires (fst p)) (sort_key (\<lambda>p. ap_id (fst p))
       (filter (\<lambda>p. ap_status (fst p) = Pending) (joined rows as)))"

definition expire_first :: "('w, unit) guarded" where
  "expire_first A rq =
     catch_io (ad_expire_stale A) (\<lambda>_. raise_io (HttpError 503 ''approval expiry audit failed''))"

definition list_approvals :: "('w, json) guarded" where
  "list_approvals A rq =
     bind_io (require_admin A rq) (\<lambda>_.
     bind_io (expire_first A rq) (\<lambda>_.
     bind_io (peek (\<lambda>w. (ad_rows A w, pending_approvals (ad_rows A w) (ad_approvals A w)))) (\<lambda>(rows, ps).
     bind_io (of_res (collect_res (map (approval_view A rows) (shown_rows ps)))) (\<lambda>items.
       ret_io (page items (truncated ps))))))"

definition get_approval :: "string \<Rightarrow> ('w, json) guarded" where
  "get_approval approval_id A rq =
     bind_io (require_admin A rq) (\<lambda>_.
     bind_io (expire_first A rq) (\<lambda>_.
     bind_io (peek (\<lambda>w. (ad_rows A w, List.find (\<lambda>p. ap_id (fst p) = approval_id) (joined (ad_rows A w) (ad_approvals A w)))))
       (\<lambda>(rows, pair). case pair of
          None \<Rightarrow> raise_io (HttpError 404 ''unknown approval id'')
        | Some p \<Rightarrow> of_res (approval_view A rows p))))"

definition view_severity :: "'w admin \<Rightarrow> baseline \<Rightarrow> string option res" where
  "view_severity A b =
     (if bl_observed_hash b = Some removed_sentinel then Inr (Some ''medium'')
      else case bl_observed_schema b of
             None \<Rightarrow> Inr None
           | Some seen \<Rightarrow>
               bind_res (classify (ad_settings A) (ad_canon A) (ad_sha256 A) (bl_approved_schema b) seen)
                 (\<lambda>s. Inr (Some (case s of None \<Rightarrow> ''high'' | Some v \<Rightarrow> severity_name v))))"

definition baseline_view :: "'w admin \<Rightarrow> baseline \<times> rat \<Rightarrow> json res" where
  "baseline_view A p =
     (case p of (b, approved_at) \<Rightarrow>
        bind_res (view_severity A b) (\<lambda>severity. Inr (JObj
          [(''server'', JStr (bl_server b)), (''tool'', JStr (bl_tool b)),
           (''approved_schema'', JObj (bl_approved_schema b)), (''approved_hash'', JStr (bl_approved_hash b)),
           (''approved_at'', JStr (ad_iso A approved_at)), (''observed_schema'', opt_json JObj (bl_observed_schema b)),
           (''observed_hash'', opt_str (bl_observed_hash b)), (''blocked'', JBool (bl_blocked b)),
           (''removed'', JBool (bl_observed_hash b = Some removed_sentinel)), (''severity'', opt_str severity),
           (''suspicious'', JBool (bl_suspicious b)), (''flagged_at'', opt_json (JStr \<circ> ad_iso A) (bl_flagged_at b)),
           (''scanner_findings'', JObj
              [(''approved'', JArr (map JStr (scan_descriptions (bl_approved_schema b)))),
               (''observed'', JArr (map JStr
                  (case bl_observed_schema b of None \<Rightarrow> [] | Some seen \<Rightarrow> scan_descriptions seen)))])])))"

definition flagged_as :: "string \<Rightarrow> baseline \<Rightarrow> bool" where
  "flagged_as kind b \<longleftrightarrow>
     (if kind = ''drift'' then bl_observed_hash b \<noteq> None
      else if kind = ''suspicious'' then bl_suspicious b
      else bl_observed_hash b \<noteq> None \<or> bl_suspicious b)"

text \<open>\<open>ORDER BY\<close>: drift before suspicion, then by time (PostgreSQL sorts a missing time last), then by name.\<close>

definition review_order :: "(baseline \<times> rat) list \<Rightarrow> (baseline \<times> rat) list" where
  "review_order rows =
     sort_key (\<lambda>p. bl_observed_hash (fst p) = None)
       (sort_key (\<lambda>p. bl_flagged_at (fst p) = None)
          (sort_key (\<lambda>p. case bl_flagged_at (fst p) of None \<Rightarrow> 0 | Some t \<Rightarrow> t)
             (sort_key (\<lambda>p. bl_server (fst p)) (sort_key (\<lambda>p. bl_tool (fst p)) rows))))"

definition list_flagged_baselines :: "string \<Rightarrow> ('w, json) guarded" where
  "list_flagged_baselines kind A rq =
     bind_io (require_admin A rq) (\<lambda>_.
     if kind \<notin> {''all'', ''drift'', ''suspicious''}
     then raise_io (HttpError 400 ''kind must be all, drift, or suspicious'')
     else bind_io (peek (\<lambda>w. review_order (filter (\<lambda>p. flagged_as kind (fst p)) (ad_baselines A w)))) (\<lambda>rows.
          bind_io (of_res (collect_res (map (baseline_view A) (shown_rows rows)))) (\<lambda>items.
            ret_io (page items (truncated rows)))))"

definition get_baseline :: "string \<Rightarrow> string \<Rightarrow> ('w, json) guarded" where
  "get_baseline server tool A rq =
     bind_io (require_admin A rq) (\<lambda>_.
     bind_io (peek (\<lambda>w. List.find (\<lambda>p. bl_server (fst p) = server \<and> bl_tool (fst p) = tool) (ad_baselines A w)))
       (\<lambda>row. case row of
          None \<Rightarrow> raise_io (HttpError 404 ''unknown baseline'')
        | Some p \<Rightarrow> of_res (baseline_view A p)))"

section \<open>Decisions\<close>

definition get_decision :: "int \<Rightarrow> ('w, json) guarded" where
  "get_decision seq A rq =
     bind_io (require_admin A rq) (\<lambda>_.
     bind_io (peek (\<lambda>w. List.find (\<lambda>r. a_seq r = seq) (ad_rows A w))) (\<lambda>row. case row of
       None \<Rightarrow> raise_io (HttpError 404 (''no audit row '' @ int_str seq))
     | Some r \<Rightarrow>
         bind_io (answering lookup_error 404 (of_res (from_audit_row (ad_float_str A) (ad_factor_of A) r)))
           (\<lambda>d. ret_io (decision_json d))))"

definition explain_server :: "policy_engine \<Rightarrow> string option \<Rightarrow> string res" where
  "explain_server e server =
     (case server of
        Some s \<Rightarrow> Inr s
      | None \<Rightarrow>
          (case p_servers (e_policy e) of
             [(s, _)] \<Rightarrow> Inr s
           | _ \<Rightarrow> Inl (HttpError 400 ''multiple servers registered; specify `server`'')))"

definition explain_decision :: "hypothetical \<Rightarrow> string option \<Rightarrow> ('w, json) guarded" where
  "explain_decision h server A rq =
     bind_io (require_admin A rq) (\<lambda>_.
     bind_io (peek (ad_engine A)) (\<lambda>e.
     bind_io (of_res (explain_server e server)) (\<lambda>s.
     bind_io (explain_call (ad_explainer A e (enforcement_mode (ad_settings A))) (h\<lparr>hy_server := s\<rparr>)) (\<lambda>d.
       ret_io (decision_json d)))))"

section \<open>Simulation and scaffolding\<close>

definition diff_json :: "sample_diff \<Rightarrow> json" where
  "diff_json d =
     JObj [(''audit_seq'', JInt (sd_audit_seq d)), (''identity'', JStr (sd_identity d)), (''tool'', JStr (sd_tool d)),
           (''before'', JStr (sd_before d)), (''after'', JStr (sd_after d)), (''reason'', JStr (sd_reason d))]"

definition historical_json :: "historical_simulation \<Rightarrow> json" where
  "historical_json s =
     JObj [(''total_replayed'', JInt (int (hs_total s))), (''would_now_deny'', JInt (int (hs_would_deny s))),
           (''would_now_require_approval'', JInt (int (hs_would_require_approval s))),
           (''newly_allowed'', JInt (int (hs_newly_allowed s))), (''unchanged'', JInt (int (hs_unchanged s))),
           (''sample_diffs'', JArr (map diff_json (hs_diffs s)))]"

definition compare_json :: "compare_simulation \<Rightarrow> json" where
  "compare_json s =
     JObj [(''total_replayed'', JInt (int (cs_total s))), (''compared_versions'', JArr (map JInt (cs_versions s))),
           (''new_denials'', JInt (int (cs_new_denials s))), (''new_approvals'', JInt (int (cs_new_approvals s))),
           (''changed_risk_scores'', JInt (int (cs_changed_scores s))),
           (''changed_explanations'', JInt (int (cs_changed_explanations s))),
           (''sample_diffs'', JArr (map diff_json (cs_diffs s)))]"

text \<open>The three \<open>except\<close> clauses of a simulation, in order.\<close>

definition simulation_error :: "exn \<Rightarrow> exn" where
  "simulation_error e =
     (if value_error e then HttpError 400 (exn_text e)
      else if lookup_error e then HttpError 404 (exn_text e)
      else if e = ActivationError then HttpError 409 (exn_text e)
      else e)"

definition simulate_policy :: "int option \<Rightarrow> int list option \<Rightarrow> string \<Rightarrow> ('w, json) guarded" where
  "simulate_policy candidate compare window A rq =
     bind_io (require_admin A rq) (\<lambda>_.
     if (candidate = None) = (compare = None)
     then raise_io (HttpError 400 ''exactly one of candidate_version or compare_versions is required'')
     else if (case compare of None \<Rightarrow> False | Some vs \<Rightarrow> length vs \<noteq> 2)
     then raise_io (HttpError 400 ''compare_versions must be exactly 2 versions'')
     else bind_io (peek (\<lambda>w. (ad_disk A w, ad_rows A w, ad_explainer A (ad_engine A w) ENFORCE))) (\<lambda>(d, rows, X).
       catch_io
         (case candidate of
            Some v \<Rightarrow>
              bind_io (simulate_historical (ad_load A) d (ad_ellipsis A) X rows v window)
                (\<lambda>s. ret_io (historical_json s))
          | None \<Rightarrow>
              bind_io (simulate_compare (ad_load A) d (ad_ellipsis A) X rows (case compare of None \<Rightarrow> [] | Some vs \<Rightarrow> vs) window)
                (\<lambda>s. ret_io (compare_json s)))
         (\<lambda>e. raise_io (simulation_error e))))"

definition scaffold_json :: "string \<Rightarrow> string \<Rightarrow> policy_engine \<Rightarrow> scaffold_result \<Rightarrow> json" where
  "scaffold_json source window base R =
     JObj [(''policy'', JStr (sr_policy R)),
       (''metadata'', JObj
          [(''audit'', JObj
              [(''source'', JStr source), (''window'', JStr window), (''from_seq'', JInt (sr_from_seq R)),
               (''to_seq'', JInt (sr_to_seq R)), (''verified_row_count'', JInt (int (sr_verified R))),
               (''qualifying_call_row_count'', JInt (int (sr_qualifying R))),
               (''genesis_anchored'', JBool (sr_anchored R)), (''prefix_attested'', JBool (sr_anchored R))]),
           (''base_policy'', JObj
              [(''version'', JInt (engine_version base)), (''content_hash'', JStr (e_content_hash base))]),
           (''candidate'', JObj
              [(''version'', JInt (engine_version (sr_candidate R))),
               (''content_hash'', JStr (e_content_hash (sr_candidate R))),
               (''identity_count'', JInt (int (length (p_identities (e_policy (sr_candidate R)))))),
               (''grant_count'', JInt (int (sr_grants R))), (''server_tool_count'', JInt (int (sr_server_tools R)))])])]"

fun scaffold_answer :: "scaffold_error \<Rightarrow> exn" where
  "scaffold_answer (TooLarge t) = HttpError 413 t"
| "scaffold_answer (Conflict t) = HttpError 409 t"
| "scaffold_answer (Raised e) = (if value_error e then HttpError 400 (exn_text e) else e)"

definition scaffold_policy :: "string \<Rightarrow> string \<Rightarrow> ('w, json) guarded" where
  "scaffold_policy source window A rq =
     bind_io (require_admin A rq) (\<lambda>_.
     bind_io (peek (ad_engine A)) (\<lambda>base.
     bind_io (ad_scaffold A source window) (\<lambda>r. case r of
       Inl e \<Rightarrow> raise_io (scaffold_answer e)
     | Inr R \<Rightarrow> ret_io (scaffold_json source window base R))))"

section \<open>Policies\<close>

text \<open>\<open>headers.get("content-type", "").split(";", 1)[0].strip()\<close>.\<close>

definition media_type :: "admin_request \<Rightarrow> string" where
  "media_type rq = py_strip (takeWhile (\<lambda>c. c \<noteq> CHR '';'') (or_empty (ar_content_type rq)))"

definition require_yaml :: "admin_request \<Rightarrow> unit res" where
  "require_yaml rq =
     (if media_type rq \<noteq> ''application/yaml''
      then Inl (HttpError 415 ''Content-Type must be application/yaml'') else Inr ())"

definition uploaded_candidate :: "'w admin \<Rightarrow> admin_request \<Rightarrow> policy_engine res" where
  "uploaded_candidate A rq =
     bind_res (require_yaml rq) (\<lambda>_.
       case (if ad_utf8 A (ar_body rq) then ad_load A (ar_body rq) else Inl (ValueError ''invalid start byte'')) of
         Inl e \<Rightarrow> Inl (HttpError 400 (''invalid policy: '' @ exn_text e))
       | Inr e \<Rightarrow> Inr e)"

definition require_admin_candidate :: "policy_engine \<Rightarrow> unit res" where
  "require_admin_candidate e =
     (if list_ex i_admin (p_identities (e_policy e)) then Inr ()
      else Inl (HttpError 409 ''candidate policy must contain at least one admin identity''))"

definition require_same_admin :: "'w admin \<Rightarrow> admin_request \<Rightarrow> string \<Rightarrow> policy_engine \<Rightarrow> unit res" where
  "require_same_admin A rq i e =
     (if resolve_identity (ad_sha256 A) (ar_key rq) e \<noteq> Some i \<or> \<not> is_admin e i
      then Inl (HttpError 409 ''the calling bearer key must remain an admin in the candidate policy'')
      else Inr ())"

definition checked_candidate :: "'w admin \<Rightarrow> admin_request \<Rightarrow> string \<Rightarrow> policy_engine res" where
  "checked_candidate A rq i =
     bind_res (uploaded_candidate A rq) (\<lambda>e.
     bind_res (require_admin_candidate e) (\<lambda>_.
     bind_res (require_same_admin A rq i e) (\<lambda>_. Inr e)))"

definition activated_json :: "decision \<Rightarrow> int \<Rightarrow> int \<Rightarrow> json" where
  "activated_json d old_version new_version =
     JObj [(''decision'', decision_json d),
           (''metadata'', JObj [(''old_version'', JInt old_version), (''new_version'', JInt new_version)])]"

definition rollback_policy :: "int \<Rightarrow> ('w, json) guarded" where
  "rollback_policy version A rq =
     bind_io (require_admin A rq) (\<lambda>i.
     bind_io (peek (\<lambda>w. map_of (pd_snapshots (ad_disk A w)) version)) (\<lambda>snapshot. case snapshot of
       None \<Rightarrow> raise_io (HttpError 404 (''no revision snapshot for v'' @ int_str version))
     | Some raw \<Rightarrow>
         bind_io
           (catch_io (of_res (ad_load A raw))
              (\<lambda>_. raise_io (HttpError 409 (''revision v'' @ int_str version @ '' is invalid''))))
           (\<lambda>e. bind_io (answering (\<lambda>_. True) 409 (ad_activate A e i ''rollback'' True)) (\<lambda>(seq, old_version).
             ret_io (activated_json
               (admin_decision EV_POLICY_ACTIVATED
                  (''policy rolled back from v'' @ int_str old_version @ '' to v'' @ int_str (engine_version e) @
                   '' by '' @ py_repr i) ''admin_rollback'' (engine_version e) seq None)
               old_version (engine_version e))))))"

definition rollout_policy :: "('w, json) guarded" where
  "rollout_policy A rq =
     bind_io (require_admin A rq) (\<lambda>i.
     bind_io (of_res (checked_candidate A rq i)) (\<lambda>e.
     bind_io (answering policy_error 409 (ad_activate A e i ''api'' False)) (\<lambda>(seq, old_version).
       ret_io (activated_json
         (admin_decision EV_POLICY_ACTIVATED
            (''policy v'' @ int_str (engine_version e) @ '' activated by '' @ py_repr i)
            ''admin_rollout'' (engine_version e) seq None)
         old_version (engine_version e)))))"

definition validate_candidate :: "('w, json) guarded" where
  "validate_candidate A rq =
     bind_io (require_admin A rq) (\<lambda>i.
     bind_io (of_res (checked_candidate A rq i)) (\<lambda>e.
     bind_io
       (answering validation_error 409
          (bind_io (ad_status A e) (\<lambda>highest. bind_io (ad_preflight A e) (\<lambda>_. ret_io highest))))
       (\<lambda>highest. ret_io (JObj
          [(''valid'', JBool True), (''version'', JInt (engine_version e)),
           (''content_hash'', JStr (e_content_hash e)), (''highest_recorded_version'', opt_int highest),
           (''servers'', JArr (map JStr (sort (map fst (p_servers (e_policy e)))))),
           (''identities'', JInt (int (length (p_identities (e_policy e)))))]))))"

definition simulate_candidate_policy :: "string \<Rightarrow> ('w, json) guarded" where
  "simulate_candidate_policy window A rq =
     bind_io (require_admin A rq) (\<lambda>_.
     bind_io (of_res (uploaded_candidate A rq)) (\<lambda>e.
     bind_io (peek (\<lambda>w. (ad_rows A w, ad_explainer A (ad_engine A w) ENFORCE))) (\<lambda>(rows, X).
     bind_io (answering value_error 400 (simulate_candidate (ad_ellipsis A) X rows e window)) (\<lambda>s.
       ret_io (historical_json s)))))"

definition operation_json :: "policy_operation \<Rightarrow> json" where
  "operation_json op =
     JObj [(''operation_id'', JStr (po_id op)), (''kind'', JStr (po_kind op)),
           (''activated_by'', JStr (po_activated_by op)), (''old_version'', JInt (po_old_version op)),
           (''new_version'', JInt (po_new_version op)), (''content_hash'', JStr (po_content_hash op)),
           (''phase'', JStr (po_phase op)), (''audit_seq'', opt_int (po_audit_seq op))]"

definition policy_status :: "string \<Rightarrow> ('w, json) guarded" where
  "policy_status candidate_path A rq =
     bind_io (require_admin A rq) (\<lambda>_. peek (\<lambda>w.
       let e = ad_engine A w; d = ad_disk A w
       in JObj [(''active_version'', JInt (engine_version e)), (''content_hash'', JStr (e_content_hash e)),
                (''highest_recorded_version'', opt_int (max_version d)),
                (''mutation_in_progress'', JBool (ad_locked A w)),
                (''recovery_required'', JBool (ad_blocked A w \<or> jd_journal d \<noteq> None)),
                (''operation'', opt_json operation_json (jd_journal d)),
                (''candidate_path'', JStr candidate_path)]))"

definition activated_versions :: "audit_row list \<Rightarrow> int list" where
  "activated_versions rows =
     concat (map (\<lambda>r. case int_field (dget (a_payload r) ''new_version'') of None \<Rightarrow> [] | Some n \<Rightarrow> [n])
       (filter (\<lambda>r. a_event_type r = event_value EV_POLICY_ACTIVATED) rows))"

definition revision_state :: "int \<Rightarrow> int list \<Rightarrow> int \<Rightarrow> string" where
  "revision_state active activated v =
     (if v = active then ''active'' else if v \<in> set activated then ''inactive'' else ''recorded-unactivated'')"

text \<open>The rows carry their time of activation, which the model's ledger leaves to an argument.\<close>

definition revision_json :: "(int \<Rightarrow> string) \<Rightarrow> int \<Rightarrow> int list \<Rightarrow> int \<times> version_row \<Rightarrow> json" where
  "revision_json activated_at active activated p =
     (case p of (v, row) \<Rightarrow> JObj
        [(''version'', JInt v), (''content_hash'', JStr (pv_content_hash row)),
         (''activated_at'', JStr (activated_at v)), (''activated_by'', JStr (pv_activated_by row)),
         (''state'', JStr (revision_state active activated v))])"

definition policy_revisions :: "(int \<Rightarrow> string) \<Rightarrow> ('w, json) guarded" where
  "policy_revisions activated_at A rq =
     bind_io (require_admin A rq) (\<lambda>_. peek (\<lambda>w.
       let versions = sort_key (\<lambda>p. - fst p) (pd_versions (ad_disk A w));
           activated = activated_versions (ad_rows A w)
       in page (map (revision_json activated_at (engine_version (ad_engine A w)) activated) (shown_rows versions))
            (truncated versions)))"

section \<open>Keys and the audit export\<close>

definition rotation_json :: "rotation \<Rightarrow> json" where
  "rotation_json r =
     JObj [(''operation_id'', JStr (rt_id r)), (''old_key_id'', JStr (rt_old_key_id r)),
           (''new_key_id'', JStr (rt_new_key_id r)), (''approved_by'', JStr (rt_approved_by r)),
           (''phase'', JStr (rt_phase r)), (''audit_seq'', opt_int (rt_audit_seq r))]"

definition audit_key_status :: "('w, json) guarded" where
  "audit_key_status A rq =
     bind_io (require_admin A rq) (\<lambda>_. peek (\<lambda>w.
       let kw = ad_writer A w; d = ad_keys A w
       in JObj [(''active_key_id'', JStr (kw_key_id kw)), (''available'', JBool (kw_available kw)),
                (''public_key_count'', JInt (int (public_count d))),
                (''rotation_in_progress'', JBool (ad_rotating A w)),
                (''recovery_required'', JBool (jd_journal d \<noteq> None \<or> \<not> kw_available kw)),
                (''operation'', opt_json rotation_json (jd_journal d))]))"

text \<open>The lock is taken and given back around the rotation; the world's flag is its state.\<close>

definition rotate_audit_key :: "('w, json) guarded" where
  "rotate_audit_key A rq =
     bind_io (require_admin A rq) (\<lambda>i.
     bind_io (peek (ad_rotating A)) (\<lambda>locked.
     if locked then raise_io (HttpError 409 ''another audit key rotation is in progress'')
     else bind_io (answering (\<lambda>_. True) 503 (ad_rotate A i)) (\<lambda>(seq, old_id, new_id).
          bind_io (peek (ad_engine A)) (\<lambda>e.
            ret_io (JObj
              [(''decision'', decision_json (admin_decision EV_AUDIT_KEY_ROTATED
                  (''audit signing key rotated by '' @ py_repr i) ''admin_key_rotation'' (engine_version e) seq None)),
               (''metadata'', JObj [(''old_key_id'', JStr old_id), (''new_key_id'', JStr new_id)])])))))"

definition export_audit :: "codec \<Rightarrow> int option \<Rightarrow> int option \<Rightarrow> ('w, string list) guarded" where
  "export_audit C from_seq to_seq A rq =
     bind_io (require_admin A rq) (\<lambda>_.
     bind_io (answering value_error 409 (ad_prepare A from_seq to_seq)) (\<lambda>(m, bnd).
       peek (\<lambda>w. export_stream C m bnd (ad_rows A w))))"

section \<open>Readiness\<close>

datatype check_end = Passed | Raised_error | Timed_out

definition check_of :: "bool \<Rightarrow> bool \<Rightarrow> check_end" where
  "check_of in_time ok = (if \<not> in_time then Timed_out else if ok then Passed else Raised_error)"

text \<open>
  The signing check: the writer is available, the store's key is the writer's and its
  public half the one on file, and no rotation or backfill is open.
\<close>

definition signing_ready :: "key_env \<Rightarrow> key_disk \<Rightarrow> key_writer \<Rightarrow> bool \<Rightarrow> bool" where
  "signing_ready K d kw backfilled \<longleftrightarrow>
     kw_available kw \<and>
     (case initialize K (power_on d []) of
        (Inl _, M) \<Rightarrow> False
      | (Inr (private, active), M) \<Rightarrow>
          active = kw_key_id kw \<and>
          (case load_public K (mc_disk M) (kw_key_id kw) of
             Inl _ \<Rightarrow> False
           | Inr pub \<Rightarrow> pub = ke_public_pem K private \<and> backfilled \<and> jd_journal d = None))"

definition policy_ready :: "bool \<Rightarrow> policy_disk \<Rightarrow> bool" where
  "policy_ready blocked d \<longleftrightarrow> \<not> blocked \<and> jd_journal d = None"

definition check_names :: "string list" where
  "check_names = [''postgres'', ''redis'', ''signing'', ''policy'']"

definition readiness_check :: "(string \<Rightarrow> check_end) \<Rightarrow> (string \<times> string) list" where
  "readiness_check ended = map (\<lambda>n. (n, if ended n = Passed then ''ok'' else ''failed'')) check_names"

definition ready :: "(string \<Rightarrow> check_end) \<Rightarrow> int \<times> json" where
  "ready ended =
     (let checks = readiness_check ended; ok = list_all (\<lambda>c. snd c = ''ok'') checks
      in (if ok then 200 else 503,
          JObj [(''status'', JStr (if ok then ''ready'' else ''not_ready'')),
                (''checks'', JObj (map (\<lambda>(n, v). (n, JStr v)) checks))]))"

section \<open>The body limit\<close>

definition admin_body_limit :: int where
  "admin_body_limit = 1024 * 1024"

definition limited :: "http_request \<Rightarrow> bool" where
  "limited rq \<longleftrightarrow> prefix ''/admin/'' (rq_path rq) \<and> rq_method rq \<in> {''POST'', ''PUT'', ''PATCH''}"

text \<open>The middleware answers, or passes the request on with the body it read.\<close>

definition admin_body :: "http_request \<Rightarrow> string option step" where
  "admin_body rq =
     (if \<not> limited rq then Next None
      else (let buffered =
              (case buffer_body admin_body_limit (rq_events rq) of
                 Waiting \<Rightarrow> Answer Unanswered
               | Refused e \<Rightarrow> rejection e
               | Buffered body rest \<Rightarrow> Next (Some body))
            in case header rq ''content-length'' of
                 None \<Rightarrow> buffered
               | Some t \<Rightarrow>
                   (case py_int t of
                      None \<Rightarrow> refuse 400 ''invalid request body''
                    | Some n \<Rightarrow>
                        if n < 0 then refuse 400 ''invalid request body''
                        else if n > admin_body_limit then refuse 413 ''request body too large''
                        else buffered)))"

section \<open>The surface\<close>

datatype admin_call =
    ApproveTool string string | ApproveCall string | ListApprovals | GetApproval string
  | ListFlagged string | GetBaseline string string | GetDecision int | Explain hypothetical "string option"
  | Simulate "int option" "int list option" string | Scaffold string string | Rollback int | Rollout
  | Validate | SimulateCandidate string | PolicyStatus | Revisions | KeyStatus | RotateKey
  | ExportAudit "int option" "int option"

datatype admin_answer = AnswerJson json | AnswerLines "string list"

definition json_answer :: "('w, json) guarded \<Rightarrow> ('w, admin_answer) guarded" where
  "json_answer h A rq = bind_io (h A rq) (\<lambda>v. ret_io (AnswerJson v))"

text \<open>The routes, with what the model leaves outside of a request: a path, a clock, the text codec.\<close>

record outside =
  out_candidate_path :: string
  out_activated_at :: "int \<Rightarrow> string"
  out_codec :: codec

fun admin_route :: "outside \<Rightarrow> admin_call \<Rightarrow> ('w, admin_answer) guarded" where
  "admin_route X (ApproveTool s t) = json_answer (approve_tool s t)"
| "admin_route X (ApproveCall n) = json_answer (approve_call n)"
| "admin_route X ListApprovals = json_answer list_approvals"
| "admin_route X (GetApproval n) = json_answer (get_approval n)"
| "admin_route X (ListFlagged kind) = json_answer (list_flagged_baselines kind)"
| "admin_route X (GetBaseline s t) = json_answer (get_baseline s t)"
| "admin_route X (GetDecision n) = json_answer (get_decision n)"
| "admin_route X (Explain h s) = json_answer (explain_decision h s)"
| "admin_route X (Simulate v vs win) = json_answer (simulate_policy v vs win)"
| "admin_route X (Scaffold src win) = json_answer (scaffold_policy src win)"
| "admin_route X (Rollback v) = json_answer (rollback_policy v)"
| "admin_route X Rollout = json_answer rollout_policy"
| "admin_route X Validate = json_answer validate_candidate"
| "admin_route X (SimulateCandidate win) = json_answer (simulate_candidate_policy win)"
| "admin_route X PolicyStatus = json_answer (policy_status (out_candidate_path X))"
| "admin_route X Revisions = json_answer (policy_revisions (out_activated_at X))"
| "admin_route X KeyStatus = json_answer audit_key_status"
| "admin_route X RotateKey = json_answer rotate_audit_key"
| "admin_route X (ExportAudit a b) =
     (\<lambda>A rq. bind_io (export_audit (out_codec X) a b A rq) (\<lambda>ls. ret_io (AnswerLines ls)))"

section \<open>Lemmas\<close>

lemma peek_app [simp, io_simps]: "peek f w = (Inr (f w), w)"
  by (simp add: peek_def)

lemma require_admin_Inr:
  assumes "require_admin A rq w = (Inr i, w')"
  shows "resolve_identity (ad_sha256 A) (ar_key rq) (ad_engine A w) = Some i \<and> is_admin (ad_engine A w') i"
  using assms
  by (auto simp: require_admin_def elim!: bind_io_InrE catch_io_cases dest!: bearer_resolved
      split: option.splits if_splits)

text \<open>Every route begins with the admin check.\<close>

definition begins_with_check :: "('w, 'a) guarded \<Rightarrow> bool" where
  "begins_with_check h \<longleftrightarrow> (\<exists>k. h = (\<lambda>A rq. bind_io (require_admin A rq) (k A rq)))"

lemma begins_withI: "(\<And>A rq. h A rq = bind_io (require_admin A rq) (k A rq)) \<Longrightarrow> begins_with_check h"
  by (auto simp: begins_with_check_def fun_eq_iff)

lemma bind_io_assoc: "bind_io (bind_io m f) g = bind_io m (\<lambda>a. bind_io (f a) g)"
  by (simp add: fun_eq_iff bind_io_def split: prod.splits sum.splits)

lemma json_answer_check: "begins_with_check h \<Longrightarrow> begins_with_check (json_answer h)"
proof -
  assume "begins_with_check h"
  then obtain k where k: "h = (\<lambda>A rq. bind_io (require_admin A rq) (k A rq))"
    unfolding begins_with_check_def by blast
  show ?thesis unfolding json_answer_def k bind_io_assoc by (rule begins_withI) (rule refl)
qed

lemmas endpoint_defs = approve_tool_def approve_call_def list_approvals_def get_approval_def
  list_flagged_baselines_def get_baseline_def get_decision_def explain_decision_def simulate_policy_def
  scaffold_policy_def rollback_policy_def rollout_policy_def validate_candidate_def simulate_candidate_policy_def
  policy_status_def policy_revisions_def audit_key_status_def rotate_audit_key_def

lemma endpoints_check:
  "begins_with_check (approve_tool s t)" "begins_with_check (approve_call n)"
  "begins_with_check list_approvals" "begins_with_check (get_approval n)"
  "begins_with_check (list_flagged_baselines kind)" "begins_with_check (get_baseline s t)"
  "begins_with_check (get_decision seq)" "begins_with_check (explain_decision h server)"
  "begins_with_check (simulate_policy v vs win)" "begins_with_check (scaffold_policy src win)"
  "begins_with_check (rollback_policy v')" "begins_with_check rollout_policy"
  "begins_with_check validate_candidate" "begins_with_check (simulate_candidate_policy win)"
  "begins_with_check (policy_status path)" "begins_with_check (policy_revisions stamps)"
  "begins_with_check audit_key_status" "begins_with_check rotate_audit_key"
  by (rule begins_withI, (simp only: endpoint_defs), (rule refl)?)+

lemma admin_route_check: "begins_with_check (admin_route X call)"
proof (cases call)
  case (ExportAudit a b)
  show ?thesis
    unfolding ExportAudit admin_route.simps export_audit_def bind_io_assoc by (rule begins_withI) (rule refl)
qed (simp_all only: admin_route.simps json_answer_check endpoints_check)

section \<open>Properties\<close>

text \<open>
  C24: Every administrative operation needs an admin. A request that is answered resolved
  its key to an identity that the policy makes an admin; any other request is refused with
  the error of the check and does nothing beyond it (the failure limiter's count).
\<close>

theorem admin_calls_need_an_admin:
  fixes A :: "'w admin"
  assumes "admin_route X call A rq w = (r, w')"
  shows "(\<exists>i w1. require_admin A rq w = (Inr i, w1) \<and>
      resolve_identity (ad_sha256 A) (ar_key rq) (ad_engine A w) = Some i \<and> is_admin (ad_engine A w1) i) \<or>
    (\<exists>e. require_admin A rq w = (Inl e, w') \<and> r = Inl e)"
proof -
  from admin_route_check [of X call] obtain k where
    k: "(admin_route X call :: ('w, admin_answer) guarded) = (\<lambda>A rq. bind_io (require_admin A rq) (k A rq))"
    unfolding begins_with_check_def by blast
  show ?thesis
  proof (cases "require_admin A rq w")
    case (Pair x w1)
    show ?thesis
    proof (cases x)
      case (Inl e)
      from assms k have "bind_io (require_admin A rq) (k A rq) w = (r, w')" by simp
      with Pair Inl show ?thesis by (simp add: bind_io_def)
    next
      case (Inr i)
      with Pair require_admin_Inr [of A rq w i w1] show ?thesis by blast
    qed
  qed
qed

text \<open>
  C25: A rollout keeps its caller in charge. When the activation puts the candidate in
  force (as \<open>activate_policy\<close> does when it returns), a rollout that succeeds leaves the
  gateway on the very policy that was uploaded, and there the caller's own key still
  resolves to the same identity, an admin.
\<close>

theorem rollout_keeps_its_caller_admin:
  assumes "rollout_policy A rq w = (Inr v, w')"
    and "\<forall>e i kind rollback u x u'. ad_activate A e i kind rollback u = (Inr x, u') \<longrightarrow> ad_engine A u' = e"
  shows "\<exists>i w1. require_admin A rq w = (Inr i, w1) \<and> ad_load A (ar_body rq) = Inr (ad_engine A w') \<and>
    media_type rq = ''application/yaml'' \<and>
    resolve_identity (ad_sha256 A) (ar_key rq) (ad_engine A w') = Some i \<and> is_admin (ad_engine A w') i"
proof -
  from assms(1) obtain i w1 e x w2 where i: "require_admin A rq w = (Inr i, w1)"
    and e: "checked_candidate A rq i = Inr e" and act: "ad_activate A e i ''api'' False w1 = (Inr x, w2)"
    and w': "w' = w2"
    by (auto simp: rollout_policy_def answering_def elim!: bind_io_InrE catch_io_cases split: prod.splits)
  from act assms(2) w' have eng: "ad_engine A w' = e" by blast
  from e have "ad_load A (ar_body rq) = Inr e \<and> media_type rq = ''application/yaml'' \<and>
      resolve_identity (ad_sha256 A) (ar_key rq) e = Some i \<and> is_admin e i"
    by (auto simp: checked_candidate_def uploaded_candidate_def require_yaml_def require_same_admin_def
        bind_res_Inr_iff split: if_splits sum.splits)
  with i eng show ?thesis by blast
qed

text \<open>The concrete activation does put its candidate in force.\<close>

lemma activation_installs:
  assumes "activate_policy sha256 preflight evict op_id e who kind rollback p = (Inr x, p')"
  shows "gw_engine (fst p') = e"
proof -
  from assms obtain g M where body: "activation_body sha256 preflight evict op_id e who kind rollback
      ((fst p)\<lparr>gw_locked := True\<rparr>, snd p) = (Inr x, (g, M))" and p': "p' = (g\<lparr>gw_locked := False\<rparr>, M)"
    by (auto simp: activate_policy_def split: if_splits prod.splits)
  from body obtain op q where "complete sha256 evict e op q = (Inr (), (g, M))"
    by (auto simp: activation_body_def Let_def set_blocked_def elim!: bind_io_InrE catch_io_cases split: prod.splits)
  then obtain q1 q2 q3 u u' where force: "put_in_force evict e q1 = (Inr u, q2)"
    and fin: "outer finish q2 = (Inr u', q3)" "g = (fst q3)\<lparr>gw_blocked := False\<rparr>"
    unfolding complete_def by (elim bind_io_InrE) simp
  from force have "gw_engine (fst q2) = e" by (auto simp: put_in_force_def Let_def split: prod.splits)
  with fin have "gw_engine g = e" by (auto simp: outer_def split: prod.splits)
  with p' show ?thesis by simp
qed

section \<open>Queues, bodies, readiness\<close>

lemma page_bounded: "length (shown_rows rows) \<le> 100 \<and> (truncated rows \<longleftrightarrow> length rows > 100) \<and>
    (\<not> truncated rows \<longrightarrow> shown_rows rows = rows)"
  by (auto simp: shown_rows_def truncated_def)

lemma admin_body_whole:
  assumes "admin_body rq = Next (Some body)"
  shows "limited rq \<and> int (length body) \<le> admin_body_limit \<and> (\<exists>rest. sent_body (rq_events rq) = Some (body, rest))"
  using assms
  by (auto simp: admin_body_def Let_def refuse_def buffer_body_def buffer_events_Buffered
      split: if_splits option.splits buffering.splits exn.splits elim!: rejection.elims)

lemma ready_iff: "fst (ready ended) = 200 \<longleftrightarrow> (\<forall>n \<in> set check_names. ended n = Passed)"
  by (auto simp: ready_def readiness_check_def Let_def check_names_def)

text \<open>
  A grant whose decay step fails is kept, while the caller is told 500: the approval is
  already redeemable, and a second attempt finds it no longer pending.
\<close>

lemma approval_kept_when_decay_fails:
  assumes "require_admin A rq w = (Inr i, w1)" and "ad_approve_call A n i w1 = (Inr (seq, requester, server, tool), w2)"
    and "ad_apply_decay A requester server tool w2 = (Inl e, w3)"
  shows "approve_call n A rq w = (Inl e, w3)"
  using assms by (simp add: approve_call_def answering_def bind_io_def catch_io_def)

text \<open>The last day of the calendar in a window is an internal error of the simulation endpoint.\<close>

lemma last_day_is_internal_error:
  assumes "require_admin A rq w = (Inr i, w1)"
  shows "simulate_policy (Some v) None ''2024-01-01..9999-12-31'' A rq w = (Inl OverflowError, w1)"
  using assms last_day_overflows [of replay_window]
  by (simp add: simulate_policy_def simulate_historical_def bind_io_def catch_io_def of_res_def simulation_error_def
      raise_io_def)

section \<open>A site\<close>

definition boss :: ident where
  "boss = sample_identity\<lparr>i_id := ''ann'', i_api_key_hash := Some ''sha256:k'', i_admin := True\<rparr>"

definition boss_engine :: "int \<Rightarrow> string \<Rightarrow> policy_engine" where
  "boss_engine version raw =
     \<lparr>e_policy = sample_policy\<lparr>p_version := version, p_identities := [boss]\<rparr>, e_content_hash = raw, e_raw = raw\<rparr>"

text \<open>Revision 1 has no admin, revision 2 is in force.\<close>

definition site_load :: "string \<Rightarrow> policy_engine res" where
  "site_load raw =
     (if raw = ''raw'' then Inr sample_engine else if raw = ''two'' then Inr (boss_engine 2 raw)
      else if raw = ''three'' then Inr (boss_engine 3 raw) else Inl (ValueError ''bad yaml''))"

definition site_disk :: policy_disk where
  "site_disk =
     \<lparr>jd_active = Some ''two'', jd_pending = None, jd_journal = None, jd_log = [], jd_next_seq = 1, pd_candidate = None,
      pd_snapshots = [(1, ''raw''), (2, ''two'')],
      pd_versions = [(1, \<lparr>pv_content_hash = ''raw'', pv_activated_by = ''startup''\<rparr>),
                     (2, \<lparr>pv_content_hash = ''two'', pv_activated_by = ''startup''\<rparr>)]\<rparr>"

type_synonym site = "unit gateway \<times> policy_disk machine"

definition site_start :: site where
  "site_start =
     (\<lparr>gw_engine = boss_engine 2 ''two'', gw_blocked = False, gw_locked = False, gw_manager = ()\<rparr>,
      power_on site_disk [])"

definition site_admin :: "site admin" where
  "site_admin =
     \<lparr>ad_settings = default_settings, ad_redis = (\<lambda>_ w. (Inr NilR, w)), ad_sha256 = id, ad_canon = (\<lambda>_. Inr []),
      ad_iso = (\<lambda>_. []), ad_float_str = (\<lambda>_. []), ad_factor_of = (\<lambda>_. Inl TypeError), ad_utf8 = (\<lambda>_. True),
      ad_load = site_load, ad_engine = (\<lambda>p. gw_engine (fst p)), ad_blocked = (\<lambda>p. gw_blocked (fst p)),
      ad_locked = (\<lambda>p. gw_locked (fst p)), ad_disk = (\<lambda>p. mc_disk (snd p)), ad_rows = (\<lambda>_. []),
      ad_approvals = (\<lambda>_. []), ad_baselines = (\<lambda>_. []),
      ad_writer = (\<lambda>_. \<lparr>kw_signing_key = [], kw_key_id = [], kw_available = True\<rparr>),
      ad_keys = (\<lambda>_. \<lparr>jd_active = None, jd_pending = None, jd_journal = None, jd_log = [], jd_next_seq = 1, kd_public = []\<rparr>),
      ad_rotating = (\<lambda>_. False),
      ad_approve_tool = (\<lambda>_ _ _. raise_io (LookupError ''unknown baseline'')),
      ad_approve_call = (\<lambda>_ _. raise_io (LookupError ''unknown approval'')), ad_apply_decay = (\<lambda>_ _ _. ret_io ()),
      ad_expire_stale = ret_io (),
      ad_activate = (\<lambda>e who kind rollback. activate_policy id (\<lambda>_. Inr ()) (ret_io ()) ''op'' e who kind rollback),
      ad_status = (\<lambda>e. outer (activation_status e)), ad_preflight = (\<lambda>_. ret_io ()),
      ad_rotate = (\<lambda>_. raise_io (RuntimeError [])),
      ad_explainer = (\<lambda>e mode. \<lparr>xp_engine = e, xp_mode = mode, xp_validate_params = True, xp_now = 0,
        xp_is_blocked = (\<lambda>_ _. ret_io False), xp_dry_score = (\<lambda>_ _ _ _ _. ret_io (10, [])),
        xp_cache_get = (\<lambda>_. ret_io None), xp_validate = (\<lambda>_ _. Inr None)\<rparr>),
      ad_ellipsis = [], ad_scaffold = (\<lambda>_ _. ret_io (Inl (Conflict []))), ad_prepare = (\<lambda>_ _. raise_io (ValueError []))\<rparr>"

definition upload :: admin_request where
  "upload = \<lparr>ar_key = Some ''k'', ar_client = JArr [JStr ''10.0.0.1'', JInt 1], ar_content_type = Some ''application/yaml; charset=utf-8'',
     ar_body = ''three''\<rparr>"

lemma site_installs:
  "ad_activate site_admin e i kind rollback u = (Inr x, u') \<Longrightarrow> ad_engine site_admin u' = e"
  by (auto simp: site_admin_def dest: activation_installs)

lemma site_rollout: "(case rollout_policy site_admin upload site_start of
    (Inr v, p) \<Rightarrow> gw_engine (fst p) = boss_engine 3 ''three'' | _ \<Rightarrow> False)"
  by code_simp

theorem rollout_keeps_its_caller_admin_witness:
  "\<exists>v p. rollout_policy site_admin upload site_start = (Inr v, p) \<and> is_admin (ad_engine site_admin p) ''ann'' \<and>
     resolve_identity id (Some ''k'') (ad_engine site_admin p) = Some ''ann''"
proof -
  obtain v p where run: "rollout_policy site_admin upload site_start = (Inr v, p)"
    using site_rollout by (auto split: prod.splits sum.splits)
  from rollout_keeps_its_caller_admin [OF run] site_installs obtain i w1 where
    i: "require_admin site_admin upload site_start = (Inr i, w1)"
    and e: "resolve_identity (ad_sha256 site_admin) (ar_key upload) (ad_engine site_admin p) = Some i"
      "is_admin (ad_engine site_admin p) i" by blast
  have "fst (require_admin site_admin upload site_start) = Inr ''ann''" by code_simp
  with i e run show ?thesis by (simp add: site_admin_def upload_def)
qed

theorem admin_calls_need_an_admin_witness:
  "fst (admin_route \<lparr>out_candidate_path = [], out_activated_at = (\<lambda>_. []), out_codec = sample_codec JNull JNull\<rparr>
     PolicyStatus site_admin (upload\<lparr>ar_key := None\<rparr>) site_start) =
   Inl (HttpError 401 ''invalid or missing API key'')"
proof -
  let ?X = "\<lparr>out_candidate_path = [], out_activated_at = (\<lambda>_. []), out_codec = sample_codec JNull JNull\<rparr>"
    and ?rq = "upload\<lparr>ar_key := None\<rparr>"
  obtain r w' where run: "admin_route ?X PolicyStatus site_admin ?rq site_start = (r, w')"
    by (cases "admin_route ?X PolicyStatus site_admin ?rq site_start")
  have "fst (require_admin site_admin ?rq site_start) = Inl (HttpError 401 ''invalid or missing API key'')" by code_simp
  with admin_calls_need_an_admin [OF run] run show ?thesis by fastforce
qed

text \<open>
  A rollback does not ask what a rollout asks: an admin can roll back to a recorded
  revision that has no admin at all, and nobody can administer the gateway after it.
\<close>

theorem rollback_can_remove_every_admin:
  "case rollback_policy 1 site_admin upload site_start of
     (r, p) \<Rightarrow> (case r of Inr v \<Rightarrow> True | Inl e \<Rightarrow> False) \<and> gw_engine (fst p) = sample_engine \<and>
       \<not> list_ex i_admin (p_identities (e_policy (gw_engine (fst p))))"
  by code_simp

end
