(* ===== verification/UpstreamClient.thy ===== *)
theory UpstreamClient
  imports PolicyEngine PyJson
begin

text \<open>
  \<open>services/gateway/upstream_client.py\<close>: the container of an upstream server, started,
  polled and stopped through the docker command line, and the newline-delimited messages
  on its pipes. The operating system is a record of calls on a world: a command run to its
  end, a command left running with pipes, its exit status, waiting, killing. So are
  the encodings and the JSON of a message, which pydantic reads and prints.
\<close>

section \<open>The host\<close>

record 'w host =
  ho_environ :: "string \<Rightarrow> string option"
  ho_which :: "string \<Rightarrow> string option"
  ho_exec :: "string list \<Rightarrow> (string \<times> string) list option \<Rightarrow> ('w, int \<times> string \<times> string) io"
  ho_start :: "string list \<Rightarrow> (string \<times> string) list \<Rightarrow> ('w, nat) io"
  ho_exit :: "nat \<Rightarrow> 'w \<Rightarrow> int option"
  ho_wait :: "nat \<Rightarrow> int option \<Rightarrow> ('w, bool) io"
  ho_kill :: "nat \<Rightarrow> ('w, unit) io"
  ho_sleep :: "('w, unit) io"
  ho_write :: "nat \<Rightarrow> string \<Rightarrow> ('w, unit) io"
  ho_decode :: "string \<Rightarrow> string res"
  ho_decode_replace :: "string \<Rightarrow> string"
  ho_float_str :: "rat \<Rightarrow> string"

text \<open>\<open>DockerRuntime\<close> and \<open>ContainerProcess\<close>.\<close>

record runtime =
  rt_docker :: string
  rt_host :: string
  rt_namespace :: string

record container =
  ct_process :: nat
  ct_name :: string

definition container_exit :: "'w host \<Rightarrow> container \<Rightarrow> 'w \<Rightarrow> int option" where
  "container_exit H c w = ho_exit H (ct_process c) w"

text \<open>\<open>str.split()\<close>: the words between white space.\<close>

fun split_at :: "(char \<Rightarrow> bool) \<Rightarrow> string \<Rightarrow> string list" where
  "split_at P [] = [[]]"
| "split_at P (c # cs) =
     (let ws = split_at P cs in if P c then [] # ws else (c # hd ws) # tl ws)"

definition words :: "string \<Rightarrow> string list" where
  "words s = filter (\<lambda>w. w \<noteq> []) (split_at py_space s)"

section \<open>Docker commands\<close>

definition managed_label :: string where
  "managed_label = ''io.portunusmcp.managed=true''"

definition namespace_label :: "runtime \<Rightarrow> string" where
  "namespace_label rt = ''io.portunusmcp.namespace='' @ rt_namespace rt"

definition docker_run ::
  "'w host \<Rightarrow> runtime \<Rightarrow> string list \<Rightarrow> bool \<Rightarrow> ('w, int \<times> string \<times> string) io" where
  "docker_run H rt args check =
     bind_io (ho_exec H ([rt_docker rt, ''--host'', rt_host rt] @ args) (Some [])) (\<lambda>(status, out, err).
       if check \<and> status \<noteq> 0
       then raise_io (DockerError (''docker '' @ join_with '' '' (take 2 args) @ '' failed: '' @
              py_strip (ho_decode_replace H err)))
       else ret_io (status, out, err))"

definition cleanup_orphans :: "'w host \<Rightarrow> runtime \<Rightarrow> ('w, unit) io" where
  "cleanup_orphans H rt =
     bind_io (docker_run H rt [''ps'', ''-aq'', ''--filter'', ''label='' @ managed_label,
                ''--filter'', ''label='' @ namespace_label rt] True) (\<lambda>(status, out, err).
     bind_io (of_res (ho_decode H out)) (\<lambda>text.
       let containers = words text
       in if containers = [] then ret_io ()
          else bind_io (docker_run H rt ([''rm'', ''-f''] @ containers) True) (\<lambda>_. ret_io ())))"

definition volume_namespace :: "runtime \<Rightarrow> string" where
  "volume_namespace rt = ''portunusmcp-upstream-'' @ rt_namespace rt @ ''-''"

fun preflight_mounts :: "'w host \<Rightarrow> runtime \<Rightarrow> string \<Rightarrow> mount list \<Rightarrow> ('w, unit) io" where
  "preflight_mounts H rt server_id [] = ret_io ()"
| "preflight_mounts H rt server_id (m # ms) =
     (if \<not> prefix (volume_namespace rt) (m_source m)
      then raise_io (DockerError (''server '' @ py_repr server_id @ '' volume '' @ py_repr (m_source m) @
             '' must start with '' @ py_repr (volume_namespace rt)))
      else bind_io (docker_run H rt [''volume'', ''inspect'', m_source m] True)
             (\<lambda>_. preflight_mounts H rt server_id ms))"

fun preflight :: "'w host \<Rightarrow> runtime \<Rightarrow> (string \<times> upstream_server) list \<Rightarrow> ('w, unit) io" where
  "preflight H rt [] = ret_io ()"
| "preflight H rt ((server_id, s) # servers) =
     bind_io (docker_run H rt [''image'', ''inspect'', us_image s] True) (\<lambda>_.
     bind_io (preflight_mounts H rt server_id (us_volumes s)) (\<lambda>_. preflight H rt servers))"

definition namespace_re :: regex where
  "namespace_re = RSeq (Cls (\<lambda>c. c \<in> set ''abcdefghijklmnopqrstuvwxyz0123456789''))
     (RRep 0 (Some 31) (Cls (\<lambda>c. c \<in> set ''abcdefghijklmnopqrstuvwxyz0123456789-'')))"

definition create_runtime :: "'w host \<Rightarrow> (string \<times> upstream_server) list \<Rightarrow> ('w, runtime) io" where
  "create_runtime H servers =
     (let namespace = (case ho_environ H ''UPSTREAM_RUNTIME_NAMESPACE'' of None \<Rightarrow> [] | Some v \<Rightarrow> v)
      in if \<not> re_fullmatch namespace_re namespace
         then raise_io (DockerError
           ''UPSTREAM_RUNTIME_NAMESPACE is required and must match ^[a-z0-9][a-z0-9-]{0,31}$'')
         else case ho_which H ''docker'' of
           None \<Rightarrow> raise_io (DockerError ''docker CLI not found'')
         | Some docker \<Rightarrow>
             bind_io (ho_exec H [docker, ''context'', ''inspect'', ''--format'', ''{{.Endpoints.docker.Host}}'']
               None) (\<lambda>(status, out, err).
             if status \<noteq> 0
             then bind_io (of_res (ho_decode H err)) (\<lambda>t.
               raise_io (DockerError (''cannot inspect Docker context: '' @ py_strip t)))
             else bind_io (of_res (ho_decode H out)) (\<lambda>t.
               let rt = \<lparr>rt_docker = docker, rt_host = py_strip t, rt_namespace = namespace\<rparr>
               in if \<not> prefix ''unix://'' (rt_host rt)
                  then raise_io (DockerError ''item 39 supports only a local Unix Docker socket'')
                  else bind_io (docker_run H rt [''version''] True) (\<lambda>_.
                       bind_io (cleanup_orphans H rt) (\<lambda>_.
                       bind_io (preflight H rt servers) (\<lambda>_. ret_io rt))))))"

section \<open>One container\<close>

fun network_text :: "network \<Rightarrow> string" where
  "network_text NetNone = ''none''"
| "network_text NetBridge = ''bridge''"

definition container_name :: "runtime \<Rightarrow> string \<Rightarrow> string" where
  "container_name rt session_id = rt_namespace rt @ ''-upstream-'' @ session_id"

definition mount_text :: "mount \<Rightarrow> string" where
  "mount_text m = ''type=volume,src='' @ m_source m @ '',dst='' @ m_target m @ '',readonly''"

definition container_args :: "'w host \<Rightarrow> runtime \<Rightarrow> upstream_server \<Rightarrow> string \<Rightarrow> string \<Rightarrow> string list" where
  "container_args H rt s session_id server_id =
     (let r = us_resources s
      in [rt_docker rt, ''--host'', rt_host rt, ''run'', ''--rm'', ''-i'', ''--init'', ''--pull'', ''never'',
          ''--name'', container_name rt session_id,
          ''--label'', managed_label, ''--label'', namespace_label rt,
          ''--label'', ''io.portunusmcp.session='' @ session_id,
          ''--label'', ''io.portunusmcp.server='' @ server_id,
          ''--user'', ''65532:65532'', ''--security-opt'', ''no-new-privileges'', ''--cap-drop'', ''ALL'',
          ''--read-only'', ''--tmpfs'', ''/tmp:rw,nosuid,nodev,noexec,size=16m'',
          ''--memory'', int_str (memory_mb r) @ ''m'', ''--memory-swap'', int_str (memory_mb r) @ ''m'',
          ''--cpus'', ho_float_str H (cpus r), ''--pids-limit'', int_str (pids r),
          ''--network'', network_text (us_network s)] @
         concat (map (\<lambda>m. [''--mount'', mount_text m]) (us_volumes s)) @
         concat (map (\<lambda>(name, value). [''--env'', name]) (us_resolved_environment s)) @
         us_image s # us_command s)"

definition stop_container :: "'w host \<Rightarrow> runtime \<Rightarrow> container \<Rightarrow> int \<Rightarrow> ('w, unit) io" where
  "stop_container H rt c grace =
     bind_io (\<lambda>w. if container_exit H c w = None
       then docker_run H rt [''stop'', ''--time'', int_str grace, ct_name c] False w
       else (Inr (0, [], []), w)) (\<lambda>_.
     bind_io (ho_wait H (ct_process c) (Some (grace + 2))) (\<lambda>ended.
       if ended then ret_io ()
       else bind_io (docker_run H rt [''rm'', ''-f'', ct_name c] False) (\<lambda>_.
            bind_io (ho_wait H (ct_process c) (Some 2)) (\<lambda>ended.
              if ended then ret_io ()
              else bind_io (ho_kill H (ct_process c)) (\<lambda>_.
                   bind_io (ho_wait H (ct_process c) None) (\<lambda>_. ret_io ()))))))"

text \<open>The loop of \<open>spawn\<close>: at most fifty looks for the container.\<close>

definition poll_limit :: nat where "poll_limit = 50"

fun poll_container :: "'w host \<Rightarrow> runtime \<Rightarrow> string \<Rightarrow> container \<Rightarrow> nat \<Rightarrow> ('w, container) io" where
  "poll_container H rt server_id c 0 =
     bind_io (stop_container H rt c 0) (\<lambda>_.
       raise_io (DockerError (''upstream container '' @ py_repr server_id @ '' did not start'')))"
| "poll_container H rt server_id c (Suc n) =
     (\<lambda>w. if container_exit H c w \<noteq> None
        then (Inl (DockerError (''upstream container '' @ py_repr server_id @
                '' exited during session creation'')), w)
        else bind_io (docker_run H rt [''inspect'', ct_name c] False) (\<lambda>(status, out, err).
               if status = 0 then ret_io c
               else bind_io (ho_sleep H) (\<lambda>_. poll_container H rt server_id c n)) w)"

definition spawn ::
  "'w host \<Rightarrow> runtime \<Rightarrow> upstream_server \<Rightarrow> string \<Rightarrow> string \<Rightarrow> ('w, container) io" where
  "spawn H rt s session_id server_id =
     bind_io (ho_start H (container_args H rt s session_id server_id) (us_resolved_environment s)) (\<lambda>p.
       poll_container H rt server_id \<lparr>ct_process = p, ct_name = container_name rt session_id\<rparr> poll_limit)"

section \<open>Messages\<close>

text \<open>
  \<open>StreamReader.readline\<close> on the bytes the process writes: a line with its newline, the
  rest at the end of the stream, and a \<open>ValueError\<close> when the line exceeds the limit.
\<close>

definition stream_limit :: int where "stream_limit = 4 * 1024 * 1024"

definition newline :: char where "newline = CHR 0x0A"

definition readline :: "int \<Rightarrow> string \<Rightarrow> (string \<times> string) res" where
  "readline limit s =
     (let line = takeWhile (\<lambda>c. c \<noteq> newline) s; n = length line
      in if int n > limit then Inl (ValueError ''Separator is found, but chunk is longer than limit'')
         else Inr (take (Suc n) s, drop (Suc n) s))"

lemma readline_shorter: "readline limit s = Inr (line, s') \<Longrightarrow> line \<noteq> [] \<Longrightarrow> length s' < length s"
  by (cases s) (auto simp: readline_def Let_def split: if_splits)

text \<open>The messages yielded, and how the generator ended.\<close>

function read_messages :: "int \<Rightarrow> (string \<Rightarrow> 'm res) \<Rightarrow> string \<Rightarrow> 'm list \<times> exn option" where
  "read_messages limit validate s =
     (case readline limit s of
        Inl e \<Rightarrow> ([], Some e)
      | Inr (line, s') \<Rightarrow>
          if line = [] then ([], None)
          else (case validate line of
                  Inl e \<Rightarrow> ([], Some e)
                | Inr m \<Rightarrow>
                    (let (ms, how) = read_messages limit validate s' in (m # ms, how))))"
  by pat_completeness auto

termination
  by (relation "measure (\<lambda>(limit, validate, s). length s)") (auto dest: readline_shorter)

declare read_messages.simps [simp del]

definition encode :: "('m \<Rightarrow> string) \<Rightarrow> 'm \<Rightarrow> string" where
  "encode dump m = dump m @ [newline]"

definition write_message :: "'w host \<Rightarrow> ('m \<Rightarrow> string) \<Rightarrow> container \<Rightarrow> 'm \<Rightarrow> ('w, unit) io" where
  "write_message H dump c m = ho_write H (ct_process c) (encode dump m)"

section \<open>The isolation of a container\<close>

text \<open>The options between \<open>run\<close> and the image, each with its value.\<close>

type_synonym options = "(string \<times> string option) list"

fun option_words :: "string \<times> string option \<Rightarrow> string list" where
  "option_words (flag, None) = [flag]"
| "option_words (flag, Some v) = [flag, v]"

definition flag_values :: "string \<Rightarrow> options \<Rightarrow> string option list" where
  "flag_values flag ps = map snd (filter (\<lambda>p. fst p = flag) ps)"

definition fixed_options :: "'w host \<Rightarrow> runtime \<Rightarrow> upstream_server \<Rightarrow> string \<Rightarrow> string \<Rightarrow> options" where
  "fixed_options H rt s session_id server_id =
     (let r = us_resources s
      in [(''--rm'', None), (''-i'', None), (''--init'', None), (''--pull'', Some ''never''),
          (''--name'', Some (container_name rt session_id)), (''--label'', Some managed_label),
          (''--label'', Some (namespace_label rt)),
          (''--label'', Some (''io.portunusmcp.session='' @ session_id)),
          (''--label'', Some (''io.portunusmcp.server='' @ server_id)),
          (''--user'', Some ''65532:65532''), (''--security-opt'', Some ''no-new-privileges''),
          (''--cap-drop'', Some ''ALL''), (''--read-only'', None),
          (''--tmpfs'', Some ''/tmp:rw,nosuid,nodev,noexec,size=16m''),
          (''--memory'', Some (int_str (memory_mb r) @ ''m'')),
          (''--memory-swap'', Some (int_str (memory_mb r) @ ''m'')),
          (''--cpus'', Some (ho_float_str H (cpus r))), (''--pids-limit'', Some (int_str (pids r))),
          (''--network'', Some (network_text (us_network s)))])"

definition server_options :: "'w host \<Rightarrow> runtime \<Rightarrow> upstream_server \<Rightarrow> string \<Rightarrow> string \<Rightarrow> options" where
  "server_options H rt s session_id server_id =
     fixed_options H rt s session_id server_id @
     map (\<lambda>m. (''--mount'', Some (mount_text m))) (us_volumes s) @
     map (\<lambda>(name, value). (''--env'', Some name)) (us_resolved_environment s)"

definition safe_flags :: "string list" where
  "safe_flags = [''--rm'', ''-i'', ''--init'', ''--pull'', ''--name'', ''--label'', ''--user'', ''--security-opt'',
     ''--cap-drop'', ''--read-only'', ''--tmpfs'', ''--memory'', ''--memory-swap'', ''--cpus'', ''--pids-limit'',
     ''--network'', ''--mount'', ''--env'']"

lemma env_words:
  "concat (map option_words (map (\<lambda>(n, v). (g, Some n)) xs)) = concat (map (\<lambda>(n, v). [g, n]) xs)"
  by (induction xs) auto

lemma container_args_options:
  "container_args H rt s sid server_id =
     [rt_docker rt, ''--host'', rt_host rt, ''run''] @
     concat (map option_words (server_options H rt s sid server_id)) @ us_image s # us_command s"
  unfolding container_args_def server_options_def map_append concat_append env_words
  by (simp add: fixed_options_def Let_def comp_def)

lemma server_options_safe: "set (map fst (server_options H rt s sid server_id)) \<subseteq> set safe_flags"
  by (auto simp: server_options_def fixed_options_def safe_flags_def Let_def)

lemma flag_values_append [simp]: "flag_values f (ps @ qs) = flag_values f ps @ flag_values f qs"
  by (simp add: flag_values_def)

lemma flag_values_map:
  "flag_values f (map (\<lambda>x. (g, v x)) xs) = (if f = g then map v xs else [])"
  by (simp add: flag_values_def comp_def)

lemma flag_values_env:
  "flag_values f (map (\<lambda>(n, v). (g, Some n)) xs) = (if f = g then map (\<lambda>p. Some (fst p)) xs else [])"
  by (induction xs) (auto simp: flag_values_def)

lemmas flag_simps = server_options_def flag_values_map flag_values_env

lemma server_flag_values:
  "flag_values ''--rm'' (server_options H rt s sid server_id) = [None]"
  "flag_values ''-i'' (server_options H rt s sid server_id) = [None]"
  "flag_values ''--init'' (server_options H rt s sid server_id) = [None]"
  "flag_values ''--pull'' (server_options H rt s sid server_id) = [Some ''never'']"
  "flag_values ''--name'' (server_options H rt s sid server_id) = [Some (container_name rt sid)]"
  "flag_values ''--label'' (server_options H rt s sid server_id) =
     [Some managed_label, Some (namespace_label rt), Some (''io.portunusmcp.session='' @ sid), Some (''io.portunusmcp.server='' @ server_id)]"
  "flag_values ''--tmpfs'' (server_options H rt s sid server_id) = [Some ''/tmp:rw,nosuid,nodev,noexec,size=16m'']"
  "flag_values ''--memory-swap'' (server_options H rt s sid server_id) = [Some (int_str (memory_mb (us_resources s)) @ ''m'')]"
  "flag_values ''--cpus'' (server_options H rt s sid server_id) = [Some (ho_float_str H (cpus (us_resources s)))]"
  "flag_values ''--user'' (server_options H rt s sid server_id) = [Some ''65532:65532'']"
  "flag_values ''--security-opt'' (server_options H rt s sid server_id) = [Some ''no-new-privileges'']"
  "flag_values ''--cap-drop'' (server_options H rt s sid server_id) = [Some ''ALL'']"
  "flag_values ''--read-only'' (server_options H rt s sid server_id) = [None]"
  "flag_values ''--network'' (server_options H rt s sid server_id) = [Some (network_text (us_network s))]"
  "flag_values ''--memory'' (server_options H rt s sid server_id) = [Some (int_str (memory_mb (us_resources s)) @ ''m'')]"
  "flag_values ''--pids-limit'' (server_options H rt s sid server_id) = [Some (int_str (pids (us_resources s)))]"
  "flag_values ''--mount'' (server_options H rt s sid server_id) = map (\<lambda>m. Some (mount_text m)) (us_volumes s)"
  "flag_values ''--env'' (server_options H rt s sid server_id) = map (\<lambda>p. Some (fst p)) (us_resolved_environment s)"
  unfolding flag_simps flag_values_append by (simp_all add: fixed_options_def flag_values_def Let_def)

text \<open>A mount option has the four fields it is written with: no part of it holds a comma.\<close>

lemma check_mount_Inr:
  "check_mount m = Inr m' \<Longrightarrow>
     m' = m \<and> prefix volume_prefix (m_source m) \<and> CHR '','' \<notin> set (m_source m) \<and> CHR '','' \<notin> set (m_target m)"
  by (auto simp: check_mount_def Let_def split: if_splits)

lemma mount_fields:
  assumes "check_mount m = Inr m'"
  shows "split_on CHR '','' (mount_text m) =
    [''type=volume'', ''src='' @ m_source m, ''dst='' @ m_target m, ''readonly'']"
proof -
  let ?c = "CHR '',''"
  have c: "?c \<notin> set (''src='' @ m_source m)" "?c \<notin> set (''dst='' @ m_target m)"
    using check_mount_Inr [OF assms] by auto
  have "mount_text m = ''type=volume'' @ ?c # (''src='' @ m_source m) @ ?c # (''dst='' @ m_target m) @ ?c # ''readonly''"
    by (simp add: mount_text_def)
  then show ?thesis
    using c by (simp only: split_on_joined split_on_whole) (simp add: split_on_joined split_on_whole)
qed

lemma check_server_InrE:
  assumes "check_server environ s = Inr s'"
  shows "us_volumes s' = us_volumes s" and "\<And>m. m \<in> set (us_volumes s) \<Longrightarrow> \<exists>m'. check_mount m = Inr m'"
proof -
  from assms obtain ms where "collect_res (map check_mount (us_volumes s)) = Inr ms"
    and s': "us_volumes s' = us_volumes s" by (auto simp: check_server_def bind_res_Inr_iff)
  then show "\<And>m. m \<in> set (us_volumes s) \<Longrightarrow> \<exists>m'. check_mount m = Inr m'"
    by (metis collect_res_Inr_length collect_res_Inr_nth in_set_conv_nth length_map nth_map)
  show "us_volumes s' = us_volumes s" by (rule s')
qed

lemma preflight_mounts_Inr:
  "preflight_mounts H rt i ms w = (Inr u, w') \<Longrightarrow> m \<in> set ms \<Longrightarrow> prefix (volume_namespace rt) (m_source m)"
  by (induction ms arbitrary: w) (auto split: if_splits elim!: bind_io_InrE)

lemma preflight_Inr:
  "preflight H rt servers w = (Inr u, w') \<Longrightarrow> (i, s) \<in> set servers \<Longrightarrow> m \<in> set (us_volumes s) \<Longrightarrow>
     prefix (volume_namespace rt) (m_source m)"
  by (induction servers arbitrary: w) (auto elim!: bind_io_InrE dest: preflight_mounts_Inr)

lemma create_runtime_Inr:
  assumes "create_runtime H servers w = (Inr rt, w')"
  shows "re_fullmatch namespace_re (rt_namespace rt)" and "prefix ''unix://'' (rt_host rt)"
  using assms by (auto simp: create_runtime_def Let_def elim!: bind_io_InrE split: if_splits option.splits prod.splits)

lemma poll_container_Inr: "poll_container H rt i c n w = (Inr c', w') \<Longrightarrow> c' = c"
  by (induction H rt i c n arbitrary: w rule: poll_container.induct)
    (auto split: if_splits prod.splits elim!: bind_io_InrE)

text \<open>
  C26: Every container is isolated. A session that a runtime opens for a validated server
  that passed the preflight starts one process: docker on a local socket, running the
  server's image and command after options of known kinds only, each given exactly as often
  and with exactly the values stated: removed at its end, with an init process, never pulled,
  named and labelled as this session's; run as an unprivileged user without capabilities or
  new privileges on a read-only file system with a small \<open>/tmp\<close>; with the server's network,
  memory (and no swap beyond it), processor and process limits, and its environment by name;
  its mounts are exactly the server's volumes, all of the gateway's namespace, each read-only
  as four fields no name can add to.
\<close>

theorem spawned_container_is_isolated:
  assumes "create_runtime H servers w0 = (Inr rt, w1)" and "preflight H rt active w2 = (Inr u, w3)"
    and "(server_id, s) \<in> set active" and "check_server environ s0 = Inr s"
    and "spawn H rt s session_id server_id w = (Inr c, w')"
  shows "prefix ''unix://'' (rt_host rt) \<and> re_fullmatch namespace_re (rt_namespace rt) \<and>
    ct_name c = rt_namespace rt @ ''-upstream-'' @ session_id \<and>
    (\<exists>ps w4. ho_start H ([rt_docker rt, ''--host'', rt_host rt, ''run''] @ concat (map option_words ps) @
          us_image s # us_command s) (us_resolved_environment s) w = (Inr (ct_process c), w4) \<and>
       set (map fst ps) \<subseteq> set safe_flags \<and>
       flag_values ''--rm'' ps = [None] \<and> flag_values ''-i'' ps = [None] \<and> flag_values ''--init'' ps = [None] \<and>
       flag_values ''--pull'' ps = [Some ''never''] \<and> flag_values ''--name'' ps = [Some (ct_name c)] \<and>
       flag_values ''--label'' ps = [Some managed_label, Some (namespace_label rt),
         Some (''io.portunusmcp.session='' @ session_id), Some (''io.portunusmcp.server='' @ server_id)] \<and>
       flag_values ''--tmpfs'' ps = [Some ''/tmp:rw,nosuid,nodev,noexec,size=16m''] \<and>
       flag_values ''--memory-swap'' ps = [Some (int_str (memory_mb (us_resources s)) @ ''m'')] \<and>
       flag_values ''--cpus'' ps = [Some (ho_float_str H (cpus (us_resources s)))] \<and>
       flag_values ''--user'' ps = [Some ''65532:65532''] \<and> flag_values ''--cap-drop'' ps = [Some ''ALL''] \<and>
       flag_values ''--security-opt'' ps = [Some ''no-new-privileges''] \<and> flag_values ''--read-only'' ps = [None] \<and>
       flag_values ''--network'' ps = [Some (network_text (us_network s))] \<and>
       flag_values ''--memory'' ps = [Some (int_str (memory_mb (us_resources s)) @ ''m'')] \<and>
       flag_values ''--pids-limit'' ps = [Some (int_str (pids (us_resources s)))] \<and>
       flag_values ''--env'' ps = map (\<lambda>p. Some (fst p)) (us_resolved_environment s) \<and>
       flag_values ''--mount'' ps = map (\<lambda>m. Some (mount_text m)) (us_volumes s) \<and>
       (\<forall>m \<in> set (us_volumes s). prefix (volume_namespace rt) (m_source m) \<and>
          split_on CHR '','' (mount_text m) =
            [''type=volume'', ''src='' @ m_source m, ''dst='' @ m_target m, ''readonly'']))"
proof -
  from assms(5) obtain p w4 where
    start: "ho_start H (container_args H rt s session_id server_id) (us_resolved_environment s) w = (Inr p, w4)"
    and poll: "poll_container H rt server_id \<lparr>ct_process = p, ct_name = container_name rt session_id\<rparr> poll_limit w4 = (Inr c, w')"
    unfolding spawn_def by (rule bind_io_InrE)
  have c: "ct_process c = p" "ct_name c = rt_namespace rt @ ''-upstream-'' @ session_id"
    and name: "ct_name c = container_name rt session_id"
    using poll_container_Inr [OF poll] by (simp_all add: container_name_def)
  have mounts: "prefix (volume_namespace rt) (m_source m) \<and>
      split_on CHR '','' (mount_text m) = [''type=volume'', ''src='' @ m_source m, ''dst='' @ m_target m, ''readonly'']"
    if "m \<in> set (us_volumes s)" for m
    using that preflight_Inr [OF assms(2,3)] check_server_InrE [OF assms(4)] mount_fields by (metis (no_types))
  show ?thesis
    using create_runtime_Inr [OF assms(1)] c start [unfolded container_args_options c(1) [symmetric]] mounts
      server_options_safe server_flag_values [of H rt s session_id server_id, folded name]
    by blast
qed

section \<open>Starting and stopping end\<close>

text \<open>
  A host whose calls all come back: waiting with a time limit may give up, waiting
  without one (after a kill) returns when the process has ended.
\<close>

definition host_answers :: "'w host \<Rightarrow> bool" where
  "host_answers H \<longleftrightarrow>
     (\<forall>argv env w. \<exists>v w'. ho_exec H argv env w = (Inr v, w')) \<and>
     (\<forall>p t w. \<exists>b w'. ho_wait H p t w = (Inr b, w') \<and> (b \<longrightarrow> ho_exit H p w' \<noteq> None) \<and> (t = None \<longrightarrow> b)) \<and>
     (\<forall>p w. \<exists>w'. ho_kill H p w = (Inr (), w')) \<and> (\<forall>w. \<exists>w'. ho_sleep H w = (Inr (), w'))"

lemma host_execE:
  assumes "host_answers H" obtains v w' where "ho_exec H argv env w = (Inr v, w')"
  using assms unfolding host_answers_def by blast

lemma host_waitE:
  assumes "host_answers H"
  obtains b w' where "ho_wait H p t w = (Inr b, w')" "b \<Longrightarrow> ho_exit H p w' \<noteq> None" "t = None \<Longrightarrow> b"
  using assms unfolding host_answers_def by blast

lemma host_killE:
  assumes "host_answers H" obtains w' where "ho_kill H p w = (Inr (), w')"
  using assms unfolding host_answers_def by blast


lemma unchecked_runE:
  assumes "host_answers H"
  obtains status out err w' where "docker_run H rt args False w = (Inr (status, out, err), w')"
proof -
  obtain v w' where "ho_exec H ([rt_docker rt, ''--host'', rt_host rt] @ args) (Some []) w = (Inr v, w')"
    using assms by (rule host_execE)
  then show ?thesis using that by (cases v) (simp add: docker_run_def bind_io_def)
qed

lemma stop_ends:
  assumes "host_answers H"
  obtains w' where "stop_container H rt c grace w = (Inr (), w')" "container_exit H c w' \<noteq> None"
proof -
  have "\<exists>v w1. (if container_exit H c w = None
       then docker_run H rt [''stop'', ''--time'', int_str grace, ct_name c] False w
       else (Inr (0, [], []), w)) = (Inr v, w1)"
    using unchecked_runE [OF assms] by (metis (full_types))
  then obtain v w1 where stop: "(if container_exit H c w = None
       then docker_run H rt [''stop'', ''--time'', int_str grace, ct_name c] False w
       else (Inr (0, [], []), w)) = (Inr v, w1)" by blast
  obtain b1 w2 where wait: "ho_wait H (ct_process c) (Some (grace + 2)) w1 = (Inr b1, w2)"
    and end1: "b1 \<Longrightarrow> ho_exit H (ct_process c) w2 \<noteq> None" using host_waitE [OF assms] by metis
  obtain st out err w3 where rm: "docker_run H rt [''rm'', ''-f'', ct_name c] False w2 = (Inr (st, out, err), w3)"
    using assms by (rule unchecked_runE)
  obtain b2 w4 where wait2: "ho_wait H (ct_process c) (Some 2) w3 = (Inr b2, w4)"
    and end2: "b2 \<Longrightarrow> ho_exit H (ct_process c) w4 \<noteq> None" using host_waitE [OF assms] by metis
  obtain w5 where kill: "ho_kill H (ct_process c) w4 = (Inr (), w5)" using assms by (rule host_killE)
  obtain b3 w6 where wait3: "ho_wait H (ct_process c) None w5 = (Inr b3, w6)"
    and end3: "b3 \<Longrightarrow> ho_exit H (ct_process c) w6 \<noteq> None" b3 using host_waitE [OF assms] by metis
  have "\<exists>w'. stop_container H rt c grace w = (Inr (), w') \<and> ho_exit H (ct_process c) w' \<noteq> None"
    using end1 end2 end3
    by (cases b1; cases b2) (simp_all add: stop_container_def bind_io_def stop wait rm wait2 kill wait3)
  then show ?thesis using that by (auto simp: container_exit_def)
qed



text \<open>
  Stopping ends. On a host whose calls come back, stopping a container returns and its
  process has ended: by itself, after \<open>docker stop\<close>, after \<open>docker rm -f\<close>, or killed.
\<close>

theorem stop_ends_the_process:
  assumes "host_answers H"
  shows "\<exists>w'. stop_container H rt c grace w = (Inr (), w') \<and> container_exit H c w' \<noteq> None"
  using stop_ends [OF assms] by blast

section \<open>Framing\<close>

lemma upto_newline:
  "newline \<notin> set line \<Longrightarrow> takeWhile (\<lambda>c. c \<noteq> newline) (line @ newline # rest) = line"
  "newline \<notin> set line \<Longrightarrow> takeWhile (\<lambda>c. c \<noteq> newline) line = line"
  by (induction line) auto

lemma readline_encoded:
  assumes "newline \<notin> set line" and "int (length line) \<le> limit"
  shows "readline limit (line @ newline # rest) = Inr (line @ [newline], rest)"
  using assms by (simp add: readline_def Let_def upto_newline)

lemma readline_empty: "0 \<le> limit \<Longrightarrow> readline limit [] = Inr ([], [])"
  by (simp add: readline_def)

text \<open>
  Messages keep their boundaries. When every message prints as a line (JSON escapes
  the newlines in strings) within the limit that reads back as the message, what is
  written to a pipe one after the other is read as these messages; a line that is not
  complete when the process ends is validated as it is, and ends the reading if refused.
\<close>

theorem written_messages_are_read:
  assumes "\<forall>m \<in> set ms. newline \<notin> set (dump m) \<and> int (length (dump m)) \<le> limit \<and>
      validate (encode dump m) = Inr m"
    and "newline \<notin> set partial" and "int (length partial) \<le> limit" and "partial \<noteq> [] \<Longrightarrow> validate partial = Inl e"
  shows "read_messages limit validate (concat (map (encode dump) ms) @ partial) =
    (ms, if partial = [] then None else Some e)"
  using assms(1)
proof (induction ms)
  case Nil
  have "readline limit partial = Inr (partial, [])"
    using assms(2,3) by (simp add: readline_def Let_def upto_newline)
  then show ?case using assms(4) by (simp add: read_messages.simps [of _ _ partial])
next
  case (Cons m ms)
  have joined: "concat (map (encode dump) (m # ms)) @ partial =
    dump m @ newline # (concat (map (encode dump) ms) @ partial)" by (simp add: encode_def)
  have "readline limit (concat (map (encode dump) (m # ms)) @ partial) =
      Inr (encode dump m, concat (map (encode dump) ms) @ partial)"
    unfolding joined using Cons.prems by (simp add: readline_encoded encode_def)
  moreover have "validate (encode dump m) = Inr m" "encode dump m \<noteq> []"
    using Cons.prems by (simp_all add: encode_def)
  ultimately show ?case using Cons by (subst read_messages.simps) simp
qed

section \<open>A host, to run on\<close>

text \<open>
  The world is the exit status of its one process; \<open>docker inspect\<close> of a container does what
  the parameter says, every other command succeeds, and \<open>docker stop\<close> ends the process.
\<close>

definition sample_host :: "int res \<Rightarrow> int option host" where
  "sample_host inspected =
     \<lparr>ho_environ = (\<lambda>n. Some ''ns''), ho_which = (\<lambda>n. Some n),
      ho_exec = (\<lambda>argv env w.
        if take 1 (drop 3 argv) = [''inspect'']
        then (case inspected of Inl e \<Rightarrow> (Inl e, w) | Inr status \<Rightarrow> (Inr (status, [], []), w))
        else (Inr (0, ''unix:///docker.sock'', []), if take 1 (drop 3 argv) = [''stop''] then Some 143 else w)),
      ho_start = (\<lambda>argv env w. (Inr 7, None)),
      ho_exit = (\<lambda>p w. w),
      ho_wait = (\<lambda>p t w. (Inr (t = None \<or> w \<noteq> None), if t = None then Some 137 else w)),
      ho_kill = (\<lambda>p w. (Inr (), Some 137)), ho_sleep = (\<lambda>w. (Inr (), w)),
      ho_write = (\<lambda>p s w. (Inr (), w)), ho_decode = Inr, ho_decode_replace = id, ho_float_str = (\<lambda>x. ''0.5'')\<rparr>"

lemma sample_host_answers: "host_answers (sample_host (Inr status))"
  by (simp add: host_answers_def sample_host_def)

definition files_server :: upstream_server where
  "files_server = \<lparr>us_image = ''files'', us_command = [''serve''], us_env = [],
     us_volumes = [\<lparr>m_source = ''portunusmcp-upstream-ns-data'', m_target = ''/data''\<rparr>],
     us_network = NetNone, us_resources = default_resources, us_resolved_environment = []\<rparr>"

definition sample_runtime :: runtime where
  "sample_runtime = \<lparr>rt_docker = ''docker'', rt_host = ''unix:///docker.sock'', rt_namespace = ''ns''\<rparr>"

theorem spawned_container_is_isolated_witness:
  "re_fullmatch namespace_re ''ns'' \<and>
   (\<exists>ps. [''docker'', ''--host'', ''unix:///docker.sock'', ''run''] @ concat (map option_words ps) @ [''files'', ''serve''] =
      container_args (sample_host (Inr 0)) sample_runtime files_server ''s1'' ''files'') \<and>
   split_on CHR '','' (mount_text \<lparr>m_source = ''portunusmcp-upstream-ns-data'', m_target = ''/data''\<rparr>) =
     [''type=volume'', ''src=portunusmcp-upstream-ns-data'', ''dst=/data'', ''readonly'']"
proof -
  let ?H = "sample_host (Inr 0)" and ?active = "[(''files'', files_server)]"
  have create: "create_runtime ?H ?active None = (Inr sample_runtime, None)" by code_simp
  have pre: "preflight ?H sample_runtime ?active None = (Inr (), None)" by code_simp
  have server: "check_server (\<lambda>n. None) files_server = Inr files_server" by code_simp
  have run: "spawn ?H sample_runtime files_server ''s1'' ''files'' None =
      (Inr \<lparr>ct_process = 7, ct_name = ''ns-upstream-s1''\<rparr>, None)" by code_simp
  note all = spawned_container_is_isolated [OF create pre _ server run]
  then show ?thesis
    by (auto simp: sample_runtime_def files_server_def container_args_options)
qed


theorem stop_ends_the_process_witness:
  "\<exists>w'. stop_container (sample_host (Inr 0)) sample_runtime \<lparr>ct_process = 7, ct_name = ''c''\<rparr> 10 None = (Inr (), w') \<and>
     w' \<noteq> None"
  using stop_ends_the_process [OF sample_host_answers, of 0 sample_runtime "\<lparr>ct_process = 7, ct_name = ''c''\<rparr>" 10 None]
  by (auto simp: container_exit_def sample_host_def)

theorem written_messages_are_read_witness:
  "read_messages stream_limit (\<lambda>l. if length l = 3 then Inr (take 2 l) else Inl (SyntaxError []))
     (concat (map (encode id) [''{}'', ''[]'']) @ ''{'') = ([''{}'', ''[]''], Some (SyntaxError []))"
proof -
  let ?read = "\<lambda>l :: string. if length l = 3 then Inr (take 2 l) else Inl (SyntaxError [])"
  have "\<forall>m \<in> set [''{}'', ''[]'']. newline \<notin> set (id m) \<and> int (length (id m)) \<le> stream_limit \<and>
      ?read (encode id m) = Inr m"
    by (simp add: newline_def encode_def stream_limit_def)
  from written_messages_are_read [OF this, of "''{''" "SyntaxError []"] show ?thesis
    by (simp add: newline_def stream_limit_def id_def)
qed

text \<open>
  A start whose \<open>docker inspect\<close> cannot be run, or is cancelled, raises with its
  process running: nothing has stopped it, and the caller has no handle to do so.
\<close>

theorem interrupted_start_leaves_container:
  "spawn (sample_host (Inl (OSError ''out of file descriptors''))) sample_runtime files_server ''s1'' ''files'' None =
     (Inl (OSError ''out of file descriptors''), None)"
  by code_simp

end
