(* ===== verification/SessionLifecycle.thy ===== *)
theory SessionLifecycle
  imports SessionManager UpstreamClient
begin

text \<open>
  The coroutines of \<open>services/gateway/session_manager.py\<close>, put together from the sections
  of the theory SessionManager and the calls they await between them. An awaited call (the
  audit row, docker, Redis, the pump, a send) is a field of a record, on the manager's state
  beside the rest of the world, since it lets other coroutines run: under the condition
  that these make steps of the relation \<open>sm_step\<close>, so does the coroutine. What the coroutines
  hold in local variables is in \<open>tasks\<close>.
\<close>

section \<open>Calls on the shared state\<close>

type_synonym 'w hub = "(manager \<times> tasks) \<times> 'w"

definition own :: "(manager \<times> tasks \<Rightarrow> manager \<times> tasks) \<Rightarrow> ('w hub, unit) io" where
  "own f h = (Inr (), (f (fst h), snd h))"

text \<open>\<open>try: m except BaseException: a; raise\<close>.\<close>

definition on_failure :: "('w, unit) io \<Rightarrow> ('w, 'a) io \<Rightarrow> ('w, 'a) io" where
  "on_failure a m = catch_io m (\<lambda>e. bind_io a (\<lambda>_. raise_io e))"

text \<open>\<open>except (ProcessLookupError, OSError, upstream_client.RuntimeError)\<close>: a logged warning.\<close>

fun tolerated :: "exn \<Rightarrow> bool" where
  "tolerated (OSError _) = True"
| "tolerated (DockerError _) = True"
| "tolerated _ = False"

definition tolerate :: "('w, unit) io \<Rightarrow> ('w, unit) io" where
  "tolerate m = catch_io m (\<lambda>e. if tolerated e then ret_io () else raise_io e)"

text \<open>\<open>asyncio.gather\<close> of calls without a result: all of them run, the first failure is raised.\<close>

fun gather :: "('w, unit) io list \<Rightarrow> ('w, unit) io" where
  "gather [] = ret_io ()"
| "gather (m # ms) =
     (\<lambda>w. case m w of (r, w1) \<Rightarrow> (case gather ms w1 of (r', w2) \<Rightarrow> (case r of Inl e \<Rightarrow> Inl e | Inr u \<Rightarrow> r', w2)))"

definition gather_ignoring :: "('w, unit) io list \<Rightarrow> ('w, unit) io" where
  "gather_ignoring ms w = (Inr (), snd (gather ms w))"

record 'w lifecycle =
  lc_settings :: settings
  lc_engine :: "'w \<Rightarrow> policy_engine"
  lc_fingerprint :: "upstream_server \<Rightarrow> string"
  lc_start_row :: "string \<Rightarrow> string \<Rightarrow> string \<Rightarrow> ('w hub, unit) io"
  lc_spawn :: "upstream_server \<Rightarrow> string \<Rightarrow> string \<Rightarrow> ('w hub, unit) io"
  lc_touch :: "string \<Rightarrow> ('w hub, unit) io"
  lc_pump :: "string \<Rightarrow> ('w hub, unit) io"
  lc_stop :: "string \<Rightarrow> ('w hub, unit) io"
  lc_forget :: "string \<Rightarrow> ('w hub, unit) io"
  lc_alive :: "string \<Rightarrow> ('w hub, bool) io"
  lc_send :: "string \<Rightarrow> rpc_message \<Rightarrow> ('w hub, unit) io"
  lc_delivered :: "string \<Rightarrow> request_id \<Rightarrow> ('w hub, unit) io"
  lc_on_client :: "string \<Rightarrow> rpc_message \<Rightarrow> ('w hub, routed) io"
  lc_on_upstream :: "string \<Rightarrow> rpc_message \<Rightarrow> ('w hub, rpc_message option) io"
  lc_write :: "string \<Rightarrow> rpc_message \<Rightarrow> ('w hub, unit) io"

section \<open>Creation\<close>

definition reserve_slot :: "'w lifecycle \<Rightarrow> string \<Rightarrow> string \<Rightarrow> ('w hub, unit) io" where
  "reserve_slot L sid i h =
     (case h of ((m, t), w) \<Rightarrow>
        (case reserve_session (lc_settings L) i m of
           Inl e \<Rightarrow> (Inl e, h)
         | Inr m' \<Rightarrow> (Inr (), ((m', t\<lparr>tk_creating := al_put sid i (tk_creating t)\<rparr>), w))))"

text \<open>The \<open>except\<close> clause of \<open>create\<close>, before and after the session was registered.\<close>

definition abandon_reserved :: "'w lifecycle \<Rightarrow> string \<Rightarrow> string \<Rightarrow> ('w hub, unit) io" where
  "abandon_reserved L sid i =
     bind_io (own (\<lambda>(m, t). (pop_session sid m, t))) (\<lambda>_.
       own (\<lambda>(m, t). (release_session i m, t\<lparr>tk_creating := al_drop sid (tk_creating t)\<rparr>)))"

definition abandon_registered :: "'w lifecycle \<Rightarrow> string \<Rightarrow> string \<Rightarrow> ('w hub, unit) io" where
  "abandon_registered L sid i =
     bind_io (own (\<lambda>(m, t). (pop_session sid m,
        t\<lparr>tk_starting := al_drop sid (tk_starting t), tk_failing := al_put sid i (tk_failing t)\<rparr>))) (\<lambda>_.
     bind_io (tolerate (lc_stop L sid)) (\<lambda>_.
       own (\<lambda>(m, t). (release_session i m, t\<lparr>tk_failing := al_drop sid (tk_failing t)\<rparr>))))"

definition register_slot :: "'w lifecycle \<Rightarrow> string \<Rightarrow> string \<Rightarrow> string \<Rightarrow> upstream_server \<Rightarrow> ('w hub, unit) io" where
  "register_slot L sid i server_id s =
     own (\<lambda>(m, t). (register_session sid i server_id (lc_fingerprint L s) m,
       t\<lparr>tk_creating := al_drop sid (tk_creating t), tk_starting := al_put sid i (tk_starting t)\<rparr>))"

definition create_session :: "'w lifecycle \<Rightarrow> string \<Rightarrow> string \<Rightarrow> string \<Rightarrow> ('w hub, unit) io" where
  "create_session L sid i server_id h =
     (case server_config (lc_engine L (snd h)) server_id of
        None \<Rightarrow> (Inl (LookupError (''unknown server '' @ py_repr server_id)), h)
      | Some s \<Rightarrow>
          bind_io (reserve_slot L sid i) (\<lambda>_.
          bind_io (on_failure (abandon_reserved L sid i)
            (bind_io (lc_start_row L i server_id sid) (\<lambda>_. lc_spawn L s sid server_id))) (\<lambda>_.
          bind_io (register_slot L sid i server_id s) (\<lambda>_.
          bind_io (on_failure (abandon_registered L sid i)
            (bind_io (lc_touch L sid) (\<lambda>_. lc_pump L sid))) (\<lambda>_.
            own (\<lambda>(m, t). (m, t\<lparr>tk_starting := al_drop sid (tk_starting t)\<rparr>)))))) h)"

section \<open>Teardown\<close>

text \<open>
  \<open>_cleanup_session\<close> and \<open>teardown\<close>. Cancelling the pump and the heartbeat has no effect
  on this state: the pump's own teardown finds its session popped.
\<close>

definition cleanup_run :: "'w lifecycle \<Rightarrow> string \<Rightarrow> session \<Rightarrow> ('w hub, unit) io" where
  "cleanup_run L sid s =
     bind_io (own (\<lambda>(m, t). (cleanup_session sid s m, t\<lparr>tk_closing := al_put sid (s, True) (tk_closing t)\<rparr>))) (\<lambda>_.
     bind_io (tolerate (lc_stop L sid)) (\<lambda>_.
       finally_io (lc_forget L sid)
         (own (\<lambda>(m, t). (release_session (se_identity s) m, t\<lparr>tk_closing := al_drop sid (tk_closing t)\<rparr>)))))"

definition teardown_session :: "'w lifecycle \<Rightarrow> string \<Rightarrow> ('w hub, unit) io" where
  "teardown_session L sid h =
     (case h of ((m, t), w) \<Rightarrow>
        (case get_session sid m of
           None \<Rightarrow> (Inr (), h)
         | Some s \<Rightarrow> cleanup_run L sid s ((pop_session sid m, closing_of sid m t), w)))"

section \<open>Deadline and heartbeat\<close>

definition deadline_run :: "'w lifecycle \<Rightarrow> string \<Rightarrow> request_id \<Rightarrow> ('w hub, unit) io" where
  "deadline_run L sid rid h =
     (case h of ((m, t), w) \<Rightarrow>
        (case deadline_fires sid rid m of
           None \<Rightarrow> (Inr (), h)
         | Some (m', popped) \<Rightarrow>
             (case popped of
                None \<Rightarrow> (Inr (), ((m', closing_of sid m t), w))
              | Some s \<Rightarrow>
                  bind_io (catch_io (bind_io (lc_send L sid (deadline_reply rid)) (\<lambda>_.
                      catch_io (lc_delivered L sid rid) (\<lambda>e. ret_io ()))) (\<lambda>e. ret_io ())) (\<lambda>_.
                    cleanup_run L sid s) ((m', closing_of sid m t), w))))"

definition heartbeat_run :: "'w lifecycle \<Rightarrow> string \<Rightarrow> ('w hub, unit) io" where
  "heartbeat_run L sid = catch_io (lc_touch L sid) (\<lambda>e. teardown_session L sid)"

section \<open>The pump\<close>

definition answer_call :: "'w lifecycle \<Rightarrow> string \<Rightarrow> rpc_message \<Rightarrow> ('w hub, unit) io" where
  "answer_call L sid reply =
     finally_io (lc_send L sid reply) (own (\<lambda>(m, t). (answered sid reply m, t)))"

definition client_message :: "'w lifecycle \<Rightarrow> string \<Rightarrow> rpc_message \<Rightarrow> ('w hub, unit) io" where
  "client_message L sid message =
     bind_io (lc_touch L sid) (\<lambda>_.
     bind_io (lc_on_client L sid message) (\<lambda>outcome.
       case outcome of
         Respond reply \<Rightarrow> answer_call L sid reply
       | Forward request \<Rightarrow> lc_write L sid request))"

definition upstream_message :: "'w lifecycle \<Rightarrow> string \<Rightarrow> rpc_message \<Rightarrow> ('w hub, unit) io" where
  "upstream_message L sid message =
     bind_io (lc_on_upstream L sid message) (\<lambda>outcome.
       case outcome of None \<Rightarrow> ret_io () | Some reply \<Rightarrow> answer_call L sid reply)"

text \<open>
  A pump handles the items of its stream (messages, and what the transport failed with)
  until one fails or the stream ends; when either pump ends, the session ends.
\<close>

fun pump_items :: "(rpc_message \<Rightarrow> ('w hub, unit) io) \<Rightarrow> (exn + rpc_message) list \<Rightarrow> ('w hub, unit) io" where
  "pump_items handle [] = ret_io ()"
| "pump_items handle (Inl e # items) = raise_io e"
| "pump_items handle (Inr x # items) = bind_io (handle x) (\<lambda>_. pump_items handle items)"

definition session_run :: "'w lifecycle \<Rightarrow> string \<Rightarrow> ('w hub, unit) io \<Rightarrow> ('w hub, unit) io" where
  "session_run L sid pump = finally_io (catch_io pump (\<lambda>e. ret_io ())) (teardown_session L sid)"

section \<open>Sweeping, eviction, shutdown\<close>

fun sweep_sessions :: "'w lifecycle \<Rightarrow> string list \<Rightarrow> ('w hub, unit) io" where
  "sweep_sessions L [] = ret_io ()"
| "sweep_sessions L (sid # sids) =
     bind_io (lc_alive L sid) (\<lambda>alive.
     bind_io (if alive then ret_io () else teardown_session L sid) (\<lambda>_. sweep_sessions L sids))"

definition session_ids :: "manager \<Rightarrow> string list" where
  "session_ids m = map fst (sm_sessions m)"

definition sweep_once :: "'w lifecycle \<Rightarrow> ('w hub, unit) io" where
  "sweep_once L h = sweep_sessions L (session_ids (fst (fst h))) h"

text \<open>\<open>sweep_loop\<close>, for a number of its rounds.\<close>

fun sweep_loop :: "'w lifecycle \<Rightarrow> ('w hub, unit) io \<Rightarrow> nat \<Rightarrow> ('w hub, unit) io" where
  "sweep_loop L pause 0 = ret_io ()"
| "sweep_loop L pause (Suc n) =
     bind_io pause (\<lambda>_. bind_io (sweep_once L) (\<lambda>_. sweep_loop L pause n))"

definition evict_outdated :: "'w lifecycle \<Rightarrow> ('w hub, unit) io" where
  "evict_outdated L h =
     (let fingerprint = (\<lambda>server. map_option (lc_fingerprint L) (server_config (lc_engine L (snd h)) server))
      in gather (map (teardown_session L) (outdated_sessions fingerprint (fst (fst h)))) h)"

definition shutdown_all :: "'w lifecycle \<Rightarrow> ('w hub, unit) io" where
  "shutdown_all L h = gather_ignoring (map (teardown_session L) (session_ids (fst (fst h)))) h"

section \<open>The coroutines as steps\<close>

text \<open>What a call guarantees from the states it may start in.\<close>

definition ensures ::
  "(manager \<times> tasks \<Rightarrow> bool) \<Rightarrow> ('w hub, 'a) io \<Rightarrow> ('a res \<Rightarrow> manager \<times> tasks \<Rightarrow> bool) \<Rightarrow> bool" where
  "ensures P m Q \<longleftrightarrow> (\<forall>x w. P x \<longrightarrow> Q (fst (m (x, w))) (fst (snd (m (x, w)))))"

lemma ensuresD: "ensures P m Q \<Longrightarrow> P (fst h) \<Longrightarrow> Q (fst (m h)) (fst (snd (m h)))"
  unfolding ensures_def by (metis prod.collapse)

lemma ensures_at: "ensures P m Q \<Longrightarrow> P x \<Longrightarrow> Q (fst (m (x, w))) (fst (snd (m (x, w))))"
  unfolding ensures_def by blast

lemma ensures_ret: "(\<And>x. P x \<Longrightarrow> Q (Inr a) x) \<Longrightarrow> ensures P (ret_io a) Q"
  by (simp add: ensures_def)

lemma ensures_raise: "(\<And>x. P x \<Longrightarrow> Q (Inl e) x) \<Longrightarrow> ensures P (raise_io e) Q"
  by (simp add: ensures_def)

lemma ensures_own: "(\<And>x. P x \<Longrightarrow> Q (Inr ()) (f x)) \<Longrightarrow> ensures P (own f) Q"
  by (simp add: ensures_def own_def)

lemma ensures_weaken:
  "ensures P m Q \<Longrightarrow> (\<And>x. P' x \<Longrightarrow> P x) \<Longrightarrow> (\<And>r x. Q r x \<Longrightarrow> Q' r x) \<Longrightarrow> ensures P' m Q'"
  unfolding ensures_def by blast

lemma ensures_bind:
  assumes "ensures P m R" and "\<And>a. ensures (R (Inr a)) (f a) Q" and "\<And>e x. R (Inl e) x \<Longrightarrow> Q (Inl e) x"
  shows "ensures P (bind_io m f) Q"
  unfolding ensures_def
proof (intro allI impI)
  fix x w assume "P x"
  with assms(1) have R: "R (fst (m (x, w))) (fst (snd (m (x, w))))" by (rule ensures_at)
  show "Q (fst (bind_io m f (x, w))) (fst (snd (bind_io m f (x, w))))"
  proof (cases "fst (m (x, w))")
    case (Inl e)
    then show ?thesis using R assms(3) by (simp add: bind_io_def case_prod_beta)
  next
    case (Inr a)
    then have "bind_io m f (x, w) = f a (snd (m (x, w)))" by (simp add: bind_io_def case_prod_beta)
    then show ?thesis using R Inr ensuresD [OF assms(2), of a "snd (m (x, w))"] by simp
  qed
qed

lemma ensures_catch:
  assumes "ensures P m R" and "\<And>e. ensures (R (Inl e)) (h e) Q" and "\<And>a x. R (Inr a) x \<Longrightarrow> Q (Inr a) x"
  shows "ensures P (catch_io m h) Q"
  unfolding ensures_def
proof (intro allI impI)
  fix x w assume "P x"
  with assms(1) have R: "R (fst (m (x, w))) (fst (snd (m (x, w))))" by (rule ensures_at)
  show "Q (fst (catch_io m h (x, w))) (fst (snd (catch_io m h (x, w))))"
  proof (cases "fst (m (x, w))")
    case (Inr a)
    then show ?thesis using R assms(3) by (simp add: catch_io_def case_prod_beta)
  next
    case (Inl e)
    then have "catch_io m h (x, w) = h e (snd (m (x, w)))" by (simp add: catch_io_def case_prod_beta)
    then show ?thesis using R Inl ensuresD [OF assms(2), of e "snd (m (x, w))"] by simp
  qed
qed

lemma ensures_finally:
  assumes "ensures P m (\<lambda>r. R)" and "ensures R f (\<lambda>r. Q)"
  shows "ensures P (finally_io m f) (\<lambda>r. Q)"
  unfolding ensures_def
proof (intro allI impI)
  fix x w assume "P x"
  with assms(1) have "R (fst (snd (m (x, w))))" by (rule ensures_at)
  from ensuresD [OF assms(2) this] show "Q (fst (snd (finally_io m f (x, w))))"
    by (simp add: finally_io_def case_prod_beta split: sum.splits)
qed

text \<open>Calls where only the state afterwards matters.\<close>

abbreviation keeps :: "(manager \<times> tasks \<Rightarrow> bool) \<Rightarrow> ('w hub, 'a) io \<Rightarrow> bool" where
  "keeps P m \<equiv> ensures P m (\<lambda>r. P)"

lemma keeps_tolerate: "keeps P m \<Longrightarrow> keeps P (tolerate m)"
  unfolding tolerate_def by (rule ensures_catch) (auto intro: ensures_ret ensures_raise)

lemma keeps_gather: "(\<And>m. m \<in> set ms \<Longrightarrow> keeps P m) \<Longrightarrow> keeps P (gather ms)"
proof (induction ms)
  case Nil
  show ?case by (simp add: ensures_def)
next
  case (Cons m ms)
  then have m: "keeps P m" and ms: "keeps P (gather ms)" by simp_all
  show ?case
    unfolding ensures_def
  proof (intro allI impI)
    fix x w assume "P x"
    with m have "P (fst (snd (m (x, w))))" by (rule ensures_at)
    from ensuresD [OF ms this] show "P (fst (snd (gather (m # ms) (x, w))))"
      by (simp add: case_prod_beta)
  qed
qed

text \<open>
  What the other coroutines may do while one of them waits: steps of the relation, and
  nothing to the locals of the one that waits.
\<close>

definition same_creation :: "string \<Rightarrow> tasks \<Rightarrow> tasks \<Rightarrow> bool" where
  "same_creation sid t t' \<longleftrightarrow> map_of (tk_creating t') sid = map_of (tk_creating t) sid \<and>
     map_of (tk_starting t') sid = map_of (tk_starting t) sid \<and>
     map_of (tk_failing t') sid = map_of (tk_failing t) sid"

definition same_closing :: "string \<Rightarrow> tasks \<Rightarrow> tasks \<Rightarrow> bool" where
  "same_closing sid t t' \<longleftrightarrow> map_of (tk_closing t') sid = map_of (tk_closing t) sid"

definition awaits :: "settings \<Rightarrow> (tasks \<Rightarrow> tasks \<Rightarrow> bool) \<Rightarrow> ('w hub, 'a) io \<Rightarrow> bool" where
  "awaits S same m \<longleftrightarrow>
     (\<forall>x. sm_reachable True S x \<longrightarrow> ensures (\<lambda>y. y = x) m (\<lambda>r y. (sm_step True S)\<^sup>*\<^sup>* x y \<and> same (snd x) (snd y)))"

definition well_behaved :: "'w lifecycle \<Rightarrow> bool" where
  "well_behaved L \<longleftrightarrow> (let S = lc_settings L in
     (\<forall>sid i server_id s. awaits S (same_creation sid) (lc_start_row L i server_id sid) \<and>
        awaits S (same_creation sid) (lc_spawn L s sid server_id)) \<and>
     (\<forall>sid. awaits S (same_creation sid) (lc_touch L sid) \<and> awaits S (same_creation sid) (lc_pump L sid) \<and>
        awaits S (same_creation sid) (lc_stop L sid) \<and> awaits S (same_closing sid) (lc_stop L sid) \<and>
        awaits S (same_closing sid) (lc_forget L sid) \<and> awaits S (\<lambda>t t'. True) (lc_alive L sid)) \<and>
     (\<forall>sid message. awaits S (same_closing sid) (lc_send L sid message) \<and>
        awaits S (\<lambda>t t'. True) (lc_on_client L sid message) \<and>
        awaits S (\<lambda>t t'. True) (lc_on_upstream L sid message) \<and> awaits S (\<lambda>t t'. True) (lc_write L sid message)) \<and>
     (\<forall>sid rid. awaits S (same_closing sid) (lc_delivered L sid rid)))"

text \<open>A reached state, on a path of steps from \<open>x0\<close>.\<close>

definition sm_from :: "settings \<Rightarrow> manager \<times> tasks \<Rightarrow> manager \<times> tasks \<Rightarrow> bool" where
  "sm_from S x0 x \<longleftrightarrow> sm_reachable True S x \<and> (sm_step True S)\<^sup>*\<^sup>* x0 x"

lemma sm_from_refl: "sm_reachable True S x \<Longrightarrow> sm_from S x x"
  by (simp add: sm_from_def)

lemma sm_from_step: "sm_from S x0 x \<Longrightarrow> sm_step True S x y \<Longrightarrow> sm_from S x0 y"
  unfolding sm_from_def by (auto intro: sm_reachable.step rtranclp.rtrancl_into_rtrancl)

lemma sm_from_path: "sm_from S x0 x \<Longrightarrow> (sm_step True S)\<^sup>*\<^sup>* x y \<Longrightarrow> sm_from S x0 y"
  by (rotate_tac, induction rule: rtranclp_induct) (auto intro: sm_from_step)

lemma sm_from_reachable: "sm_from S x0 x \<Longrightarrow> sm_reachable True S x"
  by (simp add: sm_from_def)

lemma awaits_ensures:
  assumes "awaits S same m" and "\<And>x. P x \<Longrightarrow> sm_from S x0 x"
    and "\<And>x y. P x \<Longrightarrow> sm_from S x0 y \<Longrightarrow> same (snd x) (snd y) \<Longrightarrow> Q y"
  shows "ensures P m (\<lambda>r. Q)"
  unfolding ensures_def
proof (intro allI impI)
  fix x w assume "P x"
  then have "ensures (\<lambda>y. y = x) m (\<lambda>r y. (sm_step True S)\<^sup>*\<^sup>* x y \<and> same (snd x) (snd y))"
    using assms(1,2) sm_from_reachable unfolding awaits_def by blast
  from ensures_at [OF this refl] show "Q (fst (snd (m (x, w))))"
    using assms(2,3) \<open>P x\<close> sm_from_path by blast
qed

lemma awaits_keeps: "awaits S same m \<Longrightarrow> keeps (sm_from S x0) m"
  by (rule awaits_ensures)

section \<open>Every coroutine refines the steps\<close>

text \<open>
  The state is reached from \<open>x0\<close>, and the coroutine of this session is where it says; at the
  end nothing is left of it.
\<close>

definition creation_entries ::
  "string \<Rightarrow> tasks \<Rightarrow> string option \<times> string option \<times> string option" where
  "creation_entries sid t = (map_of (tk_creating t) sid, map_of (tk_starting t) sid, map_of (tk_failing t) sid)"

definition creating_at :: "settings \<Rightarrow> manager \<times> tasks \<Rightarrow> string \<Rightarrow> string \<Rightarrow> manager \<times> tasks \<Rightarrow> bool" where
  "creating_at S x0 sid i x \<longleftrightarrow> sm_from S x0 x \<and> creation_entries sid (snd x) = (Some i, None, None)"

definition starting_at :: "settings \<Rightarrow> manager \<times> tasks \<Rightarrow> string \<Rightarrow> string \<Rightarrow> manager \<times> tasks \<Rightarrow> bool" where
  "starting_at S x0 sid i x \<longleftrightarrow> sm_from S x0 x \<and> creation_entries sid (snd x) = (None, Some i, None)"

definition failing_at :: "settings \<Rightarrow> manager \<times> tasks \<Rightarrow> string \<Rightarrow> string \<Rightarrow> manager \<times> tasks \<Rightarrow> bool" where
  "failing_at S x0 sid i x \<longleftrightarrow> sm_from S x0 x \<and> creation_entries sid (snd x) = (None, None, Some i)"

definition created_at :: "settings \<Rightarrow> manager \<times> tasks \<Rightarrow> string \<Rightarrow> manager \<times> tasks \<Rightarrow> bool" where
  "created_at S x0 sid x \<longleftrightarrow> sm_from S x0 x \<and> creation_entries sid (snd x) = (None, None, None)"

definition closing_at ::
  "settings \<Rightarrow> manager \<times> tasks \<Rightarrow> string \<Rightarrow> session \<Rightarrow> bool \<Rightarrow> manager \<times> tasks \<Rightarrow> bool" where
  "closing_at S x0 sid s cleaned x \<longleftrightarrow> sm_from S x0 x \<and> map_of (tk_closing (snd x)) sid = Some (s, cleaned)"

definition closed_at :: "settings \<Rightarrow> manager \<times> tasks \<Rightarrow> string \<Rightarrow> manager \<times> tasks \<Rightarrow> bool" where
  "closed_at S x0 sid x \<longleftrightarrow> sm_from S x0 x \<and> map_of (tk_closing (snd x)) sid = None"

text \<open>Nothing is left after a normal end; after an exception the state is reached at least.\<close>

abbreviation unless_raised ::
  "settings \<Rightarrow> manager \<times> tasks \<Rightarrow> (manager \<times> tasks \<Rightarrow> bool) \<Rightarrow> 'a res \<Rightarrow> manager \<times> tasks \<Rightarrow> bool" where
  "unless_raised S x0 P r \<equiv> (case r of Inl e \<Rightarrow> sm_from S x0 | Inr v \<Rightarrow> P)"

lemmas at_defs = creating_at_def starting_at_def failing_at_def created_at_def closing_at_def closed_at_def creation_entries_def

lemma await_creation:
  assumes "awaits S (same_creation sid) m"
  shows "keeps (creating_at S x0 sid i) m" and "keeps (starting_at S x0 sid i) m" and "keeps (failing_at S x0 sid i) m"
  by (rule awaits_ensures [OF assms]; simp add: at_defs same_creation_def)+

lemma await_closing:
  assumes "awaits S (same_closing sid) m"
  shows "keeps (closing_at S x0 sid s b) m"
  by (rule awaits_ensures [OF assms]; simp add: at_defs same_closing_def)

text \<open>One step from a reached state, of the kind that is needed.\<close>

lemmas reached_by = sm_from_step [OF _ sm_step.reserve]
  sm_from_step [OF _ sm_step.creation_failed]
  sm_from_step [OF _ sm_step.register]
  sm_from_step [OF _ sm_step.created]
  sm_from_step [OF _ sm_step.start_failed]
  sm_from_step [OF _ sm_step.failed]
  sm_from_step [OF _ sm_step.teardown]
  sm_from_step [OF _ sm_step.cleanup]
  sm_from_step [OF _ sm_step.closed]
  sm_from_step [OF _ sm_step.answer]
  sm_from_step [OF _ sm_step.deadline]

lemma drop_absent_session:
  assumes "creating_at S x0 sid i (m, t)" and "0 \<le> max_inflight_calls_per_identity S"
  shows "pop_session sid m = m"
proof -
  have "calls_ok S (m, t)" using assms by (auto simp: at_defs intro: reachable_calls_ok sm_from_reachable)
  then have "get_session sid m = None" using assms(1) calls_okD(6) by (simp add: at_defs)
  then show ?thesis by (simp add: pop_session_def get_session_def al_drop_fresh)
qed

lemma abandon_reserved_reached:
  assumes "0 \<le> max_inflight_calls_per_identity S"
  shows "ensures (creating_at S x0 sid i) (abandon_reserved L sid i) (\<lambda>r. sm_from S x0)"
  unfolding abandon_reserved_def
proof (rule ensures_bind [where R = "\<lambda>r. creating_at S x0 sid i"])
  show "ensures (creating_at S x0 sid i) (own (\<lambda>(m, t). (pop_session sid m, t))) (\<lambda>r. creating_at S x0 sid i)"
    using drop_absent_session [OF _ assms, of x0] by (intro ensures_own) (auto simp: case_prod_beta)
  show "ensures (creating_at S x0 sid i)
      (own (\<lambda>(m, t). (release_session i m, t\<lparr>tk_creating := al_drop sid (tk_creating t)\<rparr>)))
      (\<lambda>r. sm_from S x0)"
    by (intro ensures_own) (auto simp: at_defs intro: reached_by)
qed (simp add: at_defs)

lemma abandon_registered_reached:
  assumes "awaits S (same_creation sid) (lc_stop L sid)"
  shows "ensures (starting_at S x0 sid i) (abandon_registered L sid i) (\<lambda>r. sm_from S x0)"
  unfolding abandon_registered_def
proof (rule ensures_bind [where R = "\<lambda>r. failing_at S x0 sid i"])
  show "ensures (starting_at S x0 sid i) (own (\<lambda>(m, t). (pop_session sid m,
        t\<lparr>tk_starting := al_drop sid (tk_starting t), tk_failing := al_put sid i (tk_failing t)\<rparr>)))
      (\<lambda>r. failing_at S x0 sid i)"
    by (intro ensures_own) (auto simp: at_defs intro: reached_by)
  show "ensures (failing_at S x0 sid i) (bind_io (tolerate (lc_stop L sid)) (\<lambda>_.
       own (\<lambda>(m, t). (release_session i m, t\<lparr>tk_failing := al_drop sid (tk_failing t)\<rparr>))))
      (\<lambda>r. sm_from S x0)"
  proof (rule ensures_bind)
    show "keeps (failing_at S x0 sid i) (tolerate (lc_stop L sid))"
      using assms by (intro keeps_tolerate await_creation)
    show "ensures (failing_at S x0 sid i)
      (own (\<lambda>(m, t). (release_session i m, t\<lparr>tk_failing := al_drop sid (tk_failing t)\<rparr>))) (\<lambda>r. sm_from S x0)"
      by (intro ensures_own) (auto simp: at_defs intro: reached_by)
  qed (simp add: at_defs)
qed (simp add: at_defs)

lemma on_failure_ensures:
  assumes "ensures P m (\<lambda>r. R)" and "ensures R a (\<lambda>r. Z)" and "\<And>x. R x \<Longrightarrow> Q x" and "\<And>x. Z x \<Longrightarrow> Q' x"
  shows "ensures P (on_failure a m) (\<lambda>r. case r of Inl e \<Rightarrow> Q' | Inr v \<Rightarrow> Q)"
  unfolding on_failure_def
  by (rule ensures_catch [OF assms(1)])
    (auto simp: assms(3,4) intro!: ensures_bind [OF ensures_weaken [OF assms(2)]] ensures_raise)

lemma well_behavedD:
  assumes "well_behaved L"
  shows "awaits (lc_settings L) (same_creation sid) (lc_start_row L i server_id sid)"
    and "awaits (lc_settings L) (same_creation sid) (lc_spawn L s sid server_id)"
    and "awaits (lc_settings L) (same_creation sid) (lc_touch L sid)"
    and "awaits (lc_settings L) (same_creation sid) (lc_pump L sid)"
    and "awaits (lc_settings L) (same_creation sid) (lc_stop L sid)"
    and "awaits (lc_settings L) (same_closing sid) (lc_stop L sid)"
    and "awaits (lc_settings L) (same_closing sid) (lc_forget L sid)"
    and "awaits (lc_settings L) (\<lambda>t t'. True) (lc_alive L sid)"
    and "awaits (lc_settings L) (same_closing sid) (lc_send L sid message)"
    and "awaits (lc_settings L) (\<lambda>t t'. True) (lc_on_client L sid message)"
    and "awaits (lc_settings L) (\<lambda>t t'. True) (lc_on_upstream L sid message)"
    and "awaits (lc_settings L) (\<lambda>t t'. True) (lc_write L sid message)"
    and "awaits (lc_settings L) (same_closing sid) (lc_delivered L sid rid)"
  using assms unfolding well_behaved_def Let_def by blast+

text \<open>A creation after its reservation, and whole from an id nobody has used.\<close>

definition create_reserved :: "'w lifecycle \<Rightarrow> string \<Rightarrow> string \<Rightarrow> string \<Rightarrow> upstream_server \<Rightarrow> ('w hub, unit) io" where
  "create_reserved L sid i server_id s =
     bind_io (on_failure (abandon_reserved L sid i)
       (bind_io (lc_start_row L i server_id sid) (\<lambda>_. lc_spawn L s sid server_id))) (\<lambda>_.
     bind_io (register_slot L sid i server_id s) (\<lambda>_.
     bind_io (on_failure (abandon_registered L sid i)
       (bind_io (lc_touch L sid) (\<lambda>_. lc_pump L sid))) (\<lambda>_.
       own (\<lambda>(m, t). (m, t\<lparr>tk_starting := al_drop sid (tk_starting t)\<rparr>)))))"

lemma reserved_reached:
  assumes "well_behaved L" and "0 \<le> max_inflight_calls_per_identity (lc_settings L)"
  shows "ensures (creating_at (lc_settings L) x0 sid i) (create_reserved L sid i server_id s)
    (unless_raised (lc_settings L) x0 (created_at (lc_settings L) x0 sid))"
proof -
  let ?S = "lc_settings L" let ?I = "sm_from ?S x0"
  note wb = well_behavedD [OF assms(1)]
  have spawn: "ensures (creating_at ?S x0 sid i) (on_failure (abandon_reserved L sid i)
        (bind_io (lc_start_row L i server_id sid) (\<lambda>_. lc_spawn L s sid server_id)))
      (\<lambda>r. case r of Inl e \<Rightarrow> ?I | Inr v \<Rightarrow> creating_at ?S x0 sid i)"
    by (rule on_failure_ensures [OF ensures_bind abandon_reserved_reached [OF assms(2)]])
      (auto intro: await_creation wb)
  have register: "ensures (creating_at ?S x0 sid i) (register_slot L sid i server_id s)
      (\<lambda>r. case r of Inl e \<Rightarrow> ?I | Inr v \<Rightarrow> starting_at ?S x0 sid i)"
    unfolding register_slot_def by (intro ensures_own) (auto simp: at_defs intro: reached_by)
  have start: "ensures (starting_at ?S x0 sid i) (on_failure (abandon_registered L sid i)
        (bind_io (lc_touch L sid) (\<lambda>_. lc_pump L sid)))
      (\<lambda>r. case r of Inl e \<Rightarrow> ?I | Inr v \<Rightarrow> starting_at ?S x0 sid i)"
    by (rule on_failure_ensures [OF ensures_bind abandon_registered_reached [OF wb(5)]])
      (auto intro: await_creation wb)
  have created: "ensures (starting_at ?S x0 sid i) (own (\<lambda>(m, t). (m, t\<lparr>tk_starting := al_drop sid (tk_starting t)\<rparr>)))
      (unless_raised ?S x0 (created_at ?S x0 sid))"
    by (intro ensures_own) (auto simp: at_defs intro: reached_by)
  show ?thesis
    unfolding create_reserved_def
    by (rule ensures_bind [OF spawn], unfold sum.case, rule ensures_bind [OF register], unfold sum.case,
        rule ensures_bind [OF start], unfold sum.case, rule created) simp_all
qed

text \<open>The state after the first step of its own that a coroutine makes at once, if it makes one.\<close>

definition reserved :: "'w lifecycle \<Rightarrow> string \<Rightarrow> string \<Rightarrow> string \<Rightarrow> 'w hub \<Rightarrow> (manager \<times> tasks) option" where
  "reserved L sid i server_id h =
     (case server_config (lc_engine L (snd h)) server_id of
        None \<Rightarrow> None
      | Some s \<Rightarrow>
          (case reserve_session (lc_settings L) i (fst (fst h)) of
             Inl e \<Rightarrow> None
           | Inr m \<Rightarrow> Some (m, (snd (fst h))\<lparr>tk_creating := al_put sid i (tk_creating (snd (fst h)))\<rparr>)))"

lemma create_session_cases:
  "case reserved L sid i server_id h of
     None \<Rightarrow> \<exists>e. create_session L sid i server_id h = (Inl e, h)
   | Some y \<Rightarrow> \<exists>s. create_session L sid i server_id h = create_reserved L sid i server_id s (y, snd h)"
proof -
  obtain m t w where h: "h = ((m, t), w)" by (metis prod.collapse)
  show ?thesis
    unfolding create_session_def create_reserved_def [symmetric] reserved_def h
    by (auto simp: reserve_slot_def bind_io_def split: option.splits sum.splits)
qed

lemma creation_reached:
  assumes "well_behaved L" and "0 \<le> max_inflight_calls_per_identity (lc_settings L)"
    and "sm_from (lc_settings L) x0 (m, t)" and "fresh_id sid m t"
    and "create_session L sid i server_id ((m, t), w) = (r, (x, w'))"
  shows "sm_from (lc_settings L) x0 x \<and>
    (\<forall>y. reserved L sid i server_id ((m, t), w) = Some y \<longrightarrow> sm_from (lc_settings L) y x) \<and>
    (\<forall>u. r = Inr u \<longrightarrow> creation_entries sid (snd x) = (None, None, None))"
proof (cases "reserved L sid i server_id ((m, t), w)")
  case None
  then show ?thesis
    using create_session_cases [of L sid i server_id "((m, t), w)"] assms(3,5) by auto
next
  case (Some y)
  then obtain s where run: "create_session L sid i server_id ((m, t), w) = create_reserved L sid i server_id s (y, w)"
    using create_session_cases [of L sid i server_id "((m, t), w)"] by auto
  from Some have step: "sm_step True (lc_settings L) (m, t) y"
    and entries: "creation_entries sid (snd y) = (Some i, None, None)"
    using assms(4) by (auto simp: reserved_def creation_entries_def fresh_id_def intro: sm_step.reserve
        split: option.splits sum.splits)
  have from_y: "unless_raised (lc_settings L) z (created_at (lc_settings L) z sid) r x"
    if "sm_from (lc_settings L) z y" for z
    using ensures_at [OF reserved_reached [OF assms(1,2)], of z sid i y server_id s w] that entries assms(5)
    unfolding run by (simp add: creating_at_def)
  have "sm_from (lc_settings L) x0 y" using assms(3) step by (rule sm_from_step)
  then have "sm_from (lc_settings L) x0 y" "sm_from (lc_settings L) y y"
    by (simp, intro sm_from_refl sm_from_reachable)
  from this [THEN from_y] Some show ?thesis by (cases r) (auto simp: created_at_def)
qed

text \<open>A teardown; the session is popped and cleaned up.\<close>

lemma cleanup_reached:
  assumes "well_behaved L"
  shows "ensures (closing_at (lc_settings L) x0 sid s False) (cleanup_run L sid s)
    (unless_raised (lc_settings L) x0 (closed_at (lc_settings L) x0 sid))"
proof -
  let ?S = "lc_settings L"
  note wb = well_behavedD [OF assms]
  have clean: "ensures (closing_at ?S x0 sid s False)
      (own (\<lambda>(m, t). (cleanup_session sid s m, t\<lparr>tk_closing := al_put sid (s, True) (tk_closing t)\<rparr>)))
      (\<lambda>r. closing_at ?S x0 sid s True)"
    by (intro ensures_own) (auto simp: at_defs intro: reached_by)
  have stop: "keeps (closing_at ?S x0 sid s True) (tolerate (lc_stop L sid))"
    by (intro keeps_tolerate await_closing wb)
  have forget: "keeps (closing_at ?S x0 sid s True) (lc_forget L sid)"
    by (intro await_closing wb)
  have release: "ensures (closing_at ?S x0 sid s True)
      (own (\<lambda>(m, t). (release_session (se_identity s) m, t\<lparr>tk_closing := al_drop sid (tk_closing t)\<rparr>)))
      (\<lambda>r. closed_at ?S x0 sid)"
    by (intro ensures_own) (auto simp: at_defs intro: reached_by)
  show ?thesis
    unfolding cleanup_run_def
    by (rule ensures_bind [OF clean], rule ensures_bind [OF stop], rule ensures_weaken [OF ensures_finally [OF forget release]])
      (auto simp: at_defs split: sum.splits)
qed

lemma closing_popped:
  assumes "sm_from S x0 (m, t)" and "get_session sid m = Some s"
  shows "closing_at S x0 sid s False (pop_session sid m, closing_of sid m t)"
  using reached_by(7) [OF assms] assms(2) by (simp add: closing_at_def closing_of_def)

lemma cleanup_keeps:
  assumes "well_behaved L"
  shows "ensures (closing_at (lc_settings L) x0 sid s False) (cleanup_run L sid s) (\<lambda>r. sm_from (lc_settings L) x0)"
  by (rule ensures_weaken [OF cleanup_reached [OF assms]]) (auto simp: at_defs split: sum.splits)

lemma teardown_reached:
  assumes "well_behaved L"
  shows "keeps (sm_from (lc_settings L) x0) (teardown_session L sid)"
  unfolding ensures_def
proof (intro allI impI)
  fix x and w :: 'a assume "sm_from (lc_settings L) x0 x"
  then show "sm_from (lc_settings L) x0 (fst (snd (teardown_session L sid (x, w))))"
    using ensures_at [OF cleanup_keeps [OF assms] closing_popped]
    by (cases x) (auto simp: teardown_session_def split: option.splits)
qed

definition popped :: "string \<Rightarrow> manager \<times> tasks \<Rightarrow> (manager \<times> tasks) option" where
  "popped sid x =
     (if get_session sid (fst x) = None then None
      else Some (pop_session sid (fst x), closing_of sid (fst x) (snd x)))"

lemma teardown_popped:
  assumes "well_behaved L" and "sm_reachable True (lc_settings L) (m, t)" and "popped sid (m, t) = Some y"
    and "teardown_session L sid ((m, t), w) = (r, (x, w'))"
  shows "sm_from (lc_settings L) y x \<and> (\<forall>u. r = Inr u \<longrightarrow> map_of (tk_closing (snd x)) sid = None)"
proof -
  from assms(3) obtain s where s: "get_session sid m = Some s" and y: "y = (pop_session sid m, closing_of sid m t)"
    by (auto simp: popped_def split: if_splits)
  have "sm_reachable True (lc_settings L) y" unfolding y using assms(2) s by (blast intro: sm_reachable.step sm_step.teardown)
  then have "closing_at (lc_settings L) y sid s False y"
    using s by (simp add: closing_at_def sm_from_refl y closing_of_def)
  from ensures_at [OF cleanup_reached [OF assms(1)] this, of w] assms(4)
  have "unless_raised (lc_settings L) y (closed_at (lc_settings L) y sid) r x"
    by (simp add: teardown_session_def s y)
  then show ?thesis by (cases r) (simp_all add: closed_at_def)
qed

lemma deadline_reached:
  assumes "well_behaved L"
  shows "keeps (sm_from (lc_settings L) x0) (deadline_run L sid rid)"
    and "sm_reachable True (lc_settings L) (m, t) \<Longrightarrow> deadline_fires sid rid m = Some (m1, gone) \<Longrightarrow>
      sm_from (lc_settings L) (m1, closing_of sid m t) (fst (snd (deadline_run L sid rid ((m, t), w))))"
proof -
  let ?S = "lc_settings L"
  note wb = well_behavedD [OF assms]
  have tell: "ensures (closing_at ?S z sid s False)
      (bind_io (catch_io (bind_io (lc_send L sid (deadline_reply rid)) (\<lambda>_.
          catch_io (lc_delivered L sid rid) (\<lambda>e. ret_io ()))) (\<lambda>e. ret_io ())) (\<lambda>_. cleanup_run L sid s))
      (\<lambda>r. sm_from ?S z)" for s z
    by (rule ensures_bind [where R = "\<lambda>r. closing_at ?S z sid s False"], rule ensures_catch, rule ensures_bind,
        rule await_closing [OF wb(9)], rule ensures_catch, rule await_closing [OF wb(13)])
      (auto intro: ensures_ret cleanup_keeps [OF assms] simp: at_defs)
  have fired: "sm_from ?S z (fst (snd (deadline_run L sid rid ((m, t), w))))"
    if "sm_from ?S z (m1, closing_of sid m t)" and fires: "deadline_fires sid rid m = Some (m1, gone)" for m t m1 gone w z
  proof (cases gone)
    case None
    with that show ?thesis by (simp add: deadline_run_def)
  next
    case (Some s)
    then have "closing_at ?S z sid s False (m1, closing_of sid m t)"
      using that by (auto simp: closing_at_def closing_of_def deadline_fires_def split: option.splits)
    from ensures_at [OF tell this] Some fires show ?thesis by (simp add: deadline_run_def)
  qed
  show "keeps (sm_from ?S x0) (deadline_run L sid rid)"
    unfolding ensures_def
  proof (intro allI impI)
    fix x and w :: 'a assume from_x0: "sm_from ?S x0 x"
    obtain m t where x: "x = (m, t)" by (cases x)
    show "sm_from ?S x0 (fst (snd (deadline_run L sid rid (x, w))))"
    proof (cases "deadline_fires sid rid m")
      case None
      then show ?thesis using from_x0 by (simp add: deadline_run_def x)
    next
      case (Some p)
      then obtain m1 gone where fires: "deadline_fires sid rid m = Some (m1, gone)" by (cases p) simp
      show ?thesis unfolding x by (rule fired [OF _ fires]) (use from_x0 fires in \<open>auto simp: x intro: reached_by\<close>)
    qed
  qed
  show "sm_from ?S (m1, closing_of sid m t) (fst (snd (deadline_run L sid rid ((m, t), w))))"
    if "sm_reachable True ?S (m, t)" and fires: "deadline_fires sid rid m = Some (m1, gone)"
    by (rule fired [OF sm_from_refl fires]) (use that in \<open>blast intro: sm_reachable.step sm_step.deadline\<close>)
qed

lemma answer_reached:
  assumes "well_behaved L"
  shows "keeps (sm_from (lc_settings L) x0) (answer_call L sid reply)"
proof -
  have answered: "keeps (sm_from (lc_settings L) x0) (own (\<lambda>(m, t). (answered sid reply m, t)) :: ('a hub, unit) io)"
    by (intro ensures_own) (auto intro: reached_by)
  show ?thesis
    unfolding answer_call_def
    by (rule ensures_finally [OF awaits_keeps [OF well_behavedD(9) [OF assms]] answered])
qed

lemma message_reached:
  assumes "well_behaved L"
  shows "keeps (sm_from (lc_settings L) x0) (client_message L sid message)"
    and "keeps (sm_from (lc_settings L) x0) (upstream_message L sid message)"
proof -
  note wb = well_behavedD [OF assms] and answer = answer_reached [OF assms]
  show "keeps (sm_from (lc_settings L) x0) (client_message L sid message)"
    unfolding client_message_def
    by (rule ensures_bind [OF awaits_keeps [OF wb(3)]], rule ensures_bind [OF awaits_keeps [OF wb(10)]])
      (auto split: routed.splits intro: answer awaits_keeps [OF wb(12)])
  show "keeps (sm_from (lc_settings L) x0) (upstream_message L sid message)"
    unfolding upstream_message_def
    by (rule ensures_bind [OF awaits_keeps [OF wb(11)]])
      (auto split: option.splits intro: answer ensures_ret)
qed

lemma pump_reached: "(\<And>x. keeps P (handle x)) \<Longrightarrow> keeps P (pump_items handle items)"
proof (induction handle items rule: pump_items.induct)
  case (3 handle x items)
  have "keeps P (bind_io (handle x) (\<lambda>_. pump_items handle items))"
    by (rule ensures_bind [OF 3(2)]) (auto intro: 3)
  then show ?case by simp
qed (auto intro: ensures_ret ensures_raise)

lemma session_run_reached:
  assumes "well_behaved L" and "keeps (sm_from (lc_settings L) x0) pump"
  shows "keeps (sm_from (lc_settings L) x0) (session_run L sid pump)"
  unfolding session_run_def
  by (rule ensures_finally [OF ensures_catch [OF assms(2)] teardown_reached [OF assms(1)]]) (auto intro: ensures_ret)

lemma sweep_reached:
  assumes "well_behaved L"
  shows "keeps (sm_from (lc_settings L) x0) (sweep_sessions L sids)"
proof (induction sids)
  case Nil
  show ?case unfolding sweep_sessions.simps by (rule ensures_ret)
next
  case (Cons sid sids)
  have reap: "keeps (sm_from (lc_settings L) x0) (if alive then ret_io () else teardown_session L sid)" for alive
    using teardown_reached [OF assms] by (cases alive) (auto intro: ensures_ret simp del: ret_io_app)
  show ?case
    unfolding sweep_sessions.simps
    by (rule ensures_bind [OF awaits_keeps [OF well_behavedD(8) [OF assms]]], rule ensures_bind [OF reap])
      (auto intro: Cons.IH)
qed

text \<open>The coroutines, by name, and what running one does.\<close>

datatype coroutine =
  RunCreate string string string
| RunTeardown string
| RunDeadline string request_id
| RunHeartbeat string
| RunClientPump string "(exn + rpc_message) list"
| RunUpstreamPump string "(exn + rpc_message) list"
| RunSweep
| RunEvict
| RunShutdown

fun run_coroutine :: "'w lifecycle \<Rightarrow> coroutine \<Rightarrow> ('w hub, unit) io" where
  "run_coroutine L (RunCreate sid i server_id) = create_session L sid i server_id"
| "run_coroutine L (RunTeardown sid) = teardown_session L sid"
| "run_coroutine L (RunDeadline sid rid) = deadline_run L sid rid"
| "run_coroutine L (RunHeartbeat sid) = heartbeat_run L sid"
| "run_coroutine L (RunClientPump sid items) = session_run L sid (pump_items (client_message L sid) items)"
| "run_coroutine L (RunUpstreamPump sid items) = session_run L sid (pump_items (upstream_message L sid) items)"
| "run_coroutine L RunSweep = sweep_once L"
| "run_coroutine L RunEvict = evict_outdated L"
| "run_coroutine L RunShutdown = shutdown_all L"

fun id_for :: "coroutine \<Rightarrow> string option" where
  "id_for (RunCreate sid i server_id) = Some sid"
| "id_for _ = None"

lemma gather_reached:
  assumes "well_behaved L"
  shows "keeps (sm_from (lc_settings L) x0) (gather (map (teardown_session L) sids))"
proof (rule keeps_gather)
  fix c assume "c \<in> set (map (teardown_session L) sids)"
  then show "keeps (sm_from (lc_settings L) x0) c" using teardown_reached [OF assms] by fastforce
qed

lemma gather_popped:
  assumes "well_behaved L" and "sm_reachable True (lc_settings L) (m, t)" and "popped sid (m, t) = Some y"
  shows "sm_from (lc_settings L) y (fst (snd (gather (map (teardown_session L) (sid # sids)) ((m, t), w))))"
proof -
  obtain r x w' where run: "teardown_session L sid ((m, t), w) = (r, (x, w'))" by (metis prod.collapse)
  from teardown_popped [OF assms run] have "sm_from (lc_settings L) y x" ..
  from ensures_at [OF gather_reached [OF assms(1)] this, of sids w'] show ?thesis
    by (simp add: run case_prod_beta)
qed

text \<open>What the coroutines do first, before they wait for anything.\<close>

fun first_step :: "'w lifecycle \<Rightarrow> coroutine \<Rightarrow> 'w hub \<Rightarrow> (manager \<times> tasks) option" where
  "first_step L (RunCreate sid i server_id) h = reserved L sid i server_id h"
| "first_step L (RunTeardown sid) h = popped sid (fst h)"
| "first_step L (RunDeadline sid rid) h =
     map_option (\<lambda>p. (fst p, closing_of sid (fst (fst h)) (snd (fst h)))) (deadline_fires sid rid (fst (fst h)))"
| "first_step L RunEvict h =
     (case outdated_sessions (\<lambda>server. map_option (lc_fingerprint L) (server_config (lc_engine L (snd h)) server))
         (fst (fst h)) of
        [] \<Rightarrow> None
      | sid # sids \<Rightarrow> popped sid (fst h))"
| "first_step L RunShutdown h = (case session_ids (fst (fst h)) of [] \<Rightarrow> None | sid # sids \<Rightarrow> popped sid (fst h))"
| "first_step L c h = None"

lemma coroutine_begins:
  assumes "well_behaved L" and "0 \<le> max_inflight_calls_per_identity (lc_settings L)"
    and "sm_reachable True (lc_settings L) (m, t)"
    and "case id_for c of None \<Rightarrow> True | Some sid \<Rightarrow> fresh_id sid m t"
    and "first_step L c ((m, t), w) = Some y" and "run_coroutine L c ((m, t), w) = (r, (x, w'))"
  shows "sm_from (lc_settings L) y x"
proof -
  have x: "x = fst (snd (run_coroutine L c ((m, t), w)))" using assms(6) by simp
  show ?thesis
  proof (cases c)
    case (RunCreate sid i server_id)
    then show ?thesis
      using creation_reached [OF assms(1,2) sm_from_refl [OF assms(3)]] assms(4-6) by fastforce
  next
    case (RunTeardown sid)
    then show ?thesis using teardown_popped [OF assms(1,3)] assms(5,6) by simp
  next
    case (RunDeadline sid rid)
    then show ?thesis using deadline_reached(2) [OF assms(1,3)] assms(5) unfolding x by auto
  next
    case RunEvict
    then show ?thesis
      using gather_popped [OF assms(1,3)] assms(5) unfolding x
      by (auto simp: evict_outdated_def Let_def simp del: gather.simps split: list.splits)
  next
    case RunShutdown
    then show ?thesis
      using gather_popped [OF assms(1,3)] assms(5) unfolding x
      by (auto simp: shutdown_all_def gather_ignoring_def simp del: gather.simps split: list.splits)
  qed (use assms(5) in simp_all)
qed

text \<open>
  C28: The session manager implements its step relation. Whatever the awaited calls return or
  raise, and whatever steps other coroutines take while one of them waits, the run of a
  coroutine from a reached state is a path of steps from there to where it ends: creations
  (with an id not used before), teardowns, deadlines, heartbeats, both pumps, the sweep, the
  eviction and the shutdown. A creation whose slot is granted starts with the reservation, a
  deadline that fires with its step, a teardown, eviction or shutdown that finds a session
  with popping it; and a creation or teardown that returns leaves no entry of its own behind.
  So what is proved of reached states holds before and after every one of them.
\<close>

theorem coroutines_refine_steps:
  assumes "well_behaved L" and "0 \<le> max_inflight_calls_per_identity (lc_settings L)"
    and "sm_reachable True (lc_settings L) (m, t)"
    and "case id_for c of None \<Rightarrow> True | Some sid \<Rightarrow> fresh_id sid m t"
    and "run_coroutine L c ((m, t), w) = (r, ((m', t'), w'))"
  shows "(sm_step True (lc_settings L))\<^sup>*\<^sup>* (m, t) (m', t') \<and> sm_reachable True (lc_settings L) (m', t') \<and>
    (\<forall>i. count_of (sm_inflight_counts m') i = tally oc_identity (sm_outstanding m') i) \<and>
    (\<forall>y. first_step L c ((m, t), w) = Some y \<longrightarrow> (sm_step True (lc_settings L))\<^sup>*\<^sup>* y (m', t')) \<and>
    (r = Inr () \<longrightarrow>
       (case c of
          RunCreate sid i server_id \<Rightarrow> creation_entries sid t' = (None, None, None)
        | RunTeardown sid \<Rightarrow> popped sid (m, t) \<noteq> None \<longrightarrow> map_of (tk_closing t') sid = None
        | _ \<Rightarrow> True))"
proof -
  let ?S = "lc_settings L" let ?I = "sm_from ?S (m, t)"
  note I = sm_from_refl [OF assms(3)]
  have run: "ensures (\<lambda>x. ?I x \<and> x = (m, t)) (run_coroutine L c) (\<lambda>r. ?I)"
    if "\<And>sid i server_id. c \<noteq> RunCreate sid i server_id"
  proof (cases c)
    case (RunCreate sid i server_id)
    with that show ?thesis by blast
  next
    case (RunHeartbeat sid)
    then show ?thesis
      by (auto simp: heartbeat_run_def intro!: ensures_weaken [OF ensures_catch [OF
            awaits_keeps [OF well_behavedD(3) [OF assms(1)]] teardown_reached [OF assms(1)]]])
  next
    case (RunTeardown sid)
    then show ?thesis by (auto intro: ensures_weaken [OF teardown_reached [OF assms(1)]])
  next
    case (RunDeadline sid rid)
    then show ?thesis by (auto intro: ensures_weaken [OF deadline_reached(1) [OF assms(1)]])
  next
    case (RunClientPump sid items)
    then show ?thesis
      by (auto intro!: ensures_weaken [OF session_run_reached [OF assms(1)]] pump_reached message_reached [OF assms(1)])
  next
    case (RunUpstreamPump sid items)
    then show ?thesis
      by (auto intro!: ensures_weaken [OF session_run_reached [OF assms(1)]] pump_reached message_reached [OF assms(1)])
  next
    case RunSweep
    then show ?thesis
      using ensures_at [OF sweep_reached [OF assms(1)]] by (auto simp: sweep_once_def ensures_def)
  next
    case RunEvict
    then show ?thesis
      using ensures_at [OF gather_reached [OF assms(1)]] by (auto simp: evict_outdated_def Let_def ensures_def)
  next
    case RunShutdown
    then show ?thesis
      using ensures_at [OF gather_reached [OF assms(1)]]
      by (auto simp: shutdown_all_def gather_ignoring_def ensures_def)
  qed
  have path: "?I (m', t')"
  proof (cases "\<exists>sid i server_id. c = RunCreate sid i server_id")
    case True
    then show ?thesis using creation_reached [OF assms(1,2) I] assms(4,5) by fastforce
  next
    case False
    with ensures_at [OF run, of "(m, t)" w] I assms(5) show ?thesis by simp
  qed
  then have "calls_ok ?S (m', t')" using assms(2) by (intro reachable_calls_ok [OF sm_from_reachable])
  then have counts: "count_of (sm_inflight_counts m') i = tally oc_identity (sm_outstanding m') i" for i
    by (simp add: calls_ok_def tallied_def)
  have begins: "(sm_step True ?S)\<^sup>*\<^sup>* y (m', t')" if "first_step L c ((m, t), w) = Some y" for y
    using coroutine_begins [OF assms(1-4) that assms(5)] by (simp add: sm_from_def)
  have leaves: "case c of
          RunCreate sid i server_id \<Rightarrow> creation_entries sid t' = (None, None, None)
        | RunTeardown sid \<Rightarrow> popped sid (m, t) \<noteq> None \<longrightarrow> map_of (tk_closing t') sid = None
        | _ \<Rightarrow> True" if "r = Inr ()"
    using creation_reached [OF assms(1,2) I] teardown_popped [OF assms(1,3)] assms(4,5) that
    by (cases c) fastforce+
  show ?thesis using path counts begins leaves unfolding sm_from_def by blast
qed

section \<open>Activity in Redis\<close>

text \<open>\<open>_touch\<close>, the sweep's look at the key, and its deletion.\<close>

definition touch :: "'r redis \<Rightarrow> settings \<Rightarrow> int \<Rightarrow> string \<Rightarrow> ('r, unit) io" where
  "touch exec S now sid =
     bind_io (exec (SetEx (last_seen_key sid) (RInt now) (session_idle_ttl S))) (\<lambda>_. ret_io ())"

definition still_alive :: "'r redis \<Rightarrow> string \<Rightarrow> ('r, bool) io" where
  "still_alive exec sid =
     bind_io (exec (Exists (last_seen_key sid))) (\<lambda>y.
     bind_io (of_res (int_reply_of y)) (\<lambda>n. ret_io (n \<noteq> 0)))"

definition forget_activity :: "'r redis \<Rightarrow> string \<Rightarrow> ('r, unit) io" where
  "forget_activity exec sid = bind_io (exec (Del (last_seen_key sid))) (\<lambda>_. ret_io ())"

context redis_service
begin

lemma touched_data:
  "touch exec S now sid r = (Inr u, r') \<Longrightarrow>
     rd_data (abs r') (last_seen_key sid) = Some (RInt now, Some (rd_clock (abs r) + of_int (session_idle_ttl S)))"
  unfolding touch_def by (erule bind_io_InrE) (auto dest!: exec_ok simp: put_key_def)

lemma alive_iff:
  "still_alive exec sid r = (Inr b, r') \<Longrightarrow> b \<longleftrightarrow> live (abs r) (last_seen_key sid) \<noteq> None"
  unfolding still_alive_def by (elim bind_io_InrE) (auto dest!: exec_ok split: if_splits)

lemma touched_stays_alive:
  assumes "touch exec S now sid r = (Inr u, r1)" and "undisturbed (last_seen_key sid) (abs r1) (abs r2)"
    and "rd_clock (abs r2) \<le> rd_clock (abs r) + of_int (session_idle_ttl S)"
    and "still_alive exec sid r2 = (Inr b, r3)"
  shows "b"
  using alive_iff [OF assms(4)] undisturbed_live [OF assms(2) touched_data [OF assms(1)] assms(3)] by simp

lemma forgotten_data:
  "forget_activity exec sid r = (Inr u, r') \<Longrightarrow> live (abs r') (last_seen_key sid) = None"
  unfolding forget_activity_def
  by (erule bind_io_InrE) (auto dest!: exec_ok simp: drop_key_def live_def alive_def)

end

section \<open>Sessions and their containers\<close>

text \<open>
  The docker runtime as the one that starts and stops the sessions' containers: the world
  holds the field \<open>process\<close> of each session, and the host of the theory UpstreamClient.
\<close>

type_synonym 'h processes = "(string \<times> container) list \<times> 'h"

definition docker_spawn ::
  "'h host \<Rightarrow> runtime \<Rightarrow> upstream_server \<Rightarrow> string \<Rightarrow> string \<Rightarrow> ('h processes hub, unit) io" where
  "docker_spawn H rt s sid server_id =
     (\<lambda>(x, (ps, h)). case spawn H rt s sid server_id h of
        (Inl e, h') \<Rightarrow> (Inl e, (x, (ps, h')))
      | (Inr c, h') \<Rightarrow> (Inr (), (x, (al_put sid c ps, h'))))"

definition docker_stop :: "'h host \<Rightarrow> runtime \<Rightarrow> int \<Rightarrow> string \<Rightarrow> ('h processes hub, unit) io" where
  "docker_stop H rt grace sid =
     (\<lambda>(x, (ps, h)). case map_of ps sid of
        None \<Rightarrow> (Inl AttributeError, (x, (ps, h)))
      | Some c \<Rightarrow> (case stop_container H rt c grace h of (r, h') \<Rightarrow> (r, (x, (ps, h')))))"

definition with_docker :: "'h host \<Rightarrow> runtime \<Rightarrow> int \<Rightarrow> 'h processes lifecycle \<Rightarrow> 'h processes lifecycle" where
  "with_docker H rt grace L = L\<lparr>lc_spawn := docker_spawn H rt, lc_stop := docker_stop H rt grace\<rparr>"

text \<open>An exited process stays so; Redis may do what it likes, but to itself.\<close>

definition later :: "'h host \<Rightarrow> 'h \<Rightarrow> 'h \<Rightarrow> bool" where
  "later H h h' \<longleftrightarrow> (\<forall>p. ho_exit H p h \<noteq> None \<longrightarrow> ho_exit H p h' \<noteq> None)"

definition exits_last :: "'h host \<Rightarrow> bool" where
  "exits_last H \<longleftrightarrow> (\<forall>argv env h. later H h (snd (ho_exec H argv env h))) \<and>
     (\<forall>p t h. later H h (snd (ho_wait H p t h))) \<and> (\<forall>p h. later H h (snd (ho_kill H p h)))"

definition forgets :: "'h host \<Rightarrow> 'h processes lifecycle \<Rightarrow> bool" where
  "forgets H L \<longleftrightarrow> (\<forall>sid x ps h. \<exists>r h'. lc_forget L sid (x, (ps, h)) = (r, (x, (ps, h'))) \<and> later H h h')"

lemma later_refl [simp]: "later H h h"
  by (simp add: later_def)

lemma later_trans: "later H h h' \<Longrightarrow> later H h' h'' \<Longrightarrow> later H h h''"
  by (simp add: later_def)

lemma later_exit: "later H h h' \<Longrightarrow> container_exit H c h \<noteq> None \<Longrightarrow> container_exit H c h' \<noteq> None"
  by (simp add: later_def container_exit_def)

lemma later_bind:
  "(\<And>h. later H h (snd (m h))) \<Longrightarrow> (\<And>a h. later H h (snd (f a h))) \<Longrightarrow> later H h (snd (bind_io m f h))"
  unfolding bind_io_def by (cases "fst (m h)") (auto simp: case_prod_beta intro: later_trans)

lemma later_docker:
  assumes "exits_last H"
  shows "later H h (snd (docker_run H rt args check h))"
  unfolding docker_run_def
  by (rule later_bind) (use assms in \<open>auto simp: exits_last_def split: prod.splits\<close>)

lemma later_stop:
  assumes "exits_last H"
  shows "later H h (snd (stop_container H rt c grace h))"
proof -
  have wait: "later H h (snd (ho_wait H p t h))" and kill: "later H h (snd (ho_kill H p h))" for p t h
    using assms by (simp_all add: exits_last_def)
  have early: "later H h (snd ((if b then ret_io () else m) h))"
    if "later H h (snd (m h))" for b and m :: "('a, unit) io" and h
    using that by (cases b) simp_all
  show ?thesis
    unfolding stop_container_def
    by (intro later_bind early wait kill later_docker assms) (simp_all add: later_docker assms)
qed

text \<open>One teardown, while nothing else runs.\<close>

lemma drop_put: "map_of d k = None \<Longrightarrow> al_drop k (al_put k v d) = d"
  by (induction k v d rule: al_put.induct) (auto simp: al_drop_def split: if_splits intro: al_drop_fresh [unfolded al_drop_def])

lemma put_twice: "al_put k v (al_put k u d) = al_put k v d"
  by (induction k v d rule: al_put.induct) auto

lemma quiet_teardown:
  assumes "host_answers H" and "exits_last H" and "forgets H L"
    and "sm_reachable False S (m, t)" and "0 \<le> max_inflight_calls_per_identity S"
    and "get_session sid m = Some s" and "map_of ps sid = Some c"
  obtains r m' h' where "teardown_session (with_docker H rt grace L) sid ((m, t), (ps, h)) = (r, ((m', t), (ps, h')))"
    and "sm_reachable False S (m', t)" and "sm_sessions m' = al_drop sid (sm_sessions m)"
    and "container_exit H c h' \<noteq> None" and "later H h h'"
proof -
  let ?m1 = "pop_session sid m" and ?t1 = "t\<lparr>tk_closing := al_put sid (s, False) (tk_closing t)\<rparr>"
  let ?m2 = "cleanup_session sid s ?m1" and ?t2 = "t\<lparr>tk_closing := al_put sid (s, True) (tk_closing t)\<rparr>"
  let ?m3 = "release_session (se_identity s) ?m2"
  have none: "map_of (tk_closing t) sid = None"
    using reachable_calls_ok [OF assms(4,5)] assms(6) by (rule calls_okD)
  have t1: "closing_of sid m t = ?t1" using assms(6) by (simp add: closing_of_def)
  have "sm_reachable False S (?m1, ?t1)"
    using sm_reachable.step [OF assms(4) sm_step.teardown [OF assms(6)]] by (simp add: t1)
  then have "sm_reachable False S (?m2, ?t2)"
    using sm_reachable.step [OF _ sm_step.cleanup [where sid = sid and s = s and t = ?t1]] by (fastforce simp: put_twice)
  then have reach: "sm_reachable False S (?m3, t)"
    using sm_reachable.step [OF _ sm_step.closed [where sid = sid and s = s and t = ?t2]] none
    by (fastforce simp: drop_put)
  obtain h1 where stop: "stop_container H rt c grace h = (Inr (), h1)" "container_exit H c h1 \<noteq> None"
    using assms(1) by (rule stop_ends)
  have l1: "later H h h1" using later_stop [OF assms(2), of h rt c grace] stop(1) by simp
  obtain r h2 where forget: "lc_forget L sid ((?m2, ?t2), (ps, h1)) = (r, ((?m2, ?t2), (ps, h2)))" "later H h1 h2"
    using assms(3) unfolding forgets_def by metis
  have "teardown_session (with_docker H rt grace L) sid ((m, t), (ps, h)) = (r, ((?m3, t), (ps, h2)))"
    using assms(6,7) stop(1) forget(1) none
    by (simp add: teardown_session_def cleanup_run_def with_docker_def own_def tolerate_def docker_stop_def
        bind_io_def catch_io_def finally_io_def t1 put_twice drop_put)
  moreover have "sm_sessions ?m3 = al_drop sid (sm_sessions m)"
    using cleanup_calls_sessions [of sid ?m1] by (simp add: release_session_def cleanup_session_def pop_session_def get_session_def)
  moreover have "container_exit H c h2 \<noteq> None" using forget(2) stop(2) by (rule later_exit)
  moreover have "later H h h2" using l1 forget(2) by (rule later_trans)
  ultimately show ?thesis using that reach by blast
qed

lemma al_drop_filter: "al_drop k d = filter (\<lambda>p. fst p \<noteq> k) d"
  by (simp add: al_drop_def)

lemma quiet_teardowns:
  assumes "host_answers H" and "exits_last H" and "forgets H L" and "0 \<le> max_inflight_calls_per_identity S"
    and "sm_reachable False S (m, t)" and "distinct sids"
    and "\<forall>sid \<in> set sids. get_session sid m \<noteq> None \<and> map_of ps sid \<noteq> None"
  shows "\<exists>r m' h'. gather (map (teardown_session (with_docker H rt grace L)) sids) ((m, t), (ps, h)) =
      (r, ((m', t), (ps, h'))) \<and> sm_reachable False S (m', t) \<and>
    sm_sessions m' = filter (\<lambda>p. fst p \<notin> set sids) (sm_sessions m) \<and>
    (\<forall>sid \<in> set sids. \<exists>c. map_of ps sid = Some c \<and> container_exit H c h' \<noteq> None) \<and> later H h h'"
  using assms(5-7)
proof (induction sids arbitrary: m h)
  case Nil
  then show ?case by simp
next
  case (Cons sid sids)
  obtain s c where sc: "get_session sid m = Some s" "map_of ps sid = Some c" using Cons.prems(3) by auto
  obtain r1 m1 h1 where
    run1: "teardown_session (with_docker H rt grace L) sid ((m, t), (ps, h)) = (r1, ((m1, t), (ps, h1)))"
    and reach1: "sm_reachable False S (m1, t)" and drop: "sm_sessions m1 = al_drop sid (sm_sessions m)"
    and ended: "container_exit H c h1 \<noteq> None" and later1: "later H h h1"
    using quiet_teardown [OF assms(1-3) Cons.prems(1) assms(4) sc] by metis
  have others: "\<forall>x \<in> set sids. get_session x m1 \<noteq> None \<and> map_of ps x \<noteq> None"
    using Cons.prems(2,3) drop by (auto simp: get_session_def)
  obtain r2 m2 h2 where
    run2: "gather (map (teardown_session (with_docker H rt grace L)) sids) ((m1, t), (ps, h1)) = (r2, ((m2, t), (ps, h2)))"
    and reach2: "sm_reachable False S (m2, t)" and left: "sm_sessions m2 = filter (\<lambda>p. fst p \<notin> set sids) (sm_sessions m1)"
    and all: "\<forall>x \<in> set sids. \<exists>c. map_of ps x = Some c \<and> container_exit H c h2 \<noteq> None" and later2: "later H h1 h2"
    using Cons.IH [OF reach1 _ others] Cons.prems(2) by (metis distinct.simps(2))
  have "gather (map (teardown_session (with_docker H rt grace L)) (sid # sids)) ((m, t), (ps, h)) =
      (case r1 of Inl e \<Rightarrow> Inl e | Inr u \<Rightarrow> r2, ((m2, t), (ps, h2)))"
    by (simp add: run1 run2)
  moreover have "sm_sessions m2 = filter (\<lambda>p. fst p \<notin> set (sid # sids)) (sm_sessions m)"
    unfolding left drop al_drop_filter filter_filter by (rule filter_cong) auto
  moreover have "\<forall>x \<in> set (sid # sids). \<exists>c. map_of ps x = Some c \<and> container_exit H c h2 \<noteq> None"
    using all sc(2) later_exit [OF later2 ended] by simp
  moreover have "later H h h2" using later1 later2 by (rule later_trans)
  ultimately show ?case using reach2 by blast
qed

text \<open>
  C29: Shutdown leaves no container and no slot. From a state reached without a creation that
  failed after its session was torn down, on a host whose calls come back, with every
  registered session's process at hand, a shutdown that nothing interrupts returns with
  an empty registry and the process of every session ended, whatever Redis answers; the
  session counts then hold only creations and closings that are still under way.
\<close>

theorem shutdown_ends_every_container:
  assumes "host_answers H" and "exits_last H" and "forgets H L"
    and "0 \<le> max_sessions_per_identity S" and "0 \<le> max_inflight_calls_per_identity S"
    and "sm_reachable False S (m, t)" and "\<forall>sid \<in> set (session_ids m). map_of ps sid \<noteq> None"
  shows "\<exists>m' h'. shutdown_all (with_docker H rt grace L) ((m, t), (ps, h)) = (Inr (), ((m', t), (ps, h'))) \<and>
    sm_sessions m' = [] \<and>
    (\<forall>sid \<in> set (session_ids m). \<exists>c. map_of ps sid = Some c \<and> container_exit H c h' \<noteq> None) \<and>
    (\<forall>i. count_of (sm_session_counts m') i =
       tally id (tk_creating t) i + tally id (tk_failing t) i + tally (se_identity \<circ> fst) (tk_closing t) i)"
proof -
  have ids: "distinct (session_ids m)"
    using reachable_slots_ok [OF assms(6,4,5)] by (simp add: slots_ok_def session_ids_def)
  have known: "\<forall>sid \<in> set (session_ids m). get_session sid m \<noteq> None \<and> map_of ps sid \<noteq> None"
    using assms(7) by (auto simp: session_ids_def get_session_def map_of_eq_None_iff)
  obtain r m' h' where
    run: "gather (map (teardown_session (with_docker H rt grace L)) (session_ids m)) ((m, t), (ps, h)) = (r, ((m', t), (ps, h')))"
    and reach: "sm_reachable False S (m', t)"
    and left: "sm_sessions m' = filter (\<lambda>p. fst p \<notin> set (session_ids m)) (sm_sessions m)"
    and ended: "\<forall>sid \<in> set (session_ids m). \<exists>c. map_of ps sid = Some c \<and> container_exit H c h' \<noteq> None"
    using quiet_teardowns [OF assms(1-3,5,6) ids known] by blast
  have empty: "sm_sessions m' = []"
    unfolding left by (auto simp: session_ids_def filter_empty_conv)
  have "slots_ok S (m', t)" using reach assms(4,5) by (rule reachable_slots_ok)
  then have "count_of (sm_session_counts m') i =
       tally id (tk_creating t) i + tally id (tk_failing t) i + tally (se_identity \<circ> fst) (tk_closing t) i" for i
    by (simp add: slots_ok_def slots_def empty)
  moreover have "shutdown_all (with_docker H rt grace L) ((m, t), (ps, h)) = (Inr (), ((m', t), (ps, h')))"
    by (simp add: shutdown_all_def gather_ignoring_def run)
  ultimately show ?thesis using empty ended by blast
qed

section \<open>A Redis failure ends the sweep\<close>

text \<open>
  The loop does not guard its rounds: the first failed look at Redis (or deletion by a
  teardown) ends it, and no later round runs, while the gateway goes on serving.
\<close>

theorem redis_failure_ends_sweep:
  assumes "pause h = (Inr (), h1)" and "sweep_once L h1 = (Inl e, h2)"
  shows "sweep_loop L pause (Suc n) h = (Inl e, h2)"
  using assms by (simp add: bind_io_def)

lemma failed_look_fails_round:
  assumes "session_ids m = sid # sids" and "lc_alive L sid ((m, t), w) = (Inl e, h)"
  shows "sweep_once L ((m, t), w) = (Inl e, h)"
  using assms by (simp add: sweep_once_def bind_io_def)

section \<open>A manager, to run\<close>

text \<open>Calls that let nobody else run are well behaved.\<close>

definition quiet :: "('w hub, 'a) io \<Rightarrow> bool" where
  "quiet m \<longleftrightarrow> (\<forall>x w. fst (snd (m (x, w))) = x)"

lemma quiet_awaits: "quiet m \<Longrightarrow> (\<And>t. same t t) \<Longrightarrow> awaits S same m"
  unfolding awaits_def ensures_def quiet_def by simp

lemma quiet_docker: "quiet (docker_spawn H rt s sid server_id)" "quiet (docker_stop H rt grace sid)"
  unfolding quiet_def docker_spawn_def docker_stop_def
  by (auto split: prod.splits sum.splits option.splits)

definition sample_lifecycle :: "int option processes lifecycle" where
  "sample_lifecycle = with_docker (sample_host (Inr 0)) sample_runtime 10
     \<lparr>lc_settings = default_settings, lc_engine = (\<lambda>w. sample_engine), lc_fingerprint = us_image,
      lc_start_row = (\<lambda>i server_id sid h. (Inr (), h)), lc_spawn = (\<lambda>s sid server_id h. (Inr (), h)),
      lc_touch = (\<lambda>sid h. (Inr (), h)), lc_pump = (\<lambda>sid h. (Inr (), h)), lc_stop = (\<lambda>sid h. (Inr (), h)),
      lc_forget = (\<lambda>sid h. (Inl ServiceError, h)), lc_alive = (\<lambda>sid h. (Inl ServiceError, h)),
      lc_send = (\<lambda>sid message h. (Inr (), h)), lc_delivered = (\<lambda>sid rid h. (Inr (), h)),
      lc_on_client = (\<lambda>sid message h. (Inr (Forward message), h)),
      lc_on_upstream = (\<lambda>sid message h. (Inr (Some message), h)), lc_write = (\<lambda>sid message h. (Inr (), h))\<rparr>"

lemma same_refl [simp]: "same_creation sid t t" "same_closing sid t t"
  by (simp_all add: same_creation_def same_closing_def)

lemma awaits_pair [simp]: "(\<And>t. same t t) \<Longrightarrow> awaits S same (Pair r)"
  by (rule quiet_awaits) (simp_all add: quiet_def)

lemma sample_well_behaved: "well_behaved sample_lifecycle"
  unfolding well_behaved_def Let_def sample_lifecycle_def with_docker_def
  by (simp add: quiet_awaits quiet_docker)

lemma sample_settings: "lc_settings sample_lifecycle = default_settings"
  by (simp add: sample_lifecycle_def with_docker_def)

theorem coroutines_refine_steps_witness:
  "\<exists>m t r m' t' w'. session_ids m = [''s''] \<and>
     run_coroutine sample_lifecycle (RunTeardown ''s'') ((m, t), ([], None)) = (r, ((m', t'), w')) \<and>
     (sm_step True default_settings)\<^sup>*\<^sup>* (pop_session ''s'' m, closing_of ''s'' m t) (m', t')"
proof -
  have "case run_events default_settings two_calls (new_manager, no_tasks) of None \<Rightarrow> False
    | Some (m, t) \<Rightarrow> session_ids m = [''s'']" by code_simp
  then obtain m t where run: "run_events default_settings two_calls (new_manager, no_tasks) = Some (m, t)"
    and ids: "session_ids m = [''s'']" by (auto split: option.splits)
  from run have reach: "sm_reachable True default_settings (m, t)"
    using sm_reachable.init by (rule run_events_reachable)
  have first: "first_step sample_lifecycle (RunTeardown ''s'') ((m, t), ([], None)) =
      Some (pop_session ''s'' m, closing_of ''s'' m t)"
    using ids by (auto simp: popped_def session_ids_def get_session_def)
  obtain r m' t' w' where torn: "run_coroutine sample_lifecycle (RunTeardown ''s'') ((m, t), ([], None)) = (r, ((m', t'), w'))"
    by (metis prod.collapse)
  from coroutines_refine_steps [OF sample_well_behaved _ _ _ torn] first reach
  have "(sm_step True default_settings)\<^sup>*\<^sup>* (pop_session ''s'' m, closing_of ''s'' m t) (m', t')"
    by (auto simp: sample_settings default_settings_def)
  with ids torn show ?thesis by blast
qed

theorem shutdown_ends_every_container_witness:
  "\<exists>m t m' h'. session_ids m = [''s''] \<and>
     shutdown_all sample_lifecycle ((m, t), ([(''s'', \<lparr>ct_process = 7, ct_name = ''ns-upstream-s''\<rparr>)], None)) =
       (Inr (), ((m', t), ([(''s'', \<lparr>ct_process = 7, ct_name = ''ns-upstream-s''\<rparr>)], h'))) \<and>
     sm_sessions m' = [] \<and> h' \<noteq> None"
proof -
  let ?ps = "[(''s'', \<lparr>ct_process = 7, ct_name = ''ns-upstream-s''\<rparr>)]" and ?H = "sample_host (Inr 0)"
  have "case run_events default_settings two_calls (new_manager, no_tasks) of None \<Rightarrow> False
    | Some (m, t) \<Rightarrow> session_ids m = [''s'']" by code_simp
  then obtain m t where run: "run_events default_settings two_calls (new_manager, no_tasks) = Some (m, t)"
    and ids: "session_ids m = [''s'']" by (auto split: option.splits)
  have "list_all on_time two_calls" by code_simp
  with run have reach: "sm_reachable False default_settings (m, t)"
    using sm_reachable.init by (rule run_on_time_reachable)
  have host: "exits_last ?H" by (auto simp: exits_last_def later_def sample_host_def)
  have L: "forgets ?H sample_lifecycle" "with_docker ?H sample_runtime 10 sample_lifecycle = sample_lifecycle"
    by (simp_all add: forgets_def sample_lifecycle_def with_docker_def)
  from shutdown_ends_every_container [OF sample_host_answers host L(1) _ _ reach, of ?ps sample_runtime 10 None]
  show ?thesis
    using ids unfolding L(2) by (fastforce simp: default_settings_def container_exit_def sample_host_def)
qed

end
