(* ===== verification/Cli.thy ===== *)
theory Cli
  imports Crash PolicyEngine
begin

text \<open>
  \<open>services/cli.py\<close>, the administrators' command line, except the two commands that are
  programs of their own (\<open>doctor\<close>, \<open>quickstart\<close>) and the rendering for people. A command
  runs on a disk of files, whose effects may fail or be cut off (theory Crash); the gateway's
  answers, the prompt, the environment and the encodings are fields of a record. Arguments
  are the bytes of their UTF-8 text.
\<close>

section \<open>Commands\<close>

datatype cli_command =
    ApprovalsList | ApprovalsShow string | ApprovalsApprove string
  | BaselinesList string | BaselinesShow string string | BaselinesApprove string string
  | DecisionsGet int | DecisionsExplain string
  | PolicyStatus | PolicyRevisions | PolicyValidate string | PolicySimulate string string
  | PolicyCompare int int string | PolicyRollout string | PolicyRollback int
  | PolicyScaffold string string bool
  | KeysGenerate bool bool | KeysStatus | KeysRotate
  | AuditExport "int option" "int option" string bool

record cli_args =
  ca_url :: "string option"
  ca_json :: bool
  ca_yes :: bool
  ca_command :: cli_command

text \<open>\<open>MUTATIONS\<close>, the group and action of the commands that change the gateway's state.\<close>

fun group_action :: "cli_command \<Rightarrow> string \<times> string" where
  "group_action ApprovalsList = (''approvals'', ''list'')"
| "group_action (ApprovalsShow i) = (''approvals'', ''show'')"
| "group_action (ApprovalsApprove i) = (''approvals'', ''approve'')"
| "group_action (BaselinesList k) = (''baselines'', ''list'')"
| "group_action (BaselinesShow s t) = (''baselines'', ''show'')"
| "group_action (BaselinesApprove s t) = (''baselines'', ''approve'')"
| "group_action (DecisionsGet n) = (''decisions'', ''get'')"
| "group_action (DecisionsExplain f) = (''decisions'', ''explain'')"
| "group_action PolicyStatus = (''policy'', ''status'')"
| "group_action PolicyRevisions = (''policy'', ''revisions'')"
| "group_action (PolicyValidate f) = (''policy'', ''validate'')"
| "group_action (PolicySimulate f w) = (''policy'', ''simulate'')"
| "group_action (PolicyCompare a b w) = (''policy'', ''compare'')"
| "group_action (PolicyRollout f) = (''policy'', ''rollout'')"
| "group_action (PolicyRollback n) = (''policy'', ''rollback'')"
| "group_action (PolicyScaffold w out force) = (''policy'', ''scaffold'')"
| "group_action (KeysGenerate bearer totp) = (''keys'', ''generate'')"
| "group_action KeysStatus = (''keys'', ''audit-status'')"
| "group_action KeysRotate = (''keys'', ''rotate-audit'')"
| "group_action (AuditExport a b out force) = (''audit'', ''export'')"

definition mutations :: "(string \<times> string) list" where
  "mutations = [(''approvals'', ''approve''), (''baselines'', ''approve''), (''policy'', ''rollout''),
     (''policy'', ''rollback''), (''keys'', ''rotate-audit'')]"

section \<open>Requests\<close>

text \<open>\<open>urllib.parse.quote(value, safe="")\<close>, its inverse, and \<open>urlencode\<close> of one parameter.\<close>

definition unreserved :: "char \<Rightarrow> bool" where
  "unreserved c \<longleftrightarrow>
     c \<in> set ''ABCDEFGHIJKLMNOPQRSTUVWXYZabcdefghijklmnopqrstuvwxyz0123456789_.-~''"

definition hex_up :: "nat \<Rightarrow> char" where
  "hex_up n = ''0123456789ABCDEF'' ! n"

definition quote_byte :: "char \<Rightarrow> string" where
  "quote_byte c =
     (if unreserved c then [c]
      else [CHR ''%'', hex_up (of_char c div 16), hex_up (of_char c mod 16)])"

definition quote :: "string \<Rightarrow> string" where
  "quote s = concat (map quote_byte s)"

definition quote_plus :: "string \<Rightarrow> string" where
  "quote_plus s = concat (map (\<lambda>c. if c = CHR '' '' then ''+'' else quote_byte c) s)"

definition hex_val :: "char \<Rightarrow> nat option" where
  "hex_val c =
     (let n = of_char c
      in if 48 \<le> n \<and> n \<le> 57 then Some (n - 48)
         else if 65 \<le> n \<and> n \<le> 70 then Some (n - 55)
         else if 97 \<le> n \<and> n \<le> 102 then Some (n - 87) else None)"

fun unquote :: "string \<Rightarrow> string" where
  "unquote [] = []"
| "unquote (c # cs) =
     (if c \<noteq> CHR ''%'' then c # unquote cs
      else (case cs of
              a # b # rest \<Rightarrow>
                (case (hex_val a, hex_val b) of
                   (Some x, Some y) \<Rightarrow> char_of (16 * x + y) # unquote rest
                 | _ \<Rightarrow> c # unquote cs)
            | _ \<Rightarrow> c # unquote cs))"

record http_call =
  hc_method :: string
  hc_path :: string
  hc_body :: "string option"
  hc_type :: "string option"

definition get_call :: "string \<Rightarrow> http_call" where
  "get_call path = \<lparr>hc_method = ''GET'', hc_path = path, hc_body = None, hc_type = None\<rparr>"

definition post_call :: "string \<Rightarrow> http_call" where
  "post_call path = \<lparr>hc_method = ''POST'', hc_path = path, hc_body = None, hc_type = None\<rparr>"

definition sending :: "string \<Rightarrow> string \<Rightarrow> http_call \<Rightarrow> http_call" where
  "sending kind body q = q\<lparr>hc_body := Some body, hc_type := Some kind\<rparr>"

text \<open>What the command line takes from outside; the network answers each call.\<close>

datatype opened = Answered string | HttpFailed int string | Unreachable string

record url_parts =
  up_scheme :: string
  up_netloc :: string
  up_username :: "string option"
  up_password :: "string option"
  up_hostname :: "string option"
  up_query :: string
  up_fragment :: string

record cli_env =
  ce_admin_key :: "string option"
  ce_split :: "string \<Rightarrow> url_parts"
  ce_prompt :: string
  ce_net :: "http_call \<Rightarrow> opened"
  ce_stream :: "http_call \<Rightarrow> string list \<times> exn option"
  ce_read :: "string \<Rightarrow> string res"
  ce_loads :: "string \<Rightarrow> json option"
  ce_dumps :: "json \<Rightarrow> string"
  ce_text :: "json \<Rightarrow> string"
  ce_replace :: "string \<Rightarrow> string"
  ce_ellipsis :: string
  ce_temporary :: "string \<Rightarrow> string"
  ce_verify :: "string \<Rightarrow> (int \<times> bool) res"
  ce_sha256 :: "string \<Rightarrow> string"
  ce_b64 :: "string \<Rightarrow> string"
  ce_b32 :: "string \<Rightarrow> string"
  ce_hex :: "string \<Rightarrow> string"
  ce_tokens :: "nat \<Rightarrow> string"

text \<open>\<open>_call\<close>: the request of a command that has one answer.\<close>

fun call_request :: "cli_env \<Rightarrow> cli_command \<Rightarrow> http_call res" where
  "call_request E ApprovalsList = Inr (get_call ''/admin/approvals'')"
| "call_request E (ApprovalsShow i) = Inr (get_call (''/admin/approvals/'' @ quote i))"
| "call_request E (ApprovalsApprove i) = Inr (post_call (''/admin/approvals/'' @ quote i @ ''/approve''))"
| "call_request E (BaselinesList kind) = Inr (get_call (''/admin/baselines/flagged?kind='' @ kind))"
| "call_request E (BaselinesShow s t) = Inr (get_call (''/admin/baselines/'' @ quote s @ ''/'' @ quote t))"
| "call_request E (BaselinesApprove s t) =
     Inr (post_call (''/admin/tools/'' @ quote s @ ''/'' @ quote t @ ''/approve''))"
| "call_request E (DecisionsGet n) = Inr (get_call (''/admin/decisions/'' @ int_str n))"
| "call_request E (DecisionsExplain f) =
     bind_res (ce_read E f) (\<lambda>body. Inr (sending ''application/json'' body (post_call ''/admin/decisions/explain'')))"
| "call_request E PolicyStatus = Inr (get_call ''/admin/policy'')"
| "call_request E PolicyRevisions = Inr (get_call ''/admin/policy/revisions'')"
| "call_request E (PolicyValidate f) =
     bind_res (ce_read E f) (\<lambda>body. Inr (sending ''application/yaml'' body (post_call ''/admin/policy/validate'')))"
| "call_request E (PolicySimulate f w) =
     bind_res (ce_read E f) (\<lambda>body. Inr (sending ''application/yaml'' body
       (post_call (''/admin/policy/simulate-candidate?replay_window='' @ quote_plus w))))"
| "call_request E (PolicyRollout f) =
     bind_res (ce_read E f) (\<lambda>body. Inr (sending ''application/yaml'' body (post_call ''/admin/policy/rollout'')))"
| "call_request E (PolicyCompare a b w) =
     Inr (sending ''application/json''
       (ce_dumps E (JObj [(''compare_versions'', JArr [JInt a, JInt b]), (''replay_window'', JStr w)]))
       (post_call ''/admin/policy/simulate''))"
| "call_request E (PolicyRollback n) = Inr (post_call (''/admin/policy/rollback/'' @ int_str n))"
| "call_request E KeysStatus = Inr (get_call ''/admin/keys/audit'')"
| "call_request E KeysRotate = Inr (post_call ''/admin/keys/audit/rotate'')"
| "call_request E _ = Inl AssertionError"

section \<open>The client\<close>

text \<open>\<open>Client.__init__\<close>: the API key goes to HTTPS, or to this machine.\<close>

definition loopback_host :: "url_parts \<Rightarrow> bool" where
  "loopback_host u \<longleftrightarrow> up_hostname u \<in> {Some ''localhost'', Some ''127.0.0.1'', Some ''::1''}"

definition check_url :: "url_parts \<Rightarrow> unit res" where
  "check_url u =
     (if given (up_username u) \<or> given (up_password u) \<or> up_query u \<noteq> [] \<or> up_fragment u \<noteq> []
      then Inl (CliError ''--url must not contain userinfo, a query, or a fragment'')
      else if up_scheme u \<noteq> ''https'' \<and> \<not> (up_scheme u = ''http'' \<and> loopback_host u)
      then Inl (CliError ''HTTPS is required except for loopback HTTP'')
      else if up_netloc u = [] then Inl (CliError ''--url must include a host'')
      else Inr ())"

definition json_limit :: int where "json_limit = 10 * 1024 * 1024"
definition error_limit :: nat where "error_limit = 64 * 1024"

text \<open>\<open>parsed.get("detail", parsed)\<close> is an \<open>AttributeError\<close> when the body is not an object.\<close>

definition http_error :: "cli_env \<Rightarrow> int \<Rightarrow> string \<Rightarrow> exn" where
  "http_error E status data =
     (let raw = take (Suc error_limit) data;
          detail = ce_replace E (take error_limit raw) @ (if length raw > error_limit then ce_ellipsis E else []);
          failed = (\<lambda>t. CliError (''HTTP '' @ int_str status @ '': '' @ t))
      in case ce_loads E detail of
           None \<Rightarrow> failed detail
         | Some (JObj d) \<Rightarrow> failed (ce_text E (case map_of d ''detail'' of None \<Rightarrow> JObj d | Some v \<Rightarrow> v))
         | Some _ \<Rightarrow> AttributeError)"

definition client_request :: "cli_env \<Rightarrow> http_call \<Rightarrow> json res" where
  "client_request E q =
     (case ce_net E q of
        Answered data \<Rightarrow>
          if int (length data) > json_limit then Inl (CliError ''response exceeds 10 MiB'')
          else if data = [] then Inr (JObj [])
          else (case ce_loads E data of None \<Rightarrow> Inl (CliError ''invalid JSON'') | Some v \<Rightarrow> Inr v)
      | HttpFailed status data \<Rightarrow> Inl (http_error E status data)
      | Unreachable t \<Rightarrow> Inl (CliError t))"

section \<open>Files\<close>

type_synonym files = "(string \<times> string) list"

definition append_to :: "string \<Rightarrow> string \<Rightarrow> files \<Rightarrow> files" where
  "append_to p s d = al_put p ((case map_of d p of None \<Rightarrow> [] | Some old \<Rightarrow> old) @ s) d"

text \<open>The file takes the other's name, in one step.\<close>

definition rename :: "string \<Rightarrow> string \<Rightarrow> files \<Rightarrow> files" where
  "rename p q d = (case map_of d p of None \<Rightarrow> d | Some s \<Rightarrow> al_drop p (al_put q s d))"

fun write_chunks :: "string \<Rightarrow> string list \<Rightarrow> (files machine, unit) io" where
  "write_chunks p [] = ret_io ()"
| "write_chunks p (s # ss) = bind_io (effect (append_to p s)) (\<lambda>_. write_chunks p ss)"

text \<open>
  \<open>_atomic_output\<close>: what is written is a list of chunks and how the source of them ended.
  Flushing, syncing and the mode change no content.
\<close>

definition existing :: "string \<Rightarrow> bool \<Rightarrow> (files machine, unit) io" where
  "existing out force =
     bind_io (look (\<lambda>d. map_of d out \<noteq> None)) (\<lambda>there.
       if there \<and> \<not> force then raise_io (CliError (out @ '' already exists; pass --force to replace it''))
       else ret_io ())"

definition fill_temporary ::
  "string \<Rightarrow> string \<Rightarrow> string list \<times> exn option \<Rightarrow> (string \<Rightarrow> 'a res) \<Rightarrow> (files machine, 'a) io" where
  "fill_temporary tmp out source validate =
     bind_io (write_chunks tmp (fst source)) (\<lambda>_.
     bind_io (case snd source of None \<Rightarrow> ret_io () | Some e \<Rightarrow> raise_io e) (\<lambda>_.
     bind_io (effect id) (\<lambda>_.
     bind_io (look (\<lambda>d. map_of d tmp)) (\<lambda>content.
     bind_io (of_res (case content of None \<Rightarrow> Inl (OSError ''FileNotFoundError'') | Some s \<Rightarrow> validate s)) (\<lambda>a.
     bind_io (effect id) (\<lambda>_.
     bind_io (effect (rename tmp out)) (\<lambda>_. ret_io a)))))))"

definition atomic_output ::
  "string \<Rightarrow> string \<Rightarrow> bool \<Rightarrow> string list \<times> exn option \<Rightarrow> (string \<Rightarrow> 'a res) \<Rightarrow> (files machine, 'a) io" where
  "atomic_output tmp out force source validate =
     bind_io (existing out force) (\<lambda>_.
     bind_io (effect (al_put tmp [])) (\<lambda>_.
       finally_io (fill_temporary tmp out source validate) (effect (al_drop tmp))))"

section \<open>Commands that write files, and keys\<close>

fun query_of :: "(string \<times> int option) list \<Rightarrow> string list" where
  "query_of [] = []"
| "query_of ((k, None) # ps) = query_of ps"
| "query_of ((k, Some n) # ps) = (k @ ''='' @ quote_plus (int_str n)) # query_of ps"

definition export_path :: "int option \<Rightarrow> int option \<Rightarrow> string" where
  "export_path from_seq to_seq =
     (let query = query_of [(''from_seq'', from_seq), (''to_seq'', to_seq)]
      in ''/admin/audit/export'' @ (if query = [] then [] else ''?'' @ join_with ''&'' query))"

definition cli_export :: "cli_env \<Rightarrow> int option \<Rightarrow> int option \<Rightarrow> string \<Rightarrow> bool \<Rightarrow> (files machine, json) io" where
  "cli_export E from_seq to_seq out force =
     bind_io (atomic_output (ce_temporary E out) out force
       (ce_stream E (get_call (export_path from_seq to_seq))) (ce_verify E)) (\<lambda>(count, anchored).
     ret_io (JObj [(''output'', JStr out), (''rows'', JInt count), (''genesis_anchored'', JBool anchored)]))"

text \<open>\<open>response["policy"]\<close> and the like: a \<open>KeyError\<close> or a \<open>TypeError\<close>, answered alike.\<close>

fun item :: "string \<Rightarrow> json \<Rightarrow> json option" where
  "item k (JObj d) = map_of d k"
| "item k _ = None"

definition scaffold_parts :: "json \<Rightarrow> (string \<times> json \<times> json) option" where
  "scaffold_parts response =
     (case (item ''policy'' response, item ''metadata'' response) of
        (Some (JStr policy), Some (JObj metadata)) \<Rightarrow>
          (case Option.bind (item ''candidate'' (JObj metadata)) (item ''content_hash'') of
             None \<Rightarrow> None
           | Some expected \<Rightarrow> Some (policy, JObj metadata, expected))
      | _ \<Rightarrow> None)"

definition cli_scaffold :: "cli_env \<Rightarrow> string \<Rightarrow> string \<Rightarrow> bool \<Rightarrow> (files machine, json) io" where
  "cli_scaffold E window out force =
     bind_io (existing out force) (\<lambda>_.
     bind_io (of_res (client_request E (sending ''application/json''
       (ce_dumps E (JObj [(''source'', JStr ''audit''), (''window'', JStr window)]))
       (post_call ''/admin/policy/scaffold'')))) (\<lambda>response.
     case scaffold_parts response of
       None \<Rightarrow> raise_io (CliError ''gateway returned an invalid scaffold response'')
     | Some (policy, metadata, expected) \<Rightarrow>
         if expected \<noteq> JStr (ce_sha256 E policy)
         then raise_io (CliError ''generated policy hash does not match gateway metadata'')
         else bind_io (atomic_output (ce_temporary E out) out force ([policy], None) (\<lambda>s. Inr ())) (\<lambda>_.
              ret_io (JObj [(''output'', JStr out), (''metadata'', metadata)]))))"

definition upper_hex :: "cli_env \<Rightarrow> nat \<Rightarrow> string" where
  "upper_hex E n = map (\<lambda>c. if of_char c \<ge> (97 :: nat) then char_of (of_char c - 32 :: nat) else c) (ce_hex E (ce_tokens E n))"

definition generate_keys :: "cli_env \<Rightarrow> bool \<Rightarrow> bool \<Rightarrow> bool \<Rightarrow> json res" where
  "generate_keys E as_json bearer totp =
     (if as_json then Inl (CliError ''keys generate does not support --json'')
      else
        (let key = ce_b64 E (ce_tokens E 0);
             first = (if bearer
               then [(''mode'', JStr ''bearer''), (''api_key'', JStr key), (''api_key_hash'', JStr (''sha256:'' @ ce_sha256 E key))]
               else [(''mode'', JStr ''signed''), (''key_id'', JStr (''kid_'' @ ce_hex E (ce_tokens E 0))),
                     (''signing_secret'', JStr (ce_b64 E (ce_tokens E 1))),
                     (''signing_secret_env'', JStr (''PORTUNUSMCP_SIGNING_SECRET_'' @ upper_hex E 2))])
         in Inr (JObj (first @ (if totp
               then [(''totp_secret'', JStr (ce_b32 E (ce_tokens E 3))),
                     (''totp_secret_env'', JStr (''PORTUNUSMCP_TOTP_SECRET_'' @ upper_hex E 4))]
               else [])))))"

section \<open>The main program\<close>

definition confirm :: "cli_env \<Rightarrow> cli_args \<Rightarrow> unit res" where
  "confirm E args =
     (if group_action (ca_command args) \<notin> set mutations \<or> ca_yes args then Inr ()
      else if ca_json args then Inl (CliError ''mutating commands require --yes with --json'')
      else if py_lower (py_strip (ce_prompt E)) \<notin> {''y'', ''yes''} then Inl (CliError ''cancelled'')
      else Inr ())"

fun remote_command :: "cli_env \<Rightarrow> cli_command \<Rightarrow> (files machine, json) io" where
  "remote_command E (AuditExport from_seq to_seq out force) = cli_export E from_seq to_seq out force"
| "remote_command E (PolicyScaffold window out force) = cli_scaffold E window out force"
| "remote_command E c = of_res (bind_res (call_request E c) (client_request E))"

definition run_remote :: "cli_env \<Rightarrow> cli_args \<Rightarrow> (files machine, json) io" where
  "run_remote E args =
     (if \<not> given (ca_url args) then raise_io (CliError ''--url or PORTUNUSMCP_URL is required'')
      else if \<not> given (ce_admin_key E) then raise_io (CliError ''PORTUNUSMCP_ADMIN_KEY is required'')
      else bind_io (of_res (check_url (ce_split E (the (ca_url args))))) (\<lambda>_.
           bind_io (of_res (confirm E args)) (\<lambda>_. remote_command E (ca_command args))))"

fun run_cli :: "cli_env \<Rightarrow> cli_args \<Rightarrow> (files machine, json) io" where
  "run_cli E args =
     (case ca_command args of
        KeysGenerate bearer totp \<Rightarrow> of_res (generate_keys E (ca_json args) bearer totp)
      | _ \<Rightarrow> run_remote E args)"

text \<open>The exit status; an exception that is not caught ends in a traceback.\<close>

fun reported :: "exn \<Rightarrow> bool" where
  "reported (CliError t) = True"
| "reported (DoctorError t) = True"
| "reported (QuickstartError t) = True"
| "reported (OSError t) = True"
| "reported (ValueError t) = True"
| "reported (VerificationError t) = True"
| "reported _ = False"

definition exit_status :: "json res \<Rightarrow> int res" where
  "exit_status r =
     (case r of
        Inr v \<Rightarrow> Inr 0
      | Inl (QuickstartUsageError t) \<Rightarrow> Inr 2
      | Inl e \<Rightarrow> if reported e then Inr 1 else Inl e)"

section \<open>The gateway's routes\<close>

text \<open>
  The decorators of \<open>services/gateway/main.py\<close>: method, path and handler. The server
  decodes the path before it matches it; a parameter matches one non-empty segment.
\<close>

definition routes :: "(string \<times> string \<times> string) list" where
  "routes =
     [(''POST'', ''/admin/tools/{server_id}/{tool_name}/approve'', ''approve_tool''),
      (''POST'', ''/admin/approvals/{approval_id}/approve'', ''approve_call''),
      (''POST'', ''/admin/policy/rollback/{version}'', ''rollback_policy''),
      (''GET'', ''/admin/approvals'', ''list_approvals''),
      (''GET'', ''/admin/approvals/{approval_id}'', ''get_approval''),
      (''GET'', ''/admin/baselines/flagged'', ''list_flagged_baselines''),
      (''GET'', ''/admin/baselines/{server_id}/{tool_name}'', ''get_baseline''),
      (''GET'', ''/admin/decisions/{seq}'', ''get_decision''),
      (''POST'', ''/admin/decisions/explain'', ''explain_decision''),
      (''POST'', ''/admin/policy/simulate'', ''simulate_policy''),
      (''POST'', ''/admin/policy/scaffold'', ''scaffold_policy''),
      (''GET'', ''/admin/policy'', ''policy_status''),
      (''GET'', ''/admin/policy/revisions'', ''policy_revisions''),
      (''POST'', ''/admin/policy/validate'', ''validate_candidate''),
      (''POST'', ''/admin/policy/simulate-candidate'', ''simulate_candidate_policy''),
      (''POST'', ''/admin/policy/rollout'', ''rollout_policy''),
      (''GET'', ''/admin/keys/audit'', ''audit_key_status''),
      (''POST'', ''/admin/keys/audit/rotate'', ''rotate_audit_key''),
      (''GET'', ''/admin/audit/export'', ''export_audit'')]"

fun match_segments :: "string list \<Rightarrow> string list \<Rightarrow> string list option" where
  "match_segments [] [] = Some []"
| "match_segments (p # ps) (s # ss) =
     (if take 1 p = ''{'' then (if s = [] then None else map_option ((#) s) (match_segments ps ss))
      else if p = s then match_segments ps ss else None)"
| "match_segments _ _ = None"

fun route_among :: "(string \<times> string \<times> string) list \<Rightarrow> string \<Rightarrow> string list \<Rightarrow> (string \<times> string list) option" where
  "route_among [] meth segments = None"
| "route_among ((m, template, handler) # rs) meth segments =
     (case (if m = meth then match_segments (split_on CHR ''/'' template) segments else None) of
        Some params \<Rightarrow> Some (handler, params)
      | None \<Rightarrow> route_among rs meth segments)"

definition route :: "http_call \<Rightarrow> (string \<times> string list) option" where
  "route q = route_among routes (hc_method q)
     (split_on CHR ''/'' (unquote (takeWhile (\<lambda>c. c \<noteq> CHR ''?'') (hc_path q))))"

text \<open>Where a command is meant to go, with its arguments.\<close>

fun meant :: "cli_command \<Rightarrow> (string \<times> string list) option" where
  "meant ApprovalsList = Some (''list_approvals'', [])"
| "meant (ApprovalsShow i) = Some (''get_approval'', [i])"
| "meant (ApprovalsApprove i) = Some (''approve_call'', [i])"
| "meant (BaselinesList kind) = Some (''list_flagged_baselines'', [])"
| "meant (BaselinesShow s t) = Some (''get_baseline'', [s, t])"
| "meant (BaselinesApprove s t) = Some (''approve_tool'', [s, t])"
| "meant (DecisionsGet n) = Some (''get_decision'', [int_str n])"
| "meant (DecisionsExplain f) = Some (''explain_decision'', [])"
| "meant PolicyStatus = Some (''policy_status'', [])"
| "meant PolicyRevisions = Some (''policy_revisions'', [])"
| "meant (PolicyValidate f) = Some (''validate_candidate'', [])"
| "meant (PolicySimulate f w) = Some (''simulate_candidate_policy'', [])"
| "meant (PolicyCompare a b w) = Some (''simulate_policy'', [])"
| "meant (PolicyRollout f) = Some (''rollout_policy'', [])"
| "meant (PolicyRollback n) = Some (''rollback_policy'', [int_str n])"
| "meant KeysStatus = Some (''audit_key_status'', [])"
| "meant KeysRotate = Some (''rotate_audit_key'', [])"
| "meant _ = None"

definition one_segment :: "string \<Rightarrow> bool" where
  "one_segment s \<longleftrightarrow> s \<noteq> [] \<and> CHR ''/'' \<notin> set s"

fun arguments_routable :: "cli_command \<Rightarrow> bool" where
  "arguments_routable (ApprovalsShow i) = one_segment i"
| "arguments_routable (ApprovalsApprove i) = one_segment i"
| "arguments_routable (BaselinesShow s t) = (one_segment s \<and> one_segment t)"
| "arguments_routable (BaselinesApprove s t) = (one_segment s \<and> one_segment t)"
| "arguments_routable _ = True"

section \<open>Quoting\<close>

lemma hex_val_up: "n < 16 \<Longrightarrow> hex_val (hex_up n) = Some n"
proof -
  assume "n < 16"
  then have "n \<in> set [0..<16]" by simp
  moreover have "list_all (\<lambda>n. hex_val (hex_up n) = Some n) [0..<16]" by code_simp
  ultimately show ?thesis by (simp add: list_all_iff)
qed

lemma hex_up_plain: "n < 16 \<Longrightarrow> unreserved (hex_up n)"
proof -
  assume "n < 16"
  then have "n \<in> set [0..<16]" by simp
  moreover have "list_all (\<lambda>n. unreserved (hex_up n)) [0..<16]" by code_simp
  ultimately show ?thesis by (simp add: list_all_iff)
qed

lemma nibbles: "(of_char c :: nat) div 16 < 16" "(of_char c :: nat) mod 16 < 16"
  by (rule less_mult_imp_div_less) simp_all

lemma unquote_byte: "unquote (quote_byte c @ s) = c # unquote s"
proof (cases "unreserved c")
  case True
  then have "c \<noteq> CHR ''%''" by (auto simp: unreserved_def)
  with True show ?thesis by (simp add: quote_byte_def)
next
  case False
  have h: "hex_val (hex_up (of_char c div 16)) = Some (of_char c div 16)"
    "hex_val (hex_up (of_char c mod 16)) = Some (of_char c mod 16)" using nibbles by (simp_all only: hex_val_up)
  have "char_of (16 * ((of_char c :: nat) div 16) + of_char c mod 16) = c" by simp
  with False h show ?thesis by (simp add: quote_byte_def)
qed

lemma unquote_quote: "unquote (quote s @ t) = s @ unquote t"
  by (induction s) (simp_all add: quote_def unquote_byte)

lemma reserved_query: "\<not> unreserved CHR ''?''"
  by code_simp

lemma quote_byte_no_query: "CHR ''?'' \<notin> set (quote_byte c)"
proof (cases "unreserved c")
  case True
  then have "c \<noteq> CHR ''?''" using reserved_query by metis
  with True show ?thesis by (simp add: quote_byte_def)
next
  case False
  have "unreserved (hex_up (of_char c div 16))" "unreserved (hex_up (of_char c mod 16))"
    using nibbles by (simp_all only: hex_up_plain)
  then have "hex_up (of_char c div 16) \<noteq> CHR ''?''" "hex_up (of_char c mod 16) \<noteq> CHR ''?''"
    using reserved_query by metis+
  with False show ?thesis by (simp add: quote_byte_def)
qed

lemma quote_no_query: "takeWhile (\<lambda>c. c \<noteq> CHR ''?'') (quote s @ t) = quote s @ takeWhile (\<lambda>c. c \<noteq> CHR ''?'') t"
  by (rule takeWhile_append2) (use quote_byte_no_query in \<open>auto simp: quote_def\<close>)

text \<open>A number's text is one segment, and quoting leaves it alone.\<close>

lemma split_segments:
  "one_segment s \<Longrightarrow> split_on CHR ''/'' (s @ CHR ''/'' # t) = s # split_on CHR ''/'' t"
  "one_segment s \<Longrightarrow> split_on CHR ''/'' s = [s]"
  by (simp_all add: one_segment_def split_on_joined split_on_whole)

lemma one_segment_ne: "one_segment s \<Longrightarrow> s \<noteq> []"
  by (simp add: one_segment_def)

lemma nat_str_unreserved: "nat_str n \<noteq> [] \<and> (\<forall>c \<in> set (nat_str n). unreserved c)"
proof (induction n rule: nat_str.induct)
  case (1 n)
  have "unreserved (digit_char k)" if "k < 10" for k
  proof -
    have "list_all (\<lambda>k. unreserved (digit_char k)) [0..<10]" by code_simp
    with that show ?thesis by (simp add: list_all_iff)
  qed
  with 1 show ?case by (subst (1 2) nat_str.simps) auto
qed

lemma int_str_unreserved: "int_str n \<noteq> []" "\<forall>c \<in> set (int_str n). unreserved c"
proof -
  have "unreserved CHR ''-''" by code_simp
  then show "int_str n \<noteq> []" "\<forall>c \<in> set (int_str n). unreserved c"
    using nat_str_unreserved by (auto simp: int_str_def)
qed

lemma int_str_segment: "one_segment (int_str n)"
proof -
  have "\<not> unreserved CHR ''/''" by code_simp
  then show ?thesis using int_str_unreserved [of n] by (auto simp: one_segment_def)
qed

lemma quote_int: "quote (int_str n) = int_str n"
proof -
  have "\<forall>c \<in> set s. unreserved c \<Longrightarrow> quote s = s" for s
    by (induction s) (simp_all add: quote_def quote_byte_def)
  then show ?thesis using int_str_unreserved by blast
qed

text \<open>The routes with their templates cut into segments.\<close>

definition cut_routes :: "(string \<times> string list \<times> string) list" where
  "cut_routes = map (\<lambda>(m, t, h). (m, split_on CHR ''/'' t, h)) routes"

fun route_cut :: "(string \<times> string list \<times> string) list \<Rightarrow> string \<Rightarrow> string list \<Rightarrow> (string \<times> string list) option" where
  "route_cut [] meth segments = None"
| "route_cut ((m, t, h) # rs) meth segments =
     (case (if m = meth then match_segments t segments else None) of
        Some params \<Rightarrow> Some (h, params)
      | None \<Rightarrow> route_cut rs meth segments)"

lemma route_among_cut:
  "route_among rs meth segments = route_cut (map (\<lambda>(m, t, h). (m, split_on CHR ''/'' t, h)) rs) meth segments"
  by (induction rs meth segments rule: route_among.induct) (simp_all split: option.splits)

lemmas cut_routes_eval = cut_routes_def [unfolded routes_def, simplified]

text \<open>A path as its segments, quoted.\<close>

definition path_of :: "string list \<Rightarrow> string" where
  "path_of segments = concat (map (\<lambda>s. CHR ''/'' # quote s) segments)"

lemma unquote_path: "unquote (path_of segments) = concat (map (\<lambda>s. CHR ''/'' # s) segments)"
proof -
  have "unquote (path_of segments @ t) = concat (map (\<lambda>s. CHR ''/'' # s) segments) @ unquote t" for t
    by (induction segments) (simp_all add: path_of_def unquote_quote)
  from this [of "[]"] show ?thesis by simp
qed

lemma path_no_query:
  "takeWhile (\<lambda>c. c \<noteq> CHR ''?'') (path_of segments @ t) = path_of segments @ takeWhile (\<lambda>c. c \<noteq> CHR ''?'') t"
  by (induction segments) (simp_all add: path_of_def quote_no_query)

lemma split_slashed:
  "\<forall>s \<in> set segments. one_segment s \<Longrightarrow> one_segment s0 \<Longrightarrow>
     split_on CHR ''/'' (s0 @ concat (map (\<lambda>s. CHR ''/'' # s) segments)) = s0 # segments"
proof (induction segments arbitrary: s0)
  case Nil
  then show ?case by (simp add: split_segments)
next
  case (Cons s segments)
  have "split_on CHR ''/'' (s0 @ CHR ''/'' # (s @ concat (map (\<lambda>s. CHR ''/'' # s) segments))) = s0 # s # segments"
    using Cons.IH [of s] Cons.prems by (simp add: split_segments)
  then show ?case by simp
qed

lemma route_segments:
  assumes "hc_path q = path_of (s # segments) @ query" and "query = [] \<or> hd query = CHR ''?''"
    and "\<forall>x \<in> set (s # segments). one_segment x"
  shows "route q = route_cut cut_routes (hc_method q) ([] # s # segments)"
proof -
  have "takeWhile (\<lambda>c. c \<noteq> CHR ''?'') query = []" using assms(2) by (cases query) auto
  then have "takeWhile (\<lambda>c. c \<noteq> CHR ''?'') (hc_path q) = path_of (s # segments)"
    using assms(1) path_no_query by simp
  moreover have "split_on CHR ''/'' (unquote (path_of (s # segments))) = [] # s # segments"
    using split_slashed [of segments s] assms(3) by (simp add: unquote_path)
  ultimately show ?thesis by (simp add: route_def route_among_cut cut_routes_def)
qed

lemma literal_segments:
  "list_all (\<lambda>s. one_segment s \<and> quote s = s)
     [''admin'', ''approvals'', ''approve'', ''baselines'', ''flagged'', ''tools'', ''decisions'', ''explain'', ''policy'',
      ''revisions'', ''validate'', ''simulate'', ''simulate-candidate'', ''rollout'', ''rollback'', ''keys'', ''audit'', ''rotate'']"
  by code_simp

lemma quote_literals:
  "quote ''admin'' = ''admin''" "quote ''approvals'' = ''approvals''" "quote ''approve'' = ''approve''"
  "quote ''baselines'' = ''baselines''" "quote ''flagged'' = ''flagged''" "quote ''tools'' = ''tools''"
  "quote ''decisions'' = ''decisions''" "quote ''explain'' = ''explain''" "quote ''policy'' = ''policy''"
  "quote ''revisions'' = ''revisions''" "quote ''validate'' = ''validate''" "quote ''simulate'' = ''simulate''"
  "quote ''simulate-candidate'' = ''simulate-candidate''" "quote ''rollout'' = ''rollout''"
  "quote ''rollback'' = ''rollback''" "quote ''keys'' = ''keys''" "quote ''audit'' = ''audit''"
  "quote ''rotate'' = ''rotate''"
  by code_simp+

text \<open>The method and the segments of each command's path.\<close>

fun target_of :: "cli_command \<Rightarrow> string \<times> string list" where
  "target_of ApprovalsList = (''GET'', [''approvals''])"
| "target_of (ApprovalsShow i) = (''GET'', [''approvals'', i])"
| "target_of (ApprovalsApprove i) = (''POST'', [''approvals'', i, ''approve''])"
| "target_of (BaselinesList kind) = (''GET'', [''baselines'', ''flagged''])"
| "target_of (BaselinesShow s t) = (''GET'', [''baselines'', s, t])"
| "target_of (BaselinesApprove s t) = (''POST'', [''tools'', s, t, ''approve''])"
| "target_of (DecisionsGet n) = (''GET'', [''decisions'', int_str n])"
| "target_of (DecisionsExplain f) = (''POST'', [''decisions'', ''explain''])"
| "target_of PolicyStatus = (''GET'', [''policy''])"
| "target_of PolicyRevisions = (''GET'', [''policy'', ''revisions''])"
| "target_of (PolicyValidate f) = (''POST'', [''policy'', ''validate''])"
| "target_of (PolicySimulate f w) = (''POST'', [''policy'', ''simulate-candidate''])"
| "target_of (PolicyCompare a b w) = (''POST'', [''policy'', ''simulate''])"
| "target_of (PolicyRollout f) = (''POST'', [''policy'', ''rollout''])"
| "target_of (PolicyRollback n) = (''POST'', [''policy'', ''rollback'', int_str n])"
| "target_of KeysStatus = (''GET'', [''keys'', ''audit''])"
| "target_of KeysRotate = (''POST'', [''keys'', ''audit'', ''rotate''])"
| "target_of _ = ([], [])"

lemma target_routed:
  "arguments_routable c \<Longrightarrow> meant c \<noteq> None \<Longrightarrow>
     route_cut cut_routes (fst (target_of c)) ([] # ''admin'' # snd (target_of c)) = meant c"
  using int_str_segment
  by (cases c) (simp_all add: cut_routes_eval one_segment_def)

lemma target_segments:
  "arguments_routable c \<Longrightarrow> \<forall>s \<in> set (''admin'' # snd (target_of c)). one_segment s"
  using literal_segments int_str_segment by (cases c) simp_all

fun query_text :: "cli_command \<Rightarrow> string" where
  "query_text (BaselinesList kind) = ''?kind='' @ kind"
| "query_text (PolicySimulate f w) = ''?replay_window='' @ quote_plus w"
| "query_text _ = []"

lemma target_path:
  assumes "call_request E c = Inr q"
  shows "hc_method q = fst (target_of c) \<and> meant c \<noteq> None \<and>
    hc_path q = path_of (''admin'' # snd (target_of c)) @ query_text c"
  using assms
  by (cases c) (auto simp: get_call_def post_call_def sending_def path_of_def quote_int bind_res_Inr_iff quote_literals)

lemma query_marked: "query_text c = [] \<or> hd (query_text c) = CHR ''?''"
  by (cases c) simp_all

text \<open>
  C30: A command reaches its endpoint. When its arguments are non-empty and without a slash,
  the request a command sends is matched by the route of the handler it is for, with
  exactly these arguments: quoting and the server's decoding undo each other.
\<close>

theorem cli_call_reaches_its_endpoint:
  assumes "call_request E c = Inr q" and "arguments_routable c"
  shows "route q = meant c"
proof -
  note path = target_path [OF assms(1)]
  have "route q = route_cut cut_routes (hc_method q) ([] # ''admin'' # snd (target_of c))"
    using route_segments [OF _ query_marked target_segments [OF assms(2)]] path by blast
  then show ?thesis using path target_routed [OF assms(2)] by simp
qed

text \<open>
  A tool whose name has a slash cannot be approved: the slash is quoted, but the server
  decodes the path before it looks for the route, and finds one segment too many.
\<close>

theorem slash_in_name_is_unreachable:
  "(case call_request E (BaselinesApprove ''files'' ''read/all'') of Inl e \<Rightarrow> True | Inr q \<Rightarrow> route q = None)"
  by (simp add: call_request.simps post_call_def) code_simp

section \<open>An output file is replaced at once, by what was verified\<close>

text \<open>The other files are as before; the temporary one holds what was written so far.\<close>

definition others_kept :: "files \<Rightarrow> string \<Rightarrow> string \<Rightarrow> files \<Rightarrow> bool" where
  "others_kept d0 tmp out d \<longleftrightarrow> (\<forall>p. p \<noteq> tmp \<longrightarrow> p \<noteq> out \<longrightarrow> map_of d p = map_of d0 p)"

definition writing :: "files \<Rightarrow> string \<Rightarrow> string \<Rightarrow> string \<Rightarrow> files \<Rightarrow> bool" where
  "writing d0 tmp out s d \<longleftrightarrow>
     others_kept d0 tmp out d \<and> map_of d out = map_of d0 out \<and> map_of d tmp = Some s"

definition output_sound :: "files \<Rightarrow> string \<Rightarrow> string \<Rightarrow> string list \<times> exn option \<Rightarrow> (string \<Rightarrow> 'a res) \<Rightarrow> files \<Rightarrow> bool" where
  "output_sound d0 tmp out source validate d \<longleftrightarrow> others_kept d0 tmp out d \<and>
     (map_of d out = map_of d0 out \<or>
      snd source = None \<and> map_of d out = Some (concat (fst source)) \<and> (\<exists>a. validate (concat (fst source)) = Inr a))"

definition output_done :: "files \<Rightarrow> string \<Rightarrow> string \<Rightarrow> string list \<times> exn option \<Rightarrow> (string \<Rightarrow> 'a res) \<Rightarrow> 'a \<Rightarrow> files \<Rightarrow> bool" where
  "output_done d0 tmp out source validate a d \<longleftrightarrow> others_kept d0 tmp out d \<and>
     snd source = None \<and> map_of d out = Some (concat (fst source)) \<and> validate (concat (fst source)) = Inr a"

lemma writing_sound: "writing d0 tmp out s d \<Longrightarrow> output_sound d0 tmp out source validate d"
  by (simp add: writing_def output_sound_def)

lemma passes_chunks:
  assumes "tmp \<noteq> out"
  shows "passes (output_sound d0 tmp out source validate) (write_chunks tmp ss) (writing d0 tmp out s)
    (\<lambda>_. writing d0 tmp out (s @ concat ss))"
proof (induction ss arbitrary: s)
  case Nil
  then show ?case by (simp add: passes_retI del: ret_io_app)
next
  case (Cons x ss)
  have step: "writing d0 tmp out (s @ x) (append_to tmp x d)" if "writing d0 tmp out s d" for d
    using that assms by (auto simp: writing_def append_to_def others_kept_def)
  have "passes (output_sound d0 tmp out source validate) (effect (append_to tmp x)) (writing d0 tmp out s)
      (\<lambda>_. writing d0 tmp out (s @ x))"
    by (rule passes_effect_to) (use step writing_sound in blast)
  from passes_bind [OF this Cons.IH] show ?case by simp
qed

lemma passes_fill:
  assumes "tmp \<noteq> out"
  shows "passes (output_sound d0 tmp out source validate) (fill_temporary tmp out source validate)
    (writing d0 tmp out []) (output_done d0 tmp out source validate)"
proof -
  let ?P = "output_sound d0 tmp out source validate" and ?W = "writing d0 tmp out (concat (fst source))"
  have renamed: "output_done d0 tmp out source validate a (rename tmp out d)"
    if "?W d" "snd source = None" "validate (concat (fst source)) = Inr a" for d a
    using that assms by (auto simp: writing_def output_done_def rename_def others_kept_def)
  have last: "passes ?P (effect (rename tmp out)) (\<lambda>d. ?W d \<and> snd source = None \<and> validate (concat (fst source)) = Inr a)
      (\<lambda>_. output_done d0 tmp out source validate a)" for a
    by (rule passes_effect_to) (use renamed in \<open>auto simp: output_done_def output_sound_def\<close>)
  show ?thesis
    unfolding fill_temporary_def
  proof (rule passes_bind [OF passes_chunks [OF assms, of d0 source validate "fst source" "[]", simplified]])
    show "passes ?P
        (bind_io (case snd source of None \<Rightarrow> ret_io () | Some e \<Rightarrow> raise_io e) (\<lambda>_.
         bind_io (effect id) (\<lambda>_. bind_io (look (\<lambda>d. map_of d tmp)) (\<lambda>content.
         bind_io (of_res (case content of None \<Rightarrow> Inl (OSError ''FileNotFoundError'') | Some s \<Rightarrow> validate s)) (\<lambda>a.
         bind_io (effect id) (\<lambda>_. bind_io (effect (rename tmp out)) (\<lambda>_. ret_io a)))))))
        ?W (output_done d0 tmp out source validate)"
    proof (cases "snd source")
      case (Some e)
      then show ?thesis by (simp add: passes_def bind_io_def raise_io_def)
    next
      case None
      have tail: "passes ?P (bind_io (effect id) (\<lambda>_. bind_io (effect (rename tmp out)) (\<lambda>_. ret_io a)))
          (\<lambda>d. ?W d \<and> snd source = None \<and> validate (concat (fst source)) = Inr a) (output_done d0 tmp out source validate)" for a
        by (rule passes_bind [OF passes_same], use writing_sound in blast, rule passes_bind [OF last], rule passes_retI)
      have "passes ?P (bind_io (effect id) (\<lambda>_. bind_io (look (\<lambda>d. map_of d tmp)) (\<lambda>content.
         bind_io (of_res (case content of None \<Rightarrow> Inl (OSError ''FileNotFoundError'') | Some s \<Rightarrow> validate s)) (\<lambda>a.
         bind_io (effect id) (\<lambda>_. bind_io (effect (rename tmp out)) (\<lambda>_. ret_io a))))))
        ?W (output_done d0 tmp out source validate)"
      proof (rule passes_bind [OF passes_same], use writing_sound in blast, rule passes_look_bind, rule passes_of_res_bind)
        fix content a
        assume "(case content of None \<Rightarrow> Inl (OSError ''FileNotFoundError'') | Some s \<Rightarrow> validate s) = Inr a"
        then show "passes ?P (bind_io (effect id) (\<lambda>_. bind_io (effect (rename tmp out)) (\<lambda>_. ret_io a)))
            (\<lambda>d. ?W d \<and> map_of d tmp = content) (output_done d0 tmp out source validate)"
          by (intro passes_weaken [OF tail]) (auto simp: writing_def None split: option.splits)
      qed
      moreover have "bind_io (ret_io ()) f = f ()" for f :: "unit \<Rightarrow> (files machine, 'a) io"
        by (rule ext) (simp add: bind_io_def)
      ultimately show ?thesis using None by simp
    qed
  qed
qed

lemma passes_existing: "passes P (existing out force) (\<lambda>d. d = d0) (\<lambda>_ d. d = d0 \<and> (map_of d0 out = None \<or> force))"
  by (auto simp: passes_def existing_def bind_io_def)

lemma passes_output:
  assumes "tmp \<noteq> out"
  shows "passes (output_sound d0 tmp out source validate) (atomic_output tmp out force source validate)
    (\<lambda>d. d = d0) (\<lambda>a d. output_done d0 tmp out source validate a d \<and> (map_of d0 out = None \<or> force))"
proof -
  let ?P = "output_sound d0 tmp out source validate" and ?free = "map_of d0 out = None \<or> force"
  have drop: "passes ?P (effect (al_drop tmp)) ?P (\<lambda>_ _. True)"
    "passes ?P (effect (al_drop tmp)) (output_done d0 tmp out source validate a) (\<lambda>_. output_done d0 tmp out source validate a)" for a
    using assms by (auto intro!: passes_effect_to simp: output_sound_def output_done_def others_kept_def)
  have body: "passes ?P (finally_io (fill_temporary tmp out source validate) (effect (al_drop tmp)))
      (writing d0 tmp out []) (output_done d0 tmp out source validate)"
    by (rule passes_finally [OF passes_fill [OF assms] writing_sound drop])
  have start: "passes ?P (effect (al_put tmp [])) (\<lambda>d. d = d0 \<and> ?free) (\<lambda>_ d. writing d0 tmp out [] d \<and> ?free)"
    using assms by (intro passes_effect_to) (auto simp: writing_def others_kept_def output_sound_def)
  have kept: "passes ?P (finally_io (fill_temporary tmp out source validate) (effect (al_drop tmp)))
      (\<lambda>d. writing d0 tmp out [] d \<and> ?free) (\<lambda>a d. output_done d0 tmp out source validate a d \<and> ?free)"
    using body unfolding passes_def by simp
  show ?thesis
    unfolding atomic_output_def by (rule passes_bind [OF passes_existing passes_bind [OF start kept]])
qed

lemma passes_export:
  assumes "ce_temporary E out \<noteq> out" and "ca_command args = AuditExport from_seq to_seq out force"
    and "ce_stream E (get_call (export_path from_seq to_seq)) = source"
  shows "passes (output_sound d0 (ce_temporary E out) out source (ce_verify E)) (run_cli E args) (\<lambda>d. d = d0)
    (\<lambda>v d. \<exists>count anchored. output_done d0 (ce_temporary E out) out source (ce_verify E) (count, anchored) d \<and>
       v = JObj [(''output'', JStr out), (''rows'', JInt count), (''genesis_anchored'', JBool anchored)])"
proof -
  let ?P = "output_sound d0 (ce_temporary E out) out source (ce_verify E)"
  have "passes ?P (cli_export E from_seq to_seq out force) (\<lambda>d. d = d0)
    (\<lambda>v d. \<exists>count anchored. output_done d0 (ce_temporary E out) out source (ce_verify E) (count, anchored) d \<and>
       v = JObj [(''output'', JStr out), (''rows'', JInt count), (''genesis_anchored'', JBool anchored)])"
    unfolding cli_export_def assms(3)
    by (rule passes_bind [OF passes_output [OF assms(1)]]) (auto intro!: passes_retI simp del: ret_io_app split: prod.splits)
  then show ?thesis
    unfolding run_cli.simps assms(2) cli_command.case run_remote_def remote_command.simps
    by (intro passes_if passes_raise passes_of_res_bind) (auto intro: passes_weaken)
qed

lemma export_refuses_existing:
  assumes "ca_command args = AuditExport from_seq to_seq out False" and "map_of (mc_disk M) out \<noteq> None"
    and "run_cli E args M = (r, M')"
  shows "M' = M"
proof -
  have "snd (cli_export E from_seq to_seq out False M) = M"
    using assms(2) by (simp add: cli_export_def atomic_output_def existing_def bind_io_def)
  then have "snd (run_remote E args M) = M"
    using assms(1) by (simp add: run_remote_def bind_io_def of_res_def split: sum.splits)
  then show ?thesis using assms(1,3) by simp
qed

text \<open>
  C32: An output file is replaced at once, by what was verified. Whatever effect of an export
  fails or is cut off, and however the download ends, on every disk on the way the output
  is as it was before or holds a complete download that passed verification, and all other
  files but the temporary one are untouched; without \<open>--force\<close> an existing output stays;
  a success reports the verification of what the output now holds.
\<close>

theorem export_replaces_only_with_verified:
  assumes "ce_temporary E out \<noteq> out" and "ca_command args = AuditExport from_seq to_seq out force"
    and "ce_stream E (get_call (export_path from_seq to_seq)) = (chunks, how)"
    and "run_cli E args (power_on d faults) = (r, M)"
  shows "(\<forall>disk \<in> disks M.
      (\<forall>p. p \<noteq> ce_temporary E out \<longrightarrow> p \<noteq> out \<longrightarrow> map_of disk p = map_of d p) \<and>
      (map_of disk out = map_of d out \<or>
       how = None \<and> map_of disk out = Some (concat chunks) \<and> (\<exists>a. ce_verify E (concat chunks) = Inr a)) \<and>
      (\<not> force \<longrightarrow> map_of d out \<noteq> None \<longrightarrow> map_of disk out = map_of d out)) \<and>
    (\<forall>v. r = Inr v \<longrightarrow> (\<exists>count anchored. ce_verify E (concat chunks) = Inr (count, anchored) \<and> how = None \<and>
      map_of (mc_disk M) out = Some (concat chunks) \<and>
      v = JObj [(''output'', JStr out), (''rows'', JInt count), (''genesis_anchored'', JBool anchored)]))"
proof -
  note run = passesD [OF passes_export [OF assms(1-3)], of "power_on d faults" d, OF _ assms(4), simplified]
  have "throughout (output_sound d (ce_temporary E out) out (chunks, how) (ce_verify E)) M"
    by (rule passed_throughout [OF _ run(1)]) (simp add: output_sound_def others_kept_def)
  then have sound: "output_sound d (ce_temporary E out) out (chunks, how) (ce_verify E) disk" if "disk \<in> disks M" for disk
    using that by (simp add: throughout_def)
  have stays: "map_of disk out = map_of d out"
    if "disk \<in> disks M" "\<not> force" "map_of d out \<noteq> None" for disk
  proof -
    have "M = power_on d faults"
      using export_refuses_existing [OF _ _ assms(4)] assms(2) that(2,3) by simp
    with that(1) show ?thesis by (simp add: disks_def power_on_def)
  qed
  show ?thesis
  proof (intro conjI ballI allI impI)
    fix v assume "r = Inr v"
    from run(2) [OF this] show "\<exists>count anchored. ce_verify E (concat chunks) = Inr (count, anchored) \<and> how = None \<and>
      map_of (mc_disk M) out = Some (concat chunks) \<and>
      v = JObj [(''output'', JStr out), (''rows'', JInt count), (''genesis_anchored'', JBool anchored)]"
      by (auto simp: output_done_def)
  qed (use sound stays in \<open>auto simp: output_sound_def others_kept_def\<close>)
qed

section \<open>Nothing is sent without consent\<close>

lemma confirm_ok:
  "confirm E args = Inr () \<longleftrightarrow>
     (group_action (ca_command args) \<in> set mutations \<longrightarrow>
       ca_yes args \<or> (\<not> ca_json args \<and> py_lower (py_strip (ce_prompt E)) \<in> {''y'', ''yes''}))"
  by (simp add: confirm_def)

lemma check_url_ok:
  "check_url u = Inr () \<longleftrightarrow>
     \<not> given (up_username u) \<and> \<not> given (up_password u) \<and> up_query u = [] \<and> up_fragment u = [] \<and>
     (up_scheme u = ''https'' \<or> up_scheme u = ''http'' \<and> loopback_host u) \<and> up_netloc u \<noteq> []"
  by (auto simp: check_url_def)

lemma run_remote_sent:
  assumes "ce_admin_key E' = ce_admin_key E" and "ce_split E' = ce_split E" and "ce_prompt E' = ce_prompt E"
    and "run_remote E' args M \<noteq> run_remote E args M"
  shows "given (ca_url args) \<and> given (ce_admin_key E) \<and>
    check_url (ce_split E (the (ca_url args))) = Inr () \<and> confirm E args = Inr ()"
proof -
  have same: "confirm E' args = confirm E args" using assms(3) by (simp add: confirm_def)
  show ?thesis
    by (cases "check_url (ce_split E (the (ca_url args)))"; cases "confirm E args")
      (use assms same in \<open>auto simp: run_remote_def bind_io_def split: if_splits\<close>)
qed

text \<open>
  C31: Nothing is sent without consent. If what a command does depends at all on how the
  network answers, then the API key and the address were given, the address is HTTPS or
  this machine, it carries no user, password, query or fragment, and a command that changes
  the gateway was confirmed with \<open>--yes\<close>, or at the prompt and then not under \<open>--json\<close>.
\<close>

theorem nothing_sent_without_consent:
  assumes "run_cli (E\<lparr>ce_net := net, ce_stream := stream\<rparr>) args M \<noteq> run_cli E args M"
  shows "given (ce_admin_key E) \<and>
    (\<exists>url. ca_url args = Some url \<and> url \<noteq> [] \<and>
      (let u = ce_split E url
       in (up_scheme u = ''https'' \<or> up_scheme u = ''http'' \<and> loopback_host u) \<and> up_netloc u \<noteq> [] \<and>
          \<not> given (up_username u) \<and> \<not> given (up_password u) \<and> up_query u = [] \<and> up_fragment u = [])) \<and>
    (group_action (ca_command args) \<in> set mutations \<longrightarrow>
      ca_yes args \<or> (\<not> ca_json args \<and> py_lower (py_strip (ce_prompt E)) \<in> {''y'', ''yes''}))"
proof -
  have "generate_keys (E\<lparr>ce_net := net, ce_stream := stream\<rparr>) a b c = generate_keys E a b c" for a b c
    by (simp add: generate_keys_def upper_hex_def Let_def)
  then have "run_remote (E\<lparr>ce_net := net, ce_stream := stream\<rparr>) args M \<noteq> run_remote E args M"
    using assms by (cases "ca_command args") simp_all
  from run_remote_sent [OF _ _ _ this] show ?thesis
    by (cases "ca_url args") (simp_all add: confirm_ok check_url_ok Let_def given_def)
qed

text \<open>Key generation: what the user keeps is what the policy file's hash is of.\<close>

lemma generated_bearer_key_matches_hash:
  "generate_keys E False True totp = Inr (JObj d) \<Longrightarrow>
     \<exists>key. map_of d ''api_key'' = Some (JStr key) \<and> map_of d ''api_key_hash'' = Some (JStr (''sha256:'' @ ce_sha256 E key))"
  by (auto simp: generate_keys_def Let_def split: if_splits)

text \<open>
  An error answer whose body is JSON but no object ends the command in an
  \<open>AttributeError\<close>, which nothing catches: a traceback, without the status.
\<close>

theorem error_list_is_a_traceback:
  assumes "ce_net E q = HttpFailed 502 ''[]''" and "ce_loads E ''[]'' = Some (JArr [])" and "ce_replace E ''[]'' = ''[]''"
  shows "exit_status (client_request E q) = Inl AttributeError"
  using assms by (simp add: client_request_def http_error_def Let_def exit_status_def error_limit_def)

section \<open>Examples\<close>

definition sample_split :: "string \<Rightarrow> url_parts" where
  "sample_split s =
     \<lparr>up_scheme = ''https'', up_netloc = ''gw'', up_username = None, up_password = None, up_hostname = Some ''gw'',
      up_query = [], up_fragment = []\<rparr>"

definition sample_env :: cli_env where
  "sample_env =
     \<lparr>ce_admin_key = Some ''k'', ce_split = sample_split, ce_prompt = '' Yes '', ce_net = (\<lambda>q. Answered []),
      ce_stream = (\<lambda>q. ([''row1'', ''row2''], None)), ce_read = (\<lambda>f. Inr ''body''),
      ce_loads = (\<lambda>s. None), ce_dumps = (\<lambda>v. ''{}''), ce_text = (\<lambda>v. []), ce_replace = (\<lambda>s. s),
      ce_ellipsis = ''.'', ce_temporary = (\<lambda>out. CHR ''.'' # out), ce_verify = (\<lambda>s. Inr (2, True)),
      ce_sha256 = (\<lambda>s. s), ce_b64 = (\<lambda>s. s), ce_b32 = (\<lambda>s. s), ce_hex = (\<lambda>s. s), ce_tokens = (\<lambda>n. ''t'')\<rparr>"

definition sample_rollback :: cli_args where
  "sample_rollback = \<lparr>ca_url = Some ''https://gw'', ca_json = False, ca_yes = False, ca_command = PolicyRollback 3\<rparr>"

definition sample_export :: cli_args where
  "sample_export =
     \<lparr>ca_url = Some ''https://gw'', ca_json = True, ca_yes = False, ca_command = AuditExport (Some 4) None ''out'' True\<rparr>"

theorem cli_call_reaches_its_endpoint_witness:
  "route (post_call ''/admin/tools/a%20b/c%3Fd/approve'') = Some (''approve_tool'', [''a b'', ''c?d''])"
proof -
  have "quote ''a b'' = ''a%20b''" "quote ''c?d'' = ''c%3Fd''" by code_simp+
  then have "call_request sample_env (BaselinesApprove ''a b'' ''c?d'') = Inr (post_call ''/admin/tools/a%20b/c%3Fd/approve'')"
    by simp
  from cli_call_reaches_its_endpoint [OF this] show ?thesis by (simp add: one_segment_def)
qed

theorem nothing_sent_without_consent_witness:
  "given (ce_admin_key sample_env) \<and> group_action (ca_command sample_rollback) \<in> set mutations \<and>
     py_lower (py_strip (ce_prompt sample_env)) \<in> {''y'', ''yes''}"
proof -
  have yes: "py_lower (py_strip '' Yes '') = ''yes''" by code_simp
  have secure: "check_url (sample_split ''https://gw'') = Inr ()" by (simp add: check_url_def sample_split_def given_def)
  have "run_cli (sample_env\<lparr>ce_net := \<lambda>q. Unreachable [], ce_stream := \<lambda>q. ([], None)\<rparr>) sample_rollback (power_on [] [])
      \<noteq> run_cli sample_env sample_rollback (power_on [] [])"
    using yes secure
    by (simp add: sample_rollback_def sample_env_def run_remote_def bind_io_def confirm_def client_request_def json_limit_def given_def)
  from nothing_sent_without_consent [OF this] show ?thesis
    by (simp add: sample_rollback_def mutations_def)
qed

theorem export_replaces_only_with_verified_witness:
  "map_of (mc_disk (snd (run_cli sample_env sample_export (power_on [(''out'', ''old'')] [])))) ''out'' = Some ''row1row2''"
proof -
  let ?run = "run_cli sample_env sample_export (power_on [(''out'', ''old'')] [])"
  have path: "ce_stream sample_env q = ([''row1'', ''row2''], None)" for q
    by (simp add: sample_env_def)
  have temporary: "ce_temporary sample_env ''out'' \<noteq> ''out''" by (simp add: sample_env_def)
  have command: "ca_command sample_export = AuditExport (Some 4) None ''out'' True" by (simp add: sample_export_def)
  have "\<exists>v. fst ?run = Inr v"
    by (simp add: sample_export_def sample_env_def sample_split_def run_remote_def confirm_def mutations_def check_url_def
      given_def cli_export_def atomic_output_def existing_def fill_temporary_def finally_io_def bind_io_def effect_def rename_def
      append_to_def)
  then obtain v M where run: "?run = (Inr v, M)" by (metis prod.collapse)
  from export_replaces_only_with_verified [OF temporary command path run] show ?thesis unfolding run by auto
qed

end
