(* ===== verification/EnvFile.thy ===== *)
theory EnvFile
  imports PolicyEngine
begin

text \<open>
  The environment files of a deployment: how \<open>services/doctor.py\<close> reads them and changes
  one of their keys, and how \<open>services/quickstart.py\<close> writes them. Files hold text of code
  points below 256.
\<close>

section \<open>Lines\<close>

text \<open>Text mode reads every line ending as a newline; \<open>str.splitlines\<close> knows more endings.\<close>

function py_newlines :: "string \<Rightarrow> string" where
  "py_newlines [] = []"
| "py_newlines (c # cs) =
     (if c = CHR 0x0D then CHR 0x0A # py_newlines (if take 1 cs = [CHR 0x0A] then drop 1 cs else cs)
      else c # py_newlines cs)"
  by pat_completeness auto
termination
  by (relation "measure length") auto

definition line_break :: "char \<Rightarrow> bool" where
  "line_break c \<longleftrightarrow> c \<in> {CHR 0x0A, CHR 0x0B, CHR 0x0C, CHR 0x0D, CHR 0x1C, CHR 0x1D, CHR 0x1E, CHR 0x85}"

function lines_keep :: "string \<Rightarrow> string list" where
  "lines_keep [] = []"
| "lines_keep (c # cs) =
     (if c = CHR 0x0D \<and> take 1 cs = [CHR 0x0A] then (c # take 1 cs) # lines_keep (drop 1 cs)
      else if line_break c then [c] # lines_keep cs
      else (case lines_keep cs of [] \<Rightarrow> [[c]] | l # ls \<Rightarrow> (c # l) # ls))"
  by pat_completeness auto
termination
  by (relation "measure length") auto

definition chomp :: "string \<Rightarrow> string" where
  "chomp l = takeWhile (\<lambda>c. \<not> line_break c) l"

definition split_lines :: "string \<Rightarrow> string list" where
  "split_lines s = map chomp (lines_keep s)"

section \<open>Reading and changing a file\<close>

text \<open>\<open>s.replace(sub, new)\<close> for a non-empty \<open>sub\<close>.\<close>

function replace_all :: "string \<Rightarrow> string \<Rightarrow> string \<Rightarrow> string" where
  "replace_all sub new [] = []"
| "replace_all sub new (c # cs) =
     (if prefix sub (c # cs) then new @ replace_all sub new (drop (length sub - 1) cs)
      else c # replace_all sub new cs)"
  by pat_completeness auto
termination
  by (relation "measure (\<lambda>(sub, new, s). length s)") auto

text \<open>\<open>_ENV_ASSIGNMENT\<close>: a name, \<open>=\<close>, and anything but a newline.\<close>

definition env_name :: "string \<Rightarrow> bool" where
  "env_name s \<longleftrightarrow>
     (case s of [] \<Rightarrow> False | c # cs \<Rightarrow> alpha_us c \<and> list_all (\<lambda>c. alpha_us c \<or> digit_char_p c) cs)"

definition assignment :: "string \<Rightarrow> (string \<times> string) option" where
  "assignment s =
     (let name = takeWhile (\<lambda>c. c \<noteq> CHR ''='') s; rest = drop (length name) s
      in if rest = [] \<or> \<not> env_name name \<or> CHR 0x0A \<in> set rest then None else Some (name, tl rest))"

definition quoted_by :: "char \<Rightarrow> string \<Rightarrow> bool" where
  "quoted_by q s \<longleftrightarrow> length s \<ge> 2 \<and> hd s = q \<and> last s = q"

definition decode_env :: "(string \<Rightarrow> json option) \<Rightarrow> string \<Rightarrow> string res" where
  "decode_env loads raw =
     (let value = py_strip raw
      in if quoted_by CHR 0x27 value
         then Inr (replace_all [CHR 0x5C, CHR 0x5C] [CHR 0x5C]
                (replace_all [CHR 0x5C, CHR 0x27] [CHR 0x27] (butlast (tl value))))
         else if quoted_by CHR 0x22 value
         then (case loads value of
                 None \<Rightarrow> Inl (DoctorError ''invalid double-quoted environment value'')
               | Some (JStr s) \<Rightarrow> Inr s
               | Some v \<Rightarrow> Inl (DoctorError ''double-quoted environment value must be a string''))
         else Inr value)"

type_synonym env_values = "(string \<times> string) list"

text \<open>\<open>_env_file\<close>: the values, and the keys assigned more than once.\<close>

fun env_parse ::
  "(string \<Rightarrow> json option) \<Rightarrow> string list \<Rightarrow> env_values \<Rightarrow> string list \<Rightarrow> (env_values \<times> string list) res" where
  "env_parse loads [] values duplicates = Inr (values, duplicates)"
| "env_parse loads (l # ls) values duplicates =
     (let stripped = py_strip l
      in if stripped = [] \<or> prefix ''#'' stripped then env_parse loads ls values duplicates
         else (case assignment stripped of
                 None \<Rightarrow> Inl (DoctorError ''not a KEY=VALUE assignment'')
               | Some (key, raw_value) \<Rightarrow>
                   bind_res (decode_env loads raw_value) (\<lambda>value.
                     env_parse loads ls (al_put key value values)
                       (if key \<in> fst ` set values then List.insert key duplicates else duplicates))))"

definition env_file :: "(string \<Rightarrow> json option) \<Rightarrow> string \<Rightarrow> (env_values \<times> string list) res" where
  "env_file loads content = env_parse loads (split_lines (py_newlines content)) [] []"

text \<open>\<open>_atomic_env_update\<close>: the new content of the file.\<close>

definition assigns :: "string \<Rightarrow> string \<Rightarrow> bool" where
  "assigns key l \<longleftrightarrow> (case assignment (py_strip l) of None \<Rightarrow> False | Some (k, raw_value) \<Rightarrow> k = key)"

definition finish_line :: "string list \<Rightarrow> string list" where
  "finish_line ls =
     (if ls \<noteq> [] \<and> \<not> suffix [CHR 0x0A] (last ls) \<and> \<not> suffix [CHR 0x0D] (last ls)
      then butlast ls @ [last ls @ [CHR 0x0A]] else ls)"

definition env_updated :: "string \<Rightarrow> string \<Rightarrow> string \<Rightarrow> string res" where
  "env_updated content key value =
     (let ls = lines_keep (py_newlines content);
          indexes = filter (\<lambda>i. assigns key (ls ! i)) [0..<length ls];
          replacement = key @ ''='' @ value @ [CHR 0x0A]
      in case indexes of
           [] \<Rightarrow> Inr (concat (finish_line ls @ [replacement]))
         | [i] \<Rightarrow> Inr (concat (ls[i := replacement]))
         | _ \<Rightarrow> Inl (DoctorError (''duplicate '' @ key @ '' assignments'')))"

text \<open>\<open>_env_value\<close> of \<open>quickstart.py\<close>, and the file it writes.\<close>

definition env_value :: "string \<Rightarrow> string res" where
  "env_value v =
     (if CHR 0x00 \<in> set v \<or> CHR 0x0A \<in> set v \<or> CHR 0x0D \<in> set v
      then Inl (QuickstartUsageError ''generated environment values must not contain NUL or newlines'')
      else Inr ([CHR 0x27] @ replace_all [CHR 0x27] [CHR 0x5C, CHR 0x27]
             (replace_all [CHR 0x5C] [CHR 0x5C, CHR 0x5C] v) @ [CHR 0x27]))"

fun env_text :: "env_values \<Rightarrow> string res" where
  "env_text [] = Inr []"
| "env_text ((name, v) # rest) =
     bind_res (env_value v) (\<lambda>q. bind_res (env_text rest) (\<lambda>t. Inr (name @ ''='' @ q @ [CHR 0x0A] @ t)))"

section \<open>Lines and their text\<close>

lemma newlines_no_cr: "CHR 0x0D \<notin> set (py_newlines s)"
  by (induction s rule: py_newlines.induct) auto

lemma newlines_id: "CHR 0x0D \<notin> set s \<Longrightarrow> py_newlines s = s"
  by (induction s rule: py_newlines.induct) auto

lemma lines_Cons:
  "c \<noteq> CHR 0x0D \<Longrightarrow> lines_keep (c # cs) =
     (if line_break c then [c] # lines_keep cs
      else (case lines_keep cs of [] \<Rightarrow> [[c]] | l # ls \<Rightarrow> (c # l) # ls))"
  by simp

lemma lines_empty: "lines_keep s = [] \<longleftrightarrow> s = []"
  by (induction s rule: lines_keep.induct) (auto split: list.splits)

lemma concat_lines: "concat (lines_keep s) = s"
proof (induction s rule: lines_keep.induct)
  case (2 c cs)
  show ?case
  proof (cases "c = CHR 0x0D \<and> take 1 cs = [CHR 0x0A]")
    case True
    then have "take 1 cs @ drop 1 cs = cs" by (rule_tac append_take_drop_id)
    with True 2(1) show ?thesis by simp
  qed (use 2 in \<open>auto simp: lines_empty split: list.splits\<close>)
qed simp

text \<open>A whole line ends in a line break, its only one.\<close>

definition whole_line :: "string \<Rightarrow> bool" where
  "whole_line l \<longleftrightarrow>
     (\<exists>b c. l = b @ [c] \<and> line_break c \<and> c \<noteq> CHR 0x0D \<and> (\<forall>x \<in> set b. \<not> line_break x))"

definition open_line :: "string \<Rightarrow> bool" where
  "open_line l \<longleftrightarrow> (\<forall>x \<in> set l. \<not> line_break x)"

lemma cr_breaks: "\<not> line_break x \<Longrightarrow> x \<noteq> CHR 0x0D"
  by (auto simp: line_break_def)

lemma lines_open: "open_line b \<Longrightarrow> b \<noteq> [] \<Longrightarrow> lines_keep b = [b]"
proof (induction b)
  case (Cons c b)
  then show ?case
    by (cases b) (auto simp: open_line_def lines_Cons cr_breaks simp del: lines_keep.simps(2))
qed simp

lemma lines_whole: "whole_line l \<Longrightarrow> lines_keep (l @ t) = l # lines_keep t"
proof -
  have "lines_keep ((b @ [c]) @ t) = (b @ [c]) # lines_keep t"
    if "line_break c" "c \<noteq> CHR 0x0D" "\<forall>x \<in> set b. \<not> line_break x" for b c
    using that(3)
  proof (induction b)
    case Nil
    then show ?case using that by (simp add: lines_Cons del: lines_keep.simps(2))
  next
    case (Cons x b)
    then show ?case by (simp add: lines_Cons cr_breaks del: lines_keep.simps(2))
  qed
  then show "whole_line l \<Longrightarrow> lines_keep (l @ t) = l # lines_keep t" by (auto simp: whole_line_def)
qed

lemma lines_wholes: "\<forall>l \<in> set ls. whole_line l \<Longrightarrow> lines_keep (concat ls @ t) = ls @ lines_keep t"
  by (induction ls) (simp_all add: lines_whole)

lemma whole_line_Cons: "whole_line l \<Longrightarrow> \<not> line_break c \<Longrightarrow> whole_line (c # l)"
  unfolding whole_line_def by (metis append_Cons set_ConsD)

lemma lines_shape:
  "CHR 0x0D \<notin> set s \<Longrightarrow>
     (\<forall>l \<in> set (butlast (lines_keep s)). whole_line l) \<and> (\<forall>l \<in> set (lines_keep s). whole_line l \<or> open_line l)"
proof (induction s)
  case (Cons c s)
  then have c: "c \<noteq> CHR 0x0D" and IH: "\<forall>l \<in> set (butlast (lines_keep s)). whole_line l"
    "\<forall>l \<in> set (lines_keep s). whole_line l \<or> open_line l" by auto
  show ?case
  proof (cases "line_break c")
    case True
    then have "whole_line [c]" using c by (auto simp: whole_line_def)
    with True c IH show ?thesis by (simp add: lines_Cons del: lines_keep.simps(2))
  next
    case False
    show ?thesis
    proof (cases "lines_keep s")
      case Nil
      with False c show ?thesis by (simp add: lines_Cons open_line_def del: lines_keep.simps(2))
    next
      case ls: (Cons l ls)
      have "whole_line (c # l) \<or> open_line (c # l)"
        using IH(2) ls False by (auto simp: open_line_def intro: whole_line_Cons)
      moreover have "whole_line (c # l)" if "ls \<noteq> []"
        using IH(1) ls False that by (auto intro: whole_line_Cons)
      ultimately show ?thesis using ls False c IH by (auto simp: lines_Cons simp del: lines_keep.simps(2))
    qed
  qed
qed simp

lemma breaks_are_space: "line_break c \<Longrightarrow> py_space c"
  by (auto simp: line_break_def py_space_def)

lemma strip_snoc: "py_space c \<Longrightarrow> py_strip (b @ [c]) = py_strip b"
proof -
  assume c: "py_space c"
  show ?thesis
  proof (cases "\<forall>x \<in> set b. py_space x")
    case True
    then have "dropWhile py_space b = []" by (induction b) simp_all
    moreover have "dropWhile py_space (b @ [c]) = []" using True c by (induction b) simp_all
    ultimately show ?thesis by (simp only: py_strip_def)
  next
    case False
    then have "dropWhile py_space (b @ [c]) = dropWhile py_space b @ [c]" by (auto simp: dropWhile_append1)
    with c show ?thesis by (simp add: py_strip_def)
  qed
qed

lemma chomp_open: "open_line l \<Longrightarrow> chomp l = l"
  by (simp add: chomp_def open_line_def)

lemma chomp_whole: "line_break c \<Longrightarrow> open_line b \<Longrightarrow> chomp (b @ [c]) = b"
  by (simp add: chomp_def open_line_def)

lemma strip_chomp: "whole_line l \<or> open_line l \<Longrightarrow> py_strip (chomp l) = py_strip l"
proof (elim disjE)
  assume "whole_line l"
  then obtain b c where l: "l = b @ [c]" "line_break c" "open_line b" by (auto simp: whole_line_def open_line_def)
  then show ?thesis by (simp add: chomp_whole strip_snoc breaks_are_space)
qed (simp add: chomp_open)

section \<open>What a file assigns\<close>

definition line_item :: "(string \<Rightarrow> json option) \<Rightarrow> string \<Rightarrow> env_values res" where
  "line_item loads l =
     (let stripped = py_strip l
      in if stripped = [] \<or> prefix ''#'' stripped then Inr []
         else (case assignment stripped of
                 None \<Rightarrow> Inl (DoctorError ''not a KEY=VALUE assignment'')
               | Some (key, raw_value) \<Rightarrow> bind_res (decode_env loads raw_value) (\<lambda>value. Inr [(key, value)])))"

fun env_items :: "(string \<Rightarrow> json option) \<Rightarrow> string list \<Rightarrow> env_values res" where
  "env_items loads [] = Inr []"
| "env_items loads (l # ls) =
     bind_res (line_item loads l) (\<lambda>x. bind_res (env_items loads ls) (\<lambda>ps. Inr (x @ ps)))"

fun repeated :: "string set \<Rightarrow> string list \<Rightarrow> string list \<Rightarrow> string list" where
  "repeated seen duplicates [] = duplicates"
| "repeated seen duplicates (k # ks) =
     repeated (insert k seen) (if k \<in> seen then List.insert k duplicates else duplicates) ks"

lemma env_parse_items:
  "env_parse loads ls vs dups = bind_res (env_items loads ls) (\<lambda>ps.
     Inr (foldl (\<lambda>d (k, v). al_put k v d) vs ps, repeated (fst ` set vs) dups (map fst ps)))"
proof (induction loads ls vs dups rule: env_parse.induct)
  case (2 loads l ls vs dups)
  show ?case
  proof (cases "py_strip l = [] \<or> prefix ''#'' (py_strip l)")
    case True
    have "bind_res (env_items loads ls) Inr = env_items loads ls" by (cases "env_items loads ls") simp_all
    with True 2(1) [OF refl True] show ?thesis by (simp add: line_item_def)
  next
    case False
    show ?thesis
    proof (cases "assignment (py_strip l)")
      case None
      with False show ?thesis by (simp add: line_item_def)
    next
      case (Some kr)
      obtain key raw_value where kr: "kr = (key, raw_value)" by force
      show ?thesis
      proof (cases "decode_env loads raw_value")
        case (Inl e)
        with False Some kr show ?thesis by (simp add: line_item_def)
      next
        case (Inr val)
        note IH = 2(2) [OF refl False Some kr [symmetric], of val]
        show ?thesis using False Some kr Inr IH
          by (cases "env_items loads ls") (simp_all add: line_item_def keys_al_put Let_def)
      qed
    qed
  qed
qed simp

definition content_items :: "(string \<Rightarrow> json option) \<Rightarrow> string \<Rightarrow> env_values res" where
  "content_items loads s = env_items loads (lines_keep s)"

lemma items_chomp:
  "\<forall>l \<in> set ls. whole_line l \<or> open_line l \<Longrightarrow> env_items loads (map chomp ls) = env_items loads ls"
  by (induction ls) (simp_all add: line_item_def strip_chomp)

lemma env_file_items:
  "env_file loads content = bind_res (content_items loads (py_newlines content)) (\<lambda>ps.
     Inr (dict_of ps, repeated {} [] (map fst ps)))"
  using lines_shape [OF newlines_no_cr, of content]
  by (simp add: env_file_def env_parse_items split_lines_def content_items_def items_chomp dict_of_def)

lemma env_items_append:
  "env_items loads (xs @ ys) = bind_res (env_items loads xs) (\<lambda>a. bind_res (env_items loads ys) (\<lambda>b. Inr (a @ b)))"
proof (induction xs)
  case (Cons x xs)
  then show ?case
    by (cases "line_item loads x"; cases "env_items loads xs"; cases "env_items loads ys") simp_all
qed (cases "env_items loads ys"; simp)

lemma env_items_append_Inr:
  "env_items loads (xs @ ys) = Inr ps \<longleftrightarrow>
     (\<exists>a b. env_items loads xs = Inr a \<and> env_items loads ys = Inr b \<and> ps = a @ b)"
  by (auto simp: env_items_append bind_res_Inr_iff)

lemma not_comment: "assignment s = Some (k, v) \<Longrightarrow> s \<noteq> [] \<and> \<not> prefix ''#'' s"
  by (cases s) (auto simp: assignment_def env_name_def alpha_us_def Let_def split: if_splits list.splits)

lemma line_item_key:
  assumes "line_item loads l = Inr x"
  shows "assigns key l \<Longrightarrow> \<exists>v. x = [(key, v)]" and "\<not> assigns key l \<Longrightarrow> key \<notin> fst ` set x"
  using assms not_comment [of "py_strip l"]
  by (auto simp: line_item_def assigns_def Let_def bind_res_Inr_iff split: if_splits option.splits)

lemma items_without_key:
  "env_items loads ls = Inr ps \<Longrightarrow> \<forall>l \<in> set ls. \<not> assigns key l \<Longrightarrow> key \<notin> fst ` set ps"
proof (induction ls arbitrary: ps)
  case (Cons l ls)
  then obtain x qs where "line_item loads l = Inr x" "env_items loads ls = Inr qs" "ps = x @ qs"
    by (auto simp: bind_res_Inr_iff)
  with Cons line_item_key(2) [of loads l x key] show ?case by auto
qed simp

section \<open>An update sets one key\<close>

text \<open>The values that are written: namespaces and group ids.\<close>

definition plain_char :: "char \<Rightarrow> bool" where
  "plain_char c \<longleftrightarrow>
     (let n = (of_char c :: nat)
      in (48 \<le> n \<and> n \<le> 57) \<or> (97 \<le> n \<and> n \<le> 122) \<or> n \<in> {45, 178, 179, 185})"

definition plain_value :: "string \<Rightarrow> bool" where
  "plain_value v \<longleftrightarrow> v \<noteq> [] \<and> (\<forall>c \<in> set v. plain_char c)"

lemma plain_char_safe:
  "plain_char c \<Longrightarrow> \<not> py_space c \<and> \<not> line_break c \<and> c \<noteq> CHR 0x27 \<and> c \<noteq> CHR 0x22"
  using breaks_are_space [of c] by (auto simp: plain_char_def py_space_def Let_def)

lemma name_char_safe:
  "alpha_us c \<or> digit_char_p c \<Longrightarrow> \<not> py_space c \<and> \<not> line_break c \<and> c \<noteq> CHR ''=''"
  using breaks_are_space [of c] by (auto simp: alpha_us_def digit_char_p_def py_space_def Let_def)

lemma env_name_chars: "env_name s \<Longrightarrow> s \<noteq> [] \<and> (\<forall>c \<in> set s. alpha_us c \<or> digit_char_p c)"
  by (auto simp: env_name_def list_all_iff split: list.splits)

lemma strip_id: "s \<noteq> [] \<Longrightarrow> \<not> py_space (hd s) \<Longrightarrow> \<not> py_space (last s) \<Longrightarrow> py_strip s = s"
proof -
  assume s: "s \<noteq> []" "\<not> py_space (hd s)" "\<not> py_space (last s)"
  then have "dropWhile py_space s = s" by (cases s) simp_all
  moreover have "dropWhile py_space (rev s) = rev s" using s by (cases s rule: rev_cases) simp_all
  ultimately show ?thesis by (simp add: py_strip_def)
qed

lemma assignment_of:
  assumes "env_name key" and "CHR 0x0A \<notin> set r"
  shows "assignment (key @ ''='' @ r) = Some (key, r)"
proof -
  have "\<forall>c \<in> set key. c \<noteq> CHR ''=''" using env_name_chars [OF assms(1)] name_char_safe by blast
  then have "takeWhile (\<lambda>c. c \<noteq> CHR ''='') (key @ ''='' @ r) = key" by (simp add: takeWhile_append)
  with assms show ?thesis by (simp add: assignment_def Let_def)
qed

lemma decode_plain: "plain_value v \<Longrightarrow> decode_env loads v = Inr v"
proof -
  assume v: "plain_value v"
  then have "hd v \<in> set v" "last v \<in> set v" by (simp_all add: plain_value_def)
  then have "plain_char (hd v)" "plain_char (last v)" using v by (simp_all add: plain_value_def)
  then have "py_strip v = v" "hd v \<noteq> CHR 0x27" "hd v \<noteq> CHR 0x22"
    using v plain_char_safe strip_id [of v] by (auto simp: plain_value_def)
  then show ?thesis by (simp add: decode_env_def quoted_by_def)
qed

lemma replacement_line:
  assumes "env_name key" and "plain_value v"
  shows "whole_line (key @ ''='' @ v @ [CHR 0x0A])"
    and "line_item loads (key @ ''='' @ v @ [CHR 0x0A]) = Inr [(key, v)]"
proof -
  have chars: "\<forall>c \<in> set key. \<not> py_space c \<and> \<not> line_break c" "\<forall>c \<in> set v. \<not> py_space c \<and> \<not> line_break c"
    using env_name_chars [OF assms(1)] name_char_safe assms(2) plain_char_safe by (auto simp: plain_value_def)
  have line: "key @ ''='' @ v @ [CHR 0x0A] = (key @ ''='' @ v) @ [CHR 0x0A]" by simp
  have eq: "\<not> line_break CHR ''=''" "line_break CHR 0x0A" "py_space CHR 0x0A" by code_simp+
  show "whole_line (key @ ''='' @ v @ [CHR 0x0A])"
    unfolding whole_line_def line using chars eq by (intro exI conjI) auto
  have ne: "key \<noteq> []" "v \<noteq> []" using env_name_chars [OF assms(1)] assms(2) by (auto simp: plain_value_def)
  then have "hd (key @ ''='' @ v) \<in> set key" "last (key @ ''='' @ v) \<in> set v" by simp_all
  then have "py_strip (key @ ''='' @ v) = key @ ''='' @ v" using chars by (intro strip_id) auto
  then have stripped: "py_strip (key @ ''='' @ v @ [CHR 0x0A]) = key @ ''='' @ v"
    using strip_snoc [OF eq(3), of "key @ ''='' @ v"] by (simp only: line)
  have "CHR 0x0A \<notin> set v" using chars(2) eq(2) by blast
  note item = assignment_of [OF assms(1) this]
  show "line_item loads (key @ ''='' @ v @ [CHR 0x0A]) = Inr [(key, v)]"
    using not_comment [OF item] item
    by (simp add: line_item_def stripped decode_plain [OF assms(2)] del: append.simps)
qed

lemma strip_lf: "py_strip (l @ [CHR 0x0A]) = py_strip l"
  by (rule strip_snoc) code_simp

lemma item_lf: "line_item loads (l @ [CHR 0x0A]) = line_item loads l"
  by (simp add: line_item_def strip_lf)

lemma item_blank: "line_item loads [CHR 0x0A] = Inr []"
  using item_lf [of loads "[]"] by (simp add: line_item_def py_strip_def)

lemma lf_line_break: "line_break CHR 0x0A"
  by (simp add: line_break_def)

text \<open>Ending the last line changes nothing that is read.\<close>

lemma finish_items:
  assumes "CHR 0x0D \<notin> set s"
  shows "content_items loads (concat (finish_line (lines_keep s)) @ t) =
    bind_res (content_items loads s) (\<lambda>a. bind_res (content_items loads t) (\<lambda>b. Inr (a @ b)))"
proof -
  let ?ls = "lines_keep s"
  note shape = lines_shape [OF assms]
  have same: "env_items loads (xs @ ys) = bind_res (env_items loads ?ls) (\<lambda>a. bind_res (env_items loads ys) (\<lambda>b. Inr (a @ b)))"
    if "env_items loads xs = env_items loads ?ls" for xs ys using that by (simp add: env_items_append)
  show ?thesis
  proof (cases "?ls = []")
    case True
    have "bind_res (env_items loads (lines_keep t)) Inr = env_items loads (lines_keep t)"
      by (cases "env_items loads (lines_keep t)") simp_all
    with True show ?thesis by (simp add: finish_line_def content_items_def)
  next
    case False
    define l where "l = last ?ls"
    have ls: "?ls = butlast ?ls @ [l]" using False by (simp add: l_def)
    have l: "whole_line l \<or> open_line l" using shape False by (simp add: l_def)
    have not_cr: "\<not> suffix [CHR 0x0D] l"
      using assms concat_lines [of s] False unfolding l_def by (metis concat.simps(1) concat.simps(2) concat_append
        in_set_conv_decomp list.set_intros(1) suffix_def append_butlast_last_id Un_iff set_append)
    show ?thesis
    proof (cases "suffix [CHR 0x0A] l")
      case True
      then have "whole_line l" using l lf_line_break by (auto simp: suffix_def open_line_def)
      with shape ls have "\<forall>l \<in> set ?ls. whole_line l" by (metis Un_iff empty_iff empty_set set_ConsD set_append)
      with True show ?thesis by (simp add: finish_line_def l_def [symmetric] content_items_def lines_wholes env_items_append)
    next
      case noeol: False
      have finish: "concat (finish_line ?ls) @ t = concat (butlast ?ls) @ (l @ [CHR 0x0A]) @ t"
        using False noeol not_cr by (simp add: finish_line_def l_def)
      have "lines_keep ((l @ [CHR 0x0A]) @ t) = (if whole_line l then [l, [CHR 0x0A]] else [l @ [CHR 0x0A]]) @ lines_keep t"
      proof (cases "whole_line l")
        case True
        have "whole_line [CHR 0x0A]" using lf_line_break by (auto simp: whole_line_def)
        with True show ?thesis using lines_whole [of l] lines_whole [of "[CHR 0x0A]" t] by simp
      next
        case False
        with l have "whole_line (l @ [CHR 0x0A])" using lf_line_break unfolding whole_line_def open_line_def by blast
        with False show ?thesis by (simp only: lines_whole) simp
      qed
      then have "lines_keep (concat (finish_line ?ls) @ t) =
          (butlast ?ls @ (if whole_line l then [l, [CHR 0x0A]] else [l @ [CHR 0x0A]])) @ lines_keep t"
        unfolding finish using lines_wholes [of "butlast ?ls"] shape by simp
      moreover have "env_items loads (butlast ?ls @ (if whole_line l then [l, [CHR 0x0A]] else [l @ [CHR 0x0A]])) =
          env_items loads ?ls"
        unfolding arg_cong [OF ls, of "env_items loads"] by (simp add: env_items_append item_lf item_blank)
      ultimately show ?thesis using same by (simp only: content_items_def)
    qed
  qed
qed

lemma no_cr_key: "env_name key \<Longrightarrow> plain_value v \<Longrightarrow> CHR 0x0D \<notin> set (key @ ''='' @ v @ [CHR 0x0A])"
  using env_name_chars [of key] name_char_safe plain_char_safe by (auto simp: plain_value_def line_break_def)

text \<open>Replacing a line.\<close>

lemma replaced_lines:
  assumes "CHR 0x0D \<notin> set s" and "i < length (lines_keep s)" and "whole_line r"
  shows "lines_keep (concat ((lines_keep s)[i := r])) = (lines_keep s)[i := r]"
proof -
  let ?ls = "lines_keep s"
  have "take i ?ls = take i (butlast ?ls)" using assms(2) by (simp add: take_butlast)
  then have first: "\<forall>l \<in> set (take i ?ls). whole_line l"
    using lines_shape [OF assms(1)] by (metis in_set_takeD)
  have rest: "lines_keep (concat (drop (Suc i) ?ls)) = drop (Suc i) ?ls"
  proof (cases "Suc i < length ?ls")
    case True
    then have "take (Suc i) ?ls = take (Suc i) (butlast ?ls)" by (simp add: take_butlast)
    then have "\<forall>l \<in> set (take (Suc i) ?ls). whole_line l"
      using lines_shape [OF assms(1)] by (metis in_set_takeD)
    then have "lines_keep (concat (take (Suc i) ?ls) @ concat (drop (Suc i) ?ls)) =
        take (Suc i) ?ls @ lines_keep (concat (drop (Suc i) ?ls))" by (rule lines_wholes)
    moreover have "concat (take (Suc i) ?ls) @ concat (drop (Suc i) ?ls) = s"
      by (metis append_take_drop_id concat_append concat_lines)
    ultimately show ?thesis by (metis append_take_drop_id same_append_eq)
  qed simp
  have "concat (?ls[i := r]) = concat (take i ?ls) @ r @ concat (drop (Suc i) ?ls)"
    using assms(2) by (simp add: upd_conv_take_nth_drop)
  then show ?thesis
    using assms(2) by (simp only: lines_wholes [OF first] lines_whole [OF assms(3)] rest) (simp add: upd_conv_take_nth_drop)
qed

lemma env_update_one_key:
  assumes "env_file loads content = Inr (vs, twice)" and "env_updated content key new = Inr content'"
    and "env_name key" and "plain_value new"
  shows "\<exists>vs'. env_file loads content' = Inr (vs', twice) \<and> map_of vs' = (map_of vs)(key \<mapsto> new) \<and>
    (map_of vs key = None \<longrightarrow> vs' = vs @ [(key, new)])"
proof -
  define s where "s = py_newlines content"
  let ?ls = "lines_keep s" and ?r = "key @ ''='' @ new @ [CHR 0x0A]"
  have cr: "CHR 0x0D \<notin> set s" by (simp add: s_def newlines_no_cr)
  note r = replacement_line [OF assms(3,4)]
  obtain ps where ps: "env_items loads ?ls = Inr ps" and vs: "vs = dict_of ps"
    and twice: "twice = repeated {} [] (map fst ps)"
    using assms(1) by (auto simp: env_file_items s_def [symmetric] content_items_def bind_res_Inr_iff)
  have reads: "env_file loads u = Inr (dict_of qs, repeated {} [] (map fst qs))"
    if "CHR 0x0D \<notin> set u" "env_items loads (lines_keep u) = Inr qs" for u qs
    using that by (simp add: env_file_items newlines_id content_items_def)
  let ?at = "filter (\<lambda>i. assigns key (?ls ! i)) [0..<length ?ls]"
  have chars: "CHR 0x0D \<notin> set (concat ?ls)" using cr by (simp add: concat_lines)
  consider (none) "?at = []" | (one) i where "?at = [i]"
    using assms(2) by (auto simp: env_updated_def Let_def s_def [symmetric] split: list.splits)
  then show ?thesis
  proof cases
    case none
    then have content': "content' = concat (finish_line ?ls) @ ?r"
      using assms(2) by (simp add: env_updated_def Let_def s_def [symmetric])
    have "\<forall>l \<in> set ?ls. \<not> assigns key l" using none by (auto simp: filter_empty_conv in_set_conv_nth)
    then have new: "key \<notin> fst ` set ps" using items_without_key [OF ps] by blast
    have "lines_keep ?r = [?r]" using lines_whole [OF r(1), of "[]"] by simp
    then have "content_items loads ?r = Inr [(key, new)]" using r(2) by (simp add: content_items_def)
    then have items: "env_items loads (lines_keep content') = Inr (ps @ [(key, new)])"
      using finish_items [OF cr, of loads ?r] ps unfolding content' content_items_def by simp
    have "set (concat (finish_line ?ls)) \<subseteq> insert CHR 0x0A (set (concat ?ls))"
      by (cases ?ls rule: rev_cases) (auto simp: finish_line_def)
    then have "CHR 0x0D \<notin> set content'" using chars no_cr_key [OF assms(3,4)] unfolding content' by auto
    note reading = reads [OF this items]
    have no_repeat: "repeated seen d (ks @ [k]) = repeated seen d ks" if "k \<notin> seen \<union> set ks" for seen d ks k
      using that by (induction ks arbitrary: seen d) auto
    have "key \<notin> set (map fst ps)" using new by simp
    then have "repeated {} [] (map fst (ps @ [(key, new)])) = twice"
      using no_repeat [of key "{}" "map fst ps" "[]"] by (simp add: twice)
    moreover have "al_put key new d = d @ [(key, new)]" if "key \<notin> fst ` set d" for d
      using that by (induction key new d rule: al_put.induct) auto
    moreover have fresh: "key \<notin> fst ` set vs" using new set_dict_of unfolding vs by (metis (no_types, lifting) image_iff)
    ultimately have "env_file loads content' = Inr (vs @ [(key, new)], twice)"
      using reading by (simp add: vs dict_of_def)
    moreover have "map_of (vs @ [(key, new)]) = (map_of vs)(key \<mapsto> new)"
    proof -
      have "map_of vs key = None" using fresh by (simp add: map_of_eq_None_iff)
      then show ?thesis by (auto simp: fun_eq_iff map_add_def split: option.splits)
    qed
    ultimately show ?thesis by blast
  next
    case (one i)
    then have i: "i < length ?ls" "assigns key (?ls ! i)"
      using filter_set [of "\<lambda>i. assigns key (?ls ! i)" "[0..<length ?ls]"] by (auto simp: set_eq_iff)
    have content': "content' = concat (?ls[i := ?r])"
      using one assms(2) by (simp add: env_updated_def Let_def s_def [symmetric])
    have split: "?ls = take i ?ls @ ?ls ! i # drop (Suc i) ?ls" using i(1) by (simp add: id_take_nth_drop)
    have others: "\<not> assigns key (?ls ! j)" if "j < length ?ls" "j \<noteq> i" for j
    proof
      assume "assigns key (?ls ! j)"
      then have "j \<in> set ?at" using that by simp
      with one that show False by simp
    qed
    have "\<forall>l \<in> set (take i ?ls). \<not> assigns key l" "\<forall>l \<in> set (drop (Suc i) ?ls). \<not> assigns key l"
      using others i(1) by (auto simp: in_set_conv_nth)
    note clear = this
    obtain p1 x p2 where p: "env_items loads (take i ?ls) = Inr p1" "line_item loads (?ls ! i) = Inr x"
        "env_items loads (drop (Suc i) ?ls) = Inr p2" "ps = p1 @ x @ p2"
      using ps by (subst (asm) split) (auto simp: env_items_append_Inr bind_res_Inr_iff)
    obtain old where x: "x = [(key, old)]" using line_item_key(1) [OF p(2) i(2)] by blast
    have gone: "key \<notin> fst ` set p1" "key \<notin> fst ` set p2" using items_without_key p(1,3) clear by blast+
    have "env_items loads (?ls[i := ?r]) = Inr (p1 @ [(key, new)] @ p2)"
      using i(1) p r(2) by (simp add: upd_conv_take_nth_drop env_items_append del: append.simps)
    then have items: "env_items loads (lines_keep content') = Inr (p1 @ [(key, new)] @ p2)"
      unfolding content' by (simp only: replaced_lines [OF cr i(1) r(1)])
    have "set (concat (?ls[i := ?r])) \<subseteq> set ?r \<union> set (concat ?ls)"
      using set_update_subset_insert [of ?ls i ?r] by fastforce
    then have "CHR 0x0D \<notin> set content'" using chars no_cr_key [OF assms(3,4)] unfolding content' by blast
    note reading = reads [OF this items]
    have "map_of p2 key = None" "map_of (rev p2) key = None"
      using gone(2) by (simp_all add: map_of_eq_None_iff)
    then have "map_of (dict_of (p1 @ [(key, new)] @ p2)) = (map_of vs)(key \<mapsto> new)"
      by (auto simp: vs p(4) x map_of_dict_of fun_eq_iff map_add_def split: option.splits)
    moreover have "map_of vs key = Some old"
      using \<open>map_of (rev p2) key = None\<close> by (simp add: vs p(4) x map_of_dict_of map_add_def)
    ultimately show ?thesis using reading by (simp add: twice p(4) x)
  qed
qed

text \<open>
  An update of an environment file sets one key. When the file can be read and the
  update does not refuse it (it refuses a key assigned twice), the new file can be read:
  the key has the new value, every other key the value it had, the keys that are assigned
  twice are the same, and a new key comes last.
\<close>

theorem env_update_sets_one_key:
  assumes "env_file loads content = Inr (vs, twice)" and "env_updated content key new = Inr content'"
    and "env_name key" and "plain_value new"
  shows "\<exists>vs'. env_file loads content' = Inr (vs', twice) \<and> map_of vs' = (map_of vs)(key \<mapsto> new) \<and>
    (map_of vs key = None \<longrightarrow> vs' = vs @ [(key, new)])"
  by (rule env_update_one_key [OF assms])

section \<open>What the quickstart writes is read back\<close>

lemma replace_char: "replace_all [q] new s = concat (map (\<lambda>c. if c = q then new else [c]) s)"
  by (induction s) auto

definition escape :: "string \<Rightarrow> string" where
  "escape v = concat (map (\<lambda>c. if c = CHR 0x5C then [CHR 0x5C, CHR 0x5C]
     else if c = CHR 0x27 then [CHR 0x5C, CHR 0x27] else [c]) v)"

lemma escape_twice:
  "replace_all [CHR 0x27] [CHR 0x5C, CHR 0x27] (replace_all [CHR 0x5C] [CHR 0x5C, CHR 0x5C] v) = escape v"
  by (induction v) (simp_all add: replace_char escape_def)

lemma escape_Cons: "escape (c # v) = (if c = CHR 0x5C then [CHR 0x5C, CHR 0x5C]
     else if c = CHR 0x27 then [CHR 0x5C, CHR 0x27] else [c]) @ escape v"
  by (simp add: escape_def)

lemma escape_no_quote: "\<not> prefix [CHR 0x27] (escape v)"
  by (cases v) (simp_all add: escape_def)

lemma unescape_quotes:
  "replace_all [CHR 0x5C, CHR 0x27] [CHR 0x27] (escape v) = replace_all [CHR 0x5C] [CHR 0x5C, CHR 0x5C] v"
proof (induction v)
  case (Cons c v)
  have "\<not> prefix [CHR 0x5C, CHR 0x27] (CHR 0x5C # escape v)" using escape_no_quote by simp
  with Cons show ?case
    by (cases "c = CHR 0x5C"; cases "c = CHR 0x27") (auto simp: escape_Cons replace_char)
qed (simp add: escape_def)

lemma unescape_slashes:
  "replace_all [CHR 0x5C, CHR 0x5C] [CHR 0x5C] (replace_all [CHR 0x5C] [CHR 0x5C, CHR 0x5C] v) = v"
  by (induction v) (auto simp: replace_char)

lemma decode_value: "env_value v = Inr q \<Longrightarrow> decode_env loads q = Inr v"
proof -
  assume "env_value v = Inr q"
  then have q: "q = [CHR 0x27] @ escape v @ [CHR 0x27]" by (simp add: env_value_def escape_twice split: if_splits)
  have "\<not> py_space CHR 0x27" by code_simp
  then have "py_strip q = q" by (intro strip_id) (simp_all add: q)
  moreover have "quoted_by CHR 0x27 q" by (simp add: quoted_by_def q)
  moreover have "butlast (tl q) = escape v" by (simp add: q)
  ultimately show ?thesis by (simp add: decode_env_def Let_def unescape_quotes unescape_slashes)
qed

lemma written_line:
  assumes "env_name name" and "env_value v = Inr q" and "open_line v"
  shows "whole_line (name @ ''='' @ q @ [CHR 0x0A])"
    and "line_item loads (name @ ''='' @ q @ [CHR 0x0A]) = Inr [(name, v)]"
    and "CHR 0x0D \<notin> set (name @ ''='' @ q @ [CHR 0x0A])"
proof -
  have q: "q = [CHR 0x27] @ escape v @ [CHR 0x27]"
    using assms(2) by (simp add: env_value_def escape_twice split: if_splits)
  have safe: "\<not> line_break CHR 0x27" "\<not> line_break CHR 0x5C" "\<not> line_break CHR ''=''" "\<not> py_space CHR 0x27"
    by code_simp+
  have name: "name \<noteq> []" "\<forall>c \<in> set name. \<not> py_space c \<and> \<not> line_break c"
    using env_name_chars [OF assms(1)] name_char_safe by auto
  have "\<forall>c \<in> set (escape v). \<not> line_break c"
    using assms(3) safe by (auto simp: escape_def open_line_def)
  then have line: "\<forall>c \<in> set (name @ ''='' @ q). \<not> line_break c" using name safe by (auto simp: q)
  then show "whole_line (name @ ''='' @ q @ [CHR 0x0A])"
    unfolding whole_line_def using lf_line_break
    by (intro exI [of _ "name @ ''='' @ q"] exI [of _ "CHR 0x0A"]) simp
  have "hd (name @ ''='' @ q) \<in> set name" "last (name @ ''='' @ q) = CHR 0x27" using name(1) by (simp_all add: q)
  then have strip: "py_strip (name @ ''='' @ q) = name @ ''='' @ q"
    using name safe(4) by (intro strip_id) auto
  have "CHR 0x0A \<notin> set q" "CHR 0x0D \<notin> set (name @ ''='' @ q)"
    using line lf_line_break by (auto simp: line_break_def)
  note item = assignment_of [OF assms(1) this(1)] and cr = this(2)
  have "py_strip (name @ ''='' @ q @ [CHR 0x0A]) = name @ ''='' @ q"
    using strip_lf [of "name @ ''='' @ q"] strip by simp
  then show "line_item loads (name @ ''='' @ q @ [CHR 0x0A]) = Inr [(name, v)]"
    using not_comment [OF item] item decode_value [OF assms(2)]
    by (simp add: line_item_def del: append.simps)
  show "CHR 0x0D \<notin> set (name @ ''='' @ q @ [CHR 0x0A])" using cr by simp
qed

lemma written_items:
  "env_text env = Inr t \<Longrightarrow> \<forall>(name, v) \<in> set env. env_name name \<and> open_line v \<Longrightarrow>
     CHR 0x0D \<notin> set t \<and> content_items loads t = Inr env"
proof (induction env arbitrary: t)
  case (Cons p env)
  obtain name v where p: "p = (name, v)" by force
  obtain q u where q: "env_value v = Inr q" "env_text env = Inr u" "t = (name @ ''='' @ q @ [CHR 0x0A]) @ u"
    using Cons.prems(1) p by (auto simp: bind_res_Inr_iff)
  note line = written_line [OF _ q(1), of name]
  have ok: "env_name name" "open_line v" using Cons.prems(2) p by auto
  have IH: "CHR 0x0D \<notin> set u" "content_items loads u = Inr env" using Cons.IH [OF q(2)] Cons.prems(2) by auto
  have "lines_keep t = (name @ ''='' @ q @ [CHR 0x0A]) # lines_keep u"
    unfolding q(3) by (rule lines_whole) (rule line(1) [OF ok])
  then show ?case using line(2,3) [OF ok] IH by (simp add: content_items_def p q(3) del: append.simps)
qed (simp add: content_items_def)

lemma written_env_read:
  assumes "env_text env = Inr content" and "distinct (map fst env)"
    and "\<forall>(name, v) \<in> set env. env_name name \<and> (\<forall>c \<in> set v. \<not> line_break c)"
  shows "env_file loads content = Inr (env, [])"
proof -
  have "\<forall>(name, v) \<in> set env. env_name name \<and> open_line v" using assms(3) by (auto simp: open_line_def)
  from written_items [OF assms(1) this] have items: "CHR 0x0D \<notin> set content" "content_items loads content = Inr env" by auto
  have same: "foldl (\<lambda>d (k, v). al_put k v d) d env' = d @ env'"
    if "distinct (map fst (d @ env'))" for d env' :: env_values
    using that
  proof (induction env' arbitrary: d)
    case (Cons p env')
    obtain k v where p: "p = (k, v)" by force
    have "al_put k v d' = d' @ [(k, v)]" if "k \<notin> fst ` set d'" for d' :: env_values
      using that by (induction k v d' rule: al_put.induct) auto
    then show ?case using Cons.IH [of "d @ [p]"] Cons.prems by (simp add: p)
  qed simp
  have "repeated seen d ks = d" if "distinct ks" "seen \<inter> set ks = {}" for seen d ks
    using that by (induction ks arbitrary: seen) auto
  then show ?thesis
    using items assms(2) same [of "[]" env] by (simp add: env_file_items newlines_id dict_of_def)
qed

text \<open>
  What the quickstart writes, the doctor reads. The environment file written for
  values without line breaks, whatever quotes, backslashes and spaces are in them, is read
  back as exactly these values, and without duplicates.
\<close>

theorem written_env_is_read_back:
  assumes "env_text env = Inr content" and "distinct (map fst env)"
    and "\<forall>(name, v) \<in> set env. env_name name \<and> (\<forall>c \<in> set v. \<not> line_break c)"
  shows "env_file loads content = Inr (env, [])"
  by (rule written_env_read [OF assms])

text \<open>
  The quickstart only rejects NUL and the two newlines; another character at which
  \<open>splitlines\<close> ends a line (here a form feed in a directory's name) makes a file that the
  doctor cannot read.
\<close>

theorem form_feed_in_path_is_unreadable:
  "(case env_text [(''CONFIG_DIR'', [CHR ''/'', CHR ''a'', CHR 0x0C, CHR ''b''])] of
      Inl e \<Rightarrow> False
    | Inr content \<Rightarrow> env_file (\<lambda>s. None) content = Inl (DoctorError ''not a KEY=VALUE assignment''))"
  by code_simp

section \<open>Examples\<close>

definition sample_file :: string where
  "sample_file = ''# settings'' @ [CHR 0x0D, CHR 0x0A] @ ''DOCKER_GID=1'' @ [CHR 0x0D, CHR 0x0A] @ ''HOST_UID=7''"

theorem env_update_sets_one_key_witness:
  "\<exists>content'. env_updated sample_file ''DOCKER_GID'' ''998'' = Inr content' \<and>
     (\<exists>vs'. env_file (\<lambda>s. None) content' = Inr (vs', []) \<and>
        map_of vs' ''DOCKER_GID'' = Some ''998'' \<and> map_of vs' ''HOST_UID'' = Some ''7'')"
proof -
  have r: "env_file (\<lambda>s. None) sample_file = Inr ([(''DOCKER_GID'', ''1''), (''HOST_UID'', ''7'')], [])" by code_simp
  obtain content' where u: "env_updated sample_file ''DOCKER_GID'' ''998'' = Inr content'"
  proof -
    have "case env_updated sample_file ''DOCKER_GID'' ''998'' of Inl e \<Rightarrow> False | Inr c \<Rightarrow> True" by code_simp
    then show ?thesis using that by (cases "env_updated sample_file ''DOCKER_GID'' ''998''") auto
  qed
  have "env_name ''DOCKER_GID''" by code_simp
  moreover have "plain_value ''998''" by code_simp
  ultimately show ?thesis using env_update_sets_one_key [OF r u] u by auto
qed

theorem written_env_is_read_back_witness:
  "\<exists>content. env_text [(''A'', [CHR 0x5C, CHR 0x27, CHR '' '', CHR 0x5C]), (''B'', [])] = Inr content \<and>
     env_file (\<lambda>s. None) content = Inr ([(''A'', [CHR 0x5C, CHR 0x27, CHR '' '', CHR 0x5C]), (''B'', [])], [])"
proof -
  let ?env = "[(''A'', [CHR 0x5C, CHR 0x27, CHR '' '', CHR 0x5C]), (''B'', [])]"
  have "case env_text ?env of Inl e \<Rightarrow> False | Inr c \<Rightarrow> True" by code_simp
  then obtain content where c: "env_text ?env = Inr content" by (cases "env_text ?env") auto
  have "list_all (\<lambda>(name, v). env_name name \<and> list_all (\<lambda>c. \<not> line_break c) v) ?env" by code_simp
  then have "\<forall>(name, v) \<in> set ?env. env_name name \<and> (\<forall>c \<in> set v. \<not> line_break c)" by (simp only: list_all_iff)
  from written_env_is_read_back [OF c _ this] show ?thesis using c by simp
qed

end
