(* ===== verification/Doctor.thy ===== *)
theory Doctor
  imports AuditKeys EnvFile
begin

text \<open>
  \<open>services/doctor.py\<close>, the checks: a scan reads a deployment's files, what docker answers
  and the host's sockets, and leaves findings and repairs. A finding is its id, its status
  and whether a repair comes with it; messages and advice are for people and left out.
  Docker, YAML, JSON texts, IP addresses, PEM keys and name resolution are fields of a
  record. A path is looked up as written, except that what is below a directory that is a
  link is looked up below the directory it points to.
\<close>

section \<open>Files\<close>

datatype kind = Regular string | Directory | Symlink string | Special

record node =
  nd_kind :: kind
  nd_mode :: nat
  nd_owner :: "int \<times> int"

type_synonym tree = "(string \<times> node) list"

text \<open>What a path leads to, through at most forty links.\<close>

fun follow_links :: "nat \<Rightarrow> tree \<Rightarrow> string \<Rightarrow> (string \<times> node) option" where
  "follow_links 0 d p = None"
| "follow_links (Suc n) d p =
     (case map_of d p of
        None \<Rightarrow> None
      | Some nd \<Rightarrow> (case nd_kind nd of Symlink t \<Rightarrow> follow_links n d t | _ \<Rightarrow> Some (p, nd)))"

definition follow :: "tree \<Rightarrow> string \<Rightarrow> (string \<times> node) option" where
  "follow = follow_links 41"

definition stat_of :: "tree \<Rightarrow> string \<Rightarrow> node option" where
  "stat_of d p = map_option snd (follow d p)"

definition exists_path :: "tree \<Rightarrow> string \<Rightarrow> bool" where
  "exists_path d p \<longleftrightarrow> stat_of d p \<noteq> None"

definition is_symlink :: "tree \<Rightarrow> string \<Rightarrow> bool" where
  "is_symlink d p \<longleftrightarrow> (\<exists>nd. map_of d p = Some nd \<and> (case nd_kind nd of Symlink t \<Rightarrow> True | _ \<Rightarrow> False))"

lemma is_symlink_code [code]:
  "is_symlink d p \<longleftrightarrow> (case map_of d p of None \<Rightarrow> False | Some nd \<Rightarrow> (case nd_kind nd of Symlink t \<Rightarrow> True | _ \<Rightarrow> False))"
  by (auto simp: is_symlink_def split: option.splits)

definition is_file :: "tree \<Rightarrow> string \<Rightarrow> bool" where
  "is_file d p \<longleftrightarrow>
     (case stat_of d p of None \<Rightarrow> False | Some nd \<Rightarrow> (case nd_kind nd of Regular s \<Rightarrow> True | _ \<Rightarrow> False))"

definition is_dir :: "tree \<Rightarrow> string \<Rightarrow> bool" where
  "is_dir d p \<longleftrightarrow> (case stat_of d p of None \<Rightarrow> False | Some nd \<Rightarrow> nd_kind nd = Directory)"

definition is_socket :: "tree \<Rightarrow> string \<Rightarrow> bool" where
  "is_socket d p \<longleftrightarrow> (case stat_of d p of None \<Rightarrow> False | Some nd \<Rightarrow> nd_kind nd = Special)"

definition mode_of :: "tree \<Rightarrow> string \<Rightarrow> nat" where
  "mode_of d p = (case stat_of d p of None \<Rightarrow> 0 | Some nd \<Rightarrow> nd_mode nd)"

definition owner_of :: "tree \<Rightarrow> string \<Rightarrow> (int \<times> int) option" where
  "owner_of d p = map_option nd_owner (stat_of d p)"

definition content_of :: "tree \<Rightarrow> string \<Rightarrow> string res" where
  "content_of d p =
     (case stat_of d p of
        None \<Rightarrow> Inl (OSError ''No such file or directory'')
      | Some nd \<Rightarrow> (case nd_kind nd of Regular s \<Rightarrow> Inr s | _ \<Rightarrow> Inl (OSError ''Is a directory'')))"

text \<open>\<open>dir / name\<close>, and \<open>dir.glob("*.pub.pem")\<close>.\<close>

definition under :: "string \<Rightarrow> string \<Rightarrow> string" where
  "under dir name = dir @ ''/'' @ name"

definition child :: "tree \<Rightarrow> string \<Rightarrow> string \<Rightarrow> string" where
  "child d dir name = under (case follow d dir of None \<Rightarrow> dir | Some (target, nd) \<Rightarrow> target) name"

definition name_in :: "string \<Rightarrow> string \<Rightarrow> string option" where
  "name_in dir p =
     (let start = dir @ ''/''; name = drop (length start) p
      in if prefix start p \<and> name \<noteq> [] \<and> CHR ''/'' \<notin> set name then Some name else None)"

definition public_names :: "tree \<Rightarrow> string \<Rightarrow> string list" where
  "public_names d dir =
     (case follow d dir of
        None \<Rightarrow> []
      | Some (target, nd) \<Rightarrow> filter (suffix ''.pub.pem'') (List.map_filter (\<lambda>p. name_in target (fst p)) d))"

section \<open>The world and the report\<close>

datatype outcome = Exited int string string | NotInstalled | TimedOut

datatype readiness = ReadyStatus int | NotReady | ReadyRaises exn

record doctor_env =
  de_docker :: "tree \<Rightarrow> string list \<Rightarrow> outcome"
  de_which :: "string \<Rightarrow> bool"
  de_resolve :: "string \<Rightarrow> string"
  de_expand :: "string \<Rightarrow> string"
  de_loads :: "string \<Rightarrow> json option"
  de_text :: "json \<Rightarrow> string"
  de_yaml :: "string \<Rightarrow> json res"
  de_policy :: "string \<Rightarrow> policy_file res"
  de_expr :: "string \<Rightarrow> expr res"
  de_base32 :: "string \<Rightarrow> string res"
  de_sha256 :: "string \<Rightarrow> string"
  de_private_id :: "string \<Rightarrow> string res"
  de_private_p256 :: "string \<Rightarrow> bool"
  de_public_id :: "string \<Rightarrow> string res"
  de_public_p256 :: "string \<Rightarrow> bool"
  de_public_pem :: "string \<Rightarrow> string"
  de_loopback :: "string \<Rightarrow> bool"
  de_network :: "string \<Rightarrow> bool"
  de_bind :: "string \<Rightarrow> int \<Rightarrow> bool"
  de_ready :: "int \<Rightarrow> readiness"
  de_temporary :: "string \<Rightarrow> string"
  de_fresh_key :: string
  de_user :: "int \<times> int"
  de_umask :: "nat \<Rightarrow> nat"
  de_answer :: string

datatype deployment_kind = Production | Quickstart

record layout =
  la_kind :: deployment_kind
  la_root :: string
  la_env :: string
  la_compose :: string

datatype status = PASS | INFO | WARN | ERROR | FIXED

record finding =
  fi_id :: string
  fi_status :: status
  fi_fixable :: bool

datatype repair_action =
    Chmod string nat
  | MakeDirectory string
  | UpdateEnv string string string
  | CreateEmpty string
  | MintKey string string
  | EnsurePublic string string

record repair =
  re_finding :: string
  re_action :: repair_action
  re_restart :: bool

record scan =
  sc_offers :: bool
  sc_findings :: "finding list"
  sc_repairs :: "repair list"
  sc_values :: env_values
  sc_rendered :: "jdict option"
  sc_containers :: "(json \<times> json) list"
  sc_stack_exists :: bool
  sc_namespace :: string
  sc_policy :: "policy_engine option"

definition new_scan :: "bool \<Rightarrow> scan" where
  "new_scan offers =
     \<lparr>sc_offers = offers, sc_findings = [], sc_repairs = [], sc_values = [], sc_rendered = None,
      sc_containers = [], sc_stack_exists = False, sc_namespace = [], sc_policy = None\<rparr>"

type_synonym 'a check = "(scan, 'a) io"

text \<open>\<open>_Scan.add\<close>.\<close>

definition add_finding :: "string \<Rightarrow> status \<Rightarrow> repair option \<Rightarrow> unit check" where
  "add_finding i st r s =
     (Inr (), s\<lparr>sc_findings := sc_findings s @ [\<lparr>fi_id = i, fi_status = st, fi_fixable = (r \<noteq> None)\<rparr>],
                sc_repairs := sc_repairs s @ (case r of Some x \<Rightarrow> if sc_offers s then [x] else [] | None \<Rightarrow> [])\<rparr>)"

definition add :: "string \<Rightarrow> status \<Rightarrow> unit check" where
  "add i st = add_finding i st None"

definition add_repair :: "string \<Rightarrow> repair_action \<Rightarrow> bool \<Rightarrow> unit check" where
  "add_repair i a restart =
     add_finding i ERROR (Some \<lparr>re_finding = i, re_action = a, re_restart = restart\<rparr>)"

definition get_scan :: "(scan \<Rightarrow> 'a) \<Rightarrow> 'a check" where
  "get_scan g s = (Inr (g s), s)"

definition set_scan :: "(scan \<Rightarrow> scan) \<Rightarrow> unit check" where
  "set_scan f s = (Inr (), f s)"

text \<open>
  \<open>try: m except (OSError, DoctorError, ...): h\<close>; other exceptions pass. A YAML error is a
  \<open>SyntaxError\<close> of \<open>de_yaml\<close>.
\<close>

definition catching :: "(exn \<Rightarrow> bool) \<Rightarrow> 'a check \<Rightarrow> 'a check \<Rightarrow> 'a check" where
  "catching which m h s =
     (case m s of
        (Inl e, s') \<Rightarrow> if which e then h s' else (Inl e, s')
      | (Inr a, s') \<Rightarrow> (Inr a, s'))"

fun doctor_error :: "exn \<Rightarrow> bool" where
  "doctor_error (DoctorError t) = True"
| "doctor_error _ = False"

fun os_error :: "exn \<Rightarrow> bool" where
  "os_error (OSError t) = True"
| "os_error _ = False"

fun value_error :: "exn \<Rightarrow> bool" where
  "value_error (ValueError t) = True"
| "value_error _ = False"

fun yaml_error :: "exn \<Rightarrow> bool" where
  "yaml_error (SyntaxError t) = True"
| "yaml_error _ = False"

fun for_each :: "('a \<Rightarrow> unit check) \<Rightarrow> 'a list \<Rightarrow> unit check" where
  "for_each f [] = ret_io ()"
| "for_each f (x # xs) = bind_io (f x) (\<lambda>_. for_each f xs)"

section \<open>Finding the deployment, and asking docker\<close>

definition doctor_raise :: "string \<Rightarrow> 'a res" where
  "doctor_raise t = Inl (DoctorError t)"

definition discover :: "doctor_env \<Rightarrow> tree \<Rightarrow> string \<Rightarrow> layout res" where
  "discover E d raw =
     (if CHR 0x00 \<in> set raw \<or> CHR 0x0A \<in> set raw \<or> CHR 0x0D \<in> set raw
      then doctor_raise ''deployment directory must not contain NUL or newlines''
      else
        (let top = de_resolve E (de_expand E raw);
             marked = (\<lambda>names. list_ex (\<lambda>n. exists_path d (under top n)) names);
             production = marked [''compose.prod.yml'', ''.env.prod''];
             quickstart = marked [''compose.quickstart.yml'', ''.env.quickstart'']
         in if \<not> is_dir d top then doctor_raise ''not a directory''
            else if production \<and> quickstart then doctor_raise ''both production and quickstart deployment markers''
            else if production
            then Inr \<lparr>la_kind = Production, la_root = top, la_env = under top ''.env.prod'',
                      la_compose = under top ''compose.prod.yml''\<rparr>
            else if quickstart
            then Inr \<lparr>la_kind = Quickstart, la_root = top, la_env = under top ''.env.quickstart'',
                      la_compose = under top ''compose.quickstart.yml''\<rparr>
            else if marked [''compose.demo.yml'', ''.env.demo'']
            then doctor_raise ''doctor supports production and quickstart deployments, not demo''
            else doctor_raise ''not a recognized production or quickstart deployment''))"

text \<open>\<open>_command\<close>: the exit status and the output.\<close>

definition docker_run :: "doctor_env \<Rightarrow> tree \<Rightarrow> bool \<Rightarrow> string list \<Rightarrow> (int \<times> string) res" where
  "docker_run E d must argv =
     (case de_docker E d argv of
        NotInstalled \<Rightarrow> doctor_raise ''docker was not found''
      | TimedOut \<Rightarrow> doctor_raise ''timed out''
      | Exited code out err \<Rightarrow>
          if must \<and> code \<noteq> 0 then doctor_raise ''failed'' else Inr (code, out))"

definition compose_command :: "layout \<Rightarrow> string list" where
  "compose_command L = [''docker'', ''compose'', ''--env-file'', la_env L, ''-f'', la_compose L]"

text \<open>\<open>json.loads\<close> of what docker printed, and the ways of a value that may not be an object.\<close>

definition loads_res :: "doctor_env \<Rightarrow> string \<Rightarrow> json res" where
  "loads_res E s = (case de_loads E s of None \<Rightarrow> Inl (ValueError ''JSONDecodeError'') | Some v \<Rightarrow> Inr v)"

fun get_or :: "string \<Rightarrow> json \<Rightarrow> json \<Rightarrow> json res" where
  "get_or k dflt (JObj o1) = Inr (case map_of o1 k of None \<Rightarrow> dflt | Some v \<Rightarrow> v)"
| "get_or k dflt _ = Inl AttributeError"

fun iterate :: "json \<Rightarrow> json list res" where
  "iterate (JArr xs) = Inr xs"
| "iterate (JObj o1) = Inr (map (JStr \<circ> fst) o1)"
| "iterate (JStr s) = Inr (map (\<lambda>c. JStr [c]) s)"
| "iterate _ = Inl TypeError"

fun values_of :: "json \<Rightarrow> json list res" where
  "values_of (JObj o1) = Inr (map snd o1)"
| "values_of _ = Inl AttributeError"

fun map_res :: "('a \<Rightarrow> 'b res) \<Rightarrow> 'a list \<Rightarrow> 'b list res" where
  "map_res f [] = Inr []"
| "map_res f (x # xs) = bind_res (f x) (\<lambda>y. bind_res (map_res f xs) (\<lambda>ys. Inr (y # ys)))"

definition render :: "doctor_env \<Rightarrow> tree \<Rightarrow> layout \<Rightarrow> jdict res" where
  "render E d L =
     bind_res (docker_run E d True (compose_command L @ [''--profile'', ''*'', ''config'', ''--format'', ''json''])) (\<lambda>r.
     bind_res (loads_res E (snd r)) (\<lambda>v.
       case v of JObj o1 \<Rightarrow> Inr o1 | _ \<Rightarrow> doctor_raise ''Docker Compose rendered a non-object configuration''))"

definition split_space :: "string \<Rightarrow> string list" where
  "split_space s =
     filter (\<lambda>w. w \<noteq> []) (split_on CHR '' '' (map (\<lambda>c. if py_space c then CHR '' '' else c) s))"

definition service_of :: "json \<Rightarrow> json res" where
  "service_of it =
     bind_res (get_or ''Config'' (JObj []) it) (\<lambda>c.
     bind_res (get_or ''Labels'' (JObj []) c) (get_or ''com.docker.compose.service'' (JStr [])))"

definition hash_key :: "json \<Rightarrow> json res" where
  "hash_key v = (if hashable v then Inr v else Inl TypeError)"

definition matching_containers :: "doctor_env \<Rightarrow> tree \<Rightarrow> string \<Rightarrow> (json \<times> json) list res" where
  "matching_containers E d project =
     (if project = [] then Inr []
      else bind_res (docker_run E d False
          [''docker'', ''ps'', ''-aq'', ''--filter'', ''label=com.docker.compose.project='' @ project]) (\<lambda>(code, out).
        let ids = split_space out
        in if code \<noteq> 0 \<or> ids = [] then Inr []
           else bind_res (docker_run E d True ([''docker'', ''inspect''] @ ids)) (\<lambda>r.
             bind_res (loads_res E (snd r)) (\<lambda>v.
             bind_res (iterate v) (\<lambda>items.
             bind_res (map_res (\<lambda>it. bind_res (service_of it) (\<lambda>s.
                 if truthy s then bind_res (hash_key s) (\<lambda>k. Inr [(k, it)]) else Inr [])) items) (\<lambda>kvs.
               Inr (dict_of (concat kvs))))))))"

definition namespace_char :: "char \<Rightarrow> bool" where
  "namespace_char c \<longleftrightarrow>
     (let n = (of_char c :: nat) in (97 \<le> n \<and> n \<le> 122) \<or> (48 \<le> n \<and> n \<le> 57))"

text \<open>\<open>^[a-z0-9][a-z0-9-]{0,31}$\<close>.\<close>

definition namespace_ok :: "string \<Rightarrow> bool" where
  "namespace_ok s \<longleftrightarrow>
     (case s of [] \<Rightarrow> False
      | c # cs \<Rightarrow> namespace_char c \<and> length cs \<le> 31 \<and> list_all (\<lambda>x. namespace_char x \<or> x = CHR ''-'') cs)"

definition runtime_prefix :: string where
  "runtime_prefix = ''UPSTREAM_RUNTIME_NAMESPACE=''"

definition namespace_values :: "json \<Rightarrow> string list res" where
  "namespace_values it =
     bind_res (get_or ''Config'' (JObj []) it) (\<lambda>c.
     bind_res (get_or ''Env'' (JArr []) c) (\<lambda>env.
     bind_res (iterate env) (\<lambda>vs.
     bind_res (map_res (\<lambda>v. case v of
         JStr s \<Rightarrow>
           Inr (if prefix runtime_prefix s \<and> namespace_ok (drop (length runtime_prefix) s)
                then [drop (length runtime_prefix) s] else [])
       | _ \<Rightarrow> Inl AttributeError) vs) (\<lambda>ns. Inr (concat ns)))))"

definition single :: "string list \<Rightarrow> string option" where
  "single ns = (case remdups ns of [n] \<Rightarrow> Some n | _ \<Rightarrow> None)"

definition inspect_namespace :: "doctor_env \<Rightarrow> tree \<Rightarrow> string list \<Rightarrow> string option res" where
  "inspect_namespace E d ids =
     bind_res (docker_run E d True ([''docker'', ''inspect''] @ ids)) (\<lambda>r.
     bind_res (loads_res E (snd r)) (\<lambda>v.
     bind_res (iterate v) (\<lambda>items.
     bind_res (map_res namespace_values items) (\<lambda>ns. Inr (single (concat ns))))))"

definition infer_namespace :: "doctor_env \<Rightarrow> tree \<Rightarrow> layout \<Rightarrow> string option res" where
  "infer_namespace E d L =
     bind_res (docker_run E d False
       [''docker'', ''ps'', ''-aq'', ''--filter'',
        ''label=com.docker.compose.project.config_files='' @ la_compose L,
        ''--filter'', ''label=com.docker.compose.service=gateway'']) (\<lambda>r.
     let ids = split_space (snd r)
     in if fst r \<noteq> 0 \<or> ids = [] then Inr None else inspect_namespace E d ids)"

text \<open>\<open>_policy_references\<close>: the variables of upstream environments, and the secrets.\<close>

definition str_values :: "jdict \<Rightarrow> string list" where
  "str_values o1 = List.map_filter (\<lambda>p. case snd p of JStr s \<Rightarrow> Some s | _ \<Rightarrow> None) o1"

definition upstream_references :: "jdict \<Rightarrow> string list" where
  "upstream_references data =
     (case dget data ''servers'' of
        JObj servers \<Rightarrow> concat (map (\<lambda>p. case snd p of
            JObj server \<Rightarrow> (case dget server ''env'' of JObj env \<Rightarrow> str_values env | _ \<Rightarrow> [])
          | _ \<Rightarrow> []) servers)
      | _ \<Rightarrow> [])"

definition secret_references :: "jdict \<Rightarrow> string list" where
  "secret_references data =
     (case dget data ''identities'' of
        JArr identities \<Rightarrow> concat (map (\<lambda>i. case i of
            JObj ident \<Rightarrow> concat (map (\<lambda>name. case dget ident name of JStr s \<Rightarrow> [s] | _ \<Rightarrow> [])
              [''signing_secret_env'', ''totp_secret_env''])
          | _ \<Rightarrow> []) identities)
      | _ \<Rightarrow> [])"

definition policy_references :: "json \<Rightarrow> string list \<times> string list" where
  "policy_references data =
     (case data of
        JObj o1 \<Rightarrow> (remdups (upstream_references o1), remdups (secret_references o1))
      | _ \<Rightarrow> ([], []))"

section \<open>Files and directories\<close>

definition check_owner :: "tree \<Rightarrow> string \<Rightarrow> string \<Rightarrow> (int \<times> int) option \<Rightarrow> unit check" where
  "check_owner d i p owner =
     (case owner of
        None \<Rightarrow> ret_io ()
      | Some o1 \<Rightarrow> add (i @ ''.owner'') (if owner_of d p = Some o1 then PASS else ERROR))"

definition check_file :: "tree \<Rightarrow> string \<Rightarrow> string \<Rightarrow> nat \<Rightarrow> bool \<Rightarrow> (int \<times> int) option \<Rightarrow> bool check" where
  "check_file d i p mode restart owner =
     (if is_symlink d p then bind_io (add i ERROR) (\<lambda>_. ret_io False)
      else if \<not> is_file d p then bind_io (add i ERROR) (\<lambda>_. ret_io False)
      else bind_io (if mode_of d p \<noteq> mode then add_repair i (Chmod p mode) restart else add i PASS) (\<lambda>_.
           bind_io (check_owner d i p owner) (\<lambda>_. ret_io True)))"

definition check_directory :: "tree \<Rightarrow> string \<Rightarrow> string \<Rightarrow> (int \<times> int) option \<Rightarrow> bool \<Rightarrow> bool check" where
  "check_directory d i p owner restart =
     (if is_symlink d p then bind_io (add i ERROR) (\<lambda>_. ret_io False)
      else if \<not> exists_path d p then bind_io (add_repair i (MakeDirectory p) restart) (\<lambda>_. ret_io False)
      else if \<not> is_dir d p then bind_io (add i ERROR) (\<lambda>_. ret_io False)
      else bind_io (if mode_of d p \<noteq> 0x1C0 then add_repair i (Chmod p 0x1C0) restart else add i PASS) (\<lambda>_.
           bind_io (check_owner d i p owner) (\<lambda>_. ret_io True)))"

text \<open>\<open>_env_file\<close> on a file, and the modes 0600 and 0444.\<close>

definition read_env :: "doctor_env \<Rightarrow> tree \<Rightarrow> string \<Rightarrow> (env_values \<times> string list) res" where
  "read_env E d p = bind_res (content_of d p) (env_file (de_loads E))"

definition mode_0600 :: nat where "mode_0600 = 0x180"
definition mode_0444 :: nat where "mode_0444 = 0x124"

definition check_present :: "tree \<Rightarrow> string \<Rightarrow> string \<Rightarrow> unit check" where
  "check_present d i p = add i (if is_symlink d p then ERROR else if \<not> is_file d p then ERROR else PASS)"

definition check_root :: "tree \<Rightarrow> layout \<Rightarrow> unit check" where
  "check_root d L =
     (if la_kind L = Quickstart
      then bind_io (check_directory d ''filesystem.deployment'' (la_root L) None False) (\<lambda>_. ret_io ())
      else add ''filesystem.deployment'' PASS)"

definition read_primary :: "doctor_env \<Rightarrow> tree \<Rightarrow> layout \<Rightarrow> unit check" where
  "read_primary E d L =
     catching (\<lambda>e. os_error e \<or> doctor_error e)
       (bind_io (of_res (read_env E d (la_env L))) (\<lambda>r.
        bind_io (set_scan (\<lambda>s. s\<lparr>sc_values := fst r\<rparr>)) (\<lambda>_.
          add ''deployment.environment.duplicates'' (if snd r \<noteq> [] then ERROR else PASS))))
       (add ''deployment.environment.parse'' ERROR)"

definition check_primary :: "doctor_env \<Rightarrow> tree \<Rightarrow> layout \<Rightarrow> unit check" where
  "check_primary E d L =
     (if \<not> is_file d (la_env L) \<or> is_symlink d (la_env L) then ret_io ()
      else bind_io (check_file d ''filesystem.primary_env'' (la_env L) mode_0600 False None) (\<lambda>_. read_primary E d L))"

definition deployment :: "doctor_env \<Rightarrow> tree \<Rightarrow> layout \<Rightarrow> unit check" where
  "deployment E d L =
     bind_io (add ''deployment.shape'' PASS) (\<lambda>_.
     bind_io (check_root d L) (\<lambda>_.
     bind_io (check_present d ''deployment.environment'' (la_env L)) (\<lambda>_.
     bind_io (check_present d ''deployment.compose'' (la_compose L)) (\<lambda>_. check_primary E d L))))"

section \<open>Docker and compose\<close>

definition socket_path :: string where "socket_path = ''/var/run/docker.sock''"

definition leading_number :: "string \<Rightarrow> string" where
  "leading_number s = takeWhile dec_char (dropWhile (\<lambda>c. \<not> dec_char c) s)"

definition docker_versions :: "doctor_env \<Rightarrow> tree \<Rightarrow> (string \<times> string) res" where
  "docker_versions E d =
     bind_res (docker_run E d True [''docker'', ''context'', ''inspect'', ''--format'', ''{{.Endpoints.docker.Host}}'']) (\<lambda>r.
     let host = py_strip (snd r)
     in if \<not> prefix ''unix://'' host \<or> de_resolve E (drop 7 host) \<noteq> de_resolve E socket_path
        then doctor_raise ''Docker context is not unix:///var/run/docker.sock''
        else if \<not> exists_path d socket_path then Inl (OSError ''No such file or directory'')
        else if \<not> is_socket d socket_path then doctor_raise ''/var/run/docker.sock is not a Unix socket''
        else bind_res (docker_run E d True [''docker'', ''version'', ''--format'', ''{{.Server.Version}}'']) (\<lambda>engine.
             bind_res (docker_run E d True [''docker'', ''compose'', ''version'', ''--short'']) (\<lambda>compose.
               Inr (py_strip (snd engine), py_strip (snd compose)))))"

definition check_docker :: "doctor_env \<Rightarrow> tree \<Rightarrow> bool check" where
  "check_docker E d =
     (if \<not> de_which E ''docker'' then bind_io (add ''docker.cli'' ERROR) (\<lambda>_. ret_io False)
      else bind_io (add ''docker.cli'' PASS) (\<lambda>_.
        catching (\<lambda>e. os_error e \<or> doctor_error e)
          (bind_io (of_res (docker_versions E d)) (\<lambda>(engine, compose).
           bind_io (add ''docker.daemon'' PASS) (\<lambda>_.
           bind_io (add ''docker.version.engine'' (if leading_number engine = ''29'' then PASS else WARN)) (\<lambda>_.
           bind_io (add ''docker.version.compose'' (if leading_number compose = ''5'' then PASS else WARN)) (\<lambda>_.
             ret_io True)))))
          (bind_io (add ''docker.daemon'' ERROR) (\<lambda>_. ret_io False))))"

definition py_text :: "doctor_env \<Rightarrow> json \<Rightarrow> string" where
  "py_text E v = (case v of JStr s \<Rightarrow> s | JInt n \<Rightarrow> int_str n | _ \<Rightarrow> de_text E v)"

definition check_compose :: "doctor_env \<Rightarrow> tree \<Rightarrow> layout \<Rightarrow> unit check" where
  "check_compose E d L =
     (if \<not> is_file d (la_compose L) \<or> \<not> is_file d (la_env L) then ret_io ()
      else
        (case render E d L of
           Inl e \<Rightarrow> if doctor_error e \<or> value_error e then add ''compose.render'' ERROR else raise_io e
         | Inr rendered \<Rightarrow>
             bind_io (set_scan (\<lambda>s. s\<lparr>sc_rendered := Some rendered\<rparr>)) (\<lambda>_.
             bind_io (add ''compose.render'' PASS) (\<lambda>_.
             bind_io (of_res (matching_containers E d
               (py_text E (case map_of rendered ''name'' of None \<Rightarrow> JStr [] | Some v \<Rightarrow> v)))) (\<lambda>containers.
             set_scan (\<lambda>s. s\<lparr>sc_containers := containers, sc_stack_exists := (containers \<noteq> [])\<rparr>))))))"

section \<open>The namespace and the socket's group\<close>

definition namespace_key :: "layout \<Rightarrow> string" where
  "namespace_key L = (if la_kind L = Production then ''UPSTREAM_RUNTIME_NAMESPACE'' else ''QUICKSTART_NAMESPACE'')"

definition value_or :: "string \<Rightarrow> env_values \<Rightarrow> string" where
  "value_or k vs = (case map_of vs k of None \<Rightarrow> [] | Some v \<Rightarrow> v)"

definition check_namespace :: "doctor_env \<Rightarrow> tree \<Rightarrow> layout \<Rightarrow> bool \<Rightarrow> unit check" where
  "check_namespace E d L ready =
     bind_io (get_scan (\<lambda>s. value_or (namespace_key L) (sc_values s))) (\<lambda>namespace.
     bind_io (set_scan (\<lambda>s. s\<lparr>sc_namespace := namespace\<rparr>)) (\<lambda>_.
     if namespace_ok namespace then add ''docker.namespace'' PASS
     else if ready
     then bind_io (of_res (infer_namespace E d L)) (\<lambda>inferred.
       case inferred of
         None \<Rightarrow> add ''docker.namespace'' ERROR
       | Some n \<Rightarrow>
           bind_io (add_repair ''docker.namespace'' (UpdateEnv (la_env L) (namespace_key L) n) True) (\<lambda>_.
           set_scan (\<lambda>s. s\<lparr>sc_namespace := n\<rparr>)))
     else ret_io ()))"

definition container :: "string \<Rightarrow> (json \<times> json) list \<Rightarrow> json option" where
  "container name containers = map_of containers (JStr name)"

definition running_image :: "(json \<times> json) list \<Rightarrow> json res" where
  "running_image containers =
     bind_res (get_or ''Config'' (JObj [])
       (case container ''gateway'' containers of None \<Rightarrow> JObj [] | Some c \<Rightarrow> c)) (get_or ''Image'' (JStr []))"

definition gateway_image :: "doctor_env \<Rightarrow> layout \<Rightarrow> json \<Rightarrow> env_values \<Rightarrow> string" where
  "gateway_image E L running vs =
     (if truthy running then py_text E running
      else if la_kind L = Production
      then (let digest = value_or ''GATEWAY_IMAGE_DIGEST'' vs
            in if digest = [] then [] else ''ghcr.io/bashaarjavaid/portunusmcp@'' @ digest)
      else value_or ''GATEWAY_IMAGE'' vs)"

definition gid_probe :: "string \<Rightarrow> string list" where
  "gid_probe img =
     [''docker'', ''run'', ''--rm'', ''--pull'', ''never'', ''--network'', ''none'', ''--read-only'',
      ''--entrypoint'', ''stat'', ''-v'', ''/var/run/docker.sock:/var/run/docker.sock:ro'', img,
      ''-c'', ''%g'', socket_path]"

text \<open>\<open>str.isdigit\<close> also knows the superscripts one, two and three.\<close>

definition py_isdigit :: "string \<Rightarrow> bool" where
  "py_isdigit s \<longleftrightarrow> s \<noteq> [] \<and> list_all (\<lambda>c. dec_char c \<or> c \<in> {CHR 0xB2, CHR 0xB3, CHR 0xB9}) s"

definition compare_gid :: "layout \<Rightarrow> string \<Rightarrow> int \<times> string \<Rightarrow> unit check" where
  "compare_gid L configured r =
     (let detected = py_strip (snd r)
      in if fst r \<noteq> 0 \<or> \<not> py_isdigit detected then add ''docker.socket_gid'' ERROR
         else if configured = detected then add ''docker.socket_gid'' PASS
         else add_repair ''docker.socket_gid'' (UpdateEnv (la_env L) ''DOCKER_GID'' detected) True)"

definition check_gid :: "doctor_env \<Rightarrow> tree \<Rightarrow> layout \<Rightarrow> unit check" where
  "check_gid E d L =
     bind_io (get_scan sc_containers) (\<lambda>containers.
     bind_io (of_res (running_image containers)) (\<lambda>running.
     bind_io (get_scan sc_values) (\<lambda>vs.
     let img = gateway_image E L running vs
     in if img = [] then add ''docker.socket_gid'' ERROR
        else bind_io (of_res (docker_run E d False (gid_probe img))) (compare_gid L (value_or ''DOCKER_GID'' vs)))))"

definition namespace_and_gid :: "doctor_env \<Rightarrow> tree \<Rightarrow> layout \<Rightarrow> bool \<Rightarrow> unit check" where
  "namespace_and_gid E d L ready =
     bind_io (check_namespace E d L ready) (\<lambda>_. if ready then check_gid E d L else ret_io ())"

section \<open>Paths\<close>

text \<open>\<open>str(Path(s))\<close> and \<open>Path(s).is_absolute()\<close>.\<close>

definition path_text :: "string \<Rightarrow> string" where
  "path_text s =
     (let p = posix_path s in if pp_root p = [] \<and> pp_parts p = [] then ''.'' else pp_root p @ join_with ''/'' (pp_parts p))"

definition is_absolute :: "string \<Rightarrow> bool" where
  "is_absolute s \<longleftrightarrow> pp_root (posix_path s) \<noteq> []"

definition required :: "string \<Rightarrow> env_values \<Rightarrow> string res" where
  "required k vs = (case map_of vs k of None \<Rightarrow> Inl KeyError | Some v \<Rightarrow> Inr v)"

definition int_res :: "string \<Rightarrow> int res" where
  "int_res s = (case py_int s of None \<Rightarrow> Inl (ValueError ''invalid literal for int()'') | Some n \<Rightarrow> Inr n)"

record resolved =
  rs_policy_dir :: string
  rs_audit_dir :: string
  rs_gateway_env :: string
  rs_owner :: "int \<times> int"

definition rendered_user :: "jdict option \<Rightarrow> json res" where
  "rendered_user rendered =
     bind_res (get_or ''services'' (JObj []) (JObj (case rendered of None \<Rightarrow> [] | Some o1 \<Rightarrow> o1))) (\<lambda>services.
     bind_res (get_or ''gateway'' (JObj []) services) (get_or ''user'' (JStr ''1000:1000'')))"

definition parse_user :: "string \<Rightarrow> (int \<times> int) res" where
  "parse_user s =
     (let uid = takeWhile (\<lambda>c. c \<noteq> CHR '':'') s
      in if CHR '':'' \<notin> set s then Inl (ValueError ''not enough values to unpack'')
         else bind_res (int_res uid) (\<lambda>u. bind_res (int_res (drop (Suc (length uid)) s)) (\<lambda>g. Inr (u, g))))"

definition locations :: "doctor_env \<Rightarrow> layout \<Rightarrow> env_values \<Rightarrow> jdict option \<Rightarrow> resolved res" where
  "locations E L vs rendered =
     (if la_kind L = Production
      then bind_res (required ''POLICY_DIR_HOST'' vs) (\<lambda>policy_dir.
           bind_res (required ''AUDIT_SIGNING_KEY_DIR'' vs) (\<lambda>audit_dir.
           if \<not> is_absolute policy_dir \<or> \<not> is_absolute audit_dir
           then doctor_raise ''production policy and audit-key directories must be absolute''
           else
             (let named = (case map_of vs ''GATEWAY_ENV_FILE'' of
                             None \<Rightarrow> under (la_root L) ''.env.prod.gateway'' | Some v \<Rightarrow> path_text v);
                  gateway_env = (if is_absolute named then named else under (la_root L) named)
              in bind_res (rendered_user rendered) (\<lambda>user.
                 bind_res (parse_user (py_text E user)) (\<lambda>owner.
                   Inr \<lparr>rs_policy_dir = path_text policy_dir, rs_audit_dir = path_text audit_dir,
                        rs_gateway_env = gateway_env, rs_owner = owner\<rparr>)))))
      else bind_res (required ''CONFIG_DIR'' vs) (\<lambda>policy_dir.
           bind_res (required ''SECRETS_DIR'' vs) (\<lambda>audit_dir.
           bind_res (bind_res (required ''HOST_UID'' vs) int_res) (\<lambda>uid.
           bind_res (bind_res (required ''HOST_GID'' vs) int_res) (\<lambda>gid.
             Inr \<lparr>rs_policy_dir = path_text policy_dir, rs_audit_dir = path_text audit_dir,
                  rs_gateway_env = la_env L, rs_owner = (uid, gid)\<rparr>)))))"

definition path_error :: "exn \<Rightarrow> bool" where
  "path_error e \<longleftrightarrow> e = KeyError \<or> value_error e \<or> doctor_error e"

definition expanded :: "doctor_env \<Rightarrow> resolved \<Rightarrow> resolved" where
  "expanded E rs =
     rs\<lparr>rs_policy_dir := de_expand E (rs_policy_dir rs), rs_audit_dir := de_expand E (rs_audit_dir rs),
        rs_gateway_env := de_expand E (rs_gateway_env rs)\<rparr>"

definition check_directories :: "tree \<Rightarrow> resolved \<Rightarrow> resolved option check" where
  "check_directories d rs =
     (let owner = Some (rs_owner rs)
      in bind_io (check_directory d ''filesystem.policy_dir'' (rs_policy_dir rs) owner True) (\<lambda>_.
         bind_io (check_directory d ''filesystem.revisions_dir'' (child d (rs_policy_dir rs) ''revisions'') owner True) (\<lambda>_.
         bind_io (check_directory d ''filesystem.audit_dir'' (rs_audit_dir rs) owner True) (\<lambda>_.
         bind_io (check_directory d ''filesystem.public_dir'' (child d (rs_audit_dir rs) ''public'') owner True) (\<lambda>_.
           ret_io (Some rs))))))"

definition check_paths :: "doctor_env \<Rightarrow> tree \<Rightarrow> layout \<Rightarrow> resolved option check" where
  "check_paths E d L =
     bind_io (get_scan (\<lambda>s. locations E L (sc_values s) (sc_rendered s))) (\<lambda>r.
     case r of
       Inl e \<Rightarrow> if path_error e then bind_io (add ''deployment.paths'' ERROR) (\<lambda>_. ret_io None) else raise_io e
     | Inr rs \<Rightarrow> check_directories d (expanded E rs))"

section \<open>The policy and what it runs\<close>

text \<open>
  \<open>gateway_environment\<close>: the environment the gateway gets, and whether what the policy
  refers to is there. The check of the gateway's own environment file comes first.
\<close>

definition check_gateway_file :: "doctor_env \<Rightarrow> tree \<Rightarrow> string list \<Rightarrow> string \<Rightarrow> bool check" where
  "check_gateway_file E d references p =
     (if is_symlink d p then bind_io (add ''filesystem.gateway_env'' ERROR) (\<lambda>_. ret_io False)
      else if \<not> exists_path d p
      then if references \<noteq> [] then bind_io (add ''filesystem.gateway_env'' ERROR) (\<lambda>_. ret_io False)
           else bind_io (add_repair ''filesystem.gateway_env'' (CreateEmpty p) True) (\<lambda>_. ret_io False)
      else bind_io (check_file d ''filesystem.gateway_env'' p mode_0600 True None) (\<lambda>_.
        case read_env E d p of
          Inl e \<Rightarrow>
            if os_error e \<or> doctor_error e
            then bind_io (add ''deployment.gateway_environment.parse'' ERROR) (\<lambda>_. ret_io False)
            else raise_io e
        | Inr (vs, duplicates) \<Rightarrow>
            if duplicates \<noteq> [] then bind_io (add ''deployment.gateway_environment.duplicates'' ERROR) (\<lambda>_. ret_io False)
            else ret_io True))"

definition rendered_environment :: "jdict \<Rightarrow> jdict res" where
  "rendered_environment rendered =
     bind_res (get_or ''services'' (JObj []) (JObj rendered)) (\<lambda>services.
     bind_res (get_or ''gateway'' (JObj []) services) (\<lambda>gateway.
     bind_res (get_or ''environment'' (JObj []) gateway) (\<lambda>v.
       Inr (case v of JObj o1 \<Rightarrow> o1 | _ \<Rightarrow> []))))"

definition missing_references :: "jdict \<Rightarrow> string list \<Rightarrow> string list \<Rightarrow> string list" where
  "missing_references environment references secrets =
     filter (\<lambda>n. \<not> has_key environment n \<or> n \<in> set secrets \<and> \<not> truthy (dget environment n)) references"

definition check_references ::
  "doctor_env \<Rightarrow> string list \<Rightarrow> string list \<Rightarrow> jdict \<Rightarrow> (env_values \<times> bool) check" where
  "check_references E references secrets environment =
     (let missing = missing_references environment references secrets
      in bind_io (for_each (\<lambda>n. add ''policy.environment'' ERROR) missing) (\<lambda>_.
         bind_io (if missing = [] then add ''policy.environment'' PASS else ret_io ()) (\<lambda>_.
           ret_io (map (\<lambda>(k, v). (k, py_text E v)) environment, missing = []))))"

definition check_rendered :: "doctor_env \<Rightarrow> string list \<Rightarrow> string list \<Rightarrow> jdict option \<Rightarrow> (env_values \<times> bool) check" where
  "check_rendered E references secrets rendered =
     (case rendered of
        None \<Rightarrow> ret_io ([], references = [])
      | Some o1 \<Rightarrow> bind_io (of_res (rendered_environment o1)) (check_references E references secrets))"

definition gateway_environment ::
  "doctor_env \<Rightarrow> tree \<Rightarrow> layout \<Rightarrow> json \<Rightarrow> string \<Rightarrow> (env_values \<times> bool) check" where
  "gateway_environment E d L data p =
     (let upstream = fst (policy_references data); secrets = snd (policy_references data);
          references = remdups (upstream @ secrets)
      in bind_io (if la_kind L = Production then check_gateway_file E d references p else ret_io True) (\<lambda>ok.
         if \<not> ok then ret_io ([], False)
         else bind_io (get_scan sc_rendered) (check_rendered E references secrets)))"

text \<open>\<open>^sha256:[0-9a-f]{64}$\<close> and \<open>^.+@sha256:[0-9a-f]{64}$\<close>.\<close>

definition lower_hex_64 :: "string \<Rightarrow> bool" where
  "lower_hex_64 s \<longleftrightarrow>
     length s = 64 \<and> list_all (\<lambda>c. let n = (of_char c :: nat) in (48 \<le> n \<and> n \<le> 57) \<or> (97 \<le> n \<and> n \<le> 102)) s"

definition image_id :: "string \<Rightarrow> bool" where
  "image_id s \<longleftrightarrow> prefix ''sha256:'' s \<and> lower_hex_64 (drop 7 s)"

definition image_digest :: "string \<Rightarrow> bool" where
  "image_digest s \<longleftrightarrow>
     (let n = length s - 72
      in 72 < length s \<and> CHR 0x0A \<notin> set s \<and> prefix ''@sha256:'' (drop n s) \<and> lower_hex_64 (drop (n + 8) s))"

definition immutable_image :: "string \<Rightarrow> bool" where
  "immutable_image s \<longleftrightarrow> image_id s \<or> image_digest s"

definition check_volume :: "doctor_env \<Rightarrow> tree \<Rightarrow> string \<Rightarrow> mount \<Rightarrow> unit check" where
  "check_volume E d start m =
     bind_io (add ''policy.volume.namespace'' (if prefix start (m_source m) then PASS else ERROR)) (\<lambda>_.
     bind_io (of_res (docker_run E d False [''docker'', ''volume'', ''inspect'', m_source m])) (\<lambda>(code, out).
       add ''policy.volume.available'' (if code \<noteq> 0 then ERROR else PASS)))"

definition check_server_image :: "doctor_env \<Rightarrow> tree \<Rightarrow> string \<Rightarrow> upstream_server \<Rightarrow> unit check" where
  "check_server_image E d start server =
     bind_io (add ''policy.image.digest'' (if immutable_image (us_image server) then PASS else ERROR)) (\<lambda>_.
     bind_io (of_res (docker_run E d False [''docker'', ''image'', ''inspect'', us_image server])) (\<lambda>(code, out).
     bind_io (add ''policy.image.available'' (if code \<noteq> 0 then ERROR else PASS)) (\<lambda>_.
       for_each (check_volume E d start) (us_volumes server))))"

definition load_policy :: "doctor_env \<Rightarrow> env_values \<Rightarrow> string \<Rightarrow> policy_engine res" where
  "load_policy E environment raw =
     load_bytes (de_policy E) (validate_policy (map_of environment) (de_expr E) (de_base32 E)) (de_sha256 E) raw"

definition check_engine :: "doctor_env \<Rightarrow> tree \<Rightarrow> policy_engine \<Rightarrow> unit check" where
  "check_engine E d engine =
     bind_io (set_scan (\<lambda>s. s\<lparr>sc_policy := Some engine\<rparr>)) (\<lambda>_.
     bind_io (add ''policy.validation'' PASS) (\<lambda>_.
     bind_io (get_scan sc_namespace) (\<lambda>namespace.
     if namespace = [] then ret_io ()
     else for_each (\<lambda>p. check_server_image E d (''portunusmcp-upstream-'' @ namespace @ ''-'') (snd p))
       (p_servers (e_policy engine)))))"

definition check_loaded :: "doctor_env \<Rightarrow> tree \<Rightarrow> string \<Rightarrow> env_values \<times> bool \<Rightarrow> unit check" where
  "check_loaded E d raw r =
     (if \<not> snd r then ret_io ()
      else (case load_policy E (fst r) raw of
              Inl e \<Rightarrow> add ''policy.validation'' ERROR
            | Inr engine \<Rightarrow> check_engine E d engine))"

definition check_policy_text :: "doctor_env \<Rightarrow> tree \<Rightarrow> layout \<Rightarrow> resolved \<Rightarrow> string \<Rightarrow> unit check" where
  "check_policy_text E d L rs p =
     (case bind_res (content_of d p) (\<lambda>raw. bind_res (de_yaml E raw) (\<lambda>data. Inr (raw, data))) of
        Inl e \<Rightarrow> if os_error e \<or> yaml_error e then add ''policy.validation'' ERROR else raise_io e
      | Inr r \<Rightarrow>
          bind_io (gateway_environment E d L (snd r) (rs_gateway_env rs)) (check_loaded E d (fst r)))"

definition check_policy :: "doctor_env \<Rightarrow> tree \<Rightarrow> layout \<Rightarrow> resolved \<Rightarrow> unit check" where
  "check_policy E d L rs =
     (let p = child d (rs_policy_dir rs) ''policy.yaml''
      in bind_io (check_file d ''filesystem.policy'' p mode_0600 True (Some (rs_owner rs))) (\<lambda>present.
         if \<not> present then ret_io () else check_policy_text E d L rs p))"

section \<open>Audit keys\<close>

definition key_digest :: "string \<Rightarrow> string" where
  "key_digest i = (if prefix ''sha256:'' i then drop 7 i else i)"

text \<open>A public key file: its name is the fingerprint of a P-256 key.\<close>

definition public_key_valid :: "doctor_env \<Rightarrow> tree \<Rightarrow> string \<Rightarrow> string \<Rightarrow> bool" where
  "public_key_valid E d p name \<longleftrightarrow>
     (case bind_res (content_of d p) (\<lambda>pem. bind_res (de_public_id E pem) (\<lambda>i. Inr (pem, i))) of
        Inl e \<Rightarrow> False
      | Inr (pem, i) \<Rightarrow>
          de_public_p256 E pem \<and> name = key_digest i @ ''.pub.pem'' \<and> lower_hex_64 (key_digest i))"

definition check_public_key :: "doctor_env \<Rightarrow> tree \<Rightarrow> string \<Rightarrow> int \<times> int \<Rightarrow> string \<Rightarrow> unit check" where
  "check_public_key E d public_dir owner name =
     (let p = child d public_dir name
      in if is_symlink d p then add ''audit.public_key'' ERROR
         else if \<not> public_key_valid E d p name then add ''audit.public_key'' ERROR
         else bind_io (check_file d ''filesystem.public_key'' p mode_0444 True (Some owner)) (\<lambda>_.
              add ''audit.public_key'' PASS))"

definition load_private_key :: "doctor_env \<Rightarrow> tree \<Rightarrow> string \<Rightarrow> (string \<times> string) option" where
  "load_private_key E d p =
     (case bind_res (content_of d p) (\<lambda>pem. bind_res (de_private_id E pem) (\<lambda>i. Inr (pem, i))) of
        Inl e \<Rightarrow> None
      | Inr (pem, i) \<Rightarrow> if de_private_p256 E pem then Some (pem, i) else None)"

definition check_private_key :: "doctor_env \<Rightarrow> tree \<Rightarrow> string \<Rightarrow> string \<Rightarrow> int \<times> int \<Rightarrow> string list \<Rightarrow> (string \<times> string) option check" where
  "check_private_key E d p public_dir owner names =
     (if is_symlink d p then bind_io (add ''audit.private_key'' ERROR) (\<lambda>_. ret_io None)
      else if \<not> exists_path d p
      then bind_io (if names = [] then add_repair ''audit.private_key'' (MintKey p public_dir) True
                    else add ''audit.private_key'' ERROR) (\<lambda>_. ret_io None)
      else bind_io (check_file d ''filesystem.private_key'' p mode_0600 True (Some owner)) (\<lambda>_.
           bind_io (add ''audit.private_key'' (if load_private_key E d p = None then ERROR else PASS)) (\<lambda>_.
             ret_io (load_private_key E d p))))"

definition check_active_key :: "tree \<Rightarrow> string \<Rightarrow> (string \<times> string) option \<Rightarrow> unit check" where
  "check_active_key d public_dir key =
     (case key of
        None \<Rightarrow> ret_io ()
      | Some (pem, i) \<Rightarrow>
          if \<not> is_dir d public_dir then ret_io ()
          else bind_io (of_res (public_path i)) (\<lambda>name.
            if exists_path d (child d public_dir name) then add ''audit.public_key.active'' PASS
            else add_repair ''audit.public_key.active'' (EnsurePublic pem public_dir) True))"

definition check_audit_keys :: "doctor_env \<Rightarrow> tree \<Rightarrow> resolved \<Rightarrow> unit check" where
  "check_audit_keys E d rs =
     (let public_dir = child d (rs_audit_dir rs) ''public'';
          names = (if is_dir d public_dir then public_names d public_dir else [])
      in bind_io (check_private_key E d (child d (rs_audit_dir rs) ''audit_signing_key.pem'') public_dir (rs_owner rs) names) (\<lambda>key.
         bind_io (for_each (check_public_key E d public_dir (rs_owner rs)) names) (\<lambda>_.
           check_active_key d public_dir key)))"

section \<open>The network and readiness\<close>

text \<open>\<open>int(v)\<close> of a JSON value; the fraction of a float is cut off.\<close>

fun int_of_json :: "json \<Rightarrow> int res" where
  "int_of_json (JStr s) = int_res s"
| "int_of_json (JInt n) = Inr n"
| "int_of_json (JBool b) = Inr (if b then 1 else 0)"
| "int_of_json (JFloat (FinF q)) = Inr (if q < 0 then - \<lfloor>- q\<rfloor> else \<lfloor>q\<rfloor>)"
| "int_of_json (JFloat NaN) = Inl (ValueError ''cannot convert float NaN to integer'')"
| "int_of_json (JFloat v) = Inl OverflowError"
| "int_of_json v = Inl TypeError"

definition port_error :: "exn \<Rightarrow> bool" where
  "port_error e \<longleftrightarrow> e = KeyError \<or> e = TypeError \<or> value_error e"

text \<open>\<open>binding[k]\<close>: a \<open>TypeError\<close> unless it is an object.\<close>

fun item_of :: "string \<Rightarrow> json \<Rightarrow> json res" where
  "item_of k (JObj o1) = (case map_of o1 k of None \<Rightarrow> Inl KeyError | Some v \<Rightarrow> Inr v)"
| "item_of k v = Inl TypeError"

definition owned_binding :: "json \<Rightarrow> (json \<times> int) list res" where
  "owned_binding b =
     (case bind_res (item_of ''HostIp'' b) (\<lambda>host. bind_res (item_of ''HostPort'' b) (\<lambda>p.
             bind_res (int_of_json p) (\<lambda>n. bind_res (hash_key host) (\<lambda>h. Inr (h, n))))) of
        Inr hp \<Rightarrow> Inr [hp]
      | Inl e \<Rightarrow> if port_error e then Inr [] else Inl e)"

definition owned_ports :: "(json \<times> json) list \<Rightarrow> (json \<times> int) list res" where
  "owned_ports containers =
     bind_res (map_res (\<lambda>(k, c).
       bind_res (get_or ''NetworkSettings'' (JObj []) c) (\<lambda>settings.
       bind_res (get_or ''Ports'' (JObj []) settings) (\<lambda>ports.
       bind_res (values_of ports) (\<lambda>bindings.
       bind_res (map_res (\<lambda>bs. bind_res (iterate (py_or bs (JArr []))) (\<lambda>xs.
           bind_res (map_res owned_binding xs) (\<lambda>ys. Inr (concat ys)))) bindings) (\<lambda>zs. Inr (concat zs)))))) containers)
       (\<lambda>rs. Inr (concat rs))"

definition binding_host :: "doctor_env \<Rightarrow> json \<Rightarrow> string res" where
  "binding_host E b = bind_res (get_or ''host_ip'' (JStr ''0.0.0.0'') b) (\<lambda>v. Inr (py_text E v))"

definition binding_port :: "json \<Rightarrow> int res" where
  "binding_port b =
     bind_res (item_of ''published'' b) (\<lambda>v. bind_res (int_of_json v) (\<lambda>n.
       if 1 \<le> n \<and> n \<le> 65535 then Inr n else Inl (ValueError [])))"

text \<open>One published port: what is checked, and the host and port of a valid one.\<close>

definition check_binding :: "doctor_env \<Rightarrow> (json \<times> int) list \<Rightarrow> json \<Rightarrow> (string \<times> int) option check" where
  "check_binding E owned b =
     bind_io (of_res (binding_host E b)) (\<lambda>host.
     case binding_port b of
       Inl e \<Rightarrow> if port_error e then bind_io (add ''network.port'' ERROR) (\<lambda>_. ret_io None) else raise_io e
     | Inr port \<Rightarrow>
         bind_io (add ''network.binding'' (if de_loopback E host then PASS else ERROR)) (\<lambda>_.
         bind_io (add ''network.port''
           (if de_bind E host port \<or> (JStr host, port) \<in> set owned then PASS else ERROR)) (\<lambda>_.
           ret_io (Some (host, port)))))"

fun check_bindings :: "doctor_env \<Rightarrow> (json \<times> int) list \<Rightarrow> json list \<Rightarrow> (string \<times> int) list check" where
  "check_bindings E owned [] = ret_io []"
| "check_bindings E owned (b # bs) =
     bind_io (check_binding E owned b) (\<lambda>hp.
     bind_io (check_bindings E owned bs) (\<lambda>hps.
       ret_io (case hp of None \<Rightarrow> hps | Some x \<Rightarrow> x # hps)))"

definition check_service :: "doctor_env \<Rightarrow> (json \<times> int) list \<Rightarrow> json \<Rightarrow> string \<Rightarrow> (string \<times> int) list check" where
  "check_service E owned services name =
     bind_io (of_res (bind_res (get_or name (JObj []) services) (get_or ''ports'' (JArr [])))) (\<lambda>ports.
     if \<not> truthy ports then bind_io (add ''network.port'' ERROR) (\<lambda>_. ret_io [])
     else bind_io (of_res (iterate ports)) (check_bindings E owned))"

fun check_services :: "doctor_env \<Rightarrow> (json \<times> int) list \<Rightarrow> json \<Rightarrow> string list \<Rightarrow> (string \<times> int) list check" where
  "check_services E owned services [] = ret_io []"
| "check_services E owned services (name # names) =
     bind_io (check_service E owned services name) (\<lambda>hps.
     bind_io (check_services E owned services names) (\<lambda>rest.
       ret_io (if name = ''gateway'' then hps @ rest else rest)))"

definition check_forwarded :: "doctor_env \<Rightarrow> string \<Rightarrow> (string \<times> int) list \<Rightarrow> unit check" where
  "check_forwarded E allowed gateway_ports =
     add ''network.forwarded_allow_ips''
       (if allowed = ''*''
        then (if gateway_ports \<noteq> [] \<and> list_all (\<lambda>(host, port). de_loopback E host) gateway_ports then PASS else ERROR)
        else if list_all (\<lambda>v. let value = py_strip v in value \<noteq> [] \<and> de_network E value) (split_on CHR '','' allowed)
        then PASS else ERROR)"

definition check_ready :: "doctor_env \<Rightarrow> json option \<Rightarrow> (string \<times> int) list \<Rightarrow> unit check" where
  "check_ready E gateway gateway_ports =
     bind_io (of_res (case gateway of
         None \<Rightarrow> Inr False
       | Some c \<Rightarrow> bind_res (get_or ''State'' (JObj []) c) (\<lambda>state.
                   bind_res (get_or ''Running'' JNull state) (\<lambda>v. Inr (truthy v))))) (\<lambda>running.
     if \<not> running then add ''runtime.readiness'' INFO
     else (case gateway_ports of
             [] \<Rightarrow> add ''runtime.readiness'' ERROR
           | (host, port) # rest \<Rightarrow>
               (case de_ready E port of
                  ReadyRaises e \<Rightarrow> raise_io e
                | r \<Rightarrow> add ''runtime.readiness'' (if r = ReadyStatus 200 then PASS else ERROR))))"

definition service_names :: "layout \<Rightarrow> string list" where
  "service_names L =
     (if la_kind L = Quickstart then [''gateway''] else [''gateway'', ''prometheus'', ''grafana''])"

definition check_exposure :: "doctor_env \<Rightarrow> layout \<Rightarrow> (json \<times> json) list \<Rightarrow> json \<Rightarrow> (json \<times> int) list \<Rightarrow> unit check" where
  "check_exposure E L containers services owned =
     bind_io (check_services E owned services (service_names L)) (\<lambda>gateway_ports.
     bind_io (get_scan (\<lambda>s. value_or ''FORWARDED_ALLOW_IPS'' (sc_values s))) (\<lambda>allowed.
     bind_io (check_forwarded E allowed gateway_ports) (\<lambda>_.
       check_ready E (container ''gateway'' containers) gateway_ports)))"

definition check_network :: "doctor_env \<Rightarrow> layout \<Rightarrow> unit check" where
  "check_network E L =
     bind_io (get_scan sc_rendered) (\<lambda>r.
     case r of
       None \<Rightarrow> ret_io ()
     | Some rendered \<Rightarrow>
         bind_io (get_scan sc_containers) (\<lambda>containers.
         bind_io (of_res (get_or ''services'' (JObj []) (JObj rendered))) (\<lambda>services.
         bind_io (of_res (owned_ports containers)) (check_exposure E L containers services))))"

section \<open>A scan\<close>

definition check_resolved :: "doctor_env \<Rightarrow> tree \<Rightarrow> layout \<Rightarrow> resolved option \<Rightarrow> unit check" where
  "check_resolved E d L resolved =
     (case resolved of
        None \<Rightarrow> ret_io ()
      | Some rs \<Rightarrow> bind_io (check_audit_keys E d rs) (\<lambda>_. check_policy E d L rs))"

definition scan_all :: "doctor_env \<Rightarrow> tree \<Rightarrow> layout \<Rightarrow> unit check" where
  "scan_all E d L =
     bind_io (deployment E d L) (\<lambda>_.
     bind_io (check_docker E d) (\<lambda>ready.
     bind_io (check_compose E d L) (\<lambda>_.
     bind_io (namespace_and_gid E d L ready) (\<lambda>_.
     bind_io (check_paths E d L) (\<lambda>resolved.
     bind_io (check_resolved E d L resolved) (\<lambda>_.
       if ready then check_network E L else ret_io ()))))))"

definition scanned :: "doctor_env \<Rightarrow> tree \<Rightarrow> layout \<Rightarrow> bool \<Rightarrow> scan res" where
  "scanned E d L offers =
     (case scan_all E d L (new_scan offers) of (Inl e, s) \<Rightarrow> Inl e | (Inr u, s) \<Rightarrow> Inr s)"

end
