(* ===== verification/DoctorScan.thy ===== *)
theory DoctorScan
  imports Doctor
begin

text \<open>
  What a scan of \<open>services/doctor.py\<close> may do, and what it shows: the checks only add
  findings and safe repairs, and a scan without errors means a sound deployment.
\<close>

section \<open>What a check may do\<close>

text \<open>
  A check only adds findings and repairs. The repairs it adds change modes to the three
  documented ones, create what is not there, or set one of two keys of the deployment's
  environment file to a plain value. What all checks respect is a relation of the scan's
  states: the locale has the laws of such a relation, and the checks that respect every
  one of them.
\<close>

fun safe_action :: "layout \<Rightarrow> repair_action \<Rightarrow> bool" where
  "safe_action L (Chmod p m) = (m \<in> {0x1C0, mode_0600, mode_0444})"
| "safe_action L (UpdateEnv p key value) =
     (p = la_env L \<and> key \<in> {namespace_key L, ''DOCKER_GID''} \<and> plain_value value)"
| "safe_action L a = True"

definition clean :: "scan \<Rightarrow> bool" where
  "clean s \<longleftrightarrow> \<not> list_ex (\<lambda>f. fi_status f = ERROR) (sc_findings s)"

definition extends :: "layout \<Rightarrow> scan \<Rightarrow> scan \<Rightarrow> bool" where
  "extends L s s' \<longleftrightarrow> (clean s' \<longrightarrow> clean s) \<and>
     (\<forall>r \<in> set (sc_repairs s'). r \<in> set (sc_repairs s) \<or> safe_action L (re_action r))"

text \<open>What the checks read of each other.\<close>

definition known :: "scan \<Rightarrow> env_values \<times> jdict option \<times> (json \<times> json) list \<times> string" where
  "known s = (sc_values s, sc_rendered s, sc_containers s, sc_namespace s)"

definition keeps :: "(scan \<Rightarrow> scan \<Rightarrow> bool) \<Rightarrow> 'a check \<Rightarrow> bool" where
  "keeps R m \<longleftrightarrow> (\<forall>s. R s (snd (m s)))"

lemma keepsD: "keeps R m \<Longrightarrow> m s = (r, s') \<Longrightarrow> R s s'"
  unfolding keeps_def by (metis snd_conv)

locale scan_relation =
  fixes R :: "scan \<Rightarrow> scan \<Rightarrow> bool" and ok :: "repair_action \<Rightarrow> bool"
  assumes refl: "R s s"
    and trans: "R s s' \<Longrightarrow> R s' s'' \<Longrightarrow> R s s''"
    and adds: "(\<And>x. r = Some x \<Longrightarrow> ok (re_action x)) \<Longrightarrow> R s (snd (add_finding i st r s))"
    and loads: "R s (s\<lparr>sc_policy := e\<rparr>)"
    and modes: "m \<in> {0x1C0, mode_0600, mode_0444} \<Longrightarrow> ok (Chmod p m)"
    and creates: "ok (MakeDirectory p)" "ok (CreateEmpty p)" "ok (MintKey p q)" "ok (EnsurePublic p q)"
begin

lemma ret: "keeps R (ret_io a)" "keeps R (raise_io e)" "keeps R (of_res r)" "keeps R (get_scan g)"
  by (simp_all add: keeps_def refl get_scan_def)

lemma bind: "keeps R m \<Longrightarrow> (\<And>a. keeps R (f a)) \<Longrightarrow> keeps R (bind_io m f)"
  unfolding keeps_def bind_io_def by (auto split: prod.splits sum.splits) (metis trans snd_conv)+

lemma of_res_bind: "(\<And>a. r = Inr a \<Longrightarrow> keeps R (f a)) \<Longrightarrow> keeps R (bind_io (of_res r) f)"
  by (cases r) (auto simp: keeps_def bind_io_def refl)

lemma catch: "keeps R m \<Longrightarrow> keeps R h \<Longrightarrow> keeps R (catching which m h)"
  unfolding keeps_def catching_def by (auto split: prod.splits sum.splits) (metis trans snd_conv)+

lemma finding: "(\<And>x. r = Some x \<Longrightarrow> ok (re_action x)) \<Longrightarrow> keeps R (add_finding i st r)"
  using adds by (simp add: keeps_def)

lemma plain: "keeps R (add i st)"
  unfolding add_def by (rule finding) simp

lemma fixable: "ok a \<Longrightarrow> keeps R (add_repair i a restart)"
  unfolding add_repair_def by (rule finding) auto

lemma sets: "(\<And>s. R s (f s)) \<Longrightarrow> keeps R (set_scan f)"
  by (simp add: keeps_def set_scan_def)

lemma branch: "(b \<Longrightarrow> keeps R m) \<Longrightarrow> (\<not> b \<Longrightarrow> keeps R m') \<Longrightarrow> keeps R (if b then m else m')"
  by simp

lemma optional:
  "(x = None \<Longrightarrow> keeps R m) \<Longrightarrow> (\<And>y. x = Some y \<Longrightarrow> keeps R (f y)) \<Longrightarrow>
     keeps R (case x of None \<Rightarrow> m | Some y \<Rightarrow> f y)"
  by (cases x) simp_all

lemma either:
  "(\<And>e. x = Inl e \<Longrightarrow> keeps R (g e)) \<Longrightarrow> (\<And>y. x = Inr y \<Longrightarrow> keeps R (f y)) \<Longrightarrow>
     keeps R (case x of Inl e \<Rightarrow> g e | Inr y \<Rightarrow> f y)"
  by (cases x) simp_all

lemma both: "(\<And>a b. x = (a, b) \<Longrightarrow> keeps R (f a b)) \<Longrightarrow> keeps R (case x of (a, b) \<Rightarrow> f a b)"
  by (cases x) simp

lemma each: "(\<And>x. keeps R (f x)) \<Longrightarrow> keeps R (for_each f xs)"
  by (induction xs) (simp_all add: bind ret del: ret_io_app)

lemmas steps = of_res_bind bind catch ret plain fixable branch optional either both each

lemma files: "mode \<in> {0x1C0, mode_0600, mode_0444} \<Longrightarrow> keeps R (check_file d i p mode restart owner)"
  "keeps R (check_directory d i p owner restart)"
  by (auto simp: check_file_def check_directory_def check_owner_def intro!: steps modes creates simp del: ret_io_app)

lemma docker: "keeps R (check_docker E d)"
  unfolding check_docker_def by (intro steps)

lemma paths: "keeps R (check_paths E d L)"
  unfolding check_paths_def check_directories_def Let_def by (intro steps files)

lemma private_key: "keeps R (check_private_key E d p q owner names)"
  unfolding check_private_key_def by (intro steps files creates) simp

lemma public_key: "keeps R (check_public_key E d q owner name)"
  unfolding check_public_key_def Let_def by (intro steps files) simp

lemma active_key: "keeps R (check_active_key d q key)"
  unfolding check_active_key_def by (intro steps creates)

lemma audit_keys: "keeps R (check_audit_keys E d rs)"
  unfolding check_audit_keys_def Let_def by (intro steps private_key public_key active_key)

lemma gateway_file: "keeps R (check_gateway_file E d references p)"
  unfolding check_gateway_file_def by (intro steps files creates) simp_all

lemma references: "keeps R (check_references E references secrets env)"
  unfolding check_references_def Let_def by (intro steps)

lemma rendered: "keeps R (check_rendered E references secrets r)"
  unfolding check_rendered_def by (intro steps references)

lemma environment: "keeps R (gateway_environment E d L data p)"
  unfolding gateway_environment_def Let_def by (intro steps gateway_file rendered)

lemma server: "keeps R (check_server_image E d start sv)"
  unfolding check_server_image_def check_volume_def by (intro steps)

lemma engine: "keeps R (check_engine E d e)"
  unfolding check_engine_def by (intro steps sets loads server)

lemma loaded: "keeps R (check_loaded E d raw r)"
  unfolding check_loaded_def by (intro steps engine)

lemma policy_text: "keeps R (check_policy_text E d L rs p)"
  unfolding check_policy_text_def by (intro steps environment loaded)

lemma policy: "keeps R (check_policy E d L rs)"
  unfolding check_policy_def Let_def by (intro steps files policy_text) simp

lemma resolved: "keeps R (check_resolved E d L r)"
  unfolding check_resolved_def by (intro steps audit_keys policy)

lemma binding: "keeps R (check_binding E owned b)"
  unfolding check_binding_def by (intro steps)

lemma bindings: "keeps R (check_bindings E owned bs)"
  by (induction bs) (auto intro!: steps binding simp del: ret_io_app)

lemma services: "keeps R (check_services E owned svs names)"
  by (induction names) (auto simp: check_service_def intro!: steps bindings simp del: ret_io_app)

lemma ready: "keeps R (check_ready E gateway ports)"
  unfolding check_ready_def by (intro steps) (auto split: list.splits readiness.splits intro!: steps)

lemma exposure: "keeps R (check_exposure E L containers svs owned)"
  unfolding check_exposure_def check_forwarded_def by (intro steps services ready)

lemma network: "keeps R (check_network E L)"
  unfolding check_network_def by (intro steps exposure)

end

interpretation grow: scan_relation "extends L" "safe_action L" for L
  by unfold_locales (auto simp: extends_def clean_def add_finding_def split: option.splits)

interpretation same: scan_relation "\<lambda>s s'. known s' = known s" "\<lambda>a. True"
  by unfold_locales (auto simp: known_def add_finding_def)

text \<open>What is inferred or detected is a plain value.\<close>

lemma single_mem: "single ns = Some n \<Longrightarrow> n \<in> set ns"
  unfolding single_def by (metis (no_types, lifting) list.set_intros(1) list.simps(4) list.simps(5) neq_Nil_conv
    option.distinct(1) option.inject set_remdups)

lemma map_res_mem: "map_res f xs = Inr ys \<Longrightarrow> y \<in> set ys \<Longrightarrow> \<exists>x \<in> set xs. f x = Inr y"
  by (induction xs arbitrary: ys) (auto simp: bind_res_Inr_iff)

lemma inferred_ok:
  assumes "infer_namespace E d L = Inr (Some n)"
  shows "namespace_ok n"
proof -
  obtain ids where "inspect_namespace E d ids = Inr (Some n)"
    using assms by (auto simp only: infer_namespace_def bind_res_Inr_iff Let_def split: if_split_asm)
  then obtain items ns where ns: "map_res namespace_values items = Inr ns" "single (concat ns) = Some n"
    by (auto simp: inspect_namespace_def bind_res_Inr_iff)
  from single_mem [OF ns(2)] obtain xs where xs: "xs \<in> set ns" "n \<in> set xs" by auto
  then obtain it where "namespace_values it = Inr xs" using map_res_mem [OF ns(1)] by blast
  then obtain ys vs where ys: "xs = concat ys" "map_res (\<lambda>v. case v of JStr s \<Rightarrow>
        Inr (if prefix runtime_prefix s \<and> namespace_ok (drop (length runtime_prefix) s)
             then [drop (length runtime_prefix) s] else []) | _ \<Rightarrow> Inl AttributeError) vs = Inr ys"
    by (auto simp: namespace_values_def bind_res_Inr_iff)
  from ys(1) xs(2) obtain y where y: "y \<in> set ys" "n \<in> set y" by auto
  from map_res_mem [OF ys(2) y(1)] show ?thesis
  proof (elim bexE)
    fix v assume "(case v of JStr s \<Rightarrow>
        Inr (if prefix runtime_prefix s \<and> namespace_ok (drop (length runtime_prefix) s)
             then [drop (length runtime_prefix) s] else []) | _ \<Rightarrow> Inl AttributeError) = Inr y"
    with y(2) show ?thesis by (cases v) (auto split: if_splits)
  qed
qed

lemma namespace_char_plain: "namespace_char c \<or> c = CHR ''-'' \<Longrightarrow> plain_char c"
proof (elim disjE)
  show "namespace_char c \<Longrightarrow> plain_char c" unfolding namespace_char_def plain_char_def Let_def by blast
  have "plain_char CHR ''-''" by code_simp
  then show "c = CHR ''-'' \<Longrightarrow> plain_char c" by simp
qed

lemma namespace_plain: "namespace_ok n \<Longrightarrow> plain_value n"
  using namespace_char_plain by (auto simp: namespace_ok_def plain_value_def list_all_iff split: list.splits)

lemma digit_plain: "dec_char c \<or> c \<in> {CHR 0xB2, CHR 0xB3, CHR 0xB9} \<Longrightarrow> plain_char c"
proof -
  have "list_all plain_char [CHR 0xB2, CHR 0xB3, CHR 0xB9]" by code_simp
  moreover have "dec_char c \<Longrightarrow> plain_char c" unfolding dec_char_def plain_char_def Let_def by blast
  ultimately show "dec_char c \<or> c \<in> {CHR 0xB2, CHR 0xB3, CHR 0xB9} \<Longrightarrow> plain_char c" by auto
qed

lemma digits_plain: "py_isdigit s \<Longrightarrow> plain_value s"
  unfolding py_isdigit_def plain_value_def list_all_iff using digit_plain by blast

text \<open>The checks that set what others read.\<close>

lemma grow_sets:
  "(\<And>s. sc_findings (f s) = sc_findings s \<and> sc_repairs (f s) = sc_repairs s) \<Longrightarrow> keeps (extends L) (set_scan f)"
  by (rule grow.sets) (simp add: extends_def clean_def)

lemma grow_deployment: "keeps (extends L) (deployment E d L')"
  unfolding deployment_def check_present_def check_root_def check_primary_def read_primary_def
  by (intro grow.steps grow.files grow_sets) simp_all

lemma grow_compose: "keeps (extends L) (check_compose E d L')"
  unfolding check_compose_def by (intro grow.steps grow_sets) simp_all

lemma grow_namespace: "keeps (extends L) (namespace_and_gid E d L ready)"
proof -
  have one: "keeps (extends L) (check_namespace E d L ready)"
    unfolding check_namespace_def
    by (intro grow.steps grow_sets) (use inferred_ok namespace_plain in \<open>simp_all\<close>)
  have "keeps (extends L) (check_gid E d L)"
    unfolding check_gid_def compare_gid_def Let_def by (intro grow.steps) (simp add: digits_plain)
  with one show ?thesis unfolding namespace_and_gid_def by (intro grow.steps)
qed

lemma grow_scan: "keeps (extends L) (scan_all E d L)"
  unfolding scan_all_def
  by (intro grow.steps grow_deployment grow.docker grow_compose grow_namespace grow.paths grow.resolved grow.network)

section \<open>What a check without errors shows\<close>

definition sound_file :: "tree \<Rightarrow> string \<Rightarrow> nat \<Rightarrow> (int \<times> int) option \<Rightarrow> bool" where
  "sound_file d p mode owner \<longleftrightarrow>
     \<not> is_symlink d p \<and> is_file d p \<and> mode_of d p = mode \<and> (\<forall>u. owner = Some u \<longrightarrow> owner_of d p = Some u)"

definition sound_directory :: "tree \<Rightarrow> string \<Rightarrow> (int \<times> int) option \<Rightarrow> bool" where
  "sound_directory d p owner \<longleftrightarrow>
     \<not> is_symlink d p \<and> is_dir d p \<and> mode_of d p = 0x1C0 \<and> (\<forall>u. owner = Some u \<longrightarrow> owner_of d p = Some u)"

lemma clean_grows: "keeps (extends L) m \<Longrightarrow> m s = (r, s') \<Longrightarrow> clean s' \<Longrightarrow> clean s"
  by (drule keepsD) (auto simp: extends_def)

lemma add_clean: "add i st s = (r, s') \<Longrightarrow> clean s' \<Longrightarrow> st \<noteq> ERROR \<and> known s' = known s"
  by (auto simp: add_def add_finding_def clean_def known_def)

lemma repair_unclean: "add_repair i a restart s = (r, s') \<Longrightarrow> \<not> clean s'"
  by (auto simp: add_repair_def add_finding_def clean_def)

lemmas check_evals = add_def add_repair_def add_finding_def clean_def bind_io_def

lemma file_clean:
  "check_file d i p mode restart owner s = (Inr b, s') \<Longrightarrow> clean s' \<Longrightarrow> b \<and> sound_file d p mode owner"
  by (auto simp: check_file_def check_owner_def sound_file_def check_evals split: if_splits option.splits)

lemma directory_clean:
  "check_directory d i p owner restart s = (Inr b, s') \<Longrightarrow> clean s' \<Longrightarrow> sound_directory d p owner"
  by (auto simp: check_directory_def check_owner_def sound_directory_def check_evals split: if_splits option.splits)

lemma for_each_clean:
  assumes "for_each f xs s = (Inr u, s')" and "clean s'" and "\<And>x. keeps (extends L) (f x)"
    and "\<And>x t t' v. f x t = (Inr v, t') \<Longrightarrow> clean t' \<Longrightarrow> P x"
  shows "\<forall>x \<in> set xs. P x"
  using assms(1)
proof (induction xs arbitrary: s)
  case (Cons x xs)
  from Cons.prems obtain v t where t: "f x s = (Inr v, t)" "for_each f xs t = (Inr u, s')"
    by (auto elim: bind_io_InrE)
  have "clean t" using clean_grows [OF grow.each t(2) assms(2)] assms(3) by blast
  with t assms(4) Cons.IH show ?case by auto
qed simp

lemma deployment_clean:
  assumes "deployment E d L s = (Inr u, s')" and "clean s'"
  shows "sound_file d (la_env L) mode_0600 None \<and> \<not> is_symlink d (la_compose L) \<and> is_file d (la_compose L) \<and>
    read_env E d (la_env L) = Inr (sc_values s', [])"
  using assms(1) unfolding deployment_def
proof (elim bind_io_InrE)
  fix u1 u2 u3 u4 s1 s2 s3 s4
  assume s3: "check_present d ''deployment.environment'' (la_env L) s2 = (Inr u3, s3)"
    and s4: "check_present d ''deployment.compose'' (la_compose L) s3 = (Inr u4, s4)"
    and s': "check_primary E d L s4 = (Inr u, s')"
  have "keeps (extends L) (check_primary E d L)" "keeps (extends L) (check_present d i p)" for i p
    unfolding check_primary_def read_primary_def check_present_def
    by (intro grow.steps grow.files grow_sets; simp)+
  then have c: "clean s4" "clean s3" using clean_grows s' s4 assms(2) by blast+
  have env: "\<not> is_symlink d (la_env L)" "is_file d (la_env L)"
    using add_clean [OF s3 [unfolded check_present_def] c(2)] by (simp_all split: if_splits)
  have compose: "\<not> is_symlink d (la_compose L)" "is_file d (la_compose L)"
    using add_clean [OF s4 [unfolded check_present_def] c(1)] by (simp_all split: if_splits)
  from s' env obtain b s5 where s5: "check_file d ''filesystem.primary_env'' (la_env L) mode_0600 False None s4 = (Inr b, s5)"
    and last: "read_primary E d L s5 = (Inr u, s')"
    by (auto simp: check_primary_def elim: bind_io_InrE)
  have "keeps (extends L) (read_primary E d L)"
    unfolding read_primary_def by (intro grow.steps grow_sets; simp)
  then have "sound_file d (la_env L) mode_0600 None" using file_clean [OF s5] clean_grows last assms(2) by blast
  moreover have "read_env E d (la_env L) = Inr (sc_values s', [])"
    using last assms(2)
    by (auto simp: read_primary_def catching_def set_scan_def check_evals split: sum.splits if_splits prod.splits)
  ultimately show ?thesis using compose by simp
qed

lemma docker_clean: "check_docker E d s = (Inr ready, s') \<Longrightarrow> clean s' \<Longrightarrow> ready"
  by (auto simp: check_docker_def catching_def check_evals split: sum.splits if_splits prod.splits)

lemma compose_clean:
  assumes "check_compose E d L s = (Inr u, s')" and "clean s'" and "is_file d (la_compose L)" and "is_file d (la_env L)"
  shows "sc_values s' = sc_values s \<and> (\<exists>rendered. render E d L = Inr rendered \<and> sc_rendered s' = Some rendered)"
proof (cases "render E d L")
  case (Inl e)
  then show ?thesis using assms by (auto simp: check_compose_def check_evals split: if_splits)
next
  case (Inr rendered)
  then show ?thesis using assms
    by (auto simp: check_compose_def set_scan_def add_def add_finding_def elim!: bind_io_InrE)
qed

text \<open>The namespace is the file's, and the group id is the one docker shows.\<close>

lemma namespace_clean:
  assumes "check_namespace E d L True s = (Inr u, s')" and "clean s'"
  shows "namespace_ok (sc_namespace s') \<and> sc_namespace s' = value_or (namespace_key L) (sc_values s) \<and>
    sc_values s' = sc_values s \<and> sc_rendered s' = sc_rendered s \<and> sc_containers s' = sc_containers s"
proof (cases "namespace_ok (value_or (namespace_key L) (sc_values s))")
  case True
  then show ?thesis using assms
    by (auto simp: check_namespace_def get_scan_def set_scan_def add_def add_finding_def elim!: bind_io_InrE)
next
  case False
  show ?thesis
  proof (cases "infer_namespace E d L")
    case (Inr inferred)
    then show ?thesis using assms False
      by (cases inferred) (auto simp: check_namespace_def get_scan_def set_scan_def check_evals)
  qed (use assms False in \<open>auto simp: check_namespace_def get_scan_def set_scan_def bind_io_def\<close>)
qed

definition gid_shown :: "doctor_env \<Rightarrow> tree \<Rightarrow> string \<Rightarrow> bool" where
  "gid_shown E d gid \<longleftrightarrow>
     (\<exists>img out. img \<noteq> [] \<and> docker_run E d False (gid_probe img) = Inr (0, out) \<and> py_strip out = gid)"

lemma compare_clean:
  "compare_gid L configured r s = (Inr u, s') \<Longrightarrow> clean s' \<Longrightarrow> fst r = 0 \<and> py_strip (snd r) = configured \<and> known s' = known s"
  unfolding compare_gid_def Let_def by (auto dest: add_clean repair_unclean split: if_splits)

lemma gid_clean:
  assumes "check_gid E d L s = (Inr u, s')" and "clean s'"
  shows "gid_shown E d (value_or ''DOCKER_GID'' (sc_values s)) \<and> known s' = known s"
proof -
  obtain running where running: "running_image (sc_containers s) = Inr running"
    using assms(1) by (cases "running_image (sc_containers s)") (auto simp: check_gid_def get_scan_def bind_io_def)
  let ?img = "gateway_image E L running (sc_values s)" and ?gid = "value_or ''DOCKER_GID'' (sc_values s)"
  have tail: "(if ?img = [] then add ''docker.socket_gid'' ERROR
        else bind_io (of_res (docker_run E d False (gid_probe ?img))) (compare_gid L ?gid)) s = (Inr u, s')"
    using assms(1) running by (simp add: check_gid_def get_scan_def bind_io_def Let_def)
  then have img: "?img \<noteq> []" using assms(2) add_clean [of "''docker.socket_gid''" ERROR s "Inr u" s'] by auto
  with tail obtain r where r: "docker_run E d False (gid_probe ?img) = Inr r" "compare_gid L ?gid r s = (Inr u, s')"
    by (auto simp: bind_io_def split: sum.splits)
  from compare_clean [OF r(2) assms(2)] r(1) img show ?thesis
    unfolding gid_shown_def by (metis prod.collapse)
qed

lemma paths_clean:
  assumes "check_paths E d L s = (Inr r, s')" and "clean s'"
  shows "\<exists>rs0. locations E L (sc_values s) (sc_rendered s) = Inr rs0 \<and> r = Some (expanded E rs0) \<and>
    sound_directory d (rs_policy_dir (expanded E rs0)) (Some (rs_owner rs0)) \<and>
    sound_directory d (rs_audit_dir (expanded E rs0)) (Some (rs_owner rs0)) \<and>
    sound_directory d (child d (rs_audit_dir (expanded E rs0)) ''public'') (Some (rs_owner rs0))"
proof (cases "locations E L (sc_values s) (sc_rendered s)")
  case (Inl e)
  then show ?thesis using assms by (auto simp: check_paths_def get_scan_def check_evals split: if_splits)
next
  case (Inr rs0)
  let ?rs = "expanded E rs0"
  have owner: "rs_owner ?rs = rs_owner rs0" by (simp add: expanded_def)
  have "check_directories d ?rs s = (Inr r, s')" using assms(1) Inr by (simp add: check_paths_def get_scan_def bind_io_def)
  then show ?thesis
    unfolding check_directories_def Let_def owner
  proof (elim bind_io_InrE)
    fix b1 b2 b3 b4 s1 s2 s3 s4
    assume s1: "check_directory d ''filesystem.policy_dir'' (rs_policy_dir ?rs) (Some (rs_owner rs0)) True s = (Inr b1, s1)"
      and s2: "check_directory d ''filesystem.revisions_dir'' (child d (rs_policy_dir ?rs) ''revisions'') (Some (rs_owner rs0)) True s1 = (Inr b2, s2)"
      and s3: "check_directory d ''filesystem.audit_dir'' (rs_audit_dir ?rs) (Some (rs_owner rs0)) True s2 = (Inr b3, s3)"
      and s4: "check_directory d ''filesystem.public_dir'' (child d (rs_audit_dir ?rs) ''public'') (Some (rs_owner rs0)) True s3 = (Inr b4, s4)"
      and last: "ret_io (Some ?rs) s4 = (Inr r, s')"
    have c4: "clean s4" using last assms(2) by simp
    note c3 = clean_grows [OF grow.files(2) s4 c4]
    note c2 = clean_grows [OF grow.files(2) s3 c3]
    note c1 = clean_grows [OF grow.files(2) s2 c2]
    show ?thesis
      using Inr last directory_clean [OF s1 c1] directory_clean [OF s3 c3] directory_clean [OF s4 c4] by auto
  qed
qed

lemma private_clean:
  assumes "check_private_key E d p q owner names s = (Inr key, s')" and "clean s'"
  shows "\<exists>ki. key = Some ki \<and> load_private_key E d p = Some ki \<and> sound_file d p mode_0600 (Some owner)"
proof -
  have there: "\<not> is_symlink d p \<and> exists_path d p"
    using assms by (auto simp: check_private_key_def check_evals split: if_splits)
  then have "bind_io (check_file d ''filesystem.private_key'' p mode_0600 True (Some owner)) (\<lambda>_.
      bind_io (add ''audit.private_key'' (if load_private_key E d p = None then ERROR else PASS)) (\<lambda>_.
        ret_io (load_private_key E d p))) s = (Inr key, s')"
    using assms(1) by (simp add: check_private_key_def)
  then show ?thesis
  proof (elim bind_io_InrE)
    fix b s1 u s2
    assume s1: "check_file d ''filesystem.private_key'' p mode_0600 True (Some owner) s = (Inr b, s1)"
      and s2: "add ''audit.private_key'' (if load_private_key E d p = None then ERROR else PASS) s1 = (Inr u, s2)"
      and last: "ret_io (load_private_key E d p) s2 = (Inr key, s')"
    have c2: "clean s2" using last assms(2) by simp
    have "load_private_key E d p \<noteq> None" using add_clean [OF s2 c2] by (simp split: if_splits)
    then show ?thesis using last file_clean [OF s1 clean_grows [OF grow.plain s2 c2]] by auto
  qed
qed

lemma public_clean:
  assumes "check_public_key E d q owner n s = (Inr u, s')" and "clean s'"
  shows "public_key_valid E d (child d q n) n \<and> sound_file d (child d q n) mode_0444 (Some owner)"
proof -
  have ok: "\<not> is_symlink d (child d q n) \<and> public_key_valid E d (child d q n) n"
    using assms by (auto simp: check_public_key_def Let_def check_evals split: if_splits)
  then have "bind_io (check_file d ''filesystem.public_key'' (child d q n) mode_0444 True (Some owner)) (\<lambda>_.
      add ''audit.public_key'' PASS) s = (Inr u, s')"
    using assms(1) by (simp add: check_public_key_def)
  then show ?thesis
  proof (elim bind_io_InrE)
    fix b s1
    assume s1: "check_file d ''filesystem.public_key'' (child d q n) mode_0444 True (Some owner) s = (Inr b, s1)"
      and s2: "add ''audit.public_key'' PASS s1 = (Inr u, s')"
    show ?thesis using ok file_clean [OF s1 clean_grows [OF grow.plain s2 assms(2)]] by simp
  qed
qed

text \<open>The key ring: an active private key whose public half is archived, and no stray file.\<close>

definition sound_keys :: "doctor_env \<Rightarrow> tree \<Rightarrow> string \<Rightarrow> int \<times> int \<Rightarrow> bool" where
  "sound_keys E d audit_dir owner \<longleftrightarrow>
     (let p = child d audit_dir ''audit_signing_key.pem''; q = child d audit_dir ''public''
      in sound_file d p mode_0600 (Some owner) \<and>
         (\<exists>pem i name. load_private_key E d p = Some (pem, i) \<and> public_path i = Inr name \<and> exists_path d (child d q name)) \<and>
         (\<forall>n \<in> set (public_names d q). public_key_valid E d (child d q n) n \<and> sound_file d (child d q n) mode_0444 (Some owner)))"

lemma keys_clean:
  assumes "check_audit_keys E d rs s = (Inr u, s')" and "clean s'"
    and "is_dir d (child d (rs_audit_dir rs) ''public'')"
  shows "sound_keys E d (rs_audit_dir rs) (rs_owner rs)"
proof -
  let ?p = "child d (rs_audit_dir rs) ''audit_signing_key.pem''" and ?q = "child d (rs_audit_dir rs) ''public''"
  show ?thesis
    using assms(1) unfolding check_audit_keys_def Let_def if_P [OF assms(3)]
  proof (elim bind_io_InrE)
    fix key s1 v s2
    assume s1: "check_private_key E d ?p ?q (rs_owner rs) (public_names d ?q) s = (Inr key, s1)"
      and s2: "for_each (check_public_key E d ?q (rs_owner rs)) (public_names d ?q) s1 = (Inr v, s2)"
      and last: "check_active_key d ?q key s2 = (Inr u, s')"
    note c2 = clean_grows [OF grow.active_key last assms(2)]
    note c1 = clean_grows [OF grow.each [OF grow.public_key] s2 c2]
    from private_clean [OF s1 c1] obtain pem i where ki: "key = Some (pem, i)" "load_private_key E d ?p = Some (pem, i)"
      "sound_file d ?p mode_0600 (Some (rs_owner rs))" by auto
    have "\<exists>name. public_path i = Inr name \<and> exists_path d (child d ?q name)"
      using last ki(1) assms(2,3) by (auto simp: check_active_key_def bind_io_def dest: repair_unclean split: sum.splits if_splits)
    moreover have "\<forall>n \<in> set (public_names d ?q).
        public_key_valid E d (child d ?q n) n \<and> sound_file d (child d ?q n) mode_0444 (Some (rs_owner rs))"
      by (rule for_each_clean [OF s2 c2 grow.public_key]) (use public_clean in blast)
    ultimately show ?thesis using ki by (auto simp: sound_keys_def Let_def)
  qed
qed

section \<open>The policy of a sound deployment\<close>

lemma volume_clean:
  assumes "check_volume E d start m s = (Inr u, s')" and "clean s'"
  shows "prefix start (m_source m) \<and> (\<exists>out. docker_run E d False [''docker'', ''volume'', ''inspect'', m_source m] = Inr (0, out))"
  using assms by (auto simp: check_volume_def check_evals split: if_splits sum.splits prod.splits)

definition sound_server :: "doctor_env \<Rightarrow> tree \<Rightarrow> string \<Rightarrow> upstream_server \<Rightarrow> bool" where
  "sound_server E d namespace sv \<longleftrightarrow>
     immutable_image (us_image sv) \<and>
     (\<exists>out. docker_run E d False [''docker'', ''image'', ''inspect'', us_image sv] = Inr (0, out)) \<and>
     (\<forall>m \<in> set (us_volumes sv). prefix (''portunusmcp-upstream-'' @ namespace @ ''-'') (m_source m) \<and>
        (\<exists>out. docker_run E d False [''docker'', ''volume'', ''inspect'', m_source m] = Inr (0, out)))"

lemma server_clean:
  assumes "check_server_image E d (''portunusmcp-upstream-'' @ namespace @ ''-'') sv s = (Inr u, s')" and "clean s'"
  shows "sound_server E d namespace sv"
proof -
  let ?start = "''portunusmcp-upstream-'' @ namespace @ ''-''"
  have volume: "keeps (extends L) (check_volume E d ?start m)" for L m
    unfolding check_volume_def by (intro grow.steps)
  show ?thesis
    using assms(1) unfolding check_server_image_def
  proof (elim bind_io_InrE)
    fix u1 s1 r s2
    assume s1: "add ''policy.image.digest'' (if immutable_image (us_image sv) then PASS else ERROR) s = (Inr u1, s1)"
      and s2: "of_res (docker_run E d False [''docker'', ''image'', ''inspect'', us_image sv]) s1 = (Inr r, s2)"
      and rest: "(case r of (code, out) \<Rightarrow> bind_io (add ''policy.image.available'' (if code \<noteq> 0 then ERROR else PASS)) (\<lambda>_.
          for_each (check_volume E d ?start) (us_volumes sv))) s2 = (Inr u, s')"
    obtain code out where r: "r = (code, out)" by force
    from rest obtain u3 s3 where s3: "add ''policy.image.available'' (if code \<noteq> 0 then ERROR else PASS) s2 = (Inr u3, s3)"
      and s': "for_each (check_volume E d ?start) (us_volumes sv) s3 = (Inr u, s')"
      by (auto simp: r elim: bind_io_InrE)
    note c3 = clean_grows [OF grow.each [OF volume] s' assms(2)]
    have c1: "clean s1" using clean_grows [OF grow.plain s3 c3] s2 by simp
    have "code = 0" using add_clean [OF s3 c3] by (simp split: if_splits)
    moreover have "immutable_image (us_image sv)" using add_clean [OF s1 c1] by (simp split: if_splits)
    moreover have "\<forall>m \<in> set (us_volumes sv). prefix ?start (m_source m) \<and>
        (\<exists>out. docker_run E d False [''docker'', ''volume'', ''inspect'', m_source m] = Inr (0, out))"
      by (rule for_each_clean [OF s' assms(2) volume]) (rule volume_clean)
    ultimately show ?thesis using s2 by (simp add: sound_server_def r)
  qed
qed

definition references_of :: "json \<Rightarrow> string list" where
  "references_of data = remdups (fst (policy_references data) @ snd (policy_references data))"

lemma environment_clean:
  assumes "gateway_environment E d L data p s = (Inr r, s')" and "clean s'" and "sc_rendered s = Some o1"
  shows "\<exists>env. rendered_environment o1 = Inr env \<and> r = (map (\<lambda>(k, v). (k, py_text E v)) env, True) \<and>
    missing_references env (references_of data) (snd (policy_references data)) = [] \<and>
    (la_kind L = Production \<longrightarrow> sound_file d p mode_0600 None)"
  using assms(1) unfolding gateway_environment_def Let_def references_of_def [symmetric]
proof (elim bind_io_InrE)
  fix ok s1
  assume s1: "(if la_kind L = Production then check_gateway_file E d (references_of data) p else ret_io True) s = (Inr ok, s1)"
    and rest: "(if \<not> ok then ret_io ([], False)
        else bind_io (get_scan sc_rendered) (check_rendered E (references_of data) (snd (policy_references data)))) s1 = (Inr r, s')"
  have file_sound: "ok \<and> sound_file d p mode_0600 None"
    if "check_gateway_file E d (references_of data) p s = (Inr ok, s1)" "clean s1"
  proof -
    have "\<not> is_symlink d p \<and> exists_path d p"
      using that by (auto simp: check_gateway_file_def check_evals split: if_splits)
    then have "bind_io (check_file d ''filesystem.gateway_env'' p mode_0600 True None) (\<lambda>_.
        case read_env E d p of
          Inl e \<Rightarrow>
            if os_error e \<or> doctor_error e
            then bind_io (add ''deployment.gateway_environment.parse'' ERROR) (\<lambda>_. ret_io False)
            else raise_io e
        | Inr (vs, duplicates) \<Rightarrow>
            if duplicates \<noteq> [] then bind_io (add ''deployment.gateway_environment.duplicates'' ERROR) (\<lambda>_. ret_io False)
            else ret_io True) s = (Inr ok, s1)"
      using that(1) by (simp add: check_gateway_file_def)
    then obtain b s0 where s0: "check_file d ''filesystem.gateway_env'' p mode_0600 True None s = (Inr b, s0)"
      and tail: "(case read_env E d p of
          Inl e \<Rightarrow>
            if os_error e \<or> doctor_error e
            then bind_io (add ''deployment.gateway_environment.parse'' ERROR) (\<lambda>_. ret_io False)
            else raise_io e
        | Inr (vs, duplicates) \<Rightarrow>
            if duplicates \<noteq> [] then bind_io (add ''deployment.gateway_environment.duplicates'' ERROR) (\<lambda>_. ret_io False)
            else ret_io True) s0 = (Inr ok, s1)"
      by (elim bind_io_InrE) blast
    from tail that(2) have "ok \<and> s1 = s0" by (auto simp: check_evals split: sum.splits if_splits prod.splits)
    then show ?thesis using file_clean [OF s0] that(2) by simp
  qed
  have c1: "clean s1"
  proof (cases ok)
    case True
    then show ?thesis using clean_grows [OF grow.bind [OF grow.ret(4) grow.rendered] _ assms(2)] rest by simp
  qed (use rest assms(2) in simp)
  have ok: "ok" using s1 file_sound c1 by (auto split: if_splits)
  have "known s1 = known s" using s1 keepsD [OF same.gateway_file] by (auto split: if_splits)
  then have "sc_rendered s1 = Some o1" using assms(3) by (simp add: known_def)
  then obtain env where env: "rendered_environment o1 = Inr env"
    and s2: "check_references E (references_of data) (snd (policy_references data)) env s1 = (Inr r, s')"
    using rest ok by (auto simp: get_scan_def bind_io_def check_rendered_def split: sum.splits)
  let ?missing = "missing_references env (references_of data) (snd (policy_references data))"
  from s2 obtain u t where t: "for_each (\<lambda>n. add ''policy.environment'' ERROR) ?missing s1 = (Inr u, t)"
    and t': "bind_io (if ?missing = [] then add ''policy.environment'' PASS else ret_io ()) (\<lambda>_.
           ret_io (map (\<lambda>(k, v). (k, py_text E v)) env, ?missing = [])) t = (Inr r, s')"
    by (auto simp: check_references_def Let_def elim: bind_io_InrE)
  have "keeps (extends L) (bind_io (if ?missing = [] then add ''policy.environment'' PASS else ret_io ()) (\<lambda>_.
           ret_io (map (\<lambda>(k, v). (k, py_text E v)) env, ?missing = [])))"
    by (intro grow.bind grow.branch grow.plain grow.ret)
  then have "clean t" using t' assms(2) by (rule clean_grows)
  then have "\<forall>n \<in> set ?missing. False"
    by (intro for_each_clean [OF t _ grow.plain]) (use add_clean in blast)+
  then have "?missing = []" by simp
  moreover have "r = (map (\<lambda>(k, v). (k, py_text E v)) env, ?missing = [])" using t' by (auto elim: bind_io_InrE)
  moreover have "la_kind L = Production \<longrightarrow> sound_file d p mode_0600 None"
    using s1 file_sound c1 by (auto split: if_splits)
  ultimately show ?thesis using env by simp
qed

text \<open>
  The policy file, loaded with the environment the gateway gets: everything it refers to
  is set, and every server is what the namespace allows.
\<close>

definition sound_policy :: "doctor_env \<Rightarrow> tree \<Rightarrow> layout \<Rightarrow> resolved \<Rightarrow> jdict \<Rightarrow> string \<Rightarrow> bool" where
  "sound_policy E d L rs rendered namespace \<longleftrightarrow>
     (let p = child d (rs_policy_dir rs) ''policy.yaml''
      in sound_file d p mode_0600 (Some (rs_owner rs)) \<and>
         (la_kind L = Production \<longrightarrow> sound_file d (rs_gateway_env rs) mode_0600 None) \<and>
         (\<exists>raw data env engine. content_of d p = Inr raw \<and> de_yaml E raw = Inr data \<and>
            rendered_environment rendered = Inr env \<and>
            (\<forall>n \<in> set (references_of data). has_key env n \<and>
              (n \<in> set (snd (policy_references data)) \<longrightarrow> truthy (dget env n))) \<and>
            load_policy E (map (\<lambda>(k, v). (k, py_text E v)) env) raw = Inr engine \<and>
            (\<forall>(i, sv) \<in> set (p_servers (e_policy engine)). sound_server E d namespace sv)))"

lemma engine_clean:
  assumes "check_engine E d engine s = (Inr u, s')" and "clean s'" and "sc_namespace s \<noteq> []"
  shows "\<forall>(i, sv) \<in> set (p_servers (e_policy engine)). sound_server E d (sc_namespace s) sv"
proof -
  let ?f = "\<lambda>p. check_server_image E d (''portunusmcp-upstream-'' @ sc_namespace s @ ''-'') (snd p)"
  obtain t where t: "for_each ?f (p_servers (e_policy engine)) t = (Inr u, s')"
    using assms(1,3) by (auto simp: check_engine_def bind_io_def set_scan_def get_scan_def add_def add_finding_def)
  have "\<forall>p \<in> set (p_servers (e_policy engine)). sound_server E d (sc_namespace s) (snd p)"
    by (rule for_each_clean [OF t assms(2) grow.server]) (use server_clean in blast)
  then show ?thesis by auto
qed

lemma policy_clean:
  assumes "check_policy E d L rs s = (Inr u, s')" and "clean s'"
    and "sc_rendered s = Some rendered" and "sc_namespace s \<noteq> []"
  shows "sound_policy E d L rs rendered (sc_namespace s)"
proof -
  let ?p = "child d (rs_policy_dir rs) ''policy.yaml''"
  obtain b s1 where s1: "check_file d ''filesystem.policy'' ?p mode_0600 True (Some (rs_owner rs)) s = (Inr b, s1)"
    and rest: "(if \<not> b then ret_io () else check_policy_text E d L rs ?p) s1 = (Inr u, s')"
    using assms(1) by (auto simp: check_policy_def Let_def elim: bind_io_InrE)
  have "keeps (extends L) (if \<not> b then ret_io () else check_policy_text E d L rs ?p)"
    by (intro grow.branch grow.ret grow.policy_text)
  then have "clean s1" using rest assms(2) by (rule clean_grows)
  then have b: b "sound_file d ?p mode_0600 (Some (rs_owner rs))" using file_clean [OF s1] by auto
  have k1: "sc_rendered s1 = Some rendered" "sc_namespace s1 = sc_namespace s"
    using keepsD [OF same.files(1) s1] assms(3) by (simp_all add: known_def)
  have read: "check_policy_text E d L rs ?p s1 = (Inr u, s')" using rest b(1) by simp
  obtain raw data where raw: "content_of d ?p = Inr raw" "de_yaml E raw = Inr data"
    using read assms(2) by (auto simp: check_policy_text_def check_evals bind_res_Inr_iff split: sum.splits if_splits)
  then obtain r s2 where s2: "gateway_environment E d L data (rs_gateway_env rs) s1 = (Inr r, s2)"
    and s': "check_loaded E d raw r s2 = (Inr u, s')"
    using read by (auto simp: check_policy_text_def elim: bind_io_InrE)
  note c2 = clean_grows [OF grow.loaded s' assms(2)]
  from environment_clean [OF s2 c2 k1(1)] obtain env where env: "rendered_environment rendered = Inr env"
    "r = (map (\<lambda>(k, v). (k, py_text E v)) env, True)"
    "missing_references env (references_of data) (snd (policy_references data)) = []"
    "la_kind L = Production \<longrightarrow> sound_file d (rs_gateway_env rs) mode_0600 None" by auto
  obtain engine where engine: "load_policy E (map (\<lambda>(k, v). (k, py_text E v)) env) raw = Inr engine"
    and last: "check_engine E d engine s2 = (Inr u, s')"
    using s' assms(2) env(2) by (auto simp: check_loaded_def check_evals split: sum.splits)
  have n: "sc_namespace s2 = sc_namespace s" using keepsD [OF same.environment s2] k1(2) by (simp add: known_def)
  have servers: "\<forall>(i, sv) \<in> set (p_servers (e_policy engine)). sound_server E d (sc_namespace s) sv"
    using engine_clean [OF last assms(2)] n assms(4) by simp
  have refs: "\<forall>k \<in> set (references_of data). has_key env k \<and> (k \<in> set (snd (policy_references data)) \<longrightarrow> truthy (dget env k))"
    using env(3) by (auto simp: missing_references_def filter_empty_conv)
  show ?thesis
    unfolding sound_policy_def Let_def
    by (intro conjI exI) (use b(2) env(4) raw env(1) refs engine servers in \<open>assumption | simp\<close>)+
qed

section \<open>The network of a sound deployment\<close>

definition loopback_only :: "doctor_env \<Rightarrow> layout \<Rightarrow> jdict \<Rightarrow> bool" where
  "loopback_only E L rendered \<longleftrightarrow>
     (\<exists>services. get_or ''services'' (JObj []) (JObj rendered) = Inr services \<and>
        (\<forall>name \<in> set (service_names L). \<exists>ports bs.
           bind_res (get_or name (JObj []) services) (get_or ''ports'' (JArr [])) = Inr ports \<and> truthy ports \<and>
           iterate ports = Inr bs \<and>
           (\<forall>b \<in> set bs. \<exists>host port. binding_host E b = Inr host \<and> binding_port b = Inr port \<and> de_loopback E host)))"

lemma binding_clean:
  assumes "check_binding E owned b s = (Inr r, s')" and "clean s'"
  shows "\<exists>host port. binding_host E b = Inr host \<and> binding_port b = Inr port \<and> de_loopback E host"
proof -
  obtain host where host: "binding_host E b = Inr host"
    using assms(1) by (auto simp: check_binding_def bind_io_def split: sum.splits)
  show ?thesis
  proof (cases "binding_port b")
    case (Inl e)
    then show ?thesis using assms host by (auto simp: check_binding_def check_evals split: if_splits)
  next
    case (Inr port)
    from assms(1) host Inr obtain u s1 v s2
      where s1: "add ''network.binding'' (if de_loopback E host then PASS else ERROR) s = (Inr u, s1)"
        and s2: "add ''network.port'' (if de_bind E host port \<or> (JStr host, port) \<in> set owned then PASS else ERROR) s1 = (Inr v, s2)"
        and "s' = s2"
      by (auto simp: check_binding_def elim!: bind_io_InrE)
    then have "clean s1" using clean_grows [OF grow.plain s2] assms(2) by simp
    then have "de_loopback E host" using add_clean [OF s1] by (simp split: if_splits)
    then show ?thesis using host Inr by blast
  qed
qed

lemma bindings_clean:
  assumes "check_bindings E owned bs s = (Inr r, s')" and "clean s'"
  shows "\<forall>b \<in> set bs. \<exists>host port. binding_host E b = Inr host \<and> binding_port b = Inr port \<and> de_loopback E host"
  using assms
proof (induction bs arbitrary: s r)
  case (Cons b bs)
  from Cons.prems(1) obtain hp s1 hps where s1: "check_binding E owned b s = (Inr hp, s1)"
    and s2: "check_bindings E owned bs s1 = (Inr hps, s')"
    by (auto elim!: bind_io_InrE)
  have "clean s1" using clean_grows [OF grow.bindings s2 Cons.prems(2)] .
  then show ?case using binding_clean [OF s1] Cons.IH [OF s2 Cons.prems(2)] by simp
qed simp

lemma service_clean:
  assumes "check_service E owned services name s = (Inr r, s')" and "clean s'"
  shows "\<exists>ports bs. bind_res (get_or name (JObj []) services) (get_or ''ports'' (JArr [])) = Inr ports \<and> truthy ports \<and>
    iterate ports = Inr bs \<and>
    (\<forall>b \<in> set bs. \<exists>host port. binding_host E b = Inr host \<and> binding_port b = Inr port \<and> de_loopback E host)"
proof -
  obtain ports where ports: "bind_res (get_or name (JObj []) services) (get_or ''ports'' (JArr [])) = Inr ports"
    using assms(1) by (auto simp: check_service_def bind_io_def split: sum.splits)
  then have rest: "(if \<not> truthy ports then bind_io (add ''network.port'' ERROR) (\<lambda>_. ret_io [])
     else bind_io (of_res (iterate ports)) (check_bindings E owned)) s = (Inr r, s')"
    using assms(1) by (simp add: check_service_def bind_io_def)
  then have t: "truthy ports" using assms(2) by (auto simp: check_evals split: if_splits)
  then obtain bs where "iterate ports = Inr bs" "check_bindings E owned bs s = (Inr r, s')"
    using rest by (auto simp: bind_io_def split: sum.splits)
  then show ?thesis using ports t bindings_clean assms(2) by blast
qed

lemma services_clean:
  assumes "check_services E owned services names s = (Inr r, s')" and "clean s'" and "name \<in> set names"
  shows "\<exists>t t' hps. check_service E owned services name t = (Inr hps, t') \<and> clean t'"
  using assms
proof (induction names arbitrary: s r)
  case (Cons n names)
  from Cons.prems(1) obtain hps s1 rest where s1: "check_service E owned services n s = (Inr hps, s1)"
    and s2: "check_services E owned services names s1 = (Inr rest, s')"
    by (auto elim!: bind_io_InrE)
  have "clean s1" using clean_grows [OF grow.services s2 Cons.prems(2)] .
  then show ?case using s1 Cons.IH [OF s2 Cons.prems(2)] Cons.prems(3) by auto
qed simp

lemma network_clean:
  assumes "check_network E L s = (Inr u, s')" and "clean s'" and "sc_rendered s = Some rendered"
  shows "loopback_only E L rendered"
proof -
  have "bind_io (get_scan sc_containers) (\<lambda>containers.
      bind_io (of_res (get_or ''services'' (JObj []) (JObj rendered))) (\<lambda>services.
      bind_io (of_res (owned_ports containers)) (check_exposure E L containers services))) s = (Inr u, s')"
    using assms(1,3) by (simp add: check_network_def get_scan_def bind_io_def)
  then obtain containers services owned s1 where services: "get_or ''services'' (JObj []) (JObj rendered) = Inr services"
    and s1: "check_exposure E L containers services owned s1 = (Inr u, s')"
    by (elim bind_io_InrE) (metis of_res_app prod.inject)
  from s1 obtain hps s2 where s2: "check_services E owned services (service_names L) s1 = (Inr hps, s2)"
    and rest: "bind_io (get_scan (\<lambda>s. value_or ''FORWARDED_ALLOW_IPS'' (sc_values s))) (\<lambda>allowed.
      bind_io (check_forwarded E allowed hps) (\<lambda>_. check_ready E (container ''gateway'' containers) hps)) s2 = (Inr u, s')"
    by (auto simp: check_exposure_def elim: bind_io_InrE)
  have "keeps (extends L) (bind_io (get_scan (\<lambda>s. value_or ''FORWARDED_ALLOW_IPS'' (sc_values s))) (\<lambda>allowed.
      bind_io (check_forwarded E allowed hps) (\<lambda>_. check_ready E (container ''gateway'' containers) hps)))"
    unfolding check_forwarded_def by (intro grow.bind grow.ret grow.plain grow.ready)
  then have "clean s2" using rest assms(2) by (rule clean_grows)
  then show ?thesis
    unfolding loopback_only_def using services services_clean [OF s2] service_clean by blast
qed

section \<open>A sound deployment\<close>

definition sound_deployment :: "doctor_env \<Rightarrow> tree \<Rightarrow> layout \<Rightarrow> bool" where
  "sound_deployment E d L \<longleftrightarrow>
     sound_file d (la_env L) mode_0600 None \<and> \<not> is_symlink d (la_compose L) \<and> is_file d (la_compose L) \<and>
     (\<exists>vs rendered rs0.
        read_env E d (la_env L) = Inr (vs, []) \<and> render E d L = Inr rendered \<and>
        locations E L vs (Some rendered) = Inr rs0 \<and>
        (let rs = expanded E rs0; owner = rs_owner rs; namespace = value_or (namespace_key L) vs
         in namespace_ok namespace \<and> gid_shown E d (value_or ''DOCKER_GID'' vs) \<and>
            sound_directory d (rs_policy_dir rs) (Some owner) \<and> sound_directory d (rs_audit_dir rs) (Some owner) \<and>
            sound_keys E d (rs_audit_dir rs) owner \<and> sound_policy E d L rs rendered namespace \<and>
            loopback_only E L rendered))"

lemma scan_clean:
  assumes "scan_all E d L s = (Inr u, s')" and "clean s'"
  shows "sound_deployment E d L"
  using assms(1) unfolding scan_all_def
proof (elim bind_io_InrE)
  fix u1 s1 ready s2 u3 s3 u4 s4 resolved s5 u6 s6
  assume s1: "deployment E d L s = (Inr u1, s1)" and s2: "check_docker E d s1 = (Inr ready, s2)"
    and s3: "check_compose E d L s2 = (Inr u3, s3)" and s4: "namespace_and_gid E d L ready s3 = (Inr u4, s4)"
    and s5: "check_paths E d L s4 = (Inr resolved, s5)" and s6: "check_resolved E d L resolved s5 = (Inr u6, s6)"
    and last: "(if ready then check_network E L else ret_io ()) s6 = (Inr u, s')"
  have "keeps (extends L) (if ready then check_network E L else ret_io ())"
    by (intro grow.branch grow.network grow.ret)
  then have c6: "clean s6" using last assms(2) by (rule clean_grows)
  note c5 = clean_grows [OF grow.resolved s6 c6]
  note c4 = clean_grows [OF grow.paths s5 c5]
  note c3 = clean_grows [OF grow_namespace s4 c4]
  note c2 = clean_grows [OF grow_compose s3 c3]
  note c1 = clean_grows [OF grow.docker s2 c2]
  note env = deployment_clean [OF s1 c1]
  have ready: ready by (rule docker_clean [OF s2 c2])
  have v2: "sc_values s2 = sc_values s1" using keepsD [OF same.docker s2] by (simp add: known_def)
  have "is_file d (la_env L)" using env by (simp add: sound_file_def)
  with compose_clean [OF s3 c3] env v2 obtain rendered where r: "render E d L = Inr rendered"
    "sc_rendered s3 = Some rendered" "sc_values s3 = sc_values s1" by auto
  from s4 ready obtain v t where t: "check_namespace E d L True s3 = (Inr v, t)" and g: "check_gid E d L t = (Inr u4, s4)"
    by (auto simp: namespace_and_gid_def elim: bind_io_InrE)
  have "keeps (extends L) (check_gid E d L)"
    unfolding check_gid_def compare_gid_def Let_def by (intro grow.steps) (simp add: digits_plain)
  then have "clean t" using g c4 by (rule clean_grows)
  note n = namespace_clean [OF t this] and gid = gid_clean [OF g c4]
  then have k4: "sc_values s4 = sc_values s1" "sc_rendered s4 = Some rendered"
    "sc_namespace s4 = value_or (namespace_key L) (sc_values s1)"
    using r by (simp_all add: known_def)
  from paths_clean [OF s5 c5] k4 obtain rs0 where rs0: "locations E L (sc_values s1) (Some rendered) = Inr rs0"
    "resolved = Some (expanded E rs0)" "sound_directory d (rs_policy_dir (expanded E rs0)) (Some (rs_owner rs0))"
    "sound_directory d (rs_audit_dir (expanded E rs0)) (Some (rs_owner rs0))"
    "sound_directory d (child d (rs_audit_dir (expanded E rs0)) ''public'') (Some (rs_owner rs0))" by auto
  have owner: "rs_owner (expanded E x) = rs_owner x" for x by (simp add: expanded_def)
  from s6 rs0(2) obtain w t2 where t2: "check_audit_keys E d (expanded E rs0) s5 = (Inr w, t2)"
    and p: "check_policy E d L (expanded E rs0) t2 = (Inr u6, s6)"
    by (auto simp: check_resolved_def elim: bind_io_InrE)
  note ct2 = clean_grows [OF grow.policy p c6]
  have k5: "known s5 = known s4" "known t2 = known s5" "known s6 = known t2"
    using keepsD [OF same.paths s5] keepsD [OF same.audit_keys t2] keepsD [OF same.policy p] by auto
  have keys: "sound_keys E d (rs_audit_dir (expanded E rs0)) (rs_owner rs0)"
    using keys_clean [OF t2 ct2] rs0(5) by (simp add: sound_directory_def owner)
  have "sc_namespace t2 \<noteq> []" "sc_namespace t2 = value_or (namespace_key L) (sc_values s1)"
    "sc_rendered t2 = Some rendered" "sc_rendered s6 = Some rendered"
    using k4 k5 n gid by (auto simp: known_def namespace_ok_def)
  then have policy: "sound_policy E d L (expanded E rs0) rendered (value_or (namespace_key L) (sc_values s1))"
    and network: "loopback_only E L rendered"
    using policy_clean [OF p c6] network_clean [of E L s6 u s'] last ready assms(2) by auto
  have ns: "namespace_ok (value_or (namespace_key L) (sc_values s1))" "gid_shown E d (value_or ''DOCKER_GID'' (sc_values s1))"
    using n gid r by auto
  show ?thesis
    unfolding sound_deployment_def Let_def owner
    using env r(1) rs0(1,3,4) keys policy network ns by blast
qed

lemma scanned_clean: "scanned E d L offers = Inr s \<Longrightarrow> clean s \<Longrightarrow> sound_deployment E d L"
  unfolding scanned_def by (auto split: prod.splits sum.splits intro: scan_clean)

end
