(* ===== verification/DoctorRepair.thy ===== *)
theory DoctorRepair
  imports DoctorScan
begin

text \<open>
  \<open>services/doctor.py\<close>, the repairs and the command: the effects of \<open>--fix\<close> on the
  files, each of which can fail or be cut off (theory Crash), and the report. A healthy
  report is true of the files as they are left, and repairs lose nothing.
\<close>

section \<open>Effects on files\<close>

definition set_node :: "(node \<Rightarrow> node) \<Rightarrow> string \<Rightarrow> tree \<Rightarrow> tree" where
  "set_node f p d = (case follow d p of None \<Rightarrow> d | Some (target, nd) \<Rightarrow> al_put target (f nd) d)"

definition chmod_tree :: "string \<Rightarrow> nat \<Rightarrow> tree \<Rightarrow> tree" where
  "chmod_tree p m = set_node (\<lambda>nd. nd\<lparr>nd_mode := m\<rparr>) p"

text \<open>\<open>path.chmod\<close>; a missing path raises.\<close>

definition do_chmod :: "string \<Rightarrow> nat \<Rightarrow> (tree machine, unit) io" where
  "do_chmod p m =
     bind_io (look (\<lambda>d. exists_path d p)) (\<lambda>there.
       if there then effect (chmod_tree p m) else raise_io (OSError ''No such file or directory''))"

text \<open>The directories above a path, the outermost first.\<close>

definition above :: "string \<Rightarrow> string list" where
  "above p =
     (let q = posix_path p
      in map (\<lambda>n. pp_root q @ join_with ''/'' (take n (pp_parts q))) [1..<length (pp_parts q)])"

definition has_parent :: "tree \<Rightarrow> string \<Rightarrow> bool" where
  "has_parent d p \<longleftrightarrow> above p = [] \<or> is_dir d (last (above p))"

text \<open>\<open>os.open(path, O_CREAT | O_EXCL, mode)\<close>, and filling the new file.\<close>

definition create_new :: "doctor_env \<Rightarrow> string \<Rightarrow> nat \<Rightarrow> (tree machine, unit) io" where
  "create_new E p m =
     bind_io (look (\<lambda>d. (map_of d p, has_parent d p))) (\<lambda>(there, parent).
       if there \<noteq> None then raise_io (OSError ''File exists'')
       else if \<not> parent then raise_io (OSError ''No such file or directory'')
       else effect (al_put p \<lparr>nd_kind = Regular [], nd_mode = de_umask E m, nd_owner = de_user E\<rparr>))"

definition fill_tree :: "string \<Rightarrow> string \<Rightarrow> tree \<Rightarrow> tree" where
  "fill_tree p s = set_node (\<lambda>nd. nd\<lparr>nd_kind := Regular s\<rparr>) p"

definition remove_tree :: "string \<Rightarrow> tree \<Rightarrow> tree" where
  "remove_tree p = al_drop p"

text \<open>\<open>path.mkdir(parents=True, mode=0o700, exist_ok=True)\<close>: the missing directories above first.\<close>

definition directory_node :: "doctor_env \<Rightarrow> nat \<Rightarrow> node" where
  "directory_node E m = \<lparr>nd_kind = Directory, nd_mode = de_umask E m, nd_owner = de_user E\<rparr>"

definition make_directory :: "doctor_env \<Rightarrow> nat \<Rightarrow> string \<Rightarrow> (tree machine, unit) io" where
  "make_directory E m p =
     bind_io (look (\<lambda>d. (map_of d p = None, is_dir d p))) (\<lambda>(free, dir).
       if free then effect (al_put p (directory_node E m))
       else if dir then ret_io () else raise_io (OSError ''File exists''))"

fun make_directories :: "doctor_env \<Rightarrow> string list \<Rightarrow> (tree machine, unit) io" where
  "make_directories E [] = ret_io ()"
| "make_directories E (p # ps) = bind_io (make_directory E 0x1FF p) (\<lambda>_. make_directories E ps)"

definition make_path :: "doctor_env \<Rightarrow> string \<Rightarrow> (tree machine, unit) io" where
  "make_path E p = bind_io (make_directories E (above p)) (\<lambda>_. make_directory E 0x1C0 p)"

text \<open>
  \<open>_atomic_env_update\<close>: a temporary file is filled, gets the old file's mode and takes its
  name; it is removed however that ends. A path that is a link is replaced itself.
\<close>

definition rename_tree :: "string \<Rightarrow> string \<Rightarrow> tree \<Rightarrow> tree" where
  "rename_tree p q d = (case map_of d p of None \<Rightarrow> d | Some nd \<Rightarrow> al_drop p (al_put q nd d))"

definition swap_in :: "string \<Rightarrow> string \<Rightarrow> string \<Rightarrow> (tree machine, unit) io" where
  "swap_in tmp p content =
     bind_io (effect (fill_tree tmp content)) (\<lambda>_.
     bind_io (look (\<lambda>d. mode_of d p)) (\<lambda>m.
     bind_io (do_chmod tmp m) (\<lambda>_.
     bind_io (effect (rename_tree tmp p)) (\<lambda>_.
       effect id))))"

definition update_env :: "doctor_env \<Rightarrow> string \<Rightarrow> string \<Rightarrow> string \<Rightarrow> (tree machine, unit) io" where
  "update_env E p key value =
     bind_io (look (\<lambda>d. content_of d p)) (\<lambda>content.
     bind_io (of_res (bind_res content (\<lambda>old. env_updated old key value))) (\<lambda>new.
     bind_io (create_new E (de_temporary E p) mode_0600) (\<lambda>_.
       finally_io (swap_in (de_temporary E p) p new) (effect (remove_tree (de_temporary E p))))))"

text \<open>\<open>ensure_public\<close> of \<open>audit_keys.py\<close>, on this tree.\<close>

definition publish_key :: "doctor_env \<Rightarrow> string \<Rightarrow> string \<Rightarrow> (tree machine, unit) io" where
  "publish_key E pem public_dir =
     bind_io (of_res (bind_res (de_private_id E pem) public_path)) (\<lambda>name.
     bind_io (look (\<lambda>d. child d public_dir name)) (\<lambda>p.
     bind_io (look (\<lambda>d. (exists_path d p, content_of d p, mode_of d p))) (\<lambda>(there, content, m).
       if there
       then if content \<noteq> Inr (de_public_pem E pem) then raise_io (ValueError ''public key file does not match'')
            else if m \<noteq> mode_0444 then do_chmod p mode_0444 else ret_io ()
       else bind_io (create_new E p 0x1B6) (\<lambda>_.
            bind_io (effect (fill_tree p (de_public_pem E pem))) (\<lambda>_. do_chmod p mode_0444)))))"

definition mint_key :: "doctor_env \<Rightarrow> string \<Rightarrow> string \<Rightarrow> (tree machine, unit) io" where
  "mint_key E private_path public_dir =
     bind_io (create_new E private_path mode_0600) (\<lambda>_.
     bind_io (catch_io (effect (fill_tree private_path (de_fresh_key E)))
       (\<lambda>e. bind_io (effect (remove_tree private_path)) (\<lambda>_. raise_io e))) (\<lambda>_.
       publish_key E (de_fresh_key E) public_dir))"

fun apply_repair :: "doctor_env \<Rightarrow> repair_action \<Rightarrow> (tree machine, unit) io" where
  "apply_repair E (Chmod p m) = do_chmod p m"
| "apply_repair E (MakeDirectory p) = make_path E p"
| "apply_repair E (UpdateEnv p key value) = update_env E p key value"
| "apply_repair E (CreateEmpty p) =
     bind_io (make_directories E (above p)) (\<lambda>_. create_new E p mode_0600)"
| "apply_repair E (MintKey private_path public_dir) = mint_key E private_path public_dir"
| "apply_repair E (EnsurePublic pem public_dir) = publish_key E pem public_dir"

section \<open>The command\<close>

record doctor_args =
  da_directory :: string
  da_fix :: bool
  da_json :: bool
  da_yes :: bool

record report =
  rp_layout :: layout
  rp_findings :: "finding list"
  rp_healthy :: bool
  rp_restart :: bool
  rp_recreate :: "string list"

definition has_status :: "status \<Rightarrow> finding list \<Rightarrow> bool" where
  "has_status st fs \<longleftrightarrow> list_ex (\<lambda>f. fi_status f = st) fs"

text \<open>\<open>_recreate_command\<close>, before it is joined for a shell.\<close>

definition recreate_command :: "layout \<Rightarrow> env_values \<Rightarrow> string list" where
  "recreate_command L vs =
     (let command = compose_command L; namespace = value_or ''QUICKSTART_NAMESPACE'' vs
      in if la_kind L = Quickstart
         then take 2 command @ (if namespace = [] then [] else [''-p'', namespace]) @ drop 2 command @
              [''up'', ''-d'', ''--wait'', ''--pull'', ''never'', ''--force-recreate'', ''gateway'', ''verifier'']
         else command @ [''up'', ''-d'', ''--wait'', ''--force-recreate'', ''gateway'', ''verifier''])"

text \<open>The repairs, one after the other: what became of each, and whether a restart is due.\<close>

fun apply_repairs :: "doctor_env \<Rightarrow> bool \<Rightarrow> repair list \<Rightarrow> (tree machine, finding list \<times> bool) io" where
  "apply_repairs E stack [] = ret_io ([], False)"
| "apply_repairs E stack (r # rs) =
     bind_io (catch_io (bind_io (apply_repair E (re_action r)) (\<lambda>_. ret_io FIXED)) (\<lambda>e. ret_io ERROR)) (\<lambda>st.
     bind_io (apply_repairs E stack rs) (\<lambda>(fs, restart).
       ret_io (\<lparr>fi_id = re_finding r, fi_status = st, fi_fixable = False\<rparr> # fs,
               (st = FIXED \<and> re_restart r \<and> stack) \<or> restart)))"

definition confirmed :: "doctor_env \<Rightarrow> doctor_args \<Rightarrow> unit res" where
  "confirmed E args =
     (if da_yes args then Inr ()
      else if da_json args then doctor_raise ''doctor --fix requires --yes with --json''
      else if py_lower (py_strip (de_answer E)) \<notin> {''y'', ''yes''} then doctor_raise ''cancelled''
      else Inr ())"

definition make_report :: "layout \<Rightarrow> finding list \<Rightarrow> bool \<Rightarrow> scan \<Rightarrow> report" where
  "make_report L fixed restart s =
     (let findings = fixed @ sc_findings s @
            (if restart then [\<lparr>fi_id = ''runtime.recreate_required'', fi_status = ERROR, fi_fixable = False\<rparr>] else [])
      in \<lparr>rp_layout = L, rp_findings = findings, rp_healthy = (\<not> has_status ERROR findings), rp_restart = restart,
          rp_recreate = (if restart then recreate_command L (sc_values s) else [])\<rparr>)"

definition doctor_run :: "doctor_env \<Rightarrow> doctor_args \<Rightarrow> (tree machine, report) io" where
  "doctor_run E args =
     bind_io (look (\<lambda>d. bind_res (discover E d (da_directory args)) (\<lambda>L.
       bind_res (scanned E d L (da_fix args)) (\<lambda>s. Inr (L, s))))) (\<lambda>r.
     bind_io (of_res r) (\<lambda>(L, initial).
       if da_fix args \<and> sc_repairs initial \<noteq> []
       then bind_io (of_res (confirmed E args)) (\<lambda>_.
            bind_io (apply_repairs E (sc_stack_exists initial) (sc_repairs initial)) (\<lambda>(fixed, restart).
            bind_io (look (\<lambda>d. scanned E d L False)) (\<lambda>final.
            bind_io (of_res final) (\<lambda>s. ret_io (make_report L fixed restart s)))))
       else ret_io (make_report L [] False initial)))"

text \<open>The exit status of \<open>portunusmcp doctor\<close>.\<close>

definition doctor_status :: "report res \<Rightarrow> int" where
  "doctor_status r = (case r of Inr rp \<Rightarrow> if rp_healthy rp then 0 else 1 | Inl e \<Rightarrow> 1)"

section \<open>A healthy report\<close>

text \<open>
  C33: A healthy report is true. When \<open>doctor\<close> exits with 0, then of the files as it leaves
  them: the environment file is a regular file of mode 0600 without duplicates; the
  namespace is valid and the socket's group is the one docker shows; policy and key
  directories are the owner's alone; the private audit key is a P-256 key of mode 0600
  whose public half is archived, and every archived key has its fingerprint's name; the
  policy loads with the environment the gateway gets, all it refers to is set, every
  server's image is immutable and present and every volume is the namespace's; every
  published port is bound to loopback. And nothing awaits a restart.
\<close>

theorem healthy_report_is_true:
  assumes "doctor_run E args M = (Inr rp, M')" and "rp_healthy rp"
  shows "sound_deployment E (mc_disk M') (rp_layout rp) \<and> \<not> rp_restart rp"
proof -
  have report: "sound_deployment E d L \<and> \<not> restart"
    if "scanned E d L offers = Inr s" "rp_healthy (make_report L fixed restart s)" for d L offers s fixed restart
    using that scanned_clean [OF that(1)] by (auto simp: make_report_def Let_def has_status_def clean_def split: if_splits)
  from assms(1) obtain L initial where start: "discover E (mc_disk M) (da_directory args) = Inr L"
    "scanned E (mc_disk M) L (da_fix args) = Inr initial"
    and rest: "(if da_fix args \<and> sc_repairs initial \<noteq> []
       then bind_io (of_res (confirmed E args)) (\<lambda>_.
            bind_io (apply_repairs E (sc_stack_exists initial) (sc_repairs initial)) (\<lambda>(fixed, restart).
            bind_io (look (\<lambda>d. scanned E d L False)) (\<lambda>final.
            bind_io (of_res final) (\<lambda>s. ret_io (make_report L fixed restart s)))))
       else ret_io (make_report L [] False initial)) M = (Inr rp, M')"
    by (auto simp: doctor_run_def bind_res_Inr_iff elim!: bind_io_InrE)
  show ?thesis
  proof (cases "da_fix args \<and> sc_repairs initial \<noteq> []")
    case True
    with rest obtain fixed restart s where s: "scanned E (mc_disk M') L False = Inr s" "rp = make_report L fixed restart s"
      by (auto elim!: bind_io_InrE)
    with report [OF s(1), of fixed restart] assms(2) show ?thesis by (simp add: make_report_def Let_def)
  next
    case False
    with rest have "M' = M" "rp = make_report L [] False initial" by auto
    with report [OF start(2), of "[]" False] assms(2) show ?thesis by (simp add: make_report_def Let_def)
  qed
qed

section \<open>Repairs lose nothing\<close>

definition agrees :: "doctor_env \<Rightarrow> layout \<Rightarrow> string \<Rightarrow> string \<Rightarrow> bool" where
  "agrees E L c c' \<longleftrightarrow>
     (\<forall>vs twice. env_file (de_loads E) c = Inr (vs, twice) \<longrightarrow>
       (\<exists>vs'. env_file (de_loads E) c' = Inr (vs', twice) \<and>
          (\<forall>k. k \<noteq> namespace_key L \<longrightarrow> k \<noteq> ''DOCKER_GID'' \<longrightarrow> map_of vs' k = map_of vs k)))"

definition safe_modes :: "nat set" where
  "safe_modes = {0x1C0, mode_0600, mode_0444}"

definition node_kept :: "node \<Rightarrow> node \<Rightarrow> bool" where
  "node_kept nd nd' \<longleftrightarrow>
     nd_kind nd' = nd_kind nd \<and> nd_owner nd' = nd_owner nd \<and> (nd_mode nd' = nd_mode nd \<or> nd_mode nd' \<in> safe_modes)"

definition env_kept :: "doctor_env \<Rightarrow> layout \<Rightarrow> node \<Rightarrow> string \<Rightarrow> node \<Rightarrow> bool" where
  "env_kept E L nd c nd' \<longleftrightarrow>
     (\<exists>c'. nd_kind nd' = Regular c' \<and> agrees E L c c') \<and> (nd_mode nd' = nd_mode nd \<or> nd_mode nd' \<in> safe_modes)"

text \<open>
  What every disk on the way keeps of the first one. A path is unprotected when the first
  disk has nothing there (or the environment file is no regular file).
\<close>

definition path_kept :: "doctor_env \<Rightarrow> layout \<Rightarrow> tree \<Rightarrow> string \<Rightarrow> node \<Rightarrow> bool" where
  "path_kept E L d p nd \<longleftrightarrow>
     (if p = la_env L
      then (\<forall>c. nd_kind nd = Regular c \<longrightarrow> (\<exists>nd'. map_of d p = Some nd' \<and> env_kept E L nd c nd'))
      else (\<exists>nd'. map_of d p = Some nd' \<and> node_kept nd nd'))"

definition kept :: "doctor_env \<Rightarrow> layout \<Rightarrow> tree \<Rightarrow> tree \<Rightarrow> bool" where
  "kept E L d0 d \<longleftrightarrow> (\<forall>p nd. map_of d0 p = Some nd \<longrightarrow> path_kept E L d p nd)"

definition unprotected :: "layout \<Rightarrow> tree \<Rightarrow> string \<Rightarrow> bool" where
  "unprotected L d0 p \<longleftrightarrow>
     (\<forall>nd. map_of d0 p = Some nd \<longrightarrow> p = la_env L \<and> (\<forall>c. nd_kind nd \<noteq> Regular c))"

lemma agrees_refl: "agrees E L c c"
  by (simp add: agrees_def)

lemma agrees_update:
  assumes "agrees E L c c1" and "env_updated c1 key v = Inr c2" and "key \<in> {namespace_key L, ''DOCKER_GID''}"
    and "plain_value v"
  shows "agrees E L c c2"
  unfolding agrees_def
proof (intro allI impI)
  fix vs twice assume "env_file (de_loads E) c = Inr (vs, twice)"
  with assms(1) obtain vs1 where vs1: "env_file (de_loads E) c1 = Inr (vs1, twice)"
    "\<forall>k. k \<noteq> namespace_key L \<longrightarrow> k \<noteq> ''DOCKER_GID'' \<longrightarrow> map_of vs1 k = map_of vs k"
    unfolding agrees_def by blast
  have "env_name ''UPSTREAM_RUNTIME_NAMESPACE''" "env_name ''QUICKSTART_NAMESPACE''" "env_name ''DOCKER_GID''" by code_simp+
  then have "env_name key" using assms(3) by (auto simp: namespace_key_def)
  from env_update_one_key [OF vs1(1) assms(2) this assms(4)] obtain vs2 where
    "env_file (de_loads E) c2 = Inr (vs2, twice)" "map_of vs2 = (map_of vs1)(key \<mapsto> v)" by blast
  then show "\<exists>vs'. env_file (de_loads E) c2 = Inr (vs', twice) \<and>
      (\<forall>k. k \<noteq> namespace_key L \<longrightarrow> k \<noteq> ''DOCKER_GID'' \<longrightarrow> map_of vs' k = map_of vs k)"
    using vs1(2) assms(3) by (intro exI [of _ vs2]) auto
qed

lemma kept_refl: "kept E L d d"
  by (auto simp: kept_def path_kept_def node_kept_def env_kept_def agrees_refl)

lemma kept_free: "kept E L d0 d \<Longrightarrow> map_of d p = None \<Longrightarrow> unprotected L d0 p"
  unfolding kept_def path_kept_def unprotected_def by (metis option.distinct(1))

lemma kept_put: "kept E L d0 d \<Longrightarrow> unprotected L d0 p \<Longrightarrow> kept E L d0 (al_put p nd d)"
  unfolding kept_def path_kept_def unprotected_def by auto

lemma kept_drop: "kept E L d0 d \<Longrightarrow> unprotected L d0 p \<Longrightarrow> kept E L d0 (al_drop p d)"
  unfolding kept_def path_kept_def unprotected_def by auto

lemma path_kept_mode:
  assumes "path_kept E L d p nd" and "map_of d p = Some nd1" and "m \<in> safe_modes"
  shows "path_kept E L (al_put p (nd1\<lparr>nd_mode := m\<rparr>) d) p nd"
  using assms unfolding path_kept_def node_kept_def env_kept_def by auto

lemma follow_links_mem: "follow_links n d p = Some (t, nd) \<Longrightarrow> map_of d t = Some nd"
  by (induction n d p rule: follow_links.induct) (auto split: option.splits kind.splits)

lemma follow_mem: "follow d p = Some (t, nd) \<Longrightarrow> map_of d t = Some nd"
  unfolding follow_def by (rule follow_links_mem)

lemma follow_regular: "map_of d p = Some nd \<Longrightarrow> nd_kind nd = Regular c \<Longrightarrow> follow d p = Some (p, nd)"
  by (simp add: follow_def numeral_eq_Suc)

lemma kept_chmod:
  assumes "kept E L d0 d" and "m \<in> safe_modes"
  shows "kept E L d0 (chmod_tree p m d)"
proof (cases "follow d p")
  case None
  then show ?thesis using assms(1) by (simp add: chmod_tree_def set_node_def)
next
  case (Some tn)
  obtain t n where tn: "tn = (t, n)" by force
  note n = follow_mem [OF Some [unfolded tn]]
  have "path_kept E L (al_put t (n\<lparr>nd_mode := m\<rparr>) d) q nd" if q: "map_of d0 q = Some nd" for q nd
  proof (cases "q = t")
    case True
    then show ?thesis using path_kept_mode [OF _ n assms(2)] assms(1) q unfolding kept_def by blast
  next
    case False
    then have "path_kept E L (al_put t (n\<lparr>nd_mode := m\<rparr>) d) q nd = path_kept E L d q nd" by (simp add: path_kept_def)
    then show ?thesis using assms(1) q unfolding kept_def by blast
  qed
  then show ?thesis using Some tn by (simp add: chmod_tree_def set_node_def kept_def)
qed

text \<open>A file a repair has just made.\<close>

definition new_file :: "doctor_env \<Rightarrow> layout \<Rightarrow> tree \<Rightarrow> string \<Rightarrow> tree \<Rightarrow> bool" where
  "new_file E L d0 p d \<longleftrightarrow>
     kept E L d0 d \<and> unprotected L d0 p \<and> (\<exists>nd c. map_of d p = Some nd \<and> nd_kind nd = Regular c)"

lemma new_file_kept: "new_file E L d0 p d \<Longrightarrow> kept E L d0 d"
  by (simp add: new_file_def)

lemma new_file_fill: "new_file E L d0 p d \<Longrightarrow> new_file E L d0 p (fill_tree p s d)"
  by (auto simp: new_file_def fill_tree_def set_node_def follow_regular kept_put)

lemma new_file_chmod: "new_file E L d0 p d \<Longrightarrow> new_file E L d0 p (chmod_tree p m d)"
  by (auto simp: new_file_def chmod_tree_def set_node_def follow_regular kept_put)

lemma new_file_drop: "new_file E L d0 p d \<Longrightarrow> kept E L d0 (al_drop p d)"
  by (auto simp: new_file_def kept_drop)

lemma passes_create:
  "passes (kept E L d0) (create_new E p m) (kept E L d0)
     (\<lambda>_ d. new_file E L d0 p d)"
  unfolding create_new_def
proof (rule passes_look_bind)
  fix a :: "node option \<times> bool"
  obtain there parent where a: "a = (there, parent)" by force
  have "passes (kept E L d0) (effect (al_put p \<lparr>nd_kind = Regular [], nd_mode = de_umask E m, nd_owner = de_user E\<rparr>))
      (\<lambda>d. kept E L d0 d \<and> map_of d p = None) (\<lambda>_. new_file E L d0 p)"
    by (rule passes_effect_to) (auto simp: new_file_def kept_free intro: kept_put)
  then show "passes (kept E L d0) (case a of (there, parent) \<Rightarrow>
      if there \<noteq> None then raise_io (OSError ''File exists'')
      else if \<not> parent then raise_io (OSError ''No such file or directory'')
      else effect (al_put p \<lparr>nd_kind = Regular [], nd_mode = de_umask E m, nd_owner = de_user E\<rparr>))
      (\<lambda>d. kept E L d0 d \<and> (map_of d p, has_parent d p) = a) (\<lambda>_. new_file E L d0 p)"
    unfolding a by (auto intro!: passes_raise elim: passes_weaken)
qed

lemma passes_chmod:
  assumes "\<And>d. I d \<Longrightarrow> K (chmod_tree p m d) \<and> P (chmod_tree p m d)"
  shows "passes P (do_chmod p m) I (\<lambda>_. K)"
  unfolding do_chmod_def
proof (rule passes_look_bind)
  fix there
  have "passes P (effect (chmod_tree p m)) I (\<lambda>_. K)" by (rule passes_effect_to) (use assms in blast)
  then show "passes P (if there then effect (chmod_tree p m) else raise_io (OSError ''No such file or directory''))
      (\<lambda>d. I d \<and> exists_path d p = there) (\<lambda>_. K)"
    by (auto intro!: passes_raise elim: passes_weaken)
qed

lemma passes_make_directory: "passes (kept E L d0) (make_directory E m p) (kept E L d0) (\<lambda>_. kept E L d0)"
  unfolding make_directory_def
proof (rule passes_look_bind)
  fix a :: "bool \<times> bool"
  obtain free dir where a: "a = (free, dir)" by force
  have "passes (kept E L d0) (effect (al_put p (directory_node E m))) (\<lambda>d. kept E L d0 d \<and> map_of d p = None) (\<lambda>_. kept E L d0)"
    by (rule passes_effect_to) (auto simp: kept_free intro: kept_put)
  then show "passes (kept E L d0) (case a of (free, dir) \<Rightarrow>
      if free then effect (al_put p (directory_node E m))
      else if dir then ret_io () else raise_io (OSError ''File exists''))
      (\<lambda>d. kept E L d0 d \<and> (map_of d p = None, is_dir d p) = a) (\<lambda>_. kept E L d0)"
    unfolding a by (auto intro!: passes_raise passes_retI elim: passes_weaken simp del: ret_io_app)
qed

lemma passes_make_directories: "passes (kept E L d0) (make_directories E ps) (kept E L d0) (\<lambda>_. kept E L d0)"
proof (induction ps)
  case (Cons p ps)
  show ?case unfolding make_directories.simps by (rule passes_bind [OF passes_make_directory Cons.IH])
qed (simp add: passes_retI del: ret_io_app)

lemma passes_kept_of: "passes P m I (\<lambda>_. new_file E L d0 p) \<Longrightarrow> passes P m I (\<lambda>_. kept E L d0)"
  by (erule passes_mono) (auto dest: new_file_kept)

lemma passes_publish: "passes (kept E L d0) (publish_key E pem q) (kept E L d0) (\<lambda>_. kept E L d0)"
proof -
  have there: "passes (kept E L d0) (do_chmod p mode_0444) (kept E L d0) (\<lambda>_. kept E L d0)" for p
    by (rule passes_chmod) (auto simp: safe_modes_def intro: kept_chmod)
  have fill: "passes (kept E L d0) (effect (fill_tree p s)) (new_file E L d0 p) (\<lambda>_. new_file E L d0 p)" for p s
    by (rule passes_effect_to) (auto intro: new_file_fill dest: new_file_kept [OF new_file_fill])
  have close: "passes (kept E L d0) (do_chmod p mode_0444) (new_file E L d0 p) (\<lambda>_. kept E L d0)" for p
    using there by (rule passes_weaken) (rule new_file_kept)
  have make: "passes (kept E L d0) (bind_io (create_new E p 0x1B6) (\<lambda>_.
      bind_io (effect (fill_tree p s)) (\<lambda>_. do_chmod p mode_0444))) (kept E L d0) (\<lambda>_. kept E L d0)" for p s
    by (rule passes_bind [OF passes_create passes_bind [OF fill close]])
  show ?thesis
    unfolding publish_key_def
  proof (rule passes_of_res_bind, rule passes_look_bind, rule passes_look_bind)
    fix name p and a :: "bool \<times> string res \<times> nat"
    obtain exs content m where a: "a = (exs, content, m)" by (cases a) auto
    show "passes (kept E L d0) (case a of (there, content, m) \<Rightarrow>
       if there
       then if content \<noteq> Inr (de_public_pem E pem) then raise_io (ValueError ''public key file does not match'')
            else if m \<noteq> mode_0444 then do_chmod p mode_0444 else ret_io ()
       else bind_io (create_new E p 0x1B6) (\<lambda>_.
            bind_io (effect (fill_tree p (de_public_pem E pem))) (\<lambda>_. do_chmod p mode_0444)))
      (\<lambda>d. (kept E L d0 d \<and> child d q name = p) \<and> (exists_path d p, content_of d p, mode_of d p) = a) (\<lambda>_. kept E L d0)"
      unfolding a
      by (auto intro!: passes_raise passes_retI simp del: ret_io_app intro: passes_weaken [OF there] passes_weaken [OF make])
  qed
qed

lemma passes_catch:
  assumes "passes P0 m I Q" and "\<And>d. I d \<Longrightarrow> P0 d" and "\<And>d. P0 d \<Longrightarrow> P d" and "\<And>e. passes P (h e) P0 Q"
  shows "passes P (catch_io m h) I Q"
  unfolding passes_def
proof (intro allI impI)
  fix M :: "'a machine"
  assume I: "I (mc_disk M)"
  obtain r M1 where m: "m M = (r, M1)" by force
  note one = passesD [OF assms(1) I m]
  have P1: "passed M M1 P" using one(1) assms(3) by (rule passed_mono)
  show "passed M (snd (catch_io m h M)) P \<and>
      (\<forall>a. fst (catch_io m h M) = Inr a \<longrightarrow> Q a (mc_disk (snd (catch_io m h M))))"
  proof (cases r)
    case (Inl e)
    have "P0 (mc_disk M1)" using one(1) assms(2) I by (auto simp: passed_def)
    moreover obtain r' M2 where h: "h e M1 = (r', M2)" by force
    ultimately show ?thesis using passesD [OF assms(4) _ h] P1 m Inl h by (auto simp: catch_io_def intro: passed_trans)
  qed (use one P1 m in \<open>simp add: catch_io_def\<close>)
qed

lemma passes_mint: "passes (kept E L d0) (mint_key E p q) (kept E L d0) (\<lambda>_. kept E L d0)"
proof -
  let ?N = "new_file E L d0 p"
  have fill: "passes ?N (effect (fill_tree p s)) ?N (\<lambda>_. ?N)" for s
    by (rule passes_effect_to) (auto intro: new_file_fill)
  have gone: "passes (kept E L d0) (effect (remove_tree p)) ?N (\<lambda>_. kept E L d0)"
    by (rule passes_effect_to) (simp add: remove_tree_def new_file_drop)
  have undo: "passes (kept E L d0) (bind_io (effect (remove_tree p)) (\<lambda>_. raise_io e)) ?N (\<lambda>_. ?N)" for e
    by (rule passes_bind [OF gone passes_raise])
  have caught: "passes (kept E L d0) (catch_io (effect (fill_tree p s)) (\<lambda>e. bind_io (effect (remove_tree p)) (\<lambda>_. raise_io e)))
      ?N (\<lambda>_. ?N)" for s
    by (rule passes_catch [OF fill _ new_file_kept undo])
  show ?thesis
    unfolding mint_key_def
    by (rule passes_bind [OF passes_create passes_bind [OF caught passes_weaken [OF passes_publish new_file_kept]]])
qed

text \<open>The new content and the mode of the environment file, when it is a regular file.\<close>

definition fits :: "doctor_env \<Rightarrow> layout \<Rightarrow> tree \<Rightarrow> string \<Rightarrow> bool" where
  "fits E L d0 new \<longleftrightarrow> (\<forall>nd c. map_of d0 (la_env L) = Some nd \<longrightarrow> nd_kind nd = Regular c \<longrightarrow> agrees E L c new)"

definition mode_fits :: "layout \<Rightarrow> tree \<Rightarrow> nat \<Rightarrow> bool" where
  "mode_fits L d0 m \<longleftrightarrow>
     (\<forall>nd c. map_of d0 (la_env L) = Some nd \<longrightarrow> nd_kind nd = Regular c \<longrightarrow> m = nd_mode nd \<or> m \<in> safe_modes)"

lemma kept_env:
  assumes "kept E L d0 d" and "map_of d0 (la_env L) = Some nd" and "nd_kind nd = Regular c"
  obtains nd' c' where "map_of d (la_env L) = Some nd'" and "nd_kind nd' = Regular c'" and "agrees E L c c'"
    and "stat_of d (la_env L) = Some nd'" and "nd_mode nd' = nd_mode nd \<or> nd_mode nd' \<in> safe_modes"
proof -
  from assms obtain nd' where nd': "map_of d (la_env L) = Some nd'" "env_kept E L nd c nd'"
    unfolding kept_def path_kept_def by (metis (full_types))
  then obtain c' where "nd_kind nd' = Regular c'" "agrees E L c c'" by (auto simp: env_kept_def)
  then show ?thesis using that nd' by (simp add: stat_of_def follow_regular env_kept_def)
qed

lemma kept_update_fits:
  assumes "kept E L d0 d" and "bind_res (content_of d (la_env L)) (\<lambda>old. env_updated old key v) = Inr new"
    and "key \<in> {namespace_key L, ''DOCKER_GID''}" and "plain_value v"
  shows "fits E L d0 new"
  unfolding fits_def
proof (intro allI impI)
  fix nd c assume c: "map_of d0 (la_env L) = Some nd" "nd_kind nd = Regular c"
  obtain nd' c' where nd': "nd_kind nd' = Regular c'" "agrees E L c c'" "stat_of d (la_env L) = Some nd'"
    by (rule kept_env [OF assms(1) c])
  then have "env_updated c' key v = Inr new" using assms(2) by (simp add: content_of_def)
  then show "agrees E L c new" using agrees_update nd'(2) assms(3,4) by blast
qed

lemma kept_mode_fits: "kept E L d0 d \<Longrightarrow> mode_fits L d0 (mode_of d (la_env L))"
  unfolding mode_fits_def
proof (intro allI impI)
  fix nd c assume "kept E L d0 d" "map_of d0 (la_env L) = Some nd" "nd_kind nd = Regular c"
  then obtain nd' where "stat_of d (la_env L) = Some nd'" "nd_mode nd' = nd_mode nd \<or> nd_mode nd' \<in> safe_modes"
    by (elim kept_env)
  then show "mode_of d (la_env L) = nd_mode nd \<or> mode_of d (la_env L) \<in> safe_modes" by (simp add: mode_of_def)
qed

definition filled :: "doctor_env \<Rightarrow> layout \<Rightarrow> tree \<Rightarrow> string \<Rightarrow> string \<Rightarrow> tree \<Rightarrow> bool" where
  "filled E L d0 tmp new d \<longleftrightarrow>
     new_file E L d0 tmp d \<and> (\<exists>nd. map_of d tmp = Some nd \<and> nd_kind nd = Regular new)"

lemma filled_new: "filled E L d0 tmp new d \<Longrightarrow> new_file E L d0 tmp d"
  by (simp add: filled_def)

lemma renamed_kept:
  assumes "new_file E L d0 tmp d" and "map_of d tmp = Some nd" and "nd_kind nd = Regular new" and "nd_mode nd = m"
    and "fits E L d0 new" and "mode_fits L d0 m" and "tmp \<noteq> la_env L"
  shows "kept E L d0 (rename_tree tmp (la_env L) d)"
  unfolding kept_def
proof (intro allI impI)
  fix p n assume p: "map_of d0 p = Some n"
  have un: "unprotected L d0 tmp" and K: "kept E L d0 d" using assms(1) by (simp_all add: new_file_def)
  show "path_kept E L (rename_tree tmp (la_env L) d) p n"
  proof (cases "p = la_env L")
    case True
    then show ?thesis using assms p
      by (auto simp: path_kept_def rename_tree_def env_kept_def fits_def mode_fits_def)
  next
    case False
    then have "p \<noteq> tmp" using un p by (auto simp: unprotected_def)
    then show ?thesis using False K p assms(2) unfolding kept_def by (auto simp: path_kept_def rename_tree_def)
  qed
qed

lemma passes_swap:
  assumes "fits E L d0 new" and "tmp \<noteq> la_env L"
  shows "passes (\<lambda>d. kept E L d0 d \<and> unprotected L d0 tmp) (swap_in tmp (la_env L) new) (new_file E L d0 tmp)
    (\<lambda>_ d. kept E L d0 d \<and> unprotected L d0 tmp)"
proof -
  let ?P = "\<lambda>d. kept E L d0 d \<and> unprotected L d0 tmp"
  have P: "new_file E L d0 tmp d \<Longrightarrow> ?P d" for d by (simp add: new_file_def)
  have fill: "passes ?P (effect (fill_tree tmp new)) (new_file E L d0 tmp) (\<lambda>_. filled E L d0 tmp new)"
  proof (rule passes_effect_to)
    fix d assume n: "new_file E L d0 tmp d"
    then obtain nd c where "map_of d tmp = Some nd" "nd_kind nd = Regular c" by (auto simp: new_file_def)
    then have "map_of (fill_tree tmp new d) tmp = Some (nd\<lparr>nd_kind := Regular new\<rparr>)"
      by (simp add: fill_tree_def set_node_def follow_regular)
    then show "?P (fill_tree tmp new d) \<and> filled E L d0 tmp new (fill_tree tmp new d)"
      using new_file_fill [OF n] by (simp add: filled_def new_file_def)
  qed
  have rename: "passes ?P (effect (rename_tree tmp (la_env L)))
      (\<lambda>d. new_file E L d0 tmp d \<and> (\<exists>nd. map_of d tmp = Some nd \<and> nd_kind nd = Regular new \<and> nd_mode nd = m)) (\<lambda>_. ?P)"
    if "mode_fits L d0 m" for m
    by (rule passes_effect_to) (use renamed_kept [OF _ _ _ _ assms(1) that assms(2)] P in blast)
  have chmod: "passes ?P (do_chmod tmp m) (filled E L d0 tmp new)
      (\<lambda>_ d. new_file E L d0 tmp d \<and> (\<exists>nd. map_of d tmp = Some nd \<and> nd_kind nd = Regular new \<and> nd_mode nd = m))" for m
  proof (rule passes_chmod)
    fix d assume f: "filled E L d0 tmp new d"
    then obtain nd where "map_of d tmp = Some nd" "nd_kind nd = Regular new" by (auto simp: filled_def)
    then have "map_of (chmod_tree tmp m d) tmp = Some (nd\<lparr>nd_mode := m\<rparr>)" "nd_kind (nd\<lparr>nd_mode := m\<rparr>) = Regular new"
      by (simp_all add: chmod_tree_def set_node_def follow_regular)
    then show "(new_file E L d0 tmp (chmod_tree tmp m d) \<and>
        (\<exists>nd. map_of (chmod_tree tmp m d) tmp = Some nd \<and> nd_kind nd = Regular new \<and> nd_mode nd = m)) \<and> ?P (chmod_tree tmp m d)"
      using new_file_chmod [OF filled_new [OF f]] P by auto
  qed
  have last: "passes ?P (effect id) ?P (\<lambda>_. ?P)" by (rule passes_same)
  show ?thesis
    unfolding swap_in_def
  proof (rule passes_bind [OF fill passes_look_bind])
    fix m
    show "passes ?P (bind_io (do_chmod tmp m) (\<lambda>_. bind_io (effect (rename_tree tmp (la_env L))) (\<lambda>_. effect id)))
        (\<lambda>d. filled E L d0 tmp new d \<and> mode_of d (la_env L) = m) (\<lambda>_. ?P)"
    proof (cases "mode_fits L d0 m")
      case True
      show ?thesis
        by (rule passes_weaken [OF passes_bind [OF chmod passes_bind [OF rename [OF True] last]]]) simp
    next
      case False
      then show ?thesis
        by (intro passes_never) (use kept_mode_fits in \<open>auto simp: filled_def new_file_def\<close>)
    qed
  qed
qed

lemma passes_update_env:
  assumes "key \<in> {namespace_key L, ''DOCKER_GID''}" and "plain_value v"
  shows "passes (kept E L d0) (update_env E (la_env L) key v) (kept E L d0) (\<lambda>_. kept E L d0)"
  unfolding update_env_def
proof (rule passes_look_bind, rule passes_of_res_bind)
  fix content new
  assume new: "bind_res content (\<lambda>old. env_updated old key v) = Inr new"
  let ?tmp = "de_temporary E (la_env L)" and ?K = "kept E L d0"
  have created: "passes ?K (create_new E ?tmp mode_0600)
      (\<lambda>d. ?K d \<and> content_of d (la_env L) = content) (\<lambda>_ d. new_file E L d0 ?tmp d \<and> fits E L d0 new \<and> ?tmp \<noteq> la_env L)"
    unfolding passes_def
  proof (intro allI impI)
    fix M :: "tree machine" assume I: "?K (mc_disk M) \<and> content_of (mc_disk M) (la_env L) = content"
    obtain r M1 where m: "create_new E ?tmp mode_0600 M = (r, M1)" by force
    have K: "?K (mc_disk M)" using I by simp
    note one = passesD [OF passes_create K m]
    have "fits E L d0 new" using kept_update_fits [OF K _ assms] I new by simp
    moreover have "?tmp \<noteq> la_env L" if "r = Inr a" for a
    proof
      assume same: "?tmp = la_env L"
      from new obtain old where "content_of (mc_disk M) (la_env L) = Inr old" using I by (cases content) auto
      then have "map_of (mc_disk M) (la_env L) \<noteq> None"
        by (auto simp: content_of_def stat_of_def follow_def numeral_eq_Suc split: option.splits)
      with m same that show False by (auto simp: create_new_def bind_io_def split: if_splits)
    qed
    ultimately show "passed M (snd (create_new E ?tmp mode_0600 M)) ?K \<and>
        (\<forall>a. fst (create_new E ?tmp mode_0600 M) = Inr a \<longrightarrow>
          new_file E L d0 ?tmp (mc_disk (snd (create_new E ?tmp mode_0600 M))) \<and> fits E L d0 new \<and> ?tmp \<noteq> la_env L)"
      using one m by simp
  qed
  have swap: "passes ?K (finally_io (swap_in ?tmp (la_env L) new) (effect (remove_tree ?tmp)))
      (\<lambda>d. new_file E L d0 ?tmp d \<and> fits E L d0 new \<and> ?tmp \<noteq> la_env L) (\<lambda>_. ?K)"
  proof (cases "fits E L d0 new \<and> ?tmp \<noteq> la_env L")
    case True
    have drop: "passes (\<lambda>d. ?K d \<and> unprotected L d0 ?tmp) (effect (remove_tree ?tmp))
        (\<lambda>d. ?K d \<and> unprotected L d0 ?tmp) (\<lambda>_ d. ?K d \<and> unprotected L d0 ?tmp)"
      by (rule passes_effect_to) (simp add: remove_tree_def kept_drop)
    have "passes (\<lambda>d. ?K d \<and> unprotected L d0 ?tmp) (finally_io (swap_in ?tmp (la_env L) new) (effect (remove_tree ?tmp)))
        (new_file E L d0 ?tmp) (\<lambda>_ d. ?K d \<and> unprotected L d0 ?tmp)"
    proof (rule passes_finally [OF passes_swap _ _ drop])
      show "passes (\<lambda>d. ?K d \<and> unprotected L d0 ?tmp) (effect (remove_tree ?tmp))
          (\<lambda>d. ?K d \<and> unprotected L d0 ?tmp) (\<lambda>_ _. True)"
        by (rule passes_mono [OF drop]) simp_all
    qed (use True in \<open>auto simp: new_file_def\<close>)
    then have "passes ?K (finally_io (swap_in ?tmp (la_env L) new) (effect (remove_tree ?tmp)))
        (new_file E L d0 ?tmp) (\<lambda>_ d. ?K d \<and> unprotected L d0 ?tmp)" by (rule passes_sub) simp
    then show ?thesis by (rule passes_mono) simp_all
  qed (auto intro: passes_never)
  show "passes ?K (bind_io (create_new E ?tmp mode_0600) (\<lambda>_.
      finally_io (swap_in ?tmp (la_env L) new) (effect (remove_tree ?tmp))))
      (\<lambda>d. ?K d \<and> content_of d (la_env L) = content) (\<lambda>_. ?K)"
    by (rule passes_bind [OF created swap])
qed

lemma passes_repair:
  assumes "safe_action L a"
  shows "passes (kept E L d0) (apply_repair E a) (kept E L d0) (\<lambda>_. kept E L d0)"
proof (cases a)
  case (Chmod p m)
  with assms have "m \<in> safe_modes" by (simp add: safe_modes_def)
  with Chmod show ?thesis by (auto intro: passes_chmod kept_chmod)
next
  case (MakeDirectory p)
  then show ?thesis by (simp add: make_path_def passes_bind [OF passes_make_directories passes_make_directory])
next
  case (UpdateEnv p key v)
  with assms show ?thesis by (auto intro: passes_update_env)
next
  case (CreateEmpty p)
  then show ?thesis
    by (simp add: passes_bind [OF passes_make_directories passes_kept_of [OF passes_create]])
next
  case (MintKey p q)
  then show ?thesis by (simp add: passes_mint)
next
  case (EnsurePublic pem q)
  then show ?thesis by (simp add: passes_publish)
qed

lemma passes_repairs:
  "\<forall>r \<in> set rs. safe_action L (re_action r) \<Longrightarrow>
     passes (kept E L d0) (apply_repairs E stack rs) (kept E L d0) (\<lambda>_. kept E L d0)"
proof (induction rs)
  case (Cons r rs)
  let ?K = "kept E L d0"
  have one: "passes ?K (catch_io (bind_io (apply_repair E (re_action r)) (\<lambda>_. ret_io FIXED)) (\<lambda>e. ret_io ERROR)) ?K (\<lambda>_. ?K)"
  proof (rule passes_catch)
    show "passes ?K (bind_io (apply_repair E (re_action r)) (\<lambda>_. ret_io FIXED)) ?K (\<lambda>_. ?K)"
      using Cons.prems by (intro passes_bind [OF passes_repair]) (auto intro: passes_retI simp del: ret_io_app)
  qed (auto intro: passes_retI simp del: ret_io_app)
  have rest: "passes ?K (bind_io (apply_repairs E stack rs) (\<lambda>(fs, restart).
       ret_io (\<lparr>fi_id = re_finding r, fi_status = st, fi_fixable = False\<rparr> # fs,
               (st = FIXED \<and> re_restart r \<and> stack) \<or> restart))) ?K (\<lambda>_. ?K)" for st
    using Cons by (intro passes_bind [where Q = "\<lambda>_. ?K"]) (auto intro: passes_retI simp del: ret_io_app split: prod.splits)
  show ?case unfolding apply_repairs.simps by (rule passes_bind [OF one rest])
qed (simp add: passes_retI del: ret_io_app)

lemma offered_safe:
  assumes "scanned E d L offers = Inr s" and "r \<in> set (sc_repairs s)"
  shows "safe_action L (re_action r)"
proof -
  from assms(1) obtain u where "scan_all E d L (new_scan offers) = (Inr u, s)"
    by (auto simp: scanned_def split: prod.splits sum.splits)
  from keepsD [OF grow_scan this] assms(2) show ?thesis by (auto simp: extends_def new_scan_def)
qed

lemma passes_doctor:
  assumes "discover E d0 (da_directory args) = Inr L"
  shows "passes (kept E L d0) (doctor_run E args) (\<lambda>d. d = d0) (\<lambda>_ _. True)"
  unfolding doctor_run_def
proof (rule passes_look_bind, rule passes_of_res_bind)
  fix r1 :: "(layout \<times> scan) res" and r
  assume r: "r1 = Inr r"
  obtain L' initial where p: "r = (L', initial)" by force
  let ?K = "kept E L d0"
  show "passes ?K (case r of (L, initial) \<Rightarrow>
       if da_fix args \<and> sc_repairs initial \<noteq> []
       then bind_io (of_res (confirmed E args)) (\<lambda>_.
            bind_io (apply_repairs E (sc_stack_exists initial) (sc_repairs initial)) (\<lambda>(fixed, restart).
            bind_io (look (\<lambda>d. scanned E d L False)) (\<lambda>final.
            bind_io (of_res final) (\<lambda>s. ret_io (make_report L fixed restart s)))))
       else ret_io (make_report L [] False initial))
     (\<lambda>d. d = d0 \<and> bind_res (discover E d (da_directory args)) (\<lambda>L.
       bind_res (scanned E d L (da_fix args)) (\<lambda>s. Inr (L, s))) = r1) (\<lambda>_ _. True)"
  proof (cases "L' = L \<and> scanned E d0 L (da_fix args) = Inr initial")
    case False
    then show ?thesis by (intro passes_never) (auto simp: assms r p bind_res_Inr_iff)
  next
    case True
    then have safe: "\<forall>r \<in> set (sc_repairs initial). safe_action L (re_action r)" using offered_safe by blast
    have report: "passes ?K (bind_io (look (\<lambda>d. scanned E d L False)) (\<lambda>final.
        bind_io (of_res final) (\<lambda>s. ret_io (make_report L fixed restart s)))) ?K (\<lambda>_ _. True)" for fixed restart
      by (intro passes_look_bind passes_of_res_bind passes_retI) simp
    have fix1: "passes ?K (bind_io (apply_repairs E (sc_stack_exists initial) (sc_repairs initial)) (\<lambda>(fixed, restart).
        bind_io (look (\<lambda>d. scanned E d L False)) (\<lambda>final.
        bind_io (of_res final) (\<lambda>s. ret_io (make_report L fixed restart s))))) ?K (\<lambda>_ _. True)"
      by (rule passes_bind [OF passes_repairs [OF safe]]) (auto intro: report split: prod.splits)
    show ?thesis
      unfolding p case_prod_conv
      using True by (auto intro!: passes_of_res_bind passes_retI passes_weaken [OF fix1] simp: kept_refl simp del: ret_io_app)
  qed
qed

text \<open>
  C34: Repairs lose nothing. On every disk \<open>doctor\<close> goes through, whatever effect fails or
  is cut off, everything that was there before but the environment file is there with its
  content and its owner, and its mode is the old one or one of 0700, 0600 and 0444. The
  environment file, if it is a regular file that can be read as one, is so afterwards, with
  such a mode, and read as before but for the namespace and the socket's group. (Nothing is
  said of its owner, nor of one that is a link or cannot be read: \<open>env_update_changes_owner\<close>,
  \<open>env_update_replaces_link\<close>.) And unless \<open>--fix\<close> was given and confirmed, nothing changes.
\<close>

theorem repairs_lose_nothing:
  assumes "doctor_run E args (power_on d faults) = (r, M)" and "discover E d (da_directory args) = Inr L"
  shows "(\<forall>disk \<in> disks M. \<forall>p nd. map_of d p = Some nd \<longrightarrow>
      (p \<noteq> la_env L \<longrightarrow> (\<exists>nd'. map_of disk p = Some nd' \<and> nd_kind nd' = nd_kind nd \<and> nd_owner nd' = nd_owner nd \<and>
         (nd_mode nd' = nd_mode nd \<or> nd_mode nd' \<in> {0x1C0, mode_0600, mode_0444}))) \<and>
      (\<forall>c vs twice. p = la_env L \<longrightarrow> nd_kind nd = Regular c \<longrightarrow> env_file (de_loads E) c = Inr (vs, twice) \<longrightarrow>
         (\<exists>nd' c' vs'. map_of disk p = Some nd' \<and> (nd_mode nd' = nd_mode nd \<or> nd_mode nd' \<in> {0x1C0, mode_0600, mode_0444}) \<and>
            nd_kind nd' = Regular c' \<and> env_file (de_loads E) c' = Inr (vs', twice) \<and>
            (\<forall>k. k \<noteq> namespace_key L \<longrightarrow> k \<noteq> ''DOCKER_GID'' \<longrightarrow> map_of vs' k = map_of vs k)))) \<and>
    (\<not> (da_fix args \<and> (da_yes args \<or> \<not> da_json args \<and> py_lower (py_strip (de_answer E)) \<in> {''y'', ''yes''})) \<longrightarrow>
      M = power_on d faults)"
proof (intro conjI ballI allI impI)
  fix disk p nd assume disk: "disk \<in> disks M" and nd: "map_of d p = Some nd"
  have "throughout (kept E L d) M"
    by (rule passed_throughout [OF _ passesD(1) [OF passes_doctor [OF assms(2)] _ assms(1)]]) (simp_all add: kept_refl)
  then have "kept E L d disk" using disk by (simp add: throughout_def)
  then have k: "path_kept E L disk p nd" using nd by (simp add: kept_def)
  show "\<exists>nd'. map_of disk p = Some nd' \<and> nd_kind nd' = nd_kind nd \<and> nd_owner nd' = nd_owner nd \<and>
      (nd_mode nd' = nd_mode nd \<or> nd_mode nd' \<in> {0x1C0, mode_0600, mode_0444})" if "p \<noteq> la_env L"
    using k that unfolding path_kept_def node_kept_def safe_modes_def by (simp add: conj_assoc)
  show "\<exists>nd' c' vs'. map_of disk p = Some nd' \<and> (nd_mode nd' = nd_mode nd \<or> nd_mode nd' \<in> {0x1C0, mode_0600, mode_0444}) \<and>
      nd_kind nd' = Regular c' \<and> env_file (de_loads E) c' = Inr (vs', twice) \<and>
      (\<forall>k. k \<noteq> namespace_key L \<longrightarrow> k \<noteq> ''DOCKER_GID'' \<longrightarrow> map_of vs' k = map_of vs k)"
    if "p = la_env L" "nd_kind nd = Regular c" "env_file (de_loads E) c = Inr (vs, twice)" for c vs twice
  proof -
    from k that(1,2) obtain nd' c' where "map_of disk p = Some nd'" "nd_kind nd' = Regular c'" "agrees E L c c'"
      "nd_mode nd' = nd_mode nd \<or> nd_mode nd' \<in> {0x1C0, mode_0600, mode_0444}"
      unfolding path_kept_def env_kept_def safe_modes_def by auto
    then show ?thesis using that(3) unfolding agrees_def by blast
  qed
next
  assume no: "\<not> (da_fix args \<and> (da_yes args \<or> \<not> da_json args \<and> py_lower (py_strip (de_answer E)) \<in> {''y'', ''yes''}))"
  then have "confirmed E args \<noteq> Inr ()" if "da_fix args" using that by (auto simp: confirmed_def doctor_raise_def)
  then have refused: "\<exists>e. confirmed E args = Inl e" if "da_fix args"
    using that by (cases "confirmed E args") auto
  have "snd (doctor_run E args (power_on d faults)) = power_on d faults"
    using no refused by (auto simp: doctor_run_def bind_io_def split: sum.splits prod.splits)
  then show "M = power_on d faults" using assms(1) by simp
qed

section \<open>Examples\<close>

definition sample_digest :: string where
  "sample_digest = replicate 64 CHR ''0''"

definition sample_docker :: "tree \<Rightarrow> string list \<Rightarrow> outcome" where
  "sample_docker d argv =
     (if prefix [''docker'', ''context''] argv then Exited 0 ''unix:///var/run/docker.sock'' []
      else if prefix [''docker'', ''version''] argv then Exited 0 ''29.1'' []
      else if prefix [''docker'', ''compose'', ''version''] argv then Exited 0 ''5.3'' []
      else if prefix [''docker'', ''compose''] argv then Exited 0 ''rendered'' []
      else if prefix [''docker'', ''run''] argv then Exited 0 ''998'' []
      else Exited 0 [] [])"

definition sample_rendered :: json where
  "sample_rendered =
     JObj [(''name'', JStr ''q''),
           (''services'', JObj [(''gateway'', JObj [(''ports'', JArr
              [JObj [(''host_ip'', JStr ''127.0.0.1''), (''published'', JStr ''8000'')]])])])]"

definition sample_doctor :: doctor_env where
  "sample_doctor =
     \<lparr>de_docker = sample_docker, de_which = (\<lambda>s. True), de_resolve = (\<lambda>s. s), de_expand = (\<lambda>s. s),
      de_loads = (\<lambda>s. if s = ''rendered'' then Some sample_rendered else None), de_text = (\<lambda>v. []),
      de_yaml = (\<lambda>s. Inr (JObj [])), de_policy = (\<lambda>s. Inr \<lparr>p_version = 1, p_servers = [], p_identities = [],
        p_risk = \<lparr>tool_sensitivity = [], protected_repos = []\<rparr>\<rparr>),
      de_expr = (\<lambda>s. Inl TypeError), de_base32 = Inr, de_sha256 = (\<lambda>s. s),
      de_private_id = (\<lambda>s. Inr (''sha256:'' @ sample_digest)), de_private_p256 = (\<lambda>s. True),
      de_public_id = (\<lambda>s. Inr (''sha256:'' @ sample_digest)), de_public_p256 = (\<lambda>s. True), de_public_pem = (\<lambda>s. s),
      de_loopback = (\<lambda>s. s = ''127.0.0.1''), de_network = (\<lambda>s. True), de_bind = (\<lambda>h p. True),
      de_ready = (\<lambda>p. NotReady), de_temporary = (\<lambda>p. p @ ''.tmp''), de_fresh_key = ''key'', de_user = (1, 1),
      de_umask = (\<lambda>m. m), de_answer = ''y''\<rparr>"

definition owned :: "kind \<Rightarrow> nat \<Rightarrow> node" where
  "owned k m = \<lparr>nd_kind = k, nd_mode = m, nd_owner = (1, 1)\<rparr>"

definition sample_env_file :: "string \<Rightarrow> string" where
  "sample_env_file gid =
     ''QUICKSTART_NAMESPACE=q'' @ [CHR 0x0A] @ ''CONFIG_DIR=/c'' @ [CHR 0x0A] @ ''SECRETS_DIR=/s'' @ [CHR 0x0A] @
     ''HOST_UID=1'' @ [CHR 0x0A] @ ''HOST_GID=1'' @ [CHR 0x0A] @ ''DOCKER_GID='' @ gid @ [CHR 0x0A] @
     ''GATEWAY_IMAGE=g'' @ [CHR 0x0A] @ ''FORWARDED_ALLOW_IPS=*'' @ [CHR 0x0A]"

definition deployed :: "string \<Rightarrow> tree" where
  "deployed gid =
     [(''/d'', owned Directory 0x1C0), (''/d/.env.quickstart'', owned (Regular (sample_env_file gid)) 0x180),
      (''/d/compose.quickstart.yml'', owned (Regular []) 0x1A4), (''/c'', owned Directory 0x1C0),
      (''/c/revisions'', owned Directory 0x1C0), (''/c/policy.yaml'', owned (Regular ''policy'') 0x180),
      (''/s'', owned Directory 0x1C0), (''/s/public'', owned Directory 0x1C0),
      (''/s/audit_signing_key.pem'', owned (Regular ''key'') 0x180),
      (''/s/public/'' @ sample_digest @ ''.pub.pem'', owned (Regular ''key'') 0x124),
      (''/var/run/docker.sock'', owned Special 0x1B0)]"

definition sample_doctor_args :: doctor_args where
  "sample_doctor_args = \<lparr>da_directory = ''/d'', da_fix = True, da_json = False, da_yes = True\<rparr>"

definition sample_layout :: layout where
  "sample_layout =
     \<lparr>la_kind = Quickstart, la_root = ''/d'', la_env = ''/d/.env.quickstart'', la_compose = ''/d/compose.quickstart.yml''\<rparr>"

text \<open>The states of a scan of the sample deployment, check by check.\<close>

definition sample_resolved :: resolved where
  "sample_resolved = \<lparr>rs_policy_dir = ''/c'', rs_audit_dir = ''/s'', rs_gateway_env = ''/d/.env.quickstart'', rs_owner = (1, 1)\<rparr>"

definition passing :: "string list \<Rightarrow> scan \<Rightarrow> scan" where
  "passing is s =
     s\<lparr>sc_findings := sc_findings s @ map (\<lambda>i. \<lparr>fi_id = i, fi_status = PASS, fi_fixable = False\<rparr>) is\<rparr>"

definition sample_values :: env_values where
  "sample_values =
     [(''QUICKSTART_NAMESPACE'', ''q''), (''CONFIG_DIR'', ''/c''), (''SECRETS_DIR'', ''/s''), (''HOST_UID'', ''1''),
      (''HOST_GID'', ''1''), (''DOCKER_GID'', ''998''), (''GATEWAY_IMAGE'', ''g''), (''FORWARDED_ALLOW_IPS'', ''*'')]"

definition sample_config :: jdict where
  "sample_config = (case sample_rendered of JObj o1 \<Rightarrow> o1 | _ \<Rightarrow> [])"

definition after_deployment :: scan where
  "after_deployment = passing [''deployment.shape'', ''filesystem.deployment'', ''deployment.environment'', ''deployment.compose'', ''filesystem.primary_env'', ''deployment.environment.duplicates'']
     ((new_scan True)\<lparr>sc_values := sample_values\<rparr>)"

definition after_docker :: scan where
  "after_docker = passing [''docker.cli'', ''docker.daemon'', ''docker.version.engine'', ''docker.version.compose''] after_deployment"

definition after_compose :: scan where
  "after_compose = passing [''compose.render''] (after_docker\<lparr>sc_rendered := Some sample_config\<rparr>)"

definition after_namespace :: scan where
  "after_namespace = passing [''docker.namespace'', ''docker.socket_gid''] (after_compose\<lparr>sc_namespace := ''q''\<rparr>)"

definition after_paths :: scan where
  "after_paths = passing [''filesystem.policy_dir'', ''filesystem.policy_dir.owner'', ''filesystem.revisions_dir'', ''filesystem.revisions_dir.owner'', ''filesystem.audit_dir'', ''filesystem.audit_dir.owner'', ''filesystem.public_dir'', ''filesystem.public_dir.owner''] after_namespace"

definition after_keys :: scan where
  "after_keys = passing [''filesystem.private_key'', ''filesystem.private_key.owner'', ''audit.private_key'', ''filesystem.public_key'', ''filesystem.public_key.owner'', ''audit.public_key'', ''audit.public_key.active''] after_paths"

definition after_policy :: scan where
  "after_policy = passing [''filesystem.policy'', ''filesystem.policy.owner'', ''policy.environment'', ''policy.validation'']
     (after_keys\<lparr>sc_policy := Some
        \<lparr>e_policy = \<lparr>p_version = 1, p_servers = [], p_identities = [],
           p_risk = \<lparr>tool_sensitivity = [], protected_repos = []\<rparr>\<rparr>, e_content_hash = ''policy'', e_raw = ''policy''\<rparr>\<rparr>)"

definition after_network :: scan where
  "after_network =
     (let s = passing [''network.binding'', ''network.port'', ''network.forwarded_allow_ips''] after_policy
      in s\<lparr>sc_findings := sc_findings s @ [\<lparr>fi_id = ''runtime.readiness'', fi_status = INFO, fi_fixable = False\<rparr>]\<rparr>)"

lemma sample_step1: "deployment sample_doctor (deployed ''998'') sample_layout (new_scan True) = (Inr (), after_deployment)"
  by code_simp

lemma sample_step2: "check_docker sample_doctor (deployed ''998'') after_deployment = (Inr True, after_docker)"
  by code_simp

lemma sample_step3: "check_compose sample_doctor (deployed ''998'') sample_layout after_docker = (Inr (), after_compose)"
  by code_simp

lemma sample_step4: "namespace_and_gid sample_doctor (deployed ''998'') sample_layout True after_compose = (Inr (), after_namespace)"
  by code_simp

lemma sample_step5: "check_paths sample_doctor (deployed ''998'') sample_layout after_namespace = (Inr (Some sample_resolved), after_paths)"
  by code_simp

lemma sample_step6: "check_audit_keys sample_doctor (deployed ''998'') sample_resolved after_paths = (Inr (), after_keys)"
  by code_simp

lemma sample_step7: "check_policy sample_doctor (deployed ''998'') sample_layout sample_resolved after_keys = (Inr (), after_policy)"
  by code_simp

lemma sample_step8: "check_network sample_doctor sample_layout after_policy = (Inr (), after_network)"
  by code_simp

lemmas sample_steps = sample_step1 sample_step2 sample_step3 sample_step4 sample_step5 sample_step6 sample_step7 sample_step8

lemma sample_found: "discover sample_doctor (deployed ''998'') ''/d'' = Inr sample_layout"
  "discover sample_doctor (deployed ''7'') ''/d'' = Inr sample_layout"
  by code_simp+

lemma sample_scan: "scanned sample_doctor (deployed ''998'') sample_layout True = Inr after_network"
  using sample_steps by (simp add: scanned_def scan_all_def bind_io_def check_resolved_def)

lemma sample_clean: "clean after_network \<and> sc_repairs after_network = []"
  by code_simp

theorem healthy_report_is_true_witness:
  "sound_deployment sample_doctor (deployed ''998'') sample_layout"
proof -
  have run: "doctor_run sample_doctor sample_doctor_args (power_on (deployed ''998'') []) =
      (Inr (make_report sample_layout [] False after_network), power_on (deployed ''998'') [])"
    using sample_found(1) sample_scan sample_clean by (simp add: doctor_run_def bind_io_def sample_doctor_args_def)
  have "rp_healthy (make_report sample_layout [] False after_network)"
    using sample_clean by (simp add: make_report_def Let_def has_status_def clean_def)
  from healthy_report_is_true [OF run this] show ?thesis by (simp add: make_report_def Let_def)
qed

theorem repairs_lose_nothing_witness:
  "\<exists>nd' c' vs'. map_of (mc_disk (snd (doctor_run sample_doctor sample_doctor_args (power_on (deployed ''7'') [Healthy, FailsAfter]))))
       ''/d/.env.quickstart'' = Some nd' \<and> nd_kind nd' = Regular c' \<and>
     env_file (de_loads sample_doctor) c' = Inr (vs', []) \<and> map_of vs' ''HOST_UID'' = Some ''1''"
proof -
  obtain r M where run: "doctor_run sample_doctor sample_doctor_args (power_on (deployed ''7'') [Healthy, FailsAfter]) = (r, M)"
    by force
  have args: "discover sample_doctor (deployed ''7'') (da_directory sample_doctor_args) = Inr sample_layout"
    using sample_found(2) by (simp add: sample_doctor_args_def)
  have nd: "map_of (deployed ''7'') ''/d/.env.quickstart'' = Some (owned (Regular (sample_env_file ''7'')) 0x180)"
    by (simp add: deployed_def)
  have vs: "env_file (de_loads sample_doctor) (sample_env_file ''7'') = Inr (al_put ''DOCKER_GID'' ''7'' sample_values, [])"
    by code_simp
  have "mc_disk M \<in> disks M" by (simp add: disks_def)
  with conjunct1 [OF repairs_lose_nothing [OF run args]] nd have
    "\<forall>c vs twice. ''/d/.env.quickstart'' = la_env sample_layout \<longrightarrow> nd_kind (owned (Regular (sample_env_file ''7'')) 0x180) = Regular c \<longrightarrow>
       env_file (de_loads sample_doctor) c = Inr (vs, twice) \<longrightarrow>
       (\<exists>nd' c' vs'. map_of (mc_disk M) ''/d/.env.quickstart'' = Some nd' \<and> nd_kind nd' = Regular c' \<and>
          env_file (de_loads sample_doctor) c' = Inr (vs', twice) \<and>
          (\<forall>k. k \<noteq> namespace_key sample_layout \<longrightarrow> k \<noteq> ''DOCKER_GID'' \<longrightarrow> map_of vs' k = map_of vs k))"
    by blast
  note env = this [rule_format, OF _ _ vs]
  have la: "''/d/.env.quickstart'' = la_env sample_layout" by (simp add: sample_layout_def)
  have content: "nd_kind (owned (Regular (sample_env_file ''7'')) 0x180) = Regular (sample_env_file ''7'')"
    by (simp add: owned_def)
  from env [OF la content] obtain nd' c' vs' where found: "map_of (mc_disk M) ''/d/.env.quickstart'' = Some nd'"
    "nd_kind nd' = Regular c'" "env_file (de_loads sample_doctor) c' = Inr (vs', [])"
    and same_values: "\<forall>k. k \<noteq> namespace_key sample_layout \<longrightarrow> k \<noteq> ''DOCKER_GID'' \<longrightarrow>
      map_of vs' k = map_of (al_put ''DOCKER_GID'' ''7'' sample_values) k" by blast
  have "''HOST_UID'' \<noteq> namespace_key sample_layout" "''HOST_UID'' \<noteq> ''DOCKER_GID''"
    "map_of (al_put ''DOCKER_GID'' ''7'' sample_values) ''HOST_UID'' = Some ''1''" by code_simp+
  then have "map_of vs' ''HOST_UID'' = Some ''1''" using same_values by metis
  with found show ?thesis unfolding run snd_conv by blast
qed

text \<open>
  Two ways in which the update of the environment file does more than set a key. The new
  file belongs to the user who runs the command, and a link is not followed but replaced,
  though \<open>doctor\<close> itself reports links as the operator's to resolve.
\<close>

theorem env_update_changes_owner:
  "nd_owner (the (map_of (mc_disk (snd (apply_repair sample_doctor (UpdateEnv ''/e'' ''A'' ''2'')
     (power_on [(''/'', \<lparr>nd_kind = Directory, nd_mode = 0x1ED, nd_owner = (0, 0)\<rparr>),
        (''/e'', \<lparr>nd_kind = Regular ''A=1'', nd_mode = 0x180, nd_owner = (7, 7)\<rparr>)] [])))) ''/e'')) = (1, 1)"
  by code_simp

theorem env_update_replaces_link:
  "map (\<lambda>p. (fst p, nd_kind (snd p))) (mc_disk (snd (apply_repair sample_doctor (UpdateEnv ''/e'' ''A'' ''2'')
     (power_on [(''/'', \<lparr>nd_kind = Directory, nd_mode = 0x1ED, nd_owner = (0, 0)\<rparr>),
        (''/e'', \<lparr>nd_kind = Symlink ''/t'', nd_mode = 0x1FF, nd_owner = (7, 7)\<rparr>),
        (''/t'', \<lparr>nd_kind = Regular ''A=1'', nd_mode = 0x180, nd_owner = (7, 7)\<rparr>)] [])))) =
   [(''/'', Directory), (''/e'', Regular (''A=2'' @ [CHR 0x0A])), (''/t'', Regular ''A=1'')]"
  by code_simp

end
