(* ===== verification/PolicySchema.thy ===== *)
theory PolicySchema
  imports PolicyEngine
begin

text \<open>
  The fields that \<open>policy_engine.py\<close> declares for a policy file: \<open>RiskPolicy\<close>,
  \<open>UpstreamResources\<close>, \<open>UpstreamMount\<close>, \<open>UpstreamServer\<close>, \<open>ServerGrant\<close>, \<open>Identity\<close> and
  \<open>PolicyFile\<close>, read from the data of the YAML document. Unknown fields are forbidden, absent
  ones have their defaults, and values are of the declared types: what is read here is read the
  same way by pydantic, which also converts some values of other types (a number given as a
  string, or an infinite number of processors). The validators of the classes are \<open>validate_policy\<close> of PolicyEngine.
\<close>

section \<open>Values of the declared types\<close>

fun read_str :: "json \<Rightarrow> string res" where
  "read_str (JStr s) = Inr s"
| "read_str _ = Inl (ValueError ''Input should be a valid string'')"

fun read_int :: "json \<Rightarrow> int res" where
  "read_int (JInt n) = Inr n"
| "read_int _ = Inl (ValueError ''Input should be a valid integer'')"

fun read_bool :: "json \<Rightarrow> bool res" where
  "read_bool (JBool b) = Inr b"
| "read_bool _ = Inl (ValueError ''Input should be a valid boolean'')"

fun read_number :: "json \<Rightarrow> rat res" where
  "read_number (JInt n) = Inr (of_int n)"
| "read_number (JFloat (FinF q)) = Inr q"
| "read_number _ = Inl (ValueError ''Input should be a valid number'')"

fun read_attribute :: "json \<Rightarrow> aval res" where
  "read_attribute (JStr s) = Inr (AStr s)"
| "read_attribute (JInt n) = Inr (AInt n)"
| "read_attribute (JFloat x) = Inr (AFloat x)"
| "read_attribute (JBool b) = Inr (ABool b)"
| "read_attribute _ = Inl (ValueError ''Input should be a valid string'')"

fun read_opt :: "(json \<Rightarrow> 'a res) \<Rightarrow> json \<Rightarrow> 'a option res" where
  "read_opt f JNull = Inr None"
| "read_opt f v = bind_res (f v) (\<lambda>a. Inr (Some a))"

fun read_list :: "(json \<Rightarrow> 'a res) \<Rightarrow> json \<Rightarrow> 'a list res" where
  "read_list f (JArr xs) = collect_res (map f xs)"
| "read_list f _ = Inl (ValueError ''Input should be a valid list'')"

fun read_dict :: "(json \<Rightarrow> 'a res) \<Rightarrow> json \<Rightarrow> (string \<times> 'a) list res" where
  "read_dict f (JObj d) = collect_res (map (\<lambda>p. bind_res (f (snd p)) (\<lambda>a. Inr (fst p, a))) d)"
| "read_dict f _ = Inl (ValueError ''Input should be a valid dictionary'')"

definition one_of :: "(string \<times> 'a) list \<Rightarrow> json \<Rightarrow> 'a res" where
  "one_of names v =
     bind_res (read_str v) (\<lambda>s. case map_of names s of
       None \<Rightarrow> Inl (ValueError ''Input should be one of the literals'')
     | Some a \<Rightarrow> Inr a)"

text \<open>A class of \<open>extra="forbid"\<close>, a field with a default, and one without.\<close>

fun read_object :: "string list \<Rightarrow> (jdict \<Rightarrow> 'a res) \<Rightarrow> json \<Rightarrow> 'a res" where
  "read_object names f (JObj d) =
     (if list_all (\<lambda>p. fst p \<in> set names) d then f d else Inl (ValueError ''Extra inputs are not permitted''))"
| "read_object names f _ = Inl (ValueError ''Input should be a valid dictionary'')"

definition defaulted :: "(json \<Rightarrow> 'a res) \<Rightarrow> jdict \<Rightarrow> string \<Rightarrow> 'a \<Rightarrow> 'a res" where
  "defaulted f d k fallback = (case map_of d k of None \<Rightarrow> Inr fallback | Some v \<Rightarrow> f v)"

definition declared :: "(json \<Rightarrow> 'a res) \<Rightarrow> jdict \<Rightarrow> string \<Rightarrow> 'a res" where
  "declared f d k = (case map_of d k of None \<Rightarrow> Inl (ValueError ''Field required'') | Some v \<Rightarrow> f v)"

section \<open>The classes\<close>

definition read_risk :: "json \<Rightarrow> risk_policy res" where
  "read_risk = read_object [''tool_sensitivity'', ''protected_repos''] (\<lambda>d.
     bind_res (defaulted (read_dict (one_of (map (\<lambda>t. (tier_value t, t)) [TLow, TMedium, THigh, TCritical])))
       d ''tool_sensitivity'' []) (\<lambda>tiers.
     bind_res (defaulted (read_list read_str) d ''protected_repos'' []) (\<lambda>repos.
       Inr \<lparr>tool_sensitivity = tiers, protected_repos = repos\<rparr>)))"

definition read_resources :: "json \<Rightarrow> resources res" where
  "read_resources = read_object [''memory_mb'', ''cpus'', ''pids''] (\<lambda>d.
     bind_res (defaulted read_int d ''memory_mb'' 256) (\<lambda>memory.
     bind_res (defaulted read_number d ''cpus'' (1 / 2)) (\<lambda>cpu.
     bind_res (defaulted read_int d ''pids'' 64) (\<lambda>n.
       Inr \<lparr>memory_mb = memory, cpus = cpu, pids = n\<rparr>))))"

definition read_mount :: "json \<Rightarrow> mount res" where
  "read_mount = read_object [''source'', ''target''] (\<lambda>d.
     bind_res (declared read_str d ''source'') (\<lambda>source.
     bind_res (declared read_str d ''target'') (\<lambda>target.
       Inr \<lparr>m_source = source, m_target = target\<rparr>)))"

definition read_server :: "json \<Rightarrow> upstream_server res" where
  "read_server = read_object [''image'', ''command'', ''env'', ''volumes'', ''network'', ''resources''] (\<lambda>d.
     bind_res (declared read_str d ''image'') (\<lambda>image.
     bind_res (declared (read_list read_str) d ''command'') (\<lambda>command.
     bind_res (defaulted (read_dict read_str) d ''env'' []) (\<lambda>env.
     bind_res (defaulted (read_list read_mount) d ''volumes'' []) (\<lambda>volumes.
     bind_res (defaulted (one_of [(''none'', NetNone), (''bridge'', NetBridge)]) d ''network'' NetNone) (\<lambda>network.
     bind_res (defaulted read_resources d ''resources'' default_resources) (\<lambda>res.
       Inr \<lparr>us_image = image, us_command = command, us_env = env, us_volumes = volumes, us_network = network,
         us_resources = res, us_resolved_environment = []\<rparr>)))))))"

definition read_grant :: "json \<Rightarrow> server_grant res" where
  "read_grant = read_object [''server_id'', ''allowed_tools'', ''denied_tools'', ''conditions''] (\<lambda>d.
     bind_res (declared read_str d ''server_id'') (\<lambda>server.
     bind_res (defaulted (read_list read_str) d ''allowed_tools'' []) (\<lambda>allowed.
     bind_res (defaulted (read_list read_str) d ''denied_tools'' []) (\<lambda>denied.
     bind_res (defaulted (read_list read_str) d ''conditions'' []) (\<lambda>conditions.
       Inr \<lparr>g_server_id = server, g_allowed_tools = allowed, g_denied_tools = denied, g_conditions = conditions,
         g_compiled = []\<rparr>)))))"

definition read_identity :: "json \<Rightarrow> ident res" where
  "read_identity = read_object [''id'', ''auth_mode'', ''api_key_hash'', ''key_id'', ''signing_secret_env'',
       ''totp_secret_env'', ''admin'', ''allowed_servers'', ''attributes''] (\<lambda>d.
     bind_res (declared read_str d ''id'') (\<lambda>name.
     bind_res (defaulted (one_of [(''bearer'', Bearer), (''signed'', Signed)]) d ''auth_mode'' Bearer) (\<lambda>mode.
     bind_res (defaulted (read_opt read_str) d ''api_key_hash'' None) (\<lambda>hash.
     bind_res (defaulted (read_opt read_str) d ''key_id'' None) (\<lambda>key.
     bind_res (defaulted (read_opt read_str) d ''signing_secret_env'' None) (\<lambda>secret.
     bind_res (defaulted (read_opt read_str) d ''totp_secret_env'' None) (\<lambda>totp.
     bind_res (defaulted read_bool d ''admin'' False) (\<lambda>admin.
     bind_res (defaulted (read_list read_grant) d ''allowed_servers'' []) (\<lambda>grants.
     bind_res (defaulted (read_dict read_attribute) d ''attributes'' []) (\<lambda>attributes.
       Inr \<lparr>i_id = name, i_auth_mode = mode, i_api_key_hash = hash, i_key_id = key, i_signing_secret_env = secret,
         i_totp_secret_env = totp, i_admin = admin, i_allowed_servers = grants, i_attributes = attributes,
         i_signing_secret = [], i_totp_secret = []\<rparr>))))))))))"

definition read_policy :: "json \<Rightarrow> policy_file res" where
  "read_policy = read_object [''version'', ''servers'', ''identities'', ''risk''] (\<lambda>d.
     bind_res (declared read_int d ''version'') (\<lambda>version.
     bind_res (defaulted (read_dict read_server) d ''servers'' []) (\<lambda>servers.
     bind_res (defaulted (read_list read_identity) d ''identities'' []) (\<lambda>identities.
     bind_res (defaulted read_risk d ''risk'' \<lparr>tool_sensitivity = [], protected_repos = []\<rparr>) (\<lambda>risk.
       Inr \<lparr>p_version = version, p_servers = servers, p_identities = identities, p_risk = risk\<rparr>)))))"

section \<open>What a document must have\<close>

lemmas read_defs = read_risk_def read_resources_def read_mount_def read_server_def read_grant_def read_identity_def
  read_policy_def defaulted_def declared_def one_of_def

lemma read_object_Inr:
  "read_object names f v = Inr a \<longleftrightarrow> (\<exists>d. v = JObj d \<and> fst ` set d \<subseteq> set names \<and> f d = Inr a)"
  by (cases v) (auto simp: list_all_iff)

lemma read_strings [simp]: "collect_res (map (read_str \<circ> JStr) ss) = Inr ss"
  by (induction ss) simp_all

text \<open>A misspelt field of an identity or a grant is refused, not ignored.\<close>

definition identity_fields :: "string set" where
  "identity_fields = {''id'', ''auth_mode'', ''api_key_hash'', ''key_id'', ''signing_secret_env'',
     ''totp_secret_env'', ''admin'', ''allowed_servers'', ''attributes''}"

definition grant_fields :: "string set" where
  "grant_fields = {''server_id'', ''allowed_tools'', ''denied_tools'', ''conditions''}"

lemma read_list_items:
  "defaulted (read_list f) d k [] = Inr as \<Longrightarrow> map_of d k = Some (JArr xs) \<Longrightarrow> x \<in> set xs \<Longrightarrow> \<exists>a. f x = Inr a"
  by (auto simp: defaulted_def dest!: collect_res_Inr_mem)

lemma read_grant_fields: "read_grant g = Inr a \<Longrightarrow> \<exists>e. g = JObj e \<and> fst ` set e \<subseteq> grant_fields"
  unfolding read_grant_def read_object_Inr grant_fields_def by fastforce

lemma read_identity_fields:
  assumes "read_identity v = Inr a"
  obtains i grants where "v = JObj i" and "fst ` set i \<subseteq> identity_fields"
    and "defaulted (read_list read_grant) i ''allowed_servers'' [] = Inr grants"
  using assms unfolding read_identity_def read_object_Inr bind_res_Inr_iff
  by (elim exE conjE) (rule that, assumption, simp add: identity_fields_def, assumption)

lemma read_policy_fields:
  assumes "read_policy (JObj d) = Inr p"
  obtains ids where "fst ` set d \<subseteq> {''version'', ''servers'', ''identities'', ''risk''}"
    and "defaulted (read_list read_identity) d ''identities'' [] = Inr ids"
  using assms unfolding read_policy_def read_object_Inr bind_res_Inr_iff
  by (elim exE conjE) (rule that, simp, simp)

theorem unknown_fields_refused:
  assumes "read_policy (JObj d) = Inr p" and "map_of d ''identities'' = Some (JArr xs)" and "v \<in> set xs"
  shows "fst ` set d \<subseteq> {''version'', ''servers'', ''identities'', ''risk''} \<and>
    (\<exists>i. v = JObj i \<and> fst ` set i \<subseteq> identity_fields \<and>
       (\<forall>gs g. map_of i ''allowed_servers'' = Some (JArr gs) \<longrightarrow> g \<in> set gs \<longrightarrow>
          (\<exists>e. g = JObj e \<and> fst ` set e \<subseteq> grant_fields)))"
proof -
  from read_policy_fields [OF assms(1)] obtain ids where d: "fst ` set d \<subseteq> {''version'', ''servers'', ''identities'', ''risk''}"
    and ids: "defaulted (read_list read_identity) d ''identities'' [] = Inr ids" .
  from read_list_items [OF ids assms(2,3)] obtain a where "read_identity v = Inr a" ..
  then obtain i grants where "v = JObj i" "fst ` set i \<subseteq> identity_fields"
    and grants: "defaulted (read_list read_grant) i ''allowed_servers'' [] = Inr grants" by (rule read_identity_fields)
  with d read_grant_fields read_list_items [OF grants] show ?thesis by metis
qed

end
