(* ===== verification/QuickstartFiles.thy ===== *)
theory QuickstartFiles
  imports DoctorRepair StepUp PolicySchema
begin

text \<open>
  \<open>services/quickstart.py\<close>, the first part: the checks of the arguments and of the host, and
  the files of a new deployment with its policy. Random keys, YAML and the packaged Compose
  file are parameters; the files are the tree of the doctor.
\<close>

section \<open>Arguments\<close>

definition pinned_gateway :: string where
  "pinned_gateway = ''ghcr.io/bashaarjavaid/portunusmcp@sha256:fdbfb388e68830fb6dff44c285fb0b3b43633113e586c448ab3e76abd6811073''"

definition pinned_postgres :: string where
  "pinned_postgres = ''postgres:16@sha256:33f923b05f64ca54ac4401c01126a6b92afe839a0aa0a52bc5aeb5cc958e5f20''"

definition pinned_redis :: string where
  "pinned_redis = ''redis:7@sha256:595cc6f2bb3af6e03347b90deb6123c6aa2c81dea05ce08128de8a174b6ac67b''"

definition denied_tool :: string where
  "denied_tool = ''portunusmcp_quickstart_denied''"

definition env_defaults :: env_values where
  "env_defaults =
     [(''MAX_MCP_BODY_BYTES'', ''1048576''), (''MAX_JSON_DEPTH'', ''32''), (''MAX_SESSIONS_PER_IDENTITY'', ''3''),
      (''MAX_INFLIGHT_CALLS_PER_IDENTITY'', ''5''), (''TOOL_CALL_RATE_LIMIT'', ''60''),
      (''TOOL_CALL_RATE_WINDOW_SECONDS'', ''60''), (''AUTH_FAILURE_RATE_LIMIT'', ''5''),
      (''AUTH_FAILURE_RATE_WINDOW_SECONDS'', ''300''), (''TOOL_CALL_DEADLINE_SECONDS'', ''60''),
      (''READINESS_TIMEOUT_SECONDS'', ''1.0''), (''SCHEMA_CACHE_TTL'', ''600''), (''SESSION_IDLE_TTL'', ''300''),
      (''SHUTDOWN_GRACE_SECONDS'', ''5''), (''REPLAY_WINDOW_SECONDS'', ''30''),
      (''ALLOWED_HOSTS'', ''[\"127.0.0.1:*\",\"localhost:*\"]''), (''ALLOWED_ORIGINS'', ''[]''),
      (''FORWARDED_ALLOW_IPS'', ''*''), (''BUSINESS_HOURS_START_UTC'', ''9''), (''BUSINESS_HOURS_END_UTC'', ''18''),
      (''RISK_FREQ_WINDOW_SECONDS'', ''60''), (''RISK_FREQ_THRESHOLD'', ''10''), (''RISK_DECAY_STEP'', ''5''),
      (''RISK_DECAY_MAX'', ''10''), (''RISK_DECAY_TTL_SECONDS'', ''2592000''),
      (''RISK_DENIAL_WINDOW_SECONDS'', ''600''), (''RISK_DENIAL_THRESHOLD'', ''3''),
      (''RISK_DRIFT_HISTORY_WINDOW_SECONDS'', ''604800''), (''RISK_DRIFT_HISTORY_THRESHOLD'', ''2''),
      (''DRIFT_DESCRIPTION_SEVERITY'', ''high''), (''APPROVAL_TTL_SECONDS'', ''900''),
      (''STEP_UP_TTL_SECONDS'', ''300''), (''VERIFY_INTERVAL_SECONDS'', ''60'')]"

record quickstart_args =
  qa_image :: string
  qa_tool :: string
  qa_arguments :: json
  qa_command :: "string list"
  qa_port :: int
  qa_output :: string

text \<open>The host: the doctor's view of it, and what is drawn at random, in the order it is drawn.\<close>

record quickstart_env =
  qe_host :: doctor_env
  qe_system :: string
  qe_machine :: string
  qe_root_user :: bool
  qe_keys :: "string list"
  qe_hex :: string
  qe_postgres_password :: string
  qe_redis_password :: string
  qe_yaml :: "json \<Rightarrow> string"
  qe_compose :: string

text \<open>The argument parser's types: \<open>json_object\<close> and \<open>port_number\<close>.\<close>

definition json_object :: "(string \<Rightarrow> json option) \<Rightarrow> string \<Rightarrow> json res" where
  "json_object loads s =
     (case loads s of
        None \<Rightarrow> Inl (ValueError ''must be valid JSON'')
      | Some v \<Rightarrow> (case v of JObj d \<Rightarrow> Inr v | _ \<Rightarrow> Inl (ValueError ''must decode to a JSON object'')))"

definition port_number :: "string \<Rightarrow> int res" where
  "port_number s =
     (case py_int s of
        None \<Rightarrow> Inl (ValueError ''must be an integer'')
      | Some n \<Rightarrow> if 1 \<le> n \<and> n \<le> 65535 then Inr n else Inl (ValueError ''must be between 1 and 65535''))"

definition usage :: "string \<Rightarrow> 'a res" where
  "usage t = Inl (QuickstartUsageError t)"

definition fails :: "string \<Rightarrow> 'a res" where
  "fails t = Inl (QuickstartError t)"

definition bare :: "string \<Rightarrow> bool" where
  "bare s \<longleftrightarrow> s \<noteq> [] \<and> py_strip s = s \<and> CHR 0x00 \<notin> set s"

definition empty_directory :: "tree \<Rightarrow> string \<Rightarrow> bool" where
  "empty_directory d p \<longleftrightarrow>
     (case follow d p of
        None \<Rightarrow> False
      | Some (target, nd) \<Rightarrow> nd_kind nd = Directory \<and> list_all (\<lambda>q. name_in target (fst q) = None) d)"

text \<open>\<open>_validate_args\<close>: the resolved output directory.\<close>

definition validate_args :: "quickstart_env \<Rightarrow> tree \<Rightarrow> quickstart_args \<Rightarrow> string res" where
  "validate_args E d args =
     (if \<not> bare (qa_image args) then usage ''--upstream-image must be non-empty and have no surrounding space''
      else if \<not> bare (qa_tool args) then usage ''--allow-tool must be non-empty and have no surrounding space''
      else if qa_tool args = denied_tool then usage ''--allow-tool value is reserved''
      else if qa_command args = [] \<or> list_ex (\<lambda>part. part = [] \<or> CHR 0x00 \<in> set part) (qa_command args)
      then usage ''--command requires non-empty, NUL-free argv entries''
      else if CHR 0x00 \<in> set (qa_output args) \<or> CHR 0x0A \<in> set (qa_output args) \<or> CHR 0x0D \<in> set (qa_output args)
      then usage ''--output-dir must not contain NUL or newlines''
      else
        (let output = de_resolve (qe_host E) (de_expand (qe_host E) (qa_output args))
         in if exists_path d output \<and> \<not> empty_directory d output
            then usage ''must be nonexistent or an empty directory'' else Inr output))"

definition validate_platform :: "quickstart_env \<Rightarrow> unit res" where
  "validate_platform E =
     (let machine = py_lower (qe_machine E)
      in if \<not> (qe_system E = ''Linux'' \<and> machine \<in> {''x86_64'', ''amd64'', ''aarch64'', ''arm64''} \<or>
               qe_system E = ''Darwin'' \<and> machine \<in> {''aarch64'', ''arm64''})
         then fails ''unsupported host'' else if qe_root_user E then fails ''quickstart requires a non-root host user''
         else Inr ())"

definition check_socket :: "tree \<Rightarrow> unit res" where
  "check_socket d =
     (if stat_of d socket_path = None then fails ''/var/run/docker.sock is required''
      else if \<not> is_socket d socket_path then fails ''/var/run/docker.sock is not a Unix socket'' else Inr ())"

definition check_port :: "quickstart_env \<Rightarrow> int \<Rightarrow> unit res" where
  "check_port E port =
     (if de_bind (qe_host E) ''127.0.0.1'' port then Inr () else fails ''the port is unavailable'')"

section \<open>The policy\<close>

definition key_hash :: "quickstart_env \<Rightarrow> string \<Rightarrow> string" where
  "key_hash E key = ''sha256:'' @ de_sha256 (qe_host E) key"

definition policy_data :: "quickstart_env \<Rightarrow> string \<Rightarrow> string \<Rightarrow> string list \<Rightarrow> string \<Rightarrow> string \<Rightarrow> json" where
  "policy_data E upstream_id tool command admin_key client_key =
     JObj
      [(''version'', JInt 1),
       (''servers'', JObj [(''default'', JObj [(''image'', JStr upstream_id), (''command'', JArr (map JStr command))])]),
       (''identities'', JArr
         [JObj
           [(''id'', JStr ''quickstart-admin''), (''api_key_hash'', JStr (key_hash E admin_key)), (''admin'', JBool True),
            (''allowed_servers'', JArr [JObj [(''server_id'', JStr ''*''), (''allowed_tools'', JArr [JStr ''*''])]])],
          JObj
           [(''id'', JStr ''quickstart-client''), (''api_key_hash'', JStr (key_hash E client_key)),
            (''allowed_servers'', JArr [JObj [(''server_id'', JStr ''default''), (''allowed_tools'', JArr [JStr tool])]])]])]"

section \<open>The files\<close>

text \<open>\<open>directory.mkdir(mode=0o700)\<close>: an existing path raises, and so does a missing parent.\<close>

definition new_directory :: "doctor_env \<Rightarrow> string \<Rightarrow> (tree machine, unit) io" where
  "new_directory H p =
     bind_io (look (\<lambda>d. (map_of d p, has_parent d p))) (\<lambda>(there, parent).
       if there \<noteq> None then raise_io (OSError ''File exists'')
       else if \<not> parent then raise_io (OSError ''No such file or directory'')
       else effect (al_put p (directory_node H 0x1C0)))"

fun new_directories :: "doctor_env \<Rightarrow> string list \<Rightarrow> (tree machine, unit) io" where
  "new_directories H [] = ret_io ()"
| "new_directories H (p # ps) = bind_io (new_directory H p) (\<lambda>_. new_directories H ps)"

text \<open>\<open>_write\<close>.\<close>

definition write_new :: "doctor_env \<Rightarrow> string \<Rightarrow> string \<Rightarrow> nat \<Rightarrow> (tree machine, unit) io" where
  "write_new H p content mode = bind_io (create_new H p mode) (\<lambda>_. effect (fill_tree p content))"

text \<open>\<open>while client_key == admin_key: client_key = _mint_key()\<close>, over the keys to be drawn.\<close>

fun other_key :: "string \<Rightarrow> string list \<Rightarrow> string res" where
  "other_key admin_key [] = Inl NoFuel"
| "other_key admin_key (k # ks) = (if k = admin_key then other_key admin_key ks else Inr k)"

definition mint_keys :: "quickstart_env \<Rightarrow> (string \<times> string) res" where
  "mint_keys E =
     (case qe_keys E of
        [] \<Rightarrow> Inl NoFuel
      | admin_key # rest \<Rightarrow> bind_res (other_key admin_key rest) (\<lambda>client_key. Inr (admin_key, client_key)))"

definition quickstart_namespace :: "quickstart_env \<Rightarrow> string" where
  "quickstart_namespace E = ''portunusmcp-quickstart-'' @ qe_hex E"

definition env_entries :: "quickstart_env \<Rightarrow> string \<Rightarrow> int \<Rightarrow> string \<Rightarrow> env_values" where
  "env_entries E base port docker_gid =
     (let H = qe_host E
      in [(''QUICKSTART_NAMESPACE'', quickstart_namespace E), (''GATEWAY_IMAGE'', pinned_gateway),
          (''POSTGRES_IMAGE'', pinned_postgres), (''REDIS_IMAGE'', pinned_redis),
          (''POSTGRES_PASSWORD'', qe_postgres_password E), (''REDIS_PASSWORD'', qe_redis_password E),
          (''CONFIG_DIR'', under base ''config''), (''SECRETS_DIR'', under base ''secrets''),
          (''HOST_UID'', int_str (fst (de_user H))), (''HOST_GID'', int_str (snd (de_user H))),
          (''DOCKER_GID'', docker_gid), (''GATEWAY_PORT'', int_str port)] @ env_defaults)"

record generated =
  ge_root :: string
  ge_env :: string
  ge_compose :: string
  ge_credentials :: string
  ge_namespace :: string
  ge_admin_key :: string
  ge_client_key :: string

text \<open>\<open>AuditKeyStore.initialize\<close>, on this tree.\<close>

definition initialize_store :: "doctor_env \<Rightarrow> string \<Rightarrow> string \<Rightarrow> string \<Rightarrow> (tree machine, unit) io" where
  "initialize_store H secrets private_path public_dir =
     bind_io (make_directories H (above secrets @ [secrets])) (\<lambda>_.
     bind_io (make_directories H (above public_dir @ [public_dir])) (\<lambda>_.
     bind_io (do_chmod secrets 0x1C0) (\<lambda>_.
     bind_io (do_chmod public_dir 0x1C0) (\<lambda>_.
     bind_io (do_chmod private_path mode_0600) (\<lambda>_.
     bind_io (look (\<lambda>d. content_of d private_path)) (\<lambda>content.
     bind_io (of_res content) (\<lambda>pem. publish_key H pem public_dir)))))))"

definition credentials_text :: "int \<Rightarrow> string \<Rightarrow> string \<Rightarrow> string" where
  "credentials_text port admin_key client_key =
     ''PORTUNUSMCP_URL=http://127.0.0.1:'' @ int_str port @ [CHR 0x0A] @
     ''PORTUNUSMCP_ADMIN_KEY='' @ admin_key @ [CHR 0x0A] @
     ''PORTUNUSMCP_API_KEY='' @ client_key @ [CHR 0x0A]"

text \<open>\<open>_generate\<close>, in three parts: the directories, the policy and keys, the Compose and env files.\<close>

definition generate_directories :: "doctor_env \<Rightarrow> string \<Rightarrow> (tree machine, unit) io" where
  "generate_directories H base =
     bind_io (make_directories H (above base @ [base])) (\<lambda>_.
     bind_io (do_chmod base 0x1C0) (\<lambda>_.
       new_directories H [under base ''config'', under base ''config/revisions'', under base ''secrets'', under base ''secrets/public'']))"

definition generate_secrets :: "quickstart_env \<Rightarrow> string \<Rightarrow> string \<Rightarrow> (tree machine, unit) io" where
  "generate_secrets E base policy =
     (let H = qe_host E; private_path = under base ''secrets/audit_signing_key.pem''
      in bind_io (write_new H (under base ''.gitignore'') (''*'' @ [CHR 0x0A] @ ''!.gitignore'' @ [CHR 0x0A]) 0x1A4) (\<lambda>_.
         bind_io (write_new H (under base ''config/policy.yaml'') policy mode_0600) (\<lambda>_.
         bind_io (write_new H private_path (de_fresh_key H) mode_0600) (\<lambda>_.
           initialize_store H (under base ''secrets'') private_path (under base ''secrets/public'')))))"

definition generate_settings :: "quickstart_env \<Rightarrow> string \<Rightarrow> int \<Rightarrow> string \<Rightarrow> string \<Rightarrow> string \<Rightarrow> (tree machine, unit) io" where
  "generate_settings E base port docker_gid admin_key client_key =
     (let H = qe_host E
      in bind_io (write_new H (under base ''compose.quickstart.yml'') (qe_compose E) 0x1A4) (\<lambda>_.
         bind_io (of_res (env_text (env_entries E base port docker_gid))) (\<lambda>env.
         bind_io (write_new H (under base ''.env.quickstart'') env mode_0600) (\<lambda>_.
           write_new H (under base ''credentials.env'') (credentials_text port admin_key client_key) mode_0600))))"

definition generate ::
  "quickstart_env \<Rightarrow> string \<Rightarrow> string \<Rightarrow> quickstart_args \<Rightarrow> string \<Rightarrow> (tree machine, generated) io" where
  "generate E base upstream_id args docker_gid =
     bind_io (generate_directories (qe_host E) base) (\<lambda>_.
     bind_io (of_res (mint_keys E)) (\<lambda>(admin_key, client_key).
     bind_io (generate_secrets E base
       (qe_yaml E (policy_data E upstream_id (qa_tool args) (qa_command args) admin_key client_key))) (\<lambda>_.
     bind_io (generate_settings E base (qa_port args) docker_gid admin_key client_key) (\<lambda>_.
       ret_io \<lparr>ge_root = base, ge_env = under base ''.env.quickstart'', ge_compose = under base ''compose.quickstart.yml'',
         ge_credentials = under base ''credentials.env'', ge_namespace = quickstart_namespace E,
         ge_admin_key = admin_key, ge_client_key = client_key\<rparr>))))"

section \<open>What the policy allows\<close>

text \<open>What the policy data are, read as the declared fields; the others have their defaults.\<close>

definition sole_server :: "string \<Rightarrow> string list \<Rightarrow> upstream_server" where
  "sole_server upstream_id command =
     \<lparr>us_image = upstream_id, us_command = command, us_env = [], us_volumes = [], us_network = NetNone,
      us_resources = default_resources, us_resolved_environment = []\<rparr>"

definition bearer_identity :: "string \<Rightarrow> string \<Rightarrow> bool \<Rightarrow> string \<Rightarrow> string \<Rightarrow> ident" where
  "bearer_identity name hash admin server tool =
     \<lparr>i_id = name, i_auth_mode = Bearer, i_api_key_hash = Some hash, i_key_id = None, i_signing_secret_env = None,
      i_totp_secret_env = None, i_admin = admin,
      i_allowed_servers = [\<lparr>g_server_id = server, g_allowed_tools = [tool], g_denied_tools = [], g_conditions = [], g_compiled = []\<rparr>],
      i_attributes = [], i_signing_secret = [], i_totp_secret = []\<rparr>"

definition parsed_policy :: "quickstart_env \<Rightarrow> string \<Rightarrow> string \<Rightarrow> string list \<Rightarrow> string \<Rightarrow> string \<Rightarrow> policy_file" where
  "parsed_policy E upstream_id tool command admin_key client_key =
     \<lparr>p_version = 1, p_servers = [(''default'', sole_server upstream_id command)],
      p_identities =
        [bearer_identity ''quickstart-admin'' (key_hash E admin_key) True ''*'' ''*'',
         bearer_identity ''quickstart-client'' (key_hash E client_key) False ''default'' tool],
      p_risk = \<lparr>tool_sensitivity = [], protected_repos = []\<rparr>\<rparr>"

lemma policy_data_read:
  "read_policy (policy_data E upstream_id tool command admin_key client_key) =
    Inr (parsed_policy E upstream_id tool command admin_key client_key)"
  by (simp add: policy_data_def parsed_policy_def sole_server_def bearer_identity_def read_defs)

lemma validate_args_Inr:
  assumes "validate_args E d args = Inr output"
  shows "bare (qa_image args) \<and> bare (qa_tool args) \<and> qa_tool args \<noteq> denied_tool \<and>
    check_command (qa_command args) = Inr (qa_command args) \<and> output = de_resolve (qe_host E) (de_expand (qe_host E) (qa_output args)) \<and>
    (exists_path d output \<longrightarrow> empty_directory d output)"
  using assms by (auto simp: validate_args_def usage_def check_command_def Let_def split: if_splits)

lemma py_strip_plain: "\<forall>c \<in> set s. \<not> py_space c \<Longrightarrow> py_strip s = s"
proof -
  assume plain: "\<forall>c \<in> set s. \<not> py_space c"
  then have "dropWhile py_space s = s" "dropWhile py_space (rev s) = rev s"
    by (cases s, simp_all) (cases "rev s", simp, metis dropWhile.simps(2) list.set_intros(1) set_rev)
  then show ?thesis by (simp add: py_strip_def)
qed

lemma image_id_bare:
  assumes "image_id s"
  shows "check_image s = Inr s"
proof -
  have "c \<noteq> CHR 0x00 \<and> \<not> py_space c" if "c \<in> set s" for c
  proof -
    from assms have "s = ''sha256:'' @ drop 7 s" by (auto simp: image_id_def prefix_def)
    with that consider "c \<in> set ''sha256:''" | "c \<in> set (drop 7 s)" by (metis Un_iff set_append)
    then show ?thesis
    proof cases
      case 2
      with assms have "(48 \<le> (of_char c :: nat) \<and> of_char c \<le> (57 :: nat)) \<or> (97 \<le> (of_char c :: nat) \<and> of_char c \<le> (102 :: nat))"
        by (auto simp: image_id_def lower_hex_64_def list_all_iff Let_def)
      then show ?thesis by (auto simp: py_space_def)
    qed (auto simp: py_space_def)
  qed
  then have "py_strip s = s" "CHR 0x00 \<notin> set s" by (auto simp: py_strip_plain)
  moreover have "s \<noteq> []" using assms by (auto simp: image_id_def)
  ultimately show ?thesis by (simp add: check_image_def)
qed

lemma sole_policy_valid:
  assumes "image_id upstream_id" and "check_command command = Inr command"
    and "de_sha256 (qe_host E) admin_key \<noteq> de_sha256 (qe_host E) client_key"
  shows "validate_policy environ parse decode_totp (parsed_policy E upstream_id tool command admin_key client_key) =
    Inr (parsed_policy E upstream_id tool command admin_key client_key)"
  using assms
  by (simp add: validate_policy_def parsed_policy_def sole_server_def bearer_identity_def check_server_def image_id_bare
      check_identity_def compile_conditions_def check_auth_fields_def check_signing_def check_totp_def given_def
      check_resources_def default_resources_def check_servers_def key_hash_def)

text \<open>
  C36: A quickstart's policy grants one tool. For accepted arguments with a tool name other than
  the wildcard (\<open>wildcard_tool_grants_everything\<close>), an image id, minted keys of different
  hashes, and a loader that reads the dumped data as the declared fields, the policy loads;
  the client's key may call the requested tool on the one server and nothing else, so not the
  tool of the proof's denied call, and is no administrator; the other key is the
  administrator's; and the server is the one pinned image with its command.
\<close>

theorem generated_policy_grants_one_tool:
  assumes "validate_args E d args = Inr output" and "image_id upstream_id" and "mint_keys E = Inr (admin_key, client_key)"
    and "\<And>p. read_policy (policy_data E upstream_id (qa_tool args) (qa_command args) admin_key client_key) = Inr p \<Longrightarrow>
      de_policy (qe_host E) (qe_yaml E (policy_data E upstream_id (qa_tool args) (qa_command args) admin_key client_key)) = Inr p"
    and "de_sha256 (qe_host E) admin_key \<noteq> de_sha256 (qe_host E) client_key" and "qa_tool args \<noteq> ''*''"
  shows "\<exists>e. load_policy (qe_host E) environment
      (qe_yaml E (policy_data E upstream_id (qa_tool args) (qa_command args) admin_key client_key)) = Inr e \<and>
    (\<forall>server tool. is_allowed e (identity_for_key_hash e (key_hash E client_key)) server tool \<longleftrightarrow>
       server = ''default'' \<and> tool = qa_tool args) \<and>
    \<not> is_allowed e (identity_for_key_hash e (key_hash E client_key)) ''default'' denied_tool \<and>
    \<not> is_admin e ''quickstart-client'' \<and>
    identity_for_key_hash e (key_hash E admin_key) = Some ''quickstart-admin'' \<and> is_admin e ''quickstart-admin'' \<and>
    p_servers (e_policy e) = [(''default'', sole_server upstream_id (qa_command args))]"
proof -
  let ?p = "parsed_policy E upstream_id (qa_tool args) (qa_command args) admin_key client_key"
  let ?raw = "qe_yaml E (policy_data E upstream_id (qa_tool args) (qa_command args) admin_key client_key)"
  define e where "e = \<lparr>e_policy = ?p, e_content_hash = de_sha256 (qe_host E) ?raw, e_raw = ?raw\<rparr>"
  have p: "e_policy e = ?p" by (simp add: e_def)
  note args = validate_args_Inr [OF assms(1)]
  have loaded: "load_policy (qe_host E) environment ?raw = Inr e"
    using sole_policy_valid [OF assms(2) _ assms(5)] args by (simp add: load_policy_def load_bytes_def assms(4) [OF policy_data_read] e_def)
  have client: "identity_for_key_hash e (key_hash E client_key) = Some ''quickstart-client''"
    and admin: "identity_for_key_hash e (key_hash E admin_key) = Some ''quickstart-admin''"
    using assms(5) by (simp_all add: identity_for_key_hash_def key_hash_index_def p parsed_policy_def bearer_identity_def
        given_def key_hash_def dict_of_def)
  have allowed: "is_allowed e (Some ''quickstart-client'') server tool \<longleftrightarrow> server = ''default'' \<and> tool = qa_tool args"
    for server tool
    using assms(6) by (auto simp: is_allowed_def matching_grant_def engine_identity_def identities_index_def p parsed_policy_def
        bearer_identity_def dict_of_def)
  have admins: "is_admin e ''quickstart-admin''" "\<not> is_admin e ''quickstart-client''"
    by (simp_all add: is_admin_def engine_identity_def identities_index_def p parsed_policy_def bearer_identity_def dict_of_def)
  have servers: "p_servers (e_policy e) = [(''default'', sole_server upstream_id (qa_command args))]"
    by (simp add: p parsed_policy_def)
  have "qa_tool args \<noteq> denied_tool" using args by blast
  then have "\<not> is_allowed e (Some ''quickstart-client'') ''default'' denied_tool" unfolding allowed by simp
  with loaded allowed admins servers show ?thesis
    by (intro exI [of _ e]) (simp only: client admin simp_thms)
qed

text \<open>
  Nothing refuses the tool name \<open>*\<close>, which is a wildcard in a grant: the policy then allows the
  client every tool.
\<close>

theorem wildcard_tool_grants_everything:
  assumes "read_policy (policy_data E upstream_id ''*'' command admin_key client_key) = Inr (e_policy e)"
  shows "is_allowed e (Some ''quickstart-client'') ''default'' tool \<and>
    (bare (qa_image args) \<and> check_command (qa_command args) = Inr (qa_command args) \<and> qa_output args = [] \<longrightarrow>
     \<not> exists_path d (de_resolve (qe_host E) (de_expand (qe_host E) [])) \<longrightarrow>
     validate_args E d (args\<lparr>qa_tool := ''*''\<rparr>) = Inr (de_resolve (qe_host E) (de_expand (qe_host E) [])))"
  using assms unfolding policy_data_read sum.inject
  by (drule_tac sym) (auto simp: is_allowed_def matching_grant_def engine_identity_def identities_index_def parsed_policy_def
      bearer_identity_def dict_of_def validate_args_def bare_def check_command_def denied_tool_def py_strip_def py_space_def
      split: if_splits)

lemma dec_digit_char: "n < 10 \<Longrightarrow> dec_char (digit_char n) \<and> (of_char (digit_char n) :: int) = 48 + int n"
proof -
  assume n: "n < 10"
  have "list_all (\<lambda>n. dec_char (digit_char n) \<and> (of_char (digit_char n) :: int) = 48 + int n) [0..<10]" by code_simp
  with n show ?thesis by (simp add: list_all_iff)
qed

lemma nat_str_dec:
  "nat_str n \<noteq> [] \<and> (\<forall>c \<in> set (nat_str n). dec_char c) \<and> dec_value (nat_str n) = int n"
proof (induction n rule: nat_str.induct)
  case (1 n)
  show ?case
  proof (cases "n < 10")
    case True
    then show ?thesis using dec_digit_char [OF True] by (simp add: nat_str.simps [of n] dec_value_def)
  next
    case False
    have "n mod 10 < 10" by simp
    moreover have "10 * int (n div 10) + int (n mod 10) = int n" by presburger
    ultimately show ?thesis using dec_digit_char [of "n mod 10"] 1 [OF False] False
      by (auto simp: nat_str.simps [of n] dec_value_def)
  qed
qed

lemma dec_char_cases: "dec_char c \<Longrightarrow> \<not> py_space c \<and> c \<noteq> CHR ''_'' \<and> c \<noteq> CHR ''+'' \<and> c \<noteq> CHR ''-''"
  by (auto simp: dec_char_def py_space_def Let_def)

lemma digit_groups_dec: "s \<noteq> [] \<Longrightarrow> \<forall>c \<in> set s. dec_char c \<Longrightarrow> digit_groups dec_char s"
  by (induction dec_char s rule: digit_groups.induct) (auto dest: dec_char_cases)

lemma id_read_back:
  assumes "0 \<le> n" and "n < 10 ^ 10"
  shows "int_res (int_str n) = Inr n"
proof -
  let ?s = "nat_str (nat n)"
  have s: "?s \<noteq> []" "\<forall>c \<in> set ?s. dec_char c" "dec_value ?s = n" using nat_str_dec [of "nat n"] assms(1) by simp_all
  have "nat n < 10 ^ Suc 9" using assms(2) by simp
  then have len: "length ?s \<le> 10" using nat_str_length [of "nat n" 9] by simp
  from s(2) have plain: "\<forall>c \<in> set ?s. \<not> py_space c" using dec_char_cases by blast
  obtain c cs where cs: "?s = c # cs" using s(1) by (cases ?s) auto
  with s(2) have c: "c \<noteq> CHR ''+''" "c \<noteq> CHR ''-''" using dec_char_cases [of c] by auto
  have "drop_sign ?s = ?s" "\<not> prefix ''-'' ?s" using cs c by (simp_all add: drop_sign_def)
  moreover have "filter (\<lambda>c. c \<noteq> CHR ''_'') ?s = ?s" using s(2) dec_char_cases by (intro filter_True) blast
  ultimately have "py_int ?s = Some n"
    using s len digit_groups_dec [OF s(1,2)] by (simp add: py_int_def Let_def py_strip_plain [OF plain])
  then show ?thesis using assms(1) by (simp add: int_res_def int_str_def)
qed

section \<open>Paths below the deployment\<close>

definition slash_path :: "string list \<Rightarrow> string" where
  "slash_path ws = concat (map (\<lambda>w. CHR ''/'' # w) ws)"

definition plain_name :: "string \<Rightarrow> bool" where
  "plain_name w \<longleftrightarrow> w \<noteq> [] \<and> w \<noteq> ''.'' \<and> CHR ''/'' \<notin> set w"

lemma split_on_slash_path: "\<forall>w \<in> set ws. CHR ''/'' \<notin> set w \<Longrightarrow> split_on (CHR ''/'') (slash_path ws) = [] # ws"
proof (induction ws)
  case (Cons w ws)
  then show ?case
    by (cases ws) (auto simp: slash_path_def split_on_whole split_on_joined)
qed (simp add: slash_path_def)

lemma join_slash_path: "ws \<noteq> [] \<Longrightarrow> ''/'' @ join_with ''/'' ws = slash_path ws"
  by (induction "''/''" ws rule: join_with.induct) (simp_all add: slash_path_def)

lemma posix_slash_path:
  assumes "\<forall>w \<in> set ws. plain_name w" and "ws \<noteq> []"
  shows "posix_path (slash_path ws) = \<lparr>pp_root = ''/'', pp_parts = ws\<rparr>"
proof -
  obtain c w us where ws: "ws = (c # w) # us" and "c \<noteq> CHR ''/''"
    using assms by (cases ws) (auto simp: plain_name_def neq_Nil_conv)
  then have "posix_root (slash_path ws) = ''/''" by (simp add: posix_root_def slash_path_def)
  then show ?thesis using assms by (auto simp: posix_path_def split_on_slash_path plain_name_def filter_id_conv)
qed

lemma above_slash_path:
  assumes "\<forall>w \<in> set ws. plain_name w"
  shows "above (slash_path ws) = map (\<lambda>n. slash_path (take n ws)) [1..<length ws]"
proof (cases "ws = []")
  case False
  then show ?thesis
    by (auto simp: above_def posix_slash_path [OF assms] Let_def join_slash_path [simplified])
qed (simp add: above_def posix_path_def slash_path_def)

lemma above_under:
  assumes "\<forall>w \<in> set ws. plain_name w" and "plain_name n" and "ws \<noteq> []"
  shows "above (under (slash_path ws) n) = above (slash_path ws) @ [slash_path ws]"
proof -
  have "under (slash_path ws) n = slash_path (ws @ [n])" by (simp add: under_def slash_path_def)
  moreover have "above (slash_path (ws @ [n])) = above (slash_path ws) @ [slash_path ws]"
  proof -
    have "[1..<length (ws @ [n])] = [1..<length ws] @ [length ws]" using assms(3) by (cases ws) simp_all
    moreover have "map (\<lambda>m. slash_path (take m (ws @ [n]))) [1..<length ws] = map (\<lambda>m. slash_path (take m ws)) [1..<length ws]"
      by (rule map_cong) auto
    ultimately show ?thesis using assms(1,2) by (simp add: above_slash_path)
  qed
  ultimately show ?thesis by simp
qed

lemma path_text_slash_path: "\<forall>w \<in> set ws. plain_name w \<Longrightarrow> ws \<noteq> [] \<Longrightarrow> path_text (slash_path ws) = slash_path ws"
  by (simp add: path_text_def posix_slash_path join_slash_path [simplified])

lemma under_inject [simp]: "under base p = under base q \<longleftrightarrow> p = q" "under base q \<noteq> base" "base \<noteq> under base q"
  by (simp_all add: under_def)

lemma follow_here: "map_of d p = Some nd \<Longrightarrow> \<forall>t. nd_kind nd \<noteq> Symlink t \<Longrightarrow> follow d p = Some (p, nd)"
  unfolding follow_def by (cases "nd_kind nd") (simp_all add: numeral_eq_Suc)

section \<open>The effects on the files below\<close>

lemma effect_put:
  "effect (al_put p nd) M = (Inr u, M') \<Longrightarrow> map_of (mc_disk M') = (map_of (mc_disk M))(p \<mapsto> nd)"
  by (drule effect_Inr) simp

lemma new_directory_Inr:
  "new_directory H p M = (Inr u, M') \<Longrightarrow>
     map_of (mc_disk M) p = None \<and> map_of (mc_disk M') = (map_of (mc_disk M))(p \<mapsto> directory_node H 0x1C0)"
  by (auto simp: new_directory_def bind_io_def dest!: effect_put split: if_splits)

lemma write_new_Inr:
  assumes "write_new H p content mode M = (Inr u, M')"
  shows "map_of (mc_disk M') = (map_of (mc_disk M))(p \<mapsto> \<lparr>nd_kind = Regular content, nd_mode = de_umask H mode, nd_owner = de_user H\<rparr>)"
proof -
  from assms obtain u1 M1 where new: "create_new H p mode M = (Inr u1, M1)" and fill: "effect (fill_tree p content) M1 = (Inr u, M')"
    unfolding write_new_def by (elim bind_io_InrE)
  from new have m1: "map_of (mc_disk M1) = (map_of (mc_disk M))(p \<mapsto> \<lparr>nd_kind = Regular [], nd_mode = de_umask H mode, nd_owner = de_user H\<rparr>)"
    by (auto simp: create_new_def bind_io_def dest!: effect_put split: if_splits)
  then have "follow (mc_disk M1) p = Some (p, \<lparr>nd_kind = Regular [], nd_mode = de_umask H mode, nd_owner = de_user H\<rparr>)"
    by (intro follow_here) simp_all
  then have "mc_disk M' = al_put p \<lparr>nd_kind = Regular content, nd_mode = de_umask H mode, nd_owner = de_user H\<rparr> (mc_disk M1)"
    using effect_Inr [OF fill] by (simp add: fill_tree_def set_node_def)
  with m1 show ?thesis by simp
qed

lemma do_chmod_Inr:
  assumes "do_chmod p m M = (Inr u, M')" and "map_of (mc_disk M) p = Some nd" and "\<forall>t. nd_kind nd \<noteq> Symlink t"
  shows "map_of (mc_disk M') = (map_of (mc_disk M))(p \<mapsto> nd\<lparr>nd_mode := m\<rparr>)"
proof -
  from assms(1) have "effect (chmod_tree p m) M = (Inr u, M')"
    by (auto simp: do_chmod_def bind_io_def split: if_splits)
  from effect_Inr [OF this] show ?thesis
    by (simp add: chmod_tree_def set_node_def follow_here [OF assms(2,3)])
qed

lemma make_directories_Inr:
  assumes "make_directories H ps M = (Inr u, M')"
  shows "(map_of (mc_disk M) p \<noteq> None \<or> p \<notin> set ps \<longrightarrow> map_of (mc_disk M') p = map_of (mc_disk M) p) \<and>
    (map_of (mc_disk M) p = None \<and> p \<in> set ps \<longrightarrow> map_of (mc_disk M') p = Some (directory_node H 0x1FF)) \<and>
    (map_of (mc_disk M) p \<noteq> None \<and> p \<in> set ps \<and> \<not> is_symlink (mc_disk M) p \<longrightarrow> (\<exists>nd. map_of (mc_disk M) p = Some nd \<and> nd_kind nd = Directory))"
  using assms
proof (induction ps arbitrary: M)
  case (Cons q ps)
  from Cons.prems obtain u1 M1 where one: "make_directory H 0x1FF q M = (Inr u1, M1)" and rest: "make_directories H ps M1 = (Inr u, M')"
    by (auto elim!: bind_io_InrE)
  show ?case
  proof (cases "map_of (mc_disk M) q")
    case None
    with one have "map_of (mc_disk M1) = (map_of (mc_disk M))(q \<mapsto> directory_node H 0x1FF)"
      by (auto simp: make_directory_def bind_io_def dest!: effect_put)
    with Cons.IH [OF rest] None show ?thesis by (auto simp: is_symlink_def split: if_splits)
  next
    case (Some nd)
    with one have "M1 = M" "is_dir (mc_disk M) q" by (auto simp: make_directory_def bind_io_def split: if_splits)
    moreover have "nd_kind nd = Directory" if "\<not> is_symlink (mc_disk M) q"
    proof -
      from that Some have "\<forall>t. nd_kind nd \<noteq> Symlink t" by (auto simp: is_symlink_def split: kind.splits)
      from follow_here [OF Some this] \<open>is_dir (mc_disk M) q\<close> show ?thesis by (simp add: is_dir_def stat_of_def)
    qed
    ultimately show ?thesis using Cons.IH [of M1] rest Some by auto
  qed
qed simp

lemma publish_key_Inr:
  assumes "publish_key H pem dir M = (Inr u, M')" and "de_private_id H pem = Inr i"
    and "follow (mc_disk M) dir = Some (dir, nd)" and "\<And>name. map_of (mc_disk M) (under dir name) = None"
  obtains name where "public_path i = Inr name"
    and "map_of (mc_disk M') = (map_of (mc_disk M))(under dir name \<mapsto>
      \<lparr>nd_kind = Regular (de_public_pem H pem), nd_mode = mode_0444, nd_owner = de_user H\<rparr>)"
proof -
  from assms(1,2) obtain name where name: "public_path i = Inr name"
    by (cases "public_path i") (auto simp: publish_key_def bind_io_def)
  let ?p = "under dir name"
  have "\<not> exists_path (mc_disk M) ?p"
    using assms(4) by (simp add: exists_path_def stat_of_def follow_def numeral_eq_Suc)
  with assms(1) obtain u1 u2 M1 M2 where
    one: "create_new H ?p 0x1B6 M = (Inr u1, M1)" and two: "effect (fill_tree ?p (de_public_pem H pem)) M1 = (Inr u2, M2)"
    and three: "do_chmod ?p mode_0444 M2 = (Inr u, M')"
    by (auto simp: publish_key_def assms(2,3) name child_def elim!: bind_io_InrE)
  from one two have "write_new H ?p (de_public_pem H pem) 0x1B6 M = (Inr u2, M2)"
    by (simp add: write_new_def bind_io_def)
  note w = write_new_Inr [OF this]
  from do_chmod_Inr [OF three] w have "map_of (mc_disk M') = (map_of (mc_disk M))(?p \<mapsto>
      \<lparr>nd_kind = Regular (de_public_pem H pem), nd_mode = mode_0444, nd_owner = de_user H\<rparr>)" by simp
  with name that show thesis by blast
qed

section \<open>What generate leaves\<close>

text \<open>The files of a deployment, by their paths below its directory.\<close>

definition made_directory :: "quickstart_env \<Rightarrow> nat \<Rightarrow> node" where
  "made_directory E mode = \<lparr>nd_kind = Directory, nd_mode = mode, nd_owner = de_user (qe_host E)\<rparr>"

definition made_file :: "quickstart_env \<Rightarrow> string \<Rightarrow> nat \<Rightarrow> node" where
  "made_file E content mode = \<lparr>nd_kind = Regular content, nd_mode = mode, nd_owner = de_user (qe_host E)\<rparr>"

definition deployment_files :: "quickstart_env \<Rightarrow> string \<Rightarrow> string \<Rightarrow> string \<Rightarrow> string \<Rightarrow> (string \<times> node) list" where
  "deployment_files E policy env credentials name =
     (let mask = de_umask (qe_host E); key = de_fresh_key (qe_host E)
      in [(''config'', made_directory E (mask 0x1C0)), (''config/revisions'', made_directory E (mask 0x1C0)),
          (''secrets'', made_directory E 0x1C0), (''secrets/public'', made_directory E 0x1C0),
          (''.gitignore'', made_file E (''*'' @ [CHR 0x0A] @ ''!.gitignore'' @ [CHR 0x0A]) (mask 0x1A4)),
          (''config/policy.yaml'', made_file E policy (mask mode_0600)),
          (''secrets/audit_signing_key.pem'', made_file E key mode_0600),
          (''secrets/public/'' @ name, made_file E (de_public_pem (qe_host E) key) mode_0444),
          (''compose.quickstart.yml'', made_file E (qe_compose E) (mask 0x1A4)),
          (''.env.quickstart'', made_file E env (mask mode_0600)),
          (''credentials.env'', made_file E credentials (mask mode_0600))])"

definition below :: "string \<Rightarrow> tree \<Rightarrow> string \<Rightarrow> node option" where
  "below base d q = map_of d (under base q)"

lemma below_put: "map_of d' = (map_of d)(under base q \<mapsto> nd) \<Longrightarrow> below base d' = (below base d)(q \<mapsto> nd) \<and> map_of d' base = map_of d base"
  by (auto simp: below_def fun_eq_iff)

lemma above_shorter:
  assumes "\<forall>w \<in> set ws. plain_name w" and "p \<in> set (above (slash_path ws))"
  shows "length p \<le> length (slash_path ws)"
proof -
  from assms obtain n where p: "p = slash_path (take n ws)" by (auto simp: above_slash_path)
  have "slash_path ws = slash_path (take n ws) @ slash_path (drop n ws)"
    unfolding slash_path_def by (metis append_take_drop_id concat_append map_append)
  then show ?thesis by (simp add: p)
qed

lemma make_below:
  assumes "make_directories H ps M = (Inr u, M')" and "\<forall>w \<in> set ws. plain_name w" and "base = slash_path ws"
    and "\<forall>p \<in> set ps. p \<in> set (above base) \<or> p = base \<or> (\<exists>q. p = under base q \<and> below base (mc_disk M) q \<noteq> None)"
  shows "below base (mc_disk M') = below base (mc_disk M) \<and>
    (map_of (mc_disk M) base \<noteq> None \<longrightarrow> map_of (mc_disk M') base = map_of (mc_disk M) base)"
proof -
  have "below base (mc_disk M') q = below base (mc_disk M) q" for q
  proof -
    have "under base q \<notin> set (above base)"
      using above_shorter [OF assms(2), of "under base q"] assms(3) by (auto simp: under_def)
    with assms(4) have "under base q \<in> set ps \<longrightarrow> below base (mc_disk M) q \<noteq> None" by force
    with make_directories_Inr [OF assms(1), of "under base q"] show ?thesis by (auto simp: below_def)
  qed
  with make_directories_Inr [OF assms(1), of base] show ?thesis by auto
qed

lemma chmod_below:
  assumes "do_chmod (under base q) m M = (Inr u, M')" and "below base (mc_disk M) q = Some nd" and "\<forall>t. nd_kind nd \<noteq> Symlink t"
  shows "below base (mc_disk M') = (below base (mc_disk M))(q \<mapsto> nd\<lparr>nd_mode := m\<rparr>) \<and> map_of (mc_disk M') base = map_of (mc_disk M) base"
  using below_put [OF do_chmod_Inr [OF assms(1) _ assms(3)]] assms(2) by (simp add: below_def)

definition base_ok :: "string \<Rightarrow> tree \<Rightarrow> bool" where
  "base_ok base d \<longleftrightarrow> (\<exists>nd. map_of d base = Some nd \<and> nd_kind nd = Directory \<and> nd_mode nd = 0x1C0)"

lemma base_ok_same: "base_ok base d \<Longrightarrow> map_of d' base = map_of d base \<Longrightarrow> base_ok base d'"
  by (simp add: base_ok_def)

lemma directories_left:
  assumes "generate_directories H base M = (Inr u, M')" and "\<forall>w \<in> set ws. plain_name w" and "base = slash_path ws"
    and "\<not> is_symlink (mc_disk M) base" and "\<forall>q. below base (mc_disk M) q = None"
  shows "base_ok base (mc_disk M')" and "below base (mc_disk M') =
    [''config'' \<mapsto> directory_node H 0x1C0, ''config/revisions'' \<mapsto> directory_node H 0x1C0,
     ''secrets'' \<mapsto> directory_node H 0x1C0, ''secrets/public'' \<mapsto> directory_node H 0x1C0]"
proof -
  from assms(1) obtain u1 M1 u2 M2 u3 M3 u4 M4 u5 M5 where
    one: "make_directories H (above base @ [base]) M = (Inr u1, M1)" and two: "do_chmod base 0x1C0 M1 = (Inr u2, M2)"
    and new: "new_directory H (under base ''config'') M2 = (Inr u3, M3)"
      "new_directory H (under base ''config/revisions'') M3 = (Inr u4, M4)"
      "new_directory H (under base ''secrets'') M4 = (Inr u5, M5)"
      "new_directory H (under base ''secrets/public'') M5 = (Inr u, M')"
    unfolding generate_directories_def new_directories.simps by (elim bind_io_InrE) auto
  have b1: "below base (mc_disk M1) = (\<lambda>_. None)"
    using make_below [OF one assms(2,3)] assms(5) by (auto simp: fun_eq_iff)
  from make_directories_Inr [OF one, of base] assms(4) obtain nd where nd: "map_of (mc_disk M1) base = Some nd" "nd_kind nd = Directory"
    by (cases "map_of (mc_disk M) base") (auto simp: directory_node_def)
  from do_chmod_Inr [OF two nd(1)] nd(2)
  have m2: "map_of (mc_disk M2) = (map_of (mc_disk M1))(base \<mapsto> nd\<lparr>nd_mode := 0x1C0\<rparr>)" by simp
  then have b2: "below base (mc_disk M2) = (\<lambda>_. None)" using b1 by (simp add: below_def fun_eq_iff)
  have ok: "base_ok base (mc_disk M2)" using m2 nd by (simp add: base_ok_def)
  note puts = new [THEN new_directory_Inr, THEN conjunct2, THEN below_put]
  show "base_ok base (mc_disk M')" using ok puts by (simp add: base_ok_def)
  show "below base (mc_disk M') =
    [''config'' \<mapsto> directory_node H 0x1C0, ''config/revisions'' \<mapsto> directory_node H 0x1C0,
     ''secrets'' \<mapsto> directory_node H 0x1C0, ''secrets/public'' \<mapsto> directory_node H 0x1C0]"
    using puts b2 by simp
qed

lemma store_left:
  assumes "initialize_store H (under base ''secrets'') (under base ''secrets/audit_signing_key.pem'') (under base ''secrets/public'') M = (Inr u, M')"
    and "\<forall>w \<in> set ws. plain_name w" and "ws \<noteq> []" and "base = slash_path ws" and "base_ok base (mc_disk M)"
    and "below base (mc_disk M) ''secrets'' = Some secrets" and "nd_kind secrets = Directory"
    and "below base (mc_disk M) ''secrets/public'' = Some public" and "nd_kind public = Directory"
    and "below base (mc_disk M) ''secrets/audit_signing_key.pem'' = Some key" and "nd_kind key = Regular pem"
    and "de_private_id H pem = Inr i" and "\<And>name. below base (mc_disk M) (''secrets/public/'' @ name) = None"
  obtains name where "public_path i = Inr name" and "base_ok base (mc_disk M')"
    and "below base (mc_disk M') = (below base (mc_disk M))
      (''secrets'' \<mapsto> secrets\<lparr>nd_mode := 0x1C0\<rparr>, ''secrets/public'' \<mapsto> public\<lparr>nd_mode := 0x1C0\<rparr>,
       ''secrets/audit_signing_key.pem'' \<mapsto> key\<lparr>nd_mode := mode_0600\<rparr>,
       ''secrets/public/'' @ name \<mapsto> \<lparr>nd_kind = Regular (de_public_pem H pem), nd_mode = mode_0444, nd_owner = de_user H\<rparr>)"
proof -
  let ?s = "under base ''secrets''" and ?p = "under base ''secrets/public''" and ?k = "under base ''secrets/audit_signing_key.pem''"
  have pu: "under base (''secrets/public'' @ [CHR ''/''] @ n) = under ?p n" and p: "?p = under ?s ''public''" for n
    by (simp_all add: under_def)
  have plain: "plain_name ''secrets''" "plain_name ''public''" by (simp_all add: plain_name_def)
  have as: "above ?s = above base @ [base]" using above_under [OF assms(2) plain(1) assms(3)] assms(4) by simp
  have ws: "?s = slash_path (ws @ [''secrets''])" using assms(4) by (simp add: under_def slash_path_def)
  have ap: "above ?p = above base @ [base, ?s]"
    using above_under [of "ws @ [''secrets'']" "''public''"] assms(2) plain as unfolding p ws by simp
  from assms(1) obtain u1 M1 u2 M2 u3 M3 u4 M4 u5 M5 pem' where
    one: "make_directories H (above ?s @ [?s]) M = (Inr u1, M1)" and two: "make_directories H (above ?p @ [?p]) M1 = (Inr u2, M2)"
    and c1: "do_chmod ?s 0x1C0 M2 = (Inr u3, M3)" and c2: "do_chmod ?p 0x1C0 M3 = (Inr u4, M4)"
    and c3: "do_chmod ?k mode_0600 M4 = (Inr u5, M5)" and pem': "content_of (mc_disk M5) ?k = Inr pem'"
    and pub: "publish_key H pem' ?p M5 = (Inr u, M')"
    unfolding initialize_store_def by (elim bind_io_InrE) auto
  have m1: "below base (mc_disk M1) = below base (mc_disk M) \<and> (map_of (mc_disk M) base \<noteq> None \<longrightarrow> map_of (mc_disk M1) base = map_of (mc_disk M) base)"
    by (rule make_below [OF one assms(2,4)]) (use as assms(6) in auto)
  have m2: "below base (mc_disk M2) = below base (mc_disk M1) \<and> (map_of (mc_disk M1) base \<noteq> None \<longrightarrow> map_of (mc_disk M2) base = map_of (mc_disk M1) base)"
    by (rule make_below [OF two assms(2,4)]) (use ap assms(6,8) m1 in auto)
  have b2: "below base (mc_disk M2) = below base (mc_disk M)" and ok2: "base_ok base (mc_disk M2)"
    using m1 m2 assms(5) by (auto simp: base_ok_def)
  have b3: "below base (mc_disk M3) = (below base (mc_disk M))(''secrets'' \<mapsto> secrets\<lparr>nd_mode := 0x1C0\<rparr>)"
    and o3: "base_ok base (mc_disk M3)"
    using chmod_below [OF c1, of secrets] assms(6,7) b2 base_ok_same [OF ok2] by auto
  have b4: "below base (mc_disk M4) = (below base (mc_disk M3))(''secrets/public'' \<mapsto> public\<lparr>nd_mode := 0x1C0\<rparr>)"
    and o4: "base_ok base (mc_disk M4)"
    using chmod_below [OF c2, of public] assms(8,9) b3 base_ok_same [OF o3] by auto
  have b5: "below base (mc_disk M5) = (below base (mc_disk M4))(''secrets/audit_signing_key.pem'' \<mapsto> key\<lparr>nd_mode := mode_0600\<rparr>)"
    and o5: "base_ok base (mc_disk M5)"
    using chmod_below [OF c3, of key] assms(10,11) b3 b4 base_ok_same [OF o4] by auto
  have "map_of (mc_disk M5) ?k = Some (key\<lparr>nd_mode := mode_0600\<rparr>)" using b5 by (simp add: below_def fun_eq_iff)
  then have "follow (mc_disk M5) ?k = Some (?k, key\<lparr>nd_mode := mode_0600\<rparr>)" using assms(11) by (intro follow_here) simp_all
  then have "pem' = pem" using pem' assms(11) by (simp add: content_of_def stat_of_def)
  have "map_of (mc_disk M5) ?p = Some (public\<lparr>nd_mode := 0x1C0\<rparr>)" using b5 b4 by (simp add: below_def fun_eq_iff)
  then have dir: "follow (mc_disk M5) ?p = Some (?p, public\<lparr>nd_mode := 0x1C0\<rparr>)" using assms(9) by (intro follow_here) simp_all
  have free: "map_of (mc_disk M5) (under ?p n) = None" for n
  proof -
    have "below base (mc_disk M5) (''secrets/public/'' @ n) = None" using b3 b4 b5 assms(13) by simp
    then show ?thesis by (simp add: below_def pu [of n, symmetric, simplified])
  qed
  obtain name where name: "public_path i = Inr name" and put: "map_of (mc_disk M') = (map_of (mc_disk M5))(under ?p name \<mapsto>
      \<lparr>nd_kind = Regular (de_public_pem H pem), nd_mode = mode_0444, nd_owner = de_user H\<rparr>)"
    using publish_key_Inr [OF pub _ dir free] assms(12) \<open>pem' = pem\<close> by auto
  note last = below_put [OF put [folded pu, simplified]]
  show thesis
  proof (rule that [OF name])
    show "base_ok base (mc_disk M')" using last base_ok_same [OF o5] by simp
  qed (use last b3 b4 b5 in simp)
qed

lemma secrets_left:
  assumes "generate_secrets E base policy M = (Inr u, M')"
    and "\<forall>w \<in> set ws. plain_name w" and "ws \<noteq> []" and "base = slash_path ws" and "base_ok base (mc_disk M)"
    and "below base (mc_disk M) = [''config'' \<mapsto> dn, ''config/revisions'' \<mapsto> dn, ''secrets'' \<mapsto> dn, ''secrets/public'' \<mapsto> dn]"
    and "nd_kind dn = Directory" and "de_private_id (qe_host E) (de_fresh_key (qe_host E)) = Inr i"
  obtains name where "public_path i = Inr name" and "base_ok base (mc_disk M')"
    and "below base (mc_disk M') =
      [''config'' \<mapsto> dn, ''config/revisions'' \<mapsto> dn, ''secrets'' \<mapsto> dn\<lparr>nd_mode := 0x1C0\<rparr>, ''secrets/public'' \<mapsto> dn\<lparr>nd_mode := 0x1C0\<rparr>,
       ''.gitignore'' \<mapsto> made_file E (''*'' @ [CHR 0x0A] @ ''!.gitignore'' @ [CHR 0x0A]) (de_umask (qe_host E) 0x1A4),
       ''config/policy.yaml'' \<mapsto> made_file E policy (de_umask (qe_host E) mode_0600),
       ''secrets/audit_signing_key.pem'' \<mapsto> made_file E (de_fresh_key (qe_host E)) mode_0600,
       ''secrets/public/'' @ name \<mapsto> made_file E (de_public_pem (qe_host E) (de_fresh_key (qe_host E))) mode_0444]"
proof -
  let ?H = "qe_host E"
  from assms(1) obtain u1 M1 u2 M2 u3 M3 where
    one: "write_new ?H (under base ''.gitignore'') (''*'' @ [CHR 0x0A] @ ''!.gitignore'' @ [CHR 0x0A]) 0x1A4 M = (Inr u1, M1)"
    and two: "write_new ?H (under base ''config/policy.yaml'') policy mode_0600 M1 = (Inr u2, M2)"
    and three: "write_new ?H (under base ''secrets/audit_signing_key.pem'') (de_fresh_key ?H) mode_0600 M2 = (Inr u3, M3)"
    and store: "initialize_store ?H (under base ''secrets'') (under base ''secrets/audit_signing_key.pem'') (under base ''secrets/public'') M3 = (Inr u, M')"
    unfolding generate_secrets_def Let_def by (elim bind_io_InrE)
  note puts = one [THEN write_new_Inr, THEN below_put] two [THEN write_new_Inr, THEN below_put] three [THEN write_new_Inr, THEN below_put]
  have ok: "base_ok base (mc_disk M3)" using puts assms(5) by (simp add: base_ok_def)
  have b3: "below base (mc_disk M3) =
      [''config'' \<mapsto> dn, ''config/revisions'' \<mapsto> dn, ''secrets'' \<mapsto> dn, ''secrets/public'' \<mapsto> dn,
       ''.gitignore'' \<mapsto> made_file E (''*'' @ [CHR 0x0A] @ ''!.gitignore'' @ [CHR 0x0A]) (de_umask ?H 0x1A4),
       ''config/policy.yaml'' \<mapsto> made_file E policy (de_umask ?H mode_0600),
       ''secrets/audit_signing_key.pem'' \<mapsto> made_file E (de_fresh_key ?H) (de_umask ?H mode_0600)]"
    using puts assms(6) by (simp add: made_file_def)
  let ?key = "made_file E (de_fresh_key ?H) (de_umask ?H mode_0600)"
  have key: "nd_kind ?key = Regular (de_fresh_key ?H)" by (simp add: made_file_def)
  have parts: "below base (mc_disk M3) ''secrets'' = Some dn" "below base (mc_disk M3) ''secrets/public'' = Some dn"
    "below base (mc_disk M3) ''secrets/audit_signing_key.pem'' = Some ?key"
    "\<And>name. below base (mc_disk M3) (''secrets/public/'' @ name) = None"
    by (simp_all add: b3)
  from store_left [OF store assms(2-4) ok parts(1) assms(7) parts(2) assms(7) parts(3) key assms(8) parts(4)]
  obtain name where name: "public_path i = Inr name" "base_ok base (mc_disk M')"
    and left: "below base (mc_disk M') = (below base (mc_disk M3))
      (''secrets'' \<mapsto> dn\<lparr>nd_mode := 0x1C0\<rparr>, ''secrets/public'' \<mapsto> dn\<lparr>nd_mode := 0x1C0\<rparr>,
       ''secrets/audit_signing_key.pem'' \<mapsto> ?key\<lparr>nd_mode := mode_0600\<rparr>,
       ''secrets/public/'' @ name \<mapsto> \<lparr>nd_kind = Regular (de_public_pem ?H (de_fresh_key ?H)), nd_mode = mode_0444, nd_owner = de_user ?H\<rparr>)"
    by blast
  have "below base (mc_disk M') =
      [''config'' \<mapsto> dn, ''config/revisions'' \<mapsto> dn, ''secrets'' \<mapsto> dn\<lparr>nd_mode := 0x1C0\<rparr>, ''secrets/public'' \<mapsto> dn\<lparr>nd_mode := 0x1C0\<rparr>,
       ''.gitignore'' \<mapsto> made_file E (''*'' @ [CHR 0x0A] @ ''!.gitignore'' @ [CHR 0x0A]) (de_umask ?H 0x1A4),
       ''config/policy.yaml'' \<mapsto> made_file E policy (de_umask ?H mode_0600),
       ''secrets/audit_signing_key.pem'' \<mapsto> made_file E (de_fresh_key ?H) mode_0600,
       ''secrets/public/'' @ name \<mapsto> made_file E (de_public_pem ?H (de_fresh_key ?H)) mode_0444]"
    unfolding left b3 by (rule ext) (simp add: made_file_def)
  with name that show thesis by blast
qed

lemma settings_left:
  assumes "generate_settings E base port gid admin_key client_key M = (Inr u, M')" and "base_ok base (mc_disk M)"
  obtains env where "env_text (env_entries E base port gid) = Inr env" and "base_ok base (mc_disk M')"
    and "below base (mc_disk M') = (below base (mc_disk M))
      (''compose.quickstart.yml'' \<mapsto> made_file E (qe_compose E) (de_umask (qe_host E) 0x1A4),
       ''.env.quickstart'' \<mapsto> made_file E env (de_umask (qe_host E) mode_0600),
       ''credentials.env'' \<mapsto> made_file E (credentials_text port admin_key client_key) (de_umask (qe_host E) mode_0600))"
proof -
  let ?H = "qe_host E"
  from assms(1) obtain u1 M1 env u2 M2 where
    one: "write_new ?H (under base ''compose.quickstart.yml'') (qe_compose E) 0x1A4 M = (Inr u1, M1)"
    and env: "env_text (env_entries E base port gid) = Inr env"
    and two: "write_new ?H (under base ''.env.quickstart'') env mode_0600 M1 = (Inr u2, M2)"
    and three: "write_new ?H (under base ''credentials.env'') (credentials_text port admin_key client_key) mode_0600 M2 = (Inr u, M')"
    unfolding generate_settings_def Let_def by (elim bind_io_InrE) auto
  note puts = one [THEN write_new_Inr, THEN below_put] two [THEN write_new_Inr, THEN below_put] three [THEN write_new_Inr, THEN below_put]
  show thesis
  proof (rule that [OF env])
    show "base_ok base (mc_disk M')" using puts assms(2) by (simp add: base_ok_def)
  qed (use puts in \<open>simp add: made_file_def\<close>)
qed

definition fresh_base :: "string \<Rightarrow> tree \<Rightarrow> bool" where
  "fresh_base base d \<longleftrightarrow> (\<exists>ws. ws \<noteq> [] \<and> base = slash_path ws \<and> (\<forall>w \<in> set ws. plain_name w)) \<and>
     \<not> is_symlink d base \<and> (\<forall>q. map_of d (under base q) = None)"

lemma generate_left:
  assumes "generate E base upstream_id args gid M = (Inr g, M')" and "fresh_base base (mc_disk M)"
    and "de_private_id (qe_host E) (de_fresh_key (qe_host E)) = Inr i"
  obtains admin_key client_key name env where "mint_keys E = Inr (admin_key, client_key)" and "public_path i = Inr name"
    and "env_text (env_entries E base (qa_port args) gid) = Inr env" and "base_ok base (mc_disk M')"
    and "below base (mc_disk M') = map_of (deployment_files E
      (qe_yaml E (policy_data E upstream_id (qa_tool args) (qa_command args) admin_key client_key)) env
      (credentials_text (qa_port args) admin_key client_key) name)"
    and "g = \<lparr>ge_root = base, ge_env = under base ''.env.quickstart'', ge_compose = under base ''compose.quickstart.yml'',
         ge_credentials = under base ''credentials.env'', ge_namespace = quickstart_namespace E,
         ge_admin_key = admin_key, ge_client_key = client_key\<rparr>"
proof -
  let ?H = "qe_host E"
  from assms(2) obtain ws where ws: "ws \<noteq> []" "base = slash_path ws" "\<forall>w \<in> set ws. plain_name w"
    and "\<not> is_symlink (mc_disk M) base" and "\<forall>q. below base (mc_disk M) q = None"
    by (auto simp: fresh_base_def below_def)
  from assms(1) obtain u1 M1 keys where one: "generate_directories ?H base M = (Inr u1, M1)" and keys: "mint_keys E = Inr keys"
    and rest: "(case keys of (admin_key, client_key) \<Rightarrow>
       bind_io (generate_secrets E base
         (qe_yaml E (policy_data E upstream_id (qa_tool args) (qa_command args) admin_key client_key))) (\<lambda>_.
       bind_io (generate_settings E base (qa_port args) gid admin_key client_key) (\<lambda>_.
         ret_io \<lparr>ge_root = base, ge_env = under base ''.env.quickstart'', ge_compose = under base ''compose.quickstart.yml'',
           ge_credentials = under base ''credentials.env'', ge_namespace = quickstart_namespace E,
           ge_admin_key = admin_key, ge_client_key = client_key\<rparr>))) M1 = (Inr g, M')"
    unfolding generate_def by (elim bind_io_InrE) auto
  obtain admin_key client_key where k: "keys = (admin_key, client_key)" by force
  let ?policy = "qe_yaml E (policy_data E upstream_id (qa_tool args) (qa_command args) admin_key client_key)"
  from rest obtain u2 M2 u3 where two: "generate_secrets E base ?policy M1 = (Inr u2, M2)"
    and three: "generate_settings E base (qa_port args) gid admin_key client_key M2 = (Inr u3, M')"
    and g: "g = \<lparr>ge_root = base, ge_env = under base ''.env.quickstart'', ge_compose = under base ''compose.quickstart.yml'',
         ge_credentials = under base ''credentials.env'', ge_namespace = quickstart_namespace E,
         ge_admin_key = admin_key, ge_client_key = client_key\<rparr>"
    unfolding k prod.case by (elim bind_io_InrE) auto
  note d1 = directories_left [OF one ws(3,2) \<open>\<not> is_symlink (mc_disk M) base\<close> \<open>\<forall>q. below base (mc_disk M) q = None\<close>]
  obtain name where name: "public_path i = Inr name" and ok2: "base_ok base (mc_disk M2)" and d2: "below base (mc_disk M2) =
      [''config'' \<mapsto> directory_node ?H 0x1C0, ''config/revisions'' \<mapsto> directory_node ?H 0x1C0,
       ''secrets'' \<mapsto> (directory_node ?H 0x1C0)\<lparr>nd_mode := 0x1C0\<rparr>, ''secrets/public'' \<mapsto> (directory_node ?H 0x1C0)\<lparr>nd_mode := 0x1C0\<rparr>,
       ''.gitignore'' \<mapsto> made_file E (''*'' @ [CHR 0x0A] @ ''!.gitignore'' @ [CHR 0x0A]) (de_umask ?H 0x1A4),
       ''config/policy.yaml'' \<mapsto> made_file E ?policy (de_umask ?H mode_0600),
       ''secrets/audit_signing_key.pem'' \<mapsto> made_file E (de_fresh_key ?H) mode_0600,
       ''secrets/public/'' @ name \<mapsto> made_file E (de_public_pem ?H (de_fresh_key ?H)) mode_0444]"
    by (rule secrets_left [OF two ws(3,1,2) d1(1) d1(2) _ assms(3)]) (simp add: directory_node_def)
  obtain env where env: "env_text (env_entries E base (qa_port args) gid) = Inr env" and ok: "base_ok base (mc_disk M')"
    and d3: "below base (mc_disk M') = (below base (mc_disk M2))
      (''compose.quickstart.yml'' \<mapsto> made_file E (qe_compose E) (de_umask ?H 0x1A4),
       ''.env.quickstart'' \<mapsto> made_file E env (de_umask ?H mode_0600),
       ''credentials.env'' \<mapsto> made_file E (credentials_text (qa_port args) admin_key client_key) (de_umask ?H mode_0600))"
    by (rule settings_left [OF three ok2])
  have "below base (mc_disk M') = map_of (deployment_files E ?policy env (credentials_text (qa_port args) admin_key client_key) name)"
    unfolding d3 d2 deployment_files_def Let_def
    by (rule ext) (simp add: directory_node_def made_directory_def)
  with keys k name env ok g that show thesis by blast
qed

section \<open>A concrete deployment\<close>

definition sample_plain :: quickstart_env where
  "sample_plain =
     \<lparr>qe_host = sample_doctor, qe_system = ''Linux'', qe_machine = ''x86_64'', qe_root_user = False, qe_keys = [''a'', ''a'', ''b''],
      qe_hex = ''0123abcd'', qe_postgres_password = ''p'', qe_redis_password = ''r'', qe_yaml = (\<lambda>v. ''policy''), qe_compose = ''c''\<rparr>"

definition sample_image :: string where
  "sample_image = ''sha256:'' @ sample_digest"

definition sample_quickstart :: quickstart_env where
  "sample_quickstart = sample_plain\<lparr>qe_host := sample_doctor\<lparr>de_policy := \<lambda>s.
     Inr (parsed_policy sample_plain sample_image ''echo'' [''serve''] ''a'' ''b'')\<rparr>\<rparr>"

definition sample_quickstart_args :: quickstart_args where
  "sample_quickstart_args =
     \<lparr>qa_image = ''tool:1'', qa_tool = ''echo'', qa_arguments = JObj [], qa_command = [''serve''], qa_port = 8000, qa_output = ''/d''\<rparr>"

theorem generated_policy_grants_one_tool_witness:
  "\<exists>e. load_policy (qe_host sample_quickstart) [] ''policy'' = Inr e \<and>
     is_allowed e (identity_for_key_hash e (key_hash sample_quickstart ''b'')) ''default'' ''echo''"
proof -
  have args: "validate_args sample_quickstart [] sample_quickstart_args = Inr ''/d''" by code_simp
  have image: "image_id sample_image" by code_simp
  have keys: "mint_keys sample_quickstart = Inr (''a'', ''b'')" by code_simp
  have tool: "qa_tool sample_quickstart_args = ''echo''" "qa_command sample_quickstart_args = [''serve'']"
    by (simp_all add: sample_quickstart_args_def)
  have yaml: "qe_yaml sample_quickstart v = ''policy''" for v by (simp add: sample_quickstart_def sample_plain_def)
  have policy: "de_policy (qe_host sample_quickstart) s = Inr p"
    if "read_policy (policy_data sample_quickstart sample_image (qa_tool sample_quickstart_args)
      (qa_command sample_quickstart_args) ''a'' ''b'') = Inr p" for s p
    using that
    by (simp add: policy_data_read sample_quickstart_def sample_plain_def sample_doctor_def parsed_policy_def key_hash_def tool)
  have hashes: "de_sha256 (qe_host sample_quickstart) ''a'' \<noteq> de_sha256 (qe_host sample_quickstart) ''b''"
    by (simp add: sample_quickstart_def sample_doctor_def)
  from generated_policy_grants_one_tool [OF args image keys policy hashes, of "[]"]
  show ?thesis unfolding yaml tool by auto
qed

end
