(* ===== verification/Quickstart.thy ===== *)
theory Quickstart
  imports QuickstartFiles AuditExport
begin

text \<open>
  \<open>services/quickstart.py\<close>, the second part: docker under a deadline, starting the stack,
  the proof of one allowed and one denied call, the cleanup, and the run. Docker, the clock
  and the gateway's answers are the host's functions on a world of their own; the docker
  commands a run tries are recorded beside that world.
\<close>

section \<open>The host\<close>

datatype reply = Reply bool nat | ToolError json

text \<open>
  The seconds that remain until the deadline of the run and of the cleanup (none: it has
  passed), docker, and the gateway as its HTTP and MCP clients see it. An interrupt is a
  \<open>KeyboardInterrupt\<close>, a timeout an \<open>OSError\<close>.
\<close>

record 'w stack_host =
  sh_remaining :: "'w \<Rightarrow> int option \<times> 'w"
  sh_cleanup_remaining :: "'w \<Rightarrow> int option \<times> 'w"
  sh_docker :: "string list \<Rightarrow> ('w, outcome) io"
  sh_ready :: "('w, int) io"
  sh_initialize :: "('w, unit) io"
  sh_tools :: "('w, string list) io"
  sh_call :: "string \<Rightarrow> json \<Rightarrow> ('w, reply) io"
  sh_export :: "('w, string list) io"
  sh_decision :: "json \<Rightarrow> ('w, json) io"
  sh_validate :: "json \<Rightarrow> decision res"

type_synonym 'w stack = "string list list \<times> 'w"

text \<open>\<open>Deadline.remaining\<close>, and \<open>_run\<close>: the output of a command tried before the deadline.\<close>

definition remaining :: "('w \<Rightarrow> int option \<times> 'w) \<Rightarrow> ('w stack, int) io" where
  "remaining clock s =
     (case clock (snd s) of
        (None, w) \<Rightarrow> (fails ''quickstart timed out'', (fst s, w))
      | (Some n, w) \<Rightarrow> (Inr n, (fst s, w)))"

definition try_docker :: "'w stack_host \<Rightarrow> string list \<Rightarrow> ('w stack, outcome) io" where
  "try_docker H argv s = (case sh_docker H argv (snd s) of (r, w) \<Rightarrow> (r, (fst s @ [argv], w)))"

definition run_command :: "'w stack_host \<Rightarrow> ('w \<Rightarrow> int option \<times> 'w) \<Rightarrow> bool \<Rightarrow> string list \<Rightarrow> ('w stack, string) io" where
  "run_command H clock must argv =
     bind_io (remaining clock) (\<lambda>_.
     bind_io (try_docker H argv) (\<lambda>out.
     of_res (case out of
       NotInstalled \<Rightarrow> fails ''docker was not found''
     | TimedOut \<Rightarrow> fails ''quickstart timed out''
     | Exited code stdout stderr \<Rightarrow> if must \<and> code \<noteq> 0 then fails ''docker failed'' else Inr stdout)))"

section \<open>The preflight\<close>

definition version_warnings :: "string \<Rightarrow> string \<Rightarrow> string list" where
  "version_warnings engine compose =
     (if py_int (leading_number engine) \<noteq> Some 29 then [''Docker Engine is outside tested 29.x''] else []) @
     (if py_int (leading_number compose) \<noteq> Some 5 then [''Docker Compose is outside tested 5.x''] else [])"

definition gid_command :: "string list" where
  "gid_command =
     [''docker'', ''run'', ''--rm'', ''--pull'', ''never'', ''--entrypoint'', ''stat'', ''-v'',
      ''/var/run/docker.sock:/var/run/docker.sock:ro'', pinned_gateway, ''-c'', ''%g'', ''/var/run/docker.sock'']"

fun pull_images :: "'w stack_host \<Rightarrow> string list \<Rightarrow> ('w stack, unit) io" where
  "pull_images H [] = ret_io ()"
| "pull_images H (i # is) =
     bind_io (run_command H (sh_remaining H) True [''docker'', ''pull'', i]) (\<lambda>_. pull_images H is)"

definition local_docker :: "quickstart_env \<Rightarrow> string \<Rightarrow> bool" where
  "local_docker E host \<longleftrightarrow>
     prefix ''unix://'' host \<and> de_resolve (qe_host E) (drop 7 host) = de_resolve (qe_host E) socket_path"

definition docker_preflight ::
  "quickstart_env \<Rightarrow> 'w stack_host \<Rightarrow> string \<Rightarrow> ('w stack, string \<times> string \<times> string \<times> string) io" where
  "docker_preflight E H upstream_ref =
     (let run = run_command H (sh_remaining H) True
      in bind_io (run [''docker'', ''context'', ''inspect'', ''--format'', ''{{.Endpoints.docker.Host}}'']) (\<lambda>host.
         if \<not> local_docker E (py_strip host) then of_res (fails ''Docker must use the local /var/run/docker.sock'')
         else bind_io (run [''docker'', ''version'', ''--format'', ''{{.Server.Version}}'']) (\<lambda>engine.
         bind_io (run [''docker'', ''compose'', ''version'', ''--short'']) (\<lambda>compose.
         if py_strip engine = [] \<or> py_strip compose = []
         then of_res (fails ''Docker daemon and Compose versions could not be detected'')
         else bind_io (run [''docker'', ''image'', ''inspect'', ''--format'', ''{{.Id}}'', upstream_ref]) (\<lambda>upstream_id.
         if \<not> image_id (py_strip upstream_id) then of_res (fails ''local upstream image has no valid image ID'')
         else bind_io (pull_images H [pinned_gateway, pinned_postgres, pinned_redis]) (\<lambda>_.
         bind_io (run gid_command) (\<lambda>gid.
         if \<not> py_isdigit (py_strip gid) then of_res (fails ''Docker socket GID probe returned an invalid value'')
         else ret_io (py_strip upstream_id, py_strip gid, py_strip engine, py_strip compose))))))))"

section \<open>The proof\<close>

definition compose_base :: "generated \<Rightarrow> string list" where
  "compose_base g = [''docker'', ''compose'', ''--env-file'', ge_env g, ''-p'', ge_namespace g, ''-f'', ge_compose g]"

text \<open>\<open>_wait_ready\<close>.\<close>

definition wait_ready :: "'w stack_host \<Rightarrow> ('w stack, unit) io" where
  "wait_ready H =
     bind_io (remaining (sh_remaining H)) (\<lambda>_ s.
       case outer (sh_ready H) s of
         (Inr status, s') \<Rightarrow> (if status \<noteq> 200 then fails ''/ready returned an error'' else Inr (), s')
       | (Inl e, s') \<Rightarrow> (if os_error e then fails ''/ready failed'' else Inl e, s'))"

definition row_matches :: "string \<Rightarrow> string \<Rightarrow> string \<Rightarrow> jdict \<Rightarrow> bool" where
  "row_matches identity_id tool event d \<longleftrightarrow>
     py_eq (dget d ''identity_id'') (JStr identity_id) \<and> py_eq (dget d ''server_id'') (JStr ''default'') \<and>
     py_eq (dget d ''tool_name'') (JStr tool) \<and> py_eq (dget d ''event_type'') (JStr event)"

definition proof_row :: "jdict list \<Rightarrow> string \<Rightarrow> string \<Rightarrow> string \<Rightarrow> jdict res" where
  "proof_row rows identity_id tool event =
     (case filter (row_matches identity_id tool event) rows of
        [row] \<Rightarrow> Inr row
      | _ \<Rightarrow> fails ''audit export did not contain one matching row'')"

definition load_rows :: "codec \<Rightarrow> string list \<Rightarrow> jdict list res" where
  "load_rows C ls =
     collect_res (map (\<lambda>l. case cd_loads C l of None \<Rightarrow> Inl (ValueError ''invalid JSON'') | Some v \<Rightarrow> get_of v) ls)"

text \<open>The session: the tool is visible, its call succeeds, the other is refused with this error.\<close>

definition try_calls :: "'w stack_host \<Rightarrow> string \<Rightarrow> json \<Rightarrow> ('w, json) io" where
  "try_calls H tool arguments =
     bind_io (sh_initialize H) (\<lambda>_.
     bind_io (sh_tools H) (\<lambda>visible.
     if tool \<notin> set visible then of_res (fails ''allowed tool was not visible'')
     else bind_io (sh_call H tool arguments) (\<lambda>r.
     case r of
       ToolError data \<Rightarrow> raise_io (RuntimeError ''McpError'')
     | Reply is_error blocks \<Rightarrow>
         if is_error then of_res (fails ''upstream tool returned isError=true'')
         else bind_io (sh_call H denied_tool (JObj [])) (\<lambda>r.
              case r of
                Reply is_error blocks \<Rightarrow> of_res (fails ''fixed denied call unexpectedly succeeded'')
              | ToolError data \<Rightarrow> ret_io (case data of JObj d \<Rightarrow> data | _ \<Rightarrow> JNull)))))"

text \<open>The exported log: verified, anchored, with one row for each of the two calls.\<close>

definition find_rows ::
  "verifier_env \<Rightarrow> codec \<Rightarrow> string \<Rightarrow> string list \<Rightarrow> (int \<times> jdict \<times> jdict) res" where
  "find_rows V C tool ls =
     bind_res (verify_file V C ls) (\<lambda>(n, anchored).
     if \<not> anchored then fails ''audit export was not anchored at genesis''
     else bind_res (load_rows C (tl ls)) (\<lambda>rows.
     bind_res (proof_row rows ''quickstart-client'' tool ''ALLOW'') (\<lambda>allow_row.
     bind_res (proof_row rows ''quickstart-client'' denied_tool ''DENY_RBAC'') (\<lambda>deny_row.
       Inr (n, allow_row, deny_row)))))"

definition check_decisions :: "'w stack_host \<Rightarrow> json \<Rightarrow> json \<Rightarrow> json \<Rightarrow> (decision \<times> decision) res" where
  "check_decisions H wire allow deny =
     (if \<not> py_eq deny wire then fails ''DENY_RBAC audit Decision did not match the MCP error''
      else bind_res (sh_validate H allow) (\<lambda>a.
      bind_res (sh_validate H deny) (\<lambda>d.
      if d_event_type a \<noteq> EV_ALLOW \<or> d_decision a \<noteq> O_ALLOW then fails ''audited allowed call was not canonical ALLOW''
      else if d_event_type d \<noteq> EV_DENY_RBAC \<or> d_decision d \<noteq> O_DENY
      then fails ''audited denied call was not canonical DENY_RBAC''
      else Inr (a, d))))"

definition prove ::
  "'w stack_host \<Rightarrow> verifier_env \<Rightarrow> codec \<Rightarrow> string \<Rightarrow> json \<Rightarrow> ('w, decision \<times> decision \<times> int) io" where
  "prove H V C tool arguments =
     bind_io (try_calls H tool arguments) (\<lambda>wire.
     if \<not> (case wire of JObj d \<Rightarrow> py_eq (dget d ''event_type'') (JStr ''DENY_RBAC'') | _ \<Rightarrow> False)
     then of_res (fails ''fixed denied call did not return canonical DENY_RBAC'')
     else bind_io (sh_export H) (\<lambda>ls.
     bind_io (of_res (find_rows V C tool ls)) (\<lambda>(n, allow_row, deny_row).
     bind_io (sh_decision H (dget allow_row ''seq'')) (\<lambda>allow.
     bind_io (sh_decision H (dget deny_row ''seq'')) (\<lambda>deny.
     bind_io (of_res (check_decisions H wire allow deny)) (\<lambda>(a, d). ret_io (a, d, n)))))))"

section \<open>The run\<close>

text \<open>\<open>_cleanup\<close>: a command that fails is only warned about; an interrupt ends it.\<close>

definition ignoring :: "('w stack, string) io \<Rightarrow> ('w stack, unit) io" where
  "ignoring m s =
     (case m s of
        (Inr out, s') \<Rightarrow> (Inr (), s')
      | (Inl (QuickstartError t), s') \<Rightarrow> (Inr (), s')
      | (Inl e, s') \<Rightarrow> (Inl e, s'))"

definition cleanup :: "'w stack_host \<Rightarrow> generated \<Rightarrow> ('w stack, unit) io" where
  "cleanup H g =
     bind_io (ignoring (run_command H (sh_cleanup_remaining H) False (compose_base g @ [''logs'', ''--no-color'', ''--tail'', ''200'']))) (\<lambda>_.
       ignoring (run_command H (sh_cleanup_remaining H) False (compose_base g @ [''down''])))"

fun quickstart_error :: "exn \<Rightarrow> exn" where
  "quickstart_error KeyboardInterrupt = KeyboardInterrupt"
| "quickstart_error (QuickstartError t) = QuickstartError t"
| "quickstart_error (QuickstartUsageError t) = QuickstartUsageError t"
| "quickstart_error e = QuickstartError ''another exception''"

definition up_command :: "generated \<Rightarrow> int \<Rightarrow> string list" where
  "up_command g seconds =
     compose_base g @ [''up'', ''-d'', ''--wait'', ''--wait-timeout'', int_str (max 1 seconds), ''--pull'', ''never'']"

text \<open>The \<open>try\<close> block after \<open>started = True\<close>, and the whole of it.\<close>

definition start_and_prove ::
  "'w stack_host \<Rightarrow> verifier_env \<Rightarrow> codec \<Rightarrow> quickstart_args \<Rightarrow> string list \<Rightarrow> ('w stack, decision \<times> decision \<times> int) io" where
  "start_and_prove H V C args up =
     bind_io (run_command H (sh_remaining H) True up) (\<lambda>_.
     bind_io (wait_ready H) (\<lambda>_.
     bind_io (remaining (sh_remaining H)) (\<lambda>_.
       outer (prove H V C (qa_tool args) (qa_arguments args)))))"

definition guarded ::
  "'w stack_host \<Rightarrow> generated \<Rightarrow> bool \<Rightarrow> ('w stack, 'a) io \<Rightarrow> ('w stack, 'a) io" where
  "guarded H g started m s =
     (case m s of
        (Inr a, s') \<Rightarrow> (Inr a, s')
      | (Inl e, s') \<Rightarrow>
          if started
          then (case cleanup H g s' of (Inr u, s2) \<Rightarrow> (Inl (quickstart_error e), s2) | (Inl e2, s2) \<Rightarrow> (Inl e2, s2))
          else (Inl (quickstart_error e), s'))"

definition run_stack ::
  "'w stack_host \<Rightarrow> verifier_env \<Rightarrow> codec \<Rightarrow> quickstart_args \<Rightarrow> generated \<Rightarrow> ('w stack, decision \<times> decision \<times> int) io" where
  "run_stack H V C args g =
     bind_io (remaining (sh_remaining H)) (\<lambda>seconds.
     bind_io (guarded H g False (run_command H (sh_remaining H) True (compose_base g @ [''config'', ''--quiet'']))) (\<lambda>_.
       guarded H g True (start_and_prove H V C args (up_command g seconds))))"

record quickstart_result =
  qr_generated :: generated
  qr_reference :: string
  qr_command :: "string list"
  qr_port :: int
  qr_upstream_id :: string
  qr_docker_gid :: string
  qr_versions :: "string \<times> string"
  qr_rows :: int
  qr_allow :: decision
  qr_deny :: decision
  qr_commands :: "string list list"

text \<open>The files and the stack are run side by side.\<close>

definition on_files :: "(tree machine, 'a) io \<Rightarrow> (tree machine \<times> 'w stack, 'a) io" where
  "on_files m s = (case m (fst s) of (r, M) \<Rightarrow> (r, (M, snd s)))"

definition quickstart_run ::
  "quickstart_env \<Rightarrow> 'w stack_host \<Rightarrow> verifier_env \<Rightarrow> codec \<Rightarrow> quickstart_args \<Rightarrow>
     (tree machine \<times> 'w stack, quickstart_result) io" where
  "quickstart_run E H V C args =
     bind_io (on_files (look (\<lambda>d. validate_args E d args))) (\<lambda>output.
     bind_io (of_res output) (\<lambda>base.
     bind_io (of_res (validate_platform E)) (\<lambda>_.
     bind_io (on_files (look check_socket)) (\<lambda>socket.
     bind_io (of_res socket) (\<lambda>_.
     bind_io (of_res (check_port E (qa_port args))) (\<lambda>_.
     bind_io (outer (docker_preflight E H (qa_image args))) (\<lambda>(upstream_id, gid, versions).
     bind_io (on_files (generate E base upstream_id args gid)) (\<lambda>g.
     bind_io (outer (run_stack H V C args g)) (\<lambda>(a, d, n).
       ret_io \<lparr>qr_generated = g, qr_reference = qa_image args, qr_command = qa_command args, qr_port = qa_port args,
         qr_upstream_id = upstream_id, qr_docker_gid = gid, qr_versions = versions,
         qr_rows = n, qr_allow = a, qr_deny = d,
         qr_commands = [compose_base g @ [''up'', ''-d'', ''--wait'', ''--pull'', ''never''], compose_base g @ [''down''],
           compose_base g @ [''down'', ''--volumes'']]\<rparr>)))))))))"

section \<open>The docker commands of a run\<close>

lemma remaining_keeps: "remaining clock s = (r, s') \<Longrightarrow> fst s' = fst s"
  by (auto simp: remaining_def split: prod.splits option.splits)

lemma outer_keeps: "outer m s = (r, s') \<Longrightarrow> fst s' = fst s"
  by (auto simp: outer_def split: prod.splits)

lemma wait_ready_keeps:
  assumes "wait_ready H s = (r, s')"
  shows "fst s' = fst s"
proof -
  obtain r1 s1 where left: "remaining (sh_remaining H) s = (r1, s1)" by (metis surj_pair)
  then show ?thesis
    using assms remaining_keeps [OF left] outer_keeps [of "sh_ready H" s1]
    by (cases r1) (auto simp: wait_ready_def bind_io_def split: prod.splits sum.splits)
qed

lemma run_command_tried:
  assumes "run_command H clock must argv s = (r, s')"
  shows "fst s' = fst s @ [argv] \<or> (fst s' = fst s \<and> (\<exists>t. r = Inl (QuickstartError t)) \<and> (\<exists>w. fst (clock w) = None))"
    and "(\<exists>out. r = Inr out) \<Longrightarrow> fst s' = fst s @ [argv]"
  using assms
  by (auto simp: run_command_def bind_io_def remaining_def try_docker_def fails_def split: prod.splits option.splits sum.splits
      intro: exI [of _ "snd s"])

lemma ignoring_tried:
  assumes "ignoring (run_command H clock False argv) s = (r, s')"
  shows "fst s' = fst s @ [argv] \<or> fst s' = fst s \<and> (\<exists>w. fst (clock w) = None)"
    and "r = Inl e \<Longrightarrow> fst s' = fst s @ [argv] \<and> (\<exists>w. fst (sh_docker H argv w) = Inl e)"
proof -
  obtain r1 s1 where run: "run_command H clock False argv s = (r1, s1)" by (metis surj_pair)
  have s': "s' = s1" and r: "r = Inl e \<Longrightarrow> r1 = Inl e \<and> (\<forall>t. e \<noteq> QuickstartError t)"
    using assms run by (auto simp: ignoring_def split: sum.splits exn.splits)
  show "fst s' = fst s @ [argv] \<or> fst s' = fst s \<and> (\<exists>w. fst (clock w) = None)"
    using run_command_tried(1) [OF run] s' by auto
  assume "r = Inl e"
  with r have e: "r1 = Inl e" "\<forall>t. e \<noteq> QuickstartError t" by auto
  with run have "\<exists>w. fst (sh_docker H argv w) = Inl e"
    by (auto simp: run_command_def bind_io_def remaining_def try_docker_def fails_def split: prod.splits option.splits sum.splits
        outcome.splits if_splits) (metis fst_conv)
  with run_command_tried(1) [OF run] s' e show "fst s' = fst s @ [argv] \<and> (\<exists>w. fst (sh_docker H argv w) = Inl e)" by auto
qed

lemma ignoring_runs:
  assumes "ignoring (run_command H clock False argv) s = (r, s')"
    and "\<forall>w. fst (clock w) \<noteq> None" and "\<forall>w e. fst (sh_docker H argv w) \<noteq> Inl e"
  shows "r = Inr ()" and "fst s' = fst s @ [argv]"
proof -
  show "r = Inr ()"
  proof (cases r)
    case (Inl e)
    with ignoring_tried(2) [OF assms(1) Inl] assms(3) show ?thesis by blast
  qed simp
  show "fst s' = fst s @ [argv]" using ignoring_tried(1) [OF assms(1)] assms(2) by blast
qed

definition logs_command :: "generated \<Rightarrow> string list" where
  "logs_command g = compose_base g @ [''logs'', ''--no-color'', ''--tail'', ''200'']"

definition down_command :: "generated \<Rightarrow> string list" where
  "down_command g = compose_base g @ [''down'']"

definition config_command :: "generated \<Rightarrow> string list" where
  "config_command g = compose_base g @ [''config'', ''--quiet'']"

text \<open>A cleanup with time left and without an interrupt.\<close>

definition cleanup_runs :: "'w stack_host \<Rightarrow> generated \<Rightarrow> bool" where
  "cleanup_runs H g \<longleftrightarrow> (\<forall>w. fst (sh_cleanup_remaining H w) \<noteq> None) \<and>
     (\<forall>w e. fst (sh_docker H (logs_command g) w) \<noteq> Inl e \<and> fst (sh_docker H (down_command g) w) \<noteq> Inl e)"

lemma cleanup_tried:
  assumes "cleanup_runs H g" and "cleanup H g s = (r, s')"
  shows "r = Inr () \<and> fst s' = fst s @ [logs_command g, down_command g]"
proof -
  let ?logs = "ignoring (run_command H (sh_cleanup_remaining H) False (logs_command g))"
  let ?down = "ignoring (run_command H (sh_cleanup_remaining H) False (down_command g))"
  obtain r1 s1 where logs: "?logs s = (r1, s1)" by (metis surj_pair)
  obtain r2 s2 where down: "?down s1 = (r2, s2)" by (metis surj_pair)
  have one: "r1 = Inr ()" "fst s1 = fst s @ [logs_command g]"
    using ignoring_runs [OF logs] assms(1) by (simp_all add: cleanup_runs_def)
  have two: "r2 = Inr ()" "fst s2 = fst s1 @ [down_command g]"
    using ignoring_runs [OF down] assms(1) by (simp_all add: cleanup_runs_def)
  have "cleanup H g s = (r2, s2)"
    using logs down one(1) by (simp add: cleanup_def bind_io_def logs_command_def down_command_def)
  with one two assms(2) show ?thesis by simp
qed

lemma start_tried:
  assumes "start_and_prove H V C args up s = (r, s')"
  shows "fst s' = fst s @ [up] \<or> fst s' = fst s \<and> (\<exists>e. r = Inl e)" and "r = Inr a \<Longrightarrow> fst s' = fst s @ [up]"
proof -
  obtain r1 s1 where up: "run_command H (sh_remaining H) True up s = (r1, s1)" by (metis surj_pair)
  have "fst s' = fst s @ [up]" if "r1 = Inr out" for out
  proof -
    from up run_command_tried(2) [OF up] that have s1: "fst s1 = fst s @ [up]" by blast
    obtain r2 s2 where wait: "wait_ready H s1 = (r2, s2)" by (metis surj_pair)
    obtain r3 s3 where left: "remaining (sh_remaining H) s2 = (r3, s3)" by (metis surj_pair)
    obtain r4 s4 where prove: "outer (prove H V C (qa_tool args) (qa_arguments args)) s3 = (r4, s4)" by (metis surj_pair)
    have keeps: "fst s2 = fst s1" "fst s3 = fst s2" "fst s4 = fst s3"
      by (rule wait_ready_keeps [OF wait] remaining_keeps [OF left] outer_keeps [OF prove])+
    from assms have "s' \<in> {s2, s3, s4}"
      by (cases r2; cases r3) (auto simp: start_and_prove_def bind_io_def up that wait left prove)
    with keeps s1 show ?thesis by auto
  qed
  moreover have "s' = s1 \<and> r = Inl e" if "r1 = Inl e" for e
    using assms up that by (simp add: start_and_prove_def bind_io_def)
  ultimately show "fst s' = fst s @ [up] \<or> fst s' = fst s \<and> (\<exists>e. r = Inl e)" "r = Inr a \<Longrightarrow> fst s' = fst s @ [up]"
    using run_command_tried(1) [OF up] by (cases r1; auto)+
qed

text \<open>
  C38: A failed quickstart leaves no stack behind. Whatever docker and the gateway answer, as
  long as the cleanup has time and is not itself interrupted: a run that returns has checked
  the configuration and started the stack; a run that fails has either stopped before it
  could start anything, after at most the check of the configuration, or its last two
  commands, whether or not the stack came up, were for its logs and to take it down.
\<close>

theorem failed_quickstart_stops_stack:
  assumes "run_stack H V C args g (cmds, w) = (r, (cmds', w'))" and "cleanup_runs H g"
  shows "(case r of
      Inr result \<Rightarrow> \<exists>n. cmds' = cmds @ [config_command g, up_command g n]
    | Inl e \<Rightarrow> cmds' \<in> {cmds, cmds @ [config_command g]} \<or>
        (\<exists>up. (up = [] \<or> (\<exists>n. up = [up_command g n])) \<and>
          cmds' = cmds @ [config_command g] @ up @ [logs_command g, down_command g]))"
proof -
  obtain r1 s1 where left: "remaining (sh_remaining H) (cmds, w) = (r1, s1)" by (metis surj_pair)
  have s1: "fst s1 = cmds" using remaining_keeps [OF left] by simp
  show ?thesis
  proof (cases r1)
    case (Inl e)
    with assms(1) left s1 show ?thesis by (auto simp: run_stack_def bind_io_def)
  next
    case (Inr n)
    let ?config = "run_command H (sh_remaining H) True (config_command g)"
    obtain r2 s2 where config: "?config s1 = (r2, s2)" by (metis surj_pair)
    show ?thesis
    proof (cases r2)
      case (Inl e)
      with assms(1) left \<open>r1 = Inr n\<close> config run_command_tried(1) [OF config] s1 show ?thesis
        by (auto simp: run_stack_def bind_io_def guarded_def config_command_def)
    next
      case (Inr out)
      then have s2: "fst s2 = cmds @ [config_command g]" using run_command_tried(2) [OF config] s1 by auto
      obtain r3 s3 where start: "start_and_prove H V C args (up_command g n) s2 = (r3, s3)" by (metis surj_pair)
      have run: "(r, (cmds', w')) = guarded H g True (start_and_prove H V C args (up_command g n)) s2"
        using assms(1) left \<open>r1 = Inr n\<close> config Inr by (simp add: run_stack_def bind_io_def guarded_def config_command_def)
      show ?thesis
      proof (cases r3)
        case (Inl e)
        obtain r4 s4 where clean: "cleanup H g s3 = (r4, s4)" by (metis surj_pair)
        note c = cleanup_tried [OF assms(2) clean]
        from run start Inl clean c have r: "r = Inl (quickstart_error e)" "cmds' = fst s3 @ [logs_command g, down_command g]"
          by (auto simp: guarded_def)
        from start_tried(1) [OF start] s2 show ?thesis unfolding r by auto
      next
        case (Inr result)
        with run start have "r = Inr result" "cmds' = fst s3" by (auto simp: guarded_def)
        with start_tried(2) [OF start Inr] s2 show ?thesis by auto
      qed
    qed
  qed
qed

section \<open>What a success shows\<close>

lemma try_calls_Inr:
  assumes "try_calls H tool arguments w = (Inr wire, w')" and "wire \<noteq> JNull"
  shows "\<exists>w1 w2 w3 visible n. sh_initialize H w = (Inr (), w1) \<and> sh_tools H w1 = (Inr visible, w2) \<and> tool \<in> set visible \<and>
    sh_call H tool arguments w2 = (Inr (Reply False n), w3) \<and> sh_call H denied_tool (JObj []) w3 = (Inr (ToolError wire), w')"
  using assms
  by (auto simp: try_calls_def fails_def elim!: bind_io_InrE split: if_splits reply.splits json.splits)

lemma proof_row_Inr: "proof_row rows i tool event = Inr row \<Longrightarrow> filter (row_matches i tool event) rows = [row]"
  by (auto simp: proof_row_def fails_def split: list.splits)

lemma find_rows_Inr:
  assumes "find_rows V C tool ls = Inr (n, allow_row, deny_row)"
  shows "verify_file V C ls = Inr (n, True) \<and>
    (\<exists>rows. load_rows C (tl ls) = Inr rows \<and> filter (row_matches ''quickstart-client'' tool ''ALLOW'') rows = [allow_row] \<and>
       filter (row_matches ''quickstart-client'' denied_tool ''DENY_RBAC'') rows = [deny_row])"
  using assms
  by (auto simp: find_rows_def bind_res_Inr_iff fails_def dest!: proof_row_Inr split: if_splits prod.splits)

lemma check_decisions_Inr:
  assumes "check_decisions H wire allow deny = Inr (a, d)"
  shows "py_eq deny wire \<and> sh_validate H allow = Inr a \<and> sh_validate H deny = Inr d \<and>
    d_event_type a = EV_ALLOW \<and> d_decision a = O_ALLOW \<and> d_event_type d = EV_DENY_RBAC \<and> d_decision d = O_DENY"
  using assms by (auto simp: check_decisions_def bind_res_Inr_iff fails_def split: if_splits)

text \<open>
  The evidence of a run: what the gateway and the export answered, one after the other, from
  the world \<open>w\<close> to the world \<open>w'\<close>.
\<close>

definition proved ::
  "'w stack_host \<Rightarrow> verifier_env \<Rightarrow> codec \<Rightarrow> string \<Rightarrow> json \<Rightarrow> 'w \<Rightarrow> int \<Rightarrow> decision \<Rightarrow> decision \<Rightarrow> 'w \<Rightarrow> bool" where
  "proved H V C tool arguments w n a d w' \<longleftrightarrow>
     (\<exists>w1 w2 w3 w4 w5 w6 visible k wire ls rows allow_row deny_row allow deny.
        sh_initialize H w = (Inr (), w1) \<and> sh_tools H w1 = (Inr visible, w2) \<and> tool \<in> set visible \<and>
        sh_call H tool arguments w2 = (Inr (Reply False k), w3) \<and>
        sh_call H denied_tool (JObj []) w3 = (Inr (ToolError wire), w4) \<and>
        sh_export H w4 = (Inr ls, w5) \<and> verify_file V C ls = Inr (n, True) \<and> load_rows C (tl ls) = Inr rows \<and>
        filter (row_matches ''quickstart-client'' tool ''ALLOW'') rows = [allow_row] \<and>
        filter (row_matches ''quickstart-client'' denied_tool ''DENY_RBAC'') rows = [deny_row] \<and>
        sh_decision H (dget allow_row ''seq'') w5 = (Inr allow, w6) \<and>
        sh_decision H (dget deny_row ''seq'') w6 = (Inr deny, w') \<and> py_eq deny wire \<and>
        sh_validate H allow = Inr a \<and> sh_validate H deny = Inr d \<and>
        d_event_type a = EV_ALLOW \<and> d_decision a = O_ALLOW \<and> d_event_type d = EV_DENY_RBAC \<and> d_decision d = O_DENY)"

lemma prove_Inr:
  assumes "prove H V C tool arguments w = (Inr (a, d, n), w')"
  shows "proved H V C tool arguments w n a d w'"
proof -
  from assms obtain wire w1 where calls: "try_calls H tool arguments w = (Inr wire, w1)"
    and rest: "(if \<not> (case wire of JObj d \<Rightarrow> py_eq (dget d ''event_type'') (JStr ''DENY_RBAC'') | _ \<Rightarrow> False)
     then of_res (fails ''fixed denied call did not return canonical DENY_RBAC'')
     else bind_io (sh_export H) (\<lambda>ls.
     bind_io (of_res (find_rows V C tool ls)) (\<lambda>(n, allow_row, deny_row).
     bind_io (sh_decision H (dget allow_row ''seq'')) (\<lambda>allow.
     bind_io (sh_decision H (dget deny_row ''seq'')) (\<lambda>deny.
     bind_io (of_res (check_decisions H wire allow deny)) (\<lambda>(a, d). ret_io (a, d, n))))))) w1 = (Inr (a, d, n), w')"
    unfolding prove_def by (elim bind_io_InrE)
  from rest obtain o1 where wire: "wire = JObj o1" by (auto simp: fails_def split: json.splits if_splits)
  from rest wire have "bind_io (sh_export H) (\<lambda>ls.
     bind_io (of_res (find_rows V C tool ls)) (\<lambda>(n, allow_row, deny_row).
     bind_io (sh_decision H (dget allow_row ''seq'')) (\<lambda>allow.
     bind_io (sh_decision H (dget deny_row ''seq'')) (\<lambda>deny.
     bind_io (of_res (check_decisions H wire allow deny)) (\<lambda>(a, d). ret_io (a, d, n)))))) w1 = (Inr (a, d, n), w')"
    by (simp add: fails_def split: if_splits)
  then obtain ls w2 found where export: "sh_export H w1 = (Inr ls, w2)" and found: "find_rows V C tool ls = Inr found"
    and rest: "(case found of (m, allow_row, deny_row) \<Rightarrow> bind_io (sh_decision H (dget allow_row ''seq'')) (\<lambda>allow.
     bind_io (sh_decision H (dget deny_row ''seq'')) (\<lambda>deny.
     bind_io (of_res (check_decisions H wire allow deny)) (\<lambda>(a, d). ret_io (a, d, m))))) w2 = (Inr (a, d, n), w')"
    by (elim bind_io_InrE) simp
  obtain m allow_row deny_row where f: "found = (m, allow_row, deny_row)" by (cases found)
  note rows = found [unfolded f] and rest = rest [unfolded f prod.case]
  from rest obtain allow w3 deny where ds: "sh_decision H (dget allow_row ''seq'') w2 = (Inr allow, w3)"
    "sh_decision H (dget deny_row ''seq'') w3 = (Inr deny, w')" and check: "check_decisions H wire allow deny = Inr (a, d)" "m = n"
    by (elim bind_io_InrE) auto
  have "wire \<noteq> JNull" by (simp add: wire)
  with try_calls_Inr [OF calls] find_rows_Inr [OF rows] check_decisions_Inr [OF check(1)] export ds check(2)
  show ?thesis unfolding proved_def by blast
qed

lemma stack_proved:
  assumes "run_stack H V C args g s = (Inr (a, d, n), s')"
  shows "\<exists>w. proved H V C (qa_tool args) (qa_arguments args) w n a d (snd s')"
proof -
  from assms obtain seconds s1 where "guarded H g True (start_and_prove H V C args (up_command g seconds)) s1 = (Inr (a, d, n), s')"
    unfolding run_stack_def by (elim bind_io_InrE)
  then have "start_and_prove H V C args (up_command g seconds) s1 = (Inr (a, d, n), s')"
    by (auto simp: guarded_def split: prod.splits sum.splits)
  then obtain s2 where "outer (prove H V C (qa_tool args) (qa_arguments args)) s2 = (Inr (a, d, n), s')"
    unfolding start_and_prove_def by (elim bind_io_InrE)
  then have "prove H V C (qa_tool args) (qa_arguments args) (snd s2) = (Inr (a, d, n), snd s')"
    by (auto simp: outer_def split: prod.splits)
  from prove_Inr [OF this] show ?thesis by blast
qed

lemma preflight_image:
  assumes "docker_preflight E H upstream_ref s = (Inr (upstream_id, gid, versions), s')"
  shows "image_id upstream_id \<and> py_isdigit gid"
  using assms unfolding docker_preflight_def Let_def
  by (elim bind_io_InrE) (auto simp: fails_def elim!: bind_io_InrE split: if_splits)

text \<open>
  What a successful quickstart has shown. A run of the stack that returns has seen the
  allowed call answered without an error and the other refused; downloaded an export that
  verifies and is marked as anchored, with exactly one row of the client for each of the two
  calls; and got both decisions from the gateway: the first an \<open>ALLOW\<close>, the second a
  \<open>DENY_RBAC\<close> equal to the error the client had received.
\<close>

theorem successful_stack_is_proved:
  assumes "run_stack H V C args g s = (Inr (a, d, n), s')"
  shows "\<exists>w. proved H V C (qa_tool args) (qa_arguments args) w n a d (snd s')"
  by (rule stack_proved [OF assms])

text \<open>
  So has the whole command; its result names the image it pinned and a tool other than that of
  the denied call.
\<close>

lemma successful_quickstart_is_proved:
  assumes "quickstart_run E H V C args (M, s) = (Inr res, s')"
  shows "(\<exists>w. proved H V C (qa_tool args) (qa_arguments args) w (qr_rows res) (qr_allow res) (qr_deny res) (snd (snd s'))) \<and>
    image_id (qr_upstream_id res) \<and> qa_tool args \<noteq> denied_tool"
proof -
  from assms obtain base where v: "validate_args E (mc_disk M) args = Inr base"
    by (auto simp: quickstart_run_def on_files_def elim!: bind_io_InrE)
  from assms obtain t s1 t2 where pre: "outer (docker_preflight E H (qa_image args)) (M, s) = (Inr t, s1)"
    and rest: "(case t of (upstream_id, gid, versions) \<Rightarrow>
     bind_io (on_files (generate E t2 upstream_id args gid)) (\<lambda>g.
     bind_io (outer (run_stack H V C args g)) (\<lambda>(a, d, n).
       ret_io \<lparr>qr_generated = g, qr_reference = qa_image args, qr_command = qa_command args, qr_port = qa_port args,
         qr_upstream_id = upstream_id, qr_docker_gid = gid, qr_versions = versions,
         qr_rows = n, qr_allow = a, qr_deny = d,
         qr_commands = [compose_base g @ [''up'', ''-d'', ''--wait'', ''--pull'', ''never''], compose_base g @ [''down''],
           compose_base g @ [''down'', ''--volumes'']]\<rparr>))) s1 = (Inr res, s')"
    unfolding quickstart_run_def by (elim bind_io_InrE) (auto simp: on_files_def)
  obtain upstream_id gid versions where t: "t = (upstream_id, gid, versions)" by (cases t)
  from pre t obtain w1 w2 where "docker_preflight E H (qa_image args) w1 = (Inr (upstream_id, gid, versions), w2)"
    by (auto simp: outer_def split: prod.splits)
  from preflight_image [OF this] have img: "image_id upstream_id" by blast
  from rest t obtain g s2 k s3 where run: "outer (run_stack H V C args g) s2 = (Inr k, s3)"
    and res: "(case k of (a, d, n) \<Rightarrow> ret_io \<lparr>qr_generated = g, qr_reference = qa_image args, qr_command = qa_command args, qr_port = qa_port args,
         qr_upstream_id = upstream_id, qr_docker_gid = gid, qr_versions = versions,
         qr_rows = n, qr_allow = a, qr_deny = d,
         qr_commands = [compose_base g @ [''up'', ''-d'', ''--wait'', ''--pull'', ''never''], compose_base g @ [''down''],
           compose_base g @ [''down'', ''--volumes'']]\<rparr>) s3 = (Inr res, s')"
    by (auto elim!: bind_io_InrE)
  obtain a d n where k: "k = (a, d, n)" by (cases k)
  from res k have "s' = s3" by simp
  with run k have "run_stack H V C args g (snd s2) = (Inr (a, d, n), snd s')"
    by (auto simp: outer_def split: prod.splits)
  from stack_proved [OF this] img validate_args_Inr [OF v] res k show ?thesis by auto
qed

text \<open>
  The logs are read before the stack is taken down, under the same deadline: when reading
  them takes all of it, the stack is left running, and the run only warns.
\<close>

definition slow_logs :: "nat stack_host" where
  "slow_logs =
     \<lparr>sh_remaining = (\<lambda>n. (Some 10, n)), sh_cleanup_remaining = (\<lambda>n. (if n < 3 then Some 60 else None, n)),
      sh_docker = (\<lambda>argv n. (Inr (if n = 2 then TimedOut else if n = 1 then Exited 1 [] [] else Exited 0 [] []), n + 1)),
      sh_ready = ret_io 200, sh_initialize = ret_io (), sh_tools = ret_io [], sh_call = (\<lambda>t a. ret_io (Reply True 0)),
      sh_export = ret_io [], sh_decision = (\<lambda>v. ret_io JNull), sh_validate = (\<lambda>v. Inl TypeError)\<rparr>"

theorem slow_logs_leave_stack_running:
  "\<exists>e w. run_stack slow_logs V C args g ([], 0) =
     (Inl e, ([config_command g, up_command g 10, logs_command g], w))"
  by (simp add: run_stack_def slow_logs_def bind_io_def remaining_def guarded_def run_command_def try_docker_def
      start_and_prove_def cleanup_def ignoring_def fails_def config_command_def logs_command_def)

section \<open>Concrete stacks\<close>

definition sample_generated :: generated where
  "sample_generated =
     \<lparr>ge_root = ''/d'', ge_env = ''/d/.env'', ge_compose = ''/d/c.yml'', ge_credentials = ''/d/credentials.env'',
      ge_namespace = ''portunus-1'', ge_admin_key = ''a'', ge_client_key = ''b''\<rparr>"

definition sample_call :: quickstart_args where
  "sample_call =
     \<lparr>qa_image = ''tool:1'', qa_tool = ''echo'', qa_arguments = JObj [], qa_command = [], qa_port = 8000, qa_output = ''/d''\<rparr>"

definition call_row :: "int \<Rightarrow> string \<Rightarrow> event_type \<Rightarrow> string \<Rightarrow> audit_row" where
  "call_row seq prev event tool = sample_row\<lparr>a_seq := seq, a_prev_hash := prev, a_identity_id := ''quickstart-client'',
     a_server_id := Some ''default'', a_tool_name := Some tool, a_event_type := event_value event,
     a_payload := payload_fields event ''quickstart-client'' (Some ''default'') (Some tool) 1 ''k''\<rparr>"

definition proof_codec :: codec where
  "proof_codec = (sample_codec JNull JNull)\<lparr>cd_loads := \<lambda>s.
     if s = ''m'' then Some (JObj (manifest (Some 1) (Some 2) 2 True ''now'' [(''k'', ''pub'')]))
     else if s = ''a'' then Some (sample_line (call_row 1 genesis_hash EV_ALLOW ''echo''))
     else Some (sample_line (call_row 2 ''h'' EV_DENY_RBAC denied_tool))\<rparr>"

definition denial :: json where
  "denial = JObj [(''event_type'', JStr ''DENY_RBAC'')]"

definition outcome_decision :: "decision_outcome \<Rightarrow> event_type \<Rightarrow> decision" where
  "outcome_decision outcome event =
     \<lparr>d_decision = outcome, d_event_type = event, d_mode = ENFORCE, d_reason = ''r'', d_matched_rules = [], d_risk_score = None,
      d_risk_factors = None, d_policy_version = 1, d_audit_id = None, d_approval_id = None, d_challenge_id = None,
      d_alternative = None\<rparr>"

definition good_stack :: "unit stack_host" where
  "good_stack =
     \<lparr>sh_remaining = (\<lambda>w. (Some 10, w)), sh_cleanup_remaining = (\<lambda>w. (Some 60, w)),
      sh_docker = (\<lambda>argv. ret_io (Exited 0 [] [])), sh_ready = ret_io 200, sh_initialize = ret_io (), sh_tools = ret_io [''echo''],
      sh_call = (\<lambda>t a. ret_io (if t = ''echo'' then Reply False 1 else ToolError denial)),
      sh_export = ret_io [''m'', ''a'', ''d''], sh_decision = (\<lambda>v. ret_io (if v = JInt 1 then JObj [] else denial)),
      sh_validate = (\<lambda>v. Inr (if v = denial then outcome_decision O_DENY EV_DENY_RBAC else outcome_decision O_ALLOW EV_ALLOW))\<rparr>"

lemma good_file: "verify_file sample_env proof_codec [''m'', ''a'', ''d''] = Inr (2, True)"
  by code_simp

lemma good_prove: "prove good_stack sample_env proof_codec ''echo'' (JObj []) () =
  (Inr (outcome_decision O_ALLOW EV_ALLOW, outcome_decision O_DENY EV_DENY_RBAC, 2), ())"
  by code_simp

lemma good_run: "run_stack good_stack sample_env proof_codec sample_call sample_generated ([], ()) =
  (Inr (outcome_decision O_ALLOW EV_ALLOW, outcome_decision O_DENY EV_DENY_RBAC, 2),
    ([config_command sample_generated, up_command sample_generated 10], ()))"
  using good_prove
  by (simp add: run_stack_def good_stack_def bind_io_def remaining_def guarded_def run_command_def try_docker_def
      start_and_prove_def wait_ready_def outer_def sample_call_def config_command_def)

definition failing_stack :: "unit stack_host" where
  "failing_stack = good_stack\<lparr>sh_ready := ret_io 503\<rparr>"

lemma failing_run: "\<exists>e. run_stack failing_stack sample_env proof_codec sample_call sample_generated ([], ()) =
  (Inl e, ([config_command sample_generated, up_command sample_generated 10, logs_command sample_generated,
     down_command sample_generated], ()))"
  by (simp add: run_stack_def failing_stack_def good_stack_def bind_io_def remaining_def guarded_def run_command_def try_docker_def
      start_and_prove_def wait_ready_def outer_def config_command_def cleanup_def ignoring_def fails_def
      logs_command_def down_command_def)

theorem failed_quickstart_stops_stack_witness:
  "\<exists>e cmds' w up. run_stack failing_stack sample_env proof_codec sample_call sample_generated ([], ()) = (Inl e, cmds', w) \<and>
     (cmds' \<in> {[], [config_command sample_generated]} \<or>
       cmds' = [config_command sample_generated] @ up @ [logs_command sample_generated, down_command sample_generated])"
proof -
  have clean: "cleanup_runs failing_stack sample_generated"
    by (simp add: cleanup_runs_def failing_stack_def good_stack_def)
  from failing_run obtain e cmds' where run:
    "run_stack failing_stack sample_env proof_codec sample_call sample_generated ([], ()) = (Inl e, (cmds', ()))" by blast
  from failed_quickstart_stops_stack [OF run clean] run show ?thesis by auto
qed

theorem successful_stack_is_proved_witness:
  "\<exists>w. proved good_stack sample_env proof_codec ''echo'' (JObj []) w 2 (outcome_decision O_ALLOW EV_ALLOW)
     (outcome_decision O_DENY EV_DENY_RBAC) ()"
  using successful_stack_is_proved [OF good_run] by (simp add: sample_call_def)

end
