(* ===== verification/QuickstartSound.thy ===== *)
theory QuickstartSound
  imports QuickstartFiles
begin

text \<open>
  What quickstart generates passes the doctor's checks of files: \<open>generate\<close> of
  QuickstartFiles succeeds without faults, and leaves what \<open>discover\<close>, \<open>locations\<close> and
  \<open>sound_keys\<close> of the doctor ask for.
\<close>

section \<open>A generated deployment is sound\<close>

lemma below_node:
  assumes "below base d q = Some nd" and "\<forall>t. nd_kind nd \<noteq> Symlink t"
  shows "follow d (under base q) = Some (under base q, nd)" and "\<not> is_symlink d (under base q)"
    and "child d (under base q) name = under base (q @ ''/'' @ name)"
  using assms follow_here [of d "under base q" nd]
  by (cases "nd_kind nd"; simp add: below_def is_symlink_def child_def under_def)+

lemma below_file:
  assumes "below base d q = Some (made_file E content mode)"
  shows "sound_file d (under base q) mode (Some (de_user (qe_host E)))" and "content_of d (under base q) = Inr content"
    and "exists_path d (under base q)"
  using below_node [OF assms] assms
  by (simp_all add: sound_file_def is_file_def mode_of_def owner_of_def content_of_def exists_path_def stat_of_def made_file_def)

lemma below_directory:
  assumes "below base d q = Some (made_directory E 0x1C0)"
  shows "sound_directory d (under base q) (Some (de_user (qe_host E)))"
  using below_node [OF assms]
  by (simp add: sound_directory_def is_dir_def mode_of_def owner_of_def stat_of_def made_directory_def)

lemma below_missing: "below base d q = None \<Longrightarrow> \<not> exists_path d (under base q)"
  by (simp add: below_def exists_path_def stat_of_def follow_def numeral_eq_Suc)

lemma env_entries_plain:
  "distinct (map fst (env_entries E base port gid)) \<and> (\<forall>(name, v) \<in> set (env_entries E base port gid). env_name name)"
proof -
  have "map fst (env_entries E base port gid) =
    [''QUICKSTART_NAMESPACE'', ''GATEWAY_IMAGE'', ''POSTGRES_IMAGE'', ''REDIS_IMAGE'', ''POSTGRES_PASSWORD'', ''REDIS_PASSWORD'',
     ''CONFIG_DIR'', ''SECRETS_DIR'', ''HOST_UID'', ''HOST_GID'', ''DOCKER_GID'', ''GATEWAY_PORT''] @ map fst env_defaults"
    by (simp add: env_entries_def Let_def)
  moreover have "distinct (\<dots>)" "list_all env_name (\<dots>)" by code_simp+
  ultimately have "distinct (map fst (env_entries E base port gid))" "list_all env_name (map fst (env_entries E base port gid))" by simp_all
  then show ?thesis by (auto simp: list_all_iff)
qed

lemma env_entries_lookup:
  "map_of (env_entries E base port gid) ''CONFIG_DIR'' = Some (under base ''config'')"
  "map_of (env_entries E base port gid) ''SECRETS_DIR'' = Some (under base ''secrets'')"
  "map_of (env_entries E base port gid) ''HOST_UID'' = Some (int_str (fst (de_user (qe_host E))))"
  "map_of (env_entries E base port gid) ''HOST_GID'' = Some (int_str (snd (de_user (qe_host E))))"
  "map_of (env_entries E base port gid) ''QUICKSTART_NAMESPACE'' = Some (quickstart_namespace E)"
  by (simp_all add: env_entries_def Let_def)

text \<open>The names of the public keys in the archive.\<close>

lemma archived_names:
  assumes "below base d = map_of (deployment_files E policy env credentials name)" and "n \<in> set (public_names d (under base ''secrets/public''))"
  shows "n = name"
proof -
  have "below base d ''secrets/public'' = Some (made_directory E 0x1C0)" using assms(1) by (simp add: deployment_files_def Let_def)
  from below_node(1) [OF this] have "follow d (under base ''secrets/public'') = Some (under base ''secrets/public'', made_directory E 0x1C0)"
    by (simp add: made_directory_def)
  with assms(2) obtain p where p: "p \<in> fst ` set d" "name_in (under base ''secrets/public'') p = Some n" "suffix ''.pub.pem'' n"
    by (fastforce simp: public_names_def List.map_filter_def)
  then have "p = under base (''secrets/public/'' @ n)"
    by (auto simp: name_in_def Let_def under_def prefix_def split: if_splits)
  moreover have "map_of d p \<noteq> None" using p(1) by (simp add: map_of_eq_None_iff)
  ultimately have "map_of (deployment_files E policy env credentials name) (''secrets/public/'' @ n) \<noteq> None"
    using assms(1) by (metis below_def)
  then show ?thesis by (auto simp: deployment_files_def Let_def split: if_splits)
qed

lemma generated_keys_sound:
  assumes "below base d = map_of (deployment_files E policy env credentials name)" and "public_path i = Inr name"
    and "de_private_id (qe_host E) (de_fresh_key (qe_host E)) = Inr i" and "de_private_p256 (qe_host E) (de_fresh_key (qe_host E))"
    and "de_public_id (qe_host E) (de_public_pem (qe_host E) (de_fresh_key (qe_host E))) = Inr i"
    and "de_public_p256 (qe_host E) (de_public_pem (qe_host E) (de_fresh_key (qe_host E)))" and "lower_hex_64 (key_digest i)"
  shows "sound_keys (qe_host E) d (under base ''secrets'') (de_user (qe_host E))"
proof -
  let ?H = "qe_host E" and ?q = "under base ''secrets/public''"
  have parts: "below base d ''secrets'' = Some (made_directory E 0x1C0)" "below base d ''secrets/public'' = Some (made_directory E 0x1C0)"
    "below base d ''secrets/audit_signing_key.pem'' = Some (made_file E (de_fresh_key ?H) mode_0600)"
    "below base d (''secrets/public/'' @ name) = Some (made_file E (de_public_pem ?H (de_fresh_key ?H)) mode_0444)"
    unfolding assms(1) by (simp_all add: deployment_files_def Let_def)
  have dirs: "\<forall>t. nd_kind (made_directory E 0x1C0) \<noteq> Symlink t" by (simp add: made_directory_def)
  have paths: "child d (under base ''secrets'') ''audit_signing_key.pem'' = under base ''secrets/audit_signing_key.pem''"
    "child d (under base ''secrets'') ''public'' = ?q" "child d ?q name = under base (''secrets/public/'' @ name)"
    using below_node(3) [OF parts(1) dirs] below_node(3) [OF parts(2) dirs] by simp_all
  have digest: "name = key_digest i @ ''.pub.pem''"
  proof -
    from assms(2) have i: "CHR '':'' \<in> set i" "takeWhile (\<lambda>c. c \<noteq> CHR '':'') i = ''sha256''" and name: "name = drop 7 i @ ''.pub.pem''"
      by (auto simp: public_path_def partition_colon_def Let_def numeral_eq_Suc split: if_splits prod.splits)
    have "\<exists>rest. dropWhile (\<lambda>c. c \<noteq> x) i = x # rest" if "x \<in> set i" for x
      using that by (induction i) auto
    with i(1) obtain rest where "dropWhile (\<lambda>c. c \<noteq> CHR '':'') i = CHR '':'' # rest" by blast
    then have "i = ''sha256:'' @ rest" using takeWhile_dropWhile_id [of "\<lambda>c. c \<noteq> CHR '':''" i] i(2) by simp
    then have "prefix ''sha256:'' i" by simp
    with name show ?thesis by (simp add: key_digest_def)
  qed
  have "public_key_valid ?H d (child d ?q name) name"
    unfolding paths(3) using below_file(2) [OF parts(4)] assms(5-7) digest by (simp add: public_key_valid_def)
  moreover have "load_private_key ?H d (under base ''secrets/audit_signing_key.pem'') = Some (de_fresh_key ?H, i)"
    using below_file(2) [OF parts(3)] assms(3,4) by (simp add: load_private_key_def)
  ultimately show ?thesis
    unfolding sound_keys_def Let_def paths(1,2)
    using below_file [OF parts(3)] below_file [OF parts(4)] assms(2) paths(3) archived_names [OF assms(1)] by fastforce
qed

section \<open>Without faults, generate succeeds\<close>

abbreviation returns :: "('d machine, unit) io \<Rightarrow> 'd machine \<Rightarrow> bool" where
  "returns m M \<equiv> \<exists>M'. m M = (Inr (), M') \<and> mc_faults M' = []"

lemma effect_returns: "mc_faults M = [] \<Longrightarrow> returns (effect f) M"
  by (simp add: effect_def Let_def)

lemma bind_returns:
  assumes "returns m M" and "\<And>M'. m M = (Inr (), M') \<Longrightarrow> mc_faults M' = [] \<Longrightarrow> returns (f ()) M'"
  shows "returns (bind_io m f) M"
  using assms by (auto simp: bind_io_def)

lemma plain_dir: "map_of d p = Some nd \<Longrightarrow> nd_kind nd = Directory \<Longrightarrow> is_dir d p \<and> exists_path d p"
  using follow_here [of d p nd] by (simp add: is_dir_def exists_path_def stat_of_def)

lemma new_directory_returns:
  "mc_faults M = [] \<Longrightarrow> map_of (mc_disk M) p = None \<Longrightarrow> has_parent (mc_disk M) p \<Longrightarrow> returns (new_directory H p) M"
  using effect_returns [of M] by (simp add: new_directory_def bind_io_def)

lemma write_new_returns:
  assumes "mc_faults M = []" and "map_of (mc_disk M) p = None" and "has_parent (mc_disk M) p"
  shows "returns (write_new H p content mode) M"
  unfolding write_new_def
  using assms effect_returns [of M] by (intro bind_returns effect_returns) (simp_all add: create_new_def bind_io_def)

lemma do_chmod_returns:
  "mc_faults M = [] \<Longrightarrow> map_of (mc_disk M) p = Some nd \<Longrightarrow> \<forall>t. nd_kind nd \<noteq> Symlink t \<Longrightarrow> returns (do_chmod p m) M"
  using effect_returns [of M] follow_here [of "mc_disk M" p nd]
  by (simp add: do_chmod_def bind_io_def exists_path_def stat_of_def)

lemma make_directories_there:
  "\<forall>p \<in> set ps. map_of (mc_disk M) p \<noteq> None \<and> is_dir (mc_disk M) p \<Longrightarrow> make_directories H ps M = (Inr (), M)"
  by (induction ps) (auto simp: make_directory_def bind_io_def)

lemma make_directories_append:
  "make_directories H (ps @ qs) = bind_io (make_directories H ps) (\<lambda>_. make_directories H qs)"
  by (induction ps) (auto simp: fun_eq_iff bind_io_def split: prod.splits sum.splits)

lemma publish_key_returns:
  assumes "mc_faults M = []" and "de_private_id H pem = Inr i" and "public_path i = Inr name"
    and "map_of (mc_disk M) dir = Some nd" and "nd_kind nd = Directory" and "\<And>name. map_of (mc_disk M) (under dir name) = None"
    and "has_parent (mc_disk M) (under dir name)"
  shows "returns (publish_key H pem dir) M"
proof -
  let ?p = "under dir name"
  have here: "follow (mc_disk M) dir = Some (dir, nd)" using assms(4,5) by (intro follow_here) simp_all
  have missing: "\<not> exists_path (mc_disk M) ?p"
    using assms(6) by (simp add: exists_path_def stat_of_def follow_def numeral_eq_Suc)
  have "publish_key H pem dir M =
      bind_io (create_new H ?p 0x1B6) (\<lambda>_. bind_io (effect (fill_tree ?p (de_public_pem H pem))) (\<lambda>_. do_chmod ?p mode_0444)) M"
    using missing by (simp add: publish_key_def bind_io_def assms(2,3) child_def here)
  also have "\<dots> = bind_io (write_new H ?p (de_public_pem H pem) 0x1B6) (\<lambda>_. do_chmod ?p mode_0444) M"
    by (auto simp: write_new_def bind_io_def split: prod.splits sum.splits)
  finally have eq: "publish_key H pem dir M = bind_io (write_new H ?p (de_public_pem H pem) 0x1B6) (\<lambda>_. do_chmod ?p mode_0444) M" .
  have "returns (bind_io (write_new H ?p (de_public_pem H pem) 0x1B6) (\<lambda>_. do_chmod ?p mode_0444)) M"
  proof (rule bind_returns)
    fix M1
    assume one: "write_new H ?p (de_public_pem H pem) 0x1B6 M = (Inr (), M1)" "mc_faults M1 = []"
    show "returns (do_chmod ?p mode_0444) M1"
      by (rule do_chmod_returns [OF one(2)], simp add: write_new_Inr [OF one(1)], simp)
  qed (rule write_new_returns [OF assms(1,6,7)])
  with eq show ?thesis by simp
qed

text \<open>The parents a fresh directory has, and what the steps so far have left.\<close>

definition parents_plain :: "string \<Rightarrow> tree \<Rightarrow> bool" where
  "parents_plain base d \<longleftrightarrow> (\<forall>p \<in> set (above base). \<exists>nd. map_of d p = Some nd \<and> nd_kind nd = Directory)"

definition started :: "string list \<Rightarrow> (string \<rightharpoonup> node) \<Rightarrow> tree machine \<Rightarrow> bool" where
  "started ws files M \<longleftrightarrow> mc_faults M = [] \<and> parents_plain (slash_path ws) (mc_disk M) \<and>
     base_ok (slash_path ws) (mc_disk M) \<and> below (slash_path ws) (mc_disk M) = files"

lemma above_not_base:
  assumes "\<forall>w \<in> set ws. plain_name w" and "p \<in> set (above (slash_path ws))"
  shows "p \<noteq> slash_path ws" and "p \<noteq> under (slash_path ws) q"
proof -
  from assms obtain n where n: "n < length ws" "p = slash_path (take n ws)" by (auto simp: above_slash_path)
  have "slash_path ws = slash_path (take n ws) @ slash_path (drop n ws)"
    unfolding slash_path_def by (metis append_take_drop_id concat_append map_append)
  moreover have "slash_path (drop n ws) \<noteq> []" using n(1) by (cases "drop n ws") (simp_all add: slash_path_def)
  ultimately have "length p < length (slash_path ws)" using n(2) by simp
  then show "p \<noteq> slash_path ws" "p \<noteq> under (slash_path ws) q" by (auto simp: under_def)
qed

lemma started_put:
  assumes "started ws files M" and "\<forall>w \<in> set ws. plain_name w" and "mc_faults M' = []"
    and "map_of (mc_disk M') = (map_of (mc_disk M))(under (slash_path ws) q \<mapsto> nd)"
  shows "started ws (files(q \<mapsto> nd)) M'"
  using assms above_not_base [OF assms(2)] below_put [OF assms(4)]
  unfolding started_def parents_plain_def base_ok_def by force

text \<open>The directory of a path below, one or two levels down.\<close>

lemma parent_one:
  assumes "started ws files M" and "\<forall>w \<in> set ws. plain_name w" and "ws \<noteq> []" and "plain_name n"
  shows "has_parent (mc_disk M) (under (slash_path ws) n)"
  using assms plain_dir by (auto simp: has_parent_def above_under started_def base_ok_def)

lemma parent_two:
  assumes "started ws files M" and "\<forall>w \<in> set ws. plain_name w" and "plain_name m" and "plain_name n"
    and "files m = Some nd" and "nd_kind nd = Directory"
  shows "has_parent (mc_disk M) (under (slash_path ws) (m @ ''/'' @ n))"
proof -
  have "under (slash_path ws) (m @ ''/'' @ n) = under (slash_path (ws @ [m])) n" "slash_path (ws @ [m]) = under (slash_path ws) m"
    by (simp_all add: under_def slash_path_def)
  moreover have "is_dir (mc_disk M) (under (slash_path ws) m)"
    using assms(1,5,6) plain_dir by (auto simp: started_def below_def fun_eq_iff)
  ultimately show ?thesis using above_under [of "ws @ [m]" n] assms(2-4) by (simp add: has_parent_def)
qed

lemma parent_three:
  assumes "started ws files M" and "\<forall>w \<in> set ws. plain_name w" and "plain_name l" and "plain_name m" and "plain_name n"
    and "files (l @ ''/'' @ m) = Some nd" and "nd_kind nd = Directory"
  shows "has_parent (mc_disk M) (under (slash_path ws) (l @ ''/'' @ m @ ''/'' @ n))"
proof -
  have "under (slash_path ws) (l @ ''/'' @ m @ ''/'' @ n) = under (slash_path (ws @ [l, m])) n"
    "slash_path (ws @ [l, m]) = under (slash_path ws) (l @ ''/'' @ m)"
    by (simp_all add: under_def slash_path_def)
  moreover have "is_dir (mc_disk M) (under (slash_path ws) (l @ ''/'' @ m))"
    using assms(1,6,7) plain_dir by (auto simp: started_def below_def fun_eq_iff)
  ultimately show ?thesis using above_under [of "ws @ [l, m]" n] assms(2-5) by (simp add: has_parent_def)
qed

lemma make_base_returns:
  assumes "mc_faults M = []" and "parents_plain base (mc_disk M)" and "map_of (mc_disk M) base = None \<or> is_dir (mc_disk M) base"
  shows "returns (make_directories H (above base @ [base])) M"
proof -
  have "make_directories H (above base) M = (Inr (), M)"
    using assms(2) plain_dir by (intro make_directories_there) (fastforce simp: parents_plain_def)
  then show ?thesis
    using assms(1,3) by (auto simp: make_directories_append bind_io_def make_directory_def effect_def Let_def)
qed

lemma directory_step:
  assumes "started ws files M" and "\<forall>w \<in> set ws. plain_name w" and "files q = None" and "has_parent (mc_disk M) (under (slash_path ws) q)"
  obtains M' where "new_directory H (under (slash_path ws) q) M = (Inr (), M')" and "started ws (files(q \<mapsto> directory_node H 0x1C0)) M'"
proof -
  have "mc_faults M = []" "map_of (mc_disk M) (under (slash_path ws) q) = None"
    using assms(1,3) by (auto simp: started_def below_def fun_eq_iff)
  from new_directory_returns [OF this assms(4), of H] obtain M' where
    new: "new_directory H (under (slash_path ws) q) M = (Inr (), M')" "mc_faults M' = []" by blast
  from started_put [OF assms(1,2) new(2) conjunct2 [OF new_directory_Inr [OF new(1)]]] new(1) that show thesis by blast
qed

lemma file_step:
  assumes "started ws files M" and "\<forall>w \<in> set ws. plain_name w" and "files q = None" and "has_parent (mc_disk M) (under (slash_path ws) q)"
  obtains M' where "write_new H (under (slash_path ws) q) content mode M = (Inr (), M')"
    and "started ws (files(q \<mapsto> \<lparr>nd_kind = Regular content, nd_mode = de_umask H mode, nd_owner = de_user H\<rparr>)) M'"
proof -
  have "mc_faults M = []" "map_of (mc_disk M) (under (slash_path ws) q) = None"
    using assms(1,3) by (auto simp: started_def below_def fun_eq_iff)
  from write_new_returns [OF this assms(4), of H content mode] obtain M' where
    new: "write_new H (under (slash_path ws) q) content mode M = (Inr (), M')" "mc_faults M' = []" by blast
  from started_put [OF assms(1,2) new(2) write_new_Inr [OF new(1)]] new(1) that show thesis by blast
qed

lemma chmod_step:
  assumes "started ws files M" and "\<forall>w \<in> set ws. plain_name w" and "files q = Some nd" and "\<forall>t. nd_kind nd \<noteq> Symlink t"
  obtains M' where "do_chmod (under (slash_path ws) q) mode M = (Inr (), M')" and "started ws (files(q \<mapsto> nd\<lparr>nd_mode := mode\<rparr>)) M'"
proof -
  have m: "mc_faults M = []" "map_of (mc_disk M) (under (slash_path ws) q) = Some nd"
    using assms(1,3) by (auto simp: started_def below_def fun_eq_iff)
  from do_chmod_returns [OF m assms(4), of mode] obtain M' where
    new: "do_chmod (under (slash_path ws) q) mode M = (Inr (), M')" "mc_faults M' = []" by blast
  from started_put [OF assms(1,2) new(2) do_chmod_Inr [OF new(1) m(2) assms(4)]] new(1) that show thesis by blast
qed

lemma plain_names [simp]:
  "plain_name ''config''" "plain_name ''revisions''" "plain_name ''secrets''" "plain_name ''public''" "plain_name ''.gitignore''"
  "plain_name ''policy.yaml''" "plain_name ''audit_signing_key.pem''" "plain_name ''compose.quickstart.yml''"
  "plain_name ''.env.quickstart''" "plain_name ''credentials.env''"
  by (simp_all add: plain_name_def)

lemma directories_return:
  assumes "fresh_base base (mc_disk M)" and "mc_faults M = []" and "parents_plain base (mc_disk M)"
    and "map_of (mc_disk M) base = None \<or> is_dir (mc_disk M) base" and "base = slash_path ws" and "ws \<noteq> []" and "\<forall>w \<in> set ws. plain_name w"
  obtains M' where "generate_directories H base M = (Inr (), M')" and "started ws
    [''config'' \<mapsto> directory_node H 0x1C0, ''config/revisions'' \<mapsto> directory_node H 0x1C0,
     ''secrets'' \<mapsto> directory_node H 0x1C0, ''secrets/public'' \<mapsto> directory_node H 0x1C0] M'"
proof -
  from make_base_returns [OF assms(2-4)] obtain M1 where
    one: "make_directories H (above base @ [base]) M = (Inr (), M1)" "mc_faults M1 = []" by blast
  from assms(1) have link: "\<not> is_symlink (mc_disk M) base" and free: "below base (mc_disk M) = (\<lambda>_. None)"
    by (auto simp: fresh_base_def below_def)
  from make_directories_Inr [OF one(1), of base] link obtain nd where nd: "map_of (mc_disk M1) base = Some nd" "nd_kind nd = Directory"
    by (cases "map_of (mc_disk M) base") (auto simp: directory_node_def)
  from do_chmod_returns [OF one(2) nd(1)] nd(2) obtain M2 where
    two: "do_chmod base 0x1C0 M1 = (Inr (), M2)" "mc_faults M2 = []" by (metis kind.distinct(7))
  from do_chmod_Inr [OF two(1) nd(1)] nd(2)
  have m2: "map_of (mc_disk M2) = (map_of (mc_disk M1))(base \<mapsto> nd\<lparr>nd_mode := 0x1C0\<rparr>)" by simp
  have "parents_plain base (mc_disk M2)"
    unfolding parents_plain_def
  proof
    fix p
    assume p: "p \<in> set (above base)"
    with assms(3) obtain pn where "map_of (mc_disk M) p = Some pn" "nd_kind pn = Directory" by (auto simp: parents_plain_def)
    with make_directories_Inr [OF one(1), of p] above_not_base(1) [OF assms(7)] p assms(5) m2
    show "\<exists>nd. map_of (mc_disk M2) p = Some nd \<and> nd_kind nd = Directory" by auto
  qed
  moreover have "below base (mc_disk M1) = (\<lambda>_. None)"
    using make_below [OF one(1) assms(7,5)] free by auto
  ultimately have s2: "started ws (\<lambda>_. None) M2"
    using two(2) m2 nd(2) assms(5) by (simp add: started_def base_ok_def below_def fun_eq_iff)
  note plain = assms(7) and nonempty = assms(6)
  obtain M3 where three: "new_directory H (under base ''config'') M2 = (Inr (), M3)"
    and s3: "started ws [''config'' \<mapsto> directory_node H 0x1C0] M3"
    by (rule directory_step [OF s2 plain _ parent_one [OF s2 plain nonempty], of "''config''"]) (auto simp: assms(5))
  obtain M4 where four: "new_directory H (under base ''config/revisions'') M3 = (Inr (), M4)"
    and s4: "started ws [''config'' \<mapsto> directory_node H 0x1C0, ''config/revisions'' \<mapsto> directory_node H 0x1C0] M4"
    using directory_step [OF s3 plain _ parent_two [OF s3 plain, of "''config''" "''revisions''" "directory_node H 0x1C0"]]
    by (auto simp: assms(5) directory_node_def)
  obtain M5 where five: "new_directory H (under base ''secrets'') M4 = (Inr (), M5)"
    and s5: "started ws [''config'' \<mapsto> directory_node H 0x1C0, ''config/revisions'' \<mapsto> directory_node H 0x1C0,
      ''secrets'' \<mapsto> directory_node H 0x1C0] M5"
    by (rule directory_step [OF s4 plain _ parent_one [OF s4 plain nonempty], of "''secrets''"]) (auto simp: assms(5))
  obtain M6 where six: "new_directory H (under base ''secrets/public'') M5 = (Inr (), M6)"
    and s6: "started ws [''config'' \<mapsto> directory_node H 0x1C0, ''config/revisions'' \<mapsto> directory_node H 0x1C0,
      ''secrets'' \<mapsto> directory_node H 0x1C0, ''secrets/public'' \<mapsto> directory_node H 0x1C0] M6"
    using directory_step [OF s5 plain _ parent_two [OF s5 plain, of "''secrets''" "''public''" "directory_node H 0x1C0"]]
    by (auto simp: assms(5) directory_node_def)
  show thesis
    by (rule that [OF _ s6]) (simp add: generate_directories_def bind_io_def one two three four five six)
qed

text \<open>The directories the key store makes are there; their modes are set, the key is published.\<close>

lemma store_returns:
  assumes "started ws files M" and "\<forall>w \<in> set ws. plain_name w" and "ws \<noteq> []" and "base = slash_path ws"
    and "files ''secrets'' = Some secrets" and "nd_kind secrets = Directory"
    and "files ''secrets/public'' = Some public" and "nd_kind public = Directory"
    and "files ''secrets/audit_signing_key.pem'' = Some key" and "nd_kind key = Regular pem"
    and "de_private_id H pem = Inr i" and "public_path i = Inr name" and "plain_name name"
    and "\<And>n. files (''secrets/public/'' @ n) = None"
  shows "\<exists>M' files'. initialize_store H (under base ''secrets'') (under base ''secrets/audit_signing_key.pem'')
      (under base ''secrets/public'') M = (Inr (), M') \<and> started ws files' M' \<and>
    (\<forall>q. files q = None \<longrightarrow> \<not> prefix ''secrets/'' q \<longrightarrow> files' q = None)"
proof -
  let ?s = "under base ''secrets''" and ?p = "under base ''secrets/public''" and ?k = "under base ''secrets/audit_signing_key.pem''"
  have as: "above ?s = above base @ [base]" using above_under [OF assms(2) _ assms(3), of "''secrets''"] assms(4) by simp
  have ws: "?s = slash_path (ws @ [''secrets''])" and p: "?p = under ?s ''public''" using assms(4) by (simp_all add: under_def slash_path_def)
  have ap: "above ?p = above base @ [base, ?s]"
    using above_under [of "ws @ [''secrets'']" "''public''"] assms(2) as unfolding p ws by simp
  have there: "map_of (mc_disk M) q \<noteq> None \<and> is_dir (mc_disk M) q" if "q \<in> set (above base) \<union> {base, ?s, ?p}" for q
    using that assms(1,4-8) plain_dir by (auto simp: started_def parents_plain_def base_ok_def below_def fun_eq_iff)
  have one: "make_directories H (above ?s @ [?s]) M = (Inr (), M)" "make_directories H (above ?p @ [?p]) M = (Inr (), M)"
    by (rule make_directories_there; use as ap there in auto)+
  obtain M3 where c1: "do_chmod ?s 0x1C0 M = (Inr (), M3)" and s3: "started ws (files(''secrets'' \<mapsto> secrets\<lparr>nd_mode := 0x1C0\<rparr>)) M3"
    by (rule chmod_step [OF assms(1,2,5), where mode = "0x1C0"]) (auto simp: assms(4,6))
  have pub: "(files(''secrets'' \<mapsto> secrets\<lparr>nd_mode := 0x1C0\<rparr>)) ''secrets/public'' = Some public" using assms(7) by simp
  obtain M4 where c2: "do_chmod ?p 0x1C0 M3 = (Inr (), M4)"
    and s4: "started ws (files(''secrets'' \<mapsto> secrets\<lparr>nd_mode := 0x1C0\<rparr>, ''secrets/public'' \<mapsto> public\<lparr>nd_mode := 0x1C0\<rparr>)) M4"
    by (rule chmod_step [OF s3 assms(2) pub, where mode = "0x1C0"]) (auto simp: assms(4,8))
  have key: "(files(''secrets'' \<mapsto> secrets\<lparr>nd_mode := 0x1C0\<rparr>, ''secrets/public'' \<mapsto> public\<lparr>nd_mode := 0x1C0\<rparr>))
      ''secrets/audit_signing_key.pem'' = Some key" using assms(9) by simp
  let ?files = "files(''secrets'' \<mapsto> secrets\<lparr>nd_mode := 0x1C0\<rparr>, ''secrets/public'' \<mapsto> public\<lparr>nd_mode := 0x1C0\<rparr>,
      ''secrets/audit_signing_key.pem'' \<mapsto> key\<lparr>nd_mode := mode_0600\<rparr>)"
  obtain M5 where c3: "do_chmod ?k mode_0600 M4 = (Inr (), M5)" and s5: "started ws ?files M5"
    by (rule chmod_step [OF s4 assms(2) key, where mode = mode_0600]) (auto simp: assms(4,10))
  have disk: "map_of (mc_disk M5) (under base q) = ?files q" for q
    using s5 assms(4) by (simp add: started_def below_def fun_eq_iff)
  have "follow (mc_disk M5) ?k = Some (?k, key\<lparr>nd_mode := mode_0600\<rparr>)" using assms(10) by (intro follow_here) (simp_all add: disk)
  then have pem: "content_of (mc_disk M5) ?k = Inr pem" using assms(10) by (simp add: content_of_def stat_of_def)
  have pu: "under ?p n = under base (''secrets/public/'' @ n)" for n by (simp add: under_def)
  have faults: "mc_faults M5 = []" using s5 by (simp add: started_def)
  have parent: "has_parent (mc_disk M5) (under ?p name)"
    unfolding pu unfolding assms(4)
    using parent_three [OF s5 assms(2), of "''secrets''" "''public''" name] assms(8,13) by simp
  have "returns (publish_key H pem ?p) M5"
    by (rule publish_key_returns [OF faults assms(11,12) _ _ _ parent, of "public\<lparr>nd_mode := 0x1C0\<rparr>"])
      (simp_all add: disk pu assms(8) assms(14) [simplified])
  then obtain M6 where c4: "publish_key H pem ?p M5 = (Inr (), M6)" "mc_faults M6 = []" by blast
  have here: "follow (mc_disk M5) ?p = Some (?p, public\<lparr>nd_mode := 0x1C0\<rparr>)" using assms(8) by (intro follow_here) (simp_all add: disk)
  obtain name' where put: "map_of (mc_disk M6) = (map_of (mc_disk M5))(under ?p name' \<mapsto>
      \<lparr>nd_kind = Regular (de_public_pem H pem), nd_mode = mode_0444, nd_owner = de_user H\<rparr>)"
    by (rule publish_key_Inr [OF c4(1) assms(11) here]) (simp_all add: disk pu assms(14) [simplified])
  from started_put [OF s5 assms(2) c4(2) put [unfolded pu, unfolded assms(4)]]
  have "started ws (?files(''secrets/public/'' @ name' \<mapsto>
      \<lparr>nd_kind = Regular (de_public_pem H pem), nd_mode = mode_0444, nd_owner = de_user H\<rparr>)) M6" .
  moreover have "initialize_store H ?s ?k ?p M = (Inr (), M6)"
    by (simp add: initialize_store_def bind_io_def one c1 c2 c3 pem c4)
  ultimately show ?thesis using assms(5) by (intro exI conjI) auto
qed

lemma file_returns:
  assumes "started ws files M" and "\<forall>w \<in> set ws. plain_name w" and "files q = None" and "has_parent (mc_disk M) (under (slash_path ws) q)"
  shows "\<exists>M' nd. write_new H (under (slash_path ws) q) content mode M = (Inr (), M') \<and> started ws (files(q \<mapsto> nd)) M' \<and>
    nd_kind nd = Regular content"
proof -
  obtain M' where "write_new H (under (slash_path ws) q) content mode M = (Inr (), M')"
    "started ws (files(q \<mapsto> \<lparr>nd_kind = Regular content, nd_mode = de_umask H mode, nd_owner = de_user H\<rparr>)) M'"
    by (rule file_step [OF assms])
  then show ?thesis by (intro exI conjI) (assumption, assumption, simp)
qed

lemma secrets_return:
  assumes "started ws [''config'' \<mapsto> dn, ''config/revisions'' \<mapsto> dn, ''secrets'' \<mapsto> dn, ''secrets/public'' \<mapsto> dn] M"
    and "\<forall>w \<in> set ws. plain_name w" and "ws \<noteq> []" and "base = slash_path ws" and "nd_kind dn = Directory"
    and "de_private_id (qe_host E) (de_fresh_key (qe_host E)) = Inr i" and "public_path i = Inr name" and "plain_name name"
  shows "\<exists>M' files'. generate_secrets E base policy M = (Inr (), M') \<and> started ws files' M' \<and>
    files' ''compose.quickstart.yml'' = None \<and> files' ''.env.quickstart'' = None \<and> files' ''credentials.env'' = None"
proof -
  let ?H = "qe_host E"
  let ?dirs = "[''config'' \<mapsto> dn, ''config/revisions'' \<mapsto> dn, ''secrets'' \<mapsto> dn, ''secrets/public'' \<mapsto> dn]"
  let ?base = "slash_path ws"
  from file_returns [OF assms(1,2) _ parent_one [OF assms(1-3)], of "''.gitignore''" ?H "''*'' @ [CHR 0x0A] @ ''!.gitignore'' @ [CHR 0x0A]" "0x1A4"]
  obtain M1 nd1 where one: "write_new ?H (under ?base ''.gitignore'') (''*'' @ [CHR 0x0A] @ ''!.gitignore'' @ [CHR 0x0A]) 0x1A4 M = (Inr (), M1)"
    and s1: "started ws (?dirs(''.gitignore'' \<mapsto> nd1)) M1" by auto
  have parent: "has_parent (mc_disk M1) (under ?base ''config/policy.yaml'')"
    using parent_two [OF s1 assms(2), of "''config''" "''policy.yaml''" dn] assms(5) by simp
  from file_returns [OF s1 assms(2) _ parent, of ?H policy mode_0600]
  obtain M2 nd2 where two: "write_new ?H (under ?base ''config/policy.yaml'') policy mode_0600 M1 = (Inr (), M2)"
    and s2: "started ws (?dirs(''.gitignore'' \<mapsto> nd1, ''config/policy.yaml'' \<mapsto> nd2)) M2" by auto
  have parent: "has_parent (mc_disk M2) (under ?base ''secrets/audit_signing_key.pem'')"
    using parent_two [OF s2 assms(2), of "''secrets''" "''audit_signing_key.pem''" dn] assms(5) by simp
  from file_returns [OF s2 assms(2) _ parent, of ?H "de_fresh_key ?H" mode_0600]
  obtain M3 nd3 where three: "write_new ?H (under ?base ''secrets/audit_signing_key.pem'') (de_fresh_key ?H) mode_0600 M2 = (Inr (), M3)"
    and s3: "started ws (?dirs(''.gitignore'' \<mapsto> nd1, ''config/policy.yaml'' \<mapsto> nd2, ''secrets/audit_signing_key.pem'' \<mapsto> nd3)) M3"
    and nd3: "nd_kind nd3 = Regular (de_fresh_key ?H)" by auto
  let ?files = "?dirs(''.gitignore'' \<mapsto> nd1, ''config/policy.yaml'' \<mapsto> nd2, ''secrets/audit_signing_key.pem'' \<mapsto> nd3)"
  have parts: "?files ''secrets'' = Some dn" "?files ''secrets/public'' = Some dn" "?files ''secrets/audit_signing_key.pem'' = Some nd3"
    "\<And>n. ?files (''secrets/public/'' @ n) = None" by simp_all
  from store_returns [OF s3 assms(2-4) parts(1) assms(5) parts(2) assms(5) parts(3) nd3 assms(6-8) parts(4)]
  obtain M4 files' where four: "initialize_store ?H (under base ''secrets'') (under base ''secrets/audit_signing_key.pem'')
      (under base ''secrets/public'') M3 = (Inr (), M4)" and s4: "started ws files' M4"
    and free: "\<And>q. ?files q = None \<Longrightarrow> \<not> prefix ''secrets/'' q \<Longrightarrow> files' q = None" by blast
  have "generate_secrets E base policy M = (Inr (), M4)"
    unfolding generate_secrets_def Let_def bind_io_def using one two three four assms(4) by simp
  moreover have "files' ''compose.quickstart.yml'' = None" "files' ''.env.quickstart'' = None" "files' ''credentials.env'' = None"
    by (rule free; simp)+
  ultimately show ?thesis using s4 by blast
qed

lemma settings_return:
  assumes "started ws files M" and "\<forall>w \<in> set ws. plain_name w" and "ws \<noteq> []" and "base = slash_path ws"
    and "files ''compose.quickstart.yml'' = None" and "files ''.env.quickstart'' = None" and "files ''credentials.env'' = None"
    and "env_text (env_entries E base port gid) = Inr env"
  shows "\<exists>M'. generate_settings E base port gid admin_key client_key M = (Inr (), M')"
proof -
  let ?H = "qe_host E"
  let ?base = "slash_path ws"
  from file_returns [OF assms(1,2,5) parent_one [OF assms(1-3) plain_names(8)], of ?H "qe_compose E" "0x1A4"]
  obtain M1 nd1 where one: "write_new ?H (under ?base ''compose.quickstart.yml'') (qe_compose E) 0x1A4 M = (Inr (), M1)"
    and s1: "started ws (files(''compose.quickstart.yml'' \<mapsto> nd1)) M1" by blast
  have free: "(files(''compose.quickstart.yml'' \<mapsto> nd1)) ''.env.quickstart'' = None" using assms(6) by simp
  from file_returns [OF s1 assms(2) free parent_one [OF s1 assms(2,3) plain_names(9)], of ?H env mode_0600]
  obtain M2 nd2 where two: "write_new ?H (under ?base ''.env.quickstart'') env mode_0600 M1 = (Inr (), M2)"
    and s2: "started ws (files(''compose.quickstart.yml'' \<mapsto> nd1, ''.env.quickstart'' \<mapsto> nd2)) M2" by blast
  have free: "(files(''compose.quickstart.yml'' \<mapsto> nd1, ''.env.quickstart'' \<mapsto> nd2)) ''credentials.env'' = None" using assms(7) by simp
  from file_returns [OF s2 assms(2) free parent_one [OF s2 assms(2,3) plain_names(10)], of ?H "credentials_text port admin_key client_key" mode_0600]
  obtain M3 where three: "write_new ?H (under ?base ''credentials.env'') (credentials_text port admin_key client_key) mode_0600 M2 = (Inr (), M3)"
    by blast
  show ?thesis
    unfolding generate_settings_def Let_def bind_io_def using assms(4,8) one two three by simp
qed

lemma generate_returns:
  assumes "fresh_base base (mc_disk M)" and "mc_faults M = []" and "parents_plain base (mc_disk M)"
    and "map_of (mc_disk M) base = None \<or> is_dir (mc_disk M) base"
    and "mint_keys E = Inr (admin_key, client_key)" and "env_text (env_entries E base (qa_port args) gid) = Inr env"
    and "de_private_id (qe_host E) (de_fresh_key (qe_host E)) = Inr i" and "public_path i = Inr name" and "plain_name name"
  shows "\<exists>g M'. generate E base upstream_id args gid M = (Inr g, M')"
proof -
  let ?H = "qe_host E" and ?policy = "qe_yaml E (policy_data E upstream_id (qa_tool args) (qa_command args) admin_key client_key)"
  from assms(1) obtain ws where ws: "ws \<noteq> []" "base = slash_path ws" "\<forall>w \<in> set ws. plain_name w" by (auto simp: fresh_base_def)
  obtain M1 where one: "generate_directories ?H base M = (Inr (), M1)" and s1: "started ws
    [''config'' \<mapsto> directory_node ?H 0x1C0, ''config/revisions'' \<mapsto> directory_node ?H 0x1C0,
     ''secrets'' \<mapsto> directory_node ?H 0x1C0, ''secrets/public'' \<mapsto> directory_node ?H 0x1C0] M1"
    by (rule directories_return [OF assms(1-4) ws(2,1,3)])
  have dir: "nd_kind (directory_node ?H 0x1C0) = Directory" by (simp add: directory_node_def)
  obtain M2 files where two: "generate_secrets E base ?policy M1 = (Inr (), M2)" and s2: "started ws files M2"
    and free: "files ''compose.quickstart.yml'' = None" "files ''.env.quickstart'' = None" "files ''credentials.env'' = None"
    using secrets_return [OF s1 ws(3,1,2) dir assms(7-9), of ?policy] by blast
  obtain M3 where three: "generate_settings E base (qa_port args) gid admin_key client_key M2 = (Inr (), M3)"
    using settings_return [OF s2 ws(3,1,2) free assms(6)] by blast
  show ?thesis
    unfolding generate_def bind_io_def using one two three assms(5) by simp
qed

section \<open>Soundness\<close>

text \<open>
  What the signing-key functions of the cryptography package promise of a generated key:
  its fingerprint, the one of its public half, and the curve of both.
\<close>

definition key_laws :: "doctor_env \<Rightarrow> bool" where
  "key_laws H \<longleftrightarrow>
     (\<exists>i. image_id i \<and> de_private_id H (de_fresh_key H) = Inr i \<and> de_private_p256 H (de_fresh_key H) \<and>
        de_public_id H (de_public_pem H (de_fresh_key H)) = Inr i \<and> de_public_p256 H (de_public_pem H (de_fresh_key H)))"

text \<open>The host: a mask that leaves the owner's bits, and user ids of ten digits at most.\<close>

definition plain_host :: "doctor_env \<Rightarrow> bool" where
  "plain_host H \<longleftrightarrow>
     de_umask H 0x1C0 = 0x1C0 \<and> de_umask H mode_0600 = mode_0600 \<and>
     0 \<le> fst (de_user H) \<and> fst (de_user H) < 10 ^ 10 \<and> 0 \<le> snd (de_user H) \<and> snd (de_user H) < 10 ^ 10"

text \<open>The values of the environment file: no line breaks, and a fresh part of the namespace that fits.\<close>

definition plain_values :: "quickstart_env \<Rightarrow> string \<Rightarrow> int \<Rightarrow> string \<Rightarrow> bool" where
  "plain_values E base port gid \<longleftrightarrow>
     list_all (\<lambda>p. list_all (\<lambda>c. \<not> line_break c \<and> c \<noteq> CHR 0x00) (snd p)) (env_entries E base port gid) \<and>
     length (qe_hex E) \<le> 9 \<and> list_all namespace_char (qe_hex E)"

text \<open>What the doctor asks of the files of a deployment: the part of \<open>sound_deployment\<close> that docker has no say in.\<close>

definition sound_files :: "doctor_env \<Rightarrow> tree \<Rightarrow> layout \<Rightarrow> env_values \<Rightarrow> bool" where
  "sound_files H d L vs \<longleftrightarrow>
     sound_directory d (la_root L) None \<and> sound_file d (la_env L) mode_0600 None \<and>
     \<not> is_symlink d (la_compose L) \<and> is_file d (la_compose L) \<and> read_env H d (la_env L) = Inr (vs, []) \<and>
     namespace_ok (value_or (namespace_key L) vs) \<and>
     (\<exists>rs. (\<forall>rendered. locations H L vs rendered = Inr rs) \<and>
        sound_directory d (rs_policy_dir rs) (Some (rs_owner rs)) \<and> sound_directory d (rs_audit_dir rs) (Some (rs_owner rs)) \<and>
        sound_keys H d (rs_audit_dir rs) (rs_owner rs))"

lemma hex_not_special:
  assumes "lower_hex_64 s" and "c \<in> set s"
  shows "hex_char c" and "\<not> py_space c" and "c \<noteq> CHR ''x''" and "c \<noteq> CHR ''X''" and "c \<noteq> CHR ''_''" and "c \<noteq> CHR ''+''"
    and "c \<noteq> CHR ''-''" and "c \<noteq> CHR ''/''" and "c \<noteq> CHR '':''"
  using assms by (auto simp: lower_hex_64_def list_all_iff Let_def hex_char_def py_space_def)

lemma digit_groups_hex: "s \<noteq> [] \<Longrightarrow> \<forall>c \<in> set s. hex_char c \<and> c \<noteq> CHR ''_'' \<Longrightarrow> digit_groups hex_char s"
  by (induction hex_char s rule: digit_groups.induct) auto

lemma fingerprint_path:
  assumes "image_id i"
  shows "public_path i = Inr (drop 7 i @ ''.pub.pem'')" and "plain_name (drop 7 i @ ''.pub.pem'')" and "key_digest i = drop 7 i"
proof -
  obtain s where i: "i = ''sha256:'' @ s" and s: "lower_hex_64 s" using assms by (auto simp: image_id_def prefix_def)
  note hex = hex_not_special [OF s]
  have len: "length s = 64" using s by (simp add: lower_hex_64_def)
  then obtain a b r where r: "s = a # b # r" by (cases s; cases "tl s") auto
  have "py_strip s = s" using hex(2) by (intro py_strip_plain) blast
  moreover have "drop_sign s = s" "drop_0x s = s" using hex [of a] hex [of b] r by (auto simp: drop_sign_def drop_0x_def)
  moreover have "digit_groups hex_char s" using hex(1,5) len by (intro digit_groups_hex) auto
  ultimately have "int16_ok s" by (simp add: int16_ok_def)
  moreover have "takeWhile (\<lambda>c. c \<noteq> CHR '':'') i = ''sha256''" by (simp add: i)
  ultimately show "public_path i = Inr (drop 7 i @ ''.pub.pem'')" using len by (simp add: public_path_def partition_colon_def i)
  have "CHR ''/'' \<notin> set s" using hex(8) by blast
  then show "plain_name (drop 7 i @ ''.pub.pem'')" using r by (simp add: plain_name_def i)
  show "key_digest i = drop 7 i" by (simp add: key_digest_def i)
qed

lemma env_text_Inr:
  "list_all (\<lambda>p. list_all (\<lambda>c. \<not> line_break c \<and> c \<noteq> CHR 0x00) (snd p)) env \<Longrightarrow> \<exists>t. env_text env = Inr t"
proof (induction env rule: env_text.induct)
  case (2 name v rest)
  then have "CHR 0x00 \<notin> set v" "CHR 0x0A \<notin> set v" "CHR 0x0D \<notin> set v" by (auto simp: list_all_iff line_break_def)
  with 2 show ?case by (auto simp: env_value_def)
qed simp

lemma namespace_fits:
  assumes "length (qe_hex E) \<le> 9" and "list_all namespace_char (qe_hex E)"
  shows "namespace_ok (quickstart_namespace E)"
proof -
  have "list_all (\<lambda>x. namespace_char x \<or> x = CHR ''-'') ''ortunusmcp-quickstart-''" "namespace_char CHR ''p''" by code_simp+
  then show ?thesis using assms by (simp add: namespace_ok_def quickstart_namespace_def list_all_iff) 
qed


lemma deployment_parts:
  assumes "below base d = map_of (deployment_files E policy env credentials name)" and "plain_host (qe_host E)"
  shows "below base d ''config'' = Some (made_directory E 0x1C0)" and "below base d ''secrets'' = Some (made_directory E 0x1C0)"
    and "below base d ''config/policy.yaml'' = Some (made_file E policy mode_0600)"
    and "below base d ''compose.quickstart.yml'' = Some (made_file E (qe_compose E) (de_umask (qe_host E) 0x1A4))"
    and "below base d ''.env.quickstart'' = Some (made_file E env mode_0600)"
    and "below base d ''credentials.env'' = Some (made_file E credentials mode_0600)"
    and "below base d ''compose.prod.yml'' = None" and "below base d ''.env.prod'' = None"
    and "\<forall>q \<in> {''config'', ''config/revisions'', ''secrets'', ''secrets/public''}. below base d q = Some (made_directory E 0x1C0)"
  using assms(2) unfolding plain_host_def assms(1) deployment_files_def Let_def by simp_all

lemma generated_places:
  assumes "base = slash_path ws" and "\<forall>w \<in> set ws. plain_name w" and "plain_host (qe_host E)" and "la_kind L = Quickstart"
  shows "locations (qe_host E) L (env_entries E base port gid) rendered = Inr \<lparr>rs_policy_dir = under base ''config'',
    rs_audit_dir = under base ''secrets'', rs_gateway_env = la_env L, rs_owner = de_user (qe_host E)\<rparr>"
proof -
  have "path_text (under base ''config'') = under base ''config''" "path_text (under base ''secrets'') = under base ''secrets''"
    using path_text_slash_path [of "ws @ [''config'']"] path_text_slash_path [of "ws @ [''secrets'']"] assms(1,2)
    by (simp_all add: under_def slash_path_def)
  then show ?thesis
    using assms(3,4) by (simp add: locations_def required_def env_entries_lookup id_read_back plain_host_def)
qed

lemma generated_discovered:
  assumes "below base d = map_of (deployment_files E policy env credentials name)" and "plain_host (qe_host E)"
    and "is_dir d base" and "plain_values E base port gid" and "de_resolve (qe_host E) (de_expand (qe_host E) base) = base"
  shows "discover (qe_host E) d base = Inr \<lparr>la_kind = Quickstart, la_root = base, la_env = under base ''.env.quickstart'',
    la_compose = under base ''compose.quickstart.yml''\<rparr>"
proof -
  note parts = deployment_parts [OF assms(1,2)]
  have "exists_path d (under base ''.env.quickstart'')" using below_file(3) [OF parts(5)] .
  moreover have "list_all (\<lambda>c. \<not> line_break c \<and> c \<noteq> CHR 0x00) base"
    using assms(4) by (simp add: plain_values_def env_entries_def Let_def under_def)
  then have "CHR 0x00 \<notin> set base" "CHR 0x0A \<notin> set base" "CHR 0x0D \<notin> set base"
    by (auto simp: line_break_def list_all_iff)
  ultimately show ?thesis
    using assms(3,5) parts(7,8) [THEN below_missing] by (simp add: discover_def Let_def)
qed

lemma generated_env:
  assumes "plain_values E base port gid" and "env_text (env_entries E base port gid) = Inr env"
    and "below base d ''.env.quickstart'' = Some (made_file E env mode_0600)"
  shows "read_env (qe_host E) d (under base ''.env.quickstart'') = Inr (env_entries E base port gid, [])"
    and "namespace_ok (value_or ''QUICKSTART_NAMESPACE'' (env_entries E base port gid))"
proof -
  have "env_file (de_loads (qe_host E)) env = Inr (env_entries E base port gid, [])"
    by (rule written_env_read [OF assms(2)])
      (use env_entries_plain [of E base port gid] assms(1) in \<open>auto simp: plain_values_def list_all_iff\<close>)
  then show "read_env (qe_host E) d (under base ''.env.quickstart'') = Inr (env_entries E base port gid, [])"
    using below_file(2) [OF assms(3)] by (simp add: read_env_def)
  show "namespace_ok (value_or ''QUICKSTART_NAMESPACE'' (env_entries E base port gid))"
    using assms(1) namespace_fits by (simp add: value_or_def env_entries_lookup plain_values_def)
qed

text \<open>
  C35: A generated deployment is sound. On a disk whose output directory is new or empty, under
  directories that exist, and without faults, \<open>generate\<close> returns; and the doctor then
  recognizes a quickstart deployment whose environment file it reads back as the values
  written, without duplicates, and finds every file, directory, mode, owner and key it asks
  for. The directories of the policy, its revisions, the keys and the public keys belong to the
  user with mode 0700; the compose file is the packaged one, the policy file holds the
  generated policy; it and the credentials are private. Assumed of the values written: no
  line breaks or NUL (\<open>plain_values\<close>; \<open>form_feed_in_path_is_unreadable\<close> shows a path that
  breaks it) and a short hexadecimal part of the namespace; of the host: paths resolve to
  themselves, the mask leaves the owner's bits and user ids have at most ten digits
  (\<open>plain_host\<close>), and the key functions agree on a fresh key (\<open>key_laws\<close>).
\<close>

theorem generated_deployment_is_sound:
  assumes "fresh_base base (mc_disk M)" and "mc_faults M = []" and "parents_plain base (mc_disk M)"
    and "map_of (mc_disk M) base = None \<or> is_dir (mc_disk M) base"
    and "mint_keys E = Inr (admin_key, client_key)" and "plain_values E base (qa_port args) gid"
    and "key_laws (qe_host E)" and "plain_host (qe_host E)" and "de_resolve (qe_host E) (de_expand (qe_host E) base) = base"
  shows "\<exists>g M' L. generate E base upstream_id args gid M = (Inr g, M') \<and>
    discover (qe_host E) (mc_disk M') base = Inr L \<and> la_kind L = Quickstart \<and> la_env L = ge_env g \<and> la_compose L = ge_compose g \<and>
    sound_files (qe_host E) (mc_disk M') L (env_entries E base (qa_port args) gid) \<and>
    (\<forall>q \<in> {''config'', ''config/revisions'', ''secrets'', ''secrets/public''}.
       sound_directory (mc_disk M') (under base q) (Some (de_user (qe_host E)))) \<and>
    content_of (mc_disk M') (ge_compose g) = Inr (qe_compose E) \<and>
    sound_file (mc_disk M') (under base ''config/policy.yaml'') mode_0600 (Some (de_user (qe_host E))) \<and>
    content_of (mc_disk M') (under base ''config/policy.yaml'') =
      Inr (qe_yaml E (policy_data E upstream_id (qa_tool args) (qa_command args) admin_key client_key)) \<and>
    sound_file (mc_disk M') (ge_credentials g) mode_0600 (Some (de_user (qe_host E)))"
proof -
  let ?H = "qe_host E" and ?vs = "env_entries E base (qa_port args) gid"
  from assms(7) obtain i where key: "image_id i" "de_private_id ?H (de_fresh_key ?H) = Inr i" "de_private_p256 ?H (de_fresh_key ?H)"
    "de_public_id ?H (de_public_pem ?H (de_fresh_key ?H)) = Inr i" "de_public_p256 ?H (de_public_pem ?H (de_fresh_key ?H))"
    by (auto simp: key_laws_def)
  note path = fingerprint_path [OF key(1)]
  obtain env where env: "env_text ?vs = Inr env" using env_text_Inr assms(6) unfolding plain_values_def by blast
  obtain g M' where run: "generate E base upstream_id args gid M = (Inr g, M')"
    using generate_returns [OF assms(1-5) env key(2) path(1,2)] by blast
  obtain k1 k2 name env' where left: "mint_keys E = Inr (k1, k2)" "public_path i = Inr name" "env_text ?vs = Inr env'"
    and ok: "base_ok base (mc_disk M')"
    and below: "below base (mc_disk M') = map_of (deployment_files E
      (qe_yaml E (policy_data E upstream_id (qa_tool args) (qa_command args) k1 k2)) env'
      (credentials_text (qa_port args) k1 k2) name)"
    and g: "g = \<lparr>ge_root = base, ge_env = under base ''.env.quickstart'', ge_compose = under base ''compose.quickstart.yml'',
         ge_credentials = under base ''credentials.env'', ge_namespace = quickstart_namespace E, ge_admin_key = k1, ge_client_key = k2\<rparr>"
    by (rule generate_left [OF run assms(1) key(2)])
  have same: "k1 = admin_key" "k2 = client_key" using left assms(5) by simp_all
  let ?d = "mc_disk M'" and ?L = "\<lparr>la_kind = Quickstart, la_root = base, la_env = ge_env g, la_compose = ge_compose g\<rparr>"
  note parts = deployment_parts [OF below assms(8)]
  note env = generated_env [OF assms(6) left(3) parts(5)]
  have keys: "sound_keys ?H ?d (under base ''secrets'') (de_user ?H)"
    by (rule generated_keys_sound [OF below left(2) key(2-5)]) (use key(1) path(3) in \<open>simp add: image_id_def\<close>)
  have compose: "\<not> is_symlink ?d (under base ''compose.quickstart.yml'')" "is_file ?d (under base ''compose.quickstart.yml'')"
    using below_file(1) [OF parts(4)] by (auto simp: sound_file_def)
  from assms(1) obtain ws where ws: "base = slash_path ws" "\<forall>w \<in> set ws. plain_name w" by (auto simp: fresh_base_def)
  have root: "sound_directory ?d base None"
    using ok follow_here [of ?d base] by (auto simp: base_ok_def sound_directory_def is_symlink_def is_dir_def mode_of_def stat_of_def)
  have "sound_files ?H ?d ?L ?vs"
    unfolding sound_files_def
    using root below_file(1) [OF parts(5)] compose env generated_places [OF ws assms(8), of ?L]
      below_directory [OF parts(1)] below_directory [OF parts(2)] keys
    by (auto simp: g namespace_key_def sound_file_def)
  moreover have "discover ?H ?d base = Inr ?L"
    using generated_discovered [OF below assms(8) _ assms(6,9)] root by (simp add: sound_directory_def g)
  moreover have "\<forall>q \<in> {''config'', ''config/revisions'', ''secrets'', ''secrets/public''}.
       sound_directory ?d (under base q) (Some (de_user ?H))"
    using parts(9) below_directory by blast
  ultimately show ?thesis
    using run below_file(1,2) [OF parts(3)] below_file(1) [OF parts(6)] below_file(2) [OF parts(4)] by (auto simp: g same)
qed

lemma sample_fields:
  "qe_hex sample_quickstart = ''0123abcd''" "qe_postgres_password sample_quickstart = ''p''" "qe_redis_password sample_quickstart = ''r''"
  "de_user (qe_host sample_quickstart) = (1, 1)" "qa_port sample_quickstart_args = 8000"
  by (simp_all add: sample_quickstart_def sample_plain_def sample_doctor_def sample_quickstart_args_def)

lemma sample_plain_values: "plain_values sample_quickstart ''/d'' (qa_port sample_quickstart_args) ''998''"
proof -
  let ?ok = "list_all (\<lambda>c. \<not> line_break c \<and> c \<noteq> CHR 0x00)"
  have "?ok pinned_gateway" "?ok pinned_postgres" "?ok pinned_redis" "list_all (\<lambda>p. ?ok (snd p)) env_defaults"
    "?ok (''portunusmcp-quickstart-'' @ ''0123abcd'')" "list_all namespace_char ''0123abcd''"
    "?ok (under ''/d'' ''config'')" "?ok (under ''/d'' ''secrets'')" "?ok ''998''" "?ok ''p''" "?ok ''r''"
    by code_simp+
  moreover have "int_str 1 = ''1''" "int_str 8000 = ''8000''"
    by (simp_all add: int_str_def nat_str.simps)
  ultimately show ?thesis
    unfolding plain_values_def env_entries_def Let_def quickstart_namespace_def sample_fields by simp
qed

lemma sample_fresh: "fresh_base ''/d'' (mc_disk (power_on [] []))"
proof -
  have "''/d'' = slash_path [''d'']" by (simp add: slash_path_def)
  moreover have "\<forall>w \<in> set [''d'']. plain_name w" by (simp add: plain_name_def)
  ultimately show ?thesis unfolding fresh_base_def power_on_def is_symlink_def
    by (metis (no_types, lifting) list.distinct(1) machine.select_convs(1) map_of.simps(1) option.distinct(1))
qed

lemma sample_key_laws: "key_laws (qe_host sample_quickstart)"
proof -
  have "image_id sample_image" by code_simp
  then show ?thesis by (auto simp: key_laws_def sample_quickstart_def sample_doctor_def sample_image_def)
qed

theorem generated_deployment_is_sound_witness:
  "\<exists>g M' L. generate sample_quickstart ''/d'' sample_image sample_quickstart_args ''998'' (power_on [] []) = (Inr g, M') \<and>
     discover (qe_host sample_quickstart) (mc_disk M') ''/d'' = Inr L \<and>
     sound_files (qe_host sample_quickstart) (mc_disk M') L (env_entries sample_quickstart ''/d'' (qa_port sample_quickstart_args) ''998'')"
proof -
  have "above ''/d'' = []" by code_simp
  then have parents: "parents_plain ''/d'' (mc_disk (power_on [] []))" by (simp add: parents_plain_def)
  have mint: "mint_keys sample_quickstart = Inr (''a'', ''b'')" by code_simp
  have host: "plain_host (qe_host sample_quickstart)"
    by (simp add: plain_host_def sample_quickstart_def sample_doctor_def)
  have "de_resolve (qe_host sample_quickstart) (de_expand (qe_host sample_quickstart) ''/d'') = ''/d''"
    by (simp add: sample_quickstart_def sample_doctor_def)
  from generated_deployment_is_sound [OF sample_fresh _ parents _ mint sample_plain_values sample_key_laws host this, of sample_image]
  show ?thesis by (auto simp: power_on_def)
qed

end
