(* ===== verification/VerifierTools.thy ===== *)
theory VerifierTools
  imports AuditExport Doctor
begin

text \<open>
  \<open>scripts/verify_audit_chain.py\<close>, the operator's scan of the whole chain with its offline
  check of exports and its comparison of policy revisions, and
  \<open>scripts/audit_verifier_daemon.py\<close>, the loop around the incremental pass. Both read the
  public keys from the key store. Rendering a comparison is left to \<open>difflib\<close>.
\<close>

section \<open>The scan of the whole chain\<close>

fun value_text :: "exn \<Rightarrow> string option" where
  "value_text (ValueError s) = Some s"
| "value_text (VerificationError s) = Some s"
| "value_text _ = None"

text \<open>The loop of \<open>verify\<close>: the exit status and the line it prints.\<close>

fun scan_rows ::
  "(audit_row \<Rightarrow> string \<Rightarrow> string res) \<Rightarrow> audit_row list \<Rightarrow> string \<Rightarrow> nat \<Rightarrow> (int \<times> string) res" where
  "scan_rows verify [] prev n = Inr (0, ''chain OK ('' @ int_str (int n) @ '' rows)'')"
| "scan_rows verify (r # rs) prev n =
     (case verify r prev of
        Inr h \<Rightarrow> scan_rows verify rs h (Suc n)
      | Inl e \<Rightarrow> (case value_text e of Some t \<Rightarrow> Inr (1, t) | None \<Rightarrow> Inl e))"

definition full_scan :: "verifier_env \<Rightarrow> (string \<Rightarrow> string res) \<Rightarrow> audit_row list \<Rightarrow> (int \<times> string) res" where
  "full_scan E load rows = scan_rows (verify_record E load None) (sort_key a_seq rows) genesis_hash 0"

section \<open>Comparing two policy revisions\<close>

datatype shown =
    Line string
  | UnifiedDiff "string \<times> string list" "string \<times> string list"
  | HtmlPage string "string \<times> string list" "string \<times> string list"

text \<open>One side: its label and lines, or the line that says what is wrong with it.\<close>

definition diff_side :: "(int \<Rightarrow> string option) \<Rightarrow> string \<Rightarrow> (string + string \<times> string list) res" where
  "diff_side snapshot arg =
     (let version = (if prefix ''v'' arg then tl arg else arg)
      in if \<not> py_isdigit version then Inr (Inl (''not a policy version: '' @ arg))
         else bind_res (int_res version) (\<lambda>n.
           case snapshot n of
             None \<Rightarrow> Inr (Inl (''no revision snapshot of '' @ version))
           | Some content \<Rightarrow> Inr (Inr (''v'' @ version, lines_keep (py_newlines content)))))"

definition diff_policy :: "(int \<Rightarrow> string option) \<Rightarrow> string \<Rightarrow> string \<Rightarrow> bool \<Rightarrow> (int \<times> shown) res" where
  "diff_policy snapshot old new html =
     bind_res (diff_side snapshot old) (\<lambda>a. case a of
       Inl what \<Rightarrow> Inr (1, Line what)
     | Inr a \<Rightarrow> bind_res (diff_side snapshot new) (\<lambda>b. case b of
         Inl what \<Rightarrow> Inr (1, Line what)
       | Inr b \<Rightarrow>
           Inr (0, if html then HtmlPage (''policy-diff-'' @ fst a @ ''-'' @ fst b @ ''.html'') a b else UnifiedDiff a b)))"

section \<open>The command\<close>

record verify_args =
  va_diff :: "(string \<times> string) option"
  va_html :: bool
  va_export :: "string option"

record 'w verify_host =
  vh_checks :: verifier_env
  vh_codec :: codec
  vh_load :: "string \<Rightarrow> string res"
  vh_lines :: "string \<Rightarrow> string list res"
  vh_snapshot :: "int \<Rightarrow> string option"
  vh_reading :: "('w, unit) io"

definition export_verdict :: "int \<times> bool \<Rightarrow> shown" where
  "export_verdict r =
     Line (''export OK ('' @ int_str (fst r) @ '' rows, '' @
       (if snd r then ''genesis anchored'' else ''prefix omitted/unattested'') @ '')'')"

text \<open>\<open>parser.error\<close> exits with status 2. An empty \<open>--export\<close> counts as absent.\<close>

definition check_export :: "'w verify_host \<Rightarrow> string \<Rightarrow> (int \<times> shown) res" where
  "check_export H f =
     (case bind_res (vh_lines H f) (verify_file (vh_checks H) (vh_codec H)) of
        Inr r \<Rightarrow> Inr (0, export_verdict r)
      | Inl e \<Rightarrow> (case value_text e of Some t \<Rightarrow> Inr (1, Line t) | None \<Rightarrow> Inl e))"

definition verify_chain_main :: "'w verify_host \<Rightarrow> verify_args \<Rightarrow> (audit_table \<times> 'w, int \<times> shown) io" where
  "verify_chain_main H args =
     (if given (va_export args)
      then if va_diff args \<noteq> None \<or> va_html args
           then ret_io (2, Line ''--export cannot be combined with policy diff flags'')
           else of_res (check_export H (the (va_export args)))
      else case va_diff args of
             Some (old, new) \<Rightarrow> of_res (diff_policy (vh_snapshot H) old new (va_html args))
           | None \<Rightarrow>
               if va_html args then ret_io (2, Line ''--html requires --diff-policy'')
               else bind_io (outer (vh_reading H)) (\<lambda>_ p.
                    bind_io (of_res (full_scan (vh_checks H) (vh_load H) (t_rows (fst p))))
                      (\<lambda>(status, line). ret_io (status, Line line)) p))"

section \<open>The daemon\<close>

text \<open>One run under \<open>--once\<close>: the interval is read first.\<close>

definition daemon_interval :: "string option \<Rightarrow> int res" where
  "daemon_interval set_interval = int_res (case set_interval of None \<Rightarrow> ''60'' | Some s \<Rightarrow> s)"

definition daemon_once ::
  "('w, unit) io \<Rightarrow> 'w committer \<Rightarrow> verifier_env \<Rightarrow> (string \<Rightarrow> string res) \<Rightarrow> string option \<Rightarrow> (audit_table \<times> 'w, int) io" where
  "daemon_once reading commit E load set_interval =
     bind_io (of_res (daemon_interval set_interval)) (\<lambda>_.
     bind_io (verify_increment reading commit E (KeyStore load)) (\<lambda>(n, failure).
       ret_io (if failure \<noteq> None then 1 else 0)))"

text \<open>
  The loop without \<open>--once\<close> has no end of its own. Its state: the tables, and the
  heartbeats logged so far, each with the log as it was then. While the daemon sleeps the
  gateway appends rows.
\<close>

type_synonym heartbeats = "(audit_row list \<times> nat \<times> string option) list"

definition appended :: "audit_table \<Rightarrow> audit_row list \<Rightarrow> bool" where
  "appended T new \<longleftrightarrow>
     distinct (map a_seq new) \<and> (\<forall>r \<in> set new. 0 < a_seq r \<and> (\<forall>q \<in> set (t_rows T). a_seq q < a_seq r))"

inductive daemon_step ::
  "('w, unit) io \<Rightarrow> 'w committer \<Rightarrow> verifier_env \<Rightarrow> (string \<Rightarrow> string res) \<Rightarrow>
     audit_table \<times> 'w \<times> heartbeats \<Rightarrow> audit_table \<times> 'w \<times> heartbeats \<Rightarrow> bool"
  for reading commit E load where
  Pass: "verify_increment reading commit E (KeyStore load) (T, w) = (Inr (n, failure), (T', w')) \<Longrightarrow>
     daemon_step reading commit E load (T, w, beats) (T', w', beats @ [(t_rows T, n, failure)])"
| Appended: "appended T new \<Longrightarrow>
     daemon_step reading commit E load (T, w, beats) (T\<lparr>t_rows := t_rows T @ new\<rparr>, w', beats)"


section \<open>What a heartbeat says\<close>

lemma scan_rows_verify_all:
  "scan_rows verify rs prev n =
     (case verify_all verify prev rs of
        Inr h \<Rightarrow> Inr (0, ''chain OK ('' @ int_str (int (n + length rs)) @ '' rows)'')
      | Inl e \<Rightarrow> (case value_text e of Some t \<Rightarrow> Inr (1, t) | None \<Rightarrow> Inl e))"
  by (induction rs arbitrary: prev n) (auto split: sum.splits)

lemma load_key_store [simp]: "load_key E (KeyStore load) = load"
  by (rule ext) simp

abbreviation whole_chain :: "verifier_env \<Rightarrow> (string \<Rightarrow> string res) \<Rightarrow> audit_row list \<Rightarrow> string res" where
  "whole_chain E load rows \<equiv> verify_all (verify_record E load None) genesis_hash (sort_key a_seq rows)"

text \<open>What a heartbeat reports is what the scan of the log at the time says.\<close>

definition beat_true :: "verifier_env \<Rightarrow> (string \<Rightarrow> string res) \<Rightarrow> audit_row list \<times> nat \<times> string option \<Rightarrow> bool" where
  "beat_true E load beat \<longleftrightarrow>
     (case snd (snd beat) of
        None \<Rightarrow> \<exists>h. whole_chain E load (fst beat) = Inr h
      | Some t \<Rightarrow> \<exists>e. failure_text e = Some t \<and> whole_chain E load (fst beat) = Inl e)"

lemma beat_true_scan:
  assumes "beat_true E load (rows, n, failure)"
  shows "(case failure of
      None \<Rightarrow> \<exists>line. full_scan E load rows = Inr (0, line)
    | Some t \<Rightarrow> full_scan E load rows = Inr (1, t) \<or> full_scan E load rows = Inl (OSError t))"
proof (cases failure)
  case None
  with assms show ?thesis by (auto simp: beat_true_def full_scan_def scan_rows_verify_all)
next
  case (Some t)
  with assms obtain e where "failure_text e = Some t" "whole_chain E load rows = Inl e"
    by (auto simp: beat_true_def)
  with Some show ?thesis by (cases e) (simp_all add: full_scan_def scan_rows_verify_all)
qed

lemma pass_true:
  assumes "checkpoint_ok E (KeyStore load) T"
    and "verify_increment reading commit E (KeyStore load) (T, w) = (Inr (n, failure), (T', w'))"
  shows "t_rows T' = t_rows T \<and> checkpoint_ok E (KeyStore load) T' \<and> beat_true E load (t_rows T, n, failure)"
  using increment_rescan [OF assms] by (cases failure) (simp_all add: beat_true_def)

section \<open>Appending to the log\<close>

lemma sort_key_appended:
  fixes f :: "'a \<Rightarrow> int"
  assumes "\<forall>x \<in> set xs. \<forall>y \<in> set ys. f x < f y"
  shows "sort_key f (xs @ ys) = sort_key f xs @ sort_key f ys"
proof (cases "xs = []")
  case False
  let ?n = "Max (f ` set xs)"
  have xs: "f x \<le> ?n" if "x \<in> set xs" for x using that by simp
  have "?n \<in> f ` set xs" using False by (intro Max_in) simp_all
  then have ys: "?n < f y" if "y \<in> set ys" for y using assms that by auto
  have "filter (\<lambda>x. f x \<le> ?n) (xs @ ys) = xs" "filter (\<lambda>x. ?n < f x) (xs @ ys) = ys"
    using xs ys by (auto simp: filter_empty_conv filter_id_conv not_less intro: less_imp_le dest: leD)
  then show ?thesis using sort_key_split [of f "xs @ ys" ?n] by simp
qed simp

definition later_rows :: "audit_row list \<Rightarrow> audit_row list \<Rightarrow> bool" where
  "later_rows rows rows' \<longleftrightarrow> (\<exists>more. rows' = rows @ more \<and> (\<forall>q \<in> set rows. \<forall>r \<in> set more. a_seq q < a_seq r))"

lemma later_rows_refl: "later_rows rows rows"
  by (simp add: later_rows_def)

lemma later_rows_append:
  "later_rows rows (t_rows T) \<Longrightarrow> appended T new \<Longrightarrow> later_rows rows (t_rows T @ new)"
  unfolding later_rows_def appended_def by force

lemma broken_stays_broken:
  assumes "later_rows rows rows'" and "whole_chain E load rows = Inl e"
  shows "whole_chain E load rows' = Inl e"
  using assms by (auto simp: later_rows_def sort_key_appended verify_all_append)

lemma checkpoint_appended:
  assumes "checkpoint_ok E keys T" and "appended T new"
  shows "checkpoint_ok E keys (T\<lparr>t_rows := t_rows T @ new\<rparr>)"
proof -
  let ?T = "T\<lparr>t_rows := t_rows T @ new\<rparr>" and ?c = "checkpoint_seq T"
  have c: "checkpoint_seq ?T = ?c" by (simp add: checkpoint_seq_def)
  have above: "?c < a_seq r" if "r \<in> set new" for r
    using assms that unfolding checkpoint_ok_def appended_def by metis
  then have "filter (\<lambda>r. a_seq r \<le> ?c) new = []" by (auto simp: filter_empty_conv not_le)
  then have "rows_upto ?c ?T = rows_upto ?c T" by (simp add: rows_upto_def)
  moreover have "distinct (map a_seq (t_rows T @ new))"
    using assms by (fastforce simp: checkpoint_ok_def appended_def)
  ultimately show ?thesis
    using assms by (auto simp: checkpoint_ok_def appended_def c)
qed

section \<open>The loop\<close>

definition beats_ok :: "verifier_env \<Rightarrow> (string \<Rightarrow> string res) \<Rightarrow> audit_table \<times> 'w \<times> heartbeats \<Rightarrow> bool" where
  "beats_ok E load s \<longleftrightarrow>
     (let T = fst s; beats = snd (snd s)
      in checkpoint_ok E (KeyStore load) T \<and>
         (\<forall>beat \<in> set beats. beat_true E load beat \<and> later_rows (fst beat) (t_rows T)) \<and>
         sorted_wrt (\<lambda>a b. snd (snd a) \<noteq> None \<longrightarrow> snd (snd b) \<noteq> None) beats)"

lemma failed_beat_persists:
  assumes "beat_true E load a" and "later_rows (fst a) (fst b)" and "beat_true E load b" and "snd (snd a) \<noteq> None"
  shows "snd (snd b) \<noteq> None"
proof
  assume none: "snd (snd b) = None"
  from assms(1,4) obtain e where "whole_chain E load (fst a) = Inl e" by (auto simp: beat_true_def)
  from broken_stays_broken [OF assms(2) this] none assms(3) show False by (simp add: beat_true_def)
qed

lemma daemon_step_ok:
  assumes "daemon_step reading commit E load s s'" and "beats_ok E load s"
  shows "beats_ok E load s'"
  using assms
proof (induction rule: daemon_step.induct)
  case (Pass T w n failure T' w' beats)
  from Pass.prems have ok: "checkpoint_ok E (KeyStore load) T" by (simp add: beats_ok_def Let_def)
  note new = pass_true [OF ok Pass.hyps]
  have "snd (snd a) \<noteq> None \<longrightarrow> failure \<noteq> None" if "a \<in> set beats" for a
    using failed_beat_persists [of E load a "(t_rows T, n, failure)"] new Pass.prems that
    by (auto simp: beats_ok_def Let_def)
  with new Pass.prems show ?case
    by (auto simp: beats_ok_def Let_def sorted_wrt_append later_rows_refl)
next
  case (Appended T new w' beats w)
  then show ?case
    by (auto simp: beats_ok_def Let_def checkpoint_appended intro: later_rows_append)
qed

lemma daemon_run_ok:
  assumes "(daemon_step reading commit E load)\<^sup>*\<^sup>* s s'" and "beats_ok E load s"
  shows "beats_ok E load s'"
  using assms by (induction rule: rtranclp_induct) (auto intro: daemon_step_ok)

text \<open>
  C37: The daemon tells the truth about a log that only grows. Started from a valid
  checkpoint (every row up to it verifies), with the keys fixed and rows only appended
  between its passes, every heartbeat without a failure was logged when the scan of the whole
  log would have ended with status 0, and one with a failure when the scan would have stopped
  at it; once a failure was reported, every later heartbeat reports one; and the checkpoint
  stays valid. Rows before the checkpoint are not read again: a change to one of them is
  left to the full scan.
\<close>

theorem daemon_heartbeats_are_true:
  assumes "checkpoint_ok E (KeyStore load) T0"
    and "(daemon_step reading commit E load)\<^sup>*\<^sup>* (T0, w0, []) (T, w, beats)"
  shows "checkpoint_ok E (KeyStore load) T \<and>
    (\<forall>(rows, n, failure) \<in> set beats.
       case failure of
         None \<Rightarrow> \<exists>line. full_scan E load rows = Inr (0, line)
       | Some t \<Rightarrow> full_scan E load rows = Inr (1, t) \<or> full_scan E load rows = Inl (OSError t)) \<and>
    (\<forall>i j. i < j \<longrightarrow> j < length beats \<longrightarrow> snd (snd (beats ! i)) \<noteq> None \<longrightarrow> snd (snd (beats ! j)) \<noteq> None)"
proof -
  from daemon_run_ok [OF assms(2)] assms(1) have ok: "beats_ok E load (T, w, beats)"
    by (simp add: beats_ok_def Let_def)
  then have "\<forall>i j. i < j \<longrightarrow> j < length beats \<longrightarrow> snd (snd (beats ! i)) \<noteq> None \<longrightarrow> snd (snd (beats ! j)) \<noteq> None"
    by (auto simp: beats_ok_def Let_def sorted_wrt_iff_nth_less)
  with ok show ?thesis by (fastforce simp: beats_ok_def Let_def dest: beat_true_scan)
qed

text \<open>
  One pass and one scan agree. From a valid checkpoint, the exit status of the daemon
  under \<open>--once\<close> is 0 exactly when that of the full scan of the same log is 0, and 1
  otherwise, whether the scan then reports the break or a key file is missing.
\<close>

theorem daemon_once_agrees_with_scan:
  assumes "checkpoint_ok E (KeyStore load) T"
    and "daemon_once reading commit E load interval (T, w) = (Inr status, s)"
    and "vh_checks H = E" and "vh_load H = load" and "vh_reading H = ret_io ()"
  shows "(status = 0 \<longleftrightarrow>
      (\<exists>line s'. verify_chain_main H \<lparr>va_diff = None, va_html = False, va_export = None\<rparr> (T, w) = (Inr (0, line), s'))) \<and>
    status \<in> {0, 1}"
proof -
  from assms(2) obtain n failure T' w' where
    pass: "verify_increment reading commit E (KeyStore load) (T, w) = (Inr (n, failure), (T', w'))"
    and status: "status = (if failure \<noteq> None then 1 else 0)"
    by (auto simp: daemon_once_def elim!: bind_io_InrE split: prod.splits)
  from beat_true_scan [OF conjunct2 [OF conjunct2 [OF pass_true [OF assms(1) pass]]]]
  have scan: "case failure of
      None \<Rightarrow> \<exists>line. full_scan E load (t_rows T) = Inr (0, line)
    | Some t \<Rightarrow> full_scan E load (t_rows T) = Inr (1, t) \<or> full_scan E load (t_rows T) = Inl (OSError t)" .
  have main: "verify_chain_main H \<lparr>va_diff = None, va_html = False, va_export = None\<rparr> (T, w) =
      (case full_scan E load (t_rows T) of Inr (k, line) \<Rightarrow> (Inr (k, Line line), (T, w)) | Inl e \<Rightarrow> (Inl e, (T, w)))"
    by (simp add: verify_chain_main_def given_def outer_def assms(3-5) bind_io_def split: sum.splits prod.splits)
  show ?thesis unfolding main using scan status by (auto split: option.splits)
qed

section \<open>A concrete run\<close>

definition forged_row :: audit_row where
  "forged_row = sample_row\<lparr>a_seq := 2, a_prev_hash := ''h'', a_signature := ''forged''\<rparr>"

definition one_row :: audit_table where
  "one_row = \<lparr>t_rows = [sample_row], t_checkpoint = None\<rparr>"

definition always :: "unit committer" where
  "always w = (Committed, w)"

abbreviation sample_step ::
  "audit_table \<times> unit \<times> heartbeats \<Rightarrow> audit_table \<times> unit \<times> heartbeats \<Rightarrow> bool" where
  "sample_step \<equiv> daemon_step (ret_io ()) always sample_env (\<lambda>_. Inr ''pub'')"

text \<open>A pass over one row, a forged row, and two more passes.\<close>

definition checked_row :: audit_table where
  "checked_row = one_row\<lparr>t_checkpoint := Some 1\<rparr>"

definition forged_text :: string where
  "forged_text = ''BAD SIGNATURE at seq=2: curr_hash was not signed by k''"

lemma sample_passes:
  "verify_increment (ret_io ()) always sample_env (KeyStore (\<lambda>_. Inr ''pub'')) (one_row, ()) =
     (Inr (1, None), (checked_row, ()))"
  "verify_increment (ret_io ()) always sample_env (KeyStore (\<lambda>_. Inr ''pub''))
     (checked_row\<lparr>t_rows := t_rows checked_row @ [forged_row]\<rparr>, ()) =
     (Inr (0, Some forged_text), (checked_row\<lparr>t_rows := t_rows checked_row @ [forged_row]\<rparr>, ()))"
  by code_simp+

lemma one_row_ok: "checkpoint_ok sample_env (KeyStore (\<lambda>_. Inr ''pub'')) one_row"
  by (simp add: checkpoint_ok_def one_row_def checkpoint_seq_def rows_upto_def sample_row_def)

lemma forged_appended: "appended checked_row [forged_row]"
  by code_simp

definition sample_beats :: heartbeats where
  "sample_beats =
     [([sample_row], 1, None), ([sample_row, forged_row], 0, Some forged_text), ([sample_row, forged_row], 0, Some forged_text)]"

lemma sample_daemon:
  "sample_step\<^sup>*\<^sup>* (one_row, (), []) (checked_row\<lparr>t_rows := t_rows checked_row @ [forged_row]\<rparr>, (), sample_beats)"
proof -
  let ?T = "checked_row\<lparr>t_rows := t_rows checked_row @ [forged_row]\<rparr>"
  have rows: "t_rows one_row = [sample_row]" "t_rows ?T = [sample_row, forged_row]"
    by (simp_all add: one_row_def checked_row_def)
  have "sample_step (one_row, (), []) (checked_row, (), [([sample_row], 1, None)])"
    using Pass [OF sample_passes(1), of "[]"] unfolding rows by simp
  moreover have "sample_step (checked_row, (), [([sample_row], 1, None)]) (?T, (), [([sample_row], 1, None)])"
    by (rule Appended [OF forged_appended])
  moreover have "sample_step (?T, (), beats) (?T, (), beats @ [([sample_row, forged_row], 0, Some forged_text)])" for beats
    using Pass [OF sample_passes(2), of beats] unfolding rows .
  from this [of "[([sample_row], 1, None)]"] this [of "[([sample_row], 1, None), ([sample_row, forged_row], 0, Some forged_text)]"]
  have "sample_step (?T, (), [([sample_row], 1, None)]) (?T, (), butlast sample_beats)"
    "sample_step (?T, (), butlast sample_beats) (?T, (), sample_beats)"
    by (simp_all add: sample_beats_def)
  ultimately show ?thesis by (meson converse_rtranclp_into_rtranclp rtranclp.rtrancl_refl)
qed

theorem daemon_heartbeats_are_true_witness:
  "full_scan sample_env (\<lambda>_. Inr ''pub'') [sample_row, forged_row] = Inr (1, forged_text) \<or>
   full_scan sample_env (\<lambda>_. Inr ''pub'') [sample_row, forged_row] = Inl (OSError forged_text)"
  using daemon_heartbeats_are_true [OF one_row_ok sample_daemon] by (simp add: sample_beats_def)

definition sample_verify_host :: "unit verify_host" where
  "sample_verify_host =
     \<lparr>vh_checks = sample_env, vh_codec = sample_codec JNull JNull, vh_load = (\<lambda>_. Inr ''pub''),
      vh_lines = (\<lambda>_. Inr []), vh_snapshot = (\<lambda>_. None), vh_reading = ret_io ()\<rparr>"

lemma sample_once:
  "daemon_once (ret_io ()) always sample_env (\<lambda>_. Inr ''pub'') None (one_row, ()) = (Inr 0, (checked_row, ()))"
  by code_simp

theorem daemon_once_agrees_with_scan_witness:
  "\<exists>line s'. verify_chain_main sample_verify_host \<lparr>va_diff = None, va_html = False, va_export = None\<rparr>
     (one_row, ()) = (Inr (0, line), s')"
  using daemon_once_agrees_with_scan [OF one_row_ok sample_once, of sample_verify_host]
  by (simp add: sample_verify_host_def)

text \<open>
  A superscript counts as a digit for \<open>str.isdigit\<close> but not for \<open>int\<close>: instead of the message
  that it is no policy version, the comparison ends with an exception.
\<close>

theorem superscript_version_raises:
  "\<exists>t. diff_policy (\<lambda>_. None) [CHR ''v'', CHR 0xB2] ''v1'' False = Inl (ValueError t)"
  by (intro exI) code_simp

end
