(* ===== verification/Spec2Isabelle.thy ===== *)
theory Spec2Isabelle
  imports DryRun Admin SessionLifecycle AuditVerification AuditChain Cli Quickstart QuickstartSound VerifierTools
begin

text \<open>
  A verification development for PortunusMCP, a zero-trust gateway between MCP clients and
  MCP servers. It models the Python of \<open>src/services/gateway\<close>, and the tools around it in
  \<open>src/services\<close> and \<open>src/scripts\<close>; names of files below are relative to these directories,
  and definitions keep the names of the functions they model where these are free.

  \<^bold>\<open>The program.\<close> A client's HTTP request is authenticated, limited and bound to a session
  (\<open>main.py\<close>, \<open>auth.py\<close>, \<open>session_manager.py\<close>). A session is an isolated container of one
  upstream server (\<open>upstream_client.py\<close>) and an interceptor (\<open>jsonrpc_interceptor.py\<close>) that
  takes every tool call through RBAC and conditions (\<open>policy_engine.py\<close>, \<open>abac.py\<close>), the
  replay guard, schema validation and the injection scan (\<open>param_validator.py\<close>), drift
  blocking (\<open>drift_detector.py\<close>), risk scoring (\<open>risk_engine.py\<close>), human approval
  (\<open>approvals.py\<close>) and step-up challenges (\<open>step_up.py\<close>), and prunes tool lists
  (\<open>schema_cache.py\<close>, \<open>schema_pruner.py\<close>). Every decision is a row of a hash-chained, signed
  log (\<open>audit_log.py\<close>), which a verifier checks (\<open>audit_verification.py\<close>,
  \<open>audit_verifier.py\<close>) and which can be exported (\<open>audit_export.py\<close>). Policies are activated,
  rolled back and recovered after a crash (\<open>policy_versions.py\<close>, \<open>policy_operations.py\<close>),
  signing keys are rotated the same way (\<open>audit_keys.py\<close>), and candidates are generated from
  the log or replayed against it (\<open>policy_scaffold.py\<close>, \<open>policy_simulator.py\<close>,
  \<open>decision_explainer.py\<close>). An operator talks to the gateway through \<open>cli.py\<close>, sets a first
  deployment up with \<open>quickstart.py\<close>, and has it examined and repaired by \<open>doctor.py\<close>.

  \<^bold>\<open>How it is modelled.\<close> A Python value is an option, a list, a record or a \<open>json\<close> (PyJson);
  an exception is a value of \<open>exn\<close>; a call with effects is a function from a world to a
  result and a world (Prelude: \<open>io\<close>), so every raise and every early return is a branch,
  and so is the state it leaves. What is not in the repository is an argument: Redis
  (Redis: \<open>redis_service\<close>, with the documented effect of each command), Postgres, the
  file system, docker, the MCP package, SHA-256, HMAC, ECDSA, YAML, jsonschema,
  canonical JSON. What is assumed of them is named in each theorem. Bytes are strings.
  Integers are unbounded as in Python, except the 32-bit words of the TOTP truncation
  (StepUp). Recursion is structural or has a measure; the bounds in the code stay
  numbers of the model (fifty looks for a container, ten thousand replayed rows, ten
  samples). Only the audit writer's loop on \<open>WatchError\<close>, which the code does not bound,
  takes fuel: each retry needs another client's write in between, and without one a single
  unit is enough (AuditChain), which is what the theorems on the writer assume.

  \<^bold>\<open>Theories.\<close>

    \<^item> Prelude, PyText, PyJson, PyDate: exceptions and calls, association lists as Python
      dicts, regular expressions and \<open>fnmatch\<close>, JSON values and Python equality, dates.
      Redis: the interface as a locale, two interpretations (one that fails at will), time
      and other clients. Crash, Journal: disks, effects that fail or are cut off, and
      the journal that policies and keys share, with the locale \<open>crash_recovery\<close>.
    \<^item> Config, Decision, Abac, PolicySchema, PolicyEngine: settings, decisions, the condition
      compiler and evaluator, the fields of a policy file, its validators and look-ups. A compiled condition is total up to
      a \<open>TypeError\<close>; \<open>matching_grant\<close> is the first grant that decides; a failed reload
      keeps the valid engine in force.
    \<^item> ReplayGuard, StepUp, ParamValidator, SchemaTools, DriftDetector, RiskEngine,
      Approvals, RateLimit, Auth: one component each, with its single-use, boundedness and
      authenticity theorems.
    \<^item> AuditLog, AuditVerification, AuditChain: the writer, the verifier, and the invariant
      that ties them: what was written verifies, unless a commit was in doubt. AuditExport:
      export and offline check as a round trip, and what an accepted file shows.
    \<^item> Interceptor, Mediation: one session's pipeline in both directions, and what it
      guarantees (complete mediation, observing, served tool lists). Explainer, DryRun: past
      decisions read back, and the dry run agreeing with the live pipeline.
    \<^item> SessionManager: every section of \<open>session_manager.py\<close> without an await is a function,
      \<open>sm_step\<close> interleaves them, and the invariants of reached states say that calls and
      session slots are counted exactly. SessionLifecycle: every coroutine, put together
      from these sections and the calls it awaits, is a path of \<open>sm_step\<close>. UpstreamClient: the
      docker command line of a session, starting, polling and stopping it, the framing of
      messages; with SessionLifecycle, a shutdown ends every container.
    \<^item> JsonScan, Endpoint: the body of a request and the MCP endpoint, from the request to
      the session's transport. Admin: the \<open>/admin\<close> endpoints, readiness and the body limit.
    \<^item> PolicyActivation, AuditKeys: activation and rotation with a crash or an error at
      every effect, and recovery. PolicySimulator, PolicyScaffold: replay of the log against
      candidates, and candidates generated from it.
    \<^item> Cli: the operator's commands as requests, and that these reach the endpoints they are
      for; consent, downloads that replace a file only when verified.
      EnvFile: environment files, written, read and changed. Doctor: every check of a
      deployment. DoctorScan: what checks may do, with the locale \<open>scan_relation\<close>, and what
      a report without errors means. DoctorRepair: the repairs, with a crash or an error at
      every effect, and the run. QuickstartFiles, Quickstart: the policy and the files of a
      new deployment on the doctor's tree, what that policy grants; then docker under a
      deadline, the proof of one allowed and one denied call, and the cleanup.
      QuickstartSound: what is generated passes the doctor's checks of files.
      VerifierTools: the verifier scripts, and that the daemon's heartbeats are true of a log
      that only grows.

  \<^bold>\<open>Properties.\<close> A text block that begins with C and a number states a property of the
  program; a theorem ending in \<open>_witness\<close> applies it to a concrete run. Theorems named after
  what goes wrong (such as \<open>in_doubt_commit_forks_chain\<close>, \<open>rollback_can_remove_every_admin\<close>,
  \<open>interrupted_start_leaves_container\<close>, \<open>redis_failure_ends_sweep\<close>) are concrete runs in which
  the code departs from what it is documented to do.

  \<^bold>\<open>Not modelled.\<close> \<open>signing.py\<close> only calls the cryptography package; \<open>metrics.py\<close> and
  \<open>logging_config.py\<close> configure Prometheus and structlog, and log lines and histograms are
  left out everywhere. \<open>config.py\<close> and \<open>db.py\<close> are modelled as far as the other components
  read them: a row's payload is taken to come back from its JSONB column as it was hashed
  (\<open>rewritten_payload_is_rejected\<close> says what happens otherwise), and what pydantic converts to
  a declared type is left out (PolicySchema). Of \<open>main.py\<close> the wiring of the lifespan and \<open>/health\<close> are left out. Task
  cancellation in \<open>session_manager.py\<close> has no effect on the modelled state; the MCP
  transport is a parameter. Of \<open>cli.py\<close> the argument parser and the rendering of results
  are left out, of \<open>doctor.py\<close> the texts of findings, of \<open>quickstart.py\<close> the progress
  messages and the rendering of its result. Of the scripts only the two verifiers are
  modelled; the demo, release, reset and key-generation scripts drive docker, files and HTTP
  from outside the gateway.
\<close>

end
